(* ===== verification/Prelude.thy ===== *)
theory Prelude
  imports Main "HOL-Library.Word" "HOL-Library.List_Lexorder" "HOL-Library.Sublist"
begin

text \<open>
  Shared ground of the development: the Go values the modelled code computes with
  (byte slices, machine integers, \<^verbatim>\<open>error\<close> results), the sequencing of fallible
  operations on an explicit state, sorted association lists, and the lemma collections
  \<^verbatim>\<open>seq_simps\<close> (running a sequence of operations), \<^verbatim>\<open>codec_simps\<close> (a decoder meets
  what the matching encoder wrote) and \<^verbatim>\<open>bolt_simps\<close> (what a database operation leaves
  behind).
\<close>

named_theorems seq_simps "running sequenced fallible operations"
named_theorems codec_simps "a decoder applied to what its encoder wrote"
named_theorems bolt_simps "observations of the database after an operation"

section \<open>Go values\<close>

type_synonym byte = "8 word"
type_synonym bytes = "8 word list"
type_synonym u16 = "16 word"
type_synonym u32 = "32 word"
type_synonym u64 = "64 word"

lemma sint_small: "n < 2 ^ 63 \<Longrightarrow> sint (word_of_nat n :: u64) = int n"
  by (simp add: signed_of_nat signed_take_bit_int_eq_self)

text \<open>An ASCII string constant of the source as a byte slice.\<close>

definition ascii :: "string \<Rightarrow> bytes" where
  "ascii s = map (\<lambda>c. word_of_nat (of_char c)) s"

lemma length_ascii [simp]: "length (ascii s) = length s"
  by (simp add: ascii_def)

text \<open>
  The errors of the modelled code: those the code compares by identity have a
  constructor of their own, every other \<^verbatim>\<open>errors.New\<close>/\<^verbatim>\<open>fmt.Errorf\<close> keeps its text.
  \<^verbatim>\<open>GoPanic\<close> is a run-time panic (an index out of range), \<^verbatim>\<open>GoBlocked\<close> a goroutine that
  waits on a channel and does not go on.
\<close>

datatype goerr =
    EOF | ErrUnexpectedEOF | ErrMessage string | ErrTweakOverdose | ErrPubKey string
  | ErrTxNotWritable | ErrBucketNotFound | ErrBucketExists | ErrBucketNameRequired
  | ErrKeyRequired | ErrKeyTooLarge | ErrValueTooLarge | ErrIncompatibleValue
  | ErrContractNotFound | ErrImmatureChannel | ErrBucketNotEmpty
  | ErrDoubleSpend | ErrNoActiveChannels
  | ErrInvoiceNotFound | ErrNoInvoicesCreated | ErrDuplicateInvoice | ErrNoWitnesses | ErrUnknownWitnessType
  | ErrChanClosing | ErrChanAlreadyClosing | ErrChanCloseNotFinished | ErrInvalidState
  | ErrReservation string | ErrCode byte | ErrOutdated | ErrIgnored
  | GoErr string
  | GoPanic string
  | GoBlocked string

text \<open>Go's \<^verbatim>\<open>copy(dst, src)\<close>: the common prefix length is overwritten.\<close>

definition go_copy :: "'a list \<Rightarrow> 'a list \<Rightarrow> 'a list" where
  "go_copy dst src = take (length dst) src @ drop (length src) dst"

lemma length_go_copy [simp]: "length (go_copy dst src) = length dst"
  by (simp add: go_copy_def min_def)

lemma go_copy_prefix: "length a = length b \<Longrightarrow> go_copy (a @ c) b = b @ c"
  by (simp add: go_copy_def)

text \<open>\<^verbatim>\<open>bytes.HasPrefix(s, prefix)\<close>.\<close>

definition HasPrefix :: "bytes \<Rightarrow> bytes \<Rightarrow> bool" where
  "HasPrefix s pre \<longleftrightarrow> take (length pre) s = pre"

lemma HasPrefix_append [simp]: "HasPrefix (pre @ xs) pre"
  by (simp add: HasPrefix_def)

lemma HasPrefix_same_length:
  "length a = length b \<Longrightarrow> HasPrefix (a @ xs) b \<longleftrightarrow> a = b"
  by (auto simp: HasPrefix_def)

section \<open>Sequencing fallible operations\<close>

text \<open>
  An operation on a state \<open>'s\<close> (a byte stream being read, a database transaction)
  either fails with an error or returns a value and the next state: Go's
  \<^verbatim>\<open>x, err := op(); if err != nil { return err }\<close>.
\<close>

type_synonym ('s, 'a) op = "'s \<Rightarrow> goerr + 'a \<times> 's"

definition sret :: "'a \<Rightarrow> ('s, 'a) op" where
  "sret x s = Inr (x, s)"

definition sfail :: "goerr \<Rightarrow> ('s, 'a) op" where
  "sfail e s = Inl e"

definition sbind :: "('s, 'a) op \<Rightarrow> ('a \<Rightarrow> ('s, 'b) op) \<Rightarrow> ('s, 'b) op" where
  "sbind m f s = (case m s of Inl e \<Rightarrow> Inl e | Inr (x, s') \<Rightarrow> f x s')"

definition slift :: "goerr + 'a \<Rightarrow> ('s, 'a) op" where
  "slift r s = (case r of Inl e \<Rightarrow> Inl e | Inr x \<Rightarrow> Inr (x, s))"

definition sread :: "('s \<Rightarrow> 'a) \<Rightarrow> ('s, 'a) op" where
  "sread f s = Inr (f s, s)"

text \<open>A loop over a slice whose body may fail and may change the state.\<close>

fun sforeach :: "('a \<Rightarrow> ('s, unit) op) \<Rightarrow> 'a list \<Rightarrow> ('s, unit) op" where
  "sforeach f [] s = Inr ((), s)"
| "sforeach f (x # xs) s = (case f x s of Inl e \<Rightarrow> Inl e | Inr (u, s') \<Rightarrow> sforeach f xs s')"

text \<open>A loop that collects one result per element.\<close>

fun smap :: "('a \<Rightarrow> ('s, 'b) op) \<Rightarrow> 'a list \<Rightarrow> ('s, 'b list) op" where
  "smap f [] s = Inr ([], s)"
| "smap f (x # xs) s =
     (case f x s of Inl e \<Rightarrow> Inl e
      | Inr (y, s') \<Rightarrow> (case smap f xs s' of Inl e \<Rightarrow> Inl e | Inr (ys, s'') \<Rightarrow> Inr (y # ys, s'')))"

text \<open>
  A loop whose body assigns variables declared outside it: they are the accumulator.
\<close>

fun sfold :: "('a \<Rightarrow> 'b \<Rightarrow> ('s, 'b) op) \<Rightarrow> 'a list \<Rightarrow> 'b \<Rightarrow> ('s, 'b) op" where
  "sfold f [] acc s = Inr (acc, s)"
| "sfold f (x # xs) acc s =
     (case f x acc s of Inl e \<Rightarrow> Inl e | Inr (acc', s') \<Rightarrow> sfold f xs acc' s')"

lemma sret_run [seq_simps]: "sret x s = Inr (x, s)"
  by (simp add: sret_def)

lemma sfail_run [seq_simps]: "sfail e s = Inl e"
  by (simp add: sfail_def)

lemma sread_run [seq_simps]: "sread f s = Inr (f s, s)"
  by (simp add: sread_def)

lemma slift_run [seq_simps]: "slift (Inr x) s = Inr (x, s)" "slift (Inl e) s = Inl e"
  by (simp_all add: slift_def)

lemma sbind_Inr: "m s = Inr (x, s') \<Longrightarrow> sbind m f s = f x s'"
  by (simp add: sbind_def)

lemma sbind_Inl: "m s = Inl e \<Longrightarrow> sbind m f s = Inl e"
  by (simp add: sbind_def)

lemma sbind_run [seq_simps]:
  "sbind (sret x) f s = f x s" "sbind (sfail e) f s = Inl e" "sbind (sread g) f s = f (g s) s"
  "sbind (slift (Inr y)) f s = f y s" "sbind (slift (Inl e)) f s = Inl e"
  by (simp_all add: sbind_def seq_simps)

lemma sbind_eq_Inr:
  "sbind m f s = Inr (y, t) \<longleftrightarrow> (\<exists>x u. m s = Inr (x, u) \<and> f x u = Inr (y, t))"
  by (auto simp: sbind_def split: sum.splits)

lemma sforeach_append:
  "sforeach f (xs @ ys) s =
     (case sforeach f xs s of Inl e \<Rightarrow> Inl e | Inr (u, s') \<Rightarrow> sforeach f ys s')"
  by (induction xs arbitrary: s) (auto split: sum.splits)

text \<open>The invariant rule of a loop that may fail: here, that it does not.\<close>

lemma sforeach_inv:
  assumes "I xs s"
    and "\<And>x xs s. I (x # xs) s \<Longrightarrow> \<exists>t. f x s = Inr ((), t) \<and> I xs t"
  shows "\<exists>t. sforeach f xs s = Inr ((), t) \<and> I [] t"
  using assms(1)
proof (induction xs arbitrary: s)
  case Nil
  then show ?case by simp
next
  case (Cons x xs)
  from assms(2) [OF Cons.prems] obtain t where "f x s = Inr ((), t)" "I xs t" by blast
  with Cons.IH show ?case by force
qed

text \<open>
  Total correctness of an operation: it does not fail, and its result and next state
  satisfy \<open>Q\<close>. The rules below run a sequence of operations forwards.
\<close>

definition succeeds :: "('s, 'a) op \<Rightarrow> 's \<Rightarrow> ('a \<Rightarrow> 's \<Rightarrow> bool) \<Rightarrow> bool" where
  "succeeds m s Q \<longleftrightarrow> (\<exists>x t. m s = Inr (x, t) \<and> Q x t)"

lemma succeedsI: "m s = Inr (x, t) \<Longrightarrow> Q x t \<Longrightarrow> succeeds m s Q"
  by (auto simp: succeeds_def)

lemma succeedsE:
  assumes "succeeds m s Q"
  obtains x t where "m s = Inr (x, t)" "Q x t"
  using assms by (auto simp: succeeds_def)

lemma succeeds_mono: "succeeds m s P \<Longrightarrow> (\<And>x t. P x t \<Longrightarrow> Q x t) \<Longrightarrow> succeeds m s Q"
  by (auto simp: succeeds_def)

lemma succeeds_sbind:
  "succeeds m s P \<Longrightarrow> (\<And>x t. P x t \<Longrightarrow> succeeds (f x) t Q) \<Longrightarrow> succeeds (sbind m f) s Q"
  by (fastforce simp: succeeds_def sbind_def)

lemma succeeds_sret [simp]: "succeeds (sret x) s Q \<longleftrightarrow> Q x s"
  by (simp add: succeeds_def sret_def)

lemma succeeds_sread_bind [simp]: "succeeds (sbind (sread g) f) s Q \<longleftrightarrow> succeeds (f (g s)) s Q"
  by (simp add: succeeds_def seq_simps)

lemma succeeds_slift_bind [simp]:
  "succeeds (sbind (slift (Inr x)) f) s Q \<longleftrightarrow> succeeds (f x) s Q"
  by (simp add: succeeds_def seq_simps)

lemma succeeds_sforeach:
  assumes "I xs s"
    and "\<And>x xs s. I (x # xs) s \<Longrightarrow> succeeds (f x) s (\<lambda>_ t. I xs t)"
  shows "succeeds (sforeach f xs) s (\<lambda>_ t. I [] t)"
  using sforeach_inv [of I xs s f] assms by (auto simp: succeeds_def)

lemma succeeds_sfold:
  assumes "I xs a s"
    and "\<And>x xs a s. I (x # xs) a s \<Longrightarrow> succeeds (f x a) s (\<lambda>a' t. I xs a' t)"
  shows "succeeds (sfold f xs a) s (\<lambda>a' t. I [] a' t)"
  using assms(1)
proof (induction xs arbitrary: a s)
  case Nil
  then show ?case by (simp add: succeeds_def)
next
  case (Cons x xs)
  obtain a' t where "f x a s = Inr (a', t)" "I xs a' t"
    using assms(2) [OF Cons.prems] by (auto simp: succeeds_def)
  with Cons.IH [of a' t] show ?case by (simp add: succeeds_def)
qed

text \<open>Loops that only read the state.\<close>

lemma sfold_pure:
  "(\<And>x a. x \<in> set xs \<Longrightarrow> f x a s = Inr (g x a, s)) \<Longrightarrow> sfold f xs a s = Inr (fold g xs a, s)"
  by (induction xs arbitrary: a) auto

lemma sfold_check:
  "(\<And>x. x \<in> set xs \<Longrightarrow> f x () s = (if P x then Inr ((), s) else Inl e)) \<Longrightarrow>
     sfold f xs () s = (if \<forall>x \<in> set xs. P x then Inr ((), s) else Inl e)"
  by (induction xs) auto

lemma fold_append_map: "fold (\<lambda>x a. a @ [g x]) xs a = a @ map g xs"
  by (induction xs arbitrary: a) auto

lemma fold_append_concat: "fold (\<lambda>x a. a @ g x) xs a = a @ concat (map g xs)"
  by (induction xs arbitrary: a) auto

section \<open>Effects that outlive an error\<close>

text \<open>
  A handler of a running subsystem: what it had done to the world when an error stops it
  (transactions broadcast, database transactions committed) stays done.
\<close>

type_synonym ('w, 'a) io = "'w \<Rightarrow> (goerr + 'a) \<times> 'w"

definition iret :: "'a \<Rightarrow> ('w, 'a) io" where
  "iret x w = (Inr x, w)"

definition ifail :: "goerr \<Rightarrow> ('w, 'a) io" where
  "ifail e w = (Inl e, w)"

definition ilift :: "goerr + 'a \<Rightarrow> ('w, 'a) io" where
  "ilift r w = (r, w)"

definition ibind :: "('w, 'a) io \<Rightarrow> ('a \<Rightarrow> ('w, 'b) io) \<Rightarrow> ('w, 'b) io" where
  "ibind m f w = (case m w of (Inl e, w') \<Rightarrow> (Inl e, w') | (Inr x, w') \<Rightarrow> f x w')"

definition iget :: "('w \<Rightarrow> 'a) \<Rightarrow> ('w, 'a) io" where
  "iget f w = (Inr (f w), w)"

definition imod :: "('w \<Rightarrow> 'w) \<Rightarrow> ('w, unit) io" where
  "imod f w = (Inr (), f w)"

text \<open>A call whose error is looked at, or only logged, by the caller.\<close>

definition itry :: "('w, 'a) io \<Rightarrow> ('w, goerr + 'a) io" where
  "itry m w = (case m w of (r, w') \<Rightarrow> (Inr r, w'))"

text \<open>A call that returns an error or nil.\<close>

definition fails :: "goerr option \<Rightarrow> ('w, unit) io" where
  "fails r = (case r of None \<Rightarrow> iret () | Some e \<Rightarrow> ifail e)"

text \<open>
  \<^verbatim>\<open>x, err := m(); if err != nil { bad(err) } else { good(x) }\<close>: unlike an error, a panic or a
  blocked goroutine is not a value the caller gets to see.
\<close>

fun stops :: "goerr \<Rightarrow> bool" where
  "stops (GoPanic s) = True"
| "stops (GoBlocked s) = True"
| "stops e = False"

definition ion :: "('w, 'a) io \<Rightarrow> (goerr \<Rightarrow> ('w, 'b) io) \<Rightarrow> ('a \<Rightarrow> ('w, 'b) io) \<Rightarrow> ('w, 'b) io" where
  "ion m bad good w =
     (case m w of (Inl e, w') \<Rightarrow> if stops e then (Inl e, w') else bad e w' | (Inr x, w') \<Rightarrow> good x w')"

definition ilogged :: "('w, 'a) io \<Rightarrow> ('w, unit) io" where
  "ilogged m = ion m (\<lambda>_. iret ()) (\<lambda>_. iret ())"

fun iforeach :: "('a \<Rightarrow> ('w, unit) io) \<Rightarrow> 'a list \<Rightarrow> ('w, unit) io" where
  "iforeach f [] w = (Inr (), w)"
| "iforeach f (x # xs) w = (case f x w of (Inl e, w') \<Rightarrow> (Inl e, w') | (Inr _, w') \<Rightarrow> iforeach f xs w')"

named_theorems io_simps "running a handler"

lemma io_run [io_simps]:
  "iret x w = (Inr x, w)" "ifail e w = (Inl e, w)" "ilift r w = (r, w)" "iget g w = (Inr (g w), w)"
  "imod h w = (Inr (), h w)"
  by (simp_all add: iret_def ifail_def ilift_def iget_def imod_def)

lemma ibind_run [io_simps]:
  "ibind (iret x) f w = f x w" "ibind (ifail e) f w = (Inl e, w)"
  "ibind (ilift (Inl e)) f w = (Inl e, w)" "ibind (ilift (Inr y)) f w = f y w"
  "ibind (iget g) f w = f (g w) w" "ibind (imod h) k w = k () (h w)"
  by (simp_all add: ibind_def io_run)

lemma ibind_assoc: "ibind (ibind m f) g = ibind m (\<lambda>x. ibind (f x) g)"
  by (rule ext) (simp add: ibind_def split: prod.split sum.split)

lemma ibind_Inr: "m w = (Inr x, w') \<Longrightarrow> ibind m f w = f x w'"
  by (simp add: ibind_def)

lemma ibind_Inl: "m w = (Inl e, w') \<Longrightarrow> ibind m f w = (Inl e, w')"
  by (simp add: ibind_def)

text \<open>A loop that ran to its end: the invariant holds, and what each round achieved is still there.\<close>

lemma iforeach_all:
  assumes "iforeach f xs w = (Inr (), w')" "I w"
    and step: "\<And>x w w1. x \<in> set xs \<Longrightarrow> I w \<Longrightarrow> f x w = (Inr (), w1) \<Longrightarrow> I w1 \<and> Q x w1"
    and stays: "\<And>x y w w1. y \<in> set xs \<Longrightarrow> I w \<Longrightarrow> f y w = (Inr (), w1) \<Longrightarrow> Q x w \<Longrightarrow> Q x w1"
  shows "I w' \<and> (\<forall>x \<in> set xs. Q x w') \<and> (\<forall>x. Q x w \<longrightarrow> Q x w')"
  using assms
proof (induction xs arbitrary: w)
  case (Cons x xs)
  obtain w1 where w1: "f x w = (Inr (), w1)" "iforeach f xs w1 = (Inr (), w')"
    using Cons.prems(1) by (auto split: prod.splits sum.splits)
  have I1: "I w1" "Q x w1" using Cons.prems(3) [OF _ Cons.prems(2) w1(1)] by simp_all
  have IH: "I w' \<and> (\<forall>x \<in> set xs. Q x w') \<and> (\<forall>x. Q x w1 \<longrightarrow> Q x w')"
    using Cons.prems(3,4) by (intro Cons.IH [OF w1(2) I1(1)]) (meson list.set_intros(2))+
  moreover have "Q y w1" if "Q y w" for y using Cons.prems(4) [OF _ Cons.prems(2) w1(1) that] by simp
  ultimately show ?case using I1(2) by auto
qed simp

lemma iforeach_ok:
  assumes "I w" "\<And>x w. x \<in> set xs \<Longrightarrow> I w \<Longrightarrow> \<exists>w'. f x w = (Inr (), w') \<and> I w'"
  shows "\<exists>w'. iforeach f xs w = (Inr (), w') \<and> I w'"
  using assms
proof (induction xs arbitrary: w)
  case (Cons x xs)
  then obtain w1 where w1: "f x w = (Inr (), w1)" "I w1" by (meson list.set_intros(1))
  with Cons.IH [OF w1(2)] Cons.prems(2) show ?case by simp
qed simp

lemma iforeach_snoc:
  "iforeach f (xs @ [x]) w = (Inr (), w') \<longleftrightarrow> (\<exists>w1. iforeach f xs w = (Inr (), w1) \<and> f x w1 = (Inr (), w'))"
  by (induction xs arbitrary: w) (auto split: prod.splits sum.splits)

text \<open>An invariant kept by every step of a handler is kept by the handler, error or not.\<close>

definition keeps :: "('w \<Rightarrow> bool) \<Rightarrow> ('w, 'a) io \<Rightarrow> bool" where
  "keeps I m \<longleftrightarrow> (\<forall>w. I w \<longrightarrow> I (snd (m w)))"

lemma keepsI: "(\<And>w. I w \<Longrightarrow> I (snd (m w))) \<Longrightarrow> keeps I m"
  by (simp add: keeps_def)

lemma keepsD: "keeps I m \<Longrightarrow> I w \<Longrightarrow> m w = (r, w') \<Longrightarrow> I w'"
  unfolding keeps_def by (metis snd_conv)

lemma keeps_run: "keeps I m \<Longrightarrow> I w \<Longrightarrow> I (snd (m w))"
  by (simp add: keeps_def)

lemma keeps_pure [simp, intro]: "keeps I (iret x)" "keeps I (ifail e)" "keeps I (ilift r)" "keeps I (iget g)"
  by (simp_all add: keeps_def io_run)

lemma keeps_bind:
  assumes "keeps I m" "\<And>x. keeps I (f x)"
  shows "keeps I (ibind m f)"
proof (rule keepsI)
  fix w assume "I w"
  obtain r w' where mw: "m w = (r, w')" by (cases "m w")
  with assms(1) \<open>I w\<close> have "I w'" by (rule keepsD)
  then show "I (snd (ibind m f w))"
    using assms(2) mw by (cases r) (auto simp: ibind_def keeps_def)
qed

lemma ibind_itry [io_simps]: "ibind (itry m) f w = f (fst (m w)) (snd (m w))"
  by (simp add: ibind_def itry_def split: prod.split)

lemma keeps_itry: "keeps I m \<Longrightarrow> keeps I (itry m)"
  by (simp add: keeps_def itry_def case_prod_unfold)

lemma keeps_ion:
  assumes "keeps I m" "\<And>e. keeps I (bad e)" "\<And>x. keeps I (good x)"
  shows "keeps I (ion m bad good)"
proof (rule keepsI)
  fix w assume "I w"
  obtain r w' where mw: "m w = (r, w')" by (cases "m w")
  with assms(1) \<open>I w\<close> have "I w'" by (rule keepsD)
  then show "I (snd (ion m bad good w))"
    using assms(2,3) mw by (cases r) (auto simp: ion_def keeps_def)
qed

lemma keeps_ilogged: "keeps I m \<Longrightarrow> keeps I (ilogged m)"
  by (simp add: ilogged_def keeps_ion)

lemma keeps_fails [simp, intro]: "keeps I (fails r)"
  by (simp add: fails_def split: option.split)

lemma keeps_iforeach:
  assumes "\<And>x. x \<in> set xs \<Longrightarrow> keeps I (f x)"
  shows "keeps I (iforeach f xs)"
proof (rule keepsI)
  show "I w \<Longrightarrow> I (snd (iforeach f xs w))" for w
    using assms
  proof (induction xs arbitrary: w)
    case (Cons x xs)
    obtain r w' where fw: "f x w = (r, w')" by (cases "f x w")
    with Cons.prems have "I w'" by (auto intro: keepsD)
    with Cons.IH [of w'] Cons.prems fw show ?case by (cases r) auto
  qed simp
qed

lemma keeps_If: "keeps I a \<Longrightarrow> keeps I b \<Longrightarrow> keeps I (if c then a else b)"
  by simp

section \<open>Sorted lists\<close>

lemma sorted_wrt_unique:
  assumes asym: "\<And>a b. R a b \<Longrightarrow> \<not> R b a"
    and "sorted_wrt R xs" "sorted_wrt R ys" "set xs = set ys"
  shows "xs = ys"
  using assms(2-)
proof (induction xs arbitrary: ys)
  case (Cons x xs)
  then obtain y ys' where ys: "ys = y # ys'" by (cases ys) auto
  have xy: "x = y"
  proof (rule ccontr)
    assume "x \<noteq> y"
    with Cons.prems have "y \<in> set xs" "x \<in> set ys'" by (auto simp: ys)
    with Cons.prems have "R x y" "R y x" by (auto simp: ys)
    with asym show False by blast
  qed
  have "\<not> R x x" using asym by blast
  then have "x \<notin> set xs" "x \<notin> set ys'" using Cons.prems xy by (auto simp: ys)
  with Cons.prems(3) have "set xs = set ys'" by (auto simp: ys xy)
  with Cons.IH [of ys'] Cons.prems show ?case by (simp add: ys xy)
qed simp

section \<open>Sorted association lists\<close>

text \<open>
  A bucket of the database is a list of entries in increasing key order. The lookup laws
  hold for any list; the order is kept and matters only where entries are enumerated.
\<close>

fun al_put :: "'k::linorder \<Rightarrow> 'v \<Rightarrow> ('k \<times> 'v) list \<Rightarrow> ('k \<times> 'v) list" where
  "al_put k v [] = [(k, v)]"
| "al_put k v ((a, b) # es) =
     (if k < a then (k, v) # (a, b) # es
      else if k = a then (k, v) # es
      else (a, b) # al_put k v es)"

definition al_del :: "'k \<Rightarrow> ('k \<times> 'v) list \<Rightarrow> ('k \<times> 'v) list" where
  "al_del k es = filter (\<lambda>e. fst e \<noteq> k) es"

definition al_sorted :: "('k::linorder \<times> 'v) list \<Rightarrow> bool" where
  "al_sorted es \<longleftrightarrow> sorted_wrt (<) (map fst es)"

lemma map_of_al_put [simp]: "map_of (al_put k v es) = (map_of es)(k \<mapsto> v)"
  by (induction es) auto

lemma map_of_al_del [simp]: "map_of (al_del k es) = (map_of es)(k := None)"
  by (induction es) (auto simp: al_del_def)

lemma set_keys_al_put: "fst ` set (al_put k v es) = insert k (fst ` set es)"
proof (induction es)
  case (Cons e es)
  obtain a b where "e = (a, b)" by (cases e)
  with Cons show ?case by (auto simp: image_iff)
qed simp

lemma set_al_put_subset: "set (al_put k v es) \<subseteq> insert (k, v) (set es)"
  by (induction k v es rule: al_put.induct) auto

lemma al_sorted_put: "al_sorted es \<Longrightarrow> al_sorted (al_put k v es)"
proof (induction es)
  case Nil
  then show ?case by (simp add: al_sorted_def)
next
  case (Cons e es)
  obtain a b where e: "e = (a, b)" by (cases e)
  have rest: "al_sorted (al_put k v es)"
    using Cons by (simp add: al_sorted_def)
  have "\<forall>x \<in> fst ` set (al_put k v es). a < x" if "a < k"
    using Cons.prems that by (auto simp: al_sorted_def e set_keys_al_put)
  with Cons.prems rest show ?case
    by (fastforce simp: al_sorted_def e)
qed

lemma al_sorted_del: "al_sorted es \<Longrightarrow> al_sorted (al_del k es)"
  unfolding al_sorted_def al_del_def by (simp add: sorted_wrt_filter sorted_wrt_map)

lemma al_sorted_distinct: "al_sorted es \<Longrightarrow> distinct (map fst es)"
  by (simp add: al_sorted_def strict_sorted_iff)

lemma al_sorted_map_of: "al_sorted es \<Longrightarrow> (k, v) \<in> set es \<longleftrightarrow> map_of es k = Some v"
  by (auto simp: al_sorted_distinct dest: map_of_SomeD)

end
