(* ===== verification/GoIO.thy ===== *)
theory GoIO
  imports Prelude
begin

text \<open>
  Byte streams. A reader is an operation on the bytes still to be read; a writer of the
  code appends to an in-memory buffer, which cannot fail, so an encoder is the function
  that gives the bytes it appends. Modelled here are the parts of \<^verbatim>\<open>io\<close> and
  \<^verbatim>\<open>encoding/binary\<close> the code uses and the variable-length integers and byte
  arrays of the vendored \<^verbatim>\<open>btcd/wire\<close> package, with their round trips.
\<close>

section \<open>Fixed-width integers\<close>

text \<open>Big-endian bytes of a number, most significant byte first, and back.\<close>

fun be_enc :: "nat \<Rightarrow> nat \<Rightarrow> bytes" where
  "be_enc 0 x = []"
| "be_enc (Suc n) x = be_enc n (x div 256) @ [word_of_nat x]"

definition be_dec :: "bytes \<Rightarrow> nat" where
  "be_dec bs = foldl (\<lambda>a b. 256 * a + unat b) 0 bs"

lemma length_be_enc [simp]: "length (be_enc n x) = n"
  by (induction n arbitrary: x) auto

lemma be_dec_snoc: "be_dec (bs @ [b]) = 256 * be_dec bs + unat b"
  by (simp add: be_dec_def)

lemma be_dec_Nil [simp]: "be_dec [] = 0"
  by (simp add: be_dec_def)

lemma unat_byte_of_nat: "unat (word_of_nat x :: byte) = x mod 256"
  by (simp add: unat_of_nat)

lemma be_dec_enc: "x < 256 ^ n \<Longrightarrow> be_dec (be_enc n x) = x"
proof (induction n arbitrary: x)
  case (Suc n)
  have "x div 256 < 256 ^ n"
    using Suc.prems by (simp add: less_mult_imp_div_less mult.commute)
  then show ?case by (simp add: be_dec_snoc Suc.IH unat_byte_of_nat)
qed simp

lemma unat_byte_lt: "unat (b :: byte) < 256"
  using unsigned_less [of b] by simp

lemma be_enc_dec: "be_enc (length bs) (be_dec bs) = bs"
proof (induction bs rule: rev_induct)
  case (snoc b bs)
  have "unat b < 256" by (rule unat_byte_lt)
  moreover have "(word_of_nat (256 * m + unat b) :: byte) = b" for m
  proof -
    have "(256 :: byte) = 0" by simp
    then show ?thesis by (simp only: of_nat_add of_nat_mult of_nat_numeral unsigned_of_nat) simp
  qed
  ultimately show ?case using snoc
    by (simp add: be_dec_snoc)
qed simp

lemma be_dec_lt: "be_dec bs < 256 ^ length bs"
proof (induction bs rule: rev_induct)
  case (snoc b bs)
  have "unat b < 256" by (rule unat_byte_lt)
  with snoc show ?case by (simp add: be_dec_snoc)
qed simp

text \<open>
  Big-endian encodings of one width compare as byte strings the way the numbers compare:
  a cursor over big-endian keys enumerates them in numeric order.
\<close>

lemma append_less_same_length:
  fixes xs ys :: "'a::linorder list"
  assumes "length xs = length ys"
  shows "xs @ us < ys @ vs \<longleftrightarrow> xs < ys \<or> xs = ys \<and> us < vs"
  using assms by (induction xs ys rule: list_induct2) auto

lemma less_by_digits:
  fixes x y :: nat
  shows "x < y \<longleftrightarrow> x div 256 < y div 256 \<or> x div 256 = y div 256 \<and> x mod 256 < y mod 256"
proof -
  have split: "x = 256 * (x div 256) + x mod 256" "y = 256 * (y div 256) + y mod 256"
    by simp_all
  moreover have "x mod 256 < 256" "y mod 256 < 256" by simp_all
  ultimately show ?thesis by linarith
qed

lemma be_enc_less:
  assumes "x < 256 ^ n" "y < 256 ^ n"
  shows "be_enc n x < be_enc n y \<longleftrightarrow> x < y"
  using assms
proof (induction n arbitrary: x y)
  case (Suc n)
  let ?q = "\<lambda>x. x div 256"
  have bounds: "?q x < 256 ^ n" "?q y < 256 ^ n"
    using Suc.prems by (simp_all add: less_mult_imp_div_less mult.commute)
  have "be_enc n (?q x) = be_enc n (?q y) \<longleftrightarrow> ?q x = ?q y"
    using be_dec_enc [OF bounds(1)] be_dec_enc [OF bounds(2)] by metis
  moreover have "(word_of_nat x :: byte) < word_of_nat y \<longleftrightarrow> x mod 256 < y mod 256"
    by (simp add: word_less_nat_alt unat_byte_of_nat)
  moreover have "x < y \<longleftrightarrow> ?q x < ?q y \<or> ?q x = ?q y \<and> x mod 256 < y mod 256"
    by (rule less_by_digits)
  ultimately show ?case
    by (simp only: be_enc.simps append_less_same_length length_be_enc Suc.IH [OF bounds])
      (simp add: append_less_same_length)
qed simp

text \<open>
  \<^verbatim>\<open>binary.BigEndian.PutUint32\<close> and its kin. The getters read the leading bytes of a
  slice, as the Go ones do; a slice that is too short is a panic, which the callers that
  can meet one check for.
\<close>

definition PutUint16 :: "u16 \<Rightarrow> bytes" where "PutUint16 w = be_enc 2 (unat w)"
definition PutUint32 :: "u32 \<Rightarrow> bytes" where "PutUint32 w = be_enc 4 (unat w)"
definition PutUint64 :: "u64 \<Rightarrow> bytes" where "PutUint64 w = be_enc 8 (unat w)"
definition Uint16 :: "bytes \<Rightarrow> u16" where "Uint16 bs = word_of_nat (be_dec (take 2 bs))"
definition Uint32 :: "bytes \<Rightarrow> u32" where "Uint32 bs = word_of_nat (be_dec (take 4 bs))"
definition Uint64 :: "bytes \<Rightarrow> u64" where "Uint64 bs = word_of_nat (be_dec (take 8 bs))"

lemma length_PutUint [simp]:
  "length (PutUint16 a) = 2" "length (PutUint32 b) = 4" "length (PutUint64 c) = 8"
  by (simp_all add: PutUint16_def PutUint32_def PutUint64_def)

lemma PutUint_nonempty [simp]: "PutUint16 a \<noteq> []" "PutUint32 b \<noteq> []" "PutUint64 c \<noteq> []"
  by (simp_all add: PutUint16_def PutUint32_def PutUint64_def flip: length_greater_0_conv)

lemma unat_lt_bytes:
  "unat (a :: u16) < 256 ^ 2" "unat (b :: u32) < 256 ^ 4" "unat (c :: u64) < 256 ^ 8"
  using unsigned_less [of a] unsigned_less [of b] unsigned_less [of c] by simp_all

lemma Uint16_Put [codec_simps]: "Uint16 (PutUint16 w @ r) = w"
  by (simp add: Uint16_def PutUint16_def be_dec_enc [OF unat_lt_bytes(1)])

lemma Uint32_Put [codec_simps]: "Uint32 (PutUint32 w @ r) = w"
  by (simp add: Uint32_def PutUint32_def be_dec_enc [OF unat_lt_bytes(2)])

lemma Uint64_Put [codec_simps]: "Uint64 (PutUint64 w @ r) = w"
  by (simp add: Uint64_def PutUint64_def be_dec_enc [OF unat_lt_bytes(3)])

lemmas Uint_Put0 [codec_simps] =
  Uint16_Put [where r = "[]", simplified] Uint32_Put [where r = "[]", simplified]
  Uint64_Put [where r = "[]", simplified]

lemma PutUint32_inject [simp]: "PutUint32 a = PutUint32 b \<longleftrightarrow> a = b"
  by (metis Uint_Put0(2))

lemma PutUint32_less: "PutUint32 a < PutUint32 b \<longleftrightarrow> a < b"
  by (simp add: PutUint32_def be_enc_less [OF unat_lt_bytes(2) unat_lt_bytes(2)] word_less_nat_alt)

lemma PutUint32_le: "PutUint32 a \<le> PutUint32 b \<longleftrightarrow> a \<le> b"
  by (metis PutUint32_inject PutUint32_less order_le_less)

lemma PutUint32_Uint32: "length bs = 4 \<Longrightarrow> PutUint32 (Uint32 bs) = bs"
proof -
  assume len: "length bs = 4"
  then have "be_dec bs < 2 ^ 32" using be_dec_lt [of bs] by simp
  then show ?thesis
    using be_enc_dec [of bs] len by (simp add: PutUint32_def Uint32_def unat_of_nat)
qed

section \<open>Readers\<close>

text \<open>
  \<^verbatim>\<open>r.Read(buf)\<close> on an in-memory reader: at the end of the stream \<^verbatim>\<open>io.EOF\<close>, otherwise
  as many bytes as there are, at most the length of the buffer. A short read is not an
  error: the rest of the buffer keeps what it held.
\<close>

definition Read :: "bytes \<Rightarrow> (bytes, bytes) op" where
  "Read buf s =
     (if s = [] then Inl EOF
      else Inr (take (length buf) s @ drop (length s) buf, drop (length buf) s))"

text \<open>\<^verbatim>\<open>io.ReadFull\<close>: exactly \<open>n\<close> bytes, or an error.\<close>

definition ReadFull :: "nat \<Rightarrow> (bytes, bytes) op" where
  "ReadFull n s =
     (if n \<le> length s then Inr (take n s, drop n s)
      else if s = [] then Inl EOF
      else Inl ErrUnexpectedEOF)"

text \<open>\<^verbatim>\<open>io.LimitReader(r, n)\<close>: the reader sees at most the next \<open>n\<close> bytes.\<close>

definition LimitReader :: "nat \<Rightarrow> (bytes, 'a) op \<Rightarrow> (bytes, 'a) op" where
  "LimitReader n rd s =
     (case rd (take n s) of Inl e \<Rightarrow> Inl e | Inr (x, s') \<Rightarrow> Inr (x, s' @ drop n s))"

lemma Read_exact: "length b = length buf \<Longrightarrow> b \<noteq> [] \<Longrightarrow> Read buf (b @ s) = Inr (b, s)"
  by (simp add: Read_def)

lemma Read_exact' : "length b = length buf \<Longrightarrow> b \<noteq> [] \<Longrightarrow> Read buf b = Inr (b, [])"
  using Read_exact [of b buf "[]"] by simp

lemma ReadFull_exact: "length b = n \<Longrightarrow> ReadFull n (b @ s) = Inr (b, s)"
  by (auto simp: ReadFull_def)

lemma LimitReader_exact:
  assumes "\<And>s. rd (b @ s) = Inr (x, s)" "length b \<le> n"
  shows "LimitReader n rd (b @ s) = Inr (x, s)"
  using assms by (simp add: LimitReader_def)

text \<open>\<^verbatim>\<open>binary.Write\<close>/\<^verbatim>\<open>binary.Read\<close> of a \<^verbatim>\<open>bool\<close> and of a \<^verbatim>\<open>uint32\<close>.\<close>

definition write_bool :: "bool \<Rightarrow> bytes" where
  "write_bool b = [if b then 1 else 0]"

definition read_bool :: "(bytes, bool) op" where
  "read_bool = sbind (ReadFull 1) (\<lambda>b. sret (hd b \<noteq> 0))"

definition read_u32 :: "(bytes, u32) op" where
  "read_u32 = sbind (ReadFull 4) (\<lambda>b. sret (Uint32 b))"

lemma read_bool_write [codec_simps]: "read_bool (write_bool b @ s) = Inr (b, s)"
  by (simp add: read_bool_def write_bool_def sbind_def ReadFull_def seq_simps)

lemma read_u32_Put [codec_simps]: "read_u32 (PutUint32 w @ s) = Inr (w, s)"
  by (simp add: read_u32_def sbind_def ReadFull_exact seq_simps codec_simps)

lemma length_write_bool [simp]: "length (write_bool b) = 1"
  by (simp add: write_bool_def)

section \<open>Variable-length integers and byte arrays\<close>

text \<open>Little-endian integers, as \<^verbatim>\<open>wire\<close> writes them.\<close>

definition le_enc :: "nat \<Rightarrow> nat \<Rightarrow> bytes" where "le_enc n x = rev (be_enc n x)"
definition le_dec :: "bytes \<Rightarrow> nat" where "le_dec bs = be_dec (rev bs)"

lemma length_le_enc [simp]: "length (le_enc n x) = n"
  by (simp add: le_enc_def)

lemma le_dec_enc: "x < 256 ^ n \<Longrightarrow> le_dec (le_enc n x) = x"
  by (simp add: le_dec_def le_enc_def be_dec_enc)

definition read_le :: "nat \<Rightarrow> (bytes, nat) op" where
  "read_le n = sbind (ReadFull n) (\<lambda>b. sret (le_dec b))"

lemma read_le_enc: "x < 256 ^ n \<Longrightarrow> read_le n (le_enc n x @ s) = Inr (x, s)"
  by (simp add: read_le_def sbind_def ReadFull_exact seq_simps le_dec_enc)

definition WriteVarInt :: "u64 \<Rightarrow> bytes" where
  "WriteVarInt val =
     (if val < 0xfd then [ucast val]
      else if val \<le> 0xffff then 0xfd # le_enc 2 (unat val)
      else if val \<le> 0xffffffff then 0xfe # le_enc 4 (unat val)
      else 0xff # le_enc 8 (unat val))"

definition canonical :: "u64 \<Rightarrow> nat \<Rightarrow> (bytes, u64) op" where
  "canonical least rv =
     (let v = word_of_nat rv in
      if v < least then sfail (ErrMessage ''non-canonical varint'') else sret v)"

definition ReadVarInt :: "(bytes, u64) op" where
  "ReadVarInt = sbind (ReadFull 1) (\<lambda>b.
     let discriminant = hd b in
     if discriminant = 0xff then sbind (read_le 8) (canonical 0x100000000)
     else if discriminant = 0xfe then sbind (read_le 4) (canonical 0x10000)
     else if discriminant = 0xfd then sbind (read_le 2) (canonical 0xfd)
     else sret (ucast discriminant))"

definition WriteVarBytes :: "bytes \<Rightarrow> bytes" where
  "WriteVarBytes bs = WriteVarInt (word_of_nat (length bs)) @ bs"

definition ReadVarBytes :: "nat \<Rightarrow> (bytes, bytes) op" where
  "ReadVarBytes maxAllowed = sbind ReadVarInt (\<lambda>count.
     if maxAllowed < unat count then sfail (ErrMessage ''larger than the max allowed size'')
     else ReadFull (unat count))"

lemma unat_u64_lt: "unat (v :: u64) < 256 ^ 8"
  using unsigned_less [of v] by simp

lemma canonical_run [seq_simps]:
  "\<not> v < least \<Longrightarrow> canonical least (unat v) s = Inr (v, s)"
  by (simp add: canonical_def sret_def)

lemma ReadVarInt_Write [codec_simps]: "ReadVarInt (WriteVarInt v @ s) = Inr (v, s)"
proof -
  consider "v < 0xfd" | "\<not> v < 0xfd" "v \<le> 0xffff" | "\<not> v \<le> 0xffff" "v \<le> 0xffffffff"
    | "\<not> v \<le> 0xffffffff" by blast
  then show ?thesis
  proof cases
    case 1
    then have "unat v < 253" by (simp add: word_less_nat_alt)
    then have u: "unat (ucast v :: byte) = unat v"
      by (simp add: unsigned_ucast_eq take_bit_eq_mod)
    then have "ucast v \<noteq> (0xff :: byte)" "ucast v \<noteq> (0xfe :: byte)" "ucast v \<noteq> (0xfd :: byte)"
      using \<open>unat v < 253\<close> by auto
    moreover have "ucast (ucast v :: byte) = v"
      by (simp add: word_unat_eq_iff unsigned_ucast_eq take_bit_eq_mod unat_mod less_trans [OF \<open>unat v < 253\<close>])
    ultimately show ?thesis
      using 1 by (simp add: ReadVarInt_def WriteVarInt_def sbind_def ReadFull_def seq_simps Let_def)
  next
    case 2
    then have "unat v < 256 ^ 2" by (simp add: word_le_nat_alt)
    with 2 show ?thesis
      by (simp add: ReadVarInt_def WriteVarInt_def sbind_def ReadFull_def read_le_enc seq_simps)
  next
    case 3
    then have "unat v < 256 ^ 4" and "\<not> v < 0xfd" "\<not> v < 0x10000"
      by (simp_all add: word_le_nat_alt word_less_nat_alt)
    with 3 show ?thesis
      by (simp add: ReadVarInt_def WriteVarInt_def sbind_def ReadFull_def read_le_enc seq_simps)
  next
    case 4
    then have "\<not> v < 0xfd" "\<not> v \<le> 0xffff" "\<not> v < 0x100000000"
      by (simp_all add: word_le_nat_alt word_less_nat_alt)
    with 4 unat_u64_lt [of v] show ?thesis
      by (simp add: ReadVarInt_def WriteVarInt_def sbind_def ReadFull_def read_le_enc seq_simps)
  qed
qed

lemma unat_length: "length bs < 2 ^ 64 \<Longrightarrow> unat (word_of_nat (length bs) :: u64) = length bs"
  by (simp add: unat_of_nat)

lemma ReadVarBytes_Write [codec_simps]:
  assumes "length bs \<le> m" "m < 2 ^ 32"
  shows "ReadVarBytes m (WriteVarBytes bs @ s) = Inr (bs, s)"
proof -
  have "unat (word_of_nat (length bs) :: u64) = length bs"
    using assms by (intro unat_length) simp
  with assms show ?thesis
    by (simp add: ReadVarBytes_def WriteVarBytes_def sbind_def codec_simps ReadFull_exact)
qed

lemma length_WriteVarBytes_small:
  "length bs < 253 \<Longrightarrow> WriteVarBytes bs = word_of_nat (length bs) # bs"
proof -
  assume "length bs < 253"
  then have "(word_of_nat (length bs) :: u64) < 0xfd"
    by (simp add: word_less_nat_alt unat_of_nat)
  then show ?thesis
    using \<open>length bs < 253\<close> by (simp add: WriteVarBytes_def WriteVarInt_def unsigned_of_nat take_bit_eq_mod)
qed

lemma length_WriteVarInt_le: "length (WriteVarInt v) \<le> 9"
  by (simp add: WriteVarInt_def)

lemma length_WriteVarBytes_le: "length (WriteVarBytes bs) \<le> length bs + 9"
  using length_WriteVarInt_le [of "word_of_nat (length bs)"] by (simp add: WriteVarBytes_def)

section \<open>Codecs\<close>

text \<open>\<^verbatim>\<open>x.Decode(bytes.NewReader(v))\<close>: what is left in the reader is dropped.\<close>

definition decode_bytes :: "(bytes, 'a) op \<Rightarrow> bytes \<Rightarrow> goerr + 'a" where
  "decode_bytes dec v = (case dec v of Inl e \<Rightarrow> Inl e | Inr (x, _) \<Rightarrow> Inr x)"

text \<open>
  The contract of the daemon's on-disk formats: a valid value is read back as it was
  written, wherever it stands in a stream. What the clients of a format rely on follows from
  it: no two valid values have the same image, and a sequence of values is read back by a
  counted loop.
\<close>

locale codec =
  fixes enc :: "'a \<Rightarrow> bytes" and dec :: "(bytes, 'a) op" and valid :: "'a \<Rightarrow> bool"
  assumes dec_enc: "valid x \<Longrightarrow> dec (enc x @ s) = Inr (x, s)"
begin

lemma dec_whole: "valid x \<Longrightarrow> dec (enc x) = Inr (x, [])"
  using dec_enc [of x "[]"] by simp

lemma decode_bytes_enc: "valid x \<Longrightarrow> decode_bytes dec (enc x) = Inr x"
  by (simp add: decode_bytes_def dec_whole)

lemma enc_prefix_free:
  assumes "valid x" "valid y" "enc x @ s = enc y @ s'"
  shows "x = y \<and> s = s'"
proof -
  have "Inr (x, s) = (Inr (y, s') :: goerr + 'a \<times> bytes)"
    unfolding dec_enc [OF assms(1), of s, symmetric] assms(3) by (rule dec_enc [OF assms(2)])
  then show ?thesis by simp
qed

lemma dec_list:
  assumes "\<And>x. x \<in> set xs \<Longrightarrow> valid x" "length is = length xs"
  shows "smap (\<lambda>_. dec) is (concat (map enc xs) @ s) = Inr (xs, s)"
  using assms
proof (induction xs arbitrary: "is")
  case (Cons x xs)
  then obtain i is' where "is = i # is'" by (cases "is") auto
  with Cons show ?case by (simp add: dec_enc)
qed simp

end

interpretation u32_codec: codec PutUint32 read_u32 "\<lambda>_. True"
  by unfold_locales (simp add: codec_simps)

interpretation bool_codec: codec write_bool read_bool "\<lambda>_. True"
  by unfold_locales (simp add: codec_simps)

end
