(* ===== verification/WireTx.thy ===== *)
theory WireTx
  imports GoIO
begin

text \<open>
  Transactions: the data types of the vendored \<^verbatim>\<open>btcd/wire/msgtx.go\<close> that the daemon
  builds, stores and broadcasts, and their serialisation (BIP 144) with its round trip.
  A 32-byte hash is a 256-bit word, most significant byte first.
\<close>

section \<open>Data\<close>

type_synonym hash = "256 word"

definition hash_bytes :: "hash \<Rightarrow> bytes" where "hash_bytes h = be_enc 32 (unat h)"
definition hash_of_bytes :: "bytes \<Rightarrow> hash" where "hash_of_bytes bs = word_of_nat (be_dec bs)"

lemma length_hash_bytes [simp]: "length (hash_bytes h) = 32"
  by (simp add: hash_bytes_def)

lemma hash_of_hash_bytes [simp]: "hash_of_bytes (hash_bytes h) = h"
proof -
  have "unat h < 256 ^ 32" using unsigned_less [of h] by simp
  then show ?thesis by (simp add: hash_of_bytes_def hash_bytes_def be_dec_enc)
qed

lemma hash_bytes_inject [simp]: "hash_bytes a = hash_bytes b \<longleftrightarrow> a = b"
  by (metis hash_of_hash_bytes)

record OutPoint =
  Hash :: hash
  Index :: u32

text \<open>Outpoints are ordered by hash, then index, so that sets of them can be enumerated.\<close>

instantiation OutPoint_ext :: (linorder) linorder
begin

definition less_eq_OutPoint_ext :: "'a OutPoint_scheme \<Rightarrow> 'a OutPoint_scheme \<Rightarrow> bool" where
  "less_eq_OutPoint_ext p q \<longleftrightarrow> Hash p < Hash q \<or> Hash p = Hash q \<and>
     (Index p < Index q \<or> Index p = Index q \<and> OutPoint.more p \<le> OutPoint.more q)"

definition less_OutPoint_ext :: "'a OutPoint_scheme \<Rightarrow> 'a OutPoint_scheme \<Rightarrow> bool" where
  "less_OutPoint_ext p q \<longleftrightarrow> p \<le> q \<and> \<not> q \<le> p"

instance
proof
  fix p q r :: "'a OutPoint_scheme"
  show "p < q \<longleftrightarrow> p \<le> q \<and> \<not> q \<le> p" by (rule less_OutPoint_ext_def)
  show "p \<le> p" by (simp add: less_eq_OutPoint_ext_def)
  show "p \<le> q \<Longrightarrow> q \<le> r \<Longrightarrow> p \<le> r" by (auto simp: less_eq_OutPoint_ext_def)
  show "p \<le> q \<Longrightarrow> q \<le> p \<Longrightarrow> p = q" by (cases p, cases q) (auto simp: less_eq_OutPoint_ext_def)
  show "p \<le> q \<or> q \<le> p" by (auto simp: less_eq_OutPoint_ext_def)
qed

end

record TxIn =
  PreviousOutPoint :: OutPoint
  SignatureScript :: bytes
  Witness :: "bytes list"
  Sequence :: u32

record TxOut =
  Value :: u64 \<comment> \<open>int64, two's complement\<close>
  PkScript :: bytes

record MsgTx =
  Version :: u32 \<comment> \<open>int32, two's complement\<close>
  TxIns :: "TxIn list"
  TxOuts :: "TxOut list"
  LockTime :: u32

definition NewMsgTx :: "u32 \<Rightarrow> MsgTx" where
  "NewMsgTx version = \<lparr>Version = version, TxIns = [], TxOuts = [], LockTime = 0\<rparr>"

definition AddTxIn :: "TxIn \<Rightarrow> MsgTx \<Rightarrow> MsgTx" where
  "AddTxIn ti msg = msg\<lparr>TxIns := TxIns msg @ [ti]\<rparr>"

definition AddTxOut :: "TxOut \<Rightarrow> MsgTx \<Rightarrow> MsgTx" where
  "AddTxOut out msg = msg\<lparr>TxOuts := TxOuts msg @ [out]\<rparr>"

definition HasWitness :: "MsgTx \<Rightarrow> bool" where
  "HasWitness msg = list_ex (\<lambda>ti. Witness ti \<noteq> []) (TxIns msg)"

section \<open>Encoding\<close>

definition wire_writeOutPoint :: "OutPoint \<Rightarrow> bytes" where
  "wire_writeOutPoint op = hash_bytes (Hash op) @ le_enc 4 (unat (Index op))"

definition writeTxIn :: "TxIn \<Rightarrow> bytes" where
  "writeTxIn ti =
     wire_writeOutPoint (PreviousOutPoint ti) @ WriteVarBytes (SignatureScript ti)
     @ le_enc 4 (unat (Sequence ti))"

definition wire_WriteTxOut :: "TxOut \<Rightarrow> bytes" where
  "wire_WriteTxOut out = le_enc 8 (unat (Value out)) @ WriteVarBytes (PkScript out)"

definition writeTxWitness :: "bytes list \<Rightarrow> bytes" where
  "writeTxWitness wit = WriteVarInt (word_of_nat (length wit)) @ concat (map WriteVarBytes wit)"

definition BtcEncode :: "bool \<Rightarrow> MsgTx \<Rightarrow> bytes" where
  "BtcEncode witnessEncoding msg =
     (let doWitness = witnessEncoding \<and> HasWitness msg in
      le_enc 4 (unat (Version msg))
      @ (if doWitness then [0x00, 0x01] else [])
      @ WriteVarInt (word_of_nat (length (TxIns msg))) @ concat (map writeTxIn (TxIns msg))
      @ WriteVarInt (word_of_nat (length (TxOuts msg))) @ concat (map wire_WriteTxOut (TxOuts msg))
      @ (if doWitness then concat (map (\<lambda>ti. writeTxWitness (Witness ti)) (TxIns msg)) else [])
      @ le_enc 4 (unat (LockTime msg)))"

definition Serialize :: "MsgTx \<Rightarrow> bytes" where
  "Serialize msg = BtcEncode True msg"

section \<open>Decoding\<close>

definition MaxMessagePayload :: nat where "MaxMessagePayload = 1024 * 1024 * 32"
definition maxTxInPerMessage :: nat where "maxTxInPerMessage = MaxMessagePayload div 41 + 1"
definition maxTxOutPerMessage :: nat where "maxTxOutPerMessage = MaxMessagePayload div 9 + 1"
definition maxWitnessItemsPerInput :: nat where "maxWitnessItemsPerInput = 500000"
definition maxWitnessItemSize :: nat where "maxWitnessItemSize = 11000"

lemmas wire_limits = MaxMessagePayload_def maxTxInPerMessage_def maxTxOutPerMessage_def
  maxWitnessItemsPerInput_def maxWitnessItemSize_def

definition wire_readOutPoint :: "(bytes, OutPoint) op" where
  "wire_readOutPoint = sbind (ReadFull 32) (\<lambda>h. sbind (read_le 4) (\<lambda>i.
     sret \<lparr>Hash = hash_of_bytes h, Index = word_of_nat i\<rparr>))"

definition readScript :: "nat \<Rightarrow> (bytes, bytes) op" where
  "readScript maxAllowed = sbind ReadVarInt (\<lambda>count.
     if maxAllowed < unat count then sfail (ErrMessage ''larger than the max allowed size'')
     else ReadFull (unat count))"

definition readTxIn :: "(bytes, TxIn) op" where
  "readTxIn = sbind wire_readOutPoint (\<lambda>op. sbind (readScript MaxMessagePayload) (\<lambda>script.
     sbind (read_le 4) (\<lambda>q. sret
       \<lparr>PreviousOutPoint = op, SignatureScript = script, Witness = [], Sequence = word_of_nat q\<rparr>)))"

definition wire_readTxOut :: "(bytes, TxOut) op" where
  "wire_readTxOut = sbind (read_le 8) (\<lambda>v. sbind (readScript MaxMessagePayload) (\<lambda>script.
     sret \<lparr>Value = word_of_nat v, PkScript = script\<rparr>))"

text \<open>The witness loop of \<^verbatim>\<open>BtcDecode\<close>, for one input.\<close>

definition readWitness :: "TxIn \<Rightarrow> (bytes, TxIn) op" where
  "readWitness txin = sbind ReadVarInt (\<lambda>witCount.
     if maxWitnessItemsPerInput < unat witCount
     then sfail (ErrMessage ''too many witness items'')
     else sbind (smap (\<lambda>_. readScript maxWitnessItemSize) [0..<unat witCount]) (\<lambda>w.
       sret (txin\<lparr>Witness := w\<rparr>)))"

text \<open>
  The marker: a transaction with no inputs, read with the witness encoding, announces a
  flag byte and the real input count.
\<close>

definition readTxInCount :: "bool \<Rightarrow> (bytes, u64 \<times> byte) op" where
  "readTxInCount witnessEncoding = sbind ReadVarInt (\<lambda>count.
     if count = 0 \<and> witnessEncoding then
       sbind (ReadFull 1) (\<lambda>flag.
         if hd flag \<noteq> 0x01 then sfail (ErrMessage ''witness tx but flag byte is not 1'')
         else sbind ReadVarInt (\<lambda>count. sret (count, hd flag)))
     else sret (count, 0))"

definition BtcDecode :: "bool \<Rightarrow> (bytes, MsgTx) op" where
  "BtcDecode witnessEncoding =
     sbind (read_le 4) (\<lambda>version.
     sbind (readTxInCount witnessEncoding) (\<lambda>(count, flag).
     if maxTxInPerMessage < unat count then sfail (ErrMessage ''too many input transactions'')
     else sbind (smap (\<lambda>_. readTxIn) [0..<unat count]) (\<lambda>txIns.
     sbind ReadVarInt (\<lambda>count.
     if maxTxOutPerMessage < unat count then sfail (ErrMessage ''too many output transactions'')
     else sbind (smap (\<lambda>_. wire_readTxOut) [0..<unat count]) (\<lambda>txOuts.
     sbind (if flag \<noteq> 0 \<and> witnessEncoding then smap readWitness txIns else sret txIns) (\<lambda>txIns.
     sbind (read_le 4) (\<lambda>lockTime.
       sret \<lparr>Version = word_of_nat version, TxIns = txIns, TxOuts = txOuts,
             LockTime = word_of_nat lockTime\<rparr>)))))))"

definition Deserialize :: "(bytes, MsgTx) op" where
  "Deserialize = BtcDecode True"

section \<open>Round trip\<close>

lemma read_le_u32 [codec_simps]: "read_le 4 (le_enc 4 (unat (w :: u32)) @ s) = Inr (unat w, s)"
  by (rule read_le_enc) (rule unat_lt_bytes(2))

lemma read_le_u64 [codec_simps]: "read_le 8 (le_enc 8 (unat (w :: u64)) @ s) = Inr (unat w, s)"
  by (rule read_le_enc) (rule unat_lt_bytes(3))

lemma wire_readOutPoint_write [codec_simps]:
  "wire_readOutPoint (wire_writeOutPoint op @ s) = Inr (op, s)"
  by (simp add: wire_readOutPoint_def wire_writeOutPoint_def sbind_def ReadFull_exact codec_simps
      seq_simps)

lemma readScript_write [codec_simps]:
  "length bs \<le> m \<Longrightarrow> m < 2 ^ 32 \<Longrightarrow> readScript m (WriteVarBytes bs @ s) = Inr (bs, s)"
  using ReadVarBytes_Write [of bs m s] by (simp add: readScript_def ReadVarBytes_def)

lemma smap_exact:
  assumes "length is = length xs" "\<And>i x s. x \<in> set xs \<Longrightarrow> f i (enc x @ s) = Inr (g x, s)"
  shows "smap f is (concat (map enc xs) @ s) = Inr (map g xs, s)"
  using assms by (induction "is" xs rule: list_induct2) auto

lemma smap_update_exact:
  assumes "\<And>x s. x \<in> set xs \<Longrightarrow> f (g x) (enc x @ s) = Inr (x, s)"
  shows "smap f (map g xs) (concat (map enc xs) @ s) = Inr (xs, s)"
  using assms by (induction xs) auto

text \<open>What the decoder accepts: the size limits, and at least one input.\<close>

definition wf_txin :: "TxIn \<Rightarrow> bool" where
  "wf_txin ti \<longleftrightarrow> length (SignatureScript ti) \<le> MaxMessagePayload
     \<and> length (Witness ti) \<le> maxWitnessItemsPerInput
     \<and> list_all (\<lambda>w. length w \<le> maxWitnessItemSize) (Witness ti)"

definition wf_tx :: "MsgTx \<Rightarrow> bool" where
  "wf_tx msg \<longleftrightarrow> TxIns msg \<noteq> [] \<and> length (TxIns msg) \<le> maxTxInPerMessage
     \<and> length (TxOuts msg) \<le> maxTxOutPerMessage
     \<and> list_all wf_txin (TxIns msg)
     \<and> list_all (\<lambda>out. length (PkScript out) \<le> MaxMessagePayload) (TxOuts msg)"

lemma readTxIn_write:
  "wf_txin ti \<Longrightarrow> readTxIn (writeTxIn ti @ s) = Inr (ti\<lparr>Witness := []\<rparr>, s)"
  by (simp add: readTxIn_def writeTxIn_def sbind_def codec_simps seq_simps wf_txin_def
      wire_limits)

lemma wire_readTxOut_write:
  "length (PkScript out) \<le> MaxMessagePayload \<Longrightarrow>
   wire_readTxOut (wire_WriteTxOut out @ s) = Inr (out, s)"
  by (simp add: wire_readTxOut_def wire_WriteTxOut_def sbind_def codec_simps seq_simps
      wire_limits)

lemma readWitness_write:
  assumes "wf_txin ti"
  shows "readWitness (ti\<lparr>Witness := []\<rparr>) (writeTxWitness (Witness ti) @ s) = Inr (ti, s)"
proof -
  have n: "unat (word_of_nat (length (Witness ti)) :: u64) = length (Witness ti)"
    using assms by (simp add: wf_txin_def wire_limits unat_length)
  have "smap (\<lambda>_. readScript maxWitnessItemSize) [0..<length (Witness ti)]
          (concat (map WriteVarBytes (Witness ti)) @ s) = Inr (map (\<lambda>x. x) (Witness ti), s)"
    by (rule smap_exact)
      (use assms in \<open>auto simp: wf_txin_def list_all_iff wire_limits intro: readScript_write\<close>)
  then show ?thesis
    using assms n by (simp add: readWitness_def writeTxWitness_def sbind_def codec_simps seq_simps
        wf_txin_def)
qed

lemma readTxInCount_marker:
  "count \<noteq> 0 \<Longrightarrow>
   readTxInCount True ((if b then [0x00, 0x01] else []) @ WriteVarInt count @ s)
     = Inr ((count, if b then 1 else 0), s)"
proof -
  assume "count \<noteq> 0"
  moreover have "ReadVarInt (0 # s') = Inr (0, s')" for s'
    using ReadVarInt_Write [of 0 s'] by (simp add: WriteVarInt_def)
  moreover have "ReadFull 1 (1 # s') = Inr ([1], s')" for s' :: bytes
    by (simp add: ReadFull_def)
  ultimately show ?thesis
    by (simp add: readTxInCount_def sbind_def seq_simps codec_simps)
qed

text \<open>A transaction that fits the wire limits is read back exactly as it was written.\<close>

lemma Deserialize_Serialize [codec_simps]:
  assumes "wf_tx tx"
  shows "Deserialize (Serialize tx @ s) = Inr (tx, s)"
proof -
  have in_len: "unat (word_of_nat (length (TxIns tx)) :: u64) = length (TxIns tx)"
    and out_len: "unat (word_of_nat (length (TxOuts tx)) :: u64) = length (TxOuts tx)"
    using assms by (simp_all add: wf_tx_def wire_limits unat_length)
  have nz: "(word_of_nat (length (TxIns tx)) :: u64) \<noteq> 0"
    using in_len assms by (auto simp: wf_tx_def)
  have ins: "smap (\<lambda>_. readTxIn) [0..<length (TxIns tx)] (concat (map writeTxIn (TxIns tx)) @ r)
      = Inr (map (\<lambda>ti. ti\<lparr>Witness := []\<rparr>) (TxIns tx), r)" for r
    by (rule smap_exact) (use assms in \<open>auto simp: wf_tx_def list_all_iff intro: readTxIn_write\<close>)
  have outs: "smap (\<lambda>_. wire_readTxOut) [0..<length (TxOuts tx)]
      (concat (map wire_WriteTxOut (TxOuts tx)) @ r) = Inr (map (\<lambda>x. x) (TxOuts tx), r)" for r
    by (rule smap_exact)
      (use assms in \<open>auto simp: wf_tx_def list_all_iff intro: wire_readTxOut_write\<close>)
  have wits: "smap readWitness (map (\<lambda>ti. ti\<lparr>Witness := []\<rparr>) (TxIns tx))
      (concat (map (\<lambda>ti. writeTxWitness (Witness ti)) (TxIns tx)) @ r) = Inr (TxIns tx, r)" for r
    by (rule smap_update_exact)
      (use assms in \<open>auto simp: wf_tx_def list_all_iff intro: readWitness_write\<close>)
  have none: "map (\<lambda>ti. ti\<lparr>Witness := []\<rparr>) (TxIns tx) = TxIns tx" if "\<not> HasWitness tx"
    using that by (auto simp: HasWitness_def list_ex_iff intro!: map_idI)
  show ?thesis
    using assms
    by (simp add: Deserialize_def BtcDecode_def Serialize_def BtcEncode_def sbind_def Let_def
        codec_simps readTxInCount_marker [OF nz, of "HasWitness tx", simplified] in_len out_len
        ins outs wits none seq_simps wf_tx_def)
qed

interpretation tx_codec: codec Serialize Deserialize wf_tx
  by unfold_locales (simp add: codec_simps)

end
