(* ===== verification/SignDesc.thy ===== *)
theory SignDesc
  imports WireTx
begin

text \<open>
  Sign descriptors: the vendored \<^verbatim>\<open>lnwallet/signdescriptor.go\<close> and \<^verbatim>\<open>lnwallet/txout.go\<close>
  codecs that every persisted output goes through, with the key parsing of
  \<^verbatim>\<open>btcec\<close> they call. The fields \<^verbatim>\<open>SigHashes\<close> and \<^verbatim>\<open>InputIndex\<close> are set by the
  signer just before a signature is made and are not stored; they are not modelled.
\<close>

section \<open>Keys\<close>

text \<open>\<^verbatim>\<open>big.Int.Bytes\<close>: the shortest big-endian form; \<^verbatim>\<open>paddedAppend\<close> fills it up.\<close>

fun big_Bytes :: "nat \<Rightarrow> bytes" where
  "big_Bytes n = (if n = 0 then [] else big_Bytes (n div 256) @ [word_of_nat n])"

declare big_Bytes.simps [simp del]

definition paddedAppend :: "nat \<Rightarrow> bytes \<Rightarrow> bytes \<Rightarrow> bytes" where
  "paddedAppend n dst src = dst @ replicate (n - length src) 0 @ src"

lemma be_dec_replicate0: "be_dec (replicate k 0 @ bs) = be_dec bs"
  by (induction k) (simp_all add: be_dec_def)

lemma be_dec_big_Bytes [simp]: "be_dec (big_Bytes n) = n"
proof (induction n rule: big_Bytes.induct)
  case (1 n)
  then show ?case
    by (cases "n = 0") (simp_all add: big_Bytes.simps be_dec_snoc unat_byte_of_nat)
qed

lemma length_big_Bytes: "n < 256 ^ k \<Longrightarrow> length (big_Bytes n) \<le> k"
proof (induction k arbitrary: n)
  case 0
  then show ?case by (simp add: big_Bytes.simps)
next
  case (Suc k)
  then have "n div 256 < 256 ^ k" by (simp add: less_mult_imp_div_less mult.commute)
  with Suc.IH show ?case by (simp add: big_Bytes.simps [of n])
qed

lemma be_dec_padded: "be_dec (paddedAppend m [] (big_Bytes n)) = n"
  by (simp add: paddedAppend_def be_dec_replicate0)

lemma length_padded: "n < 256 ^ m \<Longrightarrow> length (paddedAppend m [] (big_Bytes n)) = m"
  using length_big_Bytes [of n m] by (simp add: paddedAppend_def)

record PublicKey =
  X :: nat
  Y :: nat

definition curveP :: nat where "curveP = 2 ^ 256 - 2 ^ 32 - 977"

text \<open>\<^verbatim>\<open>big.Int.Exp(x, y, m)\<close> by repeated squaring.\<close>

fun modexp :: "nat \<Rightarrow> nat \<Rightarrow> nat \<Rightarrow> nat" where
  "modexp x e m =
     (if e = 0 then 1 mod m
      else let h = modexp (x * x mod m) (e div 2) m
           in if odd e then x * h mod m else h)"

declare modexp.simps [simp del]

definition decompressPoint :: "nat \<Rightarrow> bool \<Rightarrow> goerr + nat" where
  "decompressPoint x ybit =
     (let y = modexp (x * x * x + 7) ((curveP + 1) div 4) curveP;
          y' = (if ybit \<noteq> odd y then curveP - y else y)
      in if ybit \<noteq> odd y' then Inl (ErrPubKey ''ybit'') else Inr y')"

definition IsOnCurve :: "nat \<Rightarrow> nat \<Rightarrow> bool" where
  "IsOnCurve x y \<longleftrightarrow> y * y mod curveP = (x * x * x + 7) mod curveP"

definition ParsePubKey :: "bytes \<Rightarrow> goerr + PublicKey" where
  "ParsePubKey s =
     (if s = [] then Inl (ErrPubKey ''empty'')
      else let format = unat (hd s); ybit = odd format; fmt = format - format mod 2;
               xs = be_dec (take 32 (drop 1 s)); ys = be_dec (drop 33 s);
               point = (if length s = 65 then
                          (if fmt \<noteq> 4 \<and> fmt \<noteq> 6 then Inl (ErrPubKey ''magic'')
                           else if fmt = 6 \<and> ybit \<noteq> odd ys then Inl (ErrPubKey ''ybit'')
                           else Inr \<lparr>X = xs, Y = ys\<rparr>)
                        else if length s = 33 then
                          (if fmt \<noteq> 2 then Inl (ErrPubKey ''magic'')
                           else case decompressPoint xs ybit of Inl e \<Rightarrow> Inl e
                                | Inr y \<Rightarrow> Inr \<lparr>X = xs, Y = y\<rparr>)
                        else Inl (ErrPubKey ''length''))
           in case point of Inl e \<Rightarrow> Inl e
              | Inr k \<Rightarrow> if curveP \<le> X k then Inl (ErrPubKey ''X'')
                         else if curveP \<le> Y k then Inl (ErrPubKey ''Y'')
                         else if \<not> IsOnCurve (X k) (Y k) then Inl (ErrPubKey ''curve'')
                         else Inr k)"

definition SerializeCompressed :: "PublicKey \<Rightarrow> bytes" where
  "SerializeCompressed k = paddedAppend 32 [if odd (Y k) then 3 else 2] (big_Bytes (X k))"

text \<open>A private key is its scalar.\<close>

definition PrivKeyFromBytes :: "bytes \<Rightarrow> nat" where "PrivKeyFromBytes pk = be_dec pk"
definition priv_Serialize :: "nat \<Rightarrow> bytes" where "priv_Serialize d = paddedAppend 32 [] (big_Bytes d)"

section \<open>The descriptor and its codec\<close>

record SignDescriptor =
  Family :: u32
  KeyIndex :: u32
  PubKey :: "PublicKey option"
  SingleTweak :: "bytes option"
  DoubleTweak :: "nat option"
  WitnessScript :: bytes
  Output :: TxOut
  HashType :: u32

definition lnwallet_writeTxOut :: "TxOut \<Rightarrow> bytes" where
  "lnwallet_writeTxOut txo = PutUint64 (Value txo) @ WriteVarBytes (PkScript txo)"

definition lnwallet_readTxOut :: "(bytes, TxOut) op" where
  "lnwallet_readTxOut = sbind (ReadFull 8) (\<lambda>scratch. sbind (ReadVarBytes 80) (\<lambda>pkScript.
     sret \<lparr>Value = Uint64 scratch, PkScript = pkScript\<rparr>))"

definition WriteSignDescriptor :: "SignDescriptor \<Rightarrow> bytes" where
  "WriteSignDescriptor sd =
     PutUint32 (Family sd) @ PutUint32 (KeyIndex sd) @ write_bool (PubKey sd \<noteq> None)
     @ (case PubKey sd of None \<Rightarrow> [] | Some k \<Rightarrow> WriteVarBytes (SerializeCompressed k))
     @ WriteVarBytes (case SingleTweak sd of None \<Rightarrow> [] | Some t \<Rightarrow> t)
     @ WriteVarBytes (case DoubleTweak sd of None \<Rightarrow> [] | Some d \<Rightarrow> priv_Serialize d)
     @ WriteVarBytes (WitnessScript sd) @ lnwallet_writeTxOut (Output sd)
     @ PutUint32 (HashType sd)"

definition readPubKey :: "bool \<Rightarrow> (bytes, PublicKey option) op" where
  "readPubKey hasKey =
     (if hasKey then sbind (ReadVarBytes 34) (\<lambda>b. sbind (slift (ParsePubKey b)) (\<lambda>k. sret (Some k)))
      else sret None)"

definition ReadSignDescriptor :: "(bytes, SignDescriptor) op" where
  "ReadSignDescriptor =
     sbind read_u32 (\<lambda>family. sbind read_u32 (\<lambda>index.
     sbind read_bool (\<lambda>hasKey. sbind (readPubKey hasKey) (\<lambda>pub.
     sbind (ReadVarBytes 32) (\<lambda>singleTweak. sbind (ReadVarBytes 32) (\<lambda>doubleTweak.
     let single = (if singleTweak = [] then None else Some singleTweak);
         double = (if doubleTweak = [] then None else Some (PrivKeyFromBytes doubleTweak))
     in if single \<noteq> None \<and> double \<noteq> None then sfail ErrTweakOverdose
     else sbind (ReadVarBytes 500) (\<lambda>witnessScript. sbind lnwallet_readTxOut (\<lambda>txOut.
     sbind (ReadFull 4) (\<lambda>hashType.
       sret \<lparr>Family = family, KeyIndex = index, PubKey = pub, SingleTweak = single,
             DoubleTweak = double, WitnessScript = witnessScript, Output = txOut,
             HashType = Uint32 hashType\<rparr>)))))))))"

text \<open>
  The descriptors the codec stores faithfully: a key that the curve library parses back
  from its compressed form, at most one tweak, a non-empty single tweak of at most 32
  bytes, a double tweak below \<open>2^256\<close>, and scripts within the limits of the reader.
\<close>

definition valid_sd :: "SignDescriptor \<Rightarrow> bool" where
  "valid_sd sd \<longleftrightarrow>
     (case PubKey sd of None \<Rightarrow> True
      | Some k \<Rightarrow> X k < 256 ^ 32 \<and> ParsePubKey (SerializeCompressed k) = Inr k)
     \<and> (case SingleTweak sd of None \<Rightarrow> True | Some t \<Rightarrow> t \<noteq> [] \<and> length t \<le> 32)
     \<and> (case DoubleTweak sd of None \<Rightarrow> True | Some d \<Rightarrow> d < 256 ^ 32)
     \<and> (SingleTweak sd = None \<or> DoubleTweak sd = None)
     \<and> length (WitnessScript sd) \<le> 500 \<and> length (PkScript (Output sd)) \<le> 80"

lemma length_SerializeCompressed: "X k < 256 ^ 32 \<Longrightarrow> length (SerializeCompressed k) = 33"
  using length_big_Bytes [of "X k" 32] by (simp add: SerializeCompressed_def paddedAppend_def)

lemma lnwallet_readTxOut_write [codec_simps]:
  "length (PkScript txo) \<le> 80 \<Longrightarrow> lnwallet_readTxOut (lnwallet_writeTxOut txo @ s) = Inr (txo, s)"
  by (simp add: lnwallet_readTxOut_def lnwallet_writeTxOut_def sbind_def ReadFull_exact
      codec_simps seq_simps)

lemma readPubKey_write:
  assumes "case pub of None \<Rightarrow> True
           | Some k \<Rightarrow> X k < 256 ^ 32 \<and> ParsePubKey (SerializeCompressed k) = Inr k"
  shows "readPubKey (pub \<noteq> None)
           ((case pub of None \<Rightarrow> [] | Some k \<Rightarrow> WriteVarBytes (SerializeCompressed k)) @ s)
         = Inr (pub, s)"
  using assms
  by (cases pub) (simp_all add: readPubKey_def sbind_def codec_simps seq_simps
      length_SerializeCompressed)

lemma single_tweak_read:
  assumes "case t of None \<Rightarrow> True | Some b \<Rightarrow> b \<noteq> [] \<and> length b \<le> 32"
  shows "\<exists>b. (case t of None \<Rightarrow> [] | Some b \<Rightarrow> b) = b \<and> length b \<le> 32
           \<and> (if b = [] then None else Some b) = t"
  using assms by (cases t) auto

lemma double_tweak_read:
  assumes "case t of None \<Rightarrow> True | Some d \<Rightarrow> d < 256 ^ 32"
  shows "\<exists>b. (case t of None \<Rightarrow> [] | Some d \<Rightarrow> priv_Serialize d) = b \<and> length b \<le> 32
           \<and> (if b = [] then None else Some (PrivKeyFromBytes b)) = t"
proof (cases t)
  case (Some d)
  with assms have "length (priv_Serialize d) = 32"
    by (simp add: priv_Serialize_def length_padded)
  moreover from this have "priv_Serialize d \<noteq> []" by auto
  ultimately show ?thesis
    using Some by (simp add: PrivKeyFromBytes_def priv_Serialize_def be_dec_padded)
qed simp

lemma ReadSignDescriptor_Write [codec_simps]:
  assumes "valid_sd sd"
  shows "ReadSignDescriptor (WriteSignDescriptor sd @ s) = Inr (sd, s)"
proof -
  obtain b1 where b1: "(case SingleTweak sd of None \<Rightarrow> [] | Some b \<Rightarrow> b) = b1" "length b1 \<le> 32"
      "(if b1 = [] then None else Some b1) = SingleTweak sd"
    using assms single_tweak_read [of "SingleTweak sd"] unfolding valid_sd_def by blast
  obtain b2 where b2: "(case DoubleTweak sd of None \<Rightarrow> [] | Some d \<Rightarrow> priv_Serialize d) = b2"
      "length b2 \<le> 32" "(if b2 = [] then None else Some (PrivKeyFromBytes b2)) = DoubleTweak sd"
    using assms double_tweak_read [of "DoubleTweak sd"] unfolding valid_sd_def by blast
  have pub: "readPubKey (PubKey sd \<noteq> None)
      ((case PubKey sd of None \<Rightarrow> [] | Some k \<Rightarrow> WriteVarBytes (SerializeCompressed k)) @ r)
      = Inr (PubKey sd, r)" for r
    by (rule readPubKey_write) (use assms in \<open>simp add: valid_sd_def\<close>)
  have tweaks: "\<not> (SingleTweak sd \<noteq> None \<and> DoubleTweak sd \<noteq> None)"
    and lens: "length (WitnessScript sd) \<le> 500" "length (PkScript (Output sd)) \<le> 80"
    using assms by (auto simp: valid_sd_def)
  have reads: "ReadVarBytes 32 (WriteVarBytes b1 @ r) = Inr (b1, r)"
      "ReadVarBytes 32 (WriteVarBytes b2 @ r) = Inr (b2, r)"
      "ReadVarBytes 500 (WriteVarBytes (WitnessScript sd) @ r) = Inr (WitnessScript sd, r)"
      "lnwallet_readTxOut (lnwallet_writeTxOut (Output sd) @ r) = Inr (Output sd, r)" for r
    using b1(2) b2(2) lens by (simp_all add: codec_simps)
  show ?thesis
    unfolding ReadSignDescriptor_def WriteSignDescriptor_def b1(1) b2(1)
    by (simp only: sbind_def append_assoc codec_simps pub reads b1 b2
        Let_def tweaks sum.case prod.case if_False)
      (simp add: ReadFull_exact codec_simps seq_simps)
qed

interpretation sd_codec: codec WriteSignDescriptor ReadSignDescriptor valid_sd
  by unfold_locales (simp add: codec_simps)

end
