(* ===== verification/Outputs.thy ===== *)
theory Outputs
  imports SignDesc
begin

text \<open>
  The outputs the daemon tracks on the chain: \<^verbatim>\<open>breachedOutput\<close> (breacharbiter.go) and the
  \<^verbatim>\<open>kidOutput\<close> and \<^verbatim>\<open>babyOutput\<close> of the nursery (utxonursery.go). The structs embed one
  another, so the records extend one another. Their codecs are the daemon's on-disk format;
  the lemmas show that every output the daemon can build is read back as it was written.
  The memoised \<^verbatim>\<open>witnessFunc\<close> closure is not data and is not modelled.
\<close>

section \<open>Outpoints and plain outputs\<close>

definition writeOutpoint :: "OutPoint \<Rightarrow> bytes" where
  "writeOutpoint o' = WriteVarBytes (hash_bytes (Hash o')) @ PutUint32 (Index o')"

definition readOutpoint :: "(bytes, OutPoint) op" where
  "readOutpoint =
     sbind (ReadVarBytes 32) (\<lambda>txid.
     sbind (Read (replicate 4 0)) (\<lambda>scratch.
       sret \<lparr>Hash = hash_of_bytes (go_copy (replicate 32 0) txid), Index = Uint32 scratch\<rparr>))"

definition writeTxOut :: "TxOut \<Rightarrow> bytes" where
  "writeTxOut txo = PutUint64 (Value txo) @ WriteVarBytes (PkScript txo)"

definition readTxOut :: "(bytes, TxOut) op" where
  "readTxOut =
     sbind (Read (replicate 8 0)) (\<lambda>scratch. sbind (ReadVarBytes 80) (\<lambda>pkScript.
       sret \<lparr>Value = Uint64 scratch, PkScript = pkScript\<rparr>))"

lemma go_copy_full: "length a = length b \<Longrightarrow> go_copy a b = b"
  by (simp add: go_copy_def)

lemma length_writeOutpoint [simp]: "length (writeOutpoint p) = 37"
  by (simp add: writeOutpoint_def length_WriteVarBytes_small)

lemma writeOutpoint_nonempty [simp]: "writeOutpoint p \<noteq> []"
  by (simp add: writeOutpoint_def)

lemma readOutpoint_write [codec_simps]: "readOutpoint (writeOutpoint p @ s) = Inr (p, s)"
  by (simp add: readOutpoint_def writeOutpoint_def sbind_def codec_simps Read_exact seq_simps
      go_copy_full)

lemma readOutpoint_write0 [codec_simps]: "readOutpoint (writeOutpoint p) = Inr (p, [])"
  using readOutpoint_write [of p "[]"] by simp

lemma writeOutpoint_inject [simp]: "writeOutpoint p = writeOutpoint q \<longleftrightarrow> p = q"
  by (metis readOutpoint_write0 Inr_inject prod.inject)

lemma readTxOut_write [codec_simps]:
  "length (PkScript txo) \<le> 80 \<Longrightarrow> readTxOut (writeTxOut txo @ s) = Inr (txo, s)"
  by (simp add: readTxOut_def writeTxOut_def sbind_def codec_simps Read_exact seq_simps)

section \<open>Breached, kid and baby outputs\<close>

type_synonym WitnessType = u16

definition CommitmentTimeLock :: WitnessType where "CommitmentTimeLock = 0"
definition CommitmentNoDelay :: WitnessType where "CommitmentNoDelay = 1"
definition CommitmentRevoke :: WitnessType where "CommitmentRevoke = 2"
definition HtlcOfferedRevoke :: WitnessType where "HtlcOfferedRevoke = 3"
definition HtlcAcceptedRevoke :: WitnessType where "HtlcAcceptedRevoke = 4"
definition HtlcOfferedTimeoutSecondLevel :: WitnessType where "HtlcOfferedTimeoutSecondLevel = 5"
definition HtlcAcceptedSuccessSecondLevel :: WitnessType where "HtlcAcceptedSuccessSecondLevel = 6"
definition HtlcOfferedRemoteTimeout :: WitnessType where "HtlcOfferedRemoteTimeout = 7"
definition HtlcAcceptedRemoteSuccess :: WitnessType where "HtlcAcceptedRemoteSuccess = 8"
definition HtlcSecondLevelRevoke :: WitnessType where "HtlcSecondLevelRevoke = 9"

lemmas witness_types = CommitmentTimeLock_def CommitmentNoDelay_def CommitmentRevoke_def
  HtlcOfferedRevoke_def HtlcAcceptedRevoke_def HtlcOfferedTimeoutSecondLevel_def
  HtlcAcceptedSuccessSecondLevel_def HtlcOfferedRemoteTimeout_def HtlcAcceptedRemoteSuccess_def
  HtlcSecondLevelRevoke_def

record breachedOutput =
  amt :: u64 \<comment> \<open>btcutil.Amount, an int64\<close>
  outpoint :: OutPoint
  witnessType :: WitnessType
  signDesc :: SignDescriptor
  secondLevelWitnessScript :: bytes

record kidOutput = breachedOutput +
  originChanPoint :: OutPoint
  isHtlc :: bool
  blocksToMaturity :: u32
  absoluteMaturity :: u32
  confHeight :: u32

record babyOutput = kidOutput +
  expiry :: u32
  timeoutTx :: MsgTx

definition makeBreachedOutput ::
  "OutPoint \<Rightarrow> WitnessType \<Rightarrow> bytes \<Rightarrow> SignDescriptor \<Rightarrow> breachedOutput" where
  "makeBreachedOutput outp wt secondLevelScript sd =
     \<lparr>amt = Value (Output sd), outpoint = outp, witnessType = wt, signDesc = sd,
      secondLevelWitnessScript = secondLevelScript\<rparr>"

definition makeKidOutput ::
  "OutPoint \<Rightarrow> OutPoint \<Rightarrow> u32 \<Rightarrow> WitnessType \<Rightarrow> SignDescriptor \<Rightarrow> u32 \<Rightarrow> kidOutput" where
  "makeKidOutput outp origin blocks wt sd absMaturity =
     breachedOutput.extend (makeBreachedOutput outp wt [] sd)
       (kidOutput.fields origin
          (wt = HtlcAcceptedSuccessSecondLevel \<or> wt = HtlcOfferedRemoteTimeout)
          blocks absMaturity 0)"

definition SetConfHeight :: "u32 \<Rightarrow> 'a kidOutput_scheme \<Rightarrow> 'a kidOutput_scheme" where
  "SetConfHeight height k = k\<lparr>confHeight := height\<rparr>"

record OutgoingHtlcResolution =
  Expiry :: u32
  SignedTimeoutTx :: "MsgTx option"
  out_CsvDelay :: u32
  out_ClaimOutpoint :: OutPoint
  out_SweepSignDesc :: SignDescriptor

text \<open>
  \<^verbatim>\<open>makeBabyOutput\<close> is only called where the resolution has a timeout transaction, which
  is its third argument here.
\<close>

definition makeBabyOutput ::
  "OutPoint \<Rightarrow> OutgoingHtlcResolution \<Rightarrow> MsgTx \<Rightarrow> babyOutput" where
  "makeBabyOutput chanPoint r tx =
     kidOutput.extend
       (makeKidOutput (out_ClaimOutpoint r) chanPoint (out_CsvDelay r)
          HtlcOfferedTimeoutSecondLevel (out_SweepSignDesc r) 0)
       (babyOutput.fields (Expiry r) tx)"

section \<open>Codecs\<close>

definition breached_Encode :: "'a breachedOutput_scheme \<Rightarrow> bytes" where
  "breached_Encode bo =
     PutUint64 (amt bo) @ writeOutpoint (outpoint bo) @ WriteSignDescriptor (signDesc bo)
     @ WriteVarBytes (secondLevelWitnessScript bo) @ PutUint16 (witnessType bo)"

definition breached_Decode :: "(bytes, breachedOutput) op" where
  "breached_Decode =
     sbind (ReadFull 8) (\<lambda>a. sbind readOutpoint (\<lambda>outp.
     sbind ReadSignDescriptor (\<lambda>sd. sbind (ReadVarBytes 1000) (\<lambda>wScript.
     sbind (ReadFull 2) (\<lambda>wt.
       sret \<lparr>amt = Uint64 a, outpoint = outp, witnessType = Uint16 wt, signDesc = sd,
             secondLevelWitnessScript = wScript\<rparr>)))))"

definition kid_Encode :: "'a kidOutput_scheme \<Rightarrow> bytes" where
  "kid_Encode k =
     PutUint64 (amt k) @ writeOutpoint (outpoint k) @ writeOutpoint (originChanPoint k)
     @ write_bool (isHtlc k) @ PutUint32 (blocksToMaturity k) @ PutUint32 (absoluteMaturity k)
     @ PutUint32 (confHeight k) @ PutUint16 (witnessType k) @ WriteSignDescriptor (signDesc k)"

text \<open>
  One eight-byte scratch buffer serves every \<^verbatim>\<open>r.Read\<close> of the decoder, so a short read
  leaves older bytes in it.
\<close>

definition kid_Decode :: "(bytes, kidOutput) op" where
  "kid_Decode =
     sbind (Read (replicate 8 0)) (\<lambda>s0.
     sbind (LimitReader 40 readOutpoint) (\<lambda>outp.
     sbind (LimitReader 40 readOutpoint) (\<lambda>origin.
     sbind read_bool (\<lambda>htlc.
     sbind (Read (take 4 s0)) (\<lambda>s1.
     sbind (Read s1) (\<lambda>s2.
     sbind (Read s2) (\<lambda>s3.
     sbind (Read (take 2 s3)) (\<lambda>s4.
     sbind ReadSignDescriptor (\<lambda>sd.
       sret \<lparr>amt = Uint64 s0, outpoint = outp, witnessType = Uint16 s4, signDesc = sd,
             secondLevelWitnessScript = [], originChanPoint = origin, isHtlc = htlc,
             blocksToMaturity = Uint32 s1, absoluteMaturity = Uint32 s2,
             confHeight = Uint32 s3\<rparr>)))))))))"

definition baby_Encode :: "'a babyOutput_scheme \<Rightarrow> bytes" where
  "baby_Encode bo = PutUint32 (expiry bo) @ Serialize (timeoutTx bo) @ kid_Encode bo"

definition baby_Decode :: "(bytes, babyOutput) op" where
  "baby_Decode =
     sbind (Read (replicate 4 0)) (\<lambda>e. sbind Deserialize (\<lambda>tx. sbind kid_Decode (\<lambda>k.
       sret (kidOutput.extend k (babyOutput.fields (Uint32 e) tx)))))"

section \<open>Round trips\<close>

text \<open>The outputs the codecs store faithfully.\<close>

definition valid_breached :: "'a breachedOutput_scheme \<Rightarrow> bool" where
  "valid_breached bo \<longleftrightarrow> valid_sd (signDesc bo) \<and> length (secondLevelWitnessScript bo) \<le> 1000"

definition valid_kid :: "'a kidOutput_scheme \<Rightarrow> bool" where
  "valid_kid k \<longleftrightarrow> valid_sd (signDesc k) \<and> secondLevelWitnessScript k = []"

definition valid_baby :: "'a babyOutput_scheme \<Rightarrow> bool" where
  "valid_baby b \<longleftrightarrow> valid_kid b \<and> wf_tx (timeoutTx b)"

abbreviation kid_of :: "babyOutput \<Rightarrow> kidOutput" where
  "kid_of b \<equiv> kidOutput.truncate b"

lemmas record_parts = kidOutput.truncate_def kidOutput.extend_def breachedOutput.extend_def
  kidOutput.fields_def babyOutput.fields_def

lemma breached_Decode_Encode [codec_simps]:
  fixes bo :: breachedOutput
  assumes "valid_breached bo"
  shows "breached_Decode (breached_Encode bo @ s) = Inr (bo, s)"
  using assms
  by (simp add: breached_Decode_def breached_Encode_def valid_breached_def sbind_def codec_simps
      ReadFull_exact seq_simps)

lemma LimitReader_outpoint [codec_simps]:
  "LimitReader 40 readOutpoint (writeOutpoint p @ s) = Inr (p, s)"
  by (rule LimitReader_exact) (simp_all add: codec_simps)

lemma kid_Decode_Encode_scheme [codec_simps]:
  assumes "valid_kid k"
  shows "kid_Decode (kid_Encode k @ s) = Inr (kidOutput.truncate k, s)"
  using assms
  by (simp add: kid_Decode_def kid_Encode_def valid_kid_def sbind_def codec_simps Read_exact
      seq_simps kidOutput.truncate_def)

lemma kid_Decode_Encode [codec_simps]:
  fixes k :: kidOutput
  assumes "valid_kid k"
  shows "kid_Decode (kid_Encode k @ s) = Inr (k, s)"
  using kid_Decode_Encode_scheme [OF assms] by (simp add: kidOutput.truncate_def)

lemma baby_Decode_Encode [codec_simps]:
  fixes b :: babyOutput
  assumes "valid_baby b"
  shows "baby_Decode (baby_Encode b @ s) = Inr (b, s)"
  using assms
  by (simp add: baby_Decode_def baby_Encode_def valid_baby_def sbind_def codec_simps Read_exact
      seq_simps record_parts)

lemma decode_encode_whole [codec_simps]:
  "valid_kid k \<Longrightarrow> kid_Decode (kid_Encode k) = Inr (kidOutput.truncate k, [])"
  "valid_baby b \<Longrightarrow> baby_Decode (baby_Encode b) = Inr (b, [])"
  using kid_Decode_Encode_scheme [of k "[]"] baby_Decode_Encode [of b "[]"] by simp_all

lemma kid_Encode_kid_of [simp]: "kid_Encode (kidOutput.truncate b) = kid_Encode b"
  by (simp add: kid_Encode_def kidOutput.truncate_def)

text \<open>Outputs built by the constructors are stored faithfully.\<close>

lemma valid_makeKidOutput: "valid_sd sd \<Longrightarrow> valid_kid (makeKidOutput p c d w sd a)"
  by (simp add: valid_kid_def makeKidOutput_def makeBreachedOutput_def record_parts)

lemma valid_makeBabyOutput:
  "valid_sd (out_SweepSignDesc r) \<Longrightarrow> wf_tx tx \<Longrightarrow> valid_baby (makeBabyOutput c r tx)"
  by (simp add: valid_baby_def valid_kid_def makeBabyOutput_def makeKidOutput_def
      makeBreachedOutput_def record_parts)

lemma valid_SetConfHeight [simp]:
  "valid_kid (SetConfHeight h k) = valid_kid k"
  by (simp add: valid_kid_def SetConfHeight_def)

interpretation outpoint_codec: codec writeOutpoint readOutpoint "\<lambda>_. True"
  by unfold_locales (simp add: codec_simps)

interpretation breached_codec: codec "breached_Encode :: breachedOutput \<Rightarrow> bytes" breached_Decode valid_breached
  by unfold_locales (simp add: codec_simps)

interpretation kid_codec: codec "kid_Encode :: kidOutput \<Rightarrow> bytes" kid_Decode valid_kid
  by unfold_locales (simp add: codec_simps kidOutput.truncate_def)

interpretation baby_codec: codec "baby_Encode :: babyOutput \<Rightarrow> bytes" baby_Decode valid_baby
  by unfold_locales (simp add: codec_simps)

end
