(* ===== verification/Bolt.thy ===== *)
theory Bolt
  imports Prelude
begin

text \<open>
  The embedded database. A bucket is the list of its entries in key order, which is what a
  cursor of the vendored \<^verbatim>\<open>bbolt\<close> enumerates from the leaves of its B+tree; the page
  layout is not modelled. A handle \<^verbatim>\<open>*bolt.Bucket\<close> is the path of keys that leads to the
  bucket from the root of the transaction. \<^verbatim>\<open>val_at\<close> and \<^verbatim>\<open>is_bkt\<close> observe what is
  stored at a path; the lemmas give both observations after each operation, and the order
  and completeness of an enumeration. A cursor that was positioned before the bucket is
  changed goes on over the page it was positioned on, so a scan is over the entries at the
  time of \<^verbatim>\<open>Seek\<close>.
\<close>

section \<open>The tree\<close>

datatype bnode = Val bytes | Bkt "(bytes \<times> bnode) list"

type_synonym db = bnode
type_synonym bucket = "bytes list"
type_synonym 'a tx = "(db, 'a) op"

abbreviation empty_db :: db where "empty_db \<equiv> Bkt []"

fun lk :: "bnode \<Rightarrow> bytes list \<Rightarrow> bnode option" where
  "lk n [] = Some n"
| "lk (Val v) (k # ks) = None"
| "lk (Bkt es) (k # ks) = (case map_of es k of None \<Rightarrow> None | Some n \<Rightarrow> lk n ks)"

fun upd :: "bytes list \<Rightarrow> bytes \<Rightarrow> bnode option \<Rightarrow> bnode \<Rightarrow> bnode" where
  "upd p k x (Val v) = Val v"
| "upd [] k x (Bkt es) = Bkt (case x of None \<Rightarrow> al_del k es | Some n \<Rightarrow> al_put k n es)"
| "upd (a # p) k x (Bkt es) =
     (case map_of es a of None \<Rightarrow> Bkt es | Some n \<Rightarrow> Bkt (al_put a (upd p k x n) es))"

definition is_bkt :: "db \<Rightarrow> bytes list \<Rightarrow> bool" where
  "is_bkt t p \<longleftrightarrow> (case lk t p of Some (Bkt es) \<Rightarrow> True | _ \<Rightarrow> False)"

definition val_at :: "db \<Rightarrow> bytes list \<Rightarrow> bytes option" where
  "val_at t p = (case lk t p of Some (Val v) \<Rightarrow> Some v | _ \<Rightarrow> None)"

definition entries :: "db \<Rightarrow> bytes list \<Rightarrow> (bytes \<times> bnode) list" where
  "entries t p = (case lk t p of Some (Bkt es) \<Rightarrow> es | _ \<Rightarrow> [])"

section \<open>Operations\<close>

definition b_Bucket :: "bucket \<Rightarrow> bytes \<Rightarrow> db \<Rightarrow> bucket option" where
  "b_Bucket b name t = (if is_bkt t (b @ [name]) then Some (b @ [name]) else None)"

definition b_Get :: "bucket \<Rightarrow> bytes \<Rightarrow> db \<Rightarrow> bytes option" where
  "b_Get b key t = val_at t (b @ [key])"

definition MaxKeySize :: nat where "MaxKeySize = 32768"
definition MaxValueSize :: nat where "MaxValueSize = 2 ^ 31 - 2"

definition b_Put :: "bucket \<Rightarrow> bytes \<Rightarrow> bytes \<Rightarrow> unit tx" where
  "b_Put b key v t =
     (if key = [] then Inl ErrKeyRequired
      else if length key > MaxKeySize then Inl ErrKeyTooLarge
      else if length v > MaxValueSize then Inl ErrValueTooLarge
      else if is_bkt t (b @ [key]) then Inl ErrIncompatibleValue
      else Inr ((), upd b key (Some (Val v)) t))"

definition b_Delete :: "bucket \<Rightarrow> bytes \<Rightarrow> unit tx" where
  "b_Delete b key t =
     (case lk t (b @ [key]) of None \<Rightarrow> Inr ((), t)
      | Some (Bkt es) \<Rightarrow> Inl ErrIncompatibleValue
      | Some (Val v) \<Rightarrow> Inr ((), upd b key None t))"

definition b_CreateBucket :: "bucket \<Rightarrow> bytes \<Rightarrow> bucket tx" where
  "b_CreateBucket b key t =
     (if key = [] then Inl ErrBucketNameRequired
      else case lk t (b @ [key]) of Some (Bkt es) \<Rightarrow> Inl ErrBucketExists
           | Some (Val v) \<Rightarrow> Inl ErrIncompatibleValue
           | None \<Rightarrow> Inr (b @ [key], upd b key (Some (Bkt [])) t))"

definition b_CreateBucketIfNotExists :: "bucket \<Rightarrow> bytes \<Rightarrow> bucket tx" where
  "b_CreateBucketIfNotExists b key t =
     (case b_CreateBucket b key t of
        Inl e \<Rightarrow> if e = ErrBucketExists then Inr (b @ [key], t) else Inl e
      | Inr r \<Rightarrow> Inr r)"

definition b_DeleteBucket :: "bucket \<Rightarrow> bytes \<Rightarrow> unit tx" where
  "b_DeleteBucket b key t =
     (case lk t (b @ [key]) of None \<Rightarrow> Inl ErrBucketNotFound
      | Some (Val v) \<Rightarrow> Inl ErrIncompatibleValue
      | Some (Bkt es) \<Rightarrow> Inr ((), upd b key None t))"

text \<open>
  \<^verbatim>\<open>ForEach\<close> passes each key with its value, and a nil value for a nested bucket. The
  variables a callback assigns are its accumulator.
\<close>

definition b_pairs :: "bucket \<Rightarrow> db \<Rightarrow> (bytes \<times> bytes option) list" where
  "b_pairs b t = map (\<lambda>(k, n). (k, case n of Val v \<Rightarrow> Some v | Bkt es \<Rightarrow> None)) (entries t b)"

definition b_ForEach ::
  "bucket \<Rightarrow> (bytes \<Rightarrow> bytes option \<Rightarrow> 'a \<Rightarrow> 'a tx) \<Rightarrow> 'a \<Rightarrow> 'a tx" where
  "b_ForEach b fn acc t = sfold (\<lambda>(k, v). fn k v) (b_pairs b t) acc t"

text \<open>\<^verbatim>\<open>for k, v := c.Seek(seek); cond(k); k, v = c.Next()\<close>: the pairs the loop visits.\<close>

definition b_scan :: "bucket \<Rightarrow> bytes \<Rightarrow> (bytes \<Rightarrow> bool) \<Rightarrow> db \<Rightarrow> (bytes \<times> bytes option) list" where
  "b_scan b seek cond t = takeWhile (\<lambda>(k, v). cond k) (dropWhile (\<lambda>(k, v). k < seek) (b_pairs b t))"

text \<open>
  \<^verbatim>\<open>db.Update\<close> commits what the closure did unless it returned an error, and then rolls
  back; \<^verbatim>\<open>db.View\<close> never changes the database.
\<close>

definition db_Update :: "'a tx \<Rightarrow> db \<Rightarrow> (goerr + 'a) \<times> db" where
  "db_Update f t = (case f t of Inl e \<Rightarrow> (Inl e, t) | Inr (x, t') \<Rightarrow> (Inr x, t'))"

definition db_View :: "'a tx \<Rightarrow> db \<Rightarrow> goerr + 'a" where
  "db_View f t = (case f t of Inl e \<Rightarrow> Inl e | Inr (x, t') \<Rightarrow> Inr x)"

section \<open>Well-formed trees\<close>

fun bwf :: "bnode \<Rightarrow> bool" where
  "bwf (Val v) = True"
| "bwf (Bkt es) = (al_sorted es \<and> (\<forall>e \<in> set es. bwf (snd e)))"

lemma bwf_map_of: "bwf (Bkt es) \<Longrightarrow> map_of es k = Some n \<Longrightarrow> bwf n"
  by (auto dest!: map_of_SomeD)

lemma bwf_al_put: "bwf (Bkt es) \<Longrightarrow> bwf n \<Longrightarrow> bwf (Bkt (al_put k n es))"
  using set_al_put_subset [of k n es] by (fastforce simp: al_sorted_put)

lemma bwf_al_del: "bwf (Bkt es) \<Longrightarrow> bwf (Bkt (al_del k es))"
  by (auto simp: al_sorted_del) (auto simp: al_del_def)

lemma bwf_upd: "bwf t \<Longrightarrow> (\<forall>n. x = Some n \<longrightarrow> bwf n) \<Longrightarrow> bwf (upd p k x t)"
proof (induction p k x t rule: upd.induct)
  case (2 k x es)
  then show ?case by (cases x) (simp_all del: bwf.simps add: bwf_al_put bwf_al_del)
next
  case (3 a p k x es)
  show ?case
  proof (cases "map_of es a")
    case (Some n)
    then have "bwf (upd p k x n)" using 3 bwf_map_of [OF 3(2) Some] by blast
    then have "bwf (Bkt (al_put a (upd p k x n) es))" by (rule bwf_al_put [OF 3(2)])
    then show ?thesis by (simp only: upd.simps Some option.case)
  qed (use 3 in simp)
qed simp

lemma bwf_lk: "bwf t \<Longrightarrow> lk t p = Some n \<Longrightarrow> bwf n"
  by (induction t p rule: lk.induct)
    (auto simp del: bwf.simps split: option.splits dest: bwf_map_of)

lemma bwf_entries: "bwf t \<Longrightarrow> al_sorted (entries t p)"
  using bwf_lk [of t p] by (auto simp: entries_def al_sorted_def split: option.split bnode.split)

section \<open>Observations after an update\<close>

lemma lk_append: "lk t (p @ q) = (case lk t p of None \<Rightarrow> None | Some n \<Rightarrow> lk n q)"
  by (induction t p rule: lk.induct) (auto split: option.splits)

lemma is_bkt_simps [simp]:
  "\<not> is_bkt (Val v) p"
  "is_bkt (Bkt es) []"
  "is_bkt (Bkt es) (k # ks) = (case map_of es k of None \<Rightarrow> False | Some n \<Rightarrow> is_bkt n ks)"
  by (cases p) (auto simp: is_bkt_def split: option.split)

lemma val_at_simps [simp]:
  "val_at (Val v) p = (if p = [] then Some v else None)"
  "val_at (Bkt es) [] = None"
  "val_at (Bkt es) (k # ks) = (case map_of es k of None \<Rightarrow> None | Some n \<Rightarrow> val_at n ks)"
  by (cases p) (auto simp: val_at_def split: option.split)

lemma lk_upd_at:
  assumes "is_bkt t p"
  shows "lk (upd p k x t) (p @ k # r) = (case x of None \<Rightarrow> None | Some n \<Rightarrow> lk n r)"
  using assms
  by (induction p k x t rule: upd.induct) (auto split: option.splits)

lemma lk_upd_other:
  assumes "is_bkt t p" "\<not> prefix (p @ [k]) q" "\<not> prefix q p"
  shows "lk (upd p k x t) q = lk t q"
  using assms
proof (induction p k x t arbitrary: q rule: upd.induct)
  case (2 k x es)
  then show ?case by (cases q) (auto split: option.splits)
next
  case (3 a p k x es)
  from 3(2) obtain n where n: "map_of es a = Some n" "is_bkt n p"
    by (auto split: option.splits)
  with 3(1) [OF n(1)] 3(3,4) show ?case
    by (cases q) (auto split: option.splits)
qed simp_all

lemma lk_upd_above:
  assumes "is_bkt t p" "prefix q p"
  shows "\<exists>es es'. lk (upd p k x t) q = Some (Bkt es) \<and> lk t q = Some (Bkt es')"
  using assms
proof (induction p k x t arbitrary: q rule: upd.induct)
  case (3 a p k x es)
  from 3(2) obtain n where n: "map_of es a = Some n" "is_bkt n p"
    by (auto split: option.splits)
  then show ?case using 3(1) [OF n(1)] 3(3) by (cases q) auto
qed (auto split: option.splits)

lemma prefix_cases3:
  obtains (at) r where "q = p @ k # r" | (above) "prefix q p"
    | (other) "\<not> prefix (p @ [k]) q" "\<not> prefix q p"
  by (metis append.assoc append_Cons append_Nil prefix_def)

lemma val_at_upd:
  assumes "is_bkt t p"
  shows "val_at (upd p k x t) q =
    (if prefix (p @ [k]) q
     then (case x of None \<Rightarrow> None | Some n \<Rightarrow> val_at n (drop (Suc (length p)) q)) else val_at t q)"
proof (cases rule: prefix_cases3 [of q p k])
  case (at r)
  then show ?thesis
    using lk_upd_at [OF assms] by (simp add: val_at_def prefix_def split: option.split)
next
  case above
  then have "\<not> prefix (p @ [k]) q" by (metis prefix_snocD prefix_order.trans strict_prefix_def)
  then show ?thesis using lk_upd_above [OF assms above, of k x] by (auto simp: val_at_def)
next
  case other
  then show ?thesis using lk_upd_other [OF assms] by (simp add: val_at_def)
qed

lemma is_bkt_upd:
  assumes "is_bkt t p"
  shows "is_bkt (upd p k x t) q =
    (if prefix (p @ [k]) q
     then (case x of None \<Rightarrow> False | Some n \<Rightarrow> is_bkt n (drop (Suc (length p)) q)) else is_bkt t q)"
proof (cases rule: prefix_cases3 [of q p k])
  case (at r)
  then show ?thesis
    using lk_upd_at [OF assms] by (simp add: is_bkt_def prefix_def split: option.split)
next
  case above
  then have "\<not> prefix (p @ [k]) q" by (metis prefix_snocD prefix_order.trans strict_prefix_def)
  then show ?thesis using lk_upd_above [OF assms above, of k x] by (auto simp: is_bkt_def)
next
  case other
  then show ?thesis using lk_upd_other [OF assms] by (simp add: is_bkt_def)
qed

section \<open>What each operation leaves behind\<close>

lemma is_bkt_prefix: "is_bkt t (p @ q) \<Longrightarrow> is_bkt t p"
  by (auto simp: is_bkt_def lk_append split: option.splits bnode.splits)
    (cases q; simp)

lemma is_bkt_of_val: "val_at t (p @ k # q) = Some v \<Longrightarrow> is_bkt t p"
  by (auto simp: is_bkt_def val_at_def lk_append split: option.splits bnode.splits)

lemma is_bkt_snoc: "is_bkt t (p @ k # q) \<Longrightarrow> is_bkt t p"
  by (rule is_bkt_prefix)

lemma val_not_bkt: "val_at t p = Some v \<Longrightarrow> \<not> is_bkt t p"
  by (auto simp: is_bkt_def val_at_def split: option.splits bnode.splits)

lemma lk_cases:
  "lk t p = None \<longleftrightarrow> val_at t p = None \<and> \<not> is_bkt t p"
  by (auto simp: is_bkt_def val_at_def split: option.splits bnode.splits)

lemma nothing_below:
  assumes "\<not> is_bkt t p"
  shows "val_at t (p @ k # r) = None" "\<not> is_bkt t (p @ k # r)"
  using assms is_bkt_of_val [of t p k r] is_bkt_prefix [of t p "k # r"]
  by (cases "val_at t (p @ k # r)", auto)

lemma prefix_snoc_cases: "prefix (p @ [k]) q \<Longrightarrow> q = p @ [k] \<or> (\<exists>a r. q = (p @ [k]) @ a # r)"
  by (metis append_Nil2 neq_Nil_conv prefix_def)

lemma upd_Val_obs:
  assumes "is_bkt t b" "\<not> is_bkt t (b @ [k])"
  shows "val_at (upd b k (Some (Val v)) t) = (val_at t)(b @ [k] \<mapsto> v)"
    and "is_bkt (upd b k (Some (Val v)) t) = is_bkt t"
  using assms nothing_below [OF assms(2)]
  by (auto simp: fun_eq_iff val_at_upd is_bkt_upd dest!: prefix_snoc_cases)

lemma upd_new_obs:
  assumes "is_bkt t b" "lk t (b @ [k]) = None"
  shows "val_at (upd b k (Some (Bkt [])) t) = val_at t"
    and "is_bkt (upd b k (Some (Bkt [])) t) = (is_bkt t)(b @ [k] := True)"
  using assms nothing_below [of t "b @ [k]"]
  by (auto simp: fun_eq_iff val_at_upd is_bkt_upd lk_cases dest!: prefix_snoc_cases)

lemma upd_None_val_obs:
  assumes "is_bkt t b" "\<not> is_bkt t (b @ [k])"
  shows "val_at (upd b k None t) = (val_at t)(b @ [k] := None)"
    and "is_bkt (upd b k None t) = is_bkt t"
  using assms nothing_below [OF assms(2)]
  by (auto simp: fun_eq_iff val_at_upd is_bkt_upd dest!: prefix_snoc_cases)

lemma upd_None_bkt_obs:
  assumes "is_bkt t b"
  shows "val_at (upd b k None t) = (\<lambda>q. if prefix (b @ [k]) q then None else val_at t q)"
    and "is_bkt (upd b k None t) = (\<lambda>q. if prefix (b @ [k]) q then False else is_bkt t q)"
  using assms by (simp_all add: fun_eq_iff val_at_upd is_bkt_upd)

lemma b_Put_succeeds:
  assumes "bwf t" "is_bkt t b" "\<not> is_bkt t (b @ [k])"
    and "k \<noteq> []" "length k \<le> MaxKeySize" "length v \<le> MaxValueSize"
  shows "succeeds (b_Put b k v) t (\<lambda>_ t'. bwf t' \<and> is_bkt t' = is_bkt t
           \<and> val_at t' = (val_at t)(b @ [k] \<mapsto> v))"
  by (rule succeedsI)
    (use assms in \<open>auto simp: b_Put_def upd_Val_obs intro!: bwf_upd\<close>)

lemma b_Delete_succeeds:
  assumes "bwf t" "is_bkt t b" "\<not> is_bkt t (b @ [k])"
  shows "succeeds (b_Delete b k) t (\<lambda>_ t'. bwf t' \<and> is_bkt t' = is_bkt t
           \<and> val_at t' = (val_at t)(b @ [k] := None))"
proof (cases "lk t (b @ [k])")
  case None
  then have "val_at t (b @ [k]) = None" by (simp add: lk_cases)
  then show ?thesis
    using None assms by (intro succeedsI [of _ _ "()" t]) (auto simp: b_Delete_def fun_eq_iff)
next
  case (Some n)
  with assms(3) obtain v where "n = Val v" by (cases n) (auto simp: is_bkt_def)
  with Some assms show ?thesis
    by (intro succeedsI [of _ _ "()" "upd b k None t"])
      (auto simp: b_Delete_def upd_None_val_obs intro!: bwf_upd)
qed

lemma b_CreateBucketIfNotExists_succeeds:
  assumes "bwf t" "is_bkt t b" "val_at t (b @ [k]) = None" "k \<noteq> []"
  shows "succeeds (b_CreateBucketIfNotExists b k) t (\<lambda>h t'. h = b @ [k] \<and> bwf t'
           \<and> is_bkt t' = (is_bkt t)(b @ [k] := True) \<and> val_at t' = val_at t)"
proof (cases "lk t (b @ [k])")
  case None
  with assms show ?thesis
    by (intro succeedsI [of _ _ "b @ [k]" "upd b k (Some (Bkt [])) t"])
      (auto simp: b_CreateBucketIfNotExists_def b_CreateBucket_def upd_new_obs al_sorted_def
        intro!: bwf_upd)
next
  case (Some n)
  with assms(3) obtain es where "n = Bkt es" by (cases n) (auto simp: val_at_def)
  with Some assms show ?thesis
    by (intro succeedsI [of _ _ "b @ [k]" t])
      (auto simp: b_CreateBucketIfNotExists_def b_CreateBucket_def is_bkt_def fun_eq_iff)
qed

lemma b_DeleteBucket_succeeds:
  assumes "bwf t" "is_bkt t (b @ [k])"
  shows "succeeds (b_DeleteBucket b k) t (\<lambda>_ t'. bwf t'
           \<and> is_bkt t' = (\<lambda>q. if prefix (b @ [k]) q then False else is_bkt t q)
           \<and> val_at t' = (\<lambda>q. if prefix (b @ [k]) q then None else val_at t q))"
proof -
  obtain es where "lk t (b @ [k]) = Some (Bkt es)"
    using assms(2) by (auto simp: is_bkt_def split: option.splits bnode.splits)
  moreover have "is_bkt t b" using assms(2) by (rule is_bkt_prefix)
  ultimately show ?thesis
    using assms(1) by (intro succeedsI [of _ _ "()" "upd b k None t"])
      (auto simp: b_DeleteBucket_def upd_None_bkt_obs intro!: bwf_upd)
qed

section \<open>Enumerations\<close>

lemma b_pairs_iff:
  assumes "bwf t"
  shows "(k, w) \<in> set (b_pairs b t) \<longleftrightarrow>
    (case w of Some v \<Rightarrow> val_at t (b @ [k]) = Some v | None \<Rightarrow> is_bkt t (b @ [k]))"
proof -
  have "(k, n) \<in> set (entries t b) \<longleftrightarrow> lk t (b @ [k]) = Some n" for n
    using al_sorted_map_of [OF bwf_entries [OF assms], of k n b]
    by (auto simp: entries_def lk_append split: option.splits bnode.splits)
  moreover have "(k, w) \<in> set (b_pairs b t) \<longleftrightarrow>
      (\<exists>n. (k, n) \<in> set (entries t b) \<and> w = (case n of Val v \<Rightarrow> Some v | Bkt es \<Rightarrow> None))"
    by (auto simp: b_pairs_def)
  ultimately show ?thesis
    by (auto simp: is_bkt_def val_at_def split: option.splits bnode.splits)
qed

lemma b_pairs_sorted: "bwf t \<Longrightarrow> al_sorted (b_pairs b t)"
  using bwf_entries [of t b]
  by (simp add: al_sorted_def b_pairs_def o_def case_prod_beta)

lemma HasPrefix_between:
  fixes a b c :: bytes
  assumes "HasPrefix c pre" "pre \<le> b" "b \<le> c"
  shows "HasPrefix b pre"
  using assms
proof (induction pre arbitrary: b c)
  case Nil
  then show ?case by (simp add: HasPrefix_def)
next
  case (Cons x pre)
  then obtain c' where c: "c = x # c'" "HasPrefix c' pre" by (cases c) (auto simp: HasPrefix_def)
  obtain y b' where b: "b = y # b'" using Cons.prems(2) by (cases b) auto
  from Cons.prems c b have "x = y" "pre \<le> b'" "b' \<le> c'" by auto
  with Cons.IH [OF c(2)] b show ?case by (simp add: HasPrefix_def)
qed

lemma HasPrefix_ge:
  fixes b :: bytes
  shows "HasPrefix b pre \<Longrightarrow> pre \<le> b"
proof (induction pre arbitrary: b)
  case (Cons x pre)
  then show ?case by (cases b) (auto simp: HasPrefix_def)
qed simp

lemma takeWhile_filter:
  assumes "al_sorted xs" "\<And>a b. P b \<Longrightarrow> a < b \<Longrightarrow> Q a \<Longrightarrow> P a" "\<And>e. e \<in> set xs \<Longrightarrow> Q (fst e)"
  shows "takeWhile (\<lambda>(k, v). P k) xs = filter (\<lambda>(k, v). P k) xs"
  using assms(1,3)
proof (induction xs)
  case (Cons e xs)
  then have "al_sorted xs" by (simp add: al_sorted_def)
  then show ?case
  proof (cases "P (fst e)")
    case False
    have "\<not> P (fst e')" if "e' \<in> set xs" for e'
    proof
      assume "P (fst e')"
      moreover have "fst e < fst e'" using Cons.prems(1) that by (simp add: al_sorted_def)
      ultimately show False using assms(2) [of "fst e'" "fst e"] Cons.prems(2) [of e] False by simp
    qed
    then have "filter (\<lambda>(k, v). P k) (e # xs) = []"
      using False by (auto simp: filter_empty_conv)
    moreover have "takeWhile (\<lambda>(k, v). P k) (e # xs) = []"
      using False by (simp add: case_prod_beta)
    ultimately show ?thesis by (simp only:)
  next
    case True
    with Cons \<open>al_sorted xs\<close> show ?thesis by (simp add: case_prod_beta)
  qed
qed simp

lemma dropWhile_filter:
  "al_sorted xs \<Longrightarrow> dropWhile (\<lambda>(k, v). k < s) xs = filter (\<lambda>(k, v). s \<le> k) xs"
proof (induction xs)
  case (Cons e xs)
  obtain a b where e: "e = (a, b)" by (cases e)
  have "filter (\<lambda>(k, v). s \<le> k) xs = xs" if "s \<le> a"
    using Cons.prems that by (auto simp: al_sorted_def e filter_id_conv)
  with Cons show ?case by (auto simp: al_sorted_def e)
qed simp

text \<open>A prefix scan visits exactly the keys with that prefix.\<close>

lemma b_scan_prefix:
  assumes "bwf t"
  shows "b_scan b pre (\<lambda>k. HasPrefix k pre) t
       = filter (\<lambda>(k, v). HasPrefix k pre) (b_pairs b t)"
proof -
  let ?xs = "b_pairs b t" and ?ys = "filter (\<lambda>(k, v). pre \<le> k) (b_pairs b t)"
  have sorted: "al_sorted ?xs" by (rule b_pairs_sorted [OF assms])
  then have "al_sorted ?ys"
    unfolding al_sorted_def by (simp add: sorted_wrt_filter sorted_wrt_map)
  then have "takeWhile (\<lambda>(k, v). HasPrefix k pre) ?ys = filter (\<lambda>(k, v). HasPrefix k pre) ?ys"
    by (rule takeWhile_filter [where Q = "\<lambda>k. pre \<le> k"]) (auto intro: HasPrefix_between)
  also have "\<dots> = filter (\<lambda>(k, v). HasPrefix k pre) ?xs"
    using HasPrefix_ge by (auto intro!: filter_cong)
  finally show ?thesis
    by (simp add: b_scan_def dropWhile_filter [OF sorted])
qed

end
