(* ===== verification/Retribution.thy ===== *)
theory Retribution
  imports Outputs Bolt
begin

text \<open>
  The retribution store of the breach arbiter (\<^verbatim>\<open>src/lnd/breacharbiter.go\<close>): what is kept on
  disk about a breached channel until justice has been done, its codec, the methods of
  \<^verbatim>\<open>retributionStore\<close>, and that they implement a map from channel points.
\<close>

section \<open>Data and codec\<close>

record retributionInfo =
  commitHash :: hash
  ret_chanPoint :: OutPoint
  ret_chainHash :: hash
  breachHeight :: u32
  breachedOutputs :: "breachedOutput list"

definition ret_Encode :: "retributionInfo \<Rightarrow> bytes" where
  "ret_Encode ret =
     hash_bytes (commitHash ret) @ writeOutpoint (ret_chanPoint ret) @ hash_bytes (ret_chainHash ret)
     @ PutUint32 (breachHeight ret) @ WriteVarInt (word_of_nat (length (breachedOutputs ret)))
     @ concat (map breached_Encode (breachedOutputs ret))"

text \<open>\<^verbatim>\<open>make\<close> panics on the negative length that a count above \<open>2^63\<close> converts to.\<close>

definition ret_Decode :: "(bytes, retributionInfo) op" where
  "ret_Decode =
     sbind (ReadFull 32) (\<lambda>commit. sbind readOutpoint (\<lambda>chanPoint.
     sbind (ReadFull 32) (\<lambda>chain. sbind (ReadFull 4) (\<lambda>height.
     sbind ReadVarInt (\<lambda>nOutputs.
     sbind (if sint nOutputs < 0 then sfail (GoPanic ''makeslice: len out of range'') else sret ()) (\<lambda>_.
     sbind (smap (\<lambda>_. breached_Decode) [0..<unat nOutputs]) (\<lambda>outputs.
       sret \<lparr>commitHash = hash_of_bytes commit, ret_chanPoint = chanPoint, ret_chainHash = hash_of_bytes chain,
             breachHeight = Uint32 height, breachedOutputs = outputs\<rparr>)))))))"

definition valid_ret :: "retributionInfo \<Rightarrow> bool" where
  "valid_ret ret \<longleftrightarrow> list_all valid_breached (breachedOutputs ret) \<and> length (breachedOutputs ret) < 2 ^ 63"

lemma ret_Decode_Encode [codec_simps]:
  assumes "valid_ret ret"
  shows "ret_Decode (ret_Encode ret @ s) = Inr (ret, s)"
proof -
  have n: "unat (word_of_nat (length (breachedOutputs ret)) :: u64) = length (breachedOutputs ret)"
    using assms by (intro unat_length) (simp add: valid_ret_def)
  have pos: "\<not> sint (word_of_nat (length (breachedOutputs ret)) :: u64) < 0"
    using assms by (simp add: valid_ret_def sint_small)
  have "smap (\<lambda>_. breached_Decode) [0..<length (breachedOutputs ret)]
      (concat (map breached_Encode (breachedOutputs ret)) @ s) = Inr (breachedOutputs ret, s)"
    using assms by (intro breached_codec.dec_list) (auto simp: valid_ret_def list_all_iff)
  with n pos show ?thesis
    by (simp add: ret_Decode_def ret_Encode_def sbind_def codec_simps ReadFull_exact seq_simps)
qed

interpretation ret_codec: codec ret_Encode ret_Decode valid_ret
  by unfold_locales (simp add: codec_simps)

section \<open>The store\<close>

definition retributionBucket :: bytes where "retributionBucket = ascii ''retribution''"
definition justiceTxnBucket :: bytes where "justiceTxnBucket = ascii ''justice-txn''"

definition rs_Add :: "retributionInfo \<Rightarrow> db \<Rightarrow> (goerr + unit) \<times> db" where
  "rs_Add ret = db_Update (
     sbind (b_CreateBucketIfNotExists [] retributionBucket) (\<lambda>retBucket.
       b_Put retBucket (writeOutpoint (ret_chanPoint ret)) (ret_Encode ret)))"

definition rs_Finalize :: "OutPoint \<Rightarrow> MsgTx \<Rightarrow> db \<Rightarrow> (goerr + unit) \<times> db" where
  "rs_Finalize chanPoint finalTx = db_Update (
     sbind (b_CreateBucketIfNotExists [] justiceTxnBucket) (\<lambda>justiceBkt.
       b_Put justiceBkt (writeOutpoint chanPoint) (Serialize finalTx)))"

definition rs_GetFinalizedTxn :: "OutPoint \<Rightarrow> db \<Rightarrow> goerr + MsgTx option" where
  "rs_GetFinalizedTxn chanPoint t =
     (case b_Bucket [] justiceTxnBucket t of None \<Rightarrow> Inr None
      | Some justiceBkt \<Rightarrow>
          (case b_Get justiceBkt (writeOutpoint chanPoint) t of None \<Rightarrow> Inr None
           | Some finalTxBytes \<Rightarrow>
               (case decode_bytes Deserialize finalTxBytes of Inl e \<Rightarrow> Inl e | Inr tx \<Rightarrow> Inr (Some tx))))"

definition rs_IsBreached :: "OutPoint \<Rightarrow> db \<Rightarrow> goerr + bool" where
  "rs_IsBreached chanPoint t =
     (case b_Bucket [] retributionBucket t of None \<Rightarrow> Inr False
      | Some retBucket \<Rightarrow> Inr (b_Get retBucket (writeOutpoint chanPoint) t \<noteq> None))"

definition rs_Remove :: "OutPoint \<Rightarrow> db \<Rightarrow> (goerr + unit) \<times> db" where
  "rs_Remove chanPoint = db_Update (\<lambda>t.
     (case b_Bucket [] retributionBucket t of
        None \<Rightarrow> Inl (GoErr ''unable to remove retribution because the retribution bucket does not exist'')
      | Some retBucket \<Rightarrow>
          sbind (b_Delete retBucket (writeOutpoint chanPoint)) (\<lambda>_ t.
            (case b_Bucket [] justiceTxnBucket t of None \<Rightarrow> Inr ((), t)
             | Some justiceBkt \<Rightarrow> b_Delete justiceBkt (writeOutpoint chanPoint) t)) t))"

definition rs_ForAll :: "(retributionInfo \<Rightarrow> 'a \<Rightarrow> goerr + 'a) \<Rightarrow> 'a \<Rightarrow> db \<Rightarrow> goerr + 'a" where
  "rs_ForAll cb acc = db_View (\<lambda>t.
     (case b_Bucket [] retributionBucket t of None \<Rightarrow> Inr (acc, t)
      | Some retBucket \<Rightarrow>
          b_ForEach retBucket (\<lambda>_ retBytes acc.
            sbind (slift (decode_bytes ret_Decode (case retBytes of None \<Rightarrow> [] | Some b \<Rightarrow> b))) (\<lambda>ret.
              slift (cb ret acc))) acc t))"

section \<open>What it stands for\<close>

record retributions =
  rets :: "OutPoint \<Rightarrow> retributionInfo option"
  justice :: "OutPoint \<Rightarrow> MsgTx option"

definition no_retributions :: retributions where
  "no_retributions = \<lparr>rets = \<lambda>_. None, justice = \<lambda>_. None\<rparr>"

definition storable_ret :: "retributionInfo \<Rightarrow> bool" where
  "storable_ret ret \<longleftrightarrow> valid_ret ret \<and> length (ret_Encode ret) \<le> MaxValueSize"

definition storable_tx :: "MsgTx \<Rightarrow> bool" where
  "storable_tx tx \<longleftrightarrow> wf_tx tx \<and> length (Serialize tx) \<le> MaxValueSize"

definition wf_retributions :: "retributions \<Rightarrow> bool" where
  "wf_retributions S \<longleftrightarrow> (\<forall>c r. rets S c = Some r \<longrightarrow> storable_ret r \<and> ret_chanPoint r = c)
     \<and> (\<forall>c tx. justice S c = Some tx \<longrightarrow> storable_tx tx)"

text \<open>A top-level bucket that holds the encoded values of a map, and nothing else.\<close>

definition kv :: "db \<Rightarrow> bytes \<Rightarrow> (OutPoint \<Rightarrow> bytes option) \<Rightarrow> bool" where
  "kv t b f \<longleftrightarrow> val_at t [b] = None \<and> (\<forall>k. \<not> is_bkt t [b, k])
     \<and> (\<forall>k v. val_at t [b, k] = Some v \<longleftrightarrow> (\<exists>c. k = writeOutpoint c \<and> f c = Some v))"

definition outside :: "db \<Rightarrow> bytes list \<Rightarrow> bytes option \<times> bool" where
  "outside t q = (if q \<noteq> [] \<and> hd q \<in> {retributionBucket, justiceTxnBucket} then (None, False)
     else (val_at t q, is_bkt t q))"

definition rrepr :: "db \<Rightarrow> retributions \<Rightarrow> (bytes list \<Rightarrow> bytes option \<times> bool) \<Rightarrow> bool" where
  "rrepr t S Q \<longleftrightarrow> bwf t \<and> is_bkt t [] \<and> wf_retributions S
     \<and> kv t retributionBucket (\<lambda>c. map_option ret_Encode (rets S c))
     \<and> kv t justiceTxnBucket (\<lambda>c. map_option Serialize (justice S c)) \<and> outside t = Q"

lemma buckets_neq [simp]: "retributionBucket \<noteq> justiceTxnBucket" "justiceTxnBucket \<noteq> retributionBucket"
    "retributionBucket \<noteq> []" "justiceTxnBucket \<noteq> []"
  by (simp_all add: retributionBucket_def justiceTxnBucket_def ascii_def)

subsection \<open>Updates of one key\<close>

lemma kv_lookup:
  assumes "kv t b f" shows "val_at t [b, writeOutpoint c] = f c"
proof -
  have "val_at t [b, writeOutpoint c] = Some v \<longleftrightarrow> f c = Some v" for v
    using assms unfolding kv_def by simp
  then show ?thesis by (cases "f c"; cases "val_at t [b, writeOutpoint c]") auto
qed

lemma kv_frame:
  assumes "kv t b f" "\<forall>q. q = [] \<or> hd q \<noteq> b' \<longrightarrow> val_at t' q = val_at t q \<and> is_bkt t' q = is_bkt t q" "b \<noteq> b'"
  shows "kv t' b f"
  using assms unfolding kv_def by simp

lemma kv_put:
  assumes "kv t b f" "val_at t' = (val_at t)([b, writeOutpoint c] \<mapsto> v)" "\<And>k. is_bkt t' [b, k] = is_bkt t [b, k]"
  shows "kv t' b (f(c \<mapsto> v))"
  using assms unfolding kv_def by auto

lemma kv_del:
  assumes "kv t b f" "val_at t' = (val_at t)([b, writeOutpoint c] := None)" "\<And>k. is_bkt t' [b, k] = is_bkt t [b, k]"
  shows "kv t' b (f(c := None))"
  using assms unfolding kv_def by auto

lemma kv_bucket: "kv t b f \<Longrightarrow> f c \<noteq> None \<Longrightarrow> is_bkt t [b]"
  using is_bkt_of_val [of t "[b]" "writeOutpoint c" "[]"] kv_lookup [of t b f c] by auto

text \<open>Creating a bucket and writing one key of it.\<close>

lemma put_key_succeeds:
  assumes "bwf t" "is_bkt t []" "kv t b f" "b \<noteq> []" "length v \<le> MaxValueSize"
  shows "succeeds (sbind (b_CreateBucketIfNotExists [] b) (\<lambda>bkt. b_Put bkt (writeOutpoint c) v)) t
     (\<lambda>_ t'. bwf t' \<and> kv t' b (f(c \<mapsto> v)) \<and> (\<forall>q. q = [] \<or> hd q \<noteq> b \<longrightarrow> val_at t' q = val_at t q \<and> is_bkt t' q = is_bkt t q))"
proof -
  have none: "val_at t ([] @ [b]) = None" "\<And>k. \<not> is_bkt t [b, k]" using assms(3) by (auto simp: kv_def)
  obtain t1 where t1: "b_CreateBucketIfNotExists [] b t = Inr ([b], t1)" "bwf t1"
      "is_bkt t1 = (is_bkt t)([b] := True)" "val_at t1 = val_at t"
    using b_CreateBucketIfNotExists_succeeds [OF assms(1,2) none(1) assms(4)] by (auto simp: succeeds_def)
  have key: "length (writeOutpoint c) \<le> MaxKeySize" by (simp add: MaxKeySize_def)
  obtain t2 where t2: "b_Put [b] (writeOutpoint c) v t1 = Inr ((), t2)" "bwf t2" "is_bkt t2 = is_bkt t1"
      "val_at t2 = (val_at t1)([b, writeOutpoint c] \<mapsto> v)"
    using b_Put_succeeds [OF t1(2), of "[b]" "writeOutpoint c" v] t1(3) none(2) key assms(5)
    by (auto simp: succeeds_def)
  have "kv t2 b (f(c \<mapsto> v))"
    using kv_put [OF assms(3), of t2] t2(3,4) t1(3,4) by simp
  with t1 t2 show ?thesis by (auto simp: succeeds_def sbind_def)
qed

lemma del_key_succeeds:
  assumes "bwf t" "is_bkt t [b]" "kv t b f"
  shows "succeeds (b_Delete [b] (writeOutpoint c)) t (\<lambda>_ t'. bwf t' \<and> kv t' b (f(c := None)) \<and> is_bkt t' = is_bkt t
     \<and> (\<forall>q. q = [] \<or> hd q \<noteq> b \<longrightarrow> val_at t' q = val_at t q))"
proof -
  have "\<not> is_bkt t ([b] @ [writeOutpoint c])" using assms(3) by (simp add: kv_def)
  from b_Delete_succeeds [OF assms(1,2) this] show ?thesis
    by (rule succeeds_mono) (auto intro!: kv_del [OF assms(3)])
qed

lemma outside_frame:
  assumes "\<forall>q. q = [] \<or> hd q \<noteq> b \<longrightarrow> val_at t' q = val_at t q \<and> is_bkt t' q = is_bkt t q"
    "b \<in> {retributionBucket, justiceTxnBucket}"
  shows "outside t' = outside t"
  using assms by (auto simp: outside_def fun_eq_iff)

section \<open>The methods implement the map\<close>

lemma rs_Add_run:
  assumes "rrepr t S Q" "storable_ret ret"
  shows "\<exists>t'. rs_Add ret t = (Inr (), t') \<and> rrepr t' (S\<lparr>rets := (rets S)(ret_chanPoint ret \<mapsto> ret)\<rparr>) Q"
proof -
  let ?b = retributionBucket and ?c = "ret_chanPoint ret"
  obtain t' where t': "rs_Add ret t = (Inr (), t')" "bwf t'"
      "kv t' ?b ((\<lambda>c. map_option ret_Encode (rets S c))(?c \<mapsto> ret_Encode ret))"
      "\<forall>q. q = [] \<or> hd q \<noteq> ?b \<longrightarrow> val_at t' q = val_at t q \<and> is_bkt t' q = is_bkt t q"
    using put_key_succeeds [of t ?b "\<lambda>c. map_option ret_Encode (rets S c)" "ret_Encode ret" ?c] assms
    unfolding rs_Add_def rrepr_def storable_ret_def succeeds_def db_Update_def by auto
  have "(\<lambda>c. map_option ret_Encode (rets S c))(?c \<mapsto> ret_Encode ret)
      = (\<lambda>c. map_option ret_Encode (((rets S)(?c \<mapsto> ret)) c))" by auto
  moreover have "kv t' justiceTxnBucket (\<lambda>c. map_option Serialize (justice S c))"
    using assms(1) by (intro kv_frame [OF _ t'(4)]) (simp_all add: rrepr_def)
  ultimately show ?thesis
    using assms t' outside_frame [OF t'(4)] unfolding rrepr_def wf_retributions_def by simp
qed

lemma rs_Finalize_run:
  assumes "rrepr t S Q" "storable_tx tx"
  shows "\<exists>t'. rs_Finalize c tx t = (Inr (), t') \<and> rrepr t' (S\<lparr>justice := (justice S)(c \<mapsto> tx)\<rparr>) Q"
proof -
  let ?b = justiceTxnBucket
  obtain t' where t': "rs_Finalize c tx t = (Inr (), t')" "bwf t'"
      "kv t' ?b ((\<lambda>c. map_option Serialize (justice S c))(c \<mapsto> Serialize tx))"
      "\<forall>q. q = [] \<or> hd q \<noteq> ?b \<longrightarrow> val_at t' q = val_at t q \<and> is_bkt t' q = is_bkt t q"
    using put_key_succeeds [of t ?b "\<lambda>c. map_option Serialize (justice S c)" "Serialize tx" c] assms
    unfolding rs_Finalize_def rrepr_def storable_tx_def succeeds_def db_Update_def by auto
  have "(\<lambda>c. map_option Serialize (justice S c))(c \<mapsto> Serialize tx)
      = (\<lambda>c'. map_option Serialize (((justice S)(c \<mapsto> tx)) c'))" by auto
  moreover have "kv t' retributionBucket (\<lambda>c. map_option ret_Encode (rets S c))"
    using assms(1) by (intro kv_frame [OF _ t'(4)]) (simp_all add: rrepr_def)
  ultimately show ?thesis
    using assms t' outside_frame [OF t'(4)] unfolding rrepr_def wf_retributions_def by simp
qed

lemma rs_GetFinalizedTxn_run:
  assumes "rrepr t S Q"
  shows "rs_GetFinalizedTxn c t = Inr (justice S c)"
proof -
  let ?f = "\<lambda>c. map_option Serialize (justice S c)"
  have kv: "kv t justiceTxnBucket ?f" using assms by (simp add: rrepr_def)
  have wf: "wf_tx tx" if "justice S c = Some tx" for tx
    using assms that by (auto simp: rrepr_def wf_retributions_def storable_tx_def)
  show ?thesis
  proof (cases "justice S c")
    case None
    then show ?thesis
      using kv_lookup [OF kv, of c] by (simp add: rs_GetFinalizedTxn_def b_Bucket_def b_Get_def)
  next
    case (Some tx)
    then show ?thesis
      using kv_lookup [OF kv, of c] kv_bucket [OF kv, of c] tx_codec.decode_bytes_enc [OF wf [OF Some]]
      by (simp add: rs_GetFinalizedTxn_def b_Bucket_def b_Get_def)
  qed
qed

lemma rs_IsBreached_run:
  assumes "rrepr t S Q"
  shows "rs_IsBreached c t = Inr (rets S c \<noteq> None)"
proof -
  have kv: "kv t retributionBucket (\<lambda>c. map_option ret_Encode (rets S c))" using assms by (simp add: rrepr_def)
  show ?thesis
    using kv_lookup [OF kv, of c] kv_bucket [OF kv, of c]
    by (cases "rets S c") (auto simp: rs_IsBreached_def b_Bucket_def b_Get_def)
qed

lemma rs_Remove_bucket:
  assumes "rrepr t S Q" and b: "is_bkt t [retributionBucket]"
  shows "\<exists>t'. rs_Remove c t = (Inr (), t') \<and> rrepr t' (S\<lparr>rets := (rets S)(c := None), justice := (justice S)(c := None)\<rparr>) Q"
proof -
  let ?f = "\<lambda>c. map_option ret_Encode (rets S c)" and ?g = "\<lambda>c. map_option Serialize (justice S c)"
  have kv: "kv t retributionBucket ?f" "kv t justiceTxnBucket ?g" and wf: "bwf t"
    using assms(1) by (simp_all add: rrepr_def)
  obtain t1 where t1: "b_Delete [retributionBucket] (writeOutpoint c) t = Inr ((), t1)" "bwf t1"
      "kv t1 retributionBucket (?f(c := None))" "is_bkt t1 = is_bkt t"
      "\<forall>q. q = [] \<or> hd q \<noteq> retributionBucket \<longrightarrow> val_at t1 q = val_at t q"
    using del_key_succeeds [OF wf b kv(1), of c] by (auto simp: succeeds_def)
  have kv1: "kv t1 justiceTxnBucket ?g" using t1(4,5) by (intro kv_frame [OF kv(2), of retributionBucket]) simp_all
  have f: "?f(c := None) = (\<lambda>c'. map_option ret_Encode (((rets S)(c := None)) c'))" by auto
  have g: "?g(c := None) = (\<lambda>c'. map_option Serialize (((justice S)(c := None)) c'))" by auto
  show ?thesis
  proof (cases "is_bkt t [justiceTxnBucket]")
    case True
    then obtain t2 where t2: "b_Delete [justiceTxnBucket] (writeOutpoint c) t1 = Inr ((), t2)" "bwf t2"
        "kv t2 justiceTxnBucket (?g(c := None))" "is_bkt t2 = is_bkt t1"
        "\<forall>q. q = [] \<or> hd q \<noteq> justiceTxnBucket \<longrightarrow> val_at t2 q = val_at t1 q"
      using del_key_succeeds [OF t1(2) _ kv1, of c] t1(4) by (auto simp: succeeds_def)
    have "kv t2 retributionBucket (?f(c := None))"
      using t2(4,5) by (intro kv_frame [OF t1(3), of justiceTxnBucket]) simp_all
    moreover have "outside t2 = outside t" using t1(4,5) t2(4,5) by (auto simp: outside_def fun_eq_iff)
    moreover have "rs_Remove c t = (Inr (), t2)"
      using b True t1(1,4) t2(1) by (simp add: rs_Remove_def db_Update_def b_Bucket_def sbind_def)
    ultimately show ?thesis
      using assms(1) t1(4) t2 unfolding rrepr_def wf_retributions_def f g by simp
  next
    case False
    then have "justice S c = None" using kv_bucket [OF kv(2), of c] by (cases "justice S c") simp_all
    then have same: "(justice S)(c := None) = justice S" by auto
    have "outside t1 = outside t" using t1(4,5) by (auto simp: outside_def fun_eq_iff)
    moreover have "rs_Remove c t = (Inr (), t1)"
      using b False t1(1,4) by (simp add: rs_Remove_def db_Update_def b_Bucket_def sbind_def)
    ultimately show ?thesis
      using assms(1) t1 kv1 unfolding rrepr_def wf_retributions_def f same by simp
  qed
qed

lemma rs_Remove_run:
  assumes "rrepr t S Q" "rets S c \<noteq> None"
  shows "\<exists>t'. rs_Remove c t = (Inr (), t') \<and> rrepr t' (S\<lparr>rets := (rets S)(c := None), justice := (justice S)(c := None)\<rparr>) Q"
  using assms kv_bucket [of t retributionBucket "\<lambda>c. map_option ret_Encode (rets S c)" c]
  by (intro rs_Remove_bucket) (auto simp: rrepr_def)

text \<open>Whether or not there is an entry, afterwards there is none.\<close>

lemma rs_Remove_any:
  assumes "rrepr t S Q"
  shows "\<exists>r t' j. rs_Remove c t = (r, t') \<and> rrepr t' (S\<lparr>rets := (rets S)(c := None), justice := (justice S)(c := j)\<rparr>) Q"
proof -
  consider (entry) "rets S c \<noteq> None" | (bucket) "rets S c = None" "is_bkt t [retributionBucket]"
    | (absent) "rets S c = None" "\<not> is_bkt t [retributionBucket]" by blast
  then show ?thesis
  proof cases
    case entry
    from rs_Remove_run [OF assms entry] show ?thesis by blast
  next
    case bucket
    from rs_Remove_bucket [OF assms bucket(2), of c] show ?thesis by blast
  next
    case absent
    then have "rs_Remove c t = (Inl (GoErr ''unable to remove retribution because the retribution bucket does not exist''), t)"
      by (simp add: rs_Remove_def db_Update_def b_Bucket_def)
    moreover have "S\<lparr>rets := (rets S)(c := None), justice := (justice S)(c := justice S c)\<rparr> = S"
      using absent(1) by (simp add: fun_upd_idem)
    ultimately show ?thesis using assms by metis
  qed
qed

text \<open>The walk over the store visits every retribution once.\<close>

lemma rs_ForAll_run:
  assumes r: "rrepr t S Q" and cb: "\<And>c ret acc. rets S c = Some ret \<Longrightarrow> cb ret acc = Inr (g ret acc)"
  shows "\<exists>rs. rs_ForAll cb acc t = Inr (fold g rs acc) \<and> distinct (map ret_chanPoint rs)
     \<and> set rs = {ret. \<exists>c. rets S c = Some ret}"
proof -
  let ?b = retributionBucket and ?f = "\<lambda>c. map_option ret_Encode (rets S c)"
  let ?xs = "b_pairs [?b] t"
  have kv: "kv t ?b ?f" and wf: "bwf t" and S: "wf_retributions S" using r by (simp_all add: rrepr_def)
  define dec where "dec x = the (rets S (THE c. fst x = writeOutpoint c))" for x :: "bytes \<times> bytes option"
  have mem: "x \<in> set ?xs \<longleftrightarrow> (\<exists>c ret. rets S c = Some ret \<and> x = (writeOutpoint c, Some (ret_Encode ret)))" for x
  proof -
    obtain k w where x: "x = (k, w)" by (cases x)
    show ?thesis
      using kv unfolding x b_pairs_iff [OF wf] kv_def by (cases w) auto
  qed
  have dec: "dec (writeOutpoint c, v) = ret" if "rets S c = Some ret" for c v ret
    using that by (simp add: dec_def)
  have body: "(case x of (k, v) \<Rightarrow> \<lambda>acc. sbind (slift (decode_bytes ret_Decode (case v of None \<Rightarrow> [] | Some b \<Rightarrow> b)))
      (\<lambda>ret. slift (cb ret acc))) a t = Inr (g (dec x) a, t)" if x: "x \<in> set ?xs" for x a
  proof -
    obtain c ret where c: "rets S c = Some ret" "x = (writeOutpoint c, Some (ret_Encode ret))"
      using x unfolding mem by blast
    have "valid_ret ret" using S c(1) by (auto simp: wf_retributions_def storable_ret_def)
    then show ?thesis
      using c cb [OF c(1)] dec [OF c(1)] by (simp add: ret_codec.decode_bytes_enc sbind_def slift_def)
  qed
  have run: "b_ForEach [?b] (\<lambda>_ retBytes acc. sbind (slift (decode_bytes ret_Decode
      (case retBytes of None \<Rightarrow> [] | Some b \<Rightarrow> b))) (\<lambda>ret. slift (cb ret acc))) acc t
      = Inr (fold g (map dec ?xs) acc, t)"
    unfolding b_ForEach_def fold_map comp_def by (rule sfold_pure, rule body)
  have set: "set (map dec ?xs) = {ret. \<exists>c. rets S c = Some ret}"
  proof -
    have "ret \<in> dec ` set ?xs \<longleftrightarrow> (\<exists>c. rets S c = Some ret)" for ret
    proof
      assume "\<exists>c. rets S c = Some ret"
      then show "ret \<in> dec ` set ?xs" using mem dec by (metis image_eqI)
    qed (use mem dec in fastforce)
    then show ?thesis by auto
  qed
  have "map ret_chanPoint (map dec ?xs) = map (\<lambda>x. THE c. fst x = writeOutpoint c) ?xs"
    using S dec unfolding map_map by (intro map_cong refl) (auto simp: mem wf_retributions_def)
  moreover have "distinct (map (\<lambda>x. THE c. fst x = writeOutpoint c) ?xs)"
  proof -
    have "inj_on (\<lambda>x. THE c. fst x = writeOutpoint c) (set ?xs)"
    proof (rule inj_onI)
      fix x y assume "x \<in> set ?xs" "y \<in> set ?xs" "(THE c. fst x = writeOutpoint c) = (THE c. fst y = writeOutpoint c)"
      then show "x = y" unfolding mem by auto
    qed
    moreover have "distinct ?xs" using al_sorted_distinct b_pairs_sorted [OF wf, of "[?b]"] by (metis distinct_map)
    ultimately show ?thesis by (simp add: distinct_map)
  qed
  ultimately have dist: "distinct (map ret_chanPoint (map dec ?xs))" by (rule ssubst)
  show ?thesis
  proof (cases "is_bkt t [?b]")
    case True
    with run set dist show ?thesis
      by (intro exI [of _ "map dec ?xs"]) (simp add: rs_ForAll_def db_View_def b_Bucket_def)
  next
    case False
    then have "{ret. \<exists>c. rets S c = Some ret} = {}" using kv_bucket [OF kv] by auto
    with False show ?thesis by (intro exI [of _ "[]"]) (simp add: rs_ForAll_def db_View_def b_Bucket_def)
  qed
qed

section \<open>The contract of the store\<close>

text \<open>
  The arbiter reaches the store through the interface \<^verbatim>\<open>RetributionStore\<close>. \<^verbatim>\<open>ForAll\<close> is
  used once, to collect the retributions by channel point, and has that use here.
\<close>

record 's RetributionStore =
  st_Add :: "retributionInfo \<Rightarrow> 's \<Rightarrow> (goerr + unit) \<times> 's"
  st_IsBreached :: "OutPoint \<Rightarrow> 's \<Rightarrow> goerr + bool"
  st_Finalize :: "OutPoint \<Rightarrow> MsgTx \<Rightarrow> 's \<Rightarrow> (goerr + unit) \<times> 's"
  st_GetFinalizedTxn :: "OutPoint \<Rightarrow> 's \<Rightarrow> goerr + MsgTx option"
  st_Remove :: "OutPoint \<Rightarrow> 's \<Rightarrow> (goerr + unit) \<times> 's"
  st_ForAll :: "(retributionInfo \<Rightarrow> (OutPoint \<rightharpoonup> retributionInfo) \<Rightarrow> goerr + (OutPoint \<rightharpoonup> retributionInfo))
     \<Rightarrow> (OutPoint \<rightharpoonup> retributionInfo) \<Rightarrow> 's \<Rightarrow> goerr + (OutPoint \<rightharpoonup> retributionInfo)"

definition retributionStore :: "db RetributionStore" where
  "retributionStore = \<lparr>st_Add = rs_Add, st_IsBreached = rs_IsBreached, st_Finalize = rs_Finalize,
     st_GetFinalizedTxn = rs_GetFinalizedTxn, st_Remove = rs_Remove, st_ForAll = rs_ForAll\<rparr>"

locale retribution_store =
  fixes store :: "'s RetributionStore" and rep :: "'s \<Rightarrow> retributions \<Rightarrow> bool"
  assumes rep_wf: "rep s S \<Longrightarrow> wf_retributions S"
    and rep_finite: "rep s S \<Longrightarrow> finite (dom (rets S))"
    and Add_law: "rep s S \<Longrightarrow> storable_ret ret \<Longrightarrow> \<exists>s'. st_Add store ret s = (Inr (), s')
      \<and> rep s' (S\<lparr>rets := (rets S)(ret_chanPoint ret \<mapsto> ret)\<rparr>)"
    and IsBreached_law: "rep s S \<Longrightarrow> st_IsBreached store c s = Inr (rets S c \<noteq> None)"
    and Finalize_law: "rep s S \<Longrightarrow> storable_tx tx \<Longrightarrow> \<exists>s'. st_Finalize store c tx s = (Inr (), s')
      \<and> rep s' (S\<lparr>justice := (justice S)(c \<mapsto> tx)\<rparr>)"
    and GetFinalizedTxn_law: "rep s S \<Longrightarrow> st_GetFinalizedTxn store c s = Inr (justice S c)"
    and Remove_law: "rep s S \<Longrightarrow> rets S c \<noteq> None \<Longrightarrow> \<exists>s'. st_Remove store c s = (Inr (), s')
      \<and> rep s' (S\<lparr>rets := (rets S)(c := None), justice := (justice S)(c := None)\<rparr>)"
    and Remove_any_law: "rep s S \<Longrightarrow> \<exists>r s' j. st_Remove store c s = (r, s')
      \<and> rep s' (S\<lparr>rets := (rets S)(c := None), justice := (justice S)(c := j)\<rparr>)"
    and ForAll_law: "rep s S \<Longrightarrow>
      st_ForAll store (\<lambda>ret m. Inr (m(ret_chanPoint ret \<mapsto> ret))) Map.empty s = Inr (rets S)"

lemma fold_by_point:
  assumes "distinct (map ret_chanPoint rs)" "set rs = {ret. \<exists>c. f c = Some ret}"
    "\<And>c ret. f c = Some ret \<Longrightarrow> ret_chanPoint ret = c"
  shows "fold (\<lambda>ret m. m(ret_chanPoint ret \<mapsto> ret)) rs Map.empty = f"
proof -
  have "fold (\<lambda>ret m. m(ret_chanPoint ret \<mapsto> ret)) rs m c
      = (case find (\<lambda>ret. ret_chanPoint ret = c) rs of None \<Rightarrow> m c | Some ret \<Rightarrow> Some ret)" for m c
    using assms(1)
  proof (induction rs arbitrary: m)
    case (Cons r rs)
    have "find (\<lambda>ret. ret_chanPoint ret = c) rs = None" if "ret_chanPoint r = c"
    proof -
      have "ret_chanPoint x \<noteq> ret_chanPoint r" if "x \<in> set rs" for x 
        using Cons.prems imageI [OF that, of ret_chanPoint] by auto
      with that show ?thesis by (auto simp: find_None_iff)
    qed
    with Cons show ?case by (auto split: option.split)
  qed simp
  moreover have "(case find (\<lambda>ret. ret_chanPoint ret = c) rs of None \<Rightarrow> None | Some ret \<Rightarrow> Some ret) = f c" for c
  proof (cases "f c")
    case None
    then have "find (\<lambda>ret. ret_chanPoint ret = c) rs = None"
      using assms(2,3) by (force simp: find_None_iff)
    with None show ?thesis by simp
  next
    case (Some ret)
    then have "ret \<in> set rs" "ret_chanPoint ret = c" using assms(2,3) by auto
    then have "find (\<lambda>ret. ret_chanPoint ret = c) rs \<noteq> None" unfolding find_None_iff by blast
    then obtain r where r: "find (\<lambda>ret. ret_chanPoint ret = c) rs = Some r" by blast
    then have "r \<in> set rs" "ret_chanPoint r = c" by (auto simp: find_Some_iff)
    with assms(2,3) Some r show ?thesis by auto
  qed
  ultimately show ?thesis by (simp add: fun_eq_iff)
qed

interpretation bolt_ret: retribution_store retributionStore "\<lambda>t S. rrepr t S Q" for Q
proof unfold_locales
  fix s S assume r: "rrepr s S Q"
  then show wf: "wf_retributions S" by (simp add: rrepr_def)
  obtain rs where rs: "rs_ForAll (\<lambda>ret m. Inr (m(ret_chanPoint ret \<mapsto> ret))) Map.empty s
      = Inr (fold (\<lambda>ret m. m(ret_chanPoint ret \<mapsto> ret)) rs Map.empty)" "distinct (map ret_chanPoint rs)"
      "set rs = {ret. \<exists>c. rets S c = Some ret}"
    using rs_ForAll_run [OF r, of "\<lambda>ret m. Inr (m(ret_chanPoint ret \<mapsto> ret))" "\<lambda>ret m. m(ret_chanPoint ret \<mapsto> ret)"]
    by blast
  have "dom (rets S) \<subseteq> ret_chanPoint ` set rs" using rs(3) wf by (force simp: wf_retributions_def)
  then show "finite (dom (rets S))" by (rule finite_subset) simp
  show "\<exists>r s' j. st_Remove retributionStore c s = (r, s')
      \<and> rrepr s' (S\<lparr>rets := (rets S)(c := None), justice := (justice S)(c := j)\<rparr>) Q" for c
    using rs_Remove_any [OF r, of c] by (simp add: retributionStore_def)
  show "st_ForAll retributionStore (\<lambda>ret m. Inr (m(ret_chanPoint ret \<mapsto> ret))) Map.empty s = Inr (rets S)"
    using rs(1) fold_by_point [OF rs(2,3)] wf by (simp add: retributionStore_def wf_retributions_def)
qed (simp_all add: retributionStore_def rs_Add_run rs_IsBreached_run rs_Finalize_run rs_GetFinalizedTxn_run rs_Remove_run)

end
