(* ===== verification/TxTools.thy ===== *)
theory TxTools
  imports Outputs
begin

text \<open>
  What the daemon uses of its libraries when it builds a transaction: the weight estimator
  and the fee rate of lnwallet, and btcd's \<^verbatim>\<open>CheckTransactionSanity\<close>. Amounts are the
  64-bit words the code computes with, read as signed numbers where the code compares them.
\<close>

section \<open>Weight and fee\<close>

definition witnessScaleFactor :: nat where "witnessScaleFactor = 4"
definition InputSize :: nat where "InputSize = 32 + 4 + 1 + 4"
definition P2WKHOutputSize :: nat where "P2WKHOutputSize = 8 + 1 + (1 + 1 + 20)"
definition WitnessHeaderSize :: nat where "WitnessHeaderSize = 1 + 1"
definition BaseTxSize :: nat where "BaseTxSize = 4 + 4"
definition ToLocalScriptSize :: nat where
  "ToLocalScriptSize = 1 + 1 + 33 + 1 + 1 + 1 + 33 + 1 + 1 + 8 + 1 + 1"
definition ToLocalTimeoutWitnessSize :: nat where
  "ToLocalTimeoutWitnessSize = 1 + 1 + 73 + 1 + 1 + ToLocalScriptSize"
definition ToLocalPenaltyWitnessSize :: nat where
  "ToLocalPenaltyWitnessSize = 1 + 1 + 73 + 1 + 1 + ToLocalScriptSize"
definition SecondLevelHtlcScriptSize :: nat where "SecondLevelHtlcScriptSize = 73"
definition SecondLevelHtlcPenaltyWitnessSize :: nat where
  "SecondLevelHtlcPenaltyWitnessSize = 1 + 1 + 73 + 1 + SecondLevelHtlcScriptSize"
definition SecondLevelHtlcSuccessWitnessSize :: nat where
  "SecondLevelHtlcSuccessWitnessSize = 1 + 1 + 73 + 1 + SecondLevelHtlcScriptSize"
definition AcceptedHtlcScriptSize :: nat where
  "AcceptedHtlcScriptSize = 3*1 + 20 + 5*1 + 33 + 7*1 + 20 + 4*1 + 33 + 5*1 + 4 + 5*1"
definition AcceptedHtlcTimeoutWitnessSize :: nat where
  "AcceptedHtlcTimeoutWitnessSize = 1 + 73 + 1 + AcceptedHtlcScriptSize"
definition AcceptedHtlcPenaltyWitnessSize :: nat where
  "AcceptedHtlcPenaltyWitnessSize = 1 + 1 + 73 + 1 + 33 + 1 + AcceptedHtlcScriptSize"
definition OfferedHtlcScriptSize :: nat where
  "OfferedHtlcScriptSize = 3*1 + 20 + 5*1 + 33 + 10*1 + 33 + 5*1 + 20 + 4*1"
definition OfferedHtlcPenaltyWitnessSize :: nat where
  "OfferedHtlcPenaltyWitnessSize = 1 + 1 + 73 + 1 + 1 + OfferedHtlcScriptSize"
definition P2WKHWitnessSize :: nat where "P2WKHWitnessSize = 1 + 1 + 73 + 1 + 33"

record TxWeightEstimator =
  we_hasWitness :: bool
  we_inputCount :: nat
  we_outputCount :: nat
  we_inputSize :: nat
  we_inputWitnessSize :: nat
  we_outputSize :: nat

definition newEstimator :: TxWeightEstimator where
  "newEstimator = \<lparr>we_hasWitness = False, we_inputCount = 0, we_outputCount = 0, we_inputSize = 0,
     we_inputWitnessSize = 0, we_outputSize = 0\<rparr>"

definition AddWitnessInput :: "nat \<Rightarrow> TxWeightEstimator \<Rightarrow> TxWeightEstimator" where
  "AddWitnessInput witnessSize twe =
     twe\<lparr>we_inputSize := we_inputSize twe + InputSize,
         we_inputWitnessSize := we_inputWitnessSize twe + witnessSize,
         we_inputCount := we_inputCount twe + 1, we_hasWitness := True\<rparr>"

definition AddP2WKHOutput :: "TxWeightEstimator \<Rightarrow> TxWeightEstimator" where
  "AddP2WKHOutput twe =
     twe\<lparr>we_outputSize := we_outputSize twe + P2WKHOutputSize,
         we_outputCount := we_outputCount twe + 1\<rparr>"

definition VarIntSerializeSize :: "nat \<Rightarrow> nat" where
  "VarIntSerializeSize val = (if val < 0xfd then 1 else if val \<le> 0xffff then 3
     else if val \<le> 0xffffffff then 5 else 9)"

definition Weight :: "TxWeightEstimator \<Rightarrow> nat" where
  "Weight twe =
     (let txSizeStripped = BaseTxSize + VarIntSerializeSize (we_inputCount twe) + we_inputSize twe
            + VarIntSerializeSize (we_outputCount twe) + we_outputSize twe;
          weight = txSizeStripped * witnessScaleFactor
      in if we_hasWitness twe then weight + (WitnessHeaderSize + we_inputWitnessSize twe) else weight)"

definition VSize :: "TxWeightEstimator \<Rightarrow> nat" where
  "VSize twe = (Weight twe + witnessScaleFactor - 1) div witnessScaleFactor"

definition FeeForVSize :: "u64 \<Rightarrow> nat \<Rightarrow> u64" where
  "FeeForVSize s vbytes = s * word_of_nat vbytes"

section \<open>Sanity\<close>

definition MaxSatoshi :: int where "MaxSatoshi = 21000000 * 100000000"
definition MaxBlockBaseSize :: nat where "MaxBlockBaseSize = 1000000"

definition isNullOutpoint :: "OutPoint \<Rightarrow> bool" where
  "isNullOutpoint p \<longleftrightarrow> Index p = 0xffffffff \<and> Hash p = 0"

definition IsCoinBaseTx :: "MsgTx \<Rightarrow> bool" where
  "IsCoinBaseTx msgTx \<longleftrightarrow>
     (case TxIns msgTx of [ti] \<Rightarrow> isNullOutpoint (PreviousOutPoint ti) | _ \<Rightarrow> False)"

definition SerializeSizeStripped :: "MsgTx \<Rightarrow> nat" where
  "SerializeSizeStripped msg =
     8 + VarIntSerializeSize (length (TxIns msg)) + VarIntSerializeSize (length (TxOuts msg))
     + sum_list (map (\<lambda>ti. 40 + VarIntSerializeSize (length (SignatureScript ti))
                             + length (SignatureScript ti)) (TxIns msg))
     + sum_list (map (\<lambda>out. 8 + VarIntSerializeSize (length (PkScript out))
                              + length (PkScript out)) (TxOuts msg))"

fun checkOutValues :: "u64 \<Rightarrow> TxOut list \<Rightarrow> goerr option" where
  "checkOutValues totalSatoshi [] = None"
| "checkOutValues totalSatoshi (out # outs) =
     (let satoshi = Value out; total = totalSatoshi + satoshi in
      if sint satoshi < 0 then Some (GoErr ''transaction output has negative value'')
      else if sint satoshi > MaxSatoshi then Some (GoErr ''transaction output value is higher than max allowed value'')
      else if sint total < 0 then Some (GoErr ''total value of all transaction outputs exceeds max allowed value'')
      else if sint total > MaxSatoshi then Some (GoErr ''total value of all transaction outputs is higher than max allowed value'')
      else checkOutValues total outs)"

definition CheckTransactionSanity :: "MsgTx \<Rightarrow> goerr option" where
  "CheckTransactionSanity msgTx =
     (if TxIns msgTx = [] then Some (GoErr ''transaction has no inputs'')
      else if TxOuts msgTx = [] then Some (GoErr ''transaction has no outputs'')
      else if SerializeSizeStripped msgTx > MaxBlockBaseSize then Some (GoErr ''serialized transaction is too big'')
      else case checkOutValues 0 (TxOuts msgTx) of Some e \<Rightarrow> Some e
      | None \<Rightarrow>
          if \<not> distinct (map PreviousOutPoint (TxIns msgTx)) then Some (GoErr ''transaction contains duplicate inputs'')
          else if IsCoinBaseTx msgTx
          then (let slen = length (SignatureScript (hd (TxIns msgTx))) in
                if slen < 2 \<or> slen > 100 then Some (GoErr ''coinbase transaction script length is out of range'')
                else None)
          else if list_ex (\<lambda>ti. isNullOutpoint (PreviousOutPoint ti)) (TxIns msgTx)
          then Some (GoErr ''transaction input refers to previous output that is null'')
          else None)"

lemma checkOutValues_range:
  "checkOutValues tot outs = None \<Longrightarrow> out \<in> set outs \<Longrightarrow> 0 \<le> sint (Value out) \<and> sint (Value out) \<le> MaxSatoshi"
  by (induction tot outs rule: checkOutValues.induct) (auto simp: Let_def split: if_splits)

lemma CheckTransactionSanity_None:
  assumes "CheckTransactionSanity tx = None"
  shows "TxIns tx \<noteq> []" "distinct (map PreviousOutPoint (TxIns tx))"
    "\<And>out. out \<in> set (TxOuts tx) \<Longrightarrow> 0 \<le> sint (Value out) \<and> sint (Value out) \<le> MaxSatoshi"
  using assms checkOutValues_range [of 0 "TxOuts tx"]
  by (auto simp: CheckTransactionSanity_def Let_def split: if_splits option.splits)

end
