(* ===== verification/TxBuild.thy ===== *)
theory TxBuild
  imports TxTools Bolt
begin

text \<open>
  What the nursery and the breach arbiter share when they build a sweep: inputs are added to a
  transaction with its one output in place, the transaction is checked, and then signed input
  by input. The signed transaction differs from the checked one in its witnesses only, carries
  the signer's witness at every input, and is small enough to be stored.
\<close>

section \<open>Inputs\<close>

lemma fold_AddTxIn: "fold (\<lambda>x. AddTxIn (f x)) xs tx = tx\<lparr>TxIns := TxIns tx @ map f xs\<rparr>"
  by (induction xs arbitrary: tx) (simp_all add: AddTxIn_def)

lemma fold_AddWitnessInput:
  "fold (\<lambda>k. AddWitnessInput (f k)) ks w =
     w\<lparr>we_hasWitness := we_hasWitness w \<or> ks \<noteq> [], we_inputCount := we_inputCount w + length ks,
       we_inputSize := we_inputSize w + length ks * InputSize,
       we_inputWitnessSize := we_inputWitnessSize w + sum_list (map f ks)\<rparr>"
  by (induction ks arbitrary: w) (simp_all add: AddWitnessInput_def algebra_simps)

text \<open>The closure \<^verbatim>\<open>addWitness\<close>, applied to the inputs from index \<open>idx\<close> on; \<open>build\<close> is the signer.\<close>

fun addWitnesses ::
  "('o \<Rightarrow> MsgTx \<Rightarrow> nat \<Rightarrow> goerr + bytes list) \<Rightarrow> nat \<Rightarrow> 'o list \<Rightarrow> MsgTx \<Rightarrow> goerr + MsgTx" where
  "addWitnesses build idx [] sweepTx = Inr sweepTx"
| "addWitnesses build idx (tso # rest') sweepTx =
     (case build tso sweepTx idx of Inl e \<Rightarrow> Inl e
      | Inr witness \<Rightarrow> addWitnesses build (Suc idx) rest'
          (sweepTx\<lparr>TxIns := (TxIns sweepTx)[idx := (TxIns sweepTx ! idx)\<lparr>Witness := witness\<rparr>]\<rparr>))"

section \<open>Witnesses\<close>

definition strip :: "MsgTx \<Rightarrow> MsgTx" where
  "strip tx = tx\<lparr>TxIns := map (\<lambda>ti. ti\<lparr>Witness := []\<rparr>) (TxIns tx)\<rparr>"

definition set_witness :: "nat \<Rightarrow> bytes list \<Rightarrow> MsgTx \<Rightarrow> MsgTx" where
  "set_witness i wit tx = tx\<lparr>TxIns := (TxIns tx)[i := (TxIns tx ! i)\<lparr>Witness := wit\<rparr>]\<rparr>"

lemma strip_set_witness: "i < length (TxIns tx) \<Longrightarrow> strip (set_witness i wit tx) = strip tx"
  by (simp add: strip_def set_witness_def map_update list_update_same_conv)

lemma strip_length: "strip tx = strip tx' \<Longrightarrow> length (TxIns tx) = length (TxIns tx')"
  by (metis (no_types, lifting) MsgTx.select_convs(2) MsgTx.surjective MsgTx.update_convs(2) length_map strip_def)

lemma addWitnesses_Cons:
  "addWitnesses build i (k # ks) tx = Inr tx' \<longleftrightarrow>
     (\<exists>wit. build k tx i = Inr wit \<and> addWitnesses build (Suc i) ks (set_witness i wit tx) = Inr tx')"
  by (auto simp: set_witness_def split: sum.splits)

definition signed_for :: "('o \<Rightarrow> MsgTx \<Rightarrow> nat \<Rightarrow> goerr + bytes list) \<Rightarrow> MsgTx \<Rightarrow> nat \<Rightarrow> 'o \<Rightarrow> bool" where
  "signed_for build tx i k \<longleftrightarrow> i < length (TxIns tx) \<and>
     (\<exists>tx0. strip tx0 = strip tx \<and> build k tx0 i = Inr (Witness (TxIns tx ! i)))"

lemma addWitnesses_signed:
  assumes "addWitnesses build i ks tx = Inr tx'" "i + length ks \<le> length (TxIns tx)"
  shows "strip tx' = strip tx \<and> (\<forall>j < length ks. signed_for build tx' (i + j) (ks ! j))
     \<and> (\<forall>j < length (TxIns tx). j < i \<or> i + length ks \<le> j \<longrightarrow> TxIns tx' ! j = TxIns tx ! j)"
  using assms
proof (induction ks arbitrary: i tx)
  case (Cons k ks)
  obtain wit where wit: "build k tx i = Inr wit"
      "addWitnesses build (Suc i) ks (set_witness i wit tx) = Inr tx'"
    using Cons.prems(1) unfolding addWitnesses_Cons by blast
  have i: "i < length (TxIns tx)" using Cons.prems(2) by simp
  have len: "length (TxIns (set_witness i wit tx)) = length (TxIns tx)" by (simp add: set_witness_def)
  have IH: "strip tx' = strip tx" "\<forall>j < length ks. signed_for build tx' (Suc i + j) (ks ! j)"
      "\<forall>j < length (TxIns tx). j < Suc i \<or> Suc i + length ks \<le> j \<longrightarrow>
         TxIns tx' ! j = TxIns (set_witness i wit tx) ! j"
    using Cons.IH [OF wit(2)] Cons.prems(2) len strip_set_witness [OF i, of wit] by simp_all
  have "Witness (TxIns tx' ! i) = wit" using IH(3) i by (simp add: set_witness_def)
  then have first: "signed_for build tx' i k"
    using IH(1) wit(1) i strip_length [OF IH(1)] unfolding signed_for_def by force
  have "signed_for build tx' (i + j) ((k # ks) ! j)" if "j < length (k # ks)" for j
    using that first IH(2) by (cases j) auto
  moreover have "TxIns tx' ! j = TxIns tx ! j" if "j < length (TxIns tx)" "j < i \<or> i + length (k # ks) \<le> j" for j
    using that IH(3) by (auto simp: set_witness_def)
  ultimately show ?case using IH(1) by blast
qed simp

lemma strip_map:
  assumes "strip tx = strip tx'" "\<And>ti. f (ti\<lparr>Witness := []\<rparr>) = f ti"
  shows "map f (TxIns tx) = map f (TxIns tx')"
proof -
  have "map (\<lambda>ti. ti\<lparr>Witness := []\<rparr>) (TxIns tx) = map (\<lambda>ti. ti\<lparr>Witness := []\<rparr>) (TxIns tx')"
    using assms(1) by (cases tx, cases tx', simp add: strip_def)
  from arg_cong [OF this, of "map f"] assms(2) show ?thesis by (simp add: comp_def)
qed

lemma strip_fields:
  assumes "strip tx = strip tx'"
  shows "TxOuts tx = TxOuts tx'" "LockTime tx = LockTime tx'" "Version tx = Version tx'"
  using assms by (cases tx, cases tx', simp add: strip_def)+

section \<open>Size\<close>

text \<open>
  The signer's documented output: a witness stack as the policy of the network admits it (at
  most 16 items, none larger than a standard witness script). The bound on the number of
  inputs comes from \<^verbatim>\<open>CheckTransactionSanity\<close>.
\<close>

definition witness_ok :: "('o \<Rightarrow> MsgTx \<Rightarrow> nat \<Rightarrow> goerr + bytes list) \<Rightarrow> bool" where
  "witness_ok build \<longleftrightarrow> (\<forall>k tx i wit. build k tx i = Inr wit \<longrightarrow>
     length wit \<le> 16 \<and> (\<forall>x \<in> set wit. length x \<le> 3600))"

lemma length_concat_le: "(\<And>x. x \<in> set xs \<Longrightarrow> length (f x) \<le> b) \<Longrightarrow> length (concat (map f xs)) \<le> length xs * b"
  by (induction xs) (auto intro: add_mono)

lemma length_writeTxWitness_le:
  assumes "length wit \<le> 16" "\<forall>x \<in> set wit. length x \<le> 3600"
  shows "length (writeTxWitness wit) \<le> 60000"
proof -
  have "length (WriteVarBytes x) \<le> 3609" if "x \<in> set wit" for x
    using length_WriteVarBytes_le [of x] assms(2) that by fastforce
  then have "length (concat (map WriteVarBytes wit)) \<le> length wit * 3609" by (rule length_concat_le)
  also have "\<dots> \<le> 16 * 3609" using assms(1) by simp
  finally show ?thesis using length_WriteVarInt_le [of "word_of_nat (length wit)"] by (simp add: writeTxWitness_def)
qed

lemma input_sizes:
  "length xs * 41 \<le> sum_list (map (\<lambda>ti. 40 + VarIntSerializeSize (length (SignatureScript ti))
      + length (SignatureScript ti)) xs)"
  by (induction xs) (auto simp: VarIntSerializeSize_def)

lemma sanity_sizes:
  assumes "CheckTransactionSanity tx = None"
  shows "41 * length (TxIns tx) \<le> 1000000" "sum_list (map (\<lambda>out. length (PkScript out)) (TxOuts tx)) \<le> 1000000"
proof -
  have "SerializeSizeStripped tx \<le> 1000000"
    using assms by (auto simp: CheckTransactionSanity_def MaxBlockBaseSize_def split: if_splits)
  moreover note input_sizes [of "TxIns tx"]
  moreover have "sum_list (map (\<lambda>out. length (PkScript out)) (TxOuts tx))
      \<le> sum_list (map (\<lambda>out. 8 + VarIntSerializeSize (length (PkScript out)) + length (PkScript out)) (TxOuts tx))"
    by (rule sum_list_mono) simp
  ultimately show "41 * length (TxIns tx) \<le> 1000000"
    "sum_list (map (\<lambda>out. length (PkScript out)) (TxOuts tx)) \<le> 1000000"
    by (simp_all add: SerializeSizeStripped_def)
qed

lemma length_Serialize_le:
  assumes n: "length (TxIns tx) \<le> n" and sig: "\<forall>ti \<in> set (TxIns tx). SignatureScript ti = []"
    and wit: "\<forall>ti \<in> set (TxIns tx). length (Witness ti) \<le> 16 \<and> (\<forall>x \<in> set (Witness ti). length x \<le> 3600)"
    and out: "TxOuts tx = [out]" "length (PkScript out) \<le> 1000000"
  shows "length (Serialize tx) \<le> 1000100 + n * 60050"
proof -
  have "length (writeTxIn ti) \<le> 50" if "ti \<in> set (TxIns tx)" for ti
    using sig that length_WriteVarBytes_le [of "SignatureScript ti"] by (simp add: writeTxIn_def wire_writeOutPoint_def)
  then have ins: "length (concat (map writeTxIn (TxIns tx))) \<le> n * 50"
    using length_concat_le [of "TxIns tx" writeTxIn 50] n by fastforce
  have "length (writeTxWitness (Witness ti)) \<le> 60000" if "ti \<in> set (TxIns tx)" for ti
    using wit that by (intro length_writeTxWitness_le) auto
  then have wits: "length (concat (map (\<lambda>ti. writeTxWitness (Witness ti)) (TxIns tx))) \<le> n * 60000"
    using length_concat_le [of "TxIns tx" "\<lambda>ti. writeTxWitness (Witness ti)" 60000] n by fastforce
  have "length (wire_WriteTxOut out) \<le> 1000017"
    using out(2) length_WriteVarBytes_le [of "PkScript out"] by (simp add: wire_WriteTxOut_def)
  then show ?thesis
    using ins wits out(1) length_WriteVarInt_le [of "word_of_nat (length (TxIns tx))"]
      length_WriteVarInt_le [of 1]
    by (simp add: Serialize_def BtcEncode_def Let_def)
qed

lemma signed_fits:
  assumes sane: "CheckTransactionSanity tmpl = None" and same: "strip tx = strip tmpl"
    and tmpl: "TxOuts tmpl = [out]" "\<forall>ti \<in> set (TxIns tmpl). SignatureScript ti = []"
    and sgn: "length ks = length (TxIns tmpl)" "\<forall>i < length ks. signed_for build tx i (ks ! i)"
    and ok: "witness_ok build"
  shows "wf_tx tx \<and> length (Serialize tx) \<le> MaxValueSize"
proof -
  have len: "length (TxIns tx) = length ks" using strip_length [OF same] sgn(1) by simp
  have wit: "length (Witness ti) \<le> 16 \<and> (\<forall>x \<in> set (Witness ti). length x \<le> 3600)" if "ti \<in> set (TxIns tx)" for ti
    using that sgn(2) ok unfolding in_set_conv_nth signed_for_def witness_ok_def len by metis
  have sig: "SignatureScript ti = []" if ti: "ti \<in> set (TxIns tx)" for ti
  proof -
    have "map SignatureScript (TxIns tx) = map SignatureScript (TxIns tmpl)" using strip_map [OF same, of SignatureScript] by simp
    then have "SignatureScript ti \<in> SignatureScript ` set (TxIns tmpl)" using ti by (metis imageI list.set_map)
    with tmpl(2) show ?thesis by auto
  qed
  have size: "41 * length (TxIns tx) \<le> 1000000" "length (PkScript out) \<le> 1000000"
    using sanity_sizes [OF sane] strip_length [OF same] by (simp_all add: tmpl(1))
  have outs: "TxOuts tx = [out]" using strip_fields(1) [OF same] tmpl(1) by simp
  have "length (TxIns tx) \<le> 24390" using size(1) by simp
  from length_Serialize_le [OF this _ _ outs size(2)] sig wit
  have "length (Serialize tx) \<le> MaxValueSize" by (simp add: MaxValueSize_def)
  moreover have "wf_tx tx"
    using CheckTransactionSanity_None(1) [OF sane] strip_length [OF same] size sig wit outs
    by (fastforce simp: wf_tx_def wf_txin_def wire_limits list_all_iff)
  ultimately show ?thesis by simp
qed

end
