(* ===== verification/BreachArbiter.thy ===== *)
theory BreachArbiter
  imports Retribution TxBuild
begin

text \<open>
  The breach arbiter (\<^verbatim>\<open>src/lnd/breacharbiter.go\<close>). It starts an observer for every open
  channel; an observer that sees a revoked commitment records the retribution in the store and
  hands it to the main goroutine, which starts a goroutine that, once the breach has
  confirmed, builds, stores and broadcasts the justice transaction and waits for it. The
  goroutines are modelled as handlers on the world of the arbiter; messages sent between them
  are queued there. Chain backend, wallet and channel database are a call's environment.
\<close>

section \<open>Data\<close>

record HtlcRetribution =
  hr_SignDesc :: SignDescriptor
  hr_OutPoint :: OutPoint
  SecondLevelWitnessScript :: bytes
  IsIncoming :: bool

record BreachRetribution =
  BreachTransaction :: MsgTx
  br_BreachHeight :: u32
  br_ChainHash :: hash
  LocalOutputSignDesc :: "SignDescriptor option"
  LocalOutpoint :: OutPoint
  RemoteOutputSignDesc :: "SignDescriptor option"
  RemoteOutpoint :: OutPoint
  HtlcRetributions :: "HtlcRetribution list"

record 's BreachConfig =
  bc_FetchClosedChannels :: "goerr + (OutPoint \<times> bool) list" \<comment> \<open>channel point, is pending\<close>
  bc_FetchAllChannels :: "goerr + OutPoint list"
  bc_EstimateFeePerVSize :: "u32 \<Rightarrow> goerr + u64"
  bc_GenSweepScript :: "goerr + bytes"
  bc_RegisterConfirmationsNtfn :: "hash \<Rightarrow> u32 \<Rightarrow> u32 \<Rightarrow> goerr option"
  bc_SubscribeChannelEvents :: "OutPoint \<Rightarrow> goerr option"
  bc_BuildWitness :: "breachedOutput \<Rightarrow> MsgTx \<Rightarrow> nat \<Rightarrow> goerr + bytes list"
  bc_TxHash :: "MsgTx \<Rightarrow> hash"
  bc_MarkChanFullyClosed :: "OutPoint \<Rightarrow> goerr option"
  bc_rangeOrder :: "(OutPoint \<rightharpoonup> retributionInfo) \<Rightarrow> OutPoint list"
  bc_Store :: "'s RetributionStore"

record 's breachArbiter =
  ba_started :: bool
  ba_stopped :: bool
  ba_quit :: bool
  breachObservers :: "OutPoint \<rightharpoonup> nat" \<comment> \<open>the settle signal of the observer\<close>
  ba_nextSignal :: nat
  ba_closedSignals :: "nat list"
  ba_observers :: "(OutPoint \<times> nat) list" \<comment> \<open>observer goroutines that were started\<close>
  ba_tasks :: "retributionInfo list" \<comment> \<open>goroutines waiting for a breach to confirm\<close>
  breachedContracts :: "retributionInfo list"
  settledContracts :: "OutPoint list"
  ba_acks :: "(OutPoint \<times> goerr option) list"
  ba_closedLinks :: "OutPoint list"
  ba_fullyClosed :: "OutPoint list"
  ba_published :: "MsgTx list"
  ba_store :: 's

definition newBreachArbiter :: "'s \<Rightarrow> 's breachArbiter" where
  "newBreachArbiter s = \<lparr>ba_started = False, ba_stopped = False, ba_quit = False, breachObservers = Map.empty,
     ba_nextSignal = 0, ba_closedSignals = [], ba_observers = [], ba_tasks = [], breachedContracts = [],
     settledContracts = [], ba_acks = [], ba_closedLinks = [], ba_fullyClosed = [], ba_published = [], ba_store = s\<rparr>"

definition a_Update :: "('s \<Rightarrow> (goerr + 'a) \<times> 's) \<Rightarrow> ('s breachArbiter, 'a) io" where
  "a_Update f w = (case f (ba_store w) of (r, s') \<Rightarrow> (r, w\<lparr>ba_store := s'\<rparr>))"

definition a_View :: "('s \<Rightarrow> goerr + 'a) \<Rightarrow> ('s breachArbiter, 'a) io" where
  "a_View f w = (f (ba_store w), w)"

section \<open>Retribution information\<close>

definition newRetributionInfo :: "(MsgTx \<Rightarrow> hash) \<Rightarrow> OutPoint \<Rightarrow> BreachRetribution \<Rightarrow> retributionInfo" where
  "newRetributionInfo txHash chanPoint breachInfo =
     (let localOutput = (case LocalOutputSignDesc breachInfo of None \<Rightarrow> []
            | Some sd \<Rightarrow> [makeBreachedOutput (LocalOutpoint breachInfo) CommitmentNoDelay [] sd]);
          remoteOutput = (case RemoteOutputSignDesc breachInfo of None \<Rightarrow> []
            | Some sd \<Rightarrow> [makeBreachedOutput (RemoteOutpoint breachInfo) CommitmentRevoke [] sd]);
          htlcOutputs = map (\<lambda>h. makeBreachedOutput (hr_OutPoint h)
            (if IsIncoming h then HtlcAcceptedRevoke else HtlcOfferedRevoke)
            (SecondLevelWitnessScript h) (hr_SignDesc h)) (HtlcRetributions breachInfo)
      in \<lparr>commitHash = txHash (BreachTransaction breachInfo), ret_chanPoint = chanPoint,
          ret_chainHash = br_ChainHash breachInfo, breachHeight = br_BreachHeight breachInfo,
          breachedOutputs = localOutput @ remoteOutput @ htlcOutputs\<rparr>)"

text \<open>\<^verbatim>\<open>spendingTx.TxOut[0]\<close> panics on a transaction without outputs.\<close>

definition convertToSecondLevelRevoke :: "(MsgTx \<Rightarrow> hash) \<Rightarrow> MsgTx \<Rightarrow> breachedOutput \<Rightarrow> goerr + breachedOutput" where
  "convertToSecondLevelRevoke txHash spendingTx bo =
     (case TxOuts spendingTx of [] \<Rightarrow> Inl (GoPanic ''index out of range'')
      | out # _ \<Rightarrow> Inr (bo\<lparr>witnessType := HtlcSecondLevelRevoke,
          outpoint := \<lparr>Hash = txHash spendingTx, Index = 0\<rparr>, amt := Value out,
          signDesc := (signDesc bo)\<lparr>Output := (Output (signDesc bo))\<lparr>Value := Value out\<rparr>,
                                     WitnessScript := secondLevelWitnessScript bo\<rparr>\<rparr>))"

section \<open>The justice transaction\<close>

definition justiceWeight :: "breachedOutput \<Rightarrow> nat option" where
  "justiceWeight input =
     (if witnessType input = CommitmentNoDelay then Some P2WKHWitnessSize
      else if witnessType input = CommitmentRevoke then Some ToLocalPenaltyWitnessSize
      else if witnessType input = HtlcOfferedRevoke then Some OfferedHtlcPenaltyWitnessSize
      else if witnessType input = HtlcAcceptedRevoke then Some AcceptedHtlcPenaltyWitnessSize
      else if witnessType input = HtlcSecondLevelRevoke then Some SecondLevelHtlcPenaltyWitnessSize
      else None)"

definition justiceInput :: "breachedOutput
    \<Rightarrow> TxWeightEstimator \<times> breachedOutput list \<Rightarrow> TxWeightEstimator \<times> breachedOutput list" where
  "justiceInput input acc = (case acc of (weightEstimate, spendableOutputs) \<Rightarrow>
     (case justiceWeight input of None \<Rightarrow> (weightEstimate, spendableOutputs)
      | Some witnessWeight \<Rightarrow> (AddWitnessInput witnessWeight weightEstimate, spendableOutputs @ [input])))"

definition sweepSpendableOutputsTxn ::
  "'s BreachConfig \<Rightarrow> nat \<Rightarrow> breachedOutput list \<Rightarrow> goerr + MsgTx" where
  "sweepSpendableOutputsTxn cfg txVSize inputs =
     (case bc_GenSweepScript cfg of Inl e \<Rightarrow> Inl e
      | Inr pkScript \<Rightarrow>
          (let totalAmt = fold (\<lambda>input s. s + amt input) inputs 0 in
           case bc_EstimateFeePerVSize cfg 2 of Inl e \<Rightarrow> Inl e
           | Inr feePerVSize \<Rightarrow>
               (let txFee = FeeForVSize feePerVSize txVSize;
                    sweepAmt = totalAmt - txFee;
                    txn = AddTxOut \<lparr>Value = sweepAmt, PkScript = pkScript\<rparr> (NewMsgTx 2);
                    txn = fold (\<lambda>input. AddTxIn \<lparr>PreviousOutPoint = outpoint input, SignatureScript = [],
                             Witness = [], Sequence = 0\<rparr>) inputs txn
                in case CheckTransactionSanity txn of Some e \<Rightarrow> Inl e
                   | None \<Rightarrow> addWitnesses (bc_BuildWitness cfg) 0 inputs txn)))"

definition createJusticeTx :: "'s BreachConfig \<Rightarrow> retributionInfo \<Rightarrow> goerr + MsgTx" where
  "createJusticeTx cfg r =
     (case fold justiceInput (breachedOutputs r) (AddP2WKHOutput newEstimator, []) of
        (weightEstimate, spendableOutputs) \<Rightarrow>
          sweepSpendableOutputsTxn cfg (VSize weightEstimate) spendableOutputs)"

section \<open>Exacting retribution\<close>

text \<open>
  What the backends do in one round of the loop: whether an output can be watched, whether it
  has been spent, how the broadcast ends, and whether the arbiter has been told to quit.
\<close>

datatype spendNtfn = NotSpent | SpendClosed | Spent MsgTx

record round =
  rd_RegisterSpendNtfn :: "OutPoint \<Rightarrow> u32 \<Rightarrow> goerr option"
  rd_Spend :: "OutPoint \<Rightarrow> spendNtfn"
  rd_PublishTransaction :: "MsgTx \<Rightarrow> goerr option"
  rd_quit :: bool

fun checkSecondLevel :: "(MsgTx \<Rightarrow> hash) \<Rightarrow> round \<Rightarrow> u32 \<Rightarrow> breachedOutput list \<Rightarrow> OutPoint list
    \<Rightarrow> goerr + breachedOutput list \<times> OutPoint list" where
  "checkSecondLevel txHash rd height [] spendNtfns = Inr ([], spendNtfns)"
| "checkSecondLevel txHash rd height (bo # bos) spendNtfns =
     (let next = (\<lambda>bo spendNtfns. case checkSecondLevel txHash rd height bos spendNtfns of
                    Inl e \<Rightarrow> Inl e | Inr (bos, spendNtfns) \<Rightarrow> Inr (bo # bos, spendNtfns));
          op = outpoint bo in
      if witnessType bo \<noteq> HtlcAcceptedRevoke \<and> witnessType bo \<noteq> HtlcOfferedRevoke then next bo spendNtfns
      else case (if op \<in> set spendNtfns then None else rd_RegisterSpendNtfn rd op height) of
        Some e \<Rightarrow> if rd_quit rd then Inl e else next bo spendNtfns
      | None \<Rightarrow>
          (case rd_Spend rd op of
             SpendClosed \<Rightarrow> Inl (GoErr ''notifier shutting down'')
           | NotSpent \<Rightarrow> next bo (op # spendNtfns)
           | Spent spendingTx \<Rightarrow>
               (case convertToSecondLevelRevoke txHash spendingTx bo of Inl e \<Rightarrow> Inl e
                | Inr bo \<Rightarrow> next bo (removeAll op spendNtfns))))"

text \<open>
  The rounds of the loop; the list of rounds ends where the arbiter is told to quit.
\<close>

fun justiceLoop :: "'s BreachConfig \<Rightarrow> round list \<Rightarrow> retributionInfo \<Rightarrow> OutPoint list \<Rightarrow> MsgTx option
    \<Rightarrow> ('s breachArbiter, MsgTx) io" where
  "justiceLoop cfg [] breachInfo spendNtfns finalTx = ifail (GoErr ''shutting down'')"
| "justiceLoop cfg (rd # rds) breachInfo spendNtfns finalTx =
     ibind (case finalTx of Some tx \<Rightarrow> iret (tx, breachInfo, spendNtfns)
            | None \<Rightarrow>
                ibind (ilift (checkSecondLevel (bc_TxHash cfg) rd (breachHeight breachInfo) (breachedOutputs breachInfo) spendNtfns))
                  (\<lambda>(outputs, spendNtfns).
                let breachInfo = breachInfo\<lparr>breachedOutputs := outputs\<rparr> in
                ibind (ilift (createJusticeTx cfg breachInfo)) (\<lambda>tx.
                ibind (a_Update (st_Finalize (bc_Store cfg) (ret_chanPoint breachInfo) tx)) (\<lambda>_.
                  iret (tx, breachInfo, spendNtfns)))))
       (\<lambda>(tx, breachInfo, spendNtfns).
          (case rd_PublishTransaction rd tx of
             None \<Rightarrow> ibind (imod (\<lambda>w. w\<lparr>ba_published := ba_published w @ [tx]\<rparr>)) (\<lambda>_. iret tx)
           | Some e \<Rightarrow>
               if e = ErrDoubleSpend
               then (if rd_quit rd then ifail e else justiceLoop cfg rds breachInfo spendNtfns None)
               else iret tx))"

text \<open>
  The goroutine: \<open>breachConf\<close> is the height of the confirmation of the breach, if it came before
  the shutdown, and \<open>justiceConfirmed\<close> whether that of the justice transaction did.
\<close>

definition exactRetribution ::
  "'s BreachConfig \<Rightarrow> round list \<Rightarrow> u32 option \<Rightarrow> bool \<Rightarrow> retributionInfo \<Rightarrow> ('s breachArbiter, unit) io" where
  "exactRetribution cfg rds breachConf justiceConfirmed breachInfo =
     (case breachConf of None \<Rightarrow> iret () | Some breachConfHeight \<Rightarrow>
     ibind (a_View (st_GetFinalizedTxn (bc_Store cfg) (ret_chanPoint breachInfo))) (\<lambda>finalTx.
     ibind (justiceLoop cfg rds breachInfo [] finalTx) (\<lambda>finalTx.
     ibind (fails (bc_RegisterConfirmationsNtfn cfg (bc_TxHash cfg finalTx) 1 breachConfHeight)) (\<lambda>_.
     if \<not> justiceConfirmed then iret ()
     else
       ibind (fails (bc_MarkChanFullyClosed cfg (ret_chanPoint breachInfo))) (\<lambda>_.
       ibind (imod (\<lambda>w. w\<lparr>ba_fullyClosed := ba_fullyClosed w @ [ret_chanPoint breachInfo]\<rparr>)) (\<lambda>_.
       ibind (itry (a_Update (st_Remove (bc_Store cfg) (ret_chanPoint breachInfo)))) (\<lambda>_. iret ())))))))"

section \<open>Observers\<close>

text \<open>
  An observer waits for one event. Each later \<^verbatim>\<open>select\<close> between a send and \<^verbatim>\<open>b.quit\<close> is
  decided by \<open>sel\<close>: the send goes through in the \<open>i\<close>-th one if \<open>sel i\<close>.
\<close>

datatype chainEvent = QuitSignal | SettleSignal | CooperativeClosure | UnilateralClosure
  | ContractBreach BreachRetribution

definition CloseLink :: "OutPoint \<Rightarrow> ('s breachArbiter, unit) io" where
  "CloseLink chanPoint = imod (\<lambda>w. w\<lparr>ba_closedLinks := ba_closedLinks w @ [chanPoint]\<rparr>)"

definition notifySettled :: "bool \<Rightarrow> OutPoint \<Rightarrow> ('s breachArbiter, unit) io" where
  "notifySettled sent chanPoint =
     (if sent then imod (\<lambda>w. w\<lparr>settledContracts := settledContracts w @ [chanPoint]\<rparr>) else iret ())"

definition sendAck :: "OutPoint \<Rightarrow> goerr + unit \<Rightarrow> ('s breachArbiter, unit) io" where
  "sendAck chanPoint res =
     imod (\<lambda>w. w\<lparr>ba_acks := ba_acks w @ [(chanPoint, case res of Inl e \<Rightarrow> Some e | Inr _ \<Rightarrow> None)]\<rparr>)"

definition breachObserver ::
  "'s BreachConfig \<Rightarrow> (nat \<Rightarrow> bool) \<Rightarrow> OutPoint \<Rightarrow> chainEvent \<Rightarrow> ('s breachArbiter, unit) io" where
  "breachObserver cfg sel chanPoint ev =
     (case ev of
        QuitSignal \<Rightarrow> iret ()
      | SettleSignal \<Rightarrow> iret ()
      | CooperativeClosure \<Rightarrow> ibind (notifySettled (sel 0) chanPoint) (\<lambda>_. CloseLink chanPoint)
      | UnilateralClosure \<Rightarrow> ibind (notifySettled (sel 0) chanPoint) (\<lambda>_. CloseLink chanPoint)
      | ContractBreach breachInfo \<Rightarrow>
          ibind (CloseLink chanPoint) (\<lambda>_.
          let retInfo = newRetributionInfo (bc_TxHash cfg) chanPoint breachInfo in
          ibind (itry (a_Update (st_Add (bc_Store cfg) retInfo))) (\<lambda>err.
          if \<not> sel 0 then iret ()
          else ibind (sendAck chanPoint err) (\<lambda>_.
               ibind (ilift err) (\<lambda>_.
               if \<not> sel 1 then iret ()
               else imod (\<lambda>w. w\<lparr>breachedContracts := breachedContracts w @ [retInfo]\<rparr>))))))"

definition trackObserver :: "OutPoint \<Rightarrow> ('s breachArbiter, nat) io" where
  "trackObserver chanPoint w =
     (let settleSignal = ba_nextSignal w in
      (Inr settleSignal, w\<lparr>breachObservers := (breachObservers w)(chanPoint \<mapsto> settleSignal),
                           ba_nextSignal := Suc settleSignal\<rparr>))"

definition goObserver :: "OutPoint \<Rightarrow> nat \<Rightarrow> ('s breachArbiter, unit) io" where
  "goObserver chanPoint settleSignal = imod (\<lambda>w. w\<lparr>ba_observers := ba_observers w @ [(chanPoint, settleSignal)]\<rparr>)"

definition startObserver :: "OutPoint \<Rightarrow> ('s breachArbiter, unit) io" where
  "startObserver chanPoint = ibind (trackObserver chanPoint) (goObserver chanPoint)"

text \<open>The cases of the main loop of \<^verbatim>\<open>contractObserver\<close>; an error is logged and the loop goes on.\<close>

definition handleBreached :: "'s BreachConfig \<Rightarrow> retributionInfo \<Rightarrow> ('s breachArbiter, unit) io" where
  "handleBreached cfg breachInfo =
     ibind (fails (bc_RegisterConfirmationsNtfn cfg (commitHash breachInfo) 1 (breachHeight breachInfo))) (\<lambda>_.
       imod (\<lambda>w. w\<lparr>ba_tasks := ba_tasks w @ [breachInfo],
                   breachObservers := (breachObservers w)(ret_chanPoint breachInfo := None)\<rparr>))"

text \<open>
  Without a subscription the observer is started on a nil pointer and panics when it asks for
  its channel point.
\<close>

definition handleNew :: "'s BreachConfig \<Rightarrow> OutPoint \<Rightarrow> ('s breachArbiter, unit) io" where
  "handleNew cfg chanPoint =
     ibind (imod (\<lambda>w. case breachObservers w chanPoint of None \<Rightarrow> w
              | Some oldSignal \<Rightarrow> w\<lparr>ba_closedSignals := ba_closedSignals w @ [oldSignal]\<rparr>)) (\<lambda>_.
     ibind (trackObserver chanPoint) (\<lambda>settleSignal.
     ibind (case bc_SubscribeChannelEvents cfg chanPoint of None \<Rightarrow> iret ()
            | Some e \<Rightarrow> ifail (GoPanic ''nil pointer dereference'')) (\<lambda>_.
       goObserver chanPoint settleSignal)))"

definition handleSettled :: "OutPoint \<Rightarrow> ('s breachArbiter, unit) io" where
  "handleSettled chanPoint w =
     (case breachObservers w chanPoint of
        None \<Rightarrow> (Inl (GoErr ''Unable to find contract''), w)
      | Some killSignal \<Rightarrow>
          (Inr (), w\<lparr>ba_closedSignals := ba_closedSignals w @ [killSignal],
                    breachObservers := (breachObservers w)(chanPoint := None)\<rparr>))"

definition contractObserver :: "OutPoint list \<Rightarrow> ('s breachArbiter, unit) io" where
  "contractObserver channelEvents = iforeach startObserver channelEvents"

section \<open>Starting and stopping\<close>

fun removeClosed :: "'s BreachConfig \<Rightarrow> (OutPoint \<times> bool) list \<Rightarrow> (OutPoint \<rightharpoonup> retributionInfo)
    \<Rightarrow> ('s breachArbiter, OutPoint \<rightharpoonup> retributionInfo) io" where
  "removeClosed cfg [] breachRetInfos = iret breachRetInfos"
| "removeClosed cfg ((chanPoint, isPending) # chans) breachRetInfos =
     (if isPending \<or> breachRetInfos chanPoint = None then removeClosed cfg chans breachRetInfos
      else ibind (a_Update (st_Remove (bc_Store cfg) chanPoint)) (\<lambda>_.
             removeClosed cfg chans (breachRetInfos(chanPoint := None))))"

definition resumeRetribution :: "'s BreachConfig \<Rightarrow> retributionInfo \<Rightarrow> ('s breachArbiter, unit) io" where
  "resumeRetribution cfg retInfo =
     ibind (fails (bc_RegisterConfirmationsNtfn cfg (commitHash retInfo) 1 (breachHeight retInfo))) (\<lambda>_.
       imod (\<lambda>w. w\<lparr>ba_tasks := ba_tasks w @ [retInfo]\<rparr>))"

definition ba_Start :: "'s BreachConfig \<Rightarrow> ('s breachArbiter, unit) io" where
  "ba_Start cfg w =
     (if ba_started w then (Inr (), w)
      else
        (ibind (a_View (st_ForAll (bc_Store cfg) (\<lambda>ret m. Inr (m(ret_chanPoint ret \<mapsto> ret))) Map.empty)) (\<lambda>breachRetInfos.
         ibind (ilift (bc_FetchClosedChannels cfg)) (\<lambda>closedChans.
         ibind (removeClosed cfg closedChans breachRetInfos) (\<lambda>breachRetInfos.
         ibind (ilift (case bc_FetchAllChannels cfg of
                   Inl e \<Rightarrow> if e = ErrNoActiveChannels then Inr [] else Inl e | Inr cs \<Rightarrow> Inr cs)) (\<lambda>activeChannels.
         let channelsToWatch = filter (\<lambda>c. breachRetInfos c = None) activeChannels in
         ibind (iforeach (\<lambda>c. fails (bc_SubscribeChannelEvents cfg c)) channelsToWatch) (\<lambda>_.
         ibind (iforeach (\<lambda>c. resumeRetribution cfg (the (breachRetInfos c))) (bc_rangeOrder cfg breachRetInfos)) (\<lambda>_.
           contractObserver channelsToWatch))))))) (w\<lparr>ba_started := True\<rparr>))"

definition ba_Stop :: "('s breachArbiter, unit) io" where
  "ba_Stop w = (if ba_stopped w then (Inr (), w)
     else (Inr (), w\<lparr>ba_stopped := True, ba_quit := True, ba_tasks := [], ba_observers := []\<rparr>))"

definition ba_IsBreached :: "'s BreachConfig \<Rightarrow> OutPoint \<Rightarrow> ('s breachArbiter, bool) io" where
  "ba_IsBreached cfg chanPoint = a_View (st_IsBreached (bc_Store cfg) chanPoint)"

end
