(* ===== verification/BreachJustice.thy ===== *)
theory BreachJustice
  imports BreachArbiter
begin

text \<open>
  The justice transaction: which outputs it sweeps and what it pays, that it can be written to
  the store, and what a look at the spends of the HTLC outputs does to the outputs it sweeps.
\<close>

section \<open>The outputs that are swept\<close>

definition punishable :: "breachedOutput \<Rightarrow> bool" where
  "punishable bo \<longleftrightarrow> witnessType bo \<in> {CommitmentNoDelay, CommitmentRevoke, HtlcOfferedRevoke,
     HtlcAcceptedRevoke, HtlcSecondLevelRevoke}"

definition justice_estimate :: "breachedOutput list \<Rightarrow> TxWeightEstimator" where
  "justice_estimate bos = (let n = length bos in
     \<lparr>we_hasWitness = (n \<noteq> 0), we_inputCount = n, we_outputCount = 1, we_inputSize = n * InputSize,
      we_inputWitnessSize = sum_list (map (\<lambda>bo. the (justiceWeight bo)) bos),
      we_outputSize = P2WKHOutputSize\<rparr>)"

lemma punishable_weight: "justiceWeight bo = None \<longleftrightarrow> \<not> punishable bo"
  by (simp add: justiceWeight_def punishable_def)

lemma justiceInput_cases:
  "justiceInput bo (w, xs) = (if punishable bo then (AddWitnessInput (the (justiceWeight bo)) w, xs @ [bo]) else (w, xs))"
  using punishable_weight [of bo] by (auto simp: justiceInput_def split: option.split)

lemma fold_justiceInput:
  "fold justiceInput bos (w, xs) =
     (fold (\<lambda>bo. AddWitnessInput (the (justiceWeight bo))) (filter punishable bos) w, xs @ filter punishable bos)"
  by (induction bos arbitrary: w xs) (simp_all add: justiceInput_cases)

lemma createJusticeTx_eq:
  "createJusticeTx cfg r = (let bos = filter punishable (breachedOutputs r) in
     sweepSpendableOutputsTxn cfg (VSize (justice_estimate bos)) bos)"
  by (simp add: createJusticeTx_def fold_justiceInput fold_AddWitnessInput justice_estimate_def AddP2WKHOutput_def
      newEstimator_def Let_def)

lemma newRetributionInfo_punishable: "list_all punishable (breachedOutputs (newRetributionInfo f c b))"
  by (auto simp: newRetributionInfo_def makeBreachedOutput_def punishable_def list_all_iff Let_def split: option.split)

section \<open>The transaction\<close>

definition unsigned_input :: "breachedOutput \<Rightarrow> TxIn" where
  "unsigned_input bo = \<lparr>PreviousOutPoint = outpoint bo, SignatureScript = [], Witness = [], Sequence = 0\<rparr>"

definition justiceTemplate :: "bytes \<Rightarrow> u64 \<Rightarrow> breachedOutput list \<Rightarrow> MsgTx" where
  "justiceTemplate script val bos = \<lparr>Version = 2, TxIns = map unsigned_input bos,
     TxOuts = [\<lparr>Value = val, PkScript = script\<rparr>], LockTime = 0\<rparr>"

lemma sum_amt: "fold (\<lambda>input s. s + amt input) bos s = s + sum_list (map amt bos)" for s :: u64
  by (induction bos arbitrary: s) (simp_all add: algebra_simps)

lemma sweepSpendableOutputsTxn_cases:
  assumes "sweepSpendableOutputsTxn cfg vs bos = Inr tx"
  obtains script rate tmpl where "bc_GenSweepScript cfg = Inr script" "bc_EstimateFeePerVSize cfg 2 = Inr rate"
    "tmpl = justiceTemplate script (sum_list (map amt bos) - FeeForVSize rate vs) bos"
    "CheckTransactionSanity tmpl = None" "strip tx = strip tmpl"
    "\<forall>i < length bos. signed_for (bc_BuildWitness cfg) tx i (bos ! i)"
proof -
  obtain script rate where c: "bc_GenSweepScript cfg = Inr script" "bc_EstimateFeePerVSize cfg 2 = Inr rate"
    "CheckTransactionSanity (justiceTemplate script (sum_list (map amt bos) - FeeForVSize rate vs) bos) = None"
    "addWitnesses (bc_BuildWitness cfg) 0 bos (justiceTemplate script (sum_list (map amt bos) - FeeForVSize rate vs) bos) = Inr tx"
    using assms unfolding sweepSpendableOutputsTxn_def Let_def fold_AddTxIn sum_amt
    by (auto simp: AddTxOut_def NewMsgTx_def justiceTemplate_def unsigned_input_def [abs_def]
        split: sum.splits option.splits)
  from addWitnesses_signed [OF c(4)] c(1-3) show ?thesis
    by (intro that [OF c(1,2) refl c(3)]) (simp_all add: justiceTemplate_def)
qed

definition justice_shape :: "'s BreachConfig \<Rightarrow> breachedOutput list \<Rightarrow> MsgTx \<Rightarrow> bool" where
  "justice_shape cfg outs tx \<longleftrightarrow> (let bos = filter punishable outs in
     Version tx = 2 \<and> LockTime tx = 0 \<and> map Sequence (TxIns tx) = map (\<lambda>_. 0) bos
     \<and> map PreviousOutPoint (TxIns tx) = map outpoint bos \<and> bos \<noteq> [] \<and> distinct (map outpoint bos)
     \<and> (\<forall>i < length bos. signed_for (bc_BuildWitness cfg) tx i (bos ! i))
     \<and> (\<exists>script rate val. bc_GenSweepScript cfg = Inr script \<and> bc_EstimateFeePerVSize cfg 2 = Inr rate
          \<and> val = sum_list (map amt bos) - FeeForVSize rate (VSize (justice_estimate bos))
          \<and> TxOuts tx = [\<lparr>Value = val, PkScript = script\<rparr>] \<and> 0 \<le> sint val \<and> sint val \<le> MaxSatoshi))"

lemma createJusticeTx_shape:
  assumes "createJusticeTx cfg r = Inr tx"
  shows "justice_shape cfg (breachedOutputs r) tx"
proof -
  let ?bos = "filter punishable (breachedOutputs r)"
  let ?val = "\<lambda>rate. sum_list (map amt ?bos) - FeeForVSize rate (VSize (justice_estimate ?bos))"
  obtain script rate tmpl where t: "bc_GenSweepScript cfg = Inr script" "bc_EstimateFeePerVSize cfg 2 = Inr rate"
    "tmpl = justiceTemplate script (?val rate) ?bos" "CheckTransactionSanity tmpl = None" "strip tx = strip tmpl"
    "\<forall>i < length ?bos. signed_for (bc_BuildWitness cfg) tx i (?bos ! i)"
    using assms unfolding createJusticeTx_eq Let_def by (rule sweepSpendableOutputsTxn_cases)
  have "map PreviousOutPoint (TxIns tx) = map PreviousOutPoint (TxIns tmpl)"
    "map Sequence (TxIns tx) = map Sequence (TxIns tmpl)"
    using strip_map [OF t(5), of PreviousOutPoint] strip_map [OF t(5), of Sequence] by simp_all
  moreover note strip_fields [OF t(5)] CheckTransactionSanity_None [OF t(4)]
  ultimately show ?thesis
    using t(1-3,6) by (simp add: justice_shape_def justiceTemplate_def unsigned_input_def comp_def Let_def)
qed

lemma createJusticeTx_storable:
  assumes "createJusticeTx cfg r = Inr tx" "witness_ok (bc_BuildWitness cfg)"
  shows "storable_tx tx"
proof -
  let ?bos = "filter punishable (breachedOutputs r)"
  let ?val = "\<lambda>rate. sum_list (map amt ?bos) - FeeForVSize rate (VSize (justice_estimate ?bos))"
  obtain script rate tmpl where t: "bc_GenSweepScript cfg = Inr script" "bc_EstimateFeePerVSize cfg 2 = Inr rate"
    "tmpl = justiceTemplate script (?val rate) ?bos" "CheckTransactionSanity tmpl = None" "strip tx = strip tmpl"
    "\<forall>i < length ?bos. signed_for (bc_BuildWitness cfg) tx i (?bos ! i)"
    using assms(1) unfolding createJusticeTx_eq Let_def by (rule sweepSpendableOutputsTxn_cases)
  from signed_fits [OF t(4,5) _ _ _ t(6) assms(2)] show ?thesis
    by (simp add: storable_tx_def t(3) justiceTemplate_def unsigned_input_def)
qed

section \<open>The second level\<close>

text \<open>What becomes of an output once the spends of the HTLC outputs are known.\<close>

definition htlc_revoke :: "breachedOutput \<Rightarrow> bool" where
  "htlc_revoke bo \<longleftrightarrow> witnessType bo \<in> {HtlcAcceptedRevoke, HtlcOfferedRevoke}"

definition at_second_level :: "(MsgTx \<Rightarrow> hash) \<Rightarrow> round \<Rightarrow> breachedOutput \<Rightarrow> breachedOutput" where
  "at_second_level txHash rd bo =
     (case (htlc_revoke bo, rd_Spend rd (outpoint bo)) of
        (True, Spent tx) \<Rightarrow>
          (case TxOuts tx of [] \<Rightarrow> bo
           | out # _ \<Rightarrow> bo\<lparr>witnessType := HtlcSecondLevelRevoke, outpoint := \<lparr>Hash = txHash tx, Index = 0\<rparr>,
               amt := Value out, signDesc := (signDesc bo)\<lparr>Output := (Output (signDesc bo))\<lparr>Value := Value out\<rparr>,
               WitnessScript := secondLevelWitnessScript bo\<rparr>\<rparr>)
      | _ \<Rightarrow> bo)"

definition watchable :: "round \<Rightarrow> u32 \<Rightarrow> breachedOutput list \<Rightarrow> bool" where
  "watchable rd h bos \<longleftrightarrow> (\<forall>bo \<in> set bos. htlc_revoke bo \<longrightarrow>
     rd_RegisterSpendNtfn rd (outpoint bo) h = None \<and> rd_Spend rd (outpoint bo) \<noteq> SpendClosed
     \<and> (\<forall>tx. rd_Spend rd (outpoint bo) = Spent tx \<longrightarrow> TxOuts tx \<noteq> []))"

lemma at_second_level_id: "\<not> htlc_revoke bo \<or> rd_Spend rd (outpoint bo) = NotSpent \<Longrightarrow> at_second_level f rd bo = bo"
  by (auto simp: at_second_level_def split: bool.split)

lemma convert_at_second_level:
  assumes "htlc_revoke bo" "rd_Spend rd (outpoint bo) = Spent tx" "TxOuts tx \<noteq> []"
  shows "convertToSecondLevelRevoke f tx bo = Inr (at_second_level f rd bo)"
  using assms by (cases "TxOuts tx") (simp_all add: at_second_level_def convertToSecondLevelRevoke_def)

text \<open>One output of the loop, by what the notifier says about it.\<close>

lemma checkSecondLevel_skip:
  "\<not> htlc_revoke bo \<Longrightarrow> checkSecondLevel f rd h (bo # bos) ns =
     map_sum id (apfst ((#) bo)) (checkSecondLevel f rd h bos ns)"
  by (auto simp: htlc_revoke_def Let_def split: sum.split)

lemma checkSecondLevel_unspent:
  assumes "htlc_revoke bo" "outpoint bo \<in> set ns \<or> rd_RegisterSpendNtfn rd (outpoint bo) h = None"
    "rd_Spend rd (outpoint bo) = NotSpent"
  shows "checkSecondLevel f rd h (bo # bos) ns =
     map_sum id (apfst ((#) bo)) (checkSecondLevel f rd h bos (outpoint bo # ns))"
  using assms by (auto simp: htlc_revoke_def Let_def split: sum.split)

lemma checkSecondLevel_spent:
  assumes "htlc_revoke bo" "outpoint bo \<in> set ns \<or> rd_RegisterSpendNtfn rd (outpoint bo) h = None"
    "rd_Spend rd (outpoint bo) = Spent tx" "TxOuts tx \<noteq> []"
  shows "checkSecondLevel f rd h (bo # bos) ns =
     map_sum id (apfst ((#) (at_second_level f rd bo))) (checkSecondLevel f rd h bos (removeAll (outpoint bo) ns))"
  using assms convert_at_second_level [OF assms(1,3,4), of f] by (auto simp: htlc_revoke_def Let_def split: sum.split)

lemma checkSecondLevel_watchable:
  "watchable rd h bos \<Longrightarrow> \<exists>ns'. checkSecondLevel f rd h bos ns = Inr (map (at_second_level f rd) bos, ns')"
proof (induction bos arbitrary: ns)
  case (Cons bo bos)
  have IH: "\<exists>ns'. checkSecondLevel f rd h bos ns = Inr (map (at_second_level f rd) bos, ns')" for ns
    using Cons by (simp add: watchable_def)
  show ?case
  proof (cases "htlc_revoke bo \<and> rd_Spend rd (outpoint bo) \<noteq> NotSpent")
    case False
    then show ?thesis
      using IH [of ns] IH [of "outpoint bo # ns"] Cons.prems
      by (cases "htlc_revoke bo")
         (auto simp: checkSecondLevel_skip checkSecondLevel_unspent at_second_level_id watchable_def
           simp del: checkSecondLevel.simps)
  next
    case True
    then obtain tx where tx: "rd_Spend rd (outpoint bo) = Spent tx" "TxOuts tx \<noteq> []"
      "rd_RegisterSpendNtfn rd (outpoint bo) h = None"
      using Cons.prems by (cases "rd_Spend rd (outpoint bo)") (auto simp: watchable_def)
    with True IH [of "removeAll (outpoint bo) ns"] show ?thesis
      by (auto simp: checkSecondLevel_spent simp del: checkSecondLevel.simps)
  qed
qed simp

end
