(* ===== verification/BreachSafety.thy ===== *)
theory BreachSafety
  imports BreachJustice
begin

text \<open>
  What the goroutines of the breach arbiter do to its store, proved against the contract of the
  store: the justice loop, the whole retribution, and the interleaving of observers, main loop,
  retributions, other closures and restarts as a transition system.
\<close>

section \<open>Moving to the second level\<close>

definition moved :: "(MsgTx \<Rightarrow> hash) \<Rightarrow> breachedOutput \<Rightarrow> breachedOutput \<Rightarrow> bool" where
  "moved f bo bo' \<longleftrightarrow> bo' = bo \<or> htlc_revoke bo \<and> (\<exists>tx. convertToSecondLevelRevoke f tx bo = Inr bo')"

lemma convert_type: "convertToSecondLevelRevoke f tx bo = Inr bo' \<Longrightarrow> witnessType bo' = HtlcSecondLevelRevoke"
  by (auto simp: convertToSecondLevelRevoke_def split: list.splits)

lemma moved_refl: "moved f bo bo"
  by (simp add: moved_def)

lemma moved_trans: "moved f a b \<Longrightarrow> moved f b c \<Longrightarrow> moved f a c"
  using convert_type by (fastforce simp: moved_def htlc_revoke_def witness_types)

lemma moved_punishable: "moved f bo bo' \<Longrightarrow> punishable bo' = punishable bo"
  using convert_type by (fastforce simp: moved_def htlc_revoke_def punishable_def)

lemma checkSecondLevel_moved:
  "checkSecondLevel f rd h bos ns = Inr (bos', ns') \<Longrightarrow> list_all2 (moved f) bos bos'"
proof (induction bos arbitrary: ns bos')
  case (Cons bo bos)
  then show ?case
    by (auto simp: moved_def htlc_revoke_def Let_def
        split: if_splits option.splits sum.splits spendNtfn.splits prod.splits)
qed simp

lemma all_moved_trans: "list_all2 (moved f) xs ys \<Longrightarrow> list_all2 (moved f) ys zs \<Longrightarrow> list_all2 (moved f) xs zs"
  by (rule list_all2_trans [OF moved_trans])

section \<open>The retribution\<close>

definition built :: "'s BreachConfig \<Rightarrow> retributionInfo \<Rightarrow> MsgTx \<Rightarrow> bool" where
  "built cfg b tx \<longleftrightarrow> (\<exists>outs. list_all2 (moved (bc_TxHash cfg)) (breachedOutputs b) outs
     \<and> createJusticeTx cfg (b\<lparr>breachedOutputs := outs\<rparr>) = Inr tx)"

lemma built_trans:
  "list_all2 (moved (bc_TxHash cfg)) (breachedOutputs b) outs \<Longrightarrow> built cfg (b\<lparr>breachedOutputs := outs\<rparr>) tx \<Longrightarrow> built cfg b tx"
  using all_moved_trans by (fastforce simp: built_def)

text \<open>
  The state after the loop: only the stored justice transaction of the channel and the
  broadcasts have changed, what is stored now is the old transaction or one built for these
  outputs, and a transaction is broadcast and returned only if it is the stored one.
\<close>

definition loop_post :: "('s \<Rightarrow> retributions \<Rightarrow> bool) \<Rightarrow> 's BreachConfig \<Rightarrow> retributionInfo \<Rightarrow> retributions
    \<Rightarrow> 's breachArbiter \<Rightarrow> goerr + MsgTx \<Rightarrow> 's breachArbiter \<Rightarrow> bool" where
  "loop_post rep cfg b S w r w' \<longleftrightarrow>
     (\<exists>j txs s'. w' = w\<lparr>ba_store := s', ba_published := ba_published w @ txs\<rparr>
       \<and> rep s' (S\<lparr>justice := (justice S)(ret_chanPoint b := j)\<rparr>)
       \<and> (j = justice S (ret_chanPoint b) \<or> (\<exists>tx. j = Some tx \<and> built cfg b tx))
       \<and> (case r of Inl e \<Rightarrow> txs = [] | Inr tx \<Rightarrow> j = Some tx \<and> (txs = [] \<or> txs = [tx])))"

lemma loop_post_stored:
  assumes "rep s' (S\<lparr>justice := (justice S)(ret_chanPoint b := j)\<rparr>)"
    "j = justice S (ret_chanPoint b) \<or> (\<exists>tx. j = Some tx \<and> built cfg b tx)"
    "case r of Inl e \<Rightarrow> txs = [] | Inr tx \<Rightarrow> j = Some tx \<and> (txs = [] \<or> txs = [tx])"
  shows "loop_post rep cfg b S w r (w\<lparr>ba_store := s', ba_published := ba_published w @ txs\<rparr>)"
  using assms unfolding loop_post_def by blast

lemma loop_post_failed: "rep (ba_store w) S \<Longrightarrow> loop_post rep cfg b S w (Inl e) w"
  using loop_post_stored [where rep = rep and s' = "ba_store w" and j = "justice S (ret_chanPoint b)" and r = "Inl e"
    and txs = "[]" and w = w] by simp

lemma loop_post_next:
  assumes "loop_post rep cfg (b\<lparr>breachedOutputs := outs\<rparr>) (S\<lparr>justice := (justice S)(ret_chanPoint b := j)\<rparr>) (w\<lparr>ba_store := s\<rparr>) r w'"
    "list_all2 (moved (bc_TxHash cfg)) (breachedOutputs b) outs"
    "j = justice S (ret_chanPoint b) \<or> (\<exists>tx. j = Some tx \<and> built cfg b tx)"
  shows "loop_post rep cfg b S w r w'"
proof -
  obtain j' txs s' where p: "w' = w\<lparr>ba_store := s', ba_published := ba_published w @ txs\<rparr>"
    "rep s' (S\<lparr>justice := (justice S)(ret_chanPoint b := j')\<rparr>)"
    "j' = j \<or> (\<exists>tx. j' = Some tx \<and> built cfg (b\<lparr>breachedOutputs := outs\<rparr>) tx)"
    "case r of Inl e \<Rightarrow> txs = [] | Inr tx \<Rightarrow> j' = Some tx \<and> (txs = [] \<or> txs = [tx])"
    using assms(1) unfolding loop_post_def by auto
  show ?thesis unfolding p(1)
    by (rule loop_post_stored [where j = j']) (use p assms(3) built_trans [OF assms(2)] in auto)
qed

text \<open>
  A retribution that comes to an end: the transaction was stored by an earlier run, or can be
  built now, and the backends do their part.
\<close>

definition ready_tx :: "'s BreachConfig \<Rightarrow> round \<Rightarrow> retributionInfo \<Rightarrow> MsgTx option \<Rightarrow> MsgTx \<Rightarrow> bool" where
  "ready_tx cfg rd b stored tx \<longleftrightarrow> stored = Some tx \<or> stored = None \<and> watchable rd (breachHeight b) (breachedOutputs b)
     \<and> createJusticeTx cfg (b\<lparr>breachedOutputs := map (at_second_level (bc_TxHash cfg) rd) (breachedOutputs b)\<rparr>) = Inr tx"

context retribution_store
begin

lemma Finalize_run:
  assumes "bc_Store cfg = store" "witness_ok (bc_BuildWitness cfg)" "rep (ba_store w) S"
    "createJusticeTx cfg (b\<lparr>breachedOutputs := outs\<rparr>) = Inr tx"
  obtains s' where "a_Update (st_Finalize (bc_Store cfg) (ret_chanPoint b) tx) w = (Inr (), w\<lparr>ba_store := s'\<rparr>)"
    "rep s' (S\<lparr>justice := (justice S)(ret_chanPoint b \<mapsto> tx)\<rparr>)"
  using Finalize_law [OF assms(3) createJusticeTx_storable [OF assms(4,2)], of "ret_chanPoint b"] assms(1)
  by (auto simp: a_Update_def)

lemma justiceLoop_run:
  assumes "bc_Store cfg = store" "witness_ok (bc_BuildWitness cfg)" "rep (ba_store w) S"
    "finalTx = None \<or> finalTx = justice S (ret_chanPoint b)"
    "justiceLoop cfg rds b ns finalTx w = (r, w')"
  shows "loop_post rep cfg b S w r w'"
  using assms(3-)
proof (induction rds arbitrary: b ns finalTx S w)
  case Nil
  then show ?case by (auto simp: io_run intro: loop_post_failed)
next
  case (Cons rd rds)
  let ?c = "ret_chanPoint b"
  have publish: "loop_post rep cfg b S w r w'"
    if outs: "list_all2 (moved (bc_TxHash cfg)) (breachedOutputs b) outs"
      and st: "rep s1 (S\<lparr>justice := (justice S)(?c \<mapsto> tx)\<rparr>)" "Some tx = justice S ?c \<or> built cfg b tx"
      and run: "(case rd_PublishTransaction rd tx of
             None \<Rightarrow> ibind (imod (\<lambda>w. w\<lparr>ba_published := ba_published w @ [tx]\<rparr>)) (\<lambda>_. iret tx)
           | Some e \<Rightarrow>
               if e = ErrDoubleSpend
               then (if rd_quit rd then ifail e else justiceLoop cfg rds (b\<lparr>breachedOutputs := outs\<rparr>) ns1 None)
               else iret tx) (w\<lparr>ba_store := s1\<rparr>) = (r, w')"
    for outs s1 tx ns1
  proof (cases "rd_PublishTransaction rd tx = Some ErrDoubleSpend \<and> \<not> rd_quit rd")
    case True
    then have "loop_post rep cfg (b\<lparr>breachedOutputs := outs\<rparr>) (S\<lparr>justice := (justice S)(?c \<mapsto> tx)\<rparr>) (w\<lparr>ba_store := s1\<rparr>) r w'"
      using st(1) run by (intro Cons.IH [where finalTx = None]) simp_all
    from loop_post_next [OF this outs] st(2) show ?thesis by auto
  next
    case False
    define txs where "txs = (if rd_PublishTransaction rd tx = None then [tx] else [])"
    have "w' = w\<lparr>ba_store := s1, ba_published := ba_published w @ txs\<rparr>"
      "case r of Inl e \<Rightarrow> txs = [] | Inr tx' \<Rightarrow> tx' = tx \<and> (txs = [] \<or> txs = [tx])"
      using run False by (auto simp: io_simps txs_def split: option.splits if_splits)
    then show ?thesis
      using loop_post_stored [where rep = rep and s' = s1 and S = S and b = b and j = "Some tx" and r = r and txs = txs] st by (auto split: sum.splits)
  qed
  show ?case
  proof (cases finalTx)
    case (Some tx)
    with Cons.prems(2) have tx: "justice S ?c = Some tx" by simp
    then have S: "S\<lparr>justice := (justice S)(?c \<mapsto> tx)\<rparr> = S" by (simp add: fun_upd_idem)
    have run: "ibind (iret (tx, b\<lparr>breachedOutputs := breachedOutputs b\<rparr>, ns)) (\<lambda>(tx, breachInfo, spendNtfns).
        case rd_PublishTransaction rd tx of
          None \<Rightarrow> ibind (imod (\<lambda>w. w\<lparr>ba_published := ba_published w @ [tx]\<rparr>)) (\<lambda>_. iret tx)
        | Some e \<Rightarrow> if e = ErrDoubleSpend
            then (if rd_quit rd then ifail e else justiceLoop cfg rds breachInfo spendNtfns None)
            else iret tx) (w\<lparr>ba_store := ba_store w\<rparr>) = (r, w')"
      using Some Cons.prems(3) by simp
    show ?thesis
      by (rule publish [of "breachedOutputs b" "ba_store w" tx ns])
         (use S tx Cons.prems(1) run in \<open>simp_all only: S ibind_def io_run sum.case prod.case list_all2_refl moved_refl simp_thms\<close>)
  next
    case None
    show ?thesis
    proof (cases "checkSecondLevel (bc_TxHash cfg) rd (breachHeight b) (breachedOutputs b) ns")
      case (Inl e)
      with None Cons.prems show ?thesis by (auto simp: ibind_def io_run intro: loop_post_failed)
    next
      case (Inr p)
      obtain outs ns1 where p: "p = (outs, ns1)" by (cases p)
      note sl = checkSecondLevel_moved [OF Inr [unfolded p]]
      show ?thesis
      proof (cases "createJusticeTx cfg (b\<lparr>breachedOutputs := outs\<rparr>)")
        case (Inl e)
        with None Inr p Cons.prems(3) have "r = Inl e" "w' = w" by (auto simp: ibind_def io_run)
        with Cons.prems(1) show ?thesis by (simp add: loop_post_failed)
      next
        case tx: (Inr tx)
        obtain s1 where s1: "a_Update (st_Finalize (bc_Store cfg) ?c tx) w = (Inr (), w\<lparr>ba_store := s1\<rparr>)"
          "rep s1 (S\<lparr>justice := (justice S)(?c \<mapsto> tx)\<rparr>)"
          using assms(1,2) Cons.prems(1) tx by (rule Finalize_run)
        have "built cfg b tx" using sl tx unfolding built_def by blast
        with None Inr p tx s1 sl Cons.prems(3) show ?thesis
          by (intro publish [of outs s1 tx ns1]) (simp_all add: ibind_def io_run cong: if_cong)
      qed
    qed
  qed
qed

text \<open>
  The whole retribution. The entry of the channel disappears only after the channel has been
  marked closed, which needs the confirmation of the justice transaction; until then it is kept.
\<close>

lemma exactRetribution_run:
  assumes "bc_Store cfg = store" "witness_ok (bc_BuildWitness cfg)" "rep (ba_store w) S"
    "exactRetribution cfg rds conf justiceConfirmed b w = (r, w')"
  shows "\<exists>j txs s' closed. w' = w\<lparr>ba_store := s', ba_published := ba_published w @ txs, ba_fullyClosed := ba_fullyClosed w @ closed\<rparr>
     \<and> rep s' (S\<lparr>rets := (if closed = [] then rets S else (rets S)(ret_chanPoint b := None)),
               justice := (justice S)(ret_chanPoint b := j)\<rparr>)
     \<and> length txs \<le> 1 \<and> (\<forall>tx \<in> set txs. Some tx = justice S (ret_chanPoint b) \<or> built cfg b tx)
     \<and> (closed = [] \<longrightarrow> (\<forall>tx \<in> set txs. j = Some tx))
     \<and> (closed = [] \<or> closed = [ret_chanPoint b] \<and> conf \<noteq> None \<and> justiceConfirmed \<and> r = Inr ())"
proof (cases conf)
  case None
  have "S\<lparr>justice := (justice S)(ret_chanPoint b := justice S (ret_chanPoint b))\<rparr> = S" by simp
  with None assms show ?thesis
    by (intro exI [of _ "justice S (ret_chanPoint b)"] exI [of _ "[]"] exI [of _ "ba_store w"])
       (auto simp: exactRetribution_def io_run)
next
  case (Some h)
  let ?c = "ret_chanPoint b"
  have get: "a_View (st_GetFinalizedTxn (bc_Store cfg) ?c) w = (Inr (justice S ?c), w)"
    using GetFinalizedTxn_law [OF assms(3)] assms(1) by (simp add: a_View_def)
  obtain r1 w1 where loop: "justiceLoop cfg rds b [] (justice S ?c) w = (r1, w1)"
    by (cases "justiceLoop cfg rds b [] (justice S ?c) w")
  obtain j txs s1 where p: "w1 = w\<lparr>ba_store := s1, ba_published := ba_published w @ txs\<rparr>"
      "rep s1 (S\<lparr>justice := (justice S)(?c := j)\<rparr>)" "j = justice S ?c \<or> (\<exists>tx. j = Some tx \<and> built cfg b tx)"
      "case r1 of Inl e \<Rightarrow> txs = [] | Inr tx \<Rightarrow> j = Some tx \<and> (txs = [] \<or> txs = [tx])"
    using justiceLoop_run [OF assms(1-3) _ loop] unfolding loop_post_def by blast
  have txs: "length txs \<le> 1" "\<forall>tx \<in> set txs. j = Some tx" "\<forall>tx \<in> set txs. Some tx = justice S ?c \<or> built cfg b tx"
    using p(3,4) by (auto split: sum.splits)
  obtain r2 s2 j2 where rem: "st_Remove store ?c s1 = (r2, s2)"
      "rep s2 (S\<lparr>rets := (rets S)(?c := None), justice := (justice S)(?c := j2)\<rparr>)"
    using Remove_any_law [OF p(2), of ?c] by auto
  have "w' = w1 \<or> justiceConfirmed \<and> r = Inr () \<and> w' = w1\<lparr>ba_store := s2, ba_fullyClosed := ba_fullyClosed w @ [?c]\<rparr>"
    using assms(1,4) Some rem(1) p(1) get loop
    by (auto simp: exactRetribution_def ibind_def fails_def io_run itry_def a_Update_def
        split: sum.splits option.splits if_splits)
  then show ?thesis
  proof
    assume "w' = w1"
    with p txs show ?thesis by (intro exI [of _ j] exI [of _ txs] exI [of _ s1] exI [of _ "[]"]) simp
  next
    assume "justiceConfirmed \<and> r = Inr () \<and> w' = w1\<lparr>ba_store := s2, ba_fullyClosed := ba_fullyClosed w @ [?c]\<rparr>"
    with p(1) txs rem(2) Some show ?thesis
      by (intro exI [of _ j2] exI [of _ txs] exI [of _ s2] exI [of _ "[?c]"]) simp
  qed
qed

lemma justiceLoop_ready:
  assumes "bc_Store cfg = store" "witness_ok (bc_BuildWitness cfg)" "rep (ba_store w) S"
    "ready_tx cfg rd b (justice S (ret_chanPoint b)) tx" "rd_PublishTransaction rd tx \<noteq> Some ErrDoubleSpend"
  shows "\<exists>s'. justiceLoop cfg (rd # rds) b [] (justice S (ret_chanPoint b)) w = (Inr tx,
       w\<lparr>ba_store := s', ba_published := ba_published w @ (if rd_PublishTransaction rd tx = None then [tx] else [])\<rparr>)
     \<and> rep s' (S\<lparr>justice := (justice S)(ret_chanPoint b \<mapsto> tx)\<rparr>)"
proof (cases "justice S (ret_chanPoint b)")
  case (Some tx')
  with assms(4) have "tx' = tx" by (simp add: ready_tx_def)
  with Some assms(3,5) show ?thesis
    by (intro exI [of _ "ba_store w"]) (auto simp: io_simps fun_upd_idem split: option.split)
next
  case None
  let ?outs = "map (at_second_level (bc_TxHash cfg) rd) (breachedOutputs b)"
  have w: "watchable rd (breachHeight b) (breachedOutputs b)" and tx: "createJusticeTx cfg (b\<lparr>breachedOutputs := ?outs\<rparr>) = Inr tx"
    using assms(4) None by (simp_all add: ready_tx_def)
  obtain ns where ns: "checkSecondLevel (bc_TxHash cfg) rd (breachHeight b) (breachedOutputs b) [] = Inr (?outs, ns)"
    using checkSecondLevel_watchable [OF w] by blast
  obtain s' where "a_Update (st_Finalize (bc_Store cfg) (ret_chanPoint b) tx) w = (Inr (), w\<lparr>ba_store := s'\<rparr>)"
    "rep s' (S\<lparr>justice := (justice S)(ret_chanPoint b \<mapsto> tx)\<rparr>)"
    using assms(1-3) tx by (rule Finalize_run)
  with None ns tx assms(5) show ?thesis
    by (intro exI [of _ s']) (auto simp: ibind_def io_run split: option.split)
qed

lemma exactRetribution_done:
  assumes "bc_Store cfg = store" "witness_ok (bc_BuildWitness cfg)" "rep (ba_store w) S"
    "rets S (ret_chanPoint b) \<noteq> None"
    "ready_tx cfg rd b (justice S (ret_chanPoint b)) tx" "rd_PublishTransaction rd tx \<noteq> Some ErrDoubleSpend"
    "bc_RegisterConfirmationsNtfn cfg (bc_TxHash cfg tx) 1 h = None" "bc_MarkChanFullyClosed cfg (ret_chanPoint b) = None"
  shows "\<exists>w'. exactRetribution cfg (rd # rds) (Some h) True b w = (Inr (), w')
     \<and> rep (ba_store w') (S\<lparr>rets := (rets S)(ret_chanPoint b := None), justice := (justice S)(ret_chanPoint b := None)\<rparr>)
     \<and> ba_fullyClosed w' = ba_fullyClosed w @ [ret_chanPoint b]
     \<and> ba_published w' = ba_published w @ (if rd_PublishTransaction rd tx = None then [tx] else [])"
proof -
  let ?c = "ret_chanPoint b"
  have get: "a_View (st_GetFinalizedTxn (bc_Store cfg) ?c) w = (Inr (justice S ?c), w)"
    using GetFinalizedTxn_law [OF assms(3)] assms(1) by (simp add: a_View_def)
  obtain s1 where s1: "justiceLoop cfg (rd # rds) b [] (justice S ?c) w = (Inr tx,
       w\<lparr>ba_store := s1, ba_published := ba_published w @ (if rd_PublishTransaction rd tx = None then [tx] else [])\<rparr>)"
     "rep s1 (S\<lparr>justice := (justice S)(?c \<mapsto> tx)\<rparr>)"
    using justiceLoop_ready [OF assms(1-3,5,6)] by blast
  obtain s2 where s2: "st_Remove store ?c s1 = (Inr (), s2)"
      "rep s2 (S\<lparr>rets := (rets S)(?c := None), justice := (justice S)(?c := None)\<rparr>)"
    using Remove_law [OF s1(2), of ?c] assms(4) by auto
  show ?thesis
    using assms(1,7,8) get s1(1) s2
    by (simp add: exactRetribution_def ibind_def io_run fails_def itry_def a_Update_def del: justiceLoop.simps)
qed

end

end
