(* ===== verification/BreachSystem.thy ===== *)
theory BreachSystem
  imports BreachSafety
begin

text \<open>
  The goroutines of the breach arbiter as a transition system. A step is one observer handling
  its event, one round of the main loop, one retribution, a channel closed by another part of
  the daemon, a start, a stop, or a crash, after which only what was on disk or had left the
  process remains. Each step has its own configuration: the backends may answer differently
  every time.
\<close>

section \<open>Steps\<close>

definition after_crash :: "'s breachArbiter \<Rightarrow> 's breachArbiter" where
  "after_crash w = (newBreachArbiter (ba_store w))\<lparr>ba_acks := ba_acks w, ba_closedLinks := ba_closedLinks w,
     ba_fullyClosed := ba_fullyClosed w, ba_published := ba_published w\<rparr>"

text \<open>
  The channel database lists as closed and no longer pending only channels that have been
  marked fully closed, and the map is ranged over in some order.
\<close>

definition env_ok :: "'s RetributionStore \<Rightarrow> 's breachArbiter \<Rightarrow> 's BreachConfig \<Rightarrow> bool" where
  "env_ok store w cfg \<longleftrightarrow> bc_Store cfg = store \<and> witness_ok (bc_BuildWitness cfg)
     \<and> (\<forall>cs c. bc_FetchClosedChannels cfg = Inr cs \<and> (c, False) \<in> set cs \<longrightarrow> c \<in> set (ba_fullyClosed w))
     \<and> (\<forall>m. finite (dom m) \<longrightarrow> distinct (bc_rangeOrder cfg m) \<and> set (bc_rangeOrder cfg m) = dom m)"

definition storable_event :: "'s BreachConfig \<Rightarrow> OutPoint \<Rightarrow> chainEvent \<Rightarrow> bool" where
  "storable_event cfg c ev \<longleftrightarrow>
     (\<forall>b. ev = ContractBreach b \<longrightarrow> storable_ret (newRetributionInfo (bc_TxHash cfg) c b))"

inductive arb_step :: "'s RetributionStore \<Rightarrow> 's breachArbiter \<Rightarrow> 's breachArbiter \<Rightarrow> bool" for store where
  observe: "env_ok store w cfg \<Longrightarrow> (c, sg) \<in> set (ba_observers w) \<Longrightarrow> storable_event cfg c ev \<Longrightarrow>
    arb_step store w (snd (breachObserver cfg sel c ev (w\<lparr>ba_observers := remove1 (c, sg) (ba_observers w)\<rparr>)))"
| breached: "env_ok store w cfg \<Longrightarrow> breachedContracts w = b # bs \<Longrightarrow>
    arb_step store w (snd (handleBreached cfg b (w\<lparr>breachedContracts := bs\<rparr>)))"
| newContract: "env_ok store w cfg \<Longrightarrow> arb_step store w (snd (handleNew cfg c w))"
| settled: "settledContracts w = c # cs \<Longrightarrow>
    arb_step store w (snd (handleSettled c (w\<lparr>settledContracts := cs\<rparr>)))"
| retribution: "env_ok store w cfg \<Longrightarrow> ba_tasks w = xs @ b # ys \<Longrightarrow>
    arb_step store w (snd (exactRetribution cfg rds conf confirmed b (w\<lparr>ba_tasks := xs @ ys\<rparr>)))"
| closedElsewhere: "arb_step store w (w\<lparr>ba_fullyClosed := ba_fullyClosed w @ [c]\<rparr>)"
| start: "env_ok store w cfg \<Longrightarrow> arb_step store w (snd (ba_Start cfg w))"
| stop: "arb_step store w (snd (ba_Stop w))"
| crash: "arb_step store w (after_crash w)"

section \<open>No breach is forgotten\<close>

text \<open>
  Every breach that was acknowledged to the chain watcher without an error, or waits for the
  main loop or for a retribution, is in the store or has been closed for good.
\<close>

definition pending :: "'s breachArbiter \<Rightarrow> OutPoint set" where
  "pending w = {c. (c, None) \<in> set (ba_acks w)} \<union> ret_chanPoint ` (set (breachedContracts w) \<union> set (ba_tasks w))"

definition remembers :: "('s \<Rightarrow> retributions \<Rightarrow> bool) \<Rightarrow> 's breachArbiter \<Rightarrow> bool" where
  "remembers rep w \<longleftrightarrow> (\<exists>S. rep (ba_store w) S
     \<and> (\<forall>c \<in> pending w. c \<in> set (ba_fullyClosed w) \<or> rets S c \<noteq> None))"

lemma remembersI:
  "rep (ba_store w) S \<Longrightarrow> (\<And>c. c \<in> pending w \<Longrightarrow> c \<notin> set (ba_fullyClosed w) \<Longrightarrow> rets S c \<noteq> None) \<Longrightarrow> remembers rep w"
  unfolding remembers_def by blast

lemma remembers_fewer:
  assumes "remembers rep w" "ba_store w' = ba_store w" "pending w' \<subseteq> pending w"
    "set (ba_fullyClosed w) \<subseteq> set (ba_fullyClosed w')"
  shows "remembers rep w'"
  using assms unfolding remembers_def by auto blast

lemma snd_ibind_pure:
  "snd (ibind (fails r) f w) = (case r of None \<Rightarrow> snd (f () w) | Some e \<Rightarrow> w)"
  by (simp add: fails_def io_simps split: option.split)

text \<open>What the rest of \<^verbatim>\<open>Start\<close> may change once the map of breaches is settled.\<close>

definition resumes :: "'s breachArbiter \<Rightarrow> (OutPoint \<rightharpoonup> retributionInfo) \<Rightarrow> 's breachArbiter \<Rightarrow> bool" where
  "resumes w m w' \<longleftrightarrow> ba_store w' = ba_store w \<and> ba_acks w' = ba_acks w \<and> ba_fullyClosed w' = ba_fullyClosed w
     \<and> breachedContracts w' = breachedContracts w \<and> set (ba_tasks w') \<subseteq> set (ba_tasks w) \<union> ran m"

lemma keeps_resume: "m c = Some b \<Longrightarrow> keeps (resumes w m) (resumeRetribution cfg b)"
  unfolding resumeRetribution_def
  by (intro keeps_bind keeps_fails) (auto simp: keeps_def io_run resumes_def ran_def)

lemma keeps_startObserver: "keeps (resumes w m) (startObserver c)"
  by (auto simp: keeps_def resumes_def startObserver_def trackObserver_def goObserver_def ibind_def io_run Let_def)

text \<open>The second half of \<^verbatim>\<open>Start\<close>.\<close>

lemma keeps_Start_tail:
  assumes "finite (dom m) \<Longrightarrow> set (bc_rangeOrder cfg m) = dom m" "finite (dom m)"
  shows "keeps (resumes w m) (ibind (iforeach (\<lambda>c. fails (bc_SubscribeChannelEvents cfg c)) cs) (\<lambda>_.
         ibind (iforeach (\<lambda>c. resumeRetribution cfg (the (m c))) (bc_rangeOrder cfg m)) (\<lambda>_.
           contractObserver cs)))"
  unfolding contractObserver_def
  using assms by (intro keeps_bind keeps_iforeach keeps_fails keeps_startObserver keeps_resume) auto

text \<open>The breaches that are left when the closed channels have been dropped.\<close>

definition still_open :: "(OutPoint \<times> bool) list \<Rightarrow> (OutPoint \<rightharpoonup> retributionInfo) \<Rightarrow> (OutPoint \<rightharpoonup> retributionInfo)" where
  "still_open cs m = (\<lambda>c. if (c, False) \<in> set cs then None else m c)"

lemma still_open_Cons:
  "still_open ((c, isPending) # cs) m = still_open cs (if isPending then m else m(c := None))"
  by (auto simp: still_open_def fun_eq_iff)

lemma iforeach_fails: "(\<And>c. c \<in> set cs \<Longrightarrow> f c = None) \<Longrightarrow> iforeach (\<lambda>c. fails (f c)) cs w = (Inr (), w)"
  by (induction cs arbitrary: w) (simp_all add: fails_def io_run)

lemma iforeach_resume:
  assumes "\<And>h n k. bc_RegisterConfirmationsNtfn cfg h n k = None"
  shows "iforeach (\<lambda>c. resumeRetribution cfg (f c)) cs w = (Inr (), w\<lparr>ba_tasks := ba_tasks w @ map f cs\<rparr>)"
  using assms by (induction cs arbitrary: w) (simp_all add: resumeRetribution_def fails_def io_simps)

lemma contractObserver_run:
  "\<exists>w'. contractObserver cs w = (Inr (), w') \<and> ba_store w' = ba_store w \<and> ba_tasks w' = ba_tasks w
     \<and> ba_fullyClosed w' = ba_fullyClosed w \<and> map fst (ba_observers w') = map fst (ba_observers w) @ cs
     \<and> (\<forall>c. c \<in> set cs \<or> breachObservers w c \<noteq> None \<longrightarrow> breachObservers w' c \<noteq> None)"
proof (induction cs arbitrary: w)
  case (Cons c cs)
  let ?w1 = "w\<lparr>breachObservers := (breachObservers w)(c \<mapsto> ba_nextSignal w),
      ba_nextSignal := Suc (ba_nextSignal w), ba_observers := ba_observers w @ [(c, ba_nextSignal w)]\<rparr>"
  have "startObserver c w = (Inr (), ?w1)"
    by (simp add: startObserver_def trackObserver_def goObserver_def ibind_def io_run Let_def)
  then have "contractObserver (c # cs) w = contractObserver cs ?w1" by (simp add: contractObserver_def)
  with Cons.IH [of ?w1] show ?case by auto
qed (simp add: contractObserver_def)

context retribution_store
begin

lemma remembers_observe:
  assumes "env_ok store w cfg" "storable_event cfg c ev" "remembers rep w"
  shows "remembers rep (snd (breachObserver cfg sel c ev w))"
proof (cases ev)
  case (ContractBreach b)
  let ?ret = "newRetributionInfo (bc_TxHash cfg) c b"
  obtain S where S: "rep (ba_store w) S" "\<forall>c \<in> pending w. c \<in> set (ba_fullyClosed w) \<or> rets S c \<noteq> None"
    using assms(3) unfolding remembers_def by blast
  have c: "ret_chanPoint ?ret = c" by (simp add: newRetributionInfo_def Let_def)
  obtain s' where s': "st_Add store ?ret (ba_store w) = (Inr (), s')" "rep s' (S\<lparr>rets := (rets S)(c \<mapsto> ?ret)\<rparr>)"
    using Add_law [OF S(1), of ?ret] assms(2) ContractBreach c by (auto simp: storable_event_def)
  let ?w' = "snd (breachObserver cfg sel c ev w)"
  have "ba_store ?w' = s'" "pending ?w' \<subseteq> insert c (pending w)" "ba_fullyClosed ?w' = ba_fullyClosed w"
    using s'(1) assms(1) ContractBreach c
    by (auto simp: breachObserver_def env_ok_def CloseLink_def sendAck_def a_Update_def pending_def io_simps Let_def)
  with s'(2) S(2) show ?thesis
    by (intro remembersI [of rep _ "S\<lparr>rets := (rets S)(c \<mapsto> ?ret)\<rparr>"]) auto
qed (use assms(3) in \<open>auto intro!: remembers_fewer [OF assms(3)]
       simp: breachObserver_def notifySettled_def CloseLink_def pending_def io_simps\<close>)

lemma remembers_retribution:
  assumes "env_ok store w cfg" "remembers rep (w\<lparr>ba_tasks := b # ts\<rparr>)"
  shows "remembers rep (snd (exactRetribution cfg rds conf confirmed b (w\<lparr>ba_tasks := ts\<rparr>)))"
proof -
  let ?w = "w\<lparr>ba_tasks := ts\<rparr>"
  obtain S where S: "rep (ba_store ?w) S" "\<forall>c \<in> pending (w\<lparr>ba_tasks := b # ts\<rparr>). c \<in> set (ba_fullyClosed w) \<or> rets S c \<noteq> None"
    using assms(2) unfolding remembers_def by auto
  obtain r w' where run: "exactRetribution cfg rds conf confirmed b ?w = (r, w')"
    by (cases "exactRetribution cfg rds conf confirmed b ?w")
  obtain j txs s' closed where p:
    "w' = ?w\<lparr>ba_store := s', ba_published := ba_published ?w @ txs, ba_fullyClosed := ba_fullyClosed ?w @ closed\<rparr>"
    "rep s' (S\<lparr>rets := (if closed = [] then rets S else (rets S)(ret_chanPoint b := None)),
       justice := (justice S)(ret_chanPoint b := j)\<rparr>)" "closed = [] \<or> closed = [ret_chanPoint b]"
    using exactRetribution_run [OF _ _ S(1) run] assms(1) unfolding env_ok_def by blast
  have "pending w' \<subseteq> pending (w\<lparr>ba_tasks := b # ts\<rparr>)" unfolding p(1) by (auto simp: pending_def)
  with p S(2) run show ?thesis
    by (intro remembersI [of rep _ "S\<lparr>rets := (if closed = [] then rets S else (rets S)(ret_chanPoint b := None)),
          justice := (justice S)(ret_chanPoint b := j)\<rparr>"]) auto
qed

lemma removeClosed_run:
  assumes "bc_Store cfg = store" "rep (ba_store w) S"
  shows "\<exists>s' js. removeClosed cfg cs (rets S) w = (Inr (still_open cs (rets S)), w\<lparr>ba_store := s'\<rparr>)
     \<and> rep s' (S\<lparr>rets := still_open cs (rets S), justice := js\<rparr>)"
  using assms(2)
proof (induction cs arbitrary: S w)
  case Nil
  have "S\<lparr>rets := still_open [] (rets S), justice := justice S\<rparr> = S" by (simp add: still_open_def)
  with Nil show ?case
    by (intro exI [of _ "ba_store w"] exI [of _ "justice S"]) (simp add: io_run still_open_def)
next
  case (Cons x cs)
  obtain c isPending where x: "x = (c, isPending)" by (cases x)
  show ?case
  proof (cases "isPending \<or> rets S c = None")
    case True
    then have "removeClosed cfg (x # cs) (rets S) w = removeClosed cfg cs (rets S) w"
      "still_open (x # cs) (rets S) = still_open cs (rets S)"
      by (auto simp: x still_open_Cons fun_upd_idem)
    with Cons.IH [OF Cons.prems] show ?thesis by simp
  next
    case False
    then obtain s1 where s1: "st_Remove store c (ba_store w) = (Inr (), s1)"
      "rep s1 (S\<lparr>rets := (rets S)(c := None), justice := (justice S)(c := None)\<rparr>)"
      using Remove_law [OF Cons.prems, of c] by auto
    have "removeClosed cfg (x # cs) (rets S) w = removeClosed cfg cs ((rets S)(c := None)) (w\<lparr>ba_store := s1\<rparr>)"
      "still_open (x # cs) (rets S) = still_open cs ((rets S)(c := None))"
      using s1(1) False by (auto simp: x ibind_def a_Update_def assms(1) still_open_Cons)
    with Cons.IH [of "w\<lparr>ba_store := s1\<rparr>" "S\<lparr>rets := (rets S)(c := None), justice := (justice S)(c := None)\<rparr>"] s1(2)
    show ?thesis by (simp del: fun_upd_apply)
  qed
qed

text \<open>A start reads the map, drops what is closed, and goes on from there.\<close>

lemma Start_run:
  assumes "bc_Store cfg = store" "rep (ba_store w) S" "\<not> ba_started w" "bc_FetchClosedChannels cfg = Inr cs"
    "\<And>m. finite (dom m) \<Longrightarrow> set (bc_rangeOrder cfg m) = dom m"
  obtains s' js where "rep s' (S\<lparr>rets := still_open cs (rets S), justice := js\<rparr>)"
    "ba_Start cfg w = ibind (ilift (case bc_FetchAllChannels cfg of
        Inl e \<Rightarrow> if e = ErrNoActiveChannels then Inr [] else Inl e | Inr cs \<Rightarrow> Inr cs)) (\<lambda>activeChannels.
         let channelsToWatch = filter (\<lambda>c. still_open cs (rets S) c = None) activeChannels in
         ibind (iforeach (\<lambda>c. fails (bc_SubscribeChannelEvents cfg c)) channelsToWatch) (\<lambda>_.
         ibind (iforeach (\<lambda>c. resumeRetribution cfg (the (still_open cs (rets S) c)))
             (bc_rangeOrder cfg (still_open cs (rets S)))) (\<lambda>_.
           contractObserver channelsToWatch))) (w\<lparr>ba_started := True, ba_store := s'\<rparr>)"
proof -
  let ?w = "w\<lparr>ba_started := True\<rparr>"
  obtain s' js where run: "removeClosed cfg cs (rets S) ?w = (Inr (still_open cs (rets S)), ?w\<lparr>ba_store := s'\<rparr>)"
     "rep s' (S\<lparr>rets := still_open cs (rets S), justice := js\<rparr>)"
    using removeClosed_run [OF assms(1), of ?w S cs] assms(2) by auto
  have all: "a_View (st_ForAll (bc_Store cfg) (\<lambda>ret m. Inr (m(ret_chanPoint ret \<mapsto> ret))) Map.empty) ?w = (Inr (rets S), ?w)"
    using ForAll_law [OF assms(2)] assms(1) by (simp add: a_View_def)
  show ?thesis
    by (rule that [OF run(2)]) (simp add: ba_Start_def assms(3,4) ibind_def [of "a_View _"] ibind_def [of "removeClosed _ _ _"]
        all run(1) io_simps)
qed

lemma remembers_start:
  assumes "env_ok store w cfg" "remembers rep w"
  shows "remembers rep (snd (ba_Start cfg w))"
proof -
  obtain S where S: "rep (ba_store w) S" "\<forall>c \<in> pending w. c \<in> set (ba_fullyClosed w) \<or> rets S c \<noteq> None"
    using assms(2) unfolding remembers_def by blast
  show ?thesis
  proof (cases "ba_started w \<or> (\<exists>e. bc_FetchClosedChannels cfg = Inl e)")
    case True
    have "snd (ba_Start cfg w) = w \<or> snd (ba_Start cfg w) = w\<lparr>ba_started := True\<rparr>"
      using True ForAll_law [OF S(1)] assms(1)
      by (auto simp: ba_Start_def a_View_def ibind_def io_run env_ok_def)
    then show ?thesis by (auto simp: pending_def intro!: remembers_fewer [OF assms(2)])
  next
    case False
    then obtain cs where cs: "bc_FetchClosedChannels cfg = Inr cs" by (cases "bc_FetchClosedChannels cfg") auto
    have order: "finite (dom m) \<Longrightarrow> set (bc_rangeOrder cfg m) = dom m" for m
      using assms(1) by (simp add: env_ok_def)
    obtain s' js where s': "rep s' (S\<lparr>rets := still_open cs (rets S), justice := js\<rparr>)"
      "ba_Start cfg w = ibind (ilift (case bc_FetchAllChannels cfg of
        Inl e \<Rightarrow> if e = ErrNoActiveChannels then Inr [] else Inl e | Inr cs \<Rightarrow> Inr cs)) (\<lambda>activeChannels.
         let channelsToWatch = filter (\<lambda>c. still_open cs (rets S) c = None) activeChannels in
         ibind (iforeach (\<lambda>c. fails (bc_SubscribeChannelEvents cfg c)) channelsToWatch) (\<lambda>_.
         ibind (iforeach (\<lambda>c. resumeRetribution cfg (the (still_open cs (rets S) c)))
             (bc_rangeOrder cfg (still_open cs (rets S)))) (\<lambda>_.
           contractObserver channelsToWatch))) (w\<lparr>ba_started := True, ba_store := s'\<rparr>)"
      using Start_run [OF _ S(1) _ cs order] assms(1) False unfolding env_ok_def by blast
    let ?w1 = "w\<lparr>ba_started := True, ba_store := s'\<rparr>"
    have fin: "finite (dom (still_open cs (rets S)))" using rep_finite [OF s'(1)] by simp
    have "resumes ?w1 (still_open cs (rets S)) ?w1" by (simp add: resumes_def)
    then have R: "resumes ?w1 (still_open cs (rets S)) (snd (ba_Start cfg w))"
      unfolding s'(2) Let_def
      by (rule keeps_run [rotated]) (rule keeps_bind [OF keeps_pure(3) keeps_Start_tail [OF order fin]])
    have point: "ret_chanPoint b = c" "rets S c = Some b" "(c, False) \<notin> set cs" if "still_open cs (rets S) c = Some b" for c b
      using that rep_wf [OF S(1)] by (auto simp: still_open_def wf_retributions_def split: if_splits)
    have closed: "c \<in> set (ba_fullyClosed w)" if "(c, False) \<in> set cs" for c
      using that assms(1) cs unfolding env_ok_def by blast
    show ?thesis
    proof (rule remembersI)
      show "rep (ba_store (snd (ba_Start cfg w))) (S\<lparr>rets := still_open cs (rets S), justice := js\<rparr>)"
        using R s'(1) by (simp add: resumes_def)
      fix c assume c: "c \<in> pending (snd (ba_Start cfg w))" "c \<notin> set (ba_fullyClosed (snd (ba_Start cfg w)))"
      then have "c \<in> pending w \<or> still_open cs (rets S) c \<noteq> None" "(c, False) \<notin> set cs"
        using R closed point by (auto simp: resumes_def pending_def ran_def)
      with S(2) c(2) R show "rets (S\<lparr>rets := still_open cs (rets S), justice := js\<rparr>) c \<noteq> None"
        by (auto simp: resumes_def still_open_def)
    qed
  qed
qed

lemma remembers_step:
  assumes "arb_step store w w'" "remembers rep w"
  shows "remembers rep w'"
  using assms
proof cases
  case (observe cfg c sg ev sel)
  have "remembers rep (w\<lparr>ba_observers := remove1 (c, sg) (ba_observers w)\<rparr>)"
    by (rule remembers_fewer [OF assms(2)]) (auto simp: pending_def)
  with observe show ?thesis by (auto simp: env_ok_def intro!: remembers_observe)
next
  case (breached cfg b bs)
  have "pending w' \<subseteq> pending w" "ba_store w' = ba_store w" "ba_fullyClosed w' = ba_fullyClosed w"
    using breached by (auto simp: pending_def handleBreached_def snd_ibind_pure io_run split: option.splits)
  then show ?thesis by (intro remembers_fewer [OF assms(2)]) auto
next
  case (newContract cfg c)
  then have "pending w' = pending w" "ba_store w' = ba_store w" "ba_fullyClosed w' = ba_fullyClosed w"
    by (auto simp: pending_def handleNew_def trackObserver_def goObserver_def ibind_def io_run Let_def split: option.split)
  then show ?thesis by (intro remembers_fewer [OF assms(2)]) auto
next
  case (settled c cs)
  then have "pending w' = pending w" "ba_store w' = ba_store w" "ba_fullyClosed w' = ba_fullyClosed w"
    by (auto simp: pending_def handleSettled_def split: option.split)
  then show ?thesis by (intro remembers_fewer [OF assms(2)]) auto
next
  case (retribution cfg xs b ys rds conf confirmed)
  have "remembers rep (w\<lparr>ba_tasks := b # xs @ ys\<rparr>)"
    by (rule remembers_fewer [OF assms(2)]) (auto simp: pending_def retribution)
  with retribution show ?thesis by (simp add: remembers_retribution)
next
  case (start cfg)
  with assms(2) show ?thesis by (simp add: remembers_start)
qed (auto simp: pending_def ba_Stop_def after_crash_def newBreachArbiter_def intro!: remembers_fewer [OF assms(2)])

lemma remembers_run: "(arb_step store)\<^sup>*\<^sup>* w w' \<Longrightarrow> remembers rep w \<Longrightarrow> remembers rep w'"
  by (induction rule: rtranclp_induct) (auto intro: remembers_step)

lemma Start_ok:
  assumes "bc_Store cfg = store" "rep (ba_store w) S" "\<not> ba_started w" "bc_FetchClosedChannels cfg = Inr cs"
    "\<And>m. finite (dom m) \<Longrightarrow> set (bc_rangeOrder cfg m) = dom m" "bc_FetchAllChannels cfg = Inr act"
    "\<And>c. bc_SubscribeChannelEvents cfg c = None" "\<And>h n k. bc_RegisterConfirmationsNtfn cfg h n k = None"
  shows "\<exists>w' js. ba_Start cfg w = (Inr (), w') \<and> rep (ba_store w') (S\<lparr>rets := still_open cs (rets S), justice := js\<rparr>)
     \<and> ba_fullyClosed w' = ba_fullyClosed w \<and> set (ba_tasks w') = set (ba_tasks w) \<union> ran (still_open cs (rets S))
     \<and> map fst (ba_observers w') = map fst (ba_observers w) @ filter (\<lambda>c. still_open cs (rets S) c = None) act
     \<and> (\<forall>c \<in> set act. still_open cs (rets S) c = None \<longrightarrow> breachObservers w' c \<noteq> None)"
proof -
  let ?m = "still_open cs (rets S)" and ?act = "filter (\<lambda>c. still_open cs (rets S) c = None) act"
  obtain s' js where s': "rep s' (S\<lparr>rets := ?m, justice := js\<rparr>)"
    "ba_Start cfg w = ibind (iforeach (\<lambda>c. fails (bc_SubscribeChannelEvents cfg c)) ?act) (\<lambda>_.
         ibind (iforeach (\<lambda>c. resumeRetribution cfg (the (?m c))) (bc_rangeOrder cfg ?m)) (\<lambda>_.
           contractObserver ?act)) (w\<lparr>ba_started := True, ba_store := s'\<rparr>)"
    by (rule Start_run [OF assms(1-5)]) (simp_all add: assms(6) io_simps Let_def)
  let ?w1 = "w\<lparr>ba_started := True, ba_store := s', ba_tasks := ba_tasks w @ map (\<lambda>c. the (?m c)) (bc_rangeOrder cfg ?m)\<rparr>"
  have run: "ba_Start cfg w = contractObserver ?act ?w1"
    using s'(2) by (simp add: ibind_def iforeach_fails assms(7) iforeach_resume [OF assms(8)])
  have "set (bc_rangeOrder cfg ?m) = dom ?m" using assms(5) rep_finite [OF s'(1)] by simp
  then have tasks: "set (ba_tasks ?w1) = set (ba_tasks w) \<union> ran ?m" by (auto simp: ran_def image_iff) (metis domI option.sel)+
  show ?thesis
    using contractObserver_run [of ?act ?w1] tasks s'(1) unfolding run by auto
qed

end

end
