(* ===== verification/NurseryStore.thy ===== *)
theory NurseryStore
  imports Outputs Bolt
begin

text \<open>
  The persistent store of the nursery (\<^verbatim>\<open>src/lnd/nursery_store.go\<close>), one definition per
  function of the source, in terms of the database operations of \<^verbatim>\<open>Bolt\<close>. A method of
  \<^verbatim>\<open>*nurseryStore\<close> takes the store's keys \<open>ns\<close> and runs on the database, which is the
  state; \<^verbatim>\<open>db.Update\<close> and \<^verbatim>\<open>db.View\<close> enclose the exported methods. This theory holds the
  definitions; \<^verbatim>\<open>NurseryView\<close> and \<^verbatim>\<open>NurseryRefine\<close> prove what they do.
\<close>

section \<open>Keys\<close>

definition utxnChainPrefix :: bytes where "utxnChainPrefix = ascii ''utxn''"
definition lastFinalizedHeightKey :: bytes where
  "lastFinalizedHeightKey = ascii ''last-finalized-height''"
definition lastGraduatedHeightKey :: bytes where
  "lastGraduatedHeightKey = ascii ''last-graduated-height''"
definition channelIndexKey :: bytes where "channelIndexKey = ascii ''channel-index''"
definition heightIndexKey :: bytes where "heightIndexKey = ascii ''height-index''"
definition finalizedKndrTxnKey :: bytes where "finalizedKndrTxnKey = ascii ''finalized-kndr-txn''"

definition cribPrefix :: bytes where "cribPrefix = ascii ''crib''"
definition psclPrefix :: bytes where "psclPrefix = ascii ''pscl''"
definition kndrPrefix :: bytes where "kndrPrefix = ascii ''kndr''"
definition gradPrefix :: bytes where "gradPrefix = ascii ''grad''"

definition prefixChainKey :: "bytes \<Rightarrow> hash \<Rightarrow> bytes" where
  "prefixChainKey sysPrefix h = sysPrefix @ hash_bytes h"

definition prefixOutputKey :: "bytes \<Rightarrow> OutPoint \<Rightarrow> bytes" where
  "prefixOutputKey statePrefix op = statePrefix @ writeOutpoint op"

record nurseryStore =
  chainHash :: hash
  pfxChainKey :: bytes

definition newNurseryStore :: "hash \<Rightarrow> nurseryStore" where
  "newNurseryStore h = \<lparr>chainHash = h, pfxChainKey = prefixChainKey utxnChainPrefix h\<rparr>"

section \<open>Buckets\<close>

definition createChannelBucket :: "nurseryStore \<Rightarrow> OutPoint \<Rightarrow> bucket tx" where
  "createChannelBucket ns chanPoint =
     sbind (b_CreateBucketIfNotExists [] (pfxChainKey ns)) (\<lambda>chainBucket.
     sbind (b_CreateBucketIfNotExists chainBucket channelIndexKey) (\<lambda>chanIndex.
       b_CreateBucketIfNotExists chanIndex (writeOutpoint chanPoint)))"

definition getChannelBucket :: "nurseryStore \<Rightarrow> OutPoint \<Rightarrow> db \<Rightarrow> bucket option" where
  "getChannelBucket ns chanPoint t =
     (case b_Bucket [] (pfxChainKey ns) t of None \<Rightarrow> None
      | Some chainBucket \<Rightarrow>
          (case b_Bucket chainBucket channelIndexKey t of None \<Rightarrow> None
           | Some chanIndex \<Rightarrow> b_Bucket chanIndex (writeOutpoint chanPoint) t))"

definition createHeightBucket :: "nurseryStore \<Rightarrow> u32 \<Rightarrow> bucket tx" where
  "createHeightBucket ns height =
     sbind (b_CreateBucketIfNotExists [] (pfxChainKey ns)) (\<lambda>chainBucket.
     sbind (b_CreateBucketIfNotExists chainBucket heightIndexKey) (\<lambda>hghtIndex.
       b_CreateBucketIfNotExists hghtIndex (PutUint32 height)))"

definition getHeightBucketPath ::
  "nurseryStore \<Rightarrow> u32 \<Rightarrow> db \<Rightarrow> bucket option \<times> bucket option \<times> bucket option" where
  "getHeightBucketPath ns height t =
     (case b_Bucket [] (pfxChainKey ns) t of None \<Rightarrow> (None, None, None)
      | Some chainBucket \<Rightarrow>
          (case b_Bucket chainBucket heightIndexKey t of None \<Rightarrow> (None, None, None)
           | Some hghtIndex \<Rightarrow>
               (Some chainBucket, Some hghtIndex, b_Bucket hghtIndex (PutUint32 height) t)))"

definition getHeightBucket :: "nurseryStore \<Rightarrow> u32 \<Rightarrow> db \<Rightarrow> bucket option" where
  "getHeightBucket ns height t = (case getHeightBucketPath ns height t of (_, _, b) \<Rightarrow> b)"

definition createHeightChanBucket :: "nurseryStore \<Rightarrow> u32 \<Rightarrow> OutPoint \<Rightarrow> bucket tx" where
  "createHeightChanBucket ns height chanPoint =
     sbind (createHeightBucket ns height) (\<lambda>hghtBucket.
       b_CreateBucketIfNotExists hghtBucket (writeOutpoint chanPoint))"

definition getHeightChanBucket ::
  "nurseryStore \<Rightarrow> u32 \<Rightarrow> OutPoint \<Rightarrow> db \<Rightarrow> bucket option" where
  "getHeightChanBucket ns height chanPoint t =
     (case getHeightBucket ns height t of None \<Rightarrow> None
      | Some hghtBucket \<Rightarrow> b_Bucket hghtBucket (writeOutpoint chanPoint) t)"

section \<open>Pruning\<close>

definition isBucketEmpty :: "bucket \<Rightarrow> unit tx" where
  "isBucketEmpty parent = b_ForEach parent (\<lambda>_ _ _. sfail ErrBucketNotEmpty) ()"

definition removeBucketIfEmpty :: "bucket \<Rightarrow> bytes \<Rightarrow> unit tx" where
  "removeBucketIfEmpty parent bktName t =
     (case b_Bucket parent bktName t of None \<Rightarrow> Inr ((), t)
      | Some bkt \<Rightarrow> sbind (isBucketEmpty bkt) (\<lambda>_. b_DeleteBucket parent bktName) t)"

definition removeBucketIfExists :: "bucket \<Rightarrow> bytes \<Rightarrow> unit tx" where
  "removeBucketIfExists parent bktName t =
     (case b_Bucket parent bktName t of None \<Rightarrow> Inr ((), t)
      | Some bkt \<Rightarrow> b_DeleteBucket parent bktName t)"

definition pruneHeight :: "nurseryStore \<Rightarrow> u32 \<Rightarrow> bool tx" where
  "pruneHeight ns height t =
     (case getHeightBucketPath ns height t of
        (_, Some hghtIndex, Some hghtBucket) \<Rightarrow>
          sbind (b_ForEach hghtBucket (\<lambda>chanBytes v _ t.
                   if v \<noteq> None then Inr ((), t)
                   else (case b_Bucket hghtBucket chanBytes t of
                           None \<Rightarrow> Inl (GoErr ''unable to find height-channel bucket'')
                         | Some hghtChanBucket \<Rightarrow> isBucketEmpty hghtChanBucket t)) ()) (\<lambda>_.
          sbind (removeBucketIfExists hghtIndex (PutUint32 height)) (\<lambda>_.
            sret True)) t
      | _ \<Rightarrow> Inr (False, t))"

definition removeOutputFromHeight ::
  "nurseryStore \<Rightarrow> u32 \<Rightarrow> OutPoint \<Rightarrow> bytes \<Rightarrow> unit tx" where
  "removeOutputFromHeight ns height chanPoint pfxKey t =
     (case getHeightChanBucket ns height chanPoint t of None \<Rightarrow> Inr ((), t)
      | Some hghtChanBucket \<Rightarrow>
          sbind (b_Delete hghtChanBucket pfxKey) (\<lambda>_ t.
            (case getHeightBucket ns height t of
               None \<Rightarrow> Inl (GoErr ''height bucket not found'')
             | Some hghtBucket \<Rightarrow>
                 (case removeBucketIfEmpty hghtBucket (writeOutpoint chanPoint) t of
                    Inl e \<Rightarrow> if e \<noteq> ErrBucketNotEmpty then Inl e else Inr ((), t)
                  | Inr (_, t) \<Rightarrow>
                      (case pruneHeight ns height t of
                         Inl e \<Rightarrow> if e \<noteq> ErrBucketNotEmpty then Inl e else Inr ((), t)
                       | Inr (pruned, t) \<Rightarrow> Inr ((), t))))) t)"

section \<open>Enumerations\<close>

text \<open>
  The callback receives the accumulator, the variables of the caller it assigns. The cursor
  visits the keys that were in the height-channel bucket when it was positioned.
\<close>

definition forEachHeightChan ::
  "bytes \<Rightarrow> bucket \<Rightarrow> bucket \<Rightarrow> (bytes \<Rightarrow> 'a \<Rightarrow> 'a tx) \<Rightarrow> bytes \<Rightarrow> 'a \<Rightarrow> 'a tx" where
  "forEachHeightChan pre hghtBucket chanIndex callback chanBytes acc t =
     (case b_Bucket hghtBucket chanBytes t of
        None \<Rightarrow> Inl (GoErr ''unable to retrieve height-channel bucket'')
      | Some hghtChanBucket \<Rightarrow>
          (case b_Bucket chanIndex chanBytes t of
             None \<Rightarrow> Inl (GoErr ''unable to retrieve channel bucket'')
           | Some chanBucket \<Rightarrow>
               sfold (\<lambda>(k, _) acc t.
                 (case b_Get chanBucket k t of
                    None \<Rightarrow> Inl (GoErr ''unable to retrieve output'')
                  | Some outputBytes \<Rightarrow> callback outputBytes acc t))
                 (b_scan hghtChanBucket pre (\<lambda>k. HasPrefix k pre) t) acc t))"

definition forEachHeightPrefix ::
  "nurseryStore \<Rightarrow> bytes \<Rightarrow> u32 \<Rightarrow> (bytes \<Rightarrow> 'a \<Rightarrow> 'a tx) \<Rightarrow> 'a \<Rightarrow> 'a tx" where
  "forEachHeightPrefix ns pre height callback acc t =
     (case getHeightBucketPath ns height t of
        (Some chainBucket, _, Some hghtBucket) \<Rightarrow>
          (let channelsAtHeight = map fst (filter (\<lambda>(chanBytes, v). v = None)
                                             (b_pairs hghtBucket t))
           in case b_Bucket chainBucket channelIndexKey t of
                None \<Rightarrow> Inl (GoErr ''unable to retrieve channel index'')
              | Some chanIndex \<Rightarrow>
                  sfold (forEachHeightChan pre hghtBucket chanIndex callback)
                    channelsAtHeight acc t)
      | _ \<Rightarrow> Inr (acc, t))"

definition forChanOutputs ::
  "nurseryStore \<Rightarrow> OutPoint \<Rightarrow> (bytes \<Rightarrow> bytes option \<Rightarrow> 'a \<Rightarrow> 'a tx) \<Rightarrow> 'a \<Rightarrow> 'a tx" where
  "forChanOutputs ns chanPoint callback acc t =
     (case getChannelBucket ns chanPoint t of
        None \<Rightarrow> Inl ErrContractNotFound
      | Some chanBucket \<Rightarrow> b_ForEach chanBucket callback acc t)"

section \<open>Heights and finalized transactions\<close>

text \<open>\<^verbatim>\<open>byteOrder.Uint32\<close> panics on a slice shorter than four bytes.\<close>

definition go_Uint32 :: "bytes \<Rightarrow> goerr + u32" where
  "go_Uint32 bs = (if length bs < 4 then Inl (GoPanic ''index out of range'') else Inr (Uint32 bs))"

definition getLastFinalizedHeight :: "nurseryStore \<Rightarrow> u32 tx" where
  "getLastFinalizedHeight ns t =
     (case b_Bucket [] (pfxChainKey ns) t of None \<Rightarrow> Inr (0, t)
      | Some chainBucket \<Rightarrow>
          (case b_Get chainBucket lastFinalizedHeightKey t of None \<Rightarrow> Inr (0, t)
           | Some heightBytes \<Rightarrow> slift (go_Uint32 heightBytes) t))"

definition getLastGraduatedHeight :: "nurseryStore \<Rightarrow> u32 tx" where
  "getLastGraduatedHeight ns t =
     (case b_Bucket [] (pfxChainKey ns) t of None \<Rightarrow> Inr (0, t)
      | Some chainBucket \<Rightarrow>
          (case b_Get chainBucket lastGraduatedHeightKey t of None \<Rightarrow> Inr (0, t)
           | Some heightBytes \<Rightarrow> slift (go_Uint32 heightBytes) t))"

definition putLastGraduatedHeight :: "nurseryStore \<Rightarrow> u32 \<Rightarrow> unit tx" where
  "putLastGraduatedHeight ns height =
     sbind (b_CreateBucketIfNotExists [] (pfxChainKey ns)) (\<lambda>chainBucket.
       b_Put chainBucket lastGraduatedHeightKey (PutUint32 height))"

definition finalizeKinder :: "nurseryStore \<Rightarrow> u32 \<Rightarrow> MsgTx option \<Rightarrow> unit tx" where
  "finalizeKinder ns height finalTx =
     sbind (b_CreateBucketIfNotExists [] (pfxChainKey ns)) (\<lambda>chainBucket.
     sbind (b_Put chainBucket lastFinalizedHeightKey (PutUint32 height)) (\<lambda>_ t.
       (case finalTx of None \<Rightarrow> Inr ((), t)
        | Some ftx \<Rightarrow>
            (case getHeightBucket ns height t of None \<Rightarrow> Inr ((), t)
             | Some hghtBucket \<Rightarrow> b_Put hghtBucket finalizedKndrTxnKey (Serialize ftx) t))))"

definition getFinalizedTxn :: "nurseryStore \<Rightarrow> u32 \<Rightarrow> MsgTx option tx" where
  "getFinalizedTxn ns height t =
     (case getHeightBucket ns height t of None \<Rightarrow> Inr (None, t)
      | Some hghtBucket \<Rightarrow>
          (case b_Get hghtBucket finalizedKndrTxnKey t of None \<Rightarrow> Inr (None, t)
           | Some finalTxBytes \<Rightarrow>
               (case Deserialize finalTxBytes of Inl e \<Rightarrow> Inl e
                | Inr (txn, _) \<Rightarrow> Inr (Some txn, t))))"

section \<open>State transitions\<close>

definition enterCrib :: "nurseryStore \<Rightarrow> babyOutput \<Rightarrow> unit tx" where
  "enterCrib ns baby =
     sbind (createChannelBucket ns (originChanPoint baby)) (\<lambda>chanBucket.
     sbind (sread (b_Get chanBucket (prefixOutputKey cribPrefix (outpoint baby)))) (\<lambda>rawBytes.
       if rawBytes \<noteq> None then sret ()
       else
         sbind (createHeightChanBucket ns (expiry baby) (originChanPoint baby)) (\<lambda>hghtChanBucket.
         sbind (b_Put chanBucket (prefixOutputKey cribPrefix (outpoint baby)) (baby_Encode baby)) (\<lambda>_.
           b_Put hghtChanBucket (prefixOutputKey cribPrefix (outpoint baby)) []))))"

definition enterPreschool :: "nurseryStore \<Rightarrow> kidOutput \<Rightarrow> unit tx" where
  "enterPreschool ns kid =
     sbind (createChannelBucket ns (originChanPoint kid)) (\<lambda>chanBucket.
     sbind (sread (b_Get chanBucket (prefixOutputKey psclPrefix (outpoint kid)))) (\<lambda>rawBytes.
       if rawBytes \<noteq> None then sret ()
       else b_Put chanBucket (prefixOutputKey psclPrefix (outpoint kid)) (kid_Encode kid)))"

definition Incubate_tx :: "nurseryStore \<Rightarrow> kidOutput list \<Rightarrow> babyOutput list \<Rightarrow> unit tx" where
  "Incubate_tx ns kids babies =
     sbind (sforeach (enterPreschool ns) kids) (\<lambda>_. sforeach (enterCrib ns) babies)"

definition Incubate ::
  "nurseryStore \<Rightarrow> kidOutput list \<Rightarrow> babyOutput list \<Rightarrow> db \<Rightarrow> (goerr + unit) \<times> db" where
  "Incubate ns kids babies = db_Update (Incubate_tx ns kids babies)"

definition CribToKinder_tx :: "nurseryStore \<Rightarrow> babyOutput \<Rightarrow> unit tx" where
  "CribToKinder_tx ns bby =
     (let chanPoint = originChanPoint bby;
          pfxOutputKey = prefixOutputKey cribPrefix (outpoint bby);
          kndrOutputKey = go_copy pfxOutputKey kndrPrefix;
          maturityHeight = confHeight bby + blocksToMaturity bby
      in sbind (createChannelBucket ns chanPoint) (\<lambda>chanBucket.
         sbind (b_Delete chanBucket pfxOutputKey) (\<lambda>_.
         sbind (removeOutputFromHeight ns (expiry bby) chanPoint pfxOutputKey) (\<lambda>_.
         sbind (b_Put chanBucket kndrOutputKey (kid_Encode bby)) (\<lambda>_.
         sbind (createHeightChanBucket ns maturityHeight chanPoint) (\<lambda>hghtChanBucketCsv.
           b_Put hghtChanBucketCsv kndrOutputKey []))))))"

definition CribToKinder :: "nurseryStore \<Rightarrow> babyOutput \<Rightarrow> db \<Rightarrow> (goerr + unit) \<times> db" where
  "CribToKinder ns bby = db_Update (CribToKinder_tx ns bby)"

definition PreschoolToKinder_tx :: "nurseryStore \<Rightarrow> kidOutput \<Rightarrow> unit tx" where
  "PreschoolToKinder_tx ns kid =
     (let chanPoint = originChanPoint kid;
          pfxOutputKey = prefixOutputKey psclPrefix (outpoint kid);
          kndrOutputKey = go_copy pfxOutputKey kndrPrefix;
          maturityHeight = (if blocksToMaturity kid = 0 then absoluteMaturity kid
                            else confHeight kid + blocksToMaturity kid)
      in sbind (createChannelBucket ns chanPoint) (\<lambda>chanBucket.
         sbind (b_Delete chanBucket pfxOutputKey) (\<lambda>_.
         sbind (b_Put chanBucket kndrOutputKey (kid_Encode kid)) (\<lambda>_.
         sbind (getLastGraduatedHeight ns) (\<lambda>lastGradHeight.
         sbind (createHeightChanBucket ns
                  (if maturityHeight \<le> lastGradHeight then lastGradHeight + 1 else maturityHeight)
                  chanPoint) (\<lambda>hghtChanBucket.
           b_Put hghtChanBucket kndrOutputKey []))))))"

definition PreschoolToKinder :: "nurseryStore \<Rightarrow> kidOutput \<Rightarrow> db \<Rightarrow> (goerr + unit) \<times> db" where
  "PreschoolToKinder ns kid = db_Update (PreschoolToKinder_tx ns kid)"

definition graduateOutput :: "nurseryStore \<Rightarrow> u32 \<Rightarrow> bytes \<Rightarrow> unit tx" where
  "graduateOutput ns height v =
     sbind (slift (decode_bytes kid_Decode v)) (\<lambda>kid.
     let chanPoint = originChanPoint kid;
         pfxOutputKey = prefixOutputKey kndrPrefix (outpoint kid)
     in sbind (removeOutputFromHeight ns height chanPoint pfxOutputKey) (\<lambda>_.
        sbind (sread (getChannelBucket ns chanPoint)) (\<lambda>r.
          (case r of None \<Rightarrow> sfail ErrContractNotFound
           | Some chanBucket \<Rightarrow>
               sbind (b_Delete chanBucket pfxOutputKey) (\<lambda>_.
                 b_Put chanBucket (go_copy pfxOutputKey gradPrefix) (kid_Encode kid))))))"

definition GraduateKinder_tx :: "nurseryStore \<Rightarrow> u32 \<Rightarrow> unit tx" where
  "GraduateKinder_tx ns height =
     sbind (sread (getHeightBucket ns height)) (\<lambda>r.
       (case r of None \<Rightarrow> sret ()
        | Some hghtBucket \<Rightarrow>
            sbind (b_Delete hghtBucket finalizedKndrTxnKey) (\<lambda>_.
              forEachHeightPrefix ns kndrPrefix height (\<lambda>v _. graduateOutput ns height v) ())))"

definition GraduateKinder :: "nurseryStore \<Rightarrow> u32 \<Rightarrow> db \<Rightarrow> (goerr + unit) \<times> db" where
  "GraduateKinder ns height = db_Update (GraduateKinder_tx ns height)"

definition FinalizeKinder ::
  "nurseryStore \<Rightarrow> u32 \<Rightarrow> MsgTx option \<Rightarrow> db \<Rightarrow> (goerr + unit) \<times> db" where
  "FinalizeKinder ns height finalTx = db_Update (finalizeKinder ns height finalTx)"

definition GraduateHeight :: "nurseryStore \<Rightarrow> u32 \<Rightarrow> db \<Rightarrow> (goerr + unit) \<times> db" where
  "GraduateHeight ns height = db_Update (putLastGraduatedHeight ns height)"

section \<open>Queries\<close>

definition collect :: "(bytes, 'a) op \<Rightarrow> bytes \<Rightarrow> 'a list \<Rightarrow> 'a list tx" where
  "collect dec buf acc = sbind (slift (decode_bytes dec buf)) (\<lambda>x. sret (acc @ [x]))"

definition FetchClass ::
  "nurseryStore \<Rightarrow> u32 \<Rightarrow> db \<Rightarrow> goerr + MsgTx option \<times> kidOutput list \<times> babyOutput list" where
  "FetchClass ns height = db_View (
     sbind (getFinalizedTxn ns height) (\<lambda>finalTx.
     sbind (forEachHeightPrefix ns cribPrefix height (collect baby_Decode) []) (\<lambda>babies.
     sbind (forEachHeightPrefix ns kndrPrefix height (collect kid_Decode) []) (\<lambda>kids.
       sret (finalTx, kids, babies)))))"

definition FetchPreschools_tx :: "nurseryStore \<Rightarrow> kidOutput list tx" where
  "FetchPreschools_tx ns t =
     (case b_Bucket [] (pfxChainKey ns) t of None \<Rightarrow> Inr ([], t)
      | Some chainBucket \<Rightarrow>
          (case b_Bucket chainBucket channelIndexKey t of None \<Rightarrow> Inr ([], t)
           | Some chanIndex \<Rightarrow>
               sbind (b_ForEach chanIndex (\<lambda>chanBytes _ acc. sret (acc @ [chanBytes])) [])
                 (\<lambda>activeChannels.
                   sfold (\<lambda>chanBytes acc t.
                     (case b_Bucket chanIndex chanBytes t of None \<Rightarrow> Inr (acc, t)
                      | Some chanBucket \<Rightarrow>
                          sfold (\<lambda>(k, v). collect kid_Decode (case v of None \<Rightarrow> [] | Some b \<Rightarrow> b))
                            (b_scan chanBucket psclPrefix (\<lambda>k. HasPrefix k psclPrefix) t) acc t))
                     activeChannels []) t))"

definition FetchPreschools :: "nurseryStore \<Rightarrow> db \<Rightarrow> goerr + kidOutput list" where
  "FetchPreschools ns = db_View (FetchPreschools_tx ns)"

definition HeightsBelowOrEqual :: "nurseryStore \<Rightarrow> u32 \<Rightarrow> db \<Rightarrow> goerr + u32 list" where
  "HeightsBelowOrEqual ns height = db_View (\<lambda>t.
     (case b_Bucket [] (pfxChainKey ns) t of None \<Rightarrow> Inr ([], t)
      | Some chainBucket \<Rightarrow>
          (case b_Bucket chainBucket heightIndexKey t of None \<Rightarrow> Inr ([], t)
           | Some hghtIndex \<Rightarrow>
               Inr (map (\<lambda>(k, _). Uint32 k)
                      (b_scan hghtIndex (replicate 4 0)
                         (\<lambda>k. k \<le> PutUint32 height \<and> length k = 4) t), t))))"

definition ForChanOutputs ::
  "nurseryStore \<Rightarrow> OutPoint \<Rightarrow> (bytes \<Rightarrow> bytes option \<Rightarrow> 'a \<Rightarrow> 'a tx) \<Rightarrow> 'a \<Rightarrow> db \<Rightarrow> goerr + 'a" where
  "ForChanOutputs ns chanPoint callback acc = db_View (forChanOutputs ns chanPoint callback acc)"

definition ListChannels :: "nurseryStore \<Rightarrow> db \<Rightarrow> goerr + OutPoint list" where
  "ListChannels ns = db_View (\<lambda>t.
     (case b_Bucket [] (pfxChainKey ns) t of None \<Rightarrow> Inr ([], t)
      | Some chainBucket \<Rightarrow>
          (case b_Bucket chainBucket channelIndexKey t of None \<Rightarrow> Inr ([], t)
           | Some chanIndex \<Rightarrow>
               b_ForEach chanIndex (\<lambda>chanBytes _. collect readOutpoint chanBytes) [] t)))"

definition IsMatureChannel :: "nurseryStore \<Rightarrow> OutPoint \<Rightarrow> db \<Rightarrow> goerr + bool" where
  "IsMatureChannel ns chanPoint t =
     (case db_View (forChanOutputs ns chanPoint
                      (\<lambda>pfxKey _ _. if HasPrefix pfxKey gradPrefix then sret ()
                                    else sfail ErrImmatureChannel) ()) t of
        Inl e \<Rightarrow> if e \<noteq> ErrImmatureChannel then Inl e else Inr False
      | Inr _ \<Rightarrow> Inr True)"

definition RemoveChannel_tx :: "nurseryStore \<Rightarrow> OutPoint \<Rightarrow> unit tx" where
  "RemoveChannel_tx ns chanPoint t =
     (case b_Bucket [] (pfxChainKey ns) t of None \<Rightarrow> Inr ((), t)
      | Some chainBucket \<Rightarrow>
          (case b_Bucket chainBucket channelIndexKey t of None \<Rightarrow> Inr ((), t)
           | Some chanIndex \<Rightarrow>
               sbind (forChanOutputs ns chanPoint (\<lambda>k v _ t.
                        if \<not> HasPrefix k gradPrefix then Inl ErrImmatureChannel
                        else (case decode_bytes kid_Decode (case v of None \<Rightarrow> [] | Some b \<Rightarrow> b) of
                                Inl e \<Rightarrow> Inl e
                              | Inr kid \<Rightarrow>
                                  (case getHeightBucket ns (confHeight kid + blocksToMaturity kid) t of
                                     None \<Rightarrow> Inr ((), t)
                                   | Some hghtBucket \<Rightarrow>
                                       removeBucketIfExists hghtBucket (writeOutpoint chanPoint) t))) ())
                 (\<lambda>_. removeBucketIfExists chanIndex (writeOutpoint chanPoint)) t))"

definition RemoveChannel :: "nurseryStore \<Rightarrow> OutPoint \<Rightarrow> db \<Rightarrow> (goerr + unit) \<times> db" where
  "RemoveChannel ns chanPoint = db_Update (RemoveChannel_tx ns chanPoint)"

definition LastFinalizedHeight :: "nurseryStore \<Rightarrow> db \<Rightarrow> goerr + u32" where
  "LastFinalizedHeight ns = db_View (getLastFinalizedHeight ns)"

definition LastGraduatedHeight :: "nurseryStore \<Rightarrow> db \<Rightarrow> goerr + u32" where
  "LastGraduatedHeight ns = db_View (getLastGraduatedHeight ns)"

end
