(* ===== verification/NurseryView.thy ===== *)
theory NurseryView
  imports NurseryStore
begin

text \<open>
  A typed reading of the nursery store's part of the database. \<open>loc\<close> are the places where
  the store keeps a value and \<open>dir\<close> the buckets it makes, as in the storage hierarchy at
  the head of nursery_store.go; \<open>vw ns t C D R\<close> says that database \<open>t\<close> holds the values
  \<open>C\<close> in the buckets \<open>D\<close> of store \<open>ns\<close>, nothing else below its root bucket, and \<open>R\<close>
  outside of it. The lemmas give the effect of each database operation and of each helper
  of the store on \<open>C\<close> and \<open>D\<close>, and that \<open>R\<close> is left alone.
\<close>

section \<open>Places\<close>

datatype stage = SCrib | SPscl | SKndr | SGrad

fun pfx :: "stage \<Rightarrow> bytes" where
  "pfx SCrib = cribPrefix" | "pfx SPscl = psclPrefix"
| "pfx SKndr = kndrPrefix" | "pfx SGrad = gradPrefix"

datatype loc = LFin | LGrad | LChan OutPoint stage OutPoint
  | LMark u32 OutPoint stage OutPoint | LTxn u32

datatype dir = DRoot | DChanIx | DHghtIx | DChan OutPoint | DHght u32 | DHghtChan u32 OutPoint

abbreviation okey :: "stage \<Rightarrow> OutPoint \<Rightarrow> bytes" where
  "okey s p \<equiv> prefixOutputKey (pfx s) p"

fun dpath :: "dir \<Rightarrow> bytes list" where
  "dpath DRoot = []"
| "dpath DChanIx = [channelIndexKey]"
| "dpath DHghtIx = [heightIndexKey]"
| "dpath (DChan c) = [channelIndexKey, writeOutpoint c]"
| "dpath (DHght h) = [heightIndexKey, PutUint32 h]"
| "dpath (DHghtChan h c) = [heightIndexKey, PutUint32 h, writeOutpoint c]"

fun dir_of :: "loc \<Rightarrow> dir" where
  "dir_of LFin = DRoot" | "dir_of LGrad = DRoot" | "dir_of (LChan c s p) = DChan c"
| "dir_of (LMark h c s p) = DHghtChan h c" | "dir_of (LTxn h) = DHght h"

fun lkey :: "loc \<Rightarrow> bytes" where
  "lkey LFin = lastFinalizedHeightKey" | "lkey LGrad = lastGraduatedHeightKey"
| "lkey (LChan c s p) = okey s p" | "lkey (LMark h c s p) = okey s p"
| "lkey (LTxn h) = finalizedKndrTxnKey"

fun up :: "dir \<Rightarrow> dir" where
  "up DRoot = DRoot" | "up DChanIx = DRoot" | "up DHghtIx = DRoot" | "up (DChan c) = DChanIx"
| "up (DHght h) = DHghtIx" | "up (DHghtChan h c) = DHght h"

fun dkey :: "dir \<Rightarrow> bytes" where
  "dkey DRoot = []" | "dkey DChanIx = channelIndexKey" | "dkey DHghtIx = heightIndexKey"
| "dkey (DChan c) = writeOutpoint c" | "dkey (DHght h) = PutUint32 h"
| "dkey (DHghtChan h c) = writeOutpoint c"

definition lpath :: "loc \<Rightarrow> bytes list" where
  "lpath l = dpath (dir_of l) @ [lkey l]"

subsection \<open>Keys are distinct\<close>

lemma length_pfx [simp]: "length (pfx s) = 4"
  by (cases s) (simp_all add: cribPrefix_def psclPrefix_def kndrPrefix_def gradPrefix_def)

lemma length_fixed_keys [simp]:
  "length channelIndexKey = 13" "length heightIndexKey = 12" "length finalizedKndrTxnKey = 18"
  "length lastFinalizedHeightKey = 21" "length lastGraduatedHeightKey = 21"
  "length cribPrefix = 4" "length psclPrefix = 4" "length kndrPrefix = 4" "length gradPrefix = 4"
  by (simp_all add: channelIndexKey_def heightIndexKey_def finalizedKndrTxnKey_def
      lastFinalizedHeightKey_def lastGraduatedHeightKey_def
      cribPrefix_def psclPrefix_def kndrPrefix_def gradPrefix_def)

lemma pfx_inject [simp]: "pfx s = pfx s' \<longleftrightarrow> s = s'"
  by (cases s; cases s')
    (simp_all add: cribPrefix_def psclPrefix_def kndrPrefix_def gradPrefix_def ascii_def)

lemma last_keys_neq [simp]:
  "lastFinalizedHeightKey \<noteq> lastGraduatedHeightKey" "lastGraduatedHeightKey \<noteq> lastFinalizedHeightKey"
  by (simp_all add: lastFinalizedHeightKey_def lastGraduatedHeightKey_def ascii_def)

lemma length_okey [simp]: "length (prefixOutputKey x p) = length x + 37"
  by (simp add: prefixOutputKey_def)

lemma neq_by_length: "length x \<noteq> length y \<Longrightarrow> x \<noteq> y"
  by auto

lemma fixed_keys_neq [simp]:
  "channelIndexKey \<noteq> heightIndexKey" "heightIndexKey \<noteq> channelIndexKey"
  "lastFinalizedHeightKey \<noteq> channelIndexKey" "channelIndexKey \<noteq> lastFinalizedHeightKey"
  "lastFinalizedHeightKey \<noteq> heightIndexKey" "heightIndexKey \<noteq> lastFinalizedHeightKey"
  "lastGraduatedHeightKey \<noteq> channelIndexKey" "channelIndexKey \<noteq> lastGraduatedHeightKey"
  "lastGraduatedHeightKey \<noteq> heightIndexKey" "heightIndexKey \<noteq> lastGraduatedHeightKey"
  "finalizedKndrTxnKey \<noteq> writeOutpoint c" "writeOutpoint c \<noteq> finalizedKndrTxnKey"
  by (rule neq_by_length; simp)+

lemma okey_inject [simp]: "okey s p = okey s' p' \<longleftrightarrow> s = s' \<and> p = p'"
  by (simp add: prefixOutputKey_def)

lemma prefixOutputKey_inject [simp]: "prefixOutputKey x p = prefixOutputKey x p' \<longleftrightarrow> p = p'"
  by (simp add: prefixOutputKey_def)

lemma okey_copy [simp]: "go_copy (okey s p) (pfx s') = okey s' p"
  by (simp add: prefixOutputKey_def go_copy_prefix)

lemma okey_HasPrefix [simp]: "HasPrefix (okey s p) (pfx s') \<longleftrightarrow> s = s'"
  by (simp add: prefixOutputKey_def HasPrefix_same_length)

lemma lpath_inject [simp]: "lpath l = lpath l' \<longleftrightarrow> l = l'"
  by (cases l; cases l') (simp_all add: lpath_def)

lemma dpath_inject [simp]: "dpath d = dpath d' \<longleftrightarrow> d = d'"
  by (cases d; cases d') simp_all

lemma lpath_neq_dpath [simp]: "lpath l \<noteq> dpath d"
  by (cases l; cases d) (simp_all add: lpath_def)

lemma dpath_up: "d \<noteq> DRoot \<Longrightarrow> dpath d = dpath (up d) @ [dkey d]"
  by (cases d) simp_all

lemma key_sizes [simp]: "lkey l \<noteq> []" "length (lkey l) \<le> MaxKeySize" "d \<noteq> DRoot \<Longrightarrow> dkey d \<noteq> []"
proof -
  have "length (lkey l) \<noteq> 0" by (cases l) simp_all
  then show "lkey l \<noteq> []" by simp
  show "length (lkey l) \<le> MaxKeySize" by (cases l) (simp_all add: MaxKeySize_def)
  have "d \<noteq> DRoot \<Longrightarrow> length (dkey d) \<noteq> 0" by (cases d) simp_all
  then show "d \<noteq> DRoot \<Longrightarrow> dkey d \<noteq> []" by auto
qed

section \<open>The typed view\<close>

abbreviation K :: "nurseryStore \<Rightarrow> bytes" where "K \<equiv> pfxChainKey"

definition cells :: "nurseryStore \<Rightarrow> db \<Rightarrow> loc \<Rightarrow> bytes option" where
  "cells ns t l = val_at t (K ns # lpath l)"

definition dirs :: "nurseryStore \<Rightarrow> db \<Rightarrow> dir set" where
  "dirs ns t = {d. is_bkt t (K ns # dpath d)}"

definition rest :: "nurseryStore \<Rightarrow> db \<Rightarrow> bytes list \<Rightarrow> bytes option \<times> bool" where
  "rest ns t q = (if prefix [K ns] q then (None, False) else (val_at t q, is_bkt t q))"

definition typed :: "nurseryStore \<Rightarrow> db \<Rightarrow> bool" where
  "typed ns t \<longleftrightarrow> bwf t \<and> is_bkt t [] \<and> K ns \<noteq> []
     \<and> (\<forall>q. val_at t (K ns # q) \<noteq> None \<longrightarrow> q \<in> range lpath)
     \<and> (\<forall>q. is_bkt t (K ns # q) \<longrightarrow> q \<in> range dpath)"

definition vw :: "nurseryStore \<Rightarrow> db \<Rightarrow> (loc \<Rightarrow> bytes option) \<Rightarrow> dir set
    \<Rightarrow> (bytes list \<Rightarrow> bytes option \<times> bool) \<Rightarrow> bool" where
  "vw ns t C D R \<longleftrightarrow> typed ns t \<and> cells ns t = C \<and> dirs ns t = D \<and> rest ns t = R"

lemma vw_bwf: "vw ns t C D R \<Longrightarrow> bwf t"
  by (simp add: vw_def typed_def)

lemma vw_val: "vw ns t C D R \<Longrightarrow> val_at t (K ns # lpath l) = C l"
  by (auto simp: vw_def cells_def)

lemma vw_bkt: "vw ns t C D R \<Longrightarrow> is_bkt t (K ns # dpath d) \<longleftrightarrow> d \<in> D"
  by (auto simp: vw_def dirs_def)

lemma vw_not_val: "vw ns t C D R \<Longrightarrow> val_at t (K ns # dpath d) = None"
  using lpath_neq_dpath unfolding vw_def typed_def by (metis imageE)

lemma vw_not_bkt: "vw ns t C D R \<Longrightarrow> \<not> is_bkt t (K ns # lpath l)"
  using lpath_neq_dpath unfolding vw_def typed_def by (metis imageE)

lemma vw_dir_of: "vw ns t C D R \<Longrightarrow> C l \<noteq> None \<Longrightarrow> dir_of l \<in> D"
  using is_bkt_of_val [of t "K ns # dpath (dir_of l)" "lkey l" "[]"]
  by (auto simp: vw_val [symmetric] vw_bkt [symmetric] lpath_def)

lemma vw_up: "vw ns t C D R \<Longrightarrow> d \<in> D \<Longrightarrow> up d \<in> D"
  using is_bkt_snoc [of t "K ns # dpath (up d)" "dkey d" "[]"] dpath_up [of d]
  by (cases "d = DRoot") (auto simp: vw_bkt [symmetric])

lemma vw_root: "vw ns t C D R \<Longrightarrow> d \<in> D \<Longrightarrow> DRoot \<in> D"
  using is_bkt_prefix [of t "[K ns]" "dpath d"] vw_bkt [of ns t C D R DRoot]
  by (auto simp: vw_bkt [symmetric])

text \<open>Re-establishing the view from the observations of a changed database.\<close>

lemma vwI:
  assumes "vw ns t C D R" "bwf t'"
    and "\<And>q. \<not> prefix [K ns] q \<Longrightarrow> val_at t' q = val_at t q \<and> is_bkt t' q = is_bkt t q"
    and "\<And>q. val_at t' (K ns # q) \<noteq> None \<Longrightarrow> q \<in> range lpath"
    and "\<And>q. is_bkt t' (K ns # q) \<Longrightarrow> q \<in> range dpath"
    and "\<And>l. val_at t' (K ns # lpath l) = C' l"
    and "\<And>d. is_bkt t' (K ns # dpath d) \<longleftrightarrow> d \<in> D'"
  shows "vw ns t' C' D' R"
proof -
  have "is_bkt t' []" using assms(1,3) by (simp add: vw_def typed_def)
  moreover have "rest ns t' = rest ns t"
    by (simp add: rest_def fun_eq_iff assms(3))
  ultimately show ?thesis
    using assms unfolding vw_def typed_def cells_def dirs_def by (auto simp: fun_eq_iff)
qed

lemma vw_known:
  assumes "vw ns t C D R"
  shows "val_at t (K ns # q) \<noteq> None \<Longrightarrow> q \<in> range lpath"
    and "is_bkt t (K ns # q) \<Longrightarrow> q \<in> range dpath"
  using assms by (auto simp: vw_def typed_def)

subsection \<open>Database operations on the view\<close>

lemma vw_Put:
  assumes v: "vw ns t C D R" and "dir_of l \<in> D" "length x \<le> MaxValueSize"
  shows "succeeds (b_Put (K ns # dpath (dir_of l)) (lkey l) x) t (\<lambda>_ t'. vw ns t' (C(l \<mapsto> x)) D R)"
proof (rule succeeds_mono [OF b_Put_succeeds])
  show "\<not> is_bkt t ((K ns # dpath (dir_of l)) @ [lkey l])"
    using vw_not_bkt [OF v, of l] by (simp add: lpath_def)
next
  fix u t'
  assume "bwf t' \<and> is_bkt t' = is_bkt t
    \<and> val_at t' = (val_at t)((K ns # dpath (dir_of l)) @ [lkey l] \<mapsto> x)"
  then have obs: "bwf t'" "is_bkt t' = is_bkt t" "val_at t' = (val_at t)(K ns # lpath l \<mapsto> x)"
    by (simp_all add: lpath_def)
  show "vw ns t' (C(l \<mapsto> x)) D R"
    by (rule vwI [OF v]) (use obs vw_known [OF v] in
      \<open>auto simp: vw_val [OF v] vw_bkt [OF v] split: if_splits\<close>)
qed (use assms in \<open>auto simp: vw_bwf vw_bkt\<close>)

lemma vw_Delete:
  assumes v: "vw ns t C D R" and "dir_of l \<in> D"
  shows "succeeds (b_Delete (K ns # dpath (dir_of l)) (lkey l)) t
           (\<lambda>_ t'. vw ns t' (C(l := None)) D R)"
proof (rule succeeds_mono [OF b_Delete_succeeds])
  show "\<not> is_bkt t ((K ns # dpath (dir_of l)) @ [lkey l])"
    using vw_not_bkt [OF v, of l] by (simp add: lpath_def)
next
  fix u t'
  assume "bwf t' \<and> is_bkt t' = is_bkt t
    \<and> val_at t' = (val_at t)((K ns # dpath (dir_of l)) @ [lkey l] := None)"
  then have obs: "bwf t'" "is_bkt t' = is_bkt t" "val_at t' = (val_at t)(K ns # lpath l := None)"
    by (simp_all add: lpath_def)
  show "vw ns t' (C(l := None)) D R"
    by (rule vwI [OF v])
      (use obs vw_known [OF v] in \<open>auto simp: vw_val [OF v] vw_bkt [OF v] split: if_splits\<close>)
qed (use assms in \<open>auto simp: vw_bwf vw_bkt\<close>)

lemma vw_Create:
  assumes v: "vw ns t C D R" and "d \<noteq> DRoot" "up d \<in> D"
  shows "succeeds (b_CreateBucketIfNotExists (K ns # dpath (up d)) (dkey d)) t
           (\<lambda>b t'. b = K ns # dpath d \<and> vw ns t' C (insert d D) R)"
proof (rule succeeds_mono [OF b_CreateBucketIfNotExists_succeeds])
  have p: "(K ns # dpath (up d)) @ [dkey d] = K ns # dpath d"
    using dpath_up [OF assms(2)] by simp
  show "val_at t ((K ns # dpath (up d)) @ [dkey d]) = None"
    unfolding p by (rule vw_not_val [OF v])
  fix b t'
  assume "b = (K ns # dpath (up d)) @ [dkey d] \<and> bwf t'
    \<and> is_bkt t' = (is_bkt t)((K ns # dpath (up d)) @ [dkey d] := True) \<and> val_at t' = val_at t"
  then have obs: "b = K ns # dpath d" "bwf t'" "val_at t' = val_at t"
      "is_bkt t' = (is_bkt t)(K ns # dpath d := True)"
    unfolding p by simp_all
  have "vw ns t' C (insert d D) R"
    by (rule vwI [OF v])
      (use obs vw_known [OF v] in \<open>auto simp: vw_val [OF v] vw_bkt [OF v] split: if_splits\<close>)
  with obs show "b = K ns # dpath d \<and> vw ns t' C (insert d D) R" by simp
qed (use assms in \<open>auto simp: vw_bwf vw_bkt\<close>)

lemma vw_Create_root:
  assumes v: "vw ns t C D R"
  shows "succeeds (b_CreateBucketIfNotExists [] (K ns)) t
           (\<lambda>b t'. b = [K ns] \<and> vw ns t' C (insert DRoot D) R)"
proof (rule succeeds_mono [OF b_CreateBucketIfNotExists_succeeds])
  show "val_at t ([] @ [K ns]) = None"
    using vw_not_val [OF v, of DRoot] by simp
  fix b t'
  assume "b = [] @ [K ns] \<and> bwf t' \<and> is_bkt t' = (is_bkt t)([] @ [K ns] := True)
    \<and> val_at t' = val_at t"
  then have obs: "b = [K ns]" "bwf t'" "val_at t' = val_at t"
      "is_bkt t' = (is_bkt t)(K ns # dpath DRoot := True)" by simp_all
  have "vw ns t' C (insert DRoot D) R"
    by (rule vwI [OF v])
      (use obs(2-4) vw_known [OF v] in
        \<open>auto simp: vw_val [OF v] vw_bkt [OF v] simp del: dpath.simps split: if_splits\<close>)
  with obs show "b = [K ns] \<and> vw ns t' C (insert DRoot D) R" by simp
qed (use assms in \<open>auto simp: vw_def typed_def\<close>)

lemma vw_DeleteBucket:
  assumes v: "vw ns t C D R" and "d \<noteq> DRoot" "d \<in> D"
  shows "succeeds (b_DeleteBucket (K ns # dpath (up d)) (dkey d)) t
           (\<lambda>_ t'. vw ns t' (\<lambda>l. if prefix (dpath d) (lpath l) then None else C l)
                     {d' \<in> D. \<not> prefix (dpath d) (dpath d')} R)"
proof (rule succeeds_mono [OF b_DeleteBucket_succeeds])
  have p: "(K ns # dpath (up d)) @ [dkey d] = K ns # dpath d"
    using dpath_up [OF assms(2)] by simp
  show "is_bkt t ((K ns # dpath (up d)) @ [dkey d])"
    unfolding p using v assms(3) by (simp add: vw_bkt)
  fix u t'
  assume "bwf t'
    \<and> is_bkt t' = (\<lambda>q. if prefix ((K ns # dpath (up d)) @ [dkey d]) q then False else is_bkt t q)
    \<and> val_at t' = (\<lambda>q. if prefix ((K ns # dpath (up d)) @ [dkey d]) q then None else val_at t q)"
  then have obs: "bwf t'"
      "is_bkt t' = (\<lambda>q. if prefix (K ns # dpath d) q then False else is_bkt t q)"
      "val_at t' = (\<lambda>q. if prefix (K ns # dpath d) q then None else val_at t q)"
    unfolding p by simp_all
  show "vw ns t' (\<lambda>l. if prefix (dpath d) (lpath l) then None else C l)
          {d' \<in> D. \<not> prefix (dpath d) (dpath d')} R"
    by (rule vwI [OF v])
      (use obs vw_known [OF v] in
        \<open>auto simp: vw_val [OF v] vw_bkt [OF v] prefix_def split: if_splits\<close>)
qed (use assms in \<open>auto simp: vw_bwf\<close>)

lemma vw_Bucket:
  "vw ns t C D R \<Longrightarrow> d \<noteq> DRoot \<Longrightarrow>
     b_Bucket (K ns # dpath (up d)) (dkey d) t = (if d \<in> D then Some (K ns # dpath d) else None)"
  using dpath_up [of d] by (simp add: b_Bucket_def vw_bkt [symmetric])

lemma vw_Get: "vw ns t C D R \<Longrightarrow> b_Get (K ns # dpath (dir_of l)) (lkey l) t = C l"
  by (simp add: b_Get_def vw_val [symmetric] lpath_def)

subsection \<open>What an enumeration sees\<close>

lemma vw_pairs_val:
  assumes v: "vw ns t C D R"
  shows "(k, Some x) \<in> set (b_pairs (K ns # dpath d) t)
     \<longleftrightarrow> (\<exists>l. dir_of l = d \<and> lkey l = k \<and> C l = Some x)"
proof -
  have "(k, Some x) \<in> set (b_pairs (K ns # dpath d) t) \<longleftrightarrow> val_at t (K ns # dpath d @ [k]) = Some x"
    using b_pairs_iff [OF vw_bwf [OF v], of k "Some x"] by simp
  also have "\<dots> \<longleftrightarrow> (\<exists>l. lpath l = dpath d @ [k] \<and> C l = Some x)"
  proof
    assume a: "val_at t (K ns # dpath d @ [k]) = Some x"
    then obtain l where "lpath l = dpath d @ [k]"
      using vw_known(1) [OF v, of "dpath d @ [k]"] by auto
    with a vw_val [OF v, of l] show "\<exists>l. lpath l = dpath d @ [k] \<and> C l = Some x" by auto
  next
    assume "\<exists>l. lpath l = dpath d @ [k] \<and> C l = Some x"
    then show "val_at t (K ns # dpath d @ [k]) = Some x"
      using vw_val [OF v] by metis
  qed
  also have "\<dots> \<longleftrightarrow> (\<exists>l. dir_of l = d \<and> lkey l = k \<and> C l = Some x)"
    by (auto simp: lpath_def)
  finally show ?thesis .
qed

lemma vw_pairs_bkt:
  assumes v: "vw ns t C D R"
  shows "(k, None) \<in> set (b_pairs (K ns # dpath d) t)
     \<longleftrightarrow> (\<exists>d' \<in> D. d' \<noteq> DRoot \<and> up d' = d \<and> dkey d' = k)"
proof -
  have "(k, None) \<in> set (b_pairs (K ns # dpath d) t) \<longleftrightarrow> is_bkt t (K ns # dpath d @ [k])"
    using b_pairs_iff [OF vw_bwf [OF v], of k None] by simp
  also have "\<dots> \<longleftrightarrow> (\<exists>d' \<in> D. dpath d' = dpath d @ [k])"
    using vw_known(2) [OF v, of "dpath d @ [k]"] vw_bkt [OF v] by force
  also have "\<dots> \<longleftrightarrow> (\<exists>d' \<in> D. d' \<noteq> DRoot \<and> up d' = d \<and> dkey d' = k)"
    using dpath_up by (metis append_is_Nil_conv append1_eq_conv dpath.simps(1) dpath_inject not_Cons_self2)
  finally show ?thesis .
qed

lemma isBucketEmpty_run:
  "isBucketEmpty b t = (if b_pairs b t = [] then Inr ((), t) else Inl ErrBucketNotEmpty)"
  by (cases "b_pairs b t") (auto simp: isBucketEmpty_def b_ForEach_def sfail_def)

lemma pairs_DHghtChan:
  assumes v: "vw ns t C D R"
  shows "b_pairs (K ns # dpath (DHghtChan h c)) t = [] \<longleftrightarrow> (\<forall>s p. C (LMark h c s p) = None)"
proof -
  have bkt: "(k, None) \<notin> set (b_pairs (K ns # dpath (DHghtChan h c)) t)" for k
    unfolding vw_pairs_bkt [OF v] by (auto elim: up.elims)
  have val: "(k, Some x) \<in> set (b_pairs (K ns # dpath (DHghtChan h c)) t) \<longleftrightarrow>
      (\<exists>s p. C (LMark h c s p) = Some x \<and> k = okey s p)" for k x
    unfolding vw_pairs_val [OF v] by (auto elim: dir_of.elims intro: exI [of _ "LMark h c s p" for s p])
  show ?thesis
  proof
    assume "b_pairs (K ns # dpath (DHghtChan h c)) t = []"
    with val show "\<forall>s p. C (LMark h c s p) = None" by (metis not_None_eq empty_iff list.set(1))
  next
    assume "\<forall>s p. C (LMark h c s p) = None"
    then have "(k, w) \<notin> set (b_pairs (K ns # dpath (DHghtChan h c)) t)" for k w
      using bkt val by (cases w) auto
    then show "b_pairs (K ns # dpath (DHghtChan h c)) t = []"
      by (metis list.set_intros(1) neq_Nil_conv surj_pair)
  qed
qed

section \<open>Buckets of the store\<close>

lemma vw_lookups:
  assumes v: "vw ns t C D R"
  shows "b_Bucket [] (K ns) t = (if DRoot \<in> D then Some [K ns] else None)"
    and "b_Bucket [K ns] channelIndexKey t
           = (if DChanIx \<in> D then Some [K ns, channelIndexKey] else None)"
    and "b_Bucket [K ns] heightIndexKey t
           = (if DHghtIx \<in> D then Some [K ns, heightIndexKey] else None)"
    and "b_Bucket [K ns, channelIndexKey] (writeOutpoint c) t
           = (if DChan c \<in> D then Some [K ns, channelIndexKey, writeOutpoint c] else None)"
    and "b_Bucket [K ns, heightIndexKey] (PutUint32 h) t
           = (if DHght h \<in> D then Some [K ns, heightIndexKey, PutUint32 h] else None)"
    and "b_Bucket [K ns, heightIndexKey, PutUint32 h] (writeOutpoint c) t
           = (if DHghtChan h c \<in> D
              then Some [K ns, heightIndexKey, PutUint32 h, writeOutpoint c] else None)"
  using vw_bkt [OF v, of DRoot] vw_Bucket [OF v, of DChanIx] vw_Bucket [OF v, of DHghtIx]
    vw_Bucket [OF v, of "DChan c"] vw_Bucket [OF v, of "DHght h"] vw_Bucket [OF v, of "DHghtChan h c"]
  by (simp_all add: b_Bucket_def)

lemma vw_path_in:
  assumes v: "vw ns t C D R"
  shows "DChan c \<in> D \<Longrightarrow> DChanIx \<in> D \<and> DRoot \<in> D" "DChanIx \<in> D \<Longrightarrow> DRoot \<in> D"
    "DHghtIx \<in> D \<Longrightarrow> DRoot \<in> D" "DHght h \<in> D \<Longrightarrow> DHghtIx \<in> D \<and> DRoot \<in> D"
    "DHghtChan h c \<in> D \<Longrightarrow> DHght h \<in> D \<and> DHghtIx \<in> D \<and> DRoot \<in> D"
  using vw_up [OF v, of "DChan c"] vw_up [OF v, of "DHght h"] vw_up [OF v, of "DHghtChan h c"]
    vw_root [OF v] by auto

lemma vw_getChannelBucket:
  assumes "vw ns t C D R"
  shows "getChannelBucket ns c t
       = (if DChan c \<in> D then Some (K ns # dpath (DChan c)) else None)"
  using vw_lookups [OF assms] vw_path_in [OF assms] by (auto simp: getChannelBucket_def)

lemma vw_getHeightBucketPath:
  assumes "vw ns t C D R"
  shows "getHeightBucketPath ns h t
       = (if DHghtIx \<in> D
          then (Some [K ns], Some [K ns, heightIndexKey],
                if DHght h \<in> D then Some (K ns # dpath (DHght h)) else None)
          else (None, None, None))"
  using vw_lookups [OF assms] vw_path_in [OF assms] by (auto simp: getHeightBucketPath_def)

lemma vw_getHeightBucket:
  assumes "vw ns t C D R"
  shows "getHeightBucket ns h t = (if DHght h \<in> D then Some (K ns # dpath (DHght h)) else None)"
  using vw_getHeightBucketPath [OF assms, of h] vw_path_in [OF assms]
  by (auto simp: getHeightBucket_def)

lemma vw_getHeightChanBucket:
  assumes "vw ns t C D R"
  shows "getHeightChanBucket ns h c t
       = (if DHghtChan h c \<in> D then Some (K ns # dpath (DHghtChan h c)) else None)"
  using vw_getHeightBucket [OF assms, of h] vw_lookups(6) [OF assms] vw_path_in [OF assms]
  by (auto simp: getHeightChanBucket_def)

lemma vw_createChannelBucket:
  assumes v: "vw ns t C D R"
  shows "succeeds (createChannelBucket ns c) t
           (\<lambda>b t'. b = K ns # dpath (DChan c) \<and> vw ns t' C (D \<union> {DRoot, DChanIx, DChan c}) R)"
  unfolding createChannelBucket_def
  apply (rule succeeds_sbind [OF vw_Create_root [OF v]], clarify)
  apply (rule succeeds_sbind [OF vw_Create [where d = DChanIx, simplified]], assumption, simp, clarify)
  apply (rule succeeds_mono [OF vw_Create [where d = "DChan c", simplified]])
  by (auto simp: insert_commute)

lemma vw_createHeightChanBucket:
  assumes v: "vw ns t C D R"
  shows "succeeds (createHeightChanBucket ns h c) t
           (\<lambda>b t'. b = K ns # dpath (DHghtChan h c)
              \<and> vw ns t' C (D \<union> {DRoot, DHghtIx, DHght h, DHghtChan h c}) R)"
proof -
  have "succeeds (createHeightBucket ns h) t
      (\<lambda>b t'. b = K ns # dpath (DHght h) \<and> vw ns t' C (D \<union> {DRoot, DHghtIx, DHght h}) R)"
    unfolding createHeightBucket_def
    apply (rule succeeds_sbind [OF vw_Create_root [OF v]], clarify)
    apply (rule succeeds_sbind [OF vw_Create [where d = DHghtIx, simplified]], assumption, simp, clarify)
    apply (rule succeeds_mono [OF vw_Create [where d = "DHght h", simplified]])
    by (auto simp: insert_commute)
  then show ?thesis
    unfolding createHeightChanBucket_def
    apply (rule succeeds_sbind, clarify)
    apply (simp only: dpath.simps)
    apply (rule succeeds_mono [OF vw_Create [where d = "DHghtChan h c", simplified]])
    by (auto simp: insert_commute)
qed

section \<open>Pruning the height index\<close>

text \<open>
  The height index is tidy when it has a bucket for a height, and for a channel at a
  height, exactly where some output is scheduled.
\<close>

definition marked :: "(loc \<Rightarrow> bytes option) \<Rightarrow> u32 \<Rightarrow> OutPoint \<Rightarrow> bool" where
  "marked C h c \<longleftrightarrow> (\<exists>s p. C (LMark h c s p) \<noteq> None)"

definition tidyH :: "(loc \<Rightarrow> bytes option) \<Rightarrow> dir set \<Rightarrow> bool" where
  "tidyH C D \<longleftrightarrow> (\<forall>h c. DHghtChan h c \<in> D \<longleftrightarrow> marked C h c)
     \<and> (\<forall>h. DHght h \<in> D \<longleftrightarrow> (\<exists>c. marked C h c))"

text \<open>Values and buckets once the mark \<open>LMark h c s p\<close> is gone and the index is pruned.\<close>

definition unmark :: "u32 \<Rightarrow> OutPoint \<Rightarrow> stage \<Rightarrow> OutPoint \<Rightarrow> (loc \<Rightarrow> bytes option)
    \<Rightarrow> loc \<Rightarrow> bytes option" where
  "unmark h c s p C = (let C1 = C(LMark h c s p := None)
     in if \<exists>c'. marked C1 h c' then C1 else C1(LTxn h := None))"

definition undir :: "(loc \<Rightarrow> bytes option) \<Rightarrow> u32 \<Rightarrow> OutPoint \<Rightarrow> dir set \<Rightarrow> dir set" where
  "undir C h c D = D - (if marked C h c then {} else {DHghtChan h c})
     - (if \<exists>c'. marked C h c' then {} else {DHght h})"

lemma prefix_DHghtChan:
  "prefix (dpath (DHghtChan h c)) (lpath l) \<longleftrightarrow> (\<exists>s p. l = LMark h c s p)"
  "prefix (dpath (DHghtChan h c)) (dpath d) \<longleftrightarrow> d = DHghtChan h c"
  by (cases l; auto simp: lpath_def) (cases d; auto)

lemma prefix_DHght:
  "prefix (dpath (DHght h)) (lpath l) \<longleftrightarrow> l = LTxn h \<or> (\<exists>c s p. l = LMark h c s p)"
  "prefix (dpath (DHght h)) (dpath d) \<longleftrightarrow> d = DHght h \<or> (\<exists>c. d = DHghtChan h c)"
  by (cases l; auto simp: lpath_def) (cases d; auto)

lemma prefix_DChan:
  "prefix (dpath (DChan c)) (lpath l) \<longleftrightarrow> (\<exists>s p. l = LChan c s p)"
  "prefix (dpath (DChan c)) (dpath d) \<longleftrightarrow> d = DChan c"
  by (cases l; auto simp: lpath_def) (cases d; auto)

lemma pruneHeight_run:
  assumes v: "vw ns t C D R" and h: "DHght h \<in> D"
    and nonempty: "\<And>c. DHghtChan h c \<in> D \<Longrightarrow> marked C h c"
  shows "pruneHeight ns h t =
    (if \<exists>c. DHghtChan h c \<in> D then Inl ErrBucketNotEmpty
     else sbind (removeBucketIfExists [K ns, heightIndexKey] (PutUint32 h)) (\<lambda>_. sret True) t)"
proof -
  let ?hb = "K ns # dpath (DHght h)"
  let ?f = "\<lambda>(chanBytes, v) u t. if v \<noteq> None then Inr ((), t)
    else (case b_Bucket ?hb chanBytes t of
            None \<Rightarrow> Inl (GoErr ''unable to find height-channel bucket'')
          | Some hghtChanBucket \<Rightarrow> isBucketEmpty hghtChanBucket t)"
  have step: "?f x () t = (if snd x \<noteq> None then Inr ((), t) else Inl ErrBucketNotEmpty)"
    if "x \<in> set (b_pairs ?hb t)" for x
  proof (cases x)
    case (Pair k w)
    show ?thesis
    proof (cases w)
      case None
      with that Pair obtain d' where d': "d' \<in> D" "up d' = DHght h" "dkey d' = k" "d' \<noteq> DRoot"
        by (auto simp: vw_pairs_bkt [OF v] simp del: dpath.simps)
      then obtain c where c: "d' = DHghtChan h c" by (cases d') auto
      with d' nonempty have "b_pairs (K ns # dpath (DHghtChan h c)) t \<noteq> []"
        by (auto simp: pairs_DHghtChan [OF v] marked_def simp del: dpath.simps)
      with d' c Pair None vw_lookups(6) [OF v, of h c] show ?thesis
        by (simp add: isBucketEmpty_run)
    qed (simp add: Pair)
  qed
  have all: "(\<forall>x \<in> set (b_pairs ?hb t). snd x \<noteq> None) \<longleftrightarrow> \<not> (\<exists>c. DHghtChan h c \<in> D)"
  proof -
    have "(\<exists>k. (k, None) \<in> set (b_pairs ?hb t)) \<longleftrightarrow> (\<exists>c. DHghtChan h c \<in> D)"
      unfolding vw_pairs_bkt [OF v]
      by (auto elim!: up.elims intro!: bexI [of _ "DHghtChan h c" for c])
    then show ?thesis by force
  qed
  have loop: "b_ForEach ?hb (\<lambda>k w. ?f (k, w)) () t =
      (if \<exists>c. DHghtChan h c \<in> D then Inl ErrBucketNotEmpty else Inr ((), t))"
    unfolding b_ForEach_def using sfold_check [where f = ?f, OF step] all by (simp del: dpath.simps)
  have path: "getHeightBucketPath ns h t = (Some [K ns], Some [K ns, heightIndexKey], Some ?hb)"
    using vw_getHeightBucketPath [OF v, of h] vw_path_in [OF v] h by simp
  show ?thesis
    unfolding pruneHeight_def path using loop by (simp add: sbind_def del: dpath.simps)
qed

text \<open>Dropping the bucket of a channel at a height that has no mark left, and what follows.\<close>

lemma vw_prune_channel:
  assumes v: "vw ns t C D R" and hc: "DHghtChan h c \<in> D" and "\<not> marked C h c"
    and others: "\<And>c'. c' \<noteq> c \<Longrightarrow> DHghtChan h c' \<in> D \<longleftrightarrow> marked C h c'"
  shows "succeeds (\<lambda>t. case removeBucketIfEmpty (K ns # dpath (DHght h)) (writeOutpoint c) t of
             Inl e \<Rightarrow> if e \<noteq> ErrBucketNotEmpty then Inl e else Inr ((), t)
           | Inr (_, t) \<Rightarrow> (case pruneHeight ns h t of
                 Inl e \<Rightarrow> if e \<noteq> ErrBucketNotEmpty then Inl e else Inr ((), t)
               | Inr (pruned, t) \<Rightarrow> Inr ((), t))) t
     (\<lambda>_ t'. vw ns t' (if \<exists>c'. marked C h c' then C else C(LTxn h := None)) (undir C h c D) R)"
proof -
  have unmarked: "(\<lambda>l. if prefix (dpath (DHghtChan h c)) (lpath l) then None else C l) = C"
    using assms(3) by (auto simp: prefix_DHghtChan marked_def fun_eq_iff simp del: dpath.simps)
  obtain t2 where t2: "b_DeleteBucket (K ns # dpath (DHght h)) (writeOutpoint c) t = Inr ((), t2)"
      "vw ns t2 C {d \<in> D. d \<noteq> DHghtChan h c} R"
    using vw_DeleteBucket [OF v, of "DHghtChan h c"] hc
    by (auto simp: succeeds_def unmarked prefix_DHghtChan(2) simp del: dpath.simps)
  have empty: "b_pairs (K ns # dpath (DHghtChan h c)) t = []"
    using assms(3) by (auto simp: pairs_DHghtChan [OF v] marked_def simp del: dpath.simps)
  have rm: "removeBucketIfEmpty (K ns # dpath (DHght h)) (writeOutpoint c) t = Inr ((), t2)"
    using vw_lookups(6) [OF v, of h c] hc t2 empty
    by (simp add: removeBucketIfEmpty_def sbind_def isBucketEmpty_run)
  have h: "DHght h \<in> D" using vw_path_in(5) [OF v hc] by simp
  have prune: "pruneHeight ns h t2 = (if \<exists>c'. marked C h c' then Inl ErrBucketNotEmpty
      else sbind (removeBucketIfExists [K ns, heightIndexKey] (PutUint32 h)) (\<lambda>_. sret True) t2)"
  proof -
    have "(\<exists>c'. DHghtChan h c' \<in> {d \<in> D. d \<noteq> DHghtChan h c}) \<longleftrightarrow> (\<exists>c'. marked C h c')"
      using others assms(3) by (metis (mono_tags, lifting) dir.inject(3) mem_Collect_eq)
    moreover have "marked C h c'" if "DHghtChan h c' \<in> {d \<in> D. d \<noteq> DHghtChan h c}" for c'
      using that others by auto
    ultimately show ?thesis using pruneHeight_run [OF t2(2), of h] h by simp
  qed
  show ?thesis
  proof (cases "\<exists>c'. marked C h c'")
    case True
    with assms(3) have "undir C h c D = {d \<in> D. d \<noteq> DHghtChan h c}" by (auto simp: undir_def)
    with True rm prune t2(2) show ?thesis
      by (intro succeedsI [of _ _ "()" t2]) auto
  next
    case False
    have D': "{d' \<in> {d \<in> D. d \<noteq> DHghtChan h c}. \<not> prefix (dpath (DHght h)) (dpath d')} = undir C h c D"
      using False others by (auto simp: prefix_DHght undir_def simp del: dpath.simps)
    have C': "(\<lambda>l. if prefix (dpath (DHght h)) (lpath l) then None else C l) = C(LTxn h := None)"
      using False by (auto simp: prefix_DHght marked_def fun_eq_iff simp del: dpath.simps)
    obtain t3 where t3: "b_DeleteBucket [K ns, heightIndexKey] (PutUint32 h) t2 = Inr ((), t3)"
        "vw ns t3 (C(LTxn h := None)) (undir C h c D) R"
      using vw_DeleteBucket [OF t2(2), of "DHght h"] h D' C' by (auto simp: succeeds_def)
    with False rm prune h vw_lookups(5) [OF t2(2), of h] show ?thesis
      by (intro succeedsI [of _ _ "()" t3])
        (auto simp: removeBucketIfExists_def sbind_def sret_def)
  qed
qed

lemma vw_removeOutputFromHeight:
  assumes v: "vw ns t C D R" and tidy: "tidyH C D"
  shows "succeeds (removeOutputFromHeight ns h c (okey s p)) t
           (\<lambda>_ t'. vw ns t' (unmark h c s p C) (undir (C(LMark h c s p := None)) h c D) R)"
proof (cases "DHghtChan h c \<in> D")
  case False
  then have "\<not> marked C h c" using tidy by (simp add: tidyH_def)
  then have C1: "C(LMark h c s p := None) = C" by (auto simp: marked_def)
  have "C (LTxn h) = None" if "\<not> (\<exists>c. marked C h c)"
    using that tidy vw_dir_of [OF v, of "LTxn h"] by (metis dir_of.simps(5) tidyH_def)
  then have "unmark h c s p C = C" by (auto simp: unmark_def C1 Let_def)
  moreover have "undir C h c D = D" using False tidy by (auto simp: undir_def tidyH_def)
  ultimately show ?thesis
    using False v C1 vw_getHeightChanBucket [OF v, of h c]
    by (intro succeedsI [of _ _ "()" t]) (auto simp: removeOutputFromHeight_def)
next
  case True
  let ?C1 = "C(LMark h c s p := None)"
  obtain t1 where t1: "b_Delete (K ns # dpath (DHghtChan h c)) (okey s p) t = Inr ((), t1)"
      "vw ns t1 ?C1 D R"
    using vw_Delete [OF v, of "LMark h c s p"] True by (auto simp: succeeds_def)
  have h: "getHeightBucket ns h t1 = Some (K ns # dpath (DHght h))"
    using vw_path_in(5) [OF v True] vw_getHeightBucket [OF t1(2)] by simp
  have hc: "getHeightChanBucket ns h c t = Some (K ns # dpath (DHghtChan h c))"
    using vw_getHeightChanBucket [OF v] True by simp
  note run = removeOutputFromHeight_def hc option.case sbind_Inr [where m = "b_Delete b k" for b k, OF t1(1)] h
  show ?thesis
  proof (cases "marked ?C1 h c")
    case m: True
    then have "b_pairs (K ns # dpath (DHghtChan h c)) t1 \<noteq> []"
      by (auto simp: pairs_DHghtChan [OF t1(2)] marked_def simp del: dpath.simps)
    then have "removeBucketIfEmpty (K ns # dpath (DHght h)) (writeOutpoint c) t1
        = Inl ErrBucketNotEmpty"
      using vw_lookups(6) [OF t1(2), of h c] True
      by (simp add: removeBucketIfEmpty_def sbind_def isBucketEmpty_run)
    moreover have "unmark h c s p C = ?C1" "undir ?C1 h c D = D"
      using m by (auto simp: unmark_def undir_def Let_def)
    ultimately show ?thesis
      using t1(2) by (intro succeedsI [of _ _ "()" t1]) (auto simp only: run sum.case simp_thms if_False)
  next
    case False
    have "DHghtChan h c' \<in> D \<longleftrightarrow> marked ?C1 h c'" if "c' \<noteq> c" for c'
      using tidy that by (auto simp: tidyH_def marked_def)
    from vw_prune_channel [OF t1(2) True False this] show ?thesis
      unfolding succeeds_def run by (simp add: unmark_def Let_def del: dpath.simps)
  qed
qed

lemma tidyH_unmark:
  assumes "tidyH C D"
  shows "tidyH (unmark h c s p C) (undir (C(LMark h c s p := None)) h c D)"
proof -
  let ?C1 = "C(LMark h c s p := None)"
  have same: "marked (unmark h c s p C) = marked ?C1"
    by (auto simp: unmark_def marked_def Let_def fun_eq_iff)
  have sub: "marked ?C1 h' c' \<Longrightarrow> marked C h' c'" for h' c'
    by (auto simp: marked_def split: if_splits)
  have other: "marked ?C1 h' c' \<longleftrightarrow> marked C h' c'" if "(h', c') \<noteq> (h, c)" for h' c'
    using that unfolding marked_def by (metis fun_upd_other loc.inject(2))
  have "DHghtChan h' c' \<in> undir ?C1 h c D \<longleftrightarrow> marked ?C1 h' c'" for h' c'
    using assms sub other by (cases "(h', c') = (h, c)") (auto simp: tidyH_def undir_def)
  moreover have "DHght h' \<in> undir ?C1 h c D \<longleftrightarrow> (\<exists>c'. marked ?C1 h' c')" for h'
    using assms sub other by (cases "h' = h") (auto simp: tidyH_def undir_def)
  ultimately show ?thesis by (simp add: tidyH_def same)
qed

end
