(* ===== verification/NurseryRefine.thy ===== *)
theory NurseryRefine
  imports NurseryView
begin

text \<open>
  What the nursery store promises, and that nursery_store.go keeps the promise. The abstract
  store \<open>nursery\<close> maps a channel and an outpoint to the one entry the nursery has for it: its
  stage of incubation, its data, and the height it is scheduled for. \<open>repr ns t A R\<close> relates
  a database to the abstract store: the channel index and the height index are exactly what
  \<open>A\<close> prescribes. Each method of the store, run on a database that represents \<open>A\<close>, succeeds
  and leaves a database that represents the abstract successor of \<open>A\<close>; each query returns what
  \<open>A\<close> says.
\<close>

section \<open>The abstract store\<close>

datatype entry = Crib babyOutput | Pscl kidOutput | Kndr u32 kidOutput | Grad kidOutput

fun stage_of :: "entry \<Rightarrow> stage" where
  "stage_of (Crib b) = SCrib" | "stage_of (Pscl k) = SPscl"
| "stage_of (Kndr h k) = SKndr" | "stage_of (Grad k) = SGrad"

fun kid_part :: "entry \<Rightarrow> kidOutput" where
  "kid_part (Crib b) = kid_of b" | "kid_part (Pscl k) = k"
| "kid_part (Kndr h k) = k" | "kid_part (Grad k) = k"

fun sched :: "entry \<Rightarrow> u32 option" where
  "sched (Crib b) = Some (expiry b)" | "sched (Pscl k) = None"
| "sched (Kndr h k) = Some h" | "sched (Grad k) = None"

fun enc :: "entry \<Rightarrow> bytes" where
  "enc (Crib b) = baby_Encode b" | "enc (Pscl k) = kid_Encode k"
| "enc (Kndr h k) = kid_Encode k" | "enc (Grad k) = kid_Encode k"

fun valid_entry :: "entry \<Rightarrow> bool" where
  "valid_entry (Crib b) = valid_baby b" | "valid_entry (Pscl k) = valid_kid k"
| "valid_entry (Kndr h k) = valid_kid k" | "valid_entry (Grad k) = valid_kid k"

definition storable :: "entry \<Rightarrow> bool" where
  "storable e \<longleftrightarrow> valid_entry e \<and> length (enc e) \<le> MaxValueSize"

record nursery =
  outs :: "OutPoint \<times> OutPoint \<Rightarrow> entry option"
  fin :: "u32 \<Rightarrow> MsgTx option"
  lastFin :: "u32 option"
  lastGrad :: "u32 option"

definition empty_nursery :: nursery where
  "empty_nursery = \<lparr>outs = \<lambda>_. None, fin = \<lambda>_. None, lastFin = None, lastGrad = None\<rparr>"

definition scheduled :: "nursery \<Rightarrow> u32 \<Rightarrow> bool" where
  "scheduled A h \<longleftrightarrow> (\<exists>cp e. outs A cp = Some e \<and> sched e = Some h)"

definition put_out :: "OutPoint \<times> OutPoint \<Rightarrow> entry \<Rightarrow> nursery \<Rightarrow> nursery" where
  "put_out cp e A = A\<lparr>outs := (outs A)(cp \<mapsto> e)\<rparr>"

definition key_of :: "'a kidOutput_scheme \<Rightarrow> OutPoint \<times> OutPoint" where
  "key_of k = (originChanPoint k, outpoint k)"

definition wfA :: "nursery \<Rightarrow> bool" where
  "wfA A \<longleftrightarrow> (\<forall>cp e. outs A cp = Some e \<longrightarrow> storable e \<and> key_of (kid_part e) = cp)
     \<and> (\<forall>h tx. fin A h = Some tx \<longrightarrow> wf_tx tx \<and> length (Serialize tx) \<le> MaxValueSize)"

subsection \<open>Abstract operations\<close>

definition spec_enterPreschool :: "kidOutput \<Rightarrow> nursery \<Rightarrow> nursery" where
  "spec_enterPreschool k A = (if outs A (key_of k) = None then put_out (key_of k) (Pscl k) A else A)"

definition spec_enterCrib :: "babyOutput \<Rightarrow> nursery \<Rightarrow> nursery" where
  "spec_enterCrib b A = (if outs A (key_of b) = None then put_out (key_of b) (Crib b) A else A)"

definition spec_Incubate :: "kidOutput list \<Rightarrow> babyOutput list \<Rightarrow> nursery \<Rightarrow> nursery" where
  "spec_Incubate kids babies A = fold spec_enterCrib babies (fold spec_enterPreschool kids A)"

definition drop_out :: "OutPoint \<times> OutPoint \<Rightarrow> u32 \<Rightarrow> nursery \<Rightarrow> nursery" where
  "drop_out cp h A = (let A1 = A\<lparr>outs := (outs A)(cp := None)\<rparr>
     in if scheduled A1 h then A1 else A1\<lparr>fin := (fin A)(h := None)\<rparr>)"

definition spec_CribToKinder :: "babyOutput \<Rightarrow> nursery \<Rightarrow> nursery" where
  "spec_CribToKinder b A = put_out (key_of b) (Kndr (confHeight b + blocksToMaturity b) (kid_of b))
     (drop_out (key_of b) (expiry b) A)"

definition class_height :: "kidOutput \<Rightarrow> u32 \<Rightarrow> u32" where
  "class_height k lg = (let m = (if blocksToMaturity k = 0 then absoluteMaturity k
                                 else confHeight k + blocksToMaturity k)
     in if m \<le> lg then lg + 1 else m)"

definition spec_PreschoolToKinder :: "kidOutput \<Rightarrow> nursery \<Rightarrow> nursery" where
  "spec_PreschoolToKinder k A =
     put_out (key_of k) (Kndr (class_height k (case lastGrad A of None \<Rightarrow> 0 | Some g \<Rightarrow> g)) k) A"

fun graduate :: "u32 \<Rightarrow> entry \<Rightarrow> entry" where
  "graduate h (Kndr h' k) = (if h' = h then Grad k else Kndr h' k)"
| "graduate h e = e"

definition spec_GraduateKinder :: "u32 \<Rightarrow> nursery \<Rightarrow> nursery" where
  "spec_GraduateKinder h A =
     A\<lparr>outs := (\<lambda>cp. map_option (graduate h) (outs A cp)), fin := (fin A)(h := None)\<rparr>"

definition spec_FinalizeKinder :: "u32 \<Rightarrow> MsgTx option \<Rightarrow> nursery \<Rightarrow> nursery" where
  "spec_FinalizeKinder h txo A =
     A\<lparr>lastFin := Some h,
       fin := (case txo of None \<Rightarrow> fin A
               | Some tx \<Rightarrow> if scheduled A h then (fin A)(h \<mapsto> tx) else fin A)\<rparr>"

definition spec_GraduateHeight :: "u32 \<Rightarrow> nursery \<Rightarrow> nursery" where
  "spec_GraduateHeight h A = A\<lparr>lastGrad := Some h\<rparr>"

definition has_channel :: "nursery \<Rightarrow> OutPoint \<Rightarrow> bool" where
  "has_channel A c \<longleftrightarrow> (\<exists>p. outs A (c, p) \<noteq> None)"

definition mature :: "nursery \<Rightarrow> OutPoint \<Rightarrow> bool" where
  "mature A c \<longleftrightarrow> (\<forall>p e. outs A (c, p) = Some e \<longrightarrow> stage_of e = SGrad)"

definition spec_RemoveChannel :: "OutPoint \<Rightarrow> nursery \<Rightarrow> nursery" where
  "spec_RemoveChannel c A = A\<lparr>outs := (\<lambda>cp. if fst cp = c then None else outs A cp)\<rparr>"

section \<open>The representation\<close>

fun conc :: "nursery \<Rightarrow> loc \<Rightarrow> bytes option" where
  "conc A LFin = map_option PutUint32 (lastFin A)"
| "conc A LGrad = map_option PutUint32 (lastGrad A)"
| "conc A (LChan c s p) = (case outs A (c, p) of None \<Rightarrow> None
     | Some e \<Rightarrow> if stage_of e = s then Some (enc e) else None)"
| "conc A (LMark h c s p) = (case outs A (c, p) of None \<Rightarrow> None
     | Some e \<Rightarrow> if stage_of e = s \<and> sched e = Some h then Some [] else None)"
| "conc A (LTxn h) = map_option Serialize (fin A h)"

definition tidyC :: "(loc \<Rightarrow> bytes option) \<Rightarrow> dir set \<Rightarrow> bool" where
  "tidyC C D \<longleftrightarrow> (\<forall>c. DChan c \<in> D \<longleftrightarrow> (\<exists>s p. C (LChan c s p) \<noteq> None))"

definition repr :: "nurseryStore \<Rightarrow> db \<Rightarrow> nursery \<Rightarrow> (bytes list \<Rightarrow> bytes option \<times> bool) \<Rightarrow> bool" where
  "repr ns t A R \<longleftrightarrow> wfA A \<and> (\<exists>D. vw ns t (conc A) D R \<and> tidyH (conc A) D \<and> tidyC (conc A) D)"

lemma marked_conc: "marked (conc A) h c \<longleftrightarrow> (\<exists>p e. outs A (c, p) = Some e \<and> sched e = Some h)"
  unfolding marked_def by (fastforce split: option.splits if_splits)

lemma marked_conc_any: "(\<exists>c. marked (conc A) h c) \<longleftrightarrow> scheduled A h"
  by (auto simp: marked_conc scheduled_def)

lemma chan_conc: "(\<exists>s p. conc A (LChan c s p) \<noteq> None) \<longleftrightarrow> has_channel A c"
  by (fastforce simp: has_channel_def split: option.splits if_splits)

lemma tidyC_put:
  "tidyC C D \<Longrightarrow> tidyC (C(LChan c s p \<mapsto> x)) (D \<union> {DRoot, DChanIx, DChan c})"
  unfolding tidyC_def by auto

lemma tidyC_mark:
  "tidyC C D \<Longrightarrow> tidyC (C(LMark h c s p := x)) (D \<union> {DRoot, DHghtIx, DHght h, DHghtChan h c})"
  unfolding tidyC_def by auto

lemma tidyH_put: "tidyH C D \<Longrightarrow> tidyH (C(LChan c s p := x)) (D \<union> {DRoot, DChanIx, DChan c})"
  unfolding tidyH_def marked_def by auto

lemma tidyH_chan: "tidyH C D \<Longrightarrow> tidyH (C(LChan c s p := x)) D"
  unfolding tidyH_def marked_def by auto

lemma tidyH_mark:
  "tidyH C D \<Longrightarrow> tidyH (C(LMark h c s p \<mapsto> x)) (D \<union> {DRoot, DHghtIx, DHght h, DHghtChan h c})"
  unfolding tidyH_def marked_def by (auto split: if_splits)

lemma reprE:
  assumes "repr ns t A R"
  obtains D where "wfA A" "vw ns t (conc A) D R" "tidyH (conc A) D" "tidyC (conc A) D"
  using assms by (auto simp: repr_def)

section \<open>Entering the nursery\<close>

lemmas vw_Put_chan = vw_Put [where l = "LChan c s p" for c s p, simplified]
lemmas vw_Put_mark = vw_Put [where l = "LMark h c s p" for h c s p, simplified]
lemmas vw_Delete_chan = vw_Delete [where l = "LChan c s p" for c s p, simplified]
lemmas vw_Get_chan = vw_Get [where l = "LChan c s p" for c s p, simplified]

lemma wfA_put_out: "wfA A \<Longrightarrow> storable e \<Longrightarrow> key_of (kid_part e) = cp \<Longrightarrow> wfA (put_out cp e A)"
  by (auto simp: wfA_def put_out_def)

lemma conc_put_out_unsched:
  "outs A (c, p) = None \<Longrightarrow> sched e = None \<Longrightarrow>
     conc (put_out (c, p) e A) = (conc A)(LChan c (stage_of e) p \<mapsto> enc e)"
  by (rule ext, rename_tac l, case_tac l) (auto simp: put_out_def)

lemma conc_put_out_sched:
  "outs A (c, p) = None \<Longrightarrow> sched e = Some h \<Longrightarrow>
     conc (put_out (c, p) e A)
       = (conc A)(LChan c (stage_of e) p \<mapsto> enc e, LMark h c (stage_of e) p \<mapsto> [])"
  by (rule ext, rename_tac l, case_tac l) (auto simp: put_out_def)

lemma key_of_kid_part [simp]: "key_of (kid_of b) = key_of b"
  by (simp add: key_of_def kidOutput.truncate_def)

lemma vw_dirs_absorb:
  assumes "vw ns t C D R" "DChan c \<in> D"
  shows "insert DRoot (insert DChanIx (insert (DChan c) D)) = D"
  using assms vw_path_in(1) [OF assms] by auto

lemma repr_enterPreschool:
  assumes "repr ns t A R" "storable (Pscl k)"
    and "\<forall>e. outs A (key_of k) = Some e \<longrightarrow> stage_of e = SPscl"
  shows "succeeds (enterPreschool ns k) t (\<lambda>_ t'. repr ns t' (spec_enterPreschool k A) R)"
proof -
  let ?c = "originChanPoint k" and ?p = "outpoint k"
  obtain D where D: "wfA A" "vw ns t (conc A) D R" "tidyH (conc A) D" "tidyC (conc A) D"
    using assms(1) by (rule reprE)
  show ?thesis
  proof (cases "outs A (key_of k)")
    case None
    then have get: "conc A (LChan ?c SPscl ?p) = None" by (simp add: key_of_def)
    have "conc (spec_enterPreschool k A) = (conc A)(LChan ?c SPscl ?p \<mapsto> kid_Encode k)"
      using None conc_put_out_unsched [of A ?c ?p "Pscl k"]
      by (simp add: spec_enterPreschool_def key_of_def)
    then have post: "repr ns t' (spec_enterPreschool k A) R"
      if "vw ns t' ((conc A)(LChan ?c SPscl ?p \<mapsto> kid_Encode k)) (D \<union> {DRoot, DChanIx, DChan ?c}) R"
      for t'
      using that D assms(2) None unfolding repr_def
      by (auto simp: spec_enterPreschool_def wfA_put_out intro!: exI [of _ "D \<union> {DRoot, DChanIx, DChan ?c}"]
          tidyC_put tidyH_put)
    show ?thesis
      unfolding enterPreschool_def
      apply (rule succeeds_sbind [OF vw_createChannelBucket [OF D(2), of ?c]], clarify)
      apply (simp add: vw_Get_chan [where s = SPscl, simplified] get del: conc.simps)
      apply (rule succeeds_mono [OF vw_Put_chan [where s = SPscl, simplified]], assumption, simp)
      using assms(2) post by (auto simp: storable_def)
  next
    case (Some e)
    with assms(3) have get: "conc A (LChan ?c SPscl ?p) \<noteq> None" by (simp add: key_of_def)
    then have "DChan ?c \<in> D" using D(4) unfolding tidyC_def by blast
    then have same: "insert DRoot (insert DChanIx (insert (DChan ?c) D)) = D" by (rule vw_dirs_absorb [OF D(2)])
    show ?thesis
      unfolding enterPreschool_def
      apply (rule succeeds_sbind [OF vw_createChannelBucket [OF D(2), of ?c]], clarify)
      using get Some D by (auto simp: vw_Get_chan [where s = SPscl, simplified] same
          spec_enterPreschool_def repr_def simp del: conc.simps)
  qed
qed

lemma repr_enterCrib:
  assumes "repr ns t A R" "storable (Crib b)"
    and "\<forall>e. outs A (key_of b) = Some e \<longrightarrow> stage_of e = SCrib"
  shows "succeeds (enterCrib ns b) t (\<lambda>_ t'. repr ns t' (spec_enterCrib b A) R)"
proof -
  let ?c = "originChanPoint b" and ?p = "outpoint b"
  obtain D where D: "wfA A" "vw ns t (conc A) D R" "tidyH (conc A) D" "tidyC (conc A) D"
    using assms(1) by (rule reprE)
  let ?D1 = "D \<union> {DRoot, DChanIx, DChan ?c}"
  let ?D2 = "?D1 \<union> {DRoot, DHghtIx, DHght (expiry b), DHghtChan (expiry b) ?c}"
  let ?C1 = "(conc A)(LChan ?c SCrib ?p \<mapsto> baby_Encode b)"
  let ?C2 = "?C1(LMark (expiry b) ?c SCrib ?p \<mapsto> [])"
  show ?thesis
  proof (cases "outs A (key_of b)")
    case None
    then have get: "conc A (LChan ?c SCrib ?p) = None" by (simp add: key_of_def)
    have "conc (spec_enterCrib b A) = ?C2"
      using None conc_put_out_sched [of A ?c ?p "Crib b"] by (simp add: spec_enterCrib_def key_of_def)
    then have post: "repr ns t' (spec_enterCrib b A) R" if "vw ns t' ?C2 ?D2 R" for t'
      using that D assms(2) None unfolding repr_def
      by (auto simp: spec_enterCrib_def wfA_put_out simp del: fun_upd_apply intro!: exI [of _ ?D2]
          tidyC_mark tidyC_put tidyH_put tidyH_mark)
    show ?thesis
      unfolding enterCrib_def
      apply (rule succeeds_sbind [OF vw_createChannelBucket [OF D(2), of ?c]], clarify)
      apply (simp add: vw_Get_chan [where s = SCrib, simplified] get del: conc.simps)
      apply (rule succeeds_sbind [OF vw_createHeightChanBucket [of _ _ "conc A" ?D1 R "expiry b" ?c]],
          simp, clarify)
      apply (simp, rule succeeds_sbind [OF vw_Put_chan [of _ _ "conc A" ?D2 R ?c "baby_Encode b" SCrib ?p, simplified]])
        apply (simp add: insert_commute)
      using assms(2) apply (simp add: storable_def)
      apply (rule succeeds_mono [OF vw_Put_mark [of _ _ ?C1 ?D2 R "expiry b" ?c "[]" SCrib ?p, simplified]])
      using post by (auto simp: insert_commute)
  next
    case (Some e)
    with assms(3) have get: "conc A (LChan ?c SCrib ?p) \<noteq> None" by (simp add: key_of_def)
    then have "DChan ?c \<in> D" using D(4) unfolding tidyC_def by blast
    then have same: "insert DRoot (insert DChanIx (insert (DChan ?c) D)) = D" by (rule vw_dirs_absorb [OF D(2)])
    show ?thesis
      unfolding enterCrib_def
      apply (rule succeeds_sbind [OF vw_createChannelBucket [OF D(2), of ?c]], clarify)
      using get Some D by (auto simp: vw_Get_chan [where s = SCrib, simplified] same
          spec_enterCrib_def repr_def simp del: conc.simps)
  qed
qed

text \<open>
  Incubating a batch. No output of the batch may be in the nursery at another stage: the
  code looks only under the key of the stage the output would enter.
\<close>

definition incubatable :: "kidOutput list \<Rightarrow> babyOutput list \<Rightarrow> nursery \<Rightarrow> bool" where
  "incubatable kids babies A \<longleftrightarrow>
     (\<forall>k \<in> set kids. storable (Pscl k) \<and> (\<forall>e. outs A (key_of k) = Some e \<longrightarrow> stage_of e = SPscl))
     \<and> (\<forall>b \<in> set babies. storable (Crib b) \<and> (\<forall>e. outs A (key_of b) = Some e \<longrightarrow> stage_of e = SCrib))
     \<and> key_of ` set kids \<inter> key_of ` set babies = {}"

lemma succeeds_refine_loop:
  assumes "repr ns t A R" "P A"
    and step: "\<And>x A t. x \<in> set xs \<Longrightarrow> repr ns t A R \<Longrightarrow> P A \<Longrightarrow>
      succeeds (f x) t (\<lambda>_ t'. repr ns t' (g x A) R) \<and> P (g x A)"
  shows "succeeds (sforeach f xs) t (\<lambda>_ t'. repr ns t' (fold g xs A) R \<and> P (fold g xs A))"
  using assms
proof (induction xs arbitrary: t A)
  case Nil
  then show ?case by (simp add: succeeds_def)
next
  case (Cons x xs)
  from Cons.prems(3) [of x t A] Cons.prems(1,2) obtain t' u where
    t': "f x t = Inr (u, t')" "repr ns t' (g x A) R" "P (g x A)"
    by (auto simp: succeeds_def)
  with Cons.IH [of t' "g x A"] Cons.prems(3) show ?case by (simp add: succeeds_def)
qed

lemma repr_Incubate:
  assumes "repr ns t A R" "incubatable kids babies A"
  shows "succeeds (Incubate_tx ns kids babies) t (\<lambda>_ t'. repr ns t' (spec_Incubate kids babies A) R)"
proof -
  define P where "P A \<longleftrightarrow> (\<forall>k \<in> set kids. \<forall>e. outs A (key_of k) = Some e \<longrightarrow> stage_of e = SPscl)
    \<and> (\<forall>b \<in> set babies. \<forall>e. outs A (key_of b) = Some e \<longrightarrow> stage_of e = SCrib)"
    for A :: nursery
  have P0: "P A" using assms(2) by (auto simp: P_def incubatable_def)
  have P1: "P (spec_enterPreschool k A')" if "k \<in> set kids" "P A'" for k A'
    using that assms(2)
    by (auto simp: P_def incubatable_def spec_enterPreschool_def put_out_def split: if_splits)
  have P2: "P (spec_enterCrib b A')" if "b \<in> set babies" "P A'" for b A'
    using that assms(2)
    by (auto simp: P_def incubatable_def spec_enterCrib_def put_out_def split: if_splits)
  have S1: "succeeds (enterPreschool ns k) t' (\<lambda>_ t''. repr ns t'' (spec_enterPreschool k A') R)"
    if "k \<in> set kids" "repr ns t' A' R" "P A'" for k A' t'
    using that assms(2) by (intro repr_enterPreschool) (auto simp: P_def incubatable_def)
  have S2: "succeeds (enterCrib ns b) t' (\<lambda>_ t''. repr ns t'' (spec_enterCrib b A') R)"
    if "b \<in> set babies" "repr ns t' A' R" "P A'" for b A' t'
    using that assms(2) by (intro repr_enterCrib) (auto simp: P_def incubatable_def)
  have 1: "succeeds (sforeach (enterPreschool ns) kids) t
      (\<lambda>_ t'. repr ns t' (fold spec_enterPreschool kids A) R \<and> P (fold spec_enterPreschool kids A))"
    using S1 P1 by (intro succeeds_refine_loop [where P = P, OF assms(1) P0] conjI)
  have 2: "succeeds (sforeach (enterCrib ns) babies) t'
      (\<lambda>_ t''. repr ns t'' (fold spec_enterCrib babies A') R \<and> P (fold spec_enterCrib babies A'))"
    if "repr ns t' A' R" "P A'" for t' A'
    using S2 P2 by (intro succeeds_refine_loop [where P = P, OF that] conjI)
  show ?thesis
    unfolding Incubate_tx_def spec_Incubate_def
    by (rule succeeds_sbind [OF 1], rule succeeds_mono [OF 2]) auto
qed

section \<open>Transitions to kindergarten\<close>

lemma vw_getLastHeights:
  assumes v: "vw ns t C D R"
  shows "C LGrad = map_option PutUint32 g \<Longrightarrow>
           getLastGraduatedHeight ns t = Inr (case g of None \<Rightarrow> 0 | Some g \<Rightarrow> g, t)"
    and "C LFin = map_option PutUint32 g \<Longrightarrow>
           getLastFinalizedHeight ns t = Inr (case g of None \<Rightarrow> 0 | Some g \<Rightarrow> g, t)"
  using vw_Get [OF v, of LGrad] vw_Get [OF v, of LFin] vw_dir_of [OF v, of LGrad]
    vw_dir_of [OF v, of LFin] vw_lookups(1) [OF v]
  by (cases g; auto simp: getLastGraduatedHeight_def getLastFinalizedHeight_def go_Uint32_def
      slift_def codec_simps)+

text \<open>Moving a preschool output: from one key of its channel to another, and a new mark.\<close>

lemma conc_PreschoolToKinder:
  assumes "outs A (c, p) = Some (Pscl k0)"
  shows "conc (put_out (c, p) (Kndr h k) A) = (conc A)(LChan c SPscl p := None,
           LChan c SKndr p \<mapsto> kid_Encode k, LMark h c SKndr p \<mapsto> [])"
  using assms by (intro ext, rename_tac l, case_tac l) (auto simp: put_out_def)

lemma repr_PreschoolToKinder:
  assumes "repr ns t A R" "outs A (key_of k) = Some (Pscl k0)" "storable (Pscl k)"
  shows "succeeds (PreschoolToKinder_tx ns k) t (\<lambda>_ t'. repr ns t' (spec_PreschoolToKinder k A) R)"
proof -
  let ?c = "originChanPoint k" and ?p = "outpoint k"
  let ?h = "class_height k (case lastGrad A of None \<Rightarrow> 0 | Some g \<Rightarrow> g)"
  obtain D where D: "wfA A" "vw ns t (conc A) D R" "tidyH (conc A) D" "tidyC (conc A) D"
    using assms(1) by (rule reprE)
  have here: "DChan ?c \<in> D"
  proof -
    have "has_channel A ?c" using assms(2) by (auto simp: has_channel_def key_of_def)
    then show ?thesis using D(4) unfolding tidyC_def chan_conc by simp
  qed
  note same = vw_dirs_absorb [OF D(2) here]
  let ?C1 = "(conc A)(LChan ?c SPscl ?p := None)"
  let ?C2 = "?C1(LChan ?c SKndr ?p \<mapsto> kid_Encode k)"
  let ?C3 = "?C2(LMark ?h ?c SKndr ?p \<mapsto> [])"
  let ?D3 = "D \<union> {DRoot, DHghtIx, DHght ?h, DHghtChan ?h ?c}"
  have C3: "conc (spec_PreschoolToKinder k A) = ?C3"
    using assms(2) conc_PreschoolToKinder [of A ?c ?p k0 ?h k]
    by (simp add: spec_PreschoolToKinder_def key_of_def)
  have "tidyC ?C3 ?D3"
    using D(4) here unfolding tidyC_def by (auto split: if_splits)
  moreover have "tidyH ?C3 ?D3" by (intro tidyH_mark tidyH_chan D)
  moreover have "wfA (spec_PreschoolToKinder k A)"
    using D(1) assms(3) by (auto simp: spec_PreschoolToKinder_def storable_def intro!: wfA_put_out)
  ultimately have post: "repr ns t' (spec_PreschoolToKinder k A) R" if "vw ns t' ?C3 ?D3 R" for t'
    using that C3 unfolding repr_def by auto
  have len: "length (kid_Encode k) \<le> MaxValueSize" using assms(3) by (simp add: storable_def)
  have copy: "go_copy (prefixOutputKey psclPrefix ?p) kndrPrefix = prefixOutputKey kndrPrefix ?p"
    using okey_copy [of SPscl ?p SKndr] by simp
  obtain t1 where t1: "createChannelBucket ns ?c t = Inr (K ns # dpath (DChan ?c), t1)"
      "vw ns t1 (conc A) D R"
    using vw_createChannelBucket [OF D(2), of ?c] same by (auto simp: succeeds_def)
  obtain t2 where t2: "b_Delete (K ns # dpath (DChan ?c)) (prefixOutputKey psclPrefix ?p) t1 = Inr ((), t2)"
      "vw ns t2 ?C1 D R"
    using vw_Delete [OF t1(2), of "LChan ?c SPscl ?p"] here by (auto simp: succeeds_def)
  obtain t3 where t3: "b_Put (K ns # dpath (DChan ?c)) (prefixOutputKey kndrPrefix ?p) (kid_Encode k) t2
        = Inr ((), t3)" "vw ns t3 ?C2 D R"
    using vw_Put [OF t2(2), of "LChan ?c SKndr ?p" "kid_Encode k"] here len by (auto simp: succeeds_def)
  have lg: "getLastGraduatedHeight ns t3 = Inr (case lastGrad A of None \<Rightarrow> 0 | Some g \<Rightarrow> g, t3)"
    by (rule vw_getLastHeights(1) [OF t3(2)]) simp
  obtain t4 where t4: "createHeightChanBucket ns ?h ?c t3 = Inr (K ns # dpath (DHghtChan ?h ?c), t4)"
      "vw ns t4 ?C2 ?D3 R"
    using vw_createHeightChanBucket [OF t3(2), of ?h ?c] by (auto simp: succeeds_def)
  obtain t5 where t5: "b_Put (K ns # dpath (DHghtChan ?h ?c)) (prefixOutputKey kndrPrefix ?p) [] t4
        = Inr ((), t5)" "vw ns t5 ?C3 ?D3 R"
    using vw_Put [OF t4(2), of "LMark ?h ?c SKndr ?p" "[]"] by (auto simp: succeeds_def)
  have "PreschoolToKinder_tx ns k t = Inr ((), t5)"
    unfolding PreschoolToKinder_tx_def Let_def copy
    using t1(1) t2(1) t3(1) lg t4(1) t5(1)
    by (simp add: sbind_def class_height_def Let_def del: dpath.simps)
  then show ?thesis using post [OF t5(2)] by (rule succeedsI)
qed

text \<open>Taking a scheduled output out of both indexes.\<close>

lemma unmark_chan: "unmark h c s p (C(LChan c' s' p' := x)) = (unmark h c s p C)(LChan c' s' p' := x)"
proof -
  have "marked ((C(LChan c' s' p' := x))(LMark h c s p := None)) = marked (C(LMark h c s p := None))"
    by (simp add: marked_def fun_eq_iff)
  then show ?thesis by (auto simp: unmark_def Let_def fun_eq_iff)
qed

lemma unmark_LChan [simp]: "unmark h c s p C (LChan c' s' p') = C (LChan c' s' p')"
  by (simp add: unmark_def Let_def)

lemma undir_DChan [simp]: "DChan c' \<in> undir C h c D \<longleftrightarrow> DChan c' \<in> D"
  by (simp add: undir_def)

lemma undir_chan: "undir (C(LChan c' s' p' := x)) = undir C"
proof -
  have "marked (C(LChan c' s' p' := x)) = marked C" by (simp add: marked_def fun_eq_iff)
  then show ?thesis by (simp add: undir_def fun_eq_iff)
qed

lemma tidyC_move:
  assumes "tidyC C D" "DChan c \<in> D"
  shows "tidyC (C(LChan c s p := None, LChan c s' p \<mapsto> x)) D"
  unfolding tidyC_def
proof
  fix c'
  show "DChan c' \<in> D \<longleftrightarrow> (\<exists>s'' p'. (C(LChan c s p := None, LChan c s' p \<mapsto> x)) (LChan c' s'' p') \<noteq> None)"
  proof (cases "c' = c")
    case True
    then have "(C(LChan c s p := None, LChan c s' p \<mapsto> x)) (LChan c' s' p) \<noteq> None" by simp
    with True assms(2) show ?thesis by blast
  next
    case False
    with assms(1) show ?thesis by (simp add: tidyC_def)
  qed
qed

lemma tidyC_unmark: "tidyC C D \<Longrightarrow> tidyC (unmark h c s p C) (undir C' h c D)"
  by (simp add: tidyC_def)

lemma conc_drop_out:
  assumes "outs A (c, p) = Some e" "sched e = Some h"
  shows "conc (drop_out (c, p) h A) = (unmark h c (stage_of e) p (conc A))(LChan c (stage_of e) p := None)"
proof -
  let ?A1 = "A\<lparr>outs := (outs A)((c, p) := None)\<rparr>"
  let ?C1 = "(conc A)(LMark h c (stage_of e) p := None)"
  have C1: "conc ?A1 = ?C1(LChan c (stage_of e) p := None)"
    using assms by (intro ext, rename_tac l, case_tac l) auto
  have "marked (conc ?A1) = marked ?C1" unfolding C1 by (simp add: marked_def fun_eq_iff)
  then have "(\<exists>c'. marked ?C1 h c') \<longleftrightarrow> scheduled ?A1 h" by (simp add: marked_conc_any [symmetric])
  moreover have "conc (?A1\<lparr>fin := (fin A)(h := None)\<rparr>) = (conc ?A1)(LTxn h := None)"
    by (intro ext, rename_tac l, case_tac l) auto
  ultimately show ?thesis
    by (auto simp: drop_out_def unmark_def Let_def C1 fun_upd_twist)
qed

lemma outs_drop_out [simp]: "outs (drop_out cp h A) = (outs A)(cp := None)"
  by (simp add: drop_out_def Let_def)

lemma lasts_drop_out [simp]:
  "lastFin (drop_out cp h A) = lastFin A" "lastGrad (drop_out cp h A) = lastGrad A"
  by (simp_all add: drop_out_def Let_def)

lemma wfA_drop_out: "wfA A \<Longrightarrow> wfA (drop_out cp h A)"
  by (auto simp: wfA_def drop_out_def Let_def split: if_splits)

lemma storable_kid_of: "storable (Crib b) \<Longrightarrow> storable (Kndr h (kid_of b))"
  by (auto simp: storable_def valid_baby_def valid_kid_def kidOutput.truncate_def baby_Encode_def kid_Encode_def)

lemma repr_CribToKinder:
  assumes "repr ns t A R" "outs A (key_of b) = Some (Crib b0)" "expiry b0 = expiry b" "storable (Crib b)"
  shows "succeeds (CribToKinder_tx ns b) t (\<lambda>_ t'. repr ns t' (spec_CribToKinder b A) R)"
proof -
  let ?c = "originChanPoint b" and ?p = "outpoint b" and ?e = "expiry b"
  let ?h = "confHeight b + blocksToMaturity b"
  obtain D where D: "wfA A" "vw ns t (conc A) D R" "tidyH (conc A) D" "tidyC (conc A) D"
    using assms(1) by (rule reprE)
  have "has_channel A ?c" using assms(2) by (auto simp: has_channel_def key_of_def)
  then have here: "DChan ?c \<in> D" using D(4) unfolding tidyC_def chan_conc by simp
  note same = vw_dirs_absorb [OF D(2) here]
  let ?C1 = "(conc A)(LChan ?c SCrib ?p := None)"
  let ?C2 = "unmark ?e ?c SCrib ?p ?C1"
  let ?D2 = "undir (?C1(LMark ?e ?c SCrib ?p := None)) ?e ?c D"
  let ?C3 = "?C2(LChan ?c SKndr ?p \<mapsto> kid_Encode b)"
  let ?C4 = "?C3(LMark ?h ?c SKndr ?p \<mapsto> [])"
  let ?D4 = "?D2 \<union> {DRoot, DHghtIx, DHght ?h, DHghtChan ?h ?c}"
  have C4: "conc (spec_CribToKinder b A) = ?C4"
    using assms(2,3) conc_put_out_sched [of "drop_out (key_of b) ?e A" ?c ?p "Kndr ?h (kid_of b)" ?h]
      conc_drop_out [of A ?c ?p "Crib b0" ?e]
    by (simp add: spec_CribToKinder_def key_of_def unmark_chan)
  have t1H: "tidyH ?C1 D" by (rule tidyH_chan [OF D(3)])
  have "tidyH ?C4 ?D4" by (intro tidyH_mark tidyH_chan tidyH_unmark D(3))
  moreover have "tidyC ?C4 ?D4"
    unfolding unmark_chan by (intro tidyC_mark tidyC_move tidyC_unmark D(4)) (simp add: here)
  moreover have "wfA (spec_CribToKinder b A)"
    using D(1) storable_kid_of [OF assms(4)]
    by (auto simp: spec_CribToKinder_def intro!: wfA_put_out wfA_drop_out)
  ultimately have post: "repr ns t' (spec_CribToKinder b A) R" if "vw ns t' ?C4 ?D4 R" for t'
    using that C4 unfolding repr_def by auto
  have len: "length (kid_Encode b) \<le> MaxValueSize"
    using storable_kid_of [OF assms(4)] by (simp add: storable_def)
  have copy: "go_copy (prefixOutputKey cribPrefix ?p) kndrPrefix = prefixOutputKey kndrPrefix ?p"
    using okey_copy [of SCrib ?p SKndr] by simp
  obtain t1 where t1: "createChannelBucket ns ?c t = Inr (K ns # dpath (DChan ?c), t1)"
      "vw ns t1 (conc A) D R"
    using vw_createChannelBucket [OF D(2), of ?c] same by (auto simp: succeeds_def)
  obtain t2 where t2: "b_Delete (K ns # dpath (DChan ?c)) (prefixOutputKey cribPrefix ?p) t1 = Inr ((), t2)"
      "vw ns t2 ?C1 D R"
    using vw_Delete [OF t1(2), of "LChan ?c SCrib ?p"] here by (auto simp: succeeds_def)
  obtain t3 where t3: "removeOutputFromHeight ns ?e ?c (prefixOutputKey cribPrefix ?p) t2 = Inr ((), t3)"
      "vw ns t3 ?C2 ?D2 R"
    using vw_removeOutputFromHeight [OF t2(2) t1H, of ?e ?c SCrib ?p] by (auto simp: succeeds_def)
  obtain t4 where t4: "b_Put (K ns # dpath (DChan ?c)) (prefixOutputKey kndrPrefix ?p) (kid_Encode b) t3
        = Inr ((), t4)" "vw ns t4 ?C3 ?D2 R"
    using vw_Put [OF t3(2), of "LChan ?c SKndr ?p" "kid_Encode b"] here len by (auto simp: succeeds_def)
  obtain t5 where t5: "createHeightChanBucket ns ?h ?c t4 = Inr (K ns # dpath (DHghtChan ?h ?c), t5)"
      "vw ns t5 ?C3 ?D4 R"
    using vw_createHeightChanBucket [OF t4(2), of ?h ?c] by (auto simp: succeeds_def)
  obtain t6 where t6: "b_Put (K ns # dpath (DHghtChan ?h ?c)) (prefixOutputKey kndrPrefix ?p) [] t5
        = Inr ((), t6)" "vw ns t6 ?C4 ?D4 R"
    using vw_Put [OF t5(2), of "LMark ?h ?c SKndr ?p" "[]"] by (auto simp: succeeds_def)
  have "CribToKinder_tx ns b t = Inr ((), t6)"
    unfolding CribToKinder_tx_def Let_def copy
    using t1(1) t2(1) t3(1) t4(1) t5(1) t6(1) by (simp add: sbind_def del: dpath.simps)
  then show ?thesis using post [OF t6(2)] by (rule succeedsI)
qed

section \<open>Heights and finalized transactions\<close>

lemma repr_GraduateHeight:
  assumes "repr ns t A R"
  shows "succeeds (putLastGraduatedHeight ns h) t (\<lambda>_ t'. repr ns t' (spec_GraduateHeight h A) R)"
proof -
  obtain D where D: "wfA A" "vw ns t (conc A) D R" "tidyH (conc A) D" "tidyC (conc A) D"
    using assms by (rule reprE)
  have C: "conc (spec_GraduateHeight h A) = (conc A)(LGrad \<mapsto> PutUint32 h)"
    by (intro ext, rename_tac l, case_tac l) (auto simp: spec_GraduateHeight_def)
  have "wfA (spec_GraduateHeight h A)" using D(1) by (simp add: wfA_def spec_GraduateHeight_def)
  moreover have "tidyH (conc (spec_GraduateHeight h A)) (insert DRoot D)"
      "tidyC (conc (spec_GraduateHeight h A)) (insert DRoot D)"
    using D(3,4) unfolding C tidyH_def tidyC_def marked_def by auto
  ultimately have post: "repr ns t' (spec_GraduateHeight h A) R"
    if "vw ns t' ((conc A)(LGrad \<mapsto> PutUint32 h)) (insert DRoot D) R" for t'
    using that C unfolding repr_def by auto
  show ?thesis
    unfolding putLastGraduatedHeight_def
    apply (rule succeeds_sbind [OF vw_Create_root [OF D(2)]], clarify)
    apply (rule succeeds_mono [OF vw_Put [where l = LGrad, simplified]])
    using post by (auto simp: MaxValueSize_def)
qed

lemma repr_FinalizeKinder:
  assumes "repr ns t A R" "\<forall>tx. txo = Some tx \<longrightarrow> wf_tx tx \<and> length (Serialize tx) \<le> MaxValueSize"
  shows "succeeds (finalizeKinder ns h txo) t (\<lambda>_ t'. repr ns t' (spec_FinalizeKinder h txo A) R)"
proof -
  obtain D where D: "wfA A" "vw ns t (conc A) D R" "tidyH (conc A) D" "tidyC (conc A) D"
    using assms(1) by (rule reprE)
  let ?C1 = "(conc A)(LFin \<mapsto> PutUint32 h)" and ?D = "insert DRoot D"
  let ?C = "case txo of None \<Rightarrow> ?C1 | Some tx \<Rightarrow> if scheduled A h then ?C1(LTxn h \<mapsto> Serialize tx) else ?C1"
  have C: "conc (spec_FinalizeKinder h txo A) = ?C"
    by (intro ext, rename_tac l, case_tac l) (auto simp: spec_FinalizeKinder_def split: option.split)
  have "wfA (spec_FinalizeKinder h txo A)"
    using D(1) assms(2) by (auto simp: wfA_def spec_FinalizeKinder_def split: option.splits if_splits)
  moreover have "tidyH ?C ?D" "tidyC ?C ?D"
    using D(3,4) unfolding tidyH_def tidyC_def marked_def by (auto split: option.split)
  ultimately have post: "repr ns t' (spec_FinalizeKinder h txo A) R" if "vw ns t' ?C ?D R" for t'
    using that C unfolding repr_def by auto
  obtain t1 where t1: "b_CreateBucketIfNotExists [] (K ns) t = Inr ([K ns], t1)" "vw ns t1 (conc A) ?D R"
    using vw_Create_root [OF D(2)] by (auto simp: succeeds_def)
  obtain t2 where t2: "b_Put [K ns] lastFinalizedHeightKey (PutUint32 h) t1 = Inr ((), t2)" "vw ns t2 ?C1 ?D R"
    using vw_Put [OF t1(2), of LFin "PutUint32 h"] by (auto simp: succeeds_def MaxValueSize_def)
  have hb: "getHeightBucket ns h t2 = (if scheduled A h then Some (K ns # dpath (DHght h)) else None)"
    using vw_getHeightBucket [OF t2(2), of h] D(3) by (simp add: tidyH_def marked_conc_any)
  have run: "finalizeKinder ns h txo t = (case txo of None \<Rightarrow> Inr ((), t2)
    | Some tx \<Rightarrow> if scheduled A h then b_Put (K ns # dpath (DHght h)) finalizedKndrTxnKey (Serialize tx) t2
                 else Inr ((), t2))"
    using t1(1) t2(1) hb by (simp add: finalizeKinder_def sbind_def del: dpath.simps split: option.split)
  show ?thesis
  proof (cases "\<exists>tx. txo = Some tx \<and> scheduled A h")
    case True
    then obtain tx where tx: "txo = Some tx" "scheduled A h" by blast
    have "DHght h \<in> ?D" using tx D(3) by (simp add: tidyH_def marked_conc_any)
    then obtain t3 where "b_Put (K ns # dpath (DHght h)) finalizedKndrTxnKey (Serialize tx) t2 = Inr ((), t3)"
        "vw ns t3 (?C1(LTxn h \<mapsto> Serialize tx)) ?D R"
      using vw_Put [OF t2(2), of "LTxn h" "Serialize tx"] assms(2) tx by (auto simp: succeeds_def)
    then show ?thesis using run tx post [of t3] by (intro succeedsI [of _ _ "()" t3]) simp_all
  next
    case False
    then show ?thesis
      using run t2(2) post [of t2]
      by (intro succeedsI [of _ _ "()" t2]) (auto split: option.splits)
  qed
qed

lemma repr_getFinalizedTxn:
  assumes "repr ns t A R"
  shows "getFinalizedTxn ns h t = Inr (fin A h, t)"
proof -
  obtain D where D: "wfA A" "vw ns t (conc A) D R" using assms by (rule reprE)
  have get: "b_Get (K ns # dpath (DHght h)) finalizedKndrTxnKey t = map_option Serialize (fin A h)"
    using vw_Get [OF D(2), of "LTxn h"] by simp
  have "DHght h \<in> D" if "fin A h = Some tx" for tx
    using vw_dir_of [OF D(2), of "LTxn h"] that by simp
  moreover have "Deserialize (Serialize tx) = Inr (tx, [])" if "fin A h = Some tx" for tx
    using D(1) that Deserialize_Serialize [of tx "[]"] by (simp add: wfA_def)
  ultimately show ?thesis
    using get vw_getHeightBucket [OF D(2), of h]
    by (cases "fin A h") (auto simp: getFinalizedTxn_def simp del: dpath.simps)
qed

end
