(* ===== verification/NurseryClass.thy ===== *)
theory NurseryClass
  imports NurseryRefine
begin

text \<open>
  Enumerating and graduating the class of a height. A class is read in key order: by
  channel, then by outpoint. \<^verbatim>\<open>GraduateKinder\<close> changes the buckets it enumerates; the
  invariant of its two loops is that the database represents the abstract store in which the
  outputs visited so far have graduated.
\<close>

section \<open>Keys in order\<close>

definition ordered :: "OutPoint list \<Rightarrow> bool" where
  "ordered ps \<longleftrightarrow> sorted_wrt (\<lambda>a b. writeOutpoint a < writeOutpoint b) ps"

definition out_less :: "'a kidOutput_scheme \<Rightarrow> 'a kidOutput_scheme \<Rightarrow> bool" where
  "out_less a b \<longleftrightarrow> writeOutpoint (originChanPoint a) < writeOutpoint (originChanPoint b)
     \<or> originChanPoint a = originChanPoint b \<and> writeOutpoint (outpoint a) < writeOutpoint (outpoint b)"

lemma ordered_distinct: "ordered ps \<Longrightarrow> distinct ps"
  by (induction ps) (auto simp: ordered_def)

lemma append_less_append [simp]: "pre @ x < pre @ y \<longleftrightarrow> x < (y :: bytes)"
  by (induction pre) auto

lemma okey_less [simp]: "okey s a < okey s b \<longleftrightarrow> writeOutpoint a < writeOutpoint b"
  by (simp add: prefixOutputKey_def)

lemma keys_as_outpoints:
  assumes "sorted_wrt (<) ks" "set ks \<subseteq> range f" "inj f"
  obtains ps where "ks = map f ps" "sorted_wrt (\<lambda>a b. f a < f b) ps" "set ps = {p. f p \<in> set ks}"
proof -
  obtain ps where ps: "ks = map f ps"
    using assms(2) by (metis (no_types, lifting) ex_map_conv imageE subsetD)
  show ?thesis
    by (rule that [OF ps]) (use assms(1,3) ps in \<open>auto simp: sorted_wrt_map inj_image_mem_iff\<close>)
qed

lemma inj_writeOutpoint: "inj writeOutpoint"
  by (rule injI) simp

lemma inj_okey: "inj (okey s)"
  by (rule injI) simp

lemma sfold_map: "sfold f (map g xs) = sfold (\<lambda>x. f (g x)) xs"
proof (intro ext)
  show "sfold f (map g xs) a s = sfold (\<lambda>x. f (g x)) xs a s" for a s
    by (induction xs arbitrary: a s) (auto split: sum.split)
qed

lemma sfold_fst: "sfold (\<lambda>(k, _). f k) xs = sfold f (map fst xs)"
  by (simp add: sfold_map split_def)

lemma al_sorted_filter: "al_sorted xs \<Longrightarrow> sorted_wrt (<) (map fst (filter P xs))"
  unfolding al_sorted_def by (simp add: sorted_wrt_filter sorted_wrt_map)

lemma vw_channels_at:
  assumes v: "vw ns t C D R"
  obtains cs where "map fst (filter (\<lambda>(k, v). v = None) (b_pairs (K ns # dpath (DHght h)) t))
      = map writeOutpoint cs" "ordered cs" "set cs = {c. DHghtChan h c \<in> D}"
proof -
  let ?ks = "map fst (filter (\<lambda>(k, v). v = None) (b_pairs (K ns # dpath (DHght h)) t))"
  have ks: "k \<in> set ?ks \<longleftrightarrow> (\<exists>c. DHghtChan h c \<in> D \<and> k = writeOutpoint c)" for k
  proof -
    have "k \<in> set ?ks \<longleftrightarrow> (k, None) \<in> set (b_pairs (K ns # dpath (DHght h)) t)" by force
    then show ?thesis
      unfolding vw_pairs_bkt [OF v] by (force elim!: up.elims)
  qed
  have sorted: "sorted_wrt (<) ?ks"
    by (rule al_sorted_filter [OF b_pairs_sorted [OF vw_bwf [OF v]]])
  have "set ?ks \<subseteq> range writeOutpoint" using ks by blast
  from keys_as_outpoints [OF sorted this inj_writeOutpoint] obtain cs where
    cs: "?ks = map writeOutpoint cs" "sorted_wrt (\<lambda>a b. writeOutpoint a < writeOutpoint b) cs"
      "set cs = {p. writeOutpoint p \<in> set ?ks}" .
  have "set cs = {c. DHghtChan h c \<in> D}"
    unfolding cs(3) ks by simp
  with cs(1,2) show ?thesis by (intro that [of cs]) (auto simp: ordered_def)
qed

lemma vw_scan_at:
  assumes v: "vw ns t C D R"
  obtains ps where "map fst (b_scan (K ns # dpath (DHghtChan h c)) (pfx s) (\<lambda>k. HasPrefix k (pfx s)) t)
      = map (okey s) ps" "ordered ps" "set ps = {p. C (LMark h c s p) \<noteq> None}"
proof -
  let ?b = "K ns # dpath (DHghtChan h c)"
  let ?ks = "map fst (filter (\<lambda>(k, v). HasPrefix k (pfx s)) (b_pairs ?b t))"
  have scan: "map fst (b_scan ?b (pfx s) (\<lambda>k. HasPrefix k (pfx s)) t) = ?ks"
    by (simp add: b_scan_prefix [OF vw_bwf [OF v]])
  have bkt: "(k, None) \<notin> set (b_pairs ?b t)" for k
    unfolding vw_pairs_bkt [OF v] by (auto elim: up.elims)
  have val: "(k, Some x) \<in> set (b_pairs ?b t) \<longleftrightarrow> (\<exists>s p. C (LMark h c s p) = Some x \<and> k = okey s p)" for k x
    unfolding vw_pairs_val [OF v] by (auto elim: dir_of.elims intro: exI [of _ "LMark h c s p" for s p])
  have ks: "k \<in> set ?ks \<longleftrightarrow> (\<exists>p. C (LMark h c s p) \<noteq> None \<and> k = okey s p)" for k
  proof
    assume "k \<in> set ?ks"
    then obtain w where "(k, w) \<in> set (b_pairs ?b t)" "HasPrefix k (pfx s)" by auto
    with bkt val show "\<exists>p. C (LMark h c s p) \<noteq> None \<and> k = okey s p"
      by (cases w) (auto simp del: dpath.simps)
  next
    assume "\<exists>p. C (LMark h c s p) \<noteq> None \<and> k = okey s p"
    then obtain p x where "C (LMark h c s p) = Some x" "k = okey s p" by auto
    then have "(k, Some x) \<in> set (b_pairs ?b t)" "HasPrefix k (pfx s)" using val by auto
    then show "k \<in> set ?ks" by (force simp del: dpath.simps)
  qed
  have sorted: "sorted_wrt (<) ?ks"
    by (rule al_sorted_filter [OF b_pairs_sorted [OF vw_bwf [OF v]]])
  have "set ?ks \<subseteq> range (okey s)" using ks by blast
  from keys_as_outpoints [OF sorted this inj_okey] obtain ps where
    ps: "?ks = map (okey s) ps" "sorted_wrt (\<lambda>a b. okey s a < okey s b) ps"
      "set ps = {p. okey s p \<in> set ?ks}" .
  have "set ps = {p. C (LMark h c s p) \<noteq> None}"
    unfolding ps(3) ks by simp
  with ps(1,2) show ?thesis by (intro that [of ps]) (simp_all add: scan ordered_def del: dpath.simps)
qed

section \<open>Reading a class\<close>

lemma repr_stored:
  assumes "outs A (c, p) = Some e" "sched e = Some h"
  shows "conc A (LChan c (stage_of e) p) = Some (enc e)" "conc A (LMark h c (stage_of e) p) \<noteq> None"
  using assms by simp_all

lemma conc_mark_iff:
  "conc A (LMark h c s p) \<noteq> None \<longleftrightarrow> (\<exists>e. outs A (c, p) = Some e \<and> stage_of e = s \<and> sched e = Some h)"
  by (auto split: option.splits)

text \<open>The two loops over a database that is only read.\<close>

lemma read_channel:
  assumes v: "vw ns t (conc A) D R" and "DHghtChan h c \<in> D" "DChan c \<in> D"
    and cb: "\<And>p e acc. outs A (c, p) = Some e \<Longrightarrow> stage_of e = s \<Longrightarrow> sched e = Some h \<Longrightarrow>
      callback (enc e) acc t = Inr (acc @ [f e], t)"
  obtains ps where "ordered ps" "set ps = {p. conc A (LMark h c s p) \<noteq> None}"
    "\<And>acc. forEachHeightChan (pfx s) (K ns # dpath (DHght h)) [K ns, channelIndexKey] callback
       (writeOutpoint c) acc t = Inr (acc @ map (\<lambda>p. f (the (outs A (c, p)))) ps, t)"
proof -
  obtain ps where ps: "map fst (b_scan (K ns # dpath (DHghtChan h c)) (pfx s) (\<lambda>k. HasPrefix k (pfx s)) t)
      = map (okey s) ps" "ordered ps" "set ps = {p. conc A (LMark h c s p) \<noteq> None}"
    using vw_scan_at [OF v, of h c s] by metis
  let ?body = "\<lambda>k acc t. case b_Get (K ns # dpath (DChan c)) k t of
      None \<Rightarrow> Inl (GoErr ''unable to retrieve output'') | Some x \<Rightarrow> callback x acc t"
  have body: "?body (okey s p) acc t = Inr (acc @ [f (the (outs A (c, p)))], t)"
    if p: "p \<in> set ps" for p acc
  proof -
    obtain e where e: "outs A (c, p) = Some e" "stage_of e = s" "sched e = Some h"
      using p unfolding ps(3) conc_mark_iff by auto
    then have "b_Get (K ns # dpath (DChan c)) (okey s p) t = Some (enc e)"
      using vw_Get [OF v, of "LChan c s p"] by simp
    with e cb show ?thesis by simp
  qed
  have "forEachHeightChan (pfx s) (K ns # dpath (DHght h)) [K ns, channelIndexKey] callback
       (writeOutpoint c) acc t = sfold (\<lambda>p. ?body (okey s p)) ps acc t" for acc
    using vw_lookups(4,6) [OF v] assms(2,3) ps(1)
    by (simp add: forEachHeightChan_def sfold_fst sfold_map)
  also have "\<dots> acc = Inr (acc @ map (\<lambda>p. f (the (outs A (c, p)))) ps, t)" for acc
    using body by (simp add: sfold_pure fold_append_map)
  finally show ?thesis using ps(2,3) that by blast
qed

fun pair_less :: "OutPoint \<times> OutPoint \<Rightarrow> OutPoint \<times> OutPoint \<Rightarrow> bool" where
  "pair_less (c, p) (c', p') \<longleftrightarrow>
     writeOutpoint c < writeOutpoint c' \<or> c = c' \<and> writeOutpoint p < writeOutpoint p'"

lemma sorted_pairs:
  assumes "ordered cs" "\<And>c. c \<in> set cs \<Longrightarrow> ordered (PS c)"
  shows "sorted_wrt pair_less (concat (map (\<lambda>c. map (Pair c) (PS c)) cs))"
  using assms
  by (induction cs) (auto simp: sorted_wrt_append sorted_wrt_map ordered_def)

lemma repr_dirs:
  assumes "vw ns t (conc A) D R" "tidyH (conc A) D" "tidyC (conc A) D" "DHghtChan h c \<in> D"
  shows "DChan c \<in> D" "DChanIx \<in> D"
proof -
  have "has_channel A c" using assms(2,4) by (auto simp: tidyH_def marked_conc has_channel_def)
  then show "DChan c \<in> D" using assms(3) unfolding tidyC_def chan_conc by simp
  then show "DChanIx \<in> D" using vw_path_in(1) [OF assms(1)] by simp
qed

lemma read_class:
  assumes r: "repr ns t A R"
    and cb: "\<And>cp e acc. outs A cp = Some e \<Longrightarrow> stage_of e = s \<Longrightarrow> sched e = Some h \<Longrightarrow>
      callback (enc e) acc t = Inr (acc @ [f e], t)"
  obtains cps where "sorted_wrt pair_less cps"
    "set cps = {cp. \<exists>e. outs A cp = Some e \<and> stage_of e = s \<and> sched e = Some h}"
    "forEachHeightPrefix ns (pfx s) h callback [] t = Inr (map (\<lambda>cp. f (the (outs A cp))) cps, t)"
proof -
  obtain D where D: "wfA A" "vw ns t (conc A) D R" "tidyH (conc A) D" "tidyC (conc A) D"
    using r by (rule reprE)
  let ?S = "{cp. \<exists>e. outs A cp = Some e \<and> stage_of e = s \<and> sched e = Some h}"
  show ?thesis
  proof (cases "DHght h \<in> D")
    case False
    then have "\<not> scheduled A h" using D(3) by (simp add: tidyH_def marked_conc_any)
    then have "?S = {}" by (auto simp: scheduled_def)
    moreover have "forEachHeightPrefix ns (pfx s) h callback [] t = Inr ([], t)"
      using False vw_getHeightBucketPath [OF D(2), of h] by (simp add: forEachHeightPrefix_def)
    ultimately show ?thesis by (intro that [of "[]"]) simp_all
  next
    case True
    obtain cs where cs: "map fst (filter (\<lambda>(k, v). v = None) (b_pairs (K ns # dpath (DHght h)) t))
        = map writeOutpoint cs" "ordered cs" "set cs = {c. DHghtChan h c \<in> D}"
      using vw_channels_at [OF D(2), of h] by metis
    let ?run = "\<lambda>c. forEachHeightChan (pfx s) (K ns # dpath (DHght h)) [K ns, channelIndexKey] callback
       (writeOutpoint c)"
    have "\<exists>ps. ordered ps \<and> set ps = {p. conc A (LMark h c s p) \<noteq> None}
        \<and> (\<forall>acc. ?run c acc t = Inr (acc @ map (\<lambda>p. f (the (outs A (c, p)))) ps, t))"
      if "c \<in> set cs" for c
    proof -
      have hc: "DHghtChan h c \<in> D" using that cs(3) by simp
      show ?thesis
        by (rule read_channel [where callback = callback and f = f and s = s,
              OF D(2) hc repr_dirs(1) [OF D(2-4) hc] cb]) (assumption+, blast)
    qed
    then obtain PS where PS: "\<And>c. c \<in> set cs \<Longrightarrow> ordered (PS c)"
        "\<And>c. c \<in> set cs \<Longrightarrow> set (PS c) = {p. conc A (LMark h c s p) \<noteq> None}"
        "\<And>c acc. c \<in> set cs \<Longrightarrow> ?run c acc t = Inr (acc @ map (\<lambda>p. f (the (outs A (c, p)))) (PS c), t)"
      by metis
    have mark: "DHghtChan h c \<in> D" if "conc A (LMark h c s p) \<noteq> None" for c p
      using that D(3) unfolding tidyH_def marked_def by blast
    have "DChanIx \<in> D"
      using True D(2-4) repr_dirs(2) unfolding tidyH_def by blast
    then have "forEachHeightPrefix ns (pfx s) h callback [] t
        = sfold (forEachHeightChan (pfx s) (K ns # dpath (DHght h)) [K ns, channelIndexKey] callback)
            (map writeOutpoint cs) [] t"
      using True vw_getHeightBucketPath [OF D(2), of h] vw_lookups(2) [OF D(2)] vw_path_in(4) [OF D(2), of h] cs(1)
      by (simp add: forEachHeightPrefix_def)
    also have "\<dots> = sfold ?run cs [] t" by (simp add: sfold_map)
    also have "\<dots> = Inr (concat (map (\<lambda>c. map (\<lambda>p. f (the (outs A (c, p)))) (PS c)) cs), t)"
      using PS(3) by (simp add: sfold_pure fold_append_concat)
    also have "concat (map (\<lambda>c. map (\<lambda>p. f (the (outs A (c, p)))) (PS c)) cs)
        = map (\<lambda>cp. f (the (outs A cp))) (concat (map (\<lambda>c. map (Pair c) (PS c)) cs))"
      by (simp add: map_concat o_def)
    finally show ?thesis
    proof (rule that [rotated 2])
      show "sorted_wrt pair_less (concat (map (\<lambda>c. map (Pair c) (PS c)) cs))"
        using cs(2) PS(1) by (rule sorted_pairs)
      show "set (concat (map (\<lambda>c. map (Pair c) (PS c)) cs)) = ?S"
        using cs(3) PS(2) mark unfolding conc_mark_iff by fastforce
    qed
  qed
qed

text \<open>What \<^verbatim>\<open>FetchClass\<close> returns: the class of the height, in key order, and its sweep.\<close>

lemma collect_run: "decode_bytes dec buf = Inr x \<Longrightarrow> collect dec buf acc t = Inr (acc @ [x], t)"
  by (simp add: collect_def sbind_def slift_def sret_def)

lemma wfA_stored:
  "wfA A \<Longrightarrow> outs A cp = Some e \<Longrightarrow>
     valid_entry e \<and> length (enc e) \<le> MaxValueSize \<and> key_of (kid_part e) = cp"
  unfolding wfA_def storable_def by blast

lemma out_less_by_key:
  "pair_less (key_of a) (key_of b) \<longleftrightarrow> out_less a b"
  by (simp add: key_of_def out_less_def)

lemma FetchClass_repr:
  assumes r: "repr ns t A R"
  obtains kids babies where "FetchClass ns h t = Inr (fin A h, kids, babies)"
    "sorted_wrt out_less kids" "set kids = {k. outs A (key_of k) = Some (Kndr h k)}"
    "sorted_wrt out_less babies" "set babies = {b. outs A (key_of b) = Some (Crib b) \<and> expiry b = h}"
proof -
  have wf: "wfA A" using r by (rule reprE)
  note valid = wfA_stored [OF wf]
  define the_baby where "the_baby e = (case e of Crib b \<Rightarrow> b | _ \<Rightarrow> undefined)" for e
  obtain cps where cps: "sorted_wrt pair_less cps"
      "set cps = {cp. \<exists>e. outs A cp = Some e \<and> stage_of e = SCrib \<and> sched e = Some h}"
      "forEachHeightPrefix ns cribPrefix h (collect baby_Decode) [] t
        = Inr (map (\<lambda>cp. the_baby (the (outs A cp))) cps, t)"
  proof (rule read_class [OF r, where s = SCrib and h = h and callback = "collect baby_Decode" and f = the_baby])
    fix cp e acc assume "outs A cp = Some e" "stage_of e = SCrib" "sched e = Some h"
    with valid [of cp e] show "collect baby_Decode (enc e) acc t = Inr (acc @ [the_baby e], t)"
      by (cases e) (auto simp: the_baby_def intro!: collect_run baby_codec.decode_bytes_enc)
  qed simp
  obtain kps where kps: "sorted_wrt pair_less kps"
      "set kps = {cp. \<exists>e. outs A cp = Some e \<and> stage_of e = SKndr \<and> sched e = Some h}"
      "forEachHeightPrefix ns kndrPrefix h (collect kid_Decode) [] t
        = Inr (map (\<lambda>cp. kid_part (the (outs A cp))) kps, t)"
  proof (rule read_class [OF r, where s = SKndr and h = h and callback = "collect kid_Decode" and f = kid_part])
    fix cp e acc assume "outs A cp = Some e" "stage_of e = SKndr" "sched e = Some h"
    with valid [of cp e] show "collect kid_Decode (enc e) acc t = Inr (acc @ [kid_part e], t)"
      by (cases e) (auto intro!: collect_run kid_codec.decode_bytes_enc)
  qed simp
  let ?babies = "map (\<lambda>cp. the_baby (the (outs A cp))) cps"
  let ?kids = "map (\<lambda>cp. kid_part (the (outs A cp))) kps"
  have b: "\<exists>b. outs A cp = Some (Crib b) \<and> expiry b = h \<and> key_of b = cp" if "cp \<in> set cps" for cp
    using that cps(2) valid [of cp] by (auto elim: stage_of.elims)
  have k: "\<exists>k. outs A cp = Some (Kndr h k) \<and> key_of k = cp" if "cp \<in> set kps" for cp
    using that kps(2) valid [of cp] by (auto elim: stage_of.elims)
  show ?thesis
  proof (rule that)
    show "FetchClass ns h t = Inr (fin A h, ?kids, ?babies)"
      using cps(3) kps(3) repr_getFinalizedTxn [OF r, of h]
      by (simp add: FetchClass_def db_View_def sbind_def sret_def)
    have "sorted_wrt (\<lambda>x y. out_less (kid_part (the (outs A x))) (kid_part (the (outs A y)))) kps"
      using kps(1) by (rule sorted_wrt_mono_rel [rotated]) (auto dest!: k simp: out_less_by_key [symmetric])
    then show "sorted_wrt out_less ?kids" by (simp add: sorted_wrt_map)
    have "sorted_wrt (\<lambda>x y. out_less (the_baby (the (outs A x))) (the_baby (the (outs A y)))) cps"
      using cps(1) by (rule sorted_wrt_mono_rel [rotated])
        (auto dest!: b simp: the_baby_def out_less_by_key [symmetric])
    then show "sorted_wrt out_less ?babies" by (simp add: sorted_wrt_map)
    show "set ?kids = {k. outs A (key_of k) = Some (Kndr h k)}"
      using kps(2) by (force dest: k simp: image_iff)
    show "set ?babies = {b. outs A (key_of b) = Some (Crib b) \<and> expiry b = h}"
      using cps(2) by (force dest: b simp: image_iff the_baby_def)
  qed
qed

section \<open>Graduating a class\<close>

lemma drop_out_no_txn: "fin A h = None \<Longrightarrow> drop_out cp h A = A\<lparr>outs := (outs A)(cp := None)\<rparr>"
  by (simp add: drop_out_def Let_def fun_upd_idem)

lemma repr_graduateOutput:
  assumes r: "repr ns t A R" and kid: "outs A (c, p) = Some (Kndr h k)" and fin: "fin A h = None"
  shows "succeeds (graduateOutput ns h (kid_Encode k)) t (\<lambda>_ t'. repr ns t' (put_out (c, p) (Grad k) A) R)"
proof -
  obtain D where D: "wfA A" "vw ns t (conc A) D R" "tidyH (conc A) D" "tidyC (conc A) D"
    using r by (rule reprE)
  have k: "originChanPoint k = c" "outpoint k = p" "valid_kid k" "length (kid_Encode k) \<le> MaxValueSize"
    using wfA_stored [OF D(1) kid] by (auto simp: key_of_def)
  have A': "put_out (c, p) (Grad k) A = put_out (c, p) (Grad k) (drop_out (c, p) h A)"
    using fin by (simp add: drop_out_no_txn put_out_def)
  let ?C1 = "unmark h c SKndr p (conc A)" and ?D1 = "undir ((conc A)(LMark h c SKndr p := None)) h c D"
  let ?C2 = "?C1(LChan c SKndr p := None)"
  let ?C3 = "?C2(LChan c SGrad p \<mapsto> kid_Encode k)"
  have C3: "conc (put_out (c, p) (Grad k) A) = ?C3"
    unfolding A' using conc_put_out_unsched [of "drop_out (c, p) h A" c p "Grad k"]
      conc_drop_out [OF kid, of h] by simp
  have here: "DChan c \<in> D"
  proof -
    have "has_channel A c" using kid by (auto simp: has_channel_def)
    then show ?thesis using D(4) unfolding tidyC_def chan_conc by simp
  qed
  have "tidyH ?C3 ?D1" by (intro tidyH_chan tidyH_unmark D(3))
  moreover have "tidyC ?C3 ?D1" by (intro tidyC_move tidyC_unmark D(4)) (simp add: here)
  moreover have "wfA (put_out (c, p) (Grad k) A)"
    using D(1) k by (intro wfA_put_out) (auto simp: storable_def key_of_def)
  ultimately have post: "repr ns t' (put_out (c, p) (Grad k) A) R" if "vw ns t' ?C3 ?D1 R" for t'
    using that C3 unfolding repr_def by auto
  obtain t1 where t1: "removeOutputFromHeight ns h c (prefixOutputKey kndrPrefix p) t = Inr ((), t1)"
      "vw ns t1 ?C1 ?D1 R"
    using vw_removeOutputFromHeight [OF D(2,3), of h c SKndr p] by (auto simp: succeeds_def)
  have cb: "getChannelBucket ns c t1 = Some (K ns # dpath (DChan c))"
    using vw_getChannelBucket [OF t1(2), of c] here by simp
  obtain t2 where t2: "b_Delete (K ns # dpath (DChan c)) (prefixOutputKey kndrPrefix p) t1 = Inr ((), t2)"
      "vw ns t2 ?C2 ?D1 R"
    using vw_Delete [OF t1(2), of "LChan c SKndr p"] here by (auto simp: succeeds_def)
  obtain t3 where t3: "b_Put (K ns # dpath (DChan c)) (prefixOutputKey gradPrefix p) (kid_Encode k) t2
        = Inr ((), t3)" "vw ns t3 ?C3 ?D1 R"
    using vw_Put [OF t2(2), of "LChan c SGrad p" "kid_Encode k"] here k by (auto simp: succeeds_def)
  have copy: "go_copy (prefixOutputKey kndrPrefix p) gradPrefix = prefixOutputKey gradPrefix p"
    using okey_copy [of SKndr p SGrad] by simp
  have "decode_bytes kid_Decode (kid_Encode k) = Inr k"
    using k(3) by (rule kid_codec.decode_bytes_enc)
  then have "graduateOutput ns h (kid_Encode k) t = Inr ((), t3)"
    using t1(1) cb t2(1) t3(1) k copy
    by (simp add: graduateOutput_def Let_def sbind_def slift_def sread_def del: dpath.simps)
  then show ?thesis using post [OF t3(2)] by (rule succeedsI)
qed

text \<open>The store after the outputs of \<open>S\<close> have graduated.\<close>

definition part :: "u32 \<Rightarrow> (OutPoint \<times> OutPoint) set \<Rightarrow> nursery \<Rightarrow> nursery" where
  "part h S A = A\<lparr>outs := (\<lambda>cp. if cp \<in> S then map_option (graduate h) (outs A cp) else outs A cp)\<rparr>"

lemma part_empty [simp]: "part h {} A = A"
  by (simp add: part_def)

lemma part_insert:
  "outs A cp = Some (Kndr h k) \<Longrightarrow> put_out cp (Grad k) (part h S A) = part h (insert cp S) A"
  by (auto simp: part_def put_out_def fun_eq_iff)

lemma graduate_other: "\<not> (\<exists>k. e = Kndr h k) \<Longrightarrow> graduate h e = e"
  by (cases e) auto

lemma part_cong:
  assumes "\<And>cp k. outs A cp = Some (Kndr h k) \<Longrightarrow> cp \<in> S \<longleftrightarrow> cp \<in> S'"
  shows "part h S A = part h S' A"
proof -
  have "(if cp \<in> S then map_option (graduate h) (outs A cp) else outs A cp)
      = (if cp \<in> S' then map_option (graduate h) (outs A cp) else outs A cp)" for cp
  proof (cases "\<exists>k. outs A cp = Some (Kndr h k)")
    case True
    with assms have "cp \<in> S \<longleftrightarrow> cp \<in> S'" by blast
    then show ?thesis by simp
  next
    case False
    then have "map_option (graduate h) (outs A cp) = outs A cp"
      using graduate_other [of _ h] by (cases "outs A cp") auto
    then show ?thesis by simp
  qed
  then show ?thesis by (simp add: part_def)
qed

lemma graduate_channel:
  assumes r: "repr ns t (part h S A) R" and fin: "fin A h = None"
    and c: "\<exists>p e. outs A (c, p) = Some e \<and> sched e = Some h" "\<And>p. (c, p) \<notin> S"
  shows "succeeds (forEachHeightChan kndrPrefix (K ns # dpath (DHght h)) [K ns, channelIndexKey]
             (\<lambda>v _. graduateOutput ns h v) (writeOutpoint c) ()) t
           (\<lambda>_ t'. repr ns t' (part h (S \<union> {cp. fst cp = c}) A) R)"
proof -
  let ?A = "part h S A"
  have same: "outs ?A (c, p) = outs A (c, p)" for p using c(2) by (simp add: part_def)
  obtain D where D: "vw ns t (conc ?A) D R" "tidyH (conc ?A) D" "tidyC (conc ?A) D"
    using r by (rule reprE)
  have hc: "DHghtChan h c \<in> D" using D(2) c(1) by (auto simp: tidyH_def marked_conc same)
  note dc = repr_dirs(1) [OF D hc]
  obtain ps where ps: "map fst (b_scan (K ns # dpath (DHghtChan h c)) kndrPrefix (\<lambda>k. HasPrefix k kndrPrefix) t)
      = map (okey SKndr) ps" "ordered ps" "set ps = {p. conc ?A (LMark h c SKndr p) \<noteq> None}"
    using vw_scan_at [OF D(1), of h c SKndr] by (metis pfx.simps(3))
  have kids: "\<exists>k. outs A (c, p) = Some (Kndr h k)" if "p \<in> set ps" for p
    using that unfolding ps(3) conc_mark_iff same by (auto elim: stage_of.elims)
  have others: "p \<in> set ps" if "outs A (c, p) = Some (Kndr h k)" for p k
    using that unfolding ps(3) conc_mark_iff same by simp
  let ?body = "\<lambda>p (_ :: unit) t. case b_Get (K ns # dpath (DChan c)) (okey SKndr p) t of
      None \<Rightarrow> Inl (GoErr ''unable to retrieve output'') | Some x \<Rightarrow> graduateOutput ns h x t"
  let ?I = "\<lambda>qs (_ :: unit) t. \<exists>done. ps = done @ qs \<and> repr ns t (part h (S \<union> Pair c ` set done) A) R"
  have "succeeds (sfold ?body ps ()) t (\<lambda>a t'. ?I [] a t')"
  proof (rule succeeds_sfold [where I = ?I])
    show "?I ps () t" using r by simp
  next
    fix p qs a u assume "?I (p # qs) a u"
    then obtain ds where ds: "ps = ds @ p # qs" "repr ns u (part h (S \<union> Pair c ` set ds) A) R" by blast
    let ?B = "part h (S \<union> Pair c ` set ds) A"
    have "p \<notin> set ds" using ordered_distinct [OF ps(2)] ds(1) by simp
    moreover obtain k where k: "outs A (c, p) = Some (Kndr h k)" using kids [of p] ds(1) by auto
    ultimately have B: "outs ?B (c, p) = Some (Kndr h k)" using c(2) by (auto simp: part_def)
    obtain D' where D': "vw ns u (conc ?B) D' R" using ds(2) by (rule reprE)
    have get: "b_Get (K ns # dpath (DChan c)) (okey SKndr p) u = Some (kid_Encode k)"
      using vw_Get [OF D', of "LChan c SKndr p"] B by simp
    have "fin ?B h = None" using fin by (simp add: part_def)
    from repr_graduateOutput [OF ds(2) B this]
    have "succeeds (graduateOutput ns h (kid_Encode k)) u
        (\<lambda>_ t'. repr ns t' (part h (insert (c, p) (S \<union> Pair c ` set ds)) A) R)"
      by (simp add: part_insert [OF k])
    moreover have "insert (c, p) (S \<union> Pair c ` set ds) = S \<union> Pair c ` set (ds @ [p])" by auto
    ultimately have "succeeds (graduateOutput ns h (kid_Encode k)) u
        (\<lambda>_ t'. repr ns t' (part h (S \<union> Pair c ` set (ds @ [p])) A) R)"
      by (simp only:)
    then have "succeeds (?body p a) u (\<lambda>_ t'. repr ns t' (part h (S \<union> Pair c ` set (ds @ [p])) A) R)"
      unfolding succeeds_def using get by (simp del: dpath.simps set_append)
    then show "succeeds (?body p a) u (\<lambda>a' t'. ?I qs a' t')"
      by (rule succeeds_mono) (intro exI [of _ "ds @ [p]"] conjI, simp add: ds(1))
  qed
  moreover have "forEachHeightChan kndrPrefix (K ns # dpath (DHght h)) [K ns, channelIndexKey]
             (\<lambda>v _. graduateOutput ns h v) (writeOutpoint c) () t = sfold ?body ps () t"
    using vw_lookups(4,6) [OF D(1)] hc dc ps(1)
    by (simp add: forEachHeightChan_def sfold_fst sfold_map)
  moreover have "part h (S \<union> Pair c ` set ps) A = part h (S \<union> {cp. fst cp = c}) A"
    using kids others by (intro part_cong) auto
  ultimately show ?thesis unfolding succeeds_def by auto
qed

lemma graduate_class:
  assumes r: "repr ns t A R" and fin: "fin A h = None"
  shows "succeeds (forEachHeightPrefix ns kndrPrefix h (\<lambda>v _. graduateOutput ns h v) ()) t
           (\<lambda>_ t'. repr ns t' (part h UNIV A) R)"
proof -
  obtain D where D: "vw ns t (conc A) D R" "tidyH (conc A) D" "tidyC (conc A) D"
    using r by (rule reprE)
  show ?thesis
  proof (cases "DHght h \<in> D")
    case False
    then have "\<not> scheduled A h" using D(2) by (simp add: tidyH_def marked_conc_any)
    then have "part h UNIV A = part h {} A" by (intro part_cong) (force simp: scheduled_def)
    then show ?thesis
      using False r vw_getHeightBucketPath [OF D(1), of h]
      by (intro succeedsI [of _ _ "()" t]) (simp_all add: forEachHeightPrefix_def)
  next
    case True
    obtain cs where cs: "map fst (filter (\<lambda>(k, v). v = None) (b_pairs (K ns # dpath (DHght h)) t))
        = map writeOutpoint cs" "ordered cs" "set cs = {c. DHghtChan h c \<in> D}"
      using vw_channels_at [OF D(1), of h] by metis
    let ?run = "\<lambda>c. forEachHeightChan kndrPrefix (K ns # dpath (DHght h)) [K ns, channelIndexKey]
       (\<lambda>v _. graduateOutput ns h v) (writeOutpoint c)"
    let ?I = "\<lambda>qs (_ :: unit) t. \<exists>done. cs = done @ qs \<and> repr ns t (part h {cp. fst cp \<in> set done} A) R"
    have "succeeds (sfold ?run cs ()) t (\<lambda>a t'. ?I [] a t')"
    proof (rule succeeds_sfold [where I = ?I])
      show "?I cs () t" using r by simp
    next
      fix c qs a u assume "?I (c # qs) a u"
      then obtain ds where ds: "cs = ds @ c # qs" "repr ns u (part h {cp. fst cp \<in> set ds} A) R" by blast
      have new: "c \<notin> set ds" using ordered_distinct [OF cs(2)] ds(1) by simp
      have "marked (conc A) h c" using D(2) cs(3) ds(1) unfolding tidyH_def by auto
      then have "succeeds (?run c a) u (\<lambda>_ t'. repr ns t' (part h ({cp. fst cp \<in> set ds} \<union> {cp. fst cp = c}) A) R)"
        using new graduate_channel [OF ds(2) fin, of c] by (simp add: marked_conc)
      moreover have eq: "{cp. fst cp \<in> set ds} \<union> {cp. fst cp = c} = {cp. fst cp \<in> set (ds @ [c])}" by auto
      ultimately have "succeeds (?run c a) u (\<lambda>_ t'. repr ns t' (part h {cp. fst cp \<in> set (ds @ [c])} A) R)"
        unfolding eq by blast
      then show "succeeds (?run c a) u (\<lambda>a' t'. ?I qs a' t')"
        by (rule succeeds_mono) (intro exI [of _ "ds @ [c]"] conjI, simp add: ds(1))
    qed
    moreover have "DChanIx \<in> D" using True D repr_dirs(2) unfolding tidyH_def by blast
    then have "forEachHeightPrefix ns kndrPrefix h (\<lambda>v _. graduateOutput ns h v) () t
        = sfold (forEachHeightChan kndrPrefix (K ns # dpath (DHght h)) [K ns, channelIndexKey]
            (\<lambda>v _. graduateOutput ns h v)) (map writeOutpoint cs) () t"
      using True vw_getHeightBucketPath [OF D(1), of h] vw_lookups(2) [OF D(1)] vw_path_in(4) [OF D(1), of h] cs(1)
      by (simp add: forEachHeightPrefix_def)
    then have "forEachHeightPrefix ns kndrPrefix h (\<lambda>v _. graduateOutput ns h v) () t = sfold ?run cs () t"
      by (simp add: sfold_map)
    moreover have "part h {cp. fst cp \<in> set cs} A = part h UNIV A"
    proof (rule part_cong)
      fix cp k assume "outs A cp = Some (Kndr h k)"
      then have "marked (conc A) h (fst cp)" by (cases cp) (force simp: marked_conc)
      then show "cp \<in> {cp. fst cp \<in> set cs} \<longleftrightarrow> cp \<in> UNIV"
        using D(2) cs(3) unfolding tidyH_def by simp
    qed
    ultimately show ?thesis unfolding succeeds_def by auto
  qed
qed

lemma repr_clear_txn:
  assumes r: "repr ns t A R" and h: "scheduled A h"
  shows "succeeds (b_Delete (K ns # dpath (DHght h)) finalizedKndrTxnKey) t
           (\<lambda>_ t'. repr ns t' (A\<lparr>fin := (fin A)(h := None)\<rparr>) R)"
proof -
  obtain D where D: "wfA A" "vw ns t (conc A) D R" "tidyH (conc A) D" "tidyC (conc A) D"
    using r by (rule reprE)
  let ?A = "A\<lparr>fin := (fin A)(h := None)\<rparr>"
  have C: "conc ?A = (conc A)(LTxn h := None)"
    by (intro ext, rename_tac l, case_tac l) auto
  have "tidyH (conc ?A) D" "tidyC (conc ?A) D"
    using D(3,4) unfolding C tidyH_def tidyC_def marked_def by simp_all
  moreover have "wfA ?A" using D(1) by (simp add: wfA_def)
  ultimately have post: "repr ns t' ?A R" if "vw ns t' ((conc A)(LTxn h := None)) D R" for t'
    using that C unfolding repr_def by auto
  have "DHght h \<in> D" using D(3) h by (simp add: tidyH_def marked_conc_any)
  from succeeds_mono [OF vw_Delete [OF D(2), of "LTxn h"]] post this show ?thesis by simp
qed

lemma repr_GraduateKinder:
  assumes r: "repr ns t A R"
  shows "succeeds (GraduateKinder_tx ns h) t (\<lambda>_ t'. repr ns t' (spec_GraduateKinder h A) R)"
proof -
  obtain D where D: "wfA A" "vw ns t (conc A) D R" "tidyH (conc A) D" "tidyC (conc A) D"
    using r by (rule reprE)
  have spec: "spec_GraduateKinder h A = part h UNIV (A\<lparr>fin := (fin A)(h := None)\<rparr>)"
    by (simp add: spec_GraduateKinder_def part_def)
  show ?thesis
  proof (cases "scheduled A h")
    case False
    then have "DHght h \<notin> D" using D(3) by (simp add: tidyH_def marked_conc_any)
    moreover have "fin A h = None" using vw_dir_of [OF D(2), of "LTxn h"] \<open>DHght h \<notin> D\<close>
      by (cases "fin A h") auto
    moreover have "part h UNIV A = part h {} A"
      using False by (intro part_cong) (force simp: scheduled_def)
    ultimately show ?thesis
      using r vw_getHeightBucket [OF D(2), of h] spec
      by (simp add: GraduateKinder_tx_def fun_upd_idem)
  next
    case True
    then have "getHeightBucket ns h t = Some (K ns # dpath (DHght h))"
      using D(3) vw_getHeightBucket [OF D(2), of h] by (simp add: tidyH_def marked_conc_any)
    then show ?thesis
      unfolding GraduateKinder_tx_def spec
      apply (simp del: dpath.simps)
      apply (rule succeeds_sbind [OF repr_clear_txn [OF r True]])
      by (simp, rule graduate_class) auto
  qed
qed

end
