(* ===== verification/NurseryQueries.thy ===== *)
theory NurseryQueries
  imports NurseryClass
begin

text \<open>
  The remaining methods of the store: enumerating heights, channels and preschool outputs,
  and removing a channel once all of its outputs have graduated.
\<close>

section \<open>Channels\<close>

lemma vw_chan_pairs:
  assumes v: "vw ns t C D R"
  shows "(k, w) \<in> set (b_pairs (K ns # dpath (DChan c)) t)
     \<longleftrightarrow> (\<exists>s p x. k = okey s p \<and> w = Some x \<and> C (LChan c s p) = Some x)"
proof (cases w)
  case None
  have "up d' \<noteq> DChan c" for d' by (cases d') simp_all
  with None show ?thesis using vw_pairs_bkt [OF v, of k "DChan c"] by (simp del: dpath.simps)
next
  case (Some x)
  have "(\<exists>l. dir_of l = DChan c \<and> lkey l = k \<and> C l = Some x)
      \<longleftrightarrow> (\<exists>s p. k = okey s p \<and> C (LChan c s p) = Some x)"
    by (auto elim: dir_of.elims intro: exI [of _ "LChan c s p" for s p])
  with Some show ?thesis using vw_pairs_val [OF v, of k x "DChan c"] by auto
qed

lemma repr_chan_pairs:
  assumes "vw ns t (conc A) D R"
  shows "x \<in> set (b_pairs (K ns # dpath (DChan c)) t)
     \<longleftrightarrow> (\<exists>p e. outs A (c, p) = Some e \<and> x = (okey (stage_of e) p, Some (enc e)))"
  using vw_chan_pairs [OF assms, of "fst x" "snd x" c]
  by (cases x) (fastforce split: option.splits if_splits)

lemma chan_in:
  assumes "tidyC (conc A) D"
  shows "DChan c \<in> D \<longleftrightarrow> has_channel A c"
  using assms unfolding tidyC_def chan_conc by simp

lemma HasPrefix_grad [simp]: "HasPrefix (okey s p) gradPrefix \<longleftrightarrow> s = SGrad"
    "HasPrefix (prefixOutputKey gradPrefix p) gradPrefix"
  using okey_HasPrefix [of s p SGrad] okey_HasPrefix [of SGrad p SGrad] by simp_all

lemma IsMatureChannel_repr:
  assumes r: "repr ns t A R"
  shows "IsMatureChannel ns c t = (if has_channel A c then Inr (mature A c) else Inl ErrContractNotFound)"
proof -
  obtain D where D: "vw ns t (conc A) D R" "tidyC (conc A) D" using r by (rule reprE)
  let ?b = "K ns # dpath (DChan c)"
  have "b_ForEach ?b (\<lambda>pfxKey _ _. if HasPrefix pfxKey gradPrefix then sret () else sfail ErrImmatureChannel) () t
      = (if \<forall>x \<in> set (b_pairs ?b t). HasPrefix (fst x) gradPrefix then Inr ((), t) else Inl ErrImmatureChannel)"
    unfolding b_ForEach_def
    by (rule sfold_check) (auto simp: sret_def sfail_def split: prod.split)
  moreover have "(\<forall>x \<in> set (b_pairs ?b t). HasPrefix (fst x) gradPrefix) \<longleftrightarrow> mature A c"
    unfolding mature_def Ball_def repr_chan_pairs [OF D(1)] by fastforce
  ultimately show ?thesis
    using vw_getChannelBucket [OF D(1), of c] chan_in [OF D(2), of c]
    by (auto simp: IsMatureChannel_def db_View_def forChanOutputs_def simp del: dpath.simps)
qed

lemma vw_removeBucketIfExists_chan:
  assumes v: "vw ns t C D R"
  shows "succeeds (removeBucketIfExists (K ns # dpath (DHght h)) (writeOutpoint c)) t
           (\<lambda>_ t'. (\<exists>C' D'. vw ns t' C' D' R) \<and> (DHghtChan h c \<notin> D \<longrightarrow> t' = t))"
proof (cases "DHghtChan h c \<in> D")
  case True
  then have "b_Bucket (K ns # dpath (DHght h)) (writeOutpoint c) t = Some (K ns # dpath (DHghtChan h c))"
    using vw_lookups(6) [OF v, of h c] by simp
  then have "removeBucketIfExists (K ns # dpath (DHght h)) (writeOutpoint c) t
      = b_DeleteBucket (K ns # dpath (up (DHghtChan h c))) (dkey (DHghtChan h c)) t"
    by (simp add: removeBucketIfExists_def)
  with vw_DeleteBucket [OF v, of "DHghtChan h c"] True show ?thesis
    unfolding succeeds_def by auto
next
  case False
  then show ?thesis
    using v vw_lookups(6) [OF v, of h c]
    by (intro succeedsI [of _ _ "()" t]) (auto simp: removeBucketIfExists_def)
qed

text \<open>The loop of \<^verbatim>\<open>RemoveChannel\<close> stops at the first output that has not graduated.\<close>

lemma sfold_stops:
  assumes "J s" "\<exists>x \<in> set xs. \<not> P x"
    and "\<And>x s. x \<in> set xs \<Longrightarrow> J s \<Longrightarrow> P x \<Longrightarrow> \<exists>s'. f x () s = Inr ((), s') \<and> J s'"
    and "\<And>x s. x \<in> set xs \<Longrightarrow> J s \<Longrightarrow> \<not> P x \<Longrightarrow> f x () s = Inl e"
  shows "sfold f xs () s = Inl e"
  using assms
proof (induction xs arbitrary: s)
  case (Cons x xs)
  show ?case
  proof (cases "P x")
    case True
    with Cons.prems(1,3) obtain s' where "f x () s = Inr ((), s')" "J s'" by auto
    with Cons.IH [of s'] Cons.prems True show ?thesis by simp
  next
    case False
    with Cons.prems(1,4) show ?thesis by simp
  qed
qed simp

definition removeStep :: "nurseryStore \<Rightarrow> OutPoint \<Rightarrow> bytes \<times> bytes option \<Rightarrow> unit \<Rightarrow> unit tx" where
  "removeStep ns chanPoint = (\<lambda>(k, v) _ t.
     if \<not> HasPrefix k gradPrefix then Inl ErrImmatureChannel
     else (case decode_bytes kid_Decode (case v of None \<Rightarrow> [] | Some b \<Rightarrow> b) of
             Inl e \<Rightarrow> Inl e
           | Inr kid \<Rightarrow>
               (case getHeightBucket ns (confHeight kid + blocksToMaturity kid) t of
                  None \<Rightarrow> Inr ((), t)
                | Some hghtBucket \<Rightarrow>
                    removeBucketIfExists hghtBucket (writeOutpoint chanPoint) t)))"

lemma removeStep_grad:
  assumes "vw ns u C D R" "outs A (c, p) = Some e" "stage_of e = SGrad" "wfA A"
  shows "\<exists>u'. removeStep ns c (okey (stage_of e) p, Some (enc e)) () u = Inr ((), u')
     \<and> (\<exists>C' D'. vw ns u' C' D' R) \<and> ((\<forall>h. DHghtChan h c \<notin> D) \<longrightarrow> u' = u)"
proof -
  let ?h = "confHeight (kid_part e) + blocksToMaturity (kid_part e)"
  have dec: "decode_bytes kid_Decode (enc e) = Inr (kid_part e)"
    using wfA_stored [OF assms(4,2)] assms(3)
    by (cases e) (auto intro!: kid_codec.decode_bytes_enc)
  obtain u' where "removeBucketIfExists (K ns # dpath (DHght ?h)) (writeOutpoint c) u = Inr ((), u')"
      "\<exists>C' D'. vw ns u' C' D' R" "DHghtChan ?h c \<notin> D \<longrightarrow> u' = u"
    using vw_removeBucketIfExists_chan [OF assms(1), of ?h c] by (auto simp: succeeds_def)
  then show ?thesis
    using dec assms(1,3) vw_getHeightBucket [OF assms(1), of ?h]
    by (cases "DHght ?h \<in> D") (auto simp: removeStep_def simp del: dpath.simps)
qed

lemma RemoveChannel_cases:
  assumes r: "repr ns t A R"
  shows "has_channel A c \<Longrightarrow> \<not> mature A c \<Longrightarrow> RemoveChannel ns c t = (Inl ErrImmatureChannel, t)"
    and "has_channel A c \<Longrightarrow> mature A c \<Longrightarrow>
      \<exists>t'. RemoveChannel ns c t = (Inr (), t') \<and> repr ns t' (spec_RemoveChannel c A) R"
    and "\<not> has_channel A c \<Longrightarrow> RemoveChannel ns c t \<in> {(Inr (), t), (Inl ErrContractNotFound, t)}"
proof -
  obtain D where D: "wfA A" "vw ns t (conc A) D R" "tidyH (conc A) D" "tidyC (conc A) D"
    using r by (rule reprE)
  note pairs = repr_chan_pairs [OF D(2), of _ c]
  have loop: "RemoveChannel_tx ns c t
      = (case sfold (removeStep ns c) (b_pairs (K ns # dpath (DChan c)) t) () t of
           Inl e \<Rightarrow> Inl e | Inr (_, t) \<Rightarrow> removeBucketIfExists [K ns, channelIndexKey] (writeOutpoint c) t)"
    if "DChan c \<in> D"
    using that vw_lookups(1,2) [OF D(2)] vw_path_in(1) [OF D(2) that] vw_getChannelBucket [OF D(2), of c]
    by (simp add: RemoveChannel_tx_def forChanOutputs_def b_ForEach_def sbind_def removeStep_def
        case_prod_beta del: dpath.simps)
  {
    assume c: "has_channel A c" "\<not> mature A c"
    have "sfold (removeStep ns c) (b_pairs (K ns # dpath (DChan c)) t) () t = Inl ErrImmatureChannel"
    proof (rule sfold_stops [where J = "\<lambda>u. \<exists>C D. vw ns u C D R" and P = "\<lambda>x. HasPrefix (fst x) gradPrefix"])
      show "\<exists>C D. vw ns t C D R" using D(2) by blast
      show "\<exists>x \<in> set (b_pairs (K ns # dpath (DChan c)) t). \<not> HasPrefix (fst x) gradPrefix"
        using c(2) unfolding mature_def Bex_def pairs by fastforce
    next
      fix x u assume x: "x \<in> set (b_pairs (K ns # dpath (DChan c)) t)" "\<exists>C D. vw ns u C D R"
      then obtain p e C' D' where e: "outs A (c, p) = Some e" "x = (okey (stage_of e) p, Some (enc e))"
          "vw ns u C' D' R"
        unfolding pairs by blast
      show "\<not> HasPrefix (fst x) gradPrefix \<Longrightarrow> removeStep ns c x () u = Inl ErrImmatureChannel"
        by (cases x) (simp add: removeStep_def)
      show "HasPrefix (fst x) gradPrefix \<Longrightarrow> \<exists>s'. removeStep ns c x () u = Inr ((), s') \<and> (\<exists>C D. vw ns s' C D R)"
        using removeStep_grad [OF e(3,1) _ D(1)] e(2) by auto
    qed
    with loop chan_in [OF D(4), of c] c show "RemoveChannel ns c t = (Inl ErrImmatureChannel, t)"
      by (simp add: RemoveChannel_def db_Update_def)
  }
  {
    assume c: "has_channel A c" "mature A c"
    have unsched: "sched e = None" if "outs A (c, p) = Some e" for p e
    proof -
      have "stage_of e = SGrad" using c(2) that unfolding mature_def by blast
      then show ?thesis by (cases e) simp_all
    qed
    have none: "DHghtChan h c \<notin> D" for h
      using D(3) unsched unfolding tidyH_def marked_conc by auto
    have "removeStep ns c x () t = Inr ((), t)" if x: "x \<in> set (b_pairs (K ns # dpath (DChan c)) t)" for x
    proof -
      obtain p e where e: "outs A (c, p) = Some e" "x = (okey (stage_of e) p, Some (enc e))"
        using x unfolding pairs by blast
      moreover have "stage_of e = SGrad" using c(2) e(1) by (simp add: mature_def)
      ultimately show ?thesis using removeStep_grad [OF D(2) e(1) _ D(1)] none by auto
    qed
    then have "sfold (removeStep ns c) (b_pairs (K ns # dpath (DChan c)) t) () t = Inr ((), t)"
      using sfold_check [where P = "\<lambda>_. True" and f = "removeStep ns c"] by simp
    moreover have dc: "DChan c \<in> D" using chan_in [OF D(4), of c] c by simp
    moreover have "removeBucketIfExists [K ns, channelIndexKey] (writeOutpoint c) t
        = b_DeleteBucket (K ns # dpath (up (DChan c))) (dkey (DChan c)) t"
      using vw_lookups(4) [OF D(2), of c] dc by (simp add: removeBucketIfExists_def)
    ultimately have run: "RemoveChannel_tx ns c t = b_DeleteBucket (K ns # dpath (up (DChan c))) (dkey (DChan c)) t"
      using loop by simp
    let ?A = "spec_RemoveChannel c A" and ?D = "{d' \<in> D. \<not> prefix (dpath (DChan c)) (dpath d')}"
    have C: "conc ?A = (\<lambda>l. if prefix (dpath (DChan c)) (lpath l) then None else conc A l)"
      by (rule ext, rename_tac l, case_tac l)
        (auto simp: prefix_DChan spec_RemoveChannel_def unsched simp del: dpath.simps split: option.split)
    have "marked (conc ?A) = marked (conc A)"
      by (auto simp: fun_eq_iff marked_conc spec_RemoveChannel_def unsched)
    then have "tidyH (conc ?A) ?D"
      using D(3) unfolding tidyH_def prefix_DChan by simp
    moreover have "has_channel ?A c' \<longleftrightarrow> has_channel A c' \<and> c' \<noteq> c" for c'
      by (auto simp: has_channel_def spec_RemoveChannel_def)
    then have "tidyC (conc ?A) ?D"
      using D(4) unfolding tidyC_def chan_conc prefix_DChan by auto
    moreover have "wfA ?A" using D(1) by (auto simp: wfA_def spec_RemoveChannel_def)
    ultimately show "\<exists>t'. RemoveChannel ns c t = (Inr (), t') \<and> repr ns t' ?A R"
      using vw_DeleteBucket [OF D(2), of "DChan c"] dc run C
      unfolding repr_def succeeds_def RemoveChannel_def db_Update_def by auto
  }
  assume "\<not> has_channel A c"
  then have "DChan c \<notin> D" using chan_in [OF D(4), of c] by simp
  then show "RemoveChannel ns c t \<in> {(Inr (), t), (Inl ErrContractNotFound, t)}"
    using vw_lookups(1,2) [OF D(2)] vw_getChannelBucket [OF D(2), of c]
    by (simp add: RemoveChannel_def db_Update_def RemoveChannel_tx_def forChanOutputs_def sbind_def)
qed

section \<open>Heights, channels, preschool outputs\<close>

lemma replicate_zero_le: "replicate n (0 :: byte) \<le> bs" if "length bs = n"
  using that
proof (induction bs arbitrary: n)
  case (Cons b bs)
  then show ?case by (cases n) (auto simp: word_gt_0)
qed simp

lemma sorted_heights:
  "sorted_wrt (\<lambda>a b. PutUint32 a < PutUint32 b) hs \<longleftrightarrow> sorted_wrt (<) hs"
  by (simp add: PutUint32_less)

lemma HeightsBelowOrEqual_repr:
  assumes r: "repr ns t A R"
  obtains hs where "HeightsBelowOrEqual ns h t = Inr hs" "sorted_wrt (<) hs"
    "set hs = {h'. h' \<le> h \<and> scheduled A h'}"
proof -
  obtain D where D: "vw ns t (conc A) D R" "tidyH (conc A) D" using r by (rule reprE)
  have sch: "DHght h' \<in> D \<longleftrightarrow> scheduled A h'" for h' using D(2) by (simp add: tidyH_def marked_conc_any)
  show ?thesis
  proof (cases "DHghtIx \<in> D")
    case False
    then have "\<not> scheduled A h'" for h' using sch vw_path_in(4) [OF D(1)] by blast
    moreover have "HeightsBelowOrEqual ns h t = Inr []"
      using False vw_lookups(1,3) [OF D(1)] by (simp add: HeightsBelowOrEqual_def db_View_def)
    ultimately show ?thesis by (intro that [of "[]"]) auto
  next
    case True
    let ?b = "K ns # dpath DHghtIx" and ?P = "\<lambda>k. k \<le> PutUint32 h \<and> length k = 4"
    let ?ps = "b_pairs ?b t" and ?lo = "replicate 4 (0 :: byte)"
    have keys: "\<exists>h'. k = PutUint32 h'" if "(k, w) \<in> set ?ps" for k w
    proof (cases w)
      case None
      then show ?thesis using that vw_pairs_bkt [OF D(1), of k DHghtIx]
        by (auto elim: up.elims simp del: dpath.simps)
    next
      case (Some x)
      have "dir_of l \<noteq> DHghtIx" for l by (cases l) simp_all
      then show ?thesis using that Some vw_pairs_val [OF D(1), of k x DHghtIx] by (simp del: dpath.simps)
    qed
    have key_iff: "PutUint32 h' \<in> fst ` set ?ps \<longleftrightarrow> scheduled A h'" for h'
    proof
      assume "PutUint32 h' \<in> fst ` set ?ps"
      then obtain w where w: "(PutUint32 h', w) \<in> set ?ps" by force
      have "dir_of l \<noteq> DHghtIx" for l by (cases l) simp_all
      with w have "w = None" using vw_pairs_val [OF D(1), of _ _ DHghtIx] by (cases w) (auto simp del: dpath.simps)
      with w obtain d' where "d' \<in> D" "up d' = DHghtIx" "dkey d' = PutUint32 h'"
        using vw_pairs_bkt [OF D(1), of "PutUint32 h'" DHghtIx] by (auto simp del: dpath.simps)
      then show "scheduled A h'" using sch by (cases d') auto
    next
      assume "scheduled A h'"
      then have "(PutUint32 h', None) \<in> set ?ps"
        unfolding vw_pairs_bkt [OF D(1)] using sch [of h'] by (intro bexI [of _ "DHght h'"]) simp_all
      then show "PutUint32 h' \<in> fst ` set ?ps" by force
    qed
    have sorted: "al_sorted ?ps" by (rule b_pairs_sorted [OF vw_bwf [OF D(1)]])
    have lo: "\<not> k < ?lo" if "(k, w) \<in> set ?ps" for k w
      using keys [OF that] replicate_zero_le [of k 4] by (auto simp: not_less)
    have "dropWhile (\<lambda>(k, v). k < ?lo) ?ps = ?ps"
      using lo by (cases ?ps) (auto simp del: dpath.simps)
    moreover have "takeWhile (\<lambda>(k, v). ?P k) ?ps = filter (\<lambda>(k, v). ?P k) ?ps"
      by (rule takeWhile_filter [OF sorted, where Q = "\<lambda>k. length k = 4"])
        (use keys in \<open>force simp del: dpath.simps\<close>)+
    ultimately have scan: "b_scan ?b ?lo ?P t = filter (\<lambda>(k, v). ?P k) ?ps"
      by (simp add: b_scan_def)
    let ?ks = "map fst (filter (\<lambda>(k, v). ?P k) ?ps)"
    have "set ?ks \<subseteq> range PutUint32" using keys by (force simp del: dpath.simps)
    moreover have "inj PutUint32" by (rule injI) simp
    ultimately obtain hs where hs: "?ks = map PutUint32 hs" "sorted_wrt (\<lambda>a b. PutUint32 a < PutUint32 b) hs"
        "set hs = {h'. PutUint32 h' \<in> set ?ks}"
      by (rule keys_as_outpoints [OF al_sorted_filter [OF sorted]])
    have "map (\<lambda>(k, _). Uint32 k) (b_scan ?b ?lo ?P t) = map Uint32 ?ks"
      unfolding scan by (simp add: case_prod_beta)
    also have "\<dots> = hs" unfolding hs(1) by (simp add: codec_simps o_def)
    finally have "HeightsBelowOrEqual ns h t = Inr hs"
      using True vw_lookups(1,3) [OF D(1)] vw_path_in(3) [OF D(1)]
      by (simp add: HeightsBelowOrEqual_def db_View_def)
    moreover have "PutUint32 h' \<in> set ?ks \<longleftrightarrow> h' \<le> h \<and> scheduled A h'" for h'
      using key_iff [of h'] by (force simp: PutUint32_le simp del: dpath.simps)
    ultimately show ?thesis
      using hs(2,3) by (intro that [of hs]) (auto simp: sorted_heights)
  qed
qed

lemma vw_channels:
  assumes v: "vw ns t (conc A) D R" and tidy: "tidyC (conc A) D"
  obtains cs where "map fst (b_pairs [K ns, channelIndexKey] t) = map writeOutpoint cs" "ordered cs"
    "set cs = {c. has_channel A c}"
proof -
  let ?ps = "b_pairs (K ns # dpath DChanIx) t"
  have ks: "k \<in> set (map fst ?ps) \<longleftrightarrow> (\<exists>c. has_channel A c \<and> k = writeOutpoint c)" for k
  proof
    assume "k \<in> set (map fst ?ps)"
    then obtain w where w: "(k, w) \<in> set ?ps" by auto
    have "dir_of l \<noteq> DChanIx" for l by (cases l) simp_all
    with w have "w = None" using vw_pairs_val [OF v, of _ _ DChanIx] by (cases w) (auto simp del: dpath.simps)
    with w obtain d' where "d' \<in> D" "up d' = DChanIx" "dkey d' = k"
      using vw_pairs_bkt [OF v, of k DChanIx] by (auto simp del: dpath.simps)
    then show "\<exists>c. has_channel A c \<and> k = writeOutpoint c" using chan_in [OF tidy] by (cases d') auto
  next
    assume "\<exists>c. has_channel A c \<and> k = writeOutpoint c"
    then obtain c where "DChan c \<in> D" "k = writeOutpoint c" using chan_in [OF tidy] by auto
    then have "(k, None) \<in> set ?ps"
      unfolding vw_pairs_bkt [OF v] by (intro bexI [of _ "DChan c"]) simp_all
    then show "k \<in> set (map fst ?ps)" by force
  qed
  have "sorted_wrt (<) (map fst ?ps)"
    using b_pairs_sorted [OF vw_bwf [OF v]] unfolding al_sorted_def by blast
  moreover have "set (map fst ?ps) \<subseteq> range writeOutpoint" using ks by blast
  ultimately obtain cs where cs: "map fst ?ps = map writeOutpoint cs"
      "sorted_wrt (\<lambda>a b. writeOutpoint a < writeOutpoint b) cs"
      "set cs = {c. writeOutpoint c \<in> set (map fst ?ps)}"
    by (rule keys_as_outpoints [OF _ _ inj_writeOutpoint])
  have "set cs = {c. has_channel A c}" unfolding cs(3) ks by simp
  with cs(1,2) show ?thesis by (intro that [of cs]) (simp_all add: ordered_def)
qed

lemma ListChannels_repr:
  assumes r: "repr ns t A R"
  obtains cs where "ListChannels ns t = Inr cs" "ordered cs" "set cs = {c. has_channel A c}"
proof -
  obtain D where D: "vw ns t (conc A) D R" "tidyC (conc A) D" using r by (rule reprE)
  show ?thesis
  proof (cases "DChanIx \<in> D")
    case False
    then have "\<not> has_channel A c" for c using chan_in [OF D(2)] vw_path_in(1) [OF D(1)] by blast
    moreover have "ListChannels ns t = Inr []"
      using False vw_lookups(1,2) [OF D(1)] by (simp add: ListChannels_def db_View_def)
    ultimately show ?thesis by (intro that [of "[]"]) (auto simp: ordered_def)
  next
    case True
    obtain cs where cs: "map fst (b_pairs [K ns, channelIndexKey] t) = map writeOutpoint cs" "ordered cs"
        "set cs = {c. has_channel A c}"
      using vw_channels [OF D] by blast
    have "b_ForEach [K ns, channelIndexKey] (\<lambda>chanBytes _. collect readOutpoint chanBytes) [] t
        = sfold (\<lambda>k. collect readOutpoint k) (map fst (b_pairs [K ns, channelIndexKey] t)) [] t"
      unfolding b_ForEach_def by (simp only: sfold_fst)
    also have "\<dots> = sfold (\<lambda>c. collect readOutpoint (writeOutpoint c)) cs [] t"
      by (simp only: cs(1) sfold_map)
    also have "\<dots> = Inr (cs, t)"
      by (simp add: sfold_pure [where g = "\<lambda>c a. a @ [c]"] fold_append_map [where g = "\<lambda>c. c"]
          collect_run outpoint_codec.decode_bytes_enc)
    finally have "ListChannels ns t = Inr cs"
      using True vw_lookups(1,2) [OF D(1)] vw_path_in(2) [OF D(1)]
      by (simp add: ListChannels_def db_View_def)
    with cs show ?thesis by (intro that [of cs])
  qed
qed

lemma pairs_by_key:
  assumes "map fst xs = map f ps" "\<And>x p. x \<in> set xs \<Longrightarrow> fst x = f p \<Longrightarrow> snd x = F p"
  shows "xs = map (\<lambda>p. (f p, F p)) ps"
  using assms
proof (induction xs arbitrary: ps)
  case (Cons x xs)
  then obtain q qs where "ps = q # qs" "fst x = f q" "map fst xs = map f qs" by (cases ps) auto
  moreover have "xs = map (\<lambda>p. (f p, F p)) qs"
    using Cons.IH [of qs] Cons.prems(2) \<open>map fst xs = map f qs\<close> by simp
  moreover have "snd x = F q" using Cons.prems(2) [of x q] \<open>fst x = f q\<close> by simp
  ultimately show ?case by (cases x) simp
qed simp

lemma preschool_scan:
  assumes v: "vw ns t (conc A) D R" and wf: "wfA A"
  obtains ps where "ordered ps" "set ps = {p. \<exists>k. outs A (c, p) = Some (Pscl k)}"
    "\<And>acc. sfold (\<lambda>(k, v). collect kid_Decode (case v of None \<Rightarrow> [] | Some b \<Rightarrow> b))
        (b_scan (K ns # dpath (DChan c)) psclPrefix (\<lambda>k. HasPrefix k psclPrefix) t) acc t
      = Inr (acc @ map (\<lambda>p. kid_part (the (outs A (c, p)))) ps, t)"
proof -
  let ?b = "K ns # dpath (DChan c)"
  let ?xs = "filter (\<lambda>(k, v). HasPrefix k psclPrefix) (b_pairs ?b t)"
  have scan: "b_scan ?b psclPrefix (\<lambda>k. HasPrefix k psclPrefix) t = ?xs"
    by (rule b_scan_prefix [OF vw_bwf [OF v]])
  have pscl: "HasPrefix (okey s p) psclPrefix \<longleftrightarrow> s = SPscl" for s p
    using okey_HasPrefix [of s p SPscl] by simp
  have xs: "x \<in> set ?xs \<longleftrightarrow> (\<exists>p k. outs A (c, p) = Some (Pscl k) \<and> x = (okey SPscl p, Some (kid_Encode k)))" for x
  proof -
    have "x \<in> set ?xs \<longleftrightarrow> (\<exists>p e. outs A (c, p) = Some e \<and> x = (okey (stage_of e) p, Some (enc e)) \<and> stage_of e = SPscl)"
      using repr_chan_pairs [OF v, of x c] pscl
      by (cases x) (auto simp: prefixOutputKey_def simp del: dpath.simps)
    moreover have "stage_of e = SPscl \<longleftrightarrow> (\<exists>k. e = Pscl k)" for e by (cases e) simp_all
    ultimately show ?thesis by (auto simp del: dpath.simps pfx.simps)
  qed
  have "sorted_wrt (<) (map fst ?xs)" by (rule al_sorted_filter [OF b_pairs_sorted [OF vw_bwf [OF v]]])
  moreover have "set (map fst ?xs) \<subseteq> range (okey SPscl)"
  proof
    fix k assume "k \<in> set (map fst ?xs)"
    then obtain x where "x \<in> set ?xs" "k = fst x" unfolding set_map by blast
    then show "k \<in> range (okey SPscl)" unfolding xs by (elim exE conjE) simp
  qed
  ultimately obtain ps where ps: "map fst ?xs = map (okey SPscl) ps"
      "sorted_wrt (\<lambda>a b. okey SPscl a < okey SPscl b) ps" "set ps = {p. okey SPscl p \<in> set (map fst ?xs)}"
    by (rule keys_as_outpoints [OF _ _ inj_okey])
  have set: "set ps = {p. \<exists>k. outs A (c, p) = Some (Pscl k)}"
  proof -
    have "okey SPscl p \<in> set (map fst ?xs) \<longleftrightarrow> (\<exists>k. outs A (c, p) = Some (Pscl k))" for p
    proof -
      have "okey SPscl p \<in> set (map fst ?xs) \<longleftrightarrow> (\<exists>w. (okey SPscl p, w) \<in> set ?xs)" by force
      then show ?thesis unfolding xs by simp
    qed
    then show ?thesis unfolding ps(3) by simp
  qed
  have list: "?xs = map (\<lambda>p. (okey SPscl p, Some (enc (the (outs A (c, p)))))) ps"
  proof (rule pairs_by_key [OF ps(1)])
    fix x p assume "x \<in> set ?xs" "fst x = okey SPscl p"
    then show "snd x = Some (enc (the (outs A (c, p))))" unfolding xs by fastforce
  qed
  have "collect kid_Decode (enc (the (outs A (c, p)))) acc t = Inr (acc @ [kid_part (the (outs A (c, p)))], t)"
    if "p \<in> set ps" for p acc
    using that set wfA_stored [OF wf, of "(c, p)"]
    by (auto intro!: collect_run kid_codec.decode_bytes_enc)
  then have "sfold (\<lambda>(k, v). collect kid_Decode (case v of None \<Rightarrow> [] | Some b \<Rightarrow> b))
        (b_scan ?b psclPrefix (\<lambda>k. HasPrefix k psclPrefix) t) acc t
      = Inr (acc @ map (\<lambda>p. kid_part (the (outs A (c, p)))) ps, t)" for acc
    unfolding scan list sfold_map prod.case option.case
    by (simp add: sfold_pure fold_append_map)
  moreover have "ordered ps" using ps(2) by (simp add: ordered_def prefixOutputKey_def)
  ultimately show ?thesis using set by (intro that [of ps])
qed

lemma FetchPreschools_repr:
  assumes r: "repr ns t A R"
  obtains kids where "FetchPreschools ns t = Inr kids" "sorted_wrt out_less kids"
    "set kids = {k. outs A (key_of k) = Some (Pscl k)}"
proof -
  obtain D where D: "wfA A" "vw ns t (conc A) D R" "tidyC (conc A) D" using r by (rule reprE)
  show ?thesis
  proof (cases "DChanIx \<in> D")
    case False
    then have "\<not> has_channel A c" for c using chan_in [OF D(3)] vw_path_in(1) [OF D(2)] by blast
    then have "outs A cp = None" for cp by (cases cp) (auto simp: has_channel_def)
    moreover have "FetchPreschools ns t = Inr []"
      using False vw_lookups(1,2) [OF D(2)]
      by (simp add: FetchPreschools_def FetchPreschools_tx_def db_View_def)
    ultimately show ?thesis by (intro that [of "[]"]) auto
  next
    case True
    obtain cs where cs: "map fst (b_pairs [K ns, channelIndexKey] t) = map writeOutpoint cs" "ordered cs"
        "set cs = {c. has_channel A c}"
      using vw_channels [OF D(2,3)] by blast
    let ?scan = "\<lambda>c. sfold (\<lambda>(k, v). collect kid_Decode (case v of None \<Rightarrow> [] | Some b \<Rightarrow> b))
        (b_scan (K ns # dpath (DChan c)) psclPrefix (\<lambda>k. HasPrefix k psclPrefix) t)"
    have "\<exists>ps. ordered ps \<and> set ps = {p. \<exists>k. outs A (c, p) = Some (Pscl k)}
        \<and> (\<forall>acc. ?scan c acc t = Inr (acc @ map (\<lambda>p. kid_part (the (outs A (c, p)))) ps, t))" for c
      by (rule preschool_scan [OF D(2,1), of c]) blast
    then have "\<exists>PS. \<forall>c. ordered (PS c) \<and> set (PS c) = {p. \<exists>k. outs A (c, p) = Some (Pscl k)}
        \<and> (\<forall>acc. ?scan c acc t = Inr (acc @ map (\<lambda>p. kid_part (the (outs A (c, p)))) (PS c), t))"
      by (intro choice allI)
    then obtain PS where PS: "\<And>c. ordered (PS c)" "\<And>c. set (PS c) = {p. \<exists>k. outs A (c, p) = Some (Pscl k)}"
        "\<And>c acc. ?scan c acc t = Inr (acc @ map (\<lambda>p. kid_part (the (outs A (c, p)))) (PS c), t)"
      by blast
    let ?cps = "concat (map (\<lambda>c. map (Pair c) (PS c)) cs)"
    let ?kids = "map (\<lambda>cp. kid_part (the (outs A cp))) ?cps"
    have "b_ForEach [K ns, channelIndexKey] (\<lambda>chanBytes _ acc. sret (acc @ [chanBytes])) [] t
        = sfold (\<lambda>k acc. sret (acc @ [k])) (map fst (b_pairs [K ns, channelIndexKey] t)) [] t"
      unfolding b_ForEach_def by (simp only: sfold_fst)
    also have "\<dots> = Inr (map writeOutpoint cs, t)"
      unfolding cs(1) by (simp add: sfold_pure [where g = "\<lambda>c a. a @ [c]"] sret_def
          fold_append_map [where g = "\<lambda>c. c"])
    finally have active: "b_ForEach [K ns, channelIndexKey] (\<lambda>chanBytes _ acc. sret (acc @ [chanBytes])) [] t
        = Inr (map writeOutpoint cs, t)" .
    let ?step = "\<lambda>chanBytes acc t. case b_Bucket [K ns, channelIndexKey] chanBytes t of None \<Rightarrow> Inr (acc, t)
      | Some chanBucket \<Rightarrow> sfold (\<lambda>(k, v). collect kid_Decode (case v of None \<Rightarrow> [] | Some b \<Rightarrow> b))
          (b_scan chanBucket psclPrefix (\<lambda>k. HasPrefix k psclPrefix) t) acc t"
    have "?step (writeOutpoint c) acc t = Inr (acc @ map (\<lambda>p. kid_part (the (outs A (c, p)))) (PS c), t)"
      if "c \<in> set cs" for c acc
      using that cs(3) chan_in [OF D(3), of c] vw_lookups(4) [OF D(2), of c] PS(3) [of c] by simp
    then have "sfold ?step (map writeOutpoint cs) [] t
        = Inr (concat (map (\<lambda>c. map (\<lambda>p. kid_part (the (outs A (c, p)))) (PS c)) cs), t)"
      by (simp add: sfold_map sfold_pure fold_append_concat)
    also have "concat (map (\<lambda>c. map (\<lambda>p. kid_part (the (outs A (c, p)))) (PS c)) cs) = ?kids"
      by (simp add: map_concat o_def)
    finally have "FetchPreschools ns t = Inr ?kids"
      using True vw_lookups(1,2) [OF D(2)] vw_path_in(2) [OF D(2)] active
      by (simp add: FetchPreschools_def FetchPreschools_tx_def db_View_def sbind_def)
    moreover have k: "\<exists>k. outs A cp = Some (Pscl k) \<and> key_of k = cp" if cp: "cp \<in> set ?cps" for cp
    proof -
      obtain k where "outs A cp = Some (Pscl k)" using cp PS(2) by auto
      then show ?thesis using wfA_stored [OF D(1)] by fastforce
    qed
    moreover have "sorted_wrt out_less ?kids"
    proof -
      have "sorted_wrt pair_less ?cps" using cs(2) PS(1) by (rule sorted_pairs)
      then have "sorted_wrt (\<lambda>x y. out_less (kid_part (the (outs A x))) (kid_part (the (outs A y)))) ?cps"
        by (rule sorted_wrt_mono_rel [rotated]) (auto dest!: k simp del: set_concat simp: out_less_by_key [symmetric])
      then show ?thesis by (simp only: sorted_wrt_map)
    qed
    moreover have cps: "set ?cps = {cp. \<exists>k. outs A cp = Some (Pscl k)}"
      using cs(3) PS(2) by (auto simp: has_channel_def)
    have "set ?kids = {k. outs A (key_of k) = Some (Pscl k)}"
      unfolding set_map cps using wfA_stored [OF D(1)] by force
    ultimately show ?thesis by (intro that [of ?kids])
  qed
qed

end
