(* ===== verification/NurserySteps.thy ===== *)
theory NurserySteps
  imports NurseryQueries
begin

text \<open>
  The store over time. \<open>nstep ns t t'\<close> is one call of a method that changes the store, with
  what the nursery guarantees of its arguments as guards; \<open>nreach\<close> closes it. Every
  database so reached is consistent (it represents an abstract store), no output is ever
  lost or moved back on the way, and the stores of other chains are left alone.
\<close>

section \<open>Fresh stores\<close>

definition fresh :: "nurseryStore \<Rightarrow> db \<Rightarrow> bool" where
  "fresh ns t \<longleftrightarrow> bwf t \<and> is_bkt t [] \<and> pfxChainKey ns \<noteq> [] \<and> lk t [pfxChainKey ns] = None"

lemma repr_fresh:
  assumes "fresh ns t"
  shows "repr ns t empty_nursery (rest ns t)"
proof -
  have none: "val_at t (K ns # q) = None" "\<not> is_bkt t (K ns # q)" for q
  proof -
    have "\<not> is_bkt t [K ns]" "val_at t [K ns] = None"
      using assms by (simp_all add: fresh_def lk_cases)
    then show "val_at t (K ns # q) = None" "\<not> is_bkt t (K ns # q)"
      using nothing_below [of t "[K ns]"] by (cases q; simp)+
  qed
  have "typed ns t" using assms none by (simp add: typed_def fresh_def)
  moreover have "cells ns t = conc empty_nursery"
    by (rule ext, rename_tac l, case_tac l) (auto simp: cells_def none empty_nursery_def)
  moreover have "dirs ns t = {}" by (simp add: dirs_def none)
  ultimately have "vw ns t (conc empty_nursery) {} (rest ns t)" by (simp add: vw_def)
  moreover have "tidyH (conc empty_nursery) {}" "tidyC (conc empty_nursery) {}"
    by (auto simp: tidyH_def tidyC_def marked_def empty_nursery_def)
  moreover have "wfA empty_nursery" by (simp add: wfA_def empty_nursery_def)
  ultimately show ?thesis unfolding repr_def by blast
qed

lemma K_newNurseryStore: "pfxChainKey (newNurseryStore h) = utxnChainPrefix @ hash_bytes h"
  by (simp add: newNurseryStore_def prefixChainKey_def)

lemma K_distinct: "pfxChainKey (newNurseryStore h) = pfxChainKey (newNurseryStore h') \<longleftrightarrow> h = h'"
  by (simp add: K_newNurseryStore)

lemma fresh_empty: "fresh (newNurseryStore h) empty_db"
  by (simp add: fresh_def al_sorted_def K_newNurseryStore utxnChainPrefix_def ascii_def)

section \<open>Looking an output up\<close>

definition stored :: "nurseryStore \<Rightarrow> db \<Rightarrow> OutPoint \<times> OutPoint \<Rightarrow> stage \<Rightarrow> bytes option" where
  "stored ns t cp s = (case getChannelBucket ns (fst cp) t of None \<Rightarrow> None
     | Some b \<Rightarrow> b_Get b (prefixOutputKey (pfx s) (snd cp)) t)"

lemma stored_repr:
  assumes "repr ns t A R"
  shows "stored ns t cp s = (case outs A cp of None \<Rightarrow> None
           | Some e \<Rightarrow> if stage_of e = s then Some (enc e) else None)"
proof -
  obtain D where D: "vw ns t (conc A) D R" "tidyC (conc A) D" using assms by (rule reprE)
  obtain c p where cp: "cp = (c, p)" by (cases cp)
  show ?thesis
  proof (cases "DChan c \<in> D")
    case True
    then show ?thesis
      using vw_getChannelBucket [OF D(1), of c] vw_Get [OF D(1), of "LChan c s p"]
      by (simp add: stored_def cp)
  next
    case False
    then have "outs A (c, p) = None" using chan_in [OF D(2), of c] by (auto simp: has_channel_def)
    with False show ?thesis using vw_getChannelBucket [OF D(1), of c] by (simp add: stored_def cp)
  qed
qed

section \<open>Steps\<close>

definition enterable :: "nurseryStore \<Rightarrow> db \<Rightarrow> kidOutput list \<Rightarrow> babyOutput list \<Rightarrow> bool" where
  "enterable ns t kids babies \<longleftrightarrow>
     (\<forall>k \<in> set kids. storable (Pscl k) \<and> (\<forall>s. s \<noteq> SPscl \<longrightarrow> stored ns t (key_of k) s = None))
     \<and> (\<forall>b \<in> set babies. storable (Crib b) \<and> (\<forall>s. s \<noteq> SCrib \<longrightarrow> stored ns t (key_of b) s = None))
     \<and> key_of ` set kids \<inter> key_of ` set babies = {}"

definition writable_tx :: "MsgTx option \<Rightarrow> bool" where
  "writable_tx txo \<longleftrightarrow>
     (case txo of None \<Rightarrow> True | Some tx \<Rightarrow> wf_tx tx \<and> length (Serialize tx) \<le> MaxValueSize)"

inductive nstep :: "nurseryStore \<Rightarrow> db \<Rightarrow> db \<Rightarrow> bool" for ns where
  incubate: "enterable ns t kids babies \<Longrightarrow> nstep ns t (snd (Incubate ns kids babies t))"
| crib: "stored ns t (key_of b) SCrib = Some (baby_Encode (b0 :: babyOutput)) \<Longrightarrow> valid_baby b0 \<Longrightarrow>
     expiry b0 = expiry b \<Longrightarrow> storable (Crib b) \<Longrightarrow> nstep ns t (snd (CribToKinder ns b t))"
| preschool: "stored ns t (key_of k) SPscl \<noteq> None \<Longrightarrow> storable (Pscl k) \<Longrightarrow>
     nstep ns t (snd (PreschoolToKinder ns k t))"
| graduate: "nstep ns t (snd (GraduateKinder ns h t))"
| finalize: "writable_tx txo \<Longrightarrow> nstep ns t (snd (FinalizeKinder ns h txo t))"
| height: "nstep ns t (snd (GraduateHeight ns h t))"
| remove: "nstep ns t (snd (RemoveChannel ns c t))"

inductive nreach :: "nurseryStore \<Rightarrow> db \<Rightarrow> db \<Rightarrow> bool" for ns where
  start: "nreach ns t t"
| step: "nreach ns t u \<Longrightarrow> nstep ns u v \<Longrightarrow> nreach ns t v"

lemma db_Update_succeeds:
  assumes "succeeds f t (\<lambda>_ t'. Q t')"
  shows "\<exists>t'. db_Update f t = (Inr (), t') \<and> Q t'"
  using assms by (auto simp: succeeds_def db_Update_def)

lemma enterable_incubatable:
  assumes r: "repr ns t A R" and e: "enterable ns t kids babies"
  shows "incubatable kids babies A"
proof -
  have only: "stage_of e = s0" if "outs A cp = Some e" "\<forall>s. s \<noteq> s0 \<longrightarrow> stored ns t cp s = None" for cp e s0
  proof (rule ccontr)
    assume "stage_of e \<noteq> s0"
    with that(2) have "stored ns t cp (stage_of e) = None" by blast
    with that(1) show False by (simp add: stored_repr [OF r])
  qed
  have "\<forall>e. outs A (key_of k) = Some e \<longrightarrow> stage_of e = SPscl" if "k \<in> set kids" for k
    using e that only [of "key_of k" _ SPscl] unfolding enterable_def by auto
  moreover have "\<forall>e. outs A (key_of b) = Some e \<longrightarrow> stage_of e = SCrib" if "b \<in> set babies" for b
    using e that only [of "key_of b" _ SCrib] unfolding enterable_def by auto
  ultimately show ?thesis using e unfolding incubatable_def enterable_def by simp
qed

fun rank :: "entry \<Rightarrow> nat" where
  "rank (Crib b) = 0" | "rank (Pscl k) = 0" | "rank (Kndr h k) = 1" | "rank (Grad k) = 2"

definition evolves :: "nursery \<Rightarrow> nursery \<Rightarrow> bool" where
  "evolves A A' \<longleftrightarrow> (\<forall>cp e. outs A cp = Some e \<longrightarrow>
     (case outs A' cp of Some e' \<Rightarrow> rank e \<le> rank e' | None \<Rightarrow> mature A (fst cp)))"

lemma evolves_refl: "evolves A A"
  by (simp add: evolves_def)

lemma outs_enter_unchanged:
  "outs A cp = Some e \<Longrightarrow> outs (fold spec_enterPreschool ks A) cp = Some e"
  "outs A cp = Some e \<Longrightarrow> outs (fold spec_enterCrib bs A) cp = Some e"
proof -
  have one: "outs (spec_enterPreschool k A) cp = Some e" "outs (spec_enterCrib b A) cp = Some e"
    if "outs A cp = Some e" for k b A
    using that by (auto simp: spec_enterPreschool_def spec_enterCrib_def put_out_def)
  show "outs A cp = Some e \<Longrightarrow> outs (fold spec_enterPreschool ks A) cp = Some e"
    by (induction ks arbitrary: A) (simp_all add: one)
  show "outs A cp = Some e \<Longrightarrow> outs (fold spec_enterCrib bs A) cp = Some e"
    by (induction bs arbitrary: A) (simp_all add: one)
qed

lemma evolves_ops:
  "evolves A (spec_Incubate kids babies A)"
  "outs A (key_of b) = Some (Crib b0) \<Longrightarrow> evolves A (spec_CribToKinder b A)"
  "outs A (key_of k) = Some (Pscl k0) \<Longrightarrow> evolves A (spec_PreschoolToKinder k A)"
  "evolves A (spec_GraduateKinder h A)" "evolves A (spec_FinalizeKinder h txo A)"
  "evolves A (spec_GraduateHeight h A)" "mature A c \<Longrightarrow> evolves A (spec_RemoveChannel c A)"
proof -
  have "rank e \<le> rank (graduate h e)" for e by (cases e) auto
  then show "evolves A (spec_GraduateKinder h A)"
    by (auto simp: evolves_def spec_GraduateKinder_def)
  show "evolves A (spec_Incubate kids babies A)"
    by (auto simp: evolves_def spec_Incubate_def outs_enter_unchanged)
qed (auto simp: evolves_def spec_CribToKinder_def spec_PreschoolToKinder_def put_out_def
    spec_FinalizeKinder_def spec_GraduateHeight_def spec_RemoveChannel_def)

lemma stored_Crib:
  assumes "repr ns t A R" "stored ns t cp SCrib = Some (baby_Encode b0)" "valid_baby b0"
  shows "outs A cp = Some (Crib b0)"
proof -
  obtain e where e: "outs A cp = Some e" "stage_of e = SCrib" "enc e = baby_Encode b0"
    using assms(2) stored_repr [OF assms(1), of cp SCrib] by (auto split: option.splits if_splits)
  then obtain b where b: "e = Crib b" by (cases e) auto
  have "valid_entry e" using assms(1) e(1) wfA_stored by (metis reprE)
  with b e(3) assms(3) have "b = b0"
    using baby_codec.enc_prefix_free [of b b0 "[]" "[]"] by simp
  with b e(1) show ?thesis by simp
qed

lemma stored_Pscl:
  assumes "repr ns t A R" "stored ns t cp SPscl \<noteq> None"
  shows "\<exists>k. outs A cp = Some (Pscl k)"
  using assms(2) stored_repr [OF assms(1), of cp SPscl]
  by (auto split: option.splits if_splits elim: stage_of.elims)

lemma step_update:
  fixes f :: "unit tx"
  assumes "succeeds f t (\<lambda>_ t'. repr ns t' A' R)" "evolves A A'"
  shows "\<exists>A'. repr ns (snd (db_Update f t)) A' R \<and> evolves A A'"
  using db_Update_succeeds [OF assms(1)] assms(2) by force

lemma nstep_repr:
  assumes "nstep ns t t'" "repr ns t A R"
  shows "\<exists>A'. repr ns t' A' R \<and> evolves A A'"
  using assms
proof (induction rule: nstep.induct)
  case (incubate t kids babies)
  note i = enterable_incubatable [OF incubate(2,1)]
  show ?case
    unfolding Incubate_def by (rule step_update [OF repr_Incubate [OF incubate(2) i] evolves_ops(1)])
next
  case (crib t b b0)
  note o = stored_Crib [OF crib(5,1,2)]
  show ?case
    unfolding CribToKinder_def
    by (rule step_update [OF repr_CribToKinder [OF crib(5) o crib(3,4)] evolves_ops(2) [OF o]])
next
  case (preschool t k)
  obtain k0 where o: "outs A (key_of k) = Some (Pscl k0)" using stored_Pscl [OF preschool(3,1)] ..
  show ?case
    unfolding PreschoolToKinder_def
    by (rule step_update [OF repr_PreschoolToKinder [OF preschool(3) o preschool(2)] evolves_ops(3) [OF o]])
next
  case (graduate t h)
  show ?case
    unfolding GraduateKinder_def by (rule step_update [OF repr_GraduateKinder [OF graduate] evolves_ops(4)])
next
  case (finalize txo t h)
  have w: "\<forall>tx. txo = Some tx \<longrightarrow> wf_tx tx \<and> length (Serialize tx) \<le> MaxValueSize"
    using finalize(1) by (auto simp: writable_tx_def)
  show ?case
    unfolding FinalizeKinder_def by (rule step_update [OF repr_FinalizeKinder [OF finalize(2) w] evolves_ops(5)])
next
  case (height t h)
  show ?case
    unfolding GraduateHeight_def by (rule step_update [OF repr_GraduateHeight [OF height] evolves_ops(6)])
next
  case (remove t c)
  note cs = RemoveChannel_cases [OF remove, of c]
  show ?case
  proof (cases "has_channel A c \<and> mature A c")
    case True
    with cs(2) evolves_ops(7) [of A c] show ?thesis by force
  next
    case False
    then have "snd (RemoveChannel ns c t) = t" using cs(1,3) by (cases "has_channel A c") auto
    with remove evolves_refl show ?thesis by auto
  qed
qed

lemma nreach_repr:
  assumes "nreach ns t u" "repr ns t A R"
  shows "\<exists>A'. repr ns u A' R"
  using assms by (induction rule: nreach.induct) (auto dest: nstep_repr)

section \<open>Other chains\<close>

lemma repr_other_chain:
  assumes "repr ns' t B R'" "rest ns t' = rest ns t" "bwf t'" "is_bkt t' []" "K ns' \<noteq> K ns"
  shows "repr ns' t' B (rest ns' t')"
proof -
  have same: "val_at t' (K ns' # q) = val_at t (K ns' # q)" "is_bkt t' (K ns' # q) = is_bkt t (K ns' # q)" for q
    using fun_cong [OF assms(2), of "K ns' # q"] assms(5) by (simp_all add: rest_def)
  obtain D where D: "wfA B" "vw ns' t (conc B) D R'" "tidyH (conc B) D" "tidyC (conc B) D"
    using assms(1) by (rule reprE)
  have "vw ns' t' (conc B) D (rest ns' t')"
    using D(2) assms(3,4) unfolding vw_def typed_def cells_def dirs_def by (simp add: same)
  with D show ?thesis unfolding repr_def by blast
qed

lemma repr_rest: "repr ns t A R \<Longrightarrow> rest ns t = R \<and> bwf t \<and> is_bkt t []"
  by (auto simp: repr_def vw_def typed_def)

end
