(* ===== verification/UtxoNursery.thy ===== *)
theory UtxoNursery
  imports TxBuild NurserySteps
begin

text \<open>
  The nursery itself (\<^verbatim>\<open>src/lnd/utxonursery.go\<close>): it drives the store with blocks and
  confirmations, builds and broadcasts the sweep transactions and reports on progress. The
  store is the interface value the code holds (\<^verbatim>\<open>cfg.Store\<close>); the chain backend, the wallet
  and the channel database are parameters of a call, collected in \<open>NurseryConfig\<close>. The
  world of a handler is the store, the transactions broadcast so far, and the goroutines that
  wait for a confirmation. Those hold pointers to outputs, so outputs they can see are kept in
  cells and the goroutines refer to cells by number: where the code takes the address of a
  loop variable, the goroutines share one cell.
\<close>

section \<open>The interface of the store\<close>

record htlcMaturityReport =
  hr_outpoint :: OutPoint
  hr_amount :: u64
  hr_confHeight :: u32
  hr_maturityRequirement :: u32
  hr_maturityHeight :: u32
  hr_stage :: u32

record contractMaturityReport =
  cr_chanPoint :: OutPoint
  limboBalance :: u64
  recoveredBalance :: u64
  localAmount :: u64
  cr_confHeight :: u32
  cr_maturityRequirement :: u32
  cr_maturityHeight :: u32
  htlcs :: "htlcMaturityReport list"

record 's NurseryStore =
  ns_Incubate :: "kidOutput list \<Rightarrow> babyOutput list \<Rightarrow> 's \<Rightarrow> (goerr + unit) \<times> 's"
  ns_CribToKinder :: "babyOutput \<Rightarrow> 's \<Rightarrow> (goerr + unit) \<times> 's"
  ns_PreschoolToKinder :: "kidOutput \<Rightarrow> 's \<Rightarrow> (goerr + unit) \<times> 's"
  ns_GraduateKinder :: "u32 \<Rightarrow> 's \<Rightarrow> (goerr + unit) \<times> 's"
  ns_FetchPreschools :: "'s \<Rightarrow> goerr + kidOutput list"
  ns_FetchClass :: "u32 \<Rightarrow> 's \<Rightarrow> goerr + MsgTx option \<times> kidOutput list \<times> babyOutput list"
  ns_FinalizeKinder :: "u32 \<Rightarrow> MsgTx option \<Rightarrow> 's \<Rightarrow> (goerr + unit) \<times> 's"
  ns_LastFinalizedHeight :: "'s \<Rightarrow> goerr + u32"
  ns_GraduateHeight :: "u32 \<Rightarrow> 's \<Rightarrow> (goerr + unit) \<times> 's"
  ns_LastGraduatedHeight :: "'s \<Rightarrow> goerr + u32"
  ns_HeightsBelowOrEqual :: "u32 \<Rightarrow> 's \<Rightarrow> goerr + u32 list"
  ns_ForChanOutputs :: "OutPoint
     \<Rightarrow> (bytes \<Rightarrow> bytes option \<Rightarrow> contractMaturityReport \<Rightarrow> goerr + contractMaturityReport)
     \<Rightarrow> contractMaturityReport \<Rightarrow> 's \<Rightarrow> goerr + contractMaturityReport"
  ns_ListChannels :: "'s \<Rightarrow> goerr + OutPoint list"
  ns_IsMatureChannel :: "OutPoint \<Rightarrow> 's \<Rightarrow> goerr + bool"
  ns_RemoveChannel :: "OutPoint \<Rightarrow> 's \<Rightarrow> (goerr + unit) \<times> 's"

text \<open>The store of nursery_store.go as such a value.\<close>

definition boltStore :: "nurseryStore \<Rightarrow> db NurseryStore" where
  "boltStore ns =
     \<lparr>ns_Incubate = Incubate ns, ns_CribToKinder = CribToKinder ns,
      ns_PreschoolToKinder = PreschoolToKinder ns, ns_GraduateKinder = GraduateKinder ns,
      ns_FetchPreschools = FetchPreschools ns, ns_FetchClass = FetchClass ns,
      ns_FinalizeKinder = FinalizeKinder ns, ns_LastFinalizedHeight = LastFinalizedHeight ns,
      ns_GraduateHeight = GraduateHeight ns, ns_LastGraduatedHeight = LastGraduatedHeight ns,
      ns_HeightsBelowOrEqual = HeightsBelowOrEqual ns,
      ns_ForChanOutputs = (\<lambda>c cb. ForChanOutputs ns c (\<lambda>k v acc. slift (cb k v acc))),
      ns_ListChannels = ListChannels ns, ns_IsMatureChannel = IsMatureChannel ns,
      ns_RemoveChannel = RemoveChannel ns\<rparr>"

section \<open>Configuration and world\<close>

text \<open>
  What a call sees of the subsystems the nursery is configured with. \<open>cfg_rangeOrder\<close> is
  the order in which Go happens to range over a map.
\<close>

record 's NurseryConfig =
  cfg_GetBestBlock :: "goerr + u32"
  cfg_ConfDepth :: u32
  cfg_FetchClosedChannels :: "goerr + OutPoint list"
  cfg_FetchClosedChannel :: "OutPoint \<Rightarrow> goerr + u32 option"
  cfg_EstimateFeePerVSize :: "u32 \<Rightarrow> goerr + u64"
  cfg_GenSweepScript :: "goerr + bytes"
  cfg_RegisterBlockEpochNtfn :: "goerr option"
  cfg_RegisterConfirmationsNtfn :: "hash \<Rightarrow> u32 \<Rightarrow> u32 \<Rightarrow> goerr option"
  cfg_PublishTransaction :: "MsgTx \<Rightarrow> goerr option"
  cfg_BuildWitness :: "kidOutput \<Rightarrow> MsgTx \<Rightarrow> nat \<Rightarrow> goerr + bytes list"
  cfg_TxHash :: "MsgTx \<Rightarrow> hash"
  cfg_rangeOrder :: "OutPoint list \<Rightarrow> OutPoint list"
  cfg_Store :: "'s NurseryStore"

datatype waiter = SweepConf u32 "kidOutput list" | TimeoutConf nat | PreschoolConf nat

record registration =
  reg_txid :: hash
  reg_numConfs :: u32
  reg_heightHint :: u32
  reg_waiter :: waiter

record 's utxoNursery =
  un_started :: bool
  un_stopped :: bool
  un_quit :: bool
  un_subscribed :: bool
  un_incubating :: bool
  bestHeight :: u32
  un_store :: 's
  un_published :: "MsgTx list"
  un_kids :: "kidOutput list"
  un_babies :: "babyOutput list"
  un_waiting :: "registration list"

definition newUtxoNursery :: "'s \<Rightarrow> 's utxoNursery" where
  "newUtxoNursery s = \<lparr>un_started = False, un_stopped = False, un_quit = False, un_subscribed = False,
     un_incubating = False, bestHeight = 0, un_store = s, un_published = [], un_kids = [], un_babies = [],
     un_waiting = []\<rparr>"

definition u_Update :: "('s \<Rightarrow> (goerr + 'a) \<times> 's) \<Rightarrow> ('s utxoNursery, 'a) io" where
  "u_Update f w = (case f (un_store w) of (r, s') \<Rightarrow> (r, w\<lparr>un_store := s'\<rparr>))"

definition u_View :: "('s \<Rightarrow> goerr + 'a) \<Rightarrow> ('s utxoNursery, 'a) io" where
  "u_View f w = (f (un_store w), w)"

definition newKidCell :: "kidOutput \<Rightarrow> ('s utxoNursery, nat) io" where
  "newKidCell k w = (Inr (length (un_kids w)), w\<lparr>un_kids := un_kids w @ [k]\<rparr>)"

definition newBabyCell :: "babyOutput \<Rightarrow> ('s utxoNursery, nat) io" where
  "newBabyCell b w = (Inr (length (un_babies w)), w\<lparr>un_babies := un_babies w @ [b]\<rparr>)"

definition setKidCell :: "nat \<Rightarrow> kidOutput \<Rightarrow> ('s utxoNursery, unit) io" where
  "setKidCell r k = imod (\<lambda>w. w\<lparr>un_kids := (un_kids w)[r := k]\<rparr>)"

definition setBabyCell :: "nat \<Rightarrow> babyOutput \<Rightarrow> ('s utxoNursery, unit) io" where
  "setBabyCell r b = imod (\<lambda>w. w\<lparr>un_babies := (un_babies w)[r := b]\<rparr>)"

definition Publish :: "'s NurseryConfig \<Rightarrow> MsgTx \<Rightarrow> ('s utxoNursery, unit) io" where
  "Publish cfg tx = (case cfg_PublishTransaction cfg tx of Some e \<Rightarrow> ifail e
     | None \<Rightarrow> imod (\<lambda>w. w\<lparr>un_published := un_published w @ [tx]\<rparr>))"

definition Register :: "'s NurseryConfig \<Rightarrow> hash \<Rightarrow> u32 \<Rightarrow> waiter \<Rightarrow> ('s utxoNursery, unit) io" where
  "Register cfg txid heightHint wt =
     (case cfg_RegisterConfirmationsNtfn cfg txid (cfg_ConfDepth cfg) heightHint of Some e \<Rightarrow> ifail e
      | None \<Rightarrow> imod (\<lambda>w. w\<lparr>un_waiting := un_waiting w @
          [\<lparr>reg_txid = txid, reg_numConfs = cfg_ConfDepth cfg, reg_heightHint = heightHint, reg_waiter = wt\<rparr>]\<rparr>))"

section \<open>Sweep transactions\<close>

definition sweepInput :: "kidOutput
    \<Rightarrow> TxWeightEstimator \<times> kidOutput list \<times> kidOutput list
    \<Rightarrow> TxWeightEstimator \<times> kidOutput list \<times> kidOutput list" where
  "sweepInput input acc = (case acc of (weightEstimate, csvOutputs, cltvOutputs) \<Rightarrow>
     if witnessType input = CommitmentTimeLock
     then (AddWitnessInput ToLocalTimeoutWitnessSize weightEstimate, csvOutputs @ [input], cltvOutputs)
     else if witnessType input = HtlcOfferedTimeoutSecondLevel
     then (AddWitnessInput SecondLevelHtlcSuccessWitnessSize weightEstimate, csvOutputs @ [input], cltvOutputs)
     else if witnessType input = HtlcAcceptedSuccessSecondLevel
     then (AddWitnessInput SecondLevelHtlcSuccessWitnessSize weightEstimate, csvOutputs @ [input], cltvOutputs)
     else if witnessType input = HtlcOfferedRemoteTimeout
     then (AddWitnessInput AcceptedHtlcTimeoutWitnessSize weightEstimate, csvOutputs, cltvOutputs @ [input])
     else (weightEstimate, csvOutputs, cltvOutputs))"

definition sumAmounts :: "kidOutput list \<Rightarrow> u64 \<Rightarrow> u64" where
  "sumAmounts inputs totalSum = fold (\<lambda>o' s. s + amt o') inputs totalSum"

definition sweepTemplate :: "u32 \<Rightarrow> bytes \<Rightarrow> u64 \<Rightarrow> kidOutput list \<Rightarrow> kidOutput list \<Rightarrow> MsgTx" where
  "sweepTemplate classHeight pkScript sweepAmt csvInputs cltvInputs =
     (let tx0 = AddTxOut \<lparr>Value = sweepAmt, PkScript = pkScript\<rparr> (NewMsgTx 2);
          tx1 = (if cltvInputs \<noteq> [] then tx0\<lparr>LockTime := classHeight\<rparr> else tx0);
          tx2 = fold (\<lambda>input. AddTxIn \<lparr>PreviousOutPoint = outpoint input, SignatureScript = [],
                        Witness = [], Sequence = blocksToMaturity input\<rparr>) csvInputs tx1
      in fold (\<lambda>input. AddTxIn \<lparr>PreviousOutPoint = outpoint input, SignatureScript = [],
                        Witness = [], Sequence = 0\<rparr>) cltvInputs tx2)"

definition populateSweepTx ::
  "'s NurseryConfig \<Rightarrow> nat \<Rightarrow> u32 \<Rightarrow> kidOutput list \<Rightarrow> kidOutput list \<Rightarrow> goerr + MsgTx" where
  "populateSweepTx cfg txVSize classHeight csvInputs cltvInputs =
     (case cfg_GenSweepScript cfg of Inl e \<Rightarrow> Inl e
      | Inr pkScript \<Rightarrow>
          (let totalSum = sumAmounts cltvInputs (sumAmounts csvInputs 0) in
           case cfg_EstimateFeePerVSize cfg 6 of Inl e \<Rightarrow> Inl e
           | Inr feePerVSize \<Rightarrow>
               (let txFee = FeeForVSize feePerVSize txVSize;
                    sweepAmt = totalSum - txFee;
                    sweepTx = sweepTemplate classHeight pkScript sweepAmt csvInputs cltvInputs
                in case CheckTransactionSanity sweepTx of Some e \<Rightarrow> Inl e
                   | None \<Rightarrow>
                       (case addWitnesses (cfg_BuildWitness cfg) 0 csvInputs sweepTx of Inl e \<Rightarrow> Inl e
                        | Inr sweepTx \<Rightarrow> addWitnesses (cfg_BuildWitness cfg) (length csvInputs) cltvInputs sweepTx))))"

definition createSweepTx ::
  "'s NurseryConfig \<Rightarrow> kidOutput list \<Rightarrow> u32 \<Rightarrow> goerr + MsgTx" where
  "createSweepTx cfg kgtnOutputs classHeight =
     (case fold sweepInput kgtnOutputs (AddP2WKHOutput newEstimator, [], []) of
        (weightEstimate, csvOutputs, cltvOutputs) \<Rightarrow>
          populateSweepTx cfg (VSize weightEstimate) classHeight csvOutputs cltvOutputs)"

section \<open>Waiting for confirmations\<close>

definition registerSweepConf ::
  "'s NurseryConfig \<Rightarrow> MsgTx \<Rightarrow> kidOutput list \<Rightarrow> u32 \<Rightarrow> ('s utxoNursery, unit) io" where
  "registerSweepConf cfg finalTx kgtnOutputs heightHint =
     Register cfg (cfg_TxHash cfg finalTx) heightHint (SweepConf heightHint kgtnOutputs)"

definition sweepMatureOutputs ::
  "'s NurseryConfig \<Rightarrow> u32 \<Rightarrow> MsgTx \<Rightarrow> kidOutput list \<Rightarrow> ('s utxoNursery, unit) io" where
  "sweepMatureOutputs cfg classHeight finalTx kgtnOutputs =
     ibind (Publish cfg finalTx) (\<lambda>_. registerSweepConf cfg finalTx kgtnOutputs classHeight)"

definition registerTimeoutConf :: "'s NurseryConfig \<Rightarrow> nat \<Rightarrow> u32 \<Rightarrow> ('s utxoNursery, unit) io" where
  "registerTimeoutConf cfg baby heightHint =
     ibind (iget (\<lambda>w. un_babies w ! baby)) (\<lambda>b.
       Register cfg (cfg_TxHash cfg (timeoutTx b)) heightHint (TimeoutConf baby))"

definition sweepCribOutput :: "'s NurseryConfig \<Rightarrow> u32 \<Rightarrow> nat \<Rightarrow> ('s utxoNursery, unit) io" where
  "sweepCribOutput cfg classHeight baby =
     ibind (iget (\<lambda>w. un_babies w ! baby)) (\<lambda>b.
     ibind (Publish cfg (timeoutTx b)) (\<lambda>_.
       registerTimeoutConf cfg baby classHeight))"

definition registerPreschoolConf :: "'s NurseryConfig \<Rightarrow> nat \<Rightarrow> u32 \<Rightarrow> ('s utxoNursery, unit) io" where
  "registerPreschoolConf cfg kid heightHint =
     ibind (iget (\<lambda>w. un_kids w ! kid)) (\<lambda>k.
       Register cfg (Hash (outpoint k)) heightHint (PreschoolConf kid))"

definition closeAndRemoveIfMature :: "'s NurseryConfig \<Rightarrow> OutPoint \<Rightarrow> ('s utxoNursery, unit) io" where
  "closeAndRemoveIfMature cfg chanPoint w =
     (case ns_IsMatureChannel (cfg_Store cfg) chanPoint (un_store w) of
        Inl e \<Rightarrow> if e = ErrContractNotFound then (Inr (), w) else (Inl e, w)
      | Inr isMature \<Rightarrow>
          if \<not> isMature then (Inr (), w)
          else u_Update (ns_RemoveChannel (cfg_Store cfg) chanPoint) w)"

text \<open>
  The goroutines once their confirmation has arrived, at height \<open>h\<close>. A closed channel or
  \<^verbatim>\<open>quit\<close> makes them return without an effect.
\<close>

definition waitForSweepConf ::
  "'s NurseryConfig \<Rightarrow> u32 \<Rightarrow> kidOutput list \<Rightarrow> ('s utxoNursery, unit) io" where
  "waitForSweepConf cfg classHeight kgtnOutputs =
     ibind (u_Update (ns_GraduateKinder (cfg_Store cfg) classHeight)) (\<lambda>_.
       iforeach (closeAndRemoveIfMature cfg)
         (cfg_rangeOrder cfg (remdups (map originChanPoint kgtnOutputs))))"

definition waitForTimeoutConf :: "'s NurseryConfig \<Rightarrow> nat \<Rightarrow> u32 \<Rightarrow> ('s utxoNursery, unit) io" where
  "waitForTimeoutConf cfg baby h =
     ibind (iget (\<lambda>w. SetConfHeight h (un_babies w ! baby))) (\<lambda>b.
     ibind (setBabyCell baby b) (\<lambda>_.
       u_Update (ns_CribToKinder (cfg_Store cfg) b)))"

definition waitForPreschoolConf :: "'s NurseryConfig \<Rightarrow> nat \<Rightarrow> u32 \<Rightarrow> ('s utxoNursery, unit) io" where
  "waitForPreschoolConf cfg kid h =
     ibind (iget (\<lambda>w. SetConfHeight h (un_kids w ! kid))) (\<lambda>k.
     ibind (setKidCell kid k) (\<lambda>_.
       u_Update (ns_PreschoolToKinder (cfg_Store cfg) k)))"

definition confirmed :: "'s NurseryConfig \<Rightarrow> waiter \<Rightarrow> u32 \<Rightarrow> ('s utxoNursery, unit) io" where
  "confirmed cfg wt h = (case wt of
       SweepConf classHeight kgtnOutputs \<Rightarrow> waitForSweepConf cfg classHeight kgtnOutputs
     | TimeoutConf baby \<Rightarrow> waitForTimeoutConf cfg baby h
     | PreschoolConf kid \<Rightarrow> waitForPreschoolConf cfg kid h)"

section \<open>Blocks\<close>

definition graduateClass :: "'s NurseryConfig \<Rightarrow> u32 \<Rightarrow> ('s utxoNursery, unit) io" where
  "graduateClass cfg classHeight =
     ibind (imod (\<lambda>w. w\<lparr>bestHeight := classHeight\<rparr>)) (\<lambda>_.
     ibind (u_View (ns_FetchClass (cfg_Store cfg) classHeight)) (\<lambda>(finalTx, kgtnOutputs, cribOutputs).
     ibind (u_View (ns_LastFinalizedHeight (cfg_Store cfg))) (\<lambda>lastFinalizedHeight.
     ibind (if classHeight > lastFinalizedHeight
            then ibind (if kgtnOutputs \<noteq> []
                        then ibind (ilift (createSweepTx cfg kgtnOutputs classHeight)) (\<lambda>tx. iret (Some tx))
                        else iret finalTx) (\<lambda>finalTx.
                 ibind (u_Update (ns_FinalizeKinder (cfg_Store cfg) classHeight finalTx)) (\<lambda>_.
                   iret finalTx))
            else iret finalTx) (\<lambda>finalTx.
     ibind (case finalTx of None \<Rightarrow> iret ()
            | Some tx \<Rightarrow> sweepMatureOutputs cfg classHeight tx kgtnOutputs) (\<lambda>_.
     ibind (iforeach (\<lambda>b. ibind (newBabyCell b) (sweepCribOutput cfg classHeight)) cribOutputs) (\<lambda>_.
       u_Update (ns_GraduateHeight (cfg_Store cfg) classHeight)))))))"

definition incubatorBlock :: "'s NurseryConfig \<Rightarrow> u32 \<Rightarrow> 's utxoNursery \<Rightarrow> 's utxoNursery" where
  "incubatorBlock cfg height w = snd (graduateClass cfg height w)"

definition regraduateClass :: "'s NurseryConfig \<Rightarrow> u32 \<Rightarrow> ('s utxoNursery, unit) io" where
  "regraduateClass cfg classHeight =
     ibind (u_View (ns_FetchClass (cfg_Store cfg) classHeight)) (\<lambda>(finalTx, kgtnOutputs, cribOutputs).
     ibind (case finalTx of None \<Rightarrow> iret ()
            | Some tx \<Rightarrow> registerSweepConf cfg tx kgtnOutputs classHeight) (\<lambda>_.
       iforeach (\<lambda>b. ibind (newBabyCell b) (sweepCribOutput cfg classHeight)) cribOutputs))"

section \<open>Startup\<close>

text \<open>
  The missed heights are those the loop counter takes. (The best height is an \<^verbatim>\<open>int32\<close>, so the
  counter does not wrap.)
\<close>

definition missedHeights :: "u32 \<Rightarrow> u32 \<Rightarrow> u32 list" where
  "missedHeights lastGradHeight best =
     map word_of_nat [unat (lastGradHeight + 1) ..< Suc (unat best)]"

definition reloadClasses :: "'s NurseryConfig \<Rightarrow> u32 \<Rightarrow> ('s utxoNursery, unit) io" where
  "reloadClasses cfg lastGradHeight =
     ibind (u_View (ns_HeightsBelowOrEqual (cfg_Store cfg) lastGradHeight)) (\<lambda>activeHeights.
     ibind (iforeach (regraduateClass cfg) activeHeights) (\<lambda>_.
     ibind (ilift (cfg_GetBestBlock cfg)) (\<lambda>best.
       if lastGradHeight = 0 \<or> best = lastGradHeight then iret ()
       else iforeach (graduateClass cfg) (missedHeights lastGradHeight best))))"

definition reloadPreschool :: "'s NurseryConfig \<Rightarrow> ('s utxoNursery, unit) io" where
  "reloadPreschool cfg =
     ibind (u_View (ns_FetchPreschools (cfg_Store cfg))) (\<lambda>psclOutputs.
       iforeach (\<lambda>k. ibind (newKidCell k) (\<lambda>kid.
         ibind (ilift (cfg_FetchClosedChannel cfg (originChanPoint k))) (\<lambda>closeSummary.
           (case closeSummary of None \<Rightarrow> iret ()
            | Some closeHeight \<Rightarrow> registerPreschoolConf cfg kid (closeHeight - cfg_ConfDepth cfg)))))
         psclOutputs)"

definition un_Start :: "'s NurseryConfig \<Rightarrow> ('s utxoNursery, unit) io" where
  "un_Start cfg w =
     (if un_started w then (Inr (), w)
      else let w = w\<lparr>un_started := True\<rparr> in
      case cfg_RegisterBlockEpochNtfn cfg of Some e \<Rightarrow> (Inl e, w)
      | None \<Rightarrow>
          (case ibind (ilift (cfg_FetchClosedChannels cfg)) (\<lambda>pendingCloseChans.
                ibind (iforeach (closeAndRemoveIfMature cfg) pendingCloseChans) (\<lambda>_.
                  u_View (ns_LastGraduatedHeight (cfg_Store cfg)))) (w\<lparr>un_subscribed := True\<rparr>) of
             (Inl e, w) \<Rightarrow> (Inl e, w\<lparr>un_subscribed := False\<rparr>)
           | (Inr lastGraduatedHeight, w) \<Rightarrow>
               (case ibind (reloadPreschool cfg) (\<lambda>_. reloadClasses cfg lastGraduatedHeight) w of
                  (Inl e, w) \<Rightarrow> (Inl e, w\<lparr>un_subscribed := False, un_quit := True\<rparr>)
                | (Inr _, w) \<Rightarrow> (Inr (), w\<lparr>un_incubating := True\<rparr>))))"

text \<open>A failed start has closed \<^verbatim>\<open>quit\<close> already; stopping then closes it a second time, which panics.\<close>

definition un_Stop :: "('s utxoNursery, unit) io" where
  "un_Stop w = (if un_stopped w then (Inr (), w)
     else if un_quit w then (Inl (GoPanic ''close of closed channel''), w\<lparr>un_stopped := True\<rparr>)
     else (Inr (), w\<lparr>un_stopped := True, un_quit := True, un_incubating := False,
                     un_subscribed := False, un_waiting := []\<rparr>))"

section \<open>Incubating the outputs of a closed channel\<close>

record CommitOutputResolution =
  SelfOutPoint :: OutPoint
  SelfOutputSignDesc :: SignDescriptor
  MaturityDelay :: u32

record IncomingHtlcResolution =
  in_CsvDelay :: u32
  in_ClaimOutpoint :: OutPoint
  in_SweepSignDesc :: SignDescriptor

definition hasValue :: "'a breachedOutput_scheme \<Rightarrow> bool" where
  "hasValue o' \<longleftrightarrow> 0 < sint (amt o')"

definition kidOutputs_of :: "OutPoint \<Rightarrow> CommitOutputResolution option
    \<Rightarrow> OutgoingHtlcResolution list \<Rightarrow> IncomingHtlcResolution list \<Rightarrow> kidOutput list" where
  "kidOutputs_of chanPoint commitResolution outgoingHtlcs incomingHtlcs =
     filter hasValue (case commitResolution of None \<Rightarrow> []
       | Some c \<Rightarrow> [makeKidOutput (SelfOutPoint c) chanPoint (MaturityDelay c) CommitmentTimeLock
                      (SelfOutputSignDesc c) 0])
     @ filter hasValue (map (\<lambda>r. makeKidOutput (in_ClaimOutpoint r) chanPoint (in_CsvDelay r)
                      HtlcAcceptedSuccessSecondLevel (in_SweepSignDesc r) 0) incomingHtlcs)
     @ map (\<lambda>r. makeKidOutput (out_ClaimOutpoint r) chanPoint 0 HtlcOfferedRemoteTimeout
                      (out_SweepSignDesc r) (Expiry r))
         (filter (\<lambda>r. SignedTimeoutTx r = None) outgoingHtlcs)"

definition babyOutputs_of :: "OutPoint \<Rightarrow> OutgoingHtlcResolution list \<Rightarrow> babyOutput list" where
  "babyOutputs_of chanPoint outgoingHtlcs =
     filter hasValue (List.map_filter (\<lambda>r. map_option (makeBabyOutput chanPoint r) (SignedTimeoutTx r))
                        outgoingHtlcs)"

text \<open>The loops over the new outputs take the address of their loop variable.\<close>

definition sweepExpired :: "'s NurseryConfig \<Rightarrow> u32 \<Rightarrow> babyOutput list \<Rightarrow> ('s utxoNursery, unit) io" where
  "sweepExpired cfg best babyOutputs =
     (case babyOutputs of [] \<Rightarrow> iret ()
      | b # _ \<Rightarrow> ibind (newBabyCell b) (\<lambda>baby.
          iforeach (\<lambda>b. ibind (setBabyCell baby b) (\<lambda>_.
            if best \<ge> expiry b then sweepCribOutput cfg best baby else iret ())) babyOutputs))"

definition registerPreschools :: "'s NurseryConfig \<Rightarrow> kidOutput list \<Rightarrow> ('s utxoNursery, unit) io" where
  "registerPreschools cfg kidOutputs =
     (case kidOutputs of [] \<Rightarrow> iret ()
      | k # _ \<Rightarrow> ibind (newKidCell k) (\<lambda>kid.
          iforeach (\<lambda>k. ibind (setKidCell kid k) (\<lambda>_.
            ibind (iget bestHeight) (registerPreschoolConf cfg kid))) kidOutputs))"

definition IncubateOutputs :: "'s NurseryConfig \<Rightarrow> OutPoint \<Rightarrow> CommitOutputResolution option
    \<Rightarrow> OutgoingHtlcResolution list \<Rightarrow> IncomingHtlcResolution list \<Rightarrow> ('s utxoNursery, unit) io" where
  "IncubateOutputs cfg chanPoint commitResolution outgoingHtlcs incomingHtlcs =
     (let kidOutputs = kidOutputs_of chanPoint commitResolution outgoingHtlcs incomingHtlcs;
          babyOutputs = babyOutputs_of chanPoint outgoingHtlcs
      in ibind (u_Update (ns_Incubate (cfg_Store cfg) kidOutputs babyOutputs)) (\<lambda>_.
         ibind (ilift (cfg_GetBestBlock cfg)) (\<lambda>best.
         ibind (sweepExpired cfg best babyOutputs) (\<lambda>_.
           registerPreschools cfg kidOutputs))))"

section \<open>The report\<close>

definition AddLimboCommitment :: "kidOutput \<Rightarrow> contractMaturityReport \<Rightarrow> contractMaturityReport" where
  "AddLimboCommitment kid c =
     (let c = c\<lparr>limboBalance := limboBalance c + amt kid, localAmount := localAmount c + amt kid,
                cr_confHeight := confHeight kid, cr_maturityRequirement := blocksToMaturity kid\<rparr>
      in if confHeight kid \<noteq> 0 then c\<lparr>cr_maturityHeight := blocksToMaturity kid + confHeight kid\<rparr> else c)"

definition AddRecoveredCommitment :: "kidOutput \<Rightarrow> contractMaturityReport \<Rightarrow> contractMaturityReport" where
  "AddRecoveredCommitment kid c =
     c\<lparr>recoveredBalance := recoveredBalance c + amt kid, localAmount := localAmount c + amt kid,
       cr_confHeight := confHeight kid, cr_maturityRequirement := blocksToMaturity kid,
       cr_maturityHeight := blocksToMaturity kid + confHeight kid\<rparr>"

definition AddLimboStage1TimeoutHtlc :: "babyOutput \<Rightarrow> contractMaturityReport \<Rightarrow> contractMaturityReport" where
  "AddLimboStage1TimeoutHtlc baby c =
     c\<lparr>limboBalance := limboBalance c + amt baby,
       htlcs := htlcs c @ [\<lparr>hr_outpoint = outpoint baby, hr_amount = amt baby, hr_confHeight = confHeight baby,
         hr_maturityRequirement = 0, hr_maturityHeight = expiry baby, hr_stage = 1\<rparr>]\<rparr>"

definition AddLimboDirectHtlc :: "kidOutput \<Rightarrow> contractMaturityReport \<Rightarrow> contractMaturityReport" where
  "AddLimboDirectHtlc kid c =
     c\<lparr>limboBalance := limboBalance c + amt kid,
       htlcs := htlcs c @ [\<lparr>hr_outpoint = outpoint kid, hr_amount = amt kid, hr_confHeight = confHeight kid,
         hr_maturityRequirement = 0, hr_maturityHeight = absoluteMaturity kid, hr_stage = 2\<rparr>]\<rparr>"

definition AddLimboStage1SuccessHtlc :: "kidOutput \<Rightarrow> contractMaturityReport \<Rightarrow> contractMaturityReport" where
  "AddLimboStage1SuccessHtlc kid c =
     c\<lparr>limboBalance := limboBalance c + amt kid,
       htlcs := htlcs c @ [\<lparr>hr_outpoint = outpoint kid, hr_amount = amt kid, hr_confHeight = confHeight kid,
         hr_maturityRequirement = blocksToMaturity kid, hr_maturityHeight = 0, hr_stage = 1\<rparr>]\<rparr>"

definition AddLimboStage2Htlc :: "kidOutput \<Rightarrow> contractMaturityReport \<Rightarrow> contractMaturityReport" where
  "AddLimboStage2Htlc kid c =
     (let htlcReport = \<lparr>hr_outpoint = outpoint kid, hr_amount = amt kid, hr_confHeight = confHeight kid,
            hr_maturityRequirement = blocksToMaturity kid, hr_maturityHeight = 0, hr_stage = 2\<rparr>;
          htlcReport = (if confHeight kid \<noteq> 0
            then htlcReport\<lparr>hr_maturityHeight := confHeight kid + blocksToMaturity kid\<rparr> else htlcReport)
      in c\<lparr>limboBalance := limboBalance c + amt kid, htlcs := htlcs c @ [htlcReport]\<rparr>)"

definition AddRecoveredHtlc :: "kidOutput \<Rightarrow> contractMaturityReport \<Rightarrow> contractMaturityReport" where
  "AddRecoveredHtlc kid c =
     c\<lparr>recoveredBalance := recoveredBalance c + amt kid,
       htlcs := htlcs c @ [\<lparr>hr_outpoint = outpoint kid, hr_amount = amt kid, hr_confHeight = confHeight kid,
         hr_maturityRequirement = blocksToMaturity kid,
         hr_maturityHeight = confHeight kid + blocksToMaturity kid, hr_stage = 0\<rparr>]\<rparr>"

definition reportPreschool :: "kidOutput \<Rightarrow> contractMaturityReport \<Rightarrow> contractMaturityReport" where
  "reportPreschool kid report =
     (if witnessType kid = CommitmentTimeLock then AddLimboCommitment kid report
      else if witnessType kid = HtlcAcceptedSuccessSecondLevel then AddLimboStage1SuccessHtlc kid report
      else report)"

definition reportKinder :: "kidOutput \<Rightarrow> contractMaturityReport \<Rightarrow> contractMaturityReport" where
  "reportKinder kid report =
     (if witnessType kid = CommitmentTimeLock then AddLimboCommitment kid report
      else if witnessType kid = HtlcOfferedRemoteTimeout then AddLimboDirectHtlc kid report
      else if witnessType kid \<in> {HtlcAcceptedSuccessSecondLevel, HtlcOfferedTimeoutSecondLevel}
      then AddLimboStage2Htlc kid report
      else report)"

definition reportGraduate :: "kidOutput \<Rightarrow> contractMaturityReport \<Rightarrow> contractMaturityReport" where
  "reportGraduate kid report =
     (if witnessType kid = CommitmentTimeLock then AddRecoveredCommitment kid report
      else if witnessType kid \<in> {HtlcAcceptedSuccessSecondLevel, HtlcOfferedTimeoutSecondLevel,
                                  HtlcOfferedRemoteTimeout}
      then AddRecoveredHtlc kid report
      else report)"

definition reportOutput ::
  "bytes \<Rightarrow> bytes option \<Rightarrow> contractMaturityReport \<Rightarrow> goerr + contractMaturityReport" where
  "reportOutput k v report =
     (let v = (case v of None \<Rightarrow> [] | Some b \<Rightarrow> b) in
      if HasPrefix k cribPrefix then
        (case decode_bytes baby_Decode v of Inl e \<Rightarrow> Inl e
         | Inr baby \<Rightarrow> Inr (AddLimboStage1TimeoutHtlc baby report))
      else if HasPrefix k psclPrefix \<or> HasPrefix k kndrPrefix \<or> HasPrefix k gradPrefix then
        (case decode_bytes kid_Decode v of Inl e \<Rightarrow> Inl e
         | Inr kid \<Rightarrow> Inr (if HasPrefix k psclPrefix then reportPreschool kid report
                          else if HasPrefix k kndrPrefix then reportKinder kid report
                          else reportGraduate kid report))
      else Inr report)"

definition emptyReport :: "OutPoint \<Rightarrow> contractMaturityReport" where
  "emptyReport chanPoint = \<lparr>cr_chanPoint = chanPoint, limboBalance = 0, recoveredBalance = 0,
     localAmount = 0, cr_confHeight = 0, cr_maturityRequirement = 0, cr_maturityHeight = 0, htlcs = []\<rparr>"

definition NurseryReport ::
  "'s NurseryConfig \<Rightarrow> OutPoint \<Rightarrow> ('s utxoNursery, contractMaturityReport) io" where
  "NurseryReport cfg chanPoint =
     u_View (ns_ForChanOutputs (cfg_Store cfg) chanPoint reportOutput (emptyReport chanPoint))"

end
