(* ===== verification/NurseryContract.thy ===== *)
theory NurseryContract
  imports UtxoNursery
begin

text \<open>
  The contract between the nursery and its store. The code reaches the store through the
  interface \<^verbatim>\<open>NurseryStore\<close>; the locale \<open>nursery_store\<close> states what the nursery relies on,
  in terms of the abstract store, and the bolt-backed store of nursery_store.go is shown to
  satisfy it. What the nursery does with the store is then proved from the contract alone.
\<close>

section \<open>Walking over a channel\<close>

lemma ForChanOutputs_repr:
  assumes r: "repr ns t A R" and c: "has_channel A c"
    and cb: "\<And>p e acc. outs A (c, p) = Some e \<Longrightarrow> cb (okey (stage_of e) p) (Some (enc e)) acc = Inr (g e acc)"
  shows "\<exists>es. ForChanOutputs ns c (\<lambda>k v acc. slift (cb k v acc)) acc t = Inr (fold g es acc)
     \<and> distinct es \<and> set es = {e. \<exists>p. outs A (c, p) = Some e}"
proof -
  obtain D where D: "wfA A" "vw ns t (conc A) D R" "tidyC (conc A) D" using r by (rule reprE)
  let ?b = "K ns # dpath (DChan c)"
  let ?xs = "b_pairs ?b t"
  have mem: "x \<in> set ?xs \<longleftrightarrow> (\<exists>p e. outs A (c, p) = Some e \<and> x = (okey (stage_of e) p, Some (enc e)))" for x
    by (rule repr_chan_pairs [OF D(2)])
  define en where "en x = (SOME e. \<exists>p. outs A (c, p) = Some e \<and> x = (okey (stage_of e) p, Some (enc e)))" for x
  have point: "snd (key_of (kid_part e)) = p" if "outs A (c, p) = Some e" for p e
    using D(1) that by (auto simp: wfA_def)
  have en: "en (okey (stage_of e) p, Some (enc e)) = e" if e: "outs A (c, p) = Some e" for p e
    unfolding en_def using e by (intro some_equality) auto
  have "inj_on en (set ?xs)"
  proof (rule inj_onI)
    fix x y assume "x \<in> set ?xs" "y \<in> set ?xs" "en x = en y"
    then obtain p e p' e' where "outs A (c, p) = Some e" "x = (okey (stage_of e) p, Some (enc e))"
        "outs A (c, p') = Some e'" "y = (okey (stage_of e') p', Some (enc e'))" "e = e'"
      unfolding mem using en by metis
    then show "x = y" using point by metis
  qed
  moreover have "distinct ?xs"
    using al_sorted_distinct b_pairs_sorted [OF vw_bwf [OF D(2)], of ?b] by (metis distinct_map)
  ultimately have "distinct (map en ?xs)" by (simp add: distinct_map)
  moreover have "set (map en ?xs) = {e. \<exists>p. outs A (c, p) = Some e}"
  proof -
    have "e \<in> en ` set ?xs \<longleftrightarrow> (\<exists>p. outs A (c, p) = Some e)" for e
    proof
      assume "\<exists>p. outs A (c, p) = Some e"
      then show "e \<in> en ` set ?xs" using mem en by (metis image_eqI)
    qed (use mem en in fastforce)
    then show ?thesis by auto
  qed
  moreover have "b_ForEach ?b (\<lambda>k v acc. slift (cb k v acc)) acc t = Inr (fold g (map en ?xs) acc, t)"
    unfolding b_ForEach_def fold_map comp_def
  proof (rule sfold_pure)
    fix x a assume "x \<in> set ?xs"
    then show "(case x of (k, v) \<Rightarrow> \<lambda>acc. slift (cb k v acc)) a t = Inr (g (en x) a, t)"
      unfolding mem using cb en by (auto simp: slift_def)
  qed
  moreover have "DChan c \<in> D" using c chan_in [OF D(3)] by simp
  ultimately show ?thesis
    using vw_getChannelBucket [OF D(2), of c]
    by (intro exI [of _ "map en ?xs"])
      (simp add: ForChanOutputs_def db_View_def forChanOutputs_def del: dpath.simps)
qed

section \<open>The contract\<close>

definition heightOr0 :: "u32 option \<Rightarrow> u32" where
  "heightOr0 h = (case h of None \<Rightarrow> 0 | Some h \<Rightarrow> h)"

locale nursery_store =
  fixes store :: "'s NurseryStore" and rep :: "'s \<Rightarrow> nursery \<Rightarrow> bool"
  assumes rep_wf: "rep s A \<Longrightarrow> wfA A"
    and Incubate_law: "rep s A \<Longrightarrow> incubatable kids babies A \<Longrightarrow>
      \<exists>s'. ns_Incubate store kids babies s = (Inr (), s') \<and> rep s' (spec_Incubate kids babies A)"
    and CribToKinder_law: "rep s A \<Longrightarrow> outs A (key_of b) = Some (Crib b0) \<Longrightarrow> expiry b0 = expiry b \<Longrightarrow>
      storable (Crib b) \<Longrightarrow>
      \<exists>s'. ns_CribToKinder store b s = (Inr (), s') \<and> rep s' (spec_CribToKinder b A)"
    and PreschoolToKinder_law: "rep s A \<Longrightarrow> outs A (key_of k) = Some (Pscl k0) \<Longrightarrow> storable (Pscl k) \<Longrightarrow>
      \<exists>s'. ns_PreschoolToKinder store k s = (Inr (), s') \<and> rep s' (spec_PreschoolToKinder k A)"
    and GraduateKinder_law: "rep s A \<Longrightarrow>
      \<exists>s'. ns_GraduateKinder store h s = (Inr (), s') \<and> rep s' (spec_GraduateKinder h A)"
    and FetchPreschools_law: "rep s A \<Longrightarrow> \<exists>ks. ns_FetchPreschools store s = Inr ks
      \<and> sorted_wrt out_less ks \<and> set ks = {k. outs A (key_of k) = Some (Pscl k)}"
    and FetchClass_law: "rep s A \<Longrightarrow> \<exists>ks bs. ns_FetchClass store h s = Inr (fin A h, ks, bs)
      \<and> sorted_wrt out_less ks \<and> set ks = {k. outs A (key_of k) = Some (Kndr h k)}
      \<and> sorted_wrt out_less bs \<and> set bs = {b. outs A (key_of b) = Some (Crib b) \<and> expiry b = h}"
    and FinalizeKinder_law: "rep s A \<Longrightarrow> writable_tx txo \<Longrightarrow>
      \<exists>s'. ns_FinalizeKinder store h txo s = (Inr (), s') \<and> rep s' (spec_FinalizeKinder h txo A)"
    and LastFinalizedHeight_law: "rep s A \<Longrightarrow> ns_LastFinalizedHeight store s = Inr (heightOr0 (lastFin A))"
    and GraduateHeight_law: "rep s A \<Longrightarrow>
      \<exists>s'. ns_GraduateHeight store h s = (Inr (), s') \<and> rep s' (spec_GraduateHeight h A)"
    and LastGraduatedHeight_law: "rep s A \<Longrightarrow> ns_LastGraduatedHeight store s = Inr (heightOr0 (lastGrad A))"
    and HeightsBelowOrEqual_law: "rep s A \<Longrightarrow> \<exists>hs. ns_HeightsBelowOrEqual store h s = Inr hs
      \<and> sorted_wrt (<) hs \<and> set hs = {h'. h' \<le> h \<and> scheduled A h'}"
    and ForChanOutputs_law: "rep s A \<Longrightarrow> has_channel A c \<Longrightarrow>
      (\<And>p e acc. outs A (c, p) = Some e \<Longrightarrow> cb (okey (stage_of e) p) (Some (enc e)) acc = Inr (g e acc)) \<Longrightarrow>
      \<exists>es. ns_ForChanOutputs store c cb acc s = Inr (fold g es acc) \<and> distinct es
        \<and> set es = {e. \<exists>p. outs A (c, p) = Some e}"
    and ListChannels_law: "rep s A \<Longrightarrow> \<exists>cs. ns_ListChannels store s = Inr cs \<and> distinct cs
      \<and> set cs = {c. has_channel A c}"
    and IsMatureChannel_law: "rep s A \<Longrightarrow> ns_IsMatureChannel store c s
      = (if has_channel A c then Inr (mature A c) else Inl ErrContractNotFound)"
    and RemoveChannel_law: "rep s A \<Longrightarrow> has_channel A c \<Longrightarrow> mature A c \<Longrightarrow>
      \<exists>s'. ns_RemoveChannel store c s = (Inr (), s') \<and> rep s' (spec_RemoveChannel c A)"

section \<open>The bolt store satisfies it\<close>

lemma Inr_last_heights:
  assumes "repr ns t A R"
  shows "LastGraduatedHeight ns t = Inr (heightOr0 (lastGrad A))"
    and "LastFinalizedHeight ns t = Inr (heightOr0 (lastFin A))"
proof -
  obtain D where D: "vw ns t (conc A) D R" using assms by (rule reprE)
  from vw_getLastHeights [OF D]
  show "LastGraduatedHeight ns t = Inr (heightOr0 (lastGrad A))"
    "LastFinalizedHeight ns t = Inr (heightOr0 (lastFin A))"
    by (simp_all add: LastGraduatedHeight_def LastFinalizedHeight_def db_View_def heightOr0_def)
qed

lemmas bolt_updates = Incubate_def CribToKinder_def PreschoolToKinder_def GraduateKinder_def
  FinalizeKinder_def GraduateHeight_def

lemma boltStore_sel:
  "ns_Incubate (boltStore ns) = Incubate ns" "ns_CribToKinder (boltStore ns) = CribToKinder ns"
  "ns_PreschoolToKinder (boltStore ns) = PreschoolToKinder ns" "ns_GraduateKinder (boltStore ns) = GraduateKinder ns"
  "ns_FetchPreschools (boltStore ns) = FetchPreschools ns" "ns_FetchClass (boltStore ns) = FetchClass ns"
  "ns_FinalizeKinder (boltStore ns) = FinalizeKinder ns" "ns_LastFinalizedHeight (boltStore ns) = LastFinalizedHeight ns"
  "ns_GraduateHeight (boltStore ns) = GraduateHeight ns" "ns_LastGraduatedHeight (boltStore ns) = LastGraduatedHeight ns"
  "ns_HeightsBelowOrEqual (boltStore ns) = HeightsBelowOrEqual ns" "ns_ListChannels (boltStore ns) = ListChannels ns"
  "ns_ForChanOutputs (boltStore ns) = (\<lambda>c cb. ForChanOutputs ns c (\<lambda>k v acc. slift (cb k v acc)))"
  "ns_IsMatureChannel (boltStore ns) = IsMatureChannel ns" "ns_RemoveChannel (boltStore ns) = RemoveChannel ns"
  by (simp_all add: boltStore_def)

interpretation bolt: nursery_store "boltStore ns" "\<lambda>t A. repr ns t A R" for ns R
proof unfold_locales
  fix s A assume r: "repr ns s A R"
  then show "wfA A" by (rule reprE)
  show "\<exists>ks. ns_FetchPreschools (boltStore ns) s = Inr ks \<and> sorted_wrt out_less ks
      \<and> set ks = {k. outs A (key_of k) = Some (Pscl k)}"
    unfolding boltStore_sel by (rule FetchPreschools_repr [OF r]) blast
  show "ns_LastFinalizedHeight (boltStore ns) s = Inr (heightOr0 (lastFin A))"
    "ns_LastGraduatedHeight (boltStore ns) s = Inr (heightOr0 (lastGrad A))"
    using Inr_last_heights [OF r] by (simp_all add: boltStore_sel)
  show "\<exists>cs. ns_ListChannels (boltStore ns) s = Inr cs \<and> distinct cs \<and> set cs = {c. has_channel A c}"
    unfolding boltStore_sel by (rule ListChannels_repr [OF r]) (auto dest: ordered_distinct)
  fix h
  show "\<exists>s'. ns_GraduateKinder (boltStore ns) h s = (Inr (), s') \<and> repr ns s' (spec_GraduateKinder h A) R"
    "\<exists>s'. ns_GraduateHeight (boltStore ns) h s = (Inr (), s') \<and> repr ns s' (spec_GraduateHeight h A) R"
    using db_Update_succeeds [OF repr_GraduateKinder [OF r, of h]] db_Update_succeeds [OF repr_GraduateHeight [OF r, of h]]
    by (simp_all add: boltStore_sel bolt_updates)
  show "\<exists>ks bs. ns_FetchClass (boltStore ns) h s = Inr (fin A h, ks, bs)
      \<and> sorted_wrt out_less ks \<and> set ks = {k. outs A (key_of k) = Some (Kndr h k)}
      \<and> sorted_wrt out_less bs \<and> set bs = {b. outs A (key_of b) = Some (Crib b) \<and> expiry b = h}"
    unfolding boltStore_sel by (rule FetchClass_repr [OF r, of h]) blast
  show "\<exists>hs. ns_HeightsBelowOrEqual (boltStore ns) h s = Inr hs \<and> sorted_wrt (<) hs
      \<and> set hs = {h'. h' \<le> h \<and> scheduled A h'}"
    unfolding boltStore_sel by (rule HeightsBelowOrEqual_repr [OF r, of h]) blast
  show "\<exists>s'. ns_FinalizeKinder (boltStore ns) h txo s = (Inr (), s') \<and> repr ns s' (spec_FinalizeKinder h txo A) R"
    if "writable_tx txo" for txo
    using db_Update_succeeds [OF repr_FinalizeKinder [OF r, of txo h]] that
    by (cases txo) (simp_all add: boltStore_sel bolt_updates writable_tx_def)
next
  fix s A c assume r: "repr ns s A R"
  show "ns_IsMatureChannel (boltStore ns) c s
      = (if has_channel A c then Inr (mature A c) else Inl ErrContractNotFound)"
    using IsMatureChannel_repr [OF r, of c] by (simp add: boltStore_sel)
  show "\<exists>s'. ns_RemoveChannel (boltStore ns) c s = (Inr (), s') \<and> repr ns s' (spec_RemoveChannel c A) R"
    if "has_channel A c" "mature A c"
    using RemoveChannel_cases(2) [OF r that] by (simp add: boltStore_sel)
qed (simp_all add: boltStore_sel bolt_updates db_Update_succeeds repr_Incubate repr_CribToKinder
    repr_PreschoolToKinder ForChanOutputs_repr)

end
