(* ===== verification/NurserySweep.thy ===== *)
theory NurserySweep
  imports UtxoNursery
begin

text \<open>
  The sweep transaction of a kindergarten class: which inputs it has and in which order, what
  it pays, that every input carries the witness the signer made for it, and that it can be
  written to the store.
\<close>

section \<open>Sorting the class\<close>

definition csv_kids :: "kidOutput list \<Rightarrow> kidOutput list" where
  "csv_kids ks = filter (\<lambda>k. witnessType k \<in> {CommitmentTimeLock, HtlcOfferedTimeoutSecondLevel,
     HtlcAcceptedSuccessSecondLevel}) ks"

definition cltv_kids :: "kidOutput list \<Rightarrow> kidOutput list" where
  "cltv_kids ks = filter (\<lambda>k. witnessType k = HtlcOfferedRemoteTimeout) ks"

definition sweepable :: "kidOutput \<Rightarrow> bool" where
  "sweepable k \<longleftrightarrow> witnessType k \<in> {CommitmentTimeLock, HtlcOfferedTimeoutSecondLevel,
     HtlcAcceptedSuccessSecondLevel, HtlcOfferedRemoteTimeout}"

definition witness_estimate :: "kidOutput \<Rightarrow> nat" where
  "witness_estimate k = (if witnessType k = CommitmentTimeLock then ToLocalTimeoutWitnessSize
     else if witnessType k = HtlcOfferedRemoteTimeout then AcceptedHtlcTimeoutWitnessSize
     else SecondLevelHtlcSuccessWitnessSize)"

definition sweep_estimate :: "kidOutput list \<Rightarrow> TxWeightEstimator" where
  "sweep_estimate ks = (let n = length (filter sweepable ks) in
     \<lparr>we_hasWitness = (n \<noteq> 0), we_inputCount = n, we_outputCount = 1, we_inputSize = n * InputSize,
      we_inputWitnessSize = sum_list (map witness_estimate (filter sweepable ks)),
      we_outputSize = P2WKHOutputSize\<rparr>)"

lemma sweepInput_cases:
  "sweepInput k (w, a, b) =
     (if sweepable k then AddWitnessInput (witness_estimate k) w else w,
      a @ csv_kids [k], b @ cltv_kids [k])"
  by (auto simp: sweepInput_def sweepable_def witness_estimate_def csv_kids_def cltv_kids_def witness_types)

lemma fold_sweepInput_lists:
  "snd (fold sweepInput ks (w, a, b)) = (a @ csv_kids ks, b @ cltv_kids ks)"
  by (induction ks arbitrary: w a b) (simp_all add: sweepInput_cases csv_kids_def cltv_kids_def)

lemma fold_sweepInput_weight:
  "fst (fold sweepInput ks (w, a, b)) = fold (\<lambda>k. AddWitnessInput (witness_estimate k)) (filter sweepable ks) w"
  by (induction ks arbitrary: w a b) (simp_all add: sweepInput_cases)

lemma fold_sweepInput:
  "fold sweepInput ks (AddP2WKHOutput newEstimator, [], []) = (sweep_estimate ks, csv_kids ks, cltv_kids ks)"
proof -
  let ?r = "fold sweepInput ks (AddP2WKHOutput newEstimator, [], [])"
  have "fst ?r = sweep_estimate ks"
    by (simp add: fold_sweepInput_weight fold_AddWitnessInput sweep_estimate_def AddP2WKHOutput_def
        newEstimator_def Let_def)
  with fold_sweepInput_lists [of ks _ "[]" "[]"] show ?thesis by (metis append_Nil prod.collapse)
qed

lemma createSweepTx_eq:
  "createSweepTx cfg ks h = populateSweepTx cfg (VSize (sweep_estimate ks)) h (csv_kids ks) (cltv_kids ks)"
  by (simp add: createSweepTx_def fold_sweepInput)

lemma swept_set: "set (csv_kids ks @ cltv_kids ks) = {k \<in> set ks. sweepable k}"
  by (auto simp: csv_kids_def cltv_kids_def sweepable_def)

section \<open>The unsigned transaction\<close>

definition unsigned_in :: "u32 \<Rightarrow> kidOutput \<Rightarrow> TxIn" where
  "unsigned_in sq k = \<lparr>PreviousOutPoint = outpoint k, SignatureScript = [], Witness = [], Sequence = sq\<rparr>"

lemma sweepTemplate_eq:
  "sweepTemplate h script sat csv cltv =
     \<lparr>Version = 2, TxIns = map (\<lambda>k. unsigned_in (blocksToMaturity k) k) csv @ map (unsigned_in 0) cltv,
      TxOuts = [\<lparr>Value = sat, PkScript = script\<rparr>], LockTime = (if cltv = [] then 0 else h)\<rparr>"
  by (simp add: sweepTemplate_def fold_AddTxIn AddTxOut_def NewMsgTx_def Let_def unsigned_in_def)

lemma sumAmounts_eq: "sumAmounts ks s = s + sum_list (map amt ks)"
  unfolding sumAmounts_def by (induction ks arbitrary: s) (simp_all add: algebra_simps)

section \<open>The signed transaction\<close>

lemma populateSweepTx_cases:
  assumes "populateSweepTx cfg vs h csv cltv = Inr tx"
  obtains script rate tmpl tx1 where "cfg_GenSweepScript cfg = Inr script"
    "cfg_EstimateFeePerVSize cfg 6 = Inr rate"
    "tmpl = sweepTemplate h script (sum_list (map amt (csv @ cltv)) - FeeForVSize rate vs) csv cltv"
    "CheckTransactionSanity tmpl = None" "addWitnesses (cfg_BuildWitness cfg) 0 csv tmpl = Inr tx1"
    "addWitnesses (cfg_BuildWitness cfg) (length csv) cltv tx1 = Inr tx"
  using assms
  by (auto simp: populateSweepTx_def Let_def sumAmounts_eq split: sum.splits option.splits)

lemma sweep_signed:
  assumes "populateSweepTx cfg vs h csv cltv = Inr tx"
  obtains script rate tmpl where "cfg_GenSweepScript cfg = Inr script" "cfg_EstimateFeePerVSize cfg 6 = Inr rate"
    "tmpl = sweepTemplate h script (sum_list (map amt (csv @ cltv)) - FeeForVSize rate vs) csv cltv"
    "CheckTransactionSanity tmpl = None" "strip tx = strip tmpl"
    "\<forall>i < length (csv @ cltv). signed_for (cfg_BuildWitness cfg) tx i ((csv @ cltv) ! i)"
proof -
  obtain script rate tmpl tx1 where t: "cfg_GenSweepScript cfg = Inr script" "cfg_EstimateFeePerVSize cfg 6 = Inr rate"
    "tmpl = sweepTemplate h script (sum_list (map amt (csv @ cltv)) - FeeForVSize rate vs) csv cltv"
    "CheckTransactionSanity tmpl = None" "addWitnesses (cfg_BuildWitness cfg) 0 csv tmpl = Inr tx1"
    "addWitnesses (cfg_BuildWitness cfg) (length csv) cltv tx1 = Inr tx"
    using assms by (rule populateSweepTx_cases)
  have len: "length (TxIns tmpl) = length csv + length cltv" by (simp add: t(3) sweepTemplate_eq)
  have 1: "strip tx1 = strip tmpl" "\<forall>j < length csv. signed_for (cfg_BuildWitness cfg) tx1 j (csv ! j)"
    using addWitnesses_signed [OF t(5)] len by simp_all
  have 2: "strip tx = strip tx1" "\<forall>j < length cltv. signed_for (cfg_BuildWitness cfg) tx (length csv + j) (cltv ! j)"
      "\<forall>j < length (TxIns tx1). j < length csv \<longrightarrow> TxIns tx ! j = TxIns tx1 ! j"
    using addWitnesses_signed [OF t(6)] strip_length [OF 1(1)] len by simp_all
  have "signed_for (cfg_BuildWitness cfg) tx i ((csv @ cltv) ! i)" if i: "i < length (csv @ cltv)" for i
  proof (cases "i < length csv")
    case True
    with 1(2) have "signed_for (cfg_BuildWitness cfg) tx1 i (csv ! i)" by blast
    with True 2(1,3) strip_length [OF 2(1)] show ?thesis by (auto simp: signed_for_def nth_append)
  next
    case False
    with i have "i - length csv < length cltv" by simp
    with 2(2) have "signed_for (cfg_BuildWitness cfg) tx (length csv + (i - length csv)) (cltv ! (i - length csv))" by blast
    with False show ?thesis by (simp add: nth_append)
  qed
  with t 1(1) 2(1) show ?thesis by (intro that [of script rate tmpl]) simp_all
qed

definition sweep_shape :: "'s NurseryConfig \<Rightarrow> kidOutput list \<Rightarrow> u32 \<Rightarrow> MsgTx \<Rightarrow> bool" where
  "sweep_shape cfg ks h tx \<longleftrightarrow> (let swept = csv_kids ks @ cltv_kids ks in
     Version tx = 2 \<and> LockTime tx = (if cltv_kids ks = [] then 0 else h)
     \<and> map PreviousOutPoint (TxIns tx) = map outpoint swept \<and> distinct (map outpoint swept)
     \<and> map Sequence (TxIns tx) = map blocksToMaturity (csv_kids ks) @ map (\<lambda>_. 0) (cltv_kids ks)
     \<and> (\<forall>i < length swept. signed_for (cfg_BuildWitness cfg) tx i (swept ! i))
     \<and> (\<exists>script rate val. cfg_GenSweepScript cfg = Inr script \<and> cfg_EstimateFeePerVSize cfg 6 = Inr rate
          \<and> val = sum_list (map amt swept) - FeeForVSize rate (VSize (sweep_estimate ks))
          \<and> TxOuts tx = [\<lparr>Value = val, PkScript = script\<rparr>] \<and> 0 \<le> sint val \<and> sint val \<le> MaxSatoshi))"

lemma createSweepTx_shape:
  assumes "createSweepTx cfg ks h = Inr tx"
  shows "sweep_shape cfg ks h tx"
proof -
  let ?csv = "csv_kids ks" and ?cltv = "cltv_kids ks"
  obtain script rate tmpl where t: "cfg_GenSweepScript cfg = Inr script" "cfg_EstimateFeePerVSize cfg 6 = Inr rate"
    "tmpl = sweepTemplate h script
       (sum_list (map amt (?csv @ ?cltv)) - FeeForVSize rate (VSize (sweep_estimate ks))) ?csv ?cltv"
    "CheckTransactionSanity tmpl = None" "strip tx = strip tmpl"
    "\<forall>i < length (?csv @ ?cltv). signed_for (cfg_BuildWitness cfg) tx i ((?csv @ ?cltv) ! i)"
    using assms unfolding createSweepTx_eq by (rule sweep_signed)
  note eq = t(3) [unfolded sweepTemplate_eq]
  have pts: "map PreviousOutPoint (TxIns tmpl) = map outpoint (?csv @ ?cltv)"
    "map Sequence (TxIns tmpl) = map blocksToMaturity ?csv @ map (\<lambda>_. 0) ?cltv"
    by (simp_all add: eq unsigned_in_def)
  have dist: "distinct (map outpoint (?csv @ ?cltv))"
    using CheckTransactionSanity_None(2) [OF t(4)] unfolding pts(1) .
  have val: "0 \<le> sint (Value out) \<and> sint (Value out) \<le> MaxSatoshi" if "out \<in> set (TxOuts tmpl)" for out
    using CheckTransactionSanity_None(3) [OF t(4) that] .
  have ins: "map PreviousOutPoint (TxIns tx) = map outpoint (?csv @ ?cltv)"
    "map Sequence (TxIns tx) = map blocksToMaturity ?csv @ map (\<lambda>_. 0) ?cltv"
    using strip_map [OF t(5), of PreviousOutPoint] strip_map [OF t(5), of Sequence] pts by simp_all
  have "TxOuts tx = TxOuts tmpl" "LockTime tx = (if ?cltv = [] then 0 else h)" "Version tx = 2"
    using strip_fields [OF t(5)] by (simp_all add: eq)
  then show ?thesis
    unfolding sweep_shape_def Let_def using t(1,2,6) ins dist val by (simp add: eq)
qed

text \<open>The wallet and the fee estimator answer, and the class is worth sweeping.\<close>

lemma createSweepTx_complete:
  assumes "cfg_GenSweepScript cfg = Inr script" "cfg_EstimateFeePerVSize cfg 6 = Inr rate"
    "CheckTransactionSanity (sweepTemplate h script (sum_list (map amt (csv_kids ks @ cltv_kids ks))
       - FeeForVSize rate (VSize (sweep_estimate ks))) (csv_kids ks) (cltv_kids ks)) = None"
    "\<And>k tx i. \<exists>wit. cfg_BuildWitness cfg k tx i = Inr wit"
  shows "\<exists>tx. createSweepTx cfg ks h = Inr tx"
proof -
  have "\<exists>tx'. addWitnesses (cfg_BuildWitness cfg) i xs tx = Inr tx'" for i xs tx
  proof (induction xs arbitrary: i tx)
    case (Cons k xs)
    obtain wit where "cfg_BuildWitness cfg k tx i = Inr wit" using assms(4) by blast
    with Cons.IH [of "Suc i" "set_witness i wit tx"] show ?case unfolding addWitnesses_Cons by blast
  qed simp
  then obtain tx1 tx2 where "addWitnesses (cfg_BuildWitness cfg) 0 (csv_kids ks) (sweepTemplate h script
      (sum_list (map amt (csv_kids ks @ cltv_kids ks)) - FeeForVSize rate (VSize (sweep_estimate ks)))
      (csv_kids ks) (cltv_kids ks)) = Inr tx1" "addWitnesses (cfg_BuildWitness cfg) (length (csv_kids ks)) (cltv_kids ks) tx1 = Inr tx2"
    by blast
  with assms(1-3) show ?thesis
    by (simp add: createSweepTx_eq populateSweepTx_def sumAmounts_eq Let_def)
qed

section \<open>It fits into the store\<close>

definition signer_ok :: "'s NurseryConfig \<Rightarrow> bool" where
  "signer_ok cfg \<longleftrightarrow> witness_ok (cfg_BuildWitness cfg)"

lemma createSweepTx_writable:
  assumes "createSweepTx cfg ks h = Inr tx" "signer_ok cfg"
  shows "writable_tx (Some tx)"
proof -
  let ?csv = "csv_kids ks" and ?cltv = "cltv_kids ks"
  obtain script rate tmpl where t:
    "tmpl = sweepTemplate h script
       (sum_list (map amt (?csv @ ?cltv)) - FeeForVSize rate (VSize (sweep_estimate ks))) ?csv ?cltv"
    "CheckTransactionSanity tmpl = None" "strip tx = strip tmpl"
    "\<forall>i < length (?csv @ ?cltv). signed_for (cfg_BuildWitness cfg) tx i ((?csv @ ?cltv) ! i)"
    using assms(1) unfolding createSweepTx_eq by (rule sweep_signed)
  note eq = t(1) [unfolded sweepTemplate_eq]
  have "TxOuts tmpl = [\<lparr>Value = sum_list (map amt (?csv @ ?cltv)) - FeeForVSize rate (VSize (sweep_estimate ks)),
      PkScript = script\<rparr>]" "\<forall>ti \<in> set (TxIns tmpl). SignatureScript ti = []"
    "length (?csv @ ?cltv) = length (TxIns tmpl)"
    by (auto simp: eq unsigned_in_def)
  from signed_fits [OF t(2,3) this t(4)] assms(2) show ?thesis
    by (simp add: signer_ok_def writable_tx_def)
qed

end
