(* ===== verification/NurseryDriver.thy ===== *)
theory NurseryDriver
  imports NurseryContract NurserySweep
begin

text \<open>
  What the nursery does with blocks and confirmations, proved from the contract of the store:
  what a block broadcasts, that the sweep of a height is fixed once it is finalized, that a
  confirmed sweep graduates its class and removes the channels that are done, and that the
  store stays consistent whatever the backends refuse to do.
\<close>

section \<open>Broadcasting\<close>

definition backend_ok :: "'s NurseryConfig \<Rightarrow> bool" where
  "backend_ok cfg \<longleftrightarrow> (\<forall>tx. cfg_PublishTransaction cfg tx = None)
     \<and> (\<forall>txid n h. cfg_RegisterConfirmationsNtfn cfg txid n h = None)"

definition reg_for :: "'s NurseryConfig \<Rightarrow> MsgTx \<Rightarrow> u32 \<Rightarrow> waiter \<Rightarrow> registration" where
  "reg_for cfg tx h wt = \<lparr>reg_txid = cfg_TxHash cfg tx, reg_numConfs = cfg_ConfDepth cfg,
     reg_heightHint = h, reg_waiter = wt\<rparr>"

text \<open>What a handler may have done when it has not touched the store: broadcast some of \<open>txs\<close>, in order.\<close>

definition broadcasts :: "MsgTx list \<Rightarrow> 's utxoNursery \<Rightarrow> goerr + unit \<Rightarrow> 's utxoNursery \<Rightarrow> bool" where
  "broadcasts txs w r w' \<longleftrightarrow> un_store w' = un_store w \<and> bestHeight w' = bestHeight w
     \<and> (\<exists>xs. un_published w' = un_published w @ xs \<and> prefix xs txs \<and> (r = Inr () \<longrightarrow> xs = txs))"

lemma broadcasts_Nil: "broadcasts [] w r w"
  by (simp add: broadcasts_def)

lemma broadcasts_append:
  assumes "broadcasts txs w (Inr ()) w1" "broadcasts txs' w1 r w2"
  shows "broadcasts (txs @ txs') w r w2"
  using assms unfolding broadcasts_def by auto

lemma broadcasts_stop: "broadcasts txs w (Inl e) w' \<Longrightarrow> broadcasts (txs @ txs') w (Inl e) w'"
  unfolding broadcasts_def by (auto intro: prefix_prefix)

lemma broadcasts_bind:
  assumes "m w = (r1, w1)" "broadcasts txs w r1 w1" "ibind m f w = (r, w')"
    "\<And>r' w2. f () w1 = (r', w2) \<Longrightarrow> broadcasts txs' w1 r' w2"
  shows "broadcasts (txs @ txs') w r w'"
  using assms by (cases r1) (auto simp: ibind_def intro: broadcasts_append broadcasts_stop)

lemma Publish_run:
  "Publish cfg tx w = (case cfg_PublishTransaction cfg tx of Some e \<Rightarrow> (Inl e, w)
     | None \<Rightarrow> (Inr (), w\<lparr>un_published := un_published w @ [tx]\<rparr>))"
  by (simp add: Publish_def io_run split: option.split)

lemma Register_run:
  "Register cfg txid h wt w = (case cfg_RegisterConfirmationsNtfn cfg txid (cfg_ConfDepth cfg) h of
       Some e \<Rightarrow> (Inl e, w)
     | None \<Rightarrow> (Inr (), w\<lparr>un_waiting := un_waiting w @ [\<lparr>reg_txid = txid, reg_numConfs = cfg_ConfDepth cfg,
         reg_heightHint = h, reg_waiter = wt\<rparr>]\<rparr>))"
  by (simp add: Register_def io_run split: option.split)

lemma sweepMatureOutputs_broadcasts:
  "sweepMatureOutputs cfg h tx ks w = (r, w') \<Longrightarrow> broadcasts [tx] w r w'"
  by (auto simp: sweepMatureOutputs_def ibind_def registerSweepConf_def Publish_run Register_run broadcasts_def
      split: option.splits)

lemma sweepCrib_run:
  "ibind (newBabyCell b) (sweepCribOutput cfg h) w =
     (let w1 = w\<lparr>un_babies := un_babies w @ [b]\<rparr> in
      case cfg_PublishTransaction cfg (timeoutTx b) of Some e \<Rightarrow> (Inl e, w1)
      | None \<Rightarrow> (let w2 = w1\<lparr>un_published := un_published w @ [timeoutTx b]\<rparr> in
          case cfg_RegisterConfirmationsNtfn cfg (cfg_TxHash cfg (timeoutTx b)) (cfg_ConfDepth cfg) h of
            Some e \<Rightarrow> (Inl e, w2)
          | None \<Rightarrow> (Inr (), w2\<lparr>un_waiting := un_waiting w @
                [reg_for cfg (timeoutTx b) h (TimeoutConf (length (un_babies w)))]\<rparr>)))"
  by (simp add: ibind_def newBabyCell_def sweepCribOutput_def registerTimeoutConf_def Publish_run Register_run
      io_run reg_for_def Let_def split: option.split)

definition sweepCribs :: "'s NurseryConfig \<Rightarrow> u32 \<Rightarrow> babyOutput list \<Rightarrow> ('s utxoNursery, unit) io" where
  "sweepCribs cfg h bs = iforeach (\<lambda>b. ibind (newBabyCell b) (sweepCribOutput cfg h)) bs"

lemma sweepCribs_broadcasts: "sweepCribs cfg h bs w = (r, w') \<Longrightarrow> broadcasts (map timeoutTx bs) w r w'"
proof (induction bs arbitrary: w)
  case (Cons b bs)
  let ?m = "ibind (newBabyCell b) (sweepCribOutput cfg h)"
  obtain r1 w1 where m: "?m w = (r1, w1)" by (cases "?m w")
  have one: "broadcasts [timeoutTx b] w r1 w1"
    using m by (auto simp: sweepCrib_run broadcasts_def Let_def split: option.splits)
  show ?case
  proof (cases r1)
    case (Inl e)
    with Cons.prems m one broadcasts_stop [of "[timeoutTx b]" w e w1] show ?thesis by (auto simp: sweepCribs_def)
  next
    case (Inr u)
    with Cons.prems m have "sweepCribs cfg h bs w1 = (r, w')" by (simp add: sweepCribs_def)
    from broadcasts_append [OF _ Cons.IH [OF this], of "[timeoutTx b]" w] one Inr show ?thesis by simp
  qed
qed (auto simp: sweepCribs_def broadcasts_Nil)

text \<open>Each goroutine gets the output it was started for.\<close>

lemma sweepCribs_ok:
  assumes "backend_ok cfg"
  shows "\<exists>w'. sweepCribs cfg h bs w = (Inr (), w') \<and> un_babies w' = un_babies w @ bs
     \<and> un_waiting w' = un_waiting w @ map (\<lambda>i. reg_for cfg (timeoutTx (bs ! i)) h
           (TimeoutConf (length (un_babies w) + i))) [0..<length bs]"
proof (induction bs arbitrary: w)
  case (Cons b bs)
  let ?w1 = "w\<lparr>un_babies := un_babies w @ [b], un_published := un_published w @ [timeoutTx b],
      un_waiting := un_waiting w @ [reg_for cfg (timeoutTx b) h (TimeoutConf (length (un_babies w)))]\<rparr>"
  have "ibind (newBabyCell b) (sweepCribOutput cfg h) w = (Inr (), ?w1)"
    using assms by (simp add: sweepCrib_run backend_ok_def Let_def)
  with Cons.IH [of ?w1] show ?case
    by (auto simp: sweepCribs_def upt_conv_Cons map_Suc_upt [symmetric] simp del: upt_Suc)
qed (simp add: sweepCribs_def)

definition sweep_txs :: "MsgTx option \<Rightarrow> babyOutput list \<Rightarrow> MsgTx list" where
  "sweep_txs ftx bs = (case ftx of None \<Rightarrow> [] | Some tx \<Rightarrow> [tx]) @ map timeoutTx bs"

definition broadcastClass ::
  "'s NurseryConfig \<Rightarrow> u32 \<Rightarrow> MsgTx option \<Rightarrow> kidOutput list \<Rightarrow> babyOutput list \<Rightarrow> ('s utxoNursery, unit) io" where
  "broadcastClass cfg h ftx ks bs =
     ibind (case ftx of None \<Rightarrow> iret () | Some tx \<Rightarrow> sweepMatureOutputs cfg h tx ks) (\<lambda>_. sweepCribs cfg h bs)"

lemma broadcastClass_broadcasts:
  assumes "broadcastClass cfg h ftx ks bs w = (r, w')"
  shows "broadcasts (sweep_txs ftx bs) w r w'"
proof -
  let ?m = "case ftx of None \<Rightarrow> iret () | Some tx \<Rightarrow> sweepMatureOutputs cfg h tx ks"
  obtain r1 w1 where m: "?m w = (r1, w1)" by (cases "?m w")
  have "broadcasts (case ftx of None \<Rightarrow> [] | Some tx \<Rightarrow> [tx]) w r1 w1"
    using m by (auto simp: io_run intro: broadcasts_Nil sweepMatureOutputs_broadcasts split: option.splits)
  from broadcasts_bind [OF m this assms [unfolded broadcastClass_def] sweepCribs_broadcasts]
  show ?thesis by (simp add: sweep_txs_def)
qed

lemma broadcastClass_ok:
  assumes "backend_ok cfg"
  shows "\<exists>w'. broadcastClass cfg h ftx ks bs w = (Inr (), w') \<and> un_babies w' = un_babies w @ bs
     \<and> un_waiting w' = un_waiting w @ (case ftx of None \<Rightarrow> [] | Some tx \<Rightarrow> [reg_for cfg tx h (SweepConf h ks)])
         @ map (\<lambda>i. reg_for cfg (timeoutTx (bs ! i)) h (TimeoutConf (length (un_babies w) + i))) [0..<length bs]"
proof -
  let ?w1 = "case ftx of None \<Rightarrow> w | Some tx \<Rightarrow> w\<lparr>un_published := un_published w @ [tx],
     un_waiting := un_waiting w @ [reg_for cfg tx h (SweepConf h ks)]\<rparr>"
  have "(case ftx of None \<Rightarrow> iret () | Some tx \<Rightarrow> sweepMatureOutputs cfg h tx ks) w = (Inr (), ?w1)"
    using assms by (auto simp: io_run sweepMatureOutputs_def ibind_def Publish_run registerSweepConf_def
        Register_run backend_ok_def reg_for_def split: option.split)
  with sweepCribs_ok [OF assms, of h bs ?w1] show ?thesis
    unfolding broadcastClass_def ibind_def by (auto split: option.splits)
qed

section \<open>A block\<close>

text \<open>The sweep transaction of a class: the one finalized before, or a new one for a height not finalized yet.\<close>

definition classTx :: "'s NurseryConfig \<Rightarrow> nursery \<Rightarrow> u32 \<Rightarrow> kidOutput list \<Rightarrow> goerr + MsgTx option" where
  "classTx cfg A h ks = (if heightOr0 (lastFin A) < h \<and> ks \<noteq> []
     then (case createSweepTx cfg ks h of Inl e \<Rightarrow> Inl e | Inr tx \<Rightarrow> Inr (Some tx)) else Inr (fin A h))"

definition finalized :: "nursery \<Rightarrow> u32 \<Rightarrow> MsgTx option \<Rightarrow> nursery" where
  "finalized A h ftx = (if heightOr0 (lastFin A) < h then spec_FinalizeKinder h ftx A else A)"

definition class_of :: "nursery \<Rightarrow> u32 \<Rightarrow> kidOutput list \<Rightarrow> babyOutput list \<Rightarrow> bool" where
  "class_of A h ks bs \<longleftrightarrow> sorted_wrt out_less ks \<and> set ks = {k. outs A (key_of k) = Some (Kndr h k)}
     \<and> sorted_wrt out_less bs \<and> set bs = {b. outs A (key_of b) = Some (Crib b) \<and> expiry b = h}"

lemma wfA_writable: "wfA A \<Longrightarrow> writable_tx (fin A h)"
  by (auto simp: wfA_def writable_tx_def split: option.split)

lemma classTx_writable:
  assumes "classTx cfg A h ks = Inr ftx" "signer_ok cfg" "wfA A"
  shows "writable_tx ftx"
  using assms createSweepTx_writable [of cfg ks h] wfA_writable [OF assms(3), of h]
  by (auto simp: classTx_def split: if_splits sum.splits)

text \<open>The block handler in one piece, once the class is known.\<close>

lemma graduateClass_unfold:
  "graduateClass cfg h =
     ibind (imod (\<lambda>w. w\<lparr>bestHeight := h\<rparr>)) (\<lambda>_.
     ibind (u_View (ns_FetchClass (cfg_Store cfg) h)) (\<lambda>(ftx, ks, bs).
     ibind (u_View (ns_LastFinalizedHeight (cfg_Store cfg))) (\<lambda>lf.
     ibind (if h > lf
            then ibind (if ks \<noteq> [] then ibind (ilift (createSweepTx cfg ks h)) (\<lambda>tx. iret (Some tx)) else iret ftx)
                 (\<lambda>ftx. ibind (u_Update (ns_FinalizeKinder (cfg_Store cfg) h ftx)) (\<lambda>_. iret ftx))
            else iret ftx) (\<lambda>ftx.
     ibind (broadcastClass cfg h ftx ks bs) (\<lambda>_. u_Update (ns_GraduateHeight (cfg_Store cfg) h))))))"
  by (simp add: graduateClass_def broadcastClass_def sweepCribs_def ibind_assoc)

lemma out_less_asym: "out_less a b \<Longrightarrow> \<not> out_less b a"
  by (auto simp: out_less_def)

lemma class_of_unique:
  assumes "class_of A h ks bs" "class_of A' h ks' bs'" "outs A' = outs A"
  shows "ks' = ks" "bs' = bs"
  using assms sorted_wrt_unique [where R = out_less and xs = ks' and ys = ks, OF out_less_asym]
    sorted_wrt_unique [where R = out_less and xs = bs' and ys = bs, OF out_less_asym]
  by (simp_all add: class_of_def)

lemma outs_finalized [simp]: "outs (finalized A h ftx) = outs A" "lastGrad (finalized A h ftx) = lastGrad A"
  by (simp_all add: finalized_def spec_FinalizeKinder_def)

lemma outs_GraduateHeight [simp]: "outs (spec_GraduateHeight h A) = outs A" "fin (spec_GraduateHeight h A) = fin A"
    "lastFin (spec_GraduateHeight h A) = lastFin A" "lastGrad (spec_GraduateHeight h A) = Some h"
  by (simp_all add: spec_GraduateHeight_def)

text \<open>Once the class has its transaction, the transaction is in the store and the height is settled.\<close>

lemma finalized_fin:
  assumes "classTx cfg A h ks = Inr ftx" "class_of A h ks bs"
  shows "fin (finalized A h ftx) h = ftx" "\<not> heightOr0 (lastFin (finalized A h ftx)) < h"
proof -
  have "scheduled A h" if "ks \<noteq> []"
  proof -
    from that assms(2) have "hd ks \<in> {k. outs A (key_of k) = Some (Kndr h k)}"
      unfolding class_of_def using hd_in_set [OF that] by auto
    then show ?thesis
      unfolding scheduled_def by (intro exI [of _ "key_of (hd ks)"] exI [of _ "Kndr h (hd ks)"]) simp
  qed
  with assms(1) show "fin (finalized A h ftx) h = ftx"
    by (auto simp: classTx_def finalized_def spec_FinalizeKinder_def split: if_splits sum.splits option.splits)
  show "\<not> heightOr0 (lastFin (finalized A h ftx)) < h"
    by (auto simp: finalized_def spec_FinalizeKinder_def heightOr0_def)
qed

text \<open>The nursery after the channels among \<open>C\<close> that are done have been removed.\<close>

definition prune :: "OutPoint set \<Rightarrow> nursery \<Rightarrow> nursery" where
  "prune C A = A\<lparr>outs := (\<lambda>cp. if fst cp \<in> C \<and> mature A (fst cp) then None else outs A cp)\<rparr>"

lemma prune_empty [simp]: "prune {} A = A"
  by (simp add: prune_def)

lemma prune_insert:
  "prune (insert c C) A = prune C (if mature A c then spec_RemoveChannel c A else A)"
proof (cases "mature A c")
  case True
  have m: "mature (spec_RemoveChannel c A) c' \<longleftrightarrow> c' = c \<or> mature A c'" for c'
    by (auto simp: mature_def spec_RemoveChannel_def)
  have "(\<lambda>cp. if fst cp \<in> insert c C \<and> mature A (fst cp) then None else outs A cp) =
      (\<lambda>cp. if fst cp \<in> C \<and> (fst cp = c \<or> mature A (fst cp)) then None else if fst cp = c then None else outs A cp)"
    using True by (auto simp: fun_eq_iff)
  moreover have "outs (spec_RemoveChannel c A) = (\<lambda>cp. if fst cp = c then None else outs A cp)"
      "spec_RemoveChannel c A\<lparr>outs := f\<rparr> = A\<lparr>outs := f\<rparr>" for f
    by (simp_all add: spec_RemoveChannel_def)
  ultimately show ?thesis using True m by (simp add: prune_def cong: if_cong)
next
  case False
  then have "(\<lambda>cp. if fst cp \<in> insert c C \<and> mature A (fst cp) then None else outs A cp) =
      (\<lambda>cp. if fst cp \<in> C \<and> mature A (fst cp) then None else outs A cp)"
    by (auto simp: fun_eq_iff)
  with False show ?thesis by (simp add: prune_def)
qed

context nursery_store
begin

lemma graduateClass_cases [consumes 3, case_names create broadcast]:
  assumes cfg: "cfg_Store cfg = store" "signer_ok cfg" and r: "rep (un_store w) A"
  obtains (create) ks bs e where "class_of A h ks bs" "classTx cfg A h ks = Inl e"
      "graduateClass cfg h w = (Inl e, w\<lparr>bestHeight := h\<rparr>)"
  | (broadcast) ks bs ftx s1 r1 w1 where "class_of A h ks bs" "classTx cfg A h ks = Inr ftx"
      "rep s1 (finalized A h ftx)"
      "broadcastClass cfg h ftx ks bs (w\<lparr>bestHeight := h, un_store := s1\<rparr>) = (r1, w1)"
      "graduateClass cfg h w = (case r1 of Inl e \<Rightarrow> (Inl e, w1)
         | Inr _ \<Rightarrow> u_Update (ns_GraduateHeight store h) w1)"
proof -
  let ?w = "w\<lparr>bestHeight := h\<rparr>"
  obtain ks bs where c: "ns_FetchClass store h (un_store w) = Inr (fin A h, ks, bs)" "class_of A h ks bs"
    using FetchClass_law [OF r, of h] by (auto simp: class_of_def)
  have lf: "ns_LastFinalizedHeight store (un_store w) = Inr (heightOr0 (lastFin A))"
    using LastFinalizedHeight_law [OF r] by simp
  note run = graduateClass_unfold [of cfg h] cfg(1) c(1) lf ibind_def u_View_def u_Update_def io_run
  show thesis
  proof (cases "classTx cfg A h ks")
    case (Inl e)
    then have "graduateClass cfg h w = (Inl e, ?w)"
      by (auto simp: run classTx_def split: if_splits sum.splits)
    with Inl c(2) create show ?thesis by blast
  next
    case (Inr ftx)
    have wr: "writable_tx ftx" using classTx_writable [OF Inr cfg(2) rep_wf [OF r]] .
    obtain s1 where s1: "rep s1 (finalized A h ftx)"
        "heightOr0 (lastFin A) < h \<Longrightarrow> ns_FinalizeKinder store h ftx (un_store w) = (Inr (), s1)"
        "\<not> heightOr0 (lastFin A) < h \<Longrightarrow> s1 = un_store w"
      using FinalizeKinder_law [OF r wr, of h] r by (cases "heightOr0 (lastFin A) < h") (auto simp: finalized_def)
    obtain r1 w1 where b: "broadcastClass cfg h ftx ks bs (?w\<lparr>un_store := s1\<rparr>) = (r1, w1)"
      by (cases "broadcastClass cfg h ftx ks bs (?w\<lparr>un_store := s1\<rparr>)")
    have "graduateClass cfg h w = ibind (broadcastClass cfg h ftx ks bs)
        (\<lambda>_. u_Update (ns_GraduateHeight store h)) (?w\<lparr>un_store := s1\<rparr>)"
      using Inr s1(2,3)
      by (auto simp: run classTx_def split: if_splits sum.splits)
    also have "\<dots> = (case r1 of Inl e \<Rightarrow> (Inl e, w1) | Inr _ \<Rightarrow> u_Update (ns_GraduateHeight store h) w1)"
      using b by (simp add: ibind_def)
    finally show ?thesis using broadcast [OF c(2) Inr s1(1)] b by simp
  qed
qed

lemma graduateClass_ok:
  assumes cfg: "cfg_Store cfg = store" "signer_ok cfg" "backend_ok cfg" and r: "rep (un_store w) A"
    and c: "class_of A h ks bs" "classTx cfg A h ks = Inr ftx"
  shows "\<exists>w'. graduateClass cfg h w = (Inr (), w') \<and> rep (un_store w') (spec_GraduateHeight h (finalized A h ftx))
     \<and> un_published w' = un_published w @ sweep_txs ftx bs \<and> un_babies w' = un_babies w @ bs
     \<and> un_waiting w' = un_waiting w @ (case ftx of None \<Rightarrow> [] | Some tx \<Rightarrow> [reg_for cfg tx h (SweepConf h ks)])
         @ map (\<lambda>i. reg_for cfg (timeoutTx (bs ! i)) h (TimeoutConf (length (un_babies w) + i))) [0..<length bs]"
  using cfg(1,2) r
proof (cases rule: graduateClass_cases [where h = h])
  case (create ks' bs' e)
  with c class_of_unique [OF c(1) create(1)] show ?thesis by simp
next
  case (broadcast ks' bs' ftx' s1 r1 w1)
  have same: "ks' = ks" "bs' = bs" using class_of_unique [OF c(1) broadcast(1)] by simp_all
  then have ftx': "ftx' = ftx" using c(2) broadcast(2) by simp
  have ok: "r1 = Inr ()" "un_babies w1 = un_babies w @ bs" "un_waiting w1 = un_waiting w
         @ (case ftx of None \<Rightarrow> [] | Some tx \<Rightarrow> [reg_for cfg tx h (SweepConf h ks)])
         @ map (\<lambda>i. reg_for cfg (timeoutTx (bs ! i)) h (TimeoutConf (length (un_babies w) + i))) [0..<length bs]"
    using broadcastClass_ok [OF cfg(3), of h ftx ks bs "w\<lparr>bestHeight := h, un_store := s1\<rparr>"] broadcast(4) same ftx'
    by auto
  have b: "un_store w1 = s1" "un_published w1 = un_published w @ sweep_txs ftx bs"
    using broadcastClass_broadcasts [OF broadcast(4)] ok(1) same ftx' by (auto simp: broadcasts_def)
  have "rep (un_store w1) (finalized A h ftx)" using b(1) broadcast(3) ftx' by simp
  then obtain s2 where "ns_GraduateHeight store h (un_store w1) = (Inr (), s2)"
      "rep s2 (spec_GraduateHeight h (finalized A h ftx))"
    using GraduateHeight_law by blast
  with broadcast(5) ok b show ?thesis by (simp add: u_Update_def)
qed

text \<open>Whatever the backends refuse: what a block can have done.\<close>

lemma graduateClass_effect [consumes 4, case_names failed swept]:
  assumes cfg: "cfg_Store cfg = store" "signer_ok cfg" and r: "rep (un_store w) A"
    and run: "graduateClass cfg h w = (res, w')"
  obtains (failed) ks bs e where "class_of A h ks bs" "classTx cfg A h ks = Inl e" "res = Inl e"
      "w' = w\<lparr>bestHeight := h\<rparr>"
  | (swept) ks bs ftx xs where "class_of A h ks bs" "classTx cfg A h ks = Inr ftx"
      "un_published w' = un_published w @ xs" "prefix xs (sweep_txs ftx bs)" "res = Inr () \<Longrightarrow> xs = sweep_txs ftx bs"
      "rep (un_store w') (if res = Inr () then spec_GraduateHeight h (finalized A h ftx) else finalized A h ftx)"
  using cfg r
proof (cases rule: graduateClass_cases [where h = h])
  case (create ks bs e)
  with run have "res = Inl e" "w' = w\<lparr>bestHeight := h\<rparr>" by simp_all
  then show ?thesis by (rule failed [OF create(1,2)])
next
  case (broadcast ks bs ftx s1 r1 w1)
  obtain xs where b: "un_store w1 = s1" "un_published w1 = un_published w @ xs" "prefix xs (sweep_txs ftx bs)"
      "r1 = Inr () \<longrightarrow> xs = sweep_txs ftx bs"
    using broadcastClass_broadcasts [OF broadcast(4)] by (auto simp: broadcasts_def)
  have r1: "rep (un_store w1) (finalized A h ftx)" using broadcast(3) b(1) by simp
  obtain s2 where "ns_GraduateHeight store h (un_store w1) = (Inr (), s2)"
      "rep s2 (spec_GraduateHeight h (finalized A h ftx))"
    using GraduateHeight_law [OF r1] by blast
  with broadcast(5) run r1 b show ?thesis
    by (cases r1) (auto simp: u_Update_def intro!: swept [OF broadcast(1,2)])
qed

section \<open>Retrying a height\<close>

text \<open>The block handler run again and again for one height, each time in another environment.\<close>

lemma graduateClass_once:
  assumes cfg: "cfg_Store cfg = store" "signer_ok cfg" and r: "rep (un_store w) A"
    and c: "class_of A h ks bs" and pub: "set (un_published w) \<subseteq> P \<union> set_option (fin A h) \<union> timeoutTx ` set bs"
    and fresh: "heightOr0 (lastFin A) < h \<Longrightarrow> set (un_published w) \<subseteq> P \<union> timeoutTx ` set bs"
  shows "\<exists>A'. rep (un_store (snd (graduateClass cfg h w))) A' \<and> outs A' = outs A
     \<and> set (un_published (snd (graduateClass cfg h w))) \<subseteq> P \<union> set_option (fin A' h) \<union> timeoutTx ` set bs
     \<and> (heightOr0 (lastFin A') < h \<longrightarrow> set (un_published (snd (graduateClass cfg h w))) \<subseteq> P \<union> timeoutTx ` set bs)"
proof -
  obtain res w' where run: "graduateClass cfg h w = (res, w')" by (cases "graduateClass cfg h w")
  from cfg r run show ?thesis
  proof (cases rule: graduateClass_effect)
    case (failed ks' bs' e)
    with run r pub fresh show ?thesis by (intro exI [of _ A]) simp
  next
    case (swept ks' bs' ftx xs)
    have bs: "bs' = bs" using class_of_unique [OF c swept(1)] by simp
    let ?A = "finalized A h ftx"
    note f = finalized_fin [OF swept(2,1)]
    have xs: "set xs \<subseteq> set_option ftx \<union> timeoutTx ` set bs"
      using set_mono_prefix [OF swept(4)] by (auto simp: sweep_txs_def bs split: option.splits)
    have old: "set (un_published w) \<subseteq> P \<union> set_option ftx \<union> timeoutTx ` set bs"
    proof (cases "heightOr0 (lastFin A) < h")
      case False
      with swept(2) have "ftx = fin A h" by (simp add: classTx_def)
      with pub show ?thesis by simp
    qed (use fresh in auto)
    show ?thesis
      using swept(3,6) xs old f run
      by (intro exI [of _ "if res = Inr () then spec_GraduateHeight h ?A else ?A"]) auto
  qed
qed

lemma graduateClass_retries:
  assumes "\<And>cfg. cfg \<in> set cfgs \<Longrightarrow> cfg_Store cfg = store \<and> signer_ok cfg" "rep (un_store w) A"
    "class_of A h ks bs" "set (un_published w) \<subseteq> P \<union> set_option (fin A h) \<union> timeoutTx ` set bs"
    "heightOr0 (lastFin A) < h \<Longrightarrow> set (un_published w) \<subseteq> P \<union> timeoutTx ` set bs"
  shows "\<exists>ftx. set (un_published (fold (\<lambda>cfg w. snd (graduateClass cfg h w)) cfgs w))
     \<subseteq> P \<union> set_option ftx \<union> timeoutTx ` set bs"
  using assms
proof (induction cfgs arbitrary: w A)
  case (Cons cfg cfgs)
  obtain A' where A': "rep (un_store (snd (graduateClass cfg h w))) A'" "outs A' = outs A"
      "set (un_published (snd (graduateClass cfg h w))) \<subseteq> P \<union> set_option (fin A' h) \<union> timeoutTx ` set bs"
      "heightOr0 (lastFin A') < h \<Longrightarrow>
         set (un_published (snd (graduateClass cfg h w))) \<subseteq> P \<union> timeoutTx ` set bs"
    using graduateClass_once [of cfg, OF _ _ Cons.prems(2-5)] Cons.prems(1) by force
  have "class_of A' h ks bs" using Cons.prems(3) A'(2) by (simp add: class_of_def)
  from Cons.IH [OF _ A'(1) this A'(3,4)] Cons.prems(1) show ?case by simp
qed auto

section \<open>Confirmations\<close>

lemma closeAndRemoveIfMature_run:
  assumes "cfg_Store cfg = store" "rep (un_store w) A"
  shows "\<exists>s'. closeAndRemoveIfMature cfg c w = (Inr (), w\<lparr>un_store := s'\<rparr>)
     \<and> rep s' (if mature A c then spec_RemoveChannel c A else A)"
proof (cases "has_channel A c")
  case True
  show ?thesis
  proof (cases "mature A c")
    case m: True
    obtain s' where "ns_RemoveChannel store c (un_store w) = (Inr (), s')" "rep s' (spec_RemoveChannel c A)"
      using RemoveChannel_law [OF assms(2) True m] by blast
    with True m assms(1) IsMatureChannel_law [OF assms(2), of c] show ?thesis
      by (intro exI [of _ s']) (simp add: closeAndRemoveIfMature_def u_Update_def)
  next
    case False
    with True assms IsMatureChannel_law [OF assms(2), of c] show ?thesis
      by (intro exI [of _ "un_store w"]) (simp add: closeAndRemoveIfMature_def)
  qed
next
  case False
  then have "outs (spec_RemoveChannel c A) = outs A"
    by (auto simp: fun_eq_iff spec_RemoveChannel_def has_channel_def)
  then have "spec_RemoveChannel c A = A" by (simp add: spec_RemoveChannel_def)
  with False assms IsMatureChannel_law [OF assms(2), of c] show ?thesis
    by (intro exI [of _ "un_store w"]) (simp add: closeAndRemoveIfMature_def)
qed

lemma closeAll_run:
  assumes "cfg_Store cfg = store" "rep (un_store w) A"
  shows "\<exists>s'. iforeach (closeAndRemoveIfMature cfg) cs w = (Inr (), w\<lparr>un_store := s'\<rparr>) \<and> rep s' (prune (set cs) A)"
  using assms(2)
proof (induction cs arbitrary: w A)
  case (Cons c cs)
  let ?A = "if mature A c then spec_RemoveChannel c A else A"
  obtain s1 where s1: "closeAndRemoveIfMature cfg c w = (Inr (), w\<lparr>un_store := s1\<rparr>)" "rep s1 ?A"
    using closeAndRemoveIfMature_run [OF assms(1) Cons.prems] by blast
  then obtain s2 where "iforeach (closeAndRemoveIfMature cfg) cs (w\<lparr>un_store := s1\<rparr>) = (Inr (), w\<lparr>un_store := s2\<rparr>)"
      "rep s2 (prune (set cs) ?A)"
    using Cons.IH [of "w\<lparr>un_store := s1\<rparr>" ?A] by auto
  with s1(1) show ?case by (intro exI [of _ s2]) (simp add: prune_insert)
next
  case Nil
  then show ?case by (intro exI [of _ "un_store w"]) simp
qed

lemma waitForSweepConf_run:
  assumes "cfg_Store cfg = store" "rep (un_store w) A" "\<And>xs. set (cfg_rangeOrder cfg xs) = set xs"
  shows "\<exists>s'. waitForSweepConf cfg h ks w = (Inr (), w\<lparr>un_store := s'\<rparr>)
     \<and> rep s' (prune (originChanPoint ` set ks) (spec_GraduateKinder h A))"
proof -
  obtain s1 where s1: "ns_GraduateKinder store h (un_store w) = (Inr (), s1)" "rep s1 (spec_GraduateKinder h A)"
    using GraduateKinder_law [OF assms(2)] by blast
  let ?cs = "cfg_rangeOrder cfg (remdups (map originChanPoint ks))"
  have "set ?cs = originChanPoint ` set ks" using assms(3) by simp
  then obtain s2 where "iforeach (closeAndRemoveIfMature cfg) ?cs (w\<lparr>un_store := s1\<rparr>) = (Inr (), w\<lparr>un_store := s2\<rparr>)"
      "rep s2 (prune (originChanPoint ` set ks) (spec_GraduateKinder h A))"
    using closeAll_run [OF assms(1), of "w\<lparr>un_store := s1\<rparr>" "spec_GraduateKinder h A" ?cs] s1(2) by auto
  with s1(1) assms(1) show ?thesis
    by (intro exI [of _ s2]) (simp add: waitForSweepConf_def ibind_def u_Update_def)
qed

end

end
