(* ===== verification/NurseryStartup.thy ===== *)
theory NurseryStartup
  imports NurseryDriver
begin

text \<open>
  Restarting the nursery: the channels that are done are flushed, the outputs waiting for a
  confirmation are registered again, the classes below the last graduated height are taken up
  again and the blocks missed meanwhile are replayed.
\<close>

section \<open>Consistency across a handler\<close>

text \<open>Outputs stay as they are, except that channels that are done may have been removed.\<close>

definition shrinks :: "nursery \<Rightarrow> nursery \<Rightarrow> bool" where
  "shrinks A A' \<longleftrightarrow> (\<forall>cp. outs A' cp = outs A cp \<or> outs A' cp = None \<and> mature A (fst cp))"

lemma shrinks_outs: "outs A' = outs A \<Longrightarrow> shrinks A A'"
  by (simp add: shrinks_def)

lemma shrinks_mature:
  assumes "shrinks A A'" "mature A' c" shows "mature A c"
  unfolding mature_def
proof (intro allI impI)
  fix p e assume "outs A (c, p) = Some e"
  with assms show "stage_of e = SGrad" unfolding shrinks_def mature_def by (metis fst_conv)
qed

lemma shrinks_trans: "shrinks A A' \<Longrightarrow> shrinks A' A'' \<Longrightarrow> shrinks A A''"
  using shrinks_mature [of A A'] unfolding shrinks_def by metis

lemma shrinks_prune: "shrinks A (prune C A)"
  by (simp add: shrinks_def prune_def)

lemma shrinks_Crib: "shrinks A A' \<Longrightarrow> outs A cp = Some (Crib b) \<Longrightarrow> outs A' cp = Some (Crib b)"
  unfolding shrinks_def mature_def by (metis prod.exhaust_sel stage.distinct(5) stage_of.simps(1))

section \<open>Handlers that leave the store alone\<close>

abbreviation quiet :: "('s utxoNursery, 'a) io \<Rightarrow> bool" where
  "quiet m \<equiv> (\<forall>s. keeps (\<lambda>w. un_store w = s) m)"

lemma quietD: "quiet m \<Longrightarrow> m w = (r, w') \<Longrightarrow> un_store w' = un_store w"
  using keepsD [of "\<lambda>w'. un_store w' = un_store w" m w r w'] by simp

lemma quiet_Publish: "quiet (Publish cfg tx)"
  by (auto simp: keeps_def Publish_run split: option.splits)

lemma quiet_Register: "quiet (Register cfg txid h wt)"
  by (auto simp: keeps_def Register_run split: option.splits)

lemma quiet_View: "quiet (u_View f)"
  by (simp add: keeps_def u_View_def)

lemma quiet_cells: "quiet (newKidCell k)" "quiet (newBabyCell b)" "quiet (setKidCell i k)" "quiet (setBabyCell i b)"
  by (simp_all add: keeps_def newKidCell_def newBabyCell_def setKidCell_def setBabyCell_def io_run)

lemmas quiet_rules = quiet_Publish [rule_format] quiet_Register [rule_format] quiet_View [rule_format]
  quiet_cells [rule_format] keeps_bind keeps_iforeach keeps_If

lemma quiet_regraduateClass: "quiet (regraduateClass cfg h)"
  unfolding regraduateClass_def sweepCribOutput_def registerTimeoutConf_def registerSweepConf_def
  by (auto intro!: quiet_rules split: prod.split option.split)

lemma quiet_reloadPreschool: "quiet (reloadPreschool cfg)"
  unfolding reloadPreschool_def registerPreschoolConf_def
  by (auto intro!: quiet_rules split: option.split)

section \<open>The missed blocks\<close>

lemma unat_next: "(g :: u32) < best \<Longrightarrow> unat (g + 1) = Suc (unat g)"
proof -
  assume "g < best"
  moreover have "unat best < 2 ^ 32" using unsigned_less [of best] by simp
  ultimately show ?thesis by (simp add: unat_word_ariths word_less_nat_alt)
qed

lemma missedHeights_set:
  assumes "g < best"
  shows "set (missedHeights g best) = {h. g < h \<and> h \<le> best}"
proof -
  note g1 = unat_next [OF assms]
  have "h \<in> word_of_nat ` {Suc (unat g)..<Suc (unat best)} \<longleftrightarrow> g < h \<and> h \<le> best" for h :: u32
  proof
    assume "g < h \<and> h \<le> best"
    then have "unat h \<in> {Suc (unat g)..<Suc (unat best)}" by (simp add: word_less_nat_alt word_le_nat_alt Suc_le_eq)
    then show "h \<in> word_of_nat ` {Suc (unat g)..<Suc (unat best)}" 
      by (intro image_eqI [of _ _ "unat h"]) simp_all
  next
    assume "h \<in> word_of_nat ` {Suc (unat g)..<Suc (unat best)}"
    then obtain n where n: "h = word_of_nat n" "unat g < n" "n \<le> unat best" by auto
    have "unat best < 2 ^ 32" using unsigned_less [of best] by simp
    with n(3) have "n < 2 ^ 32" by simp
    then have "unat h = n" by (simp add: n(1) unat_of_nat take_bit_nat_eq_self)
    with n show "g < h \<and> h \<le> best" by (simp add: word_less_nat_alt word_le_nat_alt)
  qed
  then show ?thesis unfolding missedHeights_def g1 set_map set_upt by blast
qed

lemma missedHeights_last:
  assumes "g < best"
  obtains hs where "missedHeights g best = hs @ [best]"
proof -
  have "unat (g + 1) \<le> unat best" using assms by (simp add: unat_next word_less_nat_alt)
  then have "[unat (g + 1) ..< Suc (unat best)] = [unat (g + 1) ..< unat best] @ [unat best]" by simp
  then show ?thesis by (intro that [of "map word_of_nat [unat (g + 1) ..< unat best]"]) (simp add: missedHeights_def)
qed

section \<open>Restart\<close>

text \<open>Every crib output of \<open>A\<close> that expires at \<open>h\<close> has been broadcast.\<close>

definition cribs_sent :: "nursery \<Rightarrow> u32 \<Rightarrow> 's utxoNursery \<Rightarrow> bool" where
  "cribs_sent A h w \<longleftrightarrow> (\<forall>b. outs A (key_of b) = Some (Crib b) \<and> expiry b = h \<longrightarrow> timeoutTx b \<in> set (un_published w))"

lemma cribs_sent_mono:
  "cribs_sent A h w \<Longrightarrow> set (un_published w) \<subseteq> set (un_published w') \<Longrightarrow> cribs_sent A h w'"
  by (auto simp: cribs_sent_def)

lemma cribs_sent_class:
  "class_of A h ks bs \<Longrightarrow> timeoutTx ` set bs \<subseteq> set (un_published w) \<Longrightarrow> cribs_sent A h w"
  by (auto simp: cribs_sent_def class_of_def)

context nursery_store
begin

lemma regraduateClass_broadcasts:
  assumes "cfg_Store cfg = store" "rep (un_store w) A" "regraduateClass cfg h w = (r, w')"
  obtains ks bs where "class_of A h ks bs" "broadcasts (map timeoutTx bs) w r w'"
proof -
  obtain ks bs where c: "ns_FetchClass store h (un_store w) = Inr (fin A h, ks, bs)" "class_of A h ks bs"
    using FetchClass_law [OF assms(2), of h] by (auto simp: class_of_def)
  let ?m = "case fin A h of None \<Rightarrow> iret () | Some tx \<Rightarrow> registerSweepConf cfg tx ks h"
  obtain r1 w1 where m: "?m w = (r1, w1)" by (cases "?m w")
  have "broadcasts [] w r1 w1"
    using m by (auto simp: io_run registerSweepConf_def Register_run broadcasts_def split: option.splits)
  moreover have "ibind ?m (\<lambda>_. sweepCribs cfg h bs) w = (r, w')"
    using assms(1,3) c(1) by (simp add: regraduateClass_def ibind_def u_View_def sweepCribs_def)
  ultimately have "broadcasts ([] @ map timeoutTx bs) w r w'"
    by (rule broadcasts_bind [where m = ?m, OF m]) (rule sweepCribs_broadcasts)
  with c(2) that show ?thesis by simp
qed

lemma keeps_store:
  "quiet m \<Longrightarrow> keeps (\<lambda>w. \<exists>A'. rep (un_store w) A' \<and> shrinks A A') m"
proof (rule keepsI)
  fix w :: "'s utxoNursery"
  assume m: "quiet m" and "\<exists>A'. rep (un_store w) A' \<and> shrinks A A'"
  moreover obtain r w' where "m w = (r, w')" by (cases "m w")
  moreover from quietD [OF m this] have "un_store w' = un_store w" .
  ultimately show "\<exists>A'. rep (un_store (snd (m w))) A' \<and> shrinks A A'" by simp
qed

lemma keeps_closeAndRemove:
  assumes "cfg_Store cfg = store"
  shows "keeps (\<lambda>w. \<exists>A'. rep (un_store w) A' \<and> shrinks A A') (closeAndRemoveIfMature cfg c)"
proof (rule keepsI)
  fix w :: "'s utxoNursery"
  assume "\<exists>A'. rep (un_store w) A' \<and> shrinks A A'"
  then obtain A' where A': "rep (un_store w) A'" "shrinks A A'" by blast
  obtain s' where "closeAndRemoveIfMature cfg c w = (Inr (), w\<lparr>un_store := s'\<rparr>)" "rep s' (prune {c} A')"
    using closeAndRemoveIfMature_run [OF assms A'(1), of c] prune_insert [of c "{}" A'] by auto
  with shrinks_trans [OF A'(2) shrinks_prune] show "\<exists>A'. rep (un_store (snd (closeAndRemoveIfMature cfg c w))) A' \<and> shrinks A A'"
    by auto
qed

lemma keeps_graduateClass:
  assumes "cfg_Store cfg = store" "signer_ok cfg"
  shows "keeps (\<lambda>w. \<exists>A'. rep (un_store w) A' \<and> shrinks A A') (graduateClass cfg h)"
proof (rule keepsI)
  fix w :: "'s utxoNursery"
  assume "\<exists>A'. rep (un_store w) A' \<and> shrinks A A'"
  then obtain A' where A': "rep (un_store w) A'" "shrinks A A'" by blast
  obtain res w' where run: "graduateClass cfg h w = (res, w')" by (cases "graduateClass cfg h w")
  from assms A'(1) run have "\<exists>A''. rep (un_store w') A'' \<and> outs A'' = outs A'"
  proof (cases rule: graduateClass_effect)
    case failed
    with A'(1) show ?thesis by auto
  next
    case (swept ks bs ftx xs)
    then show ?thesis
      by (intro exI [of _ "if res = Inr () then spec_GraduateHeight h (finalized A' h ftx) else finalized A' h ftx"]) simp
  qed
  then show "\<exists>A'. rep (un_store (snd (graduateClass cfg h w))) A' \<and> shrinks A A'"
    using run shrinks_trans [OF A'(2) shrinks_outs] by auto
qed

text \<open>Whatever goes wrong during startup, the store stays consistent and nothing is lost.\<close>

lemma Start_consistent:
  assumes cfg: "cfg_Store cfg = store" "signer_ok cfg" and r: "rep (un_store w) A"
  shows "\<exists>A'. rep (un_store (snd (un_Start cfg w))) A' \<and> shrinks A A'"
proof -
  let ?J = "\<lambda>w. \<exists>A'. rep (un_store w) A' \<and> shrinks A A'"
  let ?flush = "ibind (ilift (cfg_FetchClosedChannels cfg)) (\<lambda>pendingCloseChans.
      ibind (iforeach (closeAndRemoveIfMature cfg) pendingCloseChans) (\<lambda>_.
        u_View (ns_LastGraduatedHeight (cfg_Store cfg))))"
  have J0: "?J w" using r shrinks_outs by blast
  have flush: "keeps ?J ?flush"
    by (intro keeps_bind keeps_iforeach keeps_pure keeps_closeAndRemove cfg keeps_store quiet_View)
  have reload: "keeps ?J (ibind (reloadPreschool cfg) (\<lambda>_. reloadClasses cfg lg))" for lg
    unfolding reloadClasses_def
    by (intro keeps_bind keeps_iforeach keeps_pure keeps_If keeps_graduateClass cfg
        keeps_store [OF quiet_View] keeps_store [OF quiet_regraduateClass] keeps_store [OF quiet_reloadPreschool])
  show ?thesis
  proof (cases "un_started w \<or> cfg_RegisterBlockEpochNtfn cfg \<noteq> None")
    case True
    with J0 show ?thesis by (auto simp: un_Start_def Let_def)
  next
    case False
    let ?w = "w\<lparr>un_started := True, un_subscribed := True\<rparr>"
    obtain r1 w1 where 1: "?flush ?w = (r1, w1)" by (cases "?flush ?w")
    have J1: "?J w1" using keepsD [OF flush _ 1] J0 by simp
    show ?thesis
    proof (cases r1)
      case (Inl e)
      with 1 False J1 show ?thesis by (simp add: un_Start_def Let_def)
    next
      case (Inr lg)
      let ?m = "ibind (reloadPreschool cfg) (\<lambda>_. reloadClasses cfg lg)"
      obtain r2 w2 where 2: "?m w1 = (r2, w2)" by (cases "?m w1")
      have "?J w2" using keepsD [OF reload J1 2] .
      with 1 2 Inr False show ?thesis by (cases r2) (simp_all add: un_Start_def Let_def)
    qed
  qed
qed

lemma regraduate_sends:
  assumes cfg: "cfg_Store cfg = store" and r: "rep (un_store w) A"
    and run: "iforeach (regraduateClass cfg) hs w = (Inr (), w')"
  shows "un_store w' = un_store w \<and> (\<forall>h \<in> set hs. cribs_sent A h w')"
proof -
  have step: "un_store w2 = un_store w1 \<and> cribs_sent A h w2 \<and> set (un_published w1) \<subseteq> set (un_published w2)"
    if same: "un_store w1 = un_store w" and one: "regraduateClass cfg h w1 = (Inr (), w2)" for h w1 w2
  proof -
    have "rep (un_store w1) A" using same r by simp
    then obtain ks bs where c: "class_of A h ks bs" "broadcasts (map timeoutTx bs) w1 (Inr ()) w2"
      using regraduateClass_broadcasts [OF cfg _ one] by blast
    then show ?thesis by (auto simp: broadcasts_def intro!: cribs_sent_class [OF c(1)])
  qed
  from iforeach_all [OF run, of "\<lambda>w1. un_store w1 = un_store w" "cribs_sent A"] show ?thesis
    using step cribs_sent_mono by (smt (verit))
qed

lemma graduate_sends:
  assumes cfg: "cfg_Store cfg = store" "signer_ok cfg" and r: "rep (un_store w) A"
    and run: "iforeach (graduateClass cfg) hs w = (Inr (), w')"
  shows "(\<exists>A'. rep (un_store w') A' \<and> outs A' = outs A) \<and> (\<forall>h \<in> set hs. cribs_sent A h w')
     \<and> (\<forall>h. cribs_sent A h w \<longrightarrow> cribs_sent A h w')"
proof -
  have step: "(\<exists>A'. rep (un_store w2) A' \<and> outs A' = outs A) \<and> cribs_sent A h w2
      \<and> set (un_published w1) \<subseteq> set (un_published w2)"
    if rep1: "\<exists>A'. rep (un_store w1) A' \<and> outs A' = outs A" and one: "graduateClass cfg h w1 = (Inr (), w2)"
    for h w1 w2
  proof -
    obtain A' where A': "rep (un_store w1) A'" "outs A' = outs A" using rep1 by blast
    from cfg A'(1) one show ?thesis
    proof (cases rule: graduateClass_effect)
      case (swept ks bs ftx xs)
      have "class_of A h ks bs" using swept(1) A'(2) by (simp add: class_of_def)
      then have "cribs_sent A h w2"
        using swept(3,5) by (intro cribs_sent_class) (auto simp: sweep_txs_def)
      with swept(3,6) A'(2) show ?thesis
        by (auto intro!: exI [of _ "spec_GraduateHeight h (finalized A' h ftx)"])
    qed simp
  qed
  show ?thesis
    using iforeach_all [OF run, of "\<lambda>w1. \<exists>A'. rep (un_store w1) A' \<and> outs A' = outs A" "cribs_sent A"]
      step cribs_sent_mono r by (smt (verit))
qed

text \<open>
  A reload that reports no error has broadcast the timeout transaction of every crib output
  that has expired, and has caught up with the chain.
\<close>

lemma reloadClasses_done:
  assumes cfg: "cfg_Store cfg = store" "signer_ok cfg" and r: "rep (un_store w) A"
    and best: "cfg_GetBestBlock cfg = Inr best" "lg \<noteq> 0" "lg \<le> best"
    and run: "reloadClasses cfg lg w = (Inr (), w')"
  shows "(\<forall>h. h \<le> best \<longrightarrow> cribs_sent A h w')
     \<and> (\<exists>A'. rep (un_store w') A' \<and> outs A' = outs A \<and> lastGrad A' = (if lg = best then lastGrad A else Some best))"
proof -
  obtain hs where hs: "ns_HeightsBelowOrEqual store lg (un_store w) = Inr hs"
      "set hs = {h'. h' \<le> lg \<and> scheduled A h'}"
    using HeightsBelowOrEqual_law [OF r, of lg] by auto
  obtain w1 where w1: "iforeach (regraduateClass cfg) hs w = (Inr (), w1)"
      "(if best = lg then iret () else iforeach (graduateClass cfg) (missedHeights lg best)) w1 = (Inr (), w')"
    using run best(2) hs(1) cfg(1)
    by (auto simp: reloadClasses_def ibind_def u_View_def io_run best(1) split: prod.splits sum.splits)
  have s1: "un_store w1 = un_store w" "\<forall>h \<in> set hs. cribs_sent A h w1"
    using regraduate_sends [OF cfg(1) r w1(1)] by simp_all
  have low: "cribs_sent A h w1" if "h \<le> lg" for h
  proof (cases "scheduled A h")
    case False
    then have "\<not> (outs A (key_of b) = Some (Crib b) \<and> expiry b = h)" for b
      unfolding scheduled_def by fastforce
    then show ?thesis by (auto simp: cribs_sent_def)
  qed (use that s1(2) hs(2) in auto)
  show ?thesis
  proof (cases "lg = best")
    case True
    with w1(2) s1(1) r low show ?thesis by (auto simp: io_run)
  next
    case False
    then have lt: "lg < best" using best(3) by simp
    have g: "iforeach (graduateClass cfg) (missedHeights lg best) w1 = (Inr (), w')" using w1(2) False by simp
    have r1: "rep (un_store w1) A" using r s1(1) by simp
    note sent = graduate_sends [OF cfg r1 g]
    have "cribs_sent A h w'" if "h \<le> best" for h
      using sent low [of h] that missedHeights_set [OF lt] by (cases "h \<le> lg") auto
    moreover obtain hs' where snoc: "missedHeights lg best = hs' @ [best]" using lt by (rule missedHeights_last)
    obtain w2 where w2: "iforeach (graduateClass cfg) hs' w1 = (Inr (), w2)" "graduateClass cfg best w2 = (Inr (), w')"
      using g unfolding snoc iforeach_snoc by blast
    obtain A2 where A2: "rep (un_store w2) A2" "outs A2 = outs A" using graduate_sends [OF cfg r1 w2(1)] by blast
    from cfg A2(1) w2(2) have "\<exists>A'. rep (un_store w') A' \<and> outs A' = outs A \<and> lastGrad A' = Some best"
    proof (cases rule: graduateClass_effect)
      case (swept ks bs ftx xs)
      with A2(2) show ?thesis by (auto intro!: exI [of _ "spec_GraduateHeight best (finalized A2 best ftx)"])
    qed simp
    ultimately show ?thesis using False by simp
  qed
qed

lemma Start_done:
  assumes cfg: "cfg_Store cfg = store" "signer_ok cfg" and r: "rep (un_store w) A"
    and best: "cfg_GetBestBlock cfg = Inr best" "lastGrad A = Some g" "g \<noteq> 0" "g \<le> best"
    and run: "\<not> un_started w" "un_Start cfg w = (Inr (), w')"
  shows "un_incubating w'
     \<and> (\<forall>b. outs A (key_of b) = Some (Crib b) \<and> expiry b \<le> best \<longrightarrow> timeoutTx b \<in> set (un_published w'))
     \<and> (\<exists>A'. rep (un_store w') A' \<and> shrinks A A' \<and> lastGrad A' = Some best)"
proof -
  obtain cs where cs: "cfg_FetchClosedChannels cfg = Inr cs" "cfg_RegisterBlockEpochNtfn cfg = None"
    using run by (auto simp: un_Start_def Let_def ibind_def ilift_def split: option.splits sum.splits prod.splits)
  let ?w = "w\<lparr>un_started := True, un_subscribed := True\<rparr>" and ?A = "prune (set cs) A"
  obtain s1 where s1: "iforeach (closeAndRemoveIfMature cfg) cs ?w = (Inr (), ?w\<lparr>un_store := s1\<rparr>)" "rep s1 ?A"
    using closeAll_run [OF cfg(1), of ?w A cs] r by auto
  have lg: "ns_LastGraduatedHeight store s1 = Inr g"
    using LastGraduatedHeight_law [OF s1(2)] best(2) by (simp add: prune_def heightOr0_def)
  let ?m = "ibind (reloadPreschool cfg) (\<lambda>_. reloadClasses cfg g)"
  obtain w2 where w2: "?m (?w\<lparr>un_store := s1\<rparr>) = (Inr (), w2)" "w' = w2\<lparr>un_incubating := True\<rparr>"
    using run cs s1(1) lg cfg(1)
    by (auto simp: un_Start_def Let_def ibind_def [of "ilift _"] ibind_def [of "iforeach _ _"] u_View_def io_run
        split: prod.splits sum.splits)
  obtain w1 where w1: "reloadPreschool cfg (?w\<lparr>un_store := s1\<rparr>) = (Inr (), w1)" "reloadClasses cfg g w1 = (Inr (), w2)"
    using w2(1) by (auto simp: ibind_def split: prod.splits sum.splits)
  have r1: "rep (un_store w1) ?A" using quietD [OF quiet_reloadPreschool w1(1)] s1(2) by simp
  note up = reloadClasses_done [OF cfg r1 best(1,3,4) w1(2)]
  obtain A2 where A2: "rep (un_store w2) A2" "outs A2 = outs ?A" "lastGrad A2 = Some best"
    using up best(2) by (auto simp: prune_def)
  have "timeoutTx b \<in> set (un_published w2)" if "outs A (key_of b) = Some (Crib b)" "expiry b \<le> best" for b
    using up shrinks_Crib [OF shrinks_prune that(1)] that(2) by (auto simp: cribs_sent_def)
  moreover have "shrinks A A2" using shrinks_trans [OF shrinks_prune shrinks_outs] A2(2) by blast
  ultimately show ?thesis using A2 w2(2) by auto
qed

text \<open>A restart at the height that was graduated last succeeds when the backends answer.\<close>

lemma regraduateClass_ok:
  assumes "cfg_Store cfg = store" "backend_ok cfg" "rep (un_store w) A"
  shows "\<exists>w'. regraduateClass cfg h w = (Inr (), w') \<and> rep (un_store w') A"
proof -
  obtain ks bs where c: "ns_FetchClass store h (un_store w) = Inr (fin A h, ks, bs)"
    using FetchClass_law [OF assms(3), of h] by auto
  let ?w = "case fin A h of None \<Rightarrow> w
    | Some tx \<Rightarrow> w\<lparr>un_waiting := un_waiting w @ [reg_for cfg tx h (SweepConf h ks)]\<rparr>"
  have "(case fin A h of None \<Rightarrow> iret () | Some tx \<Rightarrow> registerSweepConf cfg tx ks h) w = (Inr (), ?w)"
    using assms(2) by (auto simp: io_run registerSweepConf_def Register_run backend_ok_def reg_for_def split: option.split)
  moreover obtain w' where "sweepCribs cfg h bs ?w = (Inr (), w')" using sweepCribs_ok [OF assms(2)] by blast
  ultimately have "regraduateClass cfg h w = (Inr (), w')"
    using c assms(1) by (simp add: regraduateClass_def ibind_def u_View_def sweepCribs_def)
  with quietD [OF quiet_regraduateClass this] assms(3) show ?thesis by simp
qed

lemma reloadPreschool_ok:
  assumes "cfg_Store cfg = store" "backend_ok cfg" "\<And>c. \<exists>x. cfg_FetchClosedChannel cfg c = Inr x"
    "rep (un_store w) A"
  shows "\<exists>w'. reloadPreschool cfg w = (Inr (), w') \<and> rep (un_store w') A"
proof -
  obtain ks where ks: "ns_FetchPreschools store (un_store w) = Inr ks" using FetchPreschools_law [OF assms(4)] by blast
  let ?f = "\<lambda>k. ibind (newKidCell k) (\<lambda>kid. ibind (ilift (cfg_FetchClosedChannel cfg (originChanPoint k))) (\<lambda>closeSummary.
     (case closeSummary of None \<Rightarrow> iret () | Some closeHeight \<Rightarrow>
        registerPreschoolConf cfg kid (closeHeight - cfg_ConfDepth cfg))))"
  have "\<exists>w'. ?f k w = (Inr (), w') \<and> rep (un_store w') A" if "rep (un_store w) A" for k w
  proof -
    obtain x where "cfg_FetchClosedChannel cfg (originChanPoint k) = Inr x" using assms(3) by blast
    with that assms(2) show ?thesis
      by (cases x) (simp_all add: ibind_def newKidCell_def io_run registerPreschoolConf_def Register_run backend_ok_def)
  qed
  from iforeach_ok [where I = "\<lambda>w. rep (un_store w) A" and f = ?f, OF assms(4) this, of ks] ks assms(1)
  show ?thesis by (simp add: reloadPreschool_def ibind_def [of "u_View _"] u_View_def)
qed

lemma Start_ok:
  assumes cfg: "cfg_Store cfg = store" "backend_ok cfg" "\<And>c. \<exists>x. cfg_FetchClosedChannel cfg c = Inr x"
    "cfg_FetchClosedChannels cfg = Inr cs" "cfg_RegisterBlockEpochNtfn cfg = None"
    and r: "rep (un_store w) A" and best: "cfg_GetBestBlock cfg = Inr g" "lastGrad A = Some g"
  shows "\<exists>w'. un_Start cfg w = (Inr (), w')"
proof (cases "un_started w")
  case False
  let ?w = "w\<lparr>un_started := True, un_subscribed := True\<rparr>" and ?A = "prune (set cs) A"
  obtain s1 where s1: "iforeach (closeAndRemoveIfMature cfg) cs ?w = (Inr (), ?w\<lparr>un_store := s1\<rparr>)" "rep s1 ?A"
    using closeAll_run [OF cfg(1), of ?w A cs] r by auto
  have lg: "ns_LastGraduatedHeight store s1 = Inr g"
    using LastGraduatedHeight_law [OF s1(2)] best(2) by (simp add: prune_def heightOr0_def)
  obtain w1 where w1: "reloadPreschool cfg (?w\<lparr>un_store := s1\<rparr>) = (Inr (), w1)" "rep (un_store w1) ?A"
    using reloadPreschool_ok [OF cfg(1-3), of "?w\<lparr>un_store := s1\<rparr>" ?A] s1(2) by auto
  obtain hs where hs: "ns_HeightsBelowOrEqual store g (un_store w1) = Inr hs"
    using HeightsBelowOrEqual_law [OF w1(2), of g] by auto
  obtain w2 where w2: "iforeach (regraduateClass cfg) hs w1 = (Inr (), w2)"
    using iforeach_ok [where I = "\<lambda>w. rep (un_store w) ?A" and f = "regraduateClass cfg", OF w1(2)]
      regraduateClass_ok [OF cfg(1,2)] by blast
  have "reloadClasses cfg g w1 = (Inr (), w2)"
    using hs w2 cfg(1) best(1) by (simp add: reloadClasses_def ibind_def u_View_def io_run)
  with False s1(1) lg w1(1) cfg show ?thesis
    by (simp add: un_Start_def Let_def ibind_def u_View_def io_run)
qed (simp add: un_Start_def)

end

end
