(* ===== verification/NurseryReports.thy ===== *)
theory NurseryReports
  imports NurseryStartup
begin

text \<open>
  The maturity report, and the registration of new outputs: what the report adds up, and which
  output each goroutine started by \<^verbatim>\<open>IncubateOutputs\<close> ends up looking at.
\<close>

section \<open>The report\<close>

fun report_of :: "entry \<Rightarrow> contractMaturityReport \<Rightarrow> contractMaturityReport" where
  "report_of (Crib b) = AddLimboStage1TimeoutHtlc b" | "report_of (Pscl k) = reportPreschool k"
| "report_of (Kndr h k) = reportKinder k" | "report_of (Grad k) = reportGraduate k"

text \<open>What an entry adds to either balance.\<close>

fun limbo :: "entry \<Rightarrow> u64" where
  "limbo (Crib b) = amt b"
| "limbo (Pscl k) = (if witnessType k \<in> {CommitmentTimeLock, HtlcAcceptedSuccessSecondLevel} then amt k else 0)"
| "limbo (Kndr h k) = (if sweepable k then amt k else 0)"
| "limbo (Grad k) = 0"

fun recovered :: "entry \<Rightarrow> u64" where
  "recovered (Grad k) = (if sweepable k then amt k else 0)"
| "recovered e = 0"

lemma prefix_stages [simp]:
  "HasPrefix (okey s p) cribPrefix \<longleftrightarrow> s = SCrib" "HasPrefix (okey s p) psclPrefix \<longleftrightarrow> s = SPscl"
  "HasPrefix (okey s p) kndrPrefix \<longleftrightarrow> s = SKndr"
  using okey_HasPrefix [of s p SCrib] okey_HasPrefix [of s p SPscl] okey_HasPrefix [of s p SKndr] by simp_all

lemma reportOutput_entry:
  assumes "valid_entry e"
  shows "reportOutput (okey (stage_of e) p) (Some (enc e)) acc = Inr (report_of e acc)"
proof (cases e)
  case (Crib b)
  with assms show ?thesis
    unfolding reportOutput_def prefix_stages by (simp add: baby_codec.decode_bytes_enc)
next
  case (Pscl k)
  with assms show ?thesis
    unfolding reportOutput_def prefix_stages by (simp add: kid_codec.decode_bytes_enc)
next
  case (Kndr h k)
  with assms show ?thesis
    unfolding reportOutput_def prefix_stages by (simp add: kid_codec.decode_bytes_enc)
next
  case (Grad k)
  with assms show ?thesis
    unfolding reportOutput_def prefix_stages HasPrefix_grad by (simp add: kid_codec.decode_bytes_enc)
qed

lemmas report_adds = AddLimboCommitment_def AddRecoveredCommitment_def AddLimboStage1TimeoutHtlc_def
  AddLimboDirectHtlc_def AddLimboStage1SuccessHtlc_def AddLimboStage2Htlc_def AddRecoveredHtlc_def
  reportPreschool_def reportKinder_def reportGraduate_def

lemma report_of_balances:
  "limboBalance (report_of e r) = limboBalance r + limbo e"
  "recoveredBalance (report_of e r) = recoveredBalance r + recovered e"
  "cr_chanPoint (report_of e r) = cr_chanPoint r"
  by (cases e; simp add: report_adds Let_def sweepable_def witness_types)+

lemma fold_report_balances:
  "limboBalance (fold report_of es r) = limboBalance r + sum_list (map limbo es)"
  "recoveredBalance (fold report_of es r) = recoveredBalance r + sum_list (map recovered es)"
  "cr_chanPoint (fold report_of es r) = cr_chanPoint r"
  by (induction es arbitrary: r) (simp_all add: report_of_balances algebra_simps)

context nursery_store
begin

lemma NurseryReport_run:
  assumes "cfg_Store cfg = store" "rep (un_store w) A" "has_channel A c"
  shows "\<exists>es. NurseryReport cfg c w = (Inr (fold report_of es (emptyReport c)), w) \<and> distinct es
     \<and> set es = {e. \<exists>p. outs A (c, p) = Some e}"
proof -
  have "reportOutput (okey (stage_of e) p) (Some (enc e)) acc = Inr (report_of e acc)"
    if "outs A (c, p) = Some e" for p e acc
    using that rep_wf [OF assms(2)] by (intro reportOutput_entry) (auto simp: wfA_def storable_def)
  from ForChanOutputs_law [OF assms(2,3), where cb = reportOutput and g = report_of, OF this]
  show ?thesis using assms(1) by (simp add: NurseryReport_def u_View_def)
qed

end

section \<open>Waiting for new outputs\<close>

definition preschool_reg :: "'s NurseryConfig \<Rightarrow> u32 \<Rightarrow> nat \<Rightarrow> kidOutput \<Rightarrow> registration" where
  "preschool_reg cfg h cell k = \<lparr>reg_txid = Hash (outpoint k), reg_numConfs = cfg_ConfDepth cfg,
     reg_heightHint = h, reg_waiter = PreschoolConf cell\<rparr>"

lemma register_loop:
  assumes "backend_ok cfg" "cell < length (un_kids w)"
  shows "iforeach (\<lambda>k. ibind (setKidCell cell k) (\<lambda>_. ibind (iget bestHeight) (registerPreschoolConf cfg cell))) ks w
     = (Inr (), w\<lparr>un_kids := (if ks = [] then un_kids w else (un_kids w)[cell := last ks]),
         un_waiting := un_waiting w @ map (preschool_reg cfg (bestHeight w) cell) ks\<rparr>)"
  using assms(2)
proof (induction ks arbitrary: w)
  case (Cons k ks)
  let ?w = "w\<lparr>un_kids := (un_kids w)[cell := k],
    un_waiting := un_waiting w @ [preschool_reg cfg (bestHeight w) cell k]\<rparr>"
  have "ibind (setKidCell cell k) (\<lambda>_. ibind (iget bestHeight) (registerPreschoolConf cfg cell)) w = (Inr (), ?w)"
    using assms(1) Cons.prems
    by (simp add: setKidCell_def registerPreschoolConf_def ibind_def io_run Register_run backend_ok_def preschool_reg_def)
  with Cons.IH [of ?w] Cons.prems show ?case by simp
qed simp

text \<open>All goroutines get the same cell, and it holds the last of the outputs.\<close>

lemma registerPreschools_run:
  assumes "backend_ok cfg" "ks \<noteq> []"
  shows "registerPreschools cfg ks w = (Inr (), w\<lparr>un_kids := un_kids w @ [last ks],
     un_waiting := un_waiting w @ map (preschool_reg cfg (bestHeight w) (length (un_kids w))) ks\<rparr>)"
proof -
  obtain k ks' where ks: "ks = k # ks'" using assms(2) by (cases ks) auto
  let ?w = "w\<lparr>un_kids := un_kids w @ [k]\<rparr>"
  have "newKidCell k w = (Inr (length (un_kids w)), ?w)" by (simp add: newKidCell_def)
  with register_loop [OF assms(1), of "length (un_kids w)" ?w ks] assms(2) show ?thesis
    by (simp add: registerPreschools_def ks ibind_def)
qed

end
