(* ===== verification/NurseryProps.thy ===== *)
theory NurseryProps
  imports NurserySteps
begin

text \<open>
  The correctness statements of the nursery store, over the exported methods of
  nursery_store.go, with a concrete store on which each of them is exercised.
\<close>

section \<open>A concrete store\<close>

definition demo_sd :: SignDescriptor where
  "demo_sd = \<lparr>Family = 0, KeyIndex = 0, PubKey = None, SingleTweak = None, DoubleTweak = None,
     WitnessScript = [0x51], Output = \<lparr>Value = 100000, PkScript = [0x00, 0x20]\<rparr>, HashType = 1\<rparr>"

definition demo_point :: "nat \<Rightarrow> OutPoint" where
  "demo_point n = \<lparr>Hash = word_of_nat n, Index = 1\<rparr>"

definition demo_tx :: MsgTx where
  "demo_tx = \<lparr>Version = 2,
     TxIns = [\<lparr>PreviousOutPoint = demo_point 3, SignatureScript = [], Witness = [[0x30]], Sequence = 0\<rparr>],
     TxOuts = [\<lparr>Value = 90000, PkScript = [0x00, 0x20]\<rparr>], LockTime = 500\<rparr>"

definition demo_kid :: kidOutput where
  "demo_kid = makeKidOutput (demo_point 4) (demo_point 9) 144 CommitmentTimeLock demo_sd 0"

definition demo_baby :: babyOutput where
  "demo_baby = makeBabyOutput (demo_point 9)
     \<lparr>Expiry = 500, SignedTimeoutTx = Some demo_tx, out_CsvDelay = 144,
      out_ClaimOutpoint = demo_point 2, out_SweepSignDesc = demo_sd\<rparr> demo_tx"

definition demo_ns :: nurseryStore where "demo_ns = newNurseryStore 5"

definition demo_db :: db where
  "demo_db = snd (Incubate demo_ns [demo_kid] [demo_baby] empty_db)"

definition demo_A :: nursery where
  "demo_A = spec_Incubate [demo_kid] [demo_baby] empty_nursery"

lemmas demo_defs = demo_sd_def demo_point_def demo_tx_def demo_kid_def demo_baby_def
  makeKidOutput_def makeBabyOutput_def makeBreachedOutput_def record_parts

lemma wf_demo_tx: "wf_tx demo_tx"
  by (simp add: demo_defs wf_tx_def wf_txin_def wire_limits)

lemma length_demo_tx: "length (Serialize demo_tx) \<le> 1000"
  by (simp add: demo_defs Serialize_def BtcEncode_def HasWitness_def writeTxIn_def wire_WriteTxOut_def
      writeTxWitness_def wire_writeOutPoint_def WriteVarInt_def WriteVarBytes_def)

lemma length_demo_sd: "length (WriteSignDescriptor demo_sd) \<le> 100"
  by (simp add: demo_defs WriteSignDescriptor_def lnwallet_writeTxOut_def WriteVarBytes_def WriteVarInt_def)

lemma valid_demo_sd: "valid_sd demo_sd"
  by (simp add: demo_defs valid_sd_def)

lemma storable_demo_kid: "storable (Pscl demo_kid)"
  using length_demo_sd valid_demo_sd
  by (simp add: storable_def demo_kid_def valid_makeKidOutput kid_Encode_def MaxValueSize_def
      makeKidOutput_def makeBreachedOutput_def record_parts valid_kid_def)

lemma storable_demo_baby: "storable (Crib demo_baby)"
  using length_demo_sd valid_demo_sd length_demo_tx wf_demo_tx
  by (simp add: storable_def demo_baby_def kid_Encode_def MaxValueSize_def makeBabyOutput_def valid_baby_def
      makeKidOutput_def makeBreachedOutput_def record_parts valid_kid_def baby_Encode_def)

lemma demo_keys: "key_of demo_kid = (demo_point 9, demo_point 4)" "key_of demo_baby = (demo_point 9, demo_point 2)"
    "demo_point 4 \<noteq> demo_point 2" "demo_point 2 \<noteq> demo_point 4" "expiry demo_baby = 500"
  by (simp_all add: key_of_def demo_defs)

lemma incubatable_demo: "incubatable [demo_kid] [demo_baby] empty_nursery"
  using storable_demo_kid storable_demo_baby demo_keys
  by (simp add: incubatable_def empty_nursery_def)

lemma repr_demo: "repr demo_ns demo_db demo_A (rest demo_ns empty_db)"
  using db_Update_succeeds [OF repr_Incubate [OF repr_fresh [OF fresh_empty [of 5]] incubatable_demo]]
  by (auto simp: demo_db_def demo_A_def demo_ns_def Incubate_def)

lemma outs_demo:
  "outs demo_A = [(demo_point 9, demo_point 4) \<mapsto> Pscl demo_kid, (demo_point 9, demo_point 2) \<mapsto> Crib demo_baby]"
  by (auto simp: demo_A_def spec_Incubate_def spec_enterPreschool_def spec_enterCrib_def put_out_def
      empty_nursery_def demo_keys)

section \<open>Entering and moving on\<close>

text \<open>
  Incubating a batch of outputs, none of which is in the nursery at another stage,
  succeeds and adds exactly those that were not there, leaving every other entry, the
  finalized transactions and the recorded heights as they were.
\<close>

theorem Incubate_refines:
  assumes "repr ns t A R" "incubatable kids babies A"
  shows "\<exists>t'. Incubate ns kids babies t = (Inr (), t') \<and> repr ns t' (spec_Incubate kids babies A) R"
  unfolding Incubate_def by (rule db_Update_succeeds [OF repr_Incubate [OF assms]])

theorem Incubate_refines_witness:
  "\<exists>t'. Incubate (newNurseryStore 5) [demo_kid] [demo_baby] empty_db = (Inr (), t')
     \<and> repr (newNurseryStore 5) t' (spec_Incubate [demo_kid] [demo_baby] empty_nursery)
         (rest (newNurseryStore 5) empty_db)"
  by (rule Incubate_refines [OF repr_fresh [OF fresh_empty] incubatable_demo])

text \<open>
  C35. A confirmed timeout transaction moves its output from the crib to kindergarten: the
  crib entry leaves both indexes, a height with nothing left on it is pruned with its
  finalized transaction, and the output is scheduled for the end of its CSV delay.
\<close>

theorem CribToKinder_refines:
  assumes "repr ns t A R" "outs A (key_of b) = Some (Crib b0)" "expiry b0 = expiry b" "storable (Crib b)"
  shows "\<exists>t'. CribToKinder ns b t = (Inr (), t') \<and> repr ns t' (spec_CribToKinder b A) R"
  unfolding CribToKinder_def by (rule db_Update_succeeds [OF repr_CribToKinder [OF assms]])

definition demo_baby_confirmed :: babyOutput where
  "demo_baby_confirmed = SetConfHeight 510 demo_baby"

lemma demo_confirmed:
  "key_of demo_baby_confirmed = key_of demo_baby" "expiry demo_baby_confirmed = expiry demo_baby"
  "storable (Crib demo_baby_confirmed)"
  using storable_demo_baby
  by (simp_all add: demo_baby_confirmed_def SetConfHeight_def key_of_def storable_def valid_baby_def
      valid_kid_def baby_Encode_def kid_Encode_def)

theorem CribToKinder_refines_witness:
  "\<exists>t'. CribToKinder demo_ns demo_baby_confirmed demo_db = (Inr (), t')
     \<and> repr demo_ns t' (spec_CribToKinder demo_baby_confirmed demo_A) (rest demo_ns empty_db)"
  by (rule CribToKinder_refines [OF repr_demo, of _ demo_baby])
    (simp_all add: demo_confirmed demo_keys outs_demo)

text \<open>
  A confirmed preschool output moves to kindergarten with its confirmation height, and
  is scheduled for its maturity, or for the next block when that height was already
  graduated.
\<close>

theorem PreschoolToKinder_refines:
  assumes "repr ns t A R" "outs A (key_of k) = Some (Pscl k0)" "storable (Pscl k)"
  shows "\<exists>t'. PreschoolToKinder ns k t = (Inr (), t') \<and> repr ns t' (spec_PreschoolToKinder k A) R"
  unfolding PreschoolToKinder_def by (rule db_Update_succeeds [OF repr_PreschoolToKinder [OF assms]])

definition demo_kid_confirmed :: kidOutput where
  "demo_kid_confirmed = SetConfHeight 100 demo_kid"

lemma demo_kid_confirmed_props:
  "key_of demo_kid_confirmed = key_of demo_kid" "storable (Pscl demo_kid_confirmed)"
  using storable_demo_kid
  by (simp_all add: demo_kid_confirmed_def SetConfHeight_def key_of_def storable_def
      valid_kid_def kid_Encode_def)

theorem PreschoolToKinder_refines_witness:
  "\<exists>t'. PreschoolToKinder demo_ns demo_kid_confirmed demo_db = (Inr (), t')
     \<and> repr demo_ns t' (spec_PreschoolToKinder demo_kid_confirmed demo_A) (rest demo_ns empty_db)"
  by (rule PreschoolToKinder_refines [OF repr_demo, of _ demo_kid])
    (simp_all add: demo_kid_confirmed_props demo_keys outs_demo)

text \<open>
  C34. \<^verbatim>\<open>GraduateKinder\<close> never fails: it turns every kindergarten output of the height into a
  graduated one, removes the class from the height index and drops the finalized transaction
  of the height; crib outputs of the same height and all other heights stay. The cursor
  loops are over buckets the loop itself empties and prunes.
\<close>

theorem GraduateKinder_refines:
  assumes "repr ns t A R"
  shows "\<exists>t'. GraduateKinder ns h t = (Inr (), t') \<and> repr ns t' (spec_GraduateKinder h A) R"
  unfolding GraduateKinder_def by (rule db_Update_succeeds [OF repr_GraduateKinder [OF assms]])

theorem GraduateKinder_refines_witness:
  "\<exists>t'. GraduateKinder demo_ns 500 demo_db = (Inr (), t')
     \<and> repr demo_ns t' (spec_GraduateKinder 500 demo_A) (rest demo_ns empty_db)"
  by (rule GraduateKinder_refines [OF repr_demo])

section \<open>Reading the store\<close>

text \<open>
  \<^verbatim>\<open>FetchClass\<close> of a consistent store never fails. It returns the finalized transaction
  of the height and exactly the kindergarten outputs scheduled there and the crib outputs
  that expire there, each once, in key order.
\<close>

theorem FetchClass_exact:
  assumes "repr ns t A R"
  shows "\<exists>kids babies. FetchClass ns h t = Inr (fin A h, kids, babies)
     \<and> sorted_wrt out_less kids \<and> set kids = {k. outs A (key_of k) = Some (Kndr h k)}
     \<and> sorted_wrt out_less babies
     \<and> set babies = {b. outs A (key_of b) = Some (Crib b) \<and> expiry b = h}"
  by (rule FetchClass_repr [OF assms, of h]) blast

theorem FetchClass_exact_witness:
  "\<exists>kids babies. FetchClass demo_ns 500 demo_db = Inr (fin demo_A 500, kids, babies)
     \<and> sorted_wrt out_less kids \<and> set kids = {k. outs demo_A (key_of k) = Some (Kndr 500 k)}
     \<and> sorted_wrt out_less babies
     \<and> set babies = {b. outs demo_A (key_of b) = Some (Crib b) \<and> expiry b = 500}"
  by (rule FetchClass_exact [OF repr_demo])

text \<open>
  \<^verbatim>\<open>FetchPreschools\<close> of a consistent store never fails and returns exactly the preschool
  outputs of all channels, each once, in key order.
\<close>

theorem FetchPreschools_exact:
  assumes "repr ns t A R"
  shows "\<exists>kids. FetchPreschools ns t = Inr kids \<and> sorted_wrt out_less kids
     \<and> set kids = {k. outs A (key_of k) = Some (Pscl k)}"
  by (rule FetchPreschools_repr [OF assms]) blast

theorem FetchPreschools_exact_witness:
  "\<exists>kids. FetchPreschools demo_ns demo_db = Inr kids \<and> sorted_wrt out_less kids
     \<and> set kids = {k. outs demo_A (key_of k) = Some (Pscl k)}"
  by (rule FetchPreschools_exact [OF repr_demo])

text \<open>
  \<^verbatim>\<open>HeightsBelowOrEqual\<close> returns, in increasing order, exactly the heights up to the
  bound at which an output is scheduled: the byte order of the big-endian keys is the order
  of the heights, and no empty height bucket is left behind.
\<close>

theorem HeightsBelowOrEqual_exact:
  assumes "repr ns t A R"
  shows "\<exists>hs. HeightsBelowOrEqual ns h t = Inr hs \<and> sorted_wrt (<) hs
     \<and> set hs = {h'. h' \<le> h \<and> scheduled A h'}"
  by (rule HeightsBelowOrEqual_repr [OF assms, of h]) blast

theorem HeightsBelowOrEqual_exact_witness:
  "\<exists>hs. HeightsBelowOrEqual demo_ns 600 demo_db = Inr hs \<and> sorted_wrt (<) hs
     \<and> set hs = {h'. h' \<le> 600 \<and> scheduled demo_A h'}"
  by (rule HeightsBelowOrEqual_exact [OF repr_demo])

section \<open>Finishing a channel\<close>

text \<open>
  A channel can be removed exactly when \<^verbatim>\<open>IsMatureChannel\<close> says so: removing it then
  erases its entries and nothing else; as long as one output has not graduated the removal
  is refused with \<^verbatim>\<open>ErrImmatureChannel\<close> and, whatever the loop had deleted by then, the
  database is unchanged.
\<close>

theorem RemoveChannel_iff_mature:
  assumes "repr ns t A R" "has_channel A c"
  shows "if IsMatureChannel ns c t = Inr True
         then \<exists>t'. RemoveChannel ns c t = (Inr (), t') \<and> repr ns t' (spec_RemoveChannel c A) R
         else IsMatureChannel ns c t = Inr False \<and> RemoveChannel ns c t = (Inl ErrImmatureChannel, t)"
  using RemoveChannel_cases [OF assms(1), of c] IsMatureChannel_repr [OF assms(1), of c] assms(2)
  by simp

lemma has_channel_demo: "has_channel demo_A (demo_point 9)"
  by (auto simp: has_channel_def outs_demo intro!: exI [of _ "demo_point 4"])

lemma immature_demo: "\<not> mature demo_A (demo_point 9)"
  unfolding mature_def outs_demo using demo_keys(3,4) by (auto intro!: exI [of _ "demo_point 2"])

lemma IsMatureChannel_demo: "IsMatureChannel demo_ns (demo_point 9) demo_db = Inr False"
  using IsMatureChannel_repr [OF repr_demo, of "demo_point 9"] has_channel_demo immature_demo by simp

theorem RemoveChannel_iff_mature_witness:
  "RemoveChannel demo_ns (demo_point 9) demo_db = (Inl ErrImmatureChannel, demo_db)"
  using RemoveChannel_iff_mature [OF repr_demo has_channel_demo] IsMatureChannel_demo by simp

section \<open>The store over time\<close>

text \<open>
  C15. Starting from a database without a store for the chain, any sequence of calls of the
  store's methods that keep to the store's contract leaves the channel index and the height
  index consistent: an entry of the height index names an output that the channel index holds in
  the same stage, every crib and kindergarten output is scheduled at exactly one height, and there
  are no empty buckets. The contract is that of \<open>nstep\<close>, which the methods do not check: what is
  incubated can be written and is not stored at another stage, the output given to
  \<^verbatim>\<open>CribToKinder\<close> is stored in the crib with the same expiry and that given to
  \<^verbatim>\<open>PreschoolToKinder\<close> in preschool, and a finalized transaction can be written. The other
  methods may be called at will. \<open>Incubate_duplicates_kinder\<close> shows what happens without it.
\<close>

theorem reachable_consistent:
  assumes "fresh ns t" "nreach ns t u"
  shows "\<exists>A. repr ns u A (rest ns t)"
  using nreach_repr [OF assms(2) repr_fresh [OF assms(1)]] .

lemma nreach_demo: "nreach (newNurseryStore 5) empty_db demo_db"
proof -
  have "enterable (newNurseryStore 5) empty_db [demo_kid] [demo_baby]"
    using incubatable_demo stored_repr [OF repr_fresh [OF fresh_empty [of 5]]]
    unfolding enterable_def incubatable_def by (simp add: empty_nursery_def)
  then show ?thesis
    unfolding demo_db_def demo_ns_def by (intro nreach.step [OF nreach.start] nstep.incubate)
qed

theorem reachable_consistent_witness:
  "\<exists>A. repr (newNurseryStore 5) demo_db A (rest (newNurseryStore 5) empty_db)"
  by (rule reachable_consistent [OF fresh_empty nreach_demo])

text \<open>
  C14. No output is lost and none moves back: a call of a method that keeps to the store's contract
  (\<open>nstep\<close>: what is incubated is not stored at another stage, the output given to \<^verbatim>\<open>CribToKinder\<close> is
  stored in the crib with the same expiry, that given to \<^verbatim>\<open>PreschoolToKinder\<close> in preschool, all of it
  and a finalized transaction can be written; nothing is asked of the other calls) leaves
  every output at its stage or a later one; an output disappears only with its whole channel, and
  only once all outputs of the channel have graduated.
\<close>

theorem nstep_no_output_lost:
  assumes "repr ns t A R" "nstep ns t t'"
  shows "\<exists>A'. repr ns t' A' R \<and> (\<forall>cp e. outs A cp = Some e \<longrightarrow>
     (case outs A' cp of Some e' \<Rightarrow> rank e \<le> rank e' | None \<Rightarrow> mature A (fst cp)))"
  using nstep_repr [OF assms(2,1)] by (simp add: evolves_def)

theorem nstep_no_output_lost_witness:
  "\<exists>A'. repr demo_ns (snd (GraduateKinder demo_ns 500 demo_db)) A' (rest demo_ns empty_db)
     \<and> (\<forall>cp e. outs demo_A cp = Some e \<longrightarrow>
       (case outs A' cp of Some e' \<Rightarrow> rank e \<le> rank e' | None \<Rightarrow> mature demo_A (fst cp)))"
  by (rule nstep_no_output_lost [OF repr_demo nstep.graduate])

text \<open>
  Stores of different chains share a database without touching each other: a call on the
  store of one chain leaves the store of every other chain as it was.
\<close>

theorem chains_isolated:
  assumes "h \<noteq> h'" "repr (newNurseryStore h) t A R" "repr (newNurseryStore h') t B R'"
    and "nstep (newNurseryStore h) t t'"
  shows "repr (newNurseryStore h') t' B (rest (newNurseryStore h') t')"
proof -
  obtain A' where A': "repr (newNurseryStore h) t' A' R" using nstep_repr [OF assms(4,2)] by blast
  show ?thesis
    by (rule repr_other_chain [OF assms(3), of "newNurseryStore h"])
      (use repr_rest [OF assms(2)] repr_rest [OF A'] assms(1) K_distinct in auto)
qed

theorem chains_isolated_witness:
  "repr (newNurseryStore 6) (snd (GraduateHeight (newNurseryStore 5) 7 empty_db)) empty_nursery
     (rest (newNurseryStore 6) (snd (GraduateHeight (newNurseryStore 5) 7 empty_db)))"
  by (rule chains_isolated [OF _ repr_fresh [OF fresh_empty] repr_fresh [OF fresh_empty] nstep.height]) simp

text \<open>
  A sweep transaction survives a restart: once the class of a non-empty height has been
  finalized with a transaction, \<^verbatim>\<open>FetchClass\<close> returns this very transaction and
  \<^verbatim>\<open>LastFinalizedHeight\<close> the height.
\<close>

theorem FinalizeKinder_roundtrip:
  assumes "repr ns t A R" "scheduled A h" "wf_tx tx" "length (Serialize tx) \<le> MaxValueSize"
  shows "\<exists>t' kids babies. FinalizeKinder ns h (Some tx) t = (Inr (), t')
     \<and> FetchClass ns h t' = Inr (Some tx, kids, babies) \<and> LastFinalizedHeight ns t' = Inr h"
proof -
  let ?A = "spec_FinalizeKinder h (Some tx) A"
  obtain t' where t': "FinalizeKinder ns h (Some tx) t = (Inr (), t')" "repr ns t' ?A R"
    using db_Update_succeeds [OF repr_FinalizeKinder [OF assms(1), of "Some tx" h]] assms(3,4)
    unfolding FinalizeKinder_def by auto
  have fin: "fin ?A h = Some tx" "lastFin ?A = Some h"
    using assms(2) by (simp_all add: spec_FinalizeKinder_def)
  obtain D where "vw ns t' (conc ?A) D R" using t'(2) by (rule reprE)
  from vw_getLastHeights(2) [OF this, of "Some h"] fin(2) have "LastFinalizedHeight ns t' = Inr h"
    by (simp add: LastFinalizedHeight_def db_View_def)
  moreover obtain kids babies where "FetchClass ns h t' = Inr (fin ?A h, kids, babies)"
    using t'(2) by (rule FetchClass_repr)
  ultimately show ?thesis using t'(1) fin(1) by auto
qed

lemma scheduled_demo: "scheduled demo_A 500"
  unfolding scheduled_def outs_demo using demo_keys
  by (intro exI [of _ "(demo_point 9, demo_point 2)"] exI [of _ "Crib demo_baby"]) simp

theorem FinalizeKinder_roundtrip_witness:
  "\<exists>t' kids babies. FinalizeKinder demo_ns 500 (Some demo_tx) demo_db = (Inr (), t')
     \<and> FetchClass demo_ns 500 t' = Inr (Some demo_tx, kids, babies)
     \<and> LastFinalizedHeight demo_ns t' = Inr 500"
  by (rule FinalizeKinder_roundtrip [OF repr_demo scheduled_demo wf_demo_tx])
    (use length_demo_tx in \<open>simp add: MaxValueSize_def\<close>)

text \<open>
  A late preschool output is not forgotten: \<^verbatim>\<open>PreschoolToKinder\<close> files it under a height
  above the last graduated one, and \<^verbatim>\<open>FetchClass\<close> of that height returns it. (A last
  graduated height of \<open>2^32 - 1\<close> would make the bump wrap around.)
\<close>

theorem PreschoolToKinder_not_late:
  assumes "repr ns t A R" "outs A (key_of k) = Some (Pscl k0)" "storable (Pscl k)"
    and "lastGrad A = Some g" "g \<noteq> - 1"
  shows "\<exists>t' h kids babies ftx. PreschoolToKinder ns k t = (Inr (), t') \<and> g < h
     \<and> FetchClass ns h t' = Inr (ftx, kids, babies) \<and> k \<in> set kids"
proof -
  let ?A = "spec_PreschoolToKinder k A" and ?h = "class_height k g"
  obtain t' where t': "PreschoolToKinder ns k t = (Inr (), t')" "repr ns t' ?A R"
    using db_Update_succeeds [OF repr_PreschoolToKinder [OF assms(1-3)]]
    unfolding PreschoolToKinder_def by auto
  have "g < g + 1" using assms(5) inc_less_eq_self_iff_eq [of g] by (simp add: not_le [symmetric])
  then have "g < ?h" by (auto simp: class_height_def Let_def)
  moreover have "outs ?A (key_of k) = Some (Kndr ?h k)"
    using assms(4) by (simp add: spec_PreschoolToKinder_def put_out_def)
  moreover obtain kids babies where "FetchClass ns ?h t' = Inr (fin ?A ?h, kids, babies)"
      "set kids = {k. outs ?A (key_of k) = Some (Kndr ?h k)}"
    using t'(2) by (rule FetchClass_repr [where h = ?h])
  ultimately show ?thesis using t'(1) by blast
qed

definition demo_db_late :: db where
  "demo_db_late = snd (GraduateHeight demo_ns 1000 demo_db)"

lemma repr_demo_late:
  "repr demo_ns demo_db_late (spec_GraduateHeight 1000 demo_A) (rest demo_ns empty_db)"
  using db_Update_succeeds [OF repr_GraduateHeight [OF repr_demo, of 1000]]
  by (auto simp: demo_db_late_def GraduateHeight_def)

theorem PreschoolToKinder_not_late_witness:
  "\<exists>t' h kids babies ftx. PreschoolToKinder demo_ns demo_kid_confirmed demo_db_late = (Inr (), t') \<and> 1000 < h
     \<and> FetchClass demo_ns h t' = Inr (ftx, kids, babies) \<and> demo_kid_confirmed \<in> set kids"
  by (rule PreschoolToKinder_not_late [OF repr_demo_late, of _ demo_kid])
    (simp_all add: spec_GraduateHeight_def demo_kid_confirmed_props demo_keys outs_demo)

text \<open>
  \<^verbatim>\<open>CribToKinder\<close> has no such bump: where the end of the CSV delay is not above the last
  graduated height, the output is filed under that height, and its class is only looked at
  again when the nursery restarts.
\<close>

theorem CribToKinder_files_late_output:
  assumes "repr ns t A R" "outs A (key_of b) = Some (Crib b0)" "expiry b0 = expiry b" "storable (Crib b)"
    and "lastGrad A = Some g" "confHeight b + blocksToMaturity b \<le> g"
  shows "\<exists>t' h kids babies ftx. CribToKinder ns b t = (Inr (), t') \<and> LastGraduatedHeight ns t' = Inr g
     \<and> h \<le> g \<and> FetchClass ns h t' = Inr (ftx, kids, babies) \<and> kid_of b \<in> set kids"
proof -
  let ?A = "spec_CribToKinder b A" and ?h = "confHeight b + blocksToMaturity b"
  obtain t' where t': "CribToKinder ns b t = (Inr (), t')" "repr ns t' ?A R"
    using db_Update_succeeds [OF repr_CribToKinder [OF assms(1-4)]] unfolding CribToKinder_def by auto
  obtain D where "vw ns t' (conc ?A) D R" using t'(2) by (rule reprE)
  from vw_getLastHeights(1) [OF this, of "Some g"] assms(5) have "LastGraduatedHeight ns t' = Inr g"
    by (simp add: LastGraduatedHeight_def db_View_def spec_CribToKinder_def put_out_def)
  moreover have "outs ?A (key_of (kid_of b)) = Some (Kndr ?h (kid_of b))"
    by (simp add: spec_CribToKinder_def put_out_def)
  moreover obtain kids babies where "FetchClass ns ?h t' = Inr (fin ?A ?h, kids, babies)"
      "set kids = {k. outs ?A (key_of k) = Some (Kndr ?h k)}"
    using t'(2) by (rule FetchClass_repr [where h = ?h])
  ultimately show ?thesis using t'(1) assms(6) by blast
qed

theorem CribToKinder_files_late_output_witness:
  "\<exists>t' h kids babies ftx. CribToKinder demo_ns demo_baby_confirmed demo_db_late = (Inr (), t')
     \<and> LastGraduatedHeight demo_ns t' = Inr 1000
     \<and> h \<le> 1000 \<and> FetchClass demo_ns h t' = Inr (ftx, kids, babies) \<and> kid_of demo_baby_confirmed \<in> set kids"
  by (rule CribToKinder_files_late_output [OF repr_demo_late, of _ demo_baby])
    (simp_all add: spec_GraduateHeight_def demo_confirmed demo_keys outs_demo,
      simp add: demo_baby_confirmed_def SetConfHeight_def demo_defs)

text \<open>
  \<^verbatim>\<open>Incubate\<close> recognises a duplicate only while the output is at the stage it would enter:
  an output that is already in kindergarten enters preschool a second time and is from then
  on stored at both stages.
\<close>

theorem Incubate_duplicates_kinder:
  assumes "repr ns t A R" "outs A (key_of k) = Some (Kndr h k0)" "storable (Pscl k)"
  shows "\<exists>t'. Incubate ns [k] [] t = (Inr (), t') \<and> stored ns t' (key_of k) SPscl = Some (kid_Encode k)
     \<and> stored ns t' (key_of k) SKndr = Some (kid_Encode k0)"
proof -
  let ?c = "originChanPoint k" and ?p = "outpoint k"
  obtain D where D: "vw ns t (conc A) D R" "tidyC (conc A) D" using assms(1) by (rule reprE)
  have "has_channel A ?c" using assms(2) by (auto simp: has_channel_def key_of_def)
  then have here: "DChan ?c \<in> D" using chan_in [OF D(2)] by simp
  note same = vw_dirs_absorb [OF D(1) here]
  obtain t1 where t1: "createChannelBucket ns ?c t = Inr (K ns # dpath (DChan ?c), t1)" "vw ns t1 (conc A) D R"
    using vw_createChannelBucket [OF D(1), of ?c] same by (auto simp: succeeds_def)
  have get: "b_Get (K ns # dpath (DChan ?c)) (prefixOutputKey psclPrefix ?p) t1 = None"
    using vw_Get [OF t1(2), of "LChan ?c SPscl ?p"] assms(2) by (simp add: key_of_def)
  obtain t2 where t2: "b_Put (K ns # dpath (DChan ?c)) (prefixOutputKey psclPrefix ?p) (kid_Encode k) t1
        = Inr ((), t2)" "vw ns t2 ((conc A)(LChan ?c SPscl ?p \<mapsto> kid_Encode k)) D R"
    using vw_Put [OF t1(2), of "LChan ?c SPscl ?p" "kid_Encode k"] here assms(3)
    by (auto simp: succeeds_def storable_def)
  have "Incubate ns [k] [] t = (Inr (), t2)"
    using t1(1) get t2(1)
    by (simp add: Incubate_def Incubate_tx_def db_Update_def sbind_def enterPreschool_def sread_def del: dpath.simps)
  moreover have "stored ns t2 (key_of k) s = ((conc A)(LChan ?c SPscl ?p \<mapsto> kid_Encode k)) (LChan ?c s ?p)" for s
    using vw_getChannelBucket [OF t2(2), of ?c] here vw_Get [OF t2(2), of "LChan ?c s ?p"]
    by (simp add: stored_def key_of_def del: conc.simps fun_upd_apply)
  ultimately show ?thesis using assms(2) by (auto simp: key_of_def)
qed

definition demo_db_kinder :: db where
  "demo_db_kinder = snd (PreschoolToKinder demo_ns demo_kid_confirmed demo_db)"

lemma repr_demo_kinder:
  "repr demo_ns demo_db_kinder (spec_PreschoolToKinder demo_kid_confirmed demo_A) (rest demo_ns empty_db)"
proof -
  have "outs demo_A (key_of demo_kid_confirmed) = Some (Pscl demo_kid)"
    by (simp add: demo_kid_confirmed_props demo_keys outs_demo)
  from db_Update_succeeds [OF repr_PreschoolToKinder [OF repr_demo this demo_kid_confirmed_props(2)]]
  show ?thesis by (auto simp: demo_db_kinder_def PreschoolToKinder_def)
qed

theorem Incubate_duplicates_kinder_witness:
  "\<exists>t'. Incubate demo_ns [demo_kid] [] demo_db_kinder = (Inr (), t')
     \<and> stored demo_ns t' (key_of demo_kid) SPscl = Some (kid_Encode demo_kid)
     \<and> stored demo_ns t' (key_of demo_kid) SKndr = Some (kid_Encode demo_kid_confirmed)"
  by (rule Incubate_duplicates_kinder [OF repr_demo_kinder, of _ "class_height demo_kid_confirmed 0"])
    (simp_all add: storable_demo_kid spec_PreschoolToKinder_def put_out_def demo_kid_confirmed_props
      demo_A_def spec_Incubate_def spec_enterPreschool_def spec_enterCrib_def empty_nursery_def)

end
