(* ===== verification/UtxoProps.thy ===== *)
theory UtxoProps
  imports NurseryReports NurseryProps
begin

text \<open>
  The correctness statements of the nursery (utxonursery.go) running on the store of
  nursery_store.go, with a concrete environment on which each of them is exercised.
\<close>

section \<open>A concrete environment\<close>

definition demo_cfg :: "db NurseryConfig" where
  "demo_cfg = \<lparr>cfg_GetBestBlock = Inr 1000, cfg_ConfDepth = 1, cfg_FetchClosedChannels = Inr [demo_point 9],
     cfg_FetchClosedChannel = (\<lambda>_. Inr (Some 90)), cfg_EstimateFeePerVSize = (\<lambda>_. Inr 10),
     cfg_GenSweepScript = Inr [0x00, 0x14], cfg_RegisterBlockEpochNtfn = None,
     cfg_RegisterConfirmationsNtfn = (\<lambda>_ _ _. None), cfg_PublishTransaction = (\<lambda>_. None),
     cfg_BuildWitness = (\<lambda>_ _ _. Inr [[0x30], [0x51]]), cfg_TxHash = (\<lambda>tx. word_of_nat (length (TxIns tx))),
     cfg_rangeOrder = (\<lambda>xs. xs), cfg_Store = boltStore demo_ns\<rparr>"

definition demo_w :: "db \<Rightarrow> db utxoNursery" where
  "demo_w t = newUtxoNursery t"

lemma demo_env:
  "cfg_Store demo_cfg = boltStore demo_ns" "signer_ok demo_cfg" "backend_ok demo_cfg"
  "set (cfg_rangeOrder demo_cfg xs) = set xs"
  by (simp_all add: demo_cfg_def signer_ok_def witness_ok_def backend_ok_def)

lemma demo_w_fields: "un_store (demo_w t) = t" "un_published (demo_w t) = []" "un_started (demo_w t) = False"
    "un_waiting (demo_w t) = []" "un_kids (demo_w t) = []" "un_babies (demo_w t) = []" "bestHeight (demo_w t) = 0"
  by (simp_all add: demo_w_def newUtxoNursery_def)

definition demo_sweep :: MsgTx where
  "demo_sweep = \<lparr>Version = 2,
     TxIns = [\<lparr>PreviousOutPoint = demo_point 4, SignatureScript = [], Witness = [[0x30], [0x51]], Sequence = 144\<rparr>],
     TxOuts = [\<lparr>Value = 98770, PkScript = [0x00, 0x14]\<rparr>], LockTime = 0\<rparr>"

lemma demo_class:
  "csv_kids [demo_kid_confirmed] = [demo_kid_confirmed]" "cltv_kids [demo_kid_confirmed] = []"
  "amt demo_kid_confirmed = 100000" "outpoint demo_kid_confirmed = demo_point 4"
  "blocksToMaturity demo_kid_confirmed = 144" "sweepable demo_kid_confirmed"
  "witnessType demo_kid_confirmed = CommitmentTimeLock" "confHeight demo_kid_confirmed = 100"
  "originChanPoint demo_kid_confirmed = demo_point 9"
  by (simp_all add: demo_kid_confirmed_def SetConfHeight_def demo_defs csv_kids_def cltv_kids_def witness_types
      sweepable_def)

lemma demo_vsize: "VSize (sweep_estimate [demo_kid_confirmed]) = 123"
  by (simp add: demo_class sweep_estimate_def VSize_def Weight_def witness_estimate_def Let_def
      BaseTxSize_def InputSize_def P2WKHOutputSize_def WitnessHeaderSize_def witnessScaleFactor_def
      ToLocalTimeoutWitnessSize_def ToLocalScriptSize_def VarIntSerializeSize_def)

lemma demo_createSweepTx: "createSweepTx demo_cfg [demo_kid_confirmed] 244 = Inr demo_sweep"
proof -
  have "CheckTransactionSanity (sweepTemplate 244 [0x00, 0x14] 98770 [demo_kid_confirmed] []) = None"
    by (simp add: sweepTemplate_eq CheckTransactionSanity_def unsigned_in_def demo_class demo_point_def
        IsCoinBaseTx_def isNullOutpoint_def SerializeSizeStripped_def VarIntSerializeSize_def MaxBlockBaseSize_def
        MaxSatoshi_def Let_def)
  then show ?thesis
    by (simp add: createSweepTx_eq populateSweepTx_def demo_class demo_vsize sumAmounts_def FeeForVSize_def Let_def
        demo_cfg_def sweepTemplate_eq unsigned_in_def demo_sweep_def)
qed

lemma demo_kinder_A:
  "spec_PreschoolToKinder demo_kid_confirmed demo_A
     = put_out (demo_point 9, demo_point 4) (Kndr 244 demo_kid_confirmed) demo_A"
  by (simp add: spec_PreschoolToKinder_def class_height_def Let_def demo_class demo_kid_confirmed_props demo_keys
      demo_A_def spec_Incubate_def spec_enterPreschool_def spec_enterCrib_def empty_nursery_def put_out_def)

abbreviation demo_A2 :: nursery where
  "demo_A2 \<equiv> put_out (demo_point 9, demo_point 4) (Kndr 244 demo_kid_confirmed) demo_A"

lemma repr_kinder: "repr demo_ns (un_store (demo_w demo_db_kinder)) demo_A2 (rest demo_ns empty_db)"
  using repr_demo_kinder by (simp add: demo_kinder_A demo_w_fields)

lemma outs_kinder:
  "outs demo_A2 = [(demo_point 9, demo_point 4) \<mapsto> Kndr 244 demo_kid_confirmed, (demo_point 9, demo_point 2) \<mapsto> Crib demo_baby]"
  using demo_keys(3,4) by (auto simp: put_out_def outs_demo)

lemma fin_kinder: "fin demo_A2 = (\<lambda>_. None)" "lastFin demo_A2 = None" "lastGrad demo_A2 = None"
  by (simp_all add: put_out_def demo_A_def spec_Incubate_def spec_enterPreschool_def spec_enterCrib_def empty_nursery_def)

lemma class_kinder: "class_of demo_A2 244 [demo_kid_confirmed] []"
proof -
  have "{k. outs demo_A2 (key_of k) = Some (Kndr 244 k)} = {demo_kid_confirmed}"
    by (auto simp: outs_kinder demo_kid_confirmed_props demo_keys split: if_splits)
  moreover have "{b. outs demo_A2 (key_of b) = Some (Crib b) \<and> expiry b = 244} = {}"
    by (auto simp: outs_kinder demo_keys split: if_splits)
  ultimately show ?thesis by (simp add: class_of_def)
qed

lemma classTx_kinder: "classTx demo_cfg demo_A2 244 [demo_kid_confirmed] = Inr (Some demo_sweep)"
  by (simp add: classTx_def fin_kinder heightOr0_def demo_createSweepTx)

section \<open>Sweeping\<close>

text \<open>
  C17. A sweep transaction that \<^verbatim>\<open>createSweepTx\<close> returns spends the CSV outputs of the class
  and then its CLTV outputs, in order and each once; the relative delays are the sequence
  numbers and the absolute lock time is the class height exactly when there are CLTV outputs.
  Input by input it carries the witness the signer built for that output and that index. It
  has one output, to the wallet's script, over the sum of the inputs minus the fee for the
  estimated size of exactly these inputs, and that amount is a valid amount of money.
\<close>

theorem createSweepTx_sound:
  assumes "createSweepTx cfg ks h = Inr tx"
  shows "let swept = csv_kids ks @ cltv_kids ks in
     Version tx = 2 \<and> LockTime tx = (if cltv_kids ks = [] then 0 else h)
     \<and> map PreviousOutPoint (TxIns tx) = map outpoint swept \<and> distinct (map outpoint swept)
     \<and> map Sequence (TxIns tx) = map blocksToMaturity (csv_kids ks) @ map (\<lambda>_. 0) (cltv_kids ks)
     \<and> (\<forall>i < length swept. signed_for (cfg_BuildWitness cfg) tx i (swept ! i))
     \<and> (\<exists>script rate val. cfg_GenSweepScript cfg = Inr script \<and> cfg_EstimateFeePerVSize cfg 6 = Inr rate
          \<and> val = sum_list (map amt swept) - FeeForVSize rate (VSize (sweep_estimate ks))
          \<and> TxOuts tx = [\<lparr>Value = val, PkScript = script\<rparr>] \<and> 0 \<le> sint val \<and> sint val \<le> MaxSatoshi)"
  using createSweepTx_shape [OF assms] unfolding sweep_shape_def .

theorem createSweepTx_sound_witness:
  "map PreviousOutPoint (TxIns demo_sweep) = [demo_point 4] \<and> LockTime demo_sweep = 0"
  using createSweepTx_sound [OF demo_createSweepTx] by (simp add: demo_class Let_def)

text \<open>
  C16. A block whose class can be swept, with backends that accept: the handler succeeds, and
  broadcasts the sweep of the class and then the timeout transactions of the crib outputs that
  expire there, in order. Each has one goroutine waiting for it, and the goroutines of crib
  outputs each look at their own output. The store has the sweep finalized before the height
  is marked graduated, and no output has moved.
\<close>

theorem graduateClass_sweeps_class:
  assumes "cfg_Store cfg = boltStore ns" "signer_ok cfg" "backend_ok cfg" "repr ns (un_store w) A R"
    "class_of A h ks bs" "classTx cfg A h ks = Inr ftx"
  shows "\<exists>w'. graduateClass cfg h w = (Inr (), w')
     \<and> repr ns (un_store w') (spec_GraduateHeight h (finalized A h ftx)) R
     \<and> un_published w' = un_published w @ (case ftx of None \<Rightarrow> [] | Some tx \<Rightarrow> [tx]) @ map timeoutTx bs
     \<and> un_babies w' = un_babies w @ bs
     \<and> un_waiting w' = un_waiting w @ (case ftx of None \<Rightarrow> [] | Some tx \<Rightarrow> [reg_for cfg tx h (SweepConf h ks)])
         @ map (\<lambda>i. reg_for cfg (timeoutTx (bs ! i)) h (TimeoutConf (length (un_babies w) + i))) [0..<length bs]"
  using bolt.graduateClass_ok [OF assms] unfolding sweep_txs_def .

theorem graduateClass_sweeps_class_witness:
  "\<exists>w'. graduateClass demo_cfg 244 (demo_w demo_db_kinder) = (Inr (), w') \<and> un_published w' = [demo_sweep]"
  using graduateClass_sweeps_class [OF demo_env(1-3) repr_kinder class_kinder classTx_kinder]
  by (auto simp: demo_w_fields)

text \<open>
  C13. A height never gets two different sweep transactions: however often the block handler
  runs for it, each time with another fee estimate, another wallet script and other backend
  failures, there is at most one sweep transaction among everything it broadcasts; all else
  are the presigned timeout transactions of the class.
\<close>

theorem one_sweep_per_height:
  assumes "\<And>cfg. cfg \<in> set cfgs \<Longrightarrow> cfg_Store cfg = boltStore ns \<and> signer_ok cfg"
    "repr ns (un_store w) A R" "class_of A h ks bs" "un_published w = []"
  shows "\<exists>ftx. set (un_published (fold (\<lambda>cfg w. snd (graduateClass cfg h w)) cfgs w))
     \<subseteq> set_option ftx \<union> timeoutTx ` set bs"
  using bolt.graduateClass_retries [OF assms(1-3), where P = "{}"] assms(4) by simp

theorem one_sweep_per_height_witness:
  "\<exists>ftx. set (un_published (fold (\<lambda>cfg w. snd (graduateClass cfg 244 w))
      [demo_cfg, demo_cfg\<lparr>cfg_EstimateFeePerVSize := \<lambda>_. Inr 50\<rparr>] (demo_w demo_db_kinder))) \<subseteq> set_option ftx \<union> {}"
proof -
  let ?cfgs = "[demo_cfg, demo_cfg\<lparr>cfg_EstimateFeePerVSize := \<lambda>_. Inr 50\<rparr>]"
  have "cfg_Store cfg = boltStore demo_ns \<and> signer_ok cfg" if "cfg \<in> set ?cfgs" for cfg
    using that demo_env(1,2) by (auto simp: signer_ok_def)
  from one_sweep_per_height [where cfgs = ?cfgs, OF this repr_kinder class_kinder demo_w_fields(2)] show ?thesis by simp
qed

text \<open>
  A confirmed sweep graduates its class and then removes exactly those channels of the
  swept outputs all of whose outputs have graduated; no error can occur, in whichever order
  the channels are visited.
\<close>

theorem waitForSweepConf_graduates:
  assumes "cfg_Store cfg = boltStore ns" "repr ns (un_store w) A R" "\<And>xs. set (cfg_rangeOrder cfg xs) = set xs"
  shows "\<exists>t'. waitForSweepConf cfg h ks w = (Inr (), w\<lparr>un_store := t'\<rparr>)
     \<and> repr ns t' (prune (originChanPoint ` set ks) (spec_GraduateKinder h A)) R"
  by (rule bolt.waitForSweepConf_run [OF assms])

theorem waitForSweepConf_graduates_witness:
  "\<exists>t'. waitForSweepConf demo_cfg 244 [demo_kid_confirmed] (demo_w demo_db_kinder)
       = (Inr (), (demo_w demo_db_kinder)\<lparr>un_store := t'\<rparr>)
     \<and> repr demo_ns t' (prune {demo_point 9} (spec_GraduateKinder 244 demo_A2)) (rest demo_ns empty_db)"
  using waitForSweepConf_graduates [OF demo_env(1) repr_kinder demo_env(4), of 244 "[demo_kid_confirmed]"]
  by (simp add: demo_class)

section \<open>Restarting\<close>

text \<open>
  Whatever fails during startup, the store is consistent afterwards and no output is lost
  or moved: at most channels whose outputs have all graduated are gone.
\<close>

theorem Start_keeps_store:
  assumes "cfg_Store cfg = boltStore ns" "signer_ok cfg" "repr ns (un_store w) A R"
  shows "\<exists>A'. repr ns (un_store (snd (un_Start cfg w))) A' R
     \<and> (\<forall>cp. outs A' cp = outs A cp \<or> outs A' cp = None \<and> mature A (fst cp))"
  using bolt.Start_consistent [OF assms] unfolding shrinks_def .

theorem Start_keeps_store_witness:
  "\<exists>A'. repr demo_ns (un_store (snd (un_Start demo_cfg (demo_w demo_db_kinder)))) A' (rest demo_ns empty_db)
     \<and> (\<forall>cp. outs A' cp = outs demo_A2 cp \<or> outs A' cp = None \<and> mature demo_A2 (fst cp))"
  by (rule Start_keeps_store [OF demo_env(1,2) repr_kinder])

text \<open>
  C18. A startup that reports no error, on a store whose last graduated height is recorded, not
  zero and not above the best height, has caught up with the chain: the best height is recorded as
  graduated, and every crib output that has expired by then, whether its height was processed
  before the restart or missed, has had its timeout transaction broadcast. With no graduated
  height, or height zero, the startup returns early and replays nothing.
\<close>

theorem Start_catches_up:
  assumes "cfg_Store cfg = boltStore ns" "signer_ok cfg" "repr ns (un_store w) A R"
    "cfg_GetBestBlock cfg = Inr best" "lastGrad A = Some g" "g \<noteq> 0" "g \<le> best"
    "\<not> un_started w" "un_Start cfg w = (Inr (), w')"
  shows "un_incubating w'
     \<and> (\<forall>b. outs A (key_of b) = Some (Crib b) \<and> expiry b \<le> best \<longrightarrow> timeoutTx b \<in> set (un_published w'))
     \<and> (\<exists>A'. repr ns (un_store w') A' R \<and> shrinks A A' \<and> lastGrad A' = Some best)"
  by (rule bolt.Start_done [OF assms])

theorem Start_catches_up_witness:
  "\<exists>w'. un_Start demo_cfg (demo_w demo_db_late) = (Inr (), w') \<and> demo_tx \<in> set (un_published w')"
proof -
  let ?A = "spec_GraduateHeight 1000 demo_A"
  have r: "repr demo_ns (un_store (demo_w demo_db_late)) ?A (rest demo_ns empty_db)"
    using repr_demo_late by (simp add: demo_w_fields)
  obtain w' where run: "un_Start demo_cfg (demo_w demo_db_late) = (Inr (), w')"
    using bolt.Start_ok [OF demo_env(1,3) _ _ _ r, of "[demo_point 9]" 1000] by (auto simp: demo_cfg_def)
  have "timeoutTx b \<in> set (un_published w')" if "outs ?A (key_of b) = Some (Crib b)" "expiry b \<le> 1000" for b
    using Start_catches_up [OF demo_env(1,2) r _ _ _ _ _ run, of 1000 1000] that
    by (simp add: demo_cfg_def demo_w_fields)
  from this [of demo_baby] run show ?thesis
    by (simp add: outs_demo demo_keys) (simp add: demo_defs)
qed

text \<open>
  Taking up a class again after a restart leaves the store alone and broadcasts nothing
  but timeout transactions of the class: a sweep that was finalized but not broadcast is only
  waited for, not sent again, and a class for which no sweep could be made gets none.
\<close>

theorem regraduateClass_only_timeouts:
  assumes "cfg_Store cfg = boltStore ns" "repr ns (un_store w) A R" "regraduateClass cfg h w = (r, w')"
  shows "un_store w' = un_store w \<and> (\<exists>ks bs xs. class_of A h ks bs
     \<and> un_published w' = un_published w @ xs \<and> prefix xs (map timeoutTx bs)
     \<and> (r = Inr () \<longrightarrow> xs = map timeoutTx bs))"
  using bolt.regraduateClass_broadcasts [OF assms] unfolding broadcasts_def by blast

theorem regraduateClass_only_timeouts_witness:
  "un_published (snd (regraduateClass demo_cfg 244 (demo_w demo_db_kinder))) = []"
proof -
  obtain r w' where run: "regraduateClass demo_cfg 244 (demo_w demo_db_kinder) = (r, w')" by (rule prod.exhaust)
  from regraduateClass_only_timeouts [OF demo_env(1) repr_kinder run]
  obtain ks bs xs where c: "class_of demo_A2 244 ks bs" "un_published w' = xs" "prefix xs (map timeoutTx bs)"
    by (auto simp: demo_w_fields)
  have "bs = []" using class_of_unique(2) [OF class_kinder c(1)] by simp
  with c(2,3) run show ?thesis by simp
qed

section \<open>Reporting\<close>

text \<open>
  The report of a channel that incubates adds up: its limbo balance is the sum of the
  crib outputs, the kindergarten outputs and the preschool outputs of the commitment and of
  incoming HTLCs, its recovered balance the sum of the graduated outputs, and no output is
  counted twice.
\<close>

theorem NurseryReport_balances:
  assumes "cfg_Store cfg = boltStore ns" "repr ns (un_store w) A R" "has_channel A c"
  shows "\<exists>report. NurseryReport cfg c w = (Inr report, w) \<and> cr_chanPoint report = c
     \<and> limboBalance report = (\<Sum>e \<in> {e. \<exists>p. outs A (c, p) = Some e}. limbo e)
     \<and> recoveredBalance report = (\<Sum>e \<in> {e. \<exists>p. outs A (c, p) = Some e}. recovered e)"
proof -
  obtain es where es: "NurseryReport cfg c w = (Inr (fold report_of es (emptyReport c)), w)" "distinct es"
      "set es = {e. \<exists>p. outs A (c, p) = Some e}"
    using bolt.NurseryReport_run [OF assms] by blast
  then show ?thesis
    by (auto simp: fold_report_balances emptyReport_def sum_list_distinct_conv_sum_set)
qed

lemma has_channel_kinder: "has_channel demo_A2 (demo_point 9)"
  by (auto simp: has_channel_def outs_kinder intro!: exI [of _ "demo_point 4"])

theorem NurseryReport_balances_witness:
  "\<exists>report. NurseryReport demo_cfg (demo_point 9) (demo_w demo_db_kinder) = (Inr report, demo_w demo_db_kinder)
     \<and> limboBalance report = 200000"
proof -
  have "{e. \<exists>p. outs demo_A2 (demo_point 9, p) = Some e} = {Kndr 244 demo_kid_confirmed, Crib demo_baby}"
    using demo_keys(3,4) by (auto simp: outs_kinder split: if_splits)
  moreover have "limbo (Kndr 244 demo_kid_confirmed) + limbo (Crib demo_baby) = 200000"
    by (simp add: demo_class) (simp add: demo_defs)
  ultimately show ?thesis
    using NurseryReport_balances [OF demo_env(1) repr_kinder has_channel_kinder] by auto
qed

text \<open>
  Preschool outputs of outgoing HTLCs on the remote commitment are missing from the
  report: a channel that only has such outputs is reported with no limbo balance and no HTLC,
  although nothing has been recovered.
\<close>

theorem NurseryReport_omits_remote_htlcs:
  assumes "cfg_Store cfg = boltStore ns" "repr ns (un_store w) A R" "has_channel A c"
    "\<And>p e. outs A (c, p) = Some e \<Longrightarrow> \<exists>k. e = Pscl k \<and> witnessType k = HtlcOfferedRemoteTimeout"
  shows "NurseryReport cfg c w = (Inr (emptyReport c), w)"
proof -
  obtain es where es: "NurseryReport cfg c w = (Inr (fold report_of es (emptyReport c)), w)"
      "set es = {e. \<exists>p. outs A (c, p) = Some e}"
    using bolt.NurseryReport_run [OF assms(1-3)] by blast
  have "report_of e r = r" if "e \<in> set es" for e r
  proof -
    from that es(2) obtain p where "outs A (c, p) = Some e" by auto
    from assms(4) [OF this] show ?thesis by (auto simp: reportPreschool_def witness_types)
  qed
  then have "fold report_of es r = r" for r by (induction es) simp_all
  with es(1) show ?thesis by simp
qed

definition demo_remote :: kidOutput where
  "demo_remote = makeKidOutput (demo_point 6) (demo_point 9) 0 HtlcOfferedRemoteTimeout demo_sd 700"

definition demo_db_remote :: db where
  "demo_db_remote = snd (Incubate demo_ns [demo_remote] [] empty_db)"

lemma storable_demo_remote: "storable (Pscl demo_remote)"
  using length_demo_sd valid_demo_sd
  by (simp add: storable_def demo_remote_def valid_makeKidOutput kid_Encode_def MaxValueSize_def
      makeKidOutput_def makeBreachedOutput_def record_parts valid_kid_def)

lemma incubatable_remote: "incubatable [demo_remote] [] empty_nursery"
  using storable_demo_remote by (simp add: incubatable_def empty_nursery_def)

lemma repr_remote:
  "repr demo_ns (un_store (demo_w demo_db_remote)) (spec_Incubate [demo_remote] [] empty_nursery) (rest demo_ns empty_db)"
  using db_Update_succeeds [OF repr_Incubate [OF repr_fresh [OF fresh_empty [of 5]] incubatable_remote]]
  by (auto simp: demo_db_remote_def demo_ns_def Incubate_def demo_w_fields)

lemma outs_remote:
  "outs (spec_Incubate [demo_remote] [] empty_nursery) = [(demo_point 9, demo_point 6) \<mapsto> Pscl demo_remote]"
  by (simp add: spec_Incubate_def spec_enterPreschool_def put_out_def empty_nursery_def key_of_def demo_remote_def
      demo_defs)

lemma demo_remote_fields: "amt demo_remote = 100000" "witnessType demo_remote = HtlcOfferedRemoteTimeout"
  by (simp_all add: demo_remote_def demo_defs)

theorem NurseryReport_omits_remote_htlcs_witness:
  "NurseryReport demo_cfg (demo_point 9) (demo_w demo_db_remote) = (Inr (emptyReport (demo_point 9)), demo_w demo_db_remote)
     \<and> amt demo_remote = 100000"
proof
  show "NurseryReport demo_cfg (demo_point 9) (demo_w demo_db_remote)
      = (Inr (emptyReport (demo_point 9)), demo_w demo_db_remote)"
    by (rule NurseryReport_omits_remote_htlcs [OF demo_env(1) repr_remote])
      (auto simp: has_channel_def outs_remote demo_remote_fields split: if_splits)
  show "amt demo_remote = 100000" by (rule demo_remote_fields)
qed

section \<open>New outputs\<close>

text \<open>
  The goroutines that \<^verbatim>\<open>IncubateOutputs\<close> starts for the preschool outputs of a channel
  are registered for the transactions of their own outputs but all share one variable, which
  ends up holding the last output: whichever of the transactions confirms, it is the last
  output that is moved to kindergarten.
\<close>

theorem IncubateOutputs_waiters_share:
  assumes "cfg_Store cfg = boltStore ns" "backend_ok cfg" "cfg_GetBestBlock cfg = Inr best" "repr ns (un_store w) A R"
    "kids = kidOutputs_of c commit [] incoming" "kids \<noteq> []" "incubatable kids [] A"
  shows "\<exists>w' new. IncubateOutputs cfg c commit [] incoming w = (Inr (), w')
     \<and> repr ns (un_store w') (spec_Incubate kids [] A) R
     \<and> un_waiting w' = un_waiting w @ new \<and> map reg_txid new = map (\<lambda>k. Hash (outpoint k)) kids
     \<and> (\<forall>reg \<in> set new. \<forall>h. un_store (snd (confirmed cfg (reg_waiter reg) h w'))
          = snd (PreschoolToKinder ns (SetConfHeight h (last kids)) (un_store w')))"
proof -
  obtain t1 where t1: "ns_Incubate (boltStore ns) kids [] (un_store w) = (Inr (), t1)"
      "repr ns t1 (spec_Incubate kids [] A) R"
    using bolt.Incubate_law [OF assms(4,7)] by blast
  let ?w1 = "w\<lparr>un_store := t1\<rparr>"
  let ?new = "map (preschool_reg cfg (bestHeight w) (length (un_kids w))) kids"
  let ?w' = "?w1\<lparr>un_kids := un_kids w @ [last kids], un_waiting := un_waiting w @ ?new\<rparr>"
  have "registerPreschools cfg kids ?w1 = (Inr (), ?w')"
    using registerPreschools_run [OF assms(2,6), of ?w1] by simp
  then have run: "IncubateOutputs cfg c commit [] incoming w = (Inr (), ?w')"
    using t1(1) assms(1,3,5)
    by (simp add: IncubateOutputs_def Let_def babyOutputs_of_def ibind_def u_Update_def io_run
        sweepExpired_def)
  have "un_store (snd (confirmed cfg (reg_waiter reg) h ?w'))
      = snd (PreschoolToKinder ns (SetConfHeight h (last kids)) (un_store ?w'))" if "reg \<in> set ?new" for reg h
    using that assms(1)
    by (auto simp: preschool_reg_def confirmed_def waitForPreschoolConf_def ibind_def io_run setKidCell_def
        u_Update_def boltStore_sel split: prod.split)
  with run t1(2) show ?thesis
    by (intro exI [of _ ?w'] exI [of _ ?new]) (simp add: preschool_reg_def)
qed

theorem IncubateOutputs_waiters_share_witness:
  "\<exists>w' new. IncubateOutputs demo_cfg (demo_point 9) (Some \<lparr>SelfOutPoint = demo_point 4, SelfOutputSignDesc = demo_sd,
       MaturityDelay = 144\<rparr>) [] [] (demo_w empty_db) = (Inr (), w')
     \<and> repr demo_ns (un_store w') (spec_Incubate [demo_kid] [] empty_nursery) (rest demo_ns empty_db)
     \<and> un_waiting w' = new \<and> map reg_txid new = [Hash (demo_point 4)]"
proof -
  let ?c = "Some \<lparr>SelfOutPoint = demo_point 4, SelfOutputSignDesc = demo_sd, MaturityDelay = 144\<rparr>"
  have kids: "[demo_kid] = kidOutputs_of (demo_point 9) ?c [] []"
    by (simp add: kidOutputs_of_def demo_kid_def hasValue_def) (simp add: demo_defs)
  have r: "repr demo_ns (un_store (demo_w empty_db)) empty_nursery (rest demo_ns empty_db)"
    using repr_fresh [OF fresh_empty [of 5]] by (simp add: demo_w_fields demo_ns_def)
  have i: "incubatable [demo_kid] [] empty_nursery"
    using storable_demo_kid by (simp add: incubatable_def empty_nursery_def)
  have "cfg_GetBestBlock demo_cfg = Inr 1000" by (simp add: demo_cfg_def)
  from IncubateOutputs_waiters_share [OF demo_env(1,3) this r kids _ i] show ?thesis
    by (auto simp: demo_w_fields) (simp add: demo_defs)
qed

end
