(* ===== verification/BreachProps.thy ===== *)
theory BreachProps
  imports BreachSystem UtxoProps
begin

text \<open>
  The correctness statements of the breach arbiter and its store (breacharbiter.go), with a
  concrete breach on which each of them is exercised.
\<close>

section \<open>The two stores in one database\<close>

inductive rstep :: "db \<Rightarrow> db \<Rightarrow> bool" where
  add: "storable_ret ret \<Longrightarrow> rstep t (snd (rs_Add ret t))"
| finalize: "storable_tx tx \<Longrightarrow> rstep t (snd (rs_Finalize c tx t))"
| remove: "rstep t (snd (rs_Remove c t))"

lemma rstep_rrepr:
  assumes "rstep t t'" "rrepr t S Q"
  shows "\<exists>S'. rrepr t' S' Q"
  using assms
proof cases
  case (add ret)
  with rs_Add_run [OF assms(2), of ret] show ?thesis by auto
next
  case (finalize tx c)
  with rs_Finalize_run [OF assms(2), of tx c] show ?thesis by auto
next
  case (remove c)
  with rs_Remove_any [OF assms(2), of c] show ?thesis by auto
qed

lemma chain_bucket: "pfxChainKey (newNurseryStore h) \<notin> {retributionBucket, justiceTxnBucket}"
proof -
  have "length (pfxChainKey (newNurseryStore h)) = 36" by (simp add: K_newNurseryStore utxnChainPrefix_def ascii_def)
  then show ?thesis by (auto simp: retributionBucket_def justiceTxnBucket_def ascii_def)
qed

lemma repr_transfer:
  assumes "repr ns t A R" "outside t' = outside t" "bwf t'" "pfxChainKey ns \<notin> {retributionBucket, justiceTxnBucket}"
  shows "repr ns t' A (rest ns t')"
proof -
  have same: "val_at t' (K ns # q) = val_at t (K ns # q)" "is_bkt t' (K ns # q) = is_bkt t (K ns # q)" for q
    using fun_cong [OF assms(2), of "K ns # q"] assms(4) by (auto simp: outside_def)
  have root: "is_bkt t' [] = is_bkt t []" using fun_cong [OF assms(2), of "[]"] by (simp add: outside_def)
  have "vw ns t' C D (rest ns t')" if "vw ns t C D R" for C D
    using that assms(3) by (auto simp: vw_def typed_def cells_def dirs_def same root fun_eq_iff)
  then show ?thesis using assms(1) unfolding repr_def by blast
qed

lemma rrepr_transfer:
  assumes "rrepr t S Q" "rest ns t' = rest ns t" "bwf t'" "pfxChainKey ns \<notin> {retributionBucket, justiceTxnBucket}"
  shows "rrepr t' S (outside t')"
proof -
  have same: "val_at t' q = val_at t q \<and> is_bkt t' q = is_bkt t q" if "q = [] \<or> hd q \<noteq> K ns" for q
    using fun_cong [OF assms(2), of q] that by (cases q) (auto simp: rest_def)
  have "kv t' b f" if "kv t b f" "b \<in> {retributionBucket, justiceTxnBucket}" for b f
    by (rule kv_frame [OF that(1), of "K ns"]) (use same that(2) assms(4) in auto)
  then show ?thesis using assms(1,3) same [of "[]"] unfolding rrepr_def by simp
qed

section \<open>A concrete breach\<close>

definition demo_breach :: BreachRetribution where
  "demo_breach = \<lparr>BreachTransaction = demo_tx, br_BreachHeight = 600, br_ChainHash = 5,
     LocalOutputSignDesc = Some demo_sd, LocalOutpoint = demo_point 11,
     RemoteOutputSignDesc = Some demo_sd, RemoteOutpoint = demo_point 12,
     HtlcRetributions = [\<lparr>hr_SignDesc = demo_sd, hr_OutPoint = demo_point 13, SecondLevelWitnessScript = [0x52], IsIncoming = True\<rparr>]\<rparr>"

definition demo_bcfg :: "db BreachConfig" where
  "demo_bcfg = \<lparr>bc_FetchClosedChannels = Inr [], bc_FetchAllChannels = Inr [demo_point 9, demo_point 8],
     bc_EstimateFeePerVSize = (\<lambda>_. Inr 10), bc_GenSweepScript = Inr [0x00, 0x14],
     bc_RegisterConfirmationsNtfn = (\<lambda>_ _ _. None), bc_SubscribeChannelEvents = (\<lambda>_. None),
     bc_BuildWitness = (\<lambda>_ _ _. Inr [[0x30], [0x51]]), bc_TxHash = (\<lambda>tx. word_of_nat (length (TxIns tx))),
     bc_MarkChanFullyClosed = (\<lambda>_. None), bc_rangeOrder = (\<lambda>m. sorted_list_of_set (dom m)),
     bc_Store = retributionStore\<rparr>"

definition demo_ret :: retributionInfo where
  "demo_ret = newRetributionInfo (bc_TxHash demo_bcfg) (demo_point 9) demo_breach"

lemma demo_ret_fields: "ret_chanPoint demo_ret = demo_point 9" "breachHeight demo_ret = 600"
  "breachedOutputs demo_ret = [makeBreachedOutput (demo_point 11) CommitmentNoDelay [] demo_sd,
     makeBreachedOutput (demo_point 12) CommitmentRevoke [] demo_sd,
     makeBreachedOutput (demo_point 13) HtlcAcceptedRevoke [0x52] demo_sd]"
  by (simp_all add: demo_ret_def newRetributionInfo_def demo_breach_def)

lemma storable_demo_ret: "storable_ret demo_ret"
  using length_demo_sd valid_demo_sd
  by (simp add: storable_ret_def valid_ret_def valid_breached_def demo_ret_fields makeBreachedOutput_def ret_Encode_def
      breached_Encode_def MaxValueSize_def WriteVarBytes_def WriteVarInt_def)

lemma rrepr_empty: "rrepr empty_db no_retributions (outside empty_db)"
proof -
  have "val_at empty_db (x # q) = None" "\<not> is_bkt empty_db (x # q)" for x q
    by (simp_all add: val_at_def is_bkt_def)
  then show ?thesis
    by (simp add: rrepr_def wf_retributions_def no_retributions_def kv_def al_sorted_def)
qed

definition demo_S :: retributions where
  "demo_S = no_retributions\<lparr>rets := [demo_point 9 \<mapsto> demo_ret]\<rparr>"

definition demo_rdb :: db where
  "demo_rdb = snd (rs_Add demo_ret empty_db)"

lemma rrepr_demo: "rrepr demo_rdb demo_S (outside empty_db)"
  using rs_Add_run [OF rrepr_empty storable_demo_ret]
  by (auto simp: demo_rdb_def demo_S_def demo_ret_fields no_retributions_def)

definition demo_aw :: "db breachArbiter" where
  "demo_aw = newBreachArbiter demo_rdb"

text \<open>The incoming HTLC has been taken to the second level by \<open>demo_tx\<close>.\<close>

definition demo_round :: round where
  "demo_round = \<lparr>rd_RegisterSpendNtfn = (\<lambda>_ _. None),
     rd_Spend = (\<lambda>op. if op = demo_point 13 then Spent demo_tx else NotSpent),
     rd_PublishTransaction = (\<lambda>_. None), rd_quit = False\<rparr>"

definition demo_second :: breachedOutput where
  "demo_second = \<lparr>amt = 90000, outpoint = \<lparr>Hash = 1, Index = 0\<rparr>, witnessType = HtlcSecondLevelRevoke,
     signDesc = demo_sd\<lparr>WitnessScript := [0x52], Output := \<lparr>Value = 90000, PkScript = [0x00, 0x20]\<rparr>\<rparr>,
     secondLevelWitnessScript = [0x52]\<rparr>"

definition demo_outs :: "breachedOutput list" where
  "demo_outs = [makeBreachedOutput (demo_point 11) CommitmentNoDelay [] demo_sd,
     makeBreachedOutput (demo_point 12) CommitmentRevoke [] demo_sd, demo_second]"

definition demo_justice :: MsgTx where
  "demo_justice = \<lparr>Version = 2,
     TxIns = map (\<lambda>p. \<lparr>PreviousOutPoint = p, SignatureScript = [], Witness = [[0x30], [0x51]], Sequence = 0\<rparr>)
       [demo_point 11, demo_point 12, \<lparr>Hash = 1, Index = 0\<rparr>],
     TxOuts = [\<lparr>Value = 287310, PkScript = [0x00, 0x14]\<rparr>], LockTime = 0\<rparr>"

lemma demo_watchable: "watchable demo_round 600 (breachedOutputs demo_ret)"
  by (auto simp: watchable_def demo_round_def demo_tx_def)

lemma demo_second_level: "map (at_second_level (bc_TxHash demo_bcfg) demo_round) (breachedOutputs demo_ret) = demo_outs"
  by (simp add: demo_ret_fields demo_outs_def demo_second_def at_second_level_def htlc_revoke_def demo_round_def
      makeBreachedOutput_def witness_types demo_bcfg_def demo_tx_def demo_sd_def)

lemma demo_punishable: "filter punishable demo_outs = demo_outs"
  by (simp add: demo_outs_def punishable_def makeBreachedOutput_def demo_second_def)

lemma demo_jvsize: "VSize (justice_estimate demo_outs) = 269"
  by (simp add: demo_outs_def justice_estimate_def justiceWeight_def makeBreachedOutput_def demo_second_def witness_types
      VSize_def Weight_def Let_def BaseTxSize_def InputSize_def P2WKHOutputSize_def WitnessHeaderSize_def
      witnessScaleFactor_def VarIntSerializeSize_def P2WKHWitnessSize_def ToLocalPenaltyWitnessSize_def
      ToLocalScriptSize_def SecondLevelHtlcPenaltyWitnessSize_def SecondLevelHtlcScriptSize_def)

lemma demo_createJusticeTx: "createJusticeTx demo_bcfg (demo_ret\<lparr>breachedOutputs := demo_outs\<rparr>) = Inr demo_justice"
proof -
  have "CheckTransactionSanity (justiceTemplate [0x00, 0x14] 287310 demo_outs) = None"
    by (simp add: justiceTemplate_def CheckTransactionSanity_def unsigned_input_def demo_outs_def demo_second_def
        makeBreachedOutput_def demo_point_def IsCoinBaseTx_def isNullOutpoint_def SerializeSizeStripped_def
        VarIntSerializeSize_def MaxBlockBaseSize_def MaxSatoshi_def Let_def)
  then have "sweepSpendableOutputsTxn demo_bcfg 269 demo_outs = Inr demo_justice"
    by (simp add: sweepSpendableOutputsTxn_def AddTxIn_def sum_amt Let_def
        demo_bcfg_def FeeForVSize_def AddTxOut_def NewMsgTx_def justiceTemplate_def unsigned_input_def
        demo_outs_def demo_second_def makeBreachedOutput_def demo_sd_def demo_justice_def)
  moreover have "createJusticeTx demo_bcfg (demo_ret\<lparr>breachedOutputs := demo_outs\<rparr>)
      = sweepSpendableOutputsTxn demo_bcfg 269 demo_outs"
    by (simp add: createJusticeTx_eq demo_punishable demo_jvsize Let_def)
  ultimately show ?thesis by simp
qed

lemma demo_benv: "bc_Store demo_bcfg = retributionStore" "witness_ok (bc_BuildWitness demo_bcfg)"
  by (simp_all add: demo_bcfg_def witness_ok_def)

section \<open>The store\<close>

text \<open>
  What a node writes to disk about a breach is what it reads back after a restart:
  decoding the encoding of a retribution, whatever follows it, returns the same commitment,
  channel, chain, height and outputs and leaves the rest of the input unread.
\<close>

theorem retribution_roundtrip:
  assumes "valid_ret ret"
  shows "ret_Decode (ret_Encode ret @ s) = Inr (ret, s)"
  by (rule ret_codec.dec_enc [OF assms])

theorem retribution_roundtrip_witness: "ret_Decode (ret_Encode demo_ret @ [7]) = Inr (demo_ret, [7])"
  by (rule retribution_roundtrip) (use storable_demo_ret in \<open>simp add: storable_ret_def\<close>)

datatype rcall = RAdd retributionInfo | RFinalize OutPoint MsgTx | RRemove OutPoint

fun rs_call :: "rcall \<Rightarrow> (db, unit) io" where
  "rs_call (RAdd ret) = rs_Add ret"
| "rs_call (RFinalize c tx) = rs_Finalize c tx"
| "rs_call (RRemove c) = rs_Remove c"

fun allowed :: "rcall \<Rightarrow> retributions \<Rightarrow> bool" where
  "allowed (RAdd ret) S = storable_ret ret"
| "allowed (RFinalize c tx) S = storable_tx tx"
| "allowed (RRemove c) S = (rets S c \<noteq> None)"

fun spec_call :: "rcall \<Rightarrow> retributions \<Rightarrow> retributions" where
  "spec_call (RAdd ret) S = S\<lparr>rets := (rets S)(ret_chanPoint ret \<mapsto> ret)\<rparr>"
| "spec_call (RFinalize c tx) S = S\<lparr>justice := (justice S)(c \<mapsto> tx)\<rparr>"
| "spec_call (RRemove c) S = S\<lparr>rets := (rets S)(c := None), justice := (justice S)(c := None)\<rparr>"

fun all_allowed :: "rcall list \<Rightarrow> retributions \<Rightarrow> bool" where
  "all_allowed [] S = True"
| "all_allowed (x # xs) S = (allowed x S \<and> all_allowed xs (spec_call x S))"

lemma rs_call_run:
  assumes "rrepr t S Q" "allowed x S"
  shows "\<exists>t'. rs_call x t = (Inr (), t') \<and> rrepr t' (spec_call x S) Q"
  using assms by (cases x) (auto intro: rs_Add_run rs_Finalize_run rs_Remove_run)

lemma rs_calls_run:
  "rrepr t S Q \<Longrightarrow> all_allowed xs S \<Longrightarrow> \<exists>t'. iforeach rs_call xs t = (Inr (), t') \<and> rrepr t' (fold spec_call xs S) Q"
proof (induction xs arbitrary: t S)
  case (Cons x xs)
  obtain t1 where "rs_call x t = (Inr (), t1)" "rrepr t1 (spec_call x S) Q"
    using rs_call_run [OF Cons.prems(1), of x] Cons.prems(2) by auto
  with Cons show ?case by simp
qed simp

text \<open>
  C33. The retribution store is a map. Any sequence of \<^verbatim>\<open>Add\<close>, \<^verbatim>\<open>Finalize\<close> and
  \<^verbatim>\<open>Remove\<close> calls with entries that fit into the database, removing only channels that are
  in the store, succeeds, and afterwards \<^verbatim>\<open>IsBreached\<close>, \<^verbatim>\<open>GetFinalizedTxn\<close> and
  \<^verbatim>\<open>ForAll\<close> answer as a pair of maps does on which the same updates were made.
\<close>

theorem retributionStore_refines_map:
  assumes "all_allowed xs no_retributions"
  shows "\<exists>t. iforeach rs_call xs empty_db = (Inr (), t)
     \<and> (\<forall>c. rs_IsBreached c t = Inr (rets (fold spec_call xs no_retributions) c \<noteq> None)
          \<and> rs_GetFinalizedTxn c t = Inr (justice (fold spec_call xs no_retributions) c))
     \<and> rs_ForAll (\<lambda>ret m. Inr (m(ret_chanPoint ret \<mapsto> ret))) Map.empty t = Inr (rets (fold spec_call xs no_retributions))"
proof -
  obtain t where t: "iforeach rs_call xs empty_db = (Inr (), t)" "rrepr t (fold spec_call xs no_retributions) (outside empty_db)"
    using rs_calls_run [OF rrepr_empty assms] by blast
  show ?thesis
    using t(1) rs_IsBreached_run [OF t(2)] rs_GetFinalizedTxn_run [OF t(2)] bolt_ret.ForAll_law [OF t(2)]
    by (simp add: retributionStore_def)
qed

theorem retributionStore_refines_map_witness:
  "\<exists>t. iforeach rs_call [RAdd demo_ret, RRemove (demo_point 9), RAdd demo_ret] empty_db = (Inr (), t)
     \<and> rs_IsBreached (demo_point 9) t = Inr True \<and> rs_GetFinalizedTxn (demo_point 9) t = Inr None"
  using retributionStore_refines_map [of "[RAdd demo_ret, RRemove (demo_point 9), RAdd demo_ret]"] storable_demo_ret
  by (auto simp: demo_ret_fields no_retributions_def simp del: iforeach.simps)

text \<open>
  The nursery and the breach arbiter share a database without touching each other: a call
  on the retribution store leaves every output of the nursery as it was, and a call on the
  nursery store leaves every retribution and every justice transaction as it was.
\<close>

theorem stores_share_database:
  assumes "repr (newNurseryStore h) t A R" "rrepr t S Q"
  shows "(rstep t t' \<longrightarrow> (\<exists>S'. rrepr t' S' Q) \<and> repr (newNurseryStore h) t' A (rest (newNurseryStore h) t'))
     \<and> (nstep (newNurseryStore h) t t' \<longrightarrow> (\<exists>A'. repr (newNurseryStore h) t' A' R) \<and> rrepr t' S (outside t'))"
proof (intro conjI impI)
  assume r: "rstep t t'"
  then show "\<exists>S'. rrepr t' S' Q" by (rule rstep_rrepr [OF _ assms(2)])
  then show "repr (newNurseryStore h) t' A (rest (newNurseryStore h) t')"
    using assms(2) chain_bucket by (intro repr_transfer [OF assms(1)]) (auto simp: rrepr_def)
next
  assume n: "nstep (newNurseryStore h) t t'"
  show A': "\<exists>A'. repr (newNurseryStore h) t' A' R" using nstep_repr [OF n assms(1)] by blast
  then show "rrepr t' S (outside t')"
    using repr_rest [OF assms(1)] repr_rest [of "newNurseryStore h" t' _ R] chain_bucket
    by (intro rrepr_transfer [OF assms(2), of "newNurseryStore h"]) auto
qed

theorem stores_share_database_witness:
  "rrepr (snd (GraduateHeight (newNurseryStore 5) 7 empty_db)) no_retributions
     (outside (snd (GraduateHeight (newNurseryStore 5) 7 empty_db)))
   \<and> repr (newNurseryStore 5) demo_rdb empty_nursery (rest (newNurseryStore 5) demo_rdb)"
  using stores_share_database [OF repr_fresh [OF fresh_empty [of 5]] rrepr_empty]
    nstep.height [of "newNurseryStore 5" empty_db 7] rstep.add [OF storable_demo_ret, of empty_db]
  unfolding demo_rdb_def by blast

section \<open>The justice transaction\<close>

text \<open>
  C4. A justice transaction that \<^verbatim>\<open>createJusticeTx\<close> returns spends every breached output of
  a known witness type, in order and each once, without a lock time. Input by input it carries
  the witness the signer built for that output and index, and its one output pays the wallet
  the sum of the inputs minus the fee for the estimated size, which is a valid amount of money.
\<close>

theorem createJusticeTx_sound:
  assumes "createJusticeTx cfg r = Inr tx"
  shows "let bos = filter punishable (breachedOutputs r) in
     Version tx = 2 \<and> LockTime tx = 0 \<and> map Sequence (TxIns tx) = map (\<lambda>_. 0) bos
     \<and> map PreviousOutPoint (TxIns tx) = map outpoint bos \<and> bos \<noteq> [] \<and> distinct (map outpoint bos)
     \<and> (\<forall>i < length bos. signed_for (bc_BuildWitness cfg) tx i (bos ! i))
     \<and> (\<exists>script rate val. bc_GenSweepScript cfg = Inr script \<and> bc_EstimateFeePerVSize cfg 2 = Inr rate
          \<and> val = sum_list (map amt bos) - FeeForVSize rate (VSize (justice_estimate bos))
          \<and> TxOuts tx = [\<lparr>Value = val, PkScript = script\<rparr>] \<and> 0 \<le> sint val \<and> sint val \<le> MaxSatoshi)"
  using createJusticeTx_shape [OF assms] unfolding justice_shape_def .

theorem createJusticeTx_sound_witness:
  "map PreviousOutPoint (TxIns demo_justice) = map outpoint demo_outs \<and> LockTime demo_justice = 0"
  using createJusticeTx_sound [OF demo_createJusticeTx] by (simp add: demo_punishable Let_def)

text \<open>
  Before the justice transaction is built, every HTLC output that the cheating party has
  already taken to the second level is replaced by the output of the transaction that spent
  it: first output, its value, and the second-level script. All other outputs stay. Where the
  notifier can watch the outputs, this succeeds.
\<close>

theorem checkSecondLevel_redirects:
  assumes "watchable rd h bos"
  shows "\<exists>ns'. checkSecondLevel txHash rd h bos ns = Inr (map (at_second_level txHash rd) bos, ns')"
  by (rule checkSecondLevel_watchable [OF assms])

theorem checkSecondLevel_redirects_witness:
  "\<exists>ns'. checkSecondLevel (bc_TxHash demo_bcfg) demo_round 600 (breachedOutputs demo_ret) [] = Inr (demo_outs, ns')"
  using checkSecondLevel_redirects [OF demo_watchable] unfolding demo_second_level [symmetric] .

section \<open>Retribution\<close>

text \<open>
  C2. Whatever fails on the way, a retribution broadcasts at most one transaction; it is the
  one finalized earlier or a justice transaction over the breached outputs, some of them moved
  to the second level, and it is in the store before it is broadcast and stays there. The
  entry of the channel is deleted only after both transactions have confirmed and the channel
  has been marked closed; nothing of another channel changes.
\<close>

theorem exactRetribution_safe:
  assumes "bc_Store cfg = retributionStore" "witness_ok (bc_BuildWitness cfg)" "rrepr (ba_store w) S Q"
    "exactRetribution cfg rds conf justiceConfirmed b w = (r, w')"
  shows "\<exists>j txs closed. ba_published w' = ba_published w @ txs \<and> ba_fullyClosed w' = ba_fullyClosed w @ closed
     \<and> rrepr (ba_store w') (S\<lparr>rets := (if closed = [] then rets S else (rets S)(ret_chanPoint b := None)),
               justice := (justice S)(ret_chanPoint b := j)\<rparr>) Q
     \<and> length txs \<le> 1 \<and> (\<forall>tx \<in> set txs. Some tx = justice S (ret_chanPoint b) \<or>
          (\<exists>outs. list_all2 (moved (bc_TxHash cfg)) (breachedOutputs b) outs
            \<and> createJusticeTx cfg (b\<lparr>breachedOutputs := outs\<rparr>) = Inr tx))
     \<and> (closed = [] \<longrightarrow> (\<forall>tx \<in> set txs. j = Some tx))
     \<and> (closed = [] \<or> closed = [ret_chanPoint b] \<and> conf \<noteq> None \<and> justiceConfirmed \<and> r = Inr ())"
proof -
  obtain j txs s' closed where p:
    "w' = w\<lparr>ba_store := s', ba_published := ba_published w @ txs, ba_fullyClosed := ba_fullyClosed w @ closed\<rparr>"
    "rrepr s' (S\<lparr>rets := (if closed = [] then rets S else (rets S)(ret_chanPoint b := None)),
       justice := (justice S)(ret_chanPoint b := j)\<rparr>) Q"
    "length txs \<le> 1" "\<forall>tx \<in> set txs. Some tx = justice S (ret_chanPoint b) \<or> built cfg b tx"
    "closed = [] \<longrightarrow> (\<forall>tx \<in> set txs. j = Some tx)"
    "closed = [] \<or> closed = [ret_chanPoint b] \<and> conf \<noteq> None \<and> justiceConfirmed \<and> r = Inr ()"
    using bolt_ret.exactRetribution_run [OF assms] by blast
  show ?thesis
    by (rule exI [of _ j], rule exI [of _ txs], rule exI [of _ closed]) (use p in \<open>simp add: built_def\<close>)
qed

theorem exactRetribution_safe_witness:
  "\<exists>r w'. exactRetribution demo_bcfg [demo_round] (Some 601) False demo_ret demo_aw = (r, w')
     \<and> length (ba_published w') \<le> 1 \<and> rs_IsBreached (demo_point 9) (ba_store w') = Inr True"
proof -
  obtain r w' where run: "exactRetribution demo_bcfg [demo_round] (Some 601) False demo_ret demo_aw = (r, w')"
    by (cases "exactRetribution demo_bcfg [demo_round] (Some 601) False demo_ret demo_aw")
  have "rrepr (ba_store demo_aw) demo_S (outside empty_db)"
    using rrepr_demo by (simp add: demo_aw_def newBreachArbiter_def)
  from exactRetribution_safe [OF demo_benv this run] run show ?thesis
    using rs_IsBreached_run [of "ba_store w'" _ "outside empty_db" "demo_point 9"]
    by (fastforce simp: demo_S_def demo_aw_def newBreachArbiter_def)
qed

text \<open>
  C3. Justice is done: when the breach has confirmed, the justice transaction is in the store
  or can be built, the network does not report a double spend, and the confirmation arrives,
  then the retribution ends with the channel marked closed and removed from the store, and the
  transaction broadcast once.
\<close>

theorem exactRetribution_completes:
  assumes "bc_Store cfg = retributionStore" "witness_ok (bc_BuildWitness cfg)" "rrepr (ba_store w) S Q"
    "rets S (ret_chanPoint b) \<noteq> None"
    "ready_tx cfg rd b (justice S (ret_chanPoint b)) tx" "rd_PublishTransaction rd tx \<noteq> Some ErrDoubleSpend"
    "bc_RegisterConfirmationsNtfn cfg (bc_TxHash cfg tx) 1 h = None" "bc_MarkChanFullyClosed cfg (ret_chanPoint b) = None"
  shows "\<exists>w'. exactRetribution cfg (rd # rds) (Some h) True b w = (Inr (), w')
     \<and> rrepr (ba_store w') (S\<lparr>rets := (rets S)(ret_chanPoint b := None), justice := (justice S)(ret_chanPoint b := None)\<rparr>) Q
     \<and> ba_fullyClosed w' = ba_fullyClosed w @ [ret_chanPoint b]
     \<and> ba_published w' = ba_published w @ (if rd_PublishTransaction rd tx = None then [tx] else [])"
  by (rule bolt_ret.exactRetribution_done [OF assms])

theorem exactRetribution_completes_witness:
  "\<exists>w'. exactRetribution demo_bcfg [demo_round] (Some 601) True demo_ret demo_aw = (Inr (), w')
     \<and> ba_fullyClosed w' = [demo_point 9] \<and> ba_published w' = [demo_justice]"
proof -
  have "rrepr (ba_store demo_aw) demo_S (outside empty_db)"
    using rrepr_demo by (simp add: demo_aw_def newBreachArbiter_def)
  from exactRetribution_completes [OF demo_benv this, of demo_ret demo_round demo_justice 601 "[]"] show ?thesis
    using demo_createJusticeTx demo_watchable demo_second_level
    by (auto simp: ready_tx_def demo_S_def no_retributions_def demo_ret_fields demo_round_def demo_aw_def
        newBreachArbiter_def demo_bcfg_def)
qed

section \<open>The system\<close>

lemma demo_env_ok: "env_ok retributionStore w demo_bcfg"
  using demo_benv by (simp add: env_ok_def demo_bcfg_def)

text \<open>
  C1. No breach is forgotten. Start from any retribution store and let observers, main loop,
  retributions, other closures, starts, stops and crashes interleave in any order, with
  backends that may fail at every call. Then the store is consistent, the rest of the database
  is untouched, and every channel whose breach was acknowledged without an error, or is queued
  for the main loop, or has a retribution running, is in the store or has been marked closed.
\<close>

theorem breach_never_forgotten:
  assumes "(arb_step retributionStore)\<^sup>*\<^sup>* (newBreachArbiter t0) w" "rrepr t0 S0 Q"
  shows "\<exists>S. rrepr (ba_store w) S Q
     \<and> (\<forall>c. (c, None) \<in> set (ba_acks w) \<or> (\<exists>b \<in> set (breachedContracts w) \<union> set (ba_tasks w). ret_chanPoint b = c)
          \<longrightarrow> c \<in> set (ba_fullyClosed w) \<or> rs_IsBreached c (ba_store w) = Inr True)"
proof -
  have "remembers (\<lambda>t S. rrepr t S Q) (newBreachArbiter t0)"
    using assms(2) by (auto simp: remembers_def pending_def newBreachArbiter_def)
  then obtain S where S: "rrepr (ba_store w) S Q" "\<forall>c \<in> pending w. c \<in> set (ba_fullyClosed w) \<or> rets S c \<noteq> None"
    using bolt_ret.remembers_run [OF assms(1)] unfolding remembers_def by blast
  with rs_IsBreached_run [OF S(1)] show ?thesis unfolding pending_def by fastforce
qed

theorem breach_never_forgotten_witness:
  "\<exists>w. (arb_step retributionStore)\<^sup>*\<^sup>* (newBreachArbiter empty_db) w \<and> (demo_point 9, None) \<in> set (ba_acks w)
     \<and> rs_IsBreached (demo_point 9) (ba_store w) = Inr True"
proof -
  let ?init = "newBreachArbiter empty_db :: db breachArbiter"
  have r: "rrepr (ba_store ?init) no_retributions (outside empty_db)" using rrepr_empty by (simp add: newBreachArbiter_def)
  obtain w1 js where w1: "ba_Start demo_bcfg ?init = (Inr (), w1)" "ba_fullyClosed w1 = []"
      "rrepr (ba_store w1) (no_retributions\<lparr>rets := still_open [] (rets no_retributions), justice := js\<rparr>) (outside empty_db)"
      "map fst (ba_observers w1) = [demo_point 9, demo_point 8]"
    using bolt_ret.Start_ok [OF demo_benv(1) r, of "[]" "[demo_point 9, demo_point 8]"]
    by (auto simp: demo_bcfg_def newBreachArbiter_def still_open_def no_retributions_def)
  from w1(4) have "demo_point 9 \<in> fst ` set (ba_observers w1)" by (metis list.set_intros(1) list.set_map)
  then obtain sg where sg: "(demo_point 9, sg) \<in> set (ba_observers w1)" by auto
  let ?obs = "w1\<lparr>ba_observers := remove1 (demo_point 9, sg) (ba_observers w1)\<rparr>"
  let ?fin = "snd (breachObserver demo_bcfg (\<lambda>_. True) (demo_point 9) (ContractBreach demo_breach) ?obs)"
  have "arb_step retributionStore ?init w1" using arb_step.start [OF demo_env_ok, of ?init] w1(1) by simp
  moreover have "arb_step retributionStore w1 ?fin"
    using storable_demo_ret by (intro arb_step.observe [OF demo_env_ok sg]) (simp add: storable_event_def demo_ret_def)
  ultimately have steps: "(arb_step retributionStore)\<^sup>*\<^sup>* ?init ?fin" by (meson converse_rtranclp_into_rtranclp r_into_rtranclp)
  obtain t' where "rs_Add demo_ret (ba_store w1) = (Inr (), t')" using rs_Add_run [OF w1(3) storable_demo_ret] by blast
  then have "(demo_point 9, None) \<in> set (ba_acks ?fin)" "ba_fullyClosed ?fin = []"
    using w1(2) by (simp_all add: breachObserver_def CloseLink_def sendAck_def a_Update_def io_simps Let_def demo_benv(1)
        retributionStore_def demo_ret_def [symmetric])
  with breach_never_forgotten [OF steps rrepr_empty] steps show ?thesis by fastforce
qed

text \<open>
  A restart resumes: with backends that answer, \<^verbatim>\<open>Start\<close> succeeds, starts a
  retribution for exactly the stored breaches whose channel is not closed for good, deletes the
  others from the store, and puts an observer on exactly the active channels without a breach.
\<close>

theorem Start_resumes:
  assumes "bc_Store cfg = retributionStore" "rrepr (ba_store w) S Q" "\<not> ba_started w" "bc_FetchClosedChannels cfg = Inr cs"
    "\<And>m. finite (dom m) \<Longrightarrow> set (bc_rangeOrder cfg m) = dom m" "bc_FetchAllChannels cfg = Inr act"
    "\<And>c. bc_SubscribeChannelEvents cfg c = None" "\<And>h n k. bc_RegisterConfirmationsNtfn cfg h n k = None"
  shows "\<exists>w' js. ba_Start cfg w = (Inr (), w') \<and> rrepr (ba_store w') (S\<lparr>rets := still_open cs (rets S), justice := js\<rparr>) Q
     \<and> set (ba_tasks w') = set (ba_tasks w) \<union> ran (still_open cs (rets S))
     \<and> map fst (ba_observers w') = map fst (ba_observers w) @ filter (\<lambda>c. still_open cs (rets S) c = None) act
     \<and> (\<forall>c \<in> set act. still_open cs (rets S) c = None \<longrightarrow> breachObservers w' c \<noteq> None)"
  using bolt_ret.Start_ok [OF assms] by blast

theorem Start_resumes_witness:
  "\<exists>w'. ba_Start demo_bcfg demo_aw = (Inr (), w') \<and> set (ba_tasks w') = {demo_ret}
     \<and> map fst (ba_observers w') = [demo_point 8]"
proof -
  have r: "rrepr (ba_store demo_aw) demo_S (outside empty_db)"
    using rrepr_demo by (simp add: demo_aw_def newBreachArbiter_def)
  have "demo_point 8 \<noteq> demo_point 9" by (simp add: demo_point_def)
  with Start_resumes [OF demo_benv(1) r, of "[]" "[demo_point 9, demo_point 8]"] show ?thesis
    by (simp add: demo_bcfg_def demo_aw_def newBreachArbiter_def still_open_def demo_S_def no_retributions_def)
       (auto simp: ran_def split: if_splits)
qed

end
