(* ===== verification/CloseTx.thy ===== *)
theory CloseTx
  imports TxBuild "HOL-Library.Product_Lexorder" "HOL-Library.Signed_Division"
begin

text \<open>
  The closing transaction, as the wallet's channel state machine makes it
  (\<^verbatim>\<open>lnwallet/channel.go\<close>): the balances after the fee, the outputs above the dust limits,
  the canonical order of BIP 69, signing our half and completing it with the remote
  signature. The signer and the script engine are parameters.
\<close>

section \<open>Canonical order\<close>

text \<open>
  \<^verbatim>\<open>sort.Sort\<close> with the comparisons of \<^verbatim>\<open>txsort\<close>. Outputs of which neither is less than
  the other are equal, so the order is determined.
\<close>

definition inputKey :: "TxIn \<Rightarrow> bytes \<times> u32" where
  "inputKey i = (rev (hash_bytes (Hash (PreviousOutPoint i))), Index (PreviousOutPoint i))"

definition outputKey :: "TxOut \<Rightarrow> int \<times> bytes" where
  "outputKey out = (sint (Value out), PkScript out)"

definition InPlaceSort :: "MsgTx \<Rightarrow> MsgTx" where
  "InPlaceSort tx = tx\<lparr>TxIns := sort_key inputKey (TxIns tx), TxOuts := sort_key outputKey (TxOuts tx)\<rparr>"

section \<open>The channel\<close>

datatype channelState = channelPending | channelOpen | channelClosing | channelClosed | channelDispute
  | channelPendingPayment

record LightningChannel =
  lc_status :: channelState
  FundingOutpoint :: OutPoint
  LocalBalance :: u64 \<comment> \<open>in millisatoshi\<close>
  RemoteBalance :: u64
  lc_CommitFee :: u64
  lc_IsInitiator :: bool
  localDustLimit :: u64
  remoteDustLimit :: u64
  lc_WitnessScript :: bytes
  localMultiSigKey :: bytes
  remoteMultiSigKey :: bytes
  lc_ChainHash :: hash
  lc_RemoteIdentity :: bytes
  lc_Capacity :: u64
  lc_ShortChanID :: u64

definition ToSatoshis :: "u64 \<Rightarrow> u64" where "ToSatoshis m = m div 1000"

definition CommitWeight :: nat where "CommitWeight = 724"

text \<open>Division of amounts, which are signed, truncates towards zero.\<close>

definition amt_div :: "u64 \<Rightarrow> int \<Rightarrow> u64" where
  "amt_div a n = word_of_int (sint a sdiv n)"

definition FeeForWeight :: "u64 \<Rightarrow> nat \<Rightarrow> u64" where
  "FeeForWeight s wu = amt_div (s * word_of_nat wu) 1000"

definition CalcFee :: "u64 \<Rightarrow> u64" where
  "CalcFee feeRate = FeeForWeight feeRate CommitWeight"

definition fundingTxIn :: "LightningChannel \<Rightarrow> TxIn" where
  "fundingTxIn lc = \<lparr>PreviousOutPoint = FundingOutpoint lc, SignatureScript = [], Witness = [], Sequence = 0xffffffff\<rparr>"

definition CreateCooperativeCloseTx ::
  "TxIn \<Rightarrow> u64 \<Rightarrow> u64 \<Rightarrow> u64 \<Rightarrow> u64 \<Rightarrow> bytes \<Rightarrow> bytes \<Rightarrow> MsgTx" where
  "CreateCooperativeCloseTx fundingIn localDust remoteDust ourBalance theirBalance ourScript theirScript =
     (let closeTx = AddTxIn fundingIn (NewMsgTx 2);
          closeTx = (if sint ourBalance \<ge> sint localDust
                     then AddTxOut \<lparr>Value = ourBalance, PkScript = ourScript\<rparr> closeTx else closeTx);
          closeTx = (if sint theirBalance \<ge> sint remoteDust
                     then AddTxOut \<lparr>Value = theirBalance, PkScript = theirScript\<rparr> closeTx else closeTx)
      in InPlaceSort closeTx)"

text \<open>The balances after the fee: the initiator of the channel pays it, and gets the commitment fee back.\<close>

definition closeBalances :: "LightningChannel \<Rightarrow> u64 \<Rightarrow> u64 \<times> u64" where
  "closeBalances lc proposedFee =
     (let ourBalance = ToSatoshis (LocalBalance lc); theirBalance = ToSatoshis (RemoteBalance lc);
          commitFee = lc_CommitFee lc
      in if lc_IsInitiator lc then (ourBalance - proposedFee + commitFee, theirBalance)
         else (ourBalance, theirBalance - proposedFee + commitFee))"

definition closeTxFor :: "LightningChannel \<Rightarrow> u64 \<Rightarrow> bytes \<Rightarrow> bytes \<Rightarrow> MsgTx" where
  "closeTxFor lc fee localScript remoteScript =
     (case closeBalances lc fee of (ourBalance, theirBalance) \<Rightarrow>
        CreateCooperativeCloseTx (fundingTxIn lc) (localDustLimit lc) (remoteDustLimit lc)
          ourBalance theirBalance localScript remoteScript)"

definition CreateCloseProposal :: "(MsgTx \<Rightarrow> goerr + bytes) \<Rightarrow> (MsgTx \<Rightarrow> hash) \<Rightarrow> u64 \<Rightarrow> bytes \<Rightarrow> bytes
    \<Rightarrow> (LightningChannel, bytes \<times> hash \<times> u64) io" where
  "CreateCloseProposal SignOutputRaw txHash proposedFee localScript remoteScript lc =
     (if lc_status lc = channelClosed then (Inl ErrChanClosing, lc)
      else
        (let closeTx = closeTxFor lc proposedFee localScript remoteScript in
         case CheckTransactionSanity closeTx of Some e \<Rightarrow> (Inl e, lc)
         | None \<Rightarrow>
             (case SignOutputRaw closeTx of Inl e \<Rightarrow> (Inl e, lc)
              | Inr sig \<Rightarrow> (Inr (sig, txHash closeTx, fst (closeBalances lc proposedFee)),
                            lc\<lparr>lc_status := channelClosing\<rparr>))))"

definition SpendMultiSig :: "bytes \<Rightarrow> bytes \<Rightarrow> bytes \<Rightarrow> bytes \<Rightarrow> bytes \<Rightarrow> bytes list" where
  "SpendMultiSig witnessScript pubA sigA pubB sigB =
     (if pubA > pubB then [[], sigB, sigA, witnessScript] else [[], sigA, sigB, witnessScript])"

definition CompleteCooperativeClose :: "(MsgTx \<Rightarrow> goerr option) \<Rightarrow> bytes \<Rightarrow> bytes \<Rightarrow> bytes \<Rightarrow> bytes \<Rightarrow> u64
    \<Rightarrow> (LightningChannel, MsgTx \<times> u64) io" where
  "CompleteCooperativeClose vmExecute localSig remoteSig localScript remoteScript proposedFee lc =
     (if lc_status lc = channelClosed then (Inl ErrChanClosing, lc)
      else
        (let closeTx = closeTxFor lc proposedFee localScript remoteScript in
         case CheckTransactionSanity closeTx of Some e \<Rightarrow> (Inl e, lc)
         | None \<Rightarrow>
             (let witness = SpendMultiSig (lc_WitnessScript lc) (localMultiSigKey lc) localSig (remoteMultiSigKey lc) remoteSig;
                  closeTx = closeTx\<lparr>TxIns := (TxIns closeTx)[0 := (TxIns closeTx ! 0)\<lparr>Witness := witness\<rparr>]\<rparr>
              in case vmExecute closeTx of Some e \<Rightarrow> (Inl e, lc)
                 | None \<Rightarrow> (Inr (closeTx, fst (closeBalances lc proposedFee)), lc\<lparr>lc_status := channelClosed\<rparr>))))"

section \<open>Both parties make the same transaction\<close>

text \<open>The two ends of one channel without pending payments.\<close>

definition mirrored :: "LightningChannel \<Rightarrow> LightningChannel \<Rightarrow> bool" where
  "mirrored a b \<longleftrightarrow> FundingOutpoint b = FundingOutpoint a \<and> LocalBalance b = RemoteBalance a
     \<and> RemoteBalance b = LocalBalance a \<and> lc_CommitFee b = lc_CommitFee a \<and> lc_IsInitiator b = (\<not> lc_IsInitiator a)
     \<and> localDustLimit b = remoteDustLimit a \<and> remoteDustLimit b = localDustLimit a
     \<and> lc_WitnessScript b = lc_WitnessScript a \<and> localMultiSigKey b = remoteMultiSigKey a
     \<and> remoteMultiSigKey b = localMultiSigKey a"

lemma outputKey_inj: "outputKey x = outputKey y \<Longrightarrow> x = y"
  by (cases x, cases y) (auto simp: outputKey_def intro: signed_word_eqI)

lemma sort_outputs_swap: "sort_key outputKey [x, y] = sort_key outputKey [y, x]"
  using outputKey_inj [of x y] by auto

definition closeOuts :: "u64 \<Rightarrow> u64 \<Rightarrow> bytes \<Rightarrow> TxOut list" where
  "closeOuts dust bal script = (if sint bal \<ge> sint dust then [\<lparr>Value = bal, PkScript = script\<rparr>] else [])"

lemma CreateCooperativeCloseTx_eq:
  "CreateCooperativeCloseTx i ld rd our their ls rs =
     \<lparr>Version = 2, TxIns = [i], TxOuts = sort_key outputKey (closeOuts ld our ls @ closeOuts rd their rs), LockTime = 0\<rparr>"
  by (simp add: CreateCooperativeCloseTx_def InPlaceSort_def AddTxIn_def AddTxOut_def NewMsgTx_def closeOuts_def Let_def)

lemma sort_closeOuts_swap:
  "sort_key outputKey (closeOuts d a s @ closeOuts d' a' s') = sort_key outputKey (closeOuts d' a' s' @ closeOuts d a s)"
proof (cases "closeOuts d a s = [] \<or> closeOuts d' a' s' = []")
  case False
  then obtain x y where "closeOuts d a s = [x]" "closeOuts d' a' s' = [y]"
    by (auto simp: closeOuts_def split: if_splits)
  then show ?thesis using sort_outputs_swap [of x y] by simp
qed auto

lemma closeTxFor_mirrored:
  assumes "mirrored a b"
  shows "closeTxFor b fee rs ls = closeTxFor a fee ls rs"
proof -
  have "closeBalances b fee = (snd (closeBalances a fee), fst (closeBalances a fee))" "fundingTxIn b = fundingTxIn a"
    using assms by (auto simp: mirrored_def closeBalances_def fundingTxIn_def Let_def)
  with assms show ?thesis
    using sort_closeOuts_swap [of "remoteDustLimit a" "snd (closeBalances a fee)" rs "localDustLimit a" "fst (closeBalances a fee)" ls]
    by (simp add: closeTxFor_def CreateCooperativeCloseTx_eq mirrored_def split: prod.split)
qed

end
