(* ===== verification/ChanCloser.thy ===== *)
theory ChanCloser
  imports CloseTx
begin

text \<open>
  The cooperative close of a channel (\<^verbatim>\<open>src/lnd/chancloser.go\<close>): a state machine that
  exchanges shutdown messages, negotiates the fee of the closing transaction and broadcasts
  it. The channel it closes, the transactions it has broadcast and the closes the chain
  watcher was told of are part of its state; the wallet, the network and the database are its
  configuration.
\<close>

section \<open>Data\<close>

text \<open>A state is a byte; every value without a name is \<open>closeUnknown\<close>.\<close>

datatype closeState = closeIdle | closeShutdownInitiated | closeFeeNegotiation | closeFinished | closeUnknown byte

type_synonym ChannelID = bytes
type_synonym Sig = bytes

record Shutdown =
  sd_ChannelID :: ChannelID
  sd_Address :: bytes

record ClosingSigned =
  cs_ChannelID :: ChannelID
  FeeSatoshis :: u64
  Signature :: Sig

datatype Message = MsgShutdown Shutdown | MsgClosingSigned ClosingSigned | OtherMessage

record ChannelCloseSummary =
  sum_ChanPoint :: OutPoint
  sum_ChainHash :: hash
  ClosingTXID :: hash
  CloseHeight :: u32
  RemotePub :: bytes
  sum_Capacity :: u64
  SettledBalance :: u64
  sum_ShortChanID :: u64
  IsPending :: bool

record chanCloseCfg =
  broadcastTx :: "MsgTx \<Rightarrow> goerr option"
  SignOutputRaw :: "MsgTx \<Rightarrow> goerr + bytes"
  vmExecute :: "MsgTx \<Rightarrow> goerr option"
  TxHash :: "MsgTx \<Rightarrow> hash"
  NewSigFromRawSignature :: "bytes \<Rightarrow> goerr + Sig"
  ToSignatureBytes :: "Sig \<Rightarrow> bytes"
  CloseChannel :: "ChannelCloseSummary \<Rightarrow> goerr option"

record channelCloser =
  state :: closeState
  channel :: LightningChannel
  cc_chanPoint :: OutPoint
  cid :: ChannelID
  negotiationHeight :: u32
  closingTx :: "MsgTx option"
  idealFeeSat :: u64
  lastFeeProposal :: u64
  priorFeeOffers :: "u64 \<rightharpoonup> ClosingSigned"
  closeReq :: "nat option"
  localDeliveryScript :: bytes
  remoteDeliveryScript :: bytes
  unregistered :: "ChannelID list"
  broadcasts :: "MsgTx list"
  activeCloses :: "ChannelCloseSummary list"
  closedInDB :: "ChannelCloseSummary list"

text \<open>The id is the transaction id with its last two bytes xor-ed with the index.\<close>

definition NewChanIDFromOutPoint :: "OutPoint \<Rightarrow> ChannelID" where
  "NewChanIDFromOutPoint op =
     (let c = hash_bytes (Hash op); buf = PutUint32 (Index op) in
      c[30 := xor (c ! 30) (buf ! 2), 31 := xor (c ! 31) (buf ! 3)])"

definition newChannelCloser ::
  "LightningChannel \<Rightarrow> bytes \<Rightarrow> u64 \<Rightarrow> u32 \<Rightarrow> nat option \<Rightarrow> channelCloser" where
  "newChannelCloser chan deliveryScript idealFeePerKw height closeRequest =
     (let idealFee = CalcFee idealFeePerKw; channelCommitFee = lc_CommitFee chan;
          idealFee = (if sint idealFee > sint channelCommitFee then channelCommitFee else idealFee)
      in \<lparr>state = closeIdle, channel = chan, cc_chanPoint = FundingOutpoint chan,
          cid = NewChanIDFromOutPoint (FundingOutpoint chan), negotiationHeight = height, closingTx = None,
          idealFeeSat = idealFee, lastFeeProposal = 0, priorFeeOffers = Map.empty, closeReq = closeRequest,
          localDeliveryScript = deliveryScript, remoteDeliveryScript = [], unregistered = [], broadcasts = [],
          activeCloses = [], closedInDB = []\<rparr>)"

section \<open>The fee\<close>

definition feeInAcceptableRange :: "u64 \<Rightarrow> u64 \<Rightarrow> bool" where
  "feeInAcceptableRange localFee remoteFee =
     (if sint localFee < sint remoteFee
      then sint remoteFee \<le> sint (localFee + amt_div (localFee * 3) 10)
      else sint remoteFee \<ge> sint (localFee - amt_div (localFee * 3) 10))"

definition rachetFee :: "u64 \<Rightarrow> bool \<Rightarrow> u64" where
  "rachetFee fee up = (if up then fee + amt_div (fee * 1) 10 else fee - amt_div (fee * 1) 10)"

definition calcCompromiseFee :: "u64 \<Rightarrow> u64 \<Rightarrow> u64 \<Rightarrow> u64" where
  "calcCompromiseFee ourIdealFee lastSentFee remoteFee =
     (if ourIdealFee = remoteFee \<or> lastSentFee = 0 then ourIdealFee
      else if remoteFee = lastSentFee then lastSentFee
      else if sint remoteFee < sint lastSentFee then
        (if feeInAcceptableRange lastSentFee remoteFee then remoteFee else rachetFee lastSentFee False)
      else if sint remoteFee > sint lastSentFee then
        (if feeInAcceptableRange lastSentFee remoteFee then remoteFee else rachetFee lastSentFee True)
      else remoteFee)"

section \<open>Proposals\<close>

definition c_channel :: "(LightningChannel, 'a) io \<Rightarrow> (channelCloser, 'a) io" where
  "c_channel f c = (case f (channel c) of (r, lc) \<Rightarrow> (r, c\<lparr>channel := lc\<rparr>))"

definition closeSummary :: "channelCloser \<Rightarrow> hash \<Rightarrow> u64 \<Rightarrow> ChannelCloseSummary" where
  "closeSummary c txid balance =
     \<lparr>sum_ChanPoint = cc_chanPoint c, sum_ChainHash = lc_ChainHash (channel c), ClosingTXID = txid,
      CloseHeight = negotiationHeight c, RemotePub = lc_RemoteIdentity (channel c),
      sum_Capacity = lc_Capacity (channel c), SettledBalance = balance,
      sum_ShortChanID = lc_ShortChanID (channel c), IsPending = True\<rparr>"

definition LogPotentialClose :: "ChannelCloseSummary \<Rightarrow> (channelCloser, unit) io" where
  "LogPotentialClose potentialClose = imod (\<lambda>c.
     if ClosingTXID potentialClose \<in> ClosingTXID ` set (activeCloses c) then c
     else c\<lparr>activeCloses := activeCloses c @ [potentialClose]\<rparr>)"

definition Finalize :: "chanCloseCfg \<Rightarrow> ChannelCloseSummary \<Rightarrow> (channelCloser, unit) io" where
  "Finalize cfg preferredClose =
     (case CloseChannel cfg preferredClose of Some e \<Rightarrow> ifail e
      | None \<Rightarrow> ibind (imod (\<lambda>c. c\<lparr>closedInDB := closedInDB c @ [preferredClose]\<rparr>)) (\<lambda>_.
                  LogPotentialClose preferredClose))"

definition proposeCloseSigned :: "chanCloseCfg \<Rightarrow> u64 \<Rightarrow> (channelCloser, ClosingSigned) io" where
  "proposeCloseSigned cfg fee c =
     ibind (c_channel (CreateCloseProposal (SignOutputRaw cfg) (TxHash cfg) fee
              (localDeliveryScript c) (remoteDeliveryScript c))) (\<lambda>(rawSig, txid, localAmt).
     ibind (imod (\<lambda>c. c\<lparr>lastFeeProposal := fee\<rparr>)) (\<lambda>_.
     ibind (ilift (NewSigFromRawSignature cfg rawSig)) (\<lambda>parsedSig.
     let closeSignedMsg = \<lparr>cs_ChannelID = cid c, FeeSatoshis = fee, Signature = parsedSig\<rparr> in
     ibind (imod (\<lambda>c. c\<lparr>priorFeeOffers := (priorFeeOffers c)(fee \<mapsto> closeSignedMsg)\<rparr>)) (\<lambda>_.
     ibind (LogPotentialClose (closeSummary c txid localAmt)) (\<lambda>_.
       iret closeSignedMsg))))) c"

section \<open>The state machine\<close>

definition initChanShutdown :: "(channelCloser, Shutdown) io" where
  "initChanShutdown c =
     (let shutdown = \<lparr>sd_ChannelID = cid c, sd_Address = localDeliveryScript c\<rparr>
      in (Inr shutdown, c\<lparr>unregistered := unregistered c @ [cid c]\<rparr>))"

definition ShutdownChan :: "(channelCloser, Shutdown) io" where
  "ShutdownChan c =
     (if state c \<noteq> closeIdle then (Inl ErrChanAlreadyClosing, c)
      else ibind initChanShutdown (\<lambda>shutdownMsg.
           ibind (imod (\<lambda>c. c\<lparr>state := closeShutdownInitiated\<rparr>)) (\<lambda>_.
             iret shutdownMsg)) c)"

definition ClosingTx :: "channelCloser \<Rightarrow> goerr + MsgTx option" where
  "ClosingTx c = (if state c \<noteq> closeFinished then Inl ErrChanCloseNotFinished else Inr (closingTx c))"

definition CloseRequest :: "channelCloser \<Rightarrow> nat option" where
  "CloseRequest c = closeReq c"

text \<open>The end of the negotiation: both signatures for the fee are there.\<close>

definition acceptFee :: "chanCloseCfg \<Rightarrow> ClosingSigned \<Rightarrow> (channelCloser, Message list \<times> bool) io" where
  "acceptFee cfg closeSignedMsg c =
     (let remoteProposedFee = FeeSatoshis closeSignedMsg in
      case priorFeeOffers c remoteProposedFee of
        None \<Rightarrow> (Inl (GoPanic ''nil pointer dereference''), c)
      | Some matchingOffer \<Rightarrow>
          (let localSig = ToSignatureBytes cfg (Signature matchingOffer) @ [1];
               remoteSig = ToSignatureBytes cfg (Signature closeSignedMsg) @ [1] in
           ibind (c_channel (CompleteCooperativeClose (vmExecute cfg) localSig remoteSig (localDeliveryScript c)
                    (remoteDeliveryScript c) remoteProposedFee)) (\<lambda>(closeTx, finalLocalBalance).
           ibind (imod (\<lambda>c. c\<lparr>closingTx := Some closeTx\<rparr>)) (\<lambda>_.
           ibind (case broadcastTx cfg closeTx of Some e \<Rightarrow> ifail e
                  | None \<Rightarrow> imod (\<lambda>c. c\<lparr>broadcasts := broadcasts c @ [closeTx]\<rparr>)) (\<lambda>_.
           ibind (itry (Finalize cfg (closeSummary c (TxHash cfg closeTx) finalLocalBalance))) (\<lambda>_.
           ibind (imod (\<lambda>c. c\<lparr>state := closeFinished\<rparr>)) (\<lambda>_.
             iret ([MsgClosingSigned matchingOffer], True)))))) c))"

definition negotiateFee :: "chanCloseCfg \<Rightarrow> ClosingSigned \<Rightarrow> (channelCloser, Message list \<times> bool) io" where
  "negotiateFee cfg closeSignedMsg c =
     (let remoteProposedFee = FeeSatoshis closeSignedMsg in
      if priorFeeOffers c remoteProposedFee \<noteq> None then acceptFee cfg closeSignedMsg c
      else
        (let feeProposal = calcCompromiseFee (idealFeeSat c) (lastFeeProposal c) remoteProposedFee in
         ibind (proposeCloseSigned cfg feeProposal) (\<lambda>closeSigned.
           if feeProposal \<noteq> remoteProposedFee then iret ([MsgClosingSigned closeSigned], False)
           else acceptFee cfg closeSignedMsg) c))"

definition ProcessCloseMsg :: "chanCloseCfg \<Rightarrow> Message \<Rightarrow> (channelCloser, Message list \<times> bool) io" where
  "ProcessCloseMsg cfg msg c =
     (case state c of
        closeIdle \<Rightarrow>
          (case msg of MsgShutdown shutDownMsg \<Rightarrow>
             ibind (imod (\<lambda>c. c\<lparr>remoteDeliveryScript := sd_Address shutDownMsg\<rparr>)) (\<lambda>_.
             ibind initChanShutdown (\<lambda>localShutdown.
             ibind (imod (\<lambda>c. c\<lparr>state := closeFeeNegotiation\<rparr>)) (\<lambda>_.
             if lc_IsInitiator (channel c)
             then ibind (proposeCloseSigned cfg (idealFeeSat c)) (\<lambda>closeSigned.
                    iret ([MsgShutdown localShutdown, MsgClosingSigned closeSigned], False))
             else iret ([MsgShutdown localShutdown], False)))) c
           | _ \<Rightarrow> (Inl (GoErr ''expected lnwire.Shutdown''), c))
      | closeShutdownInitiated \<Rightarrow>
          (case msg of MsgShutdown shutDownMsg \<Rightarrow>
             ibind (imod (\<lambda>c. c\<lparr>remoteDeliveryScript := sd_Address shutDownMsg\<rparr>)) (\<lambda>_.
             ibind (imod (\<lambda>c. c\<lparr>state := closeFeeNegotiation\<rparr>)) (\<lambda>_.
             if lc_IsInitiator (channel c)
             then ibind (proposeCloseSigned cfg (idealFeeSat c)) (\<lambda>closeSigned.
                    iret ([MsgClosingSigned closeSigned], False))
             else iret ([], False))) c
           | _ \<Rightarrow> (Inl (GoErr ''expected lnwire.Shutdown''), c))
      | closeFeeNegotiation \<Rightarrow>
          (case msg of MsgClosingSigned closeSignedMsg \<Rightarrow> negotiateFee cfg closeSignedMsg c
           | _ \<Rightarrow> (Inl (GoErr ''expected lnwire.ClosingSigned''), c))
      | closeFinished \<Rightarrow>
          (case msg of MsgClosingSigned _ \<Rightarrow> (Inr ([], True), c)
           | _ \<Rightarrow> (Inl (GoErr ''expected lnwire.ClosingSigned''), c))
      | closeUnknown _ \<Rightarrow> (Inl ErrInvalidState, c))"

end
