(* ===== verification/CloseFees.thy ===== *)
theory CloseFees
  imports ChanCloser
begin

text \<open>
  The fee arithmetic of the negotiation, read over the integers: for amounts of money nothing
  wraps, a compromise never leaves the range between our last offer and theirs, and it comes
  strictly closer as long as a tenth of our offer is at least one satoshi.
\<close>

definition money :: "u64 \<Rightarrow> bool" where
  "money a \<longleftrightarrow> 0 \<le> sint a \<and> sint a \<le> MaxSatoshi"

lemma sint_add_small: "\<bar>sint a + sint b\<bar> < 2 ^ 63 \<Longrightarrow> sint (a + b) = sint a + sint b" for a b :: u64
  by (simp add: sint_word_ariths signed_take_bit_int_eq_self abs_less_iff)

lemma sint_sub_small: "\<bar>sint a - sint b\<bar> < 2 ^ 63 \<Longrightarrow> sint (a - b) = sint a - sint b" for a b :: u64
  by (simp add: sint_word_ariths signed_take_bit_int_eq_self abs_less_iff)

lemma sint_mult_small: "\<bar>sint a * sint b\<bar> < 2 ^ 63 \<Longrightarrow> sint (a * b) = sint a * sint b" for a b :: u64
  by (simp add: sint_word_ariths signed_take_bit_int_eq_self abs_less_iff)

lemma sint_amt_div:
  assumes "0 \<le> sint a" "0 < n"
  shows "sint (amt_div a n) = sint a div n"
proof -
  have "sint a div n \<le> sint a" using zdiv_mono2 [of "sint a" 1 n] assms by simp
  moreover have "sint a < 2 ^ 63" using sint_lt [of a] by simp
  ultimately have "sint a div n < 2 ^ 63" by simp
  moreover have "0 \<le> sint a div n" using assms by (simp add: pos_imp_zdiv_nonneg_iff)
  moreover have "sint a sdiv n = sint a div n"
    using assms by (cases "sint a = 0") (simp_all add: signed_divide_int_def)
  ultimately show ?thesis
    by (simp add: amt_div_def signed_take_bit_int_eq_self signed_of_int)
qed

lemma money_parts:
  assumes "money a"
  shows "sint (amt_div (a * 3) 10) = sint a * 3 div 10" "sint (amt_div (a * 1) 10) = sint a div 10"
  using assms sint_mult_small [of a 3] by (simp_all add: money_def MaxSatoshi_def sint_amt_div)

lemma tenth_bounds: "10 * (y div 10) \<le> y" "y < 10 * (y div 10) + 10" for y :: int
  using div_mult_mod_eq [of y 10] pos_mod_sign [of 10 y] pos_mod_bound [of 10 y] by linarith+

lemma tenths: "0 \<le> (x::int) \<Longrightarrow> 0 \<le> x div 10 \<and> x div 10 \<le> x * 3 div 10 \<and> x * 3 div 10 \<le> x"
  using tenth_bounds [of x] tenth_bounds [of "x * 3"] by linarith

lemma tenths_pos: "10 \<le> (x::int) \<Longrightarrow> 0 < x div 10 \<and> x div 10 < x * 3 div 10"
  using tenth_bounds [of x] tenth_bounds [of "x * 3"] by linarith

lemma money_tenths:
  assumes "money a"
  shows "\<bar>sint a + sint a * 3 div 10\<bar> < 2 ^ 63" "\<bar>sint a - sint a * 3 div 10\<bar> < 2 ^ 63"
    "\<bar>sint a + sint a div 10\<bar> < 2 ^ 63" "\<bar>sint a - sint a div 10\<bar> < 2 ^ 63"
proof -
  have "0 \<le> sint a" "sint a \<le> 2100000000000000" using assms by (simp_all add: money_def MaxSatoshi_def)
  moreover from this have "0 \<le> sint a * 3 div 10" "sint a * 3 div 10 \<le> sint a" "0 \<le> sint a div 10" "sint a div 10 \<le> sint a"
    using tenths [of "sint a"] by linarith+
  ultimately show "\<bar>sint a + sint a * 3 div 10\<bar> < 2 ^ 63" "\<bar>sint a - sint a * 3 div 10\<bar> < 2 ^ 63"
    "\<bar>sint a + sint a div 10\<bar> < 2 ^ 63" "\<bar>sint a - sint a div 10\<bar> < 2 ^ 63"
    by simp_all
qed

lemma feeInAcceptableRange_int:
  assumes "money l" "money r"
  shows "feeInAcceptableRange l r \<longleftrightarrow>
     (if sint l < sint r then sint r \<le> sint l + sint l * 3 div 10 else sint l - sint l * 3 div 10 \<le> sint r)"
  using assms sint_add_small [of l "amt_div (l * 3) 10"] sint_sub_small [of l "amt_div (l * 3) 10"] money_parts [OF assms(1)]
    money_tenths [OF assms(1)]
  by (simp add: feeInAcceptableRange_def)

lemma rachetFee_int:
  assumes "money l"
  shows "sint (rachetFee l up) = (if up then sint l + sint l div 10 else sint l - sint l div 10)"
  using assms sint_add_small [of l "amt_div (l * 1) 10"] sint_sub_small [of l "amt_div (l * 1) 10"] money_parts [OF assms]
    money_tenths [OF assms]
  by (simp add: rachetFee_def)

definition compromise :: "int \<Rightarrow> int \<Rightarrow> int \<Rightarrow> int" where
  "compromise ideal sent remote =
     (if ideal = remote \<or> sent = 0 then ideal
      else if remote = sent then sent
      else if remote < sent then (if sent - sent * 3 div 10 \<le> remote then remote else sent - sent div 10)
      else (if remote \<le> sent + sent * 3 div 10 then remote else sent + sent div 10))"

lemma calcCompromiseFee_int:
  assumes "money i" "money l" "money r"
  shows "sint (calcCompromiseFee i l r) = compromise (sint i) (sint l) (sint r)"
proof -
  have eq: "a = b \<longleftrightarrow> sint a = sint b" "l = 0 \<longleftrightarrow> sint l = 0" for a b :: u64
    using word_eq_iff_signed [where 'a = int] signed_eq_0_iff [where 'a = int] by blast+
  show ?thesis
    using feeInAcceptableRange_int [OF assms(2,3)] rachetFee_int [OF assms(2)]
    unfolding calcCompromiseFee_def compromise_def eq by simp
qed

lemma compromise_between:
  assumes "0 \<le> sent" "0 \<le> remote" "sent \<noteq> 0"
  shows "min sent remote \<le> compromise ideal sent remote" "compromise ideal sent remote \<le> max sent remote"
  using assms tenths [OF assms(1)] unfolding compromise_def by (simp_all split: if_split)

lemma compromise_closer:
  assumes "10 \<le> sent" "0 \<le> remote" "compromise ideal sent remote \<noteq> remote"
  shows "\<bar>compromise ideal sent remote - remote\<bar> < \<bar>sent - remote\<bar>"
  using assms tenths_pos [OF assms(1)] tenths [of sent] unfolding compromise_def by (simp split: if_splits)
lemma compromise_stuck:
  assumes "0 < sent" "sent < 10" "ideal \<noteq> remote" "remote < sent - sent * 3 div 10 \<or> sent + sent * 3 div 10 < remote"
  shows "compromise ideal sent remote = sent"
  using assms tenths [of sent] unfolding compromise_def by auto
end
