(* ===== verification/CloseTalk.thy ===== *)
theory CloseTalk
  imports CloseFees
begin

text \<open>
  Two channel closers at the ends of one channel, talking to each other. The messages of one
  side are handed to the other, whose answers go back, until nobody has anything to say.
\<close>

section \<open>The conversation\<close>

fun feed :: "chanCloseCfg \<Rightarrow> Message list \<Rightarrow> (channelCloser, Message list) io" where
  "feed cfg [] = iret []"
| "feed cfg (m # ms) =
     ibind (ProcessCloseMsg cfg m) (\<lambda>(out, _).
     ibind (feed cfg ms) (\<lambda>out'. iret (out @ out')))"

fun talk :: "nat \<Rightarrow> chanCloseCfg \<Rightarrow> channelCloser \<Rightarrow> chanCloseCfg \<Rightarrow> channelCloser \<Rightarrow> Message list
    \<Rightarrow> (channelCloser \<times> channelCloser) option" where
  "talk n cfg c cfg' c' [] = Some (c, c')"
| "talk 0 cfg c cfg' c' (m # ms) = None"
| "talk (Suc n) cfg c cfg' c' (m # ms) =
     (case feed cfg (m # ms) c of (Inl e, _) \<Rightarrow> None | (Inr out, d) \<Rightarrow> talk n cfg' c' cfg d out)"

lemma talk_step: "feed cfg ms c = (Inr out, d) \<Longrightarrow> ms \<noteq> [] \<Longrightarrow> talk (Suc n) cfg c cfg' c' ms = talk n cfg' c' cfg d out"
  by (cases ms) simp_all

lemma feed_one: "ProcessCloseMsg cfg m c = (Inr (out, fin), d) \<Longrightarrow> feed cfg [m] c = (Inr out, d)"
  by (simp add: ibind_def io_run)

section \<open>A party to the negotiation\<close>

definition rawTx :: "channelCloser \<Rightarrow> u64 \<Rightarrow> MsgTx" where
  "rawTx c f = closeTxFor (channel c) f (localDeliveryScript c) (remoteDeliveryScript c)"

definition signedTx :: "chanCloseCfg \<Rightarrow> channelCloser \<Rightarrow> MsgTx \<Rightarrow> Sig \<Rightarrow> Sig \<Rightarrow> MsgTx" where
  "signedTx cfg c tx s s' = (let lc = channel c in
     set_witness 0 (SpendMultiSig (lc_WitnessScript lc) (localMultiSigKey lc) (ToSignatureBytes cfg s @ [1])
       (remoteMultiSigKey lc) (ToSignatureBytes cfg s' @ [1])) tx)"

text \<open>
  A closer that negotiates over the fees \<open>F\<close>: \<open>raw f\<close> is the unsigned transaction for the fee
  \<open>f\<close>, \<open>sg f\<close> our signature on it and \<open>sg' f\<close> theirs, \<open>T f\<close> the transaction with both. All it
  has offered so far is signed that way, its backends take part, and it has broadcast nothing.
\<close>

definition party :: "chanCloseCfg \<Rightarrow> channelCloser \<Rightarrow> (u64 \<Rightarrow> MsgTx) \<Rightarrow> (u64 \<Rightarrow> Sig) \<Rightarrow> (u64 \<Rightarrow> Sig)
    \<Rightarrow> (u64 \<Rightarrow> MsgTx) \<Rightarrow> u64 set \<Rightarrow> bool" where
  "party cfg c raw sg sg' T F \<longleftrightarrow> state c = closeFeeNegotiation \<and> lc_status (channel c) \<noteq> channelClosed
     \<and> broadcasts c = [] \<and> rawTx c = raw \<and> idealFeeSat c \<in> F
     \<and> (\<forall>f m. priorFeeOffers c f = Some m \<longrightarrow> FeeSatoshis m = f \<and> Signature m = sg f)
     \<and> (\<forall>f \<in> F. CheckTransactionSanity (raw f) = None
          \<and> (\<exists>r. SignOutputRaw cfg (raw f) = Inr r \<and> NewSigFromRawSignature cfg r = Inr (sg f))
          \<and> signedTx cfg c (raw f) (sg f) (sg' f) = T f \<and> vmExecute cfg (T f) = None \<and> broadcastTx cfg (T f) = None)"

lemma rawTx_status: "rawTx (c\<lparr>channel := (channel c)\<lparr>lc_status := s\<rparr>\<rparr>) = rawTx c"
  by (simp add: rawTx_def closeTxFor_def closeBalances_def fundingTxIn_def fun_eq_iff)

lemma party_offers:
  assumes "party cfg c raw sg sg' T F" "f \<in> F"
  shows "\<exists>m d. proposeCloseSigned cfg f c = (Inr m, d) \<and> FeeSatoshis m = f \<and> Signature m = sg f
     \<and> party cfg d raw sg sg' T F \<and> lastFeeProposal d = f \<and> priorFeeOffers d = (priorFeeOffers c)(f \<mapsto> m)
     \<and> idealFeeSat d = idealFeeSat c"
proof -
  obtain r where r: "SignOutputRaw cfg (rawTx c f) = Inr r" "NewSigFromRawSignature cfg r = Inr (sg f)"
      "CheckTransactionSanity (rawTx c f) = None" "lc_status (channel c) \<noteq> channelClosed"
    using assms unfolding party_def by blast
  obtain m d where run: "proposeCloseSigned cfg f c = (Inr m, d)" "m = \<lparr>cs_ChannelID = cid c, FeeSatoshis = f, Signature = sg f\<rparr>"
    "state d = state c" "channel d = (channel c)\<lparr>lc_status := channelClosing\<rparr>" "broadcasts d = broadcasts c"
    "localDeliveryScript d = localDeliveryScript c" "remoteDeliveryScript d = remoteDeliveryScript c"
    "idealFeeSat d = idealFeeSat c" "lastFeeProposal d = f" "priorFeeOffers d = (priorFeeOffers c)(f \<mapsto> m)"
    using r unfolding proposeCloseSigned_def c_channel_def CreateCloseProposal_def rawTx_def LogPotentialClose_def
    by (auto simp: ibind_def io_run Let_def)
  have raw: "rawTx d = rawTx c"
    by (simp add: run(4,6,7) rawTx_def closeTxFor_def closeBalances_def fundingTxIn_def fun_eq_iff)
  have "signedTx cfg d tx s s' = signedTx cfg c tx s s'" for tx s s'
    by (simp add: signedTx_def run(4) Let_def)
  then have "party cfg d raw sg sg' T F"
    using assms(1) raw run unfolding party_def by auto
  with run show ?thesis by simp
qed

lemma party_accepts:
  assumes "party cfg c raw sg sg' T F" "f \<in> F" "priorFeeOffers c f \<noteq> None" "FeeSatoshis m' = f" "Signature m' = sg' f"
  shows "\<exists>m d. acceptFee cfg m' c = (Inr ([MsgClosingSigned m], True), d) \<and> FeeSatoshis m = f \<and> Signature m = sg f
     \<and> state d = closeFinished \<and> closingTx d = Some (T f) \<and> broadcasts d = [T f]"
proof -
  obtain m where m: "priorFeeOffers c f = Some m" "FeeSatoshis m = f" "Signature m = sg f"
    using assms(1,3) unfolding party_def by blast
  have ok: "CheckTransactionSanity (rawTx c f) = None" "lc_status (channel c) \<noteq> channelClosed" "broadcasts c = []"
    "signedTx cfg c (rawTx c f) (sg f) (sg' f) = T f" "vmExecute cfg (T f) = None" "broadcastTx cfg (T f) = None"
    using assms(1,2) unfolding party_def by auto
  then have "CompleteCooperativeClose (vmExecute cfg) (ToSignatureBytes cfg (sg f) @ [1]) (ToSignatureBytes cfg (sg' f) @ [1])
      (localDeliveryScript c) (remoteDeliveryScript c) f (channel c)
      = (Inr (T f, fst (closeBalances (channel c) f)), (channel c)\<lparr>lc_status := channelClosed\<rparr>)"
    by (simp add: CompleteCooperativeClose_def rawTx_def signedTx_def set_witness_def Let_def)
  with m assms(4,5) ok show ?thesis
    by (auto simp: acceptFee_def c_channel_def ibind_def itry_def io_run Let_def Finalize_def LogPotentialClose_def split: option.split)
qed

section \<open>Agreement\<close>

definition closed_with :: "(u64 \<Rightarrow> MsgTx) \<Rightarrow> u64 set \<Rightarrow> channelCloser \<Rightarrow> channelCloser \<Rightarrow> bool" where
  "closed_with T F p q \<longleftrightarrow> (\<exists>f \<in> F. \<forall>c \<in> {p, q}. state c = closeFinished \<and> closingTx c = Some (T f) \<and> broadcasts c = [T f])"

lemma closed_with_sym: "closed_with T F p q \<Longrightarrow> closed_with T F q p"
  by (auto simp: closed_with_def)

lemma ProcessCloseMsg_known:
  assumes "party cfg c raw sg sg' T F" "priorFeeOffers c (FeeSatoshis m) \<noteq> None"
  shows "ProcessCloseMsg cfg (MsgClosingSigned m) c = acceptFee cfg m c"
  using assms by (simp add: ProcessCloseMsg_def party_def negotiateFee_def Let_def)

lemma ProcessCloseMsg_finished:
  "state c = closeFinished \<Longrightarrow> ProcessCloseMsg cfg (MsgClosingSigned m) c = (Inr ([], True), c)"
  by (simp add: ProcessCloseMsg_def)

text \<open>One side accepts a fee both have signed; then the other does.\<close>

lemma talk_accepted:
  assumes x: "acceptFee cfg m c = (Inr ([MsgClosingSigned m1], True), d)" "FeeSatoshis m1 = f" "Signature m1 = sg f"
      "state d = closeFinished" "closingTx d = Some (T f)" "broadcasts d = [T f]"
    and y: "party cfg' c' raw' sg' sg T F" "f \<in> F" "priorFeeOffers c' f \<noteq> None"
  shows "\<exists>p q. talk 2 cfg' c' cfg d [MsgClosingSigned m1] = Some (p, q) \<and> closed_with T F p q"
proof -
  obtain m2 d' where y': "acceptFee cfg' m1 c' = (Inr ([MsgClosingSigned m2], True), d')"
      "state d' = closeFinished" "closingTx d' = Some (T f)" "broadcasts d' = [T f]"
    using party_accepts [OF y x(2,3)] by blast
  have "feed cfg' [MsgClosingSigned m1] c' = (Inr [MsgClosingSigned m2], d')"
    using y(3) x(2) y'(1) ProcessCloseMsg_known [OF y(1), of m1] by (intro feed_one) simp
  moreover have "feed cfg [MsgClosingSigned m2] d = (Inr [], d)"
    by (rule feed_one [OF ProcessCloseMsg_finished [OF x(4)]])
  ultimately have "talk 2 cfg' c' cfg d [MsgClosingSigned m1] = Some (d', d)"
    by (simp add: numeral_2_eq_2 talk_step)
  moreover have "closed_with T F d' d" using x(4-6) y' y(2) by (auto simp: closed_with_def)
  ultimately show ?thesis by blast
qed

lemma talk_accepts:
  assumes "party cfg c raw sg sg' T F" "party cfg' c' raw' sg' sg T F" "f \<in> F" "priorFeeOffers c f \<noteq> None"
    "priorFeeOffers c' f \<noteq> None" "FeeSatoshis m = f" "Signature m = sg' f"
  shows "\<exists>p q. talk 3 cfg c cfg' c' [MsgClosingSigned m] = Some (p, q) \<and> closed_with T F p q"
proof -
  obtain m1 d where x: "acceptFee cfg m c = (Inr ([MsgClosingSigned m1], True), d)" "FeeSatoshis m1 = f" "Signature m1 = sg f"
      "state d = closeFinished" "closingTx d = Some (T f)" "broadcasts d = [T f]"
    using party_accepts [OF assms(1,3,4,6,7)] by blast
  have "feed cfg [MsgClosingSigned m] c = (Inr [MsgClosingSigned m1], d)"
    using ProcessCloseMsg_known [OF assms(1), of m] assms(4,6) x(1) by (intro feed_one) simp
  then show ?thesis
    using talk_accepted [OF x assms(2,3,5)] by (simp add: numeral_3_eq_3 talk_step numeral_2_eq_2)
qed

section \<open>The negotiation ends\<close>

lemma negotiateFee_new:
  assumes "priorFeeOffers c (FeeSatoshis m) = None" "state c = closeFeeNegotiation"
    "calcCompromiseFee (idealFeeSat c) (lastFeeProposal c) (FeeSatoshis m) = f" "proposeCloseSigned cfg f c = (Inr m1, d)"
  shows "ProcessCloseMsg cfg (MsgClosingSigned m) c =
     (if f \<noteq> FeeSatoshis m then (Inr ([MsgClosingSigned m1], False), d) else acceptFee cfg m d)"
  using assms by (simp add: ProcessCloseMsg_def negotiateFee_def ibind_def io_run Let_def)

text \<open>One message: the fee is accepted, or a new one is offered.\<close>

lemma talk_once:
  assumes x: "party cfg c raw sg sg' T F" and y: "party cfg' c' raw' sg' sg T F"
    and m: "FeeSatoshis m = r" "Signature m = sg' r" "r \<in> F" "priorFeeOffers c' r \<noteq> None"
    and f: "f = calcCompromiseFee (idealFeeSat c) (lastFeeProposal c) r" "f \<in> F"
  shows "(\<exists>n p q. talk n cfg c cfg' c' [MsgClosingSigned m] = Some (p, q) \<and> closed_with T F p q)
     \<or> f \<noteq> r \<and> (\<exists>m1 d. FeeSatoshis m1 = f \<and> Signature m1 = sg f \<and> party cfg d raw sg sg' T F \<and> lastFeeProposal d = f
          \<and> priorFeeOffers d f \<noteq> None
          \<and> (\<forall>n. talk (Suc n) cfg c cfg' c' [MsgClosingSigned m] = talk n cfg' c' cfg d [MsgClosingSigned m1]))"
proof (cases "priorFeeOffers c r = None")
  case False
  with talk_accepts [OF x y m(3) _ m(4,1,2)] show ?thesis by blast
next
  case True
  obtain m1 d where d: "proposeCloseSigned cfg f c = (Inr m1, d)" "FeeSatoshis m1 = f" "Signature m1 = sg f"
      "party cfg d raw sg sg' T F" "lastFeeProposal d = f" "priorFeeOffers d = (priorFeeOffers c)(f \<mapsto> m1)"
    using party_offers [OF x f(2)] by blast
  have run: "ProcessCloseMsg cfg (MsgClosingSigned m) c =
     (if f \<noteq> r then (Inr ([MsgClosingSigned m1], False), d) else acceptFee cfg m d)"
    using negotiateFee_new [of c m f cfg m1 d] True d(1) m(1) f(1) x by (simp add: party_def)
  show ?thesis
  proof (cases "f = r")
    case False
    with run have "feed cfg [MsgClosingSigned m] c = (Inr [MsgClosingSigned m1], d)" by (intro feed_one) simp
    then have "\<forall>n. talk (Suc n) cfg c cfg' c' [MsgClosingSigned m] = talk n cfg' c' cfg d [MsgClosingSigned m1]"
      by (auto intro: talk_step)
    moreover have "priorFeeOffers d f \<noteq> None" using d(6) by simp
    ultimately show ?thesis using False d by metis
  next
    case True
    have "priorFeeOffers d r \<noteq> None" using d(6) True by simp
    then obtain m2 e where e: "acceptFee cfg m d = (Inr ([MsgClosingSigned m2], True), e)" "FeeSatoshis m2 = r" "Signature m2 = sg r"
        "state e = closeFinished" "closingTx e = Some (T r)" "broadcasts e = [T r]"
      using party_accepts [OF d(4) m(3) _ m(1,2)] by blast
    then have "feed cfg [MsgClosingSigned m] c = (Inr [MsgClosingSigned m2], e)" using run True by (intro feed_one) simp
    then have "talk (Suc 2) cfg c cfg' c' [MsgClosingSigned m] = talk 2 cfg' c' cfg e [MsgClosingSigned m2]"
      by (intro talk_step) simp_all
    with talk_accepted [OF e y m(3,4)] show ?thesis by metis
  qed
qed

definition fees :: "int \<Rightarrow> int \<Rightarrow> u64 set" where
  "fees lo hi = {f. lo \<le> sint f \<and> sint f \<le> hi}"

lemma fees_money: "f \<in> fees lo hi \<Longrightarrow> 0 \<le> lo \<Longrightarrow> hi \<le> MaxSatoshi \<Longrightarrow> money f"
  by (simp add: fees_def money_def)

lemma fees_compromise:
  assumes "i \<in> fees lo hi" "l \<in> fees lo hi" "r \<in> fees lo hi" "0 < lo" "hi \<le> MaxSatoshi"
  shows "calcCompromiseFee i l r \<in> fees lo hi"
proof -
  have m: "money i" "money l" "money r" using assms fees_money [of _ lo hi] by simp_all
  have "min (sint l) (sint r) \<le> compromise (sint i) (sint l) (sint r)"
    "compromise (sint i) (sint l) (sint r) \<le> max (sint l) (sint r)"
    using compromise_between [of "sint l" "sint r" "sint i"] assms by (simp_all add: fees_def)
  with assms show ?thesis by (auto simp: fees_def calcCompromiseFee_int [OF m])
qed

lemma talk_ends:
  assumes "party cfg c raw sg sg' T (fees lo hi)" "party cfg' c' raw' sg' sg T (fees lo hi)" "10 \<le> lo" "hi \<le> MaxSatoshi"
    "lastFeeProposal c \<in> fees lo hi" "lastFeeProposal c' = FeeSatoshis m" "FeeSatoshis m \<in> fees lo hi"
    "Signature m = sg' (FeeSatoshis m)" "priorFeeOffers c' (FeeSatoshis m) \<noteq> None"
  shows "\<exists>n p q. talk n cfg c cfg' c' [MsgClosingSigned m] = Some (p, q) \<and> closed_with T (fees lo hi) p q"
  using assms(1,2,5-)
proof (induction "nat \<bar>sint (lastFeeProposal c) - sint (FeeSatoshis m)\<bar>" arbitrary: cfg c raw sg cfg' c' raw' sg' m rule: less_induct)
  case less
  let ?F = "fees lo hi" and ?l = "lastFeeProposal c" and ?r = "FeeSatoshis m"
  define f where "f = calcCompromiseFee (idealFeeSat c) ?l ?r"
  have i: "idealFeeSat c \<in> ?F" using less.prems(1) by (simp add: party_def)
  have f: "f \<in> ?F" unfolding f_def using fees_compromise [OF i less.prems(3,5)] assms(3,4) by simp
  have m: "money (idealFeeSat c)" "money ?l" "money ?r" using i less.prems(3,5) assms(3,4) fees_money [of _ lo hi] by simp_all
  consider (ends) n p q where "talk n cfg c cfg' c' [MsgClosingSigned m] = Some (p, q)" "closed_with T ?F p q"
    | (on) m1 d where "f \<noteq> ?r" "FeeSatoshis m1 = f" "Signature m1 = sg f" "party cfg d raw sg sg' T ?F" "lastFeeProposal d = f"
        "priorFeeOffers d f \<noteq> None"
        "\<And>n. talk (Suc n) cfg c cfg' c' [MsgClosingSigned m] = talk n cfg' c' cfg d [MsgClosingSigned m1]"
    using talk_once [OF less.prems(1,2) refl less.prems(6,5,7) f_def f] by blast
  then show ?case
  proof cases
    case on
    have "sint f \<noteq> sint ?r" using on(1) signed_word_eqI [where 'a = int] by blast
    then have "\<bar>sint f - sint ?r\<bar> < \<bar>sint ?l - sint ?r\<bar>"
      unfolding f_def calcCompromiseFee_int [OF m] using compromise_closer [of "sint ?l" "sint ?r" "sint (idealFeeSat c)"]
        less.prems(3,5) assms(3) by (simp add: fees_def)
    then have "nat \<bar>sint (lastFeeProposal c') - sint (FeeSatoshis m1)\<bar> < nat \<bar>sint ?l - sint ?r\<bar>"
      using less.prems(4) on(2) by (simp add: abs_minus_commute)
    from less.hyps [OF this less.prems(2) on(4)] obtain n p q where
      "talk n cfg' c' cfg d [MsgClosingSigned m1] = Some (p, q)" "closed_with T ?F p q"
      using less.prems(4,5) on f by auto
    then show ?thesis using on(7) by metis
  qed blast
qed

section \<open>From the request to the end\<close>

lemma talk_first_offer:
  assumes "party cfg c raw sg sg' T (fees lo hi)" "party cfg' c' raw' sg' sg T (fees lo hi)" "10 \<le> lo" "hi \<le> MaxSatoshi"
    "lastFeeProposal c = 0" "lastFeeProposal c' = FeeSatoshis m" "FeeSatoshis m \<in> fees lo hi"
    "Signature m = sg' (FeeSatoshis m)" "priorFeeOffers c' (FeeSatoshis m) \<noteq> None"
  shows "\<exists>n p q. talk n cfg c cfg' c' [MsgClosingSigned m] = Some (p, q) \<and> closed_with T (fees lo hi) p q"
proof -
  let ?f = "calcCompromiseFee (idealFeeSat c) (lastFeeProposal c) (FeeSatoshis m)"
  have "?f = idealFeeSat c" using assms(5) by (simp add: calcCompromiseFee_def)
  then have f: "?f \<in> fees lo hi" using assms(1) by (simp add: party_def)
  consider (ends) n p q where "talk n cfg c cfg' c' [MsgClosingSigned m] = Some (p, q)" "closed_with T (fees lo hi) p q"
    | (on) m1 d where "FeeSatoshis m1 = ?f" "Signature m1 = sg ?f" "party cfg d raw sg sg' T (fees lo hi)" "lastFeeProposal d = ?f"
        "priorFeeOffers d ?f \<noteq> None"
        "\<And>n. talk (Suc n) cfg c cfg' c' [MsgClosingSigned m] = talk n cfg' c' cfg d [MsgClosingSigned m1]"
    using talk_once [OF assms(1,2) refl assms(8,7,9) refl f] by blast
  then show ?thesis
  proof cases
    case on
    from talk_ends [OF assms(2) on(3) assms(3,4), of m1] obtain n p q where
      "talk n cfg' c' cfg d [MsgClosingSigned m1] = Some (p, q)" "closed_with T (fees lo hi) p q"
      using on assms(6,7) f by auto
    then show ?thesis using on(6) by metis
  qed blast
qed

text \<open>What the environment of one side has to do: sign, verify both signatures, broadcast.\<close>

definition close_env :: "chanCloseCfg \<Rightarrow> (u64 \<Rightarrow> MsgTx) \<Rightarrow> (u64 \<Rightarrow> Sig) \<Rightarrow> (u64 \<Rightarrow> MsgTx) \<Rightarrow> u64 set \<Rightarrow> bool" where
  "close_env cfg raw sg T F \<longleftrightarrow> (\<forall>f \<in> F. CheckTransactionSanity (raw f) = None
     \<and> (\<exists>r. SignOutputRaw cfg (raw f) = Inr r \<and> NewSigFromRawSignature cfg r = Inr (sg f))
     \<and> vmExecute cfg (T f) = None \<and> broadcastTx cfg (T f) = None)"

text \<open>The closing transaction with both signatures, as the first side puts it together.\<close>

definition bothSigned :: "chanCloseCfg \<Rightarrow> LightningChannel \<Rightarrow> (u64 \<Rightarrow> Sig) \<Rightarrow> (u64 \<Rightarrow> Sig) \<Rightarrow> (u64 \<Rightarrow> MsgTx) \<Rightarrow> u64 \<Rightarrow> MsgTx" where
  "bothSigned cfg lc sg sg' raw f = set_witness 0 (SpendMultiSig (lc_WitnessScript lc) (localMultiSigKey lc)
     (ToSignatureBytes cfg (sg f) @ [1]) (remoteMultiSigKey lc) (ToSignatureBytes cfg (sg' f) @ [1])) (raw f)"

lemma bothSigned_mirrored:
  assumes "mirrored a b" "localMultiSigKey a \<noteq> remoteMultiSigKey a" "ToSignatureBytes cfg' = ToSignatureBytes cfg"
  shows "bothSigned cfg' b sg' sg raw f = bothSigned cfg a sg sg' raw f"
  using assms by (auto simp: bothSigned_def mirrored_def SpendMultiSig_def)

lemma partyI:
  assumes "state c = closeFeeNegotiation" "channel c = lc" "lc_status lc \<noteq> channelClosed" "broadcasts c = []"
    "priorFeeOffers c = Map.empty" "idealFeeSat c \<in> F" "\<And>f. closeTxFor lc f (localDeliveryScript c) (remoteDeliveryScript c) = raw f"
    "close_env cfg raw sg T F" "\<And>f. f \<in> F \<Longrightarrow> bothSigned cfg lc sg sg' raw f = T f"
  shows "party cfg c raw sg sg' T F"
  using assms by (auto simp: party_def rawTx_def close_env_def bothSigned_def signedTx_def fun_eq_iff Let_def)

text \<open>The shutdown messages, on either side.\<close>

lemma ShutdownChan_idle:
  assumes "state c = closeIdle"
  shows "ShutdownChan c = (Inr \<lparr>sd_ChannelID = cid c, sd_Address = localDeliveryScript c\<rparr>,
    c\<lparr>unregistered := unregistered c @ [cid c], state := closeShutdownInitiated\<rparr>)"
  using assms by (simp add: ShutdownChan_def initChanShutdown_def ibind_def io_run Let_def)

lemma Process_shutdown_idle:
  assumes "state c = closeIdle"
    "d = c\<lparr>remoteDeliveryScript := sd_Address s, unregistered := unregistered c @ [cid c], state := closeFeeNegotiation\<rparr>"
  shows "ProcessCloseMsg cfg (MsgShutdown s) c =
     (if lc_IsInitiator (channel c)
      then ibind (proposeCloseSigned cfg (idealFeeSat c)) (\<lambda>m.
        iret ([MsgShutdown \<lparr>sd_ChannelID = cid c, sd_Address = localDeliveryScript c\<rparr>, MsgClosingSigned m], False)) d
      else (Inr ([MsgShutdown \<lparr>sd_ChannelID = cid c, sd_Address = localDeliveryScript c\<rparr>], False), d))"
  using assms by (simp add: ProcessCloseMsg_def initChanShutdown_def ibind_def io_run Let_def)

lemma Process_shutdown_initiated:
  assumes "state c = closeShutdownInitiated" "d = c\<lparr>remoteDeliveryScript := sd_Address s, state := closeFeeNegotiation\<rparr>"
  shows "ProcessCloseMsg cfg (MsgShutdown s) c =
     (if lc_IsInitiator (channel c)
      then ibind (proposeCloseSigned cfg (idealFeeSat c)) (\<lambda>m. iret ([MsgClosingSigned m], False)) d
      else (Inr ([], False), d))"
  using assms by (simp add: ProcessCloseMsg_def ibind_def io_run Let_def)

text \<open>Two sides that have exchanged shutdown messages, one of which has made the first offer.\<close>

lemma talk_from_offer:
  assumes x: "party cfg x raw sg sg' T (fees lo hi)" "lastFeeProposal x = 0"
    and y: "party cfg' y raw' sg' sg T (fees lo hi)" "proposeCloseSigned cfg' (idealFeeSat y) y = (Inr m, y')"
    and "10 \<le> lo" "hi \<le> MaxSatoshi"
  shows "\<exists>n p q. talk n cfg x cfg' y' [MsgClosingSigned m] = Some (p, q) \<and> closed_with T (fees lo hi) p q"
proof -
  have F: "idealFeeSat y \<in> fees lo hi" using y(1) by (simp add: party_def)
  obtain m' d where d: "proposeCloseSigned cfg' (idealFeeSat y) y = (Inr m', d)" "FeeSatoshis m' = idealFeeSat y"
    "Signature m' = sg' (idealFeeSat y)" "party cfg' d raw' sg' sg T (fees lo hi)" "lastFeeProposal d = idealFeeSat y"
    "priorFeeOffers d = (priorFeeOffers y)(idealFeeSat y \<mapsto> m')"
    using party_offers [OF y(1) F] by blast
  with y(2) have "m' = m" "d = y'" by simp_all
  with d F show ?thesis by (intro talk_first_offer [OF x(1) _ assms(5,6) x(2)]) auto
qed

lemma talk_after_shutdown:
  assumes ch: "mirrored chA chB" "localMultiSigKey chA \<noteq> remoteMultiSigKey chA" "ToSignatureBytes cfgB = ToSignatureBytes cfgA"
      "lc_status chA \<noteq> channelClosed" "lc_status chB \<noteq> channelClosed"
    and a: "channel a = chA" "state a = closeShutdownInitiated" "localDeliveryScript a = sa" "broadcasts a = []"
      "priorFeeOffers a = Map.empty" "lastFeeProposal a = 0" "idealFeeSat a \<in> fees lo hi"
    and b: "channel b = chB" "state b = closeIdle" "localDeliveryScript b = sb" "broadcasts b = []"
      "priorFeeOffers b = Map.empty" "lastFeeProposal b = 0" "idealFeeSat b \<in> fees lo hi"
    and raw: "raw = (\<lambda>f. closeTxFor chA f sa sb)" and T: "T = bothSigned cfgA chA sgA sgB raw"
    and env: "close_env cfgA raw sgA T (fees lo hi)" "close_env cfgB raw sgB T (fees lo hi)"
    and bounds: "10 \<le> lo" "hi \<le> MaxSatoshi" and s: "sd_Address s = sa"
  shows "\<exists>n p q. talk n cfgB b cfgA a [MsgShutdown s] = Some (p, q) \<and> closed_with T (fees lo hi) p q"
proof -
  let ?F = "fees lo hi"
  define b1 where "b1 = b\<lparr>remoteDeliveryScript := sd_Address s, unregistered := unregistered b @ [cid b], state := closeFeeNegotiation\<rparr>"
  define a1 where "a1 = a\<lparr>remoteDeliveryScript := sb, state := closeFeeNegotiation\<rparr>"
  let ?sd = "\<lparr>sd_ChannelID = cid b, sd_Address = localDeliveryScript b\<rparr>"
  have pa: "party cfgA a1 raw sgA sgB T ?F"
    using a ch(4) env(1) by (intro partyI) (simp_all add: a1_def raw T)
  have pb: "party cfgB b1 raw sgB sgA T ?F"
    using b ch(5) env(2) closeTxFor_mirrored [OF ch(1)] bothSigned_mirrored [OF ch(1-3)] s
    by (intro partyI) (simp_all add: b1_def raw T)
  note idle = Process_shutdown_idle [OF b(2) b1_def]
  note initiated = Process_shutdown_initiated [OF a(2), of a1 ?sd, folded b(3)]
  show ?thesis
  proof (cases "lc_IsInitiator chB")
    case True
    obtain m b2 where m: "proposeCloseSigned cfgB (idealFeeSat b1) b1 = (Inr m, b2)"
      using party_offers [OF pb, of "idealFeeSat b1"] pb by (auto simp: party_def)
    have "feed cfgB [MsgShutdown s] b = (Inr [MsgShutdown ?sd, MsgClosingSigned m], b2)"
      using idle True b(1) m by (intro feed_one [where fin = False]) (simp add: ibind_def io_run b1_def)
    then have 1: "talk (Suc n) cfgB b cfgA a [MsgShutdown s] = talk n cfgA a cfgB b2 [MsgShutdown ?sd, MsgClosingSigned m]" for n
      by (intro talk_step) simp_all
    have "feed cfgA (MsgShutdown ?sd # ms) a = feed cfgA ms a1" for ms
      using initiated True ch(1) a(1) b(3)
      by (simp add: mirrored_def a1_def ibind_def io_run split: prod.split sum.split)
    then have 2: "talk n cfgA a cfgB b2 [MsgShutdown ?sd, MsgClosingSigned m] = talk n cfgA a1 cfgB b2 [MsgClosingSigned m]" for n
      by (cases n) (simp_all del: feed.simps)
    obtain n p q where "talk n cfgA a1 cfgB b2 [MsgClosingSigned m] = Some (p, q)" "closed_with T ?F p q"
      using talk_from_offer [OF pa _ pb m bounds] a(6) by (auto simp: a1_def)
    with 1 2 show ?thesis by metis
  next
    case False
    have "feed cfgB [MsgShutdown s] b = (Inr [MsgShutdown ?sd], b1)"
      using idle False b(1) by (intro feed_one [where fin = False]) simp
    then have 1: "talk (Suc n) cfgB b cfgA a [MsgShutdown s] = talk n cfgA a cfgB b1 [MsgShutdown ?sd]" for n
      by (intro talk_step) simp_all
    obtain m a2 where m: "proposeCloseSigned cfgA (idealFeeSat a1) a1 = (Inr m, a2)"
      using party_offers [OF pa, of "idealFeeSat a1"] pa by (auto simp: party_def)
    have "feed cfgA [MsgShutdown ?sd] a = (Inr [MsgClosingSigned m], a2)"
      using initiated False ch(1) a(1) b(3) m by (intro feed_one [where fin = False]) (simp add: ibind_def io_run mirrored_def a1_def)
    then have 2: "talk (Suc n) cfgA a cfgB b1 [MsgShutdown ?sd] = talk n cfgB b1 cfgA a2 [MsgClosingSigned m]" for n
      by (intro talk_step) simp_all
    obtain n p q where "talk n cfgB b1 cfgA a2 [MsgClosingSigned m] = Some (p, q)" "closed_with T ?F p q"
      using talk_from_offer [OF pb _ pa m bounds] b(6) by (auto simp: b1_def)
    with 1 2 show ?thesis by metis
  qed
qed

end
