(* ===== verification/CloseSafety.thy ===== *)
theory CloseSafety
  imports CloseTalk "HOL-Library.Multiset"
begin

text \<open>
  One channel closer against any remote party: whatever messages arrive and whatever its
  backends do, what it has signed is known to the chain watcher, and what it broadcasts is the
  closing transaction for a fee it has offered. And the amounts of the closing transaction.
\<close>

section \<open>What a call leaves behind\<close>

definition watched :: "(MsgTx \<Rightarrow> hash) \<Rightarrow> channelCloser \<Rightarrow> u64 \<Rightarrow> bool" where
  "watched h c f \<longleftrightarrow> h (rawTx c f) \<in> ClosingTXID ` set (activeCloses c)"

definition offers_ok :: "(MsgTx \<Rightarrow> hash) \<Rightarrow> channelCloser \<Rightarrow> bool" where
  "offers_ok h c \<longleftrightarrow> (\<forall>f m. priorFeeOffers c f = Some m \<longrightarrow> FeeSatoshis m = f \<and> watched h c f)"

text \<open>The parts of the state that a proposal or an acceptance does not touch.\<close>

definition same_deal :: "channelCloser \<Rightarrow> channelCloser \<Rightarrow> bool" where
  "same_deal c d \<longleftrightarrow> rawTx d = rawTx c \<and> set (activeCloses c) \<subseteq> set (activeCloses d)"

lemma rawTx_cong:
  assumes "channel d = (channel c)\<lparr>lc_status := s\<rparr>" "localDeliveryScript d = localDeliveryScript c"
    "remoteDeliveryScript d = remoteDeliveryScript c"
  shows "rawTx d = rawTx c"
  using assms by (simp add: rawTx_def closeTxFor_def closeBalances_def fundingTxIn_def fun_eq_iff)

lemma CreateCloseProposal_channel:
  "CreateCloseProposal sg h f ls rs lc = (r, lc') \<Longrightarrow> \<exists>s. lc' = lc\<lparr>lc_status := s\<rparr> \<and>
     (\<forall>raw txid amount. r = Inr (raw, txid, amount) \<longrightarrow> txid = h (closeTxFor lc f ls rs))"
  by (auto simp: CreateCloseProposal_def Let_def split: if_splits option.splits sum.splits
      intro: exI [of _ "lc_status lc"] exI [of _ channelClosing])

lemma CompleteCooperativeClose_channel:
  assumes "CompleteCooperativeClose vm sl sr ls rs f lc = (r, lc')"
  shows "\<exists>s. lc' = lc\<lparr>lc_status := s\<rparr> \<and> (\<forall>tx amount. r = Inr (tx, amount) \<longrightarrow> strip tx = strip (closeTxFor lc f ls rs))"
proof -
  have "TxIns (closeTxFor lc f ls rs) \<noteq> []"
    by (simp add: closeTxFor_def CreateCooperativeCloseTx_eq split: prod.split)
  then have "strip (set_witness 0 wit (closeTxFor lc f ls rs)) = strip (closeTxFor lc f ls rs)" for wit
    by (intro strip_set_witness) simp
  then show ?thesis
    using assms by (auto simp: CompleteCooperativeClose_def Let_def set_witness_def [symmetric]
        split: if_splits option.splits intro: exI [of _ "lc_status lc"] exI [of _ channelClosed])
qed

lemma proposeCloseSigned_any:
  assumes "proposeCloseSigned cfg f c = (r, d)"
  shows "same_deal c d \<and> state d = state c \<and> broadcasts d = broadcasts c \<and> closingTx d = closingTx c
     \<and> (case r of Inl e \<Rightarrow> priorFeeOffers d = priorFeeOffers c
        | Inr m \<Rightarrow> FeeSatoshis m = f \<and> priorFeeOffers d = (priorFeeOffers c)(f \<mapsto> m) \<and> watched (TxHash cfg) d f)"
proof -
  obtain r1 lc where p: "CreateCloseProposal (SignOutputRaw cfg) (TxHash cfg) f (localDeliveryScript c) (remoteDeliveryScript c)
      (channel c) = (r1, lc)" by (cases "CreateCloseProposal (SignOutputRaw cfg) (TxHash cfg) f (localDeliveryScript c)
        (remoteDeliveryScript c) (channel c)")
  obtain s where s: "lc = (channel c)\<lparr>lc_status := s\<rparr>"
      "\<And>raw txid amount. r1 = Inr (raw, txid, amount) \<Longrightarrow> txid = TxHash cfg (rawTx c f)"
    using CreateCloseProposal_channel [OF p] by (auto simp: rawTx_def)
  have raw: "rawTx d = rawTx c" if "channel d = lc" "localDeliveryScript d = localDeliveryScript c"
      "remoteDeliveryScript d = remoteDeliveryScript c" for d
    using that s(1) by (intro rawTx_cong [where s = s]) simp_all
  show ?thesis
  proof (cases r1)
    case (Inl e)
    with assms p show ?thesis by (auto simp: proposeCloseSigned_def c_channel_def ibind_def same_deal_def intro!: raw)
  next
    case (Inr x)
    obtain rs txid am where x: "x = (rs, txid, am)" by (cases x)
    with Inr s(2) have t: "txid = TxHash cfg (rawTx c f)" by simp
    show ?thesis
    proof (cases "NewSigFromRawSignature cfg rs")
      case (Inl e)
      with assms p Inr x show ?thesis
        by (auto simp: proposeCloseSigned_def c_channel_def ibind_def io_run same_deal_def intro!: raw)
    next
      case sg: (Inr sg)
      have d: "d = (let c1 = c\<lparr>channel := lc, lastFeeProposal := f,
            priorFeeOffers := (priorFeeOffers c)(f \<mapsto> \<lparr>cs_ChannelID = cid c, FeeSatoshis = f, Signature = sg\<rparr>)\<rparr> in
          snd (LogPotentialClose (closeSummary c txid am) c1))"
        "r = Inr \<lparr>cs_ChannelID = cid c, FeeSatoshis = f, Signature = sg\<rparr>"
        using assms p Inr x sg
        by (auto simp: proposeCloseSigned_def c_channel_def ibind_def io_run LogPotentialClose_def Let_def)
      have "rawTx d = rawTx c" by (rule raw) (simp_all add: d(1) LogPotentialClose_def io_run Let_def)
      moreover have "set (activeCloses c) \<subseteq> set (activeCloses d)" "txid \<in> ClosingTXID ` set (activeCloses d)"
        by (auto simp: d(1) LogPotentialClose_def io_run Let_def closeSummary_def)
      ultimately show ?thesis
        unfolding same_deal_def watched_def d(2) using t by (simp add: d(1) LogPotentialClose_def io_run Let_def)
    qed
  qed
qed

lemma Finalize_frame:
  fixes c :: channelCloser and cfg :: chanCloseCfg and s :: ChannelCloseSummary
  defines "d \<equiv> snd (Finalize cfg s c)"
  shows "channel d = channel c" "localDeliveryScript d = localDeliveryScript c" "remoteDeliveryScript d = remoteDeliveryScript c"
    "priorFeeOffers d = priorFeeOffers c" "broadcasts d = broadcasts c" "closingTx d = closingTx c"
    "set (activeCloses c) \<subseteq> set (activeCloses d)"
  unfolding d_def by (auto simp: Finalize_def LogPotentialClose_def ibind_def io_run split: option.split)

lemma acceptFee_any:
  assumes "acceptFee cfg m c = (r, d)"
  shows "same_deal c d \<and> priorFeeOffers d = priorFeeOffers c
     \<and> (case r of Inl e \<Rightarrow> state d = state c \<and> broadcasts d = broadcasts c
        | Inr (out, fin) \<Rightarrow> fin \<and> state d = closeFinished \<and> (\<exists>own tx. priorFeeOffers c (FeeSatoshis m) = Some own
            \<and> out = [MsgClosingSigned own] \<and> broadcasts d = broadcasts c @ [tx] \<and> closingTx d = Some tx
            \<and> strip tx = strip (rawTx c (FeeSatoshis m))))"
proof (cases "priorFeeOffers c (FeeSatoshis m)")
  case None
  with assms show ?thesis by (auto simp: acceptFee_def same_deal_def Let_def)
next
  case (Some o1)
  let ?f = "FeeSatoshis m"
  let ?run = "CompleteCooperativeClose (vmExecute cfg) (ToSignatureBytes cfg (Signature o1) @ [1])
      (ToSignatureBytes cfg (Signature m) @ [1]) (localDeliveryScript c) (remoteDeliveryScript c) ?f (channel c)"
  obtain r1 lc where p: "?run = (r1, lc)" by (cases ?run)
  obtain s where s: "lc = (channel c)\<lparr>lc_status := s\<rparr>"
      "\<And>tx amount. r1 = Inr (tx, amount) \<Longrightarrow> strip tx = strip (rawTx c ?f)"
    using CompleteCooperativeClose_channel [OF p] by (auto simp: rawTx_def)
  have raw: "rawTx d = rawTx c" if "channel d = lc" "localDeliveryScript d = localDeliveryScript c"
      "remoteDeliveryScript d = remoteDeliveryScript c" for d
    using that s(1) by (intro rawTx_cong [where s = s]) simp_all
  show ?thesis
  proof (cases r1)
    case (Inl e)
    with assms Some p show ?thesis by (auto simp: acceptFee_def c_channel_def ibind_def same_deal_def Let_def intro!: raw)
  next
    case (Inr x)
    obtain tx am where x: "x = (tx, am)" by (cases x)
    show ?thesis
    proof (cases "broadcastTx cfg tx")
      case (Some e)
      with assms \<open>priorFeeOffers c ?f = Some o1\<close> p Inr x show ?thesis
        by (auto simp: acceptFee_def c_channel_def ibind_def io_run same_deal_def Let_def intro!: raw)
    next
      case None
      let ?c2 = "c\<lparr>channel := lc, closingTx := Some tx, broadcasts := broadcasts c @ [tx]\<rparr>"
      have d: "d = (snd (Finalize cfg (closeSummary c (TxHash cfg tx) am) ?c2))\<lparr>state := closeFinished\<rparr>"
        "r = Inr ([MsgClosingSigned o1], True)"
        using assms Some p Inr x None by (auto simp: acceptFee_def c_channel_def ibind_def itry_def io_run Let_def split: prod.splits)
      note fin = Finalize_frame [where cfg = cfg and s = "closeSummary c (TxHash cfg tx) am" and c = ?c2]
      have "rawTx d = rawTx c" by (rule raw) (simp_all add: d(1) fin)
      then show ?thesis unfolding same_deal_def d(2) using fin Some s(2) Inr x by (simp add: d(1))
    qed
  qed
qed

section \<open>The closer over time\<close>

inductive closer_step :: "(MsgTx \<Rightarrow> hash) \<Rightarrow> channelCloser \<Rightarrow> Message list \<Rightarrow> channelCloser \<Rightarrow> bool" for h where
  shutdown: "ShutdownChan c = (r, d) \<Longrightarrow>
    closer_step h c (case r of Inl _ \<Rightarrow> [] | Inr s \<Rightarrow> [MsgShutdown s]) d"
| message: "TxHash cfg = h \<Longrightarrow> ProcessCloseMsg cfg msg c = (r, d) \<Longrightarrow>
    closer_step h c (case r of Inl _ \<Rightarrow> [] | Inr (out, _) \<Rightarrow> out) d"

inductive closer_reach :: "(MsgTx \<Rightarrow> hash) \<Rightarrow> channelCloser \<Rightarrow> Message list \<Rightarrow> channelCloser \<Rightarrow> bool" for h c0 where
  start: "closer_reach h c0 [] c0"
| step: "closer_reach h c0 sent c \<Longrightarrow> closer_step h c out d \<Longrightarrow> closer_reach h c0 (sent @ out) d"

definition early :: "channelCloser \<Rightarrow> bool" where
  "early c \<longleftrightarrow> state c = closeIdle \<or> state c = closeShutdownInitiated"

definition closer_inv :: "(MsgTx \<Rightarrow> hash) \<Rightarrow> channelCloser \<Rightarrow> bool" where
  "closer_inv h c \<longleftrightarrow> offers_ok h c \<and> (early c \<longrightarrow> priorFeeOffers c = Map.empty)
     \<and> (state c \<noteq> closeFinished \<longrightarrow> broadcasts c = []) \<and> (\<forall>x. state c \<noteq> closeUnknown x)
     \<and> (state c = closeFinished \<longrightarrow> (\<exists>f tx. priorFeeOffers c f \<noteq> None \<and> broadcasts c = [tx] \<and> closingTx c = Some tx
          \<and> strip tx = strip (rawTx c f)))"

definition all_offered :: "channelCloser \<Rightarrow> Message list \<Rightarrow> bool" where
  "all_offered c sent \<longleftrightarrow> (\<forall>m. MsgClosingSigned m \<in> set sent \<longrightarrow> priorFeeOffers c (FeeSatoshis m) \<noteq> None)"

lemma offers_ok_deal:
  assumes "offers_ok h c" "same_deal c d" "priorFeeOffers d = priorFeeOffers c"
  shows "offers_ok h d"
  using assms unfolding offers_ok_def same_deal_def watched_def by (simp, blast)

lemma offers_ok_offer:
  assumes "offers_ok h c" "same_deal c d" "priorFeeOffers d = (priorFeeOffers c)(f \<mapsto> m)" "FeeSatoshis m = f" "watched h d f"
  shows "offers_ok h d"
  using assms unfolding offers_ok_def same_deal_def watched_def by (simp, blast)

text \<open>The first offer, made on entering the negotiation.\<close>

lemma first_offer:
  assumes "proposeCloseSigned cfg f c = (r, d)" "TxHash cfg = h" "state c = closeFeeNegotiation"
    "priorFeeOffers c = Map.empty" "broadcasts c = []"
  shows "closer_inv h d \<and> (\<forall>m. r = Inr m \<longrightarrow> priorFeeOffers d (FeeSatoshis m) \<noteq> None)"
proof -
  note p = proposeCloseSigned_any [OF assms(1)]
  have ok: "offers_ok h c" using assms(4) by (simp add: offers_ok_def)
  have "offers_ok h d"
    using p assms(2) offers_ok_deal [OF ok, of d] offers_ok_offer [OF ok, of d f] by (cases r) auto
  with p assms(3,5) show ?thesis by (auto simp: closer_inv_def early_def)
qed

lemma negotiate_inv:
  assumes inv: "closer_inv h c" and st: "state c = closeFeeNegotiation" and h: "TxHash cfg = h"
    and run: "negotiateFee cfg m c = (r, d)"
  shows "closer_inv h d \<and> (\<forall>f. priorFeeOffers c f \<noteq> None \<longrightarrow> priorFeeOffers d f \<noteq> None)
     \<and> all_offered d (case r of Inl _ \<Rightarrow> [] | Inr (out, _) \<Rightarrow> out)"
proof -
  let ?f = "FeeSatoshis m"
  have accept: "closer_inv h d \<and> (\<forall>f. priorFeeOffers c1 f \<noteq> None \<longrightarrow> priorFeeOffers d f \<noteq> None)
      \<and> all_offered d (case r of Inl _ \<Rightarrow> [] | Inr (out, _) \<Rightarrow> out)"
    if a: "acceptFee cfg m c1 = (r, d)" "offers_ok h c1" "state c1 = closeFeeNegotiation" "broadcasts c1 = []" for c1
  proof -
    note p = acceptFee_any [OF a(1)]
    have ok: "offers_ok h d" using p a(2) by (intro offers_ok_deal [OF a(2)]) auto
    show ?thesis
    proof (cases r)
      case (Inl e)
      with p ok a(3,4) show ?thesis by (auto simp: closer_inv_def early_def all_offered_def)
    next
      case (Inr x)
      obtain out fin where x: "x = (out, fin)" by (cases x)
      then obtain own tx where q: "priorFeeOffers c1 ?f = Some own" "out = [MsgClosingSigned own]" "broadcasts d = [tx]"
          "closingTx d = Some tx" "strip tx = strip (rawTx c1 ?f)" "state d = closeFinished" "same_deal c1 d"
          "priorFeeOffers d = priorFeeOffers c1"
        using p Inr a(4) by auto
      have "FeeSatoshis own = ?f" using a(2) q(1) unfolding offers_ok_def by blast
      moreover have "\<exists>f tx'. priorFeeOffers d f \<noteq> None \<and> broadcasts d = [tx'] \<and> closingTx d = Some tx' \<and> strip tx' = strip (rawTx d f)"
        using q by (intro exI [of _ ?f] exI [of _ tx]) (simp add: same_deal_def)
      ultimately show ?thesis using q ok Inr x by (simp add: closer_inv_def early_def all_offered_def)
    qed
  qed
  have c: "offers_ok h c" "broadcasts c = []" using inv st by (auto simp: closer_inv_def)
  show ?thesis
  proof (cases "priorFeeOffers c ?f = None")
    case False
    with run have "acceptFee cfg m c = (r, d)" by (simp add: negotiateFee_def Let_def)
    from accept [OF this c(1) st c(2)] show ?thesis .
  next
    case True
    define f where "f = calcCompromiseFee (idealFeeSat c) (lastFeeProposal c) ?f"
    obtain r1 c1 where p: "proposeCloseSigned cfg f c = (r1, c1)" by (cases "proposeCloseSigned cfg f c")
    note q = proposeCloseSigned_any [OF p]
    have ok: "offers_ok h c1"
      using q h offers_ok_deal [OF c(1), of c1] offers_ok_offer [OF c(1), of c1 f] by (cases r1) auto
    have more: "priorFeeOffers c g \<noteq> None \<Longrightarrow> priorFeeOffers c1 g \<noteq> None" for g using q by (auto split: sum.splits)
    consider (failed) e where "r1 = Inl e" "r = Inl e" "d = c1"
      | (offer) m1 where "r1 = Inr m1" "r = Inr ([MsgClosingSigned m1], False)" "d = c1"
      | (agree) "acceptFee cfg m c1 = (r, d)"
      using run True p by (cases r1) (auto simp: negotiateFee_def f_def [symmetric] ibind_def io_run Let_def split: if_splits)
    then show ?thesis
    proof cases
      case agree
      from accept [OF this ok] q st c(2) more show ?thesis by auto
    qed (use ok q st c(2) more in \<open>auto simp: closer_inv_def early_def all_offered_def\<close>)
  qed
qed

lemma ProcessCloseMsg_inv:
  assumes inv: "closer_inv h c" and h: "TxHash cfg = h" and run: "ProcessCloseMsg cfg msg c = (r, d)"
  shows "closer_inv h d \<and> (\<forall>f. priorFeeOffers c f \<noteq> None \<longrightarrow> priorFeeOffers d f \<noteq> None)
     \<and> all_offered d (case r of Inl _ \<Rightarrow> [] | Inr (out, _) \<Rightarrow> out)"
proof -
  have same: ?thesis if "d = c" "case r of Inl _ \<Rightarrow> True | Inr (out, _) \<Rightarrow> out = []"
    using inv that by (auto simp: all_offered_def split: sum.splits)
  have first: ?thesis if "early c"
      "d = d1 \<and> (\<exists>out. r = Inr (out, False) \<and> (\<forall>m. MsgClosingSigned m \<notin> set out)) \<or>
       (\<exists>r1. proposeCloseSigned cfg (idealFeeSat c) d1 = (r1, d) \<and>
          (case r1 of Inl e \<Rightarrow> r = Inl e | Inr m \<Rightarrow> \<exists>out. r = Inr (out, False) \<and> (\<forall>m'. MsgClosingSigned m' \<in> set out \<longrightarrow> m' = m)))"
      "state d1 = closeFeeNegotiation" "priorFeeOffers d1 = priorFeeOffers c" "broadcasts d1 = broadcasts c" for d1
  proof -
    have c: "priorFeeOffers c = Map.empty" "broadcasts c = []" using inv that(1) by (auto simp: closer_inv_def early_def)
    then have d1: "closer_inv h d1" using that(3-5) by (simp add: closer_inv_def offers_ok_def early_def)
    show ?thesis
      using that(2) d1 c first_offer [OF _ h that(3), of "idealFeeSat c"] that(4,5)
      by (fastforce simp: all_offered_def split: sum.splits)
  qed
  show ?thesis
  proof (cases "state c")
    case closeIdle
    show ?thesis
    proof (cases msg)
      case (MsgShutdown s)
      let ?d1 = "c\<lparr>remoteDeliveryScript := sd_Address s, unregistered := unregistered c @ [cid c], state := closeFeeNegotiation\<rparr>"
      show ?thesis
        using run closeIdle MsgShutdown Process_shutdown_idle [OF closeIdle refl, of cfg s]
        by (intro first [of ?d1]) (auto simp: early_def ibind_def io_run split: prod.splits sum.splits if_splits)
    qed (use run inv closeIdle in \<open>auto simp: ProcessCloseMsg_def all_offered_def\<close>)
  next
    case closeShutdownInitiated
    show ?thesis
    proof (cases msg)
      case (MsgShutdown s)
      let ?d1 = "c\<lparr>remoteDeliveryScript := sd_Address s, state := closeFeeNegotiation\<rparr>"
      show ?thesis
        using run closeShutdownInitiated MsgShutdown Process_shutdown_initiated [OF closeShutdownInitiated refl, of cfg s]
        by (intro first [of ?d1]) (auto simp: early_def ibind_def io_run split: prod.splits sum.splits if_splits)
    qed (use run inv closeShutdownInitiated in \<open>auto simp: ProcessCloseMsg_def all_offered_def\<close>)
  next
    case closeFeeNegotiation
    show ?thesis
    proof (cases msg)
      case (MsgClosingSigned m)
      with run closeFeeNegotiation have "negotiateFee cfg m c = (r, d)" by (simp add: ProcessCloseMsg_def)
      from negotiate_inv [OF inv closeFeeNegotiation h this] show ?thesis .
    qed (use run inv closeFeeNegotiation in \<open>auto simp: ProcessCloseMsg_def all_offered_def\<close>)
  next
    case closeFinished
    then show ?thesis using run by (intro same) (auto simp: ProcessCloseMsg_def split: Message.splits)
  next
    case (closeUnknown x)
    with inv show ?thesis by (simp add: closer_inv_def)
  qed
qed

lemma closer_step_inv:
  assumes "closer_step h c out d" "closer_inv h c"
  shows "closer_inv h d \<and> (\<forall>f. priorFeeOffers c f \<noteq> None \<longrightarrow> priorFeeOffers d f \<noteq> None) \<and> all_offered d out"
  using assms(1)
proof cases
  case (shutdown r)
  have "d = c \<or> early d \<and> early c \<and> priorFeeOffers d = priorFeeOffers c \<and> broadcasts d = broadcasts c"
    using shutdown(2) ShutdownChan_idle [of c] by (cases "state c = closeIdle") (auto simp: ShutdownChan_def early_def)
  then show ?thesis
    using assms(2) shutdown(1) by (auto simp: closer_inv_def offers_ok_def early_def all_offered_def split: sum.splits)
next
  case (message cfg msg r)
  from ProcessCloseMsg_inv [OF assms(2) message(2,3)] show ?thesis using message(1) by simp
qed

lemma closer_reach_inv:
  assumes "closer_reach h c0 sent c" "closer_inv h c0"
  shows "closer_inv h c \<and> all_offered c sent"
  using assms
proof (induction rule: closer_reach.induct)
  case (step sent c out d)
  with closer_step_inv [OF step.hyps(2)] show ?case by (auto simp: all_offered_def)
qed (simp add: all_offered_def)

lemma closer_inv_new: "closer_inv h (newChannelCloser chan script rate height req)"
  by (simp add: newChannelCloser_def closer_inv_def offers_ok_def early_def Let_def)

section \<open>Small fees\<close>

text \<open>Ten percent of a fee below ten satoshi is nothing: both sides repeat themselves.\<close>

definition far :: "u64 \<Rightarrow> u64 \<Rightarrow> bool" where
  "far i j \<longleftrightarrow> 0 < sint i \<and> sint i < 10 \<and> (sint j < sint i - sint i * 3 div 10 \<or> sint i + sint i * 3 div 10 < sint j)"

lemma stuck_compromise:
  assumes "far i j" "money i" "money j"
  shows "calcCompromiseFee i i j = i"
proof -
  have "sint i * 3 div 10 \<ge> 0" using assms(1) tenths [of "sint i"] by (simp add: far_def)
  then have "sint i \<noteq> sint j" using assms(1) by (auto simp: far_def)
  then have "compromise (sint i) (sint i) (sint j) = sint i"
    using assms(1) by (intro compromise_stuck) (auto simp: far_def)
  then have "sint (calcCompromiseFee i i j) = sint i" by (simp only: calcCompromiseFee_int [OF assms(2,2,3)])
  then show ?thesis by (rule signed_word_eqI)
qed

lemma talk_stuck:
  assumes "party cfg c raw sg sg' T {i, j}" "party cfg' c' raw' sg' sg T {i, j}" "far i j" "far j i" "money i" "money j"
    "idealFeeSat c = i" "lastFeeProposal c = i" "dom (priorFeeOffers c) = {i}"
    "idealFeeSat c' = j" "lastFeeProposal c' = j" "dom (priorFeeOffers c') = {j}"
    "FeeSatoshis m = j" "Signature m = sg' j"
  shows "talk n cfg c cfg' c' [MsgClosingSigned m] = None"
  using assms
proof (induction n arbitrary: cfg c raw sg cfg' c' raw' sg' i j m)
  case (Suc n)
  have ij: "i \<noteq> j" using Suc.prems(3) by (auto simp: far_def)
  obtain m1 d where d: "proposeCloseSigned cfg i c = (Inr m1, d)" "FeeSatoshis m1 = i" "Signature m1 = sg i"
      "party cfg d raw sg sg' T {i, j}" "lastFeeProposal d = i" "priorFeeOffers d = (priorFeeOffers c)(i \<mapsto> m1)"
      "idealFeeSat d = idealFeeSat c"
    using party_offers [OF Suc.prems(1), of i] by blast
  have "priorFeeOffers c j = None" using Suc.prems(9) ij by (metis domIff singletonD)
  then have "ProcessCloseMsg cfg (MsgClosingSigned m) c = (Inr ([MsgClosingSigned m1], False), d)"
    using negotiateFee_new [of c m i cfg m1 d] stuck_compromise [OF Suc.prems(3,5,6)] d(1) Suc.prems ij
    by (simp add: party_def)
  then have "talk (Suc n) cfg c cfg' c' [MsgClosingSigned m] = talk n cfg' c' cfg d [MsgClosingSigned m1]"
    by (intro talk_step feed_one [where fin = False]) simp_all
  also have "\<dots> = None"
    using Suc.prems d by (intro Suc.IH [where i = j and j = i]) (auto simp: insert_commute)
  finally show ?case .
qed simp

lemma talk_answers:
  assumes "party cfg c raw sg sg' T {i, j}" "idealFeeSat c = j" "lastFeeProposal c = 0" "priorFeeOffers c = Map.empty"
    "FeeSatoshis m = i" "i \<noteq> j"
  shows "\<exists>m1 d. FeeSatoshis m1 = j \<and> Signature m1 = sg j \<and> party cfg d raw sg sg' T {i, j} \<and> lastFeeProposal d = j
     \<and> dom (priorFeeOffers d) = {j} \<and> idealFeeSat d = j
     \<and> (\<forall>n. talk (Suc n) cfg c cfg' c' [MsgClosingSigned m] = talk n cfg' c' cfg d [MsgClosingSigned m1])"
proof -
  obtain m1 d where d: "proposeCloseSigned cfg j c = (Inr m1, d)" "FeeSatoshis m1 = j" "Signature m1 = sg j"
      "party cfg d raw sg sg' T {i, j}" "lastFeeProposal d = j" "priorFeeOffers d = (priorFeeOffers c)(j \<mapsto> m1)"
      "idealFeeSat d = idealFeeSat c"
    using party_offers [OF assms(1), of j] by blast
  have "ProcessCloseMsg cfg (MsgClosingSigned m) c = (Inr ([MsgClosingSigned m1], False), d)"
    using negotiateFee_new [of c m j cfg m1 d] d(1) assms by (simp add: party_def calcCompromiseFee_def)
  then have "\<forall>n. talk (Suc n) cfg c cfg' c' [MsgClosingSigned m] = talk n cfg' c' cfg d [MsgClosingSigned m1]"
    by (intro allI talk_step feed_one [where fin = False]) simp_all
  with d assms(2,4) show ?thesis by (intro exI [of _ m1] exI [of _ d]) simp
qed

lemma far_money: "far i j \<Longrightarrow> money i \<and> i \<noteq> j"
  using tenths [of "sint i"] by (auto simp: far_def money_def MaxSatoshi_def)

section \<open>Amounts\<close>

lemma sint_ToSatoshis: "sint (ToSatoshis m) = int (unat m div 1000)"
proof -
  have "unat m < 2 ^ 64" using unsigned_less [of m] by simp
  then have "unat m div 1000 < 2 ^ 63" by simp
  from sint_small [OF this] show ?thesis by (simp add: ToSatoshis_def word_arith_nat_div)
qed

text \<open>
  A channel whose balances and fees are amounts of money, with enough on the side of the
  initiator to pay the fee.
\<close>

definition solvent :: "LightningChannel \<Rightarrow> u64 \<Rightarrow> bool" where
  "solvent lc fee \<longleftrightarrow> money fee \<and> money (lc_CommitFee lc)
     \<and> sint (ToSatoshis (LocalBalance lc)) + sint (ToSatoshis (RemoteBalance lc)) + sint (lc_CommitFee lc) \<le> MaxSatoshi
     \<and> sint fee \<le> sint (ToSatoshis (if lc_IsInitiator lc then LocalBalance lc else RemoteBalance lc)) + sint (lc_CommitFee lc)"

lemma closeBalances_int:
  assumes "solvent lc fee" "closeBalances lc fee = (our, their)"
  shows "sint our = sint (ToSatoshis (LocalBalance lc)) + (if lc_IsInitiator lc then sint (lc_CommitFee lc) - sint fee else 0)"
    "sint their = sint (ToSatoshis (RemoteBalance lc)) + (if lc_IsInitiator lc then 0 else sint (lc_CommitFee lc) - sint fee)"
proof -
  have pos: "0 \<le> sint (ToSatoshis m)" for m by (simp add: sint_ToSatoshis)
  have m: "0 \<le> sint fee" "sint fee \<le> MaxSatoshi" "0 \<le> sint (lc_CommitFee lc)" "sint (lc_CommitFee lc) \<le> MaxSatoshi"
    "sint (ToSatoshis (LocalBalance lc)) \<le> MaxSatoshi" "sint (ToSatoshis (RemoteBalance lc)) \<le> MaxSatoshi"
    using assms(1) pos [of "LocalBalance lc"] pos [of "RemoteBalance lc"] by (auto simp: solvent_def money_def)
  have "sint (b - fee + lc_CommitFee lc) = sint b + (sint (lc_CommitFee lc) - sint fee)"
    if "0 \<le> sint b" "sint b \<le> MaxSatoshi" for b
  proof -
    have "sint (b - fee) = sint b - sint fee" using that m by (intro sint_sub_small) (simp add: MaxSatoshi_def)
    then show ?thesis using that m sint_add_small [of "b - fee" "lc_CommitFee lc"] by (simp add: MaxSatoshi_def)
  qed
  from this [of "ToSatoshis (LocalBalance lc)"] this [of "ToSatoshis (RemoteBalance lc)"] m pos assms(2)
  show "sint our = sint (ToSatoshis (LocalBalance lc)) + (if lc_IsInitiator lc then sint (lc_CommitFee lc) - sint fee else 0)"
    "sint their = sint (ToSatoshis (RemoteBalance lc)) + (if lc_IsInitiator lc then 0 else sint (lc_CommitFee lc) - sint fee)"
    by (auto simp: closeBalances_def Let_def split: if_splits)
qed

lemma closeTxFor_outs:
  assumes "closeBalances lc fee = (our, their)"
  shows "mset (TxOuts (closeTxFor lc fee ls rs)) = mset (closeOuts (localDustLimit lc) our ls @ closeOuts (remoteDustLimit lc) their rs)"
    "TxIns (closeTxFor lc fee ls rs) = [fundingTxIn lc]"
  using assms by (simp_all add: closeTxFor_def CreateCooperativeCloseTx_eq)

lemma checkOutValues_money:
  assumes "0 \<le> sint tot" "list_all (\<lambda>out. 0 \<le> sint (Value out)) outs"
    "sint tot + sum_list (map (\<lambda>out. sint (Value out)) outs) \<le> MaxSatoshi"
  shows "checkOutValues tot outs = None"
  using assms
proof (induction outs arbitrary: tot)
  case (Cons out outs)
  have rest: "0 \<le> sum_list (map (\<lambda>out. sint (Value out)) outs)"
    using Cons.prems(2) by (intro sum_list_nonneg) (auto simp: list_all_iff)
  then have "sint (tot + Value out) = sint tot + sint (Value out)"
    using Cons.prems by (intro sint_add_small) (simp add: MaxSatoshi_def)
  with Cons rest show ?case by simp
qed simp

lemma sum_list_mset: "mset xs = mset ys \<Longrightarrow> sum_list (map g xs) = sum_list (map g ys)" for g :: "'a \<Rightarrow> 'b::comm_monoid_add"
  by (metis mset_map sum_mset_sum_list)

lemma closeOuts_sum:
  assumes "0 \<le> sint bal"
  shows "sum_list (map (\<lambda>out. sint (Value out)) (closeOuts dust bal script)) = (if sint dust \<le> sint bal then sint bal else 0)"
  using assms by (simp add: closeOuts_def)

lemma closeTx_sane:
  assumes "solvent lc fee" "closeBalances lc fee = (our, their)" "sint (localDustLimit lc) \<le> sint our"
    "length ls \<le> 100" "length rs \<le> 100" "\<not> isNullOutpoint (FundingOutpoint lc)"
  shows "CheckTransactionSanity (closeTxFor lc fee ls rs) = None"
proof -
  let ?tx = "closeTxFor lc fee ls rs"
  let ?outs = "closeOuts (localDustLimit lc) our ls @ closeOuts (remoteDustLimit lc) their rs"
  have ms: "mset (TxOuts ?tx) = mset ?outs" and ins: "TxIns ?tx = [fundingTxIn lc]"
    using closeTxFor_outs [OF assms(2)] by simp_all
  have pos: "0 \<le> sint (ToSatoshis m)" for m by (simp add: sint_ToSatoshis)
  have bal: "0 \<le> sint our" "0 \<le> sint their" "sint our + sint their \<le> MaxSatoshi"
    using closeBalances_int [OF assms(1,2)] assms(1) pos [of "LocalBalance lc"] pos [of "RemoteBalance lc"]
    by (auto simp: solvent_def money_def split: if_splits)
  have out: "0 \<le> sint (Value o1) \<and> length (PkScript o1) \<le> 100" if "o1 \<in> set (TxOuts ?tx)" for o1
    using mset_eq_setD [OF ms] that bal assms(4,5) by (auto simp: closeOuts_def split: if_splits)
  have len: "length (TxOuts ?tx) \<le> 2" "TxOuts ?tx \<noteq> []"
    using mset_eq_length [OF ms] assms(3) by (auto simp: closeOuts_def split: if_splits)
  have "sum_list (map (\<lambda>out. sint (Value out)) (TxOuts ?tx)) \<le> MaxSatoshi"
    unfolding sum_list_mset [OF ms] using bal by (simp add: closeOuts_sum)
  then have vals: "checkOutValues 0 (TxOuts ?tx) = None"
    using out by (intro checkOutValues_money) (auto simp: list_all_iff)
  have "sum_list (map (\<lambda>out. 8 + VarIntSerializeSize (length (PkScript out)) + length (PkScript out)) (TxOuts ?tx))
      \<le> length (TxOuts ?tx) * 117"
  proof (rule order_trans [OF sum_list_mono [where g = "\<lambda>_. 117"]])
    show "8 + VarIntSerializeSize (length (PkScript o1)) + length (PkScript o1) \<le> 117" if "o1 \<in> set (TxOuts ?tx)" for o1
      using out [OF that] by (auto simp: VarIntSerializeSize_def)
  qed (simp add: sum_list_triv)
  then have "SerializeSizeStripped ?tx \<le> MaxBlockBaseSize"
    using len by (simp add: SerializeSizeStripped_def ins fundingTxIn_def MaxBlockBaseSize_def VarIntSerializeSize_def)
  with vals len assms(6) show ?thesis
    by (simp add: CheckTransactionSanity_def ins IsCoinBaseTx_def fundingTxIn_def Let_def)
qed

end
