(* ===== verification/CloseProps.thy ===== *)
theory CloseProps
  imports CloseSafety
begin

text \<open>
  The correctness statements of the cooperative close (chancloser.go and the parts of
  lnwallet it calls), with two concrete ends of a channel on which they are exercised.
\<close>

section \<open>A concrete channel\<close>

definition demo_lc :: LightningChannel where
  "demo_lc = \<lparr>lc_status = channelOpen, FundingOutpoint = \<lparr>Hash = 77, Index = 1\<rparr>, LocalBalance = 1000000000,
     RemoteBalance = 500000000, lc_CommitFee = 1000, lc_IsInitiator = True, localDustLimit = 500, remoteDustLimit = 600,
     lc_WitnessScript = [0x52], localMultiSigKey = [2], remoteMultiSigKey = [3], lc_ChainHash = 5,
     lc_RemoteIdentity = [9], lc_Capacity = 1501000, lc_ShortChanID = 12\<rparr>"

definition demo_lc' :: LightningChannel where
  "demo_lc' = demo_lc\<lparr>LocalBalance := 500000000, RemoteBalance := 1000000000, lc_IsInitiator := False,
     localDustLimit := 600, remoteDustLimit := 500, localMultiSigKey := [3], remoteMultiSigKey := [2]\<rparr>"

definition demo_ccfg :: "byte \<Rightarrow> chanCloseCfg" where
  "demo_ccfg k = \<lparr>broadcastTx = (\<lambda>_. None), SignOutputRaw = (\<lambda>tx. Inr [k]), vmExecute = (\<lambda>_. None),
     TxHash = (\<lambda>tx. word_of_nat (length (TxOuts tx))), NewSigFromRawSignature = Inr, ToSignatureBytes = id,
     CloseChannel = (\<lambda>_. None)\<rparr>"

lemma demo_mirrored: "mirrored demo_lc demo_lc'"
  by (simp add: mirrored_def demo_lc_def demo_lc'_def)

lemma demo_ideal:
  "idealFeeSat (newChannelCloser demo_lc s 1000 h q) = 724" "idealFeeSat (newChannelCloser demo_lc' s 200 h q) = 144"
  "idealFeeSat (newChannelCloser demo_lc s 2 h q) = 1" "idealFeeSat (newChannelCloser demo_lc' s 8 h q) = 5"
  by (simp_all add: newChannelCloser_def demo_lc_def demo_lc'_def CalcFee_def FeeForWeight_def CommitWeight_def amt_div_def
      signed_divide_int_def)

lemma demo_solvent: "0 \<le> sint f \<Longrightarrow> sint f \<le> 1000 \<Longrightarrow> solvent demo_lc f"
  by (simp add: solvent_def money_def MaxSatoshi_def demo_lc_def sint_ToSatoshis)

lemma demo_sane:
  assumes "0 \<le> sint f" "sint f \<le> 1000"
  shows "CheckTransactionSanity (closeTxFor demo_lc f [1] [2]) = None"
proof -
  obtain our their where b: "closeBalances demo_lc f = (our, their)" by (cases "closeBalances demo_lc f")
  have "sint our = 1001000 - sint f"
    using closeBalances_int [OF demo_solvent [OF assms] b] by (simp add: demo_lc_def sint_ToSatoshis)
  with assms show ?thesis
    by (intro closeTx_sane [OF demo_solvent [OF assms] b]) (simp_all add: demo_lc_def isNullOutpoint_def)
qed

lemma demo_close_env:
  assumes "\<And>f. f \<in> F \<Longrightarrow> 0 \<le> sint f \<and> sint f \<le> 1000"
  shows "close_env (demo_ccfg k) (\<lambda>f. closeTxFor demo_lc f [1] [2]) (\<lambda>_. [k]) T F"
  using assms demo_sane by (simp add: close_env_def demo_ccfg_def)

section \<open>The closing transaction\<close>

text \<open>
  C25. Both ends of a channel make the same closing transaction. For every fee and every pair
  of delivery scripts the unsigned transactions are equal, although each side counts its own
  balance first; and completed with the two signatures, each side putting its own first, they
  are equal with their witnesses, or fail with the same error.
\<close>

theorem closing_tx_agreed:
  assumes "mirrored a b" "localMultiSigKey a \<noteq> remoteMultiSigKey a" "lc_status b = lc_status a"
  shows "closeTxFor b fee rs ls = closeTxFor a fee ls rs
     \<and> map_sum id fst (fst (CompleteCooperativeClose vm sb sa rs ls fee b))
       = map_sum id fst (fst (CompleteCooperativeClose vm sa sb ls rs fee a))"
proof -
  have "SpendMultiSig (lc_WitnessScript b) (localMultiSigKey b) sb (remoteMultiSigKey b) sa
      = SpendMultiSig (lc_WitnessScript a) (localMultiSigKey a) sa (remoteMultiSigKey a) sb"
    using assms(1,2) by (auto simp: mirrored_def SpendMultiSig_def)
  then show ?thesis
    using closeTxFor_mirrored [OF assms(1), of fee rs ls] assms(3)
    by (simp add: CompleteCooperativeClose_def Let_def split: option.split)
qed

theorem closing_tx_agreed_witness: "closeTxFor demo_lc' 300 [2] [1] = closeTxFor demo_lc 300 [1] [2]"
  using closing_tx_agreed [OF demo_mirrored, of 300 "[2]" "[1]"] by (simp add: demo_lc_def demo_lc'_def)

text \<open>
  C26. The amounts of the closing transaction. The initiator of the channel pays the fee and
  gets the commitment fee back, the other side gets its balance; nothing is created or lost;
  each side has one output, to its script, unless its amount is below its dust limit; and the
  transaction spends the funding output alone.
\<close>

theorem closing_tx_pays:
  assumes "solvent lc fee" "closeBalances lc fee = (our, their)"
  shows "sint our + sint their + sint fee = sint (ToSatoshis (LocalBalance lc)) + sint (ToSatoshis (RemoteBalance lc)) + sint (lc_CommitFee lc)
     \<and> 0 \<le> sint our \<and> 0 \<le> sint their
     \<and> (if lc_IsInitiator lc then their = ToSatoshis (RemoteBalance lc) else our = ToSatoshis (LocalBalance lc))
     \<and> mset (TxOuts (closeTxFor lc fee ls rs)) =
         (if sint our \<ge> sint (localDustLimit lc) then {#\<lparr>Value = our, PkScript = ls\<rparr>#} else {#})
         + (if sint their \<ge> sint (remoteDustLimit lc) then {#\<lparr>Value = their, PkScript = rs\<rparr>#} else {#})
     \<and> map PreviousOutPoint (TxIns (closeTxFor lc fee ls rs)) = [FundingOutpoint lc]"
proof -
  have pos: "0 \<le> sint (ToSatoshis m)" for m by (simp add: sint_ToSatoshis)
  note b = closeBalances_int [OF assms]
  have "if lc_IsInitiator lc then their = ToSatoshis (RemoteBalance lc) else our = ToSatoshis (LocalBalance lc)"
    using assms(2) by (auto simp: closeBalances_def Let_def)
  moreover have "0 \<le> sint our \<and> 0 \<le> sint their"
    using b assms(1) pos [of "LocalBalance lc"] pos [of "RemoteBalance lc"] by (auto simp: solvent_def split: if_splits)
  ultimately show ?thesis
    using b closeTxFor_outs [OF assms(2), of ls rs] by (simp add: closeOuts_def fundingTxIn_def)
qed

theorem closing_tx_pays_witness:
  "mset (TxOuts (closeTxFor demo_lc 300 [1] [2])) = {#\<lparr>Value = 1000700, PkScript = [1]\<rparr>, \<lparr>Value = 500000, PkScript = [2]\<rparr>#}"
proof -
  have "closeBalances demo_lc 300 = (1000700, 500000)" by (simp add: closeBalances_def demo_lc_def ToSatoshis_def)
  from closing_tx_pays [OF demo_solvent this, of "[1]" "[2]"] show ?thesis by (simp add: demo_lc_def)
qed

section \<open>The negotiation\<close>

text \<open>
  A compromise fee for amounts of money does not overflow, lies between our last offer
  and the remote one, and, when our last offer is at least ten satoshi, is the remote fee or
  strictly closer to it than our last offer was.
\<close>

theorem calcCompromiseFee_moves_closer:
  assumes "money ideal" "money l" "money r" "l \<noteq> 0"
  shows "min (sint l) (sint r) \<le> sint (calcCompromiseFee ideal l r) \<and> sint (calcCompromiseFee ideal l r) \<le> max (sint l) (sint r)
     \<and> (10 \<le> sint l \<and> calcCompromiseFee ideal l r \<noteq> r \<longrightarrow>
          \<bar>sint (calcCompromiseFee ideal l r) - sint r\<bar> < \<bar>sint l - sint r\<bar>)"
proof -
  have nz: "sint l \<noteq> 0" using assms(4) signed_eq_0_iff [where 'a = int] by blast
  have pos: "0 \<le> sint l" "0 \<le> sint r" using assms(2,3) by (simp_all add: money_def)
  have "calcCompromiseFee ideal l r \<noteq> r \<Longrightarrow> sint (calcCompromiseFee ideal l r) \<noteq> sint r"
    using signed_word_eqI [where 'a = int] by blast
  with compromise_between [OF pos nz, of "sint ideal"] compromise_closer [of "sint l" "sint r" "sint ideal"] pos
  show ?thesis by (auto simp: calcCompromiseFee_int [OF assms(1-3)])
qed

theorem calcCompromiseFee_moves_closer_witness:
  "sint (calcCompromiseFee 724 724 144) \<le> 724 \<and> 144 \<le> sint (calcCompromiseFee 724 724 144)"
  using calcCompromiseFee_moves_closer [of 724 724 144] by (simp add: money_def MaxSatoshi_def)

text \<open>
  C11. Whatever messages arrive, in whatever order, and whatever the backends answer: the
  chain watcher knows the transaction of every signature that was ever sent; nothing is
  broadcast before the end; at the end one transaction has been broadcast, it is the closing
  transaction for a fee we have offered, and \<^verbatim>\<open>ClosingTx\<close> returns it.
\<close>

theorem closer_safe:
  assumes "closer_reach h (newChannelCloser chan script rate height req) sent c"
  shows "(\<forall>m. MsgClosingSigned m \<in> set sent \<longrightarrow> h (rawTx c (FeeSatoshis m)) \<in> ClosingTXID ` set (activeCloses c))
     \<and> (if state c = closeFinished
        then \<exists>f tx. priorFeeOffers c f \<noteq> None \<and> broadcasts c = [tx] \<and> ClosingTx c = Inr (Some tx) \<and> strip tx = strip (rawTx c f)
        else broadcasts c = [] \<and> ClosingTx c = Inl ErrChanCloseNotFinished)"
proof -
  have inv: "closer_inv h c" "all_offered c sent" using closer_reach_inv [OF assms closer_inv_new] by blast+
  have "h (rawTx c (FeeSatoshis m)) \<in> ClosingTXID ` set (activeCloses c)" if "MsgClosingSigned m \<in> set sent" for m
  proof -
    have "priorFeeOffers c (FeeSatoshis m) \<noteq> None" using inv(2) that unfolding all_offered_def by blast
    then show ?thesis using inv(1) unfolding closer_inv_def offers_ok_def watched_def by blast
  qed
  with inv(1) show ?thesis by (auto simp: closer_inv_def ClosingTx_def)
qed

theorem closer_safe_witness:
  "\<exists>sent c. closer_reach (TxHash (demo_ccfg 1)) (newChannelCloser demo_lc [1] 1000 100 None) sent c
     \<and> broadcasts c = [] \<and> ClosingTx c = Inl ErrChanCloseNotFinished"
proof -
  let ?c0 = "newChannelCloser demo_lc [1] 1000 100 None"
  obtain r d where s: "ShutdownChan ?c0 = (r, d)" by (cases "ShutdownChan ?c0")
  have "state ?c0 = closeIdle" by (simp add: newChannelCloser_def Let_def)
  from ShutdownChan_idle [OF this] s have "state d = closeShutdownInitiated" by simp
  moreover have "closer_reach (TxHash (demo_ccfg 1)) ?c0 ([] @ (case r of Inl _ \<Rightarrow> [] | Inr s \<Rightarrow> [MsgShutdown s])) d"
    by (rule closer_reach.step [OF closer_reach.start closer_step.shutdown [OF s]])
  ultimately show ?thesis using closer_safe by fastforce
qed

text \<open>
  C10. Two honest ends close their channel. One of them asks for it; both ideal fees are at
  least ten satoshi and amounts of money; signers, script engines and networks do their part
  for fees in between. Then the exchange of messages ends after finitely many of them, with
  both sides finished, and both have broadcast one and the same transaction: the closing
  transaction for a fee between the bounds, with both signatures.
\<close>

theorem cooperative_close_completes:
  assumes "mirrored chA chB" "localMultiSigKey chA \<noteq> remoteMultiSigKey chA" "ToSignatureBytes cfgB = ToSignatureBytes cfgA"
    and "lc_status chA \<noteq> channelClosed" "lc_status chB \<noteq> channelClosed"
    and "a0 = newChannelCloser chA sa rateA hA reqA" "b0 = newChannelCloser chB sb rateB hB reqB"
    and "idealFeeSat a0 \<in> fees lo hi" "idealFeeSat b0 \<in> fees lo hi" "10 \<le> lo" "hi \<le> MaxSatoshi"
    and "raw = (\<lambda>f. closeTxFor chA f sa sb)" "T = bothSigned cfgA chA sgA sgB raw"
    and "close_env cfgA raw sgA T (fees lo hi)" "close_env cfgB raw sgB T (fees lo hi)"
    and "ShutdownChan a0 = (Inr s, a1)"
  shows "\<exists>n p q f. talk n cfgB b0 cfgA a1 [MsgShutdown s] = Some (p, q) \<and> f \<in> fees lo hi
     \<and> state p = closeFinished \<and> state q = closeFinished
     \<and> closingTx p = Some (T f) \<and> closingTx q = Some (T f) \<and> broadcasts p = [T f] \<and> broadcasts q = [T f]"
proof -
  have "state a0 = closeIdle" by (simp add: assms(6) newChannelCloser_def Let_def)
  from ShutdownChan_idle [OF this] assms(16) have
    a1: "s = \<lparr>sd_ChannelID = cid a0, sd_Address = localDeliveryScript a0\<rparr>"
      "a1 = a0\<lparr>unregistered := unregistered a0 @ [cid a0], state := closeShutdownInitiated\<rparr>" by simp_all
  obtain n p q where "talk n cfgB b0 cfgA a1 [MsgShutdown s] = Some (p, q)" "closed_with T (fees lo hi) p q"
    using talk_after_shutdown [OF assms(1-5), of a1 sa lo hi b0 sb raw T sgA sgB s] assms(6-15) a1
    by (auto simp: newChannelCloser_def Let_def)
  then show ?thesis unfolding closed_with_def by blast
qed

theorem cooperative_close_completes_witness:
  "\<exists>s a1 n p q. ShutdownChan (newChannelCloser demo_lc [1] 1000 100 None) = (Inr s, a1)
     \<and> talk n (demo_ccfg 2) (newChannelCloser demo_lc' [2] 200 100 None) (demo_ccfg 1) a1 [MsgShutdown s] = Some (p, q)
     \<and> state p = closeFinished \<and> state q = closeFinished \<and> closingTx p = closingTx q"
proof -
  let ?a = "newChannelCloser demo_lc [1] 1000 100 None" and ?b = "newChannelCloser demo_lc' [2] 200 100 None"
  have "state ?a = closeIdle" by (simp add: newChannelCloser_def Let_def)
  from ShutdownChan_idle [OF this] obtain s a1 where s: "ShutdownChan ?a = (Inr s, a1)" by blast
  have F: "f \<in> fees 100 1000 \<Longrightarrow> 0 \<le> sint f \<and> sint f \<le> 1000" for f by (simp add: fees_def)
  note env = demo_close_env [OF F, where T = "bothSigned (demo_ccfg 1) demo_lc (\<lambda>_. [1]) (\<lambda>_. [2]) (\<lambda>f. closeTxFor demo_lc f [1] [2])"]
  have "idealFeeSat ?a \<in> fees 100 1000" "idealFeeSat ?b \<in> fees 100 1000" by (simp_all add: demo_ideal fees_def)
  from cooperative_close_completes [OF demo_mirrored _ _ _ _ refl refl this _ _ refl refl env env s] show ?thesis
    using s by (fastforce simp: demo_lc_def demo_lc'_def demo_ccfg_def MaxSatoshi_def)
qed

text \<open>
  Below ten satoshi the negotiation does not end, although a comment in the code says that
  fees are moved to make it terminate: a tenth of such a fee is zero. Where both ideal fees are
  below ten and neither is within thirty percent of the other, the two sides repeat their first
  offers forever.
\<close>

theorem small_fees_never_agree:
  assumes "mirrored chA chB" "localMultiSigKey chA \<noteq> remoteMultiSigKey chA" "ToSignatureBytes cfgB = ToSignatureBytes cfgA"
    and "lc_status chA \<noteq> channelClosed" "lc_status chB \<noteq> channelClosed" "lc_IsInitiator chA"
    and "a0 = newChannelCloser chA sa rateA hA reqA" "b0 = newChannelCloser chB sb rateB hB reqB"
    and "i = idealFeeSat a0" "j = idealFeeSat b0" "far i j" "far j i"
    and "raw = (\<lambda>f. closeTxFor chA f sa sb)" "T = bothSigned cfgA chA sgA sgB raw"
    and "close_env cfgA raw sgA T {i, j}" "close_env cfgB raw sgB T {i, j}"
    and "ShutdownChan a0 = (Inr s, a1)"
  shows "talk n cfgB b0 cfgA a1 [MsgShutdown s] = None"
proof -
  have "state a0 = closeIdle" by (simp add: assms(7) newChannelCloser_def Let_def)
  from ShutdownChan_idle [OF this] assms(17) have
    a1: "s = \<lparr>sd_ChannelID = cid a0, sd_Address = localDeliveryScript a0\<rparr>"
      "a1 = a0\<lparr>unregistered := unregistered a0 @ [cid a0], state := closeShutdownInitiated\<rparr>" by simp_all
  define b1 where "b1 = b0\<lparr>remoteDeliveryScript := sd_Address s, unregistered := unregistered b0 @ [cid b0], state := closeFeeNegotiation\<rparr>"
  define a2 where "a2 = a1\<lparr>remoteDeliveryScript := sb, state := closeFeeNegotiation\<rparr>"
  let ?sd = "\<lparr>sd_ChannelID = cid b0, sd_Address = localDeliveryScript b0\<rparr>"
  note new = newChannelCloser_def Let_def
  have b0: "state b0 = closeIdle" "localDeliveryScript b0 = sb" "channel b0 = chB" by (simp_all add: assms(8) new)
  have a2: "channel a2 = chA" "idealFeeSat a2 = i" "lastFeeProposal a2 = 0" "priorFeeOffers a2 = Map.empty" "broadcasts a2 = []"
      "localDeliveryScript a2 = sa" "remoteDeliveryScript a2 = sb"
    by (simp_all add: a2_def a1(2) assms(9) assms(7) new)
  have b1: "channel b1 = chB" "idealFeeSat b1 = j" "lastFeeProposal b1 = 0" "priorFeeOffers b1 = Map.empty" "broadcasts b1 = []"
      "localDeliveryScript b1 = sb" "remoteDeliveryScript b1 = sa"
    using assms(7) by (simp_all add: b1_def a1(1) assms(10) assms(8) new)
  have pa: "party cfgA a2 raw sgA sgB T {i, j}"
    using a2 assms(4,15) by (intro partyI) (simp_all add: a2_def assms(13,14))
  have pb: "party cfgB b1 raw sgB sgA T {i, j}"
    using b1 assms(5,16) closeTxFor_mirrored [OF assms(1)] bothSigned_mirrored [OF assms(1-3)]
    by (intro partyI) (simp_all add: b1_def assms(13,14))
  obtain m a3 where m: "proposeCloseSigned cfgA i a2 = (Inr m, a3)" "FeeSatoshis m = i" "Signature m = sgA i"
      "party cfgA a3 raw sgA sgB T {i, j}" "lastFeeProposal a3 = i" "priorFeeOffers a3 = (priorFeeOffers a2)(i \<mapsto> m)"
      "idealFeeSat a3 = idealFeeSat a2"
    using party_offers [OF pa, of i] by blast
  have "feed cfgB [MsgShutdown s] b0 = (Inr [MsgShutdown ?sd], b1)"
    using Process_shutdown_idle [OF b0(1) b1_def] assms(1,6) b0(3) by (intro feed_one [where fin = False]) (simp add: mirrored_def)
  then have 1: "talk (Suc k) cfgB b0 cfgA a1 [MsgShutdown s] = talk k cfgA a1 cfgB b1 [MsgShutdown ?sd]" for k
    by (intro talk_step) simp_all
  have "feed cfgA [MsgShutdown ?sd] a1 = (Inr [MsgClosingSigned m], a3)"
    using Process_shutdown_initiated [of a1 a2 ?sd cfgA] a1(2) b0(2) m(1) assms(6,7,9)
    by (intro feed_one [where fin = False]) (simp add: a2_def ibind_def io_run new)
  then have 2: "talk (Suc k) cfgA a1 cfgB b1 [MsgShutdown ?sd] = talk k cfgB b1 cfgA a3 [MsgClosingSigned m]" for k
    by (intro talk_step) simp_all
  obtain m1 b2 where b2: "FeeSatoshis m1 = j" "Signature m1 = sgB j" "party cfgB b2 raw sgB sgA T {i, j}" "lastFeeProposal b2 = j"
      "dom (priorFeeOffers b2) = {j}" "idealFeeSat b2 = j"
      "\<And>k. talk (Suc k) cfgB b1 cfgA a3 [MsgClosingSigned m] = talk k cfgA a3 cfgB b2 [MsgClosingSigned m1]"
    using talk_answers [OF pb b1(2,3,4) m(2), of cfgA a3] far_money [OF assms(11)] by blast
  have 3: "talk k cfgA a3 cfgB b2 [MsgClosingSigned m1] = None" for k
    using m a2 b2 far_money [OF assms(11)] far_money [OF assms(12)]
    by (intro talk_stuck [OF m(4) b2(3) assms(11,12)]) simp_all
  have "talk (Suc (Suc (Suc k))) cfgB b0 cfgA a1 [MsgShutdown s] = None" for k using 1 2 3 b2(7) by simp
  moreover have "talk 0 cfgB b0 cfgA a1 [MsgShutdown s] = None" "talk (Suc 0) cfgB b0 cfgA a1 [MsgShutdown s] = None"
    "talk (Suc (Suc 0)) cfgB b0 cfgA a1 [MsgShutdown s] = None"
    using 1 [of 0] 1 [of "Suc 0"] 2 [of 0] by simp_all
  ultimately show ?thesis by (metis not0_implies_Suc)
qed

theorem small_fees_never_agree_witness:
  "\<exists>s a1. ShutdownChan (newChannelCloser demo_lc [1] 2 100 None) = (Inr s, a1)
     \<and> (\<forall>n. talk n (demo_ccfg 2) (newChannelCloser demo_lc' [2] 8 100 None) (demo_ccfg 1) a1 [MsgShutdown s] = None)"
proof -
  let ?a = "newChannelCloser demo_lc [1] 2 100 None" and ?b = "newChannelCloser demo_lc' [2] 8 100 None"
  have "state ?a = closeIdle" by (simp add: newChannelCloser_def Let_def)
  from ShutdownChan_idle [OF this] obtain s a1 where s: "ShutdownChan ?a = (Inr s, a1)" by blast
  have F: "f \<in> {idealFeeSat ?a, idealFeeSat ?b} \<Longrightarrow> 0 \<le> sint f \<and> sint f \<le> 1000" for f by (auto simp: demo_ideal)
  note env = demo_close_env [OF F, where T = "bothSigned (demo_ccfg 1) demo_lc (\<lambda>_. [1]) (\<lambda>_. [2]) (\<lambda>f. closeTxFor demo_lc f [1] [2])"]
  have "far (idealFeeSat ?a) (idealFeeSat ?b)" "far (idealFeeSat ?b) (idealFeeSat ?a)" by (simp_all add: demo_ideal far_def)
  from small_fees_never_agree [OF demo_mirrored _ _ _ _ _ refl refl refl refl this refl refl env env s] s show ?thesis
    by (fastforce simp: demo_lc_def demo_lc'_def demo_ccfg_def)
qed

end
