(* ===== verification/Sha256.thy ===== *)
theory Sha256
  imports GoIO
begin

text \<open>
  \<^verbatim>\<open>sha256.Sum256\<close> of Go's standard library, which maps a payment preimage to its payment
  hash: padding, message schedule and compression on 32-bit words.
\<close>

unbundle bit_operations_syntax

text \<open>
  The initial state and the round constants, in decimal: the leading 32 bits of the fractional
  parts of the square roots of the first 8 and of the cube roots of the first 64 primes.
\<close>

definition sha_init :: "u32 list" where
  "sha_init =
    [1779033703, 3144134277, 1013904242, 2773480762, 1359893119, 2600822924, 528734635, 1541459225]"

definition sha_K :: "u32 list" where
  "sha_K =
    [1116352408, 1899447441, 3049323471, 3921009573, 961987163, 1508970993, 2453635748, 2870763221,
     3624381080, 310598401, 607225278, 1426881987, 1925078388, 2162078206, 2614888103, 3248222580,
     3835390401, 4022224774, 264347078, 604807628, 770255983, 1249150122, 1555081692, 1996064986,
     2554220882, 2821834349, 2952996808, 3210313671, 3336571891, 3584528711, 113926993, 338241895,
     666307205, 773529912, 1294757372, 1396182291, 1695183700, 1986661051, 2177026350, 2456956037,
     2730485921, 2820302411, 3259730800, 3345764771, 3516065817, 3600352804, 4094571909, 275423344,
     430227734, 506948616, 659060556, 883997877, 958139571, 1322822218, 1537002063, 1747873779,
     1955562222, 2024104815, 2227730452, 2361852424, 2428436474, 2756734187, 3204031479, 3329325298]"

definition rotr :: "nat \<Rightarrow> u32 \<Rightarrow> u32" where
  "rotr n x = drop_bit n x OR push_bit (32 - n) x"

text \<open>A one bit, zeros up to 56 bytes modulo 64, and the length in bits.\<close>

definition sha_pad :: "bytes \<Rightarrow> bytes" where
  "sha_pad m = m @ [0x80] @ replicate ((119 - length m mod 64) mod 64) 0
     @ PutUint64 (word_of_nat (8 * length m))"

fun sha_words :: "bytes \<Rightarrow> u32 list" where
  "sha_words (a # b # c # d # bs) = Uint32 [a, b, c, d] # sha_words bs"
| "sha_words _ = []"

text \<open>The schedule is kept newest word first, so that the words it needs are at fixed places.\<close>

fun sha_extend :: "nat \<Rightarrow> u32 list \<Rightarrow> u32 list" where
  "sha_extend 0 w = w"
| "sha_extend (Suc n) w =
     (let v1 = w ! 1; t1 = rotr 17 v1 XOR rotr 19 v1 XOR drop_bit 10 v1;
          v2 = w ! 14; t2 = rotr 7 v2 XOR rotr 18 v2 XOR drop_bit 3 v2
      in sha_extend n ((t1 + w ! 6 + t2 + w ! 15) # w))"

type_synonym sha_state = "u32 \<times> u32 \<times> u32 \<times> u32 \<times> u32 \<times> u32 \<times> u32 \<times> u32"

definition sha_round :: "u32 \<times> u32 \<Rightarrow> sha_state \<Rightarrow> sha_state" where
  "sha_round kw s = (case kw of (k, w) \<Rightarrow> case s of (a, b, c, d, e, f, g, h) \<Rightarrow>
     let t1 = h + (rotr 6 e XOR rotr 11 e XOR rotr 25 e) + ((e AND f) XOR ((NOT e) AND g)) + k + w;
         t2 = (rotr 2 a XOR rotr 13 a XOR rotr 22 a) + ((a AND b) XOR (a AND c) XOR (b AND c))
     in (t1 + t2, a, b, c, d + t1, e, f, g))"

definition sha_list :: "sha_state \<Rightarrow> u32 list" where
  "sha_list s = (case s of (a, b, c, d, e, f, g, h) \<Rightarrow> [a, b, c, d, e, f, g, h])"

definition sha_tuple :: "u32 list \<Rightarrow> sha_state" where
  "sha_tuple hs = (hs ! 0, hs ! 1, hs ! 2, hs ! 3, hs ! 4, hs ! 5, hs ! 6, hs ! 7)"

definition sha_block :: "bytes \<Rightarrow> u32 list \<Rightarrow> u32 list" where
  "sha_block p hs =
     (let w = rev (sha_extend 48 (rev (sha_words p)))
      in map2 (+) hs (sha_list (fold sha_round (zip sha_K w) (sha_tuple hs))))"

fun sha_blocks :: "nat \<Rightarrow> bytes \<Rightarrow> u32 list \<Rightarrow> u32 list" where
  "sha_blocks 0 p hs = hs"
| "sha_blocks (Suc n) p hs = sha_blocks n (drop 64 p) (sha_block (take 64 p) hs)"

definition Sum256 :: "bytes \<Rightarrow> bytes" where
  "Sum256 m = (let p = sha_pad m in concat (map PutUint32 (sha_blocks (length p div 64) p sha_init)))"

lemma length_sha_blocks: "length hs = 8 \<Longrightarrow> length (sha_blocks n p hs) = 8"
  by (induction n p hs rule: sha_blocks.induct) (auto simp: sha_block_def sha_list_def Let_def split: prod.split)

lemma length_Sum256 [simp]: "length (Sum256 m) = 32"
proof -
  have "length (concat (map PutUint32 ws)) = 4 * length ws" for ws by (induction ws) auto
  moreover have "length sha_init = 8" by (simp add: sha_init_def)
  ultimately show ?thesis by (simp add: Sum256_def Let_def length_sha_blocks)
qed

text \<open>The padded message is a whole number of blocks, so no byte of it is left out.\<close>

lemma sha_pad_blocks: "length (sha_pad m) mod 64 = 0"
proof -
  define r where "r = length m mod 64"
  have "(r + (119 - r) mod 64 + 9) mod 64 = 0"
  proof (cases "r \<le> 55")
    case True
    then have "119 - r = (55 - r) + 1 * 64" "55 - r < 64" by simp_all
    then have "(119 - r) mod 64 = 55 - r" by (simp only: mod_mult_self1 mod_less)
    with True show ?thesis by simp
  next
    case False
    have "r < 64" by (simp add: r_def)
    with False have "119 - r < 64" by linarith
    then have "(119 - r) mod 64 = 119 - r" by (rule mod_less)
    with \<open>r < 64\<close> show ?thesis by simp
  qed
  moreover have "length (sha_pad m) = length m + (119 - r) mod 64 + 9" by (simp add: sha_pad_def r_def)
  moreover have "(length m + (119 - r) mod 64 + 9) mod 64 = (r + (119 - r) mod 64 + 9) mod 64"
    unfolding r_def by (metis mod_add_left_eq)
  ultimately show ?thesis by simp
qed

end
