(* ===== verification/InvoiceDB.thy ===== *)
theory InvoiceDB
  imports Sha256 Bolt
begin

text \<open>
  The invoices of the channel database (\<^verbatim>\<open>channeldb/invoices.go\<close>), which the invoice registry
  keeps its invoices in: the on-disk format, the methods of \<^verbatim>\<open>channeldb.DB\<close> that add, look
  up, list and settle invoices, and that they implement a list of invoices with distinct
  payment hashes, in the order in which they were added.
\<close>

section \<open>Time\<close>

text \<open>
  \<^verbatim>\<open>time.Time\<close>: seconds since the year one, nanoseconds, and the offset of its location in
  seconds east of UTC. \<^verbatim>\<open>MarshalBinary\<close> writes the offset in minutes, and \<open>-1\<close> for UTC.
\<close>

datatype zone = UTC | Zone int

record GoTime =
  t_sec :: u64
  t_nsec :: u32
  t_zone :: zone

definition zero_time :: GoTime where
  "zero_time = \<lparr>t_sec = 0, t_nsec = 0, t_zone = UTC\<rparr>"

definition offsetMin :: "GoTime \<Rightarrow> goerr + int" where
  "offsetMin t = (case t_zone t of UTC \<Rightarrow> Inr (-1)
     | Zone offset \<Rightarrow>
         if offset mod 60 \<noteq> 0 then Inl (GoErr ''Time.MarshalBinary: zone offset has fractional minute'')
         else let m = offset div 60 in
           if m < -32768 \<or> m = -1 \<or> m > 32767 then Inl (GoErr ''Time.MarshalBinary: unexpected zone offset'')
           else Inr m)"

definition MarshalBinary :: "GoTime \<Rightarrow> goerr + bytes" where
  "MarshalBinary t = (case offsetMin t of Inl e \<Rightarrow> Inl e
     | Inr m \<Rightarrow> Inr ([1] @ PutUint64 (t_sec t) @ PutUint32 (t_nsec t) @ PutUint16 (word_of_int m)))"

definition UnmarshalBinary :: "bytes \<Rightarrow> goerr + GoTime" where
  "UnmarshalBinary buf =
     (if buf = [] then Inl (GoErr ''Time.UnmarshalBinary: no data'')
      else if hd buf \<noteq> 1 then Inl (GoErr ''Time.UnmarshalBinary: unsupported version'')
      else if length buf \<noteq> 15 then Inl (GoErr ''Time.UnmarshalBinary: invalid length'')
      else let offset = sint (Uint16 (drop 13 buf)) * 60
        in Inr \<lparr>t_sec = Uint64 (drop 1 buf), t_nsec = Uint32 (drop 9 buf),
                t_zone = if offset = -60 then UTC else Zone offset\<rparr>)"

definition valid_time :: "GoTime \<Rightarrow> bool" where
  "valid_time t \<longleftrightarrow> (case offsetMin t of Inl e \<Rightarrow> False | Inr m \<Rightarrow> True)"

lemma sint16: "- 32768 \<le> m \<Longrightarrow> m \<le> 32767 \<Longrightarrow> sint (word_of_int m :: u16) = m"
  by (simp add: signed_of_int signed_take_bit_int_eq_self)

lemma MarshalBinary_valid:
  assumes "valid_time t"
  shows "\<exists>b. MarshalBinary t = Inr b \<and> length b = 15 \<and> UnmarshalBinary b = Inr t"
proof -
  obtain m where m: "offsetMin t = Inr m" using assms by (auto simp: valid_time_def split: sum.splits)
  let ?b = "[1] @ PutUint64 (t_sec t) @ PutUint32 (t_nsec t) @ PutUint16 (word_of_int m)"
  have range: "-32768 \<le> m" "m \<le> 32767"
    using m by (auto simp: offsetMin_def Let_def split: zone.splits if_splits)
  have "drop 13 ?b = PutUint16 (word_of_int m)" "drop 9 ?b = PutUint32 (t_nsec t) @ PutUint16 (word_of_int m)"
    by (simp_all add: drop_Cons')
  then have dec: "sint (Uint16 (drop 13 ?b)) = m" "Uint32 (drop 9 ?b) = t_nsec t" "Uint64 (drop 1 ?b) = t_sec t"
    by (simp_all add: codec_simps sint16 [OF range])
  have "(if m * 60 = -60 then UTC else Zone (m * 60)) = t_zone t"
    using m by (auto simp: offsetMin_def Let_def split: zone.splits if_splits)
  then have "UnmarshalBinary ?b = Inr t"
    unfolding UnmarshalBinary_def Let_def dec by simp
  with m show ?thesis by (auto simp: MarshalBinary_def)
qed

section \<open>Invoices\<close>

record ContractTerm =
  PaymentPreimage :: bytes
  term_Value :: u64
  Settled :: bool

record Invoice =
  Memo :: bytes
  Receipt :: bytes
  PaymentRequest :: bytes
  CreationDate :: GoTime
  SettleDate :: GoTime
  Terms :: ContractTerm

definition MaxMemoSize :: nat where "MaxMemoSize = 1024"
definition MaxReceiptSize :: nat where "MaxReceiptSize = 1024"
definition MaxPaymentRequestSize :: nat where "MaxPaymentRequestSize = 4096"

definition validateInvoice :: "Invoice \<Rightarrow> goerr + unit" where
  "validateInvoice i =
     (if length (Memo i) > MaxMemoSize then Inl (GoErr ''max length a memo'')
      else if length (Receipt i) > MaxReceiptSize then Inl (GoErr ''max length a receipt'')
      else if length (PaymentRequest i) > MaxPaymentRequestSize then Inl (GoErr ''max length of payment request'')
      else Inr ())"

definition serializeInvoice :: "Invoice \<Rightarrow> goerr + bytes" where
  "serializeInvoice i =
     (case MarshalBinary (CreationDate i) of Inl e \<Rightarrow> Inl e
      | Inr birthBytes \<Rightarrow>
     (case MarshalBinary (SettleDate i) of Inl e \<Rightarrow> Inl e
      | Inr settleBytes \<Rightarrow>
          Inr (WriteVarBytes (Memo i) @ WriteVarBytes (Receipt i) @ WriteVarBytes (PaymentRequest i)
             @ WriteVarBytes birthBytes @ WriteVarBytes settleBytes
             @ PaymentPreimage (Terms i) @ PutUint64 (term_Value (Terms i)) @ write_bool (Settled (Terms i)))))"

definition deserializeInvoice :: "(bytes, Invoice) op" where
  "deserializeInvoice =
     sbind (ReadVarBytes MaxMemoSize) (\<lambda>memo.
     sbind (ReadVarBytes MaxReceiptSize) (\<lambda>receipt.
     sbind (ReadVarBytes MaxPaymentRequestSize) (\<lambda>payReq.
     sbind (ReadVarBytes 300) (\<lambda>birthBytes.
     sbind (slift (UnmarshalBinary birthBytes)) (\<lambda>birth.
     sbind (ReadVarBytes 300) (\<lambda>settledBytes.
     sbind (slift (UnmarshalBinary settledBytes)) (\<lambda>settle.
     sbind (ReadFull 32) (\<lambda>preimage.
     sbind (ReadFull 8) (\<lambda>scratch.
     sbind read_bool (\<lambda>settled.
       sret \<lparr>Memo = memo, Receipt = receipt, PaymentRequest = payReq, CreationDate = birth, SettleDate = settle,
             Terms = \<lparr>PaymentPreimage = preimage, term_Value = Uint64 scratch, Settled = settled\<rparr>\<rparr>))))))))))"

text \<open>
  The invoices that can be written and read back. A preimage is a Go array of 32 bytes;
  the rest is what \<^verbatim>\<open>validateInvoice\<close> checks and what a date must be to be marshalled.
\<close>

definition valid_invoice :: "Invoice \<Rightarrow> bool" where
  "valid_invoice i \<longleftrightarrow> validateInvoice i = Inr () \<and> length (PaymentPreimage (Terms i)) = 32
     \<and> valid_time (CreationDate i) \<and> valid_time (SettleDate i)"

definition invoice_bytes :: "Invoice \<Rightarrow> bytes" where
  "invoice_bytes i = (case serializeInvoice i of Inl e \<Rightarrow> [] | Inr b \<Rightarrow> b)"

lemma validateInvoice_ok:
  "validateInvoice i = Inr () \<longleftrightarrow> length (Memo i) \<le> MaxMemoSize \<and> length (Receipt i) \<le> MaxReceiptSize
     \<and> length (PaymentRequest i) \<le> MaxPaymentRequestSize"
  by (auto simp: validateInvoice_def)

lemma serializeInvoice_valid:
  assumes "valid_invoice i"
  shows "serializeInvoice i = Inr (invoice_bytes i)" "length (invoice_bytes i) \<le> MaxValueSize"
    "deserializeInvoice (invoice_bytes i @ s) = Inr (i, s)"
proof -
  obtain b where b: "MarshalBinary (CreationDate i) = Inr b" "length b = 15" "UnmarshalBinary b = Inr (CreationDate i)"
    using MarshalBinary_valid [of "CreationDate i"] assms by (auto simp: valid_invoice_def)
  obtain c where c: "MarshalBinary (SettleDate i) = Inr c" "length c = 15" "UnmarshalBinary c = Inr (SettleDate i)"
    using MarshalBinary_valid [of "SettleDate i"] assms by (auto simp: valid_invoice_def)
  have sizes: "length (Memo i) \<le> 1024" "length (Receipt i) \<le> 1024" "length (PaymentRequest i) \<le> 4096"
      "length (PaymentPreimage (Terms i)) = 32"
    using assms by (auto simp: valid_invoice_def validateInvoice_ok MaxMemoSize_def MaxReceiptSize_def MaxPaymentRequestSize_def)
  show ser: "serializeInvoice i = Inr (invoice_bytes i)"
    using b c by (simp add: serializeInvoice_def invoice_bytes_def)
  have bytes: "invoice_bytes i = WriteVarBytes (Memo i) @ WriteVarBytes (Receipt i) @ WriteVarBytes (PaymentRequest i)
      @ WriteVarBytes b @ WriteVarBytes c @ PaymentPreimage (Terms i) @ PutUint64 (term_Value (Terms i)) @ write_bool (Settled (Terms i))"
    using b c by (simp add: serializeInvoice_def invoice_bytes_def)
  have "length (invoice_bytes i) \<le> 6500"
    using length_WriteVarBytes_le [of "Memo i"] length_WriteVarBytes_le [of "Receipt i"] length_WriteVarBytes_le [of "PaymentRequest i"]
      length_WriteVarBytes_le [of b] length_WriteVarBytes_le [of c] sizes b(2) c(2) by (simp add: bytes)
  then show "length (invoice_bytes i) \<le> MaxValueSize" by (simp add: MaxValueSize_def)
  show "deserializeInvoice (invoice_bytes i @ s) = Inr (i, s)"
    unfolding bytes deserializeInvoice_def using sizes b c
    by (simp add: sbind_def MaxMemoSize_def MaxReceiptSize_def MaxPaymentRequestSize_def codec_simps ReadFull_exact seq_simps)
qed

interpretation invoice_codec: codec invoice_bytes deserializeInvoice valid_invoice
  by unfold_locales (rule serializeInvoice_valid(3))

section \<open>The methods\<close>

definition invoiceBucket :: bytes where "invoiceBucket = ascii ''invoices''"
definition invoiceIndexBucket :: bytes where "invoiceIndexBucket = ascii ''paymenthashes''"
definition numInvoicesKey :: bytes where "numInvoicesKey = ascii ''nik''"

definition paymentHash :: "Invoice \<Rightarrow> bytes" where
  "paymentHash i = Sum256 (PaymentPreimage (Terms i))"

text \<open>An invoice that cannot be serialized is indexed but not written, and no error is returned.\<close>

definition putInvoice :: "bucket \<Rightarrow> bucket \<Rightarrow> Invoice \<Rightarrow> u32 \<Rightarrow> unit tx" where
  "putInvoice invoices invoiceIndex i invoiceNum =
     sbind (b_Put invoiceIndex numInvoicesKey (PutUint32 (invoiceNum + 1))) (\<lambda>_.
     sbind (b_Put invoiceIndex (paymentHash i) (PutUint32 invoiceNum)) (\<lambda>_.
       (case serializeInvoice i of Inl e \<Rightarrow> sret ()
        | Inr buf \<Rightarrow> b_Put invoices (PutUint32 invoiceNum) buf)))"

definition db_AddInvoice :: "Invoice \<Rightarrow> db \<Rightarrow> (goerr + unit) \<times> db" where
  "db_AddInvoice i t =
     (case validateInvoice i of Inl e \<Rightarrow> (Inl e, t)
      | Inr _ \<Rightarrow> db_Update (
          sbind (b_CreateBucketIfNotExists [] invoiceBucket) (\<lambda>invoices.
          sbind (b_CreateBucketIfNotExists invoices invoiceIndexBucket) (\<lambda>invoiceIndex t.
            if b_Get invoiceIndex (paymentHash i) t \<noteq> None then Inl ErrDuplicateInvoice
            else
              (case b_Get invoiceIndex numInvoicesKey t of
                 None \<Rightarrow>
                   (case b_Put invoiceIndex numInvoicesKey (PutUint32 0) t of
                      Inl e \<Rightarrow> Inr ((), t)
                    | Inr (_, t') \<Rightarrow> putInvoice invoices invoiceIndex i 0 t')
               | Some invoiceCounter \<Rightarrow>
                   if length invoiceCounter < 4 then Inl (GoPanic ''index out of range'')
                   else putInvoice invoices invoiceIndex i (Uint32 invoiceCounter) t)))) t)"

definition fetchInvoice :: "bytes \<Rightarrow> bucket \<Rightarrow> db \<Rightarrow> goerr + Invoice" where
  "fetchInvoice invoiceNum invoices t =
     (case b_Get invoices invoiceNum t of None \<Rightarrow> Inl ErrInvoiceNotFound
      | Some invoiceBytes \<Rightarrow> decode_bytes deserializeInvoice invoiceBytes)"

definition db_LookupInvoice :: "bytes \<Rightarrow> db \<Rightarrow> goerr + Invoice" where
  "db_LookupInvoice payHash t =
     (case b_Bucket [] invoiceBucket t of None \<Rightarrow> Inl ErrNoInvoicesCreated
      | Some invoices \<Rightarrow>
     (case b_Bucket invoices invoiceIndexBucket t of None \<Rightarrow> Inl ErrNoInvoicesCreated
      | Some invoiceIndex \<Rightarrow>
     (case b_Get invoiceIndex payHash t of None \<Rightarrow> Inl ErrInvoiceNotFound
      | Some invoiceNum \<Rightarrow> fetchInvoice invoiceNum invoices t)))"

definition settleInvoice :: "GoTime \<Rightarrow> bucket \<Rightarrow> bytes \<Rightarrow> unit tx" where
  "settleInvoice now invoices invoiceNum t =
     (case fetchInvoice invoiceNum invoices t of Inl e \<Rightarrow> Inl e
      | Inr invoice \<Rightarrow>
          if Settled (Terms invoice) then Inr ((), t)
          else (case serializeInvoice (invoice\<lparr>SettleDate := now, Terms := (Terms invoice)\<lparr>Settled := True\<rparr>\<rparr>) of
                  Inl e \<Rightarrow> Inr ((), t)
                | Inr buf \<Rightarrow> b_Put invoices invoiceNum buf t))"

definition db_SettleInvoice :: "GoTime \<Rightarrow> bytes \<Rightarrow> db \<Rightarrow> (goerr + unit) \<times> db" where
  "db_SettleInvoice now payHash = db_Update (
     sbind (b_CreateBucketIfNotExists [] invoiceBucket) (\<lambda>invoices.
     sbind (b_CreateBucketIfNotExists invoices invoiceIndexBucket) (\<lambda>invoiceIndex t.
       (case b_Get invoiceIndex payHash t of None \<Rightarrow> Inl ErrInvoiceNotFound
        | Some invoiceNum \<Rightarrow> settleInvoice now invoices invoiceNum t))))"

definition db_FetchAllInvoices :: "bool \<Rightarrow> db \<Rightarrow> goerr + Invoice list" where
  "db_FetchAllInvoices pendingOnly = db_View (\<lambda>t.
     (case b_Bucket [] invoiceBucket t of None \<Rightarrow> Inl ErrNoInvoicesCreated
      | Some invoiceB \<Rightarrow>
          b_ForEach invoiceB (\<lambda>k v acc.
            (case v of None \<Rightarrow> sret acc
             | Some bs \<Rightarrow> sbind (slift (decode_bytes deserializeInvoice bs)) (\<lambda>invoice.
                 if pendingOnly \<and> Settled (Terms invoice) then sret acc else sret (acc @ [invoice])))) [] t))"

section \<open>What they stand for\<close>

definition settled_at :: "GoTime \<Rightarrow> Invoice \<Rightarrow> Invoice" where
  "settled_at now i = (if Settled (Terms i) then i
     else i\<lparr>SettleDate := now, Terms := (Terms i)\<lparr>Settled := True\<rparr>\<rparr>)"

definition find_invoice :: "bytes \<Rightarrow> Invoice list \<Rightarrow> Invoice option" where
  "find_invoice h ivs = find (\<lambda>i. paymentHash i = h) ivs"

definition settle_in :: "GoTime \<Rightarrow> bytes \<Rightarrow> Invoice list \<Rightarrow> Invoice list" where
  "settle_in now h ivs = map (\<lambda>i. if paymentHash i = h then settled_at now i else i) ivs"

definition beside_invoices :: "db \<Rightarrow> bytes list \<Rightarrow> bytes option \<times> bool" where
  "beside_invoices t q = (if q \<noteq> [] \<and> hd q = invoiceBucket then (None, False) else (val_at t q, is_bkt t q))"

definition wf_invoices :: "Invoice list \<Rightarrow> bool" where
  "wf_invoices ivs \<longleftrightarrow> length ivs \<le> 2 ^ 32 \<and> list_all valid_invoice ivs \<and> distinct (map paymentHash ivs)"

text \<open>
  The database \<open>t\<close> holds the invoices \<open>ivs\<close>: the counter, one index entry per payment hash, one
  record per number; \<open>Q\<close> is what it holds beside them.
\<close>

definition irepr :: "db \<Rightarrow> Invoice list \<Rightarrow> (bytes list \<Rightarrow> bytes option \<times> bool) \<Rightarrow> bool" where
  "irepr t ivs Q \<longleftrightarrow> bwf t \<and> is_bkt t [] \<and> wf_invoices ivs \<and> beside_invoices t = Q
     \<and> val_at t [invoiceBucket] = None
     \<and> (\<forall>k. is_bkt t [invoiceBucket, k] \<longleftrightarrow> k = invoiceIndexBucket \<and> ivs \<noteq> [])
     \<and> (\<forall>k. \<not> is_bkt t [invoiceBucket, invoiceIndexBucket, k])
     \<and> (\<forall>k. val_at t [invoiceBucket, k] =
          (if length k = 4 \<and> unat (Uint32 k) < length ivs then Some (invoice_bytes (ivs ! unat (Uint32 k))) else None))
     \<and> (\<forall>k v. val_at t [invoiceBucket, invoiceIndexBucket, k] = Some v \<longleftrightarrow>
          k = numInvoicesKey \<and> ivs \<noteq> [] \<and> v = PutUint32 (word_of_nat (length ivs))
          \<or> (\<exists>n < length ivs. k = paymentHash (ivs ! n) \<and> v = PutUint32 (word_of_nat n)))"

lemma irepr_frame:
  assumes "irepr t ivs Q" "bwf t'" "is_bkt t' []"
    and "\<And>q. val_at t' (invoiceBucket # q) = val_at t (invoiceBucket # q)"
    and "\<And>q. is_bkt t' (invoiceBucket # q) = is_bkt t (invoiceBucket # q)"
  shows "irepr t' ivs (beside_invoices t')"
  using assms by (simp add: irepr_def)

lemma irepr_obs:
  assumes "irepr t ivs Q" "bwf t'" "is_bkt t' = is_bkt t" "val_at t' = val_at t"
  shows "irepr t' ivs Q"
proof -
  have "beside_invoices t' = beside_invoices t" by (rule ext) (simp add: beside_invoices_def assms(3,4))
  with assms show ?thesis by (simp add: irepr_def)
qed

lemma invoice_keys [simp]:
  "invoiceBucket \<noteq> []" "invoiceIndexBucket \<noteq> []" "numInvoicesKey \<noteq> []" "length invoiceIndexBucket = 13"
  "length numInvoicesKey = 3" "length (paymentHash i) = 32"
  by (simp_all add: invoiceBucket_def invoiceIndexBucket_def numInvoicesKey_def ascii_def paymentHash_def)

lemma invoice_key_neq [simp]:
  "PutUint32 n \<noteq> invoiceIndexBucket" "paymentHash i \<noteq> numInvoicesKey" "numInvoicesKey \<noteq> paymentHash i"
  "paymentHash i \<noteq> []"
  by (rule notI, drule arg_cong [where f = length], simp)+

lemma unat_of_number: "n < 2 ^ 32 \<Longrightarrow> unat (word_of_nat n :: u32) = n"
  by (simp add: unat_of_nat)

lemma putInvoice_run:
  fixes b j :: bytes
  assumes "bwf t" "is_bkt t [b]" "is_bkt t [b, j]" "\<And>k. \<not> is_bkt t [b, j, k]" "\<And>k. k \<noteq> j \<Longrightarrow> \<not> is_bkt t [b, k]"
    and "valid_invoice i" "length j = 13"
  shows "succeeds (putInvoice [b] [b, j] i num) t (\<lambda>_ t'. bwf t' \<and> is_bkt t' = is_bkt t
    \<and> val_at t' = (val_at t)([b, j, numInvoicesKey] \<mapsto> PutUint32 (num + 1),
         [b, j, paymentHash i] \<mapsto> PutUint32 num, [b, PutUint32 num] \<mapsto> invoice_bytes i))"
proof -
  have sizes: "length (PutUint32 x) \<le> MaxValueSize" "length (PutUint32 x) \<le> MaxKeySize"
      "length numInvoicesKey \<le> MaxKeySize" "length (paymentHash i) \<le> MaxKeySize" for x
    by (simp_all add: MaxValueSize_def MaxKeySize_def)
  have neq: "PutUint32 num \<noteq> j" using assms(7) by auto
  obtain t1 where t1: "b_Put [b, j] numInvoicesKey (PutUint32 (num + 1)) t = Inr ((), t1)" "bwf t1" "is_bkt t1 = is_bkt t"
      "val_at t1 = (val_at t)([b, j, numInvoicesKey] \<mapsto> PutUint32 (num + 1))"
    using b_Put_succeeds [of t "[b, j]" numInvoicesKey "PutUint32 (num + 1)"] assms sizes by (auto simp: succeeds_def)
  obtain t2 where t2: "b_Put [b, j] (paymentHash i) (PutUint32 num) t1 = Inr ((), t2)" "bwf t2" "is_bkt t2 = is_bkt t1"
      "val_at t2 = (val_at t1)([b, j, paymentHash i] \<mapsto> PutUint32 num)"
    using b_Put_succeeds [of t1 "[b, j]" "paymentHash i" "PutUint32 num"] assms sizes t1 by (auto simp: succeeds_def)
  obtain t3 where t3: "b_Put [b] (PutUint32 num) (invoice_bytes i) t2 = Inr ((), t3)" "bwf t3" "is_bkt t3 = is_bkt t2"
      "val_at t3 = (val_at t2)([b, PutUint32 num] \<mapsto> invoice_bytes i)"
    using b_Put_succeeds [of t2 "[b]" "PutUint32 num" "invoice_bytes i"] assms sizes t1 t2 neq
      serializeInvoice_valid(2) [OF assms(6)] by (auto simp: succeeds_def)
  show ?thesis
    using t1 t2 t3 serializeInvoice_valid(1) [OF assms(6)] by (auto simp: succeeds_def putInvoice_def sbind_def)
qed

subsection \<open>Adding\<close>

lemma irepr_buckets:
  assumes "irepr t ivs Q"
  shows "succeeds (sbind (b_CreateBucketIfNotExists [] invoiceBucket) (\<lambda>invoices.
      sbind (b_CreateBucketIfNotExists invoices invoiceIndexBucket) (\<lambda>invoiceIndex. sret (invoices, invoiceIndex)))) t
    (\<lambda>(invoices, invoiceIndex) t'. invoices = [invoiceBucket] \<and> invoiceIndex = [invoiceBucket, invoiceIndexBucket]
       \<and> bwf t' \<and> is_bkt t' = (is_bkt t)([invoiceBucket] := True, [invoiceBucket, invoiceIndexBucket] := True)
       \<and> val_at t' = val_at t)"
proof -
  have ok: "bwf t" "is_bkt t []" "val_at t ([] @ [invoiceBucket]) = None" "val_at t [invoiceBucket, invoiceIndexBucket] = None"
    using assms by (simp_all add: irepr_def)
  obtain t1 where t1: "b_CreateBucketIfNotExists [] invoiceBucket t = Inr ([invoiceBucket], t1)" "bwf t1"
      "is_bkt t1 = (is_bkt t)([invoiceBucket] := True)" "val_at t1 = val_at t"
    using b_CreateBucketIfNotExists_succeeds [OF ok(1-3)] by (auto simp: succeeds_def)
  obtain t2 where t2: "b_CreateBucketIfNotExists [invoiceBucket] invoiceIndexBucket t1
        = Inr ([invoiceBucket, invoiceIndexBucket], t2)" "bwf t2"
      "is_bkt t2 = (is_bkt t1)([invoiceBucket, invoiceIndexBucket] := True)" "val_at t2 = val_at t1"
    using b_CreateBucketIfNotExists_succeeds [OF t1(2), of "[invoiceBucket]" invoiceIndexBucket] t1(3,4) ok(4)
    by (auto simp: succeeds_def)
  from t1 t2 show ?thesis by (simp add: succeeds_def sbind_def seq_simps)
qed

lemma with_buckets:
  assumes "irepr t ivs Q"
  obtains t' where "bwf t'" "is_bkt t' = (is_bkt t)([invoiceBucket] := True, [invoiceBucket, invoiceIndexBucket] := True)"
    "val_at t' = val_at t"
    "\<forall>f :: bucket \<Rightarrow> bucket \<Rightarrow> unit tx. sbind (b_CreateBucketIfNotExists [] invoiceBucket) (\<lambda>invoices.
      sbind (b_CreateBucketIfNotExists invoices invoiceIndexBucket) (f invoices)) t
        = f [invoiceBucket] [invoiceBucket, invoiceIndexBucket] t'"
  using irepr_buckets [OF assms] by (auto simp: succeeds_def sbind_def sret_def split: sum.splits)

text \<open>The index entry of a payment hash is the number of its invoice.\<close>

lemma index_entry:
  assumes "irepr t ivs Q" "length h = 32"
  shows "val_at t [invoiceBucket, invoiceIndexBucket, h] = Some v \<longleftrightarrow>
    (\<exists>n < length ivs. paymentHash (ivs ! n) = h \<and> v = PutUint32 (word_of_nat n))"
proof -
  have "h \<noteq> numInvoicesKey" using assms(2) by auto
  then show ?thesis using assms(1) unfolding irepr_def by auto
qed

lemma find_invoice_nth:
  assumes "distinct (map paymentHash ivs)" "n < length ivs"
  shows "find_invoice (paymentHash (ivs ! n)) ivs = Some (ivs ! n)"
  unfolding find_invoice_def find_Some_iff using assms
  by (metis (mono_tags, lifting) distinct_conv_nth length_map nat_neq_iff nth_map order.strict_trans)

lemma find_invoice_None: "find_invoice h ivs = None \<longleftrightarrow> (\<forall>n < length ivs. paymentHash (ivs ! n) \<noteq> h)"
  by (auto simp: find_invoice_def find_None_iff in_set_conv_nth)

lemma index_None:
  assumes "irepr t ivs Q" "length h = 32"
  shows "val_at t [invoiceBucket, invoiceIndexBucket, h] = None \<longleftrightarrow> find_invoice h ivs = None"
  using index_entry [OF assms] by (cases "val_at t [invoiceBucket, invoiceIndexBucket, h]")
    (auto simp: find_invoice_None)

lemma counter_entry:
  assumes "irepr t ivs Q"
  shows "val_at t [invoiceBucket, invoiceIndexBucket, numInvoicesKey]
    = (if ivs = [] then None else Some (PutUint32 (word_of_nat (length ivs))))"
proof -
  have "val_at t [invoiceBucket, invoiceIndexBucket, numInvoicesKey] = Some v \<longleftrightarrow>
      ivs \<noteq> [] \<and> v = PutUint32 (word_of_nat (length ivs))" for v
    using assms unfolding irepr_def by auto
  then show ?thesis by (cases "val_at t [invoiceBucket, invoiceIndexBucket, numInvoicesKey]") auto
qed

lemma irepr_added:
  assumes R: "irepr t ivs Q" and i: "valid_invoice i" "find_invoice (paymentHash i) ivs = None" "length ivs < 2 ^ 32"
    and t': "bwf t'" "is_bkt t' = (is_bkt t)([invoiceBucket] := True, [invoiceBucket, invoiceIndexBucket] := True)"
      "val_at t' = (val_at t)([invoiceBucket, invoiceIndexBucket, numInvoicesKey] \<mapsto> PutUint32 (word_of_nat (length ivs) + 1),
         [invoiceBucket, invoiceIndexBucket, paymentHash i] \<mapsto> PutUint32 (word_of_nat (length ivs)),
         [invoiceBucket, PutUint32 (word_of_nat (length ivs))] \<mapsto> invoice_bytes i)"
  shows "irepr t' (ivs @ [i]) Q"
proof -
  let ?n = "length ivs"
  have new: "\<And>m. m < ?n \<Longrightarrow> paymentHash (ivs ! m) \<noteq> paymentHash i" using i(2) by (simp add: find_invoice_None)
  have "paymentHash i \<notin> paymentHash ` set ivs"
    using i(2) by (metis (mono_tags, lifting) find_None_iff find_invoice_def imageE)
  then have wf: "wf_invoices (ivs @ [i])"
    using R i by (simp add: irepr_def wf_invoices_def)
  have "beside_invoices t' = beside_invoices t" by (rule ext) (auto simp: beside_invoices_def t'(2,3))
  then have same: "beside_invoices t' = Q" using R by (simp add: irepr_def)
  have number: "k = PutUint32 (word_of_nat ?n) \<longleftrightarrow> length k = 4 \<and> unat (Uint32 k) = ?n" for k
    using unat_of_number [OF i(3)] by (metis PutUint32_Uint32 Uint_Put0(2) length_PutUint(2) word_unat_eq_iff)
  have recs: "val_at t' [invoiceBucket, k] = (if length k = 4 \<and> unat (Uint32 k) < length (ivs @ [i])
      then Some (invoice_bytes ((ivs @ [i]) ! unat (Uint32 k))) else None)" for k
    using R number [of k] by (auto simp: irepr_def t'(3) nth_append less_Suc_eq)
  have idx: "val_at t' [invoiceBucket, invoiceIndexBucket, k] = Some v \<longleftrightarrow>
      k = numInvoicesKey \<and> ivs @ [i] \<noteq> [] \<and> v = PutUint32 (word_of_nat (length (ivs @ [i])))
      \<or> (\<exists>n < length (ivs @ [i]). k = paymentHash ((ivs @ [i]) ! n) \<and> v = PutUint32 (word_of_nat n))" for k v
  proof -
    have ex: "(\<exists>n < length (ivs @ [i]). k = paymentHash ((ivs @ [i]) ! n) \<and> v = PutUint32 (word_of_nat n)) \<longleftrightarrow>
        (\<exists>n < ?n. k = paymentHash (ivs ! n) \<and> v = PutUint32 (word_of_nat n))
        \<or> k = paymentHash i \<and> v = PutUint32 (word_of_nat ?n)"
      by (simp add: Ex_less_Suc nth_append cong: conj_cong) blast
    have old: "val_at t [invoiceBucket, invoiceIndexBucket, k] = Some v \<longleftrightarrow>
        k = numInvoicesKey \<and> ivs \<noteq> [] \<and> v = PutUint32 (word_of_nat ?n)
        \<or> (\<exists>n < ?n. k = paymentHash (ivs ! n) \<and> v = PutUint32 (word_of_nat n))"
      using R by (simp add: irepr_def)
    consider "k = numInvoicesKey" | "k = paymentHash i" "k \<noteq> numInvoicesKey" | "k \<noteq> numInvoicesKey" "k \<noteq> paymentHash i" by blast
    then show ?thesis
    proof cases
      case 1
      then show ?thesis unfolding ex by (auto simp: t'(3) add.commute)
    next
      case 2
      have "\<not> (\<exists>n < ?n. k = paymentHash (ivs ! n) \<and> v = PutUint32 (word_of_nat n))" using 2(1) new by metis
      with 2 show ?thesis unfolding ex by (auto simp: t'(3))
    next
      case 3
      then show ?thesis unfolding ex using old by (simp add: t'(3))
    qed
  qed
  show ?thesis
    unfolding irepr_def
  proof (intro conjI)
    show "\<forall>k. val_at t' [invoiceBucket, k] = (if length k = 4 \<and> unat (Uint32 k) < length (ivs @ [i])
        then Some (invoice_bytes ((ivs @ [i]) ! unat (Uint32 k))) else None)" using recs by blast
    show "\<forall>k v. (val_at t' [invoiceBucket, invoiceIndexBucket, k] = Some v) = (k = numInvoicesKey \<and> ivs @ [i] \<noteq> [] \<and>
        v = PutUint32 (word_of_nat (length (ivs @ [i]))) \<or>
        (\<exists>n<length (ivs @ [i]). k = paymentHash ((ivs @ [i]) ! n) \<and> v = PutUint32 (word_of_nat n)))" using idx by blast
  qed (use R t'(1,2) wf same in \<open>auto simp: irepr_def t'(3)\<close>)
qed

lemma db_AddInvoice_new:
  assumes R: "irepr t ivs Q" and i: "valid_invoice i" "find_invoice (paymentHash i) ivs = None" "length ivs < 2 ^ 32"
  shows "\<exists>t'. db_AddInvoice i t = (Inr (), t') \<and> irepr t' (ivs @ [i]) Q"
proof -
  let ?b = invoiceBucket and ?j = invoiceIndexBucket and ?num = "word_of_nat (length ivs) :: u32"
  obtain t1 where t1: "bwf t1" "is_bkt t1 = (is_bkt t)([?b] := True, [?b, ?j] := True)" "val_at t1 = val_at t"
    "\<forall>f :: bucket \<Rightarrow> bucket \<Rightarrow> unit tx. sbind (b_CreateBucketIfNotExists [] ?b) (\<lambda>invoices.
      sbind (b_CreateBucketIfNotExists invoices ?j) (f invoices)) t = f [?b] [?b, ?j] t1"
    by (rule with_buckets [OF R])
  have fresh: "val_at t1 [?b, ?j, paymentHash i] = None" using index_None [OF R, of "paymentHash i"] i(2) t1(3) by simp
  have bkts: "is_bkt t1 [?b]" "is_bkt t1 [?b, ?j]" "\<not> is_bkt t1 [?b, ?j, k]" "k \<noteq> ?j \<Longrightarrow> \<not> is_bkt t1 [?b, k]" for k
    using R t1(2) by (auto simp: irepr_def)
  have valid: "validateInvoice i = Inr ()" using i(1) by (simp add: valid_invoice_def)
  let ?Q = "\<lambda>t'. bwf t' \<and> is_bkt t' = is_bkt t1 \<and> val_at t' = (val_at t)([?b, ?j, numInvoicesKey] \<mapsto> PutUint32 (?num + 1),
         [?b, ?j, paymentHash i] \<mapsto> PutUint32 ?num, [?b, PutUint32 ?num] \<mapsto> invoice_bytes i)"
  have "\<exists>t'. db_AddInvoice i t = (Inr (), t') \<and> ?Q t'"
  proof (cases "ivs = []")
    case True
    then have none: "val_at t1 [?b, ?j, numInvoicesKey] = None" using counter_entry [OF R] t1(3) by simp
    obtain t2 where t2: "b_Put [?b, ?j] numInvoicesKey (PutUint32 0) t1 = Inr ((), t2)" "bwf t2" "is_bkt t2 = is_bkt t1"
        "val_at t2 = (val_at t1)([?b, ?j, numInvoicesKey] \<mapsto> PutUint32 0)"
      using b_Put_succeeds [of t1 "[?b, ?j]" numInvoicesKey "PutUint32 0"] t1(1) bkts
      by (auto simp: succeeds_def MaxKeySize_def MaxValueSize_def)
    obtain t3 where t3: "putInvoice [?b] [?b, ?j] i 0 t2 = Inr ((), t3)" "bwf t3" "is_bkt t3 = is_bkt t2"
        "val_at t3 = (val_at t2)([?b, ?j, numInvoicesKey] \<mapsto> PutUint32 (0 + 1),
         [?b, ?j, paymentHash i] \<mapsto> PutUint32 0, [?b, PutUint32 0] \<mapsto> invoice_bytes i)"
      using putInvoice_run [OF t2(2), of ?b ?j i 0] bkts t2(3) i(1) by (auto simp: succeeds_def)
    show ?thesis
      using t2 t3 none fresh True valid t1(3)
      by (auto simp: db_AddInvoice_def db_Update_def t1(4) b_Get_def)
  next
    case False
    then have some: "val_at t1 [?b, ?j, numInvoicesKey] = Some (PutUint32 ?num)" using counter_entry [OF R] t1(3) by simp
    obtain t3 where t3: "putInvoice [?b] [?b, ?j] i ?num t1 = Inr ((), t3)" "bwf t3" "is_bkt t3 = is_bkt t1"
        "val_at t3 = (val_at t1)([?b, ?j, numInvoicesKey] \<mapsto> PutUint32 (?num + 1),
         [?b, ?j, paymentHash i] \<mapsto> PutUint32 ?num, [?b, PutUint32 ?num] \<mapsto> invoice_bytes i)"
      using putInvoice_run [OF t1(1), of ?b ?j i ?num] bkts i(1) by (auto simp: succeeds_def)
    show ?thesis
      using t3 some fresh valid t1(3) by (auto simp: db_AddInvoice_def db_Update_def t1(4) b_Get_def codec_simps)
  qed
  then show ?thesis using irepr_added [OF R i] t1(2) by metis
qed

lemma db_AddInvoice_duplicate:
  assumes R: "irepr t ivs Q" and i: "validateInvoice i = Inr ()" "find_invoice (paymentHash i) ivs \<noteq> None"
  shows "db_AddInvoice i t = (Inl ErrDuplicateInvoice, t)"
proof -
  obtain t1 where "bwf t1" "is_bkt t1 = (is_bkt t)([invoiceBucket] := True, [invoiceBucket, invoiceIndexBucket] := True)"
    and t1: "val_at t1 = val_at t"
    "\<forall>f :: bucket \<Rightarrow> bucket \<Rightarrow> unit tx. sbind (b_CreateBucketIfNotExists [] invoiceBucket) (\<lambda>invoices.
      sbind (b_CreateBucketIfNotExists invoices invoiceIndexBucket) (f invoices)) t
        = f [invoiceBucket] [invoiceBucket, invoiceIndexBucket] t1"
    by (rule with_buckets [OF R])
  have "val_at t1 [invoiceBucket, invoiceIndexBucket, paymentHash i] \<noteq> None"
    using index_None [OF R, of "paymentHash i"] i(2) t1(1) by simp
  then show ?thesis using i(1) by (simp add: db_AddInvoice_def db_Update_def t1(2) b_Get_def)
qed

lemma db_AddInvoice_oversized: "validateInvoice i = Inl e \<Longrightarrow> db_AddInvoice i t = (Inl e, t)"
  by (simp add: db_AddInvoice_def)

subsection \<open>Looking up\<close>

lemma record_entry:
  assumes "irepr t ivs Q" "n < length ivs"
  shows "val_at t [invoiceBucket, PutUint32 (word_of_nat n)] = Some (invoice_bytes (ivs ! n))"
proof -
  have "n < 2 ^ 32" using assms by (simp add: irepr_def wf_invoices_def)
  with assms show ?thesis by (simp add: irepr_def codec_simps unat_of_number)
qed

lemma irepr_nth:
  assumes "irepr t ivs Q" "n < length ivs"
  shows "valid_invoice (ivs ! n)" "find_invoice (paymentHash (ivs ! n)) ivs = Some (ivs ! n)"
  using assms find_invoice_nth by (auto simp: irepr_def wf_invoices_def list_all_length)

lemma fetchInvoice_run:
  assumes "irepr t ivs Q" "n < length ivs" "val_at t' = val_at t"
  shows "fetchInvoice (PutUint32 (word_of_nat n)) [invoiceBucket] t' = Inr (ivs ! n)"
  using record_entry [OF assms(1,2)] invoice_codec.decode_bytes_enc [OF irepr_nth(1) [OF assms(1,2)]] assms(3)
  by (simp add: fetchInvoice_def b_Get_def)

lemma irepr_has_buckets:
  assumes "irepr t ivs Q" "ivs \<noteq> []"
  shows "is_bkt t [invoiceBucket]" "is_bkt t [invoiceBucket, invoiceIndexBucket]"
  using assms is_bkt_prefix [of t "[invoiceBucket]" "[invoiceIndexBucket]"] by (simp_all add: irepr_def)

lemma found_nth:
  assumes "irepr t ivs Q" "length h = 32" "find_invoice h ivs = Some i"
  obtains n where "n < length ivs" "ivs ! n = i" "paymentHash i = h"
    "val_at t [invoiceBucket, invoiceIndexBucket, h] = Some (PutUint32 (word_of_nat n))"
proof -
  obtain n where "n < length ivs" "ivs ! n = i" "paymentHash i = h"
    using assms(3) by (auto simp: find_invoice_def find_Some_iff)
  then show ?thesis using that index_entry [OF assms(1,2)] by blast
qed

lemma db_LookupInvoice_run:
  assumes "irepr t ivs Q" "length h = 32"
  shows "db_LookupInvoice h t = (if ivs = [] then Inl ErrNoInvoicesCreated
    else case find_invoice h ivs of None \<Rightarrow> Inl ErrInvoiceNotFound | Some i \<Rightarrow> Inr i)"
proof (cases "ivs = []")
  case True
  then have "\<not> is_bkt t [invoiceBucket, invoiceIndexBucket]" using assms(1) by (simp add: irepr_def)
  with True show ?thesis by (simp add: db_LookupInvoice_def b_Bucket_def)
next
  case False
  show ?thesis
  proof (cases "find_invoice h ivs")
    case None
    with False index_None [OF assms] irepr_has_buckets [OF assms(1) False] show ?thesis
      by (simp add: db_LookupInvoice_def b_Bucket_def b_Get_def)
  next
    case (Some i)
    obtain n where "n < length ivs" "ivs ! n = i" "val_at t [invoiceBucket, invoiceIndexBucket, h] = Some (PutUint32 (word_of_nat n))"
      using found_nth [OF assms Some] by metis
    with Some False irepr_has_buckets [OF assms(1) False] fetchInvoice_run [OF assms(1) _ refl, of n] show ?thesis
      by (simp add: db_LookupInvoice_def b_Bucket_def b_Get_def)
  qed
qed

subsection \<open>Settling\<close>

lemma settled_at_simps [simp]:
  "Settled (Terms (settled_at now i))" "paymentHash (settled_at now i) = paymentHash i"
  "valid_invoice i \<Longrightarrow> valid_time now \<Longrightarrow> valid_invoice (settled_at now i)"
  "settled_at now' (settled_at now i) = settled_at now i"
  by (simp_all add: settled_at_def paymentHash_def valid_invoice_def validateInvoice_ok)

lemma settle_in_update:
  assumes "distinct (map paymentHash ivs)" "n < length ivs"
  shows "settle_in now (paymentHash (ivs ! n)) ivs = ivs[n := settled_at now (ivs ! n)]"
proof (rule nth_equalityI)
  fix m assume "m < length (settle_in now (paymentHash (ivs ! n)) ivs)"
  then have m: "m < length ivs" by (simp add: settle_in_def)
  then have "paymentHash (ivs ! m) = paymentHash (ivs ! n) \<longleftrightarrow> m = n"
    using assms by (auto simp: distinct_conv_nth)
  with m show "settle_in now (paymentHash (ivs ! n)) ivs ! m = ivs[n := settled_at now (ivs ! n)] ! m"
    by (auto simp: settle_in_def nth_list_update)
qed (simp add: settle_in_def)

lemma irepr_replaced:
  assumes R: "irepr t ivs Q" and n: "n < length ivs" "valid_invoice i" "paymentHash i = paymentHash (ivs ! n)"
    and t': "bwf t'" "is_bkt t' = is_bkt t" "val_at t' = (val_at t)([invoiceBucket, PutUint32 (word_of_nat n)] \<mapsto> invoice_bytes i)"
  shows "irepr t' (ivs[n := i]) Q"
proof -
  have lt: "n < 2 ^ 32" using R n(1) by (simp add: irepr_def wf_invoices_def)
  have hashes: "paymentHash (ivs[n := i] ! m) = paymentHash (ivs ! m)" for m
    using n by (cases "m = n") auto
  have "map paymentHash (ivs[n := i]) = map paymentHash ivs"
    by (rule nth_equalityI) (simp_all add: hashes)
  then have wf: "wf_invoices (ivs[n := i])"
    using R n set_update_subset_insert [of ivs n i] by (fastforce simp: irepr_def wf_invoices_def list_all_iff)
  have "beside_invoices t' = beside_invoices t" by (rule ext) (auto simp: beside_invoices_def t'(2,3))
  then have same: "beside_invoices t' = Q" using R by (simp add: irepr_def)
  have number: "k = PutUint32 (word_of_nat n) \<longleftrightarrow> length k = 4 \<and> unat (Uint32 k) = n" for k
    using unat_of_number [OF lt] by (metis PutUint32_Uint32 Uint_Put0(2) length_PutUint(2) word_unat_eq_iff)
  have recs: "val_at t' [invoiceBucket, k] = (if length k = 4 \<and> unat (Uint32 k) < length (ivs[n := i])
      then Some (invoice_bytes (ivs[n := i] ! unat (Uint32 k))) else None)" for k
    using R n(1) number [of k] by (auto simp: irepr_def t'(3) nth_list_update)
  show ?thesis
    unfolding irepr_def
  proof (intro conjI)
    show "\<forall>k. val_at t' [invoiceBucket, k] = (if length k = 4 \<and> unat (Uint32 k) < length (ivs[n := i])
        then Some (invoice_bytes (ivs[n := i] ! unat (Uint32 k))) else None)" using recs by blast
    show "\<forall>k v. (val_at t' [invoiceBucket, invoiceIndexBucket, k] = Some v) = (k = numInvoicesKey \<and> ivs[n := i] \<noteq> [] \<and>
        v = PutUint32 (word_of_nat (length (ivs[n := i]))) \<or>
        (\<exists>m<length (ivs[n := i]). k = paymentHash (ivs[n := i] ! m) \<and> v = PutUint32 (word_of_nat m)))"
      using R unfolding hashes by (simp add: irepr_def t'(3))
  qed (use R t'(1,2) wf same in \<open>auto simp: irepr_def t'(3)\<close>)
qed

lemma db_SettleInvoice_unknown:
  assumes "irepr t ivs Q" "length h = 32" "find_invoice h ivs = None"
  shows "db_SettleInvoice now h t = (Inl ErrInvoiceNotFound, t)"
proof -
  obtain t1 where "bwf t1" "is_bkt t1 = (is_bkt t)([invoiceBucket] := True, [invoiceBucket, invoiceIndexBucket] := True)"
    and t1: "val_at t1 = val_at t"
    "\<forall>f :: bucket \<Rightarrow> bucket \<Rightarrow> unit tx. sbind (b_CreateBucketIfNotExists [] invoiceBucket) (\<lambda>invoices.
      sbind (b_CreateBucketIfNotExists invoices invoiceIndexBucket) (f invoices)) t
        = f [invoiceBucket] [invoiceBucket, invoiceIndexBucket] t1"
    by (rule with_buckets [OF assms(1)])
  then show ?thesis
    using index_None [OF assms(1,2)] assms(3) by (simp add: db_SettleInvoice_def db_Update_def t1(2) b_Get_def)
qed

lemma db_SettleInvoice_run:
  assumes R: "irepr t ivs Q" and h: "length h = 32" "find_invoice h ivs \<noteq> None" and now: "valid_time now"
  shows "\<exists>t'. db_SettleInvoice now h t = (Inr (), t') \<and> irepr t' (settle_in now h ivs) Q"
proof -
  obtain i where i: "find_invoice h ivs = Some i" using h(2) by blast
  obtain n where n: "n < length ivs" "ivs ! n = i" "paymentHash i = h"
      "val_at t [invoiceBucket, invoiceIndexBucket, h] = Some (PutUint32 (word_of_nat n))"
    using found_nth [OF R h(1) i] by metis
  obtain t1 where t1: "bwf t1" "is_bkt t1 = (is_bkt t)([invoiceBucket] := True, [invoiceBucket, invoiceIndexBucket] := True)"
      "val_at t1 = val_at t"
    and run: "\<forall>f :: bucket \<Rightarrow> bucket \<Rightarrow> unit tx. sbind (b_CreateBucketIfNotExists [] invoiceBucket) (\<lambda>invoices.
      sbind (b_CreateBucketIfNotExists invoices invoiceIndexBucket) (f invoices)) t
        = f [invoiceBucket] [invoiceBucket, invoiceIndexBucket] t1"
    by (rule with_buckets [OF R])
  have ne: "ivs \<noteq> []" using n(1) by auto
  have bkt: "is_bkt t1 = is_bkt t" unfolding t1(2) using irepr_has_buckets [OF R ne] by (simp add: fun_eq_iff)
  let ?k = "PutUint32 (word_of_nat n)"
  have valid: "valid_invoice i" using irepr_nth(1) [OF R n(1)] n(2) by simp
  have update: "settle_in now h ivs = ivs[n := settled_at now i]"
    using settle_in_update [of ivs n now] R n by (simp add: irepr_def wf_invoices_def)
  have settle: "db_SettleInvoice now h t = db_Update (\<lambda>_. settleInvoice now [invoiceBucket] ?k t1) t"
    using n(4) t1(3) by (simp add: db_SettleInvoice_def db_Update_def run b_Get_def)
  have fetch: "fetchInvoice ?k [invoiceBucket] t1 = Inr i" using fetchInvoice_run [OF R n(1) t1(3)] n(2) by simp
  show ?thesis
  proof (cases "Settled (Terms i)")
    case True
    then have "settle_in now h ivs = ivs" using list_update_id [of ivs n] n(2) by (simp add: update settled_at_def)
    moreover have "irepr t1 ivs Q" by (rule irepr_obs [OF R t1(1) bkt t1(3)])
    ultimately show ?thesis using True fetch settle by (simp add: settleInvoice_def db_Update_def)
  next
    case False
    let ?i = "settled_at now i"
    have eq: "i\<lparr>SettleDate := now, Terms := (Terms i)\<lparr>Settled := True\<rparr>\<rparr> = ?i" using False by (simp add: settled_at_def)
    have v: "valid_invoice ?i" using valid now by simp
    have "\<not> is_bkt t1 ([invoiceBucket] @ [?k])" using R bkt by (simp add: irepr_def)
    then obtain t2 where t2: "b_Put [invoiceBucket] ?k (invoice_bytes ?i) t1 = Inr ((), t2)" "bwf t2" "is_bkt t2 = is_bkt t1"
        "val_at t2 = (val_at t1)([invoiceBucket, ?k] \<mapsto> invoice_bytes ?i)"
      using b_Put_succeeds [OF t1(1), of "[invoiceBucket]" ?k "invoice_bytes ?i"] irepr_has_buckets [OF R ne] bkt
        serializeInvoice_valid(2) [OF v] by (auto simp: succeeds_def MaxKeySize_def)
    have "irepr t2 (settle_in now h ivs) Q"
      unfolding update using t2 t1(3) bkt n by (intro irepr_replaced [OF R n(1) v]) simp_all
    moreover have "db_SettleInvoice now h t = (Inr (), t2)"
      using t2(1) False fetch serializeInvoice_valid(1) [OF v] unfolding settle settleInvoice_def
      by (simp add: db_Update_def eq)
    ultimately show ?thesis by blast
  qed
qed

subsection \<open>Listing\<close>

text \<open>A cursor over the bucket meets the records in the order of their numbers.\<close>

lemma invoice_pairs:
  assumes R: "irepr t ivs Q"
  shows "filter (\<lambda>(k, v). v \<noteq> None) (b_pairs [invoiceBucket] t)
    = map (\<lambda>n. (PutUint32 (word_of_nat n), Some (invoice_bytes (ivs ! n)))) [0..<length ivs]" (is "?l = ?r")
proof (rule sorted_wrt_unique [where R = "\<lambda>x y. fst x < fst y"])
  have wf: "bwf t" and len: "length ivs \<le> 2 ^ 32" using R by (simp_all add: irepr_def wf_invoices_def)
  show "sorted_wrt (\<lambda>x y. fst x < fst y) ?l"
    using b_pairs_sorted [OF wf, of "[invoiceBucket]"]
    by (intro sorted_wrt_filter) (simp add: al_sorted_def sorted_wrt_map)
  show "sorted_wrt (\<lambda>x y. fst x < fst y) ?r"
    using len by (auto simp: sorted_wrt_iff_nth_less PutUint32_less word_less_nat_alt unat_of_number)
  have mem: "(k, Some v) \<in> set (b_pairs [invoiceBucket] t) \<longleftrightarrow>
      (\<exists>n < length ivs. k = PutUint32 (word_of_nat n) \<and> v = invoice_bytes (ivs ! n))" for k v
  proof
    assume "(k, Some v) \<in> set (b_pairs [invoiceBucket] t)"
    then have k: "length k = 4" "unat (Uint32 k) < length ivs" "v = invoice_bytes (ivs ! unat (Uint32 k))"
      using R by (auto simp: b_pairs_iff [OF wf] irepr_def split: if_splits)
    moreover have "k = PutUint32 (word_of_nat (unat (Uint32 k)))" using k(1) by (simp add: PutUint32_Uint32)
    ultimately show "\<exists>n < length ivs. k = PutUint32 (word_of_nat n) \<and> v = invoice_bytes (ivs ! n)" by metis
  next
    assume "\<exists>n < length ivs. k = PutUint32 (word_of_nat n) \<and> v = invoice_bytes (ivs ! n)"
    then show "(k, Some v) \<in> set (b_pairs [invoiceBucket] t)"
      using record_entry [OF R] by (auto simp: b_pairs_iff [OF wf])
  qed
  show "set ?l = set ?r"
  proof (rule set_eqI, clarify)
    fix k and w :: "bytes option"
    show "(k, w) \<in> set ?l \<longleftrightarrow> (k, w) \<in> set ?r" by (cases w) (auto simp: mem)
  qed
qed auto

lemma db_FetchAllInvoices_run:
  assumes R: "irepr t ivs Q" and b: "is_bkt t [invoiceBucket]"
  shows "db_FetchAllInvoices pendingOnly t = Inr (filter (\<lambda>i. \<not> (pendingOnly \<and> Settled (Terms i))) ivs)"
proof -
  define pick where "pick i = (if pendingOnly \<and> Settled (Terms i) then [] else [i])" for i :: Invoice
  define one where "one kv = (case snd kv of None \<Rightarrow> [] | Some bs \<Rightarrow>
      (case decode_bytes deserializeInvoice bs of Inl e \<Rightarrow> [] | Inr i \<Rightarrow> pick i))" for kv :: "bytes \<times> bytes option"
  let ?f = "\<lambda>(k, v) acc. (case v of None \<Rightarrow> sret acc
             | Some bs \<Rightarrow> sbind (slift (decode_bytes deserializeInvoice bs)) (\<lambda>invoice.
                 if pendingOnly \<and> Settled (Terms invoice) then sret acc else sret (acc @ [invoice])))"
  let ?ps = "b_pairs [invoiceBucket] t"
  have dec: "decode_bytes deserializeInvoice (invoice_bytes (ivs ! n)) = Inr (ivs ! n)" if "n < length ivs" for n
    using irepr_nth(1) [OF R that] by (rule invoice_codec.decode_bytes_enc)
  have body: "?f kv acc t = Inr (acc @ one kv, t)" if "kv \<in> set ?ps" for kv acc
  proof (cases "snd kv")
    case None
    then show ?thesis by (auto simp: one_def seq_simps split: prod.split)
  next
    case (Some bs)
    with that have "kv \<in> set (filter (\<lambda>(k, v). v \<noteq> None) ?ps)" by (auto split: prod.split)
    then obtain n where n: "n < length ivs" "kv = (PutUint32 (word_of_nat n), Some (invoice_bytes (ivs ! n)))"
      unfolding invoice_pairs [OF R] by auto
    then show ?thesis using dec [OF n(1)] by (simp add: one_def pick_def seq_simps)
  qed
  have "concat (map one xs) = concat (map one (filter (\<lambda>(k, v). v \<noteq> None) xs))" for xs
    by (induction xs) (auto simp: one_def)
  then have "concat (map one ?ps) = concat (map one (filter (\<lambda>(k, v). v \<noteq> None) ?ps))" .
  also have "\<dots> = concat (map (\<lambda>n. pick (ivs ! n)) [0..<length ivs])"
    unfolding invoice_pairs [OF R] map_map by (intro arg_cong [where f = concat] map_cong) (auto simp: one_def dec)
  also have "\<dots> = concat (map pick ivs)" by (metis (no_types, lifting) map_map map_nth comp_def map_eq_conv)
  also have "\<dots> = filter (\<lambda>i. \<not> (pendingOnly \<and> Settled (Terms i))) ivs" by (induction ivs) (auto simp: pick_def)
  finally have all: "concat (map one ?ps) = filter (\<lambda>i. \<not> (pendingOnly \<and> Settled (Terms i))) ivs" .
  have "sfold ?f ?ps [] t = Inr (fold (\<lambda>kv acc. acc @ one kv) ?ps [], t)"
    by (rule sfold_pure) (rule body)
  then show ?thesis
    using b by (simp add: db_FetchAllInvoices_def db_View_def b_Bucket_def b_ForEach_def fold_append_concat all)
qed

end
