(* ===== verification/InvoiceRegistry.thy ===== *)
theory InvoiceRegistry
  imports InvoiceDB "HOL-Library.Multiset"
begin

text \<open>
  The invoice registry (\<^verbatim>\<open>src/lnd/invoiceregistry.go\<close>) over the invoices of the channel
  database. The contract of the database is the locale \<^verbatim>\<open>invoice_store\<close>; sequences of calls
  are proved against it and it is interpreted on the methods of \<^verbatim>\<open>channeldb.DB\<close>. A goroutine
  the registry starts is an entry of a pool of the state, and the calls of its clients, the
  goroutines and the receives of subscribers interleave as steps of a transition system.
\<close>

section \<open>The contract of the database\<close>

definition admissible :: "Invoice \<Rightarrow> bool" where
  "admissible i \<longleftrightarrow> length (PaymentPreimage (Terms i)) = 32 \<and> valid_time (CreationDate i) \<and> valid_time (SettleDate i)"

definition add_spec :: "Invoice \<Rightarrow> Invoice list \<Rightarrow> (goerr + unit) \<times> Invoice list" where
  "add_spec i ivs = (case validateInvoice i of Inl e \<Rightarrow> (Inl e, ivs)
     | Inr _ \<Rightarrow> if find_invoice (paymentHash i) ivs \<noteq> None then (Inl ErrDuplicateInvoice, ivs) else (Inr (), ivs @ [i]))"

definition settle_spec :: "GoTime \<Rightarrow> bytes \<Rightarrow> Invoice list \<Rightarrow> (goerr + unit) \<times> Invoice list" where
  "settle_spec now h ivs = (if find_invoice h ivs = None then (Inl ErrInvoiceNotFound, ivs) else (Inr (), settle_in now h ivs))"

definition lookup_spec :: "bytes \<Rightarrow> Invoice list \<Rightarrow> goerr + Invoice" where
  "lookup_spec h ivs = (if ivs = [] then Inl ErrNoInvoicesCreated
     else case find_invoice h ivs of None \<Rightarrow> Inl ErrInvoiceNotFound | Some i \<Rightarrow> Inr i)"

datatype invoice_call = Add_call Invoice | Settle_call GoTime bytes

fun call_ok :: "invoice_call \<Rightarrow> bool" where
  "call_ok (Add_call i) = admissible i"
| "call_ok (Settle_call now h) = (valid_time now \<and> length h = 32)"

fun call_of :: "(Invoice \<Rightarrow> 'd \<Rightarrow> (goerr + unit) \<times> 'd) \<Rightarrow> (GoTime \<Rightarrow> bytes \<Rightarrow> 'd \<Rightarrow> (goerr + unit) \<times> 'd)
    \<Rightarrow> invoice_call \<Rightarrow> 'd \<Rightarrow> (goerr + unit) \<times> 'd" where
  "call_of add settle (Add_call i) d = add i d"
| "call_of add settle (Settle_call now h) d = settle now h d"

fun run_calls :: "('c \<Rightarrow> 'd \<Rightarrow> 'r \<times> 'd) \<Rightarrow> 'c list \<Rightarrow> 'd \<Rightarrow> 'r list \<times> 'd" where
  "run_calls step [] d = ([], d)"
| "run_calls step (c # cs) d = (let (r, d') = step c d; (rs, d'') = run_calls step cs d' in (r # rs, d''))"

abbreviation invoice_spec :: "invoice_call \<Rightarrow> Invoice list \<Rightarrow> (goerr + unit) \<times> Invoice list" where
  "invoice_spec \<equiv> call_of add_spec settle_spec"

abbreviation db_call :: "invoice_call \<Rightarrow> db \<Rightarrow> (goerr + unit) \<times> db" where
  "db_call \<equiv> call_of db_AddInvoice db_SettleInvoice"

text \<open>What a call keeps of an invoice: everything but the mark and the date of a first settlement.\<close>

definition keeps_invoice :: "Invoice \<Rightarrow> Invoice \<Rightarrow> bool" where
  "keeps_invoice i j \<longleftrightarrow> j = i \<or> (\<not> Settled (Terms i) \<and> (\<exists>now. j = settled_at now i))"

lemma keeps_invoice_refl [simp]: "keeps_invoice i i"
  by (simp add: keeps_invoice_def)

lemma keeps_invoice_trans: "keeps_invoice i j \<Longrightarrow> keeps_invoice j k \<Longrightarrow> keeps_invoice i k"
  by (auto simp: keeps_invoice_def)

lemma find_settle_in:
  "find_invoice h (settle_in now g ivs) = map_option (\<lambda>i. if h = g then settled_at now i else i) (find_invoice h ivs)"
  by (induction ivs) (auto simp: find_invoice_def settle_in_def)

lemma find_add: "find_invoice h (ivs @ [i]) =
    (case find_invoice h ivs of Some j \<Rightarrow> Some j | None \<Rightarrow> if paymentHash i = h then Some i else None)"
  by (induction ivs) (auto simp: find_invoice_def)

lemma invoice_spec_keeps:
  assumes "find_invoice h ivs = Some i"
  shows "\<exists>j. find_invoice h (snd (invoice_spec c ivs)) = Some j \<and> keeps_invoice i j"
proof (cases c)
  case (Add_call k)
  then show ?thesis using assms by (auto simp: add_spec_def find_add split: sum.split)
next
  case (Settle_call now g)
  then show ?thesis
    using assms by (cases "Settled (Terms i)") (auto simp: settle_spec_def find_settle_in keeps_invoice_def settled_at_def)
qed

lemma invoice_specs_keep:
  "find_invoice h ivs = Some i \<Longrightarrow> \<exists>j. find_invoice h (snd (run_calls invoice_spec cs ivs)) = Some j \<and> keeps_invoice i j"
proof (induction cs arbitrary: ivs i)
  case (Cons c cs)
  obtain j where "find_invoice h (snd (invoice_spec c ivs)) = Some j" "keeps_invoice i j"
    using invoice_spec_keeps [OF Cons.prems] by blast
  with Cons.IH [of "snd (invoice_spec c ivs)" j] show ?case
    by (auto simp: case_prod_unfold Let_def intro: keeps_invoice_trans)
qed simp

locale invoice_store =
  fixes add :: "Invoice \<Rightarrow> 'd \<Rightarrow> (goerr + unit) \<times> 'd"
    and settle :: "GoTime \<Rightarrow> bytes \<Rightarrow> 'd \<Rightarrow> (goerr + unit) \<times> 'd"
    and lookup :: "bytes \<Rightarrow> 'd \<Rightarrow> goerr + Invoice"
    and rep :: "'d \<Rightarrow> Invoice list \<Rightarrow> 'q \<Rightarrow> bool"
  assumes add_law: "rep d ivs q \<Longrightarrow> admissible i \<Longrightarrow> length ivs < 2 ^ 32 \<Longrightarrow>
      fst (add i d) = fst (add_spec i ivs) \<and> rep (snd (add i d)) (snd (add_spec i ivs)) q"
    and settle_law: "rep d ivs q \<Longrightarrow> valid_time now \<Longrightarrow> length h = 32 \<Longrightarrow>
      fst (settle now h d) = fst (settle_spec now h ivs) \<and> rep (snd (settle now h d)) (snd (settle_spec now h ivs)) q"
    and lookup_law: "rep d ivs q \<Longrightarrow> length h = 32 \<Longrightarrow> lookup h d = lookup_spec h ivs"
begin

lemma length_invoice_spec: "length (snd (invoice_spec c ivs)) \<le> Suc (length ivs)"
  by (cases c) (auto simp: add_spec_def settle_spec_def settle_in_def split: sum.split)

lemma call_refines:
  assumes "rep d ivs q" "call_ok c" "length ivs < 2 ^ 32"
  shows "fst (call_of add settle c d) = fst (invoice_spec c ivs)" "rep (snd (call_of add settle c d)) (snd (invoice_spec c ivs)) q"
  using assms add_law settle_law by (cases c; simp)+

lemma calls_refine:
  assumes "rep d ivs q" "list_all call_ok cs" "length ivs + length cs \<le> 2 ^ 32"
  shows "fst (run_calls (call_of add settle) cs d) = fst (run_calls invoice_spec cs ivs) \<and> rep (snd (run_calls (call_of add settle) cs d)) (snd (run_calls invoice_spec cs ivs)) q"
  using assms
proof (induction cs arbitrary: d ivs)
  case (Cons c cs)
  have "length ivs < 2 ^ 32" using Cons.prems(3) by simp
  note one = call_refines [OF Cons.prems(1) _ this, of c]
  have "length (snd (invoice_spec c ivs)) + length cs \<le> 2 ^ 32"
    using Cons.prems(3) length_invoice_spec [of c ivs] by simp
  with Cons.IH [OF one(2)] Cons.prems(2) one(1) show ?case by (simp add: case_prod_unfold Let_def)
qed simp

end

text \<open>The methods of \<^verbatim>\<open>channeldb.DB\<close> keep it.\<close>

lemma db_AddInvoice_spec:
  assumes "irepr t ivs Q" "admissible i" "length ivs < 2 ^ 32"
  shows "fst (db_AddInvoice i t) = fst (add_spec i ivs) \<and> irepr (snd (db_AddInvoice i t)) (snd (add_spec i ivs)) Q"
proof (cases "validateInvoice i")
  case (Inl e)
  with assms(1) show ?thesis by (simp add: add_spec_def db_AddInvoice_oversized)
next
  case (Inr u)
  then have v: "valid_invoice i" "validateInvoice i = Inr ()" using assms(2) by (simp_all add: admissible_def valid_invoice_def)
  show ?thesis
  proof (cases "find_invoice (paymentHash i) ivs")
    case None
    with db_AddInvoice_new [OF assms(1) v(1) _ assms(3)] v show ?thesis by (auto simp: add_spec_def)
  next
    case (Some j)
    with db_AddInvoice_duplicate [OF assms(1) v(2)] v assms(1) show ?thesis by (simp add: add_spec_def)
  qed
qed

lemma db_SettleInvoice_spec:
  assumes "irepr t ivs Q" "valid_time now" "length h = 32"
  shows "fst (db_SettleInvoice now h t) = fst (settle_spec now h ivs)
     \<and> irepr (snd (db_SettleInvoice now h t)) (snd (settle_spec now h ivs)) Q"
  using assms db_SettleInvoice_unknown [OF assms(1,3)] db_SettleInvoice_run [OF assms(1,3) _ assms(2)]
  by (cases "find_invoice h ivs") (auto simp: settle_spec_def)

interpretation invdb: invoice_store db_AddInvoice db_SettleInvoice db_LookupInvoice irepr
proof unfold_locales
  show "length h = 32 \<Longrightarrow> irepr t ivs Q \<Longrightarrow> db_LookupInvoice h t = lookup_spec h ivs" for h t ivs Q
    by (simp add: db_LookupInvoice_run lookup_spec_def)
qed (use db_AddInvoice_spec db_SettleInvoice_spec in blast)+

section \<open>The registry\<close>

record invoiceSubscription =
  NewInvoices :: nat
  SettledInvoices :: nat
  sub_id :: u32

text \<open>
  \<^verbatim>\<open>next_chan\<close> numbers the Go channels; \<^verbatim>\<open>settling\<close> holds the payment hashes of the goroutines
  \<^verbatim>\<open>SettleInvoice\<close> has started, and \<^verbatim>\<open>sends\<close> those of \<^verbatim>\<open>notifyClients\<close>, each blocked on an
  unbuffered channel with its invoice.
\<close>

record invoiceRegistry =
  cdb :: db
  nextClientID :: u32
  notificationClients :: "(u32 \<times> invoiceSubscription) list"
  debugInvoices :: "bytes \<Rightarrow> Invoice option"
  next_chan :: nat
  settling :: "bytes multiset"
  sends :: "(nat \<times> Invoice) multiset"

definition newInvoiceRegistry :: "db \<Rightarrow> invoiceRegistry" where
  "newInvoiceRegistry d = \<lparr>cdb = d, nextClientID = 0, notificationClients = [], debugInvoices = (\<lambda>_. None),
     next_chan = 0, settling = {#}, sends = {#}\<rparr>"

definition NewMSatFromSatoshis :: "u64 \<Rightarrow> u64" where
  "NewMSatFromSatoshis sat = sat * 1000"

definition AddDebugInvoice :: "GoTime \<Rightarrow> u64 \<Rightarrow> bytes \<Rightarrow> invoiceRegistry \<Rightarrow> invoiceRegistry" where
  "AddDebugInvoice now amt preimage r =
     r\<lparr>debugInvoices := (debugInvoices r)(Sum256 preimage \<mapsto>
        \<lparr>Memo = [], Receipt = [], PaymentRequest = [], CreationDate = now, SettleDate = zero_time,
         Terms = \<lparr>PaymentPreimage = preimage, term_Value = NewMSatFromSatoshis amt, Settled = False\<rparr>\<rparr>)\<rparr>"

definition ir_AddInvoice :: "Invoice \<Rightarrow> invoiceRegistry \<Rightarrow> (goerr + unit) \<times> invoiceRegistry" where
  "ir_AddInvoice invoice r = (case db_AddInvoice invoice (cdb r) of (res, d) \<Rightarrow> (res, r\<lparr>cdb := d\<rparr>))"

definition ir_LookupInvoice :: "bytes \<Rightarrow> invoiceRegistry \<Rightarrow> goerr + Invoice" where
  "ir_LookupInvoice rHash r = (case debugInvoices r rHash of Some invoice \<Rightarrow> Inr invoice
     | None \<Rightarrow> db_LookupInvoice rHash (cdb r))"

definition ir_SettleInvoice :: "GoTime \<Rightarrow> bytes \<Rightarrow> invoiceRegistry \<Rightarrow> (goerr + unit) \<times> invoiceRegistry" where
  "ir_SettleInvoice now rHash r =
     (if debugInvoices r rHash \<noteq> None then (Inr (), r)
      else (case db_SettleInvoice now rHash (cdb r) of
              (Inl e, d) \<Rightarrow> (Inl e, r\<lparr>cdb := d\<rparr>)
            | (Inr _, d) \<Rightarrow> (Inr (), r\<lparr>cdb := d, settling := add_mset rHash (settling r)\<rparr>)))"

definition notifyClients :: "Invoice \<Rightarrow> bool \<Rightarrow> invoiceRegistry \<Rightarrow> invoiceRegistry" where
  "notifyClients invoice settle r =
     r\<lparr>sends := sends r + mset (map (\<lambda>(_, client).
         (if settle then SettledInvoices client else NewInvoices client, invoice)) (notificationClients r))\<rparr>"

text \<open>The goroutine of \<^verbatim>\<open>SettleInvoice\<close>; an error is only logged.\<close>

definition announceSettled :: "bytes \<Rightarrow> invoiceRegistry \<Rightarrow> invoiceRegistry" where
  "announceSettled rHash r =
     (case db_LookupInvoice rHash (cdb r) of Inl e \<Rightarrow> r | Inr invoice \<Rightarrow> notifyClients invoice True r)"

definition Cancel :: "invoiceSubscription \<Rightarrow> invoiceRegistry \<Rightarrow> invoiceRegistry" where
  "Cancel sub r = r\<lparr>notificationClients := al_del (sub_id sub) (notificationClients r)\<rparr>"

definition SubscribeNotifications :: "invoiceRegistry \<Rightarrow> invoiceSubscription \<times> invoiceRegistry" where
  "SubscribeNotifications r =
     (let client = \<lparr>NewInvoices = next_chan r, SettledInvoices = next_chan r + 1, sub_id = nextClientID r\<rparr>
      in (client, r\<lparr>notificationClients := al_put (nextClientID r) client (notificationClients r),
                    nextClientID := nextClientID r + 1, next_chan := next_chan r + 2\<rparr>))"

section \<open>Its runs\<close>

datatype registry_event = RAddDebug GoTime u64 bytes | RAdd Invoice | RSettle GoTime bytes | RNotify bytes
  | RSubscribe | RCancel invoiceSubscription | RReceive nat Invoice

inductive registry_step :: "registry_event \<Rightarrow> invoiceRegistry \<Rightarrow> invoiceRegistry \<Rightarrow> bool" where
  add_debug: "length p = 32 \<Longrightarrow> registry_step (RAddDebug now amt p) r (AddDebugInvoice now amt p r)"
| add_invoice: "admissible i \<Longrightarrow> registry_step (RAdd i) r (snd (ir_AddInvoice i r))"
| settle: "valid_time now \<Longrightarrow> length h = 32 \<Longrightarrow> registry_step (RSettle now h) r (snd (ir_SettleInvoice now h r))"
| notify: "h \<in># settling r \<Longrightarrow> registry_step (RNotify h) r (announceSettled h (r\<lparr>settling := settling r - {#h#}\<rparr>))"
| subscribe: "registry_step RSubscribe r (snd (SubscribeNotifications r))"
| cancel: "registry_step (RCancel sub) r (Cancel sub r)"
| receive: "(c, i) \<in># sends r \<Longrightarrow> registry_step (RReceive c i) r (r\<lparr>sends := sends r - {#(c, i)#}\<rparr>)"

inductive_cases registry_stepE: "registry_step e r r'"

text \<open>Reached in a number of steps from a registry started on a database with invoices.\<close>

inductive registry_reach :: "nat \<Rightarrow> invoiceRegistry \<Rightarrow> bool" where
  start: "irepr d ivs Q \<Longrightarrow> length ivs \<le> n \<Longrightarrow> registry_reach n (newInvoiceRegistry d)"
| step: "registry_reach n r \<Longrightarrow> registry_step e r r' \<Longrightarrow> registry_reach (Suc n) r'"

section \<open>The invariant\<close>

text \<open>
  Each client has its own two channels, no debug invoice is filed under a foreign hash, a
  goroutine that is to announce a settlement will find a settled invoice, and what is being
  sent is a settled invoice of the database on a channel for settled ones.
\<close>

definition clients_ok :: "nat \<Rightarrow> invoiceRegistry \<Rightarrow> bool" where
  "clients_ok n r \<longleftrightarrow> unat (nextClientID r) \<le> n \<and> next_chan r = 2 * unat (nextClientID r)
     \<and> al_sorted (notificationClients r)
     \<and> (\<forall>(id, s) \<in> set (notificationClients r). id < nextClientID r
          \<and> s = \<lparr>NewInvoices = 2 * unat id, SettledInvoices = 2 * unat id + 1, sub_id = id\<rparr>)"

definition debug_ok :: "invoiceRegistry \<Rightarrow> bool" where
  "debug_ok r \<longleftrightarrow> (\<forall>h i. debugInvoices r h = Some i \<longrightarrow> paymentHash i = h \<and> length (PaymentPreimage (Terms i)) = 32)"

definition notices_ok :: "Invoice list \<Rightarrow> invoiceRegistry \<Rightarrow> bool" where
  "notices_ok ivs r \<longleftrightarrow> (\<forall>h \<in># settling r. length h = 32 \<and> (\<exists>i. find_invoice h ivs = Some i \<and> Settled (Terms i)))
     \<and> (\<forall>(c, i) \<in># sends r. odd c \<and> Settled (Terms i) \<and> find_invoice (paymentHash i) ivs = Some i)"

definition registry_ok :: "nat \<Rightarrow> invoiceRegistry \<Rightarrow> Invoice list \<Rightarrow> (bytes list \<Rightarrow> bytes option \<times> bool) \<Rightarrow> bool" where
  "registry_ok n r ivs Q \<longleftrightarrow> irepr (cdb r) ivs Q \<and> length ivs \<le> n \<and> clients_ok n r \<and> debug_ok r \<and> notices_ok ivs r"

lemma find_settled_stays:
  assumes "find_invoice h ivs = Some i" "Settled (Terms i)"
  shows "find_invoice h (snd (invoice_spec c ivs)) = Some i"
  using invoice_spec_keeps [OF assms(1), of c] assms(2) by (auto simp: keeps_invoice_def)

lemma notices_ok_call:
  assumes "notices_ok ivs r" "settling r' = settling r" "sends r' = sends r"
  shows "notices_ok (snd (invoice_spec c ivs)) r'"
  using assms find_settled_stays unfolding notices_ok_def by fastforce

lemma client_ids_distinct: "clients_ok n r \<Longrightarrow> distinct (map fst (notificationClients r))"
  by (simp add: clients_ok_def al_sorted_distinct)

lemma clients_ok_mono: "clients_ok n r \<Longrightarrow> n \<le> m \<Longrightarrow> clients_ok m r"
  by (auto simp: clients_ok_def)

lemma clients_ok_same:
  "clients_ok n r \<Longrightarrow> nextClientID r' = nextClientID r \<Longrightarrow> next_chan r' = next_chan r \<Longrightarrow>
    notificationClients r' = notificationClients r \<Longrightarrow> clients_ok n r'"
  by (simp add: clients_ok_def)

lemma clients_ok_subscribe:
  assumes "clients_ok n r" "n < 2 ^ 32 - 1"
  shows "clients_ok (Suc n) (snd (SubscribeNotifications r))"
proof -
  let ?id = "nextClientID r"
  have "unat ?id + 1 < 2 ^ 32" using assms by (simp add: clients_ok_def)
  then have suc: "unat (?id + 1) = Suc (unat ?id)" using unat_add_lem [of ?id 1] by simp
  then have lt: "?id < ?id + 1" by (simp add: word_less_nat_alt)
  show ?thesis
    using assms(1) suc lt set_al_put_subset [of ?id _ "notificationClients r"]
    by (fastforce simp: clients_ok_def SubscribeNotifications_def Let_def al_sorted_put)
qed

lemma clients_ok_cancel: "clients_ok n r \<Longrightarrow> clients_ok n (Cancel sub r)"
  by (auto simp: clients_ok_def Cancel_def al_sorted_del) (auto simp: al_del_def)

text \<open>The goroutine finds its invoice and starts one send per registered client.\<close>

lemma announceSettled_run:
  assumes "irepr (cdb r) ivs Q" "length h = 32" "find_invoice h ivs = Some i"
  shows "announceSettled h r = notifyClients i True r"
proof -
  have "ivs \<noteq> []" using assms(3) by (auto simp: find_invoice_def)
  then show ?thesis
    using db_LookupInvoice_run [OF assms(1,2)] assms(3) by (simp add: announceSettled_def)
qed

lemma notifyClients_ok:
  assumes "notices_ok ivs r" "clients_ok n r" "find_invoice (paymentHash i) ivs = Some i" "Settled (Terms i)"
  shows "notices_ok ivs (notifyClients i True r)"
  using assms unfolding notices_ok_def clients_ok_def notifyClients_def by fastforce

lemma paymentHash_found: "find_invoice h ivs = Some i \<Longrightarrow> paymentHash i = h"
  by (auto simp: find_invoice_def find_Some_iff)

lemma registry_ok_Suc: "registry_ok n r ivs Q \<Longrightarrow> registry_ok (Suc n) r ivs Q"
  by (auto simp: registry_ok_def clients_ok_def)

lemma ir_SettleInvoice_ok:
  assumes ok: "registry_ok n r ivs Q" and h: "valid_time now" "length h = 32"
  shows "registry_ok n (snd (ir_SettleInvoice now h r))
    (if debugInvoices r h = None then snd (settle_spec now h ivs) else ivs) Q"
proof (cases "debugInvoices r h")
  case None
  let ?c = "Settle_call now h"
  have R: "irepr (cdb r) ivs Q" and no: "notices_ok ivs r" using ok by (simp_all add: registry_ok_def)
  obtain res d where d: "db_SettleInvoice now h (cdb r) = (res, d)" by (cases "db_SettleInvoice now h (cdb r)")
  with invdb.settle_law [OF R h] have res: "res = fst (settle_spec now h ivs)" "irepr d (snd (settle_spec now h ivs)) Q" by simp_all
  have old: "notices_ok (snd (invoice_spec ?c ivs)) r" by (rule notices_ok_call [OF no]) simp_all
  have len: "length (snd (settle_spec now h ivs)) = length ivs" by (simp add: settle_spec_def settle_in_def)
  show ?thesis
  proof (cases "find_invoice h ivs")
    case unknown: None
    then have "res = Inl ErrInvoiceNotFound" using res(1) by (simp add: settle_spec_def)
    with None ok res(2) d old len show ?thesis
      by (simp add: ir_SettleInvoice_def registry_ok_def clients_ok_def debug_ok_def notices_ok_def)
  next
    case (Some i)
    then have "res = Inr ()" "find_invoice h (snd (settle_spec now h ivs)) = Some (settled_at now i)"
      using res(1) by (simp_all add: settle_spec_def find_settle_in)
    with None ok res(2) d old len h(2) show ?thesis
      by (simp add: ir_SettleInvoice_def registry_ok_def clients_ok_def debug_ok_def notices_ok_def)
  qed
next
  case (Some i)
  with ok show ?thesis by (simp add: ir_SettleInvoice_def)
qed

lemma registry_ok_step:
  assumes ok: "registry_ok n r ivs Q" and n: "n < 2 ^ 32 - 1" and step: "registry_step e r r'"
  shows "\<exists>ivs'. registry_ok (Suc n) r' ivs' Q"
proof -
  have R: "irepr (cdb r) ivs Q" and len: "length ivs \<le> n" "length ivs < 2 ^ 32" and
    cl: "clients_ok (Suc n) r" and dbg: "debug_ok r" and no: "notices_ok ivs r"
    using ok n by (simp_all add: registry_ok_def clients_ok_mono [of n])
  from step show ?thesis
  proof (cases rule: registry_step.cases)
    case (add_debug p now amt)
    then show ?thesis
      using R len cl dbg no
      by (intro exI [of _ ivs]) (auto simp: registry_ok_def AddDebugInvoice_def clients_ok_def debug_ok_def notices_ok_def paymentHash_def)
  next
    case (add_invoice i)
    let ?c = "Add_call i"
    have "irepr (cdb r') (snd (invoice_spec ?c ivs)) Q"
      using invdb.add_law [OF R add_invoice(3) len(2)] add_invoice(2) by (simp add: ir_AddInvoice_def case_prod_unfold)
    moreover have "notices_ok (snd (invoice_spec ?c ivs)) r'"
      by (rule notices_ok_call [OF no]) (simp_all add: add_invoice(2) ir_AddInvoice_def case_prod_unfold)
    moreover have "clients_ok (Suc n) r'" "debug_ok r'"
      using cl dbg add_invoice(2) by (simp_all add: ir_AddInvoice_def clients_ok_def debug_ok_def case_prod_unfold)
    ultimately show ?thesis
      using invdb.length_invoice_spec [of ?c ivs] len unfolding registry_ok_def by (metis Suc_le_mono order_trans)
  next
    case (settle now h)
    then show ?thesis using ir_SettleInvoice_ok [OF ok settle(3,4)] registry_ok_Suc by metis
  next
    case (notify h)
    obtain i where i: "length h = 32" "find_invoice h ivs = Some i" "Settled (Terms i)"
      using no notify(3) by (auto simp: notices_ok_def)
    let ?r = "r\<lparr>settling := settling r - {#h#}\<rparr>"
    have "notices_ok ivs ?r" using no by (auto simp: notices_ok_def dest: in_diffD)
    moreover have "clients_ok (Suc n) ?r" using cl by (simp add: clients_ok_def)
    ultimately have "notices_ok ivs (notifyClients i True ?r)"
      using i paymentHash_found [OF i(2)] by (intro notifyClients_ok) simp_all
    moreover have "r' = notifyClients i True ?r"
      using announceSettled_run [of ?r ivs Q h i] R i notify(2) by simp
    ultimately show ?thesis
      using R len cl dbg by (intro exI [of _ ivs])
        (simp add: registry_ok_def notifyClients_def clients_ok_def debug_ok_def)
  next
    case subscribe
    have "clients_ok (Suc n) r'" using clients_ok_subscribe [of n r] ok n subscribe(2) by (simp add: registry_ok_def)
    then show ?thesis
      using R len dbg no subscribe(2) by (intro exI [of _ ivs])
        (simp add: registry_ok_def SubscribeNotifications_def debug_ok_def notices_ok_def Let_def)
  next
    case (cancel sub)
    have "clients_ok (Suc n) r'" using clients_ok_cancel [OF cl] cancel(2) by simp
    then show ?thesis
      using R len dbg no cancel(2) by (intro exI [of _ ivs])
        (simp add: registry_ok_def Cancel_def debug_ok_def notices_ok_def)
  next
    case (receive c i)
    then show ?thesis
      using R len cl dbg no by (intro exI [of _ ivs])
        (auto simp: registry_ok_def clients_ok_def debug_ok_def notices_ok_def dest: in_diffD)
  qed
qed

lemma registry_reach_ok: "registry_reach n r \<Longrightarrow> n < 2 ^ 32 \<Longrightarrow> \<exists>ivs Q. registry_ok n r ivs Q"
proof (induction rule: registry_reach.induct)
  case (start d ivs Q n)
  then have "registry_ok n (newInvoiceRegistry d) ivs Q"
    by (simp add: registry_ok_def newInvoiceRegistry_def clients_ok_def debug_ok_def notices_ok_def al_sorted_def)
  then show ?case by blast
next
  case (step n r e r')
  then show ?case using registry_ok_step by fastforce
qed

text \<open>What a send adds for each channel.\<close>

lemma count_notify:
  assumes "clients_ok n r" "(k, s) \<in> set (notificationClients r)"
  shows "count (sends (notifyClients i True r)) (SettledInvoices s, i) = Suc (count (sends r) (SettledInvoices s, i))"
proof -
  let ?g = "\<lambda>(_ :: u32, client). (SettledInvoices client, i)"
  have "map ?g (notificationClients r) = map (\<lambda>k. (2 * unat k + 1, i)) (map fst (notificationClients r))"
    using assms(1) by (auto simp: clients_ok_def)
  moreover have "distinct (map (\<lambda>k. (2 * unat k + 1, i)) (map fst (notificationClients r)))"
    using client_ids_distinct [OF assms(1)] by (subst distinct_map) (simp add: inj_on_def word_unat_eq_iff)
  ultimately have d: "distinct (map ?g (notificationClients r))" by (simp only:)
  have "(SettledInvoices s, i) \<in> set (map ?g (notificationClients r))" using assms(2) by force
  with d have "count (mset (map ?g (notificationClients r))) (SettledInvoices s, i) = 1"
    by (simp add: distinct_count_atmost_1 split: if_splits)
  then show ?thesis by (simp add: notifyClients_def case_prod_unfold)
qed

lemma count_notify_other:
  assumes "\<And>k s. (k, s) \<in> set (notificationClients r) \<Longrightarrow> SettledInvoices s \<noteq> c \<or> j \<noteq> i"
  shows "count (sends (notifyClients i True r)) (c, j) = count (sends r) (c, j)"
proof -
  have "(c, j) \<notin># mset (map (\<lambda>(_ :: u32, client). (SettledInvoices client, i)) (notificationClients r))"
    using assms by auto
  then have "count (mset (map (\<lambda>(_ :: u32, client). (SettledInvoices client, i)) (notificationClients r))) (c, j) = 0"
    by (simp only: not_in_iff)
  then show ?thesis by (simp add: notifyClients_def)
qed

end
