(* ===== verification/WitnessBeacon.thy ===== *)
theory WitnessBeacon
  imports InvoiceRegistry
begin

text \<open>
  The preimage beacon (\<^verbatim>\<open>src/lnd/witness_beacon.go\<close>) over the invoice registry and the
  witness cache of the channel database (\<^verbatim>\<open>channeldb/witness_cache.go\<close>), which share one
  database: the cache implements a map from hashes to preimages beside the invoices, a lookup
  consults debug invoices, invoices and the cache in this order, and the goroutines that hand a
  new preimage to the subscribers lose none.
\<close>

section \<open>The witness cache\<close>

definition Sha256HashWitness :: byte where "Sha256HashWitness = 1"

definition toDBKey :: "byte \<Rightarrow> goerr + bytes" where
  "toDBKey w = (if w = Sha256HashWitness then Inr [w] else Inl ErrUnknownWitnessType)"

definition witnessBucketKey :: bytes where "witnessBucketKey = ascii ''byte''"

definition AddWitness :: "byte \<Rightarrow> bytes \<Rightarrow> db \<Rightarrow> (goerr + unit) \<times> db" where
  "AddWitness wType witness = db_Update (
     sbind (b_CreateBucketIfNotExists [] witnessBucketKey) (\<lambda>witnessBucket.
     sbind (slift (toDBKey wType)) (\<lambda>witnessTypeBucketKey.
     sbind (b_CreateBucketIfNotExists witnessBucket witnessTypeBucketKey) (\<lambda>witnessTypeBucket.
       let witnessKey = (if wType = Sha256HashWitness then Sum256 witness else [])
       in b_Put witnessTypeBucket witnessKey witness))))"

definition LookupWitness :: "byte \<Rightarrow> bytes \<Rightarrow> db \<Rightarrow> goerr + bytes" where
  "LookupWitness wType witnessKey t =
     (case b_Bucket [] witnessBucketKey t of None \<Rightarrow> Inl ErrNoWitnesses
      | Some witnessBucket \<Rightarrow>
     (case toDBKey wType of Inl e \<Rightarrow> Inl e
      | Inr witnessTypeBucketKey \<Rightarrow>
     (case b_Bucket witnessBucket witnessTypeBucketKey t of None \<Rightarrow> Inl ErrNoWitnesses
      | Some witnessTypeBucket \<Rightarrow>
     (case b_Get witnessTypeBucket witnessKey t of None \<Rightarrow> Inl ErrNoWitnesses
      | Some dbWitness \<Rightarrow> Inr dbWitness))))"

text \<open>
  The cache stands for a map from hashes to their preimages. It is described by what the
  database holds beside the invoices, so that calls on the invoices keep it.
\<close>

definition wrepr :: "(bytes list \<Rightarrow> bytes option \<times> bool) \<Rightarrow> (bytes \<Rightarrow> bytes option) \<Rightarrow> bool" where
  "wrepr Q W \<longleftrightarrow> fst (Q [witnessBucketKey]) = None
     \<and> fst (Q [witnessBucketKey, [Sha256HashWitness]]) = None
     \<and> (\<forall>k. \<not> snd (Q [witnessBucketKey, [Sha256HashWitness], k]))
     \<and> (\<forall>k. fst (Q [witnessBucketKey, [Sha256HashWitness], k]) = W k)
     \<and> (\<forall>k w. W k = Some w \<longrightarrow> Sum256 w = k)"

lemma witness_keys [simp]:
  "witnessBucketKey \<noteq> []" "witnessBucketKey \<noteq> invoiceBucket" "invoiceBucket \<noteq> witnessBucketKey"
  by (simp_all add: witnessBucketKey_def invoiceBucket_def ascii_def)

lemma beside_witness [simp]:
  "beside_invoices t (witnessBucketKey # q) = (val_at t (witnessBucketKey # q), is_bkt t (witnessBucketKey # q))"
  by (simp add: beside_invoices_def)

lemma Sum256_nonempty [simp]: "Sum256 m \<noteq> []"
  using length_Sum256 [of m] by (metis list.size(3) zero_neq_numeral)

lemma AddWitness_eq:
  assumes R: "irepr t ivs Q" and W: "wrepr Q W"
  obtains t' where "bwf t'" "is_bkt t' = (is_bkt t)([witnessBucketKey] := True, [witnessBucketKey, [Sha256HashWitness]] := True)"
    "val_at t' = val_at t"
    "\<forall>w. AddWitness Sha256HashWitness w t
       = db_Update (\<lambda>_. b_Put [witnessBucketKey, [Sha256HashWitness]] (Sum256 w) w t') t"
proof -
  let ?b = witnessBucketKey and ?j = "[Sha256HashWitness]"
  have ok: "bwf t" "is_bkt t []" using R by (simp_all add: irepr_def)
  have none: "val_at t ([] @ [?b]) = None" "val_at t [?b, ?j] = None"
    using W R by (auto simp: wrepr_def irepr_def)
  obtain t1 where t1: "b_CreateBucketIfNotExists [] ?b t = Inr ([?b], t1)" "bwf t1"
      "is_bkt t1 = (is_bkt t)([?b] := True)" "val_at t1 = val_at t"
    using b_CreateBucketIfNotExists_succeeds [OF ok none(1)] by (auto simp: succeeds_def)
  obtain t2 where t2: "b_CreateBucketIfNotExists [?b] ?j t1 = Inr ([?b, ?j], t2)" "bwf t2"
      "is_bkt t2 = (is_bkt t1)([?b, ?j] := True)" "val_at t2 = val_at t1"
    using b_CreateBucketIfNotExists_succeeds [OF t1(2), of "[?b]" ?j] t1(3,4) none(2) by (auto simp: succeeds_def)
  show ?thesis
    using t1 t2 by (intro that [of t2]) (simp_all add: AddWitness_def db_Update_def sbind_def slift_def toDBKey_def Let_def)
qed

lemma AddWitness_too_large:
  assumes "irepr t ivs Q" "wrepr Q W" "length w > MaxValueSize"
  shows "AddWitness Sha256HashWitness w t = (Inl ErrValueTooLarge, t)"
proof -
  obtain t1 where "bwf t1" and "is_bkt t1 = (is_bkt t)([witnessBucketKey] := True, [witnessBucketKey, [Sha256HashWitness]] := True)"
      "val_at t1 = val_at t"
    and "\<forall>w. AddWitness Sha256HashWitness w t
       = db_Update (\<lambda>_. b_Put [witnessBucketKey, [Sha256HashWitness]] (Sum256 w) w t1) t"
    by (rule AddWitness_eq [OF assms(1,2)])
  with assms(3) show ?thesis by (simp add: b_Put_def db_Update_def MaxKeySize_def)
qed

lemma AddWitness_run:
  assumes R: "irepr t ivs Q" and W: "wrepr Q W" and len: "length w \<le> MaxValueSize"
  shows "\<exists>t' Q'. AddWitness Sha256HashWitness w t = (Inr (), t') \<and> irepr t' ivs Q' \<and> wrepr Q' (W(Sum256 w \<mapsto> w))"
proof -
  let ?b = witnessBucketKey and ?j = "[Sha256HashWitness]"
  have Q: "Q = beside_invoices t" and ok: "is_bkt t []" using R by (simp_all add: irepr_def)
  have none: "\<And>k. \<not> is_bkt t [?b, ?j, k]" using W by (simp add: wrepr_def Q)
  obtain t1 where t1: "bwf t1" "is_bkt t1 = (is_bkt t)([?b] := True, [?b, ?j] := True)" "val_at t1 = val_at t"
      "\<forall>w. AddWitness Sha256HashWitness w t = db_Update (\<lambda>_. b_Put [?b, ?j] (Sum256 w) w t1) t"
    by (rule AddWitness_eq [OF R W])
  obtain t2 where t2: "b_Put [?b, ?j] (Sum256 w) w t1 = Inr ((), t2)" "bwf t2" "is_bkt t2 = is_bkt t1"
      "val_at t2 = (val_at t1)([?b, ?j, Sum256 w] \<mapsto> w)"
    using b_Put_succeeds [OF t1(1), of "[?b, ?j]" "Sum256 w" w] t1(2) none len
    by (auto simp: succeeds_def MaxKeySize_def)
  have "irepr t2 ivs (beside_invoices t2)"
    using t1(2,3) t2(3,4) ok by (intro irepr_frame [OF R t2(2)]) simp_all
  moreover have "wrepr (beside_invoices t2) (W(Sum256 w \<mapsto> w))"
    using W t1(2,3) t2(3,4) by (auto simp: wrepr_def Q)
  moreover have "AddWitness Sha256HashWitness w t = (Inr (), t2)" using t2(1) t1(4) by (simp add: db_Update_def)
  ultimately show ?thesis by blast
qed

lemma LookupWitness_run:
  assumes "irepr t ivs Q" "wrepr Q W"
  shows "LookupWitness Sha256HashWitness k t = (case W k of None \<Rightarrow> Inl ErrNoWitnesses | Some w \<Rightarrow> Inr w)"
proof -
  let ?b = witnessBucketKey and ?j = "[Sha256HashWitness]"
  have val: "val_at t [?b, ?j, k] = W k" using assms by (auto simp: wrepr_def irepr_def)
  have "is_bkt t [?b, ?j] \<and> is_bkt t [?b]" if "W k \<noteq> None"
    using that val is_bkt_of_val [of t "[?b, ?j]" k "[]"] is_bkt_prefix [of t "[?b]" "[?j]"] by auto
  then show ?thesis
    using val by (auto simp: LookupWitness_def b_Bucket_def b_Get_def toDBKey_def split: option.split)
qed

section \<open>The beacon\<close>

text \<open>
  A subscriber is an object with a buffered channel, of capacity 10, and a quit channel; the
  subscriptions name the objects by their address. \<^verbatim>\<open>deliveries\<close> are the goroutines of
  \<^verbatim>\<open>AddPreimage\<close>, each with its subscriber and its preimage.
\<close>

record preimageSubscriber =
  updateChan :: "bytes list"
  quit_closed :: bool

record preimageBeacon =
  invoices :: invoiceRegistry
  clientCounter :: u64
  subscribers :: "(u64 \<times> nat) list"
  objects :: "preimageSubscriber list"
  deliveries :: "(nat \<times> bytes) multiset"

definition newPreimageBeacon :: "invoiceRegistry \<Rightarrow> preimageBeacon" where
  "newPreimageBeacon r = \<lparr>invoices = r, clientCounter = 0, subscribers = [], objects = [], deliveries = {#}\<rparr>"

text \<open>The subscription: the address of its object and the key its cancellation deletes.\<close>

definition SubscribeUpdates :: "preimageBeacon \<Rightarrow> (nat \<times> u64) \<times> preimageBeacon" where
  "SubscribeUpdates p =
     (let clientID = clientCounter p; client = length (objects p)
      in ((client, clientID),
          p\<lparr>objects := objects p @ [\<lparr>updateChan = [], quit_closed = False\<rparr>],
            subscribers := al_put clientID client (subscribers p), clientCounter := clientCounter p + 1\<rparr>))"

definition CancelSubscription :: "nat \<times> u64 \<Rightarrow> preimageBeacon \<Rightarrow> (goerr + unit) \<times> preimageBeacon" where
  "CancelSubscription sub p =
     (case sub of (client, clientID) \<Rightarrow>
       let p1 = p\<lparr>subscribers := al_del clientID (subscribers p)\<rparr>
       in if quit_closed (objects p ! client) then (Inl (GoPanic ''close of closed channel''), p1)
          else (Inr (), p1\<lparr>objects := (objects p)[client := (objects p ! client)\<lparr>quit_closed := True\<rparr>]\<rparr>))"

definition LookupPreimage :: "bytes \<Rightarrow> preimageBeacon \<Rightarrow> bytes option" where
  "LookupPreimage payHash p =
     (let invoiceKey = go_copy (replicate 32 0) payHash in
      case ir_LookupInvoice invoiceKey (invoices p) of
        Inr invoice \<Rightarrow> Some (PaymentPreimage (Terms invoice))
      | Inl e \<Rightarrow>
          if e \<noteq> ErrInvoiceNotFound then None
          else (case LookupWitness Sha256HashWitness payHash (cdb (invoices p)) of
                  Inl e \<Rightarrow> None | Inr preimage \<Rightarrow> Some preimage))"

definition AddPreimage :: "bytes \<Rightarrow> preimageBeacon \<Rightarrow> (goerr + unit) \<times> preimageBeacon" where
  "AddPreimage pre p =
     (case AddWitness Sha256HashWitness pre (cdb (invoices p)) of
        (Inl e, d) \<Rightarrow> (Inl e, p\<lparr>invoices := (invoices p)\<lparr>cdb := d\<rparr>\<rparr>)
      | (Inr _, d) \<Rightarrow> (Inr (), p\<lparr>invoices := (invoices p)\<lparr>cdb := d\<rparr>,
            deliveries := deliveries p + mset (map (\<lambda>(_, client). (client, pre)) (subscribers p))\<rparr>))"

text \<open>
  The two branches of the goroutine's \<^verbatim>\<open>select\<close>, and a receive by the subscriber. A branch
  that cannot run leaves the beacon as it is.
\<close>

definition deliver :: "nat \<Rightarrow> bytes \<Rightarrow> preimageBeacon \<Rightarrow> preimageBeacon" where
  "deliver c pre p =
     (if (c, pre) \<in># deliveries p \<and> length (updateChan (objects p ! c)) < 10
      then p\<lparr>deliveries := deliveries p - {#(c, pre)#},
             objects := (objects p)[c := (objects p ! c)\<lparr>updateChan := updateChan (objects p ! c) @ [pre]\<rparr>]\<rparr>
      else p)"

definition abandon :: "nat \<Rightarrow> bytes \<Rightarrow> preimageBeacon \<Rightarrow> preimageBeacon" where
  "abandon c pre p =
     (if (c, pre) \<in># deliveries p \<and> quit_closed (objects p ! c) then p\<lparr>deliveries := deliveries p - {#(c, pre)#}\<rparr> else p)"

definition receive :: "nat \<Rightarrow> preimageBeacon \<Rightarrow> bytes option \<times> preimageBeacon" where
  "receive c p = (case updateChan (objects p ! c) of [] \<Rightarrow> (None, p)
     | pre # rest \<Rightarrow> (Some pre, p\<lparr>objects := (objects p)[c := (objects p ! c)\<lparr>updateChan := rest\<rparr>]\<rparr>))"

section \<open>Its runs\<close>

text \<open>
  The events of a run, newest first. The subscription that is cancelled is one that was handed
  out; a second cancellation panics and ends the process, so it is not an event of a run.
\<close>

datatype beacon_event = BRegistry registry_event | BSubscribe nat u64 | BCancel nat | BAdd bytes | BAddFailed
  | BDeliver | BAbandon | BReceive nat bytes

inductive beacon_run :: "nat \<Rightarrow> beacon_event list \<Rightarrow> preimageBeacon \<Rightarrow> bool" for n :: nat where
  start: "irepr d ivs Q \<Longrightarrow> length ivs \<le> n \<Longrightarrow> wrepr Q W \<Longrightarrow> beacon_run n [] (newPreimageBeacon (newInvoiceRegistry d))"
| registry: "beacon_run n es p \<Longrightarrow> registry_step e (invoices p) r \<Longrightarrow> beacon_run n (BRegistry e # es) (p\<lparr>invoices := r\<rparr>)"
| subscribe: "beacon_run n es p \<Longrightarrow> SubscribeUpdates p = ((c, k), p') \<Longrightarrow> beacon_run n (BSubscribe c k # es) p'"
| cancel: "beacon_run n es p \<Longrightarrow> BSubscribe c k \<in> set es \<Longrightarrow> CancelSubscription (c, k) p = (Inr (), p') \<Longrightarrow>
    beacon_run n (BCancel c # es) p'"
| add: "beacon_run n es p \<Longrightarrow> AddPreimage pre p = (Inr (), p') \<Longrightarrow> beacon_run n (BAdd pre # es) p'"
| add_failed: "beacon_run n es p \<Longrightarrow> AddPreimage pre p = (Inl e, p') \<Longrightarrow> beacon_run n (BAddFailed # es) p'"
| deliver: "beacon_run n es p \<Longrightarrow> beacon_run n (BDeliver # es) (deliver c pre p)"
| abandon: "beacon_run n es p \<Longrightarrow> beacon_run n (BAbandon # es) (abandon c pre p)"
| receive: "beacon_run n es p \<Longrightarrow> c < length (objects p) \<Longrightarrow> receive c p = (Some pre, p') \<Longrightarrow>
    beacon_run n (BReceive c pre # es) p'"

text \<open>Whether a subscriber is active, the preimages added while it was, and those it has read.\<close>

fun subscribed :: "nat \<Rightarrow> beacon_event list \<Rightarrow> bool" where
  "subscribed c [] = False"
| "subscribed c (BSubscribe c' k # es) = (c' = c \<or> subscribed c es)"
| "subscribed c (BCancel c' # es) = (c' \<noteq> c \<and> subscribed c es)"
| "subscribed c (e # es) = subscribed c es"

fun owed :: "nat \<Rightarrow> beacon_event list \<Rightarrow> bytes multiset" where
  "owed c [] = {#}"
| "owed c (BAdd pre # es) = (if subscribed c es then add_mset pre (owed c es) else owed c es)"
| "owed c (e # es) = owed c es"

fun got :: "nat \<Rightarrow> beacon_event list \<Rightarrow> bytes multiset" where
  "got c [] = {#}"
| "got c (BReceive c' pre # es) = (if c' = c then add_mset pre (got c es) else got c es)"
| "got c (e # es) = got c es"

definition pending_for :: "nat \<Rightarrow> (nat \<times> bytes) multiset \<Rightarrow> bytes multiset" where
  "pending_for c D = image_mset snd (filter_mset (\<lambda>d. fst d = c) D)"

text \<open>Every object of an active subscriber is listed once, under its own number.\<close>

definition pool_ok :: "beacon_event list \<Rightarrow> preimageBeacon \<Rightarrow> bool" where
  "pool_ok es p \<longleftrightarrow> length (objects p) \<le> length es \<and> clientCounter p = word_of_nat (length (objects p))
     \<and> subscribers p = map (\<lambda>c. (word_of_nat c, c)) (filter (\<lambda>c. \<not> quit_closed (objects p ! c)) [0..<length (objects p)])
     \<and> (\<forall>c k. BSubscribe c k \<in> set es \<longrightarrow> c < length (objects p) \<and> k = word_of_nat c)
     \<and> (\<forall>d \<in># deliveries p. fst d < length (objects p))"

definition fair_ok :: "beacon_event list \<Rightarrow> preimageBeacon \<Rightarrow> bool" where
  "fair_ok es p \<longleftrightarrow> (\<forall>c. subscribed c es \<longleftrightarrow> c < length (objects p) \<and> \<not> quit_closed (objects p ! c))
     \<and> (\<forall>c. c < length (objects p) \<longrightarrow> length (updateChan (objects p ! c)) \<le> 10)
     \<and> (\<forall>c. subscribed c es \<longrightarrow> owed c es = got c es + mset (updateChan (objects p ! c)) + pending_for c (deliveries p))
     \<and> (\<forall>c. length (objects p) \<le> c \<longrightarrow> owed c es = {#} \<and> got c es = {#})"

lemma pending_new:
  "distinct cs \<Longrightarrow> pending_for c (D + mset (map (\<lambda>c. (c, pre)) cs)) = (if c \<in> set cs then add_mset pre (pending_for c D) else pending_for c D)"
  by (induction cs) (auto simp: pending_for_def)

lemma pending_done:
  assumes "(c', pre) \<in># D"
  shows "pending_for c D = (if c' = c then add_mset pre (pending_for c (D - {#(c', pre)#})) else pending_for c (D - {#(c', pre)#}))"
proof -
  obtain E where "D = add_mset (c', pre) E" using assms by (metis insert_DiffM)
  then show ?thesis by (simp add: pending_for_def)
qed

lemma pool_word_inj:
  fixes a b :: nat
  assumes "a < 2 ^ 32" "b < 2 ^ 32"
  shows "(word_of_nat a :: u64) < word_of_nat b \<longleftrightarrow> a < b" "(word_of_nat a :: u64) = word_of_nat b \<longleftrightarrow> a = b"
  using assms by (simp_all add: word_less_nat_alt word_unat_eq_iff unat_of_nat)

lemma al_put_snoc: "(\<And>e. e \<in> set es \<Longrightarrow> fst e < k) \<Longrightarrow> al_put k v es = es @ [(k, v)]"
  by (induction k v es rule: al_put.induct) force+

lemma pool_ok_subscribe:
  assumes ok: "pool_ok es p" and n: "length es < 2 ^ 32" and step: "SubscribeUpdates p = ((c, k), p')"
  shows "pool_ok (BSubscribe c k # es) p'" "c = length (objects p)"
    "objects p' = objects p @ [\<lparr>updateChan = [], quit_closed = False\<rparr>]" "deliveries p' = deliveries p" "invoices p' = invoices p"
proof -
  let ?m = "length (objects p)" and ?obj = "\<lparr>updateChan = [], quit_closed = False\<rparr>"
  have p': "c = ?m" "k = word_of_nat ?m" "p' = p\<lparr>objects := objects p @ [?obj],
      subscribers := al_put (word_of_nat ?m) ?m (subscribers p), clientCounter := word_of_nat (Suc ?m)\<rparr>"
    using step ok by (auto simp: SubscribeUpdates_def Let_def pool_ok_def add.commute)
  then show "c = ?m" "objects p' = objects p @ [?obj]" "deliveries p' = deliveries p" "invoices p' = invoices p" by simp_all
  have m: "?m < 2 ^ 32" using ok n by (simp add: pool_ok_def)
  have "al_put (word_of_nat ?m) ?m (subscribers p) = subscribers p @ [(word_of_nat ?m, ?m)]"
    using ok m by (intro al_put_snoc) (auto simp: pool_ok_def pool_word_inj)
  moreover have "filter (\<lambda>c. \<not> quit_closed ((objects p @ [?obj]) ! c)) [0..<?m]
      = filter (\<lambda>c. \<not> quit_closed (objects p ! c)) [0..<?m]"
    by (rule filter_cong) (simp_all add: nth_append)
  ultimately show "pool_ok (BSubscribe c k # es) p'"
    using ok by (auto simp: pool_ok_def p' less_Suc_eq)
qed

lemma al_del_map_filter:
  assumes "inj_on f (insert c (set xs))"
  shows "al_del (f c) (map (\<lambda>c. (f c, c)) xs) = map (\<lambda>c. (f c, c)) (filter (\<lambda>x. x \<noteq> c) xs)"
  using assms by (induction xs) (auto simp: al_del_def inj_on_def)

lemma pool_ok_cancel:
  assumes ok: "pool_ok es p" and n: "length es < 2 ^ 32" and sub: "BSubscribe c k \<in> set es"
    and step: "CancelSubscription (c, k) p = (Inr (), p')"
  shows "pool_ok (BCancel c # es) p'" "c < length (objects p)" "\<not> quit_closed (objects p ! c)"
    "objects p' = (objects p)[c := (objects p ! c)\<lparr>quit_closed := True\<rparr>]" "deliveries p' = deliveries p" "invoices p' = invoices p"
proof -
  let ?m = "length (objects p)" and ?q = "\<lambda>c. \<not> quit_closed (objects p ! c)"
  have c: "c < ?m" "k = word_of_nat c" using ok sub by (auto simp: pool_ok_def)
  have open_c: "?q c" and p': "p' = p\<lparr>subscribers := al_del k (subscribers p),
      objects := (objects p)[c := (objects p ! c)\<lparr>quit_closed := True\<rparr>]\<rparr>"
    using step by (auto simp: CancelSubscription_def Let_def split: if_splits)
  then show "c < ?m" "\<not> quit_closed (objects p ! c)" "objects p' = (objects p)[c := (objects p ! c)\<lparr>quit_closed := True\<rparr>]"
    "deliveries p' = deliveries p" "invoices p' = invoices p" using c(1) by simp_all
  have m: "?m < 2 ^ 32" using ok n by (simp add: pool_ok_def)
  then have inj: "inj_on (word_of_nat :: nat \<Rightarrow> u64) (insert c (set (filter ?q [0..<?m])))"
    using c(1) by (auto simp: inj_on_def pool_word_inj)
  have "al_del k (subscribers p) = map (\<lambda>c. (word_of_nat c, c)) (filter (\<lambda>x. x \<noteq> c) (filter ?q [0..<?m]))"
    using al_del_map_filter [OF inj] ok c(2) by (simp add: pool_ok_def)
  moreover have "filter (\<lambda>x. x \<noteq> c) (filter ?q [0..<?m]) =
      filter (\<lambda>x. \<not> quit_closed ((objects p)[c := (objects p ! c)\<lparr>quit_closed := True\<rparr>] ! x)) [0..<?m]"
    using c(1) by (auto simp: nth_list_update intro!: filter_cong)
  ultimately show "pool_ok (BCancel c # es) p'" using ok by (auto simp: pool_ok_def p')
qed

text \<open>Steps that neither open nor close a subscription.\<close>

lemma pool_ok_other:
  assumes "pool_ok es p" "\<And>c k. e \<noteq> BSubscribe c k" "clientCounter p' = clientCounter p" "subscribers p' = subscribers p"
    "length (objects p') = length (objects p)" "\<And>c. c < length (objects p) \<Longrightarrow> quit_closed (objects p' ! c) = quit_closed (objects p ! c)"
    "\<And>d. d \<in># deliveries p' \<Longrightarrow> d \<in># deliveries p \<or> fst d \<in> snd ` set (subscribers p)"
  shows "pool_ok (e # es) p'"
proof -
  have "filter (\<lambda>c. \<not> quit_closed (objects p' ! c)) [0..<length (objects p)]
      = filter (\<lambda>c. \<not> quit_closed (objects p ! c)) [0..<length (objects p)]"
    using assms(6) by (intro filter_cong) simp_all
  moreover have "fst d < length (objects p)" if "d \<in># deliveries p'" for d
    using assms(1,7) that by (fastforce simp: pool_ok_def)
  ultimately show ?thesis using assms(1-5) by (auto simp: pool_ok_def)
qed

lemma fair_ok_subscribe:
  assumes "pool_ok es p" "fair_ok es p" "length es < 2 ^ 32" "SubscribeUpdates p = ((c, k), p')"
  shows "fair_ok (BSubscribe c k # es) p'"
proof -
  note p' = pool_ok_subscribe [OF assms(1,3,4)]
  have "pending_for (length (objects p)) (deliveries p) = {#}"
    using assms(1) by (auto simp: pool_ok_def pending_for_def filter_mset_eq_conv)
  then show ?thesis
    using assms(2) p' unfolding fair_ok_def by (auto simp: nth_append less_Suc_eq)
qed

lemma fair_ok_cancel:
  assumes "pool_ok es p" "fair_ok es p" "length es < 2 ^ 32" "BSubscribe c k \<in> set es"
    "CancelSubscription (c, k) p = (Inr (), p')"
  shows "fair_ok (BCancel c # es) p'"
  using pool_ok_cancel [OF assms(1,3,4,5)] assms(2) by (auto simp: fair_ok_def nth_list_update)

lemma fair_ok_add:
  assumes "pool_ok es p" "fair_ok es p" "objects p' = objects p"
    "deliveries p' = deliveries p + mset (map (\<lambda>(_, client). (client, pre)) (subscribers p))"
  shows "fair_ok (BAdd pre # es) p'"
proof -
  let ?cs = "filter (\<lambda>c. \<not> quit_closed (objects p ! c)) [0..<length (objects p)]"
  have "map (\<lambda>(_, client). (client, pre)) (subscribers p) = map (\<lambda>c. (c, pre)) ?cs"
    using assms(1) by (simp add: pool_ok_def)
  then have "pending_for c (deliveries p') = (if subscribed c es then add_mset pre (pending_for c (deliveries p)) else pending_for c (deliveries p))" for c
    using assms(2,4) pending_new [of ?cs c "deliveries p" pre] by (simp add: fair_ok_def)
  then show ?thesis using assms(2,3) by (auto simp: fair_ok_def)
qed

lemma fair_ok_deliver: "pool_ok es p \<Longrightarrow> fair_ok es p \<Longrightarrow> fair_ok (BDeliver # es) (deliver c pre p)"
proof (cases "(c, pre) \<in># deliveries p \<and> length (updateChan (objects p ! c)) < 10")
  case True
  assume ok: "pool_ok es p" "fair_ok es p"
  then have "c < length (objects p)" using True by (auto simp: pool_ok_def)
  then show ?thesis
    using ok(2) True pending_done [of c pre "deliveries p"] by (auto simp: fair_ok_def deliver_def nth_list_update)
next
  case False
  assume "fair_ok es p"
  with False show ?thesis by (auto simp: fair_ok_def deliver_def)
qed

lemma deliver_frame [simp]:
  "clientCounter (deliver c pre p) = clientCounter p" "subscribers (deliver c pre p) = subscribers p"
  "length (objects (deliver c pre p)) = length (objects p)"
  "x < length (objects p) \<Longrightarrow> quit_closed (objects (deliver c pre p) ! x) = quit_closed (objects p ! x)"
  by (cases "x = c"; simp add: deliver_def)+

lemma deliver_deliveries: "d \<in># deliveries (deliver c pre p) \<Longrightarrow> d \<in># deliveries p"
  by (auto simp: deliver_def dest: in_diffD split: if_splits)

lemma fair_ok_abandon: "fair_ok es p \<Longrightarrow> fair_ok (BAbandon # es) (abandon c pre p)"
  using pending_done [of c pre "deliveries p"] by (auto simp: fair_ok_def abandon_def)

lemma fair_ok_receive:
  assumes "fair_ok es p" "c < length (objects p)" "receive c p = (Some pre, p')"
  shows "fair_ok (BReceive c pre # es) p'"
proof -
  obtain rest where "updateChan (objects p ! c) = pre # rest"
      "p' = p\<lparr>objects := (objects p)[c := (objects p ! c)\<lparr>updateChan := rest\<rparr>]\<rparr>"
    using assms(3) by (auto simp: receive_def split: list.splits)
  then show ?thesis using assms(1,2) by (auto simp: fair_ok_def nth_list_update)
qed

section \<open>The invariant\<close>

definition beacon_ok :: "nat \<Rightarrow> beacon_event list \<Rightarrow> preimageBeacon \<Rightarrow> Invoice list \<Rightarrow> (bytes \<Rightarrow> bytes option) \<Rightarrow> bool" where
  "beacon_ok n es p ivs W \<longleftrightarrow> (\<exists>Q. registry_ok (n + length es) (invoices p) ivs Q \<and> wrepr Q W) \<and> pool_ok es p \<and> fair_ok es p"

lemma registry_ok_cdb:
  "registry_ok n r ivs Q \<Longrightarrow> irepr d ivs Q' \<Longrightarrow> registry_ok n (r\<lparr>cdb := d\<rparr>) ivs Q'"
  by (simp add: registry_ok_def clients_ok_def debug_ok_def notices_ok_def)

lemma AddPreimage_cases:
  assumes "registry_ok n (invoices p) ivs Q" "wrepr Q W" "AddPreimage pre p = (res, p')"
  shows "\<exists>Q'. registry_ok n (invoices p') ivs Q' \<and> objects p' = objects p \<and> subscribers p' = subscribers p
      \<and> clientCounter p' = clientCounter p \<and>
     (if length pre \<le> MaxValueSize
      then res = Inr () \<and> wrepr Q' (W(Sum256 pre \<mapsto> pre))
         \<and> deliveries p' = deliveries p + mset (map (\<lambda>(_, client). (client, pre)) (subscribers p))
      else res = Inl ErrValueTooLarge \<and> wrepr Q' W \<and> p' = p)"
proof (cases "length pre \<le> MaxValueSize")
  case True
  have R: "irepr (cdb (invoices p)) ivs Q" using assms(1) by (simp add: registry_ok_def)
  obtain d Q' where "AddWitness Sha256HashWitness pre (cdb (invoices p)) = (Inr (), d)" "irepr d ivs Q'"
      "wrepr Q' (W(Sum256 pre \<mapsto> pre))"
    using AddWitness_run [OF R assms(2) True] by blast
  then show ?thesis
    using True assms(3) registry_ok_cdb [OF assms(1)] by (intro exI [of _ Q']) (auto simp: AddPreimage_def)
next
  case False
  have R: "irepr (cdb (invoices p)) ivs Q" using assms(1) by (simp add: registry_ok_def)
  have "AddWitness Sha256HashWitness pre (cdb (invoices p)) = (Inl ErrValueTooLarge, cdb (invoices p))"
    using AddWitness_too_large [OF R assms(2)] False by simp
  then show ?thesis using False assms by (auto simp: AddPreimage_def)
qed

lemma AddPreimage_accepts:
  assumes "registry_ok n (invoices p) ivs Q" "wrepr Q W" "length pre \<le> MaxValueSize"
  obtains p' where "AddPreimage pre p = (Inr (), p')"
  using AddPreimage_cases [OF assms(1,2), of pre] assms(3) by (cases "AddPreimage pre p") auto

lemma beacon_okI:
  "registry_ok (n + length es) (invoices p') ivs Q \<Longrightarrow> wrepr Q W \<Longrightarrow> pool_ok (e # es) p' \<Longrightarrow> fair_ok (e # es) p' \<Longrightarrow>
    \<exists>ivs W. beacon_ok n (e # es) p' ivs W"
  using registry_ok_Suc unfolding beacon_ok_def by fastforce

lemma beacon_run_ok:
  "beacon_run n es p \<Longrightarrow> n + length es < 2 ^ 32 \<Longrightarrow> \<exists>ivs W. beacon_ok n es p ivs W"
proof (induction rule: beacon_run.induct)
  case (start d ivs Q W)
  then have "registry_ok n (newInvoiceRegistry d) ivs Q"
    by (simp add: registry_ok_def newInvoiceRegistry_def clients_ok_def debug_ok_def notices_ok_def al_sorted_def)
  with start(3) have "beacon_ok n [] (newPreimageBeacon (newInvoiceRegistry d)) ivs W"
    by (auto simp: beacon_ok_def newPreimageBeacon_def pool_ok_def fair_ok_def)
  then show ?case by blast
next
  case (registry es p e r)
  then obtain ivs W Q where ok: "registry_ok (n + length es) (invoices p) ivs Q" "wrepr Q W" "pool_ok es p" "fair_ok es p"
    by (auto simp: beacon_ok_def)
  obtain ivs' where "registry_ok (Suc (n + length es)) r ivs' Q"
    using registry_ok_step [OF ok(1) _ registry(2)] registry.prems by auto
  moreover have "pool_ok (BRegistry e # es) (p\<lparr>invoices := r\<rparr>)" by (rule pool_ok_other [OF ok(3)]) simp_all
  moreover have "fair_ok (BRegistry e # es) (p\<lparr>invoices := r\<rparr>)" using ok(4) by (simp add: fair_ok_def)
  ultimately show ?case using ok(2) by (auto simp: beacon_ok_def)
next
  case (subscribe es p c k p')
  then obtain ivs W Q where ok: "registry_ok (n + length es) (invoices p) ivs Q" "wrepr Q W" "pool_ok es p" "fair_ok es p"
    by (auto simp: beacon_ok_def)
  have n: "length es < 2 ^ 32" using subscribe.prems by simp
  show ?case
    using pool_ok_subscribe [OF ok(3) n subscribe(2)] fair_ok_subscribe [OF ok(3,4) n subscribe(2)] ok(1,2)
    by (intro beacon_okI) auto
next
  case (cancel es p c k p')
  then obtain ivs W Q where ok: "registry_ok (n + length es) (invoices p) ivs Q" "wrepr Q W" "pool_ok es p" "fair_ok es p"
    by (auto simp: beacon_ok_def)
  have n: "length es < 2 ^ 32" using cancel.prems by simp
  show ?case
    using pool_ok_cancel [OF ok(3) n cancel(2,3)] fair_ok_cancel [OF ok(3,4) n cancel(2,3)] ok(1,2)
    by (intro beacon_okI) auto
next
  case (add es p pre p')
  then obtain ivs W Q where ok: "registry_ok (n + length es) (invoices p) ivs Q" "wrepr Q W" "pool_ok es p" "fair_ok es p"
    by (auto simp: beacon_ok_def)
  obtain Q' where p': "registry_ok (n + length es) (invoices p') ivs Q'" "wrepr Q' (W(Sum256 pre \<mapsto> pre))"
      "objects p' = objects p" "subscribers p' = subscribers p" "clientCounter p' = clientCounter p"
      "deliveries p' = deliveries p + mset (map (\<lambda>(_, client). (client, pre)) (subscribers p))"
    using AddPreimage_cases [OF ok(1,2) add(2)] by (auto split: if_splits)
  have "pool_ok (BAdd pre # es) p'" using p' by (intro pool_ok_other [OF ok(3)]) force+
  with p'(1,2) fair_ok_add [OF ok(3,4) p'(3,6)] show ?case by (intro beacon_okI)
next
  case (add_failed es p pre e p')
  then obtain ivs W Q where ok: "registry_ok (n + length es) (invoices p) ivs Q" "wrepr Q W" "pool_ok es p" "fair_ok es p"
    by (auto simp: beacon_ok_def)
  have "p' = p" using AddPreimage_cases [OF ok(1,2) add_failed(2)] by (auto split: if_splits)
  moreover have "pool_ok (BAddFailed # es) p" by (rule pool_ok_other [OF ok(3)]) simp_all
  moreover have "fair_ok (BAddFailed # es) p" using ok(4) by (simp add: fair_ok_def)
  ultimately show ?case using ok(1,2) by (intro beacon_okI) simp_all
next
  case (deliver es p c pre)
  then obtain ivs W Q where ok: "registry_ok (n + length es) (invoices p) ivs Q" "wrepr Q W" "pool_ok es p" "fair_ok es p"
    by (auto simp: beacon_ok_def)
  have "pool_ok (BDeliver # es) (deliver c pre p)"
    by (rule pool_ok_other [OF ok(3)]) (auto dest: deliver_deliveries)
  moreover have "invoices (deliver c pre p) = invoices p" by (simp add: deliver_def)
  ultimately show ?case using fair_ok_deliver [OF ok(3,4)] ok(1,2) by (intro beacon_okI) simp_all
next
  case (abandon es p c pre)
  then obtain ivs W Q where ok: "registry_ok (n + length es) (invoices p) ivs Q" "wrepr Q W" "pool_ok es p" "fair_ok es p"
    by (auto simp: beacon_ok_def)
  have "pool_ok (BAbandon # es) (abandon c pre p)"
    by (rule pool_ok_other [OF ok(3)]) (auto simp: abandon_def dest: in_diffD split: if_splits)
  moreover have "invoices (abandon c pre p) = invoices p" by (simp add: abandon_def)
  ultimately show ?case using fair_ok_abandon [OF ok(4)] ok(1,2) by (intro beacon_okI) simp_all
next
  case (receive es p c pre p')
  then obtain ivs W Q where ok: "registry_ok (n + length es) (invoices p) ivs Q" "wrepr Q W" "pool_ok es p" "fair_ok es p"
    by (auto simp: beacon_ok_def)
  have "pool_ok (BReceive c pre # es) p'"
    using receive(2,3) by (intro pool_ok_other [OF ok(3)]) (auto simp: receive_def nth_list_update split: list.splits if_splits)
  moreover have "invoices p' = invoices p" using receive(3) by (auto simp: receive_def split: list.splits)
  ultimately show ?case using fair_ok_receive [OF ok(4) receive(2,3)] ok(1,2) by (intro beacon_okI) simp_all
qed

section \<open>Lookups\<close>

lemma LookupPreimage_run:
  assumes "registry_ok n (invoices p) ivs Q" "wrepr Q W" "length h = 32"
  shows "LookupPreimage h p = (case debugInvoices (invoices p) h of Some i \<Rightarrow> Some (PaymentPreimage (Terms i))
     | None \<Rightarrow> if ivs = [] then None
         else (case find_invoice h ivs of Some i \<Rightarrow> Some (PaymentPreimage (Terms i)) | None \<Rightarrow> W h))"
proof -
  have R: "irepr (cdb (invoices p)) ivs Q" using assms(1) by (simp add: registry_ok_def)
  have "go_copy (replicate 32 0) h = h" using assms(3) by (simp add: go_copy_def)
  then show ?thesis
    using db_LookupInvoice_run [OF R assms(3)] LookupWitness_run [OF R assms(2)]
    by (auto simp: LookupPreimage_def ir_LookupInvoice_def split: option.split)
qed

end
