(* ===== verification/BeaconProps.thy ===== *)
theory BeaconProps
  imports WitnessBeacon
begin

text \<open>
  What the invoices, the invoice registry and the preimage beacon promise, with the smallest
  run as a witness: a node that adds an invoice, settles it and learns a preimage.
\<close>

section \<open>A small run\<close>

definition demo_invoice :: "byte \<Rightarrow> Invoice" where
  "demo_invoice b = \<lparr>Memo = [], Receipt = [], PaymentRequest = [], CreationDate = zero_time, SettleDate = zero_time,
     Terms = \<lparr>PaymentPreimage = replicate 32 b, term_Value = 1000, Settled = False\<rparr>\<rparr>"

lemma valid_zero_time [simp]: "valid_time zero_time"
  by (simp add: valid_time_def offsetMin_def zero_time_def)

lemma admissible_demo [simp]: "admissible (demo_invoice b)"
  by (simp add: admissible_def demo_invoice_def)

lemma valid_demo [simp]: "validateInvoice (demo_invoice b) = Inr ()" "valid_invoice (demo_invoice b)"
  by (simp_all add: validateInvoice_def valid_invoice_def demo_invoice_def)

lemma length_demo_preimage: "length [7 :: byte] \<le> MaxValueSize"
  by (simp add: MaxValueSize_def)

lemma irepr_empty: "irepr empty_db [] (beside_invoices empty_db)"
  by (simp add: irepr_def wf_invoices_def al_sorted_def)

lemma wrepr_empty: "wrepr (beside_invoices empty_db) Map.empty"
  by (simp add: wrepr_def)

lemma demo_spec: "add_spec (demo_invoice 1) [] = (Inr (), [demo_invoice 1])"
  by (simp add: add_spec_def find_invoice_def)

definition demo_idb :: db where
  "demo_idb = snd (db_AddInvoice (demo_invoice 1) empty_db)"

lemma irepr_demo: "irepr demo_idb [demo_invoice 1] (beside_invoices empty_db)"
  using db_AddInvoice_spec [OF irepr_empty admissible_demo, of 1] by (simp add: demo_idb_def demo_spec)

section \<open>The invoices\<close>

text \<open>
  C29. Calls of \<^verbatim>\<open>AddInvoice\<close> and \<^verbatim>\<open>SettleInvoice\<close>, in any number and order, whose arguments can be
  stored (\<open>call_ok\<close>: dates that \<^verbatim>\<open>MarshalBinary\<close> accepts, preimages and hashes of 32 bytes) return
  what the same calls on a list of invoices return, as long as the 32-bit numbers of the invoices
  do not run out, and afterwards lookups and listings answer
  from that list: an invoice is added once per payment hash, errors change nothing, settling is
  idempotent. No invoice that could be found is lost or changed but for its first settlement,
  and the rest of the database is untouched.
\<close>

theorem invoices_refine_list:
  assumes R: "irepr t ivs Q" and cs: "list_all call_ok cs" "length ivs + length cs \<le> 2 ^ 32"
    and run: "run_calls db_call cs t = (rs, t')" and spec: "run_calls invoice_spec cs ivs = (rs', ivs')"
  shows "rs = rs' \<and> beside_invoices t' = beside_invoices t
    \<and> (\<forall>h. length h = 32 \<longrightarrow> db_LookupInvoice h t' = lookup_spec h ivs')
    \<and> (ivs' \<noteq> [] \<longrightarrow> (\<forall>pendingOnly. db_FetchAllInvoices pendingOnly t'
         = Inr (filter (\<lambda>i. \<not> (pendingOnly \<and> Settled (Terms i))) ivs')))
    \<and> (\<forall>h i. find_invoice h ivs = Some i \<longrightarrow> (\<exists>j. find_invoice h ivs' = Some j \<and> keeps_invoice i j))"
proof -
  have *: "rs = rs'" "irepr t' ivs' Q" using invdb.calls_refine [OF R cs] run spec by simp_all
  moreover have "db_LookupInvoice h t' = lookup_spec h ivs'" if "length h = 32" for h
    by (rule invdb.lookup_law [OF *(2) that])
  moreover have "\<exists>j. find_invoice h ivs' = Some j \<and> keeps_invoice i j" if "find_invoice h ivs = Some i" for h i
    using invoice_specs_keep [OF that, of cs] spec by simp
  moreover have "beside_invoices t' = beside_invoices t" using R *(2) by (simp add: irepr_def)
  ultimately show ?thesis using db_FetchAllInvoices_run [OF *(2)] irepr_has_buckets [OF *(2)] by simp
qed

theorem invoices_refine_list_witness:
  "fst (run_calls db_call [Add_call (demo_invoice 1), Settle_call zero_time (paymentHash (demo_invoice 1)),
      Add_call (demo_invoice 1)] empty_db) = [Inr (), Inr (), Inl ErrDuplicateInvoice]"
  using invoices_refine_list [OF irepr_empty, of
      "[Add_call (demo_invoice 1), Settle_call zero_time (paymentHash (demo_invoice 1)), Add_call (demo_invoice 1)]"]
  by (simp add: demo_spec settle_spec_def add_spec_def settle_in_def find_invoice_def prod_eq_iff)

section \<open>The registry\<close>

text \<open>The goroutines that announce a settlement, step by step.\<close>

lemma registry_step_settling:
  assumes "registry_step e r r'"
  shows "case e of
      RSettle now h \<Rightarrow>
        settling r' = (if debugInvoices r h = None \<and> fst (ir_SettleInvoice now h r) = Inr ()
                       then add_mset h (settling r) else settling r) \<and> sends r' = sends r
    | RNotify h \<Rightarrow> settling r = add_mset h (settling r') \<and> sends r' = sends (announceSettled h r)
    | _ \<Rightarrow> settling r' = settling r"
  using assms
  by cases (auto simp: AddDebugInvoice_def ir_AddInvoice_def ir_SettleInvoice_def announceSettled_def notifyClients_def
      SubscribeNotifications_def Cancel_def Let_def split: prod.split sum.split)

text \<open>
  C32. A settlement is announced. In every state a registry reaches, a call of \<^verbatim>\<open>SettleInvoice\<close>
  that succeeds, for an invoice that is no debug invoice, starts exactly one goroutine, and
  nothing else starts or ends one but its own announcement; each goroutine finds its invoice,
  settled, and starts exactly one send of it to the channel for settled invoices of every client
  that is registered then, and no other; and whatever is being sent is a settled invoice that is
  in the database.
\<close>

theorem settled_invoices_announced:
  assumes "registry_reach n r" "n < 2 ^ 32"
  shows "(\<forall>e r'. registry_step e r r' \<longrightarrow>
        (case e of
           RSettle now h \<Rightarrow>
             settling r' = (if debugInvoices r h = None \<and> fst (ir_SettleInvoice now h r) = Inr ()
                            then add_mset h (settling r) else settling r) \<and> sends r' = sends r
         | RNotify h \<Rightarrow> settling r = add_mset h (settling r') \<and> sends r' = sends (announceSettled h r)
         | _ \<Rightarrow> settling r' = settling r))
    \<and> (\<forall>(c, i) \<in># sends r. Settled (Terms i) \<and> db_LookupInvoice (paymentHash i) (cdb r) = Inr i)
    \<and> (\<forall>h \<in># settling r. \<exists>i. db_LookupInvoice h (cdb r) = Inr i \<and> Settled (Terms i) \<and> paymentHash i = h
        \<and> (\<forall>(k, s) \<in> set (notificationClients r).
             count (sends (announceSettled h r)) (SettledInvoices s, i) = Suc (count (sends r) (SettledInvoices s, i)))
        \<and> (\<forall>c j. j \<noteq> i \<or> c \<notin> SettledInvoices ` snd ` set (notificationClients r) \<longrightarrow>
             count (sends (announceSettled h r)) (c, j) = count (sends r) (c, j)))"
proof -
  obtain ivs Q where ok: "irepr (cdb r) ivs Q" "clients_ok n r" "notices_ok ivs r"
    using registry_reach_ok [OF assms] by (auto simp: registry_ok_def)
  have look: "db_LookupInvoice h (cdb r) = Inr i" if "length h = 32" "find_invoice h ivs = Some i" for h i
    using that db_LookupInvoice_run [OF ok(1) that(1)] by (auto simp: find_invoice_def)
  have "\<exists>i. db_LookupInvoice h (cdb r) = Inr i \<and> Settled (Terms i) \<and> paymentHash i = h
        \<and> (\<forall>(k, s) \<in> set (notificationClients r).
             count (sends (announceSettled h r)) (SettledInvoices s, i) = Suc (count (sends r) (SettledInvoices s, i)))
        \<and> (\<forall>c j. j \<noteq> i \<or> c \<notin> SettledInvoices ` snd ` set (notificationClients r) \<longrightarrow>
             count (sends (announceSettled h r)) (c, j) = count (sends r) (c, j))" if "h \<in># settling r" for h
  proof -
    obtain i where i: "length h = 32" "find_invoice h ivs = Some i" "Settled (Terms i)"
      using ok(3) \<open>h \<in># settling r\<close> unfolding notices_ok_def by blast
    note run = announceSettled_run [OF ok(1) i(1,2)]
    have "count (sends (announceSettled h r)) (c, j) = count (sends r) (c, j)"
      if "j \<noteq> i \<or> c \<notin> SettledInvoices ` snd ` set (notificationClients r)" for c j
      unfolding run by (rule count_notify_other) (use that in force)
    then show ?thesis
      using look [OF i(1,2)] i(3) paymentHash_found [OF i(2)] count_notify [OF ok(2), where i = i] unfolding run by fast
  qed
  moreover have "Settled (Terms i) \<and> db_LookupInvoice (paymentHash i) (cdb r) = Inr i" if "(c, i) \<in># sends r" for c i
    using ok(3) that look [of "paymentHash i" i] unfolding notices_ok_def by fastforce
  ultimately show ?thesis using registry_step_settling by blast
qed

definition demo_registry :: invoiceRegistry where
  "demo_registry = snd (ir_SettleInvoice zero_time (paymentHash (demo_invoice 1)) (snd (SubscribeNotifications (newInvoiceRegistry demo_idb))))"

lemma demo_registry_reach: "registry_reach 3 demo_registry"
proof -
  have "registry_reach 1 (newInvoiceRegistry demo_idb)" by (rule registry_reach.start [OF irepr_demo]) simp
  then have "registry_reach (Suc (Suc 1)) demo_registry"
    unfolding demo_registry_def
    by (intro registry_reach.step [OF registry_reach.step [OF _ registry_step.subscribe] registry_step.settle]) simp_all
  then show ?thesis by (simp add: numeral_3_eq_3)
qed

lemma demo_registry_fields:
  "settling demo_registry = {#paymentHash (demo_invoice 1)#}"
  "notificationClients demo_registry = [(0, \<lparr>NewInvoices = 0, SettledInvoices = 1, sub_id = 0\<rparr>)]"
  "sends demo_registry = {#}"
proof -
  have "fst (db_SettleInvoice zero_time (paymentHash (demo_invoice 1)) demo_idb) = Inr ()"
    using db_SettleInvoice_spec [OF irepr_demo valid_zero_time, of "paymentHash (demo_invoice 1)"]
    by (simp add: settle_spec_def find_invoice_def)
  then show "settling demo_registry = {#paymentHash (demo_invoice 1)#}"
      "notificationClients demo_registry = [(0, \<lparr>NewInvoices = 0, SettledInvoices = 1, sub_id = 0\<rparr>)]"
      "sends demo_registry = {#}"
    by (auto simp: demo_registry_def ir_SettleInvoice_def SubscribeNotifications_def newInvoiceRegistry_def Let_def
        split: prod.splits sum.splits)
qed

theorem settled_invoices_announced_witness:
  "settling demo_registry = {#paymentHash (demo_invoice 1)#} \<and> (\<exists>i. Settled (Terms i) \<and> paymentHash i = paymentHash (demo_invoice 1)
     \<and> count (sends (announceSettled (paymentHash (demo_invoice 1)) demo_registry)) (1, i) = 1)"
  using settled_invoices_announced [OF demo_registry_reach] by (fastforce simp: demo_registry_fields)

section \<open>The beacon\<close>

text \<open>
  C30. The beacon never hands out a wrong preimage: in every state it reaches, whatever a lookup
  of a payment hash returns hashes to it.
\<close>

theorem preimage_lookup_sound:
  assumes "beacon_run n es p" "n + length es < 2 ^ 32" "length h = 32" "LookupPreimage h p = Some pre"
  shows "Sum256 pre = h"
proof -
  obtain ivs W Q where ok: "registry_ok (n + length es) (invoices p) ivs Q" "wrepr Q W"
    using beacon_run_ok [OF assms(1,2)] by (auto simp: beacon_ok_def)
  have "debug_ok (invoices p)" using ok(1) by (simp add: registry_ok_def)
  then show ?thesis
    using LookupPreimage_run [OF ok assms(3)] assms(4) ok(2) paymentHash_found [of h ivs]
    by (fastforce simp: debug_ok_def wrepr_def paymentHash_def split: option.splits if_splits)
qed

definition demo_beacon :: preimageBeacon where
  "demo_beacon = newPreimageBeacon (newInvoiceRegistry demo_idb)"

lemma demo_beacon_run: "beacon_run 1 [] demo_beacon"
  unfolding demo_beacon_def by (rule beacon_run.start [OF irepr_demo _ wrepr_empty]) simp

lemma registry_ok_new: "irepr d ivs Q \<Longrightarrow> registry_ok (length ivs) (newInvoiceRegistry d) ivs Q"
  by (simp add: registry_ok_def newInvoiceRegistry_def clients_ok_def debug_ok_def notices_ok_def al_sorted_def)

lemma demo_beacon_registry: "registry_ok 1 (invoices demo_beacon) [demo_invoice 1] (beside_invoices empty_db)"
  using registry_ok_new [OF irepr_demo] by (simp add: demo_beacon_def newPreimageBeacon_def)

theorem preimage_lookup_sound_witness:
  "LookupPreimage (paymentHash (demo_invoice 1)) demo_beacon = Some (replicate 32 1) \<and> Sum256 (replicate 32 1) = paymentHash (demo_invoice 1)"
proof -
  have "LookupPreimage (paymentHash (demo_invoice 1)) demo_beacon = Some (replicate 32 1)"
    using LookupPreimage_run [OF demo_beacon_registry wrepr_empty]
    by (simp add: find_invoice_def demo_beacon_def newPreimageBeacon_def newInvoiceRegistry_def) (simp add: demo_invoice_def)
  with preimage_lookup_sound [OF demo_beacon_run] show ?thesis by simp
qed

text \<open>
  A preimage that was added is found: once the node has stored an invoice, a lookup of the hash
  of a preimage that \<^verbatim>\<open>AddPreimage\<close> has accepted returns a preimage of that hash.
\<close>

theorem added_preimage_found:
  assumes "beacon_run n es p" "n + length es < 2 ^ 32" "AddPreimage pre p = (Inr (), p')"
    "db_LookupInvoice h (cdb (invoices p)) = Inr i" "length h = 32"
  shows "\<exists>x. LookupPreimage (Sum256 pre) p' = Some x \<and> Sum256 x = Sum256 pre"
proof -
  obtain ivs W Q where ok: "registry_ok (n + length es) (invoices p) ivs Q" "wrepr Q W"
    using beacon_run_ok [OF assms(1,2)] by (auto simp: beacon_ok_def)
  have ne: "ivs \<noteq> []"
    using db_LookupInvoice_run [of "cdb (invoices p)" ivs Q h] ok(1) assms(4,5) by (auto simp: registry_ok_def)
  obtain Q' where p': "registry_ok (n + length es) (invoices p') ivs Q'" "wrepr Q' (W(Sum256 pre \<mapsto> pre))"
    using AddPreimage_cases [OF ok assms(3)] by (auto split: if_splits)
  have "debug_ok (invoices p')" using p'(1) by (simp add: registry_ok_def)
  then show ?thesis
    using LookupPreimage_run [OF p' length_Sum256] ne paymentHash_found [of "Sum256 pre" ivs]
    by (auto simp: debug_ok_def paymentHash_def split: option.split)
qed

theorem added_preimage_found_witness:
  "\<exists>p'. AddPreimage [7] demo_beacon = (Inr (), p') \<and> (\<exists>x. LookupPreimage (Sum256 [7]) p' = Some x \<and> Sum256 x = Sum256 [7])"
proof -
  obtain p' where run: "AddPreimage [7] demo_beacon = (Inr (), p')"
    by (rule AddPreimage_accepts [OF demo_beacon_registry wrepr_empty length_demo_preimage])
  moreover have "db_LookupInvoice (paymentHash (demo_invoice 1)) (cdb (invoices demo_beacon)) = Inr (demo_invoice 1)"
    using db_LookupInvoice_run [OF irepr_demo, of "paymentHash (demo_invoice 1)"]
    by (simp add: find_invoice_def demo_beacon_def newPreimageBeacon_def newInvoiceRegistry_def)
  ultimately show ?thesis using added_preimage_found [OF demo_beacon_run] run by simp
qed

text \<open>
  A node that has never stored an invoice does not find the preimages it was given: the error
  \<^verbatim>\<open>ErrNoInvoicesCreated\<close> of the invoice lookup ends the search before the witness cache is
  consulted, so the lookup fails right after \<^verbatim>\<open>AddPreimage\<close> has accepted the preimage.
\<close>

theorem preimage_lost_without_invoices:
  assumes "beacon_run n es p" "n + length es < 2 ^ 32" "AddPreimage pre p = (Inr (), p')"
    "debugInvoices (invoices p) (Sum256 pre) = None" "db_LookupInvoice h (cdb (invoices p)) = Inl ErrNoInvoicesCreated" "length h = 32"
  shows "LookupPreimage (Sum256 pre) p' = None \<and> LookupWitness Sha256HashWitness (Sum256 pre) (cdb (invoices p')) = Inr pre"
proof -
  obtain ivs W Q where ok: "registry_ok (n + length es) (invoices p) ivs Q" "wrepr Q W"
    using beacon_run_ok [OF assms(1,2)] by (auto simp: beacon_ok_def)
  have empty: "ivs = []"
    using db_LookupInvoice_run [of "cdb (invoices p)" ivs Q h] ok(1) assms(5,6)
    by (auto simp: registry_ok_def split: if_splits option.splits)
  obtain Q' where p': "registry_ok (n + length es) (invoices p') ivs Q'" "wrepr Q' (W(Sum256 pre \<mapsto> pre))"
    using AddPreimage_cases [OF ok assms(3)] by (auto split: if_splits)
  have "debugInvoices (invoices p') (Sum256 pre) = None"
    using assms(3,4) by (auto simp: AddPreimage_def split: prod.splits sum.splits)
  then show ?thesis
    using LookupPreimage_run [OF p' length_Sum256] LookupWitness_run [of "cdb (invoices p')" ivs Q' "W(Sum256 pre \<mapsto> pre)"] p' empty
    by (simp add: registry_ok_def)
qed

theorem preimage_lost_without_invoices_witness:
  "\<exists>p'. AddPreimage [7] (newPreimageBeacon (newInvoiceRegistry empty_db)) = (Inr (), p') \<and> LookupPreimage (Sum256 [7]) p' = None"
proof -
  let ?p = "newPreimageBeacon (newInvoiceRegistry empty_db)"
  have run: "beacon_run 0 [] ?p" by (rule beacon_run.start [OF irepr_empty _ wrepr_empty]) simp
  have reg: "registry_ok 0 (invoices ?p) [] (beside_invoices empty_db)"
    using registry_ok_new [OF irepr_empty] by (simp add: newPreimageBeacon_def)
  obtain p' where add: "AddPreimage [7] ?p = (Inr (), p')"
    by (rule AddPreimage_accepts [OF reg wrepr_empty length_demo_preimage])
  moreover have "db_LookupInvoice (replicate 32 0) (cdb (invoices ?p)) = Inl ErrNoInvoicesCreated"
    using db_LookupInvoice_run [OF irepr_empty, of "replicate 32 0"] by (simp add: newPreimageBeacon_def newInvoiceRegistry_def)
  ultimately show ?thesis
    using preimage_lost_without_invoices [OF run, of "[7]" p' "replicate 32 0"] add
    by (simp add: newPreimageBeacon_def newInvoiceRegistry_def)
qed

text \<open>
  C31. No preimage is lost on its way to a subscriber. In every run, for a subscriber that has not
  cancelled, the preimages added since it subscribed are those it has read, those in its
  channel's buffer and those a goroutine holds for it, each as often as it was added; a waiting
  one moves into the buffer as soon as that has room. When the subscription is cancelled,
  every goroutine that waits for it can end.
\<close>

theorem subscribers_get_preimages:
  assumes "beacon_run n es p" "n + length es < 2 ^ 32"
  shows "(subscribed c es \<longrightarrow> owed c es = got c es + mset (updateChan (objects p ! c)) + pending_for c (deliveries p)
        \<and> (\<forall>pre \<in># pending_for c (deliveries p). length (updateChan (objects p ! c)) < 10 \<longrightarrow>
             updateChan (objects (deliver c pre p) ! c) = updateChan (objects p ! c) @ [pre]))
    \<and> (\<not> subscribed c es \<longrightarrow> (\<forall>pre. (c, pre) \<in># deliveries p \<longrightarrow>
          deliveries (abandon c pre p) = deliveries p - {#(c, pre)#}))"
proof -
  have ok: "pool_ok es p" "fair_ok es p" using beacon_run_ok [OF assms] by (auto simp: beacon_ok_def)
  have "c < length (objects p)" if "subscribed c es" using ok(2) that by (simp add: fair_ok_def)
  moreover have "(c, pre) \<in># deliveries p" if "pre \<in># pending_for c (deliveries p)" for pre
    using that by (auto simp: pending_for_def)
  moreover have "quit_closed (objects p ! c)" if "\<not> subscribed c es" "(c, pre) \<in># deliveries p" for pre
    using ok that by (fastforce simp: fair_ok_def pool_ok_def)
  ultimately show ?thesis using ok(2) by (auto simp: fair_ok_def deliver_def abandon_def)
qed

theorem subscribers_get_preimages_witness:
  "\<exists>es p. beacon_run 1 es p \<and> owed 0 es = {#[7]#} \<and> got 0 es + mset (updateChan (objects p ! 0)) + pending_for 0 (deliveries p) = {#[7]#}"
proof -
  obtain c k p1 where p1: "SubscribeUpdates demo_beacon = ((c, k), p1)" by (cases "SubscribeUpdates demo_beacon") auto
  then have "c = 0" "invoices p1 = invoices demo_beacon"
    by (auto simp: SubscribeUpdates_def Let_def demo_beacon_def newPreimageBeacon_def)
  then have "registry_ok 1 (invoices p1) [demo_invoice 1] (beside_invoices empty_db)" using demo_beacon_registry by simp
  then obtain p2 where p2: "AddPreimage [7] p1 = (Inr (), p2)"
    by (rule AddPreimage_accepts [OF _ wrepr_empty length_demo_preimage])
  have run: "beacon_run 1 [BAdd [7], BSubscribe c k] p2"
    by (rule beacon_run.add [OF beacon_run.subscribe [OF demo_beacon_run p1] p2])
  then have "owed 0 [BAdd [7], BSubscribe c k] = {#[7]#}" by (simp add: \<open>c = 0\<close>)
  with subscribers_get_preimages [OF run, of 0] run show ?thesis by (fastforce simp: \<open>c = 0\<close>)
qed

end
