(* ===== verification/NetAddr.thy ===== *)
theory NetAddr
  imports Prelude
begin

text \<open>
  Network addresses: the part of Go's \<^verbatim>\<open>net\<close> package that the server and the funding manager
  compute with. An address is absent (a nil interface), a TCP address (\<^verbatim>\<open>*net.TCPAddr\<close>) or an address of another
  type, which the code only passes on.
\<close>

datatype NetAddr = NilAddr | TCPAddr (tcp_IP: bytes) (tcp_Port: int) (tcp_Zone: string) | OtherAddr string

definition v4InV6Prefix :: bytes where
  "v4InV6Prefix = replicate 10 0 @ [0xff, 0xff]"

text \<open>\<^verbatim>\<open>IP.Equal\<close>: an IPv4 address and its form as an IPv6 address are the same host.\<close>

definition IP_Equal :: "bytes \<Rightarrow> bytes \<Rightarrow> bool" where
  "IP_Equal ip x \<longleftrightarrow>
     (if length ip = length x then ip = x
      else if length ip = 4 \<and> length x = 16 then take 12 x = v4InV6Prefix \<and> ip = drop 12 x
      else if length ip = 16 \<and> length x = 4 then take 12 ip = v4InV6Prefix \<and> drop 12 ip = x
      else False)"

text \<open>The host an address names: \<^const>\<open>IP_Equal\<close> compares these.\<close>

definition ip_host :: "bytes \<Rightarrow> bytes" where
  "ip_host ip = (if length ip = 4 then v4InV6Prefix @ ip else ip)"

lemma length_v4InV6Prefix [simp]: "length v4InV6Prefix = 12"
  by (simp add: v4InV6Prefix_def)

lemma v4_append: "v4InV6Prefix @ a = b \<longleftrightarrow> take 12 b = v4InV6Prefix \<and> a = drop 12 b"
  by (metis append_eq_conv_conj length_v4InV6Prefix)

lemma v4_length: "v4InV6Prefix @ a = b \<Longrightarrow> length b = 12 + length a"
  by (auto simp: v4InV6Prefix_def)

lemma IP_Equal_host: "IP_Equal ip x \<longleftrightarrow> ip_host ip = ip_host x"
proof (cases "length ip = length x")
  case True
  then show ?thesis by (simp add: IP_Equal_def ip_host_def)
next
  case False
  show ?thesis
  proof (cases "length ip = 4")
    case True
    with False show ?thesis
      using v4_length [of ip x] by (simp add: IP_Equal_def ip_host_def) (metis v4_append)
  next
    case not_v4: False
    show ?thesis
    proof (cases "length x = 4")
      case True
      with False not_v4 show ?thesis
        using v4_length [of x ip] by (simp add: IP_Equal_def ip_host_def eq_commute [of ip]) (metis v4_append)
    qed (use False not_v4 in \<open>auto simp: IP_Equal_def ip_host_def\<close>)
  qed
qed

lemma IP_Equal_refl [simp]: "IP_Equal ip ip"
  by (simp add: IP_Equal_host)

lemma IP_Equal_sym: "IP_Equal a b \<Longrightarrow> IP_Equal b a"
  by (simp add: IP_Equal_host)

end
