(* ===== verification/FundingStore.thy ===== *)
theory FundingStore
  imports Retribution
begin

unbundle bit_operations_syntax

text \<open>
  What the funding manager keeps on disk about a channel whose funding transaction has
  confirmed (\<^verbatim>\<open>src/lnd/fundingmanager.go\<close>): how far its opening has got and where in the
  chain it is. The short channel id is the vendored \<^verbatim>\<open>lnwire/short_channel_id.go\<close>. The
  three methods implement a map from channel points.
\<close>

section \<open>Short channel ids\<close>

record ShortChannelID =
  BlockHeight :: u32
  TxIndex :: u32
  TxPosition :: u16

definition NewShortChanIDFromInt :: "u64 \<Rightarrow> ShortChannelID" where
  "NewShortChanIDFromInt chanID =
     \<lparr>BlockHeight = ucast (drop_bit 40 chanID), TxIndex = ucast (drop_bit 16 chanID) AND 16777215,
      TxPosition = ucast chanID\<rparr>"

definition ToUint64 :: "ShortChannelID \<Rightarrow> u64" where
  "ToUint64 c = push_bit 40 (ucast (BlockHeight c)) OR push_bit 16 (ucast (TxIndex c)) OR ucast (TxPosition c)"

text \<open>Height and index are limited to three bytes each; the code does not check it.\<close>

definition valid_scid :: "ShortChannelID \<Rightarrow> bool" where
  "valid_scid c \<longleftrightarrow> unat (BlockHeight c) < 2 ^ 24 \<and> unat (TxIndex c) < 2 ^ 24"

lemma bit_beyond: "unat (w :: u32) < 2 ^ 24 \<Longrightarrow> 24 \<le> n \<Longrightarrow> \<not> bit w n"
proof -
  assume "unat w < 2 ^ 24" "24 \<le> n"
  then have "unat w < 2 ^ n" by (meson less_le_trans one_le_numeral power_increasing)
  then have "\<not> bit (unat w) n" by (simp add: bit_iff_odd)
  then show ?thesis by (simp add: bit_unsigned_iff)
qed

lemma bit_and_mask24: "bit (x AND 16777215) n \<longleftrightarrow> n < 24 \<and> bit x n" for x :: u32
proof -
  have m: "(16777215 :: u32) = mask 24" by (simp add: mask_eq_exp_minus_1)
  have "x AND 16777215 = take_bit 24 x" unfolding m by (rule take_bit_eq_mask [symmetric])
  then show ?thesis by (simp only: bit_take_bit_iff)
qed

lemma ToUint64_bit:
  "bit (ToUint64 c) n \<longleftrightarrow> n < 64 \<and> (40 \<le> n \<and> bit (BlockHeight c) (n - 40) \<or> 16 \<le> n \<and> bit (TxIndex c) (n - 16)
     \<or> bit (TxPosition c) n)"
  by (auto simp: ToUint64_def bit_simps dest: bit_imp_le_length)

lemma NewShortChanID_ToUint64:
  assumes "valid_scid c"
  shows "NewShortChanIDFromInt (ToUint64 c) = c"
proof (rule ShortChannelID.equality)
  have hi: "24 \<le> n \<Longrightarrow> \<not> bit (BlockHeight c) n" and lo: "24 \<le> n \<Longrightarrow> \<not> bit (TxIndex c) n" for n
    using assms bit_beyond by (simp_all add: valid_scid_def)
  show "BlockHeight (NewShortChanIDFromInt (ToUint64 c)) = BlockHeight c"
  proof (rule bit_word_eqI)
    fix n assume n: "n < LENGTH(32)"
    then have "\<not> bit (TxIndex c) (n + 40 - 16)" "\<not> bit (TxPosition c) (n + 40)"
      using lo [of "n + 24"] by (auto simp: add.commute dest: bit_imp_le_length)
    moreover have "bit (BlockHeight c) n \<Longrightarrow> n < 24" using hi [of n] by (cases "24 \<le> n") auto
    ultimately show "bit (BlockHeight (NewShortChanIDFromInt (ToUint64 c))) n = bit (BlockHeight c) n"
      using n by (auto simp: NewShortChanIDFromInt_def bit_simps ToUint64_bit add.commute)
  qed
  show "TxIndex (NewShortChanIDFromInt (ToUint64 c)) = TxIndex c"
  proof (rule bit_word_eqI)
    fix n assume n: "n < LENGTH(32)"
    have "\<not> bit (TxPosition c) (n + 16)" by (auto dest: bit_imp_le_length)
    moreover have "bit (TxIndex c) n \<Longrightarrow> n < 24" using lo [of n] by (cases "24 \<le> n") auto
    ultimately show "bit (TxIndex (NewShortChanIDFromInt (ToUint64 c))) n = bit (TxIndex c) n"
      using n by (auto simp: NewShortChanIDFromInt_def bit_and_mask24 bit_unsigned_iff bit_drop_bit_eq ToUint64_bit add.commute)
  qed
  show "TxPosition (NewShortChanIDFromInt (ToUint64 c)) = TxPosition c"
    by (rule bit_word_eqI) (auto simp: NewShortChanIDFromInt_def bit_simps ToUint64_bit)
qed simp

section \<open>The bucket\<close>

type_synonym channelOpeningState = byte

definition markedOpen :: channelOpeningState where "markedOpen = 0"
definition fundingLockedSent :: channelOpeningState where "fundingLockedSent = 1"
definition addedToRouterGraph :: channelOpeningState where "addedToRouterGraph = 2"

definition channelOpeningStateBucket :: bytes where
  "channelOpeningStateBucket = ascii ''channelOpeningState''"

definition ErrChannelNotFound :: goerr where "ErrChannelNotFound = GoErr ''channel not found in db''"

definition openingBytes :: "channelOpeningState \<Rightarrow> ShortChannelID \<Rightarrow> bytes" where
  "openingBytes opening shortChanID = PutUint16 (ucast opening) @ PutUint64 (ToUint64 shortChanID)"

definition saveChannelOpeningState ::
  "OutPoint \<Rightarrow> channelOpeningState \<Rightarrow> ShortChannelID \<Rightarrow> db \<Rightarrow> (goerr + unit) \<times> db" where
  "saveChannelOpeningState chanPoint opening shortChanID = db_Update (
     sbind (b_CreateBucketIfNotExists [] channelOpeningStateBucket) (\<lambda>bucket.
       b_Put bucket (writeOutpoint chanPoint) (openingBytes opening shortChanID)))"

text \<open>Slicing and decoding a stored value that is too short panics.\<close>

definition getChannelOpeningState :: "OutPoint \<Rightarrow> db \<Rightarrow> goerr + channelOpeningState \<times> ShortChannelID" where
  "getChannelOpeningState chanPoint t =
     (case b_Bucket [] channelOpeningStateBucket t of None \<Rightarrow> Inl ErrChannelNotFound
      | Some bucket \<Rightarrow>
          (case b_Get bucket (writeOutpoint chanPoint) t of None \<Rightarrow> Inl ErrChannelNotFound
           | Some value \<Rightarrow>
               if length value < 10 then Inl (GoPanic ''slice bounds out of range'')
               else Inr (ucast (Uint16 (take 2 value)), NewShortChanIDFromInt (Uint64 (drop 2 value)))))"

definition deleteChannelOpeningState :: "OutPoint \<Rightarrow> db \<Rightarrow> (goerr + unit) \<times> db" where
  "deleteChannelOpeningState chanPoint = db_Update (\<lambda>t.
     (case b_Bucket [] channelOpeningStateBucket t of None \<Rightarrow> Inl (GoErr ''Bucket not found'')
      | Some bucket \<Rightarrow> b_Delete bucket (writeOutpoint chanPoint) t))"

section \<open>What it stands for\<close>

type_synonym openings = "OutPoint \<Rightarrow> (channelOpeningState \<times> ShortChannelID) option"

definition wf_openings :: "openings \<Rightarrow> bool" where
  "wf_openings S \<longleftrightarrow> (\<forall>c s i. S c = Some (s, i) \<longrightarrow> valid_scid i)"

text \<open>
  \<open>orepr t S Q\<close>: the bucket of \<open>t\<close> holds \<open>S\<close>, and \<open>Q\<close> is what is stored outside of it.
\<close>

definition beside_openings :: "db \<Rightarrow> bytes list \<Rightarrow> bytes option \<times> bool" where
  "beside_openings t q =
     (if q \<noteq> [] \<and> hd q = channelOpeningStateBucket then (None, False) else (val_at t q, is_bkt t q))"

definition orepr :: "db \<Rightarrow> openings \<Rightarrow> (bytes list \<Rightarrow> bytes option \<times> bool) \<Rightarrow> bool" where
  "orepr t S Q \<longleftrightarrow> bwf t \<and> is_bkt t [] \<and> wf_openings S
     \<and> kv t channelOpeningStateBucket (\<lambda>c. map_option (\<lambda>(s, i). openingBytes s i) (S c)) \<and> beside_openings t = Q"

lemma openingBucket_nonempty [simp]: "channelOpeningStateBucket \<noteq> []"
  by (simp add: channelOpeningStateBucket_def ascii_def)

lemma length_openingBytes [simp]: "length (openingBytes s i) = 10"
  by (simp add: openingBytes_def)

lemma ucast_u16_byte: "ucast (ucast (s :: byte) :: u16) = s"
  by (rule bit_word_eqI) (simp add: bit_simps)

lemma openingBytes_decode:
  "valid_scid i \<Longrightarrow> ucast (Uint16 (take 2 (openingBytes s i))) = s
     \<and> NewShortChanIDFromInt (Uint64 (drop 2 (openingBytes s i))) = i"
  by (simp add: openingBytes_def codec_simps NewShortChanID_ToUint64 ucast_u16_byte)

lemma saveChannelOpeningState_run:
  assumes "orepr t S Q" "valid_scid i"
  shows "\<exists>t'. saveChannelOpeningState c s i t = (Inr (), t') \<and> orepr t' (S(c \<mapsto> (s, i))) Q"
proof -
  let ?f = "\<lambda>c. map_option (\<lambda>(s, i). openingBytes s i) (S c)" and ?b = channelOpeningStateBucket
  obtain t' where t': "saveChannelOpeningState c s i t = (Inr (), t')" "bwf t'" "kv t' ?b (?f(c \<mapsto> openingBytes s i))"
      "\<forall>q. q = [] \<or> hd q \<noteq> ?b \<longrightarrow> val_at t' q = val_at t q \<and> is_bkt t' q = is_bkt t q"
    using put_key_succeeds [of t ?b ?f "openingBytes s i" c] assms
    unfolding saveChannelOpeningState_def orepr_def succeeds_def db_Update_def by (auto simp: MaxValueSize_def)
  have "?f(c \<mapsto> openingBytes s i) = (\<lambda>c'. map_option (\<lambda>(s, i). openingBytes s i) ((S(c \<mapsto> (s, i))) c'))" by auto
  moreover have "beside_openings t' = beside_openings t" using t'(4) by (auto simp: beside_openings_def fun_eq_iff)
  ultimately show ?thesis using assms t' unfolding orepr_def wf_openings_def by simp
qed

lemma getChannelOpeningState_run:
  assumes "orepr t S Q"
  shows "getChannelOpeningState c t = (case S c of None \<Rightarrow> Inl ErrChannelNotFound | Some x \<Rightarrow> Inr x)"
proof -
  let ?f = "\<lambda>c. map_option (\<lambda>(s, i). openingBytes s i) (S c)"
  have kv: "kv t channelOpeningStateBucket ?f" using assms by (simp add: orepr_def)
  have "valid_scid i" if "S c = Some (s, i)" for s i using assms that by (auto simp: orepr_def wf_openings_def)
  then show ?thesis
    using kv_lookup [OF kv, of c] kv_bucket [OF kv, of c] openingBytes_decode
    by (auto simp: getChannelOpeningState_def b_Bucket_def b_Get_def split: option.split)
qed

lemma deleteChannelOpeningState_run:
  assumes "orepr t S Q" "S c \<noteq> None"
  shows "\<exists>t'. deleteChannelOpeningState c t = (Inr (), t') \<and> orepr t' (S(c := None)) Q"
proof -
  let ?f = "\<lambda>c. map_option (\<lambda>(s, i). openingBytes s i) (S c)" and ?b = channelOpeningStateBucket
  have kv: "kv t ?b ?f" and wf: "bwf t" using assms(1) by (simp_all add: orepr_def)
  have b: "is_bkt t [?b]" using kv_bucket [OF kv, of c] assms(2) by simp
  obtain t' where t': "b_Delete [?b] (writeOutpoint c) t = Inr ((), t')" "bwf t'" "kv t' ?b (?f(c := None))"
      "is_bkt t' = is_bkt t" "\<forall>q. q = [] \<or> hd q \<noteq> ?b \<longrightarrow> val_at t' q = val_at t q"
    using del_key_succeeds [OF wf b kv, of c] by (auto simp: succeeds_def)
  have "?f(c := None) = (\<lambda>c'. map_option (\<lambda>(s, i). openingBytes s i) ((S(c := None)) c'))" by auto
  moreover have "beside_openings t' = beside_openings t" using t'(4,5) by (auto simp: beside_openings_def fun_eq_iff)
  moreover have "deleteChannelOpeningState c t = (Inr (), t')"
    using b t'(1) by (simp add: deleteChannelOpeningState_def db_Update_def b_Bucket_def)
  ultimately show ?thesis using assms t' unfolding orepr_def wf_openings_def by simp
qed

end
