(* ===== verification/FundingWallet.thy ===== *)
theory FundingWallet
  imports NetAddr FundingStore ChanCloser InvoiceRegistry
begin

text \<open>
  The wallet as the funding manager uses it: the reservations of the vendored
  \<^verbatim>\<open>lnwallet/reservation.go\<close> and the request handlers of \<^verbatim>\<open>lnwallet/wallet.go\<close> that keep
  them, with the channel database they write to. Coin selection, key derivation, the building
  of the transactions and the signatures are a call's environment (\<open>walletEnv\<close>). A
  reservation is an object that the wallet, through its map \<^verbatim>\<open>fundingLimbo\<close>, and the funding
  manager share: it is named by its address in the list of all reservations ever made.
\<close>

section \<open>Data\<close>

record ChannelConstraints =
  ct_DustLimit :: u64
  ct_MaxPendingAmount :: u64
  ct_ChanReserve :: u64
  ct_MinHTLC :: u64
  ct_MaxAcceptedHtlcs :: u16

record ChannelConfig =
  cg_Constraints :: ChannelConstraints
  cg_CsvDelay :: u16
  cg_MultiSigKey :: PublicKey
  cg_RevocationBasePoint :: PublicKey
  cg_PaymentBasePoint :: PublicKey
  cg_DelayBasePoint :: PublicKey
  cg_HtlcBasePoint :: PublicKey

record ChannelContribution =
  cb_FundingAmount :: u64
  cb_Inputs :: "OutPoint list"
  cb_FirstCommitmentPoint :: PublicKey
  cb_Config :: ChannelConfig

datatype ChannelType = SingleFunder | DualFunder

record OpenChannel =
  oc_ChanType :: ChannelType
  oc_ChainHash :: hash
  oc_FundingOutpoint :: OutPoint
  oc_ShortChanID :: ShortChannelID
  oc_IsPending :: bool
  oc_IsInitiator :: bool
  oc_FundingBroadcastHeight :: u32
  oc_NumConfsRequired :: u16
  oc_ChannelFlags :: byte
  oc_IdentityPub :: PublicKey
  oc_Capacity :: u64
  oc_LocalChanCfg :: ChannelConfig
  oc_RemoteChanCfg :: ChannelConfig
  oc_LocalBalance :: u64
  oc_RemoteBalance :: u64
  oc_RemoteCurrentRevocation :: "PublicKey option"
  oc_RemoteNextRevocation :: "PublicKey option"
  oc_FundingTxn :: "MsgTx option"

record ChannelReservation =
  fundingTx :: "MsgTx option"
  ourCommitmentSig :: bytes
  ourContribution :: ChannelContribution
  theirContribution :: ChannelContribution
  partialState :: OpenChannel
  nodeAddr :: NetAddr
  reservationID :: u64
  pushMSat :: u64

record LightningWallet =
  reservations :: "ChannelReservation list"
  fundingLimbo :: "u64 \<rightharpoonup> nat"
  nextFundingID :: u64
  lockedOutPoints :: "OutPoint list"
  channels :: "OpenChannel list"
  lw_published :: "MsgTx list"

record walletEnv =
  we_GenesisHash :: hash
  we_DefaultDustLimit :: u64
  we_DefaultConstraints :: ChannelConstraints
  we_selectCoins :: "u64 \<Rightarrow> u64 \<Rightarrow> OutPoint list \<Rightarrow> goerr + OutPoint list"
  we_deriveKeys :: "u64 \<Rightarrow> goerr + ChannelConfig \<times> PublicKey"
  we_buildFundingTx :: "ChannelReservation \<Rightarrow> goerr + MsgTx \<times> OutPoint"
  we_signCommitment :: "ChannelReservation \<Rightarrow> goerr + bytes"
  we_verifyCommitSig :: "ChannelReservation \<Rightarrow> bytes \<Rightarrow> goerr option"
  we_GetBestBlock :: "goerr + u32"
  we_SyncPending :: "OpenChannel \<Rightarrow> goerr option"
  we_PublishTransaction :: "MsgTx \<Rightarrow> goerr option"

definition noPoint :: OutPoint where "noPoint = \<lparr>Hash = 0, Index = 0\<rparr>"
definition noKey :: PublicKey where "noKey = \<lparr>X = 0, Y = 0\<rparr>"

definition noConstraints :: ChannelConstraints where
  "noConstraints = \<lparr>ct_DustLimit = 0, ct_MaxPendingAmount = 0, ct_ChanReserve = 0, ct_MinHTLC = 0, ct_MaxAcceptedHtlcs = 0\<rparr>"

definition noConfig :: ChannelConfig where
  "noConfig = \<lparr>cg_Constraints = noConstraints, cg_CsvDelay = 0, cg_MultiSigKey = noKey, cg_RevocationBasePoint = noKey,
     cg_PaymentBasePoint = noKey, cg_DelayBasePoint = noKey, cg_HtlcBasePoint = noKey\<rparr>"

definition contributionOf :: "u64 \<Rightarrow> ChannelContribution" where
  "contributionOf amount =
     \<lparr>cb_FundingAmount = amount, cb_Inputs = [], cb_FirstCommitmentPoint = noKey, cb_Config = noConfig\<rparr>"

section \<open>A new reservation\<close>

text \<open>The starting balances (ours, theirs) and whether we initiate the channel.\<close>

definition startBalances :: "u64 \<Rightarrow> u64 \<Rightarrow> u64 \<Rightarrow> u64 \<Rightarrow> goerr + u64 \<times> u64 \<times> bool" where
  "startBalances capacity fundingAmt commitFeePerKw push =
     (let feeMSat = NewMSatFromSatoshis (FeeForWeight commitFeePerKw CommitWeight);
          fundingMSat = NewMSatFromSatoshis fundingAmt; capacityMSat = NewMSatFromSatoshis capacity
      in if fundingAmt = 0 then
           (let theirBalance = capacityMSat - feeMSat - push in
            if sint theirBalance < 0 then Inl (ErrReservation ''funder balance too small'')
            else Inr (push, theirBalance, False))
         else
           (let (ourBalance, theirBalance) =
                  (if capacity = fundingAmt then (capacityMSat - feeMSat - push, push)
                   else (fundingMSat - feeMSat div 2, capacityMSat - fundingMSat - feeMSat div 2 + push))
            in if sint ourBalance < 0 then Inl (ErrReservation ''funder balance too small'')
               else Inr (ourBalance, theirBalance, True)))"

definition NewChannelReservation ::
  "walletEnv \<Rightarrow> u64 \<Rightarrow> u64 \<Rightarrow> u64 \<Rightarrow> u64 \<Rightarrow> u64 \<Rightarrow> hash \<Rightarrow> byte \<Rightarrow> goerr + ChannelReservation" where
  "NewChannelReservation env capacity fundingAmt commitFeePerKw rid push chain flags =
     (case startBalances capacity fundingAmt commitFeePerKw push of Inl e \<Rightarrow> Inl e
      | Inr (ourBalance, theirBalance, initiator) \<Rightarrow>
          if initiator \<and> sint (ToSatoshis ourBalance) \<le> sint (2 * we_DefaultDustLimit env)
          then Inl (ErrReservation ''funder balance too small'')
          else
            (let single = (ourBalance = 0 \<or> theirBalance = 0 \<or> push \<noteq> 0)
             in Inr \<lparr>fundingTx = None, ourCommitmentSig = [], ourContribution = contributionOf (ToSatoshis ourBalance),
                 theirContribution = contributionOf (ToSatoshis theirBalance),
                 partialState = \<lparr>oc_ChanType = (if single then SingleFunder else DualFunder), oc_ChainHash = chain,
                   oc_FundingOutpoint = noPoint, oc_ShortChanID = \<lparr>BlockHeight = 0, TxIndex = 0, TxPosition = 0\<rparr>,
                   oc_IsPending = True, oc_IsInitiator = (single \<and> initiator), oc_FundingBroadcastHeight = 0,
                   oc_NumConfsRequired = 0, oc_ChannelFlags = flags, oc_IdentityPub = noKey, oc_Capacity = capacity,
                   oc_LocalChanCfg = noConfig, oc_RemoteChanCfg = noConfig, oc_LocalBalance = ourBalance,
                   oc_RemoteBalance = theirBalance, oc_RemoteCurrentRevocation = None,
                   oc_RemoteNextRevocation = None, oc_FundingTxn = None\<rparr>,
                 nodeAddr = NilAddr, reservationID = rid, pushMSat = push\<rparr>))"

text \<open>
  Coins are locked before the keys are derived; when that fails they stay locked.
\<close>

definition InitChannelReservation ::
  "walletEnv \<Rightarrow> u64 \<Rightarrow> u64 \<Rightarrow> u64 \<Rightarrow> u64 \<Rightarrow> u64 \<Rightarrow> PublicKey \<Rightarrow> NetAddr \<Rightarrow> hash \<Rightarrow> byte
    \<Rightarrow> (LightningWallet, nat) io" where
  "InitChannelReservation env capacity ourFundAmt push commitFeePerKw fundingFeePerVSize theirID theirAddr chain flags =
     (if ourFundAmt + capacity = 0 then ifail (ErrReservation ''zero channel funds'')
      else if we_GenesisHash env \<noteq> chain then ifail (ErrReservation ''unknown chain'')
      else
        ibind (imod (\<lambda>l. l\<lparr>nextFundingID := nextFundingID l + 1\<rparr>)) (\<lambda>_.
        ibind (iget nextFundingID) (\<lambda>rid.
        ibind (ilift (NewChannelReservation env capacity ourFundAmt commitFeePerKw rid push (we_GenesisHash env) flags)) (\<lambda>res.
        ibind (if ourFundAmt = 0 then iret []
               else ibind (iget lockedOutPoints) (\<lambda>locked.
                    ibind (ilift (we_selectCoins env fundingFeePerVSize ourFundAmt locked)) (\<lambda>coins.
                    ibind (imod (\<lambda>l. l\<lparr>lockedOutPoints := lockedOutPoints l @ coins\<rparr>)) (\<lambda>_. iret coins)))) (\<lambda>coins.
        ibind (ilift (we_deriveKeys env rid)) (\<lambda>(keys, point).
        let res = res\<lparr>ourContribution := (ourContribution res)\<lparr>cb_Inputs := coins, cb_FirstCommitmentPoint := point,
                        cb_Config := keys\<lparr>cg_Constraints := we_DefaultConstraints env\<rparr>\<rparr>,
                      partialState := (partialState res)\<lparr>oc_IdentityPub := theirID\<rparr>, nodeAddr := theirAddr\<rparr>
        in ibind (iget (length \<circ> reservations)) (\<lambda>addr.
           ibind (imod (\<lambda>l. l\<lparr>reservations := reservations l @ [res], fundingLimbo := (fundingLimbo l)(rid \<mapsto> addr)\<rparr>)) (\<lambda>_.
             iret addr))))))))"

section \<open>Methods of a reservation\<close>

definition changeRes :: "nat \<Rightarrow> (ChannelReservation \<Rightarrow> ChannelReservation) \<Rightarrow> (LightningWallet, unit) io" where
  "changeRes r f = imod (\<lambda>l. l\<lparr>reservations := (reservations l)[r := f (reservations l ! r)]\<rparr>)"

definition theRes :: "nat \<Rightarrow> (LightningWallet, ChannelReservation) io" where
  "theRes r = iget (\<lambda>l. reservations l ! r)"

definition SetNumConfsRequired :: "nat \<Rightarrow> u16 \<Rightarrow> (LightningWallet, unit) io" where
  "SetNumConfsRequired r numConfs =
     changeRes r (\<lambda>x. x\<lparr>partialState := (partialState x)\<lparr>oc_NumConfsRequired := numConfs\<rparr>\<rparr>)"

definition setConstraints :: "(ChannelConfig \<Rightarrow> ChannelConfig) \<Rightarrow> ChannelReservation \<Rightarrow> ChannelReservation" where
  "setConstraints f x = x\<lparr>ourContribution := (ourContribution x)\<lparr>cb_Config := f (cb_Config (ourContribution x))\<rparr>\<rparr>"

definition RegisterMinHTLC :: "nat \<Rightarrow> u64 \<Rightarrow> (LightningWallet, unit) io" where
  "RegisterMinHTLC r minHTLC = changeRes r (setConstraints (\<lambda>g.
     g\<lparr>cg_Constraints := (cg_Constraints g)\<lparr>ct_MinHTLC := minHTLC\<rparr>\<rparr>))"

definition minNumHtlc :: u64 where "minNumHtlc = 5"
definition MaxHTLCNumber :: nat where "MaxHTLCNumber = 966"

definition checkConstraints :: "u64 \<Rightarrow> u16 \<Rightarrow> u16 \<Rightarrow> u64 \<Rightarrow> u64 \<Rightarrow> u64 \<Rightarrow> goerr option" where
  "checkConstraints capacity csvDelay maxHtlcs maxValueInFlight minHtlc chanReserve =
     (if csvDelay > 10000 then Some (ErrReservation ''CSV delay too large'')
      else if sint chanReserve > sint (amt_div capacity 5) then Some (ErrReservation ''Channel reserve is too large'')
      else if minHtlc > maxValueInFlight then Some (ErrReservation ''Minimum HTLC value is too large'')
      else if maxHtlcs > word_of_nat (MaxHTLCNumber div 2) then Some (ErrReservation ''maxHtlcs is too large'')
      else if maxHtlcs < 5 then Some (ErrReservation ''maxHtlcs is too small'')
      else if maxValueInFlight < minNumHtlc * minHtlc then Some (ErrReservation ''maxValueInFlight too small'')
      else None)"

definition CommitConstraints :: "nat \<Rightarrow> u16 \<Rightarrow> u16 \<Rightarrow> u64 \<Rightarrow> u64 \<Rightarrow> u64 \<Rightarrow> (LightningWallet, unit) io" where
  "CommitConstraints r csvDelay maxHtlcs maxValueInFlight minHtlc chanReserve =
     ibind (theRes r) (\<lambda>res.
     ibind (fails (checkConstraints (oc_Capacity (partialState res)) csvDelay maxHtlcs maxValueInFlight minHtlc chanReserve)) (\<lambda>_.
       changeRes r (setConstraints (\<lambda>g. g\<lparr>cg_CsvDelay := csvDelay,
         cg_Constraints := (cg_Constraints g)\<lparr>ct_ChanReserve := chanReserve, ct_MaxAcceptedHtlcs := maxHtlcs,
           ct_MaxPendingAmount := maxValueInFlight, ct_MinHTLC := minHtlc\<rparr>\<rparr>))))"

definition OurContribution :: "nat \<Rightarrow> (LightningWallet, ChannelContribution) io" where
  "OurContribution r = ibind (theRes r) (\<lambda>res. iret (ourContribution res))"

definition OurSignatures :: "nat \<Rightarrow> (LightningWallet, bytes) io" where
  "OurSignatures r = ibind (theRes r) (\<lambda>res. iret (ourCommitmentSig res))"

definition res_FundingOutpoint :: "nat \<Rightarrow> (LightningWallet, OutPoint) io" where
  "res_FundingOutpoint r = ibind (theRes r) (\<lambda>res. iret (oc_FundingOutpoint (partialState res)))"

text \<open>Every request to the wallet names the reservation by its id and looks it up in limbo.\<close>

definition inLimbo :: "nat \<Rightarrow> LightningWallet \<Rightarrow> bool" where
  "inLimbo r l \<longleftrightarrow> fundingLimbo l (reservationID (reservations l ! r)) = Some r"

definition limboRes :: "nat \<Rightarrow> LightningWallet \<Rightarrow> nat option" where
  "limboRes r l = fundingLimbo l (reservationID (reservations l ! r))"

definition dropLimbo :: "u64 \<Rightarrow> (LightningWallet, unit) io" where
  "dropLimbo rid = imod (\<lambda>l. l\<lparr>fundingLimbo := (fundingLimbo l)(rid := None)\<rparr>)"

definition res_Cancel :: "nat \<Rightarrow> (LightningWallet, unit) io" where
  "res_Cancel r l =
     (case limboRes r l of
        None \<Rightarrow> (Inl (GoErr ''attempted to cancel non-existent funding state''), l)
      | Some p \<Rightarrow>
          ibind (imod (\<lambda>l. l\<lparr>lockedOutPoints :=
                   filter (\<lambda>c. c \<notin> set (cb_Inputs (ourContribution (reservations l ! p)))) (lockedOutPoints l)\<rparr>)) (\<lambda>_.
            dropLimbo (reservationID (reservations l ! r))) l)"

definition ProcessSingleContribution :: "nat \<Rightarrow> ChannelContribution \<Rightarrow> (LightningWallet, unit) io" where
  "ProcessSingleContribution r contribution l =
     (case limboRes r l of
        None \<Rightarrow> (Inl (GoErr ''attempted to update non-existent funding state''), l)
      | Some p \<Rightarrow>
          changeRes p (\<lambda>x. x\<lparr>theirContribution := contribution,
            partialState := (partialState x)\<lparr>oc_RemoteCurrentRevocation := Some (cb_FirstCommitmentPoint contribution)\<rparr>\<rparr>) l)"

definition ProcessContribution :: "walletEnv \<Rightarrow> nat \<Rightarrow> ChannelContribution \<Rightarrow> (LightningWallet, unit) io" where
  "ProcessContribution env r contribution l =
     (case limboRes r l of
        None \<Rightarrow> (Inl (GoErr ''attempted to update non-existent funding state''), l)
      | Some p \<Rightarrow>
          ibind (changeRes p (\<lambda>x. x\<lparr>theirContribution := contribution\<rparr>)) (\<lambda>_.
          ibind (theRes p) (\<lambda>res.
          ibind (ilift (we_buildFundingTx env res)) (\<lambda>(tx, op).
          ibind (changeRes p (\<lambda>x. x\<lparr>fundingTx := Some tx, partialState := (partialState x)\<lparr>oc_FundingOutpoint := op,
                   oc_RemoteCurrentRevocation := Some (cb_FirstCommitmentPoint contribution)\<rparr>\<rparr>)) (\<lambda>_.
          ibind (theRes p) (\<lambda>res.
          ibind (ilift (we_signCommitment env res)) (\<lambda>sig.
            changeRes p (\<lambda>x. x\<lparr>ourCommitmentSig := sig\<rparr>))))))) l)"

section \<open>Completing a reservation\<close>

text \<open>The channel database, a list of the channels by node, chain and funding outpoint.\<close>

definition chanKey :: "OpenChannel \<Rightarrow> bytes \<times> hash \<times> OutPoint" where
  "chanKey c = (SerializeCompressed (oc_IdentityPub c), oc_ChainHash c, oc_FundingOutpoint c)"

definition putChannel :: "OpenChannel \<Rightarrow> OpenChannel list \<Rightarrow> OpenChannel list" where
  "putChannel c cs = filter (\<lambda>d. chanKey d \<noteq> chanKey c) cs @ [c]"

definition changeChannel :: "OpenChannel \<Rightarrow> (OpenChannel \<Rightarrow> OpenChannel) \<Rightarrow> OpenChannel list \<Rightarrow> OpenChannel list" where
  "changeChannel c f cs = map (\<lambda>d. if chanKey d = chanKey c then f d else d) cs"

definition SyncPending :: "walletEnv \<Rightarrow> nat \<Rightarrow> u32 \<Rightarrow> (LightningWallet, unit) io" where
  "SyncPending env r height =
     ibind (changeRes r (\<lambda>x. x\<lparr>partialState := (partialState x)\<lparr>oc_FundingBroadcastHeight := height\<rparr>\<rparr>)) (\<lambda>_.
     ibind (theRes r) (\<lambda>res.
     ibind (fails (we_SyncPending env (partialState res))) (\<lambda>_.
       imod (\<lambda>l. l\<lparr>channels := putChannel (partialState res) (channels l)\<rparr>))))"

definition toChanConfigs :: "ChannelReservation \<Rightarrow> ChannelReservation" where
  "toChanConfigs x = x\<lparr>partialState := (partialState x)\<lparr>oc_LocalChanCfg := cb_Config (ourContribution x),
     oc_RemoteChanCfg := cb_Config (theirContribution x)\<rparr>\<rparr>"

text \<open>
  The funding manager passes no input scripts. For a reservation that has left limbo the
  wallet only sends an error, and the caller waits for a channel first: it never returns.
\<close>

definition CompleteReservation :: "walletEnv \<Rightarrow> nat \<Rightarrow> bytes \<Rightarrow> (LightningWallet, OpenChannel) io" where
  "CompleteReservation env r commitmentSig l =
     (case limboRes r l of
        None \<Rightarrow> (Inl (GoBlocked ''completeChan''), l)
      | Some p \<Rightarrow>
          ibind (theRes p) (\<lambda>res.
          ibind (case fundingTx res of None \<Rightarrow> ifail (GoPanic ''nil pointer dereference'') | Some tx \<Rightarrow> iret tx) (\<lambda>tx.
          ibind (fails (we_verifyCommitSig env res commitmentSig)) (\<lambda>_.
          ibind (dropLimbo (reservationID res)) (\<lambda>_.
          ibind (ilift (we_GetBestBlock env)) (\<lambda>height.
          ibind (changeRes p (\<lambda>x. (toChanConfigs x)\<lparr>partialState := (partialState (toChanConfigs x))\<lparr>oc_FundingTxn := Some tx\<rparr>\<rparr>)) (\<lambda>_.
          ibind (SyncPending env p height) (\<lambda>_.
          ibind (fails (we_PublishTransaction env tx)) (\<lambda>_.
          ibind (imod (\<lambda>l. l\<lparr>lw_published := lw_published l @ [tx]\<rparr>)) (\<lambda>_.
          ibind (theRes p) (\<lambda>res. iret (partialState res))))))))))) l)"

definition CompleteReservationSingle :: "walletEnv \<Rightarrow> nat \<Rightarrow> OutPoint \<Rightarrow> bytes \<Rightarrow> (LightningWallet, OpenChannel) io" where
  "CompleteReservationSingle env r fundingPoint commitSig l =
     (case limboRes r l of
        None \<Rightarrow> (Inl (GoErr ''attempted to update non-existent funding state''), l)
      | Some p \<Rightarrow>
          ibind (changeRes p (\<lambda>x. x\<lparr>partialState := (partialState x)\<lparr>oc_FundingOutpoint := fundingPoint\<rparr>\<rparr>)) (\<lambda>_.
          ibind (theRes p) (\<lambda>res.
          ibind (fails (we_verifyCommitSig env res commitSig)) (\<lambda>_.
          ibind (ilift (we_signCommitment env res)) (\<lambda>sig.
          ibind (changeRes p (\<lambda>x. x\<lparr>ourCommitmentSig := sig\<rparr>)) (\<lambda>_.
          ibind (ilift (we_GetBestBlock env)) (\<lambda>height.
          ibind (changeRes p toChanConfigs) (\<lambda>_.
          ibind (SyncPending env p height) (\<lambda>_.
          ibind (dropLimbo (reservationID res)) (\<lambda>_.
          ibind (theRes p) (\<lambda>res. iret (partialState res))))))))))) l)"

end
