(* ===== verification/FundingManager.thy ===== *)
theory FundingManager
  imports FundingWallet
begin

text \<open>
  The funding manager (\<^verbatim>\<open>src/lnd/fundingmanager.go\<close>): its state, the bookkeeping of
  reservations, and the handlers that its main goroutine, the reservation coordinator, runs
  one at a time. What the handlers reach through the configuration, the wallet, the network
  and the database, is part of the state; how a call ends is given by the environment
  \<open>fundingEnv\<close> of the handler. Goroutines that a handler starts are queued as tasks, which
  the theory of the opening of a channel runs.
\<close>

section \<open>Messages\<close>

record NetAddress =
  na_IdentityKey :: PublicKey
  na_Address :: NetAddr

record OpenChannelMsg =
  om_ChainHash :: hash
  om_PendingChannelID :: bytes
  om_FundingAmount :: u64
  om_PushAmount :: u64
  om_DustLimit :: u64
  om_MaxValueInFlight :: u64
  om_ChannelReserve :: u64
  om_HtlcMinimum :: u64
  om_FeePerKiloWeight :: u32
  om_CsvDelay :: u16
  om_MaxAcceptedHTLCs :: u16
  om_FundingKey :: PublicKey
  om_RevocationPoint :: PublicKey
  om_PaymentPoint :: PublicKey
  om_DelayedPaymentPoint :: PublicKey
  om_HtlcPoint :: PublicKey
  om_FirstCommitmentPoint :: PublicKey
  om_ChannelFlags :: byte

record AcceptChannelMsg =
  am_PendingChannelID :: bytes
  am_DustLimit :: u64
  am_MaxValueInFlight :: u64
  am_ChannelReserve :: u64
  am_HtlcMinimum :: u64
  am_MinAcceptDepth :: u32
  am_CsvDelay :: u16
  am_MaxAcceptedHTLCs :: u16
  am_FundingKey :: PublicKey
  am_RevocationPoint :: PublicKey
  am_PaymentPoint :: PublicKey
  am_DelayedPaymentPoint :: PublicKey
  am_HtlcPoint :: PublicKey
  am_FirstCommitmentPoint :: PublicKey

record FundingCreatedMsg =
  cm_PendingChannelID :: bytes
  cm_FundingPoint :: OutPoint
  cm_CommitSig :: Sig

record FundingSignedMsg =
  sm_ChanID :: ChannelID
  sm_CommitSig :: Sig

record FundingLockedMsg =
  lm_ChanID :: ChannelID
  lm_NextPerCommitmentPoint :: PublicKey

datatype FundingMsg = MsgOpenChannel OpenChannelMsg | MsgAcceptChannel AcceptChannelMsg
  | MsgFundingCreated FundingCreatedMsg | MsgFundingSigned FundingSignedMsg
  | MsgFundingLocked FundingLockedMsg | MsgError bytes bytes

record openChanReq =
  rq_chainHash :: hash
  rq_localFundingAmt :: u64
  rq_remoteFundingAmt :: u64
  rq_pushAmt :: u64
  rq_fundingFeePerVSize :: u64
  rq_private :: bool
  rq_minHtlc :: u64
  rq_remoteCsvDelay :: u16
  rq_updates :: nat
  rq_err :: nat

section \<open>State\<close>

text \<open>
  The zero time, which marks a locked reservation, is \<^term>\<open>None\<close>. The channels to the caller are
  named by numbers; a responder has no channel for updates.
\<close>

record reservationWithCtx =
  rc_reservation :: nat
  rc_peerAddress :: NetAddress
  rc_chanAmt :: u64
  rc_lastUpdated :: "int option"
  rc_updates :: "nat option"
  rc_err :: "nat option"

type_synonym pendingChannels = "(bytes \<times> reservationWithCtx) list"

datatype OpenStatusUpdate = ChanPending OutPoint | ChanOpen OutPoint

text \<open>The goroutines that outlive the handler that starts them.\<close>

datatype fundingTask =
    WaitCreated PublicKey bytes OpenChannel
  | WaitSigned PublicKey bytes "nat option" OpenChannel
  | WaitRestart OpenChannel
  | ResumeOpening channelOpeningState OpenChannel ShortChannelID
  | HandleLocked NetAddress FundingLockedMsg
  | FinishLocked NetAddress FundingLockedMsg "nat option"
  | AwaitNewChan ChannelID

record ChannelAnnouncement =
  ca_ShortChannelID :: ShortChannelID
  ca_ChainHash :: hash
  ca_NodeID1 :: bytes
  ca_NodeID2 :: bytes
  ca_BitcoinKey1 :: bytes
  ca_BitcoinKey2 :: bytes

record ChannelUpdate =
  cu_Signature :: Sig
  cu_ShortChannelID :: ShortChannelID
  cu_ChainHash :: hash
  cu_Timestamp :: u32
  cu_Flags :: u16
  cu_TimeLockDelta :: u16
  cu_HtlcMinimumMsat :: u64
  cu_BaseFee :: u32
  cu_FeeRate :: u32

record AnnounceSignatures =
  as_ChannelID :: ChannelID
  as_ShortChannelID :: ShortChannelID
  as_NodeSignature :: Sig
  as_BitcoinSignature :: Sig

datatype gossip = GChannelAnnouncement ChannelAnnouncement | GChannelUpdate ChannelUpdate
  | GAnnounceSignatures AnnounceSignatures | GNodeAnnouncement bytes

record fundingManager =
  fundingMsgs :: "(NetAddress \<times> FundingMsg) list"
  fundingRequests :: "(NetAddress \<times> openChanReq) list"
  chanIDNonce :: u64
  activeReservations :: "(bytes \<times> pendingChannels) list"
  signedReservations :: "ChannelID \<rightharpoonup> bytes"
  newChanBarriers :: "ChannelID \<rightharpoonup> nat"
  localDiscoverySignals :: "ChannelID \<rightharpoonup> nat"
  handleFundingLockedBarriers :: "ChannelID list"
  fm_nextChan :: nat
  fm_closedChans :: "nat list" \<comment> \<open>barriers and discovery signals that were closed\<close>
  fm_errs :: "nat \<Rightarrow> goerr list" \<comment> \<open>buffered error channels, of capacity one\<close>
  fm_updates :: "nat \<Rightarrow> OpenStatusUpdate list"
  fm_wallet :: LightningWallet
  fm_db :: db
  fm_sent :: "(PublicKey \<times> FundingMsg) list"
  fm_watched :: "OutPoint list"
  fm_tasks :: "fundingTask list"
  fm_reported :: "(OutPoint \<times> ShortChannelID) list"
  fm_announced :: "gossip list"
  fm_arbiterChan :: "OutPoint list"
  fm_peerChannels :: "(PublicKey \<times> OpenChannel) list"

record ForwardingPolicy =
  fp_MinHTLC :: u64
  fp_BaseFee :: u64
  fp_FeeRate :: u64
  fp_TimeLockDelta :: u32

record fundingConfig =
  fc_IDKey :: PublicKey
  fc_GenesisHash :: hash
  fc_TempChanIDSeed :: bytes
  fc_XORKeyStream :: "bytes \<Rightarrow> bytes \<Rightarrow> bytes \<Rightarrow> bytes"
  fc_MaxPendingChannels :: int
  fc_ReservationTimeout :: int
  fc_DefaultRoutingPolicy :: ForwardingPolicy
  fc_NumRequiredConfs :: "u64 \<Rightarrow> u64 \<Rightarrow> u16"
  fc_RequiredRemoteDelay :: "u64 \<Rightarrow> u16"
  fc_RequiredRemoteChanReserve :: "u64 \<Rightarrow> u64"
  fc_RequiredRemoteMaxValue :: "u64 \<Rightarrow> u64"
  fc_RequiredRemoteMaxHTLCs :: "u64 \<Rightarrow> u16"
  fc_SignMessage :: "PublicKey \<Rightarrow> bytes \<Rightarrow> goerr + bytes"
  fc_NewSig :: "bytes \<Rightarrow> goerr + Sig"
  fc_ToSignatureBytes :: "Sig \<Rightarrow> bytes"

record fundingEnv =
  fe_wallet :: walletEnv
  fe_now :: int
  fe_IsSynced :: "goerr + bool"
  fe_EstimateFeePerVSize :: "u32 \<Rightarrow> goerr + u64"
  fe_SendToPeer :: "PublicKey \<Rightarrow> FundingMsg \<Rightarrow> goerr option"
  fe_WatchNewChannel :: "OpenChannel \<Rightarrow> goerr option"
  fe_CloseChannel :: "OpenChannel \<Rightarrow> goerr option"

abbreviation emptyWallet :: LightningWallet where
  "emptyWallet \<equiv> \<lparr>reservations = [], fundingLimbo = Map.empty, nextFundingID = 0, lockedOutPoints = [],
     channels = [], lw_published = []\<rparr>"

text \<open>A funding manager on a wallet and a database that exist already.\<close>

definition newFundingManager :: "LightningWallet \<Rightarrow> db \<Rightarrow> fundingManager" where
  "newFundingManager l t = \<lparr>fundingMsgs = [], fundingRequests = [], chanIDNonce = 0, activeReservations = [], signedReservations = Map.empty,
     newChanBarriers = Map.empty, localDiscoverySignals = Map.empty, handleFundingLockedBarriers = [],
     fm_nextChan = 0, fm_closedChans = [], fm_errs = (\<lambda>_. []), fm_updates = (\<lambda>_. []), fm_wallet = l, fm_db = t,
     fm_sent = [], fm_watched = [], fm_tasks = [], fm_reported = [], fm_announced = [], fm_arbiterChan = [],
     fm_peerChannels = []\<rparr>"

section \<open>Calls of other components\<close>

definition f_wallet :: "(LightningWallet, 'a) io \<Rightarrow> (fundingManager, 'a) io" where
  "f_wallet m w = (case m (fm_wallet w) of (r, l) \<Rightarrow> (r, w\<lparr>fm_wallet := l\<rparr>))"

definition SendToPeer :: "fundingEnv \<Rightarrow> PublicKey \<Rightarrow> FundingMsg \<Rightarrow> (fundingManager, unit) io" where
  "SendToPeer env peer msg =
     ibind (fails (fe_SendToPeer env peer msg)) (\<lambda>_. imod (\<lambda>w. w\<lparr>fm_sent := fm_sent w @ [(peer, msg)]\<rparr>))"

definition WatchNewChannel :: "fundingEnv \<Rightarrow> OpenChannel \<Rightarrow> (fundingManager, unit) io" where
  "WatchNewChannel env chan =
     ibind (fails (fe_WatchNewChannel env chan)) (\<lambda>_.
       imod (\<lambda>w. w\<lparr>fm_watched := fm_watched w @ [oc_FundingOutpoint chan]\<rparr>))"

text \<open>A send on a channel with a buffer of one blocks when the buffer is full; on nil, always.\<close>

definition sendErr :: "nat option \<Rightarrow> goerr \<Rightarrow> (fundingManager, unit) io" where
  "sendErr c e w =
     (case c of None \<Rightarrow> (Inl (GoBlocked ''send on nil channel''), w)
      | Some n \<Rightarrow> if fm_errs w n = [] then (Inr (), w\<lparr>fm_errs := (fm_errs w)(n := [e])\<rparr>)
                  else (Inl (GoBlocked ''err''), w))"

definition sendUpdate :: "nat option \<Rightarrow> OpenStatusUpdate \<Rightarrow> (fundingManager, unit) io" where
  "sendUpdate c u w =
     (case c of None \<Rightarrow> (Inl (GoBlocked ''send on nil channel''), w)
      | Some n \<Rightarrow> if fm_updates w n = [] then (Inr (), w\<lparr>fm_updates := (fm_updates w)(n := [u])\<rparr>)
                  else (Inl (GoBlocked ''updates''), w))"

definition makeChan :: "(fundingManager, nat) io" where
  "makeChan w = (Inr (fm_nextChan w), w\<lparr>fm_nextChan := Suc (fm_nextChan w)\<rparr>)"

definition goTask :: "fundingTask \<Rightarrow> (fundingManager, unit) io" where
  "goTask t = imod (\<lambda>w. w\<lparr>fm_tasks := fm_tasks w @ [t]\<rparr>)"

section \<open>Reservations\<close>

definition newSerializedKey :: "PublicKey \<Rightarrow> bytes" where
  "newSerializedKey pubKey = go_copy (replicate 33 0) (SerializeCompressed pubKey)"

definition peerReservations :: "bytes \<Rightarrow> fundingManager \<Rightarrow> pendingChannels" where
  "peerReservations k w = (case map_of (activeReservations w) k of None \<Rightarrow> [] | Some m \<Rightarrow> m)"

definition resCtxOf :: "bytes \<Rightarrow> bytes \<Rightarrow> fundingManager \<Rightarrow> reservationWithCtx option" where
  "resCtxOf k pendingChanID w = map_of (peerReservations k w) pendingChanID"

definition setPeer :: "bytes \<Rightarrow> pendingChannels \<Rightarrow> (fundingManager, unit) io" where
  "setPeer k m = imod (\<lambda>w. w\<lparr>activeReservations := al_put k m (activeReservations w)\<rparr>)"

definition putReservation :: "bytes \<Rightarrow> bytes \<Rightarrow> reservationWithCtx \<Rightarrow> (fundingManager, unit) io" where
  "putReservation k pendingChanID resCtx =
     ibind (iget (peerReservations k)) (\<lambda>m. setPeer k (al_put pendingChanID resCtx m))"

definition getReservationCtx :: "PublicKey \<Rightarrow> bytes \<Rightarrow> (fundingManager, reservationWithCtx) io" where
  "getReservationCtx peerKey pendingChanID w =
     (case resCtxOf (newSerializedKey peerKey) pendingChanID w of
        None \<Rightarrow> (Inl (GoErr ''unknown channel''), w) | Some resCtx \<Rightarrow> (Inr resCtx, w))"

definition deleteReservationCtx :: "PublicKey \<Rightarrow> bytes \<Rightarrow> (fundingManager, unit) io" where
  "deleteReservationCtx peerKey pendingChanID w =
     (let k = newSerializedKey peerKey in
      case map_of (activeReservations w) k of None \<Rightarrow> (Inr (), w)
      | Some m \<Rightarrow> setPeer k (al_del pendingChanID m) w)"

definition cancelReservationCtx :: "PublicKey \<Rightarrow> bytes \<Rightarrow> (fundingManager, reservationWithCtx) io" where
  "cancelReservationCtx peerKey pendingChanID =
     ibind (getReservationCtx peerKey pendingChanID) (\<lambda>ctx.
     ibind (f_wallet (res_Cancel (rc_reservation ctx))) (\<lambda>_.
     ibind (deleteReservationCtx peerKey pendingChanID) (\<lambda>_. iret ctx)))"

definition IsPendingChannel :: "bytes \<Rightarrow> NetAddress \<Rightarrow> fundingManager \<Rightarrow> bool" where
  "IsPendingChannel pendingChanID peerAddress w \<longleftrightarrow>
     resCtxOf (newSerializedKey (na_IdentityKey peerAddress)) pendingChanID w \<noteq> None"

text \<open>The timestamp of a reservation that is no longer registered is not looked at again.\<close>

definition setTimestamp :: "PublicKey \<Rightarrow> bytes \<Rightarrow> int option \<Rightarrow> (fundingManager, unit) io" where
  "setTimestamp peerKey pendingChanID t w =
     (let k = newSerializedKey peerKey in
      case resCtxOf k pendingChanID w of None \<Rightarrow> (Inr (), w)
      | Some resCtx \<Rightarrow> putReservation k pendingChanID (resCtx\<lparr>rc_lastUpdated := t\<rparr>) w)"

definition isLocked :: "reservationWithCtx \<Rightarrow> bool" where
  "isLocked r \<longleftrightarrow> rc_lastUpdated r = None"

definition lockReservation :: "PublicKey \<Rightarrow> bytes \<Rightarrow> (fundingManager, unit) io" where
  "lockReservation peerKey pendingChanID = setTimestamp peerKey pendingChanID None"

definition updateTimestamp :: "fundingEnv \<Rightarrow> PublicKey \<Rightarrow> bytes \<Rightarrow> (fundingManager, unit) io" where
  "updateTimestamp env peerKey pendingChanID = setTimestamp peerKey pendingChanID (Some (fe_now env))"

definition errorData :: "goerr \<Rightarrow> bytes" where
  "errorData fundingErr =
     (case fundingErr of ErrReservation s \<Rightarrow> ascii s | ErrCode b \<Rightarrow> [b]
      | _ \<Rightarrow> ascii ''funding failed due to internal error'')"

definition failFundingFlow :: "fundingEnv \<Rightarrow> PublicKey \<Rightarrow> bytes \<Rightarrow> goerr \<Rightarrow> (fundingManager, unit) io" where
  "failFundingFlow env peer tempChanID fundingErr =
     ibind (ilogged (cancelReservationCtx peer tempChanID)) (\<lambda>_.
       ilogged (SendToPeer env peer (MsgError tempChanID (errorData fundingErr))))"

definition nextPendingChanID :: "fundingConfig \<Rightarrow> (fundingManager, bytes) io" where
  "nextPendingChanID cfg w =
     (Inr (fc_XORKeyStream cfg (replicate 32 0) (le_enc 8 (unat (chanIDNonce w))) (fc_TempChanIDSeed cfg)),
      w\<lparr>chanIDNonce := chanIDNonce w + 1\<rparr>)"

text \<open>
  The range over the reservations of a peer: every one is cancelled, its caller told if that does
  not block, and the peer forgotten.
\<close>

definition cancelForPeer :: "reservationWithCtx \<Rightarrow> (fundingManager, unit) io" where
  "cancelForPeer resCtx =
     ibind (ilogged (f_wallet (res_Cancel (rc_reservation resCtx)))) (\<lambda>_.
       (case rc_err resCtx of None \<Rightarrow> iret ()
        | Some n \<Rightarrow> ibind (iget (\<lambda>w. fm_errs w n)) (\<lambda>buf.
            if buf = [] then sendErr (Some n) (GoErr ''peer disconnected'') else iret ())))"

definition CancelPeerReservations :: "bytes \<Rightarrow> (fundingManager, unit) io" where
  "CancelPeerReservations nodePub w =
     (case map_of (activeReservations w) nodePub of None \<Rightarrow> (Inr (), w)
      | Some nodeReservations \<Rightarrow>
          ibind (iforeach (cancelForPeer \<circ> snd) nodeReservations) (\<lambda>_.
            imod (\<lambda>w. w\<lparr>activeReservations := al_del nodePub (activeReservations w)\<rparr>)) w)"

text \<open>
  The zombies are collected in a map by pending channel id: of two with the same id, from two
  peers, the one that is visited last stays. Go leaves open in which order it walks a map; here
  it is the order of the keys.
\<close>

definition isZombie :: "fundingConfig \<Rightarrow> fundingEnv \<Rightarrow> reservationWithCtx \<Rightarrow> bool" where
  "isZombie cfg env resCtx \<longleftrightarrow> (case rc_lastUpdated resCtx of None \<Rightarrow> False
     | Some t \<Rightarrow> fe_now env - t > fc_ReservationTimeout cfg)"

definition zombieReservations :: "fundingConfig \<Rightarrow> fundingEnv \<Rightarrow> fundingManager \<Rightarrow> pendingChannels" where
  "zombieReservations cfg env w =
     fold (\<lambda>(k, m) zs. fold (\<lambda>(pendingChanID, resCtx) zs.
       if isZombie cfg env resCtx then al_put pendingChanID resCtx zs else zs) m zs) (activeReservations w) []"

definition pruneZombieReservations :: "fundingConfig \<Rightarrow> fundingEnv \<Rightarrow> (fundingManager, unit) io" where
  "pruneZombieReservations cfg env w =
     iforeach (\<lambda>(pendingChanID, resCtx).
       failFundingFlow env (na_IdentityKey (rc_peerAddress resCtx)) pendingChanID
         (GoErr ''reservation timed out waiting for peer'')) (zombieReservations cfg env w) w"

end
