(* ===== verification/FundingFlow.thy ===== *)
theory FundingFlow
  imports FundingManager
begin

text \<open>
  The funding flow (\<^verbatim>\<open>src/lnd/fundingmanager.go\<close>): the handlers of the messages that lead two
  peers from a request to a signed funding transaction, and the coordinator that runs them.
  A handler that ends in a panic or blocks forever takes the coordinator with it.
\<close>

section \<open>Channels that others wait on\<close>

definition newBarrier :: "ChannelID \<Rightarrow> (fundingManager, unit) io" where
  "newBarrier chanID = ibind makeChan (\<lambda>c. imod (\<lambda>w. w\<lparr>newChanBarriers := (newChanBarriers w)(chanID \<mapsto> c)\<rparr>))"

definition newDiscoverySignal :: "ChannelID \<Rightarrow> (fundingManager, unit) io" where
  "newDiscoverySignal chanID =
     ibind makeChan (\<lambda>c. imod (\<lambda>w. w\<lparr>localDiscoverySignals := (localDiscoverySignals w)(chanID \<mapsto> c)\<rparr>))"

text \<open>An error that is sent to the peer and to the local caller.\<close>

definition failBoth :: "fundingEnv \<Rightarrow> PublicKey \<Rightarrow> bytes \<Rightarrow> reservationWithCtx \<Rightarrow> goerr \<Rightarrow> (fundingManager, unit) io" where
  "failBoth env peer pendingChanID resCtx e =
     ibind (failFundingFlow env peer pendingChanID e) (\<lambda>_. sendErr (rc_err resCtx) e)"

section \<open>The responder\<close>

definition maxFundingAmount :: u64 where "maxFundingAmount = push_bit 24 1"

definition openContribution :: "fundingConfig \<Rightarrow> OpenChannelMsg \<Rightarrow> ChannelContribution" where
  "openContribution cfg msg =
     (let amount = om_FundingAmount msg in
      \<lparr>cb_FundingAmount = amount, cb_Inputs = [], cb_FirstCommitmentPoint = om_FirstCommitmentPoint msg,
       cb_Config = \<lparr>cg_Constraints = \<lparr>ct_DustLimit = om_DustLimit msg, ct_MaxPendingAmount = fc_RequiredRemoteMaxValue cfg amount,
           ct_ChanReserve = fc_RequiredRemoteChanReserve cfg amount, ct_MinHTLC = om_HtlcMinimum msg,
           ct_MaxAcceptedHtlcs = fc_RequiredRemoteMaxHTLCs cfg amount\<rparr>,
         cg_CsvDelay = fc_RequiredRemoteDelay cfg amount, cg_MultiSigKey = om_FundingKey msg,
         cg_RevocationBasePoint = om_RevocationPoint msg, cg_PaymentBasePoint = om_PaymentPoint msg,
         cg_DelayBasePoint = om_DelayedPaymentPoint msg, cg_HtlcBasePoint = om_HtlcPoint msg\<rparr>\<rparr>)"

definition acceptMsg :: "fundingConfig \<Rightarrow> OpenChannelMsg \<Rightarrow> u16 \<Rightarrow> ChannelContribution \<Rightarrow> AcceptChannelMsg" where
  "acceptMsg cfg msg numConfsReq ours =
     (let amount = om_FundingAmount msg; g = cb_Config ours in
      \<lparr>am_PendingChannelID = om_PendingChannelID msg, am_DustLimit = ct_DustLimit (cg_Constraints g),
       am_MaxValueInFlight = fc_RequiredRemoteMaxValue cfg amount, am_ChannelReserve = fc_RequiredRemoteChanReserve cfg amount,
       am_HtlcMinimum = ct_MinHTLC (cg_Constraints g), am_MinAcceptDepth = ucast numConfsReq,
       am_CsvDelay = fc_RequiredRemoteDelay cfg amount, am_MaxAcceptedHTLCs = fc_RequiredRemoteMaxHTLCs cfg amount,
       am_FundingKey = cg_MultiSigKey g, am_RevocationPoint = cg_RevocationBasePoint g,
       am_PaymentPoint = cg_PaymentBasePoint g, am_DelayedPaymentPoint = cg_DelayBasePoint g,
       am_HtlcPoint = cg_HtlcBasePoint g, am_FirstCommitmentPoint = cb_FirstCommitmentPoint ours\<rparr>)"

text \<open>What follows once the reservation is registered.\<close>

definition sendAccept :: "fundingConfig \<Rightarrow> fundingEnv \<Rightarrow> PublicKey \<Rightarrow> OpenChannelMsg \<Rightarrow> u16 \<Rightarrow> nat \<Rightarrow> (fundingManager, unit) io" where
  "sendAccept cfg env peer msg numConfsReq r =
     (let bad = failFundingFlow env peer (om_PendingChannelID msg) in
      ion (f_wallet (ProcessSingleContribution r (openContribution cfg msg))) bad (\<lambda>_.
      ibind (f_wallet (OurContribution r)) (\<lambda>ours.
      ion (SendToPeer env peer (MsgAcceptChannel (acceptMsg cfg msg numConfsReq ours))) bad (\<lambda>_. iret ()))))"

definition reserveFor :: "fundingConfig \<Rightarrow> fundingEnv \<Rightarrow> OpenChannelMsg \<Rightarrow> NetAddress \<Rightarrow> (fundingManager, unit) io" where
  "reserveFor cfg env msg peerAddress =
     (let peer = na_IdentityKey peerAddress; pid = om_PendingChannelID msg; amount = om_FundingAmount msg;
          bad = failFundingFlow env peer pid; numConfsReq = fc_NumRequiredConfs cfg amount (om_PushAmount msg) in
      ion (f_wallet (InitChannelReservation (fe_wallet env) amount 0 (om_PushAmount msg) (ucast (om_FeePerKiloWeight msg)) 0
             peer (na_Address peerAddress) (om_ChainHash msg) (om_ChannelFlags msg))) bad (\<lambda>r.
      ibind (f_wallet (SetNumConfsRequired r numConfsReq)) (\<lambda>_.
      ion (f_wallet (CommitConstraints r (om_CsvDelay msg) (om_MaxAcceptedHTLCs msg) (om_MaxValueInFlight msg)
             (om_HtlcMinimum msg) (om_ChannelReserve msg))) bad (\<lambda>_.
      ibind (f_wallet (RegisterMinHTLC r (fp_MinHTLC (fc_DefaultRoutingPolicy cfg)))) (\<lambda>_.
      ibind makeChan (\<lambda>errChan.
      ibind (putReservation (newSerializedKey peer) pid \<lparr>rc_reservation = r, rc_peerAddress = peerAddress,
               rc_chanAmt = amount, rc_lastUpdated = None, rc_updates = None, rc_err = Some errChan\<rparr>) (\<lambda>_.
      ibind (sendAccept cfg env peer msg numConfsReq r) (\<lambda>_.
        updateTimestamp env peer pid))))))))"

definition handleFundingOpen :: "fundingConfig \<Rightarrow> fundingEnv \<Rightarrow> OpenChannelMsg \<Rightarrow> NetAddress \<Rightarrow> (fundingManager, unit) io" where
  "handleFundingOpen cfg env msg peerAddress w =
     (let peer = na_IdentityKey peerAddress; pid = om_PendingChannelID msg in
      if int (length (peerReservations (newSerializedKey peer) w)) \<ge> fc_MaxPendingChannels cfg
      then failFundingFlow env peer pid (ErrCode 1) w
      else if fe_IsSynced env \<noteq> Inr True then failFundingFlow env peer pid (ErrCode 2) w
      else if sint (om_FundingAmount msg) > sint maxFundingAmount then failFundingFlow env peer pid (ErrCode 3) w
      else reserveFor cfg env msg peerAddress w)"

text \<open>The pending channel is deleted from the database; a failure is logged.\<close>

definition deleteFromDatabase :: "fundingEnv \<Rightarrow> OpenChannel \<Rightarrow> (fundingManager, unit) io" where
  "deleteFromDatabase env chan =
     ilogged (ibind (fails (fe_CloseChannel env chan)) (\<lambda>_.
       f_wallet (imod (\<lambda>l. l\<lparr>channels := filter (\<lambda>d. chanKey d \<noteq> chanKey chan) (channels l)\<rparr>))))"

definition handleFundingCreated ::
  "fundingConfig \<Rightarrow> fundingEnv \<Rightarrow> FundingCreatedMsg \<Rightarrow> NetAddress \<Rightarrow> (fundingManager, unit) io" where
  "handleFundingCreated cfg env msg peerAddress =
     (let peer = na_IdentityKey peerAddress; pid = cm_PendingChannelID msg; fundingOut = cm_FundingPoint msg;
          channelID = NewChanIDFromOutPoint fundingOut in
      ion (getReservationCtx peer pid) (\<lambda>_. iret ()) (\<lambda>resCtx.
      ion (f_wallet (CompleteReservationSingle (fe_wallet env) (rc_reservation resCtx) fundingOut
             (fc_ToSignatureBytes cfg (cm_CommitSig msg)))) (failFundingFlow env peer pid) (\<lambda>completeChan.
      let bad = (\<lambda>e. ibind (failFundingFlow env peer pid e) (\<lambda>_. deleteFromDatabase env completeChan)) in
      ibind (newBarrier channelID) (\<lambda>_.
      ibind (f_wallet (OurSignatures (rc_reservation resCtx))) (\<lambda>sig.
      ion (ilift (fc_NewSig cfg sig)) bad (\<lambda>ourCommitSig.
      ion (SendToPeer env peer (MsgFundingSigned \<lparr>sm_ChanID = channelID, sm_CommitSig = ourCommitSig\<rparr>)) bad (\<lambda>_.
      ibind (ilogged (WatchNewChannel env completeChan)) (\<lambda>_.
      ibind (newDiscoverySignal channelID) (\<lambda>_.
      ibind (lockReservation peer pid) (\<lambda>_.
        goTask (WaitCreated peer pid completeChan)))))))))))"

section \<open>The initiator\<close>

definition openMsg :: "fundingConfig \<Rightarrow> openChanReq \<Rightarrow> bytes \<Rightarrow> u64 \<Rightarrow> ChannelContribution \<Rightarrow> OpenChannelMsg" where
  "openMsg cfg req chanID commitFeePerKw ours =
     (let capacity = rq_localFundingAmt req + rq_remoteFundingAmt req; g = cb_Config ours in
      \<lparr>om_ChainHash = fc_GenesisHash cfg, om_PendingChannelID = chanID, om_FundingAmount = capacity,
       om_PushAmount = rq_pushAmt req, om_DustLimit = ct_DustLimit (cg_Constraints g),
       om_MaxValueInFlight = fc_RequiredRemoteMaxValue cfg capacity,
       om_ChannelReserve = fc_RequiredRemoteChanReserve cfg capacity, om_HtlcMinimum = ct_MinHTLC (cg_Constraints g),
       om_FeePerKiloWeight = ucast commitFeePerKw,
       om_CsvDelay = (if rq_remoteCsvDelay req = 0 then fc_RequiredRemoteDelay cfg capacity else rq_remoteCsvDelay req),
       om_MaxAcceptedHTLCs = fc_RequiredRemoteMaxHTLCs cfg capacity, om_FundingKey = cg_MultiSigKey g,
       om_RevocationPoint = cg_RevocationBasePoint g, om_PaymentPoint = cg_PaymentBasePoint g,
       om_DelayedPaymentPoint = cg_DelayBasePoint g, om_HtlcPoint = cg_HtlcBasePoint g,
       om_FirstCommitmentPoint = cb_FirstCommitmentPoint ours, om_ChannelFlags = (if rq_private req then 0 else 1)\<rparr>)"

definition FeePerKWeight :: "u64 \<Rightarrow> u64" where
  "FeePerKWeight s = amt_div (s * 1000) 4"

definition handleInitFundingMsg ::
  "fundingConfig \<Rightarrow> fundingEnv \<Rightarrow> openChanReq \<Rightarrow> NetAddress \<Rightarrow> (fundingManager, unit) io" where
  "handleInitFundingMsg cfg env req peerAddress =
     (let peer = na_IdentityKey peerAddress; capacity = rq_localFundingAmt req + rq_remoteFundingAmt req;
          toCaller = sendErr (Some (rq_err req)) in
      ion (ilift (fe_EstimateFeePerVSize env 3)) toCaller (\<lambda>feePerVSize.
      let commitFeePerKw = FeePerKWeight feePerVSize in
      ion (f_wallet (InitChannelReservation (fe_wallet env) capacity (rq_localFundingAmt req) (rq_pushAmt req) commitFeePerKw
             (rq_fundingFeePerVSize req) peer (na_Address peerAddress) (rq_chainHash req)
             (if rq_private req then 0 else 1))) toCaller (\<lambda>r.
      ibind (nextPendingChanID cfg) (\<lambda>chanID.
      ibind (putReservation (newSerializedKey peer) chanID \<lparr>rc_reservation = r, rc_peerAddress = peerAddress,
               rc_chanAmt = capacity, rc_lastUpdated = None, rc_updates = Some (rq_updates req), rc_err = Some (rq_err req)\<rparr>) (\<lambda>_.
      ibind (f_wallet (RegisterMinHTLC r (if rq_minHtlc req = 0 then fp_MinHTLC (fc_DefaultRoutingPolicy cfg) else rq_minHtlc req))) (\<lambda>_.
      ibind (f_wallet (OurContribution r)) (\<lambda>ours.
      ibind (ion (SendToPeer env peer (MsgOpenChannel (openMsg cfg req chanID commitFeePerKw ours)))
               (\<lambda>e. ibind (ilogged (cancelReservationCtx peer chanID)) (\<lambda>_.
                    toCaller (GoErr ''Unable to send funding request message''))) (\<lambda>_. iret ())) (\<lambda>_.
        updateTimestamp env peer chanID))))))))"

definition acceptContribution :: "fundingConfig \<Rightarrow> AcceptChannelMsg \<Rightarrow> u64 \<Rightarrow> ChannelContribution" where
  "acceptContribution cfg msg amount =
     \<lparr>cb_FundingAmount = 0, cb_Inputs = [], cb_FirstCommitmentPoint = am_FirstCommitmentPoint msg,
      cb_Config = \<lparr>cg_Constraints = \<lparr>ct_DustLimit = am_DustLimit msg, ct_MaxPendingAmount = fc_RequiredRemoteMaxValue cfg amount,
          ct_ChanReserve = fc_RequiredRemoteChanReserve cfg amount, ct_MinHTLC = am_HtlcMinimum msg,
          ct_MaxAcceptedHtlcs = fc_RequiredRemoteMaxHTLCs cfg amount\<rparr>,
        cg_CsvDelay = fc_RequiredRemoteDelay cfg amount, cg_MultiSigKey = am_FundingKey msg,
        cg_RevocationBasePoint = am_RevocationPoint msg, cg_PaymentBasePoint = am_PaymentPoint msg,
        cg_DelayBasePoint = am_DelayedPaymentPoint msg, cg_HtlcBasePoint = am_HtlcPoint msg\<rparr>\<rparr>"

definition sendCreated :: "fundingConfig \<Rightarrow> fundingEnv \<Rightarrow> PublicKey \<Rightarrow> bytes \<Rightarrow> reservationWithCtx \<Rightarrow> (fundingManager, unit) io" where
  "sendCreated cfg env peer pid resCtx =
     (let bad = failBoth env peer pid resCtx in
      ibind (f_wallet (res_FundingOutpoint (rc_reservation resCtx))) (\<lambda>outPoint.
      ibind (f_wallet (OurSignatures (rc_reservation resCtx))) (\<lambda>sig.
      let channelID = NewChanIDFromOutPoint outPoint in
      ibind (newBarrier channelID) (\<lambda>_.
      ibind (imod (\<lambda>w. w\<lparr>signedReservations := (signedReservations w)(channelID \<mapsto> pid)\<rparr>)) (\<lambda>_.
      ion (ilift (fc_NewSig cfg sig)) bad (\<lambda>commitSig.
      ion (SendToPeer env peer (MsgFundingCreated \<lparr>cm_PendingChannelID = pid, cm_FundingPoint = outPoint,
             cm_CommitSig = commitSig\<rparr>)) bad (\<lambda>_. iret ())))))))"

definition handleFundingAccept ::
  "fundingConfig \<Rightarrow> fundingEnv \<Rightarrow> AcceptChannelMsg \<Rightarrow> NetAddress \<Rightarrow> (fundingManager, unit) io" where
  "handleFundingAccept cfg env msg peerAddress =
     (let peer = na_IdentityKey peerAddress; pid = am_PendingChannelID msg in
      ion (getReservationCtx peer pid) (\<lambda>_. iret ()) (\<lambda>resCtx.
      ibind (ibind (f_wallet (SetNumConfsRequired (rc_reservation resCtx) (ucast (am_MinAcceptDepth msg)))) (\<lambda>_.
             ion (f_wallet (CommitConstraints (rc_reservation resCtx) (am_CsvDelay msg) (am_MaxAcceptedHTLCs msg)
                    (am_MaxValueInFlight msg) (am_HtlcMinimum msg) (am_ChannelReserve msg)))
               (failFundingFlow env peer pid) (\<lambda>_.
             ion (f_wallet (ProcessContribution (fe_wallet env) (rc_reservation resCtx)
                    (acceptContribution cfg msg (rc_chanAmt resCtx))))
               (failBoth env peer pid resCtx) (\<lambda>_.
             sendCreated cfg env peer pid resCtx)))) (\<lambda>_.
        updateTimestamp env peer pid)))"

definition handleFundingSigned ::
  "fundingConfig \<Rightarrow> fundingEnv \<Rightarrow> FundingSignedMsg \<Rightarrow> NetAddress \<Rightarrow> (fundingManager, unit) io" where
  "handleFundingSigned cfg env msg peerAddress =
     (let peer = na_IdentityKey peerAddress in
      ibind (iget (\<lambda>w. signedReservations w (sm_ChanID msg))) (\<lambda>found.
      ibind (imod (\<lambda>w. w\<lparr>signedReservations := (signedReservations w)(sm_ChanID msg := None)\<rparr>)) (\<lambda>_.
      case found of
        None \<Rightarrow> failFundingFlow env peer (replicate 32 0) (GoErr ''Unable to find signed reservation'')
      | Some pid \<Rightarrow>
          ion (getReservationCtx peer pid) (failFundingFlow env peer pid) (\<lambda>resCtx.
          ibind (f_wallet (res_FundingOutpoint (rc_reservation resCtx))) (\<lambda>fundingPoint.
          ibind (newDiscoverySignal (NewChanIDFromOutPoint fundingPoint)) (\<lambda>_.
          ion (f_wallet (CompleteReservation (fe_wallet env) (rc_reservation resCtx) (fc_ToSignatureBytes cfg (sm_CommitSig msg))))
            (\<lambda>e. ibind (sendErr (rc_err resCtx) e) (\<lambda>_. failFundingFlow env peer pid e)) (\<lambda>completeChan.
          ibind (ilogged (WatchNewChannel env completeChan)) (\<lambda>_.
          ibind (sendUpdate (rc_updates resCtx) (ChanPending fundingPoint)) (\<lambda>_.
          ibind (lockReservation peer pid) (\<lambda>_.
            goTask (WaitSigned peer pid (rc_updates resCtx) completeChan)))))))))))"

section \<open>Errors from the peer\<close>

definition ErrorCode_String :: "byte \<Rightarrow> string" where
  "ErrorCode_String e =
     (if e = 1 then ''Number of pending channels exceed maximum''
      else if e = 2 then ''Synchronizing blockchain''
      else if e = 3 then ''channel too large'' else ''unknown error'')"

definition handleErrorMsg :: "bytes \<Rightarrow> bytes \<Rightarrow> NetAddress \<Rightarrow> (fundingManager, unit) io" where
  "handleErrorMsg chanID data peerAddress =
     (let peer = na_IdentityKey peerAddress in
      ion (getReservationCtx peer chanID) (\<lambda>_. iret ()) (\<lambda>resCtx.
      case data of [] \<Rightarrow> ifail (GoPanic ''index out of range'')
      | lnErr # _ \<Rightarrow>
          ibind (sendErr (rc_err resCtx) (GoErr (if length data > 1 then map (\<lambda>b. char_of (unat b)) data
                                                  else ErrorCode_String lnErr))) (\<lambda>_.
            ilogged (cancelReservationCtx peer chanID))))"

section \<open>The coordinator\<close>

record pendingChannel =
  pc_identityPub :: PublicKey
  pc_channelPoint :: OutPoint
  pc_capacity :: u64
  pc_localBalance :: u64
  pc_remoteBalance :: u64

definition handlePendingChannels :: "fundingManager \<Rightarrow> pendingChannel list" where
  "handlePendingChannels w =
     map (\<lambda>c. \<lparr>pc_identityPub = oc_IdentityPub c, pc_channelPoint = oc_FundingOutpoint c, pc_capacity = oc_Capacity c,
               pc_localBalance = ToSatoshis (oc_LocalBalance c), pc_remoteBalance = ToSatoshis (oc_RemoteBalance c)\<rparr>)
       (filter oc_IsPending (channels (fm_wallet w)))"

definition msgBufferSize :: nat where "msgBufferSize = 50"

text \<open>A peer hands a message over; \<open>quit\<close> is whether the manager is shutting down.\<close>

definition processFundingMsg :: "bool \<Rightarrow> FundingMsg \<Rightarrow> NetAddress \<Rightarrow> (fundingManager, unit) io" where
  "processFundingMsg quit msg peerAddress w =
     (if length (fundingMsgs w) < msgBufferSize then (Inr (), w\<lparr>fundingMsgs := fundingMsgs w @ [(peerAddress, msg)]\<rparr>)
      else if quit then (Inr (), w) else (Inl (GoBlocked ''fundingMsgs''), w))"

definition initFundingWorkflow :: "NetAddress \<Rightarrow> openChanReq \<Rightarrow> (fundingManager, unit) io" where
  "initFundingWorkflow peerAddress req w =
     (if length (fundingRequests w) < msgBufferSize
      then (Inr (), w\<lparr>fundingRequests := fundingRequests w @ [(peerAddress, req)]\<rparr>)
      else (Inl (GoBlocked ''fundingRequests''), w))"

definition handleMsg :: "fundingConfig \<Rightarrow> fundingEnv \<Rightarrow> NetAddress \<Rightarrow> FundingMsg \<Rightarrow> (fundingManager, unit) io" where
  "handleMsg cfg env peerAddress fmsg =
     (case fmsg of
        MsgOpenChannel msg \<Rightarrow> handleFundingOpen cfg env msg peerAddress
      | MsgAcceptChannel msg \<Rightarrow> handleFundingAccept cfg env msg peerAddress
      | MsgFundingCreated msg \<Rightarrow> handleFundingCreated cfg env msg peerAddress
      | MsgFundingSigned msg \<Rightarrow> handleFundingSigned cfg env msg peerAddress
      | MsgFundingLocked msg \<Rightarrow> goTask (HandleLocked peerAddress msg)
      | MsgError chanID data \<Rightarrow> handleErrorMsg chanID data peerAddress)"

text \<open>The cases of the loop that change the state; a query for the pending channels does not.\<close>

datatype coordinatorEvent = FundingMsgReady | FundingRequestReady | ZombieSweepTick

definition reservationCoordinator :: "fundingConfig \<Rightarrow> fundingEnv \<Rightarrow> coordinatorEvent \<Rightarrow> (fundingManager, unit) io" where
  "reservationCoordinator cfg env ev w =
     (case ev of
        FundingMsgReady \<Rightarrow>
          (case fundingMsgs w of [] \<Rightarrow> (Inr (), w)
           | (peerAddress, msg) # rest \<Rightarrow> handleMsg cfg env peerAddress msg (w\<lparr>fundingMsgs := rest\<rparr>))
      | FundingRequestReady \<Rightarrow>
          (case fundingRequests w of [] \<Rightarrow> (Inr (), w)
           | (peerAddress, req) # rest \<Rightarrow> handleInitFundingMsg cfg env req peerAddress (w\<lparr>fundingRequests := rest\<rparr>))
      | ZombieSweepTick \<Rightarrow> pruneZombieReservations cfg env w)"

end
