(* ===== verification/FundingOpening.thy ===== *)
theory FundingOpening
  imports FundingFlow
begin

text \<open>
  The opening of a channel (\<^verbatim>\<open>src/lnd/fundingmanager.go\<close>): waiting for the funding transaction
  to confirm, the steps from there to the announced channel, each recorded on disk, what the
  peer's \<^verbatim>\<open>FundingLocked\<close> does, and how a restart takes up what was left. Each goroutine is a
  handler on the state of the funding manager; the chain backend, the gossiper, the database
  and the shutdown signal are its environment (\<open>openingEnv\<close>).
\<close>

section \<open>Environment\<close>

text \<open>What a select on a confirmation ends with.\<close>

datatype confEvent = Confirmed u32 u32 | NotifierClosed | WaitCanceled | ConfQuit

record openingEnv =
  oe_unix :: u32
  oe_RegisterBlockEpochNtfn :: "goerr option"
  oe_RegisterConfirmationsNtfn :: "hash \<Rightarrow> u32 \<Rightarrow> u32 \<Rightarrow> goerr option"
  oe_MarkAsOpen :: "OpenChannel \<Rightarrow> goerr option"
  oe_commit :: "channelOpeningState \<Rightarrow> goerr option" \<comment> \<open>the commit of a saved opening state\<close>
  oe_commitDelete :: "goerr option"
  oe_ReportShortChanID :: "OutPoint \<Rightarrow> ShortChannelID \<Rightarrow> goerr option"
  oe_handover :: bool \<comment> \<open>the short channel id is received, not quit\<close>
  oe_NewLightningChannel :: "OpenChannel \<Rightarrow> goerr option"
  oe_NextRevocationKey :: "OpenChannel \<Rightarrow> goerr + PublicKey"
  oe_sends :: "goerr option list" \<comment> \<open>the attempts to send FundingLocked, until it is sent or quit\<close>
  oe_SendAnnouncement :: "gossip \<Rightarrow> goerr option"
  oe_sixConfs :: confEvent
  oe_CurrentNodeAnnouncement :: "goerr + bytes"

definition f_Update :: "goerr option \<Rightarrow> (db \<Rightarrow> (goerr + 'a) \<times> db) \<Rightarrow> (fundingManager, 'a) io" where
  "f_Update commit op w =
     (case op (fm_db w) of (Inl e, t) \<Rightarrow> (Inl e, w)
      | (Inr x, t) \<Rightarrow> (case commit of Some e \<Rightarrow> (Inl e, w) | None \<Rightarrow> (Inr x, w\<lparr>fm_db := t\<rparr>)))"

definition saveOpening :: "openingEnv \<Rightarrow> OpenChannel \<Rightarrow> channelOpeningState \<Rightarrow> ShortChannelID \<Rightarrow> (fundingManager, unit) io" where
  "saveOpening oe chan opening shortChanID =
     f_Update (oe_commit oe opening) (saveChannelOpeningState (oc_FundingOutpoint chan) opening shortChanID)"

definition MarkAsOpen :: "openingEnv \<Rightarrow> OpenChannel \<Rightarrow> ShortChannelID \<Rightarrow> (fundingManager, unit) io" where
  "MarkAsOpen oe chan openLoc =
     ibind (fails (oe_MarkAsOpen oe chan)) (\<lambda>_.
       f_wallet (\<lambda>l. if chanKey chan \<in> chanKey ` set (channels l)
         then (Inr (), l\<lparr>channels := changeChannel chan (\<lambda>d. d\<lparr>oc_IsPending := False, oc_ShortChanID := openLoc\<rparr>) (channels l)\<rparr>)
         else (Inl (GoErr ''channel not found''), l)))"

definition closeChan :: "nat \<Rightarrow> (fundingManager, unit) io" where
  "closeChan c w = (if c \<in> set (fm_closedChans w) then (Inl (GoPanic ''close of closed channel''), w)
     else (Inr (), w\<lparr>fm_closedChans := fm_closedChans w @ [c]\<rparr>))"

section \<open>Waiting for the confirmation\<close>

definition signalDiscovery :: "ChannelID \<Rightarrow> (fundingManager, unit) io" where
  "signalDiscovery chanID =
     ibind (iget (\<lambda>w. localDiscoverySignals w chanID)) (\<lambda>found.
       case found of None \<Rightarrow> iret () | Some discoverySignal \<Rightarrow> closeChan discoverySignal)"

text \<open>The result is the short channel id that is sent on, or nothing when only \<^verbatim>\<open>confChan\<close> is closed.\<close>

definition waitForFundingConfirmation ::
  "openingEnv \<Rightarrow> confEvent \<Rightarrow> OpenChannel \<Rightarrow> (fundingManager, ShortChannelID option) io" where
  "waitForFundingConfirmation oe ev completeChan =
     (let fundingPoint = oc_FundingOutpoint completeChan in
      case oe_RegisterConfirmationsNtfn oe (Hash fundingPoint) (ucast (oc_NumConfsRequired completeChan))
             (oc_FundingBroadcastHeight completeChan) of
        Some e \<Rightarrow> iret None
      | None \<Rightarrow>
          (case ev of
             Confirmed blockHeight txIndex \<Rightarrow>
               (let shortChanID = \<lparr>BlockHeight = blockHeight, TxIndex = txIndex, TxPosition = ucast (Index fundingPoint)\<rparr> in
                ion (ibind (MarkAsOpen oe completeChan shortChanID) (\<lambda>_.
                       saveOpening oe completeChan markedOpen shortChanID)) (\<lambda>_. iret None) (\<lambda>_.
                ibind (ilogged (ibind (fails (oe_ReportShortChanID oe fundingPoint shortChanID)) (\<lambda>_.
                         imod (\<lambda>w. w\<lparr>fm_reported := fm_reported w @ [(fundingPoint, shortChanID)]\<rparr>)))) (\<lambda>_.
                if \<not> oe_handover oe then iret None
                else ibind (signalDiscovery (NewChanIDFromOutPoint fundingPoint)) (\<lambda>_. iret (Some shortChanID)))))
           | _ \<Rightarrow> iret None))"

definition maxWaitNumBlocksFundingConf :: u32 where "maxWaitNumBlocksFundingConf = 288"

datatype waitEvent = Epoch u32 | EpochsClosed | Conf confEvent

datatype waitOutcome = FundingTimeout | FundingConfirmed ShortChannelID | WaitFailed | WaitStopped

text \<open>
  The events that reach the loop before the shutdown. When the epoch client is closed the loop
  ends, and a confirmation that is seen afterwards finds nobody to hand the result to.
\<close>

fun waitLoop :: "openingEnv \<Rightarrow> OpenChannel \<Rightarrow> bool \<Rightarrow> waitEvent list \<Rightarrow> (fundingManager, waitOutcome) io" where
  "waitLoop oe completeChan looping [] = iret WaitStopped"
| "waitLoop oe completeChan looping (Epoch height # evs) =
     (if looping \<and> height \<ge> oc_FundingBroadcastHeight completeChan + maxWaitNumBlocksFundingConf \<and> \<not> oc_IsInitiator completeChan
      then iret FundingTimeout else waitLoop oe completeChan looping evs)"
| "waitLoop oe completeChan looping (EpochsClosed # evs) = waitLoop oe completeChan False evs"
| "waitLoop oe completeChan looping (Conf ev # evs) =
     ibind (waitForFundingConfirmation (if looping then oe else oe\<lparr>oe_handover := False\<rparr>) ev completeChan) (\<lambda>r.
       iret (case r of Some shortChanID \<Rightarrow> FundingConfirmed shortChanID
             | None \<Rightarrow> if looping then WaitFailed else WaitStopped))"

definition waitForFundingWithTimeout ::
  "openingEnv \<Rightarrow> OpenChannel \<Rightarrow> waitEvent list \<Rightarrow> (fundingManager, waitOutcome) io" where
  "waitForFundingWithTimeout oe completeChan evs =
     (case oe_RegisterBlockEpochNtfn oe of Some e \<Rightarrow> iret WaitFailed | None \<Rightarrow> waitLoop oe completeChan True evs)"

section \<open>Announcing a channel\<close>

definition scidBytes :: "ShortChannelID \<Rightarrow> goerr + bytes" where
  "scidBytes c =
     (if BlockHeight c > push_bit 24 1 - 1 then Inl (GoErr ''block height should fit in 3 bytes'')
      else if TxIndex c > push_bit 24 1 - 1 then Inl (GoErr ''tx index should fit in 3 bytes'')
      else Inr (drop 1 (PutUint32 (BlockHeight c)) @ drop 1 (PutUint32 (TxIndex c)) @ PutUint16 (TxPosition c)))"

text \<open>The announcement has no features; they are encoded by their length.\<close>

definition ann_DataToSign :: "ChannelAnnouncement \<Rightarrow> goerr + bytes" where
  "ann_DataToSign a =
     (case scidBytes (ca_ShortChannelID a) of Inl e \<Rightarrow> Inl e
      | Inr scid \<Rightarrow> Inr (PutUint16 0 @ hash_bytes (ca_ChainHash a) @ scid @ ca_NodeID1 a @ ca_NodeID2 a
                          @ ca_BitcoinKey1 a @ ca_BitcoinKey2 a))"

definition update_DataToSign :: "ChannelUpdate \<Rightarrow> goerr + bytes" where
  "update_DataToSign a =
     (case scidBytes (cu_ShortChannelID a) of Inl e \<Rightarrow> Inl e
      | Inr scid \<Rightarrow> Inr (hash_bytes (cu_ChainHash a) @ scid @ PutUint32 (cu_Timestamp a) @ PutUint16 (cu_Flags a)
                          @ PutUint16 (cu_TimeLockDelta a) @ PutUint64 (cu_HtlcMinimumMsat a)
                          @ PutUint32 (cu_BaseFee a) @ PutUint32 (cu_FeeRate a)))"

definition chanAnnFor :: "hash \<Rightarrow> PublicKey \<Rightarrow> PublicKey \<Rightarrow> PublicKey \<Rightarrow> PublicKey \<Rightarrow> ShortChannelID
    \<Rightarrow> ChannelAnnouncement \<times> u16" where
  "chanAnnFor chain localPubKey remotePubKey localFundingKey remoteFundingKey shortChanID =
     (if SerializeCompressed localPubKey < SerializeCompressed remotePubKey
      then (\<lparr>ca_ShortChannelID = shortChanID, ca_ChainHash = chain, ca_NodeID1 = newSerializedKey localPubKey,
             ca_NodeID2 = newSerializedKey remotePubKey, ca_BitcoinKey1 = newSerializedKey localFundingKey,
             ca_BitcoinKey2 = newSerializedKey remoteFundingKey\<rparr>, 0)
      else (\<lparr>ca_ShortChannelID = shortChanID, ca_ChainHash = chain, ca_NodeID1 = newSerializedKey remotePubKey,
             ca_NodeID2 = newSerializedKey localPubKey, ca_BitcoinKey1 = newSerializedKey remoteFundingKey,
             ca_BitcoinKey2 = newSerializedKey localFundingKey\<rparr>, 1))"

definition signAndWrap :: "fundingConfig \<Rightarrow> PublicKey \<Rightarrow> bytes \<Rightarrow> goerr + Sig" where
  "signAndWrap cfg key msg = (case fc_SignMessage cfg key msg of Inl e \<Rightarrow> Inl e | Inr sig \<Rightarrow> fc_NewSig cfg sig)"

definition newChanAnnouncement :: "fundingConfig \<Rightarrow> u32 \<Rightarrow> PublicKey \<Rightarrow> PublicKey \<Rightarrow> PublicKey \<Rightarrow> PublicKey
    \<Rightarrow> ShortChannelID \<Rightarrow> ChannelID \<Rightarrow> u64 \<Rightarrow> goerr + ChannelAnnouncement \<times> ChannelUpdate \<times> AnnounceSignatures" where
  "newChanAnnouncement cfg now localPubKey remotePubKey localFundingKey remoteFundingKey shortChanID chanID remoteMinHTLC =
     (let (chanAnn, chanFlags) = chanAnnFor (fc_GenesisHash cfg) localPubKey remotePubKey localFundingKey remoteFundingKey shortChanID;
          policy = fc_DefaultRoutingPolicy cfg;
          chanUpdateAnn = \<lparr>cu_Signature = replicate 64 0, cu_ShortChannelID = shortChanID, cu_ChainHash = fc_GenesisHash cfg,
            cu_Timestamp = now, cu_Flags = chanFlags, cu_TimeLockDelta = ucast (fp_TimeLockDelta policy),
            cu_HtlcMinimumMsat = remoteMinHTLC, cu_BaseFee = ucast (fp_BaseFee policy), cu_FeeRate = ucast (fp_FeeRate policy)\<rparr>
      in case update_DataToSign chanUpdateAnn of Inl e \<Rightarrow> Inl e | Inr chanUpdateMsg \<Rightarrow>
        (case signAndWrap cfg (fc_IDKey cfg) chanUpdateMsg of Inl e \<Rightarrow> Inl e | Inr updateSig \<Rightarrow>
        (case ann_DataToSign chanAnn of Inl e \<Rightarrow> Inl e | Inr chanAnnMsg \<Rightarrow>
        (case fc_SignMessage cfg (fc_IDKey cfg) chanAnnMsg of Inl e \<Rightarrow> Inl e | Inr nodeSig \<Rightarrow>
        (case fc_SignMessage cfg localFundingKey chanAnnMsg of Inl e \<Rightarrow> Inl e | Inr bitcoinSig \<Rightarrow>
        (case fc_NewSig cfg nodeSig of Inl e \<Rightarrow> Inl e | Inr nodeSignature \<Rightarrow>
        (case fc_NewSig cfg bitcoinSig of Inl e \<Rightarrow> Inl e | Inr bitcoinSignature \<Rightarrow>
           Inr (chanAnn, chanUpdateAnn\<lparr>cu_Signature := updateSig\<rparr>,
                \<lparr>as_ChannelID = chanID, as_ShortChannelID = shortChanID, as_NodeSignature = nodeSignature,
                 as_BitcoinSignature = bitcoinSignature\<rparr>))))))))"

text \<open>A rejection because the message is outdated or ignored is no error.\<close>

definition SendAnnouncement :: "openingEnv \<Rightarrow> gossip \<Rightarrow> (fundingManager, unit) io" where
  "SendAnnouncement oe msg =
     (case oe_SendAnnouncement oe msg of
        None \<Rightarrow> imod (\<lambda>w. w\<lparr>fm_announced := fm_announced w @ [msg]\<rparr>)
      | Some e \<Rightarrow> if e = ErrOutdated \<or> e = ErrIgnored then iret () else ifail e)"

definition channelAnnouncement :: "fundingConfig \<Rightarrow> openingEnv \<Rightarrow> OpenChannel \<Rightarrow> ShortChannelID
    \<Rightarrow> goerr + ChannelAnnouncement \<times> ChannelUpdate \<times> AnnounceSignatures" where
  "channelAnnouncement cfg oe chan shortChanID =
     newChanAnnouncement cfg (oe_unix oe) (fc_IDKey cfg) (oc_IdentityPub chan) (cg_MultiSigKey (oc_LocalChanCfg chan))
       (cg_MultiSigKey (oc_RemoteChanCfg chan)) shortChanID (NewChanIDFromOutPoint (oc_FundingOutpoint chan))
       (ct_MinHTLC (cg_Constraints (oc_RemoteChanCfg chan)))"

definition announceChannel :: "fundingConfig \<Rightarrow> openingEnv \<Rightarrow> OpenChannel \<Rightarrow> ShortChannelID \<Rightarrow> (fundingManager, unit) io" where
  "announceChannel cfg oe chan shortChanID =
     ibind (ilift (channelAnnouncement cfg oe chan shortChanID)) (\<lambda>(chanAnn, chanUpdateAnn, chanProof).
     ibind (SendAnnouncement oe (GAnnounceSignatures chanProof)) (\<lambda>_.
     ibind (ilift (oe_CurrentNodeAnnouncement oe)) (\<lambda>nodeAnn.
       SendAnnouncement oe (GNodeAnnouncement nodeAnn))))"

section \<open>The steps of the opening\<close>

fun sendLoop :: "PublicKey \<Rightarrow> FundingMsg \<Rightarrow> goerr option list \<Rightarrow> (fundingManager, unit) io" where
  "sendLoop peer msg [] = ifail (GoErr ''shutting down unable to send'')"
| "sendLoop peer msg (None # attempts) = imod (\<lambda>w. w\<lparr>fm_sent := fm_sent w @ [(peer, msg)]\<rparr>)"
| "sendLoop peer msg (Some e # attempts) = sendLoop peer msg attempts"

definition sendFundingLocked :: "openingEnv \<Rightarrow> OpenChannel \<Rightarrow> ShortChannelID \<Rightarrow> (fundingManager, unit) io" where
  "sendFundingLocked oe completeChan shortChanID =
     ibind (ilift (oe_NextRevocationKey oe completeChan)) (\<lambda>nextRevocation.
     ibind (sendLoop (oc_IdentityPub completeChan) (MsgFundingLocked \<lparr>lm_ChanID = NewChanIDFromOutPoint (oc_FundingOutpoint completeChan),
              lm_NextPerCommitmentPoint = nextRevocation\<rparr>) (oe_sends oe)) (\<lambda>_.
       saveOpening oe completeChan fundingLockedSent shortChanID))"

definition addToRouterGraph ::
  "fundingConfig \<Rightarrow> openingEnv \<Rightarrow> OpenChannel \<Rightarrow> ShortChannelID \<Rightarrow> (fundingManager, unit) io" where
  "addToRouterGraph cfg oe completeChan shortChanID =
     ibind (ilift (channelAnnouncement cfg oe completeChan shortChanID)) (\<lambda>(chanAnn, chanUpdateAnn, chanProof).
     ibind (SendAnnouncement oe (GChannelAnnouncement chanAnn)) (\<lambda>_.
     ibind (SendAnnouncement oe (GChannelUpdate chanUpdateAnn)) (\<lambda>_.
       saveOpening oe completeChan addedToRouterGraph shortChanID)))"

definition FFAnnounceChannel :: byte where "FFAnnounceChannel = 1"

definition annAfterSixConfs ::
  "fundingConfig \<Rightarrow> openingEnv \<Rightarrow> OpenChannel \<Rightarrow> ShortChannelID \<Rightarrow> (fundingManager, unit) io" where
  "annAfterSixConfs cfg oe completeChan shortChanID =
     ibind (if oc_ChannelFlags completeChan AND FFAnnounceChannel = 0 then iret ()
            else
              (let numConfs = (if ucast (oc_NumConfsRequired completeChan) < (6 :: u32) then 6
                               else ucast (oc_NumConfsRequired completeChan)) in
               ibind (fails (oe_RegisterConfirmationsNtfn oe (Hash (oc_FundingOutpoint completeChan)) numConfs
                        (oc_FundingBroadcastHeight completeChan))) (\<lambda>_.
               case oe_sixConfs oe of
                 Confirmed _ _ \<Rightarrow> announceChannel cfg oe completeChan shortChanID
               | _ \<Rightarrow> ifail (GoErr ''shutting down'')))) (\<lambda>_.
       f_Update (oe_commitDelete oe) (deleteChannelOpeningState (oc_FundingOutpoint completeChan)))"

definition handleFundingConfirmation ::
  "fundingConfig \<Rightarrow> openingEnv \<Rightarrow> OpenChannel \<Rightarrow> ShortChannelID \<Rightarrow> (fundingManager, unit) io" where
  "handleFundingConfirmation cfg oe completeChan shortChanID =
     ibind (fails (oe_NewLightningChannel oe completeChan)) (\<lambda>_.
     ibind (sendFundingLocked oe completeChan shortChanID) (\<lambda>_.
     ibind (addToRouterGraph cfg oe completeChan shortChanID) (\<lambda>_.
       annAfterSixConfs cfg oe completeChan shortChanID)))"

section \<open>The goroutines\<close>

definition runWaitCreated :: "fundingConfig \<Rightarrow> fundingEnv \<Rightarrow> openingEnv \<Rightarrow> waitEvent list \<Rightarrow> PublicKey \<Rightarrow> bytes
    \<Rightarrow> OpenChannel \<Rightarrow> (fundingManager, unit) io" where
  "runWaitCreated cfg env oe evs peerKey pid completeChan =
     ibind (waitForFundingWithTimeout oe completeChan evs) (\<lambda>outcome.
       case outcome of
         FundingTimeout \<Rightarrow> deleteFromDatabase env completeChan
       | FundingConfirmed shortChanID \<Rightarrow>
           ibind (deleteReservationCtx peerKey pid) (\<lambda>_.
             ilogged (handleFundingConfirmation cfg oe completeChan shortChanID))
       | _ \<Rightarrow> iret ())"

definition runWaitSigned :: "fundingConfig \<Rightarrow> openingEnv \<Rightarrow> confEvent \<Rightarrow> PublicKey \<Rightarrow> bytes \<Rightarrow> nat option
    \<Rightarrow> OpenChannel \<Rightarrow> (fundingManager, unit) io" where
  "runWaitSigned cfg oe ev peerKey pid updates completeChan =
     ibind (waitForFundingConfirmation oe ev completeChan) (\<lambda>r.
       case r of None \<Rightarrow> iret ()
       | Some shortChanID \<Rightarrow>
           ilogged (ibind (fails (oe_NewLightningChannel oe completeChan)) (\<lambda>_.
                    ibind (sendFundingLocked oe completeChan shortChanID) (\<lambda>_.
                    ibind (addToRouterGraph cfg oe completeChan shortChanID) (\<lambda>_.
                    ibind (sendUpdate updates (ChanOpen (oc_FundingOutpoint completeChan))) (\<lambda>_.
                    ibind (deleteReservationCtx peerKey pid) (\<lambda>_.
                      annAfterSixConfs cfg oe completeChan shortChanID)))))))"

definition runWaitRestart :: "fundingConfig \<Rightarrow> fundingEnv \<Rightarrow> openingEnv \<Rightarrow> waitEvent list \<Rightarrow> OpenChannel \<Rightarrow> (fundingManager, unit) io" where
  "runWaitRestart cfg env oe evs ch =
     ibind (waitForFundingWithTimeout oe ch evs) (\<lambda>outcome.
       case outcome of
         FundingTimeout \<Rightarrow> deleteFromDatabase env ch
       | FundingConfirmed shortChanID \<Rightarrow> ilogged (handleFundingConfirmation cfg oe ch shortChanID)
       | _ \<Rightarrow> iret ())"

definition resumeOpening :: "fundingConfig \<Rightarrow> openingEnv \<Rightarrow> channelOpeningState \<Rightarrow> OpenChannel \<Rightarrow> ShortChannelID
    \<Rightarrow> (fundingManager, unit) io" where
  "resumeOpening cfg oe channelState dbChan shortChanID =
     ilogged (if channelState = markedOpen then handleFundingConfirmation cfg oe dbChan shortChanID
              else if channelState = fundingLockedSent then
                ibind (addToRouterGraph cfg oe dbChan shortChanID) (\<lambda>_. annAfterSixConfs cfg oe dbChan shortChanID)
              else if channelState = addedToRouterGraph then annAfterSixConfs cfg oe dbChan shortChanID
              else iret ())"

end
