(* ===== verification/FundingStart.thy ===== *)
theory FundingStart
  imports FundingOpening
begin

text \<open>
  The peer's \<^verbatim>\<open>FundingLocked\<close>, the start of the funding manager, and the goroutines as steps of
  the whole (\<^verbatim>\<open>src/lnd/fundingmanager.go\<close>, with the closures that \<^verbatim>\<open>src/lnd/client.go\<close>
  configures it with).
\<close>

section \<open>The peer locks the channel in\<close>

text \<open>How a select with a send and the quit channel ends; nobody may ever take what is sent.\<close>

datatype sendSelect = Sends | Quits | Hangs

record lockedEnv =
  le_FetchAllChannels :: "goerr option"
  le_NewLightningChannel :: "OpenChannel \<Rightarrow> goerr option"
  le_toArbiter :: sendSelect
  le_InitNextRevocation :: "goerr option"
  le_FindPeer :: "goerr option"
  le_toPeer :: sendSelect

definition FindChannel :: "lockedEnv \<Rightarrow> ChannelID \<Rightarrow> (fundingManager, OpenChannel) io" where
  "FindChannel le chanID =
     ibind (fails (le_FetchAllChannels le)) (\<lambda>_.
     ibind (iget (\<lambda>w. find (\<lambda>c. NewChanIDFromOutPoint (oc_FundingOutpoint c) = chanID) (channels (fm_wallet w)))) (\<lambda>found.
       case found of None \<Rightarrow> ifail (GoErr ''unable to find channel'')
       | Some chan \<Rightarrow> ibind (fails (le_NewLightningChannel le chan)) (\<lambda>_. iret chan)))"

definition InitNextRevocation :: "lockedEnv \<Rightarrow> OpenChannel \<Rightarrow> PublicKey \<Rightarrow> (fundingManager, OpenChannel) io" where
  "InitNextRevocation le chan revKey =
     ibind (fails (le_InitNextRevocation le)) (\<lambda>_.
     ibind (f_wallet (imod (\<lambda>l. l\<lparr>channels := changeChannel chan (\<lambda>d. d\<lparr>oc_RemoteNextRevocation := Some revKey\<rparr>) (channels l)\<rparr>))) (\<lambda>_.
       iret (chan\<lparr>oc_RemoteNextRevocation := Some revKey\<rparr>)))"

definition closeBarrier :: "ChannelID \<Rightarrow> (fundingManager, unit) io" where
  "closeBarrier chanID =
     ibind (iget (\<lambda>w. newChanBarriers w chanID)) (\<lambda>found.
       case found of None \<Rightarrow> iret ()
       | Some chanBarrier \<Rightarrow> ibind (closeChan chanBarrier) (\<lambda>_.
           imod (\<lambda>w. w\<lparr>newChanBarriers := (newChanBarriers w)(chanID := None)\<rparr>)))"

text \<open>Up to the wait for the local confirmation; a second message for the same channel is dropped.\<close>

definition beginFundingLocked :: "NetAddress \<Rightarrow> FundingLockedMsg \<Rightarrow> (fundingManager, unit) io" where
  "beginFundingLocked peerAddress msg w =
     (let chanID = lm_ChanID msg in
      if chanID \<in> set (handleFundingLockedBarriers w) then (Inr (), w)
      else goTask (FinishLocked peerAddress msg (localDiscoverySignals w chanID))
             (w\<lparr>handleFundingLockedBarriers := handleFundingLockedBarriers w @ [chanID]\<rparr>))"

text \<open>
  Once the channel was handed to the peer the goroutine waits until the peer closes \<^verbatim>\<open>newChanDone\<close>:
  what is left of it becomes the task \<open>AwaitNewChan\<close>, and the result is true. In every other case
  it returns, and the deferred functions that are registered by then run.
\<close>

definition processLocked :: "lockedEnv \<Rightarrow> NetAddress \<Rightarrow> FundingLockedMsg \<Rightarrow> (fundingManager, bool) io" where
  "processLocked le peerAddress msg =
     (let chanID = lm_ChanID msg; lift_barrier = ibind (closeBarrier chanID) (\<lambda>_. iret False) in
      ibind (FindChannel le chanID) (\<lambda>channel.
      if oc_RemoteNextRevocation channel \<noteq> None then iret False
      else
        (case le_toArbiter le of Hangs \<Rightarrow> ifail (GoBlocked ''ArbiterChan'') | Quits \<Rightarrow> iret False
         | Sends \<Rightarrow>
             ibind (imod (\<lambda>w. w\<lparr>fm_arbiterChan := fm_arbiterChan w @ [oc_FundingOutpoint channel]\<rparr>)) (\<lambda>_.
             ibind (InitNextRevocation le channel (lm_NextPerCommitmentPoint msg)) (\<lambda>channel.
             if le_FindPeer le \<noteq> None then lift_barrier
             else
               (case le_toPeer le of Hangs \<Rightarrow> ifail (GoBlocked ''newChannels'') | Quits \<Rightarrow> lift_barrier
                | Sends \<Rightarrow>
                    ibind (imod (\<lambda>w. w\<lparr>fm_peerChannels := fm_peerChannels w @ [(na_IdentityKey peerAddress, channel)]\<rparr>)) (\<lambda>_.
                    ibind (goTask (AwaitNewChan chanID)) (\<lambda>_. iret True))))))))"

definition leaveFundingLocked :: "ChannelID \<Rightarrow> (fundingManager, unit) io" where
  "leaveFundingLocked chanID =
     imod (\<lambda>w. w\<lparr>handleFundingLockedBarriers := removeAll chanID (handleFundingLockedBarriers w)\<rparr>)"

definition finishFundingLocked :: "lockedEnv \<Rightarrow> NetAddress \<Rightarrow> FundingLockedMsg \<Rightarrow> nat option \<Rightarrow> (fundingManager, unit) io" where
  "finishFundingLocked le peerAddress msg localDiscoverySignal =
     (let chanID = lm_ChanID msg in
      ibind (if localDiscoverySignal = None then iret ()
             else imod (\<lambda>w. w\<lparr>localDiscoverySignals := (localDiscoverySignals w)(chanID := None)\<rparr>)) (\<lambda>_.
      ion (processLocked le peerAddress msg) (\<lambda>_. leaveFundingLocked chanID)
        (\<lambda>waits. if waits then iret () else leaveFundingLocked chanID)))"

text \<open>
  The rest of the goroutine, when the peer has closed \<^verbatim>\<open>newChanDone\<close>, or the funding manager quits.
  A peer that never closes it leaves the goroutine waiting, the barrier in place, and further
  \<^verbatim>\<open>FundingLocked\<close> messages of the channel shut out.
\<close>

definition awaitNewChan :: "ChannelID \<Rightarrow> (fundingManager, unit) io" where
  "awaitNewChan chanID = ibind (closeBarrier chanID) (\<lambda>_. leaveFundingLocked chanID)"

text \<open>A goroutine that sends updates waits while the channel has a barrier that is not closed.\<close>

definition waitUntilChannelOpen :: "ChannelID \<Rightarrow> fundingManager \<Rightarrow> bool" where
  "waitUntilChannelOpen targetChan w =
     (case newChanBarriers w targetChan of None \<Rightarrow> True | Some barrier \<Rightarrow> barrier \<in> set (fm_closedChans w))"

section \<open>Start\<close>

record startEnv =
  se_FetchPendingChannels :: "goerr option"
  se_FetchAllChannels :: "goerr option"
  se_PublishTransaction :: "MsgTx option \<Rightarrow> goerr option"
  se_loopVar :: "nat \<Rightarrow> nat"

definition loadPending :: "startEnv \<Rightarrow> OpenChannel \<Rightarrow> (fundingManager, unit) io" where
  "loadPending se ch =
     (let chanID = NewChanIDFromOutPoint (oc_FundingOutpoint ch) in
      ibind (newBarrier chanID) (\<lambda>_.
      ibind (newDiscoverySignal chanID) (\<lambda>_.
      ibind (if oc_ChanType ch = SingleFunder \<and> oc_IsInitiator ch
             then ilogged (ibind (fails (se_PublishTransaction se (oc_FundingTxn ch))) (\<lambda>_.
                    f_wallet (imod (\<lambda>l. l\<lparr>lw_published := lw_published l @ (case oc_FundingTxn ch of None \<Rightarrow> [] | Some tx \<Rightarrow> [tx])\<rparr>))))
             else iret ()) (\<lambda>_.
        goTask (WaitRestart ch)))))"

text \<open>
  The goroutine of the last state reads the loop variable instead of its argument: it sees the
  channel that the variable holds when it runs, the one with number \<open>se_loopVar i\<close>, not before \<open>i\<close>.
\<close>

definition loadOpening :: "startEnv \<Rightarrow> OpenChannel list \<Rightarrow> nat \<Rightarrow> (fundingManager, unit) io" where
  "loadOpening se openChannels i =
     (let ch = openChannels ! i; chanID = NewChanIDFromOutPoint (oc_FundingOutpoint ch) in
      ibind (iget (\<lambda>w. getChannelOpeningState (oc_FundingOutpoint ch) (fm_db w))) (\<lambda>r.
      case r of
        Inl e \<Rightarrow> if e = ErrChannelNotFound then iret () else ifail e
      | Inr (channelState, shortChanID) \<Rightarrow>
          ibind (if oc_IsPending ch then newBarrier chanID else iret ()) (\<lambda>_.
            goTask (ResumeOpening channelState
              (if channelState = addedToRouterGraph then openChannels ! se_loopVar se i else ch) shortChanID))))"

definition fm_Start :: "startEnv \<Rightarrow> (fundingManager, unit) io" where
  "fm_Start se =
     ibind (fails (se_FetchPendingChannels se)) (\<lambda>_.
     ibind (iget (\<lambda>w. filter oc_IsPending (channels (fm_wallet w)))) (\<lambda>pendingChannels.
     ibind (iforeach (loadPending se) pendingChannels) (\<lambda>_.
     ibind (fails (se_FetchAllChannels se)) (\<lambda>_.
     ibind (iget (\<lambda>w. channels (fm_wallet w))) (\<lambda>openChannels.
       iforeach (loadOpening se openChannels) [0..<length openChannels])))))"

section \<open>The goroutines\<close>

record goEnv =
  ge_funding :: fundingEnv
  ge_opening :: openingEnv
  ge_locked :: lockedEnv
  ge_waitEvents :: "waitEvent list"
  ge_confEvent :: confEvent

text \<open>
  A goroutine runs from where it waits, once that has happened; one that waits for the local
  confirmation only once its signal is closed.
\<close>

definition runnable :: "fundingTask \<Rightarrow> fundingManager \<Rightarrow> bool" where
  "runnable t w = (case t of FinishLocked _ _ (Some c) \<Rightarrow> c \<in> set (fm_closedChans w) | _ \<Rightarrow> True)"

definition runTask :: "fundingConfig \<Rightarrow> goEnv \<Rightarrow> fundingTask \<Rightarrow> (fundingManager, unit) io" where
  "runTask cfg ge t =
     (case t of
        WaitCreated peer pid chan \<Rightarrow> runWaitCreated cfg (ge_funding ge) (ge_opening ge) (ge_waitEvents ge) peer pid chan
      | WaitSigned peer pid updates chan \<Rightarrow> runWaitSigned cfg (ge_opening ge) (ge_confEvent ge) peer pid updates chan
      | WaitRestart chan \<Rightarrow> runWaitRestart cfg (ge_funding ge) (ge_opening ge) (ge_waitEvents ge) chan
      | ResumeOpening channelState chan shortChanID \<Rightarrow> resumeOpening cfg (ge_opening ge) channelState chan shortChanID
      | HandleLocked peerAddress msg \<Rightarrow> beginFundingLocked peerAddress msg
      | FinishLocked peerAddress msg sig \<Rightarrow> finishFundingLocked (ge_locked ge) peerAddress msg sig
      | AwaitNewChan chanID \<Rightarrow> awaitNewChan chanID)"

definition stepTask :: "fundingConfig \<Rightarrow> goEnv \<Rightarrow> nat \<Rightarrow> (fundingManager, unit) io" where
  "stepTask cfg ge i w =
     (if i < length (fm_tasks w) \<and> runnable (fm_tasks w ! i) w
      then runTask cfg ge (fm_tasks w ! i) (w\<lparr>fm_tasks := take i (fm_tasks w) @ drop (Suc i) (fm_tasks w)\<rparr>)
      else (Inr (), w))"

end
