(* ===== verification/FundingSystem.thy ===== *)
theory FundingSystem
  imports FundingStart
begin

text \<open>
  The funding manager as a whole: messages and requests that arrive, the coordinator, the
  goroutines, peers that disconnect and callers that read their channels, in any order and in
  any environment. The locale \<open>funding_invariant\<close> says which changes of the state a property
  has to survive for every handler to keep it; three properties are shown to survive them: the
  bound on the reservations of a peer, that every channel handed to a peer is
  watched by the breach arbiter, and that no channel others wait on is closed twice.
\<close>

section \<open>Steps\<close>

inductive fm_step :: "fundingConfig \<Rightarrow> fundingManager \<Rightarrow> fundingManager \<Rightarrow> bool" for cfg where
  arrive: "fm_step cfg w (snd (processFundingMsg q msg peerAddress w))"
| request: "fm_step cfg w (snd (initFundingWorkflow peerAddress req w))"
| coordinate: "fm_step cfg w (snd (reservationCoordinator cfg env ev w))"
| goroutine: "fm_step cfg w (snd (stepTask cfg ge i w))"
| disconnect: "fm_step cfg w (snd (CancelPeerReservations nodePub w))"
| receive: "fm_step cfg w (w\<lparr>fm_errs := (fm_errs w)(n := []), fm_updates := (fm_updates w)(m := [])\<rparr>)"

inductive fm_reach :: "fundingConfig \<Rightarrow> fundingManager \<Rightarrow> bool" for cfg where
  started: "fm_reach cfg (snd (fm_Start se (newFundingManager l t)))"
| step: "fm_reach cfg w \<Longrightarrow> fm_step cfg w w' \<Longrightarrow> fm_reach cfg w'"

section \<open>What every handler keeps\<close>

named_theorems keeps_rules "operations that keep an invariant"

declare keeps_bind [keeps_rules] keeps_ion [keeps_rules] keeps_ilogged [keeps_rules]
  keeps_iforeach [keeps_rules]

locale funding_invariant =
  fixes I :: "fundingManager \<Rightarrow> bool" and cfg :: fundingConfig
  assumes initial: "I (newFundingManager l t)"
    and queues: "I w \<Longrightarrow> I (w\<lparr>fundingMsgs := ms, fundingRequests := rs\<rparr>)"
    and outside: "I w \<Longrightarrow> I (w\<lparr>fm_wallet := l, fm_db := t, fm_sent := s, fm_watched := ws, fm_reported := rp, fm_announced := an\<rparr>)"
    and volatile: "I w \<Longrightarrow> I (w\<lparr>chanIDNonce := n, signedReservations := sr, fm_errs := es, fm_updates := us\<rparr>)"
    and tasks: "I w \<Longrightarrow> I (w\<lparr>fm_tasks := ts, handleFundingLockedBarriers := bs\<rparr>)"
    and barrier: "keeps I (newBarrier chanID)"
    and discovery: "keeps I (newDiscoverySignal chanID)"
    and signal: "keeps I (signalDiscovery chanID)"
    and forget: "I w \<Longrightarrow> I (w\<lparr>localDiscoverySignals := (localDiscoverySignals w)(chanID := None)\<rparr>)"
    and errChan: "I w \<Longrightarrow> I (w\<lparr>fm_nextChan := Suc (fm_nextChan w)\<rparr>)"
    and unbarrier: "keeps I (closeBarrier chanID)"
    and arbiter: "I w \<Longrightarrow> I (w\<lparr>fm_arbiterChan := fm_arbiterChan w @ [p]\<rparr>)"
    and peers: "I w \<Longrightarrow> oc_FundingOutpoint c \<in> set (fm_arbiterChan w) \<Longrightarrow> I (w\<lparr>fm_peerChannels := fm_peerChannels w @ [(peerKey, c)]\<rparr>)"
    and delete: "keeps I (deleteReservationCtx peer pid)"
    and forgetPeer: "I w \<Longrightarrow> I (w\<lparr>activeReservations := al_del nodePub (activeReservations w)\<rparr>)"
    and stamp: "keeps I (setTimestamp peer pid stamp)"
    and putLocal: "rc_updates ctx \<noteq> None \<Longrightarrow> keeps I (putReservation k pid ctx)"
    and putRemote: "I w \<Longrightarrow> int (length (peerReservations k w)) < fc_MaxPendingChannels cfg \<Longrightarrow> I (snd (putReservation k pid ctx w))"
begin

lemma updates:
  assumes "I w"
  shows "I (w\<lparr>fm_wallet := l\<rparr>)" "I (w\<lparr>fm_db := t\<rparr>)" "I (w\<lparr>fm_sent := s\<rparr>)" "I (w\<lparr>fm_watched := ws\<rparr>)"
    "I (w\<lparr>fm_reported := rp\<rparr>)" "I (w\<lparr>fm_announced := an\<rparr>)" "I (w\<lparr>chanIDNonce := n\<rparr>)" "I (w\<lparr>signedReservations := sr\<rparr>)"
    "I (w\<lparr>fm_errs := es\<rparr>)" "I (w\<lparr>fm_updates := us\<rparr>)" "I (w\<lparr>fm_tasks := ts\<rparr>)" "I (w\<lparr>handleFundingLockedBarriers := bs\<rparr>)"
    "I (w\<lparr>fundingMsgs := ms\<rparr>)" "I (w\<lparr>fundingRequests := rs\<rparr>)"
  using outside [OF assms, of "fm_announced w" "fm_reported w" "fm_watched w" "fm_sent w" "fm_db w" l]
    outside [OF assms, of "fm_announced w" "fm_reported w" "fm_watched w" "fm_sent w" t "fm_wallet w"]
    outside [OF assms, of "fm_announced w" "fm_reported w" "fm_watched w" s "fm_db w" "fm_wallet w"]
    outside [OF assms, of "fm_announced w" "fm_reported w" ws "fm_sent w" "fm_db w" "fm_wallet w"]
    outside [OF assms, of "fm_announced w" rp "fm_watched w" "fm_sent w" "fm_db w" "fm_wallet w"]
    outside [OF assms, of an "fm_reported w" "fm_watched w" "fm_sent w" "fm_db w" "fm_wallet w"]
    volatile [OF assms, of "fm_updates w" "fm_errs w" "signedReservations w" n]
    volatile [OF assms, of "fm_updates w" "fm_errs w" sr "chanIDNonce w"]
    volatile [OF assms, of "fm_updates w" es "signedReservations w" "chanIDNonce w"]
    volatile [OF assms, of us "fm_errs w" "signedReservations w" "chanIDNonce w"]
    tasks [OF assms, of "handleFundingLockedBarriers w" ts] tasks [OF assms, of bs "fm_tasks w"]
    queues [OF assms, of "fundingRequests w" ms] queues [OF assms, of rs "fundingMsgs w"]
  by simp_all

lemma keeps_imod [keeps_rules]:
  "keeps I (imod (\<lambda>w. w\<lparr>fm_sent := fm_sent w @ sx\<rparr>))" "keeps I (imod (\<lambda>w. w\<lparr>fm_watched := fm_watched w @ wx\<rparr>))"
  "keeps I (imod (\<lambda>w. w\<lparr>fm_reported := fm_reported w @ rx\<rparr>))" "keeps I (imod (\<lambda>w. w\<lparr>fm_announced := fm_announced w @ ax\<rparr>))"
  "keeps I (imod (\<lambda>w. w\<lparr>signedReservations := (signedReservations w)(c := x)\<rparr>))"
  "keeps I (imod (\<lambda>w. w\<lparr>handleFundingLockedBarriers := removeAll c (handleFundingLockedBarriers w)\<rparr>))"
  "keeps I (imod (\<lambda>w. w\<lparr>localDiscoverySignals := (localDiscoverySignals w)(c := None)\<rparr>))"
  "keeps I (imod (\<lambda>w. w\<lparr>activeReservations := al_del k (activeReservations w)\<rparr>))"
  by (auto intro!: keepsI updates forget forgetPeer simp: imod_def)

lemma keeps_calls [keeps_rules]: "keeps I (f_wallet m)" "keeps I (sendErr c e)" "keeps I (sendUpdate c u)" "keeps I (goTask task)"
  "keeps I (nextPendingChanID cfg')" "keeps I makeChan" "keeps I (f_Update commit op)" "keeps I (getReservationCtx peer pid)"
  by (auto intro!: keepsI updates errChan
      simp: f_wallet_def sendErr_def sendUpdate_def goTask_def imod_def nextPendingChanID_def makeChan_def f_Update_def getReservationCtx_def
      split: prod.split option.split sum.split)

lemmas keeps_parts [keeps_rules] = barrier discovery signal unbarrier delete stamp

lemma keeps_SendToPeer [keeps_rules]: "keeps I (SendToPeer env peer msg)" "keeps I (WatchNewChannel env chan)"
  by (auto simp: SendToPeer_def WatchNewChannel_def intro!: keeps_rules)

lemma keeps_cancel [keeps_rules]: "keeps I (cancelReservationCtx peer pid)" "keeps I (lockReservation peer pid)"
  "keeps I (updateTimestamp env peer pid)"
  by (auto simp: cancelReservationCtx_def lockReservation_def updateTimestamp_def intro!: keeps_rules)

lemma keeps_fail [keeps_rules]: "keeps I (failFundingFlow env peer pid e)" "keeps I (failBoth env peer pid ctx e)"
  by (auto simp: failFundingFlow_def failBoth_def intro!: keeps_rules)

lemma keeps_deleteFromDatabase [keeps_rules]: "keeps I (deleteFromDatabase env chan)"
  by (auto simp: deleteFromDatabase_def intro!: keeps_rules)

lemma keeps_prune: "keeps I (pruneZombieReservations cfg' env)"
proof (rule keepsI)
  fix w assume "I w"
  have "keeps I (iforeach (\<lambda>(pid, resCtx). failFundingFlow env (na_IdentityKey (rc_peerAddress resCtx)) pid
      (GoErr ''reservation timed out waiting for peer'')) (zombieReservations cfg' env w))"
    by (auto intro!: keeps_rules)
  with \<open>I w\<close> show "I (snd (pruneZombieReservations cfg' env w))"
    by (simp add: pruneZombieReservations_def keeps_run)
qed

lemma keeps_CancelPeer: "keeps I (CancelPeerReservations k)"
proof (rule keepsI)
  fix w assume "I w"
  have "keeps I (cancelForPeer c)" for c
    by (auto simp: cancelForPeer_def intro!: keeps_rules split: option.split)
  then have run: "keeps I (ibind (iforeach (cancelForPeer \<circ> snd) m) (\<lambda>_.
      imod (\<lambda>w. w\<lparr>activeReservations := al_del k (activeReservations w)\<rparr>)))" for m :: pendingChannels
    by (auto intro!: keeps_rules)
  show "I (snd (CancelPeerReservations k w))"
    using keeps_run [OF run \<open>I w\<close>] \<open>I w\<close> by (simp add: CancelPeerReservations_def split: option.split)
qed

subsection \<open>The funding flow\<close>

lemma keeps_sendAccept [keeps_rules]: "keeps I (sendAccept cfg' env peer msg n r)" "keeps I (sendCreated cfg' env peer pid ctx)"
  by (auto simp: sendAccept_def sendCreated_def Let_def intro!: keeps_rules)

text \<open>The wallet does not change how many channels a peer has pending.\<close>

lemma room_wallet: "I w \<and> int (length (peerReservations k w)) < fc_MaxPendingChannels cfg \<Longrightarrow> f_wallet m w = (r, w') \<Longrightarrow>
    I w' \<and> int (length (peerReservations k w')) < fc_MaxPendingChannels cfg"
  by (auto simp: f_wallet_def peerReservations_def updates split: prod.splits)

lemma room_ion:
  assumes "I w \<and> int (length (peerReservations k w)) < fc_MaxPendingChannels cfg" "\<And>e. keeps I (bad e)"
    "\<And>x w. I w \<and> int (length (peerReservations k w)) < fc_MaxPendingChannels cfg \<Longrightarrow> I (snd (good x w))"
  shows "I (snd (ion (f_wallet m) bad good w))" "I (snd (ibind (f_wallet m) good w))"
proof -
  obtain r w' where mw: "f_wallet m w = (r, w')" by (cases "f_wallet m w")
  with room_wallet [OF assms(1)] have "I w' \<and> int (length (peerReservations k w')) < fc_MaxPendingChannels cfg" by blast
  with assms(2,3) mw show "I (snd (ion (f_wallet m) bad good w))" "I (snd (ibind (f_wallet m) good w))"
    by (cases r; auto simp: ion_def ibind_def keeps_def)+
qed

lemma reserveFor_keeps:
  assumes "I w" "int (length (peerReservations (newSerializedKey (na_IdentityKey peerAddress)) w)) < fc_MaxPendingChannels cfg"
  shows "I (snd (reserveFor cfg env msg peerAddress w))"
proof -
  let ?k = "newSerializedKey (na_IdentityKey peerAddress)"
  have last: "I (snd (ibind makeChan (\<lambda>c. ibind (putReservation ?k pid (ctx c)) (\<lambda>_. rest)) w))"
    if "I w \<and> int (length (peerReservations ?k w)) < fc_MaxPendingChannels cfg" "keeps I rest" for w pid ctx rest
  proof -
    have "int (length (peerReservations ?k (w\<lparr>fm_nextChan := Suc (fm_nextChan w)\<rparr>))) < fc_MaxPendingChannels cfg"
      using that(1) by (simp add: peerReservations_def)
    from putRemote [OF errChan this] that(1) have put: "I (snd (putReservation ?k pid (ctx c) (w\<lparr>fm_nextChan := Suc (fm_nextChan w)\<rparr>)))" for c
      by blast
    have "ibind (putReservation ?k pid (ctx c)) (\<lambda>_. rest) v = rest (snd (putReservation ?k pid (ctx c) v))" for c v
      by (simp add: ibind_def putReservation_def setPeer_def io_run)
    then show ?thesis using keeps_run [OF that(2) put] by (simp add: ibind_def makeChan_def)
  qed
  show ?thesis
    using assms unfolding reserveFor_def Let_def
    by (intro room_ion last conjI) (auto intro!: keeps_rules)
qed

lemma keeps_handleFundingOpen [keeps_rules]: "keeps I (handleFundingOpen cfg env msg peerAddress)"
  by (rule keepsI) (auto simp: handleFundingOpen_def Let_def not_le intro!: reserveFor_keeps keeps_run [OF keeps_fail(1)])

lemma keeps_flow [keeps_rules]:
  "keeps I (handleFundingCreated cfg' env cmsg peerAddress)"
  "keeps I (handleFundingAccept cfg' env amsg peerAddress)"
  "keeps I (handleFundingSigned cfg' env smsg peerAddress)"
  "keeps I (handleErrorMsg chanID data peerAddress)"
  by (auto simp: handleFundingCreated_def handleFundingAccept_def handleFundingSigned_def handleErrorMsg_def Let_def
      intro!: keeps_rules split: option.split list.split)

lemma keeps_init [keeps_rules]: "keeps I (handleInitFundingMsg cfg' env req peerAddress)"
  by (auto simp: handleInitFundingMsg_def Let_def intro!: keeps_rules putLocal)

lemma keeps_coordinator: "keeps I (reservationCoordinator cfg env ev)"
proof (rule keepsI)
  fix w assume "I w"
  have "keeps I (handleMsg cfg env peerAddress msg)" for peerAddress msg
    by (auto simp: handleMsg_def intro!: keeps_rules split: FundingMsg.split)
  with \<open>I w\<close> show "I (snd (reservationCoordinator cfg env ev w))"
    by (auto simp: reservationCoordinator_def intro!: keeps_run [where I = I] keeps_init keeps_prune updates
        split: coordinatorEvent.split list.split)
qed

subsection \<open>The goroutines\<close>

lemma keeps_opening_parts [keeps_rules]: "keeps I (saveOpening oe chan opening scid)" "keeps I (MarkAsOpen oe chan scid)"
  "keeps I (SendAnnouncement oe g)" "keeps I (announceChannel cfg' oe chan scid)"
  by (auto simp: saveOpening_def MarkAsOpen_def SendAnnouncement_def announceChannel_def intro!: keeps_rules split: option.split)

lemma keeps_sendLoop [keeps_rules]: "keeps I (sendLoop peer msg attempts)"
  by (induction attempts rule: sendLoop.induct) (auto intro!: keeps_rules)

lemma keeps_wait [keeps_rules]: "keeps I (waitForFundingConfirmation oe ev chan)"
  by (auto simp: waitForFundingConfirmation_def Let_def intro!: keeps_rules split: option.split confEvent.split)

lemma keeps_waitLoop [keeps_rules]: "keeps I (waitLoop oe chan looping evs)"
  by (induction oe chan looping evs rule: waitLoop.induct) (auto intro!: keeps_rules)

lemma keeps_timeout [keeps_rules]: "keeps I (waitForFundingWithTimeout oe chan evs)"
  by (auto simp: waitForFundingWithTimeout_def intro!: keeps_rules split: option.split)

lemma keeps_opening [keeps_rules]: "keeps I (sendFundingLocked oe chan scid)" "keeps I (addToRouterGraph cfg' oe chan scid)"
  "keeps I (annAfterSixConfs cfg' oe chan scid)"
  by (auto simp: sendFundingLocked_def addToRouterGraph_def annAfterSixConfs_def Let_def intro!: keeps_rules
      split: confEvent.split)

lemma keeps_confirmation [keeps_rules]: "keeps I (handleFundingConfirmation cfg' oe chan scid)"
  by (auto simp: handleFundingConfirmation_def intro!: keeps_rules)

lemma keeps_runs [keeps_rules]: "keeps I (runWaitCreated cfg' env oe evs peer pid chan)"
  "keeps I (runWaitSigned cfg' oe ev peer pid us chan)" "keeps I (runWaitRestart cfg' env oe evs chan)"
  "keeps I (resumeOpening cfg' oe st chan scid)"
  by (auto simp: runWaitCreated_def runWaitSigned_def runWaitRestart_def resumeOpening_def intro!: keeps_rules
      split: waitOutcome.split option.split)

text \<open>The arbiter is told of a channel before the peer is.\<close>

lemma keeps_processLocked [keeps_rules]: "keeps I (processLocked le peerAddress msg)"
proof (rule keepsI)
  fix w assume w: "I w"
  have FindChannel: "keeps I (FindChannel le c)" for c
    by (auto simp: FindChannel_def intro!: keeps_rules split: option.split)
  have lift: "keeps I (ibind (closeBarrier c) (\<lambda>_. iret False))" for c by (auto intro!: keeps_rules)
  have told: "I (v\<lparr>fm_arbiterChan := fm_arbiterChan v @ [p], fm_wallet := l\<rparr>)" if "I v" for v p l
    using that by (intro updates arbiter)
  have handed: "I (v\<lparr>fm_arbiterChan := fm_arbiterChan v @ [oc_FundingOutpoint chan], fm_wallet := l,
      fm_peerChannels := fm_peerChannels v @ [(k, chan\<lparr>oc_RemoteNextRevocation := p\<rparr>)], fm_tasks := ts\<rparr>)" if "I v" for v chan l k p ts
    using peers [OF told [OF that], of "chan\<lparr>oc_RemoteNextRevocation := p\<rparr>"] by (intro updates) simp
  obtain r w1 where fw: "FindChannel le (lm_ChanID msg) w = (r, w1)" by (cases "FindChannel le (lm_ChanID msg) w")
  with keepsD [OF FindChannel w] have w1: "I w1" by blast
  show "I (snd (processLocked le peerAddress msg w))"
  proof (cases r)
    case (Inr chan)
    with fw w1 arbiter [OF w1] told [OF w1] handed [OF w1] show ?thesis
      by (auto simp: processLocked_def Let_def InitNextRevocation_def goTask_def ibind_def fails_def f_wallet_def io_run
          intro!: keeps_run [OF lift, unfolded ibind_def] split: option.split sendSelect.split)
  qed (use fw w1 in \<open>simp add: processLocked_def Let_def ibind_def\<close>)
qed

lemma keeps_locked [keeps_rules]: "keeps I (beginFundingLocked peerAddress msg)" "keeps I (finishFundingLocked le peerAddress msg sig)"
proof -
  have "I (w\<lparr>handleFundingLockedBarriers := bs, fm_tasks := ts\<rparr>)" if "I w" for w bs ts
    using that by (intro updates)
  then show "keeps I (beginFundingLocked peerAddress msg)"
    by (auto simp: beginFundingLocked_def Let_def goTask_def imod_def intro!: keepsI updates)
  show "keeps I (finishFundingLocked le peerAddress msg sig)"
    by (auto simp: finishFundingLocked_def leaveFundingLocked_def Let_def intro!: keeps_rules)
qed

lemma keeps_await [keeps_rules]: "keeps I (awaitNewChan chanID)"
  by (auto simp: awaitNewChan_def leaveFundingLocked_def intro!: keeps_rules)

lemma keeps_task: "keeps I (stepTask cfg ge i)"
proof (rule keepsI)
  fix w assume "I w"
  have "keeps I (runTask cfg ge task)" for task
    by (auto simp: runTask_def intro!: keeps_rules split: fundingTask.split)
  with \<open>I w\<close> show "I (snd (stepTask cfg ge i w))"
    by (auto simp: stepTask_def intro!: keeps_run [where I = I] updates)
qed

lemma keeps_start: "keeps I (fm_Start se)"
proof -
  have "keeps I (loadPending se ch)" for ch
    by (auto simp: loadPending_def Let_def intro!: keeps_rules split: option.split)
  moreover have "keeps I (loadOpening se chs i)" for chs i
    by (auto simp: loadOpening_def Let_def intro!: keeps_rules split: sum.split)
  ultimately show ?thesis by (auto simp: fm_Start_def intro!: keeps_rules)
qed

theorem step_keeps: "fm_step cfg w w' \<Longrightarrow> I w \<Longrightarrow> I w'"
proof (induction rule: fm_step.induct)
  case (receive w n m)
  then show ?case by (intro updates)
qed (auto simp: processFundingMsg_def initFundingWorkflow_def intro!: updates keeps_run [OF keeps_coordinator]
      keeps_run [OF keeps_task] keeps_run [OF keeps_CancelPeer])

theorem reach_keeps: "fm_reach cfg w \<Longrightarrow> I w"
  by (induction rule: fm_reach.induct) (auto intro: step_keeps keeps_run [OF keeps_start initial])

end

section \<open>Reservations per peer\<close>

text \<open>A reservation that the remote peer asked for has no channel for updates.\<close>

definition byRemote :: "bytes \<times> reservationWithCtx \<Rightarrow> bool" where
  "byRemote e \<longleftrightarrow> rc_updates (snd e) = None"

definition remoteReservations :: "bytes \<Rightarrow> fundingManager \<Rightarrow> nat" where
  "remoteReservations k w = length (filter byRemote (peerReservations k w))"

definition bounded :: "fundingConfig \<Rightarrow> fundingManager \<Rightarrow> bool" where
  "bounded cfg w \<longleftrightarrow> al_sorted (activeReservations w) \<and> (\<forall>k. al_sorted (peerReservations k w))
     \<and> (\<forall>k. remoteReservations k w \<le> nat (fc_MaxPendingChannels cfg))"

lemma al_put_present:
  "al_sorted m \<Longrightarrow> map_of m k = Some c \<Longrightarrow> al_put k v m = map (\<lambda>e. if fst e = k then (k, v) else e) m"
proof (induction k v m rule: al_put.induct)
  case (2 k v a b es)
  have srt: "al_sorted es" using 2(2) by (simp add: al_sorted_def)
  show ?case
  proof (cases "k = a")
    case True
    then have "\<forall>e \<in> set es. fst e \<noteq> k" using 2(2) by (auto simp: al_sorted_def)
    with True show ?thesis by (simp add: map_idI)
  next
    case False
    then have "map_of es k = Some c" using 2(3) by simp
    moreover from this have "\<not> k < a" using 2(2) by (force simp: al_sorted_def dest: map_of_SomeD)
    ultimately show ?thesis using 2(1) [OF _ False srt] False by simp
  qed
qed simp

lemma filter_al_put:
  "\<not> P (k, v) \<Longrightarrow> length (filter P (al_put k v m)) \<le> length (filter P m)"
  by (induction m rule: al_put.induct) auto

lemma length_al_put: "length (al_put k v m) \<le> Suc (length m)"
  by (induction k v m rule: al_put.induct) auto

lemma peerReservations_set:
  "peerReservations k (snd (setPeer k' m w)) = (if k = k' then m else peerReservations k w)"
  "activeReservations (snd (setPeer k' m w)) = al_put k' m (activeReservations w)"
  by (auto simp: setPeer_def io_run peerReservations_def)

lemmas bounded_defs = bounded_def peerReservations_def remoteReservations_def

lemma bounded_set:
  assumes "bounded cfg w" "al_sorted m" "length (filter byRemote m) \<le> nat (fc_MaxPendingChannels cfg)"
  shows "bounded cfg (snd (setPeer k m w))"
  using assms by (simp add: bounded_def peerReservations_set remoteReservations_def al_sorted_put)

lemma bounded_put:
  assumes "bounded cfg w" "length (filter byRemote (al_put pid ctx (peerReservations k w))) \<le> nat (fc_MaxPendingChannels cfg)"
  shows "bounded cfg (snd (putReservation k pid ctx w))"
  using assms(1) bounded_set [OF assms(1) _ assms(2)] by (simp add: putReservation_def io_simps bounded_def al_sorted_put)

lemma bounded_count: "bounded cfg w \<Longrightarrow> length (filter byRemote (peerReservations k w)) \<le> nat (fc_MaxPendingChannels cfg)"
  by (simp add: bounded_def remoteReservations_def)

lemma al_sorted_Nil [simp]: "al_sorted []"
  by (simp add: al_sorted_def)

lemma filter_al_del: "length (filter P (al_del k m)) \<le> length (filter P m)"
  by (induction m) (auto simp: al_del_def)

lemma bounded_delete: "keeps (bounded cfg) (deleteReservationCtx peer pid)"
proof (rule keepsI)
  fix w assume w: "bounded cfg w"
  let ?k = "newSerializedKey peer"
  show "bounded cfg (snd (deleteReservationCtx peer pid w))"
  proof (cases "map_of (activeReservations w) ?k")
    case (Some m)
    then have m: "peerReservations ?k w = m" by (simp add: peerReservations_def)
    have "length (filter byRemote (al_del pid m)) \<le> nat (fc_MaxPendingChannels cfg)"
      using bounded_count [OF w, of ?k] filter_al_del [of byRemote pid m] m by simp
    moreover have "al_sorted m" using w m by (auto simp: bounded_def)
    ultimately show ?thesis using Some bounded_set [OF w] by (simp add: deleteReservationCtx_def Let_def al_sorted_del)
  qed (simp add: deleteReservationCtx_def w)
qed

lemma bounded_stamp: "keeps (bounded cfg) (setTimestamp peer pid stamp)"
proof (rule keepsI)
  fix w assume w: "bounded cfg w"
  let ?k = "newSerializedKey peer"
  show "bounded cfg (snd (setTimestamp peer pid stamp w))"
  proof (cases "resCtxOf ?k pid w")
    case (Some ctx)
    let ?m = "peerReservations ?k w" and ?v = "ctx\<lparr>rc_lastUpdated := stamp\<rparr>"
    have m: "map_of ?m pid = Some ctx" using Some by (simp add: resCtxOf_def)
    have srt: "al_sorted ?m" using w by (simp add: bounded_def)
    have same: "e = (pid, ctx)" if "e \<in> set ?m" "fst e = pid" for e
      using al_sorted_map_of [OF srt, of pid "snd e"] m that by (cases e) simp
    have "length (filter byRemote (al_put pid ?v ?m)) = length (filter (byRemote \<circ> (\<lambda>e. if fst e = pid then (pid, ?v) else e)) ?m)"
      by (simp add: al_put_present [OF srt m] filter_map)
    also have "filter (byRemote \<circ> (\<lambda>e. if fst e = pid then (pid, ?v) else e)) ?m = filter byRemote ?m"
      by (rule filter_cong) (auto simp: byRemote_def dest: same)
    finally show ?thesis
      using Some bounded_put [OF w] bounded_count [OF w] by (simp add: setTimestamp_def Let_def)
  qed (simp add: setTimestamp_def Let_def w)
qed

lemma bounded_parts: "keeps (bounded cfg) (newBarrier c)" "keeps (bounded cfg) (newDiscoverySignal c)"
  "keeps (bounded cfg) (signalDiscovery c)" "keeps (bounded cfg) (closeBarrier c)"
  by (simp_all add: keeps_def newBarrier_def newDiscoverySignal_def signalDiscovery_def closeBarrier_def makeChan_def closeChan_def
      ibind_def io_run bounded_defs split: option.split)

interpretation pending_bound: funding_invariant "bounded cfg" cfg for cfg
proof
  show "bounded cfg (newFundingManager l t)" for l t
    by (simp add: bounded_def newFundingManager_def peerReservations_def remoteReservations_def)
  show "bounded cfg (w\<lparr>activeReservations := al_del nodePub (activeReservations w)\<rparr>)" if "bounded cfg w" for w nodePub
    using that by (auto simp: bounded_def peerReservations_def remoteReservations_def al_sorted_del)
  show "keeps (bounded cfg) (putReservation k pid ctx)" if "rc_updates ctx \<noteq> None" for k pid ctx
  proof (rule keepsI, rule bounded_put)
    fix w assume w: "bounded cfg w"
    show "length (filter byRemote (al_put pid ctx (peerReservations k w))) \<le> nat (fc_MaxPendingChannels cfg)"
      using filter_al_put [of byRemote pid ctx "peerReservations k w"] that bounded_count [OF w, of k] by (simp add: byRemote_def)
  qed
  show "bounded cfg (snd (putReservation k pid ctx w))"
    if "bounded cfg w" "int (length (peerReservations k w)) < fc_MaxPendingChannels cfg" for w k pid ctx
  proof (rule bounded_put [OF that(1)])
    show "length (filter byRemote (al_put pid ctx (peerReservations k w))) \<le> nat (fc_MaxPendingChannels cfg)"
      using length_filter_le [of byRemote "al_put pid ctx (peerReservations k w)"] length_al_put [of pid ctx "peerReservations k w"] that(2)
      by linarith
  qed
qed (simp_all add: bounded_parts bounded_delete bounded_stamp, simp_all add: bounded_defs)

section \<open>The breach arbiter watches first\<close>

definition watchedFirst :: "fundingManager \<Rightarrow> bool" where
  "watchedFirst w \<longleftrightarrow> (\<forall>(peer, c) \<in> set (fm_peerChannels w). oc_FundingOutpoint c \<in> set (fm_arbiterChan w))"

lemma watchedFirst_parts: "keeps watchedFirst (newBarrier c)" "keeps watchedFirst (newDiscoverySignal c)"
  "keeps watchedFirst (signalDiscovery c)" "keeps watchedFirst (closeBarrier c)" "keeps watchedFirst (putReservation k pid ctx)"
  "keeps watchedFirst (deleteReservationCtx peer pid)" "keeps watchedFirst (setTimestamp peer pid stamp)"
  by (simp_all add: keeps_def newBarrier_def newDiscoverySignal_def signalDiscovery_def closeBarrier_def makeChan_def closeChan_def
      putReservation_def setPeer_def deleteReservationCtx_def setTimestamp_def Let_def ibind_def io_run watchedFirst_def
      split: option.split)

interpretation watched_first: funding_invariant watchedFirst cfg for cfg
proof
  show "watchedFirst (newFundingManager l t)" for l t by (simp add: watchedFirst_def newFundingManager_def)
  show "watchedFirst (w\<lparr>fm_arbiterChan := fm_arbiterChan w @ [p]\<rparr>)" if "watchedFirst w" for w p
    using that by (auto simp: watchedFirst_def)
  show "watchedFirst (w\<lparr>fm_peerChannels := fm_peerChannels w @ [(peerKey, c)]\<rparr>)"
    if "watchedFirst w" "oc_FundingOutpoint c \<in> set (fm_arbiterChan w)" for w peerKey c
    using that by (auto simp: watchedFirst_def)
qed (simp_all add: watchedFirst_parts keeps_run [OF watchedFirst_parts(5)], simp_all add: watchedFirst_def)

section \<open>No barrier is closed twice\<close>

definition chansFresh :: "fundingManager \<Rightarrow> bool" where
  "chansFresh w \<longleftrightarrow> (\<forall>c \<in> set (fm_closedChans w). c < fm_nextChan w)
     \<and> (\<forall>x c. newChanBarriers w x = Some c \<longrightarrow> c < fm_nextChan w \<and> c \<notin> set (fm_closedChans w))
     \<and> (\<forall>x c. localDiscoverySignals w x = Some c \<longrightarrow> c < fm_nextChan w)
     \<and> (\<forall>x y c. newChanBarriers w x = Some c \<and> newChanBarriers w y = Some c \<longrightarrow> x = y)
     \<and> (\<forall>x y c. newChanBarriers w x = Some c \<longrightarrow> localDiscoverySignals w y \<noteq> Some c)"

lemma chansFresh_new: "keeps chansFresh (newBarrier c)" "keeps chansFresh (newDiscoverySignal c)"
  unfolding keeps_def newBarrier_def newDiscoverySignal_def makeChan_def ibind_def io_run chansFresh_def
  by (auto simp: less_Suc_eq)

lemma chansFresh_close: "keeps chansFresh (signalDiscovery c)" "keeps chansFresh (closeBarrier c)"
  unfolding keeps_def signalDiscovery_def closeBarrier_def closeChan_def ibind_def io_run chansFresh_def
  by (auto simp: io_run split: option.splits if_splits)

lemma chansFresh_reservations: "keeps chansFresh (putReservation k pid ctx)"
  "keeps chansFresh (deleteReservationCtx peer pid)" "keeps chansFresh (setTimestamp peer pid stamp)"
  by (simp_all add: keeps_def putReservation_def setPeer_def deleteReservationCtx_def setTimestamp_def Let_def ibind_def io_run
      chansFresh_def split: option.split)

interpretation chans_fresh: funding_invariant chansFresh cfg for cfg
proof
  show "chansFresh (newFundingManager l t)" for l t by (simp add: chansFresh_def newFundingManager_def)
  show "chansFresh (w\<lparr>localDiscoverySignals := (localDiscoverySignals w)(chanID := None)\<rparr>)" if "chansFresh w" for w chanID
    using that by (auto simp: chansFresh_def)
  show "chansFresh (w\<lparr>fm_nextChan := Suc (fm_nextChan w)\<rparr>)" if "chansFresh w" for w
    using that by (auto simp: chansFresh_def less_Suc_eq)
qed (simp_all add: chansFresh_new chansFresh_close chansFresh_reservations keeps_run [OF chansFresh_reservations(1)],
    simp_all add: chansFresh_def)

lemma closeBarrier_run:
  assumes "chansFresh w"
  shows "\<exists>w'. closeBarrier c w = (Inr (), w') \<and> newChanBarriers w' = (newChanBarriers w)(c := None)"
  using assms by (auto simp: chansFresh_def closeBarrier_def closeChan_def ibind_def io_run split: option.split)

end
