(* ===== verification/FundingParams.thy ===== *)
theory FundingParams
  imports FundingFlow
begin

text \<open>
  The parameters of a channel that the daemon asks of its peer: the closures that
  \<^verbatim>\<open>src/lnd/client.go\<close> configures the funding manager with. A peer that runs the same code
  accepts them.
\<close>

record chainConfig =
  ch_DefaultNumChanConfs :: int
  ch_DefaultRemoteDelay :: int
  ch_minRemoteDelay :: u16
  ch_maxRemoteDelay :: u16

definition minBtcRemoteDelay :: u16 where "minBtcRemoteDelay = 144"
definition maxBtcRemoteDelay :: u16 where "maxBtcRemoteDelay = 2016"
definition minLtcRemoteDelay :: u16 where "minLtcRemoteDelay = 576"
definition maxLtcRemoteDelay :: u16 where "maxLtcRemoteDelay = 8064"

definition NumRequiredConfs :: "chainConfig \<Rightarrow> u64 \<Rightarrow> u64 \<Rightarrow> u16" where
  "NumRequiredConfs ch chanAmt pushAmt =
     (let defaultConf = word_of_int (ch_DefaultNumChanConfs ch) in
      if defaultConf \<noteq> 0 then defaultConf
      else
        (let minConf = 3; maxConf = 6; maxChannelSize = NewMSatFromSatoshis maxFundingAmount;
             stake = NewMSatFromSatoshis chanAmt + pushAmt;
             conf = maxConf * stake div maxChannelSize;
             conf = (if conf < minConf then minConf else conf);
             conf = (if conf > maxConf then maxConf else conf :: u64)
         in ucast conf))"

definition RequiredRemoteDelay :: "chainConfig \<Rightarrow> u64 \<Rightarrow> u16" where
  "RequiredRemoteDelay ch chanAmt =
     (let defaultDelay = word_of_int (ch_DefaultRemoteDelay ch) in
      if defaultDelay > 0 then defaultDelay
      else
        (let delay = ucast (amt_div (ucast (ch_maxRemoteDelay ch) * chanAmt) (sint maxFundingAmount));
             delay = (if delay < ch_minRemoteDelay ch then ch_minRemoteDelay ch else delay)
         in if delay > ch_maxRemoteDelay ch then ch_maxRemoteDelay ch else delay))"

definition RequiredRemoteChanReserve :: "u64 \<Rightarrow> u64" where
  "RequiredRemoteChanReserve chanAmt = amt_div chanAmt 100"

definition RequiredRemoteMaxValue :: "u64 \<Rightarrow> u64" where
  "RequiredRemoteMaxValue chanAmt =
     (let reserve = NewMSatFromSatoshis (amt_div chanAmt 100) in NewMSatFromSatoshis chanAmt - reserve)"

definition RequiredRemoteMaxHTLCs :: "u64 \<Rightarrow> u16" where
  "RequiredRemoteMaxHTLCs chanAmt = word_of_nat (MaxHTLCNumber div 2)"

section \<open>Their ranges\<close>

lemma clampConf:
  fixes x :: u64
  defines "y \<equiv> (if x < 3 then 3 else x)"
  shows "3 \<le> unat (ucast (if y > 6 then 6 else y) :: u16) \<and> unat (ucast (if y > 6 then 6 else y) :: u16) \<le> 6"
proof (cases "y > 6")
  case False
  then have y: "3 \<le> unat y" "unat y \<le> 6" by (auto simp: y_def word_less_nat_alt)
  then have "unat (ucast y :: u16) = unat y" by (simp add: unsigned_ucast_eq take_bit_nat_eq_self)
  with False y show ?thesis by simp
qed simp

lemma NumRequiredConfs_range:
  assumes "(word_of_int (ch_DefaultNumChanConfs ch) :: u16) = 0"
  shows "3 \<le> unat (NumRequiredConfs ch chanAmt pushAmt) \<and> unat (NumRequiredConfs ch chanAmt pushAmt) \<le> 6"
  unfolding NumRequiredConfs_def Let_def assms by (simp only: simp_thms if_False) (rule clampConf)

lemma amt_div_nat:
  assumes "n < 2 ^ 63" "0 < d"
  shows "amt_div (word_of_nat n) (int d) = word_of_nat (n div d)"
proof -
  have "int n sdiv int d = int (n div d)"
    using assms(2) by (simp add: signed_divide_int_def zdiv_int sgn_if)
  then show ?thesis using assms(1) by (simp add: amt_div_def sint_small)
qed

lemma unat_small: "n < 2 ^ 64 \<Longrightarrow> unat (word_of_nat n :: u64) = n"
  by (simp add: unsigned_of_nat take_bit_nat_eq_self)

lemma unat_msat: "unat sat \<le> 2 ^ 24 \<Longrightarrow> unat (NewMSatFromSatoshis sat) = unat sat * 1000"
  by (simp add: NewMSatFromSatoshis_def unat_mult_lem [THEN iffD1])

lemma RequiredRemoteDelay_range:
  assumes "(word_of_int (ch_DefaultRemoteDelay ch) :: u16) = 0" "ch_minRemoteDelay ch \<le> ch_maxRemoteDelay ch"
  shows "ch_minRemoteDelay ch \<le> RequiredRemoteDelay ch chanAmt \<and> RequiredRemoteDelay ch chanAmt \<le> ch_maxRemoteDelay ch"
  using assms by (auto simp: RequiredRemoteDelay_def Let_def not_less)

lemma our_params:
  assumes "unat amount \<le> 2 ^ 24"
  shows "unat (RequiredRemoteChanReserve amount) = unat amount div 100"
    and "unat (RequiredRemoteMaxValue amount) = unat amount * 1000 - unat amount div 100 * 1000"
proof -
  let ?n = "unat amount"
  have d: "amt_div amount 100 = word_of_nat (?n div 100)"
    using amt_div_nat [of ?n 100] assms by simp
  have u: "unat (word_of_nat (?n div 100) :: u64) = ?n div 100" using assms by (intro unat_small) simp
  then show "unat (RequiredRemoteChanReserve amount) = ?n div 100"
    by (simp add: RequiredRemoteChanReserve_def d)
  have m: "unat (NewMSatFromSatoshis amount) = ?n * 1000"
      "unat (NewMSatFromSatoshis (word_of_nat (?n div 100))) = ?n div 100 * 1000"
    using assms u by (simp_all add: unat_msat)
  have le: "NewMSatFromSatoshis (word_of_nat (?n div 100)) \<le> NewMSatFromSatoshis amount"
    unfolding word_le_nat_alt m by simp
  show "unat (RequiredRemoteMaxValue amount) = ?n * 1000 - ?n div 100 * 1000"
    unfolding RequiredRemoteMaxValue_def Let_def d by (simp only: unat_sub [OF le] m)
qed

lemma our_constraints_pass:
  assumes "unat amount \<le> 2 ^ 24" "5 * unat minHtlc \<le> unat (RequiredRemoteMaxValue amount)" "unat csvDelay \<le> 10000"
  shows "checkConstraints amount csvDelay (RequiredRemoteMaxHTLCs amount) (RequiredRemoteMaxValue amount) minHtlc
           (RequiredRemoteChanReserve amount) = None"
proof -
  have "unat (RequiredRemoteMaxValue amount) < 2 ^ 35" using assms(1) our_params(2) [OF assms(1)] by simp
  then have "unat (minNumHtlc * minHtlc) = 5 * unat minHtlc"
    using assms(2) by (simp add: minNumHtlc_def unat_mult_lem [THEN iffD1])
  moreover have "sint (RequiredRemoteChanReserve amount) \<le> sint (amt_div amount 5)"
  proof -
    have "RequiredRemoteChanReserve amount = word_of_nat (unat amount div 100)" "amt_div amount 5 = word_of_nat (unat amount div 5)"
      using amt_div_nat [of "unat amount" 100] amt_div_nat [of "unat amount" 5] assms(1)
      by (simp_all add: RequiredRemoteChanReserve_def)
    then show ?thesis using assms(1) by (simp add: sint_small div_le_mono2)
  qed
  ultimately show ?thesis
    using assms(2,3) by (simp add: checkConstraints_def RequiredRemoteMaxHTLCs_def MaxHTLCNumber_def word_less_nat_alt)
qed

text \<open>What a peer whose constraints are accepted has agreed to.\<close>

lemma accepted_constraints:
  assumes "checkConstraints capacity csvDelay maxHtlcs maxValueInFlight minHtlc chanReserve = None"
  shows "unat csvDelay \<le> 10000 \<and> sint chanReserve \<le> sint (amt_div capacity 5) \<and> 5 \<le> unat maxHtlcs \<and> unat maxHtlcs \<le> 483
    \<and> unat minHtlc \<le> unat maxValueInFlight \<and> 5 * unat minHtlc mod 2 ^ 64 \<le> unat maxValueInFlight"
  using assms
  by (auto simp: checkConstraints_def MaxHTLCNumber_def minNumHtlc_def word_less_nat_alt unat_mult_lem unat_word_ariths
      split: if_splits)

end
