(* ===== verification/FundingRuns.thy ===== *)
theory FundingRuns
  imports FundingStart
begin

text \<open>
  The funding flow when nothing goes wrong: what each handler leaves behind and sends, and that
  the messages of two funding managers, passed on to each other, lead to a channel that both of
  them have stored and wait for.
\<close>

lemmas run_defs = ion_def ibind_def f_wallet_def io_run fails_def ilogged_def Let_def

lemmas wallet_defs = SetNumConfsRequired_def CommitConstraints_def RegisterMinHTLC_def changeRes_def theRes_def OurContribution_def
  OurSignatures_def res_FundingOutpoint_def ProcessSingleContribution_def ProcessContribution_def limboRes_def

section \<open>A reservation in limbo\<close>

definition holds :: "fundingManager \<Rightarrow> PublicKey \<Rightarrow> bytes \<Rightarrow> reservationWithCtx \<Rightarrow> ChannelReservation \<Rightarrow> bool" where
  "holds w peer pid ctx R \<longleftrightarrow> resCtxOf (newSerializedKey peer) pid w = Some ctx
     \<and> rc_reservation ctx < length (reservations (fm_wallet w)) \<and> reservations (fm_wallet w) ! rc_reservation ctx = R
     \<and> fundingLimbo (fm_wallet w) (reservationID R) = Some (rc_reservation ctx)"

definition withRes :: "bytes \<Rightarrow> bytes \<Rightarrow> reservationWithCtx \<Rightarrow> fundingManager \<Rightarrow> fundingManager" where
  "withRes k pid ctx w = w\<lparr>activeReservations := al_put k (al_put pid ctx (peerReservations k w)) (activeReservations w)\<rparr>"

lemma putReservation_run: "putReservation k pid ctx w = (Inr (), withRes k pid ctx w)"
  by (simp add: putReservation_def setPeer_def io_simps withRes_def)

lemma resCtxOf_withRes [simp]:
  "resCtxOf k pid (withRes k' pid' ctx w) = (if k = k' \<and> pid = pid' then Some ctx else resCtxOf k pid w)"
  by (simp add: resCtxOf_def withRes_def peerReservations_def)

lemma withRes_simps [simp]: "fm_wallet (withRes k pid ctx w) = fm_wallet w" "fm_sent (withRes k pid ctx w) = fm_sent w"
  "fm_tasks (withRes k pid ctx w) = fm_tasks w" "signedReservations (withRes k pid ctx w) = signedReservations w"
  "fm_errs (withRes k pid ctx w) = fm_errs w" "fm_updates (withRes k pid ctx w) = fm_updates w"
  "localDiscoverySignals (withRes k pid ctx w) = localDiscoverySignals w" "fm_nextChan (withRes k pid ctx w) = fm_nextChan w"
  by (simp_all add: withRes_def)

lemma resCtxOf_update [simp]: "resCtxOf k pid (w\<lparr>fm_wallet := l\<rparr>) = resCtxOf k pid w"
  "resCtxOf k pid (w\<lparr>fm_sent := sent\<rparr>) = resCtxOf k pid w" "resCtxOf k pid (w\<lparr>fm_errs := es\<rparr>) = resCtxOf k pid w"
  "resCtxOf k pid (w\<lparr>fm_updates := us\<rparr>) = resCtxOf k pid w" "resCtxOf k pid (w\<lparr>fm_tasks := ts\<rparr>) = resCtxOf k pid w"
  "resCtxOf k pid (w\<lparr>signedReservations := sr\<rparr>) = resCtxOf k pid w" "resCtxOf k pid (w\<lparr>newChanBarriers := nb\<rparr>) = resCtxOf k pid w"
  "resCtxOf k pid (w\<lparr>localDiscoverySignals := ds\<rparr>) = resCtxOf k pid w" "resCtxOf k pid (w\<lparr>fm_nextChan := n\<rparr>) = resCtxOf k pid w"
  "resCtxOf k pid (w\<lparr>fm_watched := wa\<rparr>) = resCtxOf k pid w" "resCtxOf k pid (w\<lparr>chanIDNonce := cn\<rparr>) = resCtxOf k pid w"
  by (simp_all add: resCtxOf_def peerReservations_def)

lemma NewChannelReservation_Inr:
  assumes "NewChannelReservation env capacity fundingAmt fee rid push chain flags = Inr res"
  shows "reservationID res = rid" "oc_Capacity (partialState res) = capacity" "oc_IsPending (partialState res)"
  using assms by (auto simp: NewChannelReservation_def Let_def split: sum.splits if_splits)

text \<open>A channel that one side funds alone: the balances of the two ends, and who initiates it.\<close>

definition funderBalance :: "u64 \<Rightarrow> u64 \<Rightarrow> u64 \<Rightarrow> u64" where
  "funderBalance capacity fee push =
     NewMSatFromSatoshis capacity - NewMSatFromSatoshis (FeeForWeight fee CommitWeight) - push"

lemma NewChannelReservation_single:
  assumes "NewChannelReservation env capacity fundingAmt fee rid push chain flags = Inr res"
    and "fundingAmt = capacity \<or> fundingAmt = 0" "capacity \<noteq> 0"
  shows "oc_LocalBalance (partialState res) = (if fundingAmt = 0 then push else funderBalance capacity fee push)"
    "oc_RemoteBalance (partialState res) = (if fundingAmt = 0 then funderBalance capacity fee push else push)"
    "oc_ChanType (partialState res) = SingleFunder" "oc_IsInitiator (partialState res) \<longleftrightarrow> fundingAmt \<noteq> 0"
    "oc_ChainHash (partialState res) = chain" "oc_ChannelFlags (partialState res) = flags"
  using assms by (auto simp: NewChannelReservation_def startBalances_def funderBalance_def Let_def split: sum.splits if_splits)

definition initContribution :: "walletEnv \<Rightarrow> OutPoint list \<Rightarrow> ChannelConfig \<Rightarrow> PublicKey \<Rightarrow> PublicKey \<Rightarrow> NetAddr
    \<Rightarrow> ChannelReservation \<Rightarrow> ChannelReservation" where
  "initContribution env coins keys point theirID theirAddr res =
     res\<lparr>ourContribution := (ourContribution res)\<lparr>cb_Inputs := coins, cb_FirstCommitmentPoint := point,
           cb_Config := keys\<lparr>cg_Constraints := we_DefaultConstraints env\<rparr>\<rparr>,
         partialState := (partialState res)\<lparr>oc_IdentityPub := theirID\<rparr>, nodeAddr := theirAddr\<rparr>"

lemma InitChannelReservation_run:
  assumes "ourFundAmt + capacity \<noteq> 0" "we_GenesisHash env = chain"
    and "NewChannelReservation env capacity ourFundAmt commitFee (nextFundingID l + 1) push chain flags = Inr res"
    and "ourFundAmt = 0 \<Longrightarrow> coins = []"
    and "ourFundAmt \<noteq> 0 \<Longrightarrow> we_selectCoins env fundingFee ourFundAmt (lockedOutPoints l) = Inr coins"
    and "we_deriveKeys env (nextFundingID l + 1) = Inr (keys, point)"
  shows "InitChannelReservation env capacity ourFundAmt push commitFee fundingFee theirID theirAddr chain flags l
     = (Inr (length (reservations l)), l\<lparr>nextFundingID := nextFundingID l + 1, lockedOutPoints := lockedOutPoints l @ coins,
          reservations := reservations l @ [initContribution env coins keys point theirID theirAddr res],
          fundingLimbo := (fundingLimbo l)(nextFundingID l + 1 \<mapsto> length (reservations l))\<rparr>)"
  using assms by (cases "ourFundAmt = 0") (simp_all add: InitChannelReservation_def io_simps initContribution_def ibind_def Let_def)

section \<open>The responder\<close>

definition responderRes :: "fundingConfig \<Rightarrow> OpenChannelMsg \<Rightarrow> ChannelReservation \<Rightarrow> ChannelReservation" where
  "responderRes cfg msg res =
     (let g = (\<lambda>g. g\<lparr>cg_CsvDelay := om_CsvDelay msg, cg_Constraints := (cg_Constraints g)\<lparr>ct_ChanReserve := om_ChannelReserve msg,
            ct_MaxAcceptedHtlcs := om_MaxAcceptedHTLCs msg, ct_MaxPendingAmount := om_MaxValueInFlight msg,
            ct_MinHTLC := fp_MinHTLC (fc_DefaultRoutingPolicy cfg)\<rparr>\<rparr>)
      in (setConstraints g res)\<lparr>theirContribution := openContribution cfg msg,
           partialState := (partialState res)\<lparr>oc_NumConfsRequired := fc_NumRequiredConfs cfg (om_FundingAmount msg) (om_PushAmount msg),
             oc_RemoteCurrentRevocation := Some (om_FirstCommitmentPoint msg)\<rparr>\<rparr>)"

lemma first_point [simp]: "cb_FirstCommitmentPoint (openContribution cfg msg) = om_FirstCommitmentPoint msg"
  "cb_FirstCommitmentPoint (acceptContribution cfg amsg amount) = am_FirstCommitmentPoint amsg"
  by (simp_all add: openContribution_def acceptContribution_def Let_def)

lemma handleFundingOpen_run:
  assumes "int (length (peerReservations (newSerializedKey (na_IdentityKey addr)) w)) < fc_MaxPendingChannels cfg"
    and "fe_IsSynced env = Inr True" "sint (om_FundingAmount msg) \<le> sint maxFundingAmount" "om_FundingAmount msg \<noteq> 0"
    and "we_GenesisHash (fe_wallet env) = om_ChainHash msg"
    and "NewChannelReservation (fe_wallet env) (om_FundingAmount msg) 0 (ucast (om_FeePerKiloWeight msg)) (nextFundingID (fm_wallet w) + 1)
           (om_PushAmount msg) (om_ChainHash msg) (om_ChannelFlags msg) = Inr res"
    and "we_deriveKeys (fe_wallet env) (nextFundingID (fm_wallet w) + 1) = Inr (keys, point)"
    and "checkConstraints (om_FundingAmount msg) (om_CsvDelay msg) (om_MaxAcceptedHTLCs msg) (om_MaxValueInFlight msg)
           (om_HtlcMinimum msg) (om_ChannelReserve msg) = None"
    and "\<And>m. fe_SendToPeer env (na_IdentityKey addr) m = None"
  defines "R \<equiv> responderRes cfg msg (initContribution (fe_wallet env) [] keys point (na_IdentityKey addr) (na_Address addr) res)"
  shows "\<exists>w' errChan. handleFundingOpen cfg env msg addr w = (Inr (), w')
    \<and> holds w' (na_IdentityKey addr) (om_PendingChannelID msg) \<lparr>rc_reservation = length (reservations (fm_wallet w)),
        rc_peerAddress = addr, rc_chanAmt = om_FundingAmount msg, rc_lastUpdated = Some (fe_now env), rc_updates = None,
        rc_err = Some errChan\<rparr> R
    \<and> fm_sent w' = fm_sent w @ [(na_IdentityKey addr, MsgAcceptChannel (acceptMsg cfg msg
        (fc_NumRequiredConfs cfg (om_FundingAmount msg) (om_PushAmount msg)) (ourContribution R)))]
    \<and> fm_tasks w' = fm_tasks w \<and> fm_errs w' = fm_errs w"
proof -
  let ?l = "fm_wallet w" and ?n = "length (reservations (fm_wallet w))"
  have init: "InitChannelReservation (fe_wallet env) (om_FundingAmount msg) 0 (om_PushAmount msg) (ucast (om_FeePerKiloWeight msg)) 0
      (na_IdentityKey addr) (na_Address addr) (om_ChainHash msg) (om_ChannelFlags msg) ?l
    = (Inr ?n, ?l\<lparr>nextFundingID := nextFundingID ?l + 1, lockedOutPoints := lockedOutPoints ?l @ [],
        reservations := reservations ?l @ [initContribution (fe_wallet env) [] keys point (na_IdentityKey addr) (na_Address addr) res],
        fundingLimbo := (fundingLimbo ?l)(nextFundingID ?l + 1 \<mapsto> ?n)\<rparr>)"
    by (rule InitChannelReservation_run) (use assms in simp_all)
  note res = NewChannelReservation_Inr [OF assms(6)]
  have guards: "\<not> fc_MaxPendingChannels cfg \<le> int (length (peerReservations (newSerializedKey (na_IdentityKey addr)) w))"
    "\<not> sint maxFundingAmount < sint (om_FundingAmount msg)"
    using assms(1,3) by simp_all
  have open_eq: "handleFundingOpen cfg env msg addr w = reserveFor cfg env msg addr w"
    by (simp add: handleFundingOpen_def guards assms(2))
  show ?thesis
    unfolding open_eq reserveFor_def sendAccept_def
    by (simp add: run_defs init wallet_defs res assms(8,9) initContribution_def setConstraints_def makeChan_def
        putReservation_run SendToPeer_def updateTimestamp_def setTimestamp_def holds_def R_def responderRes_def)
qed

text \<open>The channel that a reservation becomes.\<close>

definition finalChan :: "ChannelReservation \<Rightarrow> OutPoint \<Rightarrow> u32 \<Rightarrow> OpenChannel" where
  "finalChan R op height = (partialState R)\<lparr>oc_FundingOutpoint := op, oc_LocalChanCfg := cb_Config (ourContribution R),
     oc_RemoteChanCfg := cb_Config (theirContribution R), oc_FundingBroadcastHeight := height\<rparr>"

definition atPoint :: "OutPoint \<Rightarrow> ChannelReservation \<Rightarrow> ChannelReservation" where
  "atPoint op R = R\<lparr>partialState := (partialState R)\<lparr>oc_FundingOutpoint := op\<rparr>\<rparr>"

lemma handleFundingCreated_run:
  fixes cfg env msg addr w
  defines "peer \<equiv> na_IdentityKey addr" and "pid \<equiv> cm_PendingChannelID msg" and "op \<equiv> cm_FundingPoint msg" and "we \<equiv> fe_wallet env"
  assumes h: "holds w peer pid ctx R"
    and wallet: "we_verifyCommitSig we (atPoint op R) (fc_ToSignatureBytes cfg (cm_CommitSig msg)) = None"
      "\<And>r. we_signCommitment we r = Inr (sg r)" "we_GetBestBlock we = Inr height" "\<And>c. we_SyncPending we c = None"
    and env: "\<And>s. fc_NewSig cfg s = Inr (ns s)" "\<And>m. fe_SendToPeer env peer m = None" "\<And>c. fe_WatchNewChannel env c = None"
  defines "C \<equiv> finalChan R op height"
  shows "\<exists>w' ourSig. ourSig = ns (sg (atPoint op R)) \<and> handleFundingCreated cfg env msg addr w = (Inr (), w')
    \<and> fm_tasks w' = fm_tasks w @ [WaitCreated peer pid C]
    \<and> fm_sent w' = fm_sent w @ [(peer, MsgFundingSigned \<lparr>sm_ChanID = NewChanIDFromOutPoint op, sm_CommitSig = ourSig\<rparr>)]
    \<and> channels (fm_wallet w') = putChannel C (channels (fm_wallet w))
    \<and> resCtxOf (newSerializedKey peer) pid w' = Some (ctx\<lparr>rc_lastUpdated := None\<rparr>)
    \<and> limboRes (rc_reservation ctx) (fm_wallet w') = None \<and> fm_errs w' = fm_errs w
    \<and> localDiscoverySignals w' = (localDiscoverySignals w)(NewChanIDFromOutPoint op \<mapsto> Suc (fm_nextChan w))"
proof -
  let ?r = "rc_reservation ctx" and ?l = "fm_wallet w"
  have facts: "resCtxOf (newSerializedKey peer) pid w = Some ctx" "?r < length (reservations ?l)" "reservations ?l ! ?r = R"
      "fundingLimbo ?l (reservationID R) = Some ?r"
    using h by (simp_all add: holds_def)
  note defs = peer_def [symmetric] pid_def [symmetric] op_def [symmetric] we_def [symmetric]
  have complete: "CompleteReservationSingle we ?r op (fc_ToSignatureBytes cfg (cm_CommitSig msg)) ?l = (Inr C, ?l\<lparr>reservations := (reservations ?l)
      [?r := R\<lparr>ourCommitmentSig := sg (atPoint op R), partialState := C\<rparr>],
      channels := putChannel C (channels ?l), fundingLimbo := (fundingLimbo ?l)(reservationID R := None)\<rparr>)"
    by (simp add: CompleteReservationSingle_def SyncPending_def toChanConfigs_def run_defs wallet_defs dropLimbo_def facts
        wallet [unfolded atPoint_def] C_def finalChan_def atPoint_def)
  show ?thesis
    unfolding handleFundingCreated_def Let_def defs
    by (simp add: complete run_defs getReservationCtx_def facts wallet_defs newBarrier_def newDiscoverySignal_def makeChan_def env SendToPeer_def
        WatchNewChannel_def lockReservation_def setTimestamp_def putReservation_run goTask_def)
qed

section \<open>The initiator\<close>

lemma handleInitFundingMsg_run:
  fixes cfg env req addr w
  defines "peer \<equiv> na_IdentityKey addr" and "we \<equiv> fe_wallet env" and "l \<equiv> fm_wallet w"
    and "capacity \<equiv> rq_localFundingAmt req + rq_remoteFundingAmt req"
  assumes "fe_EstimateFeePerVSize env 3 = Inr fee" "rq_localFundingAmt req + capacity \<noteq> 0" "rq_localFundingAmt req \<noteq> 0"
    and "we_GenesisHash we = rq_chainHash req"
    and new: "NewChannelReservation we capacity (rq_localFundingAmt req) (FeePerKWeight fee) (nextFundingID l + 1) (rq_pushAmt req)
           (rq_chainHash req) (if rq_private req then 0 else 1) = Inr res"
    and "we_selectCoins we (rq_fundingFeePerVSize req) (rq_localFundingAmt req) (lockedOutPoints l) = Inr coins"
    and "we_deriveKeys we (nextFundingID l + 1) = Inr (keys, point)"
    and env: "\<And>m. fe_SendToPeer env peer m = None"
  defines "R0 \<equiv> initContribution we coins keys point peer (na_Address addr) res"
  defines "R \<equiv> setConstraints (\<lambda>g. g\<lparr>cg_Constraints := (cg_Constraints g)\<lparr>ct_MinHTLC :=
      if rq_minHtlc req = 0 then fp_MinHTLC (fc_DefaultRoutingPolicy cfg) else rq_minHtlc req\<rparr>\<rparr>) R0"
    and "pid \<equiv> fc_XORKeyStream cfg (replicate 32 0) (le_enc 8 (unat (chanIDNonce w))) (fc_TempChanIDSeed cfg)"
  shows "\<exists>w'. handleInitFundingMsg cfg env req addr w = (Inr (), w')
    \<and> holds w' peer pid \<lparr>rc_reservation = length (reservations l), rc_peerAddress = addr, rc_chanAmt = capacity,
        rc_lastUpdated = Some (fe_now env), rc_updates = Some (rq_updates req), rc_err = Some (rq_err req)\<rparr> R
    \<and> fm_sent w' = fm_sent w @ [(peer, MsgOpenChannel (openMsg cfg req pid (FeePerKWeight fee) (ourContribution R)))]
    \<and> fm_tasks w' = fm_tasks w \<and> fm_updates w' = fm_updates w \<and> signedReservations w' = signedReservations w"
proof -
  have init: "InitChannelReservation we capacity (rq_localFundingAmt req) (rq_pushAmt req) (FeePerKWeight fee) (rq_fundingFeePerVSize req)
      peer (na_Address addr) (rq_chainHash req) (if rq_private req then 0 else 1) l
    = (Inr (length (reservations l)), l\<lparr>nextFundingID := nextFundingID l + 1, lockedOutPoints := lockedOutPoints l @ coins,
        reservations := reservations l @ [R0], fundingLimbo := (fundingLimbo l)(nextFundingID l + 1 \<mapsto> length (reservations l))\<rparr>)"
    unfolding R0_def by (rule InitChannelReservation_run) (use assms in simp_all)
  have rid: "reservationID R0 = nextFundingID l + 1" using NewChannelReservation_Inr(1) [OF new] by (simp add: R0_def initContribution_def)
  show ?thesis
    unfolding handleInitFundingMsg_def Let_def peer_def [symmetric] we_def [symmetric] capacity_def [symmetric]
    by (simp add: run_defs assms(5) l_def [symmetric] init wallet_defs nextPendingChanID_def pid_def putReservation_run env SendToPeer_def
        updateTimestamp_def setTimestamp_def holds_def rid setConstraints_def R_def)
qed

definition initiatorRes :: "fundingConfig \<Rightarrow> AcceptChannelMsg \<Rightarrow> reservationWithCtx \<Rightarrow> MsgTx \<Rightarrow> OutPoint \<Rightarrow> bytes
    \<Rightarrow> ChannelReservation \<Rightarrow> ChannelReservation" where
  "initiatorRes cfg msg ctx tx op sig R =
     (setConstraints (\<lambda>g. g\<lparr>cg_CsvDelay := am_CsvDelay msg, cg_Constraints := (cg_Constraints g)\<lparr>ct_ChanReserve := am_ChannelReserve msg,
        ct_MaxAcceptedHtlcs := am_MaxAcceptedHTLCs msg, ct_MaxPendingAmount := am_MaxValueInFlight msg, ct_MinHTLC := am_HtlcMinimum msg\<rparr>\<rparr>) R)
     \<lparr>theirContribution := acceptContribution cfg msg (rc_chanAmt ctx), fundingTx := Some tx,
      partialState := (partialState R)\<lparr>oc_NumConfsRequired := ucast (am_MinAcceptDepth msg), oc_FundingOutpoint := op,
        oc_RemoteCurrentRevocation := Some (am_FirstCommitmentPoint msg)\<rparr>, ourCommitmentSig := sig\<rparr>"

lemma handleFundingAccept_run:
  fixes cfg env msg addr w
  defines "peer \<equiv> na_IdentityKey addr" and "pid \<equiv> am_PendingChannelID msg" and "we \<equiv> fe_wallet env"
  assumes h: "holds w peer pid ctx R"
    and "checkConstraints (oc_Capacity (partialState R)) (am_CsvDelay msg) (am_MaxAcceptedHTLCs msg) (am_MaxValueInFlight msg)
           (am_HtlcMinimum msg) (am_ChannelReserve msg) = None"
    and wallet: "\<And>r. we_buildFundingTx we r = Inr (bt r, bo r)" "\<And>r. we_signCommitment we r = Inr (sg r)"
    and env: "\<And>s. fc_NewSig cfg s = Inr (ns s)" "\<And>m. fe_SendToPeer env peer m = None"
  shows "\<exists>w' tx op sig ourSig. ourSig = ns (sg (initiatorRes cfg msg ctx tx op (ourCommitmentSig R) R))
    \<and> handleFundingAccept cfg env msg addr w = (Inr (), w')
    \<and> holds w' peer pid (ctx\<lparr>rc_lastUpdated := Some (fe_now env)\<rparr>) (initiatorRes cfg msg ctx tx op sig R)
    \<and> fm_sent w' = fm_sent w @ [(peer, MsgFundingCreated \<lparr>cm_PendingChannelID = pid, cm_FundingPoint = op, cm_CommitSig = ourSig\<rparr>)]
    \<and> signedReservations w' = (signedReservations w)(NewChanIDFromOutPoint op \<mapsto> pid)
    \<and> fm_tasks w' = fm_tasks w \<and> fm_updates w' = fm_updates w"
proof -
  let ?r = "rc_reservation ctx" and ?l = "fm_wallet w"
  have facts: "resCtxOf (newSerializedKey peer) pid w = Some ctx" "?r < length (reservations ?l)" "reservations ?l ! ?r = R"
      "fundingLimbo ?l (reservationID R) = Some ?r"
    using h by (simp_all add: holds_def)
  show ?thesis
    unfolding handleFundingAccept_def sendCreated_def Let_def peer_def [symmetric] pid_def [symmetric] we_def [symmetric]
    by (simp add: run_defs getReservationCtx_def facts wallet_defs assms(5) wallet env newBarrier_def makeChan_def SendToPeer_def
        updateTimestamp_def setTimestamp_def putReservation_run holds_def setConstraints_def initiatorRes_def)
      blast
qed

lemma handleFundingSigned_run:
  fixes cfg env msg addr w
  defines "peer \<equiv> na_IdentityKey addr" and "we \<equiv> fe_wallet env"
  assumes found: "signedReservations w (sm_ChanID msg) = Some pid" and h: "holds w peer pid ctx R" and tx: "fundingTx R = Some tx"
    and ctx: "rc_updates ctx = Some u" "fm_updates w u = []"
    and wallet: "we_verifyCommitSig we R (fc_ToSignatureBytes cfg (sm_CommitSig msg)) = None" "we_GetBestBlock we = Inr height"
      "\<And>c. we_SyncPending we c = None" "\<And>t. we_PublishTransaction we t = None"
    and env: "\<And>c. fe_WatchNewChannel env c = None"
  defines "op \<equiv> oc_FundingOutpoint (partialState R)"
  defines "C \<equiv> (partialState R)\<lparr>oc_LocalChanCfg := cb_Config (ourContribution R), oc_RemoteChanCfg := cb_Config (theirContribution R),
     oc_FundingTxn := Some tx, oc_FundingBroadcastHeight := height\<rparr>"
  shows "\<exists>w'. handleFundingSigned cfg env msg addr w = (Inr (), w')
    \<and> fm_tasks w' = fm_tasks w @ [WaitSigned peer pid (Some u) C] \<and> fm_sent w' = fm_sent w
    \<and> channels (fm_wallet w') = putChannel C (channels (fm_wallet w)) \<and> lw_published (fm_wallet w') = lw_published (fm_wallet w) @ [tx]
    \<and> fm_updates w' u = [ChanPending op] \<and> resCtxOf (newSerializedKey peer) pid w' = Some (ctx\<lparr>rc_lastUpdated := None\<rparr>)"
proof -
  let ?r = "rc_reservation ctx" and ?l = "fm_wallet w"
  have facts: "resCtxOf (newSerializedKey peer) pid w = Some ctx" "?r < length (reservations ?l)" "reservations ?l ! ?r = R"
      "fundingLimbo ?l (reservationID R) = Some ?r"
    using h by (simp_all add: holds_def)
  have complete: "CompleteReservation we ?r (fc_ToSignatureBytes cfg (sm_CommitSig msg)) ?l = (Inr C, ?l\<lparr>fundingLimbo := (fundingLimbo ?l)(reservationID R := None),
      reservations := (reservations ?l)[?r := R\<lparr>partialState := C\<rparr>], channels := putChannel C (channels ?l),
      lw_published := lw_published ?l @ [tx]\<rparr>)"
    by (simp add: CompleteReservation_def SyncPending_def toChanConfigs_def run_defs wallet_defs dropLimbo_def facts wallet tx C_def)
  show ?thesis
    unfolding handleFundingSigned_def Let_def peer_def [symmetric] we_def [symmetric]
    by (simp add: run_defs found getReservationCtx_def facts wallet_defs newDiscoverySignal_def makeChan_def complete env
        WatchNewChannel_def sendUpdate_def ctx lockReservation_def setTimestamp_def putReservation_run goTask_def op_def)
qed

section \<open>Two funding managers\<close>

text \<open>An environment in which every call succeeds; of the check of a signature nothing is said.\<close>

definition obliging :: "fundingEnv \<Rightarrow> bool" where
  "obliging env \<longleftrightarrow> fe_IsSynced env = Inr True \<and> (\<exists>fee. fe_EstimateFeePerVSize env 3 = Inr fee)
     \<and> (\<forall>p m. fe_SendToPeer env p m = None) \<and> (\<forall>c. fe_WatchNewChannel env c = None)
     \<and> (\<forall>n. \<exists>kp. we_deriveKeys (fe_wallet env) n = Inr kp) \<and> (\<forall>f a ls. \<exists>cs. we_selectCoins (fe_wallet env) f a ls = Inr cs)
     \<and> (\<forall>r. \<exists>x. we_buildFundingTx (fe_wallet env) r = Inr x) \<and> (\<forall>r. \<exists>sig. we_signCommitment (fe_wallet env) r = Inr sig)
     \<and> (\<exists>h. we_GetBestBlock (fe_wallet env) = Inr h)
     \<and> (\<forall>c. we_SyncPending (fe_wallet env) c = None) \<and> (\<forall>t. we_PublishTransaction (fe_wallet env) t = None)"

lemma obligingE:
  assumes "obliging env"
  obtains bt bo sg height ks kp where "\<And>r. we_buildFundingTx (fe_wallet env) r = Inr (bt r, bo r)"
    "\<And>r. we_signCommitment (fe_wallet env) r = Inr (sg r)" "we_GetBestBlock (fe_wallet env) = Inr height"
    "\<And>n. we_deriveKeys (fe_wallet env) n = Inr (ks n, kp n)"
proof -
  obtain height where fh: "we_GetBestBlock (fe_wallet env) = Inr height"
    using assms by (auto simp: obliging_def)
  have "\<forall>r. \<exists>x. we_buildFundingTx (fe_wallet env) r = Inr x" "\<forall>r. \<exists>sig. we_signCommitment (fe_wallet env) r = Inr sig"
      "\<forall>n. \<exists>kp. we_deriveKeys (fe_wallet env) n = Inr kp"
    using assms by (simp_all add: obliging_def)
  then obtain b sg k where "\<And>r. we_buildFundingTx (fe_wallet env) r = Inr (b r)" "\<And>r. we_signCommitment (fe_wallet env) r = Inr (sg r)"
      "\<And>n. we_deriveKeys (fe_wallet env) n = Inr (k n)"
    by metis
  then show thesis using that [of "fst \<circ> b" "snd \<circ> b" sg height "fst \<circ> k" "snd \<circ> k"] fh by simp
qed

lemma obligingD:
  assumes "obliging env"
  shows "fe_IsSynced env = Inr True" "fe_SendToPeer env p m = None" "fe_WatchNewChannel env c = None"
    "we_SyncPending (fe_wallet env) c = None"
    "we_PublishTransaction (fe_wallet env) t = None" "\<exists>cs. we_selectCoins (fe_wallet env) f a ls = Inr cs"
  using assms by (simp_all add: obliging_def)

lemma openMsg_sel [simp]:
  fixes cfg req pid fee ours
  defines "m \<equiv> openMsg cfg req pid fee ours" and "capacity \<equiv> rq_localFundingAmt req + rq_remoteFundingAmt req"
  shows "om_PendingChannelID m = pid" "om_FundingAmount m = capacity" "om_ChainHash m = fc_GenesisHash cfg"
    "om_PushAmount m = rq_pushAmt req" "om_ChannelFlags m = (if rq_private req then 0 else 1)" "om_FeePerKiloWeight m = ucast fee"
    "om_CsvDelay m = (if rq_remoteCsvDelay req = 0 then fc_RequiredRemoteDelay cfg capacity else rq_remoteCsvDelay req)"
    "om_HtlcMinimum m = ct_MinHTLC (cg_Constraints (cb_Config ours))" "om_MaxAcceptedHTLCs m = fc_RequiredRemoteMaxHTLCs cfg capacity"
    "om_MaxValueInFlight m = fc_RequiredRemoteMaxValue cfg capacity" "om_ChannelReserve m = fc_RequiredRemoteChanReserve cfg capacity"
  by (simp_all add: m_def capacity_def openMsg_def Let_def)

lemma acceptMsg_sel [simp]:
  fixes cfg msg n ours
  defines "m \<equiv> acceptMsg cfg msg n ours" and "capacity \<equiv> om_FundingAmount msg"
  shows "am_PendingChannelID m = om_PendingChannelID msg" "am_CsvDelay m = fc_RequiredRemoteDelay cfg capacity"
    "am_HtlcMinimum m = ct_MinHTLC (cg_Constraints (cb_Config ours))"
    "am_MaxAcceptedHTLCs m = fc_RequiredRemoteMaxHTLCs cfg capacity" "am_MaxValueInFlight m = fc_RequiredRemoteMaxValue cfg capacity"
    "am_ChannelReserve m = fc_RequiredRemoteChanReserve cfg capacity"
  by (simp_all add: m_def capacity_def acceptMsg_def Let_def)

lemma initContribution_sel [simp]:
  "ourContribution (initContribution we coins keys point p ad res)
     = (ourContribution res)\<lparr>cb_Inputs := coins, cb_FirstCommitmentPoint := point, cb_Config := keys\<lparr>cg_Constraints := we_DefaultConstraints we\<rparr>\<rparr>"
  "partialState (initContribution we coins keys point p ad res) = (partialState res)\<lparr>oc_IdentityPub := p\<rparr>"
  by (simp_all add: initContribution_def)

text \<open>
  What goes into the commitment transactions of a channel: the two ends build the same ones, and
  so agree on what is signed, if these parameters mirror each other. The wallet makes them with
  \<^verbatim>\<open>CreateCommitmentTxns\<close> and \<^verbatim>\<open>DeriveStateHintObfuscator\<close>, which are not modelled.
\<close>

definition sameEnd :: "ChannelContribution \<Rightarrow> ChannelContribution \<Rightarrow> bool" where
  "sameEnd a b \<longleftrightarrow> cb_FirstCommitmentPoint a = cb_FirstCommitmentPoint b
     \<and> cg_MultiSigKey (cb_Config a) = cg_MultiSigKey (cb_Config b)
     \<and> cg_RevocationBasePoint (cb_Config a) = cg_RevocationBasePoint (cb_Config b)
     \<and> cg_PaymentBasePoint (cb_Config a) = cg_PaymentBasePoint (cb_Config b)
     \<and> cg_DelayBasePoint (cb_Config a) = cg_DelayBasePoint (cb_Config b)
     \<and> cg_HtlcBasePoint (cb_Config a) = cg_HtlcBasePoint (cb_Config b)
     \<and> cg_CsvDelay (cb_Config a) = cg_CsvDelay (cb_Config b)
     \<and> ct_DustLimit (cg_Constraints (cb_Config a)) = ct_DustLimit (cg_Constraints (cb_Config b))"

definition commitMirror :: "ChannelReservation \<Rightarrow> ChannelReservation \<Rightarrow> bool" where
  "commitMirror R R' \<longleftrightarrow> oc_FundingOutpoint (partialState R) = oc_FundingOutpoint (partialState R')
     \<and> oc_Capacity (partialState R) = oc_Capacity (partialState R')
     \<and> oc_ChanType (partialState R) = SingleFunder \<and> oc_ChanType (partialState R') = SingleFunder
     \<and> oc_IsInitiator (partialState R) \<noteq> oc_IsInitiator (partialState R')
     \<and> oc_LocalBalance (partialState R) = oc_RemoteBalance (partialState R')
     \<and> oc_RemoteBalance (partialState R) = oc_LocalBalance (partialState R')
     \<and> sameEnd (ourContribution R) (theirContribution R') \<and> sameEnd (theirContribution R) (ourContribution R')"

lemma commitMirror_sym: "commitMirror R R' \<Longrightarrow> commitMirror R' R"
  by (simp add: commitMirror_def sameEnd_def)

text \<open>
  The signatures of one wallet, sent through the wire format, pass the check of the other if the
  parameters they are made and checked with mirror each other.
\<close>

definition sigsInterop :: "fundingConfig \<Rightarrow> fundingEnv \<Rightarrow> fundingConfig \<Rightarrow> fundingEnv \<Rightarrow> bool" where
  "sigsInterop cfg env cfg' env' \<longleftrightarrow>
     (\<forall>R R' sig g. commitMirror R R' \<longrightarrow> we_signCommitment (fe_wallet env) R = Inr sig \<longrightarrow> fc_NewSig cfg sig = Inr g \<longrightarrow>
        we_verifyCommitSig (fe_wallet env') R' (fc_ToSignatureBytes cfg' g) = None)"

lemma sigsInteropD:
  "sigsInterop cfg env cfg' env' \<Longrightarrow> commitMirror R R' \<Longrightarrow> we_signCommitment (fe_wallet env) R = Inr sig \<Longrightarrow>
     fc_NewSig cfg sig = Inr g \<Longrightarrow> we_verifyCommitSig (fe_wallet env') R' (fc_ToSignatureBytes cfg' g) = None"
  by (simp add: sigsInterop_def)

text \<open>What the two ends of a channel agree on.\<close>

definition mirrorConfig :: "ChannelConfig \<Rightarrow> ChannelConfig \<Rightarrow> bool" where
  "mirrorConfig mine theirs \<longleftrightarrow> cg_MultiSigKey mine = cg_MultiSigKey theirs \<and> cg_RevocationBasePoint mine = cg_RevocationBasePoint theirs
     \<and> cg_PaymentBasePoint mine = cg_PaymentBasePoint theirs \<and> cg_DelayBasePoint mine = cg_DelayBasePoint theirs
     \<and> cg_HtlcBasePoint mine = cg_HtlcBasePoint theirs \<and> cg_CsvDelay mine = cg_CsvDelay theirs
     \<and> ct_DustLimit (cg_Constraints mine) = ct_DustLimit (cg_Constraints theirs)
     \<and> ct_ChanReserve (cg_Constraints mine) = ct_ChanReserve (cg_Constraints theirs)
     \<and> ct_MaxPendingAmount (cg_Constraints mine) = ct_MaxPendingAmount (cg_Constraints theirs)
     \<and> ct_MaxAcceptedHtlcs (cg_Constraints mine) = ct_MaxAcceptedHtlcs (cg_Constraints theirs)"

definition endsAgree :: "PublicKey \<Rightarrow> PublicKey \<Rightarrow> u64 \<Rightarrow> OpenChannel \<Rightarrow> OpenChannel \<Rightarrow> bool" where
  "endsAgree idA idB capacity chanA chanB \<longleftrightarrow> oc_IsPending chanA \<and> oc_IsPending chanB
     \<and> oc_FundingOutpoint chanA = oc_FundingOutpoint chanB \<and> oc_Capacity chanA = capacity \<and> oc_Capacity chanB = capacity
     \<and> oc_ChanType chanA = SingleFunder \<and> oc_ChanType chanB = SingleFunder \<and> oc_IsInitiator chanA \<and> \<not> oc_IsInitiator chanB
     \<and> oc_ChainHash chanA = oc_ChainHash chanB \<and> oc_ChannelFlags chanA = oc_ChannelFlags chanB
     \<and> oc_NumConfsRequired chanA = oc_NumConfsRequired chanB
     \<and> oc_LocalBalance chanA = oc_RemoteBalance chanB \<and> oc_RemoteBalance chanA = oc_LocalBalance chanB
     \<and> oc_IdentityPub chanA = idB \<and> oc_IdentityPub chanB = idA
     \<and> mirrorConfig (oc_LocalChanCfg chanA) (oc_RemoteChanCfg chanB) \<and> mirrorConfig (oc_LocalChanCfg chanB) (oc_RemoteChanCfg chanA)"

text \<open>The channel that the initiator stores.\<close>

definition signedChan :: "ChannelReservation \<Rightarrow> MsgTx \<Rightarrow> u32 \<Rightarrow> OpenChannel" where
  "signedChan R tx height = (partialState R)\<lparr>oc_LocalChanCfg := cb_Config (ourContribution R),
     oc_RemoteChanCfg := cb_Config (theirContribution R), oc_FundingTxn := Some tx, oc_FundingBroadcastHeight := height\<rparr>"

text \<open>From the acceptance on: the initiator's transaction and the two signatures.\<close>

lemma flow_signs:
  fixes cfgA cfgB envA envB addrA addrB w1 w2 R0 RB m2
  defines "idA \<equiv> na_IdentityKey addrA" and "idB \<equiv> na_IdentityKey addrB"
  assumes env: "obliging envA" "obliging envB" "\<And>s. \<exists>g. fc_NewSig cfgA s = Inr g" "\<And>s. \<exists>g. fc_NewSig cfgB s = Inr g"
    and held: "holds w1 idB pid ctx R0" "holds w2 idA pid ctxB RB" "am_PendingChannelID m2 = pid" "rc_lastUpdated ctx = Some (fe_now envA)"
    and ok: "checkConstraints (oc_Capacity (partialState R0)) (am_CsvDelay m2) (am_MaxAcceptedHTLCs m2) (am_MaxValueInFlight m2)
        (am_HtlcMinimum m2) (am_ChannelReserve m2) = None"
    and caller: "rc_updates ctx = Some u" "fm_updates w1 u = []"
    and sigs: "sigsInterop cfgA envA cfgB envB" "sigsInterop cfgB envB cfgA envA"
    and mirror: "\<And>tx op sig. commitMirror (initiatorRes cfgA m2 ctx tx op sig R0) (atPoint op RB)"
  shows "\<exists>m3 m4 w3 w4 w5 tx op sig hA hB. let chanA = signedChan (initiatorRes cfgA m2 ctx tx op sig R0) tx hA; chanB = finalChan RB op hB in
      handleFundingAccept cfgA envA m2 addrB w1 = (Inr (), w3) \<and> fm_sent w3 = fm_sent w1 @ [(idB, MsgFundingCreated m3)]
    \<and> handleFundingCreated cfgB envB m3 addrA w2 = (Inr (), w4) \<and> fm_sent w4 = fm_sent w2 @ [(idA, MsgFundingSigned m4)]
    \<and> handleFundingSigned cfgA envA m4 addrB w3 = (Inr (), w5)
    \<and> WaitSigned idB pid (Some u) chanA \<in> set (fm_tasks w5) \<and> chanA \<in> set (channels (fm_wallet w5))
    \<and> WaitCreated idA pid chanB \<in> set (fm_tasks w4) \<and> chanB \<in> set (channels (fm_wallet w4)) \<and> tx \<in> set (lw_published (fm_wallet w5))"
proof -
  note A = obligingD [OF env(1)] and B = obligingD [OF env(2)]
  obtain btA boA sgA hA where A': "\<And>r. we_buildFundingTx (fe_wallet envA) r = Inr (btA r, boA r)"
      "\<And>r. we_signCommitment (fe_wallet envA) r = Inr (sgA r)" "we_GetBestBlock (fe_wallet envA) = Inr hA"
    using obligingE [OF env(1)] by metis
  obtain sgB hB where B': "\<And>r. we_signCommitment (fe_wallet envB) r = Inr (sgB r)" "we_GetBestBlock (fe_wallet envB) = Inr hB"
    using obligingE [OF env(2)] by metis
  obtain nsA nsB where ns: "\<And>s. fc_NewSig cfgA s = Inr (nsA s)" "\<And>s. fc_NewSig cfgB s = Inr (nsB s)"
    using env(3,4) by metis
  have ctx: "ctx\<lparr>rc_lastUpdated := Some (fe_now envA)\<rparr> = ctx" using held(4) by simp
  obtain w3 tx op sig ourSig where s3: "handleFundingAccept cfgA envA m2 addrB w1 = (Inr (), w3)"
      "holds w3 idB pid ctx (initiatorRes cfgA m2 ctx tx op sig R0)"
      "fm_sent w3 = fm_sent w1 @ [(idB, MsgFundingCreated \<lparr>cm_PendingChannelID = pid, cm_FundingPoint = op, cm_CommitSig = ourSig\<rparr>)]"
      "signedReservations w3 (NewChanIDFromOutPoint op) = Some pid" "fm_updates w3 = fm_updates w1"
      "ourSig = nsA (sgA (initiatorRes cfgA m2 ctx tx op (ourCommitmentSig R0) R0))"
    using handleFundingAccept_run [where cfg = cfgA and env = envA and msg = m2 and addr = addrB and w = w1 and ctx = ctx and R = R0,
        OF _ _ A'(1,2) ns(1) A(2), folded idB_def, unfolded held(3) ctx] held(1) ok by auto
  let ?RA = "initiatorRes cfgA m2 ctx tx op sig R0" and ?m3 = "\<lparr>cm_PendingChannelID = pid, cm_FundingPoint = op, cm_CommitSig = ourSig\<rparr>"
  have checkB: "we_verifyCommitSig (fe_wallet envB) (atPoint op RB) (fc_ToSignatureBytes cfgB ourSig) = None"
    unfolding s3(6) by (rule sigsInteropD [OF sigs(1) mirror A'(2) ns(1)])
  obtain w4 ourSigB where s4: "handleFundingCreated cfgB envB ?m3 addrA w2 = (Inr (), w4)"
      "fm_tasks w4 = fm_tasks w2 @ [WaitCreated idA pid (finalChan RB op hB)]"
      "fm_sent w4 = fm_sent w2 @ [(idA, MsgFundingSigned \<lparr>sm_ChanID = NewChanIDFromOutPoint op, sm_CommitSig = ourSigB\<rparr>)]"
      "channels (fm_wallet w4) = putChannel (finalChan RB op hB) (channels (fm_wallet w2))" "ourSigB = nsB (sgB (atPoint op RB))"
    using handleFundingCreated_run [where cfg = cfgB and env = envB and w = w2 and addr = addrA and ctx = ctxB and R = RB and msg = ?m3,
        OF _ _ B'(1,2) B(4) ns(2) B(2,3), folded idA_def] held(2) checkB by auto
  have checkA: "we_verifyCommitSig (fe_wallet envA) ?RA (fc_ToSignatureBytes cfgA ourSigB) = None"
    unfolding s4(5) by (rule sigsInteropD [OF sigs(2) commitMirror_sym [OF mirror] B'(1) ns(2)])
  obtain w5 where s5: "handleFundingSigned cfgA envA \<lparr>sm_ChanID = NewChanIDFromOutPoint op, sm_CommitSig = ourSigB\<rparr> addrB w3 = (Inr (), w5)"
      "fm_tasks w5 = fm_tasks w3 @ [WaitSigned idB pid (Some u) (signedChan ?RA tx hA)]"
      "channels (fm_wallet w5) = putChannel (signedChan ?RA tx hA) (channels (fm_wallet w3))"
      "lw_published (fm_wallet w5) = lw_published (fm_wallet w3) @ [tx]"
    using handleFundingSigned_run [where cfg = cfgA and env = envA and w = w3 and addr = addrB and ctx = ctx and R = ?RA and pid = pid
        and tx = tx and u = u and height = hA and msg = "\<lparr>sm_ChanID = NewChanIDFromOutPoint op, sm_CommitSig = ourSigB\<rparr>",
        OF _ _ _ caller(1) _ _ A'(3) A(4,5,3), folded idB_def signedChan_def] s3 caller(2) checkA by (auto simp: initiatorRes_def)
  have stored: "WaitSigned idB pid (Some u) (signedChan ?RA tx hA) \<in> set (fm_tasks w5)" "signedChan ?RA tx hA \<in> set (channels (fm_wallet w5))"
    "WaitCreated idA pid (finalChan RB op hB) \<in> set (fm_tasks w4)" "finalChan RB op hB \<in> set (channels (fm_wallet w4))"
    "tx \<in> set (lw_published (fm_wallet w5))"
    by (simp_all add: s4 s5 putChannel_def)
  show ?thesis
    unfolding Let_def by (intro exI conjI, rule s3(1), rule s3(3), rule s4(1), rule s4(3), rule s5(1)) (rule stored)+
qed

lemma flow_agrees:
  fixes cfgA cfgB req weA weB coins minA keysA pointA idA idB adA adB resA resB pid fee keysB pointB ctx tx op sig hA hB
  defines "capacity \<equiv> rq_localFundingAmt req"
  assumes single: "rq_remoteFundingAmt req = 0" "capacity \<noteq> 0"
    and delay: "rq_remoteCsvDelay req = 0 \<or> rq_remoteCsvDelay req = fc_RequiredRemoteDelay cfgA capacity"
    and resA: "NewChannelReservation weA capacity capacity fee ridA push chain flags = Inr resA"
    and resB: "NewChannelReservation weB capacity 0 fee ridB push chain flags = Inr resB"
  defines "R0 \<equiv> setConstraints (\<lambda>g. g\<lparr>cg_Constraints := (cg_Constraints g)\<lparr>ct_MinHTLC := minA\<rparr>\<rparr>)
      (initContribution weA coins keysA pointA idB adA resA)"
  defines "m1 \<equiv> openMsg cfgA req pid fee (ourContribution R0)"
  defines "RB \<equiv> responderRes cfgB m1 (initContribution weB [] keysB pointB idA adB resB)"
  defines "m2 \<equiv> acceptMsg cfgB m1 (fc_NumRequiredConfs cfgB capacity (rq_pushAmt req)) (ourContribution RB)"
  assumes "rc_chanAmt ctx = capacity"
  defines "RA \<equiv> initiatorRes cfgA m2 ctx tx op sig R0"
  defines "chanA \<equiv> signedChan RA tx hA"
    and "chanB \<equiv> finalChan RB op hB"
    and "minB \<equiv> fp_MinHTLC (fc_DefaultRoutingPolicy cfgB)"
  shows "commitMirror RA (atPoint op RB)" "endsAgree idA idB capacity chanA chanB"
    "oc_LocalBalance chanA = funderBalance capacity fee push" "oc_RemoteBalance chanA = push"
    "ct_MinHTLC (cg_Constraints (oc_LocalChanCfg chanA)) = minB" "ct_MinHTLC (cg_Constraints (oc_RemoteChanCfg chanA)) = minB"
    "ct_MinHTLC (cg_Constraints (oc_LocalChanCfg chanB)) = minB" "ct_MinHTLC (cg_Constraints (oc_RemoteChanCfg chanB)) = minA"
proof -
  note defs = chanA_def chanB_def RA_def finalChan_def signedChan_def initiatorRes_def m2_def RB_def responderRes_def
    R0_def setConstraints_def acceptMsg_def m1_def openMsg_def acceptContribution_def openContribution_def Let_def atPoint_def minB_def
  note parts = NewChannelReservation_Inr [OF resA] NewChannelReservation_Inr [OF resB] NewChannelReservation_single [OF resA]
    NewChannelReservation_single [OF resB] single [unfolded capacity_def] assms(11) [unfolded capacity_def]
  have csv: "om_CsvDelay m1 = fc_RequiredRemoteDelay cfgA capacity"
    using delay single(1) by (auto simp: m1_def capacity_def)
  have confs: "ucast (ucast (n :: u16) :: u32) = n" for n :: u16 by (rule bit_word_eqI) (simp add: bit_simps)
  show "commitMirror RA (atPoint op RB)" "endsAgree idA idB capacity chanA chanB"
    using csv parts by (simp_all add: commitMirror_def sameEnd_def endsAgree_def mirrorConfig_def defs capacity_def confs)
  show "oc_LocalBalance chanA = funderBalance capacity fee push" "oc_RemoteBalance chanA = push"
    "ct_MinHTLC (cg_Constraints (oc_LocalChanCfg chanA)) = minB" "ct_MinHTLC (cg_Constraints (oc_RemoteChanCfg chanA)) = minB"
    "ct_MinHTLC (cg_Constraints (oc_LocalChanCfg chanB)) = minB" "ct_MinHTLC (cg_Constraints (oc_RemoteChanCfg chanB)) = minA"
    using parts by (simp_all add: defs capacity_def)
qed

end
