(* ===== verification/FundingProps.thy ===== *)
theory FundingProps
  imports FundingSystem FundingParams FundingRuns
begin

text \<open>
  What the funding manager guarantees: the properties of its parts put together, each with a
  concrete instance.
\<close>

section \<open>Concrete instances\<close>

definition demo_key :: "nat \<Rightarrow> PublicKey" where "demo_key n = \<lparr>X = n, Y = 2\<rparr>"

definition demo_sign :: "PublicKey \<Rightarrow> bytes \<Rightarrow> goerr + bytes" where
  "demo_sign k m = Inr (newSerializedKey k @ m)"

definition demo_fcfg :: "nat \<Rightarrow> fundingConfig" where
  "demo_fcfg n = \<lparr>fc_IDKey = demo_key n, fc_GenesisHash = 7, fc_TempChanIDSeed = replicate 32 1,
     fc_XORKeyStream = (\<lambda>z nonce k. take 8 nonce @ drop 8 z), fc_MaxPendingChannels = 1, fc_ReservationTimeout = 600,
     fc_DefaultRoutingPolicy = \<lparr>fp_MinHTLC = 1000, fp_BaseFee = 1000, fp_FeeRate = 1, fp_TimeLockDelta = 144\<rparr>,
     fc_NumRequiredConfs = (\<lambda>_ _. 3), fc_RequiredRemoteDelay = (\<lambda>_. 144),
     fc_RequiredRemoteChanReserve = RequiredRemoteChanReserve, fc_RequiredRemoteMaxValue = RequiredRemoteMaxValue,
     fc_RequiredRemoteMaxHTLCs = RequiredRemoteMaxHTLCs, fc_SignMessage = demo_sign, fc_NewSig = Inr, fc_ToSignatureBytes = id\<rparr>"

definition demo_scid :: ShortChannelID where "demo_scid = \<lparr>BlockHeight = 500000, TxIndex = 7, TxPosition = 1\<rparr>"

definition demo_fpoint :: OutPoint where "demo_fpoint = \<lparr>Hash = 11, Index = 1\<rparr>"

definition demo_fkeys :: ChannelConfig where
  "demo_fkeys = noConfig\<lparr>cg_MultiSigKey := demo_key 3, cg_PaymentBasePoint := demo_key 4\<rparr>"

definition demo_wenv :: walletEnv where
  "demo_wenv = \<lparr>we_GenesisHash = 7, we_DefaultDustLimit = 573, we_DefaultConstraints = noConstraints\<lparr>ct_DustLimit := 573\<rparr>,
     we_selectCoins = (\<lambda>_ _ locked. Inr [demo_fpoint]), we_deriveKeys = (\<lambda>_. Inr (demo_fkeys, demo_key 6)),
     we_buildFundingTx = (\<lambda>_. Inr (NewMsgTx 1, demo_fpoint)), we_signCommitment = (\<lambda>_. Inr [1, 2]),
     we_verifyCommitSig = (\<lambda>_ _. None), we_GetBestBlock = Inr 500000, we_SyncPending = (\<lambda>_. None),
     we_PublishTransaction = (\<lambda>_. None)\<rparr>"

definition demo_fenv :: fundingEnv where
  "demo_fenv = \<lparr>fe_wallet = demo_wenv, fe_now = 1000, fe_IsSynced = Inr True, fe_EstimateFeePerVSize = (\<lambda>_. Inr 10),
     fe_SendToPeer = (\<lambda>_ _. None), fe_WatchNewChannel = (\<lambda>_. None), fe_CloseChannel = (\<lambda>_. None)\<rparr>"

definition demo_addr :: "nat \<Rightarrow> NetAddress" where "demo_addr n = \<lparr>na_IdentityKey = demo_key n, na_Address = OtherAddr []\<rparr>"

definition demo_open :: OpenChannelMsg where
  "demo_open = \<lparr>om_ChainHash = 7, om_PendingChannelID = replicate 32 9, om_FundingAmount = 100000, om_PushAmount = 0,
     om_DustLimit = 573, om_MaxValueInFlight = 99000000, om_ChannelReserve = 1000, om_HtlcMinimum = 1000,
     om_FeePerKiloWeight = 2500, om_CsvDelay = 144, om_MaxAcceptedHTLCs = 483, om_FundingKey = demo_key 4,
     om_RevocationPoint = demo_key 4, om_PaymentPoint = demo_key 4, om_DelayedPaymentPoint = demo_key 4,
     om_HtlcPoint = demo_key 4, om_FirstCommitmentPoint = demo_key 8, om_ChannelFlags = 1\<rparr>"

definition demo_created :: FundingCreatedMsg where
  "demo_created = \<lparr>cm_PendingChannelID = replicate 32 9, cm_FundingPoint = demo_fpoint, cm_CommitSig = [3]\<rparr>"

text \<open>A responder that has got \<^verbatim>\<open>OpenChannel\<close>, and then \<^verbatim>\<open>FundingCreated\<close>.\<close>

definition demo_opened :: fundingManager where
  "demo_opened = snd (handleFundingOpen (demo_fcfg 5) demo_fenv demo_open (demo_addr 9) (newFundingManager emptyWallet empty_db))"

definition demo_funded :: fundingManager where
  "demo_funded = snd (handleFundingCreated (demo_fcfg 5) demo_fenv demo_created (demo_addr 9) demo_opened)"

section \<open>Announcing\<close>

lemma newChanAnnouncement_Inr:
  assumes "newChanAnnouncement cfg now localPubKey remotePubKey localFundingKey remoteFundingKey scid chanID minHTLC = Inr (ann, cupd, prf)"
  shows "(ann, cu_Flags cupd) = chanAnnFor (fc_GenesisHash cfg) localPubKey remotePubKey localFundingKey remoteFundingKey scid
    \<and> (\<exists>msg. ann_DataToSign ann = Inr msg \<and> signAndWrap cfg (fc_IDKey cfg) msg = Inr (as_NodeSignature prf)
         \<and> signAndWrap cfg localFundingKey msg = Inr (as_BitcoinSignature prf))"
  using assms unfolding newChanAnnouncement_def Let_def
  by (auto simp: signAndWrap_def split: prod.split_asm sum.split_asm)

text \<open>
  C24. Both ends of a channel, whose identity keys differ, build the same channel announcement,
  and take opposite directions in their updates. The two proofs together authenticate it: the
  signatures of the node in direction 0 are valid for the first pair of keys of the announcement
  and those of the other for the second, over the same bytes.
\<close>

theorem announcements_agree:
  assumes "newChanAnnouncement cfgA nowA idA idB fkA fkB scid cidA minA = Inr (annA, updA, prfA)"
    and "newChanAnnouncement cfgB nowB idB idA fkB fkA scid cidB minB = Inr (annB, updB, prfB)"
    and "fc_IDKey cfgA = idA" "fc_IDKey cfgB = idB" "fc_GenesisHash cfgA = fc_GenesisHash cfgB"
    and "SerializeCompressed idA \<noteq> SerializeCompressed idB"
    and valid: "\<And>cfg key msg sig wire. cfg \<in> {cfgA, cfgB} \<Longrightarrow> fc_SignMessage cfg key msg = Inr sig \<Longrightarrow> fc_NewSig cfg sig = Inr wire
      \<Longrightarrow> verify (newSerializedKey key) msg wire"
  shows "annA = annB \<and> (\<exists>msg p1 p2. ann_DataToSign annA = Inr msg
      \<and> (cu_Flags updA = 0 \<and> cu_Flags updB = 1 \<and> p1 = prfA \<and> p2 = prfB \<or> cu_Flags updA = 1 \<and> cu_Flags updB = 0 \<and> p1 = prfB \<and> p2 = prfA)
      \<and> verify (ca_NodeID1 annA) msg (as_NodeSignature p1) \<and> verify (ca_BitcoinKey1 annA) msg (as_BitcoinSignature p1)
      \<and> verify (ca_NodeID2 annA) msg (as_NodeSignature p2) \<and> verify (ca_BitcoinKey2 annA) msg (as_BitcoinSignature p2))"
proof -
  let ?a = "chanAnnFor (fc_GenesisHash cfgA) idA idB fkA fkB scid" and ?b = "chanAnnFor (fc_GenesisHash cfgA) idB idA fkB fkA scid"
  obtain msg where A: "(annA, cu_Flags updA) = ?a" "ann_DataToSign annA = Inr msg"
      "signAndWrap cfgA idA msg = Inr (as_NodeSignature prfA)" "signAndWrap cfgA fkA msg = Inr (as_BitcoinSignature prfA)"
    using newChanAnnouncement_Inr [OF assms(1)] assms(3) by auto
  obtain msg' where B: "(annB, cu_Flags updB) = ?b" "ann_DataToSign annB = Inr msg'"
      "signAndWrap cfgB idB msg' = Inr (as_NodeSignature prfB)" "signAndWrap cfgB fkB msg' = Inr (as_BitcoinSignature prfB)"
    using newChanAnnouncement_Inr [OF assms(2)] assms(4,5) by auto
  have less: "SerializeCompressed idB < SerializeCompressed idA \<longleftrightarrow> \<not> SerializeCompressed idA < SerializeCompressed idB"
    using assms(6) by (metis less_asym linorder_neqE)
  have same: "annA = annB" using A(1) B(1) less by (simp add: chanAnnFor_def split: if_splits)
  then have msg: "msg' = msg" using A(2) B(2) by simp
  have sigs: "verify (newSerializedKey key) m wire" if "cfg \<in> {cfgA, cfgB}" "signAndWrap cfg key m = Inr wire" for cfg key m wire
    using that valid by (auto simp: signAndWrap_def split: sum.splits)
  show ?thesis
  proof (cases "SerializeCompressed idA < SerializeCompressed idB")
    case True
    with A B less msg same sigs show ?thesis
      by (intro conjI exI [of _ msg] exI [of _ prfA] exI [of _ prfB]) (auto simp: chanAnnFor_def)
  next
    case False
    with A B less msg same sigs show ?thesis
      by (intro conjI exI [of _ msg] exI [of _ prfB] exI [of _ prfA]) (auto simp: chanAnnFor_def)
  qed
qed

theorem announcements_agree_witness:
  "\<exists>annA updA prfA annB updB prfB.
     newChanAnnouncement (demo_fcfg 5) 1 (demo_key 5) (demo_key 9) (demo_key 3) (demo_key 4) demo_scid [] 1 = Inr (annA, updA, prfA)
   \<and> newChanAnnouncement (demo_fcfg 9) 1 (demo_key 9) (demo_key 5) (demo_key 4) (demo_key 3) demo_scid [] 1 = Inr (annB, updB, prfB)
   \<and> annA = annB \<and> ca_NodeID1 annA = newSerializedKey (demo_key 5)"
proof -
  have ser: "SerializeCompressed (demo_key 5) < SerializeCompressed (demo_key 9)" "SerializeCompressed (demo_key 5) \<noteq> SerializeCompressed (demo_key 9)"
    by code_simp+
  obtain sb where scid: "scidBytes demo_scid = Inr sb" by (simp add: scidBytes_def demo_scid_def push_bit_of_1)
  obtain annA updA prfA where A: "newChanAnnouncement (demo_fcfg 5) 1 (demo_key 5) (demo_key 9) (demo_key 3) (demo_key 4) demo_scid [] 1
      = Inr (annA, updA, prfA)"
    by (simp add: newChanAnnouncement_def chanAnnFor_def ser update_DataToSign_def ann_DataToSign_def scid signAndWrap_def demo_fcfg_def demo_sign_def)
  obtain annB updB prfB where B: "newChanAnnouncement (demo_fcfg 9) 1 (demo_key 9) (demo_key 5) (demo_key 4) (demo_key 3) demo_scid [] 1
      = Inr (annB, updB, prfB)"
    by (simp add: newChanAnnouncement_def chanAnnFor_def less_not_sym [OF ser(1)] update_DataToSign_def ann_DataToSign_def scid signAndWrap_def
        demo_fcfg_def demo_sign_def)
  have "annA = annB"
    by (rule announcements_agree [where verify = "\<lambda>k m g. g = k @ m", OF A B, THEN conjunct1])
      (auto simp: demo_fcfg_def demo_sign_def ser)
  moreover have "ca_NodeID1 annA = newSerializedKey (demo_key 5)"
    using newChanAnnouncement_Inr [OF A] by (simp add: chanAnnFor_def ser)
  ultimately show ?thesis using A B by blast
qed

section \<open>Constraints\<close>

text \<open>
  The constraints that a node asks of its peer, with the delay of the configuration at most
  10000, are accepted by a peer that runs the same code, for every channel up to the largest
  size and every minimum of which five fit in the channel. A delay that is not configured lies
  between the two bounds of the chain, and the number of confirmations between 3 and 6.
\<close>

theorem own_constraints_accepted:
  assumes "unat amount \<le> 2 ^ 24" "5 * unat minHtlc \<le> unat (RequiredRemoteMaxValue amount)"
    and "ch_minRemoteDelay ch \<le> ch_maxRemoteDelay ch" "ch_maxRemoteDelay ch \<le> 10000"
    and "(word_of_int (ch_DefaultRemoteDelay ch) :: u16) \<le> 10000"
    and "oc_Capacity (partialState (reservations l ! r)) = amount"
  shows "fst (CommitConstraints r (RequiredRemoteDelay ch amount) (RequiredRemoteMaxHTLCs amount) (RequiredRemoteMaxValue amount)
             minHtlc (RequiredRemoteChanReserve amount) l) = Inr ()
    \<and> ((word_of_int (ch_DefaultRemoteDelay ch) :: u16) = 0 \<longrightarrow>
         ch_minRemoteDelay ch \<le> RequiredRemoteDelay ch amount \<and> RequiredRemoteDelay ch amount \<le> ch_maxRemoteDelay ch)
    \<and> ((word_of_int (ch_DefaultNumChanConfs ch) :: u16) = 0 \<longrightarrow>
         3 \<le> unat (NumRequiredConfs ch amount push) \<and> unat (NumRequiredConfs ch amount push) \<le> 6)"
proof -
  have "RequiredRemoteDelay ch amount \<le> 10000"
  proof (cases "(word_of_int (ch_DefaultRemoteDelay ch) :: u16) = 0")
    case True
    from RequiredRemoteDelay_range [OF True assms(3), of amount] assms(4) show ?thesis by (meson order_trans)
  next
    case False
    then show ?thesis using assms(5) by (simp add: RequiredRemoteDelay_def word_gt_0)
  qed
  then have "unat (RequiredRemoteDelay ch amount) \<le> 10000" by (simp add: word_le_nat_alt)
  from our_constraints_pass [OF assms(1,2) this] show ?thesis
    using RequiredRemoteDelay_range [OF _ assms(3)] NumRequiredConfs_range assms(6)
    by (simp add: CommitConstraints_def theRes_def changeRes_def io_simps fails_def)
qed

definition demo_chain :: chainConfig where
  "demo_chain = \<lparr>ch_DefaultNumChanConfs = 0, ch_DefaultRemoteDelay = 0, ch_minRemoteDelay = minBtcRemoteDelay,
     ch_maxRemoteDelay = maxBtcRemoteDelay\<rparr>"

theorem own_constraints_accepted_witness:
  "fst (CommitConstraints 0 (RequiredRemoteDelay demo_chain 100000) (RequiredRemoteMaxHTLCs 100000) (RequiredRemoteMaxValue 100000)
      1000 (RequiredRemoteChanReserve 100000) (fm_wallet demo_opened)) = Inr ()
   \<and> RequiredRemoteDelay demo_chain 100000 = 144 \<and> NumRequiredConfs demo_chain 100000 0 = 3"
proof -
  have max: "RequiredRemoteMaxValue 100000 = 99000000" by code_simp
  have sizes: "unat (100000 :: u64) \<le> 2 ^ 24" "5 * unat (1000 :: u64) \<le> unat (RequiredRemoteMaxValue 100000)"
    by (simp_all add: max)
  have "ch_minRemoteDelay demo_chain \<le> ch_maxRemoteDelay demo_chain" "ch_maxRemoteDelay demo_chain \<le> 10000"
    "(word_of_int (ch_DefaultRemoteDelay demo_chain) :: u16) \<le> 10000"
    "oc_Capacity (partialState (reservations (fm_wallet demo_opened) ! 0)) = 100000"
    by code_simp+
  note own_constraints_accepted [OF sizes this]
  moreover have "RequiredRemoteDelay demo_chain 100000 = 144" "NumRequiredConfs demo_chain 100000 0 = 3" by code_simp+
  ultimately show ?thesis by blast
qed

section \<open>The funding flow\<close>

text \<open>
  C5. A request for a channel that both sides find acceptable goes through: the four messages,
  each handed to the other side, end with both funding managers waiting for the confirmation of
  the same outpoint, the channel pending in both databases, the funding transaction published by
  the initiator, and the two records of the channel agreeing: capacity, keys, delays, dust limits,
  reserves and limits of each end, the balances, the number of confirmations, and who funds it.
  A signature is only taken to pass the other side's check if both sides hold mirrored parameters
  of the commitment transactions, which the handlers bring about. The minimum of an HTLC is
  not mirrored: the initiator replaces its own by that of the responder, who keeps the one it was
  sent. The request is assumed to be funded by the initiator alone, with a fee rate of 32 bits,
  and to leave the delay of the responder to the default, or to ask for the same.
\<close>

theorem funding_flow_completes:
  fixes req cfgA cfgB envA envB wA wB addrA addrB fee
  defines "idA \<equiv> na_IdentityKey addrA" and "idB \<equiv> na_IdentityKey addrB" and "capacity \<equiv> rq_localFundingAmt req"
    and "flags \<equiv> (if rq_private req then 0 else 1)"
    and "minA \<equiv> (if rq_minHtlc req = 0 then fp_MinHTLC (fc_DefaultRoutingPolicy cfgA) else rq_minHtlc req)"
    and "minB \<equiv> fp_MinHTLC (fc_DefaultRoutingPolicy cfgB)"
  assumes env: "obliging envA" "obliging envB" "\<And>s. \<exists>g. fc_NewSig cfgA s = Inr g" "\<And>s. \<exists>g. fc_NewSig cfgB s = Inr g"
    and sigs: "sigsInterop cfgA envA cfgB envB" "sigsInterop cfgB envB cfgA envA"
    and chain: "rq_chainHash req = fc_GenesisHash cfgA" "we_GenesisHash (fe_wallet envA) = fc_GenesisHash cfgA"
      "we_GenesisHash (fe_wallet envB) = fc_GenesisHash cfgA"
    and amounts: "rq_remoteFundingAmt req = 0" "capacity \<noteq> 0" "capacity + capacity \<noteq> 0" "sint capacity \<le> sint maxFundingAmount"
    and delay: "rq_remoteCsvDelay req = 0 \<or> rq_remoteCsvDelay req = fc_RequiredRemoteDelay cfgA capacity"
    and fee: "fe_EstimateFeePerVSize envA 3 = Inr fee" "ucast (ucast (FeePerKWeight fee) :: u32) = FeePerKWeight fee"
    and resA: "NewChannelReservation (fe_wallet envA) capacity capacity (FeePerKWeight fee) (nextFundingID (fm_wallet wA) + 1)
        (rq_pushAmt req) (fc_GenesisHash cfgA) flags = Inr resA"
    and resB: "NewChannelReservation (fe_wallet envB) capacity 0 (FeePerKWeight fee) (nextFundingID (fm_wallet wB) + 1)
        (rq_pushAmt req) (fc_GenesisHash cfgA) flags = Inr resB"
    and room: "int (length (peerReservations (newSerializedKey idA) wB)) < fc_MaxPendingChannels cfgB"
    and fromA: "checkConstraints capacity (fc_RequiredRemoteDelay cfgA capacity) (fc_RequiredRemoteMaxHTLCs cfgA capacity)
        (fc_RequiredRemoteMaxValue cfgA capacity) minA (fc_RequiredRemoteChanReserve cfgA capacity) = None"
    and fromB: "checkConstraints capacity (fc_RequiredRemoteDelay cfgB capacity) (fc_RequiredRemoteMaxHTLCs cfgB capacity)
        (fc_RequiredRemoteMaxValue cfgB capacity) minB (fc_RequiredRemoteChanReserve cfgB capacity) = None"
    and caller: "fm_updates wA (rq_updates req) = []"
  shows "\<exists>pid m1 m2 m3 m4 w1 w2 w3 w4 w5 chanA chanB tx.
      handleInitFundingMsg cfgA envA req addrB wA = (Inr (), w1) \<and> fm_sent w1 = fm_sent wA @ [(idB, MsgOpenChannel m1)]
    \<and> handleFundingOpen cfgB envB m1 addrA wB = (Inr (), w2) \<and> fm_sent w2 = fm_sent wB @ [(idA, MsgAcceptChannel m2)]
    \<and> handleFundingAccept cfgA envA m2 addrB w1 = (Inr (), w3) \<and> fm_sent w3 = fm_sent w1 @ [(idB, MsgFundingCreated m3)]
    \<and> handleFundingCreated cfgB envB m3 addrA w2 = (Inr (), w4) \<and> fm_sent w4 = fm_sent w2 @ [(idA, MsgFundingSigned m4)]
    \<and> handleFundingSigned cfgA envA m4 addrB w3 = (Inr (), w5)
    \<and> WaitSigned idB pid (Some (rq_updates req)) chanA \<in> set (fm_tasks w5) \<and> chanA \<in> set (channels (fm_wallet w5))
    \<and> WaitCreated idA pid chanB \<in> set (fm_tasks w4) \<and> chanB \<in> set (channels (fm_wallet w4))
    \<and> oc_FundingTxn chanA = Some tx \<and> tx \<in> set (lw_published (fm_wallet w5)) \<and> endsAgree idA idB capacity chanA chanB
    \<and> oc_LocalBalance chanA = funderBalance capacity (FeePerKWeight fee) (rq_pushAmt req) \<and> oc_RemoteBalance chanA = rq_pushAmt req
    \<and> ct_MinHTLC (cg_Constraints (oc_LocalChanCfg chanA)) = minB \<and> ct_MinHTLC (cg_Constraints (oc_RemoteChanCfg chanA)) = minB
    \<and> ct_MinHTLC (cg_Constraints (oc_LocalChanCfg chanB)) = minB \<and> ct_MinHTLC (cg_Constraints (oc_RemoteChanCfg chanB)) = minA"
proof -
  note A = obligingD [OF env(1)] and B = obligingD [OF env(2)]
  have sum: "rq_localFundingAmt req + rq_remoteFundingAmt req = capacity" using amounts(1) by (simp add: capacity_def)
  obtain ksA kpA where A': "\<And>n. we_deriveKeys (fe_wallet envA) n = Inr (ksA n, kpA n)" using obligingE [OF env(1)] by metis
  obtain ksB kpB where B': "\<And>n. we_deriveKeys (fe_wallet envB) n = Inr (ksB n, kpB n)" using obligingE [OF env(2)] by metis
  obtain coins where coins: "we_selectCoins (fe_wallet envA) (rq_fundingFeePerVSize req) capacity
      (lockedOutPoints (fm_wallet wA)) = Inr coins" using A(6) by blast
  define R0 where "R0 = setConstraints (\<lambda>g. g\<lparr>cg_Constraints := (cg_Constraints g)\<lparr>ct_MinHTLC := minA\<rparr>\<rparr>)
      (initContribution (fe_wallet envA) coins (ksA (nextFundingID (fm_wallet wA) + 1)) (kpA (nextFundingID (fm_wallet wA) + 1))
         idB (na_Address addrB) resA)"
  define pid where "pid = fc_XORKeyStream cfgA (replicate 32 0) (le_enc 8 (unat (chanIDNonce wA))) (fc_TempChanIDSeed cfgA)"
  define ctx where "ctx = \<lparr>rc_reservation = length (reservations (fm_wallet wA)), rc_peerAddress = addrB, rc_chanAmt = capacity,
        rc_lastUpdated = Some (fe_now envA), rc_updates = Some (rq_updates req), rc_err = Some (rq_err req)\<rparr>"
  define m1 where "m1 = openMsg cfgA req pid (FeePerKWeight fee) (ourContribution R0)"
  obtain w1 where s1: "handleInitFundingMsg cfgA envA req addrB wA = (Inr (), w1)" "holds w1 idB pid ctx R0"
      "fm_sent w1 = fm_sent wA @ [(idB, MsgOpenChannel m1)]" "fm_updates w1 = fm_updates wA"
    using handleInitFundingMsg_run [where cfg = cfgA and env = envA and req = req and addr = addrB and w = wA and res = resA,
        OF fee(1) _ _ _ _ _ A', unfolded sum, folded capacity_def] amounts(2,3) chain resA coins A
    unfolding idB_def minA_def flags_def R0_def pid_def ctx_def m1_def by auto
  define RB where "RB = responderRes cfgB m1 (initContribution (fe_wallet envB) [] (ksB (nextFundingID (fm_wallet wB) + 1))
      (kpB (nextFundingID (fm_wallet wB) + 1)) idA (na_Address addrA) resB)"
  define m2 where "m2 = acceptMsg cfgB m1 (fc_NumRequiredConfs cfgB capacity (rq_pushAmt req)) (ourContribution RB)"
  have min: "ct_MinHTLC (cg_Constraints (cb_Config (ourContribution R0))) = minA"
      "ct_MinHTLC (cg_Constraints (cb_Config (ourContribution RB))) = minB" "oc_Capacity (partialState R0) = capacity"
    using NewChannelReservation_Inr(2) [OF resA] by (simp_all add: setConstraints_def responderRes_def minB_def R0_def RB_def)
  have m1: "om_PendingChannelID m1 = pid" "om_FundingAmount m1 = capacity" "om_CsvDelay m1 = fc_RequiredRemoteDelay cfgA capacity"
    using delay sum by (auto simp: m1_def)
  obtain w2 ctxB where s2: "handleFundingOpen cfgB envB m1 addrA wB = (Inr (), w2)" "holds w2 idA pid ctxB RB"
      "fm_sent w2 = fm_sent wB @ [(idA, MsgAcceptChannel m2)]"
    using handleFundingOpen_run [where cfg = cfgB and env = envB and msg = m1 and addr = addrA and w = wB and res = resB,
        OF _ B(1) _ _ _ _ B' _ B(2), folded idA_def, unfolded m1]
      room amounts(2,4) chain resB fromA min(1) fee(2) by (auto simp: m1_def m2_def RB_def sum flags_def)
  have agree: "commitMirror (initiatorRes cfgA m2 ctx tx op sig R0) (atPoint op RB)"
    "endsAgree idA idB capacity (signedChan (initiatorRes cfgA m2 ctx tx op sig R0) tx hA) (finalChan RB op hB)"
    "oc_LocalBalance (signedChan (initiatorRes cfgA m2 ctx tx op sig R0) tx hA) = funderBalance capacity (FeePerKWeight fee) (rq_pushAmt req)"
    "oc_RemoteBalance (signedChan (initiatorRes cfgA m2 ctx tx op sig R0) tx hA) = rq_pushAmt req"
    "ct_MinHTLC (cg_Constraints (oc_LocalChanCfg (signedChan (initiatorRes cfgA m2 ctx tx op sig R0) tx hA))) = minB"
    "ct_MinHTLC (cg_Constraints (oc_RemoteChanCfg (signedChan (initiatorRes cfgA m2 ctx tx op sig R0) tx hA))) = minB"
    "ct_MinHTLC (cg_Constraints (oc_LocalChanCfg (finalChan RB op hB))) = minB"
    "ct_MinHTLC (cg_Constraints (oc_RemoteChanCfg (finalChan RB op hB))) = minA" for tx op sig hA hB
    unfolding capacity_def m2_def RB_def m1_def R0_def minB_def
    by (rule flow_agrees [where ctx = ctx, OF amounts(1) amounts(2) [unfolded capacity_def] delay [unfolded capacity_def] resA [unfolded capacity_def]
          resB [unfolded capacity_def]], simp add: ctx_def capacity_def)+
  obtain m3 m4 w3 w4 w5 tx op sig hA hB where s3: "handleFundingAccept cfgA envA m2 addrB w1 = (Inr (), w3)"
      "fm_sent w3 = fm_sent w1 @ [(idB, MsgFundingCreated m3)]" "handleFundingCreated cfgB envB m3 addrA w2 = (Inr (), w4)"
      "fm_sent w4 = fm_sent w2 @ [(idA, MsgFundingSigned m4)]" "handleFundingSigned cfgA envA m4 addrB w3 = (Inr (), w5)"
      "WaitSigned idB pid (Some (rq_updates req)) (signedChan (initiatorRes cfgA m2 ctx tx op sig R0) tx hA) \<in> set (fm_tasks w5)"
      "signedChan (initiatorRes cfgA m2 ctx tx op sig R0) tx hA \<in> set (channels (fm_wallet w5))"
      "WaitCreated idA pid (finalChan RB op hB) \<in> set (fm_tasks w4)" "finalChan RB op hB \<in> set (channels (fm_wallet w4))"
      "tx \<in> set (lw_published (fm_wallet w5))"
    using flow_signs [OF env s1(2) [unfolded idB_def] s2(2) [unfolded idA_def] _ _ _ _ _ sigs agree(1), of "rq_updates req",
        folded idA_def idB_def, unfolded Let_def]
      fromB caller s1(4) min m1 by (auto simp: m2_def ctx_def)
  have tx: "oc_FundingTxn (signedChan (initiatorRes cfgA m2 ctx tx op sig R0) tx hA) = Some tx" by (simp add: signedChan_def)
  show ?thesis
    by (intro exI conjI, rule s1, rule s1(3), rule s2, rule s2(3), rule s3, rule s3, rule s3, rule s3, rule s3, rule s3, rule s3, rule s3, rule s3,
        rule tx, rule s3) (rule agree)+
qed

definition demo_req :: openChanReq where
  "demo_req = \<lparr>rq_chainHash = 7, rq_localFundingAmt = 100000, rq_remoteFundingAmt = 0, rq_pushAmt = 0, rq_fundingFeePerVSize = 20,
     rq_private = False, rq_minHtlc = 0, rq_remoteCsvDelay = 0, rq_updates = 1, rq_err = 2\<rparr>"

text \<open>
  Wallets whose signature is a list of the balance and the delay of the end whose commitment it
  is for, and which accept no other.
\<close>

definition commitData :: "ChannelContribution \<Rightarrow> u64 \<Rightarrow> bytes" where
  "commitData c balance = le_enc 2 (unat (cg_CsvDelay (cb_Config c))) @ le_enc 8 (unat balance)"

definition demo_strict_wallet :: walletEnv where
  "demo_strict_wallet = demo_wenv
     \<lparr>we_signCommitment := (\<lambda>R. Inr (commitData (theirContribution R) (oc_RemoteBalance (partialState R)))),
      we_verifyCommitSig := (\<lambda>R sig. if sig = commitData (ourContribution R) (oc_LocalBalance (partialState R)) then None
        else Some (GoErr ''commitment signature is invalid''))\<rparr>"

definition demo_strict :: fundingEnv where
  "demo_strict = demo_fenv\<lparr>fe_wallet := demo_strict_wallet\<rparr>"

lemma demo_strict_interop: "sigsInterop (demo_fcfg m) demo_strict (demo_fcfg n) demo_strict"
  by (simp add: sigsInterop_def demo_strict_def demo_strict_wallet_def demo_fcfg_def commitMirror_def sameEnd_def commitData_def)

theorem funding_flow_completes_witness:
  "\<exists>m1 m2 m3 m4 w1 w2 w3 w4 w5 chanA chanB.
      handleInitFundingMsg (demo_fcfg 5) demo_strict demo_req (demo_addr 9) (newFundingManager emptyWallet empty_db) = (Inr (), w1)
    \<and> fm_sent w1 = [(demo_key 9, MsgOpenChannel m1)]
    \<and> handleFundingOpen (demo_fcfg 9) demo_strict m1 (demo_addr 5) (newFundingManager emptyWallet empty_db) = (Inr (), w2)
    \<and> fm_sent w2 = [(demo_key 5, MsgAcceptChannel m2)]
    \<and> handleFundingAccept (demo_fcfg 5) demo_strict m2 (demo_addr 9) w1 = (Inr (), w3)
    \<and> fm_sent w3 = fm_sent w1 @ [(demo_key 9, MsgFundingCreated m3)]
    \<and> handleFundingCreated (demo_fcfg 9) demo_strict m3 (demo_addr 5) w2 = (Inr (), w4)
    \<and> fm_sent w4 = fm_sent w2 @ [(demo_key 5, MsgFundingSigned m4)]
    \<and> handleFundingSigned (demo_fcfg 5) demo_strict m4 (demo_addr 9) w3 = (Inr (), w5)
    \<and> chanA \<in> set (channels (fm_wallet w5)) \<and> chanB \<in> set (channels (fm_wallet w4))
    \<and> oc_FundingOutpoint chanA = oc_FundingOutpoint chanB"
proof -
  let ?w = "newFundingManager emptyWallet empty_db"
  have ob: "obliging demo_strict" by (simp add: obliging_def demo_strict_def demo_strict_wallet_def demo_fenv_def demo_wenv_def)
  have sig: "\<exists>g. fc_NewSig (demo_fcfg n) s = Inr g" for n s by (simp add: demo_fcfg_def)
  have "\<not> isl (NewChannelReservation demo_strict_wallet 100000 100000 (FeePerKWeight 10) 1 0 7 1)"
    "\<not> isl (NewChannelReservation demo_strict_wallet 100000 0 (FeePerKWeight 10) 1 0 7 1)"
    by code_simp+
  then obtain resA resB where res: "NewChannelReservation demo_strict_wallet 100000 100000 (FeePerKWeight 10) 1 0 7 1 = Inr resA"
      "NewChannelReservation demo_strict_wallet 100000 0 (FeePerKWeight 10) 1 0 7 1 = Inr resB"
    by (auto simp: isl_def sum.collapse split: sum.splits) (metis sum.exhaust)
  have limits: "sint (100000 :: u64) \<le> sint maxFundingAmount"
    "checkConstraints 100000 144 (RequiredRemoteMaxHTLCs 100000) (RequiredRemoteMaxValue 100000) 1000 (RequiredRemoteChanReserve 100000) = None"
    by code_simp+
  have req: "rq_localFundingAmt demo_req = 100000" "rq_remoteFundingAmt demo_req = 0" "rq_pushAmt demo_req = 0" "rq_chainHash demo_req = 7"
    "rq_private demo_req = False" "rq_minHtlc demo_req = 0" "rq_remoteCsvDelay demo_req = 0"
    by (simp_all add: demo_req_def)
  have cfg: "fc_GenesisHash (demo_fcfg n) = 7" "fc_MaxPendingChannels (demo_fcfg n) = 1" "fp_MinHTLC (fc_DefaultRoutingPolicy (demo_fcfg n)) = 1000"
    "fc_RequiredRemoteDelay (demo_fcfg n) = (\<lambda>_. 144)" "fc_RequiredRemoteChanReserve (demo_fcfg n) = RequiredRemoteChanReserve"
    "fc_RequiredRemoteMaxValue (demo_fcfg n) = RequiredRemoteMaxValue" "fc_RequiredRemoteMaxHTLCs (demo_fcfg n) = RequiredRemoteMaxHTLCs" for n
    by (simp_all add: demo_fcfg_def)
  have env: "fe_wallet demo_strict = demo_strict_wallet" "we_GenesisHash demo_strict_wallet = 7" "fe_EstimateFeePerVSize demo_strict 3 = Inr 10"
    by (simp_all add: demo_strict_def demo_strict_wallet_def demo_fenv_def demo_wenv_def)
  have rate: "ucast (ucast (FeePerKWeight 10) :: u32) = FeePerKWeight 10" by code_simp
  have start: "nextFundingID (fm_wallet ?w) = 0" "peerReservations k ?w = []" "fm_updates ?w u = []" "fm_sent ?w = []" for k u
    by (simp_all add: newFundingManager_def peerReservations_def)
  have ids: "na_IdentityKey (demo_addr n) = demo_key n" for n by (simp add: demo_addr_def)
  note flow = funding_flow_completes [where req = demo_req and cfgA = "demo_fcfg 5" and cfgB = "demo_fcfg 9" and envA = demo_strict
      and envB = demo_strict and wA = ?w and wB = ?w and addrA = "demo_addr 5" and addrB = "demo_addr 9" and fee = 10 and resA = resA
      and resB = resB, OF ob ob sig sig demo_strict_interop demo_strict_interop, unfolded req cfg env start ids]
  have "endsAgree a b c chanA chanB \<Longrightarrow> oc_FundingOutpoint chanA = oc_FundingOutpoint chanB" for a b c chanA chanB
    by (simp add: endsAgree_def)
  with flow res limits rate show ?thesis by simp metis
qed

end
