(* ===== verification/FundingRestart.thy ===== *)
theory FundingRestart
  imports FundingStart
begin

text \<open>
  The opening of a channel across crashes: what each step leaves on disk, whatever fails, and
  that a restart takes the opening up where it was left. A crash between two calls is a run in
  which the second one fails.
\<close>

section \<open>What a step leaves on disk\<close>

text \<open>
  \<open>openingAt S Q c i st w\<close>: the opening states on disk are \<open>S\<close> but for that of the channel \<open>c\<close>, which
  is recorded with the short channel id \<open>i\<close> and has got at least as far as \<open>st\<close>.
\<close>

definition openingAt :: "openings \<Rightarrow> (bytes list \<Rightarrow> bytes option \<times> bool) \<Rightarrow> OutPoint \<Rightarrow> ShortChannelID
    \<Rightarrow> channelOpeningState \<Rightarrow> fundingManager \<Rightarrow> bool" where
  "openingAt S Q c i st w \<longleftrightarrow> (\<exists>st'. orepr (fm_db w) (S(c \<mapsto> (st', i))) Q \<and> st \<le> st' \<and> st' \<le> addedToRouterGraph)"

definition announcedOpening :: "openings \<Rightarrow> (bytes list \<Rightarrow> bytes option \<times> bool) \<Rightarrow> OutPoint \<Rightarrow> fundingManager \<Rightarrow> bool" where
  "announcedOpening S Q c w \<longleftrightarrow> orepr (fm_db w) (S(c := None)) Q"

lemma openingAt_valid: "openingAt S Q c i st w \<Longrightarrow> valid_scid i"
  unfolding openingAt_def orepr_def wf_openings_def by (metis fun_upd_same)

lemma saveOpening_keeps:
  assumes "st \<le> st'" "st' \<le> addedToRouterGraph"
  shows "keeps (openingAt S Q (oc_FundingOutpoint chan) i st) (saveOpening oe chan st' i)"
proof (rule keepsI)
  fix w assume w: "openingAt S Q (oc_FundingOutpoint chan) i st w"
  let ?c = "oc_FundingOutpoint chan"
  obtain st0 where st0: "orepr (fm_db w) (S(?c \<mapsto> (st0, i))) Q" using w by (auto simp: openingAt_def)
  obtain t where t: "saveChannelOpeningState ?c st' i (fm_db w) = (Inr (), t)" "orepr t (S(?c \<mapsto> (st', i))) Q"
    using saveChannelOpeningState_run [OF st0 openingAt_valid [OF w], of ?c st'] by auto
  then show "openingAt S Q ?c i st (snd (saveOpening oe chan st' i w))"
    using w assms by (auto simp: saveOpening_def f_Update_def openingAt_def split: option.split)
qed

lemma openingAt_sends:
  "keeps (openingAt S Q c i st) (sendLoop peer msg attempts)" "keeps (openingAt S Q c i st) (SendAnnouncement oe g)"
  by (induction attempts rule: sendLoop.induct)
    (auto simp: keeps_def openingAt_def io_run SendAnnouncement_def split: option.split)

lemma openingAt_steps:
  "st \<le> fundingLockedSent \<Longrightarrow> keeps (openingAt S Q (oc_FundingOutpoint chan) i st) (sendFundingLocked oe chan i)"
  "st \<le> addedToRouterGraph \<Longrightarrow> keeps (openingAt S Q (oc_FundingOutpoint chan) i st) (addToRouterGraph cfg oe chan i)"
  "keeps (openingAt S Q c i st) (announceChannel cfg oe chan i)"
  by (auto simp: sendFundingLocked_def addToRouterGraph_def announceChannel_def fundingLockedSent_def addedToRouterGraph_def
      intro!: keeps_bind openingAt_sends saveOpening_keeps)

text \<open>The proof was handed to the gossiper, which took it, or knew it already.\<close>

definition proofSent :: "fundingConfig \<Rightarrow> openingEnv \<Rightarrow> OpenChannel \<Rightarrow> ShortChannelID \<Rightarrow> fundingManager \<Rightarrow> bool" where
  "proofSent cfg oe chan i w \<longleftrightarrow> (\<exists>ann cupd prf. channelAnnouncement cfg oe chan i = Inr (ann, cupd, prf)
     \<and> (GAnnounceSignatures prf \<in> set (fm_announced w) \<or> oe_SendAnnouncement oe (GAnnounceSignatures prf) \<in> {Some ErrOutdated, Some ErrIgnored}))"

definition isPublic :: "OpenChannel \<Rightarrow> bool" where
  "isPublic chan \<longleftrightarrow> oc_ChannelFlags chan AND FFAnnounceChannel \<noteq> 0"

lemma announceChannel_Inr:
  "announceChannel cfg oe chan i w = (Inr x, w') \<Longrightarrow> proofSent cfg oe chan i w'"
  by (auto simp: announceChannel_def proofSent_def SendAnnouncement_def ibind_def io_run split: sum.splits option.splits if_splits)

lemma annAfterSixConfs_cases:
  assumes w: "openingAt S Q (oc_FundingOutpoint chan) i st w" and run: "annAfterSixConfs cfg oe chan i w = (r, w')"
  shows "(\<exists>e. r = Inl e) \<and> openingAt S Q (oc_FundingOutpoint chan) i st w'
    \<or> r = Inr () \<and> announcedOpening S Q (oc_FundingOutpoint chan) w' \<and> (isPublic chan \<longrightarrow> proofSent cfg oe chan i w')"
proof -
  let ?c = "oc_FundingOutpoint chan"
  define first where "first = (if oc_ChannelFlags chan AND FFAnnounceChannel = 0 then iret ()
            else
              (let numConfs = (if ucast (oc_NumConfsRequired chan) < (6 :: u32) then 6 else ucast (oc_NumConfsRequired chan)) in
               ibind (fails (oe_RegisterConfirmationsNtfn oe (Hash ?c) numConfs (oc_FundingBroadcastHeight chan))) (\<lambda>_.
               case oe_sixConfs oe of Confirmed _ _ \<Rightarrow> announceChannel cfg oe chan i | _ \<Rightarrow> ifail (GoErr ''shutting down''))))"
  obtain r1 w1 where first: "first w = (r1, w1)" by (cases "first w")
  have "keeps (openingAt S Q ?c i st) first"
    by (auto simp: first_def Let_def intro!: keeps_bind openingAt_steps split: confEvent.split)
  from keepsD [OF this w first] have w1: "openingAt S Q ?c i st w1" .
  have proofs: "isPublic chan \<longrightarrow> proofSent cfg oe chan i w1" if "r1 = Inr ()"
    using first that
    by (auto simp: first_def isPublic_def Let_def ibind_def io_run fails_def intro: announceChannel_Inr
        split: confEvent.splits option.splits)
  have run: "ibind first (\<lambda>_. f_Update (oe_commitDelete oe) (deleteChannelOpeningState ?c)) w = (r, w')"
    using run by (simp add: annAfterSixConfs_def first_def)
  obtain st0 where st0: "orepr (fm_db w1) (S(?c \<mapsto> (st0, i))) Q" using w1 by (auto simp: openingAt_def)
  obtain t where t: "deleteChannelOpeningState ?c (fm_db w1) = (Inr (), t)" "orepr t (S(?c := None)) Q"
    using deleteChannelOpeningState_run [OF st0, of ?c] by auto
  show ?thesis
    using run first w1 t proofs
    by (cases r1) (auto simp: ibind_def f_Update_def announcedOpening_def proofSent_def split: option.splits)
qed

section \<open>Resuming\<close>

text \<open>A resumed opening runs the steps that are left and then waits for the six confirmations.\<close>

definition stepsLeft :: "fundingConfig \<Rightarrow> openingEnv \<Rightarrow> channelOpeningState \<Rightarrow> OpenChannel \<Rightarrow> ShortChannelID \<Rightarrow> (fundingManager, unit) io" where
  "stepsLeft cfg oe st chan i =
     (if st = markedOpen then ibind (fails (oe_NewLightningChannel oe chan)) (\<lambda>_. ibind (sendFundingLocked oe chan i) (\<lambda>_. addToRouterGraph cfg oe chan i))
      else if st = fundingLockedSent then addToRouterGraph cfg oe chan i else iret ())"

lemma opening_states:
  assumes "st \<le> addedToRouterGraph" obtains "st = markedOpen" | "st = fundingLockedSent" | "st = addedToRouterGraph"
  using assms by (auto simp: markedOpen_def fundingLockedSent_def addedToRouterGraph_def) (unat_arith)

lemma states_differ [simp]: "markedOpen \<noteq> fundingLockedSent" "markedOpen \<noteq> addedToRouterGraph" "fundingLockedSent \<noteq> addedToRouterGraph"
  "fundingLockedSent \<noteq> markedOpen" "addedToRouterGraph \<noteq> markedOpen" "addedToRouterGraph \<noteq> fundingLockedSent"
  "markedOpen \<le> fundingLockedSent" "fundingLockedSent \<le> addedToRouterGraph" "markedOpen \<le> addedToRouterGraph"
  by (simp_all add: markedOpen_def fundingLockedSent_def addedToRouterGraph_def)

lemma resumeOpening_steps:
  assumes "st \<le> addedToRouterGraph"
  shows "resumeOpening cfg oe st chan i = ilogged (ibind (stepsLeft cfg oe st chan i) (\<lambda>_. annAfterSixConfs cfg oe chan i))"
proof -
  have "ibind (iret ()) (\<lambda>_. annAfterSixConfs cfg oe chan i) = annAfterSixConfs cfg oe chan i"
    by (rule ext) (simp add: ibind_def io_run)
  then show ?thesis
    using assms by (elim opening_states) (simp_all add: resumeOpening_def stepsLeft_def handleFundingConfirmation_def ibind_assoc)
qed

lemma stepsLeft_keeps: "st \<le> addedToRouterGraph \<Longrightarrow> keeps (openingAt S Q (oc_FundingOutpoint chan) i st) (stepsLeft cfg oe st chan i)"
  by (erule opening_states) (auto simp: stepsLeft_def intro!: keeps_bind openingAt_steps)

text \<open>Whatever fails, the opening is recorded at its step or a later one, or it is finished.\<close>

lemma resumeOpening_cases:
  fixes cfg oe chan i S Q w
  defines "c \<equiv> oc_FundingOutpoint chan"
  assumes w: "orepr (fm_db w) (S(c \<mapsto> (st, i))) Q" and st: "st \<le> addedToRouterGraph" and run: "resumeOpening cfg oe st chan i w = (r, w')"
  shows "openingAt S Q c i st w' \<or> announcedOpening S Q c w' \<and> (isPublic chan \<longrightarrow> proofSent cfg oe chan i w')"
proof -
  have K: "openingAt S Q c i st w" using w st by (auto simp: openingAt_def)
  note run = run [unfolded resumeOpening_steps [OF st]]
  obtain y w1 where m: "stepsLeft cfg oe st chan i w = (y, w1)" by (cases "stepsLeft cfg oe st chan i w")
  have w1: "openingAt S Q c i st w1" by (rule keepsD [OF stepsLeft_keeps [OF st] K [unfolded c_def] m, folded c_def])
  show ?thesis
  proof (cases y)
    case (Inl e)
    with run m w1 show ?thesis by (auto simp: ilogged_def ion_def ibind_def io_run split: if_splits)
  next
    case (Inr u)
    obtain z w2 where z: "annAfterSixConfs cfg oe chan i w1 = (z, w2)" by (cases "annAfterSixConfs cfg oe chan i w1")
    with Inr run m have "w' = w2" by (cases z) (auto simp: ilogged_def ion_def ibind_def io_run split: if_splits)
    with annAfterSixConfs_cases [OF w1 [unfolded c_def] z] show ?thesis by (auto simp: c_def)
  qed
qed

lemma resumeOpening_channels:
  assumes "st \<le> addedToRouterGraph"
  shows "channels (fm_wallet (snd (resumeOpening cfg oe st chan i w))) = channels (fm_wallet w)"
proof -
  let ?I = "\<lambda>v. channels (fm_wallet v) = channels (fm_wallet w)"
  have sends: "keeps ?I (sendLoop peer msg attempts)" "keeps ?I (SendAnnouncement oe g)" "keeps ?I (f_Update commit op)"
    for peer msg attempts g commit op
    by (induction attempts rule: sendLoop.induct)
      (auto simp: keeps_def io_run SendAnnouncement_def f_Update_def split: option.split sum.split prod.split)
  then have steps: "keeps ?I (sendFundingLocked oe chan i)" "keeps ?I (addToRouterGraph cfg oe chan i)" "keeps ?I (announceChannel cfg oe chan i)"
    by (auto simp: sendFundingLocked_def addToRouterGraph_def announceChannel_def saveOpening_def intro!: keeps_bind)
  then have "keeps ?I (stepsLeft cfg oe st chan i)" by (auto simp: stepsLeft_def intro!: keeps_bind)
  moreover have "keeps ?I (annAfterSixConfs cfg oe chan i)"
    using steps(3) sends(3) by (auto simp: annAfterSixConfs_def Let_def intro!: keeps_bind split: confEvent.split)
  ultimately have "keeps ?I (resumeOpening cfg oe st chan i)"
    unfolding resumeOpening_steps [OF assms] by (intro keeps_ilogged keeps_bind)
  then show ?thesis by (rule keeps_run) simp
qed

section \<open>Restarts\<close>

text \<open>
  A crash leaves the disk, the channels and the opening states; what was sent, announced and
  published is kept as history. A restart is \<^verbatim>\<open>Start\<close>, and, if that succeeds, the goroutines it
  has started.
\<close>

definition crash :: "fundingManager \<Rightarrow> fundingManager" where
  "crash w =
     (newFundingManager (emptyWallet\<lparr>channels := channels (fm_wallet w), lw_published := lw_published (fm_wallet w)\<rparr>) (fm_db w))
     \<lparr>fm_sent := fm_sent w, fm_announced := fm_announced w\<rparr>"

definition runAll :: "fundingConfig \<Rightarrow> goEnv \<Rightarrow> fundingManager \<Rightarrow> fundingManager" where
  "runAll cfg ge w = fold (\<lambda>t v. snd (runTask cfg ge t v)) (fm_tasks w) (w\<lparr>fm_tasks := []\<rparr>)"

definition restart :: "fundingConfig \<Rightarrow> startEnv \<times> goEnv \<Rightarrow> fundingManager \<Rightarrow> fundingManager" where
  "restart cfg x w =
     (case fm_Start (fst x) (crash w) of (Inl _, w1) \<Rightarrow> w1 | (Inr _, w1) \<Rightarrow> runAll cfg (snd x) w1)"

primrec restarts :: "fundingConfig \<Rightarrow> (startEnv \<times> goEnv) list \<Rightarrow> fundingManager \<Rightarrow> fundingManager" where
  "restarts cfg [] w = w"
| "restarts cfg (x # xs) w = restarts cfg xs (restart cfg x w)"

text \<open>The loop variable of the start holds a channel that the loop has not passed yet.\<close>

definition loopVarOk :: "startEnv \<Rightarrow> nat \<Rightarrow> bool" where
  "loopVarOk se n \<longleftrightarrow> (\<forall>i < n. i \<le> se_loopVar se i \<and> se_loopVar se i < n)"

text \<open>
  The disk of a node with one opening under way: no channel is pending and none but the last in the
  database has a recorded opening state.
\<close>

definition lastOpening :: "OpenChannel list \<Rightarrow> OpenChannel \<Rightarrow> openings \<Rightarrow> (bytes list \<Rightarrow> bytes option \<times> bool) \<Rightarrow> fundingManager \<Rightarrow> bool" where
  "lastOpening chs chan S Q w \<longleftrightarrow> channels (fm_wallet w) = chs @ [chan] \<and> orepr (fm_db w) S Q
     \<and> (\<forall>ch \<in> set (chs @ [chan]). \<not> oc_IsPending ch) \<and> (\<forall>ch \<in> set chs. S (oc_FundingOutpoint ch) = None)"

definition resumed :: "openings \<Rightarrow> OpenChannel \<Rightarrow> fundingTask list" where
  "resumed S ch = (case S (oc_FundingOutpoint ch) of None \<Rightarrow> [] | Some (st, i) \<Rightarrow> [ResumeOpening st ch i])"

lemma lastOpening_repr: "lastOpening chs chan S Q w \<Longrightarrow> orepr (fm_db w) S Q"
  by (simp add: lastOpening_def)

lemma iforeach_append: "iforeach f (xs @ ys) w = ibind (iforeach f xs) (\<lambda>_. iforeach f ys) w"
  by (induction xs arbitrary: w) (auto simp: ibind_def split: prod.split sum.split)

lemma iforeach_idle: "(\<And>x. x \<in> set xs \<Longrightarrow> f x w = (Inr (), w)) \<Longrightarrow> iforeach f xs w = (Inr (), w)"
  by (induction xs) auto

lemma fm_Start_last:
  assumes w: "lastOpening chs chan S Q w" and se: "loopVarOk se (Suc (length chs))"
  shows "fm_Start se w =
     (case se_FetchPendingChannels se of Some e \<Rightarrow> (Inl e, w)
      | None \<Rightarrow> (case se_FetchAllChannels se of Some e \<Rightarrow> (Inl e, w)
               | None \<Rightarrow> (Inr (), w\<lparr>fm_tasks := fm_tasks w @ resumed S chan\<rparr>)))"
proof -
  let ?n = "length chs"
  have disk: "channels (fm_wallet w) = chs @ [chan]" "orepr (fm_db w) S Q" and calm: "\<not> oc_IsPending chan"
    "filter oc_IsPending (chs @ [chan]) = []" and none: "\<And>i. i < ?n \<Longrightarrow> S (oc_FundingOutpoint (chs ! i)) = None"
    using w by (auto simp: lastOpening_def)
  have "se_loopVar se ?n = ?n" using se by (simp add: loopVarOk_def le_antisym less_Suc_eq_le)
  note last = this
  have "loadOpening se (chs @ [chan]) i w = (Inr (), w)" if "i < ?n" for i
    using getChannelOpeningState_run [OF disk(2)] none [OF that] that
    by (simp add: loadOpening_def Let_def ibind_def io_run nth_append)
  then have "iforeach (loadOpening se (chs @ [chan])) [0..<?n] w = (Inr (), w)" by (intro iforeach_idle) simp
  moreover have "loadOpening se (chs @ [chan]) ?n w = (Inr (), w\<lparr>fm_tasks := fm_tasks w @ resumed S chan\<rparr>)"
    using getChannelOpeningState_run [OF disk(2), of "oc_FundingOutpoint chan"] calm(1) last
    by (auto simp: loadOpening_def Let_def ibind_def io_run nth_append resumed_def goTask_def split: option.split)
  ultimately have "iforeach (loadOpening se (chs @ [chan])) [0..<Suc ?n] w = (Inr (), w\<lparr>fm_tasks := fm_tasks w @ resumed S chan\<rparr>)"
    by (simp add: iforeach_append ibind_def)
  then show ?thesis
    using disk(1) calm(2) by (simp add: fm_Start_def ibind_def io_run fails_def split: option.split)
qed

lemma crash_simps [simp]: "fm_db (crash w) = fm_db w" "channels (fm_wallet (crash w)) = channels (fm_wallet w)" "fm_tasks (crash w) = []"
  "fm_sent (crash w) = fm_sent w" "fm_announced (crash w) = fm_announced w"
  by (simp_all add: crash_def newFundingManager_def)

lemma lastOpening_crash: "lastOpening chs chan S Q w \<Longrightarrow> lastOpening chs chan S Q (crash w)"
  by (simp add: lastOpening_def)

text \<open>A restart takes the opening up at its recorded state, or it leaves the disk alone.\<close>

lemma restart_last:
  assumes w: "lastOpening chs chan S Q w" and se: "loopVarOk (fst x) (Suc (length chs))"
  shows "restart cfg x w =
     (if se_FetchPendingChannels (fst x) \<noteq> None \<or> se_FetchAllChannels (fst x) \<noteq> None then crash w
      else (case S (oc_FundingOutpoint chan) of None \<Rightarrow> crash w
            | Some (st, i) \<Rightarrow> snd (resumeOpening cfg (ge_opening (snd x)) st chan i (crash w))))"
proof -
  have "lastOpening chs chan S Q (crash w)" by (rule lastOpening_crash [OF w])
  from fm_Start_last [OF this se] have start: "fm_Start (fst x) (crash w) =
     (case se_FetchPendingChannels (fst x) of Some e \<Rightarrow> (Inl e, crash w)
      | None \<Rightarrow> (case se_FetchAllChannels (fst x) of Some e \<Rightarrow> (Inl e, crash w)
               | None \<Rightarrow> (Inr (), (crash w)\<lparr>fm_tasks := resumed S chan\<rparr>)))"
    by (simp split: option.split)
  have fresh: "(crash w)\<lparr>fm_tasks := []\<rparr> = crash w" by (simp add: crash_def newFundingManager_def)
  show ?thesis
    using start
    by (auto simp: fresh restart_def runAll_def runTask_def resumed_def split: option.split)
qed

lemma lastOpening_after:
  assumes "lastOpening chs chan S Q w" "orepr (fm_db w') S' Q" "channels (fm_wallet w') = channels (fm_wallet w)"
    "\<And>c. c \<noteq> oc_FundingOutpoint chan \<Longrightarrow> S' c = S c" "S (oc_FundingOutpoint chan) \<noteq> None"
  shows "lastOpening chs chan S' Q w'"
proof -
  have "oc_FundingOutpoint ch \<noteq> oc_FundingOutpoint chan" if "ch \<in> set chs" for ch
    using assms(1,5) that by (auto simp: lastOpening_def)
  with assms show ?thesis by (simp add: lastOpening_def)
qed

lemma restarts_finished:
  assumes "lastOpening chs chan S Q w" "S (oc_FundingOutpoint chan) = None" "\<forall>x \<in> set xs. loopVarOk (fst x) (Suc (length chs))"
  shows "fm_db (restarts cfg xs w) = fm_db w \<and> fm_announced (restarts cfg xs w) = fm_announced w"
  using assms
proof (induction xs arbitrary: w)
  case (Cons x xs)
  have "restart cfg x w = crash w" using restart_last [OF Cons.prems(1)] Cons.prems(2,3) by simp
  moreover have "lastOpening chs chan S Q (crash w)" by (rule lastOpening_crash [OF Cons.prems(1)])
  ultimately show ?case using Cons.IH [of "crash w"] Cons.prems(2,3) by simp
qed simp

lemma restarts_keep:
  fixes chan S Q
  defines "c \<equiv> oc_FundingOutpoint chan"
  assumes "lastOpening chs chan (S(c \<mapsto> (st, i))) Q w" "st \<le> addedToRouterGraph" "\<forall>x \<in> set xs. loopVarOk (fst x) (Suc (length chs))"
  shows "(\<exists>st'. lastOpening chs chan (S(c \<mapsto> (st', i))) Q (restarts cfg xs w) \<and> st \<le> st' \<and> st' \<le> addedToRouterGraph)
    \<or> announcedOpening S Q c (restarts cfg xs w)
      \<and> (isPublic chan \<longrightarrow> (\<exists>x \<in> set xs. proofSent cfg (ge_opening (snd x)) chan i (restarts cfg xs w)))"
  using assms(2-)
proof (induction xs arbitrary: w st)
  case (Cons x xs)
  let ?oe = "ge_opening (snd x)"
  note last = restart_last [OF Cons.prems(1), of x, folded c_def]
  show ?case
  proof (cases "se_FetchPendingChannels (fst x) \<noteq> None \<or> se_FetchAllChannels (fst x) \<noteq> None")
    case True
    then have "restart cfg x w = crash w" using last Cons.prems(3) by simp
    with Cons.IH [OF lastOpening_crash [OF Cons.prems(1)] Cons.prems(2)] Cons.prems(3) show ?thesis by auto
  next
    case False
    obtain r w' where run: "resumeOpening cfg ?oe st chan i (crash w) = (r, w')"
      by (cases "resumeOpening cfg ?oe st chan i (crash w)")
    have next_eq: "restart cfg x w = w'" using last False run Cons.prems(3) by simp
    have chans: "channels (fm_wallet w') = channels (fm_wallet w)"
      using resumeOpening_channels [OF Cons.prems(2), of cfg ?oe chan i "crash w"] run by simp
    have "orepr (fm_db (crash w)) (S(c \<mapsto> (st, i))) Q" using lastOpening_repr [OF Cons.prems(1)] by (simp only: crash_simps)
    from resumeOpening_cases [OF this [unfolded c_def] Cons.prems(2) run, folded c_def] show ?thesis
    proof (elim disjE conjE)
      assume "openingAt S Q c i st w'"
      then obtain st' where st': "orepr (fm_db w') (S(c \<mapsto> (st', i))) Q" "st \<le> st'" "st' \<le> addedToRouterGraph"
        by (auto simp: openingAt_def)
      have "lastOpening chs chan (S(c \<mapsto> (st', i))) Q w'"
        by (rule lastOpening_after [OF Cons.prems(1) st'(1) chans]) (simp_all add: c_def)
      from Cons.IH [OF this st'(3)] Cons.prems(3) st'(2) show ?thesis
        by (auto simp: next_eq intro: order_trans)
    next
      assume ended: "announcedOpening S Q c w'" "isPublic chan \<longrightarrow> proofSent cfg ?oe chan i w'"
      have "lastOpening chs chan (S(c := None)) Q w'"
        by (rule lastOpening_after [OF Cons.prems(1) _ chans]) (use ended(1) in \<open>simp_all add: c_def announcedOpening_def\<close>)
      from restarts_finished [OF this, of xs cfg] Cons.prems(3) ended show ?thesis
        by (auto simp: next_eq c_def announcedOpening_def proofSent_def)
    qed
  qed
qed auto

section \<open>Finishing\<close>

definition calm :: "fundingConfig \<Rightarrow> openingEnv \<Rightarrow> OpenChannel \<Rightarrow> ShortChannelID \<Rightarrow> bool" where
  "calm cfg oe chan i \<longleftrightarrow> oe_NewLightningChannel oe chan = None \<and> (\<exists>k. oe_NextRevocationKey oe chan = Inr k) \<and> None \<in> set (oe_sends oe)
     \<and> (\<forall>st. oe_commit oe st = None) \<and> oe_commitDelete oe = None \<and> (\<forall>g. oe_SendAnnouncement oe g = None)
     \<and> (\<exists>x. channelAnnouncement cfg oe chan i = Inr x) \<and> (\<forall>h n b. oe_RegisterConfirmationsNtfn oe h n b = None)
     \<and> (\<exists>b n. oe_sixConfs oe = Confirmed b n) \<and> (\<exists>a. oe_CurrentNodeAnnouncement oe = Inr a)"

lemma sendLoop_run: "None \<in> set attempts \<Longrightarrow> sendLoop peer msg attempts w = (Inr (), w\<lparr>fm_sent := fm_sent w @ [(peer, msg)]\<rparr>)"
  by (induction peer msg attempts rule: sendLoop.induct) (auto simp: io_run)

lemma saveOpening_calm:
  assumes "calm cfg oe chan i" "orepr (fm_db w) S Q" "valid_scid i"
  shows "\<exists>t. saveOpening oe chan st i w = (Inr (), w\<lparr>fm_db := t\<rparr>) \<and> orepr t (S(oc_FundingOutpoint chan \<mapsto> (st, i))) Q"
  using saveChannelOpeningState_run [OF assms(2,3), of "oc_FundingOutpoint chan" st] assms(1)
  by (auto simp: saveOpening_def f_Update_def calm_def)

text \<open>What a resumed opening sends to the peer and to the gossiper.\<close>

definition lockedMsg :: "OpenChannel \<Rightarrow> PublicKey \<Rightarrow> PublicKey \<times> FundingMsg" where
  "lockedMsg chan k = (oc_IdentityPub chan, MsgFundingLocked
     \<lparr>lm_ChanID = NewChanIDFromOutPoint (oc_FundingOutpoint chan), lm_NextPerCommitmentPoint = k\<rparr>)"

definition gossipOf :: "channelOpeningState \<Rightarrow> OpenChannel \<Rightarrow> ChannelAnnouncement \<times> ChannelUpdate \<times> AnnounceSignatures \<Rightarrow> bytes \<Rightarrow> gossip list" where
  "gossipOf st chan anns node = (case anns of (ann, cupd, prf) \<Rightarrow>
     (if st = addedToRouterGraph then [] else [GChannelAnnouncement ann, GChannelUpdate cupd])
     @ (if isPublic chan then [GAnnounceSignatures prf, GNodeAnnouncement node] else []))"

lemma stepsLeft_calm:
  assumes calm: "calm cfg oe chan i" and w: "orepr (fm_db w) (S(oc_FundingOutpoint chan \<mapsto> (st, i))) Q" and st: "st \<le> addedToRouterGraph"
    and anns: "channelAnnouncement cfg oe chan i = Inr (ann, cupd, sigs)" and key: "oe_NextRevocationKey oe chan = Inr k"
  shows "\<exists>w'. stepsLeft cfg oe st chan i w = (Inr (), w') \<and> orepr (fm_db w') (S(oc_FundingOutpoint chan \<mapsto> (addedToRouterGraph, i))) Q
      \<and> fm_sent w' = fm_sent w @ (if st = markedOpen then [lockedMsg chan k] else [])
      \<and> fm_announced w' = fm_announced w @ (if st = addedToRouterGraph then [] else [GChannelAnnouncement ann, GChannelUpdate cupd])"
proof -
  let ?c = "oc_FundingOutpoint chan"
  have i: "valid_scid i" using w st by (intro openingAt_valid [of S Q ?c i st w]) (auto simp: openingAt_def)
  have graph: "\<exists>w'. addToRouterGraph cfg oe chan i v = (Inr (), w') \<and> orepr (fm_db w') (S(?c \<mapsto> (addedToRouterGraph, i))) Q
      \<and> fm_sent w' = fm_sent v \<and> fm_announced w' = fm_announced v @ [GChannelAnnouncement ann, GChannelUpdate cupd]"
    if "orepr (fm_db v) (S(?c \<mapsto> (st', i))) Q" for v st'
  proof -
    from saveOpening_calm [OF calm, of "v\<lparr>fm_announced := fm_announced v @ [GChannelAnnouncement ann, GChannelUpdate cupd]\<rparr>"
        "S(?c \<mapsto> (st', i))" Q addedToRouterGraph] that i calm anns
    show ?thesis by (auto simp: addToRouterGraph_def SendAnnouncement_def calm_def ibind_def io_run)
  qed
  have locked: "\<exists>w'. sendFundingLocked oe chan i v = (Inr (), w') \<and> orepr (fm_db w') (S(?c \<mapsto> (fundingLockedSent, i))) Q
      \<and> fm_sent w' = fm_sent v @ [lockedMsg chan k] \<and> fm_announced w' = fm_announced v" if "orepr (fm_db v) (S(?c \<mapsto> (st', i))) Q" for v st'
  proof -
    from saveOpening_calm [OF calm, of "v\<lparr>fm_sent := fm_sent v @ [lockedMsg chan k]\<rparr>" "S(?c \<mapsto> (st', i))" Q fundingLockedSent] that i calm key
    show ?thesis by (auto simp: sendFundingLocked_def sendLoop_run calm_def ibind_def io_run lockedMsg_def)
  qed
  show ?thesis
    using st
  proof (cases rule: opening_states)
    case 1
    obtain w1 where w1: "sendFundingLocked oe chan i w = (Inr (), w1)" "orepr (fm_db w1) (S(?c \<mapsto> (fundingLockedSent, i))) Q"
        "fm_sent w1 = fm_sent w @ [lockedMsg chan k]" "fm_announced w1 = fm_announced w" using locked [OF w] by blast
    with graph [OF w1(2)] 1 calm show ?thesis
      by (auto simp: stepsLeft_def calm_def ibind_def io_run fails_def)
  next
    case 2
    with graph [OF w] show ?thesis by (auto simp: stepsLeft_def)
  next
    case 3
    with w show ?thesis by (simp add: stepsLeft_def io_run)
  qed
qed

lemma resumeOpening_calm:
  assumes calm: "calm cfg oe chan i" and w: "orepr (fm_db w) (S(oc_FundingOutpoint chan \<mapsto> (st, i))) Q" and st: "st \<le> addedToRouterGraph"
    and anns: "channelAnnouncement cfg oe chan i = Inr anns" and key: "oe_NextRevocationKey oe chan = Inr k"
    and node: "oe_CurrentNodeAnnouncement oe = Inr node"
  shows "\<exists>w'. resumeOpening cfg oe st chan i w = (Inr (), w') \<and> announcedOpening S Q (oc_FundingOutpoint chan) w'
    \<and> fm_sent w' = fm_sent w @ (if st = markedOpen then [lockedMsg chan k] else [])
    \<and> fm_announced w' = fm_announced w @ gossipOf st chan anns node"
proof -
  let ?c = "oc_FundingOutpoint chan"
  obtain ann cupd sigs where a: "anns = (ann, cupd, sigs)" by (cases anns)
  obtain w1 where steps: "stepsLeft cfg oe st chan i w = (Inr (), w1)" "orepr (fm_db w1) (S(?c \<mapsto> (addedToRouterGraph, i))) Q"
        "fm_sent w1 = fm_sent w @ (if st = markedOpen then [lockedMsg chan k] else [])"
        "fm_announced w1 = fm_announced w @ (if st = addedToRouterGraph then [] else [GChannelAnnouncement ann, GChannelUpdate cupd])"
    using stepsLeft_calm [OF calm w st anns [unfolded a] key] by blast
  obtain t' where del: "deleteChannelOpeningState ?c (fm_db w1) = (Inr (), t')" "orepr t' (S(?c := None)) Q"
    using deleteChannelOpeningState_run [OF steps(2), of ?c] by auto
  show ?thesis
    unfolding resumeOpening_steps [OF st]
    using steps del calm anns node
    by (auto simp: ilogged_def ion_def ibind_def io_run annAfterSixConfs_def announceChannel_def SendAnnouncement_def f_Update_def calm_def
        fails_def a gossipOf_def isPublic_def announcedOpening_def Let_def)
qed

section \<open>What a start takes up\<close>

lemma iforeach_tasks:
  assumes "\<And>x w. x \<in> set xs \<Longrightarrow> I w \<Longrightarrow> \<exists>w'. f x w = (Inr (), w') \<and> I w' \<and> fm_tasks w' = fm_tasks w @ g x"
  shows "I w \<Longrightarrow> \<exists>w'. iforeach f xs w = (Inr (), w') \<and> I w' \<and> fm_tasks w' = fm_tasks w @ concat (map g xs)"
  using assms
proof (induction xs arbitrary: w)
  case (Cons x xs)
  obtain w1 where w1: "f x w = (Inr (), w1)" "I w1" "fm_tasks w1 = fm_tasks w @ g x" using Cons.prems(2) [of x w] Cons.prems(1) by auto
  from Cons.IH [OF w1(2)] Cons.prems(2) obtain w2 where "iforeach f xs w1 = (Inr (), w2)" "I w2"
      "fm_tasks w2 = fm_tasks w1 @ concat (map g xs)" by (metis list.set_intros(2))
  with w1 show ?case by simp
qed simp

text \<open>The channels on disk, the opening states, and that pending channels have a barrier.\<close>

definition loaded :: "OpenChannel list \<Rightarrow> db \<Rightarrow> OpenChannel list \<Rightarrow> fundingManager \<Rightarrow> bool" where
  "loaded chs t done w \<longleftrightarrow> channels (fm_wallet w) = chs \<and> fm_db w = t
     \<and> (\<forall>ch \<in> set done. newChanBarriers w (NewChanIDFromOutPoint (oc_FundingOutpoint ch)) \<noteq> None)"

lemma loadPending_run:
  assumes "loaded chs t dn w" "\<forall>tx e. se_PublishTransaction se tx = Some e \<longrightarrow> \<not> stops e"
  shows "\<exists>w'. loadPending se ch w = (Inr (), w') \<and> loaded chs t (ch # dn) w' \<and> fm_tasks w' = fm_tasks w @ [WaitRestart ch]"
  using assms
  by (auto simp: loadPending_def Let_def newBarrier_def newDiscoverySignal_def makeChan_def goTask_def ibind_def io_run loaded_def
      ilogged_def ion_def fails_def f_wallet_def split: option.split)

lemma loadPendings_run:
  assumes "loaded chs t dn w" "\<forall>tx e. se_PublishTransaction se tx = Some e \<longrightarrow> \<not> stops e"
  shows "\<exists>w'. iforeach (loadPending se) ps w = (Inr (), w') \<and> loaded chs t (rev ps @ dn) w' \<and> fm_tasks w' = fm_tasks w @ map WaitRestart ps"
  using assms
proof (induction ps arbitrary: w dn)
  case (Cons p ps)
  obtain w1 where w1: "loadPending se p w = (Inr (), w1)" "loaded chs t (p # dn) w1" "fm_tasks w1 = fm_tasks w @ [WaitRestart p]"
    using loadPending_run [OF Cons.prems] by blast
  from Cons.IH [OF w1(2) Cons.prems(2)] w1 show ?case by auto
qed simp

lemma loadOpening_run:
  assumes S: "orepr t S Q" and w: "loaded chs t dn w" and i: "i < length chs" "se_loopVar se i = i"
  shows "\<exists>w'. loadOpening se chs i w = (Inr (), w') \<and> loaded chs t dn w' \<and> fm_tasks w' = fm_tasks w @ resumed S (chs ! i)"
proof -
  have db: "fm_db w = t" using w by (simp add: loaded_def)
  note get = getChannelOpeningState_run [OF S, of "oc_FundingOutpoint (chs ! i)"]
  show ?thesis
  proof (cases "S (oc_FundingOutpoint (chs ! i))")
    case None
    with get w db show ?thesis by (auto simp: loadOpening_def Let_def ibind_def io_run resumed_def)
  next
    case (Some x)
    obtain st scid where x: "x = (st, scid)" by (cases x)
    with get w db Some i show ?thesis
      by (auto simp: loadOpening_def Let_def ibind_def io_run resumed_def goTask_def newBarrier_def makeChan_def loaded_def)
  qed
qed

lemma fm_Start_run:
  assumes S: "orepr (fm_db w) S Q" and se: "se_FetchPendingChannels se = None" "se_FetchAllChannels se = None"
      "\<forall>tx e. se_PublishTransaction se tx = Some e \<longrightarrow> \<not> stops e" "\<And>i. se_loopVar se i = i"
  defines "chs \<equiv> channels (fm_wallet w)"
  shows "\<exists>w'. fm_Start se w = (Inr (), w') \<and> channels (fm_wallet w') = chs \<and> fm_db w' = fm_db w
    \<and> fm_tasks w' = fm_tasks w @ map WaitRestart (filter oc_IsPending chs) @ concat (map (resumed S) chs)
    \<and> (\<forall>ch \<in> set chs. oc_IsPending ch \<longrightarrow> newChanBarriers w' (NewChanIDFromOutPoint (oc_FundingOutpoint ch)) \<noteq> None)"
proof -
  let ?ps = "filter oc_IsPending chs"
  have "loaded chs (fm_db w) [] w" by (simp add: loaded_def chs_def)
  from loadPendings_run [OF this se(3), where ps = ?ps] obtain w1 where w1: "iforeach (loadPending se) ?ps w = (Inr (), w1)"
      "loaded chs (fm_db w) (rev ?ps) w1" "fm_tasks w1 = fm_tasks w @ map WaitRestart ?ps" by auto
  have "\<exists>w'. iforeach (loadOpening se chs) [0..<length chs] w1 = (Inr (), w') \<and> loaded chs (fm_db w) (rev ?ps) w'
      \<and> fm_tasks w' = fm_tasks w1 @ concat (map (\<lambda>i. resumed S (chs ! i)) [0..<length chs])"
    using w1(2) by (intro iforeach_tasks [where I = "loaded chs (fm_db w) (rev ?ps)"]) (auto intro!: loadOpening_run [OF S] se(4))
  moreover have "map (\<lambda>i. resumed S (chs ! i)) [0..<length chs] = map (resumed S) chs"
    by (rule nth_equalityI) auto
  ultimately obtain w2 where w2: "iforeach (loadOpening se chs) [0..<length chs] w1 = (Inr (), w2)" "loaded chs (fm_db w) (rev ?ps) w2"
      "fm_tasks w2 = fm_tasks w1 @ concat (map (resumed S) chs)" by auto
  have "channels (fm_wallet w1) = chs" using w1(2) by (simp add: loaded_def)
  with w1 w2 show ?thesis
    by (auto simp: fm_Start_def ibind_def io_run fails_def se loaded_def chs_def [symmetric])
qed

end
