(* ===== verification/FundingSafety.thy ===== *)
theory FundingSafety
  imports FundingProps FundingRestart
begin

text \<open>
  What the funding manager keeps in every interleaving and across crashes: the bound on the
  reservations of a peer, the order in which the parts of the node learn of a channel, the recorded progress
  of an opening, and when a channel may be forgotten.
\<close>

section \<open>Reachable states\<close>

definition demo_start :: startEnv where
  "demo_start = \<lparr>se_FetchPendingChannels = None, se_FetchAllChannels = None, se_PublishTransaction = (\<lambda>_. None), se_loopVar = (\<lambda>i. i)\<rparr>"

definition demo_w0 :: fundingManager where "demo_w0 = newFundingManager emptyWallet empty_db"

lemma demo_w0_reach: "fm_reach cfg demo_w0"
proof -
  have "fm_Start demo_start demo_w0 = (Inr (), demo_w0)"
    by (simp add: fm_Start_def demo_start_def demo_w0_def newFundingManager_def ibind_def io_run fails_def)
  with fm_reach.started [of cfg demo_start emptyWallet empty_db] show ?thesis by (simp add: demo_w0_def)
qed

lemma cancelForPeer_run:
  "\<exists>w'. cancelForPeer ctx w = (Inr (), w') \<and> channels (fm_wallet w') = channels (fm_wallet w) \<and> activeReservations w' = activeReservations w"
  by (auto simp: cancelForPeer_def ilogged_def ion_def ibind_def io_run f_wallet_def res_Cancel_def dropLimbo_def sendErr_def
      split: option.split)

lemma cancelAll_run:
  "\<exists>w'. iforeach (cancelForPeer \<circ> snd) m w = (Inr (), w') \<and> channels (fm_wallet w') = channels (fm_wallet w)
     \<and> activeReservations w' = activeReservations w"
proof (induction m arbitrary: w)
  case (Cons e m)
  obtain v where "cancelForPeer (snd e) w = (Inr (), v)" "channels (fm_wallet v) = channels (fm_wallet w)"
      "activeReservations v = activeReservations w" using cancelForPeer_run by blast
  with Cons.IH [of v] show ?case by auto
qed simp

text \<open>
  C19. In every reachable state at most \<open>MaxPendingChannels\<close> reservations are registered for a peer
  that the peer asked for itself, whatever it sends, in whatever order, and however the calls of
  the node end. This bounds reservations and not the channels that are pending: when the peer
  disconnects its reservations are forgotten, those of channels that wait for their confirmation
  too, while these channels stay in the database, so it may ask for as many again.
\<close>

theorem remote_reservations_bounded:
  assumes "fm_reach cfg w"
  shows "remoteReservations k w \<le> nat (fc_MaxPendingChannels cfg)
    \<and> (\<exists>w'. CancelPeerReservations k w = (Inr (), w') \<and> peerReservations k w' = [] \<and> channels (fm_wallet w') = channels (fm_wallet w))"
proof
  show "remoteReservations k w \<le> nat (fc_MaxPendingChannels cfg)"
    using pending_bound.reach_keeps [OF assms] by (simp add: bounded_def)
  show "\<exists>w'. CancelPeerReservations k w = (Inr (), w') \<and> peerReservations k w' = [] \<and> channels (fm_wallet w') = channels (fm_wallet w)"
  proof (cases "map_of (activeReservations w) k")
    case (Some m)
    obtain v where "iforeach (cancelForPeer \<circ> snd) m w = (Inr (), v)" "channels (fm_wallet v) = channels (fm_wallet w)"
      using cancelAll_run by blast
    with Some show ?thesis by (simp add: CancelPeerReservations_def ibind_def io_run peerReservations_def)
  qed (simp add: CancelPeerReservations_def peerReservations_def)
qed

definition demo_w1 :: fundingManager where
  "demo_w1 = snd (reservationCoordinator (demo_fcfg 5) demo_fenv FundingMsgReady
     (snd (processFundingMsg False (MsgOpenChannel demo_open) (demo_addr 9) demo_w0)))"

lemma demo_w1_reach: "fm_reach (demo_fcfg 5) demo_w1"
  unfolding demo_w1_def
  by (rule fm_reach.step [OF fm_reach.step [OF demo_w0_reach fm_step.arrive] fm_step.coordinate])

theorem remote_reservations_bounded_witness:
  "remoteReservations (newSerializedKey (demo_key 9)) demo_w1 = 1
   \<and> remoteReservations (newSerializedKey (demo_key 9)) demo_w1 \<le> nat (fc_MaxPendingChannels (demo_fcfg 5))"
proof
  show "remoteReservations (newSerializedKey (demo_key 9)) demo_w1 = 1" by code_simp
qed (use remote_reservations_bounded [OF demo_w1_reach] in blast)

section \<open>The peer locks the channel in\<close>

definition saneLocked :: "lockedEnv \<Rightarrow> bool" where
  "saneLocked le \<longleftrightarrow> (\<forall>e. le_FetchAllChannels le = Some e \<longrightarrow> \<not> stops e) \<and> (\<forall>c e. le_NewLightningChannel le c = Some e \<longrightarrow> \<not> stops e)
     \<and> (\<forall>e. le_InitNextRevocation le = Some e \<longrightarrow> \<not> stops e)"

lemma chansFresh_frame [simp]: "chansFresh (w\<lparr>fm_arbiterChan := a\<rparr>) = chansFresh w" "chansFresh (w\<lparr>fm_wallet := l\<rparr>) = chansFresh w"
  "chansFresh (w\<lparr>fm_peerChannels := p\<rparr>) = chansFresh w"
  by (simp_all add: chansFresh_def)

lemma closeBarrier_frame:
  assumes "chansFresh w"
  shows "\<exists>w'. closeBarrier c w = (Inr (), w') \<and> newChanBarriers w' c = None \<and> fm_peerChannels w' = fm_peerChannels w
    \<and> fm_arbiterChan w' = fm_arbiterChan w \<and> handleFundingLockedBarriers w' = handleFundingLockedBarriers w"
  using assms by (auto simp: chansFresh_def closeBarrier_def closeChan_def ibind_def io_run split: option.split)

text \<open>
  The peer was given a channel, and the goroutine waits for it to be recognised: the barrier of the
  channel is in place, and no other message of the channel is let in.
\<close>

definition handedOver :: "NetAddress \<Rightarrow> FundingLockedMsg \<Rightarrow> fundingManager \<Rightarrow> fundingManager \<Rightarrow> bool" where
  "handedOver addr msg w w' \<longleftrightarrow> (\<exists>c. fm_peerChannels w' = fm_peerChannels w @ [(na_IdentityKey addr, c)]
     \<and> oc_FundingOutpoint c \<in> set (fm_arbiterChan w') \<and> oc_RemoteNextRevocation c = Some (lm_NextPerCommitmentPoint msg)
     \<and> NewChanIDFromOutPoint (oc_FundingOutpoint c) = lm_ChanID msg)
     \<and> newChanBarriers w' = newChanBarriers w \<and> handleFundingLockedBarriers w' = handleFundingLockedBarriers w
     \<and> fm_tasks w' = fm_tasks w @ [AwaitNewChan (lm_ChanID msg)]"

text \<open>The goroutine has ended, or will never go on, and the peer was given nothing.\<close>

definition notHandedOver :: "fundingManager \<Rightarrow> fundingManager \<Rightarrow> bool" where
  "notHandedOver w w' \<longleftrightarrow> fm_peerChannels w' = fm_peerChannels w \<and> fm_tasks w' = fm_tasks w"

lemma find_chanID:
  "find (\<lambda>c. NewChanIDFromOutPoint (oc_FundingOutpoint c) = x) cs = Some chan \<Longrightarrow> NewChanIDFromOutPoint (oc_FundingOutpoint chan) = x"
  by (induction cs) (auto split: if_splits)

lemma FindChannel_cases:
  assumes "saneLocked le" "FindChannel le x w = (r, w')"
  shows "w' = w \<and> ((\<exists>e. r = Inl e \<and> \<not> stops e) \<or> (\<exists>chan. r = Inr chan \<and> NewChanIDFromOutPoint (oc_FundingOutpoint chan) = x))"
  using assms
  by (auto simp: FindChannel_def ibind_def io_run fails_def saneLocked_def dest: find_chanID split: option.splits)

lemma closeBarrier_tasks: "fm_tasks (snd (closeBarrier c w)) = fm_tasks w"
  by (auto simp: closeBarrier_def closeChan_def ibind_def io_run split: option.split)

text \<open>The outcomes of the handling: a result, and whether the goroutine goes on.\<close>

definition lockedOutcome :: "lockedEnv \<Rightarrow> NetAddress \<Rightarrow> FundingLockedMsg \<Rightarrow> fundingManager \<Rightarrow> goerr + bool \<Rightarrow> fundingManager \<Rightarrow> bool" where
  "lockedOutcome le addr msg w r w' \<longleftrightarrow>
     (case r of
        Inr True \<Rightarrow> handedOver addr msg w w' \<and> le_toArbiter le = Sends
      | Inr False \<Rightarrow> notHandedOver w w'
      | Inl e \<Rightarrow> notHandedOver w w' \<and>
          (stops e \<longrightarrow> (le_toArbiter le = Hangs \<or> le_toPeer le = Hangs) \<and> (\<exists>s. e = GoBlocked s) \<and> newChanBarriers w' = newChanBarriers w))"

lemma processLocked_cases:
  assumes fresh: "chansFresh w" and le: "saneLocked le" and run: "processLocked le addr msg w = (r, w')"
  shows "lockedOutcome le addr msg w r w'"
proof -
  let ?n = "lm_NextPerCommitmentPoint msg" and ?id = "lm_ChanID msg"
  obtain r1 w1 where find: "FindChannel le ?id w = (r1, w1)" by (cases "FindChannel le ?id w")
  from FindChannel_cases [OF le this] show ?thesis
  proof (elim conjE disjE exE)
    fix e assume "w1 = w" "r1 = Inl e" "\<not> stops e"
    with run find show ?thesis by (auto simp: processLocked_def Let_def ibind_def lockedOutcome_def notHandedOver_def)
  next
    fix chan assume chan: "w1 = w" "r1 = Inr chan" "NewChanIDFromOutPoint (oc_FundingOutpoint chan) = ?id"
    define v where "v = w\<lparr>fm_arbiterChan := fm_arbiterChan w @ [oc_FundingOutpoint chan], fm_wallet := (fm_wallet w)\<lparr>channels :=
      changeChannel chan (\<lambda>d. d\<lparr>oc_RemoteNextRevocation := Some ?n\<rparr>) (channels (fm_wallet w))\<rparr>\<rparr>"
    have v: "chansFresh v" "fm_peerChannels v = fm_peerChannels w" "fm_tasks v = fm_tasks w"
      using fresh by (simp_all add: v_def)
    obtain u where u: "closeBarrier ?id v = (Inr (), u)" "fm_peerChannels u = fm_peerChannels w" "fm_tasks u = fm_tasks w"
      using closeBarrier_frame [OF v(1), of ?id] closeBarrier_tasks [of ?id v] v(2,3) by auto
    note eval = processLocked_def Let_def ibind_def io_run InitNextRevocation_def fails_def f_wallet_def goTask_def lockedOutcome_def
      notHandedOver_def
    have hung: "lockedOutcome le addr msg w (Inl (GoBlocked s)) v" if "le_toPeer le = Hangs" for s
      using that v(2,3) by (simp add: lockedOutcome_def notHandedOver_def v_def)
    have lifted: "lockedOutcome le addr msg w (Inr False) u" using u by (simp add: lockedOutcome_def notHandedOver_def)
    have "processLocked le addr msg w =
        (if oc_RemoteNextRevocation chan \<noteq> None \<or> le_toArbiter le = Quits then (Inr False, w)
         else if le_toArbiter le = Hangs then (Inl (GoBlocked ''ArbiterChan''), w)
         else case le_InitNextRevocation le of
             Some e \<Rightarrow> (Inl e, w\<lparr>fm_arbiterChan := fm_arbiterChan w @ [oc_FundingOutpoint chan]\<rparr>)
           | None \<Rightarrow>
               if le_FindPeer le \<noteq> None \<or> le_toPeer le = Quits then (Inr False, u)
               else if le_toPeer le = Hangs then (Inl (GoBlocked ''newChannels''), v)
               else (Inr True, v\<lparr>fm_peerChannels := fm_peerChannels v @ [(na_IdentityKey addr, chan\<lparr>oc_RemoteNextRevocation := Some ?n\<rparr>)],
                      fm_tasks := fm_tasks v @ [AwaitNewChan ?id]\<rparr>))"
      using find chan(1,2) u(1) by (simp add: eval v_def split: sendSelect.split option.split)
    moreover have "le_toArbiter le = Sends" if "le_toArbiter le \<noteq> Quits" "le_toArbiter le \<noteq> Hangs" using that by (cases "le_toArbiter le") simp_all
    ultimately show ?thesis
      using run chan(3) le hung lifted v by (auto simp: lockedOutcome_def notHandedOver_def handedOver_def saneLocked_def v_def
          split: if_splits option.splits)
  qed
qed

lemma processLocked_hands_over:
  assumes "FindChannel le (lm_ChanID msg) w = (Inr chan, w)" "oc_RemoteNextRevocation chan = None" "le_toArbiter le = Sends"
    "le_InitNextRevocation le = None" "le_FindPeer le = None" "le_toPeer le = Sends"
  shows "fst (processLocked le addr msg w) = Inr True"
  using assms by (simp add: processLocked_def Let_def ibind_def io_run InitNextRevocation_def fails_def f_wallet_def goTask_def)

text \<open>
  C20. The goroutine that handles a peer's \<^verbatim>\<open>FundingLocked\<close>, in a reachable state. It never panics,
  and it blocks for good only where a send is taken by nobody, the breach arbiter's or the peer's;
  then the peer was given nothing and the barrier of the channel stays. Otherwise it ends and lets
  the next message of the channel in, or it hands the peer a channel, whose id is that of the
  message, with the point of the message as the next revocation, which the breach arbiter was
  told of before; this it does whenever the channel is found, is new, and the calls and sends
  succeed. From then on the barrier is in place until the peer has recognised the channel; the
  step that follows lifts it, lets the next message in, and neither panics nor blocks.
\<close>

theorem finish_locked_safe:
  assumes "fm_reach cfg w" "saneLocked le"
  shows "\<exists>r w'. finishFundingLocked le addr msg discoverySignal w = (r, w')
    \<and> (case r of
         Inl e \<Rightarrow> (\<exists>s. e = GoBlocked s) \<and> (le_toArbiter le = Hangs \<or> le_toPeer le = Hangs)
           \<and> notHandedOver w w' \<and> newChanBarriers w' = newChanBarriers w
       | Inr _ \<Rightarrow> handedOver addr msg w w' \<and> le_toArbiter le = Sends
           \<or> notHandedOver w w' \<and> lm_ChanID msg \<notin> set (handleFundingLockedBarriers w'))
    \<and> (\<forall>chan. FindChannel le (lm_ChanID msg) w = (Inr chan, w) \<and> oc_RemoteNextRevocation chan = None \<and> le_toArbiter le = Sends
         \<and> le_InitNextRevocation le = None \<and> le_FindPeer le = None \<and> le_toPeer le = Sends \<longrightarrow> handedOver addr msg w w')
    \<and> (\<forall>v. fm_reach cfg v \<longrightarrow> (\<exists>v'. awaitNewChan (lm_ChanID msg) v = (Inr (), v') \<and> waitUntilChannelOpen (lm_ChanID msg) v'
         \<and> lm_ChanID msg \<notin> set (handleFundingLockedBarriers v') \<and> fm_peerChannels v' = fm_peerChannels v))"
proof -
  define w1 where "w1 = (if discoverySignal = None then w else w\<lparr>localDiscoverySignals := (localDiscoverySignals w)(lm_ChanID msg := None)\<rparr>)"
  have fresh: "chansFresh w1" using chans_fresh.reach_keeps [OF assms(1)] chans_fresh.forget by (simp add: w1_def)
  obtain r w2 where run: "processLocked le addr msg w1 = (r, w2)" by (cases "processLocked le addr msg w1")
  note out = processLocked_cases [OF fresh assms(2) run]
  have same: "fm_peerChannels w1 = fm_peerChannels w" "fm_tasks w1 = fm_tasks w" "newChanBarriers w1 = newChanBarriers w"
    "handleFundingLockedBarriers w1 = handleFundingLockedBarriers w" "fm_wallet w1 = fm_wallet w"
    by (simp_all add: w1_def)
  then have moved: "handedOver addr msg w1 w2 = handedOver addr msg w w2" "notHandedOver w1 w2 = notHandedOver w w2"
    by (simp_all add: handedOver_def notHandedOver_def)
  have eq: "finishFundingLocked le addr msg discoverySignal w = ion (processLocked le addr msg) (\<lambda>_. leaveFundingLocked (lm_ChanID msg))
        (\<lambda>waits. if waits then iret () else leaveFundingLocked (lm_ChanID msg)) w1"
    by (simp add: finishFundingLocked_def Let_def w1_def ibind_def io_run)
  have find: "FindChannel le c w = (Inr chan, w) \<Longrightarrow> FindChannel le c w1 = (Inr chan, w1)" for c chan
    using same(5) by (auto simp: FindChannel_def ibind_def io_run fails_def split: option.splits)
  have hands: "r = Inr True" if "FindChannel le (lm_ChanID msg) w = (Inr chan, w)" "oc_RemoteNextRevocation chan = None" "le_toArbiter le = Sends"
      "le_InitNextRevocation le = None" "le_FindPeer le = None" "le_toPeer le = Sends" for chan
    using processLocked_hands_over [OF find [OF that(1)] that(2-), of addr] run by simp
  have after: "\<exists>v'. awaitNewChan (lm_ChanID msg) v = (Inr (), v') \<and> waitUntilChannelOpen (lm_ChanID msg) v'
      \<and> lm_ChanID msg \<notin> set (handleFundingLockedBarriers v') \<and> fm_peerChannels v' = fm_peerChannels v" if "fm_reach cfg v" for v
    using closeBarrier_frame [OF chans_fresh.reach_keeps [OF that], of "lm_ChanID msg"]
    by (auto simp: awaitNewChan_def leaveFundingLocked_def ibind_def io_run waitUntilChannelOpen_def)
  obtain r' w' where fin: "finishFundingLocked le addr msg discoverySignal w = (r', w')"
    by (cases "finishFundingLocked le addr msg discoverySignal w")
  have "case r' of
         Inl e \<Rightarrow> (\<exists>s. e = GoBlocked s) \<and> (le_toArbiter le = Hangs \<or> le_toPeer le = Hangs)
           \<and> notHandedOver w w' \<and> newChanBarriers w' = newChanBarriers w
       | Inr _ \<Rightarrow> handedOver addr msg w w' \<and> le_toArbiter le = Sends
           \<or> notHandedOver w w' \<and> lm_ChanID msg \<notin> set (handleFundingLockedBarriers w')"
    using fin [unfolded eq] run out moved same
    by (auto simp: ion_def io_run leaveFundingLocked_def lockedOutcome_def notHandedOver_def split: sum.splits bool.splits if_splits)
  moreover have "handedOver addr msg w w'" if "r = Inr True"
    using fin [unfolded eq] run out moved that by (simp add: ion_def io_run lockedOutcome_def)
  ultimately show ?thesis using fin hands after by blast
qed

definition demo_chan :: OpenChannel where
  "demo_chan = \<lparr>oc_ChanType = SingleFunder, oc_ChainHash = 7, oc_FundingOutpoint = demo_fpoint, oc_ShortChanID = demo_scid, oc_IsPending = False,
     oc_IsInitiator = False, oc_FundingBroadcastHeight = 500000, oc_NumConfsRequired = 3, oc_ChannelFlags = 1, oc_IdentityPub = demo_key 9,
     oc_Capacity = 100000, oc_LocalChanCfg = demo_fkeys, oc_RemoteChanCfg = demo_fkeys, oc_LocalBalance = 0, oc_RemoteBalance = 100000000,
     oc_RemoteCurrentRevocation = None, oc_RemoteNextRevocation = None, oc_FundingTxn = None\<rparr>"

definition demo_w2 :: fundingManager where "demo_w2 = newFundingManager (emptyWallet\<lparr>channels := [demo_chan]\<rparr>) empty_db"

definition demo_locked :: lockedEnv where
  "demo_locked = \<lparr>le_FetchAllChannels = None, le_NewLightningChannel = (\<lambda>_. None), le_toArbiter = Sends, le_InitNextRevocation = None,
     le_FindPeer = None, le_toPeer = Sends\<rparr>"

lemma orepr_empty: "orepr empty_db (\<lambda>_. None) (beside_openings empty_db)"
proof -
  have "val_at empty_db (x # q) = None" "\<not> is_bkt empty_db (x # q)" for x q
    by (simp_all add: val_at_def is_bkt_def)
  then show ?thesis
    by (simp add: orepr_def wf_openings_def kv_def al_sorted_def)
qed

lemma demo_w2_reach: "fm_reach cfg demo_w2"
proof -
  have "getChannelOpeningState c empty_db = Inl ErrChannelNotFound" for c
    using getChannelOpeningState_run [OF orepr_empty] by simp
  then have "fm_Start demo_start demo_w2 = (Inr (), demo_w2)"
    by (simp add: fm_Start_def demo_start_def demo_w2_def newFundingManager_def ibind_def io_run fails_def demo_chan_def loadOpening_def Let_def)
  with fm_reach.started [of cfg demo_start "emptyWallet\<lparr>channels := [demo_chan]\<rparr>" empty_db] show ?thesis by (simp add: demo_w2_def)
qed

theorem finish_locked_safe_witness:
  "\<exists>w'. finishFundingLocked demo_locked (demo_addr 9) \<lparr>lm_ChanID = NewChanIDFromOutPoint demo_fpoint, lm_NextPerCommitmentPoint = demo_key 4\<rparr> None demo_w2
       = (Inr (), w')
   \<and> handedOver (demo_addr 9) \<lparr>lm_ChanID = NewChanIDFromOutPoint demo_fpoint, lm_NextPerCommitmentPoint = demo_key 4\<rparr> demo_w2 w'"
proof -
  let ?msg = "\<lparr>lm_ChanID = NewChanIDFromOutPoint demo_fpoint, lm_NextPerCommitmentPoint = demo_key 4\<rparr>"
  have "saneLocked demo_locked" by (simp add: saneLocked_def demo_locked_def)
  note safe = finish_locked_safe [OF demo_w2_reach [of "demo_fcfg 5"] this, of "demo_addr 9" ?msg None]
  obtain r w' where fin: "finishFundingLocked demo_locked (demo_addr 9) ?msg None demo_w2 = (r, w')"
    by (cases "finishFundingLocked demo_locked (demo_addr 9) ?msg None demo_w2")
  have found: "FindChannel demo_locked (NewChanIDFromOutPoint demo_fpoint) demo_w2 = (Inr demo_chan, demo_w2)"
    by (simp add: FindChannel_def ibind_def io_run fails_def demo_locked_def demo_w2_def newFundingManager_def demo_chan_def)
  have new: "oc_RemoteNextRevocation demo_chan = None" by (simp add: demo_chan_def)
  have env: "le_toArbiter demo_locked = Sends" "le_InitNextRevocation demo_locked = None" "le_FindPeer demo_locked = None"
    "le_toPeer demo_locked = Sends" by (simp_all add: demo_locked_def)
  show ?thesis using safe unfolding fin by (cases r) (auto simp: env found new)
qed

section \<open>Openings across restarts\<close>

text \<open>
  C6. The recorded opening of a channel survives any sequence of restarts, each a crash, a \<^verbatim>\<open>Start\<close>
  that may fail and the goroutine that it starts, of which any call may fail. This is for a node
  with one opening under way: no channel is pending, no other channel has a recorded opening,
  and this one is the last in the database, so that the loop variable that the goroutine of the
  last state reads in place of its argument can only hold it. The rest of the database is
  untouched, and either the record is gone, and then a public channel's proof was handed to the
  gossiper before, or it is still there with the same short channel id and at the same or a
  later step, and a restart in which every call succeeds sends the peer what it has not got,
  announces the channel and deletes the record.
\<close>

theorem opening_survives_crashes:
  fixes cfg chan chs xs w
  defines "c \<equiv> oc_FundingOutpoint chan" and "w' \<equiv> restarts cfg xs w"
  assumes "lastOpening chs chan S Q w" "S c = Some (st, i)" "st \<le> addedToRouterGraph"
    and "\<forall>x \<in> set xs. loopVarOk (fst x) (Suc (length chs))"
  shows "announcedOpening S Q c w' \<and> (isPublic chan \<longrightarrow> (\<exists>x \<in> set xs. proofSent cfg (ge_opening (snd x)) chan i w'))
    \<or> (\<exists>st'. orepr (fm_db w') (S(c \<mapsto> (st', i))) Q \<and> st \<le> st' \<and> st' \<le> addedToRouterGraph
        \<and> (\<forall>se ge. loopVarOk se (Suc (length chs)) \<and> se_FetchPendingChannels se = None \<and> se_FetchAllChannels se = None
               \<and> calm cfg (ge_opening ge) chan i \<longrightarrow>
             (\<exists>w'' k anns node. restart cfg (se, ge) w' = w'' \<and> announcedOpening S Q c w''
                \<and> fm_sent w'' = fm_sent w' @ (if st' = markedOpen then [lockedMsg chan k] else [])
                \<and> channelAnnouncement cfg (ge_opening ge) chan i = Inr anns
                \<and> fm_announced w'' = fm_announced w' @ gossipOf st' chan anns node)))"
proof -
  have "S(c \<mapsto> (st, i)) = S" using assms(4) by (simp add: fun_upd_idem)
  then have "lastOpening chs chan (S(c \<mapsto> (st, i))) Q w" using assms(3) by metis
  from restarts_keep [OF this [unfolded c_def] assms(5,6), of cfg, folded c_def w'_def] show ?thesis
  proof (elim disjE exE conjE)
    fix st' assume st': "lastOpening chs chan (S(c \<mapsto> (st', i))) Q w'" "st \<le> st'" "st' \<le> addedToRouterGraph"
    have "\<exists>w'' k anns node. restart cfg (se, ge) w' = w'' \<and> announcedOpening S Q c w''
        \<and> fm_sent w'' = fm_sent w' @ (if st' = markedOpen then [lockedMsg chan k] else [])
        \<and> channelAnnouncement cfg (ge_opening ge) chan i = Inr anns \<and> fm_announced w'' = fm_announced w' @ gossipOf st' chan anns node"
      if good: "loopVarOk se (Suc (length chs))" "se_FetchPendingChannels se = None" "se_FetchAllChannels se = None"
        "calm cfg (ge_opening ge) chan i" for se ge
    proof -
      obtain anns k node where env: "channelAnnouncement cfg (ge_opening ge) chan i = Inr anns" "oe_NextRevocationKey (ge_opening ge) chan = Inr k"
          "oe_CurrentNodeAnnouncement (ge_opening ge) = Inr node" using good(4) unfolding calm_def by blast
      have "orepr (fm_db (crash w')) (S(c \<mapsto> (st', i))) Q" by (rule lastOpening_repr [OF lastOpening_crash [OF st'(1)]])
      from resumeOpening_calm [OF good(4) this [unfolded c_def] st'(3) env] obtain w''
        where run: "resumeOpening cfg (ge_opening ge) st' chan i (crash w') = (Inr (), w'')" "announcedOpening S Q c w''"
          "fm_sent w'' = fm_sent w' @ (if st' = markedOpen then [lockedMsg chan k] else [])"
          "fm_announced w'' = fm_announced w' @ gossipOf st' chan anns node"
        unfolding c_def by auto
      have "restart cfg (se, ge) w' = w''"
        using restart_last [OF st'(1), of "(se, ge)" cfg] good(1-3) run(1) by (simp add: c_def)
      with run env(1) show ?thesis by blast
    qed
    with st'(2,3) lastOpening_repr [OF st'(1)] show ?thesis by blast
  qed blast
qed

definition demo_oenv :: "bool \<Rightarrow> openingEnv" where
  "demo_oenv broken = \<lparr>oe_unix = 1, oe_RegisterBlockEpochNtfn = None, oe_RegisterConfirmationsNtfn = (\<lambda>_ _ _. None), oe_MarkAsOpen = (\<lambda>_. None),
     oe_commit = (\<lambda>_. if broken then Some (GoErr ''disk full'') else None), oe_commitDelete = None, oe_ReportShortChanID = (\<lambda>_ _. None),
     oe_handover = True, oe_NewLightningChannel = (\<lambda>_. None), oe_NextRevocationKey = (\<lambda>_. Inr (demo_key 4)), oe_sends = [None],
     oe_SendAnnouncement = (\<lambda>_. None), oe_sixConfs = Confirmed 500009 7, oe_CurrentNodeAnnouncement = Inr [5]\<rparr>"

definition demo_opening_w :: fundingManager where
  "demo_opening_w = demo_w2\<lparr>fm_db := snd (saveChannelOpeningState demo_fpoint markedOpen demo_scid empty_db)\<rparr>"

lemma demo_scid_valid: "valid_scid demo_scid"
  by (simp add: valid_scid_def demo_scid_def)

lemma demo_opening_repr: "orepr (fm_db demo_opening_w) [demo_fpoint \<mapsto> (markedOpen, demo_scid)] (beside_openings empty_db)"
  using saveChannelOpeningState_run [OF orepr_empty demo_scid_valid, of demo_fpoint markedOpen]
  by (auto simp: demo_opening_w_def)

lemma demo_calm: "calm (demo_fcfg 5) (demo_oenv False) demo_chan demo_scid"
proof -
  have ser: "SerializeCompressed (demo_key 5) < SerializeCompressed (demo_key 9)" by code_simp
  obtain sb where scid: "scidBytes demo_scid = Inr sb" by (simp add: scidBytes_def demo_scid_def push_bit_of_1)
  have "\<exists>x. channelAnnouncement (demo_fcfg 5) (demo_oenv False) demo_chan demo_scid = Inr x"
    by (simp add: channelAnnouncement_def newChanAnnouncement_def chanAnnFor_def ser update_DataToSign_def ann_DataToSign_def scid signAndWrap_def
        demo_fcfg_def demo_sign_def demo_chan_def)
  then show ?thesis by (simp add: calm_def demo_oenv_def)
qed

definition demo_genv :: "bool \<Rightarrow> goEnv" where
  "demo_genv broken = \<lparr>ge_funding = demo_fenv, ge_opening = demo_oenv broken, ge_locked = demo_locked, ge_waitEvents = [],
     ge_confEvent = Confirmed 500003 7\<rparr>"

lemma demo_loopVarOk: "loopVarOk demo_start n"
  by (simp add: loopVarOk_def demo_start_def)

lemma demo_lastOpening: "lastOpening [] demo_chan [demo_fpoint \<mapsto> (markedOpen, demo_scid)] (beside_openings empty_db) demo_opening_w"
  using demo_opening_repr by (simp add: lastOpening_def demo_opening_w_def demo_w2_def newFundingManager_def demo_chan_def)

text \<open>A restart on a full disk, and then one on which all goes well.\<close>

theorem opening_survives_crashes_witness:
  "announcedOpening [demo_fpoint \<mapsto> (markedOpen, demo_scid)] (beside_openings empty_db) demo_fpoint
     (restart (demo_fcfg 5) (demo_start, demo_genv False)
        (restarts (demo_fcfg 5) [(demo_start, demo_genv True)] demo_opening_w))"
proof -
  let ?S = "[demo_fpoint \<mapsto> (markedOpen, demo_scid)]" and ?Q = "beside_openings empty_db"
  define w' where "w' = restarts (demo_fcfg 5) [(demo_start, demo_genv True)] demo_opening_w"
  have c: "oc_FundingOutpoint demo_chan = demo_fpoint" by (simp add: demo_chan_def)
  have "w' = snd (resumeOpening (demo_fcfg 5) (demo_oenv True) markedOpen demo_chan demo_scid (crash demo_opening_w))"
    using restart_last [OF demo_lastOpening, of "(demo_start, demo_genv True)" "demo_fcfg 5"] demo_loopVarOk
    by (simp add: w'_def c demo_genv_def) (simp add: demo_start_def)
  then have "fm_db w' = fm_db demo_opening_w"
    using saveChannelOpeningState_run [OF demo_opening_repr demo_scid_valid, of demo_fpoint fundingLockedSent]
    by (auto simp: resumeOpening_def handleFundingConfirmation_def sendFundingLocked_def saveOpening_def f_Update_def demo_oenv_def
        ibind_def io_run fails_def ilogged_def ion_def c)
  then have get: "getChannelOpeningState demo_fpoint (fm_db w') = Inr (markedOpen, demo_scid)"
    using getChannelOpeningState_run [OF demo_opening_repr, of demo_fpoint] by simp
  then have "\<not> announcedOpening ?S ?Q demo_fpoint w'"
    using getChannelOpeningState_run [of "fm_db w'" "?S(demo_fpoint := None)" ?Q demo_fpoint] by (auto simp: announcedOpening_def)
  moreover have "se_FetchPendingChannels demo_start = None" "se_FetchAllChannels demo_start = None"
      "calm (demo_fcfg 5) (ge_opening (demo_genv False)) demo_chan demo_scid"
    using demo_calm by (simp_all add: demo_start_def demo_genv_def)
  ultimately show ?thesis
    using opening_survives_crashes [where cfg = "demo_fcfg 5" and xs = "[(demo_start, demo_genv True)]", OF demo_lastOpening, folded w'_def]
      demo_loopVarOk unfolding c w'_def [symmetric] by fastforce
qed

text \<open>
  A start goes through the channels on disk: every pending channel is waited for again, and
  gets a barrier that holds back its updates, and every channel with a recorded opening state is
  taken up at that state with the recorded short channel id; no other channel is, and the disk is
  not changed. It is assumed that the goroutine of the last state reads the loop variable before
  the loop goes on.
\<close>

theorem start_takes_up:
  assumes "orepr (fm_db w) S Q" "se_FetchPendingChannels se = None" "se_FetchAllChannels se = None"
    and "\<forall>tx e. se_PublishTransaction se tx = Some e \<longrightarrow> \<not> stops e" "\<And>i. se_loopVar se i = i"
  shows "\<exists>w'. fm_Start se w = (Inr (), w') \<and> channels (fm_wallet w') = channels (fm_wallet w) \<and> fm_db w' = fm_db w
    \<and> fm_tasks w' = fm_tasks w @ map WaitRestart (filter oc_IsPending (channels (fm_wallet w))) @ concat (map (resumed S) (channels (fm_wallet w)))
    \<and> (\<forall>ch \<in> set (channels (fm_wallet w)). oc_IsPending ch \<longrightarrow> newChanBarriers w' (NewChanIDFromOutPoint (oc_FundingOutpoint ch)) \<noteq> None)"
  by (rule fm_Start_run [OF assms])

theorem start_takes_up_witness:
  "\<exists>w'. fm_Start demo_start demo_opening_w = (Inr (), w') \<and> fm_tasks w' = [ResumeOpening markedOpen demo_chan demo_scid]"
proof -
  have se: "se_FetchPendingChannels demo_start = None" "se_FetchAllChannels demo_start = None"
    "\<forall>tx e. se_PublishTransaction demo_start tx = Some e \<longrightarrow> \<not> stops e" "se_loopVar demo_start i = i" for i
    by (simp_all add: demo_start_def)
  from start_takes_up [OF demo_opening_repr se] show ?thesis
    by (auto simp: demo_opening_w_def demo_w2_def newFundingManager_def demo_chan_def resumed_def)
qed

end
