(* ===== verification/FundingFaults.thy ===== *)
theory FundingFaults
  imports FundingSafety
begin

text \<open>
  When the funding manager gives a channel up, how the opening states are stored, and what a
  peer can do to it: three ways in which messages of a peer stop a goroutine of the node.
\<close>

section \<open>Giving up on the confirmation\<close>

definition expired :: "OpenChannel \<Rightarrow> u32 \<Rightarrow> bool" where
  "expired chan h \<longleftrightarrow> h \<ge> oc_FundingBroadcastHeight chan + maxWaitNumBlocksFundingConf"

text \<open>Some block of the first epochs, before any other event, is late enough.\<close>

fun expires :: "OpenChannel \<Rightarrow> waitEvent list \<Rightarrow> bool" where
  "expires chan (Epoch h # evs) \<longleftrightarrow> expired chan h \<or> expires chan evs"
| "expires chan evs \<longleftrightarrow> False"

lemma stopped_no_timeout: "fst (waitLoop oe chan False evs w) \<noteq> Inr FundingTimeout"
  by (induction oe chan False evs arbitrary: w rule: waitLoop.induct)
    (auto simp: io_run ibind_def split: sum.splits option.splits prod.splits)

lemma waitLoop_timeout_iff:
  "fst (waitLoop oe chan True evs w) = Inr FundingTimeout \<longleftrightarrow> \<not> oc_IsInitiator chan \<and> expires chan evs"
proof (induction oe chan True evs arbitrary: w rule: waitLoop.induct)
  case (3 oe chan evs)
  then show ?case using stopped_no_timeout by simp
qed (auto simp: io_run ibind_def expired_def split: sum.splits option.splits prod.splits)

lemma waitLoop_timeout: "\<not> oc_IsInitiator chan \<Longrightarrow> expires chan evs \<Longrightarrow> waitLoop oe chan True evs w = (Inr FundingTimeout, w)"
  by (induction chan evs rule: expires.induct) (auto simp: io_run expired_def)

text \<open>
  The wait for a confirmation times out exactly when the channel was opened by the peer and a
  block at least 288 above the broadcast height arrives, before the confirmation and before the
  stream of blocks ends; the initiator never gives a channel up. The responder then deletes the
  channel, but it keeps the reservation, which goes on counting against the peer.
\<close>

theorem funding_timeout_iff:
  assumes "oe_RegisterBlockEpochNtfn oe = None" "fe_CloseChannel env chan = None"
  shows "(fst (waitForFundingWithTimeout oe chan evs w) = Inr FundingTimeout \<longleftrightarrow> \<not> oc_IsInitiator chan \<and> expires chan evs)
    \<and> (\<not> oc_IsInitiator chan \<and> expires chan evs \<longrightarrow> (\<exists>w'. runWaitCreated cfg env oe evs peer pid chan w = (Inr (), w')
         \<and> channels (fm_wallet w') = filter (\<lambda>d. chanKey d \<noteq> chanKey chan) (channels (fm_wallet w)) \<and> activeReservations w' = activeReservations w))"
  using assms
  by (auto simp: waitForFundingWithTimeout_def waitLoop_timeout_iff waitLoop_timeout runWaitCreated_def deleteFromDatabase_def ibind_def
      ilogged_def ion_def io_run fails_def f_wallet_def)

theorem funding_timeout_iff_witness:
  "fst (waitForFundingWithTimeout (demo_oenv False) demo_chan [Epoch 500001, Epoch 500288] demo_w2) = Inr FundingTimeout
   \<and> (\<exists>w'. runWaitCreated (demo_fcfg 5) demo_fenv (demo_oenv False) [Epoch 500001, Epoch 500288] (demo_key 9) [1] demo_chan demo_w2 = (Inr (), w')
       \<and> channels (fm_wallet w') = [])"
proof -
  have "\<not> oc_IsInitiator demo_chan \<and> expires demo_chan [Epoch 500001, Epoch 500288]"
    by (simp add: demo_chan_def expired_def maxWaitNumBlocksFundingConf_def)
  moreover have "oe_RegisterBlockEpochNtfn (demo_oenv False) = None" "fe_CloseChannel demo_fenv demo_chan = None"
    by (simp_all add: demo_oenv_def demo_fenv_def)
  moreover have "channels (fm_wallet demo_w2) = [demo_chan]" by (simp add: demo_w2_def newFundingManager_def)
  ultimately show ?thesis
    using funding_timeout_iff [of "demo_oenv False" demo_fenv demo_chan "[Epoch 500001, Epoch 500288]" demo_w2 "demo_fcfg 5" "demo_key 9" "[1]"]
    by auto
qed

section \<open>The opening states on disk\<close>

text \<open>
  C36. The bucket of opening states behaves as a map from funding outpoints: saving, reading and
  deleting succeed, what was saved last is what is read, with the short channel id back from its
  eight bytes, and nothing else in the database changes.
\<close>

theorem opening_states_refine_map:
  assumes "orepr t S Q" "valid_scid i"
  shows "\<exists>t'. saveChannelOpeningState c st i t = (Inr (), t') \<and> orepr t' (S(c \<mapsto> (st, i))) Q
     \<and> getChannelOpeningState c t' = Inr (st, i) \<and> (\<forall>d. d \<noteq> c \<longrightarrow> getChannelOpeningState d t' = getChannelOpeningState d t)
     \<and> (\<exists>t''. deleteChannelOpeningState c t' = (Inr (), t'') \<and> orepr t'' (S(c := None)) Q \<and> getChannelOpeningState c t'' = Inl ErrChannelNotFound)
     \<and> NewShortChanIDFromInt (ToUint64 i) = i"
proof -
  obtain t' where t': "saveChannelOpeningState c st i t = (Inr (), t')" "orepr t' (S(c \<mapsto> (st, i))) Q"
    using saveChannelOpeningState_run [OF assms, of c st] by blast
  obtain t'' where t'': "deleteChannelOpeningState c t' = (Inr (), t'')" "orepr t'' (S(c := None)) Q"
    using deleteChannelOpeningState_run [OF t'(2), of c] by auto
  show ?thesis
    using t' t'' getChannelOpeningState_run [OF t'(2)] getChannelOpeningState_run [OF t''(2)] getChannelOpeningState_run [OF assms(1)]
      NewShortChanID_ToUint64 [OF assms(2)] by auto
qed

theorem opening_states_refine_map_witness:
  "\<exists>t'. saveChannelOpeningState demo_fpoint addedToRouterGraph demo_scid empty_db = (Inr (), t')
     \<and> getChannelOpeningState demo_fpoint t' = Inr (addedToRouterGraph, demo_scid)"
  using opening_states_refine_map [OF orepr_empty demo_scid_valid, of demo_fpoint addedToRouterGraph] by blast

section \<open>Errors that stop the coordinator\<close>

lemma handleErrorMsg_fails:
  assumes "resCtxOf (newSerializedKey (na_IdentityKey addr)) pid w = Some ctx" "limboRes (rc_reservation ctx) (fm_wallet w) = None"
    and "rc_err ctx = Some n" "fm_errs w n = []" "data \<noteq> []"
  shows "\<exists>w' e. handleErrorMsg pid data addr w = (Inr (), w') \<and> fm_errs w' n = [e]
    \<and> resCtxOf (newSerializedKey (na_IdentityKey addr)) pid w' = Some ctx"
  using assms
  by (cases data) (auto simp: handleErrorMsg_def getReservationCtx_def cancelReservationCtx_def sendErr_def res_Cancel_def limboRes_def f_wallet_def
      ilogged_def ion_def ibind_def io_run Let_def)

lemma handleErrorMsg_blocks:
  assumes "resCtxOf (newSerializedKey (na_IdentityKey addr)) pid w = Some ctx" "rc_err ctx = Some n" "fm_errs w n \<noteq> []" "data \<noteq> []"
  shows "handleErrorMsg pid data addr w = (Inl (GoBlocked ''err''), w)"
  using assms
  by (cases data) (auto simp: handleErrorMsg_def getReservationCtx_def sendErr_def ion_def ibind_def io_run Let_def)

text \<open>
  A peer whose channel we agreed to can stop the coordinator, and with it all channel openings
  of the node: after its \<^verbatim>\<open>FundingCreated\<close> the reservation can no longer be cancelled, so it stays
  registered, a first error message fills the channel for errors that nobody reads, and the second
  one blocks.
\<close>

theorem second_error_blocks:
  fixes addr msg
  defines "peer \<equiv> na_IdentityKey addr" and "pid \<equiv> cm_PendingChannelID msg"
  assumes "holds w peer pid ctx R" "rc_err ctx = Some n" "fm_errs w n = []" "obliging env" "\<And>s. \<exists>g. fc_NewSig cfg s = Inr g"
    and sig: "we_verifyCommitSig (fe_wallet env) (atPoint (cm_FundingPoint msg) R) (fc_ToSignatureBytes cfg (cm_CommitSig msg)) = None"
    and "data1 \<noteq> []" "data2 \<noteq> []"
  shows "\<exists>w1 w2. handleFundingCreated cfg env msg addr w = (Inr (), w1) \<and> handleErrorMsg pid data1 addr w1 = (Inr (), w2)
    \<and> fst (handleErrorMsg pid data2 addr w2) = Inl (GoBlocked ''err'')"
proof -
  note B = obligingD [OF assms(6)]
  obtain sg height where B': "\<And>r. we_signCommitment (fe_wallet env) r = Inr (sg r)" "we_GetBestBlock (fe_wallet env) = Inr height"
    using obligingE [OF assms(6)] by metis
  obtain ns where ns: "\<And>s. fc_NewSig cfg s = Inr (ns s)" using assms(7) by metis
  obtain w1 where w1: "handleFundingCreated cfg env msg addr w = (Inr (), w1)"
      "resCtxOf (newSerializedKey peer) pid w1 = Some (ctx\<lparr>rc_lastUpdated := None\<rparr>)" "limboRes (rc_reservation ctx) (fm_wallet w1) = None"
      "fm_errs w1 = fm_errs w"
    using handleFundingCreated_run [OF assms(3) [unfolded peer_def pid_def] sig B' B(4) ns B(2,3)] unfolding peer_def pid_def by blast
  obtain w2 e where w2: "handleErrorMsg pid data1 addr w1 = (Inr (), w2)" "fm_errs w2 n = [e]"
      "resCtxOf (newSerializedKey peer) pid w2 = Some (ctx\<lparr>rc_lastUpdated := None\<rparr>)"
    using handleErrorMsg_fails [OF w1(2) [unfolded peer_def], of n data1] w1(3,4) assms(4,5,9) by (auto simp: peer_def)
  with handleErrorMsg_blocks [OF w2(3) [unfolded peer_def], of n data2] assms(4,10) w1 show ?thesis by auto
qed

theorem second_error_blocks_witness:
  "\<exists>w1 w2. handleFundingCreated (demo_fcfg 5) demo_fenv demo_created (demo_addr 9) demo_opened = (Inr (), w1)
    \<and> handleErrorMsg (replicate 32 9) [1] (demo_addr 9) w1 = (Inr (), w2)
    \<and> fst (handleErrorMsg (replicate 32 9) [1] (demo_addr 9) w2) = Inl (GoBlocked ''err'')"
proof -
  let ?w = "newFundingManager emptyWallet empty_db"
  have "\<not> isl (NewChannelReservation demo_wenv 100000 0 (ucast (2500 :: u32)) 1 0 7 1)" by code_simp
  then obtain res where res: "NewChannelReservation demo_wenv 100000 0 (ucast (2500 :: u32)) 1 0 7 1 = Inr res" by (metis sum.collapse(2))
  have limits: "sint (100000 :: u64) \<le> sint maxFundingAmount" "checkConstraints 100000 144 483 99000000 1000 1000 = None" by code_simp+
  have ob: "obliging demo_fenv" by (simp add: obliging_def demo_fenv_def demo_wenv_def)
  have sig: "\<exists>g. fc_NewSig (demo_fcfg 5) s = Inr g" for s by (simp add: demo_fcfg_def)
  have opn: "om_FundingAmount demo_open = 100000" "om_ChainHash demo_open = 7" "om_FeePerKiloWeight demo_open = 2500" "om_PushAmount demo_open = 0"
    "om_ChannelFlags demo_open = 1" "om_PendingChannelID demo_open = replicate 32 9" "om_CsvDelay demo_open = 144" "om_MaxAcceptedHTLCs demo_open = 483"
    "om_MaxValueInFlight demo_open = 99000000" "om_HtlcMinimum demo_open = 1000" "om_ChannelReserve demo_open = 1000"
    by (simp_all add: demo_open_def)
  have env: "fe_wallet demo_fenv = demo_wenv" "we_GenesisHash demo_wenv = 7" "fe_IsSynced demo_fenv = Inr True" "fe_SendToPeer demo_fenv p m = None"
    "we_deriveKeys demo_wenv k = Inr (demo_fkeys, demo_key 6)" for p m k
    by (simp_all add: demo_fenv_def demo_wenv_def)
  have start: "nextFundingID (fm_wallet ?w) = 0" "peerReservations k ?w = []" "fm_errs ?w n = []" for k n
    by (simp_all add: newFundingManager_def peerReservations_def)
  have cfg: "fc_MaxPendingChannels (demo_fcfg 5) = 1" by (simp add: demo_fcfg_def)
  have ids: "na_IdentityKey (demo_addr 9) = demo_key 9" "cm_PendingChannelID demo_created = replicate 32 9"
    by (simp_all add: demo_addr_def demo_created_def)
  obtain ctx R n where h: "holds demo_opened (demo_key 9) (replicate 32 9) ctx R" "rc_err ctx = Some n" "fm_errs demo_opened = (\<lambda>_. [])"
    using handleFundingOpen_run [where cfg = "demo_fcfg 5" and env = demo_fenv and msg = demo_open and addr = "demo_addr 9" and w = ?w
        and res = res and keys = demo_fkeys and point = "demo_key 6", unfolded env opn start cfg ids] res limits
    by (auto simp: demo_opened_def)
  show ?thesis
    using second_error_blocks [where w = demo_opened and addr = "demo_addr 9" and msg = demo_created and n = n and ctx = ctx and R = R
        and env = demo_fenv and cfg = "demo_fcfg 5" and ?data1.0 = "[1]" and ?data2.0 = "[1]", unfolded ids, OF h(1,2) _ ob sig] h(3) by (auto simp: demo_fenv_def demo_wenv_def)
qed

section \<open>Two channels on one outpoint\<close>

text \<open>The confirmation of a channel that is stored, when every call succeeds.\<close>

lemma waitForFundingConfirmation_run:
  fixes chan h ix
  defines "i \<equiv> \<lparr>BlockHeight = h, TxIndex = ix, TxPosition = ucast (Index (oc_FundingOutpoint chan))\<rparr>"
    and "c \<equiv> NewChanIDFromOutPoint (oc_FundingOutpoint chan)"
  assumes oe: "\<And>h n b. oe_RegisterConfirmationsNtfn oe h n b = None" "\<And>c. oe_MarkAsOpen oe c = None" "\<And>st. oe_commit oe st = None"
      "\<And>p s. oe_ReportShortChanID oe p s = None" "oe_handover oe"
    and w: "orepr (fm_db w) S Q" "valid_scid i" "chanKey chan \<in> chanKey ` set (channels (fm_wallet w))" "localDiscoverySignals w c = Some n"
  shows "\<exists>w'. waitForFundingConfirmation oe (Confirmed h ix) chan w
      = (if n \<in> set (fm_closedChans w) then Inl (GoPanic ''close of closed channel'') else Inr (Some i), w')
    \<and> orepr (fm_db w') (S(oc_FundingOutpoint chan \<mapsto> (markedOpen, i))) Q \<and> n \<in> set (fm_closedChans w')
    \<and> localDiscoverySignals w' = localDiscoverySignals w \<and> chanKey ` set (channels (fm_wallet w')) = chanKey ` set (channels (fm_wallet w))"
proof -
  let ?p = "oc_FundingOutpoint chan"
  have keys: "chanKey ` set (changeChannel chan (\<lambda>d. d\<lparr>oc_IsPending := False, oc_ShortChanID := s\<rparr>) cs) = chanKey ` set cs" for s cs
    by (induction cs) (auto simp: changeChannel_def chanKey_def)
  obtain t where "saveChannelOpeningState ?p markedOpen i (fm_db w) = (Inr (), t)" "orepr t (S(?p \<mapsto> (markedOpen, i))) Q"
    using saveChannelOpeningState_run [OF w(1,2), of ?p markedOpen] by blast
  then show ?thesis
    using oe w
    by (auto simp: waitForFundingConfirmation_def MarkAsOpen_def saveOpening_def f_Update_def signalDiscovery_def closeChan_def ibind_def io_run
        fails_def f_wallet_def ilogged_def ion_def Let_def i_def [symmetric] c_def [symmetric] keys)
qed

text \<open>
  Two channels on the same funding outpoint, from two peers, share the signal that the opening
  of the channel is known. When the transaction confirms, the goroutine that comes second closes a
  closed channel, which ends the process.
\<close>

theorem shared_outpoint_panics:
  fixes chan1 h ix
  defines "i \<equiv> \<lparr>BlockHeight = h, TxIndex = ix, TxPosition = ucast (Index (oc_FundingOutpoint chan1))\<rparr>"
  assumes "oc_FundingOutpoint chan2 = oc_FundingOutpoint chan1"
    and "\<And>h n b. oe_RegisterConfirmationsNtfn oe h n b = None" "\<And>c. oe_MarkAsOpen oe c = None" "\<And>st. oe_commit oe st = None"
      "\<And>p s. oe_ReportShortChanID oe p s = None" "oe_handover oe"
    and "orepr (fm_db w) S Q" "valid_scid i" "chanKey chan1 \<in> chanKey ` set (channels (fm_wallet w))"
      "chanKey chan2 \<in> chanKey ` set (channels (fm_wallet w))"
      "localDiscoverySignals w (NewChanIDFromOutPoint (oc_FundingOutpoint chan1)) = Some n" "n \<notin> set (fm_closedChans w)"
  shows "\<exists>w' w''. waitForFundingConfirmation oe (Confirmed h ix) chan1 w = (Inr (Some i), w')
    \<and> waitForFundingConfirmation oe (Confirmed h ix) chan2 w' = (Inl (GoPanic ''close of closed channel''), w'')"
proof -
  note run = waitForFundingConfirmation_run [OF assms(3-7)]
  obtain w' where w': "waitForFundingConfirmation oe (Confirmed h ix) chan1 w = (Inr (Some i), w')"
      "orepr (fm_db w') (S(oc_FundingOutpoint chan1 \<mapsto> (markedOpen, i))) Q" "n \<in> set (fm_closedChans w')"
      "localDiscoverySignals w' = localDiscoverySignals w" "chanKey ` set (channels (fm_wallet w')) = chanKey ` set (channels (fm_wallet w))"
    using run [OF assms(8) assms(9) [unfolded i_def] assms(10,12)] assms(13) unfolding i_def by auto
  from run [where w = w' and chan = chan2 and n = n and h = h and ix = ix, OF w'(2)] show ?thesis
    using w' assms(2,9,11,12) unfolding i_def by auto
qed

definition demo_chan' :: OpenChannel where "demo_chan' = demo_chan\<lparr>oc_IdentityPub := demo_key 8\<rparr>"

definition demo_shared :: fundingManager where
  "demo_shared = demo_w2\<lparr>fm_wallet := emptyWallet\<lparr>channels := [demo_chan, demo_chan']\<rparr>, fm_nextChan := 1,
     localDiscoverySignals := [NewChanIDFromOutPoint demo_fpoint \<mapsto> 0]\<rparr>"

theorem shared_outpoint_panics_witness:
  "\<exists>i w' w''. waitForFundingConfirmation (demo_oenv False) (Confirmed 500000 7) demo_chan demo_shared = (Inr (Some i), w')
   \<and> waitForFundingConfirmation (demo_oenv False) (Confirmed 500000 7) demo_chan' w' = (Inl (GoPanic ''close of closed channel''), w'')"
proof -
  have chans: "oc_FundingOutpoint demo_chan = demo_fpoint" "oc_FundingOutpoint demo_chan' = demo_fpoint"
    by (simp_all add: demo_chan_def demo_chan'_def)
  have w: "orepr (fm_db demo_shared) (\<lambda>_. None) (beside_openings empty_db)" "chanKey demo_chan \<in> chanKey ` set (channels (fm_wallet demo_shared))"
    "chanKey demo_chan' \<in> chanKey ` set (channels (fm_wallet demo_shared))"
    "localDiscoverySignals demo_shared (NewChanIDFromOutPoint demo_fpoint) = Some 0" "0 \<notin> set (fm_closedChans demo_shared)"
    using orepr_empty by (simp_all add: demo_shared_def demo_w2_def newFundingManager_def)
  have oe: "oe_RegisterConfirmationsNtfn (demo_oenv False) h n b = None" "oe_MarkAsOpen (demo_oenv False) c = None"
    "oe_commit (demo_oenv False) st = None" "oe_ReportShortChanID (demo_oenv False) p s = None" "oe_handover (demo_oenv False)" for h n b c st p s
    by (simp_all add: demo_oenv_def)
  show ?thesis
    using shared_outpoint_panics [where ?chan1.0 = demo_chan and ?chan2.0 = demo_chan' and h = 500000 and ix = 7 and n = 0, unfolded chans,
        OF _ oe w(1) _ w(2-5)] by (auto simp: valid_scid_def)
qed

end
