(* ===== verification/SwitchLinks.thy ===== *)
theory SwitchLinks
  imports FundingManager
begin

text \<open>
  The links of the HTLC switch (\<^verbatim>\<open>htlcswitch/switch.go\<close>, vendored): the part of the switch that the
  server and the peers call to register a channel and to drop it. A link is named by a number, as
  the code keys one of its maps by the pointer. The switch handles one command at a time.
\<close>

record ChannelLink =
  lk_ref :: nat
  lk_ChanID :: ChannelID
  lk_Peer :: bytes \<comment> \<open>the public key of the peer, 33 bytes\<close>

record Switch =
  linkIndex :: "ChannelID \<rightharpoonup> ChannelLink"
  interfaceIndex :: "bytes \<rightharpoonup> ChannelLink list"
  sw_stoppedLinks :: "nat list"

definition emptySwitch :: Switch where
  "emptySwitch = \<lparr>linkIndex = Map.empty, interfaceIndex = Map.empty, sw_stoppedLinks = []\<rparr>"

definition ErrChannelLinkNotFound :: goerr where
  "ErrChannelLinkNotFound = GoErr ''channel link not found''"

text \<open>The links of the peer of the removed link are all dropped from the interface index.\<close>

definition removeLink :: "ChannelID \<Rightarrow> Switch \<Rightarrow> (goerr + unit) \<times> Switch" where
  "removeLink chanID s =
     (case linkIndex s chanID of None \<Rightarrow> (Inl (ErrChannelLinkNotFound), s)
      | Some link \<Rightarrow>
          (Inr (), s\<lparr>linkIndex := (linkIndex s)(chanID := None),
                   interfaceIndex := (interfaceIndex s)(lk_Peer link := None),
                   sw_stoppedLinks := sw_stoppedLinks s @ [lk_ref link]\<rparr>))"

definition addLink :: "(ChannelLink \<Rightarrow> goerr option) \<Rightarrow> ChannelLink \<Rightarrow> Switch \<Rightarrow> (goerr + unit) \<times> Switch" where
  "addLink link_Start link s =
     (let peerPub = lk_Peer link;
          ls = (case interfaceIndex s peerPub of None \<Rightarrow> [] | Some ls \<Rightarrow> ls);
          s1 = s\<lparr>linkIndex := (linkIndex s)(lk_ChanID link \<mapsto> link),
                 interfaceIndex := (interfaceIndex s)(peerPub \<mapsto> List.insert link ls)\<rparr>
      in case link_Start link of
           Some err \<Rightarrow> (Inl err, snd (removeLink (lk_ChanID link) s1))
         | None \<Rightarrow> (Inr (), s1))"

definition getLink :: "ChannelID \<Rightarrow> Switch \<Rightarrow> goerr + ChannelLink" where
  "getLink chanID s =
     (case linkIndex s chanID of None \<Rightarrow> Inl (ErrChannelLinkNotFound) | Some link \<Rightarrow> Inr link)"

definition getLinks :: "bytes \<Rightarrow> Switch \<Rightarrow> goerr + ChannelLink list" where
  "getLinks destination s =
     (case interfaceIndex s destination of
        None \<Rightarrow> Inl (GoErr ''unable to locate channel link by destination hop id'') | Some ls \<Rightarrow> Inr ls)"

text \<open>A loop of removals whose errors are only logged.\<close>

fun removeLinks :: "ChannelID list \<Rightarrow> Switch \<Rightarrow> Switch" where
  "removeLinks [] s = s"
| "removeLinks (c # cs) s = removeLinks cs (snd (removeLink c s))"

lemma linkIndex_removeLink: "linkIndex (snd (removeLink c s)) = (linkIndex s)(c := None)"
  by (auto simp: removeLink_def split: option.split)

lemma linkIndex_removeLinks:
  "linkIndex (removeLinks cs s) k = (if k \<in> set cs then None else linkIndex s k)"
  by (induction cs arbitrary: s) (auto simp: linkIndex_removeLink)

end
