(* ===== verification/PeerChannels.thy ===== *)
theory PeerChannels
  imports SwitchLinks FundingFlow
begin

text \<open>
  The channels of a peer (\<^verbatim>\<open>src/lnd/peer.go\<close>): loading those of the database when the peer starts,
  taking over new ones from the funding manager, and closing them. A channel is an object that
  the peer, the closer of the channel and its link share, so the channels live in a heap and are
  named by numbers; before the closer of \<^verbatim>\<open>chancloser.go\<close> runs it is given the channel, and after it
  has run the channel is put back.

  The handlers run one at a time in the goroutine \<^verbatim>\<open>channelManager\<close>. Messages that are queued for the
  remote peer, results and updates sent to whoever asked for a close, and the goroutines that wait
  for a closing transaction are kept as histories.
\<close>

section \<open>Data\<close>

record chanObj =
  co_lc :: LightningChannel
  co_RemoteNextRevocation :: "PublicKey option"
  co_ActiveHtlcs :: nat
  co_stopped :: bool

record dbChannel =
  dc_FundingOutpoint :: OutPoint
  dc_IsBorked :: bool

record ChannelEdgePolicy =
  ep_MinHTLC :: u64
  ep_FeeBaseMSat :: u64
  ep_FeeProportionalMillionths :: u64
  ep_TimeLockDelta :: u16

datatype peerMsg = CloseMsg Message | ErrorMsg ChannelID goerr

datatype closeStatus = ClosePending hash | ChanCloseDone hash

datatype closeType = CloseRegular | CloseBreach

record ChanClose =
  rq_CloseType :: closeType
  rq_ChanPoint :: OutPoint
  rq_TargetFeePerKw :: u64
  rq_ref :: nat \<comment> \<open>names the channels of the request\<close>

record peerState =
  ps_pub :: bytes
  ps_heap :: "nat \<rightharpoonup> chanObj"
  ps_nextRef :: nat
  activeChannels :: "ChannelID \<rightharpoonup> nat"
  activeChanCloses :: "ChannelID \<rightharpoonup> channelCloser \<times> nat"
  failedChannels :: "ChannelID set"
  ps_switch :: Switch
  ps_links :: "(ChannelID \<times> ForwardingPolicy \<times> bool) list" \<comment> \<open>links made: their policy, and whether to sync states\<close>
  ps_out :: "peerMsg list"
  ps_errs :: "(nat \<times> goerr) list"
  ps_updates :: "(nat \<times> closeStatus) list"
  ps_done :: "nat list"
  ps_waits :: "(OutPoint \<times> hash \<times> u32 \<times> nat option) list"

record peerEnv =
  pe_close :: chanCloseCfg
  pe_self :: bytes
  pe_routingPolicy :: ForwardingPolicy
  pe_NewLightningChannel :: "dbChannel \<Rightarrow> goerr + chanObj"
  pe_RegisterBlockEpochNtfn :: "goerr option"
  pe_GetBestBlock :: "goerr + u32"
  pe_FetchChannelEdgesByOutpoint ::
    "OutPoint \<Rightarrow> goerr + (bytes \<times> ChannelEdgePolicy option \<times> ChannelEdgePolicy option) option" \<comment> \<open>not found: none\<close>
  pe_SubscribeChannelEvents :: "OutPoint \<Rightarrow> goerr option"
  pe_link_Start :: "ChannelLink \<Rightarrow> goerr option"
  pe_InsertNextRevocation :: "goerr option"
  pe_genDeliveryScript :: "goerr + bytes"
  pe_EstimateFeePerVSize :: "u32 \<Rightarrow> goerr + u64"
  pe_BeginCoopChanClose :: "OutPoint \<Rightarrow> goerr option"

definition newPeerState :: "bytes \<Rightarrow> Switch \<Rightarrow> peerState" where
  "newPeerState pub w = \<lparr>ps_pub = pub, ps_heap = Map.empty, ps_nextRef = 0, activeChannels = Map.empty,
     activeChanCloses = Map.empty, failedChannels = {}, ps_switch = w, ps_links = [], ps_out = [], ps_errs = [],
     ps_updates = [], ps_done = [], ps_waits = []\<rparr>"

section \<open>Channel objects\<close>

definition allocChan :: "chanObj \<Rightarrow> peerState \<Rightarrow> nat \<times> peerState" where
  "allocChan obj p = (ps_nextRef p, p\<lparr>ps_heap := (ps_heap p)(ps_nextRef p \<mapsto> obj), ps_nextRef := Suc (ps_nextRef p)\<rparr>)"

definition updChan :: "nat \<Rightarrow> (chanObj \<Rightarrow> chanObj) \<Rightarrow> peerState \<Rightarrow> peerState" where
  "updChan r f p = p\<lparr>ps_heap := (ps_heap p)(r := map_option f (ps_heap p r))\<rparr>"

definition chan_Stop :: "nat \<Rightarrow> peerState \<Rightarrow> peerState" where
  "chan_Stop r = updChan r (\<lambda>c. c\<lparr>co_stopped := True\<rparr>)"

definition chan_ResetState :: "nat \<Rightarrow> peerState \<Rightarrow> peerState" where
  "chan_ResetState r = updChan r (\<lambda>c. c\<lparr>co_lc := (co_lc c)\<lparr>lc_status := channelOpen\<rparr>\<rparr>)"

definition peerQueue :: "peerMsg \<Rightarrow> peerState \<Rightarrow> peerState" where
  "peerQueue m p = p\<lparr>ps_out := ps_out p @ [m]\<rparr>"

definition tellErr :: "nat option \<Rightarrow> goerr \<Rightarrow> peerState \<Rightarrow> peerState" where
  "tellErr req e p = (case req of None \<Rightarrow> p | Some r \<Rightarrow> p\<lparr>ps_errs := ps_errs p @ [(r, e)]\<rparr>)"

definition tellUpdate :: "nat option \<Rightarrow> closeStatus \<Rightarrow> peerState \<Rightarrow> peerState" where
  "tellUpdate req u p = (case req of None \<Rightarrow> p | Some r \<Rightarrow> p\<lparr>ps_updates := ps_updates p @ [(r, u)]\<rparr>)"

section \<open>Links\<close>

text \<open>Our policy of the channel, as it was advertised, or the default.\<close>

definition forwardingPolicy ::
  "peerEnv \<Rightarrow> (bytes \<times> ChannelEdgePolicy option \<times> ChannelEdgePolicy option) option \<Rightarrow> ForwardingPolicy" where
  "forwardingPolicy env edges =
     (let selfPolicy = (case edges of None \<Rightarrow> None
                        | Some (nodeKey1, p1, p2) \<Rightarrow> if nodeKey1 = pe_self env then p1 else p2)
      in case selfPolicy of None \<Rightarrow> pe_routingPolicy env
         | Some pol \<Rightarrow> \<lparr>fp_MinHTLC = ep_MinHTLC pol, fp_BaseFee = ep_FeeBaseMSat pol,
                       fp_FeeRate = ep_FeeProportionalMillionths pol, fp_TimeLockDelta = ucast (ep_TimeLockDelta pol)\<rparr>)"

definition peer_AddLink ::
  "peerEnv \<Rightarrow> ChannelID \<Rightarrow> nat \<Rightarrow> ForwardingPolicy \<Rightarrow> bool \<Rightarrow> peerState \<Rightarrow> (goerr + unit) \<times> peerState" where
  "peer_AddLink env chanID r policy syncStates p =
     (case addLink (pe_link_Start env) \<lparr>lk_ref = r, lk_ChanID = chanID, lk_Peer = ps_pub p\<rparr> (ps_switch p) of
        (res, w) \<Rightarrow> (res, p\<lparr>ps_switch := w, ps_links := ps_links p @ [(chanID, policy, syncStates)]\<rparr>))"

section \<open>Loading the channels of the database\<close>

text \<open>
  The channel of a database entry, once it has been made and registered with the peer. When it
  cannot be made, the code calls a method of the nil pointer it got.
\<close>

definition startChannel :: "peerEnv \<Rightarrow> dbChannel \<Rightarrow> nat \<Rightarrow> peerState \<Rightarrow> (goerr + unit) \<times> peerState" where
  "startChannel env dbChan r p =
     (let chanPoint = dc_FundingOutpoint dbChan; chanID = NewChanIDFromOutPoint chanPoint;
          failed = (\<lambda>err. (Inl err, chan_Stop r p))
      in if dc_IsBorked dbChan then (Inr (), chan_Stop r p)
         else if chanID \<in> failedChannels p then (Inr (), chan_Stop r p)
         else (case pe_RegisterBlockEpochNtfn env of Some err \<Rightarrow> failed err | None \<Rightarrow>
              (case pe_GetBestBlock env of Inl err \<Rightarrow> failed err | Inr currentHeight \<Rightarrow>
              (case pe_FetchChannelEdgesByOutpoint env chanPoint of Inl err \<Rightarrow> failed err | Inr edges \<Rightarrow>
              (case pe_SubscribeChannelEvents env chanPoint of Some err \<Rightarrow> failed err | None \<Rightarrow>
              (case peer_AddLink env chanID r (forwardingPolicy env edges) True p of
                (Inl err, p1) \<Rightarrow> (Inl err, chan_Stop r p1)
              | (Inr _, p1) \<Rightarrow> (Inr (), p1)))))))"

fun loadActiveChannels :: "peerEnv \<Rightarrow> dbChannel list \<Rightarrow> peerState \<Rightarrow> (goerr + unit) \<times> peerState" where
  "loadActiveChannels env [] p = (Inr (), p)"
| "loadActiveChannels env (dbChan # chans) p =
     (case pe_NewLightningChannel env dbChan of
        Inl err \<Rightarrow> (Inl (GoPanic ''nil pointer dereference''), p)
      | Inr obj \<Rightarrow>
          (case allocChan obj p of (r, p0) \<Rightarrow>
             let p1 = p0\<lparr>activeChannels := (activeChannels p0)(NewChanIDFromOutPoint (dc_FundingOutpoint dbChan) \<mapsto> r)\<rparr>
             in (case startChannel env dbChan r p1 of
                  (Inl err, p2) \<Rightarrow> (Inl err, p2)
                | (Inr _, p2) \<Rightarrow> loadActiveChannels env chans p2)))"

section \<open>New channels\<close>

text \<open>
  A new channel from the funding manager, who waits for \<open>doneChan\<close> to be closed. The channel is
  known already when the other side sent its last message of the funding flow once more.
\<close>

definition handleNewChannel :: "peerEnv \<Rightarrow> chanObj \<Rightarrow> nat \<Rightarrow> peerState \<Rightarrow> peerState" where
  "handleNewChannel env newChan doneChan p =
     (let chanPoint = FundingOutpoint (co_lc newChan); chanID = NewChanIDFromOutPoint chanPoint;
          fin = (\<lambda>p. p\<lparr>ps_done := ps_done p @ [doneChan]\<rparr>)
      in (case allocChan newChan p of (r, p0) \<Rightarrow>
         (case activeChannels p0 chanID of
           Some current \<Rightarrow>
             let p1 = chan_Stop r (fin p0)
             in (case ps_heap p1 current of None \<Rightarrow> p1
                 | Some cur \<Rightarrow>
                     if co_RemoteNextRevocation cur \<noteq> None then p1
                     else if pe_InsertNextRevocation env \<noteq> None then p1
                     else updChan current (\<lambda>c. c\<lparr>co_RemoteNextRevocation := co_RemoteNextRevocation newChan\<rparr>) p1)
         | None \<Rightarrow>
             let p1 = p0\<lparr>activeChannels := (activeChannels p0)(chanID \<mapsto> r)\<rparr>
             in if pe_RegisterBlockEpochNtfn env \<noteq> None then p1
                else (case pe_GetBestBlock env of Inl _ \<Rightarrow> p1 | Inr currentHeight \<Rightarrow>
                     if pe_SubscribeChannelEvents env chanPoint \<noteq> None then p1
                     else fin (snd (peer_AddLink env chanID r (pe_routingPolicy env) False p1))))))"

section \<open>Closing a channel\<close>

text \<open>A step of the closer, on the channel in the heap, with its calls of the switch.\<close>

definition runCloser :: "(channelCloser, 'a) io \<Rightarrow> ChannelID \<Rightarrow> channelCloser \<Rightarrow> nat \<Rightarrow> peerState \<Rightarrow> (goerr + 'a) \<times> peerState" where
  "runCloser m chanID c r p =
     (let c0 = (case ps_heap p r of None \<Rightarrow> c | Some obj \<Rightarrow> c\<lparr>channel := co_lc obj, unregistered := []\<rparr>)
      in case m c0 of (res, c1) \<Rightarrow>
           let p1 = updChan r (\<lambda>obj. obj\<lparr>co_lc := channel c1\<rparr>) p
           in (res, p1\<lparr>activeChanCloses := (activeChanCloses p1)(chanID \<mapsto> (c1, r)),
                       ps_switch := removeLinks (unregistered c1) (ps_switch p1)\<rparr>))"

definition WipeChannel :: "OutPoint \<Rightarrow> peerState \<Rightarrow> (goerr + unit) \<times> peerState" where
  "WipeChannel chanPoint p =
     (let chanID = NewChanIDFromOutPoint chanPoint;
          p1 = (case activeChannels p chanID of None \<Rightarrow> p
                | Some r \<Rightarrow> (chan_Stop r p)\<lparr>activeChannels := (activeChannels p)(chanID := None)\<rparr>)
      in case removeLink chanID (ps_switch p1) of
           (Inl err, w) \<Rightarrow> (if err = ErrChannelLinkNotFound then Inr () else Inl err, p1\<lparr>ps_switch := w\<rparr>)
         | (Inr _, w) \<Rightarrow> (Inr (), p1\<lparr>ps_switch := w\<rparr>))"

definition fetchActiveChanCloser :: "peerEnv \<Rightarrow> ChannelID \<Rightarrow> peerState \<Rightarrow> (goerr + channelCloser \<times> nat) \<times> peerState" where
  "fetchActiveChanCloser env chanID p =
     (case activeChannels p chanID of
        None \<Rightarrow> (Inl (GoErr ''unable to close channel, ChannelID is unknown''), p)
      | Some r \<Rightarrow>
          (case activeChanCloses p chanID of
            Some chanCloser \<Rightarrow> (Inr chanCloser, p)
          | None \<Rightarrow>
              (case ps_heap p r of None \<Rightarrow> (Inl (GoPanic ''nil pointer dereference''), p)
              | Some obj \<Rightarrow>
                  if co_ActiveHtlcs obj \<noteq> 0 then (Inl (GoErr ''cannot co-op close channel w/ active htlcs''), p)
                  else (case pe_genDeliveryScript env of Inl _ \<Rightarrow> (Inl (GoErr ''close addr unavailable''), p)
                  | Inr deliveryAddr \<Rightarrow>
                      (case pe_EstimateFeePerVSize env 6 of Inl _ \<Rightarrow> (Inl (GoErr ''unable to estimate fee''), p)
                      | Inr feePerVSize \<Rightarrow>
                          (case pe_GetBestBlock env of Inl _ \<Rightarrow> (Inl (GoErr ''cannot obtain best block''), p)
                          | Inr startingHeight \<Rightarrow>
                              (case pe_BeginCoopChanClose env (FundingOutpoint (co_lc obj)) of Some err \<Rightarrow> (Inl err, p)
                              | None \<Rightarrow>
                                  let chanCloser = newChannelCloser (co_lc obj) deliveryAddr (FeePerKWeight feePerVSize) startingHeight None
                                  in (Inr (chanCloser, r), p\<lparr>activeChanCloses := (activeChanCloses p)(chanID \<mapsto> (chanCloser, r))\<rparr>))))))))"

text \<open>
  The end of a close: the channel is forgotten, the requester told, and a goroutine waits for the
  closing transaction to confirm.
\<close>

definition finalizeChanClosure :: "peerEnv \<Rightarrow> channelCloser \<Rightarrow> nat \<Rightarrow> peerState \<Rightarrow> (goerr + unit) \<times> peerState" where
  "finalizeChanClosure env c r p =
     (let req = CloseRequest c; chanPoint = FundingOutpoint (channel c)
      in (case WipeChannel chanPoint p of (res, p1) \<Rightarrow>
         let p2 = (case res of Inl err \<Rightarrow> tellErr req err p1 | Inr _ \<Rightarrow> p1);
             p3 = chan_Stop r p2
         in (case ClosingTx c of
              Inl err \<Rightarrow> (Inl (GoPanic ''nil pointer dereference''), tellErr req err p3)
            | Inr None \<Rightarrow> (Inl (GoPanic ''nil pointer dereference''), p3)
            | Inr (Some tx) \<Rightarrow>
                let closingTxid = TxHash (pe_close env) tx;
                    p4 = tellUpdate req (ClosePending closingTxid) p3
                in (Inr (), p4\<lparr>ps_waits := ps_waits p4 @ [(chanPoint, closingTxid, negotiationHeight c, req)]\<rparr>))))"

text \<open>A close message: the closer is fetched or made, and handles the message.\<close>

definition advanceClose ::
  "peerEnv \<Rightarrow> ChannelID \<Rightarrow> Message \<Rightarrow> channelCloser \<Rightarrow> nat \<Rightarrow> peerState \<Rightarrow> (goerr + unit) \<times> peerState" where
  "advanceClose env chanID msg c r p =
     (case runCloser (ProcessCloseMsg (pe_close env) msg) chanID c r p of
        (Inl err, p2) \<Rightarrow>
          if stops err then (Inl err, p2)
          else let p3 = tellErr (CloseRequest c) err (chan_ResetState r p2)
               in (Inr (), p3\<lparr>activeChanCloses := (activeChanCloses p3)(chanID := None)\<rparr>)
      | (Inr (msgs, closeFin), p2) \<Rightarrow>
          let p3 = p2\<lparr>ps_out := ps_out p2 @ map CloseMsg msgs\<rparr>
          in if \<not> closeFin then (Inr (), p3)
             else (case activeChanCloses p3 chanID of None \<Rightarrow> (Inr (), p3)
                  | Some (c', r') \<Rightarrow> finalizeChanClosure env c' r' p3))"

definition handleCloseMsg :: "peerEnv \<Rightarrow> ChannelID \<Rightarrow> Message \<Rightarrow> peerState \<Rightarrow> (goerr + unit) \<times> peerState" where
  "handleCloseMsg env chanID msg p =
     (case fetchActiveChanCloser env chanID p of
        (Inl err, p1) \<Rightarrow> if stops err then (Inl err, p1) else (Inr (), peerQueue (ErrorMsg chanID err) p1)
      | (Inr (c, r), p1) \<Rightarrow> advanceClose env chanID msg c r p1)"

definition handleLocalCloseReq :: "peerEnv \<Rightarrow> ChanClose \<Rightarrow> peerState \<Rightarrow> (goerr + unit) \<times> peerState" where
  "handleLocalCloseReq env req p =
     (let chanID = NewChanIDFromOutPoint (rq_ChanPoint req); fail = (\<lambda>err p. (Inr (), tellErr (Some (rq_ref req)) err p))
      in (case activeChannels p chanID of
           None \<Rightarrow> fail (GoErr ''unable to close channel, ChannelID is unknown'') p
         | Some r \<Rightarrow>
             (case rq_CloseType req of
               CloseRegular \<Rightarrow>
                 (case ps_heap p r of None \<Rightarrow> (Inl (GoPanic ''nil pointer dereference''), p)
                  | Some obj \<Rightarrow>
                      (case pe_genDeliveryScript env of Inl err \<Rightarrow> fail err p
                      | Inr deliveryAddr \<Rightarrow>
                          (case pe_BeginCoopChanClose env (FundingOutpoint (co_lc obj)) of Some err \<Rightarrow> fail err p
                          | None \<Rightarrow>
                              (case pe_GetBestBlock env of Inl err \<Rightarrow> fail err p
                              | Inr startingHeight \<Rightarrow>
                                  let c = newChannelCloser (co_lc obj) deliveryAddr (rq_TargetFeePerKw req) startingHeight (Some (rq_ref req))
                                  in (case runCloser ShutdownChan chanID c r p of
                                       (Inl err, p1) \<Rightarrow>
                                         fail err (chan_ResetState r (p1\<lparr>activeChanCloses := (activeChanCloses p1)(chanID := None)\<rparr>))
                                     | (Inr shutdownMsg, p1) \<Rightarrow> (Inr (), peerQueue (CloseMsg (MsgShutdown shutdownMsg)) p1))))))
             | CloseBreach \<Rightarrow>
                 (case WipeChannel (rq_ChanPoint req) p of
                    (Inl err, p1) \<Rightarrow> fail err p1
                  | (Inr _, p1) \<Rightarrow> (Inr (), p1)))))"

text \<open>The exit of the goroutine: every active channel is put back into its normal state.\<close>

definition channelManager_quit :: "peerState \<Rightarrow> peerState" where
  "channelManager_quit p =
     p\<lparr>ps_heap := (\<lambda>r. if r \<in> ran (activeChannels p)
                       then map_option (\<lambda>c. c\<lparr>co_lc := (co_lc c)\<lparr>lc_status := channelOpen\<rparr>\<rparr>) (ps_heap p r) else ps_heap p r)\<rparr>"

text \<open>The confirmation of a closing transaction: a failing registration is reported, else the requester is told.\<close>

definition waitForChanToClose :: "goerr option \<Rightarrow> bool \<Rightarrow> hash \<Rightarrow> nat option \<Rightarrow> peerState \<Rightarrow> peerState" where
  "waitForChanToClose registered confirmed txid req p =
     (case registered of Some err \<Rightarrow> tellErr req err p
      | None \<Rightarrow> if \<not> confirmed then p else tellUpdate req (ChanCloseDone txid) p)"

end
