(* ===== verification/PeerCloser.thy ===== *)
theory PeerCloser
  imports PeerChannels CloseSafety
begin

text \<open>
  A channel closer as the peer uses it: its calls change nothing of the channel but its status and
  keep request and height; a call that reports the end has finished; and with backends whose calls
  return, its own calls return an error or a result.
\<close>

section \<open>What a closer leaves alone\<close>

text \<open>The channel without its status, which the handlers reset.\<close>

definition plain :: "LightningChannel \<Rightarrow> LightningChannel" where
  "plain lc = lc\<lparr>lc_status := channelOpen\<rparr>"

lemma plain_simps [simp]: "plain (lc\<lparr>lc_status := s\<rparr>) = plain lc" "FundingOutpoint (plain lc) = FundingOutpoint lc"
  by (simp_all add: plain_def)

lemma plain_eqD: "plain a = plain b \<Longrightarrow> a = b\<lparr>lc_status := lc_status a\<rparr>"
  by (cases a, cases b) (simp add: plain_def)

lemma plain_outpoint: "plain a = plain b \<Longrightarrow> FundingOutpoint a = FundingOutpoint b"
  by (metis plain_simps(2))

definition closes_same :: "channelCloser \<Rightarrow> channelCloser \<Rightarrow> bool" where
  "closes_same c0 c \<longleftrightarrow> plain (channel c) = plain (channel c0) \<and> closeReq c = closeReq c0 \<and> negotiationHeight c = negotiationHeight c0"

lemma keeps_imod_same:
  assumes "\<And>c. channel (f c) = channel c" "\<And>c. closeReq (f c) = closeReq c" "\<And>c. negotiationHeight (f c) = negotiationHeight c"
  shows "keeps (closes_same c0) (imod f)"
  using assms by (intro keepsI) (simp add: closes_same_def io_run)

lemma keeps_c_channel:
  assumes "\<And>lc. plain (snd (m lc)) = plain lc"
  shows "keeps (closes_same c0) (c_channel m)"
proof (rule keepsI)
  fix c assume "closes_same c0 c"
  moreover obtain r lc where "m (channel c) = (r, lc)" by (cases "m (channel c)")
  ultimately show "closes_same c0 (snd (c_channel m c))"
    using assms [of "channel c"] by (simp add: closes_same_def c_channel_def)
qed

lemma plain_CreateCloseProposal: "plain (snd (CreateCloseProposal sg h f ls rs lc)) = plain lc"
proof -
  obtain r lc' where "CreateCloseProposal sg h f ls rs lc = (r, lc')" by (cases "CreateCloseProposal sg h f ls rs lc")
  with CreateCloseProposal_channel [OF this] show ?thesis by auto
qed

lemma plain_CompleteCooperativeClose: "plain (snd (CompleteCooperativeClose vm sl sr ls rs f lc)) = plain lc"
proof -
  obtain r lc' where "CompleteCooperativeClose vm sl sr ls rs f lc = (r, lc')"
    by (cases "CompleteCooperativeClose vm sl sr ls rs f lc")
  with CompleteCooperativeClose_channel [OF this] show ?thesis by auto
qed

lemma run_same: "closes_same c0 c \<Longrightarrow> keeps (closes_same c0) m \<Longrightarrow> closes_same c0 (snd (m c))"
  by (simp add: keeps_def)

lemma run_bind:
  assumes "closes_same c0 c" "keeps (closes_same c0) m" "\<And>x. keeps (closes_same c0) (f x)"
  shows "closes_same c0 (snd (ibind m f c))"
  using assms(1) by (rule run_same) (intro keeps_bind assms)

lemmas keeps_closer = keeps_bind keeps_itry keeps_imod_same keeps_c_channel plain_CreateCloseProposal plain_CompleteCooperativeClose

lemma LogPotentialClose_same: "keeps (closes_same c0) (LogPotentialClose s)"
  unfolding LogPotentialClose_def by (rule keeps_imod_same) simp_all

lemma Finalize_same: "keeps (closes_same c0) (Finalize cfg s)"
  unfolding Finalize_def
  by (auto intro!: keeps_closer LogPotentialClose_same split: option.split)

lemma proposeCloseSigned_same: "keeps (closes_same c0) (proposeCloseSigned cfg f)"
proof (rule keepsI)
  fix c assume c: "closes_same c0 c"
  show "closes_same c0 (snd (proposeCloseSigned cfg f c))"
    unfolding proposeCloseSigned_def Let_def
    by (rule run_bind [OF c]) (auto intro!: keeps_closer LogPotentialClose_same)
qed

lemma initChanShutdown_same: "keeps (closes_same c0) initChanShutdown"
  by (rule keepsI) (simp add: initChanShutdown_def closes_same_def)

lemma ShutdownChan_same: "keeps (closes_same c0) ShutdownChan"
proof (rule keepsI)
  fix c assume c: "closes_same c0 c"
  have "closes_same c0 (snd (ibind initChanShutdown (\<lambda>shutdownMsg.
      ibind (imod (\<lambda>c. c\<lparr>state := closeShutdownInitiated\<rparr>)) (\<lambda>_. iret shutdownMsg)) c))"
    by (rule run_bind [OF c]) (auto intro!: keeps_closer initChanShutdown_same)
  then show "closes_same c0 (snd (ShutdownChan c))" using c by (simp add: ShutdownChan_def)
qed

lemma acceptFee_same: "keeps (closes_same c0) (acceptFee cfg m)"
proof (rule keepsI)
  fix c assume c: "closes_same c0 c"
  show "closes_same c0 (snd (acceptFee cfg m c))"
  proof (cases "priorFeeOffers c (FeeSatoshis m)")
    case (Some own)
    then show ?thesis unfolding acceptFee_def Let_def
      by (auto intro!: run_bind [OF c] keeps_closer Finalize_same split: option.split)
  qed (use c in \<open>simp add: acceptFee_def Let_def\<close>)
qed

lemma negotiateFee_same: "keeps (closes_same c0) (negotiateFee cfg m)"
proof (rule keepsI)
  fix c assume c: "closes_same c0 c"
  then have "closes_same c0 (snd (acceptFee cfg m c))" by (rule run_same) (rule acceptFee_same)
  then show "closes_same c0 (snd (negotiateFee cfg m c))" unfolding negotiateFee_def Let_def
    by (auto intro!: run_bind [OF c] keeps_closer proposeCloseSigned_same acceptFee_same)
qed

lemma ProcessCloseMsg_same: "keeps (closes_same c0) (ProcessCloseMsg cfg msg)"
proof (rule keepsI)
  fix c assume c: "closes_same c0 c"
  then have n: "closes_same c0 (snd (negotiateFee cfg m c))" for m by (rule run_same) (rule negotiateFee_same)
  show "closes_same c0 (snd (ProcessCloseMsg cfg msg c))"
    by (cases "state c"; cases msg)
      (auto simp: ProcessCloseMsg_def c n intro!: run_bind [OF c] keeps_closer initChanShutdown_same proposeCloseSigned_same)
qed

section \<open>What a closer returns\<close>

lemma ProcessCloseMsg_finishes:
  assumes "ProcessCloseMsg cfg msg c = (Inr (out, True), d)"
  shows "state d = closeFinished"
proof -
  have neg: "state d = closeFinished" if "negotiateFee cfg m c = (Inr (out, True), d)" for m
  proof -
    have "\<exists>c1. acceptFee cfg m c1 = (Inr (out, True), d)"
      using that by (auto simp: negotiateFee_def Let_def ibind_def io_run split: if_splits prod.splits sum.splits)
    then show ?thesis using acceptFee_any by fastforce
  qed
  show ?thesis
    using assms neg by (cases "state c"; cases msg)
      (auto simp: ProcessCloseMsg_def ibind_def io_run initChanShutdown_def split: if_splits prod.splits sum.splits)
qed

text \<open>Backends whose calls return: they neither panic nor block.\<close>

definition returns :: "goerr option \<Rightarrow> bool" where
  "returns e \<longleftrightarrow> (\<forall>x. e = Some x \<longrightarrow> \<not> stops x)"

definition calm_sum :: "goerr + 'a \<Rightarrow> bool" where
  "calm_sum r \<longleftrightarrow> (\<forall>x. r = Inl x \<longrightarrow> \<not> stops x)"

definition calm_cfg :: "chanCloseCfg \<Rightarrow> bool" where
  "calm_cfg cfg \<longleftrightarrow> (\<forall>tx. returns (broadcastTx cfg tx)) \<and> (\<forall>tx. calm_sum (SignOutputRaw cfg tx)) \<and> (\<forall>tx. returns (vmExecute cfg tx))
     \<and> (\<forall>b. calm_sum (NewSigFromRawSignature cfg b))"

definition calmly :: "('w, 'a) io \<Rightarrow> bool" where
  "calmly m \<longleftrightarrow> (\<forall>w. calm_sum (fst (m w)))"

lemma quiet_pure [simp]: "calmly (iret x)" "calmly (imod f)" "calmly (ilift r) \<longleftrightarrow> calm_sum r" "calmly (ifail e) \<longleftrightarrow> \<not> stops e"
  by (simp_all add: calmly_def calm_sum_def io_run)

lemma quiet_itry: "calmly (itry m)"
  by (simp add: calmly_def itry_def calm_sum_def split: prod.split)

lemma quiet_bind_at:
  assumes "calm_sum (fst (m w))" "\<And>x w'. m w = (Inr x, w') \<Longrightarrow> calm_sum (fst (f x w'))"
  shows "calm_sum (fst (ibind m f w))"
  using assms by (cases "m w"; cases "fst (m w)") (auto simp: ibind_def calm_sum_def)

lemma quiet_bind: "calmly m \<Longrightarrow> (\<And>x. calmly (f x)) \<Longrightarrow> calmly (ibind m f)"
  unfolding calmly_def by (intro allI quiet_bind_at) auto

lemma quiet_c_channel: "calmly m \<Longrightarrow> calmly (c_channel m)"
  unfolding calmly_def c_channel_def by (auto split: prod.split) (metis fst_conv)

lemma checkOutValues_calm: "checkOutValues tot outs = Some e \<Longrightarrow> \<not> stops e"
  by (induction outs arbitrary: tot) (auto simp: Let_def split: if_splits)

lemma CheckTransactionSanity_calm: "CheckTransactionSanity tx = Some e \<Longrightarrow> \<not> stops e"
  by (auto simp: CheckTransactionSanity_def Let_def split: if_splits option.splits dest: checkOutValues_calm)

lemma CreateCloseProposal_quiet:
  "calm_cfg cfg \<Longrightarrow> calmly (CreateCloseProposal (SignOutputRaw cfg) h f ls rs)"
  by (auto simp: calmly_def calm_cfg_def CreateCloseProposal_def calm_sum_def Let_def
      split: option.split sum.split dest: CheckTransactionSanity_calm)

lemma CompleteCooperativeClose_quiet:
  "calm_cfg cfg \<Longrightarrow> calmly (CompleteCooperativeClose (vmExecute cfg) sl sr ls rs f)"
  by (auto simp: calmly_def calm_cfg_def CompleteCooperativeClose_def calm_sum_def returns_def Let_def
      split: option.split dest: CheckTransactionSanity_calm)

lemma proposeCloseSigned_quiet:
  assumes "calm_cfg cfg"
  shows "calmly (proposeCloseSigned cfg f)"
proof -
  have "calm_sum (NewSigFromRawSignature cfg b)" for b using assms by (simp add: calm_cfg_def)
  then have "calmly (\<lambda>c'. ibind (c_channel (CreateCloseProposal (SignOutputRaw cfg) (TxHash cfg) f
              (localDeliveryScript c) (remoteDeliveryScript c))) (\<lambda>(rawSig, txid, localAmt).
     ibind (imod (\<lambda>c. c\<lparr>lastFeeProposal := f\<rparr>)) (\<lambda>_.
     ibind (ilift (NewSigFromRawSignature cfg rawSig)) (\<lambda>parsedSig.
     let closeSignedMsg = \<lparr>cs_ChannelID = cid c, FeeSatoshis = f, Signature = parsedSig\<rparr> in
     ibind (imod (\<lambda>c. c\<lparr>priorFeeOffers := (priorFeeOffers c)(f \<mapsto> closeSignedMsg)\<rparr>)) (\<lambda>_.
     ibind (LogPotentialClose (closeSummary c txid localAmt)) (\<lambda>_.
       iret closeSignedMsg))))) c')" for c
    using CreateCloseProposal_quiet [OF assms]
    by (auto intro!: quiet_bind quiet_c_channel simp: LogPotentialClose_def Let_def)
  then show ?thesis unfolding proposeCloseSigned_def calmly_def by blast
qed

lemma acceptFee_quiet:
  assumes "calm_cfg cfg" "priorFeeOffers c (FeeSatoshis m) \<noteq> None"
  shows "calm_sum (fst (acceptFee cfg m c))"
proof -
  obtain own where own: "priorFeeOffers c (FeeSatoshis m) = Some own" using assms(2) by blast
  have b: "calmly (case broadcastTx cfg tx of Some e \<Rightarrow> ifail e | None \<Rightarrow> imod g)" for tx g
    using assms(1) by (auto simp: calm_cfg_def returns_def split: option.split)
  have "calmly (\<lambda>c'. ibind (c_channel (CompleteCooperativeClose (vmExecute cfg) (ToSignatureBytes cfg (Signature own) @ [1])
       (ToSignatureBytes cfg (Signature m) @ [1]) (localDeliveryScript c) (remoteDeliveryScript c) (FeeSatoshis m)))
     (\<lambda>(closeTx, finalLocalBalance).
       ibind (imod (\<lambda>c. c\<lparr>closingTx := Some closeTx\<rparr>)) (\<lambda>_.
       ibind (case broadcastTx cfg closeTx of Some e \<Rightarrow> ifail e
              | None \<Rightarrow> imod (\<lambda>c. c\<lparr>broadcasts := broadcasts c @ [closeTx]\<rparr>)) (\<lambda>_.
       ibind (itry (Finalize cfg (closeSummary c (TxHash cfg closeTx) finalLocalBalance))) (\<lambda>_.
       ibind (imod (\<lambda>c. c\<lparr>state := closeFinished\<rparr>)) (\<lambda>_.
         iret ([MsgClosingSigned own], True)))))) c')"
    using CompleteCooperativeClose_quiet [OF assms(1)] by (auto intro!: quiet_bind quiet_c_channel quiet_itry b)
  then show ?thesis unfolding acceptFee_def Let_def own by (simp add: calmly_def)
qed

lemma negotiateFee_quiet:
  assumes "calm_cfg cfg"
  shows "calm_sum (fst (negotiateFee cfg m c))"
proof (cases "priorFeeOffers c (FeeSatoshis m) = None")
  case False
  with acceptFee_quiet [OF assms] show ?thesis by (simp add: negotiateFee_def Let_def)
next
  case True
  define f where "f = calcCompromiseFee (idealFeeSat c) (lastFeeProposal c) (FeeSatoshis m)"
  have "calm_sum (fst (ibind (proposeCloseSigned cfg f) (\<lambda>closeSigned.
      if f \<noteq> FeeSatoshis m then iret ([MsgClosingSigned closeSigned], False) else acceptFee cfg m) c))"
  proof (rule quiet_bind_at)
    show "calm_sum (fst (proposeCloseSigned cfg f c))" using proposeCloseSigned_quiet [OF assms] by (simp add: calmly_def)
    fix x d assume "proposeCloseSigned cfg f c = (Inr x, d)"
    from proposeCloseSigned_any [OF this] have "priorFeeOffers d f \<noteq> None" by simp
    then show "calm_sum (fst ((if f \<noteq> FeeSatoshis m then iret ([MsgClosingSigned x], False) else acceptFee cfg m) d))"
      using acceptFee_quiet [OF assms, of d m] by (auto simp: io_run calm_sum_def [of "Inr _"])
  qed
  with True show ?thesis by (simp add: negotiateFee_def Let_def f_def)
qed

lemma ProcessCloseMsg_quiet:
  assumes "calm_cfg cfg"
  shows "calm_sum (fst (ProcessCloseMsg cfg msg c))"
proof -
  have i: "calmly initChanShutdown" by (simp add: calmly_def initChanShutdown_def calm_sum_def)
  have q: "calmly m \<Longrightarrow> (\<And>x. calmly (f x)) \<Longrightarrow> calm_sum (fst (ibind m f c))" for m :: "(channelCloser, 'a) io" and f :: "'a \<Rightarrow> (channelCloser, 'b) io"
    using quiet_bind [of m f] by (simp add: calmly_def)
  show ?thesis
    using negotiateFee_quiet [OF assms] proposeCloseSigned_quiet [OF assms]
    by (cases "state c"; cases msg)
      (auto simp: ProcessCloseMsg_def calm_sum_def [of "Inl _"] calm_sum_def [of "Inr _"] intro!: q quiet_bind i)
qed

end
