(* ===== verification/PeerSystem.thy ===== *)
theory PeerSystem
  imports PeerCloser
begin

text \<open>
  The channels of a peer over time: the goroutine \<^verbatim>\<open>channelManager\<close> handles new channels, requests to
  close and close messages in any order and with backends that answer anything, while the reader
  marks channels as failed and other goroutines change the switch. The invariant: an active channel
  is the one of its id, a closer works on the channel of its id, and a link of the peer runs its
  active channel.
\<close>

section \<open>The invariant\<close>

abbreviation chanIDOf :: "LightningChannel \<Rightarrow> ChannelID" where
  "chanIDOf lc \<equiv> NewChanIDFromOutPoint (FundingOutpoint lc)"

definition chanOf :: "peerState \<Rightarrow> nat \<Rightarrow> LightningChannel option" where
  "chanOf p r = map_option (\<lambda>obj. plain (co_lc obj)) (ps_heap p r)"

definition heap_ok :: "peerState \<Rightarrow> bool" where
  "heap_ok p \<longleftrightarrow> (\<forall>r. chanOf p r \<noteq> None \<longrightarrow> r < ps_nextRef p)"

definition active_ok :: "peerState \<Rightarrow> bool" where
  "active_ok p \<longleftrightarrow> (\<forall>k r. activeChannels p k = Some r \<longrightarrow> (\<exists>lc. chanOf p r = Some lc \<and> chanIDOf lc = k))"

definition closers_ok :: "(MsgTx \<Rightarrow> hash) \<Rightarrow> peerState \<Rightarrow> bool" where
  "closers_ok h p \<longleftrightarrow> (\<forall>k c r. activeChanCloses p k = Some (c, r) \<longrightarrow>
     chanOf p r = Some (plain (channel c)) \<and> chanIDOf (channel c) = k \<and> closer_inv h c)"

definition links_ok :: "peerState \<Rightarrow> bool" where
  "links_ok p \<longleftrightarrow> (\<forall>k l. linkIndex (ps_switch p) k = Some l \<longrightarrow> lk_Peer l = ps_pub p \<longrightarrow> activeChannels p k = Some (lk_ref l))"

definition peer_ok :: "(MsgTx \<Rightarrow> hash) \<Rightarrow> peerState \<Rightarrow> bool" where
  "peer_ok h p \<longleftrightarrow> heap_ok p \<and> active_ok p \<and> closers_ok h p \<and> links_ok p"

lemmas peer_ok_defs = peer_ok_def heap_ok_def active_ok_def closers_ok_def links_ok_def

text \<open>The parts of the state that the invariant reads.\<close>

lemma peer_ok_cong:
  assumes "chanOf q = chanOf p" "ps_nextRef q = ps_nextRef p" "activeChannels q = activeChannels p"
    "activeChanCloses q = activeChanCloses p" "linkIndex (ps_switch q) = linkIndex (ps_switch p)" "ps_pub q = ps_pub p"
  shows "peer_ok h q = peer_ok h p"
  using assms by (simp add: peer_ok_defs)

lemma chanOf_simps [simp]:
  "chanOf (p\<lparr>activeChannels := a\<rparr>) = chanOf p" "chanOf (p\<lparr>activeChanCloses := b\<rparr>) = chanOf p"
  "chanOf (p\<lparr>ps_switch := w\<rparr>) = chanOf p" "chanOf (p\<lparr>ps_links := l\<rparr>) = chanOf p" "chanOf (p\<lparr>ps_out := m\<rparr>) = chanOf p"
  "chanOf (p\<lparr>ps_errs := e\<rparr>) = chanOf p" "chanOf (p\<lparr>ps_updates := u\<rparr>) = chanOf p" "chanOf (p\<lparr>ps_done := d\<rparr>) = chanOf p"
  "chanOf (p\<lparr>ps_waits := ws\<rparr>) = chanOf p" "chanOf (p\<lparr>failedChannels := fs\<rparr>) = chanOf p" "chanOf (p\<lparr>ps_nextRef := n\<rparr>) = chanOf p"
  by (simp_all add: chanOf_def fun_eq_iff)

lemma chanOf_updChan:
  "(\<And>obj. ps_heap p r = Some obj \<Longrightarrow> plain (co_lc (f obj)) = plain (co_lc obj)) \<Longrightarrow> chanOf (updChan r f p) = chanOf p"
  by (auto simp: chanOf_def updChan_def fun_eq_iff map_option_case split: option.split)

lemma updChan_frame [simp]:
  "ps_nextRef (updChan r f p) = ps_nextRef p" "activeChannels (updChan r f p) = activeChannels p"
  "activeChanCloses (updChan r f p) = activeChanCloses p" "ps_switch (updChan r f p) = ps_switch p"
  "ps_pub (updChan r f p) = ps_pub p" "ps_waits (updChan r f p) = ps_waits p" "ps_updates (updChan r f p) = ps_updates p"
  "ps_done (updChan r f p) = ps_done p" "ps_out (updChan r f p) = ps_out p" "ps_errs (updChan r f p) = ps_errs p"
  "failedChannels (updChan r f p) = failedChannels p"
  by (simp_all add: updChan_def)

lemma chanOf_Stop [simp]: "chanOf (chan_Stop r p) = chanOf p" "chanOf (chan_ResetState r p) = chanOf p"
  unfolding chan_Stop_def chan_ResetState_def by (rule chanOf_updChan, simp)+

lemma chan_Stop_frame [simp]:
  "ps_nextRef (chan_Stop r p) = ps_nextRef p" "activeChannels (chan_Stop r p) = activeChannels p"
  "activeChanCloses (chan_Stop r p) = activeChanCloses p" "ps_switch (chan_Stop r p) = ps_switch p"
  "ps_pub (chan_Stop r p) = ps_pub p" "ps_waits (chan_Stop r p) = ps_waits p" "ps_updates (chan_Stop r p) = ps_updates p"
  "ps_done (chan_Stop r p) = ps_done p" "failedChannels (chan_Stop r p) = failedChannels p"
  by (simp_all add: chan_Stop_def)

lemma chan_ResetState_frame [simp]:
  "ps_nextRef (chan_ResetState r p) = ps_nextRef p" "activeChannels (chan_ResetState r p) = activeChannels p"
  "activeChanCloses (chan_ResetState r p) = activeChanCloses p" "ps_switch (chan_ResetState r p) = ps_switch p"
  "ps_pub (chan_ResetState r p) = ps_pub p"
  by (simp_all add: chan_ResetState_def)

lemma tell_frame [simp]:
  "ps_nextRef (tellErr req e p) = ps_nextRef p" "activeChannels (tellErr req e p) = activeChannels p"
  "activeChanCloses (tellErr req e p) = activeChanCloses p" "ps_switch (tellErr req e p) = ps_switch p"
  "ps_pub (tellErr req e p) = ps_pub p" "chanOf (tellErr req e p) = chanOf p" "ps_waits (tellErr req e p) = ps_waits p"
  "ps_updates (tellErr req e p) = ps_updates p" "ps_heap (tellErr req e p) = ps_heap p"
  "ps_nextRef (tellUpdate req u p) = ps_nextRef p" "activeChannels (tellUpdate req u p) = activeChannels p"
  "activeChanCloses (tellUpdate req u p) = activeChanCloses p" "ps_switch (tellUpdate req u p) = ps_switch p"
  "ps_pub (tellUpdate req u p) = ps_pub p" "chanOf (tellUpdate req u p) = chanOf p" "ps_waits (tellUpdate req u p) = ps_waits p"
  "ps_heap (tellUpdate req u p) = ps_heap p"
  by (simp_all add: tellErr_def tellUpdate_def split: option.split)

lemma peer_ok_frame [simp]:
  "peer_ok h (p\<lparr>ps_out := m\<rparr>) = peer_ok h p" "peer_ok h (p\<lparr>ps_done := d\<rparr>) = peer_ok h p"
  "peer_ok h (p\<lparr>ps_waits := ws\<rparr>) = peer_ok h p" "peer_ok h (p\<lparr>failedChannels := fs\<rparr>) = peer_ok h p"
  "peer_ok h (p\<lparr>ps_links := ls\<rparr>) = peer_ok h p"
  "peer_ok h (chan_Stop r p) = peer_ok h p" "peer_ok h (chan_ResetState r p) = peer_ok h p"
  "peer_ok h (tellErr req e p) = peer_ok h p" "peer_ok h (tellUpdate req u p) = peer_ok h p"
  by (rule peer_ok_cong; simp)+

section \<open>Every operation keeps it\<close>

text \<open>Links: the peer adds one for an active channel, everyone may remove some.\<close>

lemma linkIndex_addLink:
  "linkIndex (snd (addLink st l w)) k = Some l' \<Longrightarrow> (k = lk_ChanID l \<and> l' = l) \<or> linkIndex w k = Some l'"
  by (auto simp: addLink_def removeLink_def Let_def split: option.splits if_splits)

lemma peer_ok_fewer_links:
  assumes "peer_ok h p" "\<And>k l. linkIndex w k = Some l \<Longrightarrow> lk_Peer l = ps_pub p \<Longrightarrow> linkIndex (ps_switch p) k = Some l"
  shows "peer_ok h (p\<lparr>ps_switch := w\<rparr>)"
  using assms unfolding peer_ok_defs by simp

lemma peer_ok_AddLink:
  assumes "peer_ok h p" "activeChannels p k = Some r"
  shows "peer_ok h (snd (peer_AddLink env k r policy sync p))"
proof -
  obtain res w where a: "addLink (pe_link_Start env) \<lparr>lk_ref = r, lk_ChanID = k, lk_Peer = ps_pub p\<rparr> (ps_switch p) = (res, w)"
    by (cases "addLink (pe_link_Start env) \<lparr>lk_ref = r, lk_ChanID = k, lk_Peer = ps_pub p\<rparr> (ps_switch p)")
  have "links_ok (p\<lparr>ps_switch := w\<rparr>)"
    unfolding links_ok_def
  proof (intro allI impI)
    fix j l assume l: "linkIndex (ps_switch (p\<lparr>ps_switch := w\<rparr>)) j = Some l" "lk_Peer l = ps_pub (p\<lparr>ps_switch := w\<rparr>)"
    have "(j = k \<and> lk_ref l = r) \<or> linkIndex (ps_switch p) j = Some l"
      using linkIndex_addLink [of "pe_link_Start env" "\<lparr>lk_ref = r, lk_ChanID = k, lk_Peer = ps_pub p\<rparr>" "ps_switch p" j l] l(1) a by auto
    then show "activeChannels (p\<lparr>ps_switch := w\<rparr>) j = Some (lk_ref l)"
      using assms l(2) unfolding peer_ok_defs by auto
  qed
  then have "peer_ok h (p\<lparr>ps_switch := w\<rparr>)" using assms(1) by (simp add: peer_ok_def heap_ok_def active_ok_def closers_ok_def)
  with a show ?thesis by (simp add: peer_AddLink_def)
qed

lemma activeChannels_AddLink [simp]: "activeChannels (snd (peer_AddLink env k r policy sync p)) = activeChannels p"
  by (simp add: peer_AddLink_def split: prod.split)

text \<open>A new channel under its own id, which is not active yet.\<close>

lemma peer_ok_alloc: "peer_ok h p \<Longrightarrow> peer_ok h (snd (allocChan obj p))"
  unfolding peer_ok_defs allocChan_def chanOf_def
  by (auto simp: less_Suc_eq) (metis less_irrefl option.distinct(1))+

lemma peer_ok_activate:
  assumes "peer_ok h p" "activeChannels p k = None" "chanOf p r = Some lc" "chanIDOf lc = k"
  shows "peer_ok h (p\<lparr>activeChannels := (activeChannels p)(k \<mapsto> r)\<rparr>)"
proof -
  have "linkIndex (ps_switch p) k = Some l \<Longrightarrow> lk_Peer l \<noteq> ps_pub p" for l
    using assms(1,2) unfolding peer_ok_defs by (metis option.distinct(1))
  with assms show ?thesis unfolding peer_ok_defs by auto
qed

lemma alloc_facts:
  assumes "allocChan obj p = (r, p0)"
  shows "activeChannels p0 = activeChannels p" "chanOf p0 r = Some (plain (co_lc obj))" "ps_done p0 = ps_done p"
    "ps_switch p0 = ps_switch p" "ps_pub p0 = ps_pub p" "failedChannels p0 = failedChannels p" "r = ps_nextRef p"
  using assms by (auto simp: allocChan_def chanOf_def)

lemma peer_ok_new:
  assumes "peer_ok h p" "allocChan obj p = (r, p0)" "activeChannels p k = None" "chanIDOf (co_lc obj) = k"
  shows "peer_ok h (p0\<lparr>activeChannels := (activeChannels p0)(k \<mapsto> r)\<rparr>)"
proof (rule peer_ok_activate)
  show "peer_ok h p0" using peer_ok_alloc [OF assms(1), of obj] assms(2) by simp
  show "chanIDOf (plain (co_lc obj)) = k" using assms(4) by simp
qed (use assms alloc_facts [OF assms(2)] in simp_all)

lemma peer_ok_handleNewChannel:
  assumes "peer_ok h p"
  shows "peer_ok h (handleNewChannel env newChan doneChan p)"
proof -
  let ?k = "chanIDOf (co_lc newChan)"
  obtain r p0 where a: "allocChan newChan p = (r, p0)" by (cases "allocChan newChan p")
  have ok0: "peer_ok h p0" using peer_ok_alloc [OF assms, of newChan] a by simp
  have revoke: "peer_ok h q \<Longrightarrow> peer_ok h (updChan cur (\<lambda>c. c\<lparr>co_RemoteNextRevocation := x\<rparr>) q)" for q cur x
  proof -
    have "chanOf (updChan cur (\<lambda>c. c\<lparr>co_RemoteNextRevocation := x\<rparr>) q) = chanOf q" by (rule chanOf_updChan) simp
    then have "peer_ok h (updChan cur (\<lambda>c. c\<lparr>co_RemoteNextRevocation := x\<rparr>) q) = peer_ok h q" by (intro peer_ok_cong) simp_all
    then show "peer_ok h q \<Longrightarrow> ?thesis" by simp
  qed
  show ?thesis
  proof (cases "activeChannels p0 ?k")
    case None
    with alloc_facts [OF a] have "activeChannels p ?k = None" by simp
    from peer_ok_new [OF assms a this refl] None show ?thesis
      by (auto simp: handleNewChannel_def a Let_def intro!: peer_ok_AddLink split: sum.split)
  next
    case (Some cur)
    with ok0 show ?thesis by (auto simp: handleNewChannel_def a Let_def intro!: revoke split: option.split)
  qed
qed

text \<open>
  Loading: \<open>NewLightningChannel\<close> makes the channel of the database entry it is given, and the
  entries have different ids, none of them active.
\<close>

abbreviation chanIDs :: "dbChannel list \<Rightarrow> ChannelID list" where
  "chanIDs chans \<equiv> map (\<lambda>c. NewChanIDFromOutPoint (dc_FundingOutpoint c)) chans"

definition loads_ok :: "peerEnv \<Rightarrow> bool" where
  "loads_ok env \<longleftrightarrow> (\<forall>c obj. pe_NewLightningChannel env c = Inr obj \<longrightarrow> FundingOutpoint (co_lc obj) = dc_FundingOutpoint c)"

lemma peer_ok_startChannel:
  assumes "peer_ok h p" "activeChannels p (NewChanIDFromOutPoint (dc_FundingOutpoint c)) = Some r"
  shows "peer_ok h (snd (startChannel env c r p))" "activeChannels (snd (startChannel env c r p)) = activeChannels p"
proof -
  let ?l = "\<lambda>edges. peer_AddLink env (NewChanIDFromOutPoint (dc_FundingOutpoint c)) r (forwardingPolicy env edges) True p"
  have l: "peer_ok h (snd (?l edges))" for edges by (rule peer_ok_AddLink [OF assms])
  have s: "\<And>res q. ?l edges = (res, q) \<Longrightarrow> peer_ok h q \<and> activeChannels q = activeChannels p" for edges
    using l [of edges] activeChannels_AddLink by (metis snd_conv)
  show "peer_ok h (snd (startChannel env c r p))" "activeChannels (snd (startChannel env c r p)) = activeChannels p"
    using assms(1) by (auto simp: startChannel_def Let_def split: option.split sum.split prod.split dest!: s)
qed

lemma peer_ok_load:
  assumes "peer_ok h p" "loads_ok env" "distinct (chanIDs chans)" "\<forall>k \<in> set (chanIDs chans). activeChannels p k = None"
  shows "peer_ok h (snd (loadActiveChannels env chans p))"
  using assms
proof (induction chans arbitrary: p)
  case (Cons c chans)
  let ?k = "NewChanIDFromOutPoint (dc_FundingOutpoint c)"
  show ?case
  proof (cases "pe_NewLightningChannel env c")
    case (Inr obj)
    obtain r p0 where a: "allocChan obj p = (r, p0)" by (cases "allocChan obj p")
    define p1 where "p1 = p0\<lparr>activeChannels := (activeChannels p0)(?k \<mapsto> r)\<rparr>"
    have "chanIDOf (co_lc obj) = ?k" using Cons.prems(2) Inr by (simp add: loads_ok_def)
    with Cons.prems have ok1: "peer_ok h p1" unfolding p1_def by (intro peer_ok_new [OF _ a]) simp_all
    have act1: "activeChannels p1 ?k = Some r" by (simp add: p1_def)
    obtain res p2 where s: "startChannel env c r p1 = (res, p2)" by (cases "startChannel env c r p1")
    have ok2: "peer_ok h p2" "activeChannels p2 = activeChannels p1" using peer_ok_startChannel [OF ok1 act1, of env] s by simp_all
    have "\<forall>k \<in> set (chanIDs chans). activeChannels p2 k = None"
      using Cons.prems(3,4) alloc_facts(1) [OF a] by (auto simp: ok2(2) p1_def) (metis imageI)
    then have "peer_ok h (snd (loadActiveChannels env chans p2))" using Cons.IH [OF ok2(1) Cons.prems(2)] Cons.prems(3) by simp
    with ok2(1) Inr a s show ?thesis by (cases res) (simp_all add: p1_def Let_def)
  qed (use Cons.prems in simp)
qed simp

lemma peer_ok_fresh:
  "(\<And>k l. linkIndex w k = Some l \<Longrightarrow> lk_Peer l \<noteq> pub) \<Longrightarrow> peer_ok h (newPeerState pub w)"
  by (auto simp: peer_ok_defs newPeerState_def chanOf_def)

section \<open>Closing\<close>

lemma closer_inv_cong:
  assumes "closer_inv h c" "plain (channel d) = plain (channel c)" "localDeliveryScript d = localDeliveryScript c"
    "remoteDeliveryScript d = remoteDeliveryScript c" "priorFeeOffers d = priorFeeOffers c" "activeCloses d = activeCloses c"
    "state d = state c" "broadcasts d = broadcasts c" "closingTx d = closingTx c"
  shows "closer_inv h d"
proof -
  have "rawTx d = rawTx c" using plain_eqD [OF assms(2)] assms(3,4) by (rule rawTx_cong)
  with assms show ?thesis by (simp add: closer_inv_def offers_ok_def watched_def early_def)
qed

text \<open>A closer that the peer may run: its channel is the one in the heap.\<close>

definition runs_on :: "(MsgTx \<Rightarrow> hash) \<Rightarrow> peerState \<Rightarrow> ChannelID \<Rightarrow> channelCloser \<Rightarrow> nat \<Rightarrow> bool" where
  "runs_on h p k c r \<longleftrightarrow> chanOf p r = Some (plain (channel c)) \<and> chanIDOf (channel c) = k \<and> closer_inv h c"

lemma runs_on_active: "peer_ok h p \<Longrightarrow> activeChanCloses p k = Some (c, r) \<Longrightarrow> runs_on h p k c r"
  unfolding peer_ok_defs runs_on_def by blast

lemma peer_ok_put_closer:
  assumes "peer_ok h p" "runs_on h p k c r"
  shows "peer_ok h (p\<lparr>activeChanCloses := (activeChanCloses p)(k \<mapsto> (c, r))\<rparr>)"
  using assms unfolding peer_ok_defs runs_on_def by auto

lemma peer_ok_drop_closer: "peer_ok h p \<Longrightarrow> peer_ok h (p\<lparr>activeChanCloses := (activeChanCloses p)(k := None)\<rparr>)"
  unfolding peer_ok_defs by auto

definition closer_call :: "(MsgTx \<Rightarrow> hash) \<Rightarrow> (channelCloser, 'a) io \<Rightarrow> bool" where
  "closer_call h m \<longleftrightarrow> (\<forall>c0. keeps (closes_same c0) m) \<and> (\<forall>c0 res d. closer_inv h c0 \<longrightarrow> m c0 = (res, d) \<longrightarrow> closer_inv h d)"

lemma closer_call_message: "TxHash cfg = h \<Longrightarrow> closer_call h (ProcessCloseMsg cfg msg)"
  unfolding closer_call_def using ProcessCloseMsg_same ProcessCloseMsg_inv by blast

lemma closer_call_shutdown: "closer_call h ShutdownChan"
  unfolding closer_call_def using ShutdownChan_same closer_step_inv [OF closer_step.shutdown] by blast

lemma runCloser_ok:
  assumes ok: "peer_ok h p" and c: "runs_on h p k c r" and call: "closer_call h m"
    and run: "runCloser m k c r p = (res, q)"
  shows "peer_ok h q \<and> activeChannels q = activeChannels p \<and> ps_waits q = ps_waits p \<and> ps_updates q = ps_updates p \<and> (\<exists>c0 d.
     m c0 = (res, d) \<and> activeChanCloses q k = Some (d, r) \<and> runs_on h q k d r \<and> closeReq d = closeReq c
       \<and> negotiationHeight d = negotiationHeight c)"
proof -
  obtain obj where obj: "ps_heap p r = Some obj" "plain (co_lc obj) = plain (channel c)"
    using c by (auto simp: runs_on_def chanOf_def)
  define c0 where "c0 = c\<lparr>channel := co_lc obj, unregistered := []\<rparr>"
  have c0: "closer_inv h c0" using c obj(2) unfolding c0_def runs_on_def by - (rule closer_inv_cong [of h c], simp_all)
  obtain res' d where d: "m c0 = (res', d)" by (cases "m c0")
  have q: "res' = res" "q = (updChan r (\<lambda>obj. obj\<lparr>co_lc := channel d\<rparr>) p)\<lparr>activeChanCloses := (activeChanCloses p)(k \<mapsto> (d, r)),
      ps_switch := removeLinks (unregistered d) (ps_switch p)\<rparr>"
    using run d obj(1) by (simp_all add: runCloser_def c0_def Let_def)
  have "closes_same c0 d" using run_same [of c0 c0 m] call d by (simp add: closes_same_def closer_call_def)
  then have d_same: "plain (channel d) = plain (channel c)" "closeReq d = closeReq c" "negotiationHeight d = negotiationHeight c"
    using obj(2) by (simp_all add: closes_same_def c0_def)
  let ?p1 = "updChan r (\<lambda>obj. obj\<lparr>co_lc := channel d\<rparr>) p"
  have heap: "chanOf ?p1 = chanOf p" using obj d_same(1) by (intro chanOf_updChan) auto
  then have ok1: "peer_ok h ?p1" using ok by (simp add: peer_ok_cong [of ?p1 p])
  have on: "runs_on h ?p1 k d r"
    using c d_same(1) plain_outpoint [OF d_same(1)] c0 call heap d by (auto simp: runs_on_def closer_call_def)
  have "peer_ok h (?p1\<lparr>activeChanCloses := (activeChanCloses p)(k \<mapsto> (d, r))\<rparr>)" using peer_ok_put_closer [OF ok1 on] by simp
  then have "peer_ok h q" unfolding q(2)
    by (rule peer_ok_fewer_links) (simp_all add: linkIndex_removeLinks split: if_splits)
  moreover have "runs_on h q k d r" using on by (simp add: runs_on_def q(2))
  ultimately show ?thesis using d d_same(2,3) by (auto simp: q)
qed

lemma WipeChannel_ok:
  assumes "peer_ok h p" "WipeChannel op p = (res, q)"
  shows "peer_ok h q \<and> res = Inr () \<and> activeChannels q = (activeChannels p)(NewChanIDFromOutPoint op := None)
     \<and> linkIndex (ps_switch q) (NewChanIDFromOutPoint op) = None \<and> activeChanCloses q = activeChanCloses p
     \<and> ps_waits q = ps_waits p \<and> ps_updates q = ps_updates p \<and> chanOf q = chanOf p"
proof -
  let ?k = "NewChanIDFromOutPoint op"
  obtain res' w where w: "removeLink ?k (ps_switch p) = (res', w)" by (cases "removeLink ?k (ps_switch p)")
  have wi: "linkIndex w = (linkIndex (ps_switch p))(?k := None)" using linkIndex_removeLink [of ?k "ps_switch p"] w by simp
  have r: "res' = Inr () \<or> res' = Inl ErrChannelLinkNotFound" using w by (auto simp: removeLink_def split: option.splits)
  define p1 where "p1 = (case activeChannels p ?k of None \<Rightarrow> p
     | Some r \<Rightarrow> (chan_Stop r p)\<lparr>activeChannels := (activeChannels p)(?k := None)\<rparr>)"
  have p1: "chanOf p1 = chanOf p" "activeChannels p1 = (activeChannels p)(?k := None)" "ps_switch p1 = ps_switch p"
    "activeChanCloses p1 = activeChanCloses p" "ps_waits p1 = ps_waits p" "ps_updates p1 = ps_updates p"
    "ps_pub p1 = ps_pub p" "ps_nextRef p1 = ps_nextRef p"
    by (auto simp: p1_def fun_eq_iff split: option.split)
  have "q = p1\<lparr>ps_switch := w\<rparr>" "res = Inr ()"
    using assms(2) w r by (auto simp: WipeChannel_def Let_def p1_def [symmetric] p1(3) split: if_splits)
  moreover have "peer_ok h (p1\<lparr>ps_switch := w\<rparr>)"
    using assms(1) by (auto simp: peer_ok_defs p1 wi)
  ultimately show ?thesis by (simp add: p1 wi)
qed

lemma runs_on_new:
  assumes "peer_ok h p" "activeChannels p k = Some r" "ps_heap p r = Some obj"
  shows "runs_on h p k (newChannelCloser (co_lc obj) script fee height req) r"
proof -
  have "chanIDOf (co_lc obj) = k" using assms unfolding peer_ok_defs chanOf_def by fastforce
  then show ?thesis using assms(3) closer_inv_new [of h "co_lc obj"] by (simp add: runs_on_def chanOf_def newChannelCloser_def Let_def)
qed

lemma active_heap: "peer_ok h p \<Longrightarrow> activeChannels p k = Some r \<Longrightarrow> \<exists>obj. ps_heap p r = Some obj"
  unfolding peer_ok_defs chanOf_def by fastforce

text \<open>Backends of the peer that return from every call the close uses.\<close>

definition calm_env :: "peerEnv \<Rightarrow> bool" where
  "calm_env env \<longleftrightarrow> calm_cfg (pe_close env) \<and> (\<forall>op. returns (pe_BeginCoopChanClose env op))"

lemma fetchActiveChanCloser_ok:
  assumes ok: "peer_ok h p" and run: "fetchActiveChanCloser env k p = (res, q)"
  shows "peer_ok h q \<and> activeChannels q = activeChannels p \<and> ps_waits q = ps_waits p \<and> ps_updates q = ps_updates p
     \<and> (case res of Inl e \<Rightarrow> calm_env env \<longrightarrow> \<not> stops e | Inr (c, r) \<Rightarrow> runs_on h q k c r)"
proof (cases "activeChannels p k")
  case None
  with ok run show ?thesis by (auto simp: fetchActiveChanCloser_def)
next
  case r: (Some r)
  obtain obj where obj: "ps_heap p r = Some obj" using active_heap [OF ok r] by blast
  show ?thesis
  proof (cases "activeChanCloses p k")
    case (Some x)
    with ok run r runs_on_active [OF ok, of k] show ?thesis by (cases x) (auto simp: fetchActiveChanCloser_def)
  next
    case None
    let ?new = "\<lambda>script fee height. newChannelCloser (co_lc obj) script fee height None"
    have on: "runs_on h p k (?new script fee height) r" for script fee height by (rule runs_on_new [OF ok r obj])
    have put: "peer_ok h (p\<lparr>activeChanCloses := (activeChanCloses p)(k \<mapsto> (?new script fee height, r))\<rparr>)" for script fee height
      by (rule peer_ok_put_closer [OF ok on])
    have on': "runs_on h (p\<lparr>activeChanCloses := (activeChanCloses p)(k \<mapsto> (?new script fee height, r))\<rparr>) k (?new script fee height) r"
      for script fee height using on [of script fee height] by (simp add: runs_on_def)
    from ok run r None obj show ?thesis
      by (auto simp: fetchActiveChanCloser_def Let_def calm_env_def returns_def put on'
          split: if_splits sum.splits option.splits)
  qed
qed

lemma finalizeChanClosure_ok:
  assumes ok: "peer_ok h p" and c: "runs_on h p k c r" and st: "state c = closeFinished" and h: "TxHash (pe_close env) = h"
  shows "\<exists>q tx. finalizeChanClosure env c r p = (Inr (), q) \<and> peer_ok h q \<and> broadcasts c = [tx]
     \<and> activeChannels q = (activeChannels p)(k := None) \<and> linkIndex (ps_switch q) k = None \<and> activeChanCloses q = activeChanCloses p
     \<and> ps_waits q = ps_waits p @ [(FundingOutpoint (channel c), h tx, negotiationHeight c, closeReq c)]
     \<and> ps_updates q = ps_updates p @ (case closeReq c of None \<Rightarrow> [] | Some x \<Rightarrow> [(x, ClosePending (h tx))])"
proof -
  have k: "chanIDOf (channel c) = k" using c by (simp add: runs_on_def)
  obtain tx where tx: "broadcasts c = [tx]" "closingTx c = Some tx"
    using c st by (auto simp: runs_on_def closer_inv_def)
  obtain res p1 where w: "WipeChannel (FundingOutpoint (channel c)) p = (res, p1)" by (cases "WipeChannel (FundingOutpoint (channel c)) p")
  note p1 = WipeChannel_ok [OF ok w]
  have "\<exists>q. finalizeChanClosure env c r p = (Inr (), q) \<and> peer_ok h q
     \<and> activeChannels q = (activeChannels p)(k := None) \<and> linkIndex (ps_switch q) k = None \<and> activeChanCloses q = activeChanCloses p
     \<and> ps_waits q = ps_waits p @ [(FundingOutpoint (channel c), h tx, negotiationHeight c, closeReq c)]
     \<and> ps_updates q = ps_updates p @ (case closeReq c of None \<Rightarrow> [] | Some x \<Rightarrow> [(x, ClosePending (h tx))])"
    using p1 k by (simp add: finalizeChanClosure_def w CloseRequest_def ClosingTx_def st tx(2) h Let_def)
      (simp add: tellUpdate_def split: option.split)
  with tx(1) show ?thesis by blast
qed

text \<open>
  What a close message does to the state: nothing waits for a confirmation anew, or the close is
  over, with the transaction that the closer broadcast.
\<close>

definition wound_up :: "(MsgTx \<Rightarrow> hash) \<Rightarrow> ChannelID \<Rightarrow> peerState \<Rightarrow> peerState \<Rightarrow> bool" where
  "wound_up h k p q \<longleftrightarrow> (\<exists>c r tx. activeChanCloses q k = Some (c, r) \<and> state c = closeFinished \<and> chanIDOf (channel c) = k
     \<and> broadcasts c = [tx] \<and> activeChannels q = (activeChannels p)(k := None) \<and> linkIndex (ps_switch q) k = None
     \<and> ps_waits q = ps_waits p @ [(FundingOutpoint (channel c), h tx, negotiationHeight c, closeReq c)]
     \<and> ps_updates q = ps_updates p @ (case closeReq c of None \<Rightarrow> [] | Some x \<Rightarrow> [(x, ClosePending (h tx))]))"

definition stays_open :: "peerState \<Rightarrow> peerState \<Rightarrow> bool" where
  "stays_open p q \<longleftrightarrow> activeChannels q = activeChannels p \<and> ps_waits q = ps_waits p \<and> ps_updates q = ps_updates p"

lemma advanceClose_ok:
  assumes on: "peer_ok h p" "runs_on h p k c r" and h: "TxHash (pe_close env) = h"
    and run: "advanceClose env k msg c r p = (res, q)"
  shows "peer_ok h q \<and> (calm_env env \<longrightarrow> res = Inr ()) \<and> (stays_open p q \<or> wound_up h k p q)"
proof -
  define m where "m = ProcessCloseMsg (pe_close env) msg"
  obtain res2 p2 where c2: "runCloser m k c r p = (res2, p2)" by (cases "runCloser m k c r p")
  obtain c0 d where d: "peer_ok h p2" "stays_open p p2" "m c0 = (res2, d)" "activeChanCloses p2 k = Some (d, r)" "runs_on h p2 k d r"
    using runCloser_ok [OF on _ c2] closer_call_message [OF h] unfolding m_def stays_open_def by blast
  show ?thesis
  proof (cases res2)
    case e: (Inl e)
    have "calm_env env \<longrightarrow> \<not> stops e"
      using ProcessCloseMsg_quiet [of "pe_close env" msg c0] d(3) e by (auto simp: m_def calm_env_def calm_sum_def)
    moreover define p3 where "p3 = tellErr (CloseRequest c) e (chan_ResetState r p2)"
    moreover have "peer_ok h p3" using d(1) by (simp add: p3_def)
    moreover have "stays_open p p3" using d(2) by (simp add: p3_def stays_open_def chan_ResetState_def)
    ultimately show ?thesis using run c2 e d(1,2) peer_ok_drop_closer [of h p3 k]
      by (auto simp: advanceClose_def m_def Let_def stays_open_def split: if_splits)
  next
    case i: (Inr y)
    obtain msgs fin where y: "y = (msgs, fin)" by (cases y)
    define p3 where "p3 = p2\<lparr>ps_out := ps_out p2 @ map CloseMsg msgs\<rparr>"
    have p3: "peer_ok h p3" "runs_on h p3 k d r" "stays_open p p3" "activeChanCloses p3 k = Some (d, r)"
      using d by (simp_all add: p3_def runs_on_def stays_open_def)
    show ?thesis
    proof (cases fin)
      case False
      with run c2 i y p3 show ?thesis by (auto simp: advanceClose_def m_def p3_def Let_def)
    next
      case True
      have st: "state d = closeFinished"
        using ProcessCloseMsg_finishes [of "pe_close env" msg c0 msgs d] d(3) i y True by (simp add: m_def)
      have "finalizeChanClosure env d r p3 = (res, q)"
        using run c2 i y True d(4) by (simp add: advanceClose_def m_def p3_def Let_def)
      with finalizeChanClosure_ok [OF p3(1,2) st h] p3 st show ?thesis
        unfolding wound_up_def stays_open_def runs_on_def by auto
    qed
  qed
qed

lemma handleCloseMsg_ok:
  assumes ok: "peer_ok h p" and h: "TxHash (pe_close env) = h" and run: "handleCloseMsg env k msg p = (res, q)"
  shows "peer_ok h q \<and> (calm_env env \<longrightarrow> res = Inr ()) \<and> (stays_open p q \<or> wound_up h k p q)"
proof -
  obtain f p1 where f: "fetchActiveChanCloser env k p = (f, p1)" by (cases "fetchActiveChanCloser env k p")
  note p1 = fetchActiveChanCloser_ok [OF ok f]
  show ?thesis
  proof (cases f)
    case (Inl e)
    with p1 run f show ?thesis by (auto simp: handleCloseMsg_def peerQueue_def stays_open_def split: if_splits)
  next
    case (Inr x)
    obtain c r where x: "x = (c, r)" by (cases x)
    have on: "peer_ok h p1" "runs_on h p1 k c r" using p1 Inr x by simp_all
    have "advanceClose env k msg c r p1 = (res, q)" using run f Inr x by (simp add: handleCloseMsg_def)
    from advanceClose_ok [OF on h this] p1 show ?thesis by (simp add: stays_open_def wound_up_def)
  qed
qed

lemma handleLocalCloseReq_ok:
  assumes ok: "peer_ok h p" and run: "handleLocalCloseReq env req p = (res, q)"
  shows "peer_ok h q \<and> res = Inr ()"
proof (cases "activeChannels p (NewChanIDFromOutPoint (rq_ChanPoint req))")
  case None
  with ok run show ?thesis by (auto simp: handleLocalCloseReq_def Let_def)
next
  case r: (Some r)
  let ?k = "NewChanIDFromOutPoint (rq_ChanPoint req)"
  show ?thesis
  proof (cases "rq_CloseType req")
    case CloseBreach
    obtain res1 p1 where w: "WipeChannel (rq_ChanPoint req) p = (res1, p1)" by (cases "WipeChannel (rq_ChanPoint req) p")
    from WipeChannel_ok [OF ok w] run r CloseBreach w show ?thesis by (auto simp: handleLocalCloseReq_def Let_def)
  next
    case CloseRegular
    obtain obj where obj: "ps_heap p r = Some obj" using active_heap [OF ok r] by blast
    have shut: "peer_ok h q'" if "runCloser ShutdownChan ?k (newChannelCloser (co_lc obj) script fee height creq) r p = (rs, q')"
      for script fee height creq rs q'
      using runCloser_ok [OF ok runs_on_new [OF ok r obj] closer_call_shutdown that] by blast
    from ok run r CloseRegular obj show ?thesis
      by (auto simp: handleLocalCloseReq_def Let_def peerQueue_def dest!: shut intro!: peer_ok_drop_closer
          split: sum.splits option.splits prod.splits)
  qed
qed

lemma peer_ok_quit: "peer_ok h (channelManager_quit p) = peer_ok h p"
proof (rule peer_ok_cong)
  show "chanOf (channelManager_quit p) = chanOf p"
    by (auto simp: chanOf_def channelManager_quit_def fun_eq_iff map_option_case split: option.split)
qed (simp_all add: channelManager_quit_def)

section \<open>Steps\<close>

inductive peer_step :: "(MsgTx \<Rightarrow> hash) \<Rightarrow> peerState \<Rightarrow> peerState \<Rightarrow> bool" for h where
  new_channel: "peer_step h p (handleNewChannel env newChan doneChan p)"
| close_request: "handleLocalCloseReq env req p = (Inr (), q) \<Longrightarrow> peer_step h p q"
| close_message: "TxHash (pe_close env) = h \<Longrightarrow> handleCloseMsg env k msg p = (Inr (), q) \<Longrightarrow> peer_step h p q"
| confirmation: "(op, txid, height, req) \<in> set (ps_waits p) \<Longrightarrow> peer_step h p (waitForChanToClose registered confirmed txid req p)"
| marked_failed: "peer_step h p (p\<lparr>failedChannels := insert k (failedChannels p)\<rparr>)"
| fewer_links: "(\<And>k l. linkIndex w k = Some l \<Longrightarrow> lk_Peer l = ps_pub p \<Longrightarrow> linkIndex (ps_switch p) k = Some l) \<Longrightarrow>
    peer_step h p (p\<lparr>ps_switch := w\<rparr>)"
| exit: "peer_step h p (channelManager_quit p)"

inductive peer_reach :: "(MsgTx \<Rightarrow> hash) \<Rightarrow> peerState \<Rightarrow> bool" for h where
  loaded: "loads_ok env \<Longrightarrow> distinct (chanIDs chans) \<Longrightarrow> (\<And>k l. linkIndex w k = Some l \<Longrightarrow> lk_Peer l \<noteq> pub) \<Longrightarrow>
    loadActiveChannels env chans (newPeerState pub w) = (Inr (), p) \<Longrightarrow> peer_reach h p"
| step: "peer_reach h p \<Longrightarrow> peer_step h p q \<Longrightarrow> peer_reach h q"

lemma peer_step_ok: "peer_step h p q \<Longrightarrow> peer_ok h p \<Longrightarrow> peer_ok h q"
proof (induction rule: peer_step.induct)
  case (fewer_links w p)
  then show ?case by (intro peer_ok_fewer_links)
qed (auto simp: peer_ok_handleNewChannel peer_ok_quit waitForChanToClose_def split: option.split
    dest: handleLocalCloseReq_ok handleCloseMsg_ok)

text \<open>The contract of the handlers, of which the properties of a peer are made.\<close>

locale peer_invariant =
  fixes h :: "MsgTx \<Rightarrow> hash" and Inv :: "peerState \<Rightarrow> bool"
  assumes loaded_inv: "loads_ok env \<Longrightarrow> distinct (chanIDs chans) \<Longrightarrow> (\<And>k l. linkIndex w k = Some l \<Longrightarrow> lk_Peer l \<noteq> pub) \<Longrightarrow>
      loadActiveChannels env chans (newPeerState pub w) = (Inr (), p) \<Longrightarrow> Inv p"
    and step_inv: "peer_step h p q \<Longrightarrow> Inv p \<Longrightarrow> Inv q"
begin

lemma reach_inv: "peer_reach h p \<Longrightarrow> Inv p"
  by (induction rule: peer_reach.induct) (blast intro: loaded_inv step_inv)+

end

interpretation peer_channels: peer_invariant h "peer_ok h" for h
proof
  fix env chans w pub p
  assume a: "loads_ok env" "distinct (chanIDs chans)" and w: "\<And>k l. linkIndex w k = Some l \<Longrightarrow> lk_Peer l \<noteq> pub"
    and run: "loadActiveChannels env chans (newPeerState pub w) = (Inr (), p)"
  from w have "peer_ok h (newPeerState pub w)" by (rule peer_ok_fresh)
  from peer_ok_load [OF this a] have "peer_ok h (snd (loadActiveChannels env chans (newPeerState pub w)))"
    by (simp add: newPeerState_def)
  with run show "peer_ok h p" by simp
qed (rule peer_step_ok)

end
