(* ===== verification/ServerNet.thy ===== *)
theory ServerNet
  imports FundingManager
begin

text \<open>
  The parts of the server (\<^verbatim>\<open>src/lnd/server.go\<close>) that compute without its state: the backoff
  between two attempts to reach a persistent peer, the tie breaker between two connections with
  one peer, the port a peer is reached at, the addresses of the peers to reconnect to at startup,
  and the colour of the node. A \<^verbatim>\<open>time.Duration\<close> is a 64-bit word read as a signed number of
  nanoseconds.
\<close>

section \<open>Backoff\<close>

definition defaultBackoff :: u64 where "defaultBackoff = 1000000000"
definition maximumBackoff :: u64 where "maximumBackoff = 3600000000000"

text \<open>
  The random number that \<^verbatim>\<open>rand.Int\<close> returns is dropped; its second argument, the bound, is what
  the code adds. \<^verbatim>\<open>rand.Int\<close> panics when the bound is not positive.
\<close>

definition computeNextBackoff :: "(nat \<Rightarrow> goerr + nat) \<Rightarrow> u64 \<Rightarrow> goerr + u64" where
  "computeNextBackoff rand_Int currBackoff =
     (let nextBackoff = (if sint maximumBackoff < sint (2 * currBackoff) then maximumBackoff else 2 * currBackoff);
          margin = amt_div nextBackoff 10;
          wiggle = unat margin
      in if wiggle = 0 then Inl (GoPanic ''crypto/rand: argument to Int is <= 0'')
         else case rand_Int wiggle of Inl _ \<Rightarrow> Inr nextBackoff
              | Inr _ \<Rightarrow> Inr (nextBackoff + (word_of_nat wiggle - amt_div margin 2)))"

section \<open>The tie breaker\<close>

definition shouldDropLocalConnection :: "PublicKey \<Rightarrow> PublicKey \<Rightarrow> bool" where
  "shouldDropLocalConnection local remote \<longleftrightarrow> SerializeCompressed remote < SerializeCompressed local"

section \<open>Addresses\<close>

definition defaultPeerPort :: int where "defaultPeerPort = 9735"

fun advertisedPort :: "bytes \<Rightarrow> NetAddr list \<Rightarrow> int" where
  "advertisedPort ip [] = defaultPeerPort"
| "advertisedPort ip (TCPAddr ip' port _ # addrs) =
     (if IP_Equal ip' ip then port else advertisedPort ip addrs)"
| "advertisedPort ip (_ # addrs) = advertisedPort ip addrs"

definition fetchNodeAdvertisedPort ::
  "(PublicKey \<Rightarrow> goerr + NetAddr list) \<Rightarrow> PublicKey \<Rightarrow> bytes \<Rightarrow> int \<Rightarrow> int" where
  "fetchNodeAdvertisedPort FetchLightningNode pub targetIP targetPort =
     (if targetPort = defaultPeerPort then defaultPeerPort
      else case FetchLightningNode pub of Inl _ \<Rightarrow> defaultPeerPort
           | Inr addrs \<Rightarrow> advertisedPort targetIP addrs)"

text \<open>
  The peers to reconnect to: the link nodes of the database, with the default port where they
  have none, then the nodes at the other end of our channels in the graph, whose addresses take
  precedence where they name the same host. The map is keyed by the serialized public key.
\<close>

type_synonym nodeAddrsMap = "(bytes \<times> PublicKey \<times> NetAddr list) list"

fun withDefaultPort :: "NetAddr \<Rightarrow> NetAddr" where
  "withDefaultPort (TCPAddr ip port zone) = TCPAddr ip (if port = 0 then defaultPeerPort else port) zone"
| "withDefaultPort addr = addr"

fun linkNodeAddrs :: "(PublicKey \<times> NetAddr list) list \<Rightarrow> nodeAddrsMap \<Rightarrow> nodeAddrsMap" where
  "linkNodeAddrs [] m = m"
| "linkNodeAddrs ((pub, addrs) # nodes) m =
     linkNodeAddrs nodes (al_put (SerializeCompressed pub) (pub, map withDefaultPort addrs) m)"

fun isTCP :: "NetAddr \<Rightarrow> bool" where
  "isTCP (TCPAddr _ _ _) = True"
| "isTCP _ = False"

text \<open>The addresses for one of our channels: \<open>policyAddrs\<close> are those the node announced.\<close>

fun mergeAddrs :: "NetAddr list \<Rightarrow> NetAddr list \<Rightarrow> NetAddr list" where
  "mergeAddrs policyAddrs [] = []"
| "mergeAddrs policyAddrs (TCPAddr ip port zone # lns) =
     (case filter (\<lambda>a. isTCP a \<and> IP_Equal (tcp_IP a) ip) policyAddrs of
        [] \<Rightarrow> TCPAddr ip port zone # mergeAddrs policyAddrs lns
      | matched \<Rightarrow> matched @ mergeAddrs policyAddrs lns)"
| "mergeAddrs policyAddrs (_ # lns) = mergeAddrs policyAddrs lns"

fun graphAddrs :: "(bytes \<times> NetAddr list) list \<Rightarrow> nodeAddrsMap \<Rightarrow> goerr + nodeAddrsMap" where
  "graphAddrs [] m = Inr m"
| "graphAddrs ((pubBytes, policyAddrs) # edges) m =
     (let addrs = (case map_of m pubBytes of
                     Some (_, lns) \<Rightarrow> mergeAddrs policyAddrs lns
                   | None \<Rightarrow> filter isTCP policyAddrs)
      in case ParsePubKey pubBytes of Inl e \<Rightarrow> Inl e
         | Inr pub \<Rightarrow> graphAddrs edges (al_put pubBytes (pub, addrs) m))"

section \<open>The colour of the node\<close>

record RGBA = rgba_R :: byte rgba_G :: byte rgba_B :: byte rgba_A :: byte

definition fromHexChar :: "byte \<Rightarrow> byte option" where
  "fromHexChar c =
     (if 48 \<le> c \<and> c \<le> 57 then Some (c - 48)
      else if 97 \<le> c \<and> c \<le> 102 then Some (c - 97 + 10)
      else if 65 \<le> c \<and> c \<le> 70 then Some (c - 65 + 10)
      else None)"

fun hex_DecodeString :: "bytes \<Rightarrow> goerr + bytes" where
  "hex_DecodeString [] = Inr []"
| "hex_DecodeString [c] = Inl (GoErr ''encoding/hex: odd length hex string'')"
| "hex_DecodeString (a # b # cs) =
     (case (fromHexChar a, fromHexChar b) of
        (Some h, Some l) \<Rightarrow> (case hex_DecodeString cs of Inl e \<Rightarrow> Inl e | Inr bs \<Rightarrow> Inr ((h * 16 + l) # bs))
      | _ \<Rightarrow> Inl (GoErr ''encoding/hex: invalid byte''))"

definition parseHexColor :: "bytes \<Rightarrow> goerr + RGBA" where
  "parseHexColor colorStr =
     (if length colorStr \<noteq> 7 \<or> colorStr ! 0 \<noteq> 35 then Inl (GoErr ''Color must be in format #RRGGBB'')
      else case hex_DecodeString (drop 1 colorStr) of Inl e \<Rightarrow> Inl e
           | Inr bs \<Rightarrow> Inr \<lparr>rgba_R = bs ! 0, rgba_G = bs ! 1, rgba_B = bs ! 2, rgba_A = 0\<rparr>)"

section \<open>Facts\<close>

text \<open>The backoff as a number, when the source of randomness works and when it does not.\<close>

definition doubled :: "int \<Rightarrow> int" where
  "doubled c = min (2 * c) (sint maximumBackoff)"

lemma sint_maximumBackoff: "sint maximumBackoff = 3600000000000"
  by (simp add: maximumBackoff_def)

lemma sint_defaultBackoff: "sint defaultBackoff = 1000000000"
  by (simp add: defaultBackoff_def)

lemma sint_of_int64: "- (2 ^ 63) \<le> i \<Longrightarrow> i < 2 ^ 63 \<Longrightarrow> sint (word_of_int i :: u64) = i"
  by (simp add: signed_of_int signed_take_bit_int_eq_self)

lemma amt_div_int:
  assumes "0 \<le> i" "i < 2 ^ 63" "0 < n"
  shows "amt_div (word_of_int i) n = word_of_int (i div n)"
  using assms sint_of_int64 [of i]
  by (cases "i = 0") (simp_all add: amt_div_def signed_divide_int_def)

definition backoffFrom :: "int \<Rightarrow> int" where
  "backoffFrom c = (let n = doubled c in n + (n div 10 - n div 10 div 2))"

lemma computeNextBackoff_int:
  assumes "5 \<le> c" "c < 2 ^ 62"
  shows "computeNextBackoff rand_Int (word_of_int c) =
           (case rand_Int (nat (doubled c div 10)) of Inl _ \<Rightarrow> Inr (word_of_int (doubled c))
            | Inr _ \<Rightarrow> Inr (word_of_int (backoffFrom c)))"
proof -
  define n where "n = doubled c"
  have n: "10 \<le> n" "n \<le> 3600000000000" "n \<le> 2 * c"
    using assms by (auto simp: n_def doubled_def sint_maximumBackoff)
  have two: "sint (2 * word_of_int c :: u64) = 2 * c"
    using assms sint_of_int64 [of "2 * c"] by (simp add: wi_hom_mult [symmetric])
  have next_n: "(if sint maximumBackoff < sint (2 * word_of_int c :: u64) then maximumBackoff else 2 * word_of_int c) =
      (word_of_int n :: u64)"
    unfolding two by (auto simp: n_def doubled_def sint_maximumBackoff maximumBackoff_def)
  have m: "amt_div (word_of_int n) 10 = word_of_int (n div 10)"
    using n by (intro amt_div_int) auto
  have h: "amt_div (word_of_int (n div 10)) 2 = word_of_int (n div 10 div 2)"
    using n by (intro amt_div_int) auto
  have w: "unat (word_of_int (n div 10) :: u64) = nat (n div 10)"
    using n by (simp add: unsigned_of_int take_bit_int_eq_self)
  have pos: "nat (n div 10) \<noteq> 0" using n by simp
  show ?thesis
    unfolding computeNextBackoff_def next_n Let_def m h w backoffFrom_def n_def [symmetric] using pos n
    by (simp split: sum.split)
qed

end
