(* ===== verification/Server.thy ===== *)
theory Server
  imports ServerNet SwitchLinks
begin

text \<open>
  The connections of the server (\<^verbatim>\<open>src/lnd/server.go\<close>): which peers it is connected to, which it
  keeps trying to reach, who waits for a peer to come online, and the goroutines that watch for
  the end of a connection. Every operation runs under the lock of the server, so it is one step
  on the state; the watcher of a connection works in two parts, before and after it takes the
  lock, and so does a request to connect, which dials in between.

  Objects that the code keys maps by, or compares, by their address are named by numbers that
  are given out in order: peers, connection requests and the channels that cancel a retry.
  What the server calls outside, the connection manager, a connection that is closed, the
  gossiper, is recorded in \<open>s_calls\<close>; the funding manager and the links of the switch are the
  models of these components.
\<close>

section \<open>Data\<close>

record BConn =
  conn_ref :: nat
  conn_RemotePub :: PublicKey
  conn_RemoteAddr :: NetAddr

record ConnReq =
  cr_ID :: u64
  cr_Addr :: NetAddress
  cr_Permanent :: bool

text \<open>
  The fields of a peer that the server reads; \<open>p_remoteSync\<close> is the feature bit
  \<^verbatim>\<open>InitialRoutingSync\<close> of the remote node, known once the peer has started.
\<close>

record peer =
  p_ref :: nat
  p_conn :: BConn
  p_connReq :: "nat option"
  p_addr :: NetAddress
  p_pubKeyBytes :: bytes
  p_inbound :: bool
  p_localSync :: bool
  p_remoteSync :: bool

datatype subsystem = ChainNotifier | Sphinx | HtlcSwitch | UtxoNursery | ChainArb | BreachArbiter
  | AuthGossiper | ChanRouter | WalletSys | ChainView | ConnMgr | FeeEstimator

datatype call =
    ConnClose nat
  | ConnMgrConnect nat
  | ConnMgrRemove u64
  | SynchronizeNode PublicKey
  | SubStart subsystem
  | SubStop subsystem
  | PeerBootstrapper u32
  | InitFundingWorkflow NetAddress openChanReq

text \<open>A retry: the peer, the request to submit and the channel that cancels it.\<close>

type_synonym retry = "bytes \<times> nat \<times> nat"

record server =
  s_started :: bool
  s_shutdown :: bool
  s_identity :: PublicKey
  peersByPub :: "(bytes \<times> peer) list"
  inboundPeers :: "bytes \<rightharpoonup> peer"
  outboundPeers :: "bytes \<rightharpoonup> peer"
  peerConnectedListeners :: "bytes \<rightharpoonup> nat list"
  persistentPeers :: "bytes set"
  persistentPeersBackoff :: "bytes \<rightharpoonup> u64"
  persistentConnReqs :: "bytes \<rightharpoonup> nat list"
  persistentRetryCancels :: "bytes \<rightharpoonup> nat"
  ignorePeerTermination :: "nat set"
  s_fundingMgr :: fundingManager
  s_htlcSwitch :: Switch
  s_reqs :: "nat \<rightharpoonup> ConnReq"
  s_nextRef :: nat
  s_disconnected :: "nat set" \<comment> \<open>peers whose \<^verbatim>\<open>quit\<close> is closed\<close>
  s_watchers :: "(peer \<times> bool) list" \<comment> \<open>termination watchers; true: waits for the lock\<close>
  s_retries :: "retry list"
  s_closedCancels :: "nat list"
  s_notified :: "nat list"
  s_calls :: "call list"

record serverEnv =
  se_FetchLightningNode :: "PublicKey \<Rightarrow> goerr + NetAddr list"
  se_Start :: "peer \<Rightarrow> Switch \<Rightarrow> (goerr + bool) \<times> Switch" \<comment> \<open>\<^verbatim>\<open>p.Start()\<close>, with the remote feature bit\<close>
  se_rand_Int :: "nat \<Rightarrow> goerr + nat"
  se_Dial :: "NetAddress \<Rightarrow> goerr + BConn"
  se_EstimateFeePerVSize :: "u32 \<Rightarrow> goerr + u64"
  se_GenesisHash :: hash
  se_FetchAllLinkNodes :: "goerr + (PublicKey \<times> NetAddr list) list" \<comment> \<open>none found is no error\<close>
  se_graphEdges :: "goerr + (bytes \<times> NetAddr list) list"
  se_subsystem_Start :: "subsystem \<Rightarrow> goerr option"
  se_bootstrap :: bool \<comment> \<open>network bootstrapping is on\<close>
  se_initNetworkBootstrappers :: "goerr option"

definition newServer :: "PublicKey \<Rightarrow> fundingManager \<Rightarrow> Switch \<Rightarrow> server" where
  "newServer identity f w = \<lparr>s_started = False, s_shutdown = False, s_identity = identity, peersByPub = [],
     inboundPeers = Map.empty, outboundPeers = Map.empty, peerConnectedListeners = Map.empty,
     persistentPeers = {}, persistentPeersBackoff = Map.empty, persistentConnReqs = Map.empty,
     persistentRetryCancels = Map.empty, ignorePeerTermination = {}, s_fundingMgr = f, s_htlcSwitch = w,
     s_reqs = Map.empty, s_nextRef = 0, s_disconnected = {}, s_watchers = [], s_retries = [], s_closedCancels = [],
     s_notified = [], s_calls = []\<rparr>"

definition ErrPeerNotFound :: goerr where "ErrPeerNotFound = GoErr ''unable to find peer''"
definition ErrServerShuttingDown :: goerr where "ErrServerShuttingDown = GoErr ''server is shutting down''"

definition pubStr :: "peer \<Rightarrow> bytes" where
  "pubStr p = SerializeCompressed (na_IdentityKey (p_addr p))"

definition calls :: "call list \<Rightarrow> server \<Rightarrow> server" where
  "calls cs s = s\<lparr>s_calls := s_calls s @ cs\<rparr>"

section \<open>Lookup\<close>

definition findPeerByPubStr :: "bytes \<Rightarrow> server \<Rightarrow> goerr + peer" where
  "findPeerByPubStr k s =
     (case map_of (peersByPub s) k of None \<Rightarrow> Inl ErrPeerNotFound | Some p \<Rightarrow> Inr p)"

definition FindPeer :: "PublicKey \<Rightarrow> server \<Rightarrow> goerr + peer" where
  "FindPeer peerKey s = findPeerByPubStr (SerializeCompressed peerKey) s"

definition FindPeerByPubStr :: "bytes \<Rightarrow> server \<Rightarrow> goerr + peer" where
  "FindPeerByPubStr k s = findPeerByPubStr k s"

definition Peers :: "server \<Rightarrow> peer list" where
  "Peers s = map snd (peersByPub s)"

text \<open>The code's comment says less than two; the test is at most two.\<close>

definition shouldRequestGraphSync :: "server \<Rightarrow> bool" where
  "shouldRequestGraphSync s \<longleftrightarrow> length (peersByPub s) \<le> 2"

definition nextPeerBackoff :: "serverEnv \<Rightarrow> bytes \<Rightarrow> server \<Rightarrow> goerr + u64" where
  "nextPeerBackoff env k s =
     (case persistentPeersBackoff s k of None \<Rightarrow> Inr defaultBackoff
      | Some backoff \<Rightarrow> computeNextBackoff (se_rand_Int env) backoff)"

section \<open>Registering and removing peers\<close>

text \<open>\<^verbatim>\<open>peer.Disconnect\<close>: the first call closes the connection and the peer's \<^verbatim>\<open>quit\<close>.\<close>

definition Disconnect :: "peer \<Rightarrow> server \<Rightarrow> server" where
  "Disconnect p s =
     (if p_ref p \<in> s_disconnected s then s
      else calls [ConnClose (conn_ref (p_conn p))] (s\<lparr>s_disconnected := insert (p_ref p) (s_disconnected s)\<rparr>))"

definition connReq_ID :: "nat \<Rightarrow> server \<Rightarrow> u64" where
  "connReq_ID r s = (case s_reqs s r of None \<Rightarrow> 0 | Some c \<Rightarrow> cr_ID c)"

definition removePeer :: "peer \<Rightarrow> server \<Rightarrow> server" where
  "removePeer p s =
     (let s1 = Disconnect p s;
          s2 = (case p_connReq p of None \<Rightarrow> s1 | Some r \<Rightarrow> calls [ConnMgrRemove (connReq_ID r s1)] s1)
      in if s_shutdown s2 then s2
         else let s3 = s2\<lparr>peersByPub := al_del (pubStr p) (peersByPub s2)\<rparr>
              in if p_inbound p then s3\<lparr>inboundPeers := (inboundPeers s3)(pubStr p := None)\<rparr>
                 else s3\<lparr>outboundPeers := (outboundPeers s3)(pubStr p := None)\<rparr>)"

definition listeners :: "bytes \<Rightarrow> server \<Rightarrow> nat list" where
  "listeners k s = (case peerConnectedListeners s k of None \<Rightarrow> [] | Some cs \<Rightarrow> cs)"

definition addPeer :: "peer \<Rightarrow> server \<Rightarrow> server" where
  "addPeer p s =
     (if s_shutdown s then Disconnect p s
      else
        let k = pubStr p;
            s1 = s\<lparr>peersByPub := al_put k p (peersByPub s)\<rparr>;
            s2 = (if p_inbound p then s1\<lparr>inboundPeers := (inboundPeers s1)(k \<mapsto> p)\<rparr>
                  else s1\<lparr>outboundPeers := (outboundPeers s1)(k \<mapsto> p)\<rparr>);
            s3 = s2\<lparr>s_watchers := s_watchers s2 @ [(p, False)]\<rparr>;
            s4 = (if p_remoteSync p then calls [SynchronizeNode (na_IdentityKey (p_addr p))] s3 else s3)
        in s4\<lparr>s_notified := s_notified s4 @ listeners k s4,
              peerConnectedListeners := (peerConnectedListeners s4)(k := None)\<rparr>)"

text \<open>
  \<^verbatim>\<open>newPeer\<close>: the fields of the peer that the server uses. The remote address gets the port the
  node advertised, as the port of an incoming connection is not one to reconnect to.
\<close>

definition reconnectAddr :: "serverEnv \<Rightarrow> BConn \<Rightarrow> NetAddr" where
  "reconnectAddr env conn =
     (case conn_RemoteAddr conn of
        TCPAddr ip port zone \<Rightarrow>
          TCPAddr ip (fetchNodeAdvertisedPort (se_FetchLightningNode env) (conn_RemotePub conn) ip port) zone
      | addr \<Rightarrow> addr)"

definition newPeer :: "BConn \<Rightarrow> nat option \<Rightarrow> NetAddress \<Rightarrow> bool \<Rightarrow> bool \<Rightarrow> nat \<Rightarrow> peer" where
  "newPeer conn connReq addr inbound localSync ref =
     \<lparr>p_ref = ref, p_conn = conn, p_connReq = connReq, p_addr = addr,
      p_pubKeyBytes = go_copy (replicate 33 0) (SerializeCompressed (na_IdentityKey addr)),
      p_inbound = inbound, p_localSync = localSync, p_remoteSync = False\<rparr>"

definition peerConnected :: "serverEnv \<Rightarrow> BConn \<Rightarrow> nat option \<Rightarrow> bool \<Rightarrow> server \<Rightarrow> server" where
  "peerConnected env conn connReq inbound s =
     (let peerAddr = \<lparr>na_IdentityKey = conn_RemotePub conn, na_Address = reconnectAddr env conn\<rparr>;
          p = newPeer conn connReq peerAddr inbound (shouldRequestGraphSync s) (s_nextRef s);
          s1 = s\<lparr>s_nextRef := Suc (s_nextRef s)\<rparr>
      in case se_Start env p (s_htlcSwitch s1) of
           (Inl err, w) \<Rightarrow> Disconnect p (s1\<lparr>s_htlcSwitch := w\<rparr>)
         | (Inr remoteSync, w) \<Rightarrow> addPeer (p\<lparr>p_remoteSync := remoteSync\<rparr>) (s1\<lparr>s_htlcSwitch := w\<rparr>))"

section \<open>Connection requests\<close>

definition UnassignedConnID :: u64 where "UnassignedConnID = 0"

fun removeReqs :: "u64 option \<Rightarrow> nat list \<Rightarrow> server \<Rightarrow> server" where
  "removeReqs skip [] s = s"
| "removeReqs skip (r # rs) s =
     (let connID = connReq_ID r s
      in if connID = UnassignedConnID then removeReqs skip rs s
         else if skip = Some connID then removeReqs skip rs s
         else removeReqs skip rs (calls [ConnMgrRemove connID] s))"

definition cancelConnReqs :: "bytes \<Rightarrow> u64 option \<Rightarrow> server \<Rightarrow> server" where
  "cancelConnReqs k skip s =
     (let s1 = (case persistentRetryCancels s k of None \<Rightarrow> s
                | Some cancelChan \<Rightarrow>
                    s\<lparr>s_closedCancels := s_closedCancels s @ [cancelChan],
                      persistentRetryCancels := (persistentRetryCancels s)(k := None)\<rparr>)
      in case persistentConnReqs s1 k of None \<Rightarrow> s1
         | Some connReqs \<Rightarrow>
             let s2 = removeReqs skip connReqs s1
             in s2\<lparr>persistentConnReqs := (persistentConnReqs s2)(k := None)\<rparr>)"

text \<open>A new request is appended to those of its peer.\<close>

definition reqsOf :: "bytes \<Rightarrow> server \<Rightarrow> nat list" where
  "reqsOf k s = (case persistentConnReqs s k of None \<Rightarrow> [] | Some rs \<Rightarrow> rs)"

definition addReq :: "bytes \<Rightarrow> NetAddress \<Rightarrow> server \<Rightarrow> server" where
  "addReq k addr s =
     (let r = s_nextRef s
      in s\<lparr>s_nextRef := Suc r,
           s_reqs := (s_reqs s)(r \<mapsto> \<lparr>cr_ID = UnassignedConnID, cr_Addr = addr, cr_Permanent = True\<rparr>),
           persistentConnReqs := (persistentConnReqs s)(k \<mapsto> reqsOf k s @ [r])\<rparr>)"

definition keepPersistent :: "bytes \<Rightarrow> server \<Rightarrow> server" where
  "keepPersistent k s =
     (let s1 = s\<lparr>persistentPeers := insert k (persistentPeers s)\<rparr>
      in case persistentPeersBackoff s1 k of
           None \<Rightarrow> s1\<lparr>persistentPeersBackoff := (persistentPeersBackoff s1)(k \<mapsto> defaultBackoff)\<rparr>
         | Some _ \<Rightarrow> s1)"

section \<open>New connections\<close>

text \<open>
  The existing connection with the peer is given up: it is removed, and its watcher told to leave
  the bookkeeping alone.
\<close>

definition dropStale :: "peer \<Rightarrow> server \<Rightarrow> server" where
  "dropStale p s =
     (let s1 = removePeer p s in s1\<lparr>ignorePeerTermination := insert (p_ref p) (ignorePeerTermination s1)\<rparr>)"

definition InboundPeerConnected :: "serverEnv \<Rightarrow> BConn \<Rightarrow> server \<Rightarrow> server" where
  "InboundPeerConnected env conn s =
     (if s_shutdown s then s
      else
        let nodePub = conn_RemotePub conn; k = SerializeCompressed nodePub
        in if inboundPeers s k \<noteq> None then calls [ConnClose (conn_ref conn)] s
           else case findPeerByPubStr k s of
                  Inl _ \<Rightarrow> peerConnected env conn None False (cancelConnReqs k None s)
                | Inr connectedPeer \<Rightarrow>
                    if \<not> shouldDropLocalConnection (s_identity s) nodePub
                    then calls [ConnClose (conn_ref conn)] s
                    else peerConnected env conn None False
                           (cancelConnReqs k None (dropStale connectedPeer s)))"

definition removeReqOf :: "nat option \<Rightarrow> server \<Rightarrow> server" where
  "removeReqOf connReq s =
     (case connReq of None \<Rightarrow> s | Some r \<Rightarrow> calls [ConnMgrRemove (connReq_ID r s)] s)"

definition OutboundPeerConnected :: "serverEnv \<Rightarrow> nat option \<Rightarrow> BConn \<Rightarrow> server \<Rightarrow> server" where
  "OutboundPeerConnected env connReq conn s =
     (if s_shutdown s then s
      else
        let nodePub = conn_RemotePub conn; k = SerializeCompressed nodePub;
            refuse = (\<lambda>s. calls [ConnClose (conn_ref conn)] (removeReqOf connReq s))
        in if outboundPeers s k \<noteq> None then refuse s
           else if persistentConnReqs s k = None \<and> connReq \<noteq> None then refuse s
           else
             let s1 = cancelConnReqs k (map_option (\<lambda>r. connReq_ID r s) connReq) s
             in case findPeerByPubStr k s1 of
                  Inl _ \<Rightarrow> peerConnected env conn connReq True s1
                | Inr connectedPeer \<Rightarrow>
                    if shouldDropLocalConnection (s_identity s1) nodePub then refuse s1
                    else peerConnected env conn connReq True (dropStale connectedPeer s1))"

section \<open>Who waits for a peer\<close>

definition NotifyWhenOnline :: "PublicKey \<Rightarrow> nat \<Rightarrow> server \<Rightarrow> server" where
  "NotifyWhenOnline peerKey connectedChan s =
     (let k = SerializeCompressed peerKey
      in if map_of (peersByPub s) k \<noteq> None then s\<lparr>s_notified := s_notified s @ [connectedChan]\<rparr>
         else s\<lparr>peerConnectedListeners := (peerConnectedListeners s)(k \<mapsto> listeners k s @ [connectedChan])\<rparr>)"

section \<open>The end of a connection\<close>

text \<open>
  \<^verbatim>\<open>peerTerminationWatcher\<close> after the peer has quit: first what it does without the lock, by the
  public key of the peer, then what it does under the lock.
\<close>

definition watcherCleanup :: "peer \<Rightarrow> server \<Rightarrow> server" where
  "watcherCleanup p s =
     (let s1 = s\<lparr>s_fundingMgr := snd (CancelPeerReservations (p_pubKeyBytes p) (s_fundingMgr s))\<rparr>
      in s1\<lparr>s_htlcSwitch :=
              (case getLinks (p_pubKeyBytes p) (s_htlcSwitch s1) of Inl _ \<Rightarrow> s_htlcSwitch s1
               | Inr links \<Rightarrow> removeLinks (map lk_ChanID links) (s_htlcSwitch s1))\<rparr>)"

definition watcherReconnect :: "serverEnv \<Rightarrow> peer \<Rightarrow> server \<Rightarrow> (goerr + unit) \<times> server" where
  "watcherReconnect env p s =
     (let k = pubStr p; r = s_nextRef s; s1 = addReq k (p_addr p) s
      in case nextPeerBackoff env k s1 of Inl e \<Rightarrow> (Inl e, s1)
         | Inr backoff \<Rightarrow>
             let s2 = s1\<lparr>persistentPeersBackoff := (persistentPeersBackoff s1)(k \<mapsto> backoff)\<rparr>;
                 cancelChan = (case persistentRetryCancels s2 k of None \<Rightarrow> s_nextRef s2 | Some c \<Rightarrow> c);
                 s3 = (case persistentRetryCancels s2 k of
                         None \<Rightarrow> s2\<lparr>s_nextRef := Suc (s_nextRef s2),
                                    persistentRetryCancels := (persistentRetryCancels s2)(k \<mapsto> cancelChan)\<rparr>
                       | Some _ \<Rightarrow> s2)
             in (Inr (), s3\<lparr>s_retries := s_retries s3 @ [(k, r, cancelChan)]\<rparr>))"

definition watcherFinish :: "serverEnv \<Rightarrow> peer \<Rightarrow> server \<Rightarrow> (goerr + unit) \<times> server" where
  "watcherFinish env p s =
     (if p_ref p \<in> ignorePeerTermination s
      then (Inr (), s\<lparr>ignorePeerTermination := ignorePeerTermination s - {p_ref p}\<rparr>)
      else
        let s1 = removePeer p s; k = pubStr p
        in if k \<notin> persistentPeers s1 then (Inr (), s1)
           else if persistentConnReqs s1 k \<noteq> None then (Inr (), s1)
           else watcherReconnect env p s1)"

text \<open>The whole watcher, when nothing happens between its two parts.\<close>

definition peerTerminationWatcher :: "serverEnv \<Rightarrow> peer \<Rightarrow> server \<Rightarrow> (goerr + unit) \<times> server" where
  "peerTerminationWatcher env p s =
     (if s_shutdown s then (Inr (), s) else watcherFinish env p (watcherCleanup p s))"

text \<open>The goroutine that waits out the backoff: it submits the request.\<close>

definition retryFires :: "retry \<Rightarrow> server \<Rightarrow> server" where
  "retryFires rt s = calls [ConnMgrConnect (fst (snd rt))] (s\<lparr>s_retries := remove1 rt (s_retries s)\<rparr>)"

definition retryCancelled :: "retry \<Rightarrow> server \<Rightarrow> server" where
  "retryCancelled rt s = s\<lparr>s_retries := remove1 rt (s_retries s)\<rparr>"

section \<open>Requests of the user\<close>

definition ConnectToPeer :: "serverEnv \<Rightarrow> NetAddress \<Rightarrow> bool \<Rightarrow> server \<Rightarrow> (goerr + unit) \<times> server" where
  "ConnectToPeer env addr perm s =
     (let targetPub = SerializeCompressed (na_IdentityKey addr)
      in (case findPeerByPubStr targetPub s of
           Inr _ \<Rightarrow> (Inl (GoErr ''already connected to peer''), s)
         | Inl _ \<Rightarrow>
             if perm then
               let connReq = s_nextRef s;
                   s1 = addReq targetPub addr (keepPersistent targetPub s)
               in (Inr (), calls [ConnMgrConnect connReq] s1)
             else (case se_Dial env addr of Inl err \<Rightarrow> (Inl err, s)
                  | Inr conn \<Rightarrow> (Inr (), OutboundPeerConnected env None conn s))))"

definition DisconnectPeer :: "PublicKey \<Rightarrow> server \<Rightarrow> (goerr + unit) \<times> server" where
  "DisconnectPeer pubKey s =
     (let k = SerializeCompressed pubKey
      in case findPeerByPubStr k s of
           Inl _ \<Rightarrow> (Inl (GoErr ''unable to find peer''), s)
         | Inr p \<Rightarrow>
             let s1 = cancelConnReqs k None s;
                 s2 = s1\<lparr>persistentPeers := persistentPeers s1 - {k},
                         persistentPeersBackoff := (persistentPeersBackoff s1)(k := None)\<rparr>
             in (Inr (), dropStale p s2))"

text \<open>
  A request to open a channel: an unknown peer and a failing fee estimate are reported on the error
  channel of the request, the second result; else the request goes to the funding manager.
\<close>

definition server_OpenChannel ::
  "serverEnv \<Rightarrow> PublicKey option \<Rightarrow> u64 \<Rightarrow> u64 \<Rightarrow> u64 \<Rightarrow> u64 \<Rightarrow> bool \<Rightarrow> u16 \<Rightarrow> nat \<Rightarrow> nat \<Rightarrow> server
     \<Rightarrow> server \<times> goerr option" where
  "server_OpenChannel env nodeKey localAmt pushAmt minHtlc fundingFeePerVSize private remoteCsvDelay updateChan errChan s =
     (let pubKeyBytes = (case nodeKey of None \<Rightarrow> [] | Some k \<Rightarrow> SerializeCompressed k)
      in (case map_of (peersByPub s) pubKeyBytes of
           None \<Rightarrow> (s, Some (GoErr ''unable to find peer NodeKey''))
         | Some targetPeer \<Rightarrow>
             (case (if fundingFeePerVSize = 0 then se_EstimateFeePerVSize env 6 else Inr fundingFeePerVSize) of
               Inl err \<Rightarrow> (s, Some err)
             | Inr fee \<Rightarrow>
                 let req = \<lparr>rq_chainHash = se_GenesisHash env, rq_localFundingAmt = localAmt, rq_remoteFundingAmt = 0,
                           rq_pushAmt = pushAmt, rq_fundingFeePerVSize = fee, rq_private = private,
                           rq_minHtlc = minHtlc, rq_remoteCsvDelay = remoteCsvDelay, rq_updates = updateChan,
                           rq_err = errChan\<rparr>
                 in (calls [InitFundingWorkflow (p_addr targetPeer) req] s, None))))"

section \<open>Starting and stopping\<close>

fun requestAddrs :: "bytes \<Rightarrow> PublicKey \<Rightarrow> NetAddr list \<Rightarrow> server \<Rightarrow> server" where
  "requestAddrs k pub [] s = s"
| "requestAddrs k pub (address # addrs) s =
     requestAddrs k pub addrs
       (calls [ConnMgrConnect (s_nextRef s)] (addReq k \<lparr>na_IdentityKey = pub, na_Address = address\<rparr> s))"

fun requestNodes :: "nodeAddrsMap \<Rightarrow> server \<Rightarrow> server" where
  "requestNodes [] s = s"
| "requestNodes ((k, pub, addrs) # nodes) s =
     requestNodes nodes (requestAddrs k pub addrs (keepPersistent k s))"

definition establishPersistentConnections :: "serverEnv \<Rightarrow> server \<Rightarrow> (goerr + unit) \<times> server" where
  "establishPersistentConnections env s =
     (case se_FetchAllLinkNodes env of Inl err \<Rightarrow> (Inl err, s)
      | Inr linkNodes \<Rightarrow>
          (case se_graphEdges env of Inl err \<Rightarrow> (Inl err, s)
          | Inr edges \<Rightarrow>
              (case graphAddrs edges (linkNodeAddrs linkNodes []) of Inl err \<Rightarrow> (Inl err, s)
              | Inr m \<Rightarrow> (Inr (), requestNodes m s))))"

fun startAll :: "(subsystem \<Rightarrow> goerr option) \<Rightarrow> subsystem list \<Rightarrow> server \<Rightarrow> (goerr + unit) \<times> server" where
  "startAll st [] s = (Inr (), s)"
| "startAll st (x # xs) s =
     (case st x of Some err \<Rightarrow> (Inl err, s) | None \<Rightarrow> startAll st xs (calls [SubStart x] s))"

definition startOrder :: "subsystem list" where
  "startOrder = [ChainNotifier, Sphinx, HtlcSwitch, UtxoNursery, ChainArb, BreachArbiter, AuthGossiper, ChanRouter]"

definition server_Start :: "serverEnv \<Rightarrow> server \<Rightarrow> (goerr + unit) \<times> server" where
  "server_Start env s =
     (if s_started s then (Inr (), s)
      else
        (case startAll (se_subsystem_Start env) startOrder (s\<lparr>s_started := True\<rparr>) of
          (Inl err, s1) \<Rightarrow> (Inl err, s1)
        | (Inr _, s1) \<Rightarrow>
            (case establishPersistentConnections env s1 of
              (Inl err, s2) \<Rightarrow> (Inl err, s2)
            | (Inr _, s2) \<Rightarrow>
                let s3 = calls [SubStart ConnMgr] s2
                in if \<not> se_bootstrap env then (Inr (), s3)
                   else (case se_initNetworkBootstrappers env of Some err \<Rightarrow> (Inl err, s3)
                        | None \<Rightarrow> (Inr (), calls [PeerBootstrapper 3] s3)))))"

definition stopOrder :: "subsystem list" where
  "stopOrder = [ChainNotifier, ChanRouter, HtlcSwitch, Sphinx, UtxoNursery, BreachArbiter, AuthGossiper, ChainArb,
     WalletSys, ChainView, ConnMgr, FeeEstimator]"

fun disconnectAll :: "peer list \<Rightarrow> server \<Rightarrow> server" where
  "disconnectAll [] s = s"
| "disconnectAll (p # ps) s = disconnectAll ps (snd (DisconnectPeer (na_IdentityKey (p_addr p)) s))"

definition server_Stop :: "server \<Rightarrow> server" where
  "server_Stop s =
     (if s_shutdown s then s
      else let s1 = calls (map SubStop stopOrder) (s\<lparr>s_shutdown := True\<rparr>) in disconnectAll (Peers s1) s1)"

end
