(* ===== verification/PeerStart.thy ===== *)
theory PeerStart
  imports PeerChannels Server
begin

text \<open>
  The start of a peer (\<^verbatim>\<open>Start\<close> in \<^verbatim>\<open>src/lnd/peer.go\<close>): both sides send an init message with their
  feature bits, a required feature that is not known ends the connection, and the channels of the
  database are loaded. With it the server's parameter for the start of a peer gets its meaning.
\<close>

section \<open>Features\<close>

type_synonym FeatureBit = u16
type_synonym RawFeatureVector = "FeatureBit list"

definition InitialRoutingSync :: FeatureBit where "InitialRoutingSync = 3"

definition LocalFeatures :: "FeatureBit \<rightharpoonup> string" where
  "LocalFeatures = [InitialRoutingSync \<mapsto> ''initial-routing-sync'']"

definition GlobalFeatures :: "FeatureBit \<rightharpoonup> string" where "GlobalFeatures = Map.empty"

definition NewFeatureVector :: "RawFeatureVector option \<Rightarrow> RawFeatureVector" where
  "NewFeatureVector fv = (case fv of None \<Rightarrow> [] | Some bits \<Rightarrow> bits)"

definition IsKnown :: "(FeatureBit \<rightharpoonup> string) \<Rightarrow> FeatureBit \<Rightarrow> bool" where
  "IsKnown names fb \<longleftrightarrow> names fb \<noteq> None"

definition UnknownRequiredFeatures :: "(FeatureBit \<rightharpoonup> string) \<Rightarrow> RawFeatureVector \<Rightarrow> FeatureBit list" where
  "UnknownRequiredFeatures names fv = filter (\<lambda>feature. feature mod 2 = 0 \<and> \<not> IsKnown names feature) fv"

definition isFeatureBitPair :: "(FeatureBit \<rightharpoonup> string) \<Rightarrow> FeatureBit \<Rightarrow> bool" where
  "isFeatureBitPair names fb =
     (case (names fb, names (xor fb 1)) of (Some name1, Some name2) \<Rightarrow> name1 = name2 | _ \<Rightarrow> False)"

definition HasFeature :: "(FeatureBit \<rightharpoonup> string) \<Rightarrow> RawFeatureVector \<Rightarrow> FeatureBit \<Rightarrow> bool" where
  "HasFeature names fv feature \<longleftrightarrow>
     feature \<in> set fv \<or> (isFeatureBitPair names feature \<and> xor feature 1 \<in> set fv)"

section \<open>The handshake\<close>

record InitMsg =
  im_GlobalFeatures :: "RawFeatureVector option"
  im_LocalFeatures :: "RawFeatureVector option"

text \<open>What comes first: the init message, another one, an error of the reader, or nothing in time.\<close>

datatype firstMsg = FirstInit InitMsg | FirstOther | FirstReadErr goerr | FirstTimeout

record peerConn =
  pc_started :: bool
  pc_localFeatures :: RawFeatureVector
  pc_remoteLocalFeatures :: RawFeatureVector
  pc_remoteGlobalFeatures :: RawFeatureVector
  pc_sentInit :: "InitMsg list"
  pc_chans :: peerState

record peerStartEnv =
  sa_writeMessage :: "InitMsg \<Rightarrow> goerr option"
  sa_first :: firstMsg
  sa_FetchOpenChannels :: "goerr + dbChannel list"

definition newPeerConn :: "peer \<Rightarrow> Switch \<Rightarrow> peerConn" where
  "newPeerConn p w =
     \<lparr>pc_started = False, pc_localFeatures = (if p_localSync p then [InitialRoutingSync] else []),
      pc_remoteLocalFeatures = [], pc_remoteGlobalFeatures = [], pc_sentInit = [],
      pc_chans = newPeerState (p_pubKeyBytes p) w\<rparr>"

definition sendInitMsg :: "peerStartEnv \<Rightarrow> peerConn \<Rightarrow> goerr option \<times> peerConn" where
  "sendInitMsg sa pc =
     (let msg = \<lparr>im_GlobalFeatures = Some [], im_LocalFeatures = Some (pc_localFeatures pc)\<rparr>;
          err = sa_writeMessage sa msg
      in (err, if err = None then pc\<lparr>pc_sentInit := pc_sentInit pc @ [msg]\<rparr> else pc))"

definition handleInitMsg :: "InitMsg \<Rightarrow> peerConn \<Rightarrow> (goerr + unit) \<times> peerConn" where
  "handleInitMsg msg pc =
     (let pc1 = pc\<lparr>pc_remoteLocalFeatures := NewFeatureVector (im_LocalFeatures msg),
                  pc_remoteGlobalFeatures := NewFeatureVector (im_GlobalFeatures msg)\<rparr>
      in if UnknownRequiredFeatures LocalFeatures (pc_remoteLocalFeatures pc1) \<noteq> []
         then (Inl (GoErr ''Peer set unknown local feature bits''), pc1)
         else if UnknownRequiredFeatures GlobalFeatures (pc_remoteGlobalFeatures pc1) \<noteq> []
         then (Inl (GoErr ''Peer set unknown global feature bits''), pc1)
         else (Inr (), pc1))"

definition startChannels :: "peerEnv \<Rightarrow> peerStartEnv \<Rightarrow> peerConn \<Rightarrow> (goerr + unit) \<times> peerConn" where
  "startChannels env sa pc =
     (case sa_FetchOpenChannels sa of Inl err \<Rightarrow> (Inl err, pc)
      | Inr activeChans \<Rightarrow>
          (case loadActiveChannels env activeChans (pc_chans pc) of
            (Inl err, p1) \<Rightarrow> (Inl (if stops err then err else GoErr ''unable to load channels''), pc\<lparr>pc_chans := p1\<rparr>)
          | (Inr _, p1) \<Rightarrow> (Inr (), pc\<lparr>pc_chans := p1\<rparr>)))"

definition peer_Start :: "peerEnv \<Rightarrow> peerStartEnv \<Rightarrow> peerConn \<Rightarrow> (goerr + unit) \<times> peerConn" where
  "peer_Start env sa pc =
     (if pc_started pc then (Inr (), pc)
      else case sendInitMsg sa (pc\<lparr>pc_started := True\<rparr>) of
             (Some err, pc1) \<Rightarrow> (Inl (GoErr ''unable to send init msg''), pc1)
           | (None, pc1) \<Rightarrow>
               (case sa_first sa of
                  FirstTimeout \<Rightarrow> (Inl (GoErr ''peer did not complete handshake within 5 seconds''), pc1)
                | FirstReadErr err \<Rightarrow> (Inl (GoErr ''unable to read init msg''), pc1)
                | FirstOther \<Rightarrow> (Inl (GoErr ''very first message between nodes must be init message''), pc1)
                | FirstInit msg \<Rightarrow>
                    (case handleInitMsg msg pc1 of
                       (Inl err, pc2) \<Rightarrow> (Inl err, pc2)
                     | (Inr _, pc2) \<Rightarrow> startChannels env sa pc2)))"

text \<open>The start of a peer as the server sees it: the result with the remote sync bit, and the switch.\<close>

definition peerStarts :: "peerEnv \<Rightarrow> peerStartEnv \<Rightarrow> peer \<Rightarrow> Switch \<Rightarrow> (goerr + bool) \<times> Switch" where
  "peerStarts env sa p w =
     (case peer_Start env sa (newPeerConn p w) of
        (Inl err, pc) \<Rightarrow> (Inl err, ps_switch (pc_chans pc))
      | (Inr _, pc) \<Rightarrow> (Inr (HasFeature LocalFeatures (pc_remoteLocalFeatures pc) InitialRoutingSync), ps_switch (pc_chans pc)))"

section \<open>Facts\<close>

text \<open>A remote node that sets a required bit must be one whose bits are known: there is none here.\<close>

lemma unknown_local: "UnknownRequiredFeatures LocalFeatures fv = filter (\<lambda>f. f mod 2 = 0) fv"
proof -
  have "f mod 2 = 0 \<longrightarrow> f \<noteq> 3" for f :: u16 by auto
  then show ?thesis unfolding UnknownRequiredFeatures_def
    by (intro filter_cong) (auto simp: IsKnown_def LocalFeatures_def InitialRoutingSync_def split: if_splits)
qed

lemma unknown_global: "UnknownRequiredFeatures GlobalFeatures fv = filter (\<lambda>f. f mod 2 = 0) fv"
  by (simp add: UnknownRequiredFeatures_def IsKnown_def GlobalFeatures_def)

lemma sync_bit: "HasFeature LocalFeatures fv InitialRoutingSync \<longleftrightarrow> InitialRoutingSync \<in> set fv"
  by (simp add: HasFeature_def isFeatureBitPair_def LocalFeatures_def InitialRoutingSync_def)

lemma sendInitMsg_frame:
  "sendInitMsg sa pc = (r, pc1) \<Longrightarrow> pc_chans pc1 = pc_chans pc \<and> pc_started pc1 = pc_started pc"
  by (auto simp: sendInitMsg_def Let_def split: if_splits)

lemma handleInitMsg_frame: "pc_chans (snd (handleInitMsg msg pc)) = pc_chans pc"
  by (simp add: handleInitMsg_def Let_def)

end
