(* ===== verification/ServerSystem.thy ===== *)
theory ServerSystem
  imports Server
begin

text \<open>
  The server as a system of steps: connections that come up in either direction, connections that
  are lost, the two parts of their watchers, requests of the user, retries, the connection manager
  that gives a request its identifier, and the start and the end of the server. The first
  invariant is about the connections: what the three indexes of the server say of a peer, and which
  connections have a watcher.
\<close>

section \<open>Steps\<close>

definition endWatcher :: "peer \<Rightarrow> server \<Rightarrow> server" where
  "endWatcher p s = s\<lparr>s_watchers := filter (\<lambda>e. p_ref (fst e) \<noteq> p_ref p) (s_watchers s)\<rparr>"

definition markWatcher :: "peer \<Rightarrow> server \<Rightarrow> server" where
  "markWatcher p s =
     s\<lparr>s_watchers := map (\<lambda>e. if p_ref (fst e) = p_ref p then (fst e, True) else e) (s_watchers s)\<rparr>"

definition assignID :: "nat \<Rightarrow> u64 \<Rightarrow> server \<Rightarrow> server" where
  "assignID r i s =
     s\<lparr>s_reqs := (case s_reqs s r of None \<Rightarrow> s_reqs s | Some c \<Rightarrow> (s_reqs s)(r \<mapsto> c\<lparr>cr_ID := i\<rparr>))\<rparr>"

text \<open>The channels of the listeners are made by the callers: each call brings one of its own.\<close>

definition freshListener :: "nat \<Rightarrow> server \<Rightarrow> bool" where
  "freshListener c s \<longleftrightarrow> c \<notin> set (s_notified s) \<and> (\<forall>k. c \<notin> set (listeners k s))"

inductive srv_step :: "(serverEnv \<Rightarrow> bool) \<Rightarrow> server \<Rightarrow> server \<Rightarrow> bool" for P where
  inbound: "P env \<Longrightarrow> srv_step P s (InboundPeerConnected env conn s)"
| outbound: "P env \<Longrightarrow> srv_step P s (OutboundPeerConnected env connReq conn s)"
| connect: "P env \<Longrightarrow> srv_step P s (snd (ConnectToPeer env addr perm s))"
| disconnect: "srv_step P s (snd (DisconnectPeer pubKey s))"
| lost: "(p, b) \<in> set (s_watchers s) \<Longrightarrow> srv_step P s (Disconnect p s)"
| cleanup: "(p, False) \<in> set (s_watchers s) \<Longrightarrow> p_ref p \<in> s_disconnected s \<Longrightarrow>
    srv_step P s (if s_shutdown s then endWatcher p s else markWatcher p (watcherCleanup p s))"
| finish: "P env \<Longrightarrow> (p, True) \<in> set (s_watchers s) \<Longrightarrow> srv_step P s (endWatcher p (snd (watcherFinish env p s)))"
| fires: "rt \<in> set (s_retries s) \<Longrightarrow> srv_step P s (retryFires rt s)"
| cancelled: "rt \<in> set (s_retries s) \<Longrightarrow> snd (snd rt) \<in> set (s_closedCancels s) \<Longrightarrow> srv_step P s (retryCancelled rt s)"
| assign: "srv_step P s (assignID r i s)"
| notify: "freshListener c s \<Longrightarrow> srv_step P s (NotifyWhenOnline peerKey c s)"
| start: "P env \<Longrightarrow> srv_step P s (snd (server_Start env s))"
| stop: "srv_step P s (server_Stop s)"
| others: "srv_step P s (s\<lparr>s_fundingMgr := f, s_htlcSwitch := w\<rparr>)"

inductive srv_reach :: "(serverEnv \<Rightarrow> bool) \<Rightarrow> server \<Rightarrow> bool" for P where
  init: "srv_reach P (newServer identity f w)"
| step: "srv_reach P s \<Longrightarrow> srv_step P s t \<Longrightarrow> srv_reach P t"

text \<open>An invariant of the server: it holds at first and every step keeps it.\<close>

locale server_invariant =
  fixes P :: "serverEnv \<Rightarrow> bool" and Inv :: "server \<Rightarrow> bool"
  assumes initially: "Inv (newServer identity f w)"
    and kept: "Inv s \<Longrightarrow> srv_step P s t \<Longrightarrow> Inv t"
begin

lemma always: "srv_reach P s \<Longrightarrow> Inv s"
  by (induction rule: srv_reach.induct) (auto intro: initially kept)

lemma along: "srv_reach P s \<Longrightarrow> srv_step P s t \<Longrightarrow> Inv s \<and> Inv t"
  using always kept by blast

end

section \<open>What an operation leaves alone\<close>

text \<open>The connections of a server, apart from the numbers it has given out.\<close>

definition conns :: "server \<Rightarrow> bool \<times> (bytes \<times> peer) list \<times> (bytes \<rightharpoonup> peer) \<times> (bytes \<rightharpoonup> peer) \<times> (peer \<times> bool) list \<times> nat set \<times> nat set" where
  "conns s = (s_shutdown s, peersByPub s, inboundPeers s, outboundPeers s, s_watchers s,
              ignorePeerTermination s, s_disconnected s)"

lemma conns_calls [simp]: "conns (calls cs s) = conns s" "s_nextRef (calls cs s) = s_nextRef s"
  by (simp_all add: conns_def calls_def)

lemma calls_other [simp]:
  "s_shutdown (calls cs s) = s_shutdown s" "peersByPub (calls cs s) = peersByPub s"
  "inboundPeers (calls cs s) = inboundPeers s" "outboundPeers (calls cs s) = outboundPeers s"
  "peerConnectedListeners (calls cs s) = peerConnectedListeners s" "persistentPeers (calls cs s) = persistentPeers s"
  "persistentPeersBackoff (calls cs s) = persistentPeersBackoff s" "persistentConnReqs (calls cs s) = persistentConnReqs s"
  "persistentRetryCancels (calls cs s) = persistentRetryCancels s" "ignorePeerTermination (calls cs s) = ignorePeerTermination s"
  "s_reqs (calls cs s) = s_reqs s" "s_disconnected (calls cs s) = s_disconnected s" "s_watchers (calls cs s) = s_watchers s"
  "s_retries (calls cs s) = s_retries s" "s_closedCancels (calls cs s) = s_closedCancels s"
  "s_notified (calls cs s) = s_notified s" "s_identity (calls cs s) = s_identity s" "s_calls (calls cs s) = s_calls s @ cs"
  "s_htlcSwitch (calls cs s) = s_htlcSwitch s" "s_fundingMgr (calls cs s) = s_fundingMgr s" "s_started (calls cs s) = s_started s"
  by (simp_all add: calls_def)

lemma removeReqs_calls: "\<exists>cs. removeReqs skip rs s = calls cs s"
proof (induction rs arbitrary: s)
  case (Cons r rs)
  have join: "calls b (calls a s) = calls (a @ b) s" for a b by (simp add: calls_def)
  obtain cs where "removeReqs skip rs s = calls cs s" using Cons by blast
  moreover obtain ds where "removeReqs skip rs (calls [ConnMgrRemove (connReq_ID r s)] s) =
      calls ds (calls [ConnMgrRemove (connReq_ID r s)] s)" using Cons by blast
  ultimately show ?case by (auto simp: Let_def join)
qed (auto simp: calls_def intro: exI [of _ "[]"])

definition cancelOf :: "bytes \<Rightarrow> server \<Rightarrow> nat list" where
  "cancelOf k s = (case persistentRetryCancels s k of None \<Rightarrow> [] | Some c \<Rightarrow> [c])"

lemma cancelConnReqs_shape:
  "\<exists>cs. cancelConnReqs k skip s =
     (calls cs s)\<lparr>persistentConnReqs := (persistentConnReqs s)(k := None),
       persistentRetryCancels := (persistentRetryCancels s)(k := None),
       s_closedCancels := s_closedCancels s @ cancelOf k s\<rparr>"
proof -
  define s1 where "s1 = s\<lparr>s_closedCancels := s_closedCancels s @ cancelOf k s,
    persistentRetryCancels := (persistentRetryCancels s)(k := None)\<rparr>"
  have s1: "(case persistentRetryCancels s k of None \<Rightarrow> s
      | Some c \<Rightarrow> s\<lparr>s_closedCancels := s_closedCancels s @ [c],
                    persistentRetryCancels := (persistentRetryCancels s)(k := None)\<rparr>) = s1"
    by (simp add: s1_def cancelOf_def fun_upd_idem split: option.split)
  obtain cs where cs: "removeReqs skip (reqsOf k s1) s1 = calls cs s1" using removeReqs_calls by blast
  have idem: "persistentConnReqs s k = None \<Longrightarrow> (persistentConnReqs s)(k := None) = persistentConnReqs s"
    by (simp add: fun_upd_idem)
  have "cancelConnReqs k skip s = (calls (if persistentConnReqs s k = None then [] else cs) s1)
      \<lparr>persistentConnReqs := (persistentConnReqs s)(k := None)\<rparr>"
    using cs idem unfolding cancelConnReqs_def s1
    by (auto simp: Let_def reqsOf_def s1_def calls_def split: option.split)
  then show ?thesis
    by (auto simp: s1_def calls_def intro!: exI [of _ "if persistentConnReqs s k = None then [] else cs"])
qed

lemma cancelConnReqs_fields [simp]:
  shows "conns (cancelConnReqs k skip s) = conns s" "s_nextRef (cancelConnReqs k skip s) = s_nextRef s"
    and "persistentConnReqs (cancelConnReqs k skip s) = (persistentConnReqs s)(k := None)"
    and "persistentRetryCancels (cancelConnReqs k skip s) = (persistentRetryCancels s)(k := None)"
    and "s_closedCancels (cancelConnReqs k skip s) = s_closedCancels s @ cancelOf k s"
    and "persistentPeers (cancelConnReqs k skip s) = persistentPeers s"
    and "persistentPeersBackoff (cancelConnReqs k skip s) = persistentPeersBackoff s"
    and "peerConnectedListeners (cancelConnReqs k skip s) = peerConnectedListeners s"
    and "s_notified (cancelConnReqs k skip s) = s_notified s"
    and "s_retries (cancelConnReqs k skip s) = s_retries s"
    and "s_reqs (cancelConnReqs k skip s) = s_reqs s"
    and "s_identity (cancelConnReqs k skip s) = s_identity s"
    and "set (s_calls s) \<subseteq> set (s_calls (cancelConnReqs k skip s))"
  using cancelConnReqs_shape [of k skip s] by (auto simp: conns_def)

lemma conns_parts:
  assumes "conns t = conns s"
  shows "s_shutdown t = s_shutdown s" "peersByPub t = peersByPub s" "inboundPeers t = inboundPeers s"
    "outboundPeers t = outboundPeers s" "s_watchers t = s_watchers s"
    "ignorePeerTermination t = ignorePeerTermination s" "s_disconnected t = s_disconnected s"
  using assms by (simp_all add: conns_def)

lemmas cancelConnReqs_conns [simp] = conns_parts [OF cancelConnReqs_fields(1)]

lemma addReq_fields [simp]:
  "conns (addReq k addr s) = conns s" "s_nextRef (addReq k addr s) = Suc (s_nextRef s)"
  "persistentConnReqs (addReq k addr s) = (persistentConnReqs s)(k \<mapsto> reqsOf k s @ [s_nextRef s])"
  "persistentRetryCancels (addReq k addr s) = persistentRetryCancels s"
  "s_closedCancels (addReq k addr s) = s_closedCancels s" "persistentPeers (addReq k addr s) = persistentPeers s"
  "persistentPeersBackoff (addReq k addr s) = persistentPeersBackoff s"
  "peerConnectedListeners (addReq k addr s) = peerConnectedListeners s" "s_notified (addReq k addr s) = s_notified s"
  "s_retries (addReq k addr s) = s_retries s" "s_calls (addReq k addr s) = s_calls s"
  by (simp_all add: addReq_def Let_def conns_def)

lemma keepPersistent_fields [simp]:
  "conns (keepPersistent k s) = conns s" "s_nextRef (keepPersistent k s) = s_nextRef s"
  "persistentConnReqs (keepPersistent k s) = persistentConnReqs s"
  "persistentRetryCancels (keepPersistent k s) = persistentRetryCancels s"
  "s_closedCancels (keepPersistent k s) = s_closedCancels s"
  "persistentPeers (keepPersistent k s) = insert k (persistentPeers s)"
  "peerConnectedListeners (keepPersistent k s) = peerConnectedListeners s"
  "s_notified (keepPersistent k s) = s_notified s" "s_retries (keepPersistent k s) = s_retries s"
  "s_calls (keepPersistent k s) = s_calls s"
  by (simp_all add: keepPersistent_def Let_def conns_def split: option.split)

lemma requestAddrs_conns [simp]:
  "conns (requestAddrs k pub addrs s) = conns s" "s_nextRef s \<le> s_nextRef (requestAddrs k pub addrs s)"
  by (induction addrs arbitrary: s) (simp_all, metis Suc_leD addReq_fields(2) conns_calls(2))

lemma requestNodes_conns [simp]:
  "conns (requestNodes m s) = conns s" "s_nextRef s \<le> s_nextRef (requestNodes m s)"
  by (induction m s rule: requestNodes.induct) (simp_all, metis keepPersistent_fields(2) order_trans requestAddrs_conns(2))

lemma startAll_calls: "\<exists>cs. snd (startAll st xs s) = calls cs s"
proof (induction xs arbitrary: s)
  case (Cons x xs)
  obtain cs where "snd (startAll st xs (calls [SubStart x] s)) = calls cs (calls [SubStart x] s)" using Cons by blast
  then show ?case by (cases "st x") (auto simp: calls_def intro: exI [of _ "[]"])
qed (auto simp: calls_def intro: exI [of _ "[]"])

lemma Disconnect_fields [simp]:
  "s_disconnected (Disconnect p s) = insert (p_ref p) (s_disconnected s)" "s_nextRef (Disconnect p s) = s_nextRef s"
  "s_shutdown (Disconnect p s) = s_shutdown s" "peersByPub (Disconnect p s) = peersByPub s"
  "inboundPeers (Disconnect p s) = inboundPeers s" "outboundPeers (Disconnect p s) = outboundPeers s"
  "s_watchers (Disconnect p s) = s_watchers s" "ignorePeerTermination (Disconnect p s) = ignorePeerTermination s"
  "persistentConnReqs (Disconnect p s) = persistentConnReqs s" "persistentPeers (Disconnect p s) = persistentPeers s"
  "persistentRetryCancels (Disconnect p s) = persistentRetryCancels s" "s_closedCancels (Disconnect p s) = s_closedCancels s"
  "persistentPeersBackoff (Disconnect p s) = persistentPeersBackoff s" "s_retries (Disconnect p s) = s_retries s"
  "peerConnectedListeners (Disconnect p s) = peerConnectedListeners s" "s_notified (Disconnect p s) = s_notified s"
  "set (s_calls s) \<subseteq> set (s_calls (Disconnect p s))"
  by (auto simp: Disconnect_def)

end
