(* ===== verification/ServerConns.thy ===== *)
theory ServerConns
  imports ServerSystem
begin

text \<open>
  The connections of the server are kept consistently: the index by public key, the two indexes by
  direction and the watchers agree, a watcher that is to be ignored belongs to a connection that
  was closed, and a node never has two open connections with a watcher.
\<close>

section \<open>The invariant\<close>

text \<open>
  The first part relates the indexes to the watchers, the second is about the watchers that are
  told to leave the bookkeeping alone, the third about the numbers given out.
\<close>

definition indexes_ok :: "server \<Rightarrow> bool" where
  "indexes_ok s \<longleftrightarrow>
     (\<forall>k p. map_of (peersByPub s) k = Some p \<longrightarrow>
        k = pubStr p \<and> p \<in> fst ` set (s_watchers s) \<and> p_ref p \<notin> ignorePeerTermination s) \<and>
     (\<forall>k p. inboundPeers s k = Some p \<longleftrightarrow> map_of (peersByPub s) k = Some p \<and> p_inbound p) \<and>
     (\<forall>k p. outboundPeers s k = Some p \<longleftrightarrow> map_of (peersByPub s) k = Some p \<and> \<not> p_inbound p)"

definition watchers_ok :: "server \<Rightarrow> bool" where
  "watchers_ok s \<longleftrightarrow>
     (\<forall>p \<in> fst ` set (s_watchers s). p_ref p \<notin> ignorePeerTermination s \<longrightarrow> map_of (peersByPub s) (pubStr p) = Some p) \<and>
     ignorePeerTermination s \<subseteq> s_disconnected s \<inter> p_ref ` fst ` set (s_watchers s)"

definition refs_ok :: "server \<Rightarrow> bool" where
  "refs_ok s \<longleftrightarrow>
     distinct (map (p_ref \<circ> fst) (s_watchers s)) \<and> s_disconnected s \<subseteq> {..<s_nextRef s} \<and>
     p_ref ` fst ` set (s_watchers s) \<subseteq> {..<s_nextRef s}"

definition conns_ok :: "server \<Rightarrow> bool" where
  "conns_ok s \<longleftrightarrow> s_shutdown s \<or> indexes_ok s \<and> watchers_ok s \<and> refs_ok s"

lemmas conns_ok_defs = conns_ok_def indexes_ok_def watchers_ok_def refs_ok_def

lemma conns_ok_shutdown: "s_shutdown s \<Longrightarrow> conns_ok s"
  by (simp add: conns_ok_def)

lemma conns_ok_cong:
  assumes "conns_ok s" "conns t = conns s" "s_nextRef s \<le> s_nextRef t"
  shows "conns_ok t"
  using assms(1,3) unfolding conns_ok_defs conns_parts [OF assms(2)] by fastforce

lemma watcher_by_ref:
  assumes "refs_ok s" "p \<in> fst ` set (s_watchers s)" "q \<in> fst ` set (s_watchers s)" "p_ref p = p_ref q"
  shows "p = q"
proof -
  obtain b c where "(p, b) \<in> set (s_watchers s)" "(q, c) \<in> set (s_watchers s)" using assms(2,3) by auto
  moreover have "inj_on (p_ref \<circ> fst) (set (s_watchers s))"
    using assms(1) by (simp add: refs_ok_def distinct_map)
  ultimately have "(p, b) = (q, c)"
    using assms(4) inj_onD [of "p_ref \<circ> fst" "set (s_watchers s)" "(p, b)" "(q, c)"] by simp
  then show ?thesis by simp
qed

section \<open>The operations on one connection\<close>

lemma Disconnect_ok:
  assumes "conns_ok s" "p_ref p < s_nextRef s"
  shows "conns_ok (Disconnect p s)"
  using assms by (auto simp: conns_ok_defs)

lemma removePeer_fields:
  assumes "\<not> s_shutdown s"
  shows "peersByPub (removePeer p s) = al_del (pubStr p) (peersByPub s)"
    and "inboundPeers (removePeer p s) = (if p_inbound p then (inboundPeers s)(pubStr p := None) else inboundPeers s)"
    and "outboundPeers (removePeer p s) = (if p_inbound p then outboundPeers s else (outboundPeers s)(pubStr p := None))"
    and "s_watchers (removePeer p s) = s_watchers s"
    and "ignorePeerTermination (removePeer p s) = ignorePeerTermination s"
    and "s_disconnected (removePeer p s) = insert (p_ref p) (s_disconnected s)"
    and "s_nextRef (removePeer p s) = s_nextRef s" and "s_shutdown (removePeer p s) = s_shutdown s"
  using assms by (auto simp: removePeer_def Let_def split: option.split)

lemma removePeer_other [simp]:
  "persistentConnReqs (removePeer p s) = persistentConnReqs s" "persistentPeers (removePeer p s) = persistentPeers s"
  "persistentRetryCancels (removePeer p s) = persistentRetryCancels s" "s_closedCancels (removePeer p s) = s_closedCancels s"
  "persistentPeersBackoff (removePeer p s) = persistentPeersBackoff s" "s_retries (removePeer p s) = s_retries s"
  "peerConnectedListeners (removePeer p s) = peerConnectedListeners s" "s_notified (removePeer p s) = s_notified s"
  "set (s_calls s) \<subseteq> set (s_calls (removePeer p s))" "s_shutdown (removePeer p s) = s_shutdown s"
  "s_nextRef (removePeer p s) = s_nextRef s"
  by (auto simp: removePeer_def Let_def Disconnect_def split: option.split)

text \<open>After the connection of a registered peer is dropped, the peer is not registered.\<close>

lemma dropStale_ok:
  assumes ok: "conns_ok s" and on: "\<not> s_shutdown s" and reg: "map_of (peersByPub s) k = Some p"
  shows "conns_ok (dropStale p s)" "map_of (peersByPub (dropStale p s)) k = None"
proof -
  have ix: "indexes_ok s" "watchers_ok s" "refs_ok s" using ok on by (auto simp: conns_ok_def)
  then have k: "k = pubStr p" "p \<in> fst ` set (s_watchers s)" using reg by (auto simp: indexes_ok_def)
  have fields: "peersByPub (dropStale p s) = al_del (pubStr p) (peersByPub s)"
    "s_watchers (dropStale p s) = s_watchers s" "s_nextRef (dropStale p s) = s_nextRef s"
    "ignorePeerTermination (dropStale p s) = insert (p_ref p) (ignorePeerTermination s)"
    "s_disconnected (dropStale p s) = insert (p_ref p) (s_disconnected s)"
    "inboundPeers (dropStale p s) = (if p_inbound p then (inboundPeers s)(pubStr p := None) else inboundPeers s)"
    "outboundPeers (dropStale p s) = (if p_inbound p then outboundPeers s else (outboundPeers s)(pubStr p := None))"
    using on by (simp_all add: dropStale_def Let_def removePeer_fields)
  show "map_of (peersByPub (dropStale p s)) k = None" using k by (simp add: fields)
  have same: "q = p" if "q \<in> fst ` set (s_watchers s)" "p_ref q = p_ref p" for q
    using watcher_by_ref [OF ix(3) that(1) k(2) that(2)] .
  have reg': "p_ref q \<noteq> p_ref p" if "map_of (peersByPub s) k' = Some q" "k' \<noteq> k" for k' q
  proof
    have q: "k' = pubStr q" "q \<in> fst ` set (s_watchers s)" using ix(1) that(1) by (auto simp: indexes_ok_def)
    assume "p_ref q = p_ref p"
    then show False using same [OF q(2)] q(1) k(1) that(2) by simp
  qed
  have map: "map_of (al_del (pubStr p) (peersByPub s)) k' = Some q \<longleftrightarrow> k' \<noteq> k \<and> map_of (peersByPub s) k' = Some q" for k' q
    using k(1) by simp
  have dir: "inboundPeers s k = (if p_inbound p then Some p else None)" "outboundPeers s k = (if p_inbound p then None else Some p)"
    using ix(1) reg unfolding indexes_ok_def by (metis option.exhaust option.inject)+
  have "indexes_ok (dropStale p s)"
    unfolding indexes_ok_def fields map k(1) [symmetric]
    using ix(1) reg' dir reg unfolding indexes_ok_def by (intro conjI allI) (simp_all add: fun_upd_def, blast+)
  moreover have "watchers_ok (dropStale p s)"
  proof -
    have "pubStr q \<noteq> k \<and> map_of (peersByPub s) (pubStr q) = Some q"
      if "q \<in> fst ` set (s_watchers s)" "p_ref q \<noteq> p_ref p" "p_ref q \<notin> ignorePeerTermination s" for q
      using ix(2) that reg unfolding watchers_ok_def by fastforce
    moreover have "ignorePeerTermination s \<subseteq> s_disconnected s \<inter> p_ref ` fst ` set (s_watchers s)"
      using ix(2) by (simp add: watchers_ok_def)
    ultimately show ?thesis using k(2) unfolding watchers_ok_def fields map by (intro conjI ballI impI) auto
  qed
  moreover have "refs_ok (dropStale p s)"
    using ix(3) k unfolding refs_ok_def fields by auto
  ultimately show "conns_ok (dropStale p s)" by (simp add: conns_ok_def)
qed

lemma addPeer_fields:
  assumes "\<not> s_shutdown s"
  shows "peersByPub (addPeer p s) = al_put (pubStr p) p (peersByPub s)"
    and "inboundPeers (addPeer p s) = (if p_inbound p then (inboundPeers s)(pubStr p \<mapsto> p) else inboundPeers s)"
    and "outboundPeers (addPeer p s) = (if p_inbound p then outboundPeers s else (outboundPeers s)(pubStr p \<mapsto> p))"
    and "s_watchers (addPeer p s) = s_watchers s @ [(p, False)]"
    and "ignorePeerTermination (addPeer p s) = ignorePeerTermination s"
    and "s_disconnected (addPeer p s) = s_disconnected s"
    and "s_nextRef (addPeer p s) = s_nextRef s" and "s_shutdown (addPeer p s) = s_shutdown s"
    and "s_notified (addPeer p s) = s_notified s @ listeners (pubStr p) s"
    and "peerConnectedListeners (addPeer p s) = (peerConnectedListeners s)(pubStr p := None)"
  using assms by (auto simp: addPeer_def Let_def listeners_def)

lemma addPeer_other [simp]:
  "persistentConnReqs (addPeer p s) = persistentConnReqs s" "persistentPeers (addPeer p s) = persistentPeers s"
  "persistentRetryCancels (addPeer p s) = persistentRetryCancels s" "s_closedCancels (addPeer p s) = s_closedCancels s"
  "persistentPeersBackoff (addPeer p s) = persistentPeersBackoff s" "s_retries (addPeer p s) = s_retries s"
  "set (s_calls s) \<subseteq> set (s_calls (addPeer p s))" "s_shutdown (addPeer p s) = s_shutdown s"
  by (auto simp: addPeer_def Let_def Disconnect_def)

text \<open>A peer with a new number, whose node is not registered, is registered.\<close>

lemma addPeer_ok:
  assumes ok: "conns_ok s" and on: "\<not> s_shutdown s" and free: "map_of (peersByPub s) (pubStr p) = None"
    and ref: "p_ref p \<notin> s_disconnected s" "p_ref p \<notin> p_ref ` fst ` set (s_watchers s)" "p_ref p < s_nextRef s"
  shows "conns_ok (addPeer p s)"
proof -
  have ix: "indexes_ok s" "watchers_ok s" "refs_ok s" using ok on by (auto simp: conns_ok_def)
  note fields = addPeer_fields [OF on, of p]
  have ign: "p_ref p \<notin> ignorePeerTermination s" using ix(2) ref(1) by (auto simp: watchers_ok_def)
  have "inboundPeers s (pubStr p) = None" "outboundPeers s (pubStr p) = None"
    using ix(1) free unfolding indexes_ok_def by (metis option.distinct(1) not_Some_eq)+
  then have "indexes_ok (addPeer p s)"
    using ix(1) ign free unfolding indexes_ok_def fields by auto
  moreover have "watchers_ok (addPeer p s)"
    using ix(2) free unfolding watchers_ok_def fields by auto
  moreover have "refs_ok (addPeer p s)"
    using ix(3) ref unfolding refs_ok_def fields by (auto simp: image_image)
  ultimately show ?thesis by (simp add: conns_ok_def)
qed

section \<open>Every step keeps it\<close>

lemma peerConnected_ok:
  assumes ok: "conns_ok s" and on: "\<not> s_shutdown s"
    and free: "map_of (peersByPub s) (SerializeCompressed (conn_RemotePub conn)) = None"
  shows "conns_ok (peerConnected env conn connReq inbound s)"
proof -
  have refs: "refs_ok s" using ok on by (auto simp: conns_ok_def)
  define p where "p = newPeer conn connReq \<lparr>na_IdentityKey = conn_RemotePub conn, na_Address = reconnectAddr env conn\<rparr>
    inbound (shouldRequestGraphSync s) (s_nextRef s)"
  obtain r w where st: "se_Start env p (s_htlcSwitch s) = (r, w)" by (cases "se_Start env p (s_htlcSwitch s)")
  define s1 where "s1 = s\<lparr>s_nextRef := Suc (s_nextRef s), s_htlcSwitch := w\<rparr>"
  have ok1: "conns_ok s1" by (rule conns_ok_cong [OF ok]) (simp_all add: s1_def conns_def)
  have p: "p_ref p = s_nextRef s" "pubStr p = SerializeCompressed (conn_RemotePub conn)"
    by (simp_all add: p_def newPeer_def pubStr_def)
  have eq: "peerConnected env conn connReq inbound s =
      (case r of Inl _ \<Rightarrow> Disconnect p s1 | Inr f \<Rightarrow> addPeer (p\<lparr>p_remoteSync := f\<rparr>) s1)"
    by (simp add: peerConnected_def Let_def p_def [symmetric] st s1_def split: sum.split)
  have "conns_ok (Disconnect p s1)"
    by (rule Disconnect_ok [OF ok1]) (simp add: p s1_def)
  moreover have "conns_ok (addPeer (p\<lparr>p_remoteSync := f\<rparr>) s1)" for f
    using refs free p by (intro addPeer_ok [OF ok1]) (auto simp: s1_def on pubStr_def refs_ok_def)
  ultimately show ?thesis by (simp add: eq split: sum.split)
qed

lemma findPeer_cases:
  "findPeerByPubStr k s = Inr p \<longleftrightarrow> map_of (peersByPub s) k = Some p"
  "findPeerByPubStr k s = Inl e \<longleftrightarrow> map_of (peersByPub s) k = None \<and> e = ErrPeerNotFound"
  by (auto simp: findPeerByPubStr_def split: option.split)

lemma conns_ok_calls: "conns_ok s \<Longrightarrow> conns_ok (calls cs s)"
  by (erule conns_ok_cong) simp_all

lemma conns_ok_cancel: "conns_ok s \<Longrightarrow> conns_ok (cancelConnReqs k skip s)"
  by (erule conns_ok_cong) simp_all

lemma dropStale_other [simp]:
  "s_shutdown (dropStale p s) = s_shutdown s" "s_nextRef (dropStale p s) = s_nextRef s"
  "persistentConnReqs (dropStale p s) = persistentConnReqs s" "persistentPeers (dropStale p s) = persistentPeers s"
  "persistentRetryCancels (dropStale p s) = persistentRetryCancels s" "s_closedCancels (dropStale p s) = s_closedCancels s"
  "persistentPeersBackoff (dropStale p s) = persistentPeersBackoff s" "s_retries (dropStale p s) = s_retries s"
  "peerConnectedListeners (dropStale p s) = peerConnectedListeners s" "s_notified (dropStale p s) = s_notified s"
  "set (s_calls s) \<subseteq> set (s_calls (dropStale p s))"
  by (simp_all add: dropStale_def Let_def)

lemma Inbound_ok:
  assumes "conns_ok s"
  shows "conns_ok (InboundPeerConnected env conn s)"
  using assms dropStale_ok [OF assms]
  by (auto simp: InboundPeerConnected_def Let_def findPeer_cases conns_ok_calls conns_ok_cancel
      intro!: peerConnected_ok split: sum.split)

lemma removeReqOf_calls: "\<exists>cs. removeReqOf connReq s = calls cs s"
  by (cases connReq) (auto simp: removeReqOf_def calls_def intro: exI [of _ "[]"])

lemma conns_ok_refuse: "conns_ok s \<Longrightarrow> conns_ok (calls cs (removeReqOf connReq s))"
  using removeReqOf_calls [of connReq s] conns_ok_calls by auto

lemma Outbound_ok:
  assumes "conns_ok s"
  shows "conns_ok (OutboundPeerConnected env connReq conn s)"
proof (cases "s_shutdown s")
  case on: False
  define s1 where "s1 = cancelConnReqs (SerializeCompressed (conn_RemotePub conn)) (map_option (\<lambda>r. connReq_ID r s) connReq) s"
  have ok1: "conns_ok s1" "\<not> s_shutdown s1" using assms on by (simp_all add: s1_def conns_ok_cancel)
  show ?thesis
    using on assms ok1 dropStale_ok [OF ok1]
    by (auto simp: OutboundPeerConnected_def Let_def s1_def [symmetric] findPeer_cases conns_ok_refuse
        intro!: peerConnected_ok split: sum.split)
qed (simp add: OutboundPeerConnected_def conns_ok_shutdown)

lemma DisconnectPeer_ok:
  assumes "conns_ok s"
  shows "conns_ok (snd (DisconnectPeer pubKey s))"
proof (cases "s_shutdown s")
  case True
  then show ?thesis by (auto simp: DisconnectPeer_def Let_def intro!: conns_ok_shutdown split: sum.split)
next
  case False
  define k where "k = SerializeCompressed pubKey"
  define s2 where "s2 = (cancelConnReqs k None s)\<lparr>persistentPeers := persistentPeers s - {k},
      persistentPeersBackoff := (persistentPeersBackoff s)(k := None)\<rparr>"
  have ok2: "conns_ok s2"
    by (rule conns_ok_cong [OF assms]) (use cancelConnReqs_fields(1) [of k None s] in \<open>simp_all add: s2_def conns_def\<close>)
  show ?thesis
    using False assms dropStale_ok(1) [OF ok2] 
    by (auto simp: DisconnectPeer_def Let_def k_def [symmetric] s2_def findPeer_cases split: sum.split)
qed

text \<open>The end of a watcher, with the registration of its peer or without.\<close>

lemma endWatcher_ok:
  assumes ok: "conns_ok s" and on: "\<not> s_shutdown s" and p: "p \<in> fst ` set (s_watchers s)"
    and ign: "p_ref p \<in> ignorePeerTermination s"
  shows "conns_ok (endWatcher p (s\<lparr>ignorePeerTermination := ignorePeerTermination s - {p_ref p}\<rparr>))"
proof -
  define t where "t = endWatcher p (s\<lparr>ignorePeerTermination := ignorePeerTermination s - {p_ref p}\<rparr>)"
  have ix: "indexes_ok s" "watchers_ok s" "refs_ok s" using ok on by (auto simp: conns_ok_def)
  have w: "q \<in> fst ` set (s_watchers t) \<longleftrightarrow> q \<in> fst ` set (s_watchers s) \<and> p_ref q \<noteq> p_ref p" for q
    by (auto simp: t_def endWatcher_def)
  have fields: "peersByPub t = peersByPub s" "inboundPeers t = inboundPeers s" "outboundPeers t = outboundPeers s"
    "ignorePeerTermination t = ignorePeerTermination s - {p_ref p}" "s_disconnected t = s_disconnected s"
    "s_nextRef t = s_nextRef s"
    by (simp_all add: t_def endWatcher_def)
  have "p_ref q \<noteq> p_ref p" if "map_of (peersByPub s) k = Some q" for k q
    using ix(1) ign that unfolding indexes_ok_def by metis
  then have "indexes_ok t" using ix(1) unfolding indexes_ok_def fields w by auto
  moreover have "watchers_ok t"
  proof -
    have "r \<in> p_ref ` fst ` set (s_watchers t)" if r: "r \<in> ignorePeerTermination s - {p_ref p}" for r
    proof -
      obtain q where "q \<in> fst ` set (s_watchers s)" "p_ref q = r" using ix(2) r unfolding watchers_ok_def by blast
      with r have "q \<in> fst ` set (s_watchers t)" by (simp only: w) simp
      with \<open>p_ref q = r\<close> show ?thesis by blast
    qed
    moreover have "\<forall>q \<in> fst ` set (s_watchers t). p_ref q \<notin> ignorePeerTermination s - {p_ref p} \<longrightarrow>
        map_of (peersByPub s) (pubStr q) = Some q"
      unfolding Ball_def w using ix(2) unfolding watchers_ok_def by auto
    moreover have "ignorePeerTermination s - {p_ref p} \<subseteq> s_disconnected s" using ix(2) unfolding watchers_ok_def by blast
    ultimately show ?thesis unfolding watchers_ok_def fields by (simp add: subset_iff)
  qed
  moreover have "refs_ok t"
    using ix(3) unfolding refs_ok_def fields by (auto simp: t_def endWatcher_def distinct_map_filter)
  ultimately show ?thesis by (simp add: conns_ok_def t_def)
qed

lemma removeEnd_ok:
  assumes ok: "conns_ok s" and on: "\<not> s_shutdown s" and p: "p \<in> fst ` set (s_watchers s)"
    and ign: "p_ref p \<notin> ignorePeerTermination s"
  shows "conns_ok (endWatcher p (removePeer p s))"
proof -
  have ix: "indexes_ok s" "watchers_ok s" "refs_ok s" using ok on by (auto simp: conns_ok_def)
  have reg: "map_of (peersByPub s) (pubStr p) = Some p" using ix(2) p ign by (auto simp: watchers_ok_def)
  define d where "d = dropStale p s"
  have "conns_ok d" "\<not> s_shutdown d" using dropStale_ok(1) [OF ok on reg] on by (simp_all add: d_def)
  moreover have "p \<in> fst ` set (s_watchers d)" "p_ref p \<in> ignorePeerTermination d"
    using on p by (simp_all add: d_def dropStale_def Let_def removePeer_fields)
  ultimately have "conns_ok (endWatcher p (d\<lparr>ignorePeerTermination := ignorePeerTermination d - {p_ref p}\<rparr>))"
    by (rule endWatcher_ok)
  moreover have "conns (endWatcher p (removePeer p s)) = conns (endWatcher p (d\<lparr>ignorePeerTermination := ignorePeerTermination d - {p_ref p}\<rparr>))"
    using on ign by (simp add: conns_def endWatcher_def d_def dropStale_def Let_def removePeer_fields)
  ultimately show ?thesis
    by (rule conns_ok_cong) (simp add: endWatcher_def d_def)
qed

lemma reconnect_conns:
  "conns (snd (watcherReconnect env p s)) = conns s" "s_nextRef s \<le> s_nextRef (snd (watcherReconnect env p s))"
  using addReq_fields(1) [of "pubStr p" "p_addr p" s]
  by (auto simp: watcherReconnect_def Let_def conns_def split: sum.split option.split)

lemma watcherFinish_ok:
  assumes ok: "conns_ok s" and p: "p \<in> fst ` set (s_watchers s)"
  shows "conns_ok (endWatcher p (snd (watcherFinish env p s)))"
proof (cases "s_shutdown s")
  case True
  have "s_shutdown (snd (watcherReconnect env p (removePeer p s)))"
    using conns_parts(1) [OF reconnect_conns(1)] True by simp
  with True have "s_shutdown (snd (watcherFinish env p s))" by (simp add: watcherFinish_def Let_def)
  then show ?thesis by (simp add: conns_ok_def endWatcher_def)
next
  case on: False
  show ?thesis
  proof (cases "p_ref p \<in> ignorePeerTermination s")
    case True
    then show ?thesis using endWatcher_ok [OF ok on p] by (simp add: watcherFinish_def)
  next
    case False
    let ?t = "snd (watcherFinish env p s)"
    have "conns ?t = conns (removePeer p s)" "s_nextRef (removePeer p s) \<le> s_nextRef ?t"
      using False reconnect_conns(1) reconnect_conns(2) [of "removePeer p s" env p]
      by (auto simp: watcherFinish_def Let_def)
    then have "conns (endWatcher p ?t) = conns (endWatcher p (removePeer p s))"
      "s_nextRef (endWatcher p (removePeer p s)) \<le> s_nextRef (endWatcher p ?t)"
      by (simp_all add: conns_def endWatcher_def)
    then show ?thesis by (rule conns_ok_cong [OF removeEnd_ok [OF ok on p False]])
  qed
qed

lemma markWatcher_ok:
  assumes "conns_ok s"
  shows "conns_ok (markWatcher p (watcherCleanup p s))"
proof -
  let ?t = "markWatcher p (watcherCleanup p s)"
  have ws: "map fst (s_watchers ?t) = map fst (s_watchers s)"
    by (simp add: markWatcher_def watcherCleanup_def Let_def)
  have w: "fst ` set (s_watchers ?t) = fst ` set (s_watchers s)" using arg_cong [OF ws, of set] by simp
  have d: "map (p_ref \<circ> fst) (s_watchers ?t) = map (p_ref \<circ> fst) (s_watchers s)"
    using arg_cong [OF ws, of "map p_ref"] by simp
  show ?thesis
    using assms unfolding conns_ok_defs w d by (simp add: markWatcher_def watcherCleanup_def Let_def)
qed

lemma disconnectAll_shutdown: "s_shutdown s \<Longrightarrow> s_shutdown (disconnectAll ps s)"
proof (induction ps arbitrary: s)
  case (Cons p ps)
  have "s_shutdown (snd (DisconnectPeer (na_IdentityKey (p_addr p)) s))"
    using Cons.prems by (auto simp: DisconnectPeer_def Let_def split: sum.split)
  then show ?case using Cons.IH by simp
qed simp

lemma Stop_shutdown: "s_shutdown (server_Stop s)"
  by (simp add: server_Stop_def Let_def disconnectAll_shutdown)

lemma establish_conns:
  "conns (snd (establishPersistentConnections env s)) = conns s"
  "s_nextRef s \<le> s_nextRef (snd (establishPersistentConnections env s))"
  by (auto simp: establishPersistentConnections_def split: sum.split)

lemma Start_conns:
  "conns (snd (server_Start env s)) = conns s" "s_nextRef s \<le> s_nextRef (snd (server_Start env s))"
proof -
  define r where "r = startAll (se_subsystem_Start env) startOrder (s\<lparr>s_started := True\<rparr>)"
  have r: "conns (snd r) = conns s" "s_nextRef (snd r) = s_nextRef s"
    using startAll_calls [of "se_subsystem_Start env" startOrder "s\<lparr>s_started := True\<rparr>"]
    by (auto simp: r_def conns_def)
  define e where "e = establishPersistentConnections env (snd r)"
  have e: "conns (snd e) = conns s" "s_nextRef s \<le> s_nextRef (snd e)"
    using establish_conns(1) [of env "snd r"] establish_conns(2) [of "snd r" env] r by (simp_all add: e_def)
  show "conns (snd (server_Start env s)) = conns s" "s_nextRef s \<le> s_nextRef (snd (server_Start env s))"
    using r e unfolding server_Start_def r_def [symmetric]
    by (auto simp: Let_def e_def split: prod.split sum.split option.split)
qed

lemma Connect_ok:
  assumes "conns_ok s"
  shows "conns_ok (snd (ConnectToPeer env addr perm s))"
proof -
  have "conns_ok (calls cs (addReq k addr (keepPersistent k s)))" for cs k
    by (rule conns_ok_calls, rule conns_ok_cong [OF assms]) simp_all
  then show ?thesis
    using assms by (auto simp: ConnectToPeer_def Let_def Outbound_ok split: sum.split)
qed

lemma conns_ok_step: "srv_step P s t \<Longrightarrow> conns_ok s \<Longrightarrow> conns_ok t"
proof (induction rule: srv_step.induct)
  case (lost p b s)
  show ?case
  proof (cases "s_shutdown s")
    case False
    then have "refs_ok s" using lost by (simp add: conns_ok_def)
    moreover have "p_ref p \<in> p_ref ` fst ` set (s_watchers s)" using lost(1) by (metis fst_conv image_eqI)
    ultimately have "p_ref p < s_nextRef s" unfolding refs_ok_def by blast
    then show ?thesis using Disconnect_ok [OF lost(2)] by simp
  qed (simp add: conns_ok_def)
next
  case (cleanup p s)
  then show ?case using markWatcher_ok by (auto simp: endWatcher_def conns_ok_def)
next
  case (finish env p s)
  then show ?case by (force intro!: watcherFinish_ok)
next
  case (start env s)
  then show ?case using conns_ok_cong Start_conns by blast
next
  case (stop s)
  then show ?case by (simp add: conns_ok_shutdown Stop_shutdown)
qed (auto simp: Inbound_ok Outbound_ok Connect_ok DisconnectPeer_ok retryFires_def retryCancelled_def assignID_def
    NotifyWhenOnline_def Let_def conns_def intro!: conns_ok_calls elim!: conns_ok_cong)

lemma conns_ok_init: "conns_ok (newServer identity f w)"
  by (simp add: conns_ok_defs newServer_def)

interpretation connections: server_invariant P conns_ok for P
  using conns_ok_init conns_ok_step by unfold_locales

text \<open>A connection that is open and watched is the one its node is registered with.\<close>

lemma open_is_registered:
  assumes "conns_ok s" "\<not> s_shutdown s" "p \<in> fst ` set (s_watchers s)" "p_ref p \<notin> s_disconnected s"
  shows "map_of (peersByPub s) (pubStr p) = Some p"
proof -
  have "watchers_ok s" using assms by (simp add: conns_ok_def)
  then show ?thesis using assms(3,4) unfolding watchers_ok_def by blast
qed

end
