(* ===== verification/ServerKeep.thy ===== *)
theory ServerKeep
  imports ServerConns
begin

text \<open>
  Persistent peers are not forgotten: as long as every connection that comes up can be started,
  such a peer is connected, or has a request that was handed to the connection manager or that a
  goroutine will hand to it, unless the wait is cancelled. The backoff of a peer stays between
  the default and a bound above the maximum, and no channel that cancels a retry is closed twice.
  That the connection manager keeps such a request is shown in \<^verbatim>\<open>ServerPursuit\<close>, under conditions on
  the connection manager.
\<close>

section \<open>The invariant\<close>

definition backoff_ok :: "server \<Rightarrow> bool" where
  "backoff_ok s \<longleftrightarrow>
     (\<forall>k b. persistentPeersBackoff s k = Some b \<longrightarrow> (\<exists>c. b = word_of_int c \<and> 1000000000 \<le> c \<and> c \<le> 3780000000000))"

definition cancels_ok :: "server \<Rightarrow> bool" where
  "cancels_ok s \<longleftrightarrow>
     distinct (s_closedCancels s) \<and> set (s_closedCancels s) \<subseteq> {..<s_nextRef s} \<and>
     (\<forall>k c. persistentRetryCancels s k = Some c \<longrightarrow> c \<notin> set (s_closedCancels s) \<and> c < s_nextRef s) \<and>
     (\<forall>k k' c. persistentRetryCancels s k = Some c \<longrightarrow> persistentRetryCancels s k' = Some c \<longrightarrow> k = k')"

definition pursued :: "bytes \<Rightarrow> nat \<Rightarrow> server \<Rightarrow> bool" where
  "pursued k r s \<longleftrightarrow>
     ConnMgrConnect r \<in> set (s_calls s) \<or>
     (\<exists>c. (k, r, c) \<in> set (s_retries s) \<and> persistentRetryCancels s k = Some c)"

definition reqs_ok :: "server \<Rightarrow> bool" where
  "reqs_ok s \<longleftrightarrow>
     (\<forall>k rs. persistentConnReqs s k = Some rs \<longrightarrow> rs \<noteq> [] \<and> (\<forall>r \<in> set rs. pursued k r s))"

definition attended :: "bytes \<Rightarrow> server \<Rightarrow> bool" where
  "attended k s \<longleftrightarrow> map_of (peersByPub s) k \<noteq> None \<or> persistentConnReqs s k \<noteq> None"

text \<open>The nodes in \<open>A\<close> are left out while an operation works on them.\<close>

definition keep_but :: "bytes set \<Rightarrow> server \<Rightarrow> bool" where
  "keep_but A s \<longleftrightarrow> s_shutdown s \<or>
     backoff_ok s \<and> cancels_ok s \<and> reqs_ok s \<and> (\<forall>k \<in> persistentPeers s - A. attended k s)"

abbreviation keep_ok :: "server \<Rightarrow> bool" where "keep_ok \<equiv> keep_but {}"

lemmas keep_defs = keep_but_def backoff_ok_def cancels_ok_def reqs_ok_def pursued_def attended_def

lemma keep_shutdown: "s_shutdown s \<Longrightarrow> keep_but A s"
  by (simp add: keep_but_def)

lemma keep_mono: "keep_but A s \<Longrightarrow> A \<subseteq> B \<Longrightarrow> keep_but B s"
  by (auto simp: keep_but_def)

text \<open>What the invariant does not depend on.\<close>

lemma keep_cong:
  assumes "keep_but A s" "s_shutdown t = s_shutdown s" "persistentPeers t = persistentPeers s"
    "persistentPeersBackoff t = persistentPeersBackoff s" "persistentConnReqs t = persistentConnReqs s"
    "persistentRetryCancels t = persistentRetryCancels s" "s_closedCancels t = s_closedCancels s"
    "s_retries t = s_retries s" "set (s_calls s) \<subseteq> set (s_calls t)" "s_nextRef s \<le> s_nextRef t"
    "\<forall>k \<in> - B. map_of (peersByPub s) k \<noteq> None \<longrightarrow> map_of (peersByPub t) k \<noteq> None"
  shows "keep_but (A \<union> B) t"
proof (cases "s_shutdown s")
  case False
  with assms(1) have s: "backoff_ok s" "cancels_ok s" "reqs_ok s" "\<forall>k \<in> persistentPeers s - A. attended k s"
    by (auto simp: keep_but_def)
  have "backoff_ok t" using s(1) by (simp add: backoff_ok_def assms)
  moreover have "cancels_ok t"
  proof -
    have lt: "i < s_nextRef s \<Longrightarrow> i < s_nextRef t" for i using assms(10) by simp
    show ?thesis using s(2) lt unfolding cancels_ok_def assms(6,7) by (simp add: subset_iff)
  qed
  moreover have "reqs_ok t" using s(3) assms(9) unfolding reqs_ok_def pursued_def assms(5,6,8) by blast
  moreover have "\<forall>k \<in> persistentPeers t - (A \<union> B). attended k t"
    using s(4) assms(11) unfolding attended_def assms(3,5) by blast
  ultimately show ?thesis by (simp add: keep_but_def)
qed (simp add: keep_but_def assms)

lemma keep_calls: "keep_but A s \<Longrightarrow> keep_but A (calls cs s)"
  using keep_cong [of A s "calls cs s" "{}"] by simp

section \<open>The operations\<close>

lemma keep_cancel:
  assumes keep: "keep_but A s"
  shows "keep_but (insert k A) (cancelConnReqs k skip s)"
proof (cases "s_shutdown s")
  case False
  define t where "t = cancelConnReqs k skip s"
  have s: "backoff_ok s" "cancels_ok s" "reqs_ok s" "\<forall>k \<in> persistentPeers s - A. attended k s"
    using keep False by (auto simp: keep_but_def)
  have "backoff_ok t" using s(1) by (simp add: backoff_ok_def t_def)
  moreover have "cancels_ok t"
  proof (cases "persistentRetryCancels s k")
    case None
    then show ?thesis using s(2) by (simp add: cancels_ok_def t_def cancelOf_def fun_upd_idem)
  next
    case (Some c)
    then have c: "c \<notin> set (s_closedCancels s)" "c < s_nextRef s"
      and other: "k' \<noteq> k \<Longrightarrow> persistentRetryCancels s k' = Some d \<Longrightarrow> d \<noteq> c" for k' d
      using s(2) by (auto simp: cancels_ok_def)
    show ?thesis
      using s(2) c other unfolding cancels_ok_def by (auto simp: t_def cancelOf_def Some)
  qed
  moreover have "reqs_ok t"
  proof -
    have "ConnMgrConnect r \<in> set (s_calls s) \<Longrightarrow> ConnMgrConnect r \<in> set (s_calls t)" for r
      unfolding t_def by (rule subsetD [OF cancelConnReqs_fields(13)])
    then have "pursued k' r s \<Longrightarrow> k' \<noteq> k \<Longrightarrow> pursued k' r t" for k' r
      by (auto simp: pursued_def t_def)
    moreover have "persistentConnReqs t k' = Some rs \<longleftrightarrow> k' \<noteq> k \<and> persistentConnReqs s k' = Some rs" for k' rs
      by (simp add: t_def)
    ultimately show ?thesis using s(3) unfolding reqs_ok_def by blast
  qed
  moreover have "\<forall>k' \<in> persistentPeers t - insert k A. attended k' t"
    using s(4) by (auto simp: t_def attended_def)
  ultimately show ?thesis by (simp add: keep_but_def t_def)
qed (simp add: keep_but_def)

lemma keep_cancel_registered:
  assumes "keep_but A s" "map_of (peersByPub s) k \<noteq> None"
  shows "keep_but A (cancelConnReqs k skip s)"
  using keep_cancel [OF assms(1), of k skip] assms(2) by (auto simp: keep_but_def attended_def)

lemma keep_dropStale:
  assumes "keep_but A s"
  shows "keep_but (insert (pubStr p) A) (dropStale p s)"
proof (cases "s_shutdown s")
  case False
  have "keep_but (A \<union> {pubStr p}) (dropStale p s)"
    by (rule keep_cong [OF assms])
      (auto simp: dropStale_def Let_def removePeer_fields [OF False] subset_iff intro: subsetD [OF removePeer_other(9)])
  then show ?thesis by simp
qed (simp add: keep_but_def)

text \<open>The environments in which every connection can be started.\<close>

definition starts_ok :: "serverEnv \<Rightarrow> bool" where
  "starts_ok env \<longleftrightarrow> (\<forall>p w. \<exists>f w'. se_Start env p w = (Inr f, w'))"

lemma keep_peerConnected:
  assumes "keep_but A s" "starts_ok env"
  shows "keep_but (A - {SerializeCompressed (conn_RemotePub conn)}) (peerConnected env conn connReq inbound s)"
proof (cases "s_shutdown s")
  case False
  define p where "p = newPeer conn connReq \<lparr>na_IdentityKey = conn_RemotePub conn, na_Address = reconnectAddr env conn\<rparr>
    inbound (shouldRequestGraphSync s) (s_nextRef s)"
  obtain f w where st: "se_Start env p (s_htlcSwitch s) = (Inr f, w)"
    using assms(2) unfolding starts_ok_def by blast
  define s1 where "s1 = s\<lparr>s_nextRef := Suc (s_nextRef s), s_htlcSwitch := w\<rparr>"
  have p: "pubStr (p\<lparr>p_remoteSync := f\<rparr>) = SerializeCompressed (conn_RemotePub conn)"
    by (simp add: p_def newPeer_def pubStr_def)
  have on1: "\<not> s_shutdown s1" using False by (simp add: s1_def)
  have eq: "peerConnected env conn connReq inbound s = addPeer (p\<lparr>p_remoteSync := f\<rparr>) s1"
    by (simp add: peerConnected_def Let_def p_def [symmetric] st s1_def)
  have "keep_but (A \<union> {}) s1" by (rule keep_cong [OF assms(1)]) (simp_all add: s1_def)
  then have "keep_but (A \<union> {} \<union> {}) (addPeer (p\<lparr>p_remoteSync := f\<rparr>) s1)"
    by (rule keep_cong) (simp_all add: addPeer_fields [OF on1])
  moreover have "map_of (peersByPub (addPeer (p\<lparr>p_remoteSync := f\<rparr>) s1)) (SerializeCompressed (conn_RemotePub conn)) \<noteq> None"
    by (simp add: addPeer_fields [OF on1] p)
  ultimately show ?thesis unfolding eq by (auto simp: keep_but_def attended_def)
next
  case True
  then have "s_shutdown (peerConnected env conn connReq inbound s)"
    by (simp add: peerConnected_def Let_def split: prod.split sum.split)
  then show ?thesis by (rule keep_shutdown)
qed

lemma keep_Inbound:
  assumes "conns_ok s" "keep_ok s" "starts_ok env"
  shows "keep_ok (InboundPeerConnected env conn s)"
proof (cases "s_shutdown s")
  case on: False
  define k where "k = SerializeCompressed (conn_RemotePub conn)"
  have fresh: "keep_ok (peerConnected env conn None False (cancelConnReqs k None s))"
    using keep_peerConnected [OF keep_cancel [OF assms(2), of k None] assms(3), where conn = conn] by (simp add: k_def)
  have stale: "keep_ok (peerConnected env conn None False (cancelConnReqs k None (dropStale p s)))"
    if "map_of (peersByPub s) k = Some p" for p
  proof -
    have "pubStr p = k" using that assms(1) on by (auto simp: conns_ok_def indexes_ok_def)
    then show ?thesis
      using keep_peerConnected [OF keep_cancel [OF keep_dropStale [OF assms(2), of p], of k None] assms(3), where conn = conn]
      by (simp add: k_def)
  qed
  show ?thesis
    using fresh stale assms(2) on
    by (simp add: InboundPeerConnected_def Let_def k_def [symmetric] keep_calls findPeerByPubStr_def split: option.split)
qed (simp add: InboundPeerConnected_def keep_shutdown)

lemma keep_refuse: "keep_but A s \<Longrightarrow> keep_but A (calls cs (removeReqOf connReq s))"
  using removeReqOf_calls [of connReq s] keep_calls by auto

lemma keep_Outbound:
  assumes "conns_ok s" "keep_ok s" "starts_ok env"
  shows "keep_ok (OutboundPeerConnected env connReq conn s)"
proof (cases "s_shutdown s")
  case on: False
  define k where "k = SerializeCompressed (conn_RemotePub conn)"
  define s1 where "s1 = cancelConnReqs k (map_option (\<lambda>r. connReq_ID r s) connReq) s"
  have on1: "\<not> s_shutdown s1" "conns_ok s1" using on assms(1) by (simp_all add: s1_def conns_ok_cancel)
  have keep1: "keep_but {k} s1" using keep_cancel [OF assms(2)] by (simp add: s1_def)
  have fresh: "keep_ok (peerConnected env conn connReq True s1)"
    using keep_peerConnected [OF keep1 assms(3), where conn = conn] by (simp add: k_def)
  have stale: "keep_ok (peerConnected env conn connReq True (dropStale p s1))"
    if "map_of (peersByPub s1) k = Some p" for p
  proof -
    have "pubStr p = k" using that on1 by (auto simp: conns_ok_def indexes_ok_def)
    then show ?thesis
      using keep_peerConnected [OF keep_dropStale [OF keep1, of p] assms(3), where conn = conn] by (simp add: k_def)
  qed
  have refused: "keep_ok (calls cs (removeReqOf connReq s1))" if "map_of (peersByPub s1) k \<noteq> None" for cs
    using that keep_refuse [OF keep_cancel_registered [OF assms(2)]] by (simp add: s1_def)
  show ?thesis
    using fresh stale refused keep_refuse [OF assms(2)] on
    by (auto simp: OutboundPeerConnected_def Let_def k_def [symmetric] s1_def [symmetric] findPeerByPubStr_def
        split: option.split)
qed (simp add: OutboundPeerConnected_def keep_shutdown)

lemma keep_Disconnect:
  assumes "conns_ok s" "keep_ok s"
  shows "keep_ok (snd (DisconnectPeer pubKey s))"
proof (cases "s_shutdown s \<or> map_of (peersByPub s) (SerializeCompressed pubKey) = None")
  case True
  then show ?thesis
    using assms(2) by (auto simp: DisconnectPeer_def Let_def findPeerByPubStr_def intro!: keep_shutdown split: option.split)
next
  case False
  define k where "k = SerializeCompressed pubKey"
  obtain p where reg: "map_of (peersByPub s) k = Some p" using False by (auto simp: k_def)
  then have p: "pubStr p = k" using assms(1) False by (auto simp: conns_ok_def indexes_ok_def)
  define s1 where "s1 = cancelConnReqs k None s"
  define s2 where "s2 = s1\<lparr>persistentPeers := persistentPeers s1 - {k}, persistentPeersBackoff := (persistentPeersBackoff s1)(k := None)\<rparr>"
  have "keep_but {k} s1" using keep_cancel [OF assms(2)] by (simp add: s1_def)
  then have "keep_but {k} s2" by (auto simp: keep_defs s2_def)
  then have "keep_but {k} (dropStale p s2)" using keep_dropStale [of "{k}" s2 p] p by simp
  moreover have "k \<notin> persistentPeers (dropStale p s2)" by (simp add: s2_def)
  ultimately have "keep_ok (dropStale p s2)" by (auto simp: keep_but_def)
  moreover have "snd (DisconnectPeer pubKey s) = dropStale p s2"
    using reg by (simp add: DisconnectPeer_def Let_def k_def [symmetric] findPeerByPubStr_def s2_def s1_def)
  ultimately show ?thesis by simp
qed

text \<open>A request that is handed to the connection manager at once.\<close>

lemma keep_addReq:
  assumes "keep_but A s"
  shows "keep_but (A - {k}) (calls [ConnMgrConnect (s_nextRef s)] (addReq k addr s))"
proof (cases "s_shutdown s")
  case True
  then show ?thesis using conns_parts(1) [OF addReq_fields(1)] by (simp add: keep_but_def)
next
  case False
  define t where "t = calls [ConnMgrConnect (s_nextRef s)] (addReq k addr s)"
  have s: "backoff_ok s" "cancels_ok s" "reqs_ok s" "\<forall>k \<in> persistentPeers s - A. attended k s"
    using assms False by (auto simp: keep_but_def)
  have "backoff_ok t" "cancels_ok t"
    using s(1,2) by (auto simp: t_def backoff_ok_def cancels_ok_def intro: less_SucI)
  moreover have new: "pursued k (s_nextRef s) t" by (simp add: pursued_def t_def)
  have creqs: "persistentConnReqs t = (persistentConnReqs s)(k \<mapsto> reqsOf k s @ [s_nextRef s])" by (simp add: t_def)
  have "pursued k' r t" if "pursued k' r s" for k' r
    using that by (auto simp: pursued_def t_def)
  then have "reqs_ok t"
    using s(3) new unfolding reqs_ok_def by (cases "persistentConnReqs s k") (auto simp: reqsOf_def creqs)
  moreover have "\<forall>k' \<in> persistentPeers t - (A - {k}). attended k' t"
    using s(4) conns_parts(2) [OF addReq_fields(1)] by (auto simp: t_def attended_def)
  ultimately show ?thesis by (simp add: keep_but_def t_def)
qed

lemma keep_persistent:
  assumes "keep_but A s"
  shows "keep_but (insert k A) (keepPersistent k s)"
proof (cases "s_shutdown s")
  case True
  then show ?thesis using conns_parts(1) [OF keepPersistent_fields(1)] by (simp add: keep_but_def)
next
  case False
  define t where "t = keepPersistent k s"
  have s: "backoff_ok s" "cancels_ok s" "reqs_ok s" "\<forall>k \<in> persistentPeers s - A. attended k s"
    using assms False by (auto simp: keep_but_def)
  have "backoff_ok t"
    using s(1) unfolding backoff_ok_def t_def keepPersistent_def Let_def
    by (auto simp: defaultBackoff_def split: option.split intro!: exI [of _ 1000000000])
  moreover have "cancels_ok t" "reqs_ok t"
    using s(2,3) by (simp_all add: cancels_ok_def reqs_ok_def pursued_def t_def)
  moreover have "\<forall>k' \<in> persistentPeers t - insert k A. attended k' t"
    using s(4) conns_parts(2) [OF keepPersistent_fields(1)] by (auto simp: attended_def t_def)
  ultimately show ?thesis by (simp add: keep_but_def t_def)
qed

lemma keep_Connect:
  assumes "conns_ok s" "keep_ok s" "starts_ok env"
  shows "keep_ok (snd (ConnectToPeer env addr perm s))"
proof -
  define k where "k = SerializeCompressed (na_IdentityKey addr)"
  have "keep_ok (calls [ConnMgrConnect (s_nextRef s)] (addReq k addr (keepPersistent k s)))"
    using keep_addReq [OF keep_persistent [OF assms(2)], of k k addr] by simp
  then show ?thesis
    using assms by (auto simp: ConnectToPeer_def Let_def k_def keep_Outbound split: sum.split)
qed

section \<open>Watchers, retries and the start\<close>

definition in_range :: "int \<Rightarrow> bool" where
  "in_range c \<longleftrightarrow> 1000000000 \<le> c \<and> c \<le> 3780000000000"

lemma next_in_range:
  assumes "in_range c"
  shows "in_range (doubled c)" "in_range (backoffFrom c)"
proof -
  define n where "n = doubled c"
  have n: "1000000000 \<le> n" "n \<le> 3600000000000"
    using assms by (simp_all add: n_def in_range_def doubled_def sint_maximumBackoff)
  then show "in_range (doubled c)" by (simp add: n_def in_range_def)
  define m where "m = n div 10"
  have m: "0 \<le> m" "m \<le> 360000000000" using n zdiv_mono1 [of n 3600000000000 10] by (simp_all add: m_def)
  have q: "0 \<le> m - m div 2" "m - m div 2 \<le> 180000000000"
    using m div_mult_mod_eq [of m 2] pos_mod_bound [of 2 m] pos_mod_sign [of 2 m] by linarith+
  show "in_range (backoffFrom c)"
    using n q unfolding backoffFrom_def n_def [symmetric] Let_def in_range_def m_def [symmetric] by linarith
qed

lemma nextPeerBackoff_ok:
  assumes "backoff_ok s"
  shows "\<exists>c. nextPeerBackoff env k s = Inr (word_of_int c) \<and> in_range c"
proof (cases "persistentPeersBackoff s k")
  case None
  then show ?thesis
    by (intro exI [of _ 1000000000]) (simp add: nextPeerBackoff_def defaultBackoff_def in_range_def)
next
  case (Some b)
  then obtain c where c: "b = word_of_int c" "in_range c" using assms by (auto simp: backoff_ok_def in_range_def)
  then have "5 \<le> c" "c < 2 ^ 62" by (simp_all add: in_range_def)
  from computeNextBackoff_int [OF this, of "se_rand_Int env"] next_in_range [OF c(2)] show ?thesis
    by (auto simp: nextPeerBackoff_def Some c(1) split: sum.split)
qed

lemma keep_reconnect:
  assumes keep: "keep_but A s" and none: "persistentConnReqs s (pubStr p) = None"
  shows "keep_but (A - {pubStr p}) (snd (watcherReconnect env p s))"
proof (cases "s_shutdown s")
  case True
  then show ?thesis using conns_parts(1) [OF reconnect_conns(1)] by (simp add: keep_but_def)
next
  case False
  define k where "k = pubStr p"
  define t where "t = snd (watcherReconnect env p s)"
  have s: "backoff_ok s" "cancels_ok s" "reqs_ok s" "\<forall>k \<in> persistentPeers s - A. attended k s"
    using keep False by (auto simp: keep_but_def)
  have "backoff_ok (addReq k (p_addr p) s)" using s(1) by (simp add: backoff_ok_def)
  then obtain b where b: "nextPeerBackoff env k (addReq k (p_addr p) s) = Inr (word_of_int b)" "in_range b"
    using nextPeerBackoff_ok by blast
  define c where "c = (case persistentRetryCancels s k of None \<Rightarrow> Suc (s_nextRef s) | Some c \<Rightarrow> c)"
  have fields: "persistentPeers t = persistentPeers s"
    "persistentPeersBackoff t = (persistentPeersBackoff s)(k \<mapsto> word_of_int b)"
    "persistentConnReqs t = (persistentConnReqs s)(k \<mapsto> [s_nextRef s])"
    "persistentRetryCancels t = (persistentRetryCancels s)(k \<mapsto> c)" "s_closedCancels t = s_closedCancels s"
    "s_retries t = s_retries s @ [(k, s_nextRef s, c)]" "s_calls t = s_calls s" "peersByPub t = peersByPub s"
    "s_nextRef t = (if persistentRetryCancels s k = None then Suc (Suc (s_nextRef s)) else Suc (s_nextRef s))"
    using b(1) none conns_parts(2) [OF addReq_fields(1), of k "p_addr p" s]
    by (auto simp: t_def watcherReconnect_def Let_def k_def [symmetric] c_def reqsOf_def fun_upd_idem split: option.split)
  have "backoff_ok t" using s(1) b(2) by (auto simp: backoff_ok_def fields in_range_def)
  moreover have "cancels_ok t"
  proof (cases "persistentRetryCancels s k")
    case None
    then have c: "c = Suc (s_nextRef s)" "s_nextRef t = Suc (Suc (s_nextRef s))" by (simp_all add: c_def fields)
    have old: "d \<notin> set (s_closedCancels s) \<and> d < s_nextRef s" if "persistentRetryCancels s k' = Some d" for k' d
      using s(2) that by (simp add: cancels_ok_def)
    have inj: "k' = k''" if "persistentRetryCancels s k' = Some d" "persistentRetryCancels s k'' = Some d" for k' k'' d
      using s(2) that unfolding cancels_ok_def by blast
    have closed: "distinct (s_closedCancels s)" "i \<in> set (s_closedCancels s) \<Longrightarrow> i < s_nextRef s" for i
      using s(2) by (auto simp: cancels_ok_def)
    show ?thesis
      unfolding cancels_ok_def fields(4,5)
    proof (intro conjI allI impI)
      fix k' d assume "((persistentRetryCancels s)(k \<mapsto> c)) k' = Some d"
      then show "d \<notin> set (s_closedCancels s)" "d < s_nextRef t"
        using old [of k' d] closed(2) [of d] by (auto simp: c split: if_splits)
    next
      fix k' k'' d
      assume "((persistentRetryCancels s)(k \<mapsto> c)) k' = Some d" "((persistentRetryCancels s)(k \<mapsto> c)) k'' = Some d"
      then show "k' = k''"
        using old [of k' d] old [of k'' d] inj [of k' d k''] by (auto simp: c split: if_splits)
    qed (use closed in \<open>auto simp: c intro: less_SucI\<close>)
  next
    case (Some d)
    then have "c = d" "(persistentRetryCancels s)(k \<mapsto> c) = persistentRetryCancels s" "s_nextRef t = Suc (s_nextRef s)"
      by (simp_all add: c_def fields fun_upd_idem)
    then show ?thesis using s(2) unfolding cancels_ok_def fields(4,5) by (auto intro: less_SucI)
  qed
  moreover have "reqs_ok t"
  proof -
    have "pursued k (s_nextRef s) t" by (simp add: pursued_def fields)
    moreover have "pursued k' r t" if "pursued k' r s" "k' \<noteq> k" for k' r
      using that by (auto simp: pursued_def fields)
    ultimately show ?thesis using s(3) unfolding reqs_ok_def fields(3) by (auto split: if_splits)
  qed
  moreover have "\<forall>k' \<in> persistentPeers t - (A - {k}). attended k' t"
    using s(4) by (auto simp: attended_def fields)
  ultimately show ?thesis by (simp add: keep_but_def t_def k_def)
qed

lemma keep_removePeer:
  assumes "keep_but A s"
  shows "keep_but (insert (pubStr p) A) (removePeer p s)"
  using keep_dropStale [OF assms, of p] by (simp add: keep_defs dropStale_def Let_def)

lemma keep_finish:
  assumes "keep_ok s"
  shows "keep_ok (snd (watcherFinish env p s))"
proof (cases "p_ref p \<in> ignorePeerTermination s")
  case True
  then show ?thesis using assms by (simp add: watcherFinish_def keep_defs)
next
  case False
  let ?s1 = "removePeer p s"
  have keep: "keep_but {pubStr p} ?s1" using keep_removePeer [OF assms] by simp
  then have "pubStr p \<notin> persistentPeers ?s1 \<or> persistentConnReqs ?s1 (pubStr p) \<noteq> None \<Longrightarrow> keep_ok ?s1"
    by (auto simp: keep_but_def attended_def)
  then show ?thesis
    using keep_reconnect [OF keep, of p env] False by (auto simp: watcherFinish_def Let_def)
qed

lemma keep_fires:
  assumes "keep_ok s"
  shows "keep_ok (retryFires rt s)"
proof -
  obtain k r c where rt: "rt = (k, r, c)" by (cases rt)
  have "pursued k' r' s \<Longrightarrow> pursued k' r' (retryFires rt s)" for k' r'
    by (auto simp: pursued_def retryFires_def rt in_set_remove1)
  then show ?thesis
    using assms by (simp add: keep_but_def backoff_ok_def cancels_ok_def reqs_ok_def attended_def) 
      (auto simp: retryFires_def)
qed

lemma keep_cancelled:
  assumes keep: "keep_ok s" and closed: "snd (snd rt) \<in> set (s_closedCancels s)"
  shows "keep_ok (retryCancelled rt s)"
proof (cases "s_shutdown s")
  case False
  then have c: "cancels_ok s" using keep by (simp add: keep_but_def)
  obtain k r c where rt: "rt = (k, r, c)" by (cases rt)
  have live: "d \<noteq> c" if "persistentRetryCancels s k' = Some d" for k' d
    using that \<open>cancels_ok s\<close> closed by (auto simp: cancels_ok_def rt)
  have "pursued k' r' (retryCancelled rt s)" if "pursued k' r' s" for k' r'
    using that live [of k'] by (auto simp: pursued_def retryCancelled_def rt in_set_remove1)
  then show ?thesis
    using keep by (simp add: keep_but_def backoff_ok_def cancels_ok_def reqs_ok_def attended_def)
      (auto simp: retryCancelled_def)
qed (simp add: keep_but_def retryCancelled_def)

lemma keep_requestAddrs:
  "keep_but A s \<Longrightarrow> keep_but (if addrs = [] then A else A - {k}) (requestAddrs k pub addrs s)"
proof (induction addrs arbitrary: s A)
  case (Cons a addrs)
  have "keep_but (A - {k}) (calls [ConnMgrConnect (s_nextRef s)] (addReq k \<lparr>na_IdentityKey = pub, na_Address = a\<rparr> s))"
    by (rule keep_addReq [OF Cons.prems])
  from Cons.IH [OF this] show ?case by (simp split: if_splits)
qed simp

text \<open>The environments in which every node to reconnect to has an address.\<close>

definition nodes_ok :: "serverEnv \<Rightarrow> bool" where
  "nodes_ok env \<longleftrightarrow>
     (case (se_FetchAllLinkNodes env, se_graphEdges env) of
        (Inr linkNodes, Inr edges) \<Rightarrow>
          (case graphAddrs edges (linkNodeAddrs linkNodes []) of
             Inl _ \<Rightarrow> True | Inr m \<Rightarrow> list_all (\<lambda>(k, pub, addrs). addrs \<noteq> []) m)
      | _ \<Rightarrow> True)"

lemma keep_requestNodes:
  "list_all (\<lambda>(k, pub, addrs). addrs \<noteq> []) m \<Longrightarrow> keep_ok s \<Longrightarrow> keep_ok (requestNodes m s)"
proof (induction m s rule: requestNodes.induct)
  case (2 k pub addrs nodes s)
  have "keep_but (insert k {} - {k}) (requestAddrs k pub addrs (keepPersistent k s))"
    using keep_requestAddrs [OF keep_persistent [OF "2.prems"(2)], of addrs k k pub] "2.prems"(1) by simp
  then show ?case using "2.IH" "2.prems"(1) by simp
qed simp

lemma keep_Start:
  assumes "keep_ok s" "nodes_ok env"
  shows "keep_ok (snd (server_Start env s))"
proof -
  define r where "r = startAll (se_subsystem_Start env) startOrder (s\<lparr>s_started := True\<rparr>)"
  have "keep_ok (s\<lparr>s_started := True\<rparr>)" using assms(1) by (simp add: keep_defs)
  then have r: "keep_ok (snd r)"
    using startAll_calls [of "se_subsystem_Start env" startOrder "s\<lparr>s_started := True\<rparr>"] keep_calls
    by (auto simp: r_def)
  define e where "e = establishPersistentConnections env (snd r)"
  have e: "keep_ok (snd e)"
    using r assms(2) keep_requestNodes
    by (auto simp: e_def establishPersistentConnections_def nodes_ok_def split: sum.splits)
  show ?thesis
    using assms(1) r e keep_calls unfolding server_Start_def r_def [symmetric]
    by (auto simp: Let_def e_def split: prod.splits sum.splits option.split)
qed

section \<open>The invariant of the system\<close>

definition srv_env_ok :: "serverEnv \<Rightarrow> bool" where
  "srv_env_ok env \<longleftrightarrow> starts_ok env \<and> nodes_ok env"

lemma keep_endWatcher [simp]: "keep_but A (endWatcher p s) = keep_but A s"
  by (simp add: keep_defs endWatcher_def)

lemma keep_step: "srv_step srv_env_ok s t \<Longrightarrow> conns_ok s \<Longrightarrow> keep_ok s \<Longrightarrow> keep_ok t"
proof (induction rule: srv_step.induct)
  case (lost p b s)
  then show ?case using keep_cong [of "{}" s "Disconnect p s" "{}"] by simp
next
  case (cleanup p s)
  then show ?case
    using keep_cong [of "{}" s "markWatcher p (watcherCleanup p s)" "{}"]
    by (simp add: markWatcher_def watcherCleanup_def Let_def)
next
  case (notify c s peerKey)
  then show ?case
    using keep_cong [of "{}" s "NotifyWhenOnline peerKey c s" "{}"] by (simp add: NotifyWhenOnline_def Let_def)
next
  case (stop s)
  then show ?case by (simp add: keep_shutdown Stop_shutdown)
next
  case (assign s r i)
  then show ?case using keep_cong [of "{}" s "assignID r i s" "{}"] by (simp add: assignID_def)
next
  case (others s w f)
  then show ?case using keep_cong [of "{}" s "s\<lparr>s_fundingMgr := f, s_htlcSwitch := w\<rparr>" "{}"] by simp
qed (simp_all add: srv_env_ok_def keep_Inbound keep_Outbound keep_Connect keep_Disconnect keep_finish keep_fires keep_cancelled
    keep_Start)

lemma keep_init: "keep_ok (newServer identity f w)"
  by (simp add: keep_defs newServer_def)

interpretation persistence: server_invariant srv_env_ok "\<lambda>s. conns_ok s \<and> keep_ok s"
  using conns_ok_init conns_ok_step keep_init keep_step by unfold_locales blast+

end
