(* ===== verification/ServerWaiting.thy ===== *)
theory ServerWaiting
  imports ServerKeep
begin

text \<open>
  Callers that wait for a peer to come online: none waits for a peer that is connected, and the
  channel of a caller is closed at most once.
\<close>

section \<open>Callers that wait for a peer\<close>

definition waiting_ok :: "server \<Rightarrow> bool" where
  "waiting_ok s \<longleftrightarrow> s_shutdown s \<or>
     distinct (s_notified s) \<and>
     (\<forall>k. distinct (listeners k s) \<and>
          (\<forall>c. c \<in> set (listeners k s) \<longrightarrow> c \<notin> set (s_notified s) \<and> map_of (peersByPub s) k = None)) \<and>
     (\<forall>k k' c. c \<in> set (listeners k s) \<longrightarrow> c \<in> set (listeners k' s) \<longrightarrow> k = k')"

lemma waiting_cong:
  assumes "waiting_ok s" "s_shutdown t = s_shutdown s" "s_notified t = s_notified s"
    "peerConnectedListeners t = peerConnectedListeners s"
    "\<forall>k. map_of (peersByPub s) k = None \<longrightarrow> map_of (peersByPub t) k = None"
  shows "waiting_ok t"
proof -
  have "listeners k t = listeners k s" for k by (simp add: listeners_def assms)
  then show ?thesis using assms(1,5) unfolding waiting_ok_def assms(2,3) by auto
qed

lemma waiting_conns:
  "waiting_ok s \<Longrightarrow> conns t = conns s \<Longrightarrow> s_notified t = s_notified s \<Longrightarrow>
     peerConnectedListeners t = peerConnectedListeners s \<Longrightarrow> waiting_ok t"
  using conns_parts [of t s] by (auto elim!: waiting_cong)

lemma waiting_addPeer:
  assumes "waiting_ok s" "\<not> s_shutdown s"
  shows "waiting_ok (addPeer p s)"
proof -
  have l: "listeners k (addPeer p s) = (if k = pubStr p then [] else listeners k s)" for k
    by (simp add: listeners_def addPeer_fields [OF assms(2)])
  have s: "distinct (s_notified s)" "\<And>k. distinct (listeners k s)"
    "\<And>k c. c \<in> set (listeners k s) \<Longrightarrow> c \<notin> set (s_notified s)"
    "\<And>k c. c \<in> set (listeners k s) \<Longrightarrow> map_of (peersByPub s) k = None"
    "\<And>k k' c. c \<in> set (listeners k s) \<Longrightarrow> c \<in> set (listeners k' s) \<Longrightarrow> k = k'"
    using assms unfolding waiting_ok_def by blast+
  have "distinct (s_notified (addPeer p s))"
    using s(1-3) by (auto simp: addPeer_fields [OF assms(2)])
  then show ?thesis
    unfolding waiting_ok_def using s assms(2) by (auto simp: l addPeer_fields [OF assms(2)])
qed

lemma waiting_peerConnected:
  assumes "waiting_ok s" "\<not> s_shutdown s"
  shows "waiting_ok (peerConnected env conn connReq inbound s)"
proof -
  define s1 where "s1 w = s\<lparr>s_nextRef := Suc (s_nextRef s), s_htlcSwitch := w\<rparr>" for w
  have "waiting_ok (s1 w)" "\<not> s_shutdown (s1 w)" for w
    using assms by (auto simp: s1_def elim!: waiting_cong)
  moreover have "waiting_ok (Disconnect p (s1 w))" for p w
    using calculation(1) [of w] by (auto elim!: waiting_cong)
  ultimately show ?thesis
    by (auto simp: peerConnected_def Let_def waiting_addPeer s1_def split: prod.split sum.split)
qed

lemma waiting_cancel: "waiting_ok s \<Longrightarrow> waiting_ok (cancelConnReqs k skip s)"
  by (erule waiting_conns) simp_all

lemma waiting_drop:
  assumes "waiting_ok s" "\<not> s_shutdown s"
  shows "waiting_ok (dropStale p s)"
  by (rule waiting_cong [OF assms(1)]) (auto simp: dropStale_def Let_def removePeer_fields [OF assms(2)])

lemma waiting_calls: "waiting_ok s \<Longrightarrow> waiting_ok (calls cs s)"
  by (erule waiting_conns) simp_all

lemma waiting_refuse: "waiting_ok s \<Longrightarrow> waiting_ok (calls cs (removeReqOf connReq s))"
  using removeReqOf_calls [of connReq s] waiting_calls by auto

lemma waiting_Inbound: "waiting_ok s \<Longrightarrow> waiting_ok (InboundPeerConnected env conn s)"
  by (auto simp: InboundPeerConnected_def Let_def waiting_calls waiting_cancel waiting_drop intro!: waiting_peerConnected split: sum.split)

lemma waiting_Outbound: "waiting_ok s \<Longrightarrow> waiting_ok (OutboundPeerConnected env connReq conn s)"
  by (auto simp: OutboundPeerConnected_def Let_def waiting_refuse waiting_cancel waiting_drop intro!: waiting_peerConnected split: sum.split)

lemma waiting_shutdown: "s_shutdown s \<Longrightarrow> waiting_ok s"
  by (simp add: waiting_ok_def)

lemma waiting_Disconnect:
  assumes "waiting_ok s"
  shows "waiting_ok (snd (DisconnectPeer pubKey s))"
proof (cases "s_shutdown s")
  case False
  have "waiting_ok ((cancelConnReqs k None s)\<lparr>persistentPeers := A, persistentPeersBackoff := B\<rparr>)" for k A B
    using waiting_cancel [OF assms, of k None] by (auto elim!: waiting_cong)
  then show ?thesis using False assms by (auto simp: DisconnectPeer_def Let_def intro!: waiting_drop split: sum.split)
qed (auto simp: DisconnectPeer_def Let_def intro!: waiting_shutdown split: sum.split)

lemma waiting_remove:
  assumes "waiting_ok s"
  shows "waiting_ok (removePeer p s)"
proof (cases "s_shutdown s")
  case False
  then show ?thesis by (intro waiting_cong [OF assms]) (auto simp: removePeer_fields)
qed (simp add: waiting_shutdown)

lemma waiting_finish:
  assumes "waiting_ok s"
  shows "waiting_ok (snd (watcherFinish env p s))"
proof -
  have "waiting_ok (snd (watcherReconnect env p (removePeer p s)))"
    by (rule waiting_conns [OF waiting_remove [OF assms] reconnect_conns(1)])
      (simp_all add: watcherReconnect_def Let_def split: sum.split option.split)
  moreover have "waiting_ok (s\<lparr>ignorePeerTermination := A\<rparr>)" for A using assms by (auto elim!: waiting_cong)
  ultimately show ?thesis using waiting_remove [OF assms] by (auto simp: watcherFinish_def Let_def)
qed

lemma waiting_notify:
  assumes "waiting_ok s" "freshListener c s"
  shows "waiting_ok (NotifyWhenOnline peerKey c s)"
proof -
  define k where "k = SerializeCompressed peerKey"
  have c: "c \<notin> set (s_notified s)" "\<And>k. c \<notin> set (listeners k s)" using assms(2) by (simp_all add: freshListener_def)
  show ?thesis
  proof (cases "map_of (peersByPub s) k")
    case None
    define t where "t = NotifyWhenOnline peerKey c s"
    have l: "listeners k' t = (if k' = k then listeners k s @ [c] else listeners k' s)" for k'
      using None by (simp add: t_def NotifyWhenOnline_def Let_def k_def [symmetric] listeners_def)
    have "s_notified t = s_notified s" "peersByPub t = peersByPub s" "s_shutdown t = s_shutdown s"
      using None by (simp_all add: t_def NotifyWhenOnline_def Let_def k_def [symmetric])
    then show ?thesis using assms(1) c None unfolding waiting_ok_def t_def [symmetric] l by (auto split: if_splits)
  next
    case (Some p)
    then have t: "NotifyWhenOnline peerKey c s = s\<lparr>s_notified := s_notified s @ [c]\<rparr>"
      by (simp add: NotifyWhenOnline_def Let_def k_def [symmetric])
    have l: "listeners k' (s\<lparr>s_notified := s_notified s @ [c]\<rparr>) = listeners k' s" for k' by (simp add: listeners_def)
    show ?thesis using assms(1) c unfolding waiting_ok_def t l by auto
  qed
qed

lemma waiting_requests:
  "s_notified (requestAddrs k pub addrs s) = s_notified s"
  "peerConnectedListeners (requestAddrs k pub addrs s) = peerConnectedListeners s"
  by (induction addrs arbitrary: s) simp_all

lemma waiting_nodes:
  "s_notified (requestNodes m s) = s_notified s" "peerConnectedListeners (requestNodes m s) = peerConnectedListeners s"
  by (induction m s rule: requestNodes.induct) (simp_all add: waiting_requests)

lemma waiting_Start: "waiting_ok s \<Longrightarrow> waiting_ok (snd (server_Start env s))"
proof (erule waiting_conns [OF _ Start_conns(1)])
  define r where "r = startAll (se_subsystem_Start env) startOrder (s\<lparr>s_started := True\<rparr>)"
  have r: "s_notified (snd r) = s_notified s" "peerConnectedListeners (snd r) = peerConnectedListeners s"
    using startAll_calls [of "se_subsystem_Start env" startOrder "s\<lparr>s_started := True\<rparr>"] by (auto simp: r_def)
  then have e: "s_notified (snd (establishPersistentConnections env (snd r))) = s_notified s"
    "peerConnectedListeners (snd (establishPersistentConnections env (snd r))) = peerConnectedListeners s"
    by (auto simp: establishPersistentConnections_def waiting_nodes split: sum.split)
  show "s_notified (snd (server_Start env s)) = s_notified s"
    "peerConnectedListeners (snd (server_Start env s)) = peerConnectedListeners s"
    using r e unfolding server_Start_def r_def [symmetric]
    by (auto simp: Let_def split: prod.splits sum.splits option.split)
qed

lemma waiting_step: "srv_step P s t \<Longrightarrow> waiting_ok s \<Longrightarrow> waiting_ok t"
proof (induction rule: srv_step.induct)
  case (connect env s addr perm)
  have "waiting_ok (calls cs (addReq k addr (keepPersistent k s)))" for cs k
    by (rule waiting_calls, rule waiting_conns [OF connect(2)]) simp_all
  then show ?case using connect waiting_Outbound by (auto simp: ConnectToPeer_def Let_def split: sum.split)
next
  case (finish env p s)
  then show ?case using waiting_cong [OF waiting_finish [OF finish(3)]] by (simp add: endWatcher_def)
next
  case (stop s)
  then show ?case by (simp add: waiting_shutdown Stop_shutdown)
qed (auto simp: waiting_Inbound waiting_Outbound waiting_Disconnect waiting_notify waiting_Start endWatcher_def markWatcher_def
    watcherCleanup_def Let_def retryFires_def retryCancelled_def assignID_def intro!: waiting_calls elim!: waiting_cong)

interpretation waiting: server_invariant P waiting_ok for P
proof
  show "waiting_ok (newServer identity f w)" for identity f w
    by (simp add: waiting_ok_def newServer_def listeners_def)
qed (rule waiting_step)

end
