(* ===== verification/ServerPursuit.thy ===== *)
theory ServerPursuit
  imports ServerWaiting
begin

text \<open>
  The requests of persistent peers stay with the connection manager. The steps of the server are
  restricted to what the connection manager and the node database do: a connection that comes up
  for a request is one with the node the request names, since the handshake authenticates it, a
  request is given a number once, one that no other request has or had, and the server starts
  before it has peers. Then no request that the server still lists for a node is ever removed
  from the connection manager, and each is for that node.
\<close>

section \<open>The node of a request\<close>

definition reqKey :: "nat \<Rightarrow> server \<Rightarrow> bytes option" where
  "reqKey r s = map_option (\<lambda>c. SerializeCompressed (na_IdentityKey (cr_Addr c))) (s_reqs s r)"

text \<open>A number that no request has and that was never removed.\<close>

definition freshID :: "u64 \<Rightarrow> server \<Rightarrow> bool" where
  "freshID i s \<longleftrightarrow> i \<noteq> UnassignedConnID \<and> (\<forall>r. connReq_ID r s \<noteq> i) \<and> ConnMgrRemove i \<notin> set (s_calls s)"

text \<open>The keys of the channel graph are compressed keys.\<close>

definition graph_ok :: "serverEnv \<Rightarrow> bool" where
  "graph_ok env \<longleftrightarrow> (case se_graphEdges env of Inl _ \<Rightarrow> True | Inr edges \<Rightarrow> list_all (\<lambda>e. length (fst e) = 33) edges)"

definition net_env_ok :: "serverEnv \<Rightarrow> bool" where
  "net_env_ok env \<longleftrightarrow> srv_env_ok env \<and> graph_ok env"

inductive net_step :: "server \<Rightarrow> server \<Rightarrow> bool" where
  inbound: "net_env_ok env \<Longrightarrow> net_step s (InboundPeerConnected env conn s)"
| outbound: "net_env_ok env \<Longrightarrow> reqKey r s = Some (SerializeCompressed (conn_RemotePub conn)) \<Longrightarrow>
    net_step s (OutboundPeerConnected env (Some r) conn s)"
| connect: "net_env_ok env \<Longrightarrow> net_step s (snd (ConnectToPeer env addr perm s))"
| disconnect: "net_step s (snd (DisconnectPeer pubKey s))"
| lost: "(p, b) \<in> set (s_watchers s) \<Longrightarrow> net_step s (Disconnect p s)"
| cleanup: "(p, False) \<in> set (s_watchers s) \<Longrightarrow> p_ref p \<in> s_disconnected s \<Longrightarrow>
    net_step s (if s_shutdown s then endWatcher p s else markWatcher p (watcherCleanup p s))"
| finish: "net_env_ok env \<Longrightarrow> (p, True) \<in> set (s_watchers s) \<Longrightarrow> net_step s (endWatcher p (snd (watcherFinish env p s)))"
| fires: "rt \<in> set (s_retries s) \<Longrightarrow> net_step s (retryFires rt s)"
| cancelled: "rt \<in> set (s_retries s) \<Longrightarrow> snd (snd rt) \<in> set (s_closedCancels s) \<Longrightarrow> net_step s (retryCancelled rt s)"
| assign: "connReq_ID r s = UnassignedConnID \<Longrightarrow> freshID i s \<Longrightarrow> net_step s (assignID r i s)"
| notify: "freshListener c s \<Longrightarrow> net_step s (NotifyWhenOnline peerKey c s)"
| start: "net_env_ok env \<Longrightarrow> s_started s \<or> peersByPub s = [] \<Longrightarrow> net_step s (snd (server_Start env s))"
| stop: "net_step s (server_Stop s)"
| others: "net_step s (s\<lparr>s_fundingMgr := f, s_htlcSwitch := w\<rparr>)"

inductive net_reach :: "server \<Rightarrow> bool" where
  init: "net_reach (newServer identity f w)"
| step: "net_reach s \<Longrightarrow> net_step s t \<Longrightarrow> net_reach t"

lemma net_step_srv: "net_step s t \<Longrightarrow> srv_step srv_env_ok s t"
  by (induction rule: net_step.induct) (simp_all only: net_env_ok_def, (blast intro: srv_step.intros)+)

lemma net_reach_srv: "net_reach s \<Longrightarrow> srv_reach srv_env_ok s"
  by (induction rule: net_reach.induct) (auto intro: srv_reach.intros net_step_srv)

section \<open>The invariant\<close>

definition ids_ok :: "server \<Rightarrow> bool" where
  "ids_ok s \<longleftrightarrow> (\<forall>r c. s_reqs s r = Some c \<longrightarrow> r < s_nextRef s \<and> cr_Permanent c) \<and>
     (\<forall>r r'. connReq_ID r s \<noteq> UnassignedConnID \<longrightarrow> connReq_ID r s = connReq_ID r' s \<longrightarrow> r = r')"

definition listed_ok :: "server \<Rightarrow> bool" where
  "listed_ok s \<longleftrightarrow>
     (\<forall>k r. r \<in> set (reqsOf k s) \<longrightarrow> reqKey r s = Some k \<and>
        (connReq_ID r s = UnassignedConnID \<or> ConnMgrRemove (connReq_ID r s) \<notin> set (s_calls s)))"

definition idle_ok :: "server \<Rightarrow> bool" where
  "idle_ok s \<longleftrightarrow>
     (\<forall>k. map_of (peersByPub s) k \<noteq> None \<longrightarrow> persistentConnReqs s k = None) \<and>
     (\<forall>p \<in> fst ` set (s_watchers s). \<forall>r. p_connReq p = Some r \<longrightarrow>
        reqKey r s = Some (pubStr p) \<and> r \<notin> set (reqsOf (pubStr p) s))"

definition pursuit :: "server \<Rightarrow> bool" where
  "pursuit s \<longleftrightarrow> s_shutdown s \<or> ids_ok s \<and> listed_ok s \<and> idle_ok s"

lemma pursuit_shutdown: "s_shutdown s \<Longrightarrow> pursuit s"
  by (simp add: pursuit_def)

text \<open>A request that is listed nowhere.\<close>

definition unlisted :: "nat \<Rightarrow> server \<Rightarrow> bool" where
  "unlisted r s \<longleftrightarrow> (\<forall>k. r \<notin> set (reqsOf k s))"

text \<open>
  Operations that only give things up: requests are not listed any longer, peers not registered,
  watchers end, and what is removed from the connection manager is not listed.
\<close>

lemma pursuit_shrink:
  assumes ok: "pursuit s" and same: "s_shutdown t = s_shutdown s" "s_reqs t = s_reqs s" "s_nextRef s \<le> s_nextRef t"
    and listed: "\<And>k. persistentConnReqs t k = None \<or> persistentConnReqs t k = persistentConnReqs s k"
    and peers: "\<And>k. map_of (peersByPub t) k \<noteq> None \<Longrightarrow> map_of (peersByPub s) k \<noteq> None"
    and watch: "fst ` set (s_watchers t) \<subseteq> fst ` set (s_watchers s)"
    and removed: "\<And>i. ConnMgrRemove i \<in> set (s_calls t) \<Longrightarrow>
      ConnMgrRemove i \<in> set (s_calls s) \<or> (\<exists>r. i = connReq_ID r s \<and> unlisted r t)"
  shows "pursuit t"
proof (cases "s_shutdown s")
  case False
  with ok have s: "ids_ok s" "listed_ok s" "idle_ok s" by (auto simp: pursuit_def)
  have same': "connReq_ID r t = connReq_ID r s" "reqKey r t = reqKey r s" for r
    by (simp_all add: connReq_ID_def reqKey_def same)
  have sub: "set (reqsOf k t) \<subseteq> set (reqsOf k s)" for k
    using listed [of k] by (auto simp: reqsOf_def)
  have "ids_ok t" using s(1) same(3) by (auto simp: ids_ok_def same' same(2) intro: less_le_trans)
  moreover have "listed_ok t"
    unfolding listed_ok_def same'
  proof (intro allI impI conjI)
    fix k r assume r: "r \<in> set (reqsOf k t)"
    then have old: "reqKey r s = Some k"
      "connReq_ID r s = UnassignedConnID \<or> ConnMgrRemove (connReq_ID r s) \<notin> set (s_calls s)"
      using s(2) sub by (auto simp: listed_ok_def)
    show "reqKey r s = Some k" by (rule old(1))
    have "r' \<noteq> r" if "unlisted r' t" for r' using that r by (auto simp: unlisted_def)
    then show "connReq_ID r s = UnassignedConnID \<or> ConnMgrRemove (connReq_ID r s) \<notin> set (s_calls t)"
      using old(2) removed s(1) unfolding ids_ok_def by metis
  qed
  moreover have "idle_ok t"
    unfolding idle_ok_def same'
  proof (intro conjI allI impI ballI)
    fix k assume "map_of (peersByPub t) k \<noteq> None"
    then show "persistentConnReqs t k = None" using peers listed [of k] s(3) by (auto simp: idle_ok_def)
  next
    fix p r assume "p \<in> fst ` set (s_watchers t)" "p_connReq p = Some r"
    then show "reqKey r s = Some (pubStr p)" "r \<notin> set (reqsOf (pubStr p) t)"
      using watch s(3) sub unfolding idle_ok_def by blast+
  qed
  ultimately show ?thesis by (simp add: pursuit_def)
qed (simp add: pursuit_def same)

section \<open>Giving up\<close>

lemma pursuit_calls:
  assumes "pursuit s" "\<And>i. ConnMgrRemove i \<notin> set cs"
  shows "pursuit (calls cs s)"
  by (rule pursuit_shrink [OF assms(1)]) (auto simp: assms(2))

lemma unlisted_cong: "persistentConnReqs t = persistentConnReqs s \<Longrightarrow> unlisted r t = unlisted r s"
  by (simp add: unlisted_def reqsOf_def)

lemma pursuit_Remove:
  assumes "pursuit s" "unlisted r s"
  shows "pursuit (calls [ConnMgrRemove (connReq_ID r s)] s)"
proof (rule pursuit_shrink [OF assms(1)])
  fix i assume "ConnMgrRemove i \<in> set (s_calls (calls [ConnMgrRemove (connReq_ID r s)] s))"
  then show "ConnMgrRemove i \<in> set (s_calls s) \<or>
      (\<exists>r'. i = connReq_ID r' s \<and> unlisted r' (calls [ConnMgrRemove (connReq_ID r s)] s))"
    using assms(2) by (auto simp: unlisted_def reqsOf_def)
qed simp_all

lemma Disconnect_reqs [simp]:
  "s_reqs (Disconnect p s) = s_reqs s" "ConnMgrRemove i \<in> set (s_calls (Disconnect p s)) \<longleftrightarrow> ConnMgrRemove i \<in> set (s_calls s)"
  by (simp_all add: Disconnect_def)

lemma pursuit_Disconnect: "pursuit s \<Longrightarrow> pursuit (Disconnect p s)"
  by (erule pursuit_shrink) simp_all

lemma removeReqs_removed:
  "ConnMgrRemove i \<in> set (s_calls (removeReqs skip rs s)) \<Longrightarrow>
     ConnMgrRemove i \<in> set (s_calls s) \<or> (\<exists>r \<in> set rs. i = connReq_ID r s)"
proof (induction rs arbitrary: s)
  case (Cons r rs)
  have "connReq_ID r' (calls cs s) = connReq_ID r' s" for r' cs by (simp add: connReq_ID_def)
  with Cons.prems Cons.IH [of s] Cons.IH [of "calls [ConnMgrRemove (connReq_ID r s)] s"] show ?case
    by (auto simp: Let_def split: if_splits)
qed simp

lemma cancelConnReqs_removed:
  assumes "ConnMgrRemove i \<in> set (s_calls (cancelConnReqs k skip s))"
  shows "ConnMgrRemove i \<in> set (s_calls s) \<or> (\<exists>r \<in> set (reqsOf k s). i = connReq_ID r s)"
proof -
  have *: "ConnMgrRemove i \<in> set (s_calls (removeReqs skip rs u)) \<Longrightarrow> s_calls u = s_calls s \<Longrightarrow> s_reqs u = s_reqs s \<Longrightarrow>
      ConnMgrRemove i \<in> set (s_calls s) \<or> (\<exists>r \<in> set rs. i = connReq_ID r s)" for rs u
    using removeReqs_removed [of i skip rs u] by (auto simp: connReq_ID_def)
  show ?thesis
    using assms unfolding cancelConnReqs_def Let_def reqsOf_def by (auto split: option.splits dest!: *)
qed

lemma listed_once:
  assumes "listed_ok s" "r \<in> set (reqsOf k s)" "r \<in> set (reqsOf k' s)"
  shows "k = k'"
  using assms unfolding listed_ok_def by (metis option.inject)

lemma unlisted_key:
  assumes "listed_ok s" "reqKey r s = Some k" "r \<notin> set (reqsOf k s)"
  shows "unlisted r s"
  using assms unfolding listed_ok_def unlisted_def by (metis option.inject)

lemma pursuit_cancel:
  assumes "pursuit s"
  shows "pursuit (cancelConnReqs k skip s)"
proof (cases "s_shutdown s")
  case False
  have left: "reqsOf k' (cancelConnReqs k skip s) = (if k' = k then [] else reqsOf k' s)" for k'
    by (simp add: reqsOf_def)
  have "listed_ok s" using assms False by (simp add: pursuit_def)
  then have drop: "unlisted r (cancelConnReqs k skip s)" if "r \<in> set (reqsOf k s)" for r
    using that unfolding unlisted_def left by (metis empty_iff list.set(1) listed_once)
  have rem: "ConnMgrRemove i \<in> set (s_calls s) \<or> (\<exists>r. i = connReq_ID r s \<and> unlisted r (cancelConnReqs k skip s))"
    if "ConnMgrRemove i \<in> set (s_calls (cancelConnReqs k skip s))" for i
    using cancelConnReqs_removed [OF that] drop by blast
  show ?thesis by (rule pursuit_shrink [OF assms]) (use rem in simp_all)
qed (simp add: pursuit_shutdown)

lemma pursuit_removePeer:
  assumes "pursuit s" "p \<in> fst ` set (s_watchers s)"
  shows "pursuit (removePeer p s)"
proof (cases "s_shutdown s")
  case False
  have un: "unlisted r (removePeer p s)" if "p_connReq p = Some r" for r
    using that assms False unlisted_key [of s r "pubStr p"]
    by (auto simp: pursuit_def idle_ok_def unlisted_cong [OF removePeer_other(1)])
  have rem: "ConnMgrRemove i \<in> set (s_calls s) \<or> (\<exists>r. i = connReq_ID r s \<and> unlisted r (removePeer p s))"
    if "ConnMgrRemove i \<in> set (s_calls (removePeer p s))" for i
  proof -
    have "ConnMgrRemove i \<in> set (s_calls s) \<or> (\<exists>r. p_connReq p = Some r \<and> i = connReq_ID r s)"
      using that by (auto simp: removePeer_def Let_def connReq_ID_def split: option.splits if_splits)
    then show ?thesis using un by blast
  qed
  have reqs: "s_reqs (removePeer p s) = s_reqs s"
    by (auto simp: removePeer_def Let_def split: option.split)
  have peers: "map_of (peersByPub (removePeer p s)) k \<noteq> None \<Longrightarrow> map_of (peersByPub s) k \<noteq> None" for k
    by (simp add: removePeer_fields [OF False] split: if_splits)
  show ?thesis
    by (rule pursuit_shrink [OF assms(1)]) (use rem peers in \<open>simp_all add: removePeer_fields(4) [OF False] reqs\<close>)
qed (simp add: pursuit_shutdown)

lemma pursuit_dropStale:
  assumes "pursuit s" "p \<in> fst ` set (s_watchers s)"
  shows "pursuit (dropStale p s)"
  by (rule pursuit_shrink [OF pursuit_removePeer [OF assms]]) (auto simp: dropStale_def Let_def)

section \<open>New peers and new requests\<close>

text \<open>A peer that is registered has no requests left, and its own is not listed.\<close>

lemma pursuit_addPeer:
  assumes ok: "pursuit s" and none: "persistentConnReqs s (pubStr p) = None"
    and own: "\<And>r. p_connReq p = Some r \<Longrightarrow> reqKey r s = Some (pubStr p)"
  shows "pursuit (addPeer p s)"
proof (cases "s_shutdown s")
  case True
  then show ?thesis using pursuit_Disconnect [OF ok] by (simp add: addPeer_def)
next
  case False
  define t where "t = addPeer p s"
  have s: "ids_ok s" "listed_ok s" "idle_ok s" using ok False by (auto simp: pursuit_def)
  have calls_t: "ConnMgrRemove i \<in> set (s_calls t) \<longleftrightarrow> ConnMgrRemove i \<in> set (s_calls s)" for i
    using False by (simp add: t_def addPeer_def Let_def)
  have reqs: "s_reqs t = s_reqs s" "persistentConnReqs t = persistentConnReqs s" "s_nextRef t = s_nextRef s"
    using False by (simp_all add: t_def addPeer_def Let_def)
  have same: "connReq_ID r t = connReq_ID r s" "reqKey r t = reqKey r s" "reqsOf k t = reqsOf k s" for r k
    by (simp_all add: connReq_ID_def reqKey_def reqsOf_def reqs)
  have "ids_ok t" "listed_ok t" using s(1,2) by (simp_all add: ids_ok_def listed_ok_def same reqs calls_t)
  moreover have "idle_ok t"
    using s(3) none own unfolding idle_ok_def same reqs
    by (auto simp: t_def addPeer_fields [OF False] reqsOf_def)
  ultimately show ?thesis by (simp add: pursuit_def t_def)
qed

lemma pursuit_peerConnected:
  assumes "pursuit s" "persistentConnReqs s (SerializeCompressed (conn_RemotePub conn)) = None"
    and "\<And>r. connReq = Some r \<Longrightarrow> reqKey r s = Some (SerializeCompressed (conn_RemotePub conn))"
  shows "pursuit (peerConnected env conn connReq inbound s)"
proof -
  define q where "q = newPeer conn connReq \<lparr>na_IdentityKey = conn_RemotePub conn, na_Address = reconnectAddr env conn\<rparr>
    inbound (shouldRequestGraphSync s) (s_nextRef s)"
  define s1 where "s1 w = s\<lparr>s_nextRef := Suc (s_nextRef s), s_htlcSwitch := w\<rparr>" for w
  have q: "pubStr (q\<lparr>p_remoteSync := f\<rparr>) = SerializeCompressed (conn_RemotePub conn)" "p_connReq (q\<lparr>p_remoteSync := f\<rparr>) = connReq" for f
    by (simp_all add: q_def newPeer_def pubStr_def)
  have 1: "pursuit (s1 w)" for w by (rule pursuit_shrink [OF assms(1)]) (simp_all add: s1_def)
  have "pursuit (addPeer (q\<lparr>p_remoteSync := f\<rparr>) (s1 w))" for f w
    by (rule pursuit_addPeer [OF 1]) (use assms(2,3) in \<open>auto simp: q s1_def reqKey_def\<close>)
  then show ?thesis
    using pursuit_Disconnect [OF 1]
    by (simp add: peerConnected_def Let_def q_def [symmetric] s1_def split: prod.split sum.split)
qed

lemma registered_watched:
  "conns_ok s \<Longrightarrow> \<not> s_shutdown s \<Longrightarrow> findPeerByPubStr k s = Inr p \<Longrightarrow> p \<in> fst ` set (s_watchers s)"
  by (auto simp: conns_ok_def indexes_ok_def findPeer_cases)

lemma pursuit_Inbound:
  assumes "pursuit s" "conns_ok s"
  shows "pursuit (InboundPeerConnected env conn s)"
proof (cases "s_shutdown s")
  case False
  define k where "k = SerializeCompressed (conn_RemotePub conn)"
  have "pursuit (peerConnected env conn None False (cancelConnReqs k None u))" if "pursuit u" for u
    by (rule pursuit_peerConnected [OF pursuit_cancel [OF that]]) (simp_all add: k_def)
  then show ?thesis
    using False assms(1) pursuit_dropStale [OF assms(1) registered_watched [OF assms(2) False, of k]]
    by (auto simp: InboundPeerConnected_def Let_def k_def [symmetric] pursuit_calls split: sum.split)
qed (simp add: InboundPeerConnected_def pursuit_shutdown)

text \<open>The connection of a request is refused only when the request is not listed.\<close>

lemma pursuit_refuse:
  assumes "pursuit s" "\<And>r. connReq = Some r \<Longrightarrow> unlisted r s"
  shows "pursuit (calls [ConnClose i] (removeReqOf connReq s))"
  using assms by (cases connReq) (auto simp: removeReqOf_def intro!: pursuit_calls pursuit_Remove)

lemma pursuit_Outbound:
  assumes ok: "pursuit s" "conns_ok s" and key: "\<And>r. connReq = Some r \<Longrightarrow> reqKey r s = Some (SerializeCompressed (conn_RemotePub conn))"
  shows "pursuit (OutboundPeerConnected env connReq conn s)"
proof (cases "s_shutdown s")
  case False
  define k where "k = SerializeCompressed (conn_RemotePub conn)"
  define s1 where "s1 = cancelConnReqs k (map_option (\<lambda>r. connReq_ID r s) connReq) s"
  have s: "listed_ok s" "idle_ok s" "indexes_ok s" using ok False by (auto simp: pursuit_def conns_ok_def)
  have 1: "pursuit s1" "conns_ok s1" "\<not> s_shutdown s1" "persistentConnReqs s1 k = None" "s_reqs s1 = s_reqs s"
    using pursuit_cancel [OF ok(1)] conns_ok_cancel [OF ok(2)] False by (simp_all add: s1_def)
  then have key1: "reqKey r s1 = Some k" if "connReq = Some r" for r using key that by (simp add: reqKey_def k_def)
  have un: "unlisted r u" if "connReq = Some r" "persistentConnReqs u k = None" "listed_ok u" "reqKey r u = Some k" for r u
    by (rule unlisted_key [OF that(3,4)]) (simp add: reqsOf_def that(2))
  have out: "persistentConnReqs s k = None" if "outboundPeers s k = Some p" for p
    using that s(2,3) unfolding idle_ok_def indexes_ok_def by (metis option.distinct(1))
  have refuse: "pursuit (calls [ConnClose (conn_ref conn)] (removeReqOf connReq s))" if "persistentConnReqs s k = None"
    by (rule pursuit_refuse [OF ok(1)]) (use un that s(1) key in \<open>auto simp: k_def\<close>)
  have refuse1: "pursuit (calls [ConnClose (conn_ref conn)] (removeReqOf connReq s1))"
    by (rule pursuit_refuse [OF 1(1)]) (use un 1 key1 in \<open>auto simp: pursuit_def\<close>)
  have fresh: "pursuit (peerConnected env conn connReq True u)"
    if "pursuit u" "persistentConnReqs u k = None" "s_reqs u = s_reqs s" for u
    by (rule pursuit_peerConnected [OF that(1)]) (use that(2,3) key in \<open>auto simp: k_def reqKey_def\<close>)
  have stale: "pursuit (peerConnected env conn connReq True (dropStale p s1))" if "findPeerByPubStr k s1 = Inr p" for p
    by (rule fresh [OF pursuit_dropStale [OF 1(1) registered_watched [OF 1(2,3) that]]])
      (auto simp: 1 dropStale_def removePeer_def Let_def split: option.split)
  show ?thesis
    using False refuse refuse1 out stale fresh [OF 1(1,4,5)]
    by (auto simp: OutboundPeerConnected_def Let_def k_def [symmetric] s1_def [symmetric] split: sum.split)
qed (simp add: OutboundPeerConnected_def pursuit_shutdown)

text \<open>A new request is listed under the node of its address, which must not be registered.\<close>

lemma pursuit_addReq:
  assumes ok: "pursuit s" and k: "k = SerializeCompressed (na_IdentityKey addr)" and free: "map_of (peersByPub s) k = None"
  shows "pursuit (addReq k addr s)"
proof (cases "s_shutdown s")
  case True
  then show ?thesis using conns_parts(1) [OF addReq_fields(1)] by (simp add: pursuit_def)
next
  case False
  define t n where "t = addReq k addr s" and "n = s_nextRef s"
  have s: "ids_ok s" "listed_ok s" "idle_ok s" using ok False by (auto simp: pursuit_def)
  have reqs: "s_reqs t = (s_reqs s)(n \<mapsto> \<lparr>cr_ID = UnassignedConnID, cr_Addr = addr, cr_Permanent = True\<rparr>)"
    "s_nextRef t = Suc n" "s_calls t = s_calls s" "peersByPub t = peersByPub s" "s_watchers t = s_watchers s"
    using conns_parts [OF addReq_fields(1), of k addr s] by (simp_all add: t_def n_def addReq_def Let_def)
  have new: "s_reqs s n = None"
    using s(1) unfolding ids_ok_def n_def by (cases "s_reqs s (s_nextRef s)") auto
  have ID: "connReq_ID r t = connReq_ID r s" for r
    using new by (simp add: connReq_ID_def reqs UnassignedConnID_def)
  have key: "reqKey r t = (if r = n then Some k else reqKey r s)" for r by (simp add: reqKey_def reqs k)
  have none: "reqKey n s = None" using new by (simp add: reqKey_def)
  have ls: "set (reqsOf k' t) = (if k' = k then insert n (set (reqsOf k s)) else set (reqsOf k' s))" for k'
    by (auto simp: t_def n_def reqsOf_def)
  have "connReq_ID n s = UnassignedConnID" using new by (simp add: connReq_ID_def UnassignedConnID_def)
  then have "ids_ok t" "listed_ok t"
    using s(1,2) none unfolding ids_ok_def listed_ok_def ID key ls reqs by (auto simp: n_def less_Suc_eq)
  moreover have "idle_ok t"
    using s(3) none free unfolding idle_ok_def key ls reqs by (auto simp: t_def)
  ultimately show ?thesis by (simp add: pursuit_def t_def)
qed

lemma pursuit_cong:
  assumes "pursuit s" "conns t = conns s" "s_reqs t = s_reqs s" "s_nextRef s \<le> s_nextRef t"
    "persistentConnReqs t = persistentConnReqs s" "s_calls t = s_calls s"
  shows "pursuit t"
  by (rule pursuit_shrink [OF assms(1)]) (simp_all add: conns_parts [OF assms(2)] assms(3-))

lemma pursuit_persistent: "pursuit s \<Longrightarrow> pursuit (keepPersistent k s)"
  by (erule pursuit_cong) (simp_all, simp add: keepPersistent_def Let_def split: option.split)

lemma pursuit_Connect:
  assumes "pursuit s" "conns_ok s"
  shows "pursuit (snd (ConnectToPeer env addr perm s))"
proof -
  define k where "k = SerializeCompressed (na_IdentityKey addr)"
  have "pursuit (calls [ConnMgrConnect i] (addReq k addr (keepPersistent k s)))" if "map_of (peersByPub s) k = None" for i
    by (rule pursuit_calls [OF pursuit_addReq [OF pursuit_persistent [OF assms(1)] k_def]])
      (simp_all add: that conns_parts(2) [OF keepPersistent_fields(1)])
  then show ?thesis
    using assms pursuit_Outbound [OF assms, of None]
    by (auto simp: ConnectToPeer_def Let_def k_def [symmetric] findPeer_cases split: sum.split)
qed

lemma pursuit_DisconnectPeer:
  assumes "pursuit s" "conns_ok s"
  shows "pursuit (snd (DisconnectPeer pubKey s))"
proof (cases "s_shutdown s")
  case True
  then show ?thesis by (auto simp: DisconnectPeer_def Let_def intro!: pursuit_shutdown split: sum.split)
next
  case False
  have "pursuit ((cancelConnReqs k None s)\<lparr>persistentPeers := A, persistentPeersBackoff := b\<rparr>)" for k A b
    by (rule pursuit_shrink [OF pursuit_cancel [OF assms(1), of k None]]) simp_all
  from pursuit_dropStale [OF this] show ?thesis
    using assms registered_watched [OF assms(2) False]
    by (auto simp: DisconnectPeer_def Let_def split: sum.split)
qed

section \<open>Watchers, retries and the start\<close>

lemma pursuit_reconnect:
  assumes "pursuit s" "map_of (peersByPub s) (pubStr p) = None"
  shows "pursuit (snd (watcherReconnect env p s))"
proof -
  have 1: "pursuit (addReq (pubStr p) (p_addr p) s)"
    by (rule pursuit_addReq [OF assms(1) pubStr_def assms(2)])
  have same: "conns (snd (watcherReconnect env p s)) = conns (addReq (pubStr p) (p_addr p) s)"
    using reconnect_conns(1) [of env p s] by simp
  show ?thesis
    by (rule pursuit_cong [OF 1 same]) (auto simp: watcherReconnect_def Let_def split: sum.split option.split)
qed

lemma pursuit_endWatcher: "pursuit s \<Longrightarrow> pursuit (endWatcher p s)"
  by (erule pursuit_shrink) (auto simp: endWatcher_def)

lemma pursuit_finish:
  assumes "pursuit s" "p \<in> fst ` set (s_watchers s)"
  shows "pursuit (snd (watcherFinish env p s))"
proof (cases "s_shutdown s")
  case True
  have "s_shutdown (snd (watcherReconnect env p (removePeer p s)))"
    using True conns_parts(1) [OF reconnect_conns(1)] by simp
  with True show ?thesis by (auto simp: watcherFinish_def Let_def intro!: pursuit_shutdown)
next
  case False
  have 1: "pursuit (s\<lparr>ignorePeerTermination := A\<rparr>)" for A by (rule pursuit_shrink [OF assms(1)]) simp_all
  have "pursuit (snd (watcherReconnect env p (removePeer p s)))"
    by (rule pursuit_reconnect [OF pursuit_removePeer [OF assms]]) (simp add: removePeer_fields [OF False])
  with 1 show ?thesis using pursuit_removePeer [OF assms] by (simp add: watcherFinish_def Let_def)
qed

text \<open>A compressed key that is read is written back unchanged.\<close>

lemma padded_be_dec: "length bs = 32 \<Longrightarrow> paddedAppend 32 [] (big_Bytes (be_dec bs)) = bs"
  using be_dec_lt [of bs] length_padded [of "be_dec bs" 32] be_dec_padded [of 32 "be_dec bs"] be_enc_dec
  by metis

lemma unat_numeral_byte: "unat (2 :: byte) = 2" "unat (3 :: byte) = 3"
  by simp_all

lemma Serialize_Parse:
  assumes "ParsePubKey bs = Inr pub" "length bs = 33"
  shows "SerializeCompressed pub = bs"
proof -
  obtain b rest where bs: "bs = b # rest" "length rest = 32" using assms(2) by (cases bs) auto
  define y where "y = decompressPoint (be_dec rest) (odd (unat b))"
  have fmt: "unat b - unat b mod 2 = 2" and pub: "y = Inr (Y pub)" "X pub = be_dec rest"
    using assms(1) bs by (auto simp: ParsePubKey_def Let_def y_def split: if_splits sum.splits)
  have "odd (Y pub) = odd (unat b)"
    using pub(1) by (auto simp: y_def decompressPoint_def Let_def split: if_splits)
  moreover have "unat b = 2 \<or> unat b = 3" using fmt by presburger
  moreover have "b = 2 \<longleftrightarrow> unat b = 2" "b = 3 \<longleftrightarrow> unat b = 3"
    by (metis unat_numeral_byte word_unat_eq_iff)+
  ultimately show ?thesis
    using padded_be_dec [OF bs(2)] by (auto simp: SerializeCompressed_def paddedAppend_def pub(2) bs(1))
qed

text \<open>The nodes to reconnect to are keyed by their public keys.\<close>

definition keyed :: "nodeAddrsMap \<Rightarrow> bool" where
  "keyed m \<longleftrightarrow> (\<forall>(k, pub, addrs) \<in> set m. k = SerializeCompressed pub)"

lemma keyed_put: "keyed m \<Longrightarrow> k = SerializeCompressed pub \<Longrightarrow> keyed (al_put k (pub, addrs) m)"
  using set_al_put_subset [of k "(pub, addrs)" m] by (auto simp: keyed_def)

lemma keyed_linkNodes: "keyed m \<Longrightarrow> keyed (linkNodeAddrs nodes m)"
  by (induction nodes m rule: linkNodeAddrs.induct) (simp_all add: keyed_put)

lemma keyed_graph:
  "graphAddrs edges m = Inr m' \<Longrightarrow> list_all (\<lambda>e. length (fst e) = 33) edges \<Longrightarrow> keyed m \<Longrightarrow> keyed m'"
  by (induction edges m rule: graphAddrs.induct) (auto simp: Let_def keyed_put Serialize_Parse split: sum.splits)

lemma pursuit_requestAddrs:
  "pursuit s \<Longrightarrow> k = SerializeCompressed pub \<Longrightarrow> peersByPub s = [] \<Longrightarrow>
     pursuit (requestAddrs k pub addrs s) \<and> peersByPub (requestAddrs k pub addrs s) = []"
proof (induction addrs arbitrary: s)
  case (Cons a addrs)
  let ?addr = "\<lparr>na_IdentityKey = pub, na_Address = a\<rparr>"
  have "pursuit (addReq k ?addr s)" by (rule pursuit_addReq) (use Cons.prems in simp_all)
  then have "pursuit (calls [ConnMgrConnect (s_nextRef s)] (addReq k ?addr s))" by (rule pursuit_calls) simp
  with Cons.IH [OF this] Cons.prems show ?case using conns_parts(2) [OF addReq_fields(1), of k ?addr s] by simp
qed simp

lemma pursuit_requestNodes:
  "keyed m \<Longrightarrow> pursuit s \<Longrightarrow> peersByPub s = [] \<Longrightarrow> pursuit (requestNodes m s)"
proof (induction m s rule: requestNodes.induct)
  case (2 k pub addrs nodes s)
  have "pursuit (requestAddrs k pub addrs (keepPersistent k s)) \<and> peersByPub (requestAddrs k pub addrs (keepPersistent k s)) = []"
    by (rule pursuit_requestAddrs [OF pursuit_persistent])
      (use "2.prems" conns_parts(2) [OF keepPersistent_fields(1), of k s] in \<open>simp_all add: keyed_def\<close>)
  then show ?case using "2.IH" "2.prems"(1) by (simp add: keyed_def)
qed simp

lemma startAll_removes: "ConnMgrRemove i \<in> set (s_calls (snd (startAll st xs s))) \<longleftrightarrow> ConnMgrRemove i \<in> set (s_calls s)"
  by (induction xs arbitrary: s) (simp_all split: option.split)

lemma pursuit_establish:
  assumes "pursuit s" "graph_ok env" "peersByPub s = []"
  shows "pursuit (snd (establishPersistentConnections env s))"
proof -
  have "keyed []" by (simp add: keyed_def)
  then show ?thesis
    using assms keyed_graph [OF _ _ keyed_linkNodes] pursuit_requestNodes
    by (auto simp: establishPersistentConnections_def graph_ok_def split: sum.split)
qed

lemma pursuit_Start:
  assumes ok: "pursuit s" "graph_ok env" and alone: "s_started s \<or> peersByPub s = []"
  shows "pursuit (snd (server_Start env s))"
proof (cases "s_started s")
  case False
  define u where "u = s\<lparr>s_started := True\<rparr>"
  define r where "r = startAll (se_subsystem_Start env) startOrder u"
  obtain cs where cs: "snd r = calls cs u" using startAll_calls r_def by blast
  have "pursuit (snd r)"
    by (rule pursuit_shrink [OF ok(1)])
      (use startAll_removes [of _ "se_subsystem_Start env" startOrder u] in \<open>simp_all add: r_def [symmetric] cs, simp_all add: u_def\<close>)
  moreover have "peersByPub (snd r) = []" using alone False by (simp add: cs u_def)
  ultimately have e: "pursuit (snd (establishPersistentConnections env (snd r)))" using pursuit_establish ok(2) by blast
  show ?thesis
    using e \<open>pursuit (snd r)\<close> False unfolding server_Start_def u_def [symmetric] r_def [symmetric]
    by (auto simp: Let_def intro!: pursuit_calls split: prod.splits sum.splits option.split)
qed (simp add: server_Start_def ok)

section \<open>The invariant of the system\<close>

lemma pursuit_assign:
  assumes ok: "pursuit s" and new: "connReq_ID r s = UnassignedConnID" "freshID i s"
  shows "pursuit (assignID r i s)"
proof (cases "s_shutdown s \<or> s_reqs s r = None")
  case True
  then show ?thesis using ok by (auto simp: assignID_def pursuit_def)
next
  case False
  then obtain c where c: "s_reqs s r = Some c" and s: "ids_ok s" "listed_ok s" "idle_ok s"
    using ok by (auto simp: pursuit_def)
  define t where "t = assignID r i s"
  have t: "s_reqs t = (s_reqs s)(r \<mapsto> c\<lparr>cr_ID := i\<rparr>)" "s_nextRef t = s_nextRef s" "s_calls t = s_calls s"
    "persistentConnReqs t = persistentConnReqs s" "peersByPub t = peersByPub s" "s_watchers t = s_watchers s"
    by (simp_all add: t_def assignID_def c)
  have same: "connReq_ID r' t = (if r' = r then i else connReq_ID r' s)" "reqKey r' t = reqKey r' s"
    "reqsOf k t = reqsOf k s" for r' k
    using c by (simp_all add: connReq_ID_def reqKey_def reqsOf_def t)
  have i: "i \<noteq> UnassignedConnID" "connReq_ID r' s \<noteq> i" "ConnMgrRemove i \<notin> set (s_calls s)" for r'
    using new(2) by (auto simp: freshID_def)
  have "ids_ok t" using s(1) i c unfolding ids_ok_def same t by (auto split: if_splits)
  moreover have "listed_ok t" using s(2) i unfolding listed_ok_def same t by auto
  moreover have "idle_ok t" using s(3) unfolding idle_ok_def same t .
  ultimately show ?thesis by (simp add: pursuit_def t_def)
qed

lemma pursuit_step: "net_step s t \<Longrightarrow> conns_ok s \<Longrightarrow> pursuit s \<Longrightarrow> pursuit t"
proof (induction rule: net_step.induct)
  case (cleanup p s)
  have "pursuit (markWatcher p (watcherCleanup p s))"
    by (rule pursuit_shrink [OF cleanup(4)]) (auto simp: markWatcher_def watcherCleanup_def Let_def intro: rev_image_eqI)
  then show ?case using cleanup by (simp add: pursuit_endWatcher)
next
  case (outbound env r s conn)
  then show ?case by (auto intro: pursuit_Outbound)
next
  case (finish env p s)
  then show ?case using pursuit_endWatcher [OF pursuit_finish] by force
next
  case (fires rt s)
  have "pursuit (s\<lparr>s_retries := x\<rparr>)" for x by (rule pursuit_shrink [OF fires(3)]) simp_all
  then show ?case by (simp add: retryFires_def pursuit_calls)
next
  case (cancelled rt s)
  show ?case by (rule pursuit_shrink [OF cancelled(4)]) (simp_all add: retryCancelled_def)
next
  case (notify c s peerKey)
  have "pursuit (s\<lparr>s_notified := x\<rparr>)" "pursuit (s\<lparr>peerConnectedListeners := y\<rparr>)" for x y
    by (rule pursuit_shrink [OF notify(3)], simp_all)+
  then show ?case by (simp add: NotifyWhenOnline_def Let_def)
next
  case (stop s)
  show ?case by (simp add: pursuit_shutdown Stop_shutdown)
next
  case (others s f w)
  show ?case by (rule pursuit_shrink [OF others(2)]) simp_all
qed (auto simp: net_env_ok_def pursuit_Inbound pursuit_Connect pursuit_DisconnectPeer pursuit_Disconnect
    pursuit_assign pursuit_Start)

lemma pursuit_always: "net_reach s \<Longrightarrow> pursuit s"
proof (induction rule: net_reach.induct)
  case (init identity f w)
  show ?case
    by (simp add: pursuit_def ids_ok_def listed_ok_def idle_ok_def newServer_def connReq_ID_def reqsOf_def UnassignedConnID_def)
next
  case (step s t)
  then show ?case using pursuit_step connections.always [OF net_reach_srv] by blast
qed

end
