(* ===== verification/ServerProps.thy ===== *)
theory ServerProps
  imports ServerPursuit
begin

text \<open>
  What the server promises about its connections, and where it does not keep what its comments
  say: open connections are unique and indexed, persistent peers are pursued as long as every
  connection can be started, callers that wait for a peer are told once, a shutdown disconnects everyone;
  two nodes that connect to each other at the same time lose both connections, and the watcher of
  a replaced connection takes down what belongs to its successor.
\<close>

section \<open>A new connection\<close>

text \<open>A node that is not registered, in a state that the invariant holds of, is in no index.\<close>

lemma unregistered_indexes:
  assumes "conns_ok s" "\<not> s_shutdown s" "map_of (peersByPub s) k = None"
  shows "inboundPeers s k = None" "outboundPeers s k = None"
  using assms unfolding conns_ok_def indexes_ok_def by (metis option.distinct(1) not_Some_eq)+

text \<open>The peer of a connection, as it is registered when it has started.\<close>

definition startedPeer :: "serverEnv \<Rightarrow> BConn \<Rightarrow> nat option \<Rightarrow> bool \<Rightarrow> server \<Rightarrow> peer" where
  "startedPeer env conn connReq inbound s =
     (let p = newPeer conn connReq \<lparr>na_IdentityKey = conn_RemotePub conn, na_Address = reconnectAddr env conn\<rparr>
                inbound (shouldRequestGraphSync s) (s_nextRef s)
      in case se_Start env p (s_htlcSwitch s) of
           (Inr f, _) \<Rightarrow> p\<lparr>p_remoteSync := f\<rparr> | _ \<Rightarrow> p)"

lemma peerConnected_registers:
  fixes env :: serverEnv and conn :: BConn and connReq :: "nat option" and inbound :: bool and s :: server
  assumes "starts_ok env" "\<not> s_shutdown s"
  defines "p \<equiv> startedPeer env conn connReq inbound s" and "k \<equiv> SerializeCompressed (conn_RemotePub conn)"
    and "t \<equiv> peerConnected env conn connReq inbound s"
  shows "peersByPub t = al_put k p (peersByPub s)"
    and "inboundPeers t = (if inbound then (inboundPeers s)(k \<mapsto> p) else inboundPeers s)"
    and "outboundPeers t = (if inbound then outboundPeers s else (outboundPeers s)(k \<mapsto> p))"
    and "p_conn p = conn" and "p_ref p = s_nextRef s" and "pubStr p = k" and "s_shutdown t = s_shutdown s"
    and "p_pubKeyBytes p = go_copy (replicate 33 0) k" and "p_inbound p = inbound"
    and "ignorePeerTermination t = ignorePeerTermination s" and "s_watchers t = s_watchers s @ [(p, False)]"
    and "s_identity t = s_identity s" and "s_disconnected t = s_disconnected s"
    and "s_notified t = s_notified s @ listeners k s" and "listeners k t = []"
proof -
  define q where "q = newPeer conn connReq \<lparr>na_IdentityKey = conn_RemotePub conn, na_Address = reconnectAddr env conn\<rparr>
    inbound (shouldRequestGraphSync s) (s_nextRef s)"
  obtain f w where st: "se_Start env q (s_htlcSwitch s) = (Inr f, w)"
    using assms(1) unfolding starts_ok_def by blast
  define s1 where "s1 = s\<lparr>s_nextRef := Suc (s_nextRef s), s_htlcSwitch := w\<rparr>"
  have on1: "\<not> s_shutdown s1" using assms(2) by (simp add: s1_def)
  have p: "p = q\<lparr>p_remoteSync := f\<rparr>" by (simp add: p_def startedPeer_def Let_def q_def [symmetric] st)
  have t: "t = addPeer p s1"
    by (simp add: t_def peerConnected_def Let_def q_def [symmetric] st s1_def p)
  show fields: "p_conn p = conn" "p_ref p = s_nextRef s" "pubStr p = k" "p_pubKeyBytes p = go_copy (replicate 33 0) k"
    "p_inbound p = inbound"
    by (simp_all add: p q_def newPeer_def pubStr_def k_def)
  show "peersByPub t = al_put k p (peersByPub s)" "s_shutdown t = s_shutdown s"
    "inboundPeers t = (if inbound then (inboundPeers s)(k \<mapsto> p) else inboundPeers s)"
    "outboundPeers t = (if inbound then outboundPeers s else (outboundPeers s)(k \<mapsto> p))"
    "ignorePeerTermination t = ignorePeerTermination s" "s_watchers t = s_watchers s @ [(p, False)]"
    "s_disconnected t = s_disconnected s"
    using fields by (simp_all add: t addPeer_fields [OF on1]) (simp_all add: s1_def)
  show "s_notified t = s_notified s @ listeners k s" "listeners k t = []"
    using fields by (simp_all add: t addPeer_fields [OF on1] listeners_def) (simp_all add: s1_def)
  show "s_identity t = s_identity s" by (simp add: t addPeer_def Let_def s1_def on1 assms(2))
qed

lemma Outbound_fresh:
  assumes "conns_ok s" "\<not> s_shutdown s" "map_of (peersByPub s) (SerializeCompressed (conn_RemotePub conn)) = None"
    "connReq = None \<or> persistentConnReqs s (SerializeCompressed (conn_RemotePub conn)) \<noteq> None"
  shows "OutboundPeerConnected env connReq conn s =
    peerConnected env conn connReq True
      (cancelConnReqs (SerializeCompressed (conn_RemotePub conn)) (map_option (\<lambda>r. connReq_ID r s) connReq) s)"
  using assms unregistered_indexes [OF assms(1-3)]
  by (auto simp: OutboundPeerConnected_def Let_def findPeerByPubStr_def)

section \<open>The watcher of a replaced connection\<close>

definition keys_ok :: "server \<Rightarrow> bool" where
  "keys_ok s \<longleftrightarrow> (\<forall>p \<in> fst ` set (s_watchers s). p_pubKeyBytes p = go_copy (replicate 33 0) (pubStr p))"

lemma keys_ok_subset:
  "keys_ok s \<Longrightarrow> fst ` set (s_watchers t) \<subseteq> fst ` set (s_watchers s) \<Longrightarrow> keys_ok t"
  unfolding keys_ok_def by (meson subsetD)

lemma keys_peerConnected:
  assumes "keys_ok s"
  shows "keys_ok (peerConnected env conn connReq inbound s)"
proof -
  define q where "q = newPeer conn connReq \<lparr>na_IdentityKey = conn_RemotePub conn, na_Address = reconnectAddr env conn\<rparr>
    inbound (shouldRequestGraphSync s) (s_nextRef s)"
  have q: "p_pubKeyBytes (q\<lparr>p_remoteSync := f\<rparr>) = go_copy (replicate 33 0) (pubStr (q\<lparr>p_remoteSync := f\<rparr>))" for f
    by (simp add: q_def newPeer_def pubStr_def)
  have "keys_ok (addPeer (q\<lparr>p_remoteSync := f\<rparr>) (s\<lparr>s_nextRef := n, s_htlcSwitch := w\<rparr>))" for f n w
    using assms q [of f] by (auto simp: keys_ok_def addPeer_def Let_def Disconnect_def)
  moreover have "keys_ok (Disconnect q (s\<lparr>s_nextRef := n, s_htlcSwitch := w\<rparr>))" for n w
    using assms by (simp add: keys_ok_def)
  ultimately show ?thesis
    by (simp add: peerConnected_def Let_def q_def [symmetric] split: prod.split sum.split)
qed

lemma keys_same:
  "keys_ok (calls cs s) = keys_ok s" "keys_ok (cancelConnReqs k skip s) = keys_ok s" "keys_ok (dropStale p s) = keys_ok s"
  "keys_ok (removeReqOf connReq s) = keys_ok s" "keys_ok (Disconnect p s) = keys_ok s" "keys_ok (removePeer p s) = keys_ok s"
  by (simp_all add: keys_ok_def dropStale_def Let_def removeReqOf_def removePeer_def split: option.split)

lemma keys_Inbound: "keys_ok s \<Longrightarrow> keys_ok (InboundPeerConnected env conn s)"
  by (auto simp: InboundPeerConnected_def Let_def keys_same intro!: keys_peerConnected split: sum.split)

lemma keys_Outbound: "keys_ok s \<Longrightarrow> keys_ok (OutboundPeerConnected env connReq conn s)"
  by (auto simp: OutboundPeerConnected_def Let_def keys_same intro!: keys_peerConnected split: sum.split)

lemma keys_conns: "keys_ok s \<Longrightarrow> conns t = conns s \<Longrightarrow> keys_ok t"
  using conns_parts(5) [of t s] by (simp add: keys_ok_def)

lemma keys_Disconnect:
  assumes "keys_ok s"
  shows "keys_ok (snd (DisconnectPeer pubKey s))"
proof -
  have "keys_ok (dropStale p ((cancelConnReqs k None s)\<lparr>persistentPeers := A, persistentPeersBackoff := B\<rparr>))" for p k A B
    using keys_ok_subset [OF assms] by (simp add: keys_same)
  then show ?thesis using assms by (auto simp: DisconnectPeer_def Let_def split: sum.split)
qed

lemma keys_disconnectAll: "keys_ok s \<Longrightarrow> keys_ok (disconnectAll ps s)"
  by (induction ps arbitrary: s) (simp_all add: keys_Disconnect)

lemma keys_step: "srv_step P s t \<Longrightarrow> keys_ok s \<Longrightarrow> keys_ok t"
proof (induction rule: srv_step.induct)
  case (connect env s addr perm)
  have "keys_ok (addReq k addr (keepPersistent k s))" for k by (rule keys_conns [OF connect(2)]) simp
  then show ?case using connect keys_Outbound by (auto simp: ConnectToPeer_def Let_def keys_same split: sum.split)
next
  case (cleanup p s)
  then show ?case by (auto simp: keys_ok_def endWatcher_def markWatcher_def watcherCleanup_def Let_def)
next
  case (finish env p s)
  have "keys_ok (snd (watcherReconnect env p (removePeer p s)))"
    by (rule keys_conns [OF _ reconnect_conns(1)]) (simp add: keys_same finish)
  then have "keys_ok (snd (watcherFinish env p s))"
    using finish(3) keys_ok_subset [OF finish(3)] by (simp add: watcherFinish_def Let_def keys_same)
  then show ?case by (rule keys_ok_subset) (auto simp: endWatcher_def)
next
  case (start env s)
  then show ?case using keys_conns Start_conns(1) by blast
next
  case (stop s)
  have "keys_ok (calls cs (s\<lparr>s_shutdown := True\<rparr>))" for cs using stop by (simp add: keys_ok_def)
  with stop show ?case by (simp add: server_Stop_def Let_def keys_disconnectAll)
qed (simp_all add: keys_Inbound keys_Outbound keys_Disconnect keys_same, simp_all add: keys_ok_def retryFires_def
    retryCancelled_def assignID_def NotifyWhenOnline_def Let_def)

interpretation keys: server_invariant P keys_ok for P
proof
  show "keys_ok (newServer identity f w)" for identity f w by (simp add: keys_ok_def newServer_def)
qed (rule keys_step)

text \<open>Cancelling the reservations of a peer does not fail, and leaves it none.\<close>

lemma res_Cancel_error: "res_Cancel r l = (Inl e, l') \<Longrightarrow> \<not> stops e"
  by (auto simp: res_Cancel_def ibind_def imod_def dropLimbo_def split: option.splits)

lemma cancelForPeer_returns: "\<exists>w'. cancelForPeer c w = (Inr (), w')"
  by (auto simp: cancelForPeer_def ilogged_def ion_def ibind_def iget_def iret_def f_wallet_def sendErr_def
      dest: res_Cancel_error split: prod.split sum.split option.split)

lemma cancelAll_returns: "\<exists>w'. iforeach (cancelForPeer \<circ> snd) m w = (Inr (), w')"
proof (induction m arbitrary: w)
  case (Cons c m)
  obtain w1 where "cancelForPeer (snd c) w = (Inr (), w1)" using cancelForPeer_returns by blast
  with Cons show ?case by simp
qed simp

lemma CancelPeerReservations_none: "resCtxOf k c (snd (CancelPeerReservations k w)) = None"
proof (cases "map_of (activeReservations w) k")
  case None
  then show ?thesis by (simp add: CancelPeerReservations_def resCtxOf_def peerReservations_def)
next
  case (Some m)
  obtain w' where "iforeach (cancelForPeer \<circ> snd) m w = (Inr (), w')" using cancelAll_returns by blast
  then show ?thesis
    by (simp add: CancelPeerReservations_def Some ibind_def imod_def resCtxOf_def peerReservations_def)
qed

section \<open>The properties\<close>

text \<open>
  C7. Of every connection that was registered and is still open, the server finds the peer by
  its public key, so a node has at most one such connection. A peer that is found has the key it
  is found under, a watcher, and is in exactly one of the two indexes by direction.
\<close>

theorem open_connections_unique:
  assumes "srv_reach P s" "\<not> s_shutdown s"
  shows "(\<forall>p \<in> fst ` set (s_watchers s). p_ref p \<notin> s_disconnected s \<longrightarrow> FindPeerByPubStr (pubStr p) s = Inr p) \<and>
    (\<forall>p \<in> fst ` set (s_watchers s). \<forall>q \<in> fst ` set (s_watchers s).
       p_ref p \<notin> s_disconnected s \<longrightarrow> p_ref q \<notin> s_disconnected s \<longrightarrow> pubStr p = pubStr q \<longrightarrow> p = q) \<and>
    (\<forall>k p. FindPeerByPubStr k s = Inr p \<longrightarrow>
       k = pubStr p \<and> p \<in> fst ` set (s_watchers s) \<and>
       (inboundPeers s k = Some p \<and> outboundPeers s k = None \<or> inboundPeers s k = None \<and> outboundPeers s k = Some p))"
proof -
  have ok: "conns_ok s" by (rule connections.always [OF assms(1)])
  then have ix: "indexes_ok s" using assms(2) by (simp add: conns_ok_def)
  have found: "FindPeerByPubStr k s = Inr p \<longleftrightarrow> map_of (peersByPub s) k = Some p" for k p
    by (simp add: FindPeerByPubStr_def findPeer_cases)
  have open_reg: "map_of (peersByPub s) (pubStr p) = Some p"
    if "p \<in> fst ` set (s_watchers s)" "p_ref p \<notin> s_disconnected s" for p
    by (rule open_is_registered [OF ok assms(2) that])
  have dir: "inboundPeers s k = Some p \<and> outboundPeers s k = None \<or> inboundPeers s k = None \<and> outboundPeers s k = Some p"
    if "map_of (peersByPub s) k = Some p" for k p
  proof -
    have i: "inboundPeers s k = Some q \<longleftrightarrow> q = p \<and> p_inbound p" and o: "outboundPeers s k = Some q \<longleftrightarrow> q = p \<and> \<not> p_inbound p" for q
      using ix that unfolding indexes_ok_def by auto
    show ?thesis
      using i [of p] o [of p] i [of "the (inboundPeers s k)"] o [of "the (outboundPeers s k)"]
      by (cases "inboundPeers s k"; cases "outboundPeers s k") auto
  qed
  have reg: "k = pubStr p \<and> p \<in> fst ` set (s_watchers s)" if "map_of (peersByPub s) k = Some p" for k p
    using ix that unfolding indexes_ok_def by blast
  have same: "p = q" if "p \<in> fst ` set (s_watchers s)" "q \<in> fst ` set (s_watchers s)"
      "p_ref p \<notin> s_disconnected s" "p_ref q \<notin> s_disconnected s" "pubStr p = pubStr q" for p q
  proof -
    have "Some p = map_of (peersByPub s) (pubStr q)" unfolding that(5) [symmetric] by (rule open_reg [OF that(1,3), symmetric])
    also have "\<dots> = Some q" by (rule open_reg [OF that(2,4)])
    finally show ?thesis by simp
  qed
  show ?thesis
    unfolding found using open_reg dir reg same by blast
qed

text \<open>
  C8. When every start of a peer succeeds, every node to reconnect to has an address, and the
  connection manager brings up a request's connection only with the node the request names and
  gives each request a number of its own, then a persistent peer of a running server that had no
  peers before it started is connected, with a watcher that is to ask for it again, or has
  requests: each is permanent and for that node, and was handed to the connection manager, which
  was never told to remove it, or waits in a goroutine that is not cancelled. The wait is between
  one second and sixty-three minutes, and no channel that cancels a retry is closed twice. (A
  start that fails loses the peer.)
\<close>

theorem persistent_peers_pursued:
  assumes "net_reach s" "\<not> s_shutdown s" "k \<in> persistentPeers s"
  shows "((\<exists>p. FindPeerByPubStr k s = Inr p \<and> p \<in> fst ` set (s_watchers s) \<and> p_ref p \<notin> ignorePeerTermination s) \<or>
     (\<exists>rs. persistentConnReqs s k = Some rs \<and> rs \<noteq> [] \<and>
        (\<forall>r \<in> set rs. \<exists>c. s_reqs s r = Some c \<and> cr_Permanent c \<and> SerializeCompressed (na_IdentityKey (cr_Addr c)) = k \<and>
           (ConnMgrConnect r \<in> set (s_calls s) \<and>
              (cr_ID c = UnassignedConnID \<or> ConnMgrRemove (cr_ID c) \<notin> set (s_calls s)) \<or>
            (\<exists>d. (k, r, d) \<in> set (s_retries s) \<and> d \<notin> set (s_closedCancels s)))))) \<and>
    (\<forall>b. persistentPeersBackoff s k = Some b \<longrightarrow> 1000000000 \<le> sint b \<and> sint b \<le> 3780000000000) \<and>
    distinct (s_closedCancels s)"
proof -
  have ok: "conns_ok s" "keep_ok s" using persistence.always [OF net_reach_srv [OF assms(1)]] by simp_all
  then have parts: "indexes_ok s" "backoff_ok s" "cancels_ok s" "reqs_ok s" "attended k s"
    using assms(2,3) by (auto simp: conns_ok_def keep_but_def)
  have run: "ids_ok s" "listed_ok s" using pursuit_always [OF assms(1)] assms(2) by (auto simp: pursuit_def)
  have one: "\<exists>c. s_reqs s r = Some c \<and> cr_Permanent c \<and> SerializeCompressed (na_IdentityKey (cr_Addr c)) = k \<and>
      (ConnMgrConnect r \<in> set (s_calls s) \<and> (cr_ID c = UnassignedConnID \<or> ConnMgrRemove (cr_ID c) \<notin> set (s_calls s)) \<or>
       (\<exists>d. (k, r, d) \<in> set (s_retries s) \<and> d \<notin> set (s_closedCancels s)))"
    if "persistentConnReqs s k = Some rs" "r \<in> set rs" for rs r
  proof -
    have "r \<in> set (reqsOf k s)" using that by (simp add: reqsOf_def)
    then have key: "reqKey r s = Some k"
      and id: "connReq_ID r s = UnassignedConnID \<or> ConnMgrRemove (connReq_ID r s) \<notin> set (s_calls s)"
      using run(2) by (auto simp: listed_ok_def)
    then obtain c where c: "s_reqs s r = Some c" "SerializeCompressed (na_IdentityKey (cr_Addr c)) = k"
      by (auto simp: reqKey_def)
    have "pursued k r s" using parts(4) that unfolding reqs_ok_def by blast
    then have "ConnMgrConnect r \<in> set (s_calls s) \<or> (\<exists>d. (k, r, d) \<in> set (s_retries s) \<and> d \<notin> set (s_closedCancels s))"
      using parts(3) unfolding pursued_def cancels_ok_def by blast
    moreover have "cr_Permanent c" using run(1) c(1) unfolding ids_ok_def by blast
    ultimately show ?thesis using c id by (auto simp: connReq_ID_def)
  qed
  have "1000000000 \<le> sint b \<and> sint b \<le> 3780000000000" if b: "persistentPeersBackoff s k = Some b" for b
  proof -
    obtain c where c: "b = word_of_int c" "1000000000 \<le> c" "c \<le> 3780000000000"
      using parts(2) b unfolding backoff_ok_def by blast
    then have "sint b = c" by (simp add: sint_of_int64)
    with c show ?thesis by simp
  qed
  moreover have "distinct (s_closedCancels s)" using parts(3) by (simp add: cancels_ok_def)
  moreover have "(\<exists>p. FindPeerByPubStr k s = Inr p \<and> p \<in> fst ` set (s_watchers s) \<and> p_ref p \<notin> ignorePeerTermination s) \<or>
      (\<exists>rs. persistentConnReqs s k = Some rs \<and> rs \<noteq> [])"
    using parts(1,4,5) unfolding attended_def indexes_ok_def reqs_ok_def FindPeerByPubStr_def findPeer_cases by blast
  ultimately show ?thesis using one by blast
qed

text \<open>
  C38. The tie breaker of two nodes agrees, but it is not consulted: each has registered
  its own outgoing connection as incoming, so each closes the connection of the other as a
  duplicate, and both are lost.
\<close>

theorem crossing_connections_lost:
  assumes "srv_reach P sa" "\<not> s_shutdown sa" "FindPeer kb sa = Inl ErrPeerNotFound" "starts_ok ea"
    and "srv_reach P sb" "\<not> s_shutdown sb" "FindPeer ka sb = Inl ErrPeerNotFound" "starts_ok eb"
    and "conn_RemotePub outA = kb" "conn_RemotePub inA = kb" "conn_RemotePub outB = ka" "conn_RemotePub inB = ka"
  shows "(let a1 = OutboundPeerConnected ea None outA sa; a2 = InboundPeerConnected ea inA a1;
              b1 = OutboundPeerConnected eb None outB sb; b2 = InboundPeerConnected eb inB b1
          in (\<exists>p. FindPeer kb a1 = Inr p \<and> p_conn p = outA) \<and> (\<exists>p. FindPeer ka b1 = Inr p \<and> p_conn p = outB) \<and>
             a2 = calls [ConnClose (conn_ref inA)] a1 \<and> b2 = calls [ConnClose (conn_ref inB)] b1) \<and>
    (SerializeCompressed ka \<noteq> SerializeCompressed kb \<longrightarrow>
       shouldDropLocalConnection ka kb = (\<not> shouldDropLocalConnection kb ka))"
proof -
  have one: "(\<exists>p. FindPeer k t = Inr p \<and> p_conn p = conn) \<and> InboundPeerConnected env conn' t = calls [ConnClose (conn_ref conn')] t"
    if "srv_reach P s" "\<not> s_shutdown s" "FindPeer k s = Inl ErrPeerNotFound" "starts_ok env"
      "conn_RemotePub conn = k" "conn_RemotePub conn' = k" "t = OutboundPeerConnected env None conn s"
    for k s env conn conn' t
  proof -
    have free: "map_of (peersByPub s) (SerializeCompressed (conn_RemotePub conn)) = None"
      using that(3,5) by (simp add: FindPeer_def findPeer_cases)
    have t: "t = peerConnected env conn None True (cancelConnReqs (SerializeCompressed k) None s)"
      using Outbound_fresh [OF connections.always [OF that(1)] that(2) free] that(5,7) by simp
    have on: "\<not> s_shutdown (cancelConnReqs (SerializeCompressed k) None s)" using that(2) by simp
    note reg = peerConnected_registers [OF that(4) on, of conn None True, folded t]
    show ?thesis
      using reg(1-4,7) that(2,5,6) by (simp add: FindPeer_def findPeer_cases InboundPeerConnected_def)
  qed
  show ?thesis
    using one [OF assms(1-4) assms(9,10) refl] one [OF assms(5-8) assms(11,12) refl]
    by (auto simp: Let_def shouldDropLocalConnection_def)
qed

text \<open>
  C39. A new incoming connection replaces one whose watcher has not run yet. When that
  watcher runs, the reservations of the node are cancelled and its links removed, though they are
  those of the new connection, which is open and registered.
\<close>

theorem stale_watcher_hits_successor:
  assumes "srv_reach P s" "\<not> s_shutdown s" "FindPeer k s = Inr p" "starts_ok env" "conn_RemotePub conn = k"
    "inboundPeers s (SerializeCompressed k) = None" "shouldDropLocalConnection (s_identity s) k"
  shows "\<exists>q. FindPeer k (watcherCleanup p (InboundPeerConnected env conn s)) = Inr q \<and> p_conn q = conn \<and>
    p_ref q \<notin> s_disconnected (watcherCleanup p (InboundPeerConnected env conn s)) \<and>
    (\<forall>c. resCtxOf (p_pubKeyBytes q) c (s_fundingMgr (watcherCleanup p (InboundPeerConnected env conn s))) = None) \<and>
    (\<forall>ls. getLinks (p_pubKeyBytes q) (s_htlcSwitch (InboundPeerConnected env conn s)) = Inr ls \<longrightarrow>
       (\<forall>l \<in> set ls. linkIndex (s_htlcSwitch (watcherCleanup p (InboundPeerConnected env conn s))) (lk_ChanID l) = None))"
proof -
  define kk where "kk = SerializeCompressed k"
  define s1 where "s1 = cancelConnReqs kk None (dropStale p s)"
  define t where "t = InboundPeerConnected env conn s"
  define q where "q = startedPeer env conn None False s1"
  have ok: "conns_ok s" "keys_ok s" using connections.always keys.always assms(1) by blast+
  have reg: "map_of (peersByPub s) kk = Some p" using assms(3) by (simp add: FindPeer_def findPeer_cases kk_def)
  have ix: "indexes_ok s" "refs_ok s" using ok(1) assms(2) by (simp_all add: conns_ok_def)
  have p: "kk = pubStr p" "p \<in> fst ` set (s_watchers s)" using ix(1) reg unfolding indexes_ok_def by blast+
  have on: "\<not> s_shutdown s1" using assms(2) by (simp add: s1_def)
  have t: "t = peerConnected env conn None False s1"
    using assms(2,6,7) reg by (simp add: t_def InboundPeerConnected_def Let_def assms(5) findPeerByPubStr_def kk_def s1_def)
  note new = peerConnected_registers [OF assms(4) on, of conn None False, folded t q_def]
  have "p_ref p < s_nextRef s" using ix(2) p(2) unfolding refs_ok_def by blast
  moreover have "s_nextRef s \<notin> s_disconnected s" using ix(2) unfolding refs_ok_def by blast
  ultimately have live: "p_ref q \<notin> s_disconnected t"
    using assms(2) by (simp add: new s1_def dropStale_def Let_def removePeer_fields)
  have bytes: "p_pubKeyBytes q = p_pubKeyBytes p"
    using new(8) ok(2) p assms(5) unfolding keys_ok_def kk_def by metis
  have found: "FindPeer k t = Inr q" using new(1) assms(5) by (simp add: FindPeer_def findPeer_cases)
  have links: "linkIndex (s_htlcSwitch (watcherCleanup p t)) (lk_ChanID l) = None"
    if "getLinks (p_pubKeyBytes p) (s_htlcSwitch t) = Inr ls" "l \<in> set ls" for l ls
    using that by (simp add: watcherCleanup_def Let_def linkIndex_removeLinks)
  have "FindPeer k (watcherCleanup p t) = FindPeer k t" "s_disconnected (watcherCleanup p t) = s_disconnected t"
    "s_fundingMgr (watcherCleanup p t) = snd (CancelPeerReservations (p_pubKeyBytes p) (s_fundingMgr t))"
    by (simp_all add: watcherCleanup_def Let_def FindPeer_def findPeerByPubStr_def)
  then show ?thesis
    using found live bytes links new(4) unfolding t_def [symmetric]
    by (intro exI [of _ q]) (simp add: CancelPeerReservations_none)
qed

text \<open>
  C37. A persistent peer whose connection comes up but cannot be started is forgotten: its
  requests are cancelled before the start, nothing asks for it again, the watchers of its earlier
  connections do not, and a connection that the connection manager still brings up is refused.
\<close>

theorem failed_start_forgets_peer:
  assumes "srv_reach P s" "\<not> s_shutdown s" "FindPeer k s = Inl ErrPeerNotFound" "conn_RemotePub conn = k"
    "\<forall>p w. \<exists>e w'. se_Start env p w = (Inl e, w')" "SerializeCompressed k \<in> persistentPeers s"
  shows "let t = InboundPeerConnected env conn s in
    SerializeCompressed k \<in> persistentPeers t \<and> FindPeer k t = Inl ErrPeerNotFound \<and>
    persistentConnReqs t (SerializeCompressed k) = None \<and> persistentRetryCancels t (SerializeCompressed k) = None \<and>
    (\<forall>env' p b. (p, b) \<in> set (s_watchers t) \<longrightarrow> pubStr p = SerializeCompressed k \<longrightarrow>
       persistentConnReqs (snd (watcherFinish env' p t)) (SerializeCompressed k) = None) \<and>
    (\<forall>env' r conn'. conn_RemotePub conn' = k \<longrightarrow>
       OutboundPeerConnected env' (Some r) conn' t = calls [ConnClose (conn_ref conn')] (calls [ConnMgrRemove (connReq_ID r t)] t))"
proof -
  define kk where "kk = SerializeCompressed k"
  define t where "t = InboundPeerConnected env conn s"
  have ok: "conns_ok s" by (rule connections.always [OF assms(1)])
  have free: "map_of (peersByPub s) kk = None" using assms(3) by (simp add: FindPeer_def findPeer_cases kk_def)
  have "conns_ok t" unfolding t_def by (rule Inbound_ok [OF ok])
  define s1 where "s1 = cancelConnReqs kk None s"
  define q where "q = newPeer conn None \<lparr>na_IdentityKey = conn_RemotePub conn, na_Address = reconnectAddr env conn\<rparr>
    False (shouldRequestGraphSync s1) (s_nextRef s1)"
  obtain e w where st: "se_Start env q (s_htlcSwitch s1) = (Inl e, w)" using assms(5) by blast
  have t: "t = Disconnect q (s1\<lparr>s_nextRef := Suc (s_nextRef s1), s_htlcSwitch := w\<rparr>)"
    using assms(2,4) free unregistered_indexes(1) [OF ok assms(2) free] st
    by (simp add: t_def InboundPeerConnected_def Let_def kk_def [symmetric] findPeerByPubStr_def s1_def [symmetric]
        peerConnected_def q_def)
  have fields: "persistentPeers t = persistentPeers s" "peersByPub t = peersByPub s" "persistentConnReqs t kk = None"
    "persistentRetryCancels t kk = None" "s_shutdown t = s_shutdown s" "outboundPeers t = outboundPeers s"
    by (simp_all add: t s1_def)
  have ignored: "p_ref p \<in> ignorePeerTermination t" if "(p, b) \<in> set (s_watchers t)" "pubStr p = kk" for p b
  proof -
    have "p \<in> fst ` set (s_watchers t)" using that(1) by force
    moreover have "watchers_ok t" using \<open>conns_ok t\<close> assms(2) fields(5) by (simp add: conns_ok_def)
    moreover have "map_of (peersByPub t) (pubStr p) = None" using that(2) free fields(2) by simp
    ultimately show ?thesis unfolding watchers_ok_def by force
  qed
  have late: "persistentConnReqs (snd (watcherFinish env' p t)) kk = None" if "(p, b) \<in> set (s_watchers t)" "pubStr p = kk" for env' p b
    using ignored [OF that] fields(3) by (simp add: watcherFinish_def)
  have refused: "OutboundPeerConnected env' (Some r) conn' t =
      calls [ConnClose (conn_ref conn')] (calls [ConnMgrRemove (connReq_ID r t)] t)" if "conn_RemotePub conn' = k" for env' r conn'
    using that fields assms(2) unregistered_indexes(2) [OF ok assms(2) free]
    by (simp add: OutboundPeerConnected_def Let_def kk_def [symmetric] removeReqOf_def)
  have "FindPeer k t = Inl ErrPeerNotFound" using free fields(2) by (simp add: FindPeer_def findPeer_cases kk_def)
  moreover have "kk \<in> persistentPeers t" using fields(1) assms(6) by (simp add: kk_def)
  ultimately show ?thesis
    unfolding t_def [symmetric] kk_def [symmetric] Let_def
    by (intro conjI allI impI late refused fields(3,4))
qed

lemma told_when_online:
  assumes ok: "conns_ok s" and on: "\<not> s_shutdown s" and free: "FindPeer (conn_RemotePub conn) s = Inl ErrPeerNotFound"
    and env: "starts_ok env"
  defines "k \<equiv> SerializeCompressed (conn_RemotePub conn)"
  shows "s_notified (InboundPeerConnected env conn s) = s_notified s @ listeners k s"
    "listeners k (InboundPeerConnected env conn s) = []"
    "connReq = None \<or> persistentConnReqs s k \<noteq> None \<Longrightarrow>
       s_notified (OutboundPeerConnected env connReq conn s) = s_notified s @ listeners k s"
    "connReq = None \<or> persistentConnReqs s k \<noteq> None \<Longrightarrow>
       listeners k (OutboundPeerConnected env connReq conn s) = []"
proof -
  have none: "map_of (peersByPub s) k = None" using free by (simp add: FindPeer_def findPeer_cases k_def)
  note idx = unregistered_indexes [OF ok on none]
  have told: "s_notified (peerConnected env conn req inbound (cancelConnReqs k skip s)) = s_notified s @ listeners k s"
    "listeners k (peerConnected env conn req inbound (cancelConnReqs k skip s)) = []" for req inbound skip
  proof -
    have "\<not> s_shutdown (cancelConnReqs k skip s)" using on by simp
    note new = peerConnected_registers [OF env this, of conn req inbound, folded k_def]
    show "s_notified (peerConnected env conn req inbound (cancelConnReqs k skip s)) = s_notified s @ listeners k s"
      "listeners k (peerConnected env conn req inbound (cancelConnReqs k skip s)) = []"
      using new(14,15) by (simp_all add: listeners_def)
  qed
  have inb: "InboundPeerConnected env conn s = peerConnected env conn None False (cancelConnReqs k None s)"
    using on none idx(1) by (simp add: InboundPeerConnected_def Let_def k_def [symmetric] findPeerByPubStr_def)
  have outb: "OutboundPeerConnected env connReq conn s =
      peerConnected env conn connReq True (cancelConnReqs k (map_option (\<lambda>r. connReq_ID r s) connReq) s)"
    if "connReq = None \<or> persistentConnReqs s k \<noteq> None"
    using that on none idx(2) by (auto simp: OutboundPeerConnected_def Let_def k_def [symmetric] findPeerByPubStr_def)
  show "s_notified (InboundPeerConnected env conn s) = s_notified s @ listeners k s"
    "listeners k (InboundPeerConnected env conn s) = []"
    by (simp_all add: inb told)
  show "s_notified (OutboundPeerConnected env connReq conn s) = s_notified s @ listeners k s"
    "listeners k (OutboundPeerConnected env connReq conn s) = []" if "connReq = None \<or> persistentConnReqs s k \<noteq> None"
    using that by (simp_all add: outb told)
qed

text \<open>
  C28. Nobody waits for a peer that is connected and no channel of a waiting caller is closed
  twice. A caller that asks to be told is told at once if the peer is connected, and is listed
  otherwise. When a peer comes online, on a connection of either direction that can be started,
  all that wait for it are told, in order, and none is left; an outgoing connection counts only if
  it has no request or the peer's requests were not cancelled meanwhile.
\<close>

theorem listeners_told_once:
  assumes "srv_reach P s" "\<not> s_shutdown s"
  shows "distinct (s_notified s) \<and>
    (\<forall>k c. c \<in> set (listeners k s) \<longrightarrow> c \<notin> set (s_notified s) \<and> FindPeerByPubStr k s = Inl ErrPeerNotFound) \<and>
    (\<forall>peerKey c. case FindPeer peerKey s of
         Inr p \<Rightarrow> s_notified (NotifyWhenOnline peerKey c s) = s_notified s @ [c]
       | Inl _ \<Rightarrow> s_notified (NotifyWhenOnline peerKey c s) = s_notified s \<and>
           listeners (SerializeCompressed peerKey) (NotifyWhenOnline peerKey c s) =
             listeners (SerializeCompressed peerKey) s @ [c]) \<and>
    (\<forall>env conn t. starts_ok env \<longrightarrow> FindPeer (conn_RemotePub conn) s = Inl ErrPeerNotFound \<longrightarrow>
       t = InboundPeerConnected env conn s \<or>
       (\<exists>connReq. t = OutboundPeerConnected env connReq conn s \<and>
          (connReq = None \<or> persistentConnReqs s (SerializeCompressed (conn_RemotePub conn)) \<noteq> None)) \<longrightarrow>
       s_notified t = s_notified s @ listeners (SerializeCompressed (conn_RemotePub conn)) s \<and>
       listeners (SerializeCompressed (conn_RemotePub conn)) t = [])"
proof -
  have w: "waiting_ok s" by (rule waiting.always [OF assms(1)])
  have off: "c \<notin> set (s_notified s) \<and> map_of (peersByPub s) k = None" if "c \<in> set (listeners k s)" for k c
    using w assms(2) that unfolding waiting_ok_def by blast
  have waits: "c \<notin> set (s_notified s) \<and> FindPeerByPubStr k s = Inl ErrPeerNotFound" if "c \<in> set (listeners k s)" for k c
    using off [OF that] by (simp add: FindPeerByPubStr_def findPeer_cases)
  have asks: "case FindPeer peerKey s of
         Inr p \<Rightarrow> s_notified (NotifyWhenOnline peerKey c s) = s_notified s @ [c]
       | Inl _ \<Rightarrow> s_notified (NotifyWhenOnline peerKey c s) = s_notified s \<and>
           listeners (SerializeCompressed peerKey) (NotifyWhenOnline peerKey c s) =
             listeners (SerializeCompressed peerKey) s @ [c]" for peerKey c
    by (cases "map_of (peersByPub s) (SerializeCompressed peerKey)")
      (simp_all add: FindPeer_def findPeerByPubStr_def NotifyWhenOnline_def Let_def listeners_def)
  have "distinct (s_notified s)" using w assms(2) unfolding waiting_ok_def by blast
  with waits asks show ?thesis
    using told_when_online [OF connections.always [OF assms(1)] assms(2)] by (intro conjI) (blast+)
qed

lemma DisconnectPeer_stopped:
  assumes "s_shutdown s"
  shows "s_shutdown (snd (DisconnectPeer key s))" "peersByPub (snd (DisconnectPeer key s)) = peersByPub s"
    "s_watchers (snd (DisconnectPeer key s)) = s_watchers s" "s_disconnected s \<subseteq> s_disconnected (snd (DisconnectPeer key s))"
    "map_of (peersByPub s) (SerializeCompressed key) = Some p \<Longrightarrow> p_ref p \<in> s_disconnected (snd (DisconnectPeer key s))"
  using assms
  by (auto simp: DisconnectPeer_def Let_def dropStale_def removePeer_def findPeerByPubStr_def split: option.split)

lemma disconnectAll_stopped:
  assumes "s_shutdown s"
  shows "s_watchers (disconnectAll ps s) = s_watchers s" "s_disconnected s \<subseteq> s_disconnected (disconnectAll ps s)"
    "p \<in> set ps \<Longrightarrow> map_of (peersByPub s) (pubStr p) = Some p \<Longrightarrow> p_ref p \<in> s_disconnected (disconnectAll ps s)"
proof -
  have "s_watchers (disconnectAll ps s) = s_watchers s \<and> s_disconnected s \<subseteq> s_disconnected (disconnectAll ps s) \<and>
    (\<forall>p \<in> set ps. map_of (peersByPub s) (pubStr p) = Some p \<longrightarrow> p_ref p \<in> s_disconnected (disconnectAll ps s))"
    using assms
  proof (induction ps arbitrary: s)
    case (Cons q ps)
    define t where "t = snd (DisconnectPeer (na_IdentityKey (p_addr q)) s)"
    note dp = DisconnectPeer_stopped [OF Cons.prems, of "na_IdentityKey (p_addr q)", folded t_def]
    from Cons.IH [OF dp(1)] show ?case
      using dp(2-4) dp(5) [of q] unfolding disconnectAll.simps t_def [symmetric] pubStr_def by auto
  qed simp
  then show "s_watchers (disconnectAll ps s) = s_watchers s" "s_disconnected s \<subseteq> s_disconnected (disconnectAll ps s)"
    "p \<in> set ps \<Longrightarrow> map_of (peersByPub s) (pubStr p) = Some p \<Longrightarrow> p_ref p \<in> s_disconnected (disconnectAll ps s)"
    by blast+
qed

text \<open>
  C27. Once the server is stopped, every connection that has a watcher is closed, so that
  each watcher goes on and ends.
\<close>

theorem stop_disconnects_everyone:
  assumes "srv_reach P s" "\<not> s_shutdown s"
  shows "s_shutdown (server_Stop s) \<and>
    (\<forall>p \<in> fst ` set (s_watchers (server_Stop s)). p_ref p \<in> s_disconnected (server_Stop s))"
proof -
  define s1 where "s1 = calls (map SubStop stopOrder) (s\<lparr>s_shutdown := True\<rparr>)"
  have stop: "server_Stop s = disconnectAll (Peers s1) s1" using assms(2) by (simp add: server_Stop_def s1_def Let_def)
  have s1: "s_shutdown s1" "peersByPub s1 = peersByPub s" "s_watchers s1 = s_watchers s" "s_disconnected s1 = s_disconnected s"
    by (simp_all add: s1_def)
  have w: "watchers_ok s" using connections.always [OF assms(1)] assms(2) by (simp add: conns_ok_def)
  have "p_ref p \<in> s_disconnected (server_Stop s)" if p: "p \<in> fst ` set (s_watchers s)" for p
  proof (cases "p_ref p \<in> ignorePeerTermination s")
    case True
    then have "p_ref p \<in> s_disconnected s1" using w s1(4) unfolding watchers_ok_def by blast
    then show ?thesis using disconnectAll_stopped(2) [OF s1(1)] stop by auto
  next
    case False
    then have reg: "map_of (peersByPub s1) (pubStr p) = Some p" unfolding s1(2) using w p unfolding watchers_ok_def by blast
    then have "p \<in> set (Peers s1)" unfolding Peers_def by (force dest: map_of_SomeD)
    then show ?thesis using disconnectAll_stopped(3) [OF s1(1) _ reg] stop by simp
  qed
  moreover have "s_watchers (server_Stop s) = s_watchers s" using disconnectAll_stopped(1) [OF s1(1)] s1(3) stop by simp
  ultimately show ?thesis using Stop_shutdown by simp
qed

text \<open>The backoff after a number of failed attempts.\<close>

fun backoffAfter :: "(nat \<Rightarrow> goerr + nat) \<Rightarrow> nat \<Rightarrow> u64 \<Rightarrow> goerr + u64" where
  "backoffAfter rand 0 b = Inr b"
| "backoffAfter rand (Suc n) b =
     (case computeNextBackoff rand b of Inl e \<Rightarrow> Inl e | Inr b' \<Rightarrow> backoffAfter rand n b')"

lemma backoffAfter_int:
  assumes "\<forall>n. \<exists>v. rand n = Inr v" "in_range c"
  shows "backoffAfter rand n (word_of_int c) = Inr (word_of_int ((backoffFrom ^^ n) c))"
  using assms(2)
proof (induction n arbitrary: c)
  case (Suc n)
  have "5 \<le> c" "c < 2 ^ 62" using Suc.prems by (simp_all add: in_range_def)
  moreover obtain v where "rand (nat (doubled c div 10)) = Inr v" using assms(1) by blast
  ultimately have "computeNextBackoff rand (word_of_int c) = Inr (word_of_int (backoffFrom c))"
    by (simp add: computeNextBackoff_int)
  then show ?case using Suc.IH [OF next_in_range(2) [OF Suc.prems]] by (simp add: funpow_Suc_right del: funpow.simps)
qed simp

lemma backoffFrom_limit: "(backoffFrom ^^ 12) 1000000000 = 3780000000000" "backoffFrom 3780000000000 = 3780000000000"
  by (simp_all add: backoffFrom_def doubled_def sint_maximumBackoff eval_nat_numeral)

text \<open>
  The random number has no influence on the backoff. From the default, with attempts that
  keep failing, it is sixty-three minutes from the twelfth attempt on, above the maximum of one hour
  that the code means to keep.
\<close>

theorem backoff_exceeds_maximum:
  assumes "\<forall>n. \<exists>v. rand n = Inr v" "12 \<le> n"
  shows "backoffAfter rand n defaultBackoff = Inr 3780000000000 \<and> sint maximumBackoff < sint (3780000000000 :: u64)"
proof -
  have "(backoffFrom ^^ (12 + m)) 1000000000 = 3780000000000" for m
    by (induction m) (simp_all only: add_Suc_right funpow.simps comp_def backoffFrom_limit add_0_right)
  from this [of "n - 12"] have "(backoffFrom ^^ n) 1000000000 = 3780000000000" using assms(2) by simp
  moreover have "in_range 1000000000" by (simp add: in_range_def)
  ultimately show ?thesis
    using backoffAfter_int [OF assms(1), of 1000000000 n] by (simp add: defaultBackoff_def sint_maximumBackoff)
qed

section \<open>The properties at a concrete server\<close>

text \<open>Two nodes, connections between them, and an environment in which every start succeeds, or none.\<close>

definition srv_key :: "nat \<Rightarrow> PublicKey" where "srv_key n = \<lparr>X = n, Y = 0\<rparr>"
definition srv_conn :: "nat \<Rightarrow> nat \<Rightarrow> BConn" where
  "srv_conn r n = \<lparr>conn_ref = r, conn_RemotePub = srv_key n, conn_RemoteAddr = OtherAddr []\<rparr>"

definition srv_env :: "(goerr + bool) \<Rightarrow> serverEnv" where
  "srv_env r = \<lparr>se_FetchLightningNode = (\<lambda>_. Inr []), se_Start = (\<lambda>p w. (r, w)), se_rand_Int = (\<lambda>n. Inr 0),
     se_Dial = (\<lambda>a. Inr (srv_conn 0 2)), se_EstimateFeePerVSize = (\<lambda>_. Inr 1), se_GenesisHash = 0,
     se_FetchAllLinkNodes = Inr [], se_graphEdges = Inr [], se_subsystem_Start = (\<lambda>_. None), se_bootstrap = False,
     se_initNetworkBootstrappers = None\<rparr>"

definition srv_zero :: "nat \<Rightarrow> server" where
  "srv_zero n = newServer (srv_key n) (newFundingManager emptyWallet (Bkt [])) emptySwitch"

text \<open>The node with key 3 after an incoming connection of the node with key 2.\<close>

definition srv_one :: server where
  "srv_one = InboundPeerConnected (srv_env (Inr False)) (srv_conn 0 2) (srv_zero 3)"

definition srv_asked :: server where
  "srv_asked = snd (ConnectToPeer (srv_env (Inr False)) \<lparr>na_IdentityKey = srv_key 2, na_Address = OtherAddr []\<rparr> True (srv_zero 3))"

definition srv_waited :: server where
  "srv_waited = NotifyWhenOnline (srv_key 2) 7 (srv_zero 3)"

lemma srv_env_ok: "srv_env_ok (srv_env (Inr b))" "starts_ok (srv_env (Inr b))"
  by (simp_all add: srv_env_ok_def starts_ok_def nodes_ok_def srv_env_def)

lemma srv_zero_reach: "srv_reach P (srv_zero n)"
  unfolding srv_zero_def by (rule srv_reach.init)

lemma srv_one_reach: "srv_reach srv_env_ok srv_one"
  unfolding srv_one_def by (rule srv_reach.step [OF srv_zero_reach srv_step.inbound [of srv_env_ok, OF srv_env_ok(1)]])

lemma srv_asked_reach: "srv_reach srv_env_ok srv_asked"
  unfolding srv_asked_def by (rule srv_reach.step [OF srv_zero_reach srv_step.connect [of srv_env_ok, OF srv_env_ok(1)]])

lemma srv_waited_reach: "srv_reach srv_env_ok srv_waited"
  unfolding srv_waited_def
  by (rule srv_reach.step [OF srv_zero_reach srv_step.notify])
    (simp add: freshListener_def srv_zero_def newServer_def listeners_def)

lemmas srv_demo = srv_one_def srv_asked_def srv_waited_def srv_zero_def srv_env_def srv_conn_def newServer_def

lemma srv_demo_on: "\<not> s_shutdown (srv_zero n)" "\<not> s_shutdown srv_asked" "\<not> s_shutdown srv_waited" "\<not> s_shutdown srv_one"
proof -
  show "\<not> s_shutdown (srv_zero n)" "\<not> s_shutdown srv_waited" by (simp_all add: srv_demo NotifyWhenOnline_def Let_def)
  show "\<not> s_shutdown srv_asked"
    using conns_parts(1) [OF addReq_fields(1)] conns_parts(1) [OF keepPersistent_fields(1)]
    by (simp add: srv_asked_def ConnectToPeer_def Let_def findPeerByPubStr_def split: sum.split)
      (simp add: srv_demo)
  show "\<not> s_shutdown srv_one"
    by (simp add: srv_one_def InboundPeerConnected_def Let_def peerConnected_def srv_env_def srv_zero_def newServer_def findPeerByPubStr_def)
qed

abbreviation srv_k2 :: bytes where "srv_k2 \<equiv> SerializeCompressed (srv_key 2)"

definition srv_p2 :: peer where "srv_p2 = startedPeer (srv_env (Inr False)) (srv_conn 0 2) None False (cancelConnReqs srv_k2 None (srv_zero 3))"

lemma srv_one_peers: "peersByPub srv_one = [(srv_k2, srv_p2)]" "fst ` set (s_watchers srv_one) = {srv_p2}"
  "inboundPeers srv_one = Map.empty"
proof -
  define s1 where "s1 = cancelConnReqs srv_k2 None (srv_zero 3)"
  have zero: "peersByPub s1 = []" "s_watchers s1 = []" "inboundPeers s1 = Map.empty" "\<not> s_shutdown s1"
    using srv_demo_on(1) by (simp_all add: s1_def srv_zero_def newServer_def)
  have one: "srv_one = peerConnected (srv_env (Inr False)) (srv_conn 0 2) None False s1"
    using srv_demo_on(1) [of 3]
    by (simp add: srv_one_def InboundPeerConnected_def Let_def findPeerByPubStr_def s1_def srv_conn_def)
      (simp add: srv_zero_def newServer_def)
  note new = peerConnected_registers [OF srv_env_ok(2) [of False] zero(4), of "srv_conn 0 2" None False, folded one]
  show "peersByPub srv_one = [(srv_k2, srv_p2)]" "fst ` set (s_watchers srv_one) = {srv_p2}" "inboundPeers srv_one = Map.empty"
    using new(1,2,11) zero by (simp_all add: srv_p2_def s1_def srv_conn_def)
qed

theorem open_connections_unique_witness:
  "FindPeerByPubStr srv_k2 srv_one = Inr srv_p2 \<and> srv_k2 = pubStr srv_p2 \<and> outboundPeers srv_one srv_k2 = Some srv_p2"
proof -
  have "FindPeerByPubStr srv_k2 srv_one = Inr srv_p2"
    by (simp add: FindPeerByPubStr_def findPeer_cases srv_one_peers)
  with open_connections_unique [OF srv_one_reach srv_demo_on(4)] show ?thesis by (simp add: srv_one_peers)
qed

lemma srv_asked_fields:
  "persistentPeers srv_asked = {srv_k2}" "peersByPub srv_asked = []" "persistentConnReqs srv_asked srv_k2 = Some [0]"
  by (simp_all add: srv_asked_def ConnectToPeer_def findPeerByPubStr_def srv_zero_def newServer_def Let_def addReq_def reqsOf_def
      keepPersistent_def)

lemma srv_asked_net: "net_reach srv_asked"
proof -
  have "net_env_ok (srv_env (Inr False))" using srv_env_ok(1) by (simp add: net_env_ok_def graph_ok_def srv_env_def)
  then show ?thesis
    unfolding srv_asked_def srv_zero_def by (rule net_reach.step [OF net_reach.init net_step.connect])
qed

theorem persistent_peers_pursued_witness:
  "\<exists>c. s_reqs srv_asked 0 = Some c \<and> cr_Permanent c \<and> SerializeCompressed (na_IdentityKey (cr_Addr c)) = srv_k2 \<and>
     ConnMgrConnect 0 \<in> set (s_calls srv_asked) \<and> distinct (s_closedCancels srv_asked)"
proof -
  have "srv_k2 \<in> persistentPeers srv_asked" by (simp add: srv_asked_fields)
  moreover have "s_retries srv_asked = []"
    by (simp add: srv_asked_def ConnectToPeer_def findPeerByPubStr_def srv_zero_def newServer_def Let_def addReq_def keepPersistent_def)
  ultimately show ?thesis
    using persistent_peers_pursued [OF srv_asked_net srv_demo_on(2), of srv_k2]
    unfolding FindPeerByPubStr_def findPeer_cases srv_asked_fields(2,3) by auto
qed

lemma srv_zero_nobody: "FindPeer k (srv_zero n) = Inl ErrPeerNotFound"
  by (simp add: FindPeer_def findPeer_cases srv_zero_def newServer_def)

theorem crossing_connections_lost_witness:
  "InboundPeerConnected (srv_env (Inr False)) (srv_conn 3 3) (OutboundPeerConnected (srv_env (Inr False)) None (srv_conn 2 3) (srv_zero 2)) =
     calls [ConnClose 3] (OutboundPeerConnected (srv_env (Inr False)) None (srv_conn 2 3) (srv_zero 2))"
  using crossing_connections_lost [OF srv_zero_reach srv_demo_on(1) srv_zero_nobody srv_env_ok(2)
      srv_zero_reach srv_demo_on(1) srv_zero_nobody srv_env_ok(2), of "srv_conn 2 3" "srv_key 3" "srv_conn 3 3" "srv_conn 4 2" "srv_key 2" "srv_conn 5 2" False 2 False 3]
  by (simp add: srv_conn_def Let_def)

lemma srv_keys_order: "shouldDropLocalConnection (srv_key 3) (srv_key 2)"
  unfolding shouldDropLocalConnection_def srv_key_def by code_simp

theorem stale_watcher_hits_successor_witness:
  "\<exists>q. FindPeer (srv_key 2) (watcherCleanup srv_p2 (InboundPeerConnected (srv_env (Inr True)) (srv_conn 1 2) srv_one)) = Inr q \<and>
     p_conn q = srv_conn 1 2"
proof -
  have 1: "FindPeer (srv_key 2) srv_one = Inr srv_p2" by (simp add: FindPeer_def findPeer_cases srv_one_peers)
  have 2: "conn_RemotePub (srv_conn 1 2) = srv_key 2" by (simp add: srv_conn_def)
  have 3: "inboundPeers srv_one srv_k2 = None" by (simp add: srv_one_peers)
  have "s_identity srv_one = srv_key 3"
    by (simp add: srv_one_def InboundPeerConnected_def Let_def findPeerByPubStr_def peerConnected_def addPeer_def
        srv_zero_def newServer_def srv_env_def)
  then have 4: "shouldDropLocalConnection (s_identity srv_one) (srv_key 2)" by (simp add: srv_keys_order)
  from stale_watcher_hits_successor [OF srv_one_reach srv_demo_on(4) 1 srv_env_ok(2) [of True] 2 3 4] show ?thesis by blast
qed

theorem failed_start_forgets_peer_witness:
  "srv_k2 \<in> persistentPeers (InboundPeerConnected (srv_env (Inl EOF)) (srv_conn 1 2) srv_asked) \<and>
   persistentConnReqs (InboundPeerConnected (srv_env (Inl EOF)) (srv_conn 1 2) srv_asked) srv_k2 = None"
proof -
  have 1: "FindPeer (srv_key 2) srv_asked = Inl ErrPeerNotFound" by (simp add: FindPeer_def findPeer_cases srv_asked_fields)
  have 2: "conn_RemotePub (srv_conn 1 2) = srv_key 2" by (simp add: srv_conn_def)
  have 3: "\<forall>p w. \<exists>e w'. se_Start (srv_env (Inl EOF)) p w = (Inl e, w')" by (simp add: srv_env_def)
  have 4: "srv_k2 \<in> persistentPeers srv_asked" by (simp add: srv_asked_fields)
  from failed_start_forgets_peer [OF srv_asked_reach srv_demo_on(2) 1 2 3 4] show ?thesis by (simp add: Let_def)
qed

theorem listeners_told_once_witness:
  "FindPeerByPubStr srv_k2 srv_waited = Inl ErrPeerNotFound \<and>
   s_notified (InboundPeerConnected (srv_env (Inr False)) (srv_conn 0 2) srv_waited) = [7] \<and>
   s_notified (OutboundPeerConnected (srv_env (Inr False)) None (srv_conn 0 2) srv_waited) = [7]"
proof -
  have l: "listeners srv_k2 srv_waited = [7]" "s_notified srv_waited = []" "FindPeer (srv_key 2) srv_waited = Inl ErrPeerNotFound"
    by (simp_all add: srv_waited_def NotifyWhenOnline_def Let_def srv_zero_def newServer_def listeners_def FindPeer_def findPeer_cases)
  have "conn_RemotePub (srv_conn 0 2) = srv_key 2" by (simp add: srv_conn_def)
  with listeners_told_once [OF srv_waited_reach srv_demo_on(3)] l srv_env_ok(2) [of False] show ?thesis
    by (metis append_Nil list.set_intros(1))
qed

theorem stop_disconnects_everyone_witness: "p_ref srv_p2 \<in> s_disconnected (server_Stop srv_one)"
proof -
  have "s_watchers (server_Stop srv_one) = s_watchers srv_one"
    using disconnectAll_stopped(1) srv_demo_on(4) by (simp add: server_Stop_def Let_def)
  then have "srv_p2 \<in> fst ` set (s_watchers (server_Stop srv_one))" by (simp add: srv_one_peers)
  with stop_disconnects_everyone [OF srv_one_reach srv_demo_on(4)] show ?thesis by blast
qed

theorem backoff_exceeds_maximum_witness: "backoffAfter (\<lambda>_. Inr 0) 12 defaultBackoff = Inr 3780000000000"
  using backoff_exceeds_maximum [of "\<lambda>_. Inr 0" 12] by simp

end
