(* ===== verification/PeerProps.thy ===== *)
theory PeerProps
  imports PeerSystem PeerStart ServerProps CloseProps
begin

text \<open>
  The properties of a peer: its start, its channels over time, and the end of a close; and what a
  failing backend leaves behind.
\<close>

section \<open>The start\<close>

lemma start_ran:
  assumes "peer_Start env sa (newPeerConn p w) = (res, pc)" "res = Inr () \<or> pc_chans pc \<noteq> newPeerState (p_pubKeyBytes p) w"
  shows "\<exists>msg pc1 pc2. sendInitMsg sa ((newPeerConn p w)\<lparr>pc_started := True\<rparr>) = (None, pc1) \<and> sa_first sa = FirstInit msg
     \<and> handleInitMsg msg pc1 = (Inr (), pc2) \<and> startChannels env sa pc2 = (res, pc)"
proof -
  obtain err pc1 where s: "sendInitMsg sa ((newPeerConn p w)\<lparr>pc_started := True\<rparr>) = (err, pc1)"
    by (cases "sendInitMsg sa ((newPeerConn p w)\<lparr>pc_started := True\<rparr>)")
  have same: "pc_chans pc1 = newPeerState (p_pubKeyBytes p) w" "\<not> pc_started (newPeerConn p w)"
    using sendInitMsg_frame [OF s] by (simp_all add: newPeerConn_def)
  have init: "\<exists>pc2. handleInitMsg msg pc1 = (Inr (), pc2) \<and> startChannels env sa pc2 = (res, pc)"
    if "err = None" "sa_first sa = FirstInit msg" for msg
    using that assms s same handleInitMsg_frame [of msg pc1]
    by (cases "handleInitMsg msg pc1"; cases "fst (handleInitMsg msg pc1)") (auto simp: peer_Start_def)
  show ?thesis
  proof (cases "err = None")
    case True
    with assms s same init show ?thesis by (cases "sa_first sa") (auto simp: peer_Start_def)
  next
    case False
    with assms s same show ?thesis by (auto simp: peer_Start_def)
  qed
qed

text \<open>
  No channel is loaded before the handshake: a peer whose start changed anything of its channels,
  or succeeded, has sent its init message and got one, in time and as the first message, with no
  required feature set, as none is known.
\<close>

theorem handshake_comes_first:
  assumes "peer_Start env sa (newPeerConn p w) = (res, pc)" "res = Inr () \<or> pc_chans pc \<noteq> newPeerState (p_pubKeyBytes p) w"
  shows "\<exists>msg. sa_first sa = FirstInit msg \<and> length (pc_sentInit pc) = 1
     \<and> (\<forall>f \<in> set (NewFeatureVector (im_LocalFeatures msg)) \<union> set (NewFeatureVector (im_GlobalFeatures msg)). f mod 2 = 1)"
proof -
  obtain msg pc1 pc2 where run: "sendInitMsg sa ((newPeerConn p w)\<lparr>pc_started := True\<rparr>) = (None, pc1)" "sa_first sa = FirstInit msg"
      "handleInitMsg msg pc1 = (Inr (), pc2)" "startChannels env sa pc2 = (res, pc)"
    using start_ran [OF assms] by blast
  have "length (pc_sentInit pc1) = 1" using run(1) by (auto simp: sendInitMsg_def newPeerConn_def Let_def split: if_splits)
  moreover have "pc_sentInit pc2 = pc_sentInit pc1" using run(3) by (auto simp: handleInitMsg_def Let_def split: if_splits)
  moreover have "pc_sentInit pc = pc_sentInit pc2" using run(4) by (auto simp: startChannels_def split: sum.splits prod.splits)
  moreover have "filter (\<lambda>f. f mod 2 = 0) (NewFeatureVector (im_LocalFeatures msg)) = []"
    "filter (\<lambda>f. f mod 2 = 0) (NewFeatureVector (im_GlobalFeatures msg)) = []"
    using run(3) by (auto simp: handleInitMsg_def Let_def unknown_local unknown_global split: if_splits)
  ultimately show ?thesis using run(2) by (auto simp: filter_empty_conv mod2_eq_if split: if_splits)
qed

section \<open>Channels and closes\<close>

text \<open>
  C9. From a peer that is new, in a switch that has no links of its node, whatever channels arrive, whatever is asked to be closed and whatever close messages come, in any
  order and with any answers of the backends: an active channel is the one of its id; a link that
  the switch has for the peer runs an active channel, the one of its id; and the goroutine goes on: no
  handler panics, as long as the backends return.
\<close>

theorem peer_channels_safe:
  assumes "peer_reach h p"
  shows "(\<forall>k r. activeChannels p k = Some r \<longrightarrow>
       (\<exists>obj. ps_heap p r = Some obj \<and> NewChanIDFromOutPoint (FundingOutpoint (co_lc obj)) = k))
    \<and> (\<forall>k l. linkIndex (ps_switch p) k = Some l \<longrightarrow> lk_Peer l = ps_pub p \<longrightarrow> activeChannels p k = Some (lk_ref l))
    \<and> (\<forall>env req. fst (handleLocalCloseReq env req p) = Inr ())
    \<and> (\<forall>env k msg. calm_env env \<longrightarrow> TxHash (pe_close env) = h \<longrightarrow> fst (handleCloseMsg env k msg p) = Inr ())"
proof -
  have ok: "peer_ok h p" by (rule peer_channels.reach_inv [OF assms])
  have "\<exists>obj. ps_heap p r = Some obj \<and> chanIDOf (co_lc obj) = k" if "activeChannels p k = Some r" for k r
    using ok that unfolding peer_ok_defs chanOf_def by fastforce
  moreover have "fst (handleLocalCloseReq env req p) = Inr ()" for env req
    using handleLocalCloseReq_ok [OF ok] by (metis prod.collapse)
  moreover have "fst (handleCloseMsg env k msg p) = Inr ()" if "calm_env env" "TxHash (pe_close env) = h" for env k msg
    using handleCloseMsg_ok [OF ok that(2)] that(1) by (metis prod.collapse)
  ultimately show ?thesis using ok unfolding peer_ok_def links_ok_def by blast
qed

text \<open>
  C12. The end of a close: when a close message takes a channel off the active ones, then its closer
  has finished and broadcast exactly one transaction, the closing transaction for a fee it had
  offered; no link is left; a goroutine waits for that very transaction; and who asked for the
  close is told of it.
\<close>

theorem close_wound_up:
  assumes "peer_reach h p" "TxHash (pe_close env) = h" "handleCloseMsg env k msg p = (res, q)"
    and "activeChannels q \<noteq> activeChannels p"
  shows "\<exists>c r tx f. activeChanCloses q k = Some (c, r) \<and> state c = closeFinished \<and> broadcasts c = [tx]
     \<and> priorFeeOffers c f \<noteq> None \<and> strip tx = strip (rawTx c f)
     \<and> activeChannels q = (activeChannels p)(k := None) \<and> linkIndex (ps_switch q) k = None
     \<and> ps_waits q = ps_waits p @ [(FundingOutpoint (channel c), h tx, negotiationHeight c, closeReq c)]
     \<and> ps_updates q = ps_updates p @ (case closeReq c of None \<Rightarrow> [] | Some x \<Rightarrow> [(x, ClosePending (h tx))])"
proof -
  have ok: "peer_ok h p" by (rule peer_channels.reach_inv [OF assms(1)])
  have "wound_up h k p q" "peer_ok h q" using handleCloseMsg_ok [OF ok assms(2,3)] assms(4) by (auto simp: stays_open_def)
  then obtain c r tx where c: "activeChanCloses q k = Some (c, r)" "state c = closeFinished" "broadcasts c = [tx]"
      "activeChannels q = (activeChannels p)(k := None)" "linkIndex (ps_switch q) k = None"
      "ps_waits q = ps_waits p @ [(FundingOutpoint (channel c), h tx, negotiationHeight c, closeReq c)]"
      "ps_updates q = ps_updates p @ (case closeReq c of None \<Rightarrow> [] | Some x \<Rightarrow> [(x, ClosePending (h tx))])"
    unfolding wound_up_def by blast
  have "closer_inv h c" using runs_on_active [OF \<open>peer_ok h q\<close> c(1)] by (simp add: runs_on_def)
  with c(2,3) obtain f where "priorFeeOffers c f \<noteq> None" "strip tx = strip (rawTx c f)" by (auto simp: closer_inv_def)
  with c show ?thesis by blast
qed

section \<open>Failing backends\<close>

text \<open>One of the calls that precede the making of a link fails.\<close>

definition linkFails :: "peerEnv \<Rightarrow> OutPoint \<Rightarrow> bool" where
  "linkFails env op \<longleftrightarrow> pe_RegisterBlockEpochNtfn env \<noteq> None \<or> (\<exists>e. pe_GetBestBlock env = Inl e) \<or> pe_SubscribeChannelEvents env op \<noteq> None"

definition newChannels :: "(peerEnv \<times> chanObj \<times> nat) list \<Rightarrow> peerState \<Rightarrow> peerState" where
  "newChannels reqs p = fold (\<lambda>(env, newChan, d). handleNewChannel env newChan d) reqs p"

lemma AddLink_other:
  "j \<noteq> k \<Longrightarrow> linkIndex (ps_switch (snd (peer_AddLink env j r policy sync p))) k = linkIndex (ps_switch p) k"
  "ps_done (snd (peer_AddLink env j r policy sync p)) = ps_done p"
  by (auto simp: peer_AddLink_def addLink_def removeLink_def Let_def split: option.split)

lemma handleNewChannel_other:
  assumes "activeChannels p k = Some r" "q = handleNewChannel env newChan d p"
  shows "activeChannels q k = Some r \<and> linkIndex (ps_switch q) k = linkIndex (ps_switch p) k \<and> set (ps_done q) \<subseteq> insert d (set (ps_done p))"
proof -
  let ?j = "chanIDOf (co_lc newChan)"
  obtain r0 p0 where a: "allocChan newChan p = (r0, p0)" by (cases "allocChan newChan p")
  note p0 = alloc_facts [OF a]
  show ?thesis
  proof (cases "activeChannels p ?j")
    case (Some cur)
    with assms p0 show ?thesis by (auto simp: handleNewChannel_def a Let_def split: option.splits)
  next
    case None
    with assms(1) have j: "?j \<noteq> k" by auto
    from None p0 have "activeChannels p0 ?j = None" by simp
    with j assms p0 show ?thesis
      by (auto simp: handleNewChannel_def a Let_def AddLink_other split: sum.split)
  qed
qed

text \<open>
  A new channel whose link cannot be made, because the notifier, the chain backend or the chain
  arbiter fails: the channel of who waits for it is never closed, whatever further channels
  arrive; and as the channel is active already, no link is made for it later, not even when the
  other side sends its last message of the funding flow again.
\<close>

theorem new_channel_waiter_forgotten:
  assumes "chanIDOf (co_lc newChan) = k" "activeChannels p k = None" "linkFails env (FundingOutpoint (co_lc newChan))"
    and "d \<notin> set (ps_done p)" "d \<notin> (\<lambda>(_, _, e). e) ` set later"
    and "q = newChannels later (handleNewChannel env newChan d p)"
  shows "d \<notin> set (ps_done q) \<and> activeChannels q k \<noteq> None \<and> linkIndex (ps_switch q) k = linkIndex (ps_switch p) k"
proof -
  define q0 where "q0 = handleNewChannel env newChan d p"
  obtain r p0 where a: "allocChan newChan p = (r, p0)" by (cases "allocChan newChan p")
  have q0: "activeChannels q0 k = Some r" "d \<notin> set (ps_done q0)" "linkIndex (ps_switch q0) k = linkIndex (ps_switch p) k"
    using assms(1-4) alloc_facts [OF a]
    by (auto simp: q0_def handleNewChannel_def a Let_def linkFails_def split: sum.splits)
  have "activeChannels (newChannels later p') k = Some r \<and> d \<notin> set (ps_done (newChannels later p'))
      \<and> linkIndex (ps_switch (newChannels later p')) k = linkIndex (ps_switch p') k"
    if "activeChannels p' k = Some r" "d \<notin> set (ps_done p')" for p'
    using assms(5) that unfolding newChannels_def
  proof (induction later arbitrary: p')
    case (Cons x later)
    obtain env' c' d' where x: "x = (env', c', d')" by (cases x)
    note n = handleNewChannel_other [OF Cons.prems(2) refl, of env' c' d']
    from Cons.IH [of "handleNewChannel env' c' d' p'"] Cons.prems n x show ?case by auto
  qed simp
  from this [OF q0(1,2)] q0(3) assms(6) show ?thesis by (simp add: q0_def)
qed

text \<open>The second of two channels fails to subscribe to its events.\<close>

definition secondFails :: "peerEnv \<Rightarrow> dbChannel \<Rightarrow> dbChannel \<Rightarrow> goerr \<Rightarrow> bool" where
  "secondFails env c1 c2 err \<longleftrightarrow> (\<exists>o1. pe_NewLightningChannel env c1 = Inr o1) \<and> (\<exists>o2. pe_NewLightningChannel env c2 = Inr o2)
     \<and> \<not> dc_IsBorked c1 \<and> \<not> dc_IsBorked c2 \<and> pe_RegisterBlockEpochNtfn env = None \<and> (\<exists>x. pe_GetBestBlock env = Inr x)
     \<and> (\<exists>e1. pe_FetchChannelEdgesByOutpoint env (dc_FundingOutpoint c1) = Inr e1)
     \<and> (\<exists>e2. pe_FetchChannelEdgesByOutpoint env (dc_FundingOutpoint c2) = Inr e2)
     \<and> pe_SubscribeChannelEvents env (dc_FundingOutpoint c1) = None \<and> pe_SubscribeChannelEvents env (dc_FundingOutpoint c2) = Some err
     \<and> (\<forall>l. pe_link_Start env l = None)"

lemma load_secondFails:
  assumes "secondFails env c1 c2 err"
  shows "\<exists>q. loadActiveChannels env (c1 # c2 # cs) (newPeerState pub w) = (Inl err, q)
     \<and> linkIndex (ps_switch q) (NewChanIDFromOutPoint (dc_FundingOutpoint c1)) =
         Some \<lparr>lk_ref = 0, lk_ChanID = NewChanIDFromOutPoint (dc_FundingOutpoint c1), lk_Peer = pub\<rparr>"
  using assms by (auto simp: secondFails_def newPeerState_def allocChan_def startChannel_def peer_AddLink_def addLink_def Let_def)

text \<open>
  C40. A peer with two channels whose start fails at the second: the link of the first stays in the
  switch, although the peer is not registered, and as it was never registered no watcher will
  remove it when the connection ends, which it does at once.
\<close>

theorem failed_start_leaves_links:
  assumes "secondFails penv c1 c2 err" "se_Start env = peerStarts penv sa"
    and "\<forall>m. sa_writeMessage sa m = None" "sa_first sa = FirstInit \<lparr>im_GlobalFeatures = g, im_LocalFeatures = l\<rparr>"
    and "\<forall>f \<in> set (NewFeatureVector l) \<union> set (NewFeatureVector g). f mod 2 = 1" "sa_FetchOpenChannels sa = Inr (c1 # c2 # cs)"
    and "\<not> s_shutdown s" "k = SerializeCompressed (conn_RemotePub conn)" "inboundPeers s k = None" "findPeerByPubStr k s = Inl miss"
    and "s' = InboundPeerConnected env conn s"
  shows "(\<exists>link. linkIndex (s_htlcSwitch s') (NewChanIDFromOutPoint (dc_FundingOutpoint c1)) = Some link
        \<and> lk_Peer link = go_copy (replicate 33 0) k)
    \<and> findPeerByPubStr k s' = Inl ErrPeerNotFound \<and> s_watchers s' = s_watchers s"
proof -
  define s1 where "s1 = cancelConnReqs k None s"
  define p where "p = newPeer conn None \<lparr>na_IdentityKey = conn_RemotePub conn, na_Address = reconnectAddr env conn\<rparr> False
    (shouldRequestGraphSync s1) (s_nextRef s1)"
  have pub: "p_pubKeyBytes p = go_copy (replicate 33 0) k" by (simp add: p_def newPeer_def assms(8))
  have even: "filter (\<lambda>f. f mod 2 = 0) (NewFeatureVector l) = []" "filter (\<lambda>f. f mod 2 = 0) (NewFeatureVector g) = []"
    using assms(5) by (auto simp: filter_empty_conv mod2_eq_if split: if_splits)
  obtain q where q: "loadActiveChannels penv (c1 # c2 # cs) (newPeerState (p_pubKeyBytes p) (s_htlcSwitch s1)) = (Inl err, q)"
      "linkIndex (ps_switch q) (NewChanIDFromOutPoint (dc_FundingOutpoint c1)) =
         Some \<lparr>lk_ref = 0, lk_ChanID = NewChanIDFromOutPoint (dc_FundingOutpoint c1), lk_Peer = p_pubKeyBytes p\<rparr>"
    using load_secondFails [OF assms(1)] by blast
  have "\<exists>e. peerStarts penv sa p (s_htlcSwitch s1) = (Inl e, ps_switch q)"
    unfolding peerStarts_def peer_Start_def newPeerConn_def sendInitMsg_def handleInitMsg_def startChannels_def Let_def
    by (simp add: assms(3,4,6) unknown_local unknown_global even q(1) del: loadActiveChannels.simps)
  then obtain e where st: "se_Start env p (s_htlcSwitch s1) = (Inl e, ps_switch q)" using assms(2) by auto
  have "s' = peerConnected env conn None False s1"
    using assms(7-11) by (simp add: InboundPeerConnected_def s1_def Let_def)
  also have "\<dots> = Disconnect p (s1\<lparr>s_nextRef := Suc (s_nextRef s1), s_htlcSwitch := ps_switch q\<rparr>)"
    using st by (simp add: peerConnected_def p_def Let_def)
  finally have s': "s_htlcSwitch s' = ps_switch q" "peersByPub s' = peersByPub s" "s_watchers s' = s_watchers s"
    by (simp_all add: Disconnect_def s1_def)
  have "findPeerByPubStr k s' = Inl ErrPeerNotFound"
    using assms(10) s'(2) by (simp add: findPeerByPubStr_def split: option.splits)
  with s' q(2) pub show ?thesis by simp
qed

section \<open>A concrete peer\<close>

definition pr_env :: peerEnv where
  "pr_env = \<lparr>pe_close = demo_ccfg 1, pe_self = [], pe_routingPolicy = \<lparr>fp_MinHTLC = 1, fp_BaseFee = 1, fp_FeeRate = 1, fp_TimeLockDelta = 144\<rparr>,
     pe_NewLightningChannel = (\<lambda>c. Inr \<lparr>co_lc = demo_lc'\<lparr>FundingOutpoint := dc_FundingOutpoint c\<rparr>, co_RemoteNextRevocation = None,
       co_ActiveHtlcs = 0, co_stopped = False\<rparr>),
     pe_RegisterBlockEpochNtfn = None, pe_GetBestBlock = Inr 100, pe_FetchChannelEdgesByOutpoint = (\<lambda>_. Inr None),
     pe_SubscribeChannelEvents = (\<lambda>op. if Index op = 9 then Some (GoErr ''failed'') else None), pe_link_Start = (\<lambda>_. None),
     pe_InsertNextRevocation = None, pe_genDeliveryScript = Inr [2], pe_EstimateFeePerVSize = (\<lambda>_. Inr 4),
     pe_BeginCoopChanClose = (\<lambda>_. None)\<rparr>"

definition pr_db :: "u32 \<Rightarrow> dbChannel" where
  "pr_db i = \<lparr>dc_FundingOutpoint = \<lparr>Hash = 77, Index = i\<rparr>, dc_IsBorked = False\<rparr>"

definition pr_zero :: peerState where
  "pr_zero = snd (loadActiveChannels pr_env [pr_db 1] (newPeerState [9] emptySwitch))"

abbreviation pr_id :: ChannelID where "pr_id \<equiv> NewChanIDFromOutPoint (dc_FundingOutpoint (pr_db 1))"

definition pr_one :: peerState where
  "pr_one = snd (handleCloseMsg pr_env pr_id (MsgShutdown \<lparr>sd_ChannelID = pr_id, sd_Address = [1]\<rparr>) pr_zero)"

definition pr_signed :: Message where
  "pr_signed = MsgClosingSigned \<lparr>cs_ChannelID = pr_id, FeeSatoshis = 724, Signature = [5]\<rparr>"

lemma pr_zero_reach: "peer_reach (TxHash (demo_ccfg 1)) pr_zero"
proof (rule peer_reach.loaded)
  show "loads_ok pr_env" by (simp add: loads_ok_def pr_env_def)
  show "loadActiveChannels pr_env [pr_db 1] (newPeerState [9] emptySwitch) = (Inr (), pr_zero)"
    by (simp add: pr_zero_def pr_env_def pr_db_def newPeerState_def allocChan_def startChannel_def peer_AddLink_def addLink_def Let_def)
qed (simp_all add: emptySwitch_def)

definition pr_lc :: LightningChannel where "pr_lc = demo_lc'\<lparr>FundingOutpoint := dc_FundingOutpoint (pr_db 1)\<rparr>"

definition pr_closer :: channelCloser where
  "pr_closer = (newChannelCloser pr_lc [2] 1000 100 None)\<lparr>state := closeFeeNegotiation, remoteDeliveryScript := [1],
     unregistered := [pr_id]\<rparr>"

lemma pr_lc_plain: "plain pr_lc = pr_lc"
  by (simp add: pr_lc_def plain_def demo_lc'_def demo_lc_def)

lemma pr_zero_fields: "activeChannels pr_zero = [pr_id \<mapsto> 0]" "activeChanCloses pr_zero = Map.empty"
  "ps_heap pr_zero = [0 \<mapsto> \<lparr>co_lc = pr_lc, co_RemoteNextRevocation = None, co_ActiveHtlcs = 0, co_stopped = False\<rparr>]"
  by (simp_all add: pr_zero_def pr_env_def pr_lc_def pr_db_def newPeerState_def allocChan_def startChannel_def peer_AddLink_def addLink_def Let_def)

lemma pr_fee: "FeePerKWeight 4 = 1000" "idealFeeSat (newChannelCloser pr_lc s 1000 h q) = 724"
  by (simp_all add: FeePerKWeight_def newChannelCloser_def pr_lc_def demo_lc_def demo_lc'_def CalcFee_def FeeForWeight_def CommitWeight_def
      amt_div_def signed_divide_int_def)

lemma pr_one_run:
  "handleCloseMsg pr_env pr_id (MsgShutdown \<lparr>sd_ChannelID = pr_id, sd_Address = [1]\<rparr>) pr_zero = (Inr (), pr_one)"
  "activeChannels pr_one = [pr_id \<mapsto> 0]" "activeChanCloses pr_one = [pr_id \<mapsto> (pr_closer, 0)]"
  "ps_heap pr_one = ps_heap pr_zero"
proof -
  let ?c = "newChannelCloser pr_lc [2] 1000 100 None"
  let ?m = "ProcessCloseMsg (pe_close pr_env) (MsgShutdown \<lparr>sd_ChannelID = pr_id, sd_Address = [1]\<rparr>)"
  have i: "\<not> lc_IsInitiator pr_lc" by (simp add: pr_lc_def demo_lc'_def)
  have f: "fetchActiveChanCloser pr_env pr_id pr_zero = (Inr (?c, 0), pr_zero\<lparr>activeChanCloses := [pr_id \<mapsto> (?c, 0)]\<rparr>)"
    by (simp add: fetchActiveChanCloser_def pr_zero_fields pr_env_def pr_fee Let_def)
  have c: "?m ?c = (Inr ([MsgShutdown \<lparr>sd_ChannelID = pr_id, sd_Address = [2]\<rparr>], False), pr_closer)"
    using i by (simp add: ProcessCloseMsg_def newChannelCloser_def pr_closer_def initChanShutdown_def ibind_def io_run Let_def pr_lc_def)
  have c0: "?c\<lparr>channel := pr_lc, unregistered := []\<rparr> = ?c" by (simp add: newChannelCloser_def Let_def)
  have "runCloser ?m pr_id ?c 0 (pr_zero\<lparr>activeChanCloses := [pr_id \<mapsto> (?c, 0)]\<rparr>) =
     (Inr ([MsgShutdown \<lparr>sd_ChannelID = pr_id, sd_Address = [2]\<rparr>], False),
      pr_zero\<lparr>activeChanCloses := [pr_id \<mapsto> (pr_closer, 0)], ps_switch := removeLinks [pr_id] (ps_switch pr_zero)\<rparr>)"
    unfolding runCloser_def
    by (simp add: pr_zero_fields c c0 updChan_def Let_def)
      (simp add: pr_closer_def newChannelCloser_def Let_def pr_zero_fields fun_upd_idem)
  then show "handleCloseMsg pr_env pr_id (MsgShutdown \<lparr>sd_ChannelID = pr_id, sd_Address = [1]\<rparr>) pr_zero = (Inr (), pr_one)"
    "activeChannels pr_one = [pr_id \<mapsto> 0]" "activeChanCloses pr_one = [pr_id \<mapsto> (pr_closer, 0)]" "ps_heap pr_one = ps_heap pr_zero"
    by (simp_all add: pr_one_def handleCloseMsg_def advanceClose_def f Let_def pr_zero_fields)
qed

lemma pr_two_run:
  "fst (handleCloseMsg pr_env pr_id pr_signed pr_one) = Inr ()"
  "activeChannels (snd (handleCloseMsg pr_env pr_id pr_signed pr_one)) = Map.empty"
proof -
  define c0 where "c0 = pr_closer\<lparr>channel := pr_lc, unregistered := []\<rparr>"
  define T where "T = (\<lambda>f. signedTx (demo_ccfg 1) c0 (rawTx c0 f) [1] [5])"
  have lc: "pr_lc = demo_lc'" by (simp add: pr_lc_def pr_db_def demo_lc'_def demo_lc_def)
  have c0: "state c0 = closeFeeNegotiation" "priorFeeOffers c0 = Map.empty" "lastFeeProposal c0 = 0" "idealFeeSat c0 = 724"
    "channel c0 = pr_lc" "localDeliveryScript c0 = [2]" "remoteDeliveryScript c0 = [1]" "broadcasts c0 = []"
    using pr_fee(2) by (simp_all add: c0_def pr_closer_def newChannelCloser_def Let_def)
  have "CheckTransactionSanity (rawTx c0 724) = None"
    using demo_sane [of 724] closeTxFor_mirrored [OF demo_mirrored, of 724 "[2]" "[1]"] by (simp add: rawTx_def c0 lc)
  then have party: "party (demo_ccfg 1) c0 (rawTx c0) (\<lambda>_. [1]) (\<lambda>_. [5]) T {724}"
    by (simp add: party_def c0 T_def demo_ccfg_def) (simp add: lc demo_lc'_def demo_lc_def)
  obtain m1 d where d: "proposeCloseSigned (demo_ccfg 1) 724 c0 = (Inr m1, d)" "party (demo_ccfg 1) d (rawTx c0) (\<lambda>_. [1]) (\<lambda>_. [5]) T {724}"
      "priorFeeOffers d = [724 \<mapsto> m1]"
    using party_offers [OF party, of 724] c0(2) by auto
  obtain m2 e where e: "acceptFee (demo_ccfg 1) \<lparr>cs_ChannelID = pr_id, FeeSatoshis = 724, Signature = [5]\<rparr> d =
      (Inr ([MsgClosingSigned m2], True), e)" "state e = closeFinished"
    using party_accepts [OF d(2), of 724 "\<lparr>cs_ChannelID = pr_id, FeeSatoshis = 724, Signature = [5]\<rparr>"] d(3) by auto
  have run: "ProcessCloseMsg (demo_ccfg 1) pr_signed c0 = (Inr ([MsgClosingSigned m2], True), e)"
    using negotiateFee_new [of c0 "\<lparr>cs_ChannelID = pr_id, FeeSatoshis = 724, Signature = [5]\<rparr>" 724 "demo_ccfg 1" m1 d] d(1) e(1) c0
    by (simp add: pr_signed_def calcCompromiseFee_def)
  define p2 where "p2 = snd (runCloser (ProcessCloseMsg (demo_ccfg 1) pr_signed) pr_id pr_closer 0 pr_one)"
  have c2: "runCloser (ProcessCloseMsg (demo_ccfg 1) pr_signed) pr_id pr_closer 0 pr_one = (Inr ([MsgClosingSigned m2], True), p2)"
    unfolding p2_def by (simp add: runCloser_def pr_one_run pr_zero_fields c0_def [symmetric] run Let_def)
  have ok: "peer_ok (TxHash (demo_ccfg 1)) pr_one"
    by (rule peer_channels.reach_inv [OF peer_reach.step [OF pr_zero_reach peer_step.close_message [OF _ pr_one_run(1)]]])
      (simp add: pr_env_def)
  have on: "runs_on (TxHash (demo_ccfg 1)) pr_one pr_id pr_closer 0" by (rule runs_on_active [OF ok]) (simp add: pr_one_run)
  have p2: "peer_ok (TxHash (demo_ccfg 1)) p2" "activeChannels p2 = activeChannels pr_one" "activeChanCloses p2 pr_id = Some (e, 0)"
    using runCloser_ok [OF ok on closer_call_message [OF refl] c2]
    by (simp_all add: p2_def runCloser_def pr_one_run pr_zero_fields c0_def [symmetric] run Let_def)
  let ?p3 = "p2\<lparr>ps_out := ps_out p2 @ [CloseMsg (MsgClosingSigned m2)]\<rparr>"
  have "runs_on (TxHash (demo_ccfg 1)) ?p3 pr_id e 0" using runs_on_active [OF p2(1,3)] by (simp add: runs_on_def)
  then have "\<exists>q. finalizeChanClosure pr_env e 0 ?p3 = (Inr (), q) \<and> activeChannels q = (activeChannels ?p3)(pr_id := None)"
    using finalizeChanClosure_ok [of "TxHash (demo_ccfg 1)" ?p3 pr_id e 0 pr_env] p2(1) e(2) by (auto simp: pr_env_def)
  moreover have "handleCloseMsg pr_env pr_id pr_signed pr_one = finalizeChanClosure pr_env e 0 ?p3"
    using c2 p2(3) by (simp add: handleCloseMsg_def fetchActiveChanCloser_def pr_one_run advanceClose_def pr_env_def Let_def)
  ultimately show "fst (handleCloseMsg pr_env pr_id pr_signed pr_one) = Inr ()"
    "activeChannels (snd (handleCloseMsg pr_env pr_id pr_signed pr_one)) = Map.empty"
    by (auto simp: p2(2) pr_one_run)
qed

lemma pr_calm: "calm_env pr_env" "TxHash (pe_close pr_env) = TxHash (demo_ccfg 1)"
  by (simp_all add: calm_env_def calm_cfg_def returns_def calm_sum_def pr_env_def demo_ccfg_def)

lemma pr_one_reach: "peer_reach (TxHash (demo_ccfg 1)) pr_one"
  by (rule peer_reach.step [OF pr_zero_reach peer_step.close_message [OF pr_calm(2) pr_one_run(1)]])

theorem peer_channels_safe_witness:
  "activeChannels pr_one pr_id = Some 0 \<and> fst (handleCloseMsg pr_env pr_id OtherMessage pr_one) = Inr ()"
  using peer_channels_safe [OF pr_one_reach] pr_calm pr_one_run(2) by simp

theorem close_wound_up_witness:
  "\<exists>q c r tx. handleCloseMsg pr_env pr_id pr_signed pr_one = (Inr (), q) \<and> activeChanCloses q pr_id = Some (c, r) \<and> broadcasts c = [tx]
     \<and> linkIndex (ps_switch q) pr_id = None"
proof -
  obtain res q where q: "handleCloseMsg pr_env pr_id pr_signed pr_one = (res, q)" by (cases "handleCloseMsg pr_env pr_id pr_signed pr_one")
  with pr_two_run have "res = Inr ()" "activeChannels q = Map.empty" by simp_all
  then have "activeChannels q \<noteq> activeChannels pr_one" using pr_one_run(2) by (metis fun_upd_same option.distinct(1))
  from close_wound_up [OF pr_one_reach pr_calm(2) q this] q \<open>res = Inr ()\<close> show ?thesis by auto
qed

definition pr_start :: "dbChannel list \<Rightarrow> peerStartEnv" where
  "pr_start chans = \<lparr>sa_writeMessage = (\<lambda>_. None), sa_first = FirstInit \<lparr>im_GlobalFeatures = None, im_LocalFeatures = Some [3]\<rparr>,
     sa_FetchOpenChannels = Inr chans\<rparr>"

theorem handshake_comes_first_witness:
  "\<exists>pc msg. peer_Start pr_env (pr_start []) (newPeerConn srv_p2 emptySwitch) = (Inr (), pc) \<and> sa_first (pr_start []) = FirstInit msg"
proof -
  obtain res pc where run: "peer_Start pr_env (pr_start []) (newPeerConn srv_p2 emptySwitch) = (res, pc)"
    by (cases "peer_Start pr_env (pr_start []) (newPeerConn srv_p2 emptySwitch)")
  then have "res = Inr ()"
    by (auto simp: peer_Start_def newPeerConn_def pr_start_def sendInitMsg_def handleInitMsg_def startChannels_def
        unknown_local unknown_global NewFeatureVector_def Let_def)
  with run handshake_comes_first [OF run] show ?thesis by blast
qed

definition pr_chan :: chanObj where
  "pr_chan = \<lparr>co_lc = pr_lc, co_RemoteNextRevocation = None, co_ActiveHtlcs = 0, co_stopped = False\<rparr>"

theorem new_channel_waiter_forgotten_witness:
  "6 \<notin> set (ps_done (newChannels [(pr_env, pr_chan, 7)]
     (handleNewChannel (pr_env\<lparr>pe_RegisterBlockEpochNtfn := Some (GoErr ''down'')\<rparr>) pr_chan 6 (newPeerState [9] emptySwitch))))"
  using new_channel_waiter_forgotten [of pr_chan "chanIDOf (co_lc pr_chan)" "newPeerState [9] emptySwitch"
      "pr_env\<lparr>pe_RegisterBlockEpochNtfn := Some (GoErr ''down'')\<rparr>" 6 "[(pr_env, pr_chan, 7)]", OF refl _ _ _ _ refl]
  by (simp add: newPeerState_def linkFails_def)

theorem failed_start_leaves_links_witness:
  "findPeerByPubStr srv_k2 (InboundPeerConnected ((srv_env (Inr False))\<lparr>se_Start := peerStarts pr_env (pr_start [pr_db 1, pr_db 9])\<rparr>)
     (srv_conn 0 2) (srv_zero 3)) = Inl ErrPeerNotFound
   \<and> (\<exists>link. linkIndex (s_htlcSwitch (InboundPeerConnected ((srv_env (Inr False))\<lparr>se_Start := peerStarts pr_env (pr_start [pr_db 1, pr_db 9])\<rparr>)
     (srv_conn 0 2) (srv_zero 3))) pr_id = Some link)"
proof -
  let ?env = "(srv_env (Inr False))\<lparr>se_Start := peerStarts pr_env (pr_start [pr_db 1, pr_db 9])\<rparr>"
  have sf: "secondFails pr_env (pr_db 1) (pr_db 9) (GoErr ''failed'')" by (simp add: secondFails_def pr_env_def pr_db_def)
  have st: "se_Start ?env = peerStarts pr_env (pr_start [pr_db 1, pr_db 9])" by simp
  have hs: "\<forall>m. sa_writeMessage (pr_start [pr_db 1, pr_db 9]) m = None"
    "sa_first (pr_start [pr_db 1, pr_db 9]) = FirstInit \<lparr>im_GlobalFeatures = None, im_LocalFeatures = Some [3]\<rparr>"
    "\<forall>f \<in> set (NewFeatureVector (Some [3])) \<union> set (NewFeatureVector None). f mod 2 = 1"
    "sa_FetchOpenChannels (pr_start [pr_db 1, pr_db 9]) = Inr [pr_db 1, pr_db 9]"
    by (simp_all add: pr_start_def NewFeatureVector_def)
  have srv: "srv_k2 = SerializeCompressed (conn_RemotePub (srv_conn 0 2))" "inboundPeers (srv_zero 3) srv_k2 = None"
    "findPeerByPubStr srv_k2 (srv_zero 3) = Inl ErrPeerNotFound"
    by (simp_all add: srv_conn_def srv_zero_def newServer_def findPeerByPubStr_def)
  show ?thesis using failed_start_leaves_links [OF sf st hs srv_demo_on(1) srv refl] by auto
qed

end
