(* ===== verification/MsgStream.thy ===== *)
theory MsgStream
  imports Prelude
begin

text \<open>
  The message stream between the reader of a peer and the subsystem that handles its messages
  (\<^verbatim>\<open>msgStream\<close> in \<^verbatim>\<open>src/lnd/peer.go\<close>): producers take a slot of a semaphore, append their message to
  the buffer and signal the consumer; the consumer takes messages off the front, hands them on
  and gives the slot back. The goroutines are interleaved at the points where they release the lock,
  wait, or use a channel.

  What was appended and what was handed on is kept as history.
\<close>

section \<open>Data\<close>

text \<open>
  Where the consumer is: about to look at the buffer; waiting for a signal; woken by one; in the
  handler; about to give the slot back; and gone, with the shutdown flag set or without.
\<close>

datatype 'm consumer = CTop | CWaiting | CWoken | CApply 'm | CRelease | CExited | CGone

record 'm msgStream =
  ms_bufSize :: nat
  ms_producerSema :: nat \<comment> \<open>the slots in the semaphore\<close>
  ms_msgs :: "'m list"
  ms_quit :: bool
  streamShutdown :: bool
  ms_consumer :: "'m consumer"
  ms_holding :: "'m list" \<comment> \<open>messages of producers that hold a slot\<close>
  ms_signals :: nat \<comment> \<open>producers that have appended and not yet signalled\<close>
  ms_added :: "'m list"
  ms_applied :: "'m list"

text \<open>A new stream, with its semaphore filled, whose consumer is started.\<close>

definition newMsgStream :: "nat \<Rightarrow> 'm msgStream" where
  "newMsgStream bufSize =
     \<lparr>ms_bufSize = bufSize, ms_producerSema = bufSize, ms_msgs = [], ms_quit = False, streamShutdown = False,
      ms_consumer = CTop, ms_holding = [], ms_signals = 0, ms_added = [], ms_applied = []\<rparr>"

section \<open>The consumer\<close>

text \<open>With the lock: the first message is taken, or the consumer waits.\<close>

definition consumerTop :: "'m msgStream \<Rightarrow> 'm msgStream" where
  "consumerTop s =
     (case ms_msgs s of [] \<Rightarrow> s\<lparr>ms_consumer := CWaiting\<rparr>
      | m # ms \<Rightarrow> s\<lparr>ms_msgs := ms, ms_consumer := CApply m\<rparr>)"

text \<open>After the wait: it leaves when the stream was stopped, else it looks again.\<close>

definition consumerWoken :: "'m msgStream \<Rightarrow> 'm msgStream" where
  "consumerWoken s =
     (if ms_quit s then s\<lparr>streamShutdown := True, ms_consumer := CExited\<rparr> else s\<lparr>ms_consumer := CTop\<rparr>)"

definition consumerApply :: "'m \<Rightarrow> 'm msgStream \<Rightarrow> 'm msgStream" where
  "consumerApply m s = s\<lparr>ms_applied := ms_applied s @ [m], ms_consumer := CRelease\<rparr>"

text \<open>The two branches of the select that gives the slot back; the second does not set the flag.\<close>

definition consumerRelease :: "'m msgStream \<Rightarrow> 'm msgStream" where
  "consumerRelease s = s\<lparr>ms_producerSema := Suc (ms_producerSema s), ms_consumer := CTop\<rparr>"

definition consumerQuit :: "'m msgStream \<Rightarrow> 'm msgStream" where
  "consumerQuit s = s\<lparr>ms_consumer := CGone\<rparr>"

section \<open>The producers\<close>

text \<open>\<^verbatim>\<open>AddMsg\<close>: take a slot, append under the lock, signal.\<close>

definition AddMsg_acquire :: "'m \<Rightarrow> 'm msgStream \<Rightarrow> 'm msgStream" where
  "AddMsg_acquire m s = s\<lparr>ms_producerSema := ms_producerSema s - 1, ms_holding := ms_holding s @ [m]\<rparr>"

definition AddMsg_append :: "'m \<Rightarrow> 'm msgStream \<Rightarrow> 'm msgStream" where
  "AddMsg_append m s =
     s\<lparr>ms_holding := remove1 m (ms_holding s), ms_msgs := ms_msgs s @ [m], ms_added := ms_added s @ [m],
       ms_signals := Suc (ms_signals s)\<rparr>"

definition signalled :: "'m msgStream \<Rightarrow> 'm msgStream" where
  "signalled s = (if ms_consumer s = CWaiting then s\<lparr>ms_consumer := CWoken\<rparr> else s)"

definition AddMsg_signal :: "'m msgStream \<Rightarrow> 'm msgStream" where
  "AddMsg_signal s = signalled (s\<lparr>ms_signals := ms_signals s - 1\<rparr>)"

text \<open>\<^verbatim>\<open>Stop\<close>: close the channel, then signal until the flag is set.\<close>

definition Stop_close :: "'m msgStream \<Rightarrow> 'm msgStream" where
  "Stop_close s = s\<lparr>ms_quit := True\<rparr>"

definition Stop_signal :: "'m msgStream \<Rightarrow> 'm msgStream" where
  "Stop_signal s = signalled s"

section \<open>Steps\<close>

inductive ms_step :: "'m msgStream \<Rightarrow> 'm msgStream \<Rightarrow> bool" where
  top: "ms_consumer s = CTop \<Longrightarrow> ms_step s (consumerTop s)"
| woken: "ms_consumer s = CWoken \<Longrightarrow> ms_step s (consumerWoken s)"
| handle: "ms_consumer s = CApply m \<Longrightarrow> ms_step s (consumerApply m s)"
| release: "ms_consumer s = CRelease \<Longrightarrow> ms_producerSema s < ms_bufSize s \<Longrightarrow> ms_step s (consumerRelease s)"
| leave: "ms_consumer s = CRelease \<Longrightarrow> ms_quit s \<Longrightarrow> ms_step s (consumerQuit s)"
| acquire: "0 < ms_producerSema s \<Longrightarrow> ms_step s (AddMsg_acquire m s)"
| append: "m \<in> set (ms_holding s) \<Longrightarrow> ms_step s (AddMsg_append m s)"
| signal: "0 < ms_signals s \<Longrightarrow> ms_step s (AddMsg_signal s)"
| close: "\<not> ms_quit s \<Longrightarrow> ms_step s (Stop_close s)"
| stop_signal: "ms_quit s \<Longrightarrow> \<not> streamShutdown s \<Longrightarrow> ms_step s (Stop_signal s)"

inductive ms_run :: "'m msgStream \<Rightarrow> 'm msgStream \<Rightarrow> bool" where
  refl: "ms_run s s"
| step: "ms_run s t \<Longrightarrow> ms_step t u \<Longrightarrow> ms_run s u"

inductive_simps ms_step_iff: "ms_step s t"

lemmas ms_defs = consumerTop_def consumerWoken_def consumerApply_def consumerRelease_def consumerQuit_def
  AddMsg_acquire_def AddMsg_append_def AddMsg_signal_def signalled_def Stop_close_def Stop_signal_def

section \<open>Invariants\<close>

definition inHand :: "'m msgStream \<Rightarrow> 'm list" where
  "inHand s = (case ms_consumer s of CApply m \<Rightarrow> [m] | _ \<Rightarrow> [])"

text \<open>The slots that are not in the semaphore: of producers, of buffered messages, of the consumer.\<close>

definition taken :: "'m msgStream \<Rightarrow> nat" where
  "taken s = length (ms_holding s) + length (ms_msgs s) +
     (case ms_consumer s of CApply _ \<Rightarrow> 1 | CRelease \<Rightarrow> 1 | CGone \<Rightarrow> 1 | _ \<Rightarrow> 0)"

definition ms_ok :: "'m msgStream \<Rightarrow> bool" where
  "ms_ok s \<longleftrightarrow>
     ms_applied s @ inHand s @ ms_msgs s = ms_added s \<and>
     ms_producerSema s + taken s = ms_bufSize s \<and>
     (ms_consumer s = CWaiting \<longrightarrow> ms_msgs s \<noteq> [] \<longrightarrow> 0 < ms_signals s) \<and>
     (streamShutdown s \<longleftrightarrow> ms_consumer s = CExited)"

lemma ms_ok_new: "ms_ok (newMsgStream n)"
  by (simp add: ms_ok_def newMsgStream_def inHand_def taken_def)

lemma ms_ok_step: "ms_step s t \<Longrightarrow> ms_ok s \<Longrightarrow> ms_ok t"
proof (induction rule: ms_step.induct)
  case (append m s)
  then obtain n where n: "length (ms_holding s) = Suc n" by (cases "ms_holding s") auto
  have "length (remove1 m (ms_holding s)) = n" using append(1) n by (simp add: length_remove1)
  with n append(2) show ?case
    by (auto simp: ms_ok_def AddMsg_append_def inHand_def taken_def split: consumer.splits)
qed (auto simp: ms_ok_def ms_defs inHand_def taken_def split: list.splits consumer.splits)

lemma ms_ok_run: "ms_run s t \<Longrightarrow> ms_ok s \<Longrightarrow> ms_ok t"
  by (induction rule: ms_run.induct) (auto intro: ms_ok_step)

lemma ms_reach_ok: "ms_run (newMsgStream n) s \<Longrightarrow> ms_ok s"
  by (rule ms_ok_run [OF _ ms_ok_new])

lemma ms_bufSize_run: "ms_run s t \<Longrightarrow> ms_bufSize t = ms_bufSize s"
proof (induction rule: ms_run.induct)
  case (step s t u)
  from step(2) have "ms_bufSize u = ms_bufSize t"
    by (induction rule: ms_step.induct) (auto simp: ms_defs split: list.splits)
  with step show ?case by simp
qed simp

text \<open>The consumer that has left without the flag stays so, and the flag is never set.\<close>

lemma gone_stays: "ms_run s t \<Longrightarrow> ms_consumer s = CGone \<Longrightarrow> \<not> streamShutdown s \<Longrightarrow> ms_consumer t = CGone \<and> \<not> streamShutdown t"
proof (induction rule: ms_run.induct)
  case (step s t u)
  then have t: "ms_consumer t = CGone \<and> \<not> streamShutdown t" by simp
  from step(2) t show ?case by (induction rule: ms_step.induct) (auto simp: ms_defs)
qed simp

section \<open>Delivery\<close>

lemma ms_run_trans: "ms_run t u \<Longrightarrow> ms_run s t \<Longrightarrow> ms_run s u"
  by (induction rule: ms_run.induct) (auto intro: ms_run.step)

lemma ms_run_one: "ms_step s t \<Longrightarrow> ms_run s t"
  by (rule ms_run.step [OF ms_run.refl])

text \<open>From the top, with a message in the buffer, the first one is handed on.\<close>

lemma deliver_top:
  assumes "ms_consumer s = CTop" "ms_msgs s = m # ms"
  shows "ms_run s (s\<lparr>ms_msgs := ms, ms_applied := ms_applied s @ [m], ms_consumer := CRelease\<rparr>)"
proof -
  have "ms_step s (s\<lparr>ms_msgs := ms, ms_consumer := CApply m\<rparr>)"
    using ms_step.top [OF assms(1)] assms(2) by (simp add: consumerTop_def)
  moreover have "ms_step (s\<lparr>ms_msgs := ms, ms_consumer := CApply m\<rparr>)
      (s\<lparr>ms_msgs := ms, ms_applied := ms_applied s @ [m], ms_consumer := CRelease\<rparr>)"
    using ms_step.handle [of "s\<lparr>ms_msgs := ms, ms_consumer := CApply m\<rparr>" m] by (simp add: consumerApply_def)
  ultimately show ?thesis by (rule ms_run.step [OF ms_run_one])
qed

text \<open>From where it is, a consumer that has not left and has work gets to the top, or hands a message on.\<close>

lemma reach_top:
  assumes "ms_ok s" "\<not> ms_quit s" "ms_consumer s \<in> {CTop, CWaiting, CWoken, CRelease}" "ms_msgs s \<noteq> []"
  shows "\<exists>t. ms_run s t \<and> ms_consumer t = CTop \<and> ms_msgs t = ms_msgs s \<and> ms_added t = ms_added s \<and>
    ms_applied t = ms_applied s \<and> \<not> ms_quit t"
proof -
  have woken: "\<exists>t. ms_run u t \<and> ms_consumer t = CTop \<and> ms_msgs t = ms_msgs u \<and> ms_added t = ms_added u \<and>
      ms_applied t = ms_applied u \<and> \<not> ms_quit t" if "ms_consumer u = CWoken" "\<not> ms_quit u" for u :: "'a msgStream"
    using ms_run_one [OF ms_step.woken [OF that(1)]] that(2) by (intro exI [of _ "consumerWoken u"]) (simp add: consumerWoken_def)
  consider "ms_consumer s = CTop" | "ms_consumer s = CWaiting" | "ms_consumer s = CWoken" | "ms_consumer s = CRelease"
    using assms(3) by blast
  then show ?thesis
  proof cases
    case 1
    then show ?thesis using ms_run.refl assms(2) by blast
  next
    case 2
    then have sig: "0 < ms_signals s" using assms(1,4) by (simp add: ms_ok_def)
    obtain t where "ms_run (AddMsg_signal s) t" "ms_consumer t = CTop" "ms_msgs t = ms_msgs (AddMsg_signal s)"
        "ms_added t = ms_added (AddMsg_signal s)" "ms_applied t = ms_applied (AddMsg_signal s)" "\<not> ms_quit t"
      using woken [of "AddMsg_signal s"] 2 assms(2) by (auto simp: AddMsg_signal_def signalled_def)
    then show ?thesis
      using ms_run_trans [OF _ ms_run_one [OF ms_step.signal [OF sig]]]
      by (intro exI [of _ t]) (simp add: AddMsg_signal_def signalled_def split: if_splits)
  next
    case 3
    then show ?thesis using woken assms(2) by blast
  next
    case 4
    then have "ms_producerSema s < ms_bufSize s" using assms(1) by (auto simp: ms_ok_def taken_def)
    then show ?thesis
      using ms_run_one [OF ms_step.release [OF 4]] assms(2)
      by (intro exI [of _ "consumerRelease s"]) (simp add: consumerRelease_def)
  qed
qed

lemma deliver_one:
  assumes "ms_ok s" "\<not> ms_quit s" "ms_consumer s \<noteq> CGone" "ms_consumer s \<noteq> CExited" "inHand s @ ms_msgs s = m # rest"
  shows "\<exists>t. ms_run s t \<and> ms_applied t = ms_applied s @ [m] \<and> ms_added t = ms_added s \<and> \<not> ms_quit t \<and>
    ms_consumer t = CRelease \<and> ms_msgs t = rest"
proof (cases "\<exists>a. ms_consumer s = CApply a")
  case True
  then obtain a where a: "ms_consumer s = CApply a" by blast
  then have "a = m" "ms_msgs s = rest" using assms(5) by (simp_all add: inHand_def)
  then show ?thesis
    using ms_run_one [OF ms_step.handle [OF a]] assms(2)
    by (intro exI [of _ "consumerApply a s"]) (simp add: consumerApply_def)
next
  case False
  then have pc: "ms_consumer s \<in> {CTop, CWaiting, CWoken, CRelease}" using assms(3,4) by (cases "ms_consumer s") auto
  then have msgs: "ms_msgs s = m # rest" using assms(5) by (auto simp: inHand_def)
  then obtain t where t: "ms_run s t" "ms_consumer t = CTop" "ms_msgs t = ms_msgs s" "ms_added t = ms_added s"
      "ms_applied t = ms_applied s" "\<not> ms_quit t"
    using reach_top [OF assms(1,2) pc] by auto
  then show ?thesis
    using ms_run_trans [OF deliver_top [OF t(2), of m rest] t(1)] msgs
    by (intro exI [of _ "t\<lparr>ms_msgs := rest, ms_applied := ms_applied t @ [m], ms_consumer := CRelease\<rparr>"]) simp
qed

lemma deliver_all:
  assumes "ms_ok s" "\<not> ms_quit s" "ms_consumer s \<noteq> CGone" "ms_consumer s \<noteq> CExited"
  shows "\<exists>t. ms_run s t \<and> ms_applied t = ms_added s"
  using assms
proof (induction "inHand s @ ms_msgs s" arbitrary: s)
  case Nil
  then show ?case using ms_run.refl by (auto simp: ms_ok_def)
next
  case (Cons m rest)
  obtain t where t: "ms_run s t" "ms_applied t = ms_applied s @ [m]" "ms_added t = ms_added s" "\<not> ms_quit t"
      "ms_consumer t = CRelease" "ms_msgs t = rest"
    using deliver_one [OF Cons.prems Cons.hyps(2) [symmetric]] by blast
  have "rest = inHand t @ ms_msgs t" using t(5,6) by (simp add: inHand_def)
  then obtain u where "ms_run t u" "ms_applied u = ms_added t"
    using Cons.hyps(1) [of t] ms_ok_run [OF t(1) Cons.prems(1)] t(4,5) by auto
  then show ?case using ms_run_trans [OF _ t(1)] t(3) by auto
qed

lemma not_gone:
  assumes "ms_run (newMsgStream n) s" "\<not> ms_quit s"
  shows "ms_consumer s \<noteq> CGone \<and> ms_consumer s \<noteq> CExited"
proof -
  have "ms_run r s \<Longrightarrow> (ms_consumer r \<noteq> CGone \<and> ms_consumer r \<noteq> CExited \<or> ms_quit r) \<Longrightarrow>
      (ms_consumer s \<noteq> CGone \<and> ms_consumer s \<noteq> CExited \<or> ms_quit s)" for r :: "'a msgStream"
  proof (induction rule: ms_run.induct)
    case (step s t u)
    then have "ms_consumer t \<noteq> CGone \<and> ms_consumer t \<noteq> CExited \<or> ms_quit t" by simp
    with step(2) show ?case by (induction rule: ms_step.induct) (auto simp: ms_defs split: list.splits)
  qed simp
  from this [OF assms(1)] assms(2) show ?thesis by (simp add: newMsgStream_def)
qed

section \<open>The properties\<close>

text \<open>
  C22. The messages are handed on in the order they were appended, each once and none left out;
  no more than the size of the buffer are on their way; and while the stream is not stopped, every
  message that was appended can be handed on with no further call from outside: no wake-up is lost.
\<close>

theorem stream_delivers_in_order:
  assumes "ms_run (newMsgStream n) s"
  shows "prefix (ms_applied s) (ms_added s) \<and>
    length (ms_added s) - length (ms_applied s) + length (ms_holding s) \<le> n \<and>
    (ms_quit s \<or> (\<exists>t. ms_run s t \<and> ms_applied t = ms_added s))"
proof -
  have ok: "ms_ok s" by (rule ms_reach_ok [OF assms])
  have size: "ms_bufSize s = n" using ms_bufSize_run [OF assms] by (simp add: newMsgStream_def)
  have "length (ms_added s) = length (ms_applied s) + length (inHand s) + length (ms_msgs s)"
    using ok by (metis (no_types, lifting) add.assoc length_append ms_ok_def)
  moreover have "length (inHand s) + length (ms_msgs s) + length (ms_holding s) \<le> taken s"
    by (simp add: taken_def inHand_def split: consumer.split)
  ultimately have "length (ms_added s) - length (ms_applied s) + length (ms_holding s) \<le> n"
    using ok size by (simp add: ms_ok_def)
  moreover have "prefix (ms_applied s) (ms_added s)" using ok unfolding ms_ok_def by (metis prefixI)
  moreover have "ms_quit s \<or> (\<exists>t. ms_run s t \<and> ms_applied t = ms_added s)"
    using deliver_all [OF ok] not_gone [OF assms] by blast
  ultimately show ?thesis by simp
qed

text \<open>
  A stream can be stopped at a moment when its consumer gives a slot back; the consumer may
  then leave without setting the flag, and \<^verbatim>\<open>Stop\<close>, which waits for the flag, never returns.
\<close>

theorem stop_may_hang:
  assumes "0 < n"
  shows "\<exists>s. ms_run (newMsgStream n) s \<and> ms_added s = [m] \<and> ms_applied s = [m] \<and> ms_quit s \<and>
    (\<forall>t. ms_run s t \<longrightarrow> \<not> streamShutdown t)"
proof -
  define s0 where "s0 = (newMsgStream n :: 'a msgStream)"
  define s1 where "s1 = AddMsg_acquire m s0"
  define s2 where "s2 = AddMsg_append m s1"
  define s3 where "s3 = consumerTop s2"
  define s4 where "s4 = Stop_close (consumerApply m s3)"
  define s5 where "s5 = consumerQuit s4"
  note sdefs = s0_def s1_def s2_def s3_def s4_def s5_def newMsgStream_def ms_defs
  have "ms_step s0 s1" unfolding s1_def by (rule ms_step.acquire) (use assms in \<open>simp add: sdefs\<close>)
  moreover have "ms_step s1 s2" unfolding s2_def by (rule ms_step.append) (simp add: sdefs)
  moreover have "ms_step s2 s3" unfolding s3_def by (rule ms_step.top) (simp add: sdefs)
  moreover have "ms_step s3 (consumerApply m s3)" by (rule ms_step.handle) (simp add: sdefs)
  moreover have "ms_step (consumerApply m s3) s4" unfolding s4_def by (rule ms_step.close) (simp add: sdefs)
  moreover have "ms_step s4 s5" unfolding s5_def by (rule ms_step.leave) (simp_all add: sdefs)
  ultimately have "ms_run s0 s5" by (meson ms_run.refl ms_run.step)
  moreover have "ms_added s5 = [m]" "ms_applied s5 = [m]" "ms_quit s5" "ms_consumer s5 = CGone" "\<not> streamShutdown s5"
    by (simp_all add: sdefs)
  ultimately show ?thesis using gone_stays [of s5] by (intro exI [of _ s5]) (auto simp: s0_def)
qed

theorem stream_delivers_in_order_witness:
  "prefix (ms_applied (AddMsg_append 5 (AddMsg_acquire 5 (newMsgStream 3))))
     (ms_added (AddMsg_append (5 :: nat) (AddMsg_acquire 5 (newMsgStream 3))))"
proof -
  have "ms_step (newMsgStream 3) (AddMsg_acquire (5 :: nat) (newMsgStream 3))"
    by (rule ms_step.acquire) (simp add: newMsgStream_def)
  moreover have "ms_step (AddMsg_acquire 5 (newMsgStream 3)) (AddMsg_append (5 :: nat) (AddMsg_acquire 5 (newMsgStream 3)))"
    by (rule ms_step.append) (simp add: AddMsg_acquire_def newMsgStream_def)
  ultimately have "ms_run (newMsgStream 3) (AddMsg_append (5 :: nat) (AddMsg_acquire 5 (newMsgStream 3)))"
    by (meson ms_run.refl ms_run.step)
  from stream_delivers_in_order [OF this] show ?thesis by simp
qed

theorem stop_may_hang_witness:
  "\<exists>s. ms_run (newMsgStream 1000) s \<and> ms_added s = [5 :: nat] \<and> ms_quit s \<and> \<not> streamShutdown s"
  using stop_may_hang [of 1000 "5 :: nat"] ms_run.refl by fastforce

end
