(* ===== verification/PeerRead.thy ===== *)
theory PeerRead
  imports MsgStream SwitchLinks FundingStart FundingFlow
begin

text \<open>
  The reader of a peer (\<^verbatim>\<open>readHandler\<close> in \<^verbatim>\<open>src/lnd/peer.go\<close>): it reads one message after the other
  and hands each to the subsystem that handles it: the funding manager, the channel manager, the
  stream of a channel, the stream of the gossiper. What it added to a stream is kept here; how a
  stream delivers it is the subject of \<^verbatim>\<open>MsgStream\<close>, and what the stream of a channel does with a
  message is \<open>chanApply\<close>.
\<close>

section \<open>Data\<close>

datatype chanUpdate = UpdateAddHTLC | UpdateFulfillHTLC | UpdateFailMalformedHTLC | UpdateFailHTLC | RevokeAndAck
  | CommitSig | UpdateFee | ChannelReestablish

datatype gossipKind = GossipChannelUpdate | GossipChannelAnnouncement | GossipNodeAnnouncement | GossipAnnounceSignatures

datatype wireMsg =
    WPong
  | WPing u16
  | WOpenChannel OpenChannelMsg
  | WAcceptChannel AcceptChannelMsg
  | WFundingCreated FundingCreatedMsg
  | WFundingSigned FundingSignedMsg
  | WFundingLocked FundingLockedMsg
  | WShutdown Shutdown
  | WClosingSigned ClosingSigned
  | WError ChannelID bytes
  | WUpdate chanUpdate ChannelID bytes
  | WGossip gossipKind bytes
  | WOther

datatype readResult = ReadMsg wireMsg | ReadUnknownMessage | ReadUnknownAddrType | ReadFailed goerr

record reader =
  rd_streams :: "ChannelID \<rightharpoonup> wireMsg list"
  rd_disc :: "wireMsg list"
  rd_close :: "(ChannelID \<times> Message) list"
  rd_pongs :: "nat list" \<comment> \<open>the sizes of the pongs that were queued\<close>
  rd_failedChannels :: "ChannelID set"
  rd_pingLastSend :: u64
  rd_pingTime :: u64
  rd_fundingMgr :: fundingManager
  rd_left :: bool

record readEnv =
  re_addr :: NetAddress
  re_now :: u64
  re_fmQuit :: bool \<comment> \<open>the funding manager is shutting down\<close>
  re_taken :: bool \<comment> \<open>the channel manager takes a close message; else the peer is going down\<close>

definition newReader :: "fundingManager \<Rightarrow> reader" where
  "newReader f = \<lparr>rd_streams = Map.empty, rd_disc = [], rd_close = [], rd_pongs = [], rd_failedChannels = {},
     rd_pingLastSend = 0, rd_pingTime = 0, rd_fundingMgr = f, rd_left = False\<rparr>"

definition ConnectionWideID :: ChannelID where "ConnectionWideID = replicate 32 0"

section \<open>One message\<close>

definition toFundingMgr :: "readEnv \<Rightarrow> FundingMsg \<Rightarrow> reader \<Rightarrow> (goerr + unit) \<times> reader" where
  "toFundingMgr env msg rd =
     (case processFundingMsg (re_fmQuit env) msg (re_addr env) (rd_fundingMgr rd) of
        (res, f) \<Rightarrow> (res, rd\<lparr>rd_fundingMgr := f\<rparr>))"

definition toChannelManager :: "readEnv \<Rightarrow> ChannelID \<Rightarrow> Message \<Rightarrow> reader \<Rightarrow> (goerr + unit) \<times> reader" where
  "toChannelManager env k msg rd =
     (Inr (), if re_taken env then rd\<lparr>rd_close := rd_close rd @ [(k, msg)]\<rparr> else rd\<lparr>rd_left := True\<rparr>)"

text \<open>The stream of a channel is made when its first message arrives.\<close>

definition toStream :: "ChannelID \<Rightarrow> wireMsg \<Rightarrow> reader \<Rightarrow> reader" where
  "toStream k msg rd =
     rd\<lparr>rd_streams := (rd_streams rd)(k \<mapsto> (case rd_streams rd k of None \<Rightarrow> [] | Some ms \<Rightarrow> ms) @ [msg])\<rparr>"

definition readErrorMsg :: "readEnv \<Rightarrow> ChannelID \<Rightarrow> bytes \<Rightarrow> reader \<Rightarrow> (goerr + unit) \<times> reader" where
  "readErrorMsg env k data rd =
     (if k = ConnectionWideID then
        (Inr (), rd\<lparr>rd_streams := (\<lambda>j. map_option (\<lambda>ms. ms @ [WError k data]) (rd_streams rd j)),
                   rd_failedChannels := rd_failedChannels rd \<union> dom (rd_streams rd)\<rparr>)
      else if IsPendingChannel k (re_addr env) (rd_fundingMgr rd) then toFundingMgr env (MsgError k data) rd
      else (Inr (), toStream k (WError k data) (rd\<lparr>rd_failedChannels := insert k (rd_failedChannels rd)\<rparr>)))"

fun readMessage :: "readEnv \<Rightarrow> wireMsg \<Rightarrow> reader \<Rightarrow> (goerr + unit) \<times> reader" where
  "readMessage env WPong rd = (Inr (), rd\<lparr>rd_pingTime := amt_div (re_now env - rd_pingLastSend rd) 1000\<rparr>)"
| "readMessage env (WPing numPongBytes) rd = (Inr (), rd\<lparr>rd_pongs := rd_pongs rd @ [unat numPongBytes]\<rparr>)"
| "readMessage env (WOpenChannel msg) rd = toFundingMgr env (MsgOpenChannel msg) rd"
| "readMessage env (WAcceptChannel msg) rd = toFundingMgr env (MsgAcceptChannel msg) rd"
| "readMessage env (WFundingCreated msg) rd = toFundingMgr env (MsgFundingCreated msg) rd"
| "readMessage env (WFundingSigned msg) rd = toFundingMgr env (MsgFundingSigned msg) rd"
| "readMessage env (WFundingLocked msg) rd = toFundingMgr env (MsgFundingLocked msg) rd"
| "readMessage env (WShutdown msg) rd = toChannelManager env (sd_ChannelID msg) (MsgShutdown msg) rd"
| "readMessage env (WClosingSigned msg) rd = toChannelManager env (cs_ChannelID msg) (MsgClosingSigned msg) rd"
| "readMessage env (WError k data) rd = readErrorMsg env k data rd"
| "readMessage env (WUpdate u k data) rd = (Inr (), toStream k (WUpdate u k data) rd)"
| "readMessage env (WGossip g data) rd = (Inr (), rd\<lparr>rd_disc := rd_disc rd @ [WGossip g data]\<rparr>)"
| "readMessage env WOther rd = (Inr (), rd)"

section \<open>The loop\<close>

text \<open>
  The messages read so far. An unknown message or address type is skipped; any other error ends
  the loop, and so does a close message that is not taken. A funding manager that takes no more
  messages blocks the reader. Which pending channels the funding manager knows, which decides where
  an error message goes, is that of the state \<open>newReader\<close> is given; it does not change meanwhile.
\<close>

fun readHandler :: "readEnv \<Rightarrow> readResult list \<Rightarrow> reader \<Rightarrow> (goerr + unit) \<times> reader" where
  "readHandler env [] rd = (Inr (), rd)"
| "readHandler env (ReadMsg msg # rs) rd =
     (case readMessage env msg rd of
        (Inl err, rd1) \<Rightarrow> (Inl err, rd1)
      | (Inr _, rd1) \<Rightarrow> if rd_left rd1 then (Inr (), rd1) else readHandler env rs rd1)"
| "readHandler env (ReadUnknownMessage # rs) rd = readHandler env rs rd"
| "readHandler env (ReadUnknownAddrType # rs) rd = readHandler env rs rd"
| "readHandler env (ReadFailed err # rs) rd = (Inr (), rd\<lparr>rd_left := True\<rparr>)"

section \<open>The stream of a channel\<close>

text \<open>
  The function that the stream of a channel applies to a message: a message other than the
  reestablishment waits until the funding manager is done with the channel; the link is looked up
  once and kept. What was handed to a link is kept as history.
\<close>

record chanStream =
  cl_chanLink :: "ChannelLink option"
  cl_handled :: "(nat \<times> wireMsg) list"

definition newChanStream :: chanStream where "newChanStream = \<lparr>cl_chanLink = None, cl_handled = []\<rparr>"

fun isReestablish :: "wireMsg \<Rightarrow> bool" where
  "isReestablish (WUpdate ChannelReestablish _ _) = True"
| "isReestablish _ = False"

definition chanApply :: "ChannelID \<Rightarrow> fundingManager \<Rightarrow> Switch \<Rightarrow> wireMsg \<Rightarrow> chanStream \<Rightarrow> (goerr + unit) \<times> chanStream" where
  "chanApply chanID f w msg st =
     (if \<not> isReestablish msg \<and> \<not> waitUntilChannelOpen chanID f then (Inl (GoBlocked ''waitUntilChannelOpen''), st)
      else (case cl_chanLink st of
             Some link \<Rightarrow> (Inr (), st\<lparr>cl_handled := cl_handled st @ [(lk_ref link, msg)]\<rparr>)
           | None \<Rightarrow>
               (case getLink chanID w of Inl _ \<Rightarrow> (Inr (), st)
               | Inr link \<Rightarrow> (Inr (), \<lparr>cl_chanLink = Some link, cl_handled = cl_handled st @ [(lk_ref link, msg)]\<rparr>))))"

fun chanApplyAll :: "ChannelID \<Rightarrow> (fundingManager \<times> Switch \<times> wireMsg) list \<Rightarrow> chanStream \<Rightarrow> (goerr + unit) \<times> chanStream" where
  "chanApplyAll chanID [] st = (Inr (), st)"
| "chanApplyAll chanID ((f, w, msg) # rs) st =
     (case chanApply chanID f w msg st of (Inl err, st1) \<Rightarrow> (Inl err, st1) | (Inr _, st1) \<Rightarrow> chanApplyAll chanID rs st1)"

section \<open>Routing\<close>

text \<open>The messages of a list of results up to the point where the loop ends.\<close>

fun readMsgs :: "readResult list \<Rightarrow> wireMsg list" where
  "readMsgs [] = []"
| "readMsgs (ReadMsg msg # rs) = msg # readMsgs rs"
| "readMsgs (ReadFailed _ # rs) = []"
| "readMsgs (_ # rs) = readMsgs rs"

fun forChan :: "(ChannelID \<Rightarrow> bool) \<Rightarrow> ChannelID \<Rightarrow> wireMsg \<Rightarrow> bool" where
  "forChan pend k (WUpdate _ j _) = (j = k)"
| "forChan pend k (WError j _) = (j = k \<and> j \<noteq> ConnectionWideID \<and> \<not> pend j)"
| "forChan pend k _ = False"

fun forAll :: "wireMsg \<Rightarrow> bool" where
  "forAll (WError j _) = (j = ConnectionWideID)"
| "forAll _ = False"

definition streamOf :: "(ChannelID \<Rightarrow> bool) \<Rightarrow> ChannelID \<Rightarrow> wireMsg list \<Rightarrow> wireMsg list option" where
  "streamOf pend k msgs =
     (case dropWhile (\<lambda>m. \<not> forChan pend k m) msgs of [] \<Rightarrow> None
      | ms \<Rightarrow> Some (filter (\<lambda>m. forChan pend k m \<or> forAll m) ms))"

fun isGossip :: "wireMsg \<Rightarrow> bool" where
  "isGossip (WGossip _ _) = True"
| "isGossip _ = False"

fun fundingOf :: "(ChannelID \<Rightarrow> bool) \<Rightarrow> wireMsg \<Rightarrow> FundingMsg list" where
  "fundingOf pend (WOpenChannel msg) = [MsgOpenChannel msg]"
| "fundingOf pend (WAcceptChannel msg) = [MsgAcceptChannel msg]"
| "fundingOf pend (WFundingCreated msg) = [MsgFundingCreated msg]"
| "fundingOf pend (WFundingSigned msg) = [MsgFundingSigned msg]"
| "fundingOf pend (WFundingLocked msg) = [MsgFundingLocked msg]"
| "fundingOf pend (WError k data) = (if k \<noteq> ConnectionWideID \<and> pend k then [MsgError k data] else [])"
| "fundingOf pend _ = []"

fun closeOf :: "wireMsg \<Rightarrow> (ChannelID \<times> Message) list" where
  "closeOf (WShutdown msg) = [(sd_ChannelID msg, MsgShutdown msg)]"
| "closeOf (WClosingSigned msg) = [(cs_ChannelID msg, MsgClosingSigned msg)]"
| "closeOf _ = []"

abbreviation pends :: "readEnv \<Rightarrow> reader \<Rightarrow> ChannelID \<Rightarrow> bool" where
  "pends env rd \<equiv> (\<lambda>k. IsPendingChannel k (re_addr env) (rd_fundingMgr rd))"

definition extend :: "(ChannelID \<Rightarrow> bool) \<Rightarrow> ChannelID \<Rightarrow> wireMsg list \<Rightarrow> wireMsg list option \<Rightarrow> wireMsg list option" where
  "extend pend k msgs old =
     (case old of None \<Rightarrow> streamOf pend k msgs | Some xs \<Rightarrow> Some (xs @ filter (\<lambda>m. forChan pend k m \<or> forAll m) msgs))"

lemma extend_Nil [simp]: "extend pend k [] old = old"
  by (simp add: extend_def streamOf_def split: option.split)

lemma extend_Cons: "extend pend k (m # ms) old = extend pend k ms (extend pend k [m] old)"
  by (auto simp: extend_def streamOf_def split: option.split)

lemma forChan_forAll: "forChan pend k m \<Longrightarrow> \<not> forAll m"
  by (cases m) auto

text \<open>One message: where it went.\<close>

definition routed :: "readEnv \<Rightarrow> wireMsg list \<Rightarrow> reader \<Rightarrow> reader \<Rightarrow> bool" where
  "routed env msgs rd rd' \<longleftrightarrow> pends env rd' = pends env rd
     \<and> (\<forall>k. rd_streams rd' k = extend (pends env rd) k msgs (rd_streams rd k))
     \<and> rd_disc rd' = rd_disc rd @ filter isGossip msgs
     \<and> rd_close rd' = rd_close rd @ concat (map closeOf msgs)
     \<and> (re_fmQuit env \<or> fundingMsgs (rd_fundingMgr rd') = fundingMsgs (rd_fundingMgr rd)
          @ map (\<lambda>m. (re_addr env, m)) (concat (map (fundingOf (pends env rd)) msgs)))"

lemma routed_Nil: "routed env [] rd rd"
  by (simp add: routed_def)

lemma routed_trans:
  assumes "routed env [m] rd rd1" "routed env ms rd1 rd'"
  shows "routed env (m # ms) rd rd'"
  using assms unfolding routed_def by (auto simp: extend_Cons [of _ _ m ms])

lemma toFundingMgr_routed:
  assumes "toFundingMgr env msg rd = (Inr (), rd')"
  shows "pends env rd' = pends env rd \<and> rd_streams rd' = rd_streams rd \<and> rd_disc rd' = rd_disc rd \<and> rd_close rd' = rd_close rd
     \<and> (re_fmQuit env \<or> fundingMsgs (rd_fundingMgr rd') = fundingMsgs (rd_fundingMgr rd) @ [(re_addr env, msg)])"
  using assms by (auto simp: toFundingMgr_def processFundingMsg_def IsPendingChannel_def resCtxOf_def peerReservations_def split: if_splits)

lemma extend_one:
  "extend pend k [m] old =
     (if forChan pend k m then Some ((case old of None \<Rightarrow> [] | Some xs \<Rightarrow> xs) @ [m])
      else if forAll m then map_option (\<lambda>xs. xs @ [m]) old else old)"
  by (simp add: extend_def streamOf_def split: option.split)

lemma readMessage_routed:
  assumes "re_taken env" "readMessage env msg rd = (Inr (), rd')"
  shows "routed env [msg] rd rd'"
proof (cases msg)
  case (WError k data)
  with assms(2) show ?thesis
    by (auto simp: routed_def extend_one readErrorMsg_def toStream_def split: if_splits dest!: toFundingMgr_routed)
next
  case (WShutdown m)
  with assms show ?thesis by (auto simp: routed_def extend_one toChannelManager_def)
next
  case (WClosingSigned m)
  with assms show ?thesis by (auto simp: routed_def extend_one toChannelManager_def)
next
  case (WUpdate u k data)
  with assms(2) show ?thesis by (auto simp: routed_def extend_one toStream_def)
qed (use assms in \<open>auto simp: routed_def extend_one dest!: toFundingMgr_routed\<close>)

lemma readMessage_stays: "re_taken env \<Longrightarrow> rd_left (snd (readMessage env msg rd)) = rd_left rd"
  by (cases msg) (auto simp: toFundingMgr_def toChannelManager_def toStream_def readErrorMsg_def split: prod.split)

lemma readHandler_routed:
  assumes "re_taken env" "readHandler env rs rd = (Inr (), rd')" "\<not> rd_left rd"
  shows "routed env (readMsgs rs) rd rd'"
  using assms
proof (induction rs arbitrary: rd)
  case (Cons r rs)
  show ?case
  proof (cases r)
    case (ReadMsg msg)
    obtain res rd1 where m: "readMessage env msg rd = (res, rd1)" by (cases "readMessage env msg rd")
    have "\<not> rd_left rd1" using readMessage_stays [OF Cons.prems(1), of msg rd] m Cons.prems(3) by simp
    with Cons.prems(2) ReadMsg m have "res = Inr ()" "readHandler env rs rd1 = (Inr (), rd')"
      by (auto split: sum.splits)
    with Cons.IH [OF Cons.prems(1), of rd1] \<open>\<not> rd_left rd1\<close> readMessage_routed [OF Cons.prems(1), of msg rd rd1] m
    have "routed env [msg] rd rd1" "routed env (readMsgs rs) rd1 rd'" by simp_all
    then show ?thesis unfolding ReadMsg readMsgs.simps by (rule routed_trans)
  next
    case (ReadFailed err)
    with Cons.prems(2) have "rd' = rd\<lparr>rd_left := True\<rparr>" by simp
    with ReadFailed show ?thesis by (simp add: routed_def)
  qed (use Cons in auto)
qed (simp add: routed_Nil)

lemma sublist_dropWhile_filter:
  assumes "streamOf pend k msgs = Some xs"
  shows "suffix xs (filter (\<lambda>m. forChan pend k m \<or> forAll m) msgs)"
proof -
  have "xs = filter (\<lambda>m. forChan pend k m \<or> forAll m) (dropWhile (\<lambda>m. \<not> forChan pend k m) msgs)"
    using assms by (auto simp: streamOf_def split: list.splits)
  moreover have "filter Q msgs = filter Q (takeWhile R msgs) @ filter Q (dropWhile R msgs)" for Q R
    by (metis filter_append takeWhile_dropWhile_id)
  ultimately show ?thesis by (metis suffixI)
qed

text \<open>What the stream of a channel hands to its link.\<close>

lemma chanApplyAll_linked:
  assumes "chanApplyAll k calls st = (Inr (), st')" "cl_chanLink st = Some l"
  shows "cl_handled st' = cl_handled st @ map (\<lambda>(_, _, m). (lk_ref l, m)) calls"
  using assms by (induction calls arbitrary: st) (auto simp: chanApply_def split: if_splits)

lemma chanApplyAll_open:
  assumes "chanApplyAll k calls st = (Inr (), st')" "(g, w, m) \<in> set calls"
  shows "isReestablish m \<or> waitUntilChannelOpen k g"
  using assms
  by (induction calls arbitrary: st) (auto simp: chanApply_def split: if_splits option.splits sum.splits prod.splits)

lemma chanApplyAll_fresh:
  assumes "chanApplyAll k calls st = (Inr (), st')" "cl_chanLink st = None" "cl_handled st = []"
  shows "\<exists>r ms. cl_handled st' = map (Pair r) ms \<and> suffix ms (map (\<lambda>(_, _, m). m) calls)"
  using assms
proof (induction calls arbitrary: st)
  case (Cons c calls)
  obtain g w m where c: "c = (g, w, m)" by (cases c)
  show ?case
  proof (cases "getLink k w")
    case (Inl e)
    with Cons.prems c have "chanApplyAll k calls st = (Inr (), st')" by (auto simp: chanApply_def split: if_splits)
    from Cons.IH [OF this Cons.prems(2,3)] c show ?thesis by (auto intro: suffix_ConsI)
  next
    case (Inr l)
    let ?st = "\<lparr>cl_chanLink = Some l, cl_handled = [(lk_ref l, m)]\<rparr>"
    have "chanApplyAll k calls ?st = (Inr (), st')"
      using Cons.prems c Inr by (auto simp: chanApply_def split: if_splits)
    from chanApplyAll_linked [OF this] have "cl_handled st' = map (Pair (lk_ref l)) (map (\<lambda>(_, _, m). m) (c # calls))"
      by (simp add: c case_prod_unfold)
    then show ?thesis by blast
  qed
qed auto

section \<open>The properties\<close>

text \<open>
  The reader hands every message it has read to exactly one place, and each place gets its
  messages in the order they were read: the gossiper its announcements, the channel manager the
  messages of closes, the funding manager those of openings and the errors of pending channels, and
  the stream of a channel the messages of the channel and, from its first message on, the errors
  that concern the whole connection.
\<close>

theorem reader_routes:
  assumes "re_taken env" "readHandler env rs (newReader f) = (Inr (), rd)"
  shows "(\<forall>k. rd_streams rd k = streamOf (\<lambda>j. IsPendingChannel j (re_addr env) f) k (readMsgs rs))
    \<and> rd_disc rd = filter isGossip (readMsgs rs)
    \<and> rd_close rd = concat (map closeOf (readMsgs rs))
    \<and> (re_fmQuit env \<or> fundingMsgs (rd_fundingMgr rd) = fundingMsgs f
         @ map (\<lambda>m. (re_addr env, m)) (concat (map (fundingOf (\<lambda>j. IsPendingChannel j (re_addr env) f)) (readMsgs rs))))"
  using readHandler_routed [OF assms] by (simp add: routed_def newReader_def extend_def)

definition read_env :: readEnv where
  "read_env = \<lparr>re_addr = \<lparr>na_IdentityKey = \<lparr>X = 2, Y = 0\<rparr>, na_Address = OtherAddr []\<rparr>, re_now = 0, re_fmQuit = False, re_taken = True\<rparr>"

definition read_fm :: fundingManager where "read_fm = newFundingManager emptyWallet (Bkt [])"

definition read_some :: "readResult list" where
  "read_some = [ReadMsg (WError ConnectionWideID []), ReadMsg (WUpdate ChannelReestablish [2] []), ReadUnknownMessage,
     ReadMsg (WError ConnectionWideID []), ReadFailed (GoErr ''EOF''), ReadMsg (WUpdate UpdateFee [2] [])]"

lemma read_some_run:
  "readHandler read_env read_some (newReader read_fm) =
     (Inr (), (newReader read_fm)\<lparr>rd_streams := [[2] \<mapsto> [WUpdate ChannelReestablish [2] [], WError ConnectionWideID []]],
        rd_failedChannels := {[2]}, rd_left := True\<rparr>)"
  by (auto simp: read_some_def newReader_def read_env_def readErrorMsg_def toStream_def fun_eq_iff)

theorem reader_routes_witness:
  "rd_streams (snd (readHandler read_env read_some (newReader read_fm))) [2] =
     Some [WUpdate ChannelReestablish [2] [], WError ConnectionWideID []]
   \<and> rd_disc (snd (readHandler read_env read_some (newReader read_fm))) = []"
proof -
  have "re_taken read_env" by (simp add: read_env_def)
  from reader_routes [OF this read_some_run]
  have "rd_streams (snd (readHandler read_env read_some (newReader read_fm))) [2] =
      streamOf (\<lambda>j. IsPendingChannel j (re_addr read_env) read_fm) [2] (readMsgs read_some)"
    "rd_disc (snd (readHandler read_env read_some (newReader read_fm))) = filter isGossip (readMsgs read_some)"
    unfolding read_some_run snd_conv by blast+
  then show ?thesis by (simp add: read_some_def streamOf_def)
qed

text \<open>
  C21. From the wire to the link: what the link of a channel is given, by a stream that was fed by
  the reader, is a contiguous part of the messages that were read for the channel, in the same
  order and each once; all of it goes to one link; and apart from the reestablishment nothing is
  given to it before the funding manager is done with the channel.
\<close>

theorem updates_reach_link_in_order:
  assumes "re_taken env" "readHandler env rs (newReader f) = (Inr (), rd)" "rd_streams rd k = Some xs"
    and "ms_run (newMsgStream 1000) s" "ms_added s = xs"
    and "map (\<lambda>(_, _, m). m) calls = ms_applied s" "chanApplyAll k calls newChanStream = (Inr (), st)"
  shows "(\<exists>r ms. cl_handled st = map (Pair r) ms
        \<and> sublist ms (filter (\<lambda>m. forChan (\<lambda>j. IsPendingChannel j (re_addr env) f) k m \<or> forAll m) (readMsgs rs)))
    \<and> (\<forall>(g, w, m) \<in> set calls. isReestablish m \<or> waitUntilChannelOpen k g)"
proof -
  let ?pend = "\<lambda>j. IsPendingChannel j (re_addr env) f"
  have "streamOf ?pend k (readMsgs rs) = Some xs"
    using readHandler_routed [OF assms(1,2)] assms(3) by (simp add: routed_def newReader_def extend_def)
  then have "suffix xs (filter (\<lambda>m. forChan ?pend k m \<or> forAll m) (readMsgs rs))" by (rule sublist_dropWhile_filter)
  moreover have "prefix (ms_applied s) xs" using ms_reach_ok [OF assms(4)] assms(5) unfolding ms_ok_def by (metis prefixI)
  moreover obtain r ms where ms: "cl_handled st = map (Pair r) ms" "suffix ms (ms_applied s)"
    using chanApplyAll_fresh [OF assms(7)] assms(6) by (auto simp: newChanStream_def)
  ultimately have "sublist ms (filter (\<lambda>m. forChan ?pend k m \<or> forAll m) (readMsgs rs))"
    by (meson prefix_imp_sublist sublist_order.order_trans suffix_imp_sublist)
  with ms(1) chanApplyAll_open [OF assms(7)] show ?thesis by blast
qed

definition read_switch :: Switch where
  "read_switch = emptySwitch\<lparr>linkIndex := [[2] \<mapsto> \<lparr>lk_ref = 6, lk_ChanID = [2], lk_Peer = []\<rparr>]\<rparr>"

theorem updates_reach_link_in_order_witness:
  "\<exists>(st :: chanStream) r ms. cl_handled st = [(6, WUpdate ChannelReestablish [2] [])] \<and> cl_handled st = map (Pair r) ms
     \<and> sublist ms [WError ConnectionWideID [], WUpdate ChannelReestablish [2] [], WError ConnectionWideID []]"
proof -
  let ?m1 = "WUpdate ChannelReestablish [2] []" and ?m2 = "WError ConnectionWideID []"
  define s0 where "s0 = (newMsgStream 1000 :: wireMsg msgStream)"
  define s1 where "s1 = AddMsg_append ?m1 (AddMsg_acquire ?m1 s0)"
  define s2 where "s2 = AddMsg_append ?m2 (AddMsg_acquire ?m2 s1)"
  define s3 where "s3 = consumerTop s2"
  define s4 where "s4 = consumerApply ?m1 s3"
  define st where "st = \<lparr>cl_chanLink = Some \<lparr>lk_ref = 6, lk_ChanID = [2], lk_Peer = []\<rparr>, cl_handled = [(6, ?m1)]\<rparr>"
  note sdefs = s4_def s3_def s2_def s1_def s0_def newMsgStream_def AddMsg_acquire_def AddMsg_append_def consumerTop_def consumerApply_def
  have add: "ms_run s t \<Longrightarrow> 0 < ms_producerSema t \<Longrightarrow> ms_run s (AddMsg_append m (AddMsg_acquire m t))" for s t and m :: wireMsg
    by (rule ms_run.step [OF ms_run.step [OF _ ms_step.acquire] ms_step.append]) (simp_all add: AddMsg_acquire_def)
  have "ms_run s0 s2" unfolding s2_def s1_def by (intro add ms_run.refl) (simp_all add: sdefs)
  moreover have "ms_step s2 s3" unfolding s3_def by (rule ms_step.top) (simp add: sdefs)
  moreover have "ms_step s3 s4" unfolding s4_def by (rule ms_step.handle) (simp add: sdefs)
  ultimately have run: "ms_run (newMsgStream 1000) s4" unfolding s0_def [symmetric] by (meson ms_run.step)
  have s4: "ms_added s4 = [?m1, ?m2]" "ms_applied s4 = [?m1]" by (simp_all add: sdefs)
  have calls: "chanApplyAll [2] [(read_fm, read_switch, ?m1)] newChanStream = (Inr (), st)"
    by (simp add: chanApply_def newChanStream_def read_switch_def getLink_def st_def)
  have e: "re_taken read_env" by (simp add: read_env_def)
  have xs: "rd_streams ((newReader read_fm)\<lparr>rd_streams := [[2] \<mapsto> [?m1, ?m2]], rd_failedChannels := {[2]}, rd_left := True\<rparr>) [2]
      = Some [?m1, ?m2]" by simp
  have msgs: "filter (\<lambda>m. forChan (\<lambda>j. IsPendingChannel j (re_addr read_env) read_fm) [2] m \<or> forAll m) (readMsgs read_some)
      = [?m2, ?m1, ?m2]" by (simp add: read_some_def)
  have "\<exists>r ms. cl_handled st = map (Pair r) ms \<and> sublist ms [?m2, ?m1, ?m2]"
    using updates_reach_link_in_order [OF e read_some_run xs run s4(1) _ calls] s4(2) unfolding msgs by simp
  then show ?thesis by (intro exI [of _ st]) (simp add: st_def)
qed

end
