(* ===== verification/PeerQueue.thy ===== *)
theory PeerQueue
  imports Server
begin

text \<open>
  The way of a message out (\<^verbatim>\<open>src/lnd/peer.go\<close> and \<^verbatim>\<open>src/lnd/server.go\<close>): a subsystem hands it to the
  server, which finds the peer; the peer queues it, its queue handler passes it to the write handler,
  and that writes it to the connection and reports on the message's error channel. Both channels are
  unbuffered, so a message passes from one goroutine to the next in one step.

  The messages that were accepted and those the write handler is done with are kept as history;
  \<open>po_wire\<close> is what the connection took.
\<close>

section \<open>Data\<close>

type_synonym 'm outgoingMsg = "'m \<times> nat option"

record 'm peerOut =
  po_pendingMsgs :: "'m outgoingMsg list"
  po_writing :: "'m outgoingMsg option"
  po_writerDone :: bool
  po_queueDone :: bool
  po_disconnect :: bool \<comment> \<open>\<^verbatim>\<open>disconnect\<close> is set and \<^verbatim>\<open>quit\<close> closed\<close>
  po_errChans :: "nat \<Rightarrow> goerr option list"
  po_accepted :: "'m outgoingMsg list"
  po_done :: "'m outgoingMsg list"
  po_wire :: "bytes list"

record 'm outEnv =
  oe_WriteMessage :: "'m \<Rightarrow> bytes \<times> goerr option" \<comment> \<open>the encoder: what it wrote to the buffer, and its error\<close>
  oe_conn_Write :: "bytes \<Rightarrow> goerr option"

definition newPeerOut :: "'m peerOut" where
  "newPeerOut = \<lparr>po_pendingMsgs = [], po_writing = None, po_writerDone = False, po_queueDone = False, po_disconnect = False,
     po_errChans = (\<lambda>_. []), po_accepted = [], po_done = [], po_wire = []\<rparr>"

section \<open>Writing\<close>

text \<open>The error of the encoder is overwritten by the result of the write.\<close>

definition writeMessage :: "'m outEnv \<Rightarrow> 'm \<Rightarrow> 'm peerOut \<Rightarrow> goerr option \<times> 'm peerOut" where
  "writeMessage env msg p =
     (if po_disconnect p then (None, p)
      else let (b, _) = oe_WriteMessage env msg; err = oe_conn_Write env b
           in (err, if err = None then p\<lparr>po_wire := po_wire p @ [b]\<rparr> else p))"

definition reportErr :: "nat option \<Rightarrow> goerr option \<Rightarrow> 'm peerOut \<Rightarrow> 'm peerOut" where
  "reportErr errChan err p =
     (case errChan of None \<Rightarrow> p
      | Some c \<Rightarrow> p\<lparr>po_errChans := (po_errChans p)(c := po_errChans p c @ [err])\<rparr>)"

text \<open>One round of the write handler with a message, and its exit.\<close>

definition writeHandler_msg :: "'m outEnv \<Rightarrow> 'm outgoingMsg \<Rightarrow> 'm peerOut \<Rightarrow> 'm peerOut" where
  "writeHandler_msg env outMsg p =
     (let (err, p1) = writeMessage env (fst outMsg) p;
          p2 = (reportErr (snd outMsg) err p1)\<lparr>po_writing := None, po_done := po_done p1 @ [outMsg]\<rparr>
      in if err \<noteq> None then p2\<lparr>po_writerDone := True, po_disconnect := True\<rparr> else p2)"

definition writeHandler_quit :: "'m peerOut \<Rightarrow> 'm peerOut" where
  "writeHandler_quit p = p\<lparr>po_writerDone := True\<rparr>"

section \<open>Queueing\<close>

text \<open>The select of \<^verbatim>\<open>queueMsg\<close>: the queue handler takes the message, or the peer is going down.\<close>

definition queueMsg_accept :: "'m \<Rightarrow> nat option \<Rightarrow> 'm peerOut \<Rightarrow> 'm peerOut" where
  "queueMsg_accept msg errChan p =
     p\<lparr>po_pendingMsgs := po_pendingMsgs p @ [(msg, errChan)], po_accepted := po_accepted p @ [(msg, errChan)]\<rparr>"

definition queueMsg_quit :: "'m \<Rightarrow> nat option \<Rightarrow> 'm peerOut \<Rightarrow> 'm peerOut" where
  "queueMsg_quit msg errChan p = reportErr errChan (Some (GoErr ''peer shutting down'')) p"

text \<open>The select of the queue handler.\<close>

definition queueHandler_send :: "'m peerOut \<Rightarrow> 'm peerOut" where
  "queueHandler_send p =
     (case po_pendingMsgs p of [] \<Rightarrow> p
      | m # ms \<Rightarrow> p\<lparr>po_writing := Some m, po_pendingMsgs := ms\<rparr>)"

definition queueHandler_quit :: "'m peerOut \<Rightarrow> 'm peerOut" where
  "queueHandler_quit p = p\<lparr>po_queueDone := True\<rparr>"

inductive po_step :: "'m outEnv \<Rightarrow> 'm peerOut \<Rightarrow> 'm peerOut \<Rightarrow> bool" for env where
  accept: "\<not> po_queueDone p \<Longrightarrow> po_step env p (queueMsg_accept msg errChan p)"
| refuse: "po_disconnect p \<Longrightarrow> po_step env p (queueMsg_quit msg errChan p)"
| pass: "\<not> po_queueDone p \<Longrightarrow> po_pendingMsgs p \<noteq> [] \<Longrightarrow> po_writing p = None \<Longrightarrow> \<not> po_writerDone p \<Longrightarrow>
    po_step env p (queueHandler_send p)"
| queue_quit: "po_disconnect p \<Longrightarrow> po_step env p (queueHandler_quit p)"
| written: "po_writing p = Some m \<Longrightarrow> \<not> po_writerDone p \<Longrightarrow> po_step env p (writeHandler_msg env m p)"
| write_quit: "po_writing p = None \<Longrightarrow> po_disconnect p \<Longrightarrow> po_step env p (writeHandler_quit p)"
| disconnect: "po_step env p (p\<lparr>po_disconnect := True\<rparr>)"

inductive po_run :: "'m outEnv \<Rightarrow> 'm peerOut \<Rightarrow> 'm peerOut \<Rightarrow> bool" for env where
  refl: "po_run env p p"
| step: "po_run env p q \<Longrightarrow> po_step env q r \<Longrightarrow> po_run env p r"

text \<open>
  The work of the two handlers alone: no call of \<^verbatim>\<open>queueMsg\<close>, nobody disconnects.
\<close>

inductive po_works :: "'m outEnv \<Rightarrow> 'm peerOut \<Rightarrow> 'm peerOut \<Rightarrow> bool" for env where
  idle: "po_works env p p"
| hand_over: "po_works env p q \<Longrightarrow> \<not> po_queueDone q \<Longrightarrow> po_pendingMsgs q \<noteq> [] \<Longrightarrow> po_writing q = None \<Longrightarrow>
    \<not> po_writerDone q \<Longrightarrow> po_works env p (queueHandler_send q)"
| wrote: "po_works env p q \<Longrightarrow> po_writing q = Some m \<Longrightarrow> \<not> po_writerDone q \<Longrightarrow>
    po_works env p (writeHandler_msg env m q)"

section \<open>The server's part\<close>

text \<open>\<^verbatim>\<open>sendPeerMessages\<close>: the messages with the error channels made for them, from \<open>next\<close> on.\<close>

definition sendPeerMessages :: "nat \<Rightarrow> 'm list \<Rightarrow> 'm outgoingMsg list" where
  "sendPeerMessages next msgs = zip msgs (map Some [next ..< next + length msgs])"

definition sendToPeer :: "PublicKey \<Rightarrow> nat \<Rightarrow> 'm list \<Rightarrow> server \<Rightarrow> goerr + peer \<times> 'm outgoingMsg list" where
  "sendToPeer target next msgs s =
     (case findPeerByPubStr (SerializeCompressed target) s of Inl err \<Rightarrow> Inl err
      | Inr targetPeer \<Rightarrow> Inr (targetPeer, sendPeerMessages next msgs))"

text \<open>What the caller meets on an error channel: a result, the end of the peer, or that of the server.\<close>

datatype await = GotErr "goerr option" | PeerQuit | ServerQuit

fun awaitErrs :: "await list \<Rightarrow> goerr option" where
  "awaitErrs [] = None"
| "awaitErrs (GotErr err # _) = err"
| "awaitErrs (PeerQuit # _) = Some (GoErr ''peer shutting down'')"
| "awaitErrs (ServerQuit # _) = Some ErrServerShuttingDown"

definition server_SendToPeer ::
  "('m outgoingMsg list \<Rightarrow> await list) \<Rightarrow> PublicKey \<Rightarrow> nat \<Rightarrow> 'm list \<Rightarrow> server \<Rightarrow> goerr option" where
  "server_SendToPeer answers target next msgs s =
     (case sendToPeer target next msgs s of Inl err \<Rightarrow> Some err
      | Inr (targetPeer, errChans) \<Rightarrow> awaitErrs (answers errChans))"

text \<open>A broadcast: every registered peer whose key is not to be skipped gets all the messages.\<close>

definition broadcastMessages :: "bytes set \<Rightarrow> 'm list \<Rightarrow> server \<Rightarrow> (peer \<times> 'm list) list" where
  "broadcastMessages skips msgs s =
     map (\<lambda>p. (p, msgs)) (filter (\<lambda>p. p_pubKeyBytes p \<notin> skips) (Peers s))"

definition BroadcastMessage :: "bytes set \<Rightarrow> 'm list \<Rightarrow> server \<Rightarrow> (peer \<times> 'm list) list" where
  "BroadcastMessage skip msgs s = broadcastMessages skip msgs s"

section \<open>Invariants\<close>

definition writingList :: "'m peerOut \<Rightarrow> 'm outgoingMsg list" where
  "writingList p = (case po_writing p of None \<Rightarrow> [] | Some m \<Rightarrow> [m])"

definition po_ok :: "'m outEnv \<Rightarrow> 'm peerOut \<Rightarrow> bool" where
  "po_ok env p \<longleftrightarrow>
     po_done p @ writingList p @ po_pendingMsgs p = po_accepted p \<and>
     prefix (po_wire p) (map (fst \<circ> oe_WriteMessage env \<circ> fst) (po_done p)) \<and>
     (\<not> po_disconnect p \<longrightarrow> po_wire p = map (fst \<circ> oe_WriteMessage env \<circ> fst) (po_done p) \<and>
        \<not> po_writerDone p \<and> \<not> po_queueDone p)"

lemma po_ok_new: "po_ok env newPeerOut"
  by (simp add: po_ok_def newPeerOut_def writingList_def)

lemma reportErr_fields [simp]:
  "po_pendingMsgs (reportErr c e p) = po_pendingMsgs p" "po_writing (reportErr c e p) = po_writing p"
  "po_writerDone (reportErr c e p) = po_writerDone p" "po_queueDone (reportErr c e p) = po_queueDone p"
  "po_disconnect (reportErr c e p) = po_disconnect p" "po_accepted (reportErr c e p) = po_accepted p"
  "po_done (reportErr c e p) = po_done p" "po_wire (reportErr c e p) = po_wire p"
  by (simp_all add: reportErr_def split: option.split)

lemma prefix_snoc_mono: "prefix xs ys \<Longrightarrow> prefix xs (ys @ [y])"
  by (simp add: prefix_prefix)

lemma po_ok_step: "po_step env p q \<Longrightarrow> po_ok env p \<Longrightarrow> po_ok env q"
proof (induction rule: po_step.induct)
  case (written p m)
  then show ?case
    by (auto simp: po_ok_def writeHandler_msg_def writeMessage_def writingList_def Let_def prefix_snoc_mono
        split: prod.split)
qed (auto simp: po_ok_def queueMsg_accept_def queueMsg_quit_def queueHandler_send_def queueHandler_quit_def
    writeHandler_quit_def writingList_def split: list.splits option.splits)

lemma po_ok_run: "po_run env p q \<Longrightarrow> po_ok env p \<Longrightarrow> po_ok env q"
  by (induction rule: po_run.induct) (auto intro: po_ok_step)

section \<open>Draining the queue\<close>

lemma po_works_trans: "po_works env q r \<Longrightarrow> po_works env p q \<Longrightarrow> po_works env p r"
  by (induction rule: po_works.induct) (auto intro: po_works.intros)

lemma po_works_run: "po_works env p q \<Longrightarrow> po_run env p q"
  by (induction rule: po_works.induct) (auto intro: po_run.intros po_step.pass po_step.written)

lemma po_works_ok: "po_works env p q \<Longrightarrow> po_ok env p \<Longrightarrow> po_ok env q"
  using po_works_run po_ok_run by blast

lemma write_one:
  assumes "po_writing p = Some m" "\<not> po_writerDone p" "\<not> po_disconnect p" "\<forall>b. oe_conn_Write env b = None"
  shows "\<exists>q. po_works env p q \<and> po_writing q = None \<and> po_pendingMsgs q = po_pendingMsgs p \<and> po_accepted q = po_accepted p \<and>
    \<not> po_disconnect q"
proof -
  have "po_works env p (writeHandler_msg env m p)" by (rule po_works.wrote [OF po_works.idle assms(1,2)])
  moreover have "po_writing (writeHandler_msg env m p) = None" "po_pendingMsgs (writeHandler_msg env m p) = po_pendingMsgs p"
    "po_accepted (writeHandler_msg env m p) = po_accepted p" "\<not> po_disconnect (writeHandler_msg env m p)"
    using assms by (auto simp: writeHandler_msg_def writeMessage_def Let_def split: prod.split)
  ultimately show ?thesis by blast
qed

lemma drain_pending:
  assumes "po_ok env p" "\<not> po_disconnect p" "po_writing p = None" "\<forall>b. oe_conn_Write env b = None"
  shows "\<exists>q. po_works env p q \<and> po_accepted q = po_accepted p \<and> po_pendingMsgs q = [] \<and> po_writing q = None \<and> \<not> po_disconnect q"
  using assms(1-3)
proof (induction "po_pendingMsgs p" arbitrary: p)
  case Nil
  then show ?case using po_works.idle by metis
next
  case (Cons m ms)
  define q where "q = queueHandler_send p"
  have q: "po_writing q = Some m" "po_pendingMsgs q = ms" "po_accepted q = po_accepted p" "\<not> po_disconnect q" "\<not> po_writerDone q"
    using Cons.hyps(2) Cons.prems by (auto simp: q_def queueHandler_send_def po_ok_def split: list.splits)
  have "po_works env p q"
    unfolding q_def using Cons.hyps(2) Cons.prems
    by (intro po_works.hand_over [OF po_works.idle]) (auto simp: po_ok_def)
  moreover obtain r where r: "po_works env q r" "po_writing r = None" "po_pendingMsgs r = ms" "po_accepted r = po_accepted p"
      "\<not> po_disconnect r"
    using write_one [OF q(1,5,4) assms(4)] q(2,3) by auto
  ultimately have pr: "po_works env p r" using po_works_trans by blast
  obtain u where "po_works env r u" "po_accepted u = po_accepted r" "po_pendingMsgs u = []" "po_writing u = None" "\<not> po_disconnect u"
    using Cons.hyps(1) [OF r(3) [symmetric] po_works_ok [OF pr Cons.prems(1)] r(5,2)] by blast
  then show ?case using po_works_trans [OF _ pr] r(4) by metis
qed

lemma drain:
  assumes "po_ok env p" "\<not> po_disconnect p" "\<forall>b. oe_conn_Write env b = None"
  shows "\<exists>q. po_works env p q \<and> po_wire q = map (fst \<circ> oe_WriteMessage env \<circ> fst) (po_accepted p)"
proof -
  obtain r where r: "po_works env p r" "po_writing r = None" "po_accepted r = po_accepted p" "\<not> po_disconnect r"
  proof (cases "po_writing p")
    case None
    then show ?thesis using that [OF po_works.idle] assms(2) by simp
  next
    case (Some m)
    have "\<not> po_writerDone p" using assms(1,2) by (simp add: po_ok_def)
    then show ?thesis using that write_one [OF Some _ assms(2,3)] by blast
  qed
  obtain q where q: "po_works env r q" "po_accepted q = po_accepted r" "po_pendingMsgs q = []" "po_writing q = None" "\<not> po_disconnect q"
    using drain_pending [OF po_works_ok [OF r(1) assms(1)] r(4,2) assms(3)] by blast
  have "po_works env p q" by (rule po_works_trans [OF q(1) r(1)])
  moreover from po_works_ok [OF this assms(1)] q r(3)
  have "po_wire q = map (fst \<circ> oe_WriteMessage env \<circ> fst) (po_accepted p)" by (simp add: po_ok_def writingList_def)
  ultimately show ?thesis by blast
qed

section \<open>The properties\<close>

text \<open>
  C23. What is on the wire is a prefix of what was queued, in that order; as long as the peer is
  not going down nothing is missing but the message being written and those that wait, and if the
  connection takes them the queue handler and the write handler alone, without another call of
  \<^verbatim>\<open>queueMsg\<close>, get them all onto the wire.
\<close>

theorem queue_in_order:
  assumes "po_run env newPeerOut p"
  shows "prefix (po_wire p) (map (fst \<circ> oe_WriteMessage env \<circ> fst) (po_accepted p)) \<and>
    (po_disconnect p \<or>
       map (fst \<circ> oe_WriteMessage env \<circ> fst) (po_accepted p) =
         po_wire p @ map (fst \<circ> oe_WriteMessage env \<circ> fst) (writingList p @ po_pendingMsgs p)) \<and>
    (po_disconnect p \<or> (\<exists>b. oe_conn_Write env b \<noteq> None) \<or>
       (\<exists>q. po_works env p q \<and> po_wire q = map (fst \<circ> oe_WriteMessage env \<circ> fst) (po_accepted p)))"
proof -
  have ok: "po_ok env p" by (rule po_ok_run [OF assms po_ok_new])
  then have acc: "po_accepted p = po_done p @ writingList p @ po_pendingMsgs p" by (simp add: po_ok_def)
  have "prefix (po_wire p) (map (fst \<circ> oe_WriteMessage env \<circ> fst) (po_accepted p))"
    using ok unfolding acc map_append by (auto simp: po_ok_def intro: prefix_prefix)
  moreover have "po_disconnect p \<or> po_wire p = map (fst \<circ> oe_WriteMessage env \<circ> fst) (po_done p)"
    using ok by (auto simp: po_ok_def)
  moreover have "po_disconnect p \<or> (\<exists>b. oe_conn_Write env b \<noteq> None) \<or>
      (\<exists>q. po_works env p q \<and> po_wire q = map (fst \<circ> oe_WriteMessage env \<circ> fst) (po_accepted p))"
    using drain [OF ok] by blast
  ultimately show ?thesis by (auto simp: acc)
qed

text \<open>
  A message is reported as sent, with no error, though it was not: when the peer is going
  down while the write handler holds it, and when it could not be encoded, in which case what the
  encoder left in the buffer is written in its place. The caller looks at the first result only.
\<close>

theorem unsent_reported_sent:
  "(po_disconnect p \<longrightarrow>
      po_errChans (writeHandler_msg env (m, Some c) p) c = po_errChans p c @ [None] \<and>
      po_wire (writeHandler_msg env (m, Some c) p) = po_wire p) \<and>
   (\<not> po_disconnect p \<and> oe_WriteMessage env m = (b, Some err) \<and> oe_conn_Write env b = None \<longrightarrow>
      po_errChans (writeHandler_msg env (m, Some c) p) c = po_errChans p c @ [None] \<and>
      po_wire (writeHandler_msg env (m, Some c) p) = po_wire p @ [b]) \<and>
   (FindPeer target s = Inr q \<longrightarrow>
      server_SendToPeer (\<lambda>_. GotErr None # answers) target next msgs s = None)"
  by (auto simp: writeHandler_msg_def writeMessage_def Let_def reportErr_def server_SendToPeer_def sendToPeer_def FindPeer_def
      split: prod.split)

definition out_env :: "nat outEnv" where
  "out_env = \<lparr>oe_WriteMessage = (\<lambda>m. ([word_of_nat m], None)), oe_conn_Write = (\<lambda>_. None)\<rparr>"

theorem queue_in_order_witness:
  "\<exists>q. po_works out_env (queueMsg_accept 2 None (queueMsg_accept 3 None newPeerOut)) q \<and> po_wire q = [[3], [2]]"
proof -
  have "po_step out_env newPeerOut (queueMsg_accept 3 None newPeerOut)"
    by (rule po_step.accept) (simp add: newPeerOut_def)
  moreover have "po_step out_env (queueMsg_accept 3 None newPeerOut) (queueMsg_accept 2 None (queueMsg_accept 3 None newPeerOut))"
    by (rule po_step.accept) (simp add: newPeerOut_def queueMsg_accept_def)
  ultimately have "po_run out_env newPeerOut (queueMsg_accept 2 None (queueMsg_accept 3 None newPeerOut))"
    by (meson po_run.refl po_run.step)
  from queue_in_order [OF this] show ?thesis
    by (simp add: out_env_def newPeerOut_def queueMsg_accept_def)
qed

theorem unsent_reported_sent_witness:
  "po_errChans (writeHandler_msg out_env (3, Some 0) (newPeerOut\<lparr>po_disconnect := True\<rparr>)) 0 = [None] \<and>
   po_wire (writeHandler_msg out_env (3, Some 0) (newPeerOut\<lparr>po_disconnect := True\<rparr>)) = []"
  using unsent_reported_sent [of "newPeerOut\<lparr>po_disconnect := True\<rparr>" out_env 3 0, THEN conjunct1]
  by (simp add: newPeerOut_def)

end
