(* ===== verification/Spec2Isabelle.thy ===== *)
theory Spec2Isabelle
  imports BreachProps CloseProps BeaconProps FundingFaults PeerProps PeerRead PeerQueue
begin

text \<open>
  A verification of the parts of the Lightning daemon under \<^verbatim>\<open>src/lnd/\<close> that guard money:
  the UTXO nursery, which brings time-locked outputs back to the wallet, the breach arbiter,
  which punishes the broadcast of a revoked commitment, the funding manager, which opens
  channels, the cooperative close of a channel, the invoice registry and preimage beacon,
  which know the preimages that claim payments; and of the parts that carry their messages, the
  server with its connections and the peer with its channels.

  \<^bold>\<open>The program.\<close> A closed channel leaves outputs that can be spent only after a delay. The
  nursery (\<^verbatim>\<open>utxonursery.go\<close>) keeps them in a store (\<^verbatim>\<open>nursery_store.go\<close>), a bolt
  database with two indexes (by channel and by block height), through the stages crib,
  preschool, kindergarten and graduated; with each block it sweeps the class of outputs that
  mature there. The breach arbiter (\<^verbatim>\<open>breacharbiter.go\<close>) watches the open channels; on a
  breach it writes what it needs to a second store in the same database, the retribution
  store, and then builds, stores and broadcasts a justice transaction. The funding manager
  (\<^verbatim>\<open>fundingmanager.go\<close>, with the parameters that \<^verbatim>\<open>client.go\<close> gives it) takes two peers from a
  request to a funding transaction, waits for it to confirm, tells the peer, the router and the
  breach arbiter of the channel, and records on disk how far the opening has got. A channel is closed
  cooperatively by a state machine at each end (\<^verbatim>\<open>chancloser.go\<close>) that negotiates the fee of
  the closing transaction. The invoice registry (\<^verbatim>\<open>invoiceregistry.go\<close>) keeps invoices in the
  channel database and tells subscribers of settlements; the preimage beacon
  (\<^verbatim>\<open>witness_beacon.go\<close>) looks preimages up in it and in a cache, and tells subscribers of new
  ones. The server (\<^verbatim>\<open>server.go\<close>) keeps the connections with other nodes: it accepts and makes
  them, keeps one per node, reconnects to the nodes it has channels with, and cleans up after a
  connection has ended. A peer (\<^verbatim>\<open>peer.go\<close>) is one connection: it exchanges features, loads the
  channels with the node and registers their links with the switch, takes over the channels that
  the funding manager has opened, runs the closers, and moves messages between the wire and the
  subsystems.

  \<^bold>\<open>The theories.\<close>
  \<^item> \<^verbatim>\<open>Prelude\<close>: Go errors as values, the monads for readers, transactions and handlers, the
    word and list lemmas all theories use.
  \<^item> \<^verbatim>\<open>GoIO\<close>, \<^verbatim>\<open>WireTx\<close>, \<^verbatim>\<open>SignDesc\<close>, \<^verbatim>\<open>Outputs\<close>: the byte formats. The locale
    \<^verbatim>\<open>codec\<close> states a round trip once and is interpreted for every format: bitcoin
    transactions (vendored \<^verbatim>\<open>wire/msgtx.go\<close>), sign descriptors
    (\<^verbatim>\<open>lnwallet/signdescriptor.go\<close>), and kid, baby and breached outputs.
  \<^item> \<^verbatim>\<open>Bolt\<close>: the database as a tree of buckets, with the calls of bbolt the stores make;
    an error rolls a transaction back.
  \<^item> \<^verbatim>\<open>NurseryStore\<close>: every function of \<^verbatim>\<open>nursery_store.go\<close>, bucket by bucket.
    \<^verbatim>\<open>NurseryView\<close>, \<^verbatim>\<open>NurseryRefine\<close>, \<^verbatim>\<open>NurseryClass\<close>, \<^verbatim>\<open>NurseryQueries\<close>: the
    abstract store (a map from outputs to their stage) and the proof that each method
    implements its operation on it; \<open>repr ns t A R\<close> says that the database \<open>t\<close> represents the
    store \<open>A\<close> and has \<open>R\<close> beside it. \<^verbatim>\<open>NurserySteps\<close>: sequences of calls.
    \<^verbatim>\<open>NurseryProps\<close>: the properties of the store.
  \<^item> \<^verbatim>\<open>TxTools\<close>, \<^verbatim>\<open>TxBuild\<close>: weights, fees and sanity checks of transactions, and what
    signing input by input does to a transaction.
  \<^item> \<^verbatim>\<open>UtxoNursery\<close>: \<^verbatim>\<open>utxonursery.go\<close> over the interface \<^verbatim>\<open>NurseryStore\<close>. The contract
    of that interface is the locale \<^verbatim>\<open>nursery_store\<close> (\<^verbatim>\<open>NurseryContract\<close>), interpreted on
    the bolt store; \<^verbatim>\<open>NurserySweep\<close>, \<^verbatim>\<open>NurseryDriver\<close>, \<^verbatim>\<open>NurseryStartup\<close> and
    \<^verbatim>\<open>NurseryReports\<close> prove the handlers against the contract. \<^verbatim>\<open>UtxoProps\<close>: those of the nursery.
  \<^item> \<^verbatim>\<open>Retribution\<close>: the retribution store and its contract, the locale
    \<^verbatim>\<open>retribution_store\<close>, interpreted on bolt. \<^verbatim>\<open>BreachArbiter\<close>: the arbiter over that
    interface. \<^verbatim>\<open>BreachJustice\<close>, \<^verbatim>\<open>BreachSafety\<close>, \<^verbatim>\<open>BreachSystem\<close>: the justice
    transaction, the goroutine that exacts retribution, and all goroutines as a transition
    system. \<^verbatim>\<open>BreachProps\<close>: the properties of the arbiter.
  \<^item> \<^verbatim>\<open>CloseTx\<close>: the closing transaction, from lnwallet's channel. \<^verbatim>\<open>ChanCloser\<close>: the state
    machine. \<^verbatim>\<open>CloseFees\<close>: the fee arithmetic in integers. \<^verbatim>\<open>CloseTalk\<close>: two machines
    exchanging messages. \<^verbatim>\<open>CloseSafety\<close>: one machine against any messages. \<^verbatim>\<open>CloseProps\<close>:
    the properties of the close.
  \<^item> \<^verbatim>\<open>Sha256\<close>: the hash that relates preimages and payment hashes. \<^verbatim>\<open>InvoiceDB\<close>: the
    invoices of the channel database, as a list of invoices (\<open>irepr t ivs Q\<close>).
    \<^verbatim>\<open>InvoiceRegistry\<close>: the contract of the database, the locale \<^verbatim>\<open>invoice_store\<close>,
    interpreted on it, the registry and its runs. \<^verbatim>\<open>WitnessBeacon\<close>: the witness cache beside the
    invoices, the beacon and its runs. \<^verbatim>\<open>BeaconProps\<close>: the properties of both.
  \<^item> \<^verbatim>\<open>FundingStore\<close>: short channel ids and the bucket of opening states, as a map from
    outpoints (\<open>orepr t S Q\<close>). \<^verbatim>\<open>FundingWallet\<close>: lnwallet's reservations and the wallet handlers
    that the funding flow calls. \<^verbatim>\<open>FundingManager\<close>: messages, state, bookkeeping of reservations.
    \<^verbatim>\<open>FundingFlow\<close>: the handlers of the messages and the coordinator. \<^verbatim>\<open>FundingOpening\<close>: from
    the confirmation to the announced channel. \<^verbatim>\<open>FundingStart\<close>: the peer's \<^verbatim>\<open>FundingLocked\<close>, the
    start, and the goroutines as tasks. \<^verbatim>\<open>FundingParams\<close>: the closures of \<^verbatim>\<open>client.go\<close>.
  \<^item> \<^verbatim>\<open>FundingSystem\<close>: the funding manager as a transition system, with the locale
    \<^verbatim>\<open>funding_invariant\<close>: a property that survives the basic changes of the state survives
    every handler and goroutine. It is interpreted three times, for the bound on the reservations
    of a peer, for the order in which arbiter and peer learn of a channel, and for the barriers.
    \<^verbatim>\<open>FundingRuns\<close>: what each handler does when nothing fails, put together to the whole flow of
    two managers; the wallets' check of a commitment signature is a parameter, of which
    \<open>sigsInterop\<close> says that it passes when the two ends hold mirrored parameters, and nothing is
    said of other parameters. \<^verbatim>\<open>FundingRestart\<close>: what an opening leaves on disk, whatever fails, and
    what a restart, through \<^verbatim>\<open>Start\<close> and its goroutines, does with it. \<^verbatim>\<open>FundingProps\<close>, \<^verbatim>\<open>FundingSafety\<close>, \<^verbatim>\<open>FundingFaults\<close>: the properties,
    the last with what messages of a peer can do to the node.
  \<^item> \<^verbatim>\<open>NetAddr\<close>: addresses of Go's net package. \<^verbatim>\<open>ServerNet\<close>: the parts of \<^verbatim>\<open>server.go\<close> that compute
    without state: backoff, tie breaker, addresses to reconnect to. \<^verbatim>\<open>SwitchLinks\<close>: the link
    indexes of the vendored switch. \<^verbatim>\<open>Server\<close>: the state of the server and its operations.
    \<^verbatim>\<open>ServerSystem\<close>: the server as a transition system, with the locale \<^verbatim>\<open>server_invariant\<close>,
    interpreted four times: for the connections (\<^verbatim>\<open>ServerConns\<close>), the persistent peers
    (\<^verbatim>\<open>ServerKeep\<close>), those who wait for a peer (\<^verbatim>\<open>ServerWaiting\<close>) and the keys of peers
    (\<^verbatim>\<open>ServerProps\<close>, with the properties). \<^verbatim>\<open>ServerPursuit\<close>: the steps that a well-behaved
    connection manager takes, a part of those of the server, and which requests stay with it.
  \<^item> \<^verbatim>\<open>MsgStream\<close>: the stream of messages between the reader of a peer and a subsystem, its
    producers and consumer interleaved. \<^verbatim>\<open>PeerQueue\<close>: the way of a message out; the steps of its two
    goroutines alone are the relation \<open>po_works\<close>. \<^verbatim>\<open>PeerRead\<close>: the
    reader, which feeds the streams, and what a channel's stream does. Each with its properties.
  \<^item> \<^verbatim>\<open>PeerChannels\<close>: the channels of a peer, in a heap, as peer, closer and link share them; loading,
    new channels, closes. \<^verbatim>\<open>PeerCloser\<close>: the closer as the peer uses it. \<^verbatim>\<open>PeerSystem\<close>: the handlers
    as a transition system with the locale \<^verbatim>\<open>peer_invariant\<close>, interpreted for the invariant of the
    channels, which rests on that of the closer. \<^verbatim>\<open>PeerStart\<close>: the handshake, which gives the
    server's parameter for the start of a peer its meaning. \<^verbatim>\<open>PeerProps\<close>: the properties.

  \<^bold>\<open>How code corresponds to definitions.\<close> Definitions carry the names of the Go functions;
  methods whose names clash are prefixed (\<open>un_\<close> nursery, \<open>ba_\<close> arbiter, \<open>rs_\<close> retribution
  store, \<open>ir_\<close> invoice registry, \<open>fm_\<close> funding manager, \<open>db_\<close> channel database, \<open>b_\<close> bucket,
  \<open>server_\<close> and \<open>peer_\<close> methods of these two);
  fields of records that Go names alike carry a prefix too (\<open>om_\<close> open message, \<open>oc_\<close> open
  channel, \<open>s_\<close> server, \<open>p_\<close> and \<open>ps_\<close> peer, \<open>fe_\<close>, \<open>oe_\<close>, \<open>le_\<close>, \<open>se_\<close>, \<open>pe_\<close>, \<open>sa_\<close>, \<open>re_\<close> environments). Integers have the width they have in Go,
  and wrap. A function that returns an error returns a sum; a panic is the error \<open>GoPanic\<close>, a send
  that never goes through the error \<open>GoBlocked\<close>, and logging an error swallows neither. State is a record passed
  along, and a handler that fails keeps what it did before failing. A goroutine is a definition
  that runs from the event it waits for; values sent to it are queued in the state. Objects that
  Go compares by address, or that several parts share, are numbered. Where Go
  lets goroutines share a loop variable, so does the model. The wallet, the chain backend, the
  fee estimator, the signer and the channel database are fields of a configuration record, and
  the order in which Go ranges over a map is one of them.

  \<^bold>\<open>Bounds and fuel.\<close> Recursion is structural or measured; nothing needs fuel. The loop of
  \<^verbatim>\<open>exactRetribution\<close> may run forever; it takes one list element, the answers of the
  backends, per round, and ends with a shutdown where the list ends. The exchange of two channel
  closers takes the number of message batches it may use; that it ends is proved, with a bound.
  Counters of 32 bits (invoices, subscribers) are kept from wrapping by a bound on the number of
  steps of a run. Bolt's key and value size
  limits are part of the model, and the hypotheses \<open>storable\<close>, \<open>storable_ret\<close> and
  \<open>witness_ok\<close> say what fits; that sweeps and justice transactions fit is proved from the
  sanity check and a bound on the signer's witnesses.

  The waits of an opening take the list of events that reach them; a list that ends is a shutdown.

  \<^bold>\<open>What is assumed, and where it fails.\<close> Where the code relies on its callers or on luck, the
  property says so: the methods of the nursery store do not check that an output is at the stage
  they move it from, and without that an output can be stored twice
  (\<open>Incubate_duplicates_kinder\<close>); a persistent peer whose start fails is forgotten; with several
  openings under way a restart may take up the wrong channel; the limit on pending channels is one
  on reservations, which a disconnect forgets; a peer that does not recognise a channel leaves the
  goroutine of its \<^verbatim>\<open>FundingLocked\<close> waiting (\<open>new_channel_waiter_forgotten\<close>).

  \<^bold>\<open>Not modelled.\<close> Signatures (keys are parsed, not used to sign), coin selection and the
  construction of the commitment transactions; the forwarding of payments, which is vendored
  code; of the server the wiring of the subsystems, the node announcement and the search for
  peers to bootstrap from, of the peer its ping timer, the snapshots of its channels and the log of
  its messages. The RPC layer (\<^verbatim>\<open>rpcserver.go\<close>) translates between messages and calls of these
  components; \<^verbatim>\<open>chainregistry.go\<close>, \<^verbatim>\<open>config.go\<close> and the rest of \<^verbatim>\<open>client.go\<close> parse flags and
  construct backends, \<^verbatim>\<open>pilot.go\<close> and \<^verbatim>\<open>nodesigner.go\<close> adapt interfaces of vendored packages,
  and \<^verbatim>\<open>log.go\<close>, \<^verbatim>\<open>signal.go\<close> and \<^verbatim>\<open>version.go\<close> hold no logic of the protocol: they decide
  nothing about channels or money beyond what their callees do. A handler is not preempted in the
  middle: handlers and goroutine bodies are atomic steps, but for the two waits of
  \<^verbatim>\<open>handleFundingLocked\<close>, for the local confirmation and for the peer that takes the channel over (the
  tasks \<open>FinishLocked\<close> and \<open>AwaitNewChan\<close>), the watcher of a connection, where it takes the server's lock, and the two
  ends of a message stream, which are cut at every release of the lock.
\<close>

end
